(* ===== verification/Prelude.thy ===== *)
theory Prelude
  imports
    Main
    "HOL-Library.Word"
    "HOL-Library.Char_ord"
    "HOL-Library.List_Lexorder"
begin

unbundle bit_operations_syntax

section \<open>Shared vocabulary of the development\<close>

text \<open>
  What every component of the model uses: the machine integers of the C++ code, undefined
  behaviour as a value, reads from byte buffers, C strings and decimal numbers, and the
  generic lemmas on them.

  A C++ operation with undefined behaviour (a read past a buffer, a \<open>memcpy\<close> whose
  \<open>size_t\<close> length wrapped, a null dereference, the use of an uninitialised variable)
  returns \<open>Inl\<close> of the kind of misbehaviour; \<open>Inr\<close> is a defined result.
\<close>

named_theorems rtsp_defs "definitions that evaluate a component on concrete input"
named_theorems ub_simps "equations of the undefined-behaviour monad"

subsection \<open>Machine integers\<close>

type_synonym byte = "8 word"
type_synonym u16 = "16 word"
type_synonym u32 = "32 word"
type_synonym u64 = "64 word"

text \<open>Two bytes are equal when their eight bits are; bits past the width are clear.\<close>

lemma byte_eqI:
  assumes "bit a 0 = bit b 0" "bit a 1 = bit b 1" "bit a 2 = bit b 2" "bit a 3 = bit b 3"
    "bit a 4 = bit b 4" "bit a 5 = bit b 5" "bit a 6 = bit b 6" "bit a 7 = bit b 7"
  shows "a = (b :: byte)"
proof (rule bit_word_eqI)
  fix n assume "n < LENGTH(8)"
  then consider "n = 0" | "n = 1" | "n = 2" | "n = 3" | "n = 4" | "n = 5" | "n = 6" | "n = 7"
    by fastforce
  then show "bit a n = bit b n" using assms by cases simp_all
qed

lemma byte_bit_high [simp]: "8 \<le> n \<Longrightarrow> \<not> bit (b :: byte) n"
  using bit_imp_le_length [of b n] by auto

subsection \<open>Undefined behaviour as a value\<close>

datatype ub =
    Overread \<comment> \<open>a read outside the source object\<close>
  | Overrun \<comment> \<open>a write outside the destination object\<close>
  | SizeUnderflow \<comment> \<open>a \<open>size_t\<close> subtraction below zero used as a length\<close>
  | NullDeref
  | EmptyList \<comment> \<open>\<open>front\<close> or \<open>pop_front\<close> of an empty \<open>std::list\<close>\<close>
  | Indeterminate \<comment> \<open>the use of a variable that was never written\<close>
  | Dangling \<comment> \<open>the use of an object that was deleted\<close>
  | Hangs \<comment> \<open>not undefined: the call never returns\<close>

definition ub_bind :: "ub + 'a \<Rightarrow> ('a \<Rightarrow> ub + 'b) \<Rightarrow> ub + 'b" where
  "ub_bind m f = (case m of Inl e \<Rightarrow> Inl e | Inr x \<Rightarrow> f x)"

lemma ub_bind_Inl [simp, ub_simps]: "ub_bind (Inl e) f = Inl e"
  by (simp add: ub_bind_def)

lemma ub_bind_Inr [simp, ub_simps]: "ub_bind (Inr x) f = f x"
  by (simp add: ub_bind_def)

lemma ub_bind_eq_Inr [ub_simps]:
  "ub_bind m f = Inr y \<longleftrightarrow> (\<exists>x. m = Inr x \<and> f x = Inr y)"
  by (cases m) auto

lemma ub_bind_assoc: "ub_bind (ub_bind m f) g = ub_bind m (\<lambda>x. ub_bind (f x) g)"
  by (cases m) auto

text \<open>\<open>defined m\<close>: the operation has no undefined behaviour.\<close>

definition defined :: "ub + 'a \<Rightarrow> bool" where
  "defined m \<longleftrightarrow> (case m of Inl _ \<Rightarrow> False | Inr _ \<Rightarrow> True)"

lemma defined_simps [simp]: "defined (Inr x)" "\<not> defined (Inl e)"
  by (simp_all add: defined_def)

lemma defined_iff: "defined m \<longleftrightarrow> (\<exists>x. m = Inr x)"
  by (cases m) auto

subsection \<open>Byte buffers\<close>

text \<open>\<open>rd p i\<close> is \<open>p[i]\<close>; \<open>memcpy_from p off n\<close> is the source side of
  \<open>memcpy(dst, p + off, n)\<close>.\<close>

definition rd :: "'a list \<Rightarrow> nat \<Rightarrow> ub + 'a" where
  "rd p i = (if i < length p then Inr (p ! i) else Inl Overread)"

definition memcpy_from :: "'a list \<Rightarrow> nat \<Rightarrow> nat \<Rightarrow> ub + 'a list" where
  "memcpy_from p off n =
     (if off + n \<le> length p then Inr (take n (drop off p)) else Inl Overread)"

text \<open>\<open>size_sub a b\<close> is \<open>a - b\<close> on \<open>size_t\<close> where the result is used as a length.\<close>

definition size_sub :: "nat \<Rightarrow> nat \<Rightarrow> ub + nat" where
  "size_sub a b = (if b \<le> a then Inr (a - b) else Inl SizeUnderflow)"

lemma rd_in [simp, ub_simps]: "i < length p \<Longrightarrow> rd p i = Inr (p ! i)"
  by (simp add: rd_def)

lemma rd_out [simp, ub_simps]: "length p \<le> i \<Longrightarrow> rd p i = Inl Overread"
  by (simp add: rd_def)

lemma rd_Cons_0 [simp]: "rd (x # xs) 0 = Inr x"
  by (simp add: rd_def)

lemma rd_Cons_Suc [simp]: "rd (x # xs) (Suc i) = rd xs i"
  by (simp add: rd_def)

lemma memcpy_from_in [simp, ub_simps]:
  "off + n \<le> length p \<Longrightarrow> memcpy_from p off n = Inr (take n (drop off p))"
  by (simp add: memcpy_from_def)

lemma memcpy_from_length: "memcpy_from p off n = Inr xs \<Longrightarrow> length xs = n"
  by (auto simp: memcpy_from_def split: if_splits)

lemma size_sub_in [simp, ub_simps]: "b \<le> a \<Longrightarrow> size_sub a b = Inr (a - b)"
  by (simp add: size_sub_def)

lemma size_sub_out [simp, ub_simps]: "a < b \<Longrightarrow> size_sub a b = Inl SizeUnderflow"
  by (simp add: size_sub_def)

text \<open>Writing \<open>xs\<close> over the front of a fixed-size buffer.\<close>

definition overwrite :: "'a list \<Rightarrow> 'a list \<Rightarrow> ub + 'a list" where
  "overwrite buf xs =
     (if length xs \<le> length buf then Inr (xs @ drop (length xs) buf) else Inl Overrun)"

lemma overwrite_length: "overwrite buf xs = Inr buf' \<Longrightarrow> length buf' = length buf"
  by (auto simp: overwrite_def split: if_splits)

lemma overwrite_take: "overwrite buf xs = Inr buf' \<Longrightarrow> take (length xs) buf' = xs"
  by (auto simp: overwrite_def split: if_splits)

subsection \<open>Strings\<close>

text \<open>
  A \<open>std::string\<close> is a \<open>string\<close>; \<open>cstr s\<close> is what a C function sees of
  \<open>s.c_str()\<close> (the text before the first NUL). Bytes and characters convert by
  \<open>byte_of_char\<close> and \<open>char_of_byte\<close>.
\<close>

definition cstr :: "string \<Rightarrow> string" where
  "cstr s = takeWhile (\<lambda>c. c \<noteq> CHR 0x00) s"

definition byte_of_char :: "char \<Rightarrow> byte" where
  "byte_of_char c = word_of_nat (of_char c)"

definition char_of_byte :: "byte \<Rightarrow> char" where
  "char_of_byte b = char_of (unat b)"

abbreviation bytes_of :: "string \<Rightarrow> byte list" where
  "bytes_of s \<equiv> map byte_of_char s"

abbreviation string_of :: "byte list \<Rightarrow> string" where
  "string_of bs \<equiv> map char_of_byte bs"

lemma unat_byte_of_char: "unat (byte_of_char c) = of_char c"
  by (simp add: byte_of_char_def unat_of_nat take_bit_eq_mod)

lemma char_of_byte_of_char [simp]: "char_of_byte (byte_of_char c) = c"
  by (simp add: char_of_byte_def unat_byte_of_char)

lemma byte_of_char_of_byte [simp]: "byte_of_char (char_of_byte b) = b"
proof -
  have "unat (byte_of_char (char_of_byte b)) = unat b mod 256"
    by (simp add: unat_byte_of_char char_of_byte_def)
  also have "\<dots> = unat b"
    using unsigned_less [of b, where ?'a = nat] by simp
  finally show ?thesis
    by (simp only: word_unat_eq_iff)
qed

lemma string_of_bytes_of [simp]: "string_of (bytes_of s) = s"
  by (induction s) simp_all

lemma bytes_of_string_of [simp]: "bytes_of (string_of bs) = bs"
  by (induction bs) simp_all

lemma cstr_id: "CHR 0x00 \<notin> set s \<Longrightarrow> cstr s = s"
  by (auto simp: cstr_def takeWhile_eq_all_conv)

lemma cstr_no_nul [simp]: "CHR 0x00 \<notin> set (cstr s)"
  by (auto simp: cstr_def dest: set_takeWhileD)

lemma cstr_cstr [simp]: "cstr (cstr s) = cstr s"
  by (simp add: cstr_id)

lemma cstr_length: "length (cstr s) \<le> length s"
  by (simp add: cstr_def length_takeWhile_le)

definition crlf :: string where
  "crlf = [CHR 0x0D, CHR 0x0A]"

subsection \<open>Decimal numbers\<close>

text \<open>\<open>stream << n\<close> for an unsigned \<open>n\<close>, and the digits of a number.\<close>

definition digit_char :: "nat \<Rightarrow> char" where
  "digit_char d = char_of (48 + d)"

fun show_nat :: "nat \<Rightarrow> string" where
  "show_nat n = (if n < 10 then [digit_char n] else show_nat (n div 10) @ [digit_char (n mod 10)])"

declare show_nat.simps [simp del]

definition is_digit :: "char \<Rightarrow> bool" where
  "is_digit c \<longleftrightarrow> (of_char c :: nat) \<in> {48..57}"

definition digit_val :: "char \<Rightarrow> nat" where
  "digit_val c = of_char c - 48"

fun digits_val :: "nat \<Rightarrow> string \<Rightarrow> nat" where
  "digits_val acc [] = acc"
| "digits_val acc (c # cs) = digits_val (10 * acc + digit_val c) cs"

lemma digits_val_append: "digits_val acc (xs @ ys) = digits_val (digits_val acc xs) ys"
  by (induction xs arbitrary: acc) simp_all

lemma of_char_digit: "d < 10 \<Longrightarrow> (of_char (digit_char d) :: nat) = 48 + d"
  by (simp add: digit_char_def)

lemma digit_char_digit: "d < 10 \<Longrightarrow> is_digit (digit_char d)"
  by (simp add: is_digit_def of_char_digit)

lemma digit_val_char: "d < 10 \<Longrightarrow> digit_val (digit_char d) = d"
  by (simp add: digit_val_def of_char_digit)

lemma show_nat_digits: "c \<in> set (show_nat n) \<Longrightarrow> is_digit c"
proof (induction n rule: show_nat.induct)
  case (1 n)
  then show ?case
    by (subst (asm) show_nat.simps) (auto simp: digit_char_digit split: if_splits)
qed

lemma show_nat_nonempty [simp]: "show_nat n \<noteq> []"
  by (subst show_nat.simps) simp

text \<open>Reading back what was printed gives the number.\<close>

lemma digits_val_show_nat: "digits_val 0 (show_nat n) = n"
proof (induction n rule: show_nat.induct)
  case (1 n)
  show ?case
  proof (cases "n < 10")
    case True
    then show ?thesis by (subst show_nat.simps) (simp add: digit_val_char)
  next
    case False
    with 1 show ?thesis
      by (subst show_nat.simps) (simp add: digits_val_append digit_val_char)
  qed
qed

lemma show_nat_inject: "show_nat m = show_nat n \<Longrightarrow> m = n"
  by (metis digits_val_show_nat)

text \<open>
  \<open>strtol(s, NULL, 10)\<close> as glibc does it (blanks, a sign, digits, saturation at the limits
  of a 64-bit \<open>long\<close>), and \<open>atoi(s)\<close>, its conversion to a 32-bit \<open>int\<close>.
\<close>

definition is_space :: "char \<Rightarrow> bool" where
  "is_space c \<longleftrightarrow> c = CHR '' '' \<or> (of_char c :: nat) \<in> {9..13}"

definition skip_ws :: "string \<Rightarrow> string" where
  "skip_ws s = dropWhile is_space s"

definition take_digits :: "string \<Rightarrow> string" where
  "take_digits s = takeWhile is_digit s"

definition sign_of :: "string \<Rightarrow> bool \<times> string" where
  "sign_of s =
     (case s of
        c # cs \<Rightarrow> if c = CHR ''-'' then (True, cs) else if c = CHR ''+'' then (False, cs) else (False, s)
      | [] \<Rightarrow> (False, []))"

definition clamp :: "int \<Rightarrow> int \<Rightarrow> int \<Rightarrow> int" where
  "clamp lo hi x = max lo (min hi x)"

definition strtol :: "string \<Rightarrow> int" where
  "strtol s =
     (let (neg, r) = sign_of (skip_ws (cstr s)); v = int (digits_val 0 (take_digits r))
      in clamp (- (2 ^ 63)) (2 ^ 63 - 1) (if neg then - v else v))"

definition atoi :: "string \<Rightarrow> int" where
  "atoi s = sint (word_of_int (strtol s) :: 32 word)"

lemma is_digit_not_space: "is_digit c \<Longrightarrow> \<not> is_space c"
  by (auto simp: is_digit_def is_space_def)

lemma is_digit_not_nul: "is_digit c \<Longrightarrow> c \<noteq> CHR 0x00"
  by (auto simp: is_digit_def)

lemma is_digit_not_sign: "is_digit c \<Longrightarrow> c \<noteq> CHR ''-'' \<and> c \<noteq> CHR ''+''"
  by (auto simp: is_digit_def)

lemma strtol_digits:
  assumes "\<forall>c \<in> set ds. is_digit c" "ds \<noteq> []" "digits_val 0 ds < 2 ^ 63"
  shows "strtol ds = int (digits_val 0 ds)"
proof -
  obtain c cs where ds: "ds = c # cs" using assms(2) by (cases ds) auto
  have "cstr ds = ds"
    using assms(1) is_digit_not_nul by (intro cstr_id) auto
  moreover have "skip_ws ds = ds"
    using assms(1) by (simp add: ds skip_ws_def is_digit_not_space)
  moreover have "sign_of ds = (False, ds)"
    using assms(1) is_digit_not_sign by (simp add: ds sign_of_def)
  moreover have "take_digits ds = ds"
    using assms(1) by (simp add: take_digits_def takeWhile_eq_all_conv)
  ultimately show ?thesis
    using assms(3) by (simp add: strtol_def clamp_def)
qed

lemma atoi_show_nat: "n < 2 ^ 31 \<Longrightarrow> atoi (show_nat n) = int n"
  using strtol_digits [of "show_nat n"] show_nat_digits [of _ n]
  by (simp add: atoi_def digits_val_show_nat signed_of_nat signed_take_bit_int_eq_self)

subsection \<open>Searching in strings\<close>

text \<open>\<open>find_sub needle s\<close>: the offset of the first occurrence (\<open>std::string::find\<close>),
  \<open>None\<close> for \<open>npos\<close>.\<close>

fun is_prefix :: "'a list \<Rightarrow> 'a list \<Rightarrow> bool" where
  "is_prefix [] s \<longleftrightarrow> True"
| "is_prefix (c # needle) s \<longleftrightarrow> (case s of [] \<Rightarrow> False | d # r \<Rightarrow> d = c \<and> is_prefix needle r)"

fun find_sub :: "'a list \<Rightarrow> 'a list \<Rightarrow> nat option" where
  "find_sub needle s =
     (if is_prefix needle s then Some 0
      else case s of [] \<Rightarrow> None | _ # r \<Rightarrow> map_option Suc (find_sub needle r))"

declare find_sub.simps [simp del]

lemma is_prefix_iff: "is_prefix xs ys \<longleftrightarrow> (\<exists>zs. ys = xs @ zs)"
  by (induction xs arbitrary: ys) (auto split: list.split)

lemma find_sub_Some:
  "find_sub needle s = Some i \<Longrightarrow> i + length needle \<le> length s \<and> is_prefix needle (drop i s)"
proof (induction needle s arbitrary: i rule: find_sub.induct)
  case (1 needle s)
  show ?case
  proof (cases "is_prefix needle s")
    case True
    with 1(2) show ?thesis
      by (subst (asm) find_sub.simps) (auto simp: is_prefix_iff)
  next
    case False
    with 1 show ?thesis
      by (subst (asm) (2) find_sub.simps) (fastforce split: list.splits)
  qed
qed

lemma find_sub_least:
  "find_sub needle s = Some i \<Longrightarrow> j < i \<Longrightarrow> \<not> is_prefix needle (drop j s)"
proof (induction needle s arbitrary: i j rule: find_sub.induct)
  case (1 needle s)
  show ?case
  proof (cases "is_prefix needle s")
    case True
    with 1(2,3) show ?thesis by (subst (asm) find_sub.simps) simp
  next
    case False
    with 1(2,3) obtain c r i' where s: "s = c # r" "find_sub needle r = Some i'" "i = Suc i'"
      by (subst (asm) find_sub.simps) (auto split: list.splits)
    show ?thesis
      using 1(1) [OF False s(1,2)] False 1(3) s(1,3) by (cases j) auto
  qed
qed

lemma find_sub_None: "find_sub needle s = None \<Longrightarrow> \<not> is_prefix needle (drop j s)"
proof (induction needle s arbitrary: j rule: find_sub.induct)
  case (1 needle s)
  show ?case
  proof (cases "is_prefix needle s")
    case True
    with 1(2) show ?thesis by (subst (asm) find_sub.simps) simp
  next
    case False
    show ?thesis
    proof (cases s)
      case Nil
      then show ?thesis using False by simp
    next
      case (Cons c r)
      then have "find_sub needle r = None" using 1(2) False by (subst (asm) find_sub.simps) simp
      then show ?thesis using 1(1) [OF False Cons] False Cons by (cases j) auto
    qed
  qed
qed

end
