(* ===== verification/Md5.thy ===== *)
theory Md5
  imports Prelude
begin

section \<open>MD5 (third_party/md5, and Md5sum32 of utils.cpp)\<close>

text \<open>
  The digest that the client's authentication uses. \<open>md5_ctx\<close> is the struct \<open>MD5_CTX\<close> (its
  buffer holds 64 bytes, not initialised by \<open>MD5Init\<close>); all arithmetic is on 32-bit words.
  \<open>md5_whole\<close> is what the block transformation of the code gives on a whole padded message, and
  \<open>md5_repr\<close> relates a context to the bytes it has been fed. That the result is the digest of
  RFC 1321 is shown in \<open>Md5_Rfc\<close>.
\<close>

type_synonym md5_state = "u32 \<times> u32 \<times> u32 \<times> u32"

record md5_ctx =
  count0 :: u32
  count1 :: u32
  md5_st :: md5_state
  md5_buffer :: "byte list"

definition PADDING :: "byte list" where
  "PADDING = 0x80 # replicate 63 0"

definition md5_init :: md5_state where
  "md5_init = (0x67452301, 0xEFCDAB89, 0x98BADCFE, 0x10325476)"

definition MD5Init :: "md5_ctx \<Rightarrow> md5_ctx" where
  "MD5Init ctx = ctx\<lparr>count0 := 0, count1 := 0, md5_st := md5_init\<rparr>"

subsection \<open>The block transformation\<close>

definition md5_F :: "u32 \<Rightarrow> u32 \<Rightarrow> u32 \<Rightarrow> u32" where "md5_F x y z = (x AND y) OR (NOT x AND z)"
definition md5_G :: "u32 \<Rightarrow> u32 \<Rightarrow> u32 \<Rightarrow> u32" where "md5_G x y z = (x AND z) OR (y AND NOT z)"
definition md5_H :: "u32 \<Rightarrow> u32 \<Rightarrow> u32 \<Rightarrow> u32" where "md5_H x y z = x XOR y XOR z"
definition md5_I :: "u32 \<Rightarrow> u32 \<Rightarrow> u32 \<Rightarrow> u32" where "md5_I x y z = y XOR (x OR NOT z)"

definition ROTATE_LEFT :: "u32 \<Rightarrow> nat \<Rightarrow> u32" where
  "ROTATE_LEFT x n = push_bit n x OR drop_bit (32 - n) x"

datatype md5_macro = RFF | RGG | RHH | RII

fun md5_mix :: "md5_macro \<Rightarrow> u32 \<Rightarrow> u32 \<Rightarrow> u32 \<Rightarrow> u32" where
  "md5_mix RFF = md5_F"
| "md5_mix RGG = md5_G"
| "md5_mix RHH = md5_H"
| "md5_mix RII = md5_I"

text \<open>
  The body of the macros \<open>FF\<close>, \<open>GG\<close>, \<open>HH\<close> and \<open>II\<close>, the value assigned to their first
  argument; and one line of \<open>MD5Transform\<close>. The lines name the registers as
  \<open>(a,b,c,d)\<close>, \<open>(d,a,b,c)\<close>, \<open>(c,d,a,b)\<close>, \<open>(b,c,d,a)\<close> in turn: \<open>md5_step\<close> turns the
  registers the same way, so that after four lines they are back in place.
\<close>

definition md5_assign :: "md5_macro \<Rightarrow> u32 \<Rightarrow> u32 \<Rightarrow> u32 \<Rightarrow> u32 \<Rightarrow> u32 \<Rightarrow> nat \<Rightarrow> u32 \<Rightarrow> u32" where
  "md5_assign r a b c d x s ac = ROTATE_LEFT (a + (md5_mix r b c d + x + ac)) s + b"

fun md5_step :: "u32 list \<Rightarrow> md5_macro \<times> nat \<times> nat \<times> u32 \<Rightarrow> md5_state \<Rightarrow> md5_state" where
  "md5_step x (r, k, s, ac) (a, b, c, d) = (d, md5_assign r a b c d (x ! k) s ac, b, c)"

fun md5_steps :: "u32 list \<Rightarrow> (md5_macro \<times> nat \<times> nat \<times> u32) list \<Rightarrow> md5_state \<Rightarrow> md5_state" where
  "md5_steps x [] st = st"
| "md5_steps x (row # rows) st = md5_steps x rows (md5_step x row st)"

definition md5_lines :: "(md5_macro \<times> nat \<times> nat \<times> u32) list" where
  "md5_lines =
    [(RFF, 0, 7, 0xd76aa478), (RFF, 1, 12, 0xe8c7b756),
     (RFF, 2, 17, 0x242070db), (RFF, 3, 22, 0xc1bdceee),
     (RFF, 4, 7, 0xf57c0faf), (RFF, 5, 12, 0x4787c62a),
     (RFF, 6, 17, 0xa8304613), (RFF, 7, 22, 0xfd469501),
     (RFF, 8, 7, 0x698098d8), (RFF, 9, 12, 0x8b44f7af),
     (RFF, 10, 17, 0xffff5bb1), (RFF, 11, 22, 0x895cd7be),
     (RFF, 12, 7, 0x6b901122), (RFF, 13, 12, 0xfd987193),
     (RFF, 14, 17, 0xa679438e), (RFF, 15, 22, 0x49b40821),
     (RGG, 1, 5, 0xf61e2562), (RGG, 6, 9, 0xc040b340),
     (RGG, 11, 14, 0x265e5a51), (RGG, 0, 20, 0xe9b6c7aa),
     (RGG, 5, 5, 0xd62f105d), (RGG, 10, 9, 0x2441453),
     (RGG, 15, 14, 0xd8a1e681), (RGG, 4, 20, 0xe7d3fbc8),
     (RGG, 9, 5, 0x21e1cde6), (RGG, 14, 9, 0xc33707d6),
     (RGG, 3, 14, 0xf4d50d87), (RGG, 8, 20, 0x455a14ed),
     (RGG, 13, 5, 0xa9e3e905), (RGG, 2, 9, 0xfcefa3f8),
     (RGG, 7, 14, 0x676f02d9), (RGG, 12, 20, 0x8d2a4c8a),
     (RHH, 5, 4, 0xfffa3942), (RHH, 8, 11, 0x8771f681),
     (RHH, 11, 16, 0x6d9d6122), (RHH, 14, 23, 0xfde5380c),
     (RHH, 1, 4, 0xa4beea44), (RHH, 4, 11, 0x4bdecfa9),
     (RHH, 7, 16, 0xf6bb4b60), (RHH, 10, 23, 0xbebfbc70),
     (RHH, 13, 4, 0x289b7ec6), (RHH, 0, 11, 0xeaa127fa),
     (RHH, 3, 16, 0xd4ef3085), (RHH, 6, 23, 0x4881d05),
     (RHH, 9, 4, 0xd9d4d039), (RHH, 12, 11, 0xe6db99e5),
     (RHH, 15, 16, 0x1fa27cf8), (RHH, 2, 23, 0xc4ac5665),
     (RII, 0, 6, 0xf4292244), (RII, 7, 10, 0x432aff97),
     (RII, 14, 15, 0xab9423a7), (RII, 5, 21, 0xfc93a039),
     (RII, 12, 6, 0x655b59c3), (RII, 3, 10, 0x8f0ccc92),
     (RII, 10, 15, 0xffeff47d), (RII, 1, 21, 0x85845dd1),
     (RII, 8, 6, 0x6fa87e4f), (RII, 15, 10, 0xfe2ce6e0),
     (RII, 6, 15, 0xa3014314), (RII, 13, 21, 0x4e0811a1),
     (RII, 4, 6, 0xf7537e82), (RII, 11, 10, 0xbd3af235),
     (RII, 2, 15, 0x2ad7d2bb), (RII, 9, 21, 0xeb86d391)]"

text \<open>Words and little-endian bytes; whole groups of four are converted.\<close>

fun MD5Decode :: "byte list \<Rightarrow> u32 list" where
  "MD5Decode (b0 # b1 # b2 # b3 # r) =
     (ucast b0 OR push_bit 8 (ucast b1) OR push_bit 16 (ucast b2) OR push_bit 24 (ucast b3)) # MD5Decode r"
| "MD5Decode _ = []"

fun MD5Encode :: "u32 list \<Rightarrow> byte list" where
  "MD5Encode [] = []"
| "MD5Encode (w # ws) =
     ucast (w AND 0xFF) # ucast (drop_bit 8 w AND 0xFF) # ucast (drop_bit 16 w AND 0xFF) #
     ucast (drop_bit 24 w AND 0xFF) # MD5Encode ws"

definition add_state :: "md5_state \<Rightarrow> md5_state \<Rightarrow> md5_state" where
  "add_state s t =
     (case s of (s0, s1, s2, s3) \<Rightarrow> case t of (a, b, c, d) \<Rightarrow> (s0 + a, s1 + b, s2 + c, s3 + d))"

definition MD5Transform :: "md5_state \<Rightarrow> byte list \<Rightarrow> md5_state" where
  "MD5Transform st block = add_state st (md5_steps (MD5Decode block) md5_lines st)"

subsection \<open>Streaming\<close>

text \<open>\<open>memcpy(&buffer[off], xs, length xs)\<close>.\<close>

definition put_at :: "'a list \<Rightarrow> nat \<Rightarrow> 'a list \<Rightarrow> ub + 'a list" where
  "put_at buf off xs =
     (if off + length xs \<le> length buf then Inr (take off buf @ xs @ drop (off + length xs) buf)
      else Inl Overrun)"

text \<open>\<open>for(i = partlen; i+64 <= inputlen; i+=64)\<close>, the sum an unsigned 32-bit one: the states
  after it and the last \<open>i\<close>.\<close>

function md5_blocks :: "md5_state \<Rightarrow> byte list \<Rightarrow> nat \<Rightarrow> nat \<Rightarrow> ub + (md5_state \<times> nat)" where
  "md5_blocks st input n i =
     (if (i + 64) mod 2 ^ 32 \<le> n then
        if i + 64 \<le> n
        then ub_bind (memcpy_from input i 64) (\<lambda>blk. md5_blocks (MD5Transform st blk) input n (i + 64))
        else Inl Overread
      else Inr (st, i))"
  by pat_completeness auto

termination by (relation "measure (\<lambda>(st, input, n, i). n - i)") auto

declare md5_blocks.simps [simp del]

definition MD5Update :: "md5_ctx \<Rightarrow> byte list \<Rightarrow> u32 \<Rightarrow> ub + md5_ctx" where
  "MD5Update ctx input inputlen =
     (let index = unat (drop_bit 3 (count0 ctx) AND 0x3F);
          partlen = 64 - index;
          n = unat inputlen;
          c0 = count0 ctx + push_bit 3 inputlen;
          c1 = (if c0 < push_bit 3 inputlen then count1 ctx + 1 else count1 ctx) + drop_bit 29 inputlen;
          ctx1 = ctx\<lparr>count0 := c0, count1 := c1\<rparr>
      in if partlen \<le> n then
           ub_bind (memcpy_from input 0 partlen) (\<lambda>part.
           ub_bind (put_at (md5_buffer ctx) index part) (\<lambda>buf.
           ub_bind (md5_blocks (MD5Transform (md5_st ctx) buf) input n partlen) (\<lambda>(st, i).
           ub_bind (memcpy_from input i (n - i)) (\<lambda>rest.
           ub_bind (put_at buf 0 rest) (\<lambda>buf'.
           Inr (ctx1\<lparr>md5_st := st, md5_buffer := buf'\<rparr>))))))
         else
           ub_bind (memcpy_from input 0 n) (\<lambda>rest.
           ub_bind (put_at (md5_buffer ctx) index rest) (\<lambda>buf'.
           Inr (ctx1\<lparr>md5_buffer := buf'\<rparr>))))"

definition state_words :: "md5_state \<Rightarrow> u32 list" where
  "state_words st = (case st of (a, b, c, d) \<Rightarrow> [a, b, c, d])"

definition MD5Final :: "md5_ctx \<Rightarrow> ub + (md5_ctx \<times> byte list)" where
  "MD5Final ctx =
     (let index = unat (drop_bit 3 (count0 ctx) AND 0x3F);
          padlen = (if index < 56 then 56 - index else 120 - index);
          bits = MD5Encode [count0 ctx, count1 ctx]
      in ub_bind (MD5Update ctx PADDING (word_of_nat padlen)) (\<lambda>ctx1.
         ub_bind (MD5Update ctx1 bits 8) (\<lambda>ctx2.
         Inr (ctx2, MD5Encode (state_words (md5_st ctx2))))))"

subsection \<open>The hexadecimal digest\<close>

definition hex_digit :: "nat \<Rightarrow> char" where
  "hex_digit d = ''0123456789abcdef'' ! d"

definition hex_byte :: "byte \<Rightarrow> string" where
  "hex_byte b = [hex_digit (unat b div 16), hex_digit (unat b mod 16)]"

text \<open>\<open>Md5sum32(input, output, input_size, output_size)\<close>: the return code and the output
  buffer. \<open>ctx0\<close> is the uninitialised local context.\<close>

definition Md5sum32 :: "md5_ctx \<Rightarrow> byte list option \<Rightarrow> string option \<Rightarrow> nat \<Rightarrow> nat \<Rightarrow> ub + (int \<times> string option)" where
  "Md5sum32 ctx0 input out input_size output_size =
     (case input of
        None \<Rightarrow> Inr (-1, out)
      | Some inp \<Rightarrow>
          case out of
            None \<Rightarrow> Inr (-2, None)
          | Some o' \<Rightarrow>
              if output_size < 32 then Inr (-3, out)
              else
                ub_bind (MD5Update (MD5Init ctx0) inp (word_of_nat input_size)) (\<lambda>ctx1.
                ub_bind (MD5Final ctx1) (\<lambda>(ctx2, digest).
                ub_bind (put_at o' 0 (concat (map hex_byte digest))) (\<lambda>o''.
                Inr (0, Some o'')))))"

subsection \<open>The block transformation on whole messages\<close>

function md5_fold :: "md5_state \<Rightarrow> byte list \<Rightarrow> md5_state" where
  "md5_fold st m =
     (if length m < 64 then st else md5_fold (MD5Transform st (take 64 m)) (drop 64 m))"
  by pat_completeness auto

termination by (relation "measure (length \<circ> snd)") auto

declare md5_fold.simps [simp del]

definition md5_padding :: "nat \<Rightarrow> byte list" where
  "md5_padding n = 0x80 # replicate ((119 - n mod 64) mod 64) 0"

definition le64 :: "nat \<Rightarrow> byte list" where
  "le64 n = MD5Encode [word_of_nat n, word_of_nat (n div 2 ^ 32)]"

definition md5_whole :: "byte list \<Rightarrow> byte list" where
  "md5_whole m =
     MD5Encode (state_words (md5_fold md5_init (m @ md5_padding (length m) @ le64 (8 * length m))))"

lemma md5_fold_short [simp]: "length m < 64 \<Longrightarrow> md5_fold st m = st"
  by (simp add: md5_fold.simps)

lemma md5_fold_block:
  "length b = 64 \<Longrightarrow> md5_fold st (b @ m) = md5_fold (MD5Transform st b) m"
  by (simp add: md5_fold.simps [of st "b @ m"])

lemma md5_fold_append:
  "length a = 64 * k \<Longrightarrow> md5_fold st (a @ b) = md5_fold (md5_fold st a) b"
proof (induction k arbitrary: a st)
  case (Suc k)
  obtain x y where a: "a = x @ y" "length x = 64"
    using Suc.prems by (metis append_take_drop_id length_take le_add1 mult_Suc_right min.absorb2)
  then have "length y = 64 * k" using Suc.prems by simp
  with a Suc.IH [of y] show ?case by (simp add: md5_fold_block)
qed simp

text \<open>A partial block at the end of a message does not count.\<close>

lemma split_blocks:
  obtains a r where "m = a @ r" "length a = 64 * (length m div 64)" "length r = length m mod 64"
proof
  show "m = take (64 * (length m div 64)) m @ drop (64 * (length m div 64)) m" by simp
  show "length (take (64 * (length m div 64)) m) = 64 * (length m div 64)" by simp
  show "length (drop (64 * (length m div 64)) m) = length m mod 64"
    by (simp add: minus_mult_div_eq_mod)
qed

lemma md5_fold_tail:
  assumes "length a = 64 * k" "length r < 64"
  shows "md5_fold st (a @ r) = md5_fold st a"
  using md5_fold_append [OF assms(1)] assms(2) by simp

subsection \<open>The context represents the bytes it was fed\<close>

definition md5_repr :: "md5_ctx \<Rightarrow> byte list \<Rightarrow> bool" where
  "md5_repr ctx m \<longleftrightarrow>
     length (md5_buffer ctx) = 64 \<and>
     count0 ctx = word_of_nat (8 * length m) \<and>
     count1 ctx = word_of_nat (8 * length m div 2 ^ 32) \<and>
     md5_st ctx = md5_fold md5_init m \<and>
     take (length m mod 64) (md5_buffer ctx) = drop (64 * (length m div 64)) m"

lemma MD5Init_repr: "length (md5_buffer ctx) = 64 \<Longrightarrow> md5_repr (MD5Init ctx) []"
  by (simp add: md5_repr_def MD5Init_def)

lemma md5_index_word:
  "unat (drop_bit 3 (word_of_nat k :: u32) AND 0x3F) = (k mod 2 ^ 32 div 8) mod 64"
proof -
  have "drop_bit 3 (word_of_nat k :: u32) AND 0x3F = take_bit 6 (drop_bit 3 (word_of_nat k))"
    by (simp add: take_bit_eq_mask mask_numeral)
  then have "unat (drop_bit 3 (word_of_nat k :: u32) AND 0x3F) =
      take_bit 6 (drop_bit 3 (take_bit 32 k))"
    by (simp only: unsigned_take_bit_eq unsigned_drop_bit_eq unsigned_of_nat) simp
  then show ?thesis by (simp add: take_bit_eq_mod drop_bit_eq_div)
qed

lemma md5_index: "unat (drop_bit 3 (word_of_nat (8 * n) :: u32) AND 0x3F) = n mod 64"
proof -
  have "(8 * n) mod 2 ^ 32 = 8 * (n mod 2 ^ 29)"
    using mult_mod_right [of 8 n "2 ^ 29"] by simp
  then have "(8 * n) mod 2 ^ 32 div 8 = n mod 2 ^ 29" by simp
  moreover have "(64 :: nat) dvd 2 ^ 29" by simp
  ultimately show ?thesis by (simp only: md5_index_word mod_mod_cancel)
qed

lemma md5_count0:
  "(word_of_nat (8 * a) :: u32) + push_bit 3 (word_of_nat b) = word_of_nat (8 * (a + b))"
  by (simp add: push_bit_eq_mult)

text \<open>The carry from the low to the high word of the bit count.\<close>

lemma add_carry:
  fixes P Q N :: nat
  assumes "P < N" "Q < N"
  shows "(P + Q) div N = (if (P + Q) mod N < Q then 1 else 0)"
proof (cases "P + Q < N")
  case True
  then show ?thesis by simp
next
  case False
  define R where "R = P + Q - N"
  have R: "P + Q = R + N" "R < N" "R < Q" using assms False by (auto simp: R_def)
  have "(R + N) div N = 1" "(R + N) mod N = R"
    using R(2) assms(1) by (simp_all add: div_add_self2)
  then show ?thesis using R by simp
qed

lemma md5_carry:
  fixes A B N :: nat
  assumes "0 < N"
  shows "(A + B) div N = A div N + (if (A + B) mod N < B mod N then 1 else 0) + B div N"
proof -
  have "(A mod N + B mod N) div N = (if (A mod N + B mod N) mod N < B mod N then 1 else 0)"
    using assms by (intro add_carry) simp_all
  then show ?thesis
    by (simp only: div_add1_eq [of A B N] mod_add_eq)
qed

lemma md5_count1:
  assumes "b < 2 ^ 32"
  shows "(if (word_of_nat (8 * (a + b)) :: u32) < push_bit 3 (word_of_nat b)
          then word_of_nat (8 * a div 2 ^ 32) + 1 else word_of_nat (8 * a div 2 ^ 32)) +
         drop_bit 29 (word_of_nat b :: u32) = (word_of_nat (8 * (a + b) div 2 ^ 32) :: u32)"
proof -
  have sh: "push_bit 3 (word_of_nat b :: u32) = word_of_nat (8 * b)"
    by (simp add: push_bit_eq_mult)
  have less: "(word_of_nat x :: u32) < word_of_nat y \<longleftrightarrow> x mod 2 ^ 32 < y mod 2 ^ 32" for x y
    by (simp add: word_less_nat_alt unsigned_of_nat take_bit_eq_mod)
  have "unat (word_of_nat b :: u32) = b"
    using assms by (simp add: unsigned_of_nat take_bit_nat_eq_self)
  then have "unat (drop_bit 29 (word_of_nat b :: u32)) = drop_bit 29 (take_bit 32 b)"
    by (simp only: unsigned_drop_bit_eq) simp
  then have "unat (drop_bit 29 (word_of_nat b :: u32)) = b div 2 ^ 29"
    using assms by (simp add: take_bit_nat_eq_self drop_bit_eq_div)
  then have dr: "drop_bit 29 (word_of_nat b :: u32) = word_of_nat (b div 2 ^ 29)"
    by (metis of_nat_unat ucast_id)
  have b: "8 * b div 2 ^ 32 = b div 2 ^ 29"
    using div_mult2_eq [of "8 * b" 8 "2 ^ 29"] by simp
  have "8 * (a + b) div 2 ^ 32 =
      8 * a div 2 ^ 32 + (if 8 * (a + b) mod 2 ^ 32 < 8 * b mod 2 ^ 32 then 1 else 0) + b div 2 ^ 29"
    using md5_carry [of "2 ^ 32" "8 * a" "8 * b"] unfolding b distrib_left [symmetric] by simp
  then show ?thesis
    unfolding sh dr less by (simp only: of_nat_add) simp
qed

text \<open>The loop over whole blocks; the sum does not wrap for inputs below 2^32 - 64 bytes.\<close>

lemma md5_blocks_fold:
  assumes "n + 64 < 2 ^ 32" "n = length input" "i \<le> n"
  shows "md5_blocks st input n i =
    Inr (md5_fold st (drop i input), i + 64 * ((n - i) div 64))"
  using assms
proof (induction st input n i rule: md5_blocks.induct)
  case (1 st input n i)
  have nowrap: "(i + 64) mod 2 ^ 32 = i + 64" using "1.prems" by simp
  show ?case
  proof (cases "i + 64 \<le> n")
    case True
    then have blk: "memcpy_from input i 64 = Inr (take 64 (drop i input))"
      using "1.prems" by simp
    have "(n - i) div 64 = Suc ((n - (i + 64)) div 64)"
      using True by (simp add: div_if [of "n - i"])
    moreover have "md5_fold st (drop i input) =
        md5_fold (MD5Transform st (take 64 (drop i input))) (drop (i + 64) input)"
      using True "1.prems" md5_fold_block [of "take 64 (drop i input)" st "drop (i + 64) input"]
        append_take_drop_id [of 64 "drop i input"] by (simp add: add.commute)
    ultimately show ?thesis
      using "1.IH" [of "take 64 (drop i input)"] True "1.prems"
      by (subst md5_blocks.simps) (simp only: nowrap blk ub_bind_Inr if_True; simp)
  next
    case False
    then show ?thesis
      using "1.prems" by (subst md5_blocks.simps) (simp only: nowrap; simp)
  qed
qed

lemma put_at_fill:
  "off + length xs = length buf \<Longrightarrow> put_at buf off xs = Inr (take off buf @ xs)"
  by (simp add: put_at_def)

lemma put_at_take:
  "off + length xs \<le> length buf \<Longrightarrow>
   \<exists>buf'. put_at buf off xs = Inr buf' \<and> length buf' = length buf \<and>
     take (off + length xs) buf' = take off buf @ xs"
  by (simp add: put_at_def)

text \<open>A represented message is whole blocks and the start of the buffer.\<close>

definition md5_count :: "md5_ctx \<Rightarrow> nat \<Rightarrow> bool" where
  "md5_count ctx n \<longleftrightarrow>
     count0 ctx = word_of_nat (8 * n) \<and> count1 ctx = word_of_nat (8 * n div 2 ^ 32)"

lemma md5_reprE:
  assumes "md5_repr ctx m"
  obtains a r where "m = a @ r" "length a = 64 * (length m div 64)" "length r < 64"
    "length (md5_buffer ctx) = 64" "take (length r) (md5_buffer ctx) = r"
    "md5_st ctx = md5_fold md5_init a" "md5_count ctx (length m)"
    "unat (drop_bit 3 (count0 ctx) AND 0x3F) = length r"
proof -
  obtain a r where m: "m = a @ r" "length a = 64 * (length m div 64)" "length r = length m mod 64"
    by (rule split_blocks)
  have r: "length r < 64" using m(3) by simp
  have "drop (64 * (length m div 64)) m = r"
    using m(1) unfolding m(2) [symmetric] by simp
  then have "take (length r) (md5_buffer ctx) = r"
    using assms unfolding md5_repr_def m(3) by simp
  moreover have "md5_fold md5_init m = md5_fold md5_init a"
    using md5_fold_tail [OF m(2) r] m(1) by simp
  moreover have "unat (drop_bit 3 (count0 ctx) AND 0x3F) = length r"
    using assms unfolding md5_repr_def m(3) by (simp only: md5_index)
  ultimately show thesis
    using that [OF m(1,2) r] assms unfolding md5_repr_def md5_count_def by simp
qed

lemma md5_reprI:
  assumes "m = a @ r" "length a = 64 * k" "length r < 64" "length (md5_buffer ctx) = 64"
    and "take (length r) (md5_buffer ctx) = r" "md5_st ctx = md5_fold md5_init a"
    and "md5_count ctx (length m)"
  shows "md5_repr ctx m"
proof -
  have "length m = 64 * k + length r" using assms(1,2) by simp
  then have "length m div 64 = k" "length m mod 64 = length r" using assms(3) by simp_all
  then show ?thesis
    using assms md5_fold_tail [OF assms(2,3)] by (simp add: md5_repr_def md5_count_def)
qed

lemma md5_count_update:
  assumes "md5_count ctx l" "n < 2 ^ 32"
  shows "count0 ctx + push_bit 3 (word_of_nat n) = word_of_nat (8 * (l + n))"
    and "(if (word_of_nat (8 * (l + n)) :: u32) < push_bit 3 (word_of_nat n)
      then count1 ctx + 1 else count1 ctx) + drop_bit 29 (word_of_nat n) = word_of_nat (8 * (l + n) div 2 ^ 32)"
  using assms unfolding md5_count_def by (simp_all only: md5_count0 md5_count1)

lemma MD5Update_short:
  assumes "md5_repr ctx m" "n = length x" "m = a @ r" "length a = 64 * (length m div 64)"
    and "length r + n < 64" "length (md5_buffer ctx) = 64" "take (length r) (md5_buffer ctx) = r"
    and "md5_st ctx = md5_fold md5_init a"
    and buf: "put_at (md5_buffer ctx) (length r) x = Inr buf'"
  shows "md5_repr (ctx\<lparr>count0 := word_of_nat (8 * (length m + n)),
    count1 := word_of_nat (8 * (length m + n) div 2 ^ 32), md5_buffer := buf'\<rparr>) (m @ x)"
proof (rule md5_reprI [of _ a "r @ x" "length m div 64"])
  have "length buf' = 64 \<and> take (length r + n) buf' = r @ x"
    using put_at_take [of "length r" x "md5_buffer ctx"] assms by auto
  then show "length (md5_buffer (ctx\<lparr>count0 := word_of_nat (8 * (length m + n)),
      count1 := word_of_nat (8 * (length m + n) div 2 ^ 32), md5_buffer := buf'\<rparr>)) = 64"
    "take (length (r @ x)) (md5_buffer (ctx\<lparr>count0 := word_of_nat (8 * (length m + n)),
      count1 := word_of_nat (8 * (length m + n) div 2 ^ 32), md5_buffer := buf'\<rparr>)) = r @ x"
    using assms(2) by simp_all
qed (use assms in \<open>auto simp: md5_count_def add.assoc\<close>)

text \<open>The long case: the buffer is completed with \<open>part\<close>, the blocks of \<open>y\<close> follow.\<close>

lemma MD5Update_long:
  assumes "n = length (part @ y)" "n + 64 < 2 ^ 32" "length r + length part = 64"
    and "length (md5_buffer ctx) = 64" "take (length r) (md5_buffer ctx) = r"
  shows "\<exists>rest buf' j. memcpy_from (part @ y) 0 (length part) = Inr part \<and>
    put_at (md5_buffer ctx) (length r) part = Inr (r @ part) \<and>
    md5_blocks st (part @ y) n (length part) = Inr (md5_fold st y, j) \<and>
    memcpy_from (part @ y) j (n - j) = Inr rest \<and> put_at (r @ part) 0 rest = Inr buf' \<and>
    length buf' = 64 \<and> take (length rest) buf' = rest \<and> length rest < 64 \<and>
    rest = drop (64 * (length y div 64)) y"
proof -
  define q where "q = length y div 64"
  define rest where "rest = drop (64 * q) y"
  have rest: "length rest < 64" by (simp add: rest_def q_def minus_mult_div_eq_mod)
  have "n - length part = length y" by (simp add: assms(1))
  then have p3: "md5_blocks st (part @ y) n (length part) = Inr (md5_fold st y, length part + 64 * q)"
    using md5_blocks_fold [OF assms(2,1), of "length part" st] assms(1) by (simp add: q_def)
  have "64 * q \<le> length y" by (simp add: q_def)
  then have p4: "memcpy_from (part @ y) (length part + 64 * q) (n - (length part + 64 * q)) = Inr rest"
    by (simp add: rest_def assms(1))
  obtain buf' where "put_at (r @ part) 0 rest = Inr buf'" "length buf' = 64" "take (length rest) buf' = rest"
    using put_at_take [of 0 rest "r @ part"] rest assms(3) by auto
  moreover have "put_at (md5_buffer ctx) (length r) part = Inr (r @ part)"
    using put_at_fill [of "length r" part "md5_buffer ctx"] assms by simp
  ultimately show ?thesis
    using p3 p4 rest by (auto simp: rest_def q_def)
qed

text \<open>\<open>MD5Update\<close> appends its input to the bytes the context represents.\<close>

lemma MD5Update_repr:
  assumes repr: "md5_repr ctx m" and len: "length x + 64 < 2 ^ 32"
  shows "\<exists>ctx'. MD5Update ctx x (word_of_nat (length x)) = Inr ctx' \<and> md5_repr ctx' (m @ x)"
proof -
  define n where "n = length x"
  have n32: "n < 2 ^ 32" "n + 64 < 2 ^ 32" using len by (simp_all add: n_def)
  have un: "unat (word_of_nat n :: u32) = n"
    using n32(1) by (simp add: unsigned_of_nat take_bit_nat_eq_self)
  obtain a r where m: "m = a @ r" "length a = 64 * (length m div 64)" "length r < 64"
    "length (md5_buffer ctx) = 64" "take (length r) (md5_buffer ctx) = r"
    "md5_st ctx = md5_fold md5_init a" "md5_count ctx (length m)"
    "unat (drop_bit 3 (count0 ctx) AND 0x3F) = length r"
    using repr by (rule md5_reprE)
  note eqs = un m(8) md5_count_update [OF m(7) n32(1)]
  show ?thesis
  proof (cases "64 - length r \<le> n")
    case False
    then have "length r + length x \<le> length (md5_buffer ctx)" using m(4) by (simp add: n_def)
    then obtain buf' where "put_at (md5_buffer ctx) (length r) x = Inr buf'"
      using put_at_take by blast
    then show ?thesis
      using False MD5Update_short [OF repr n_def m(1,2) _ m(4,5,6)]
      unfolding MD5Update_def Let_def n_def [symmetric] eqs by (simp add: n_def)
  next
    case True
    obtain part y where x: "x = part @ y" "length part = 64 - length r"
      using True by (metis append_take_drop_id length_take min.absorb2 n_def)
    define st where "st = MD5Transform (md5_st ctx) (r @ part)"
    obtain rest buf' j where u: "memcpy_from (part @ y) 0 (length part) = Inr part"
      "put_at (md5_buffer ctx) (length r) part = Inr (r @ part)"
      "md5_blocks st (part @ y) n (length part) = Inr (md5_fold st y, j)"
      "memcpy_from (part @ y) j (n - j) = Inr rest" "put_at (r @ part) 0 rest = Inr buf'"
      "length buf' = 64" "take (length rest) buf' = rest" "length rest < 64"
      "rest = drop (64 * (length y div 64)) y"
      using MD5Update_long [of n part y r ctx st] n_def n32(2) x m(3,4,5) by auto
    have blocks: "length (a @ r @ part @ take (64 * (length y div 64)) y) =
        64 * (length m div 64 + 1 + length y div 64)"
      using m(2,3) x(2) by simp
    have "md5_fold md5_init (a @ r @ part @ take (64 * (length y div 64)) y) =
        md5_fold st (take (64 * (length y div 64)) y)"
      using md5_fold_append [OF m(2)] md5_fold_block [of "r @ part"] m(3,6) x(2) by (simp add: st_def)
    also have "\<dots> = md5_fold st y"
      using md5_fold_tail [of "take (64 * (length y div 64)) y" "length y div 64" rest st] u(8,9) by simp
    finally have "md5_repr (ctx\<lparr>count0 := word_of_nat (8 * (length m + n)),
        count1 := word_of_nat (8 * (length m + n) div 2 ^ 32), md5_st := md5_fold st y,
        md5_buffer := buf'\<rparr>) (m @ x)"
      using m(1) x u by (intro md5_reprI [OF _ blocks, where r = rest]) (auto simp: md5_count_def n_def add.assoc)
    then show ?thesis
      using True u x(2) unfolding MD5Update_def Let_def n_def [symmetric] eqs
      by (simp add: st_def x(1))
  qed
qed

text \<open>Only the first \<open>inputlen\<close> bytes of the input are read.\<close>

lemma memcpy_from_take: "off + k \<le> n \<Longrightarrow> n \<le> length p \<Longrightarrow> memcpy_from (take n p) off k = memcpy_from p off k"
  by (simp add: take_drop)

lemma md5_blocks_take:
  "n \<le> length input \<Longrightarrow> md5_blocks st (take n input) n i = md5_blocks st input n i"
proof (induction st input n i rule: md5_blocks.induct)
  case (1 st input n i)
  show ?case
  proof (cases "(i + 64) mod 2 ^ 32 \<le> n \<and> i + 64 \<le> n")
    case True
    then show ?thesis
      using "1.IH" [of "take 64 (drop i input)"] "1.prems" memcpy_from_take [of i 64 n input]
      by (subst (1 2) md5_blocks.simps) simp
  next
    case False
    then show ?thesis by (subst (1 2) md5_blocks.simps) auto
  qed
qed

lemma md5_blocks_end: "md5_blocks st input n i = Inr (st', j) \<Longrightarrow> i \<le> n \<Longrightarrow> j \<le> n"
proof (induction st input n i rule: md5_blocks.induct)
  case (1 st input n i)
  show ?case
  proof (cases "(i + 64) mod 2 ^ 32 \<le> n \<and> i + 64 \<le> n")
    case True
    then have eq: "md5_blocks st input n i =
        ub_bind (memcpy_from input i 64) (\<lambda>blk. md5_blocks (MD5Transform st blk) input n (i + 64))"
      by (subst md5_blocks.simps) simp
    obtain blk where "md5_blocks (MD5Transform st blk) input n (i + 64) = Inr (st', j)"
      using "1.prems"(1) unfolding eq ub_bind_eq_Inr by blast
    then show ?thesis using "1.IH" True by blast
  next
    case False
    then show ?thesis
      using "1.prems" by (subst (asm) md5_blocks.simps) (auto split: if_splits)
  qed
qed

lemma MD5Update_take:
  assumes "unat w \<le> length input"
  shows "MD5Update ctx (take (unat w) input) w = MD5Update ctx input w"
proof (cases "64 - unat (drop_bit 3 (count0 ctx) AND 0x3F) \<le> unat w")
  case True
  let ?p = "64 - unat (drop_bit 3 (count0 ctx) AND 0x3F)"
  have blocks: "ub_bind (md5_blocks st (take (unat w) input) (unat w) ?p)
      (\<lambda>(st, i). ub_bind (memcpy_from (take (unat w) input) i (unat w - i)) (f st i)) =
    ub_bind (md5_blocks st input (unat w) ?p)
      (\<lambda>(st, i). ub_bind (memcpy_from input i (unat w - i)) (f st i))" for st f
    using md5_blocks_end [of st input "unat w" ?p] True assms
    by (cases "md5_blocks st input (unat w) ?p")
       (auto simp: md5_blocks_take drop_take)
  show ?thesis
    using True assms unfolding MD5Update_def Let_def by (simp add: memcpy_from_take blocks del: memcpy_from_in)
next
  case False
  then show ?thesis
    using assms unfolding MD5Update_def Let_def by (simp add: memcpy_from_take del: memcpy_from_in)
qed

lemma md5_final_padding:
  assumes "idx = n mod 64" "padlen = (if idx < 56 then 56 - idx else 120 - idx)"
  shows "take padlen PADDING = md5_padding n" "padlen \<le> 64"
proof -
  have "idx < 64" using assms(1) by simp
  then show le: "padlen \<le> 64" unfolding assms(2) by auto
  have "padlen = Suc ((119 - n mod 64) mod 64)"
  proof (cases "idx < 56")
    case True
    then have "119 - idx = (55 - idx) + 64" by simp
    then have "(119 - idx) mod 64 = 55 - idx" using True by (simp only: mod_add_self2) simp
    then show ?thesis using True unfolding assms by (simp add: Suc_diff_le [symmetric])
  next
    case False
    then show ?thesis using \<open>idx < 64\<close> by (simp add: assms)
  qed
  then show "take padlen PADDING = md5_padding n"
    using le by (simp add: PADDING_def md5_padding_def)
qed

lemma MD5Encode_length: "length (MD5Encode ws) = 4 * length ws"
  by (induction ws) simp_all

lemma MD5Final_whole:
  assumes "md5_repr ctx m"
  shows "\<exists>ctx'. MD5Final ctx = Inr (ctx', md5_whole m)"
proof -
  define idx where "idx = length m mod 64"
  define padlen where "padlen = (if idx < 56 then 56 - idx else 120 - idx)"
  have c: "count0 ctx = word_of_nat (8 * length m)" "count1 ctx = word_of_nat (8 * length m div 2 ^ 32)"
    using assms by (simp_all only: md5_repr_def)
  have idx: "unat (drop_bit 3 (count0 ctx) AND 0x3F) = idx"
    unfolding c(1) idx_def by (rule md5_index)
  have pad: "take padlen PADDING = md5_padding (length m)" "padlen \<le> 64"
    using md5_final_padding [OF idx_def padlen_def] by auto
  have up: "unat (word_of_nat padlen :: u32) = padlen"
    using pad(2) by (simp add: unsigned_of_nat take_bit_nat_eq_self)
  have lp: "length (md5_padding (length m)) = padlen"
    using pad(2) unfolding pad(1) [symmetric] by (simp add: PADDING_def)
  obtain c1 where c1: "MD5Update ctx (md5_padding (length m)) (word_of_nat padlen) = Inr c1"
      "md5_repr c1 (m @ md5_padding (length m))"
    using MD5Update_repr [OF assms, of "md5_padding (length m)"] pad(2) lp by auto
  have c1': "MD5Update ctx PADDING (word_of_nat padlen) = Inr c1"
    using MD5Update_take [of "word_of_nat padlen" PADDING ctx] pad c1(1) unfolding up
    by (simp add: PADDING_def)
  have bits: "MD5Encode [count0 ctx, count1 ctx] = le64 (8 * length m)"
    by (simp only: c le64_def)
  obtain c2 where c2: "MD5Update c1 (le64 (8 * length m)) 8 = Inr c2"
      "md5_repr c2 ((m @ md5_padding (length m)) @ le64 (8 * length m))"
    using MD5Update_repr [OF c1(2), of "le64 (8 * length m)"] by (auto simp: le64_def MD5Encode_length)
  then show ?thesis
    unfolding MD5Final_def Let_def idx padlen_def [symmetric] c1' bits md5_whole_def
    by (simp add: md5_repr_def)
qed

subsection \<open>Properties\<close>

text \<open>
  \<open>MD5Update\<close> can be called piecewise: a context that represents some bytes represents
  those bytes followed by the input afterwards, with the 64-bit bit count carried between its two
  words, and no write leaves the 64-byte buffer.\<close>

theorem MD5Update_appends:
  assumes "md5_repr ctx m" "length x + 64 < 2 ^ 32"
  shows "\<exists>ctx'. MD5Update ctx x (word_of_nat (length x)) = Inr ctx' \<and> md5_repr ctx' (m @ x)"
  by (rule MD5Update_repr [OF assms])

theorem MD5Update_appends_witness:
  "\<exists>ctx'. MD5Update (MD5Init \<lparr>count0 = 1, count1 = 1, md5_st = md5_init, md5_buffer = replicate 64 7\<rparr>)
     (replicate 100 1) 100 = Inr ctx' \<and> md5_repr ctx' (replicate 100 1)"
  using MD5Update_appends [OF MD5Init_repr, of "\<lparr>count0 = 1, count1 = 1, md5_st = md5_init,
      md5_buffer = replicate 64 7\<rparr>" "replicate 100 1"] by simp

end
