(* ===== verification/Sine_Table.thy ===== *)
theory Sine_Table
  imports Complex_Main
begin

section \<open>The sine table of RFC 1321\<close>

text \<open>
  RFC 1321 defines its 64 constants by the sine function: \<open>T[i]\<close> is the integer part of
  4294967296 times \<open>abs(sin(i))\<close>, \<open>i\<close> in radians. This theory computes them from that
  definition, so that the table in \<open>md5.cpp\<close> is compared with the sine and not with a copy of
  itself. The points \<open>cis i\<close> of the unit circle are approximated by integer points scaled by
  2^64: the first one comes from the Taylor series, each next one from a complex
  multiplication, and the error grows by at most 8 units in a step.
\<close>

definition sine_1 :: int where "sine_1 = 15522399902203605024"
definition cosine_1 :: int where "cosine_1 = 9966818358784711825"

text \<open>One more radian, rounded down.\<close>

definition sine_turn :: "int \<times> int \<Rightarrow> int \<times> int" where
  "sine_turn p = (case p of (c, s) \<Rightarrow>
     (drop_bit 64 (c * cosine_1 - s * sine_1), drop_bit 64 (s * cosine_1 + c * sine_1)))"

abbreviation sine_point :: "int \<times> int \<Rightarrow> complex" where
  "sine_point p \<equiv> Complex (of_int (fst p)) (of_int (snd p))"

definition sine_near :: "nat \<Rightarrow> int \<times> int \<Rightarrow> bool" where
  "sine_near n p \<longleftrightarrow> cmod (sine_point p - 2 ^ 64 * cis (real n)) \<le> 8 * real n"

subsection \<open>The first point\<close>

lemma sine_scaled:
  fixes x y z a :: real
  assumes "\<bar>x - y\<bar> \<le> z" "z \<le> 1 / 2 ^ 64" "\<bar>a - 2 ^ 64 * y\<bar> \<le> 1"
  shows "\<bar>a - 2 ^ 64 * x\<bar> \<le> 2"
  using assms by (simp add: abs_le_iff)

lemma sine_1_near: "\<bar>of_int sine_1 - 2 ^ 64 * sin (1 :: real)\<bar> \<le> 2"
proof -
  have "\<bar>sin 1 - (\<Sum>m<22. sin_coeff m * 1 ^ m)\<bar> \<le> inverse (fact 22) * \<bar>1 :: real\<bar> ^ 22"
    by (rule Maclaurin_sin_bound)
  moreover have "\<bar>of_int sine_1 - 2 ^ 64 * (\<Sum>m<22. sin_coeff m * (1 :: real) ^ m)\<bar> \<le> 1"
    by (simp add: sine_1_def sin_coeff_def lessThan_nat_numeral lessThan_Suc fact_numeral)
  moreover have "inverse (fact 22) * \<bar>1 :: real\<bar> ^ 22 \<le> 1 / 2 ^ 64"
    by (simp add: fact_numeral)
  ultimately show ?thesis by (intro sine_scaled)
qed

lemma cosine_1_near: "\<bar>of_int cosine_1 - 2 ^ 64 * cos (1 :: real)\<bar> \<le> 2"
proof -
  obtain t where "cos 1 = (\<Sum>m<22. cos_coeff m * (1 :: real) ^ m) +
      (cos (t + 1 / 2 * real 22 * pi) / fact 22) * 1 ^ 22"
    using Maclaurin_cos_expansion [of 1 22] by blast
  then have "\<bar>cos 1 - (\<Sum>m<22. cos_coeff m * (1 :: real) ^ m)\<bar> \<le> 1 / fact 22"
    by (simp add: abs_divide divide_right_mono)
  moreover have "1 / fact 22 \<le> 1 / (2 :: real) ^ 64"
    by (simp add: fact_numeral)
  moreover have "\<bar>of_int cosine_1 - 2 ^ 64 * (\<Sum>m<22. cos_coeff m * (1 :: real) ^ m)\<bar> \<le> 1"
    by (simp add: cosine_1_def cos_coeff_def lessThan_nat_numeral lessThan_Suc fact_numeral)
  ultimately show ?thesis by (intro sine_scaled)
qed

lemma sine_first: "cmod (sine_point (cosine_1, sine_1) - 2 ^ 64 * cis 1) \<le> 4"
proof -
  have "cmod (sine_point (cosine_1, sine_1) - 2 ^ 64 * cis 1) \<le>
      \<bar>of_int cosine_1 - 2 ^ 64 * cos 1\<bar> + \<bar>of_int sine_1 - 2 ^ 64 * sin 1\<bar>"
    using cmod_le [of "sine_point (cosine_1, sine_1) - 2 ^ 64 * cis 1"] by simp
  then show ?thesis using sine_1_near cosine_1_near by linarith
qed

subsection \<open>One more radian\<close>

lemma sine_div_near: "\<bar>of_int (a div 2 ^ 64) - of_int a / (2 ^ 64 :: real)\<bar> \<le> 1"
proof -
  have "\<lfloor>of_int a / of_int (2 ^ 64) :: real\<rfloor> = a div 2 ^ 64"
    by (rule floor_divide_of_int_eq)
  then show ?thesis by simp
qed

lemma sine_turn_near:
  assumes "sine_near n p"
  shows "sine_near (Suc n) (sine_turn p)"
proof -
  let ?z1 = "sine_point (cosine_1, sine_1)"
  have sq: "cosine_1 ^ 2 + sine_1 ^ 2 \<le> (2 ^ 64) ^ 2"
    by (simp add: sine_1_def cosine_1_def)
  then have "real_of_int cosine_1 ^ 2 + real_of_int sine_1 ^ 2 \<le> (2 ^ 64) ^ 2"
    by (simp only: of_int_le_iff [symmetric, where 'a = real] of_int_add of_int_power of_int_numeral)
  then have one: "cmod ?z1 \<le> 2 ^ 64"
    by (simp add: cmod_def real_le_lsqrt)
  let ?e = "sine_point (sine_turn p) - sine_point p * ?z1 / 2 ^ 64"
  have "Re ?e = of_int ((fst p * cosine_1 - snd p * sine_1) div 2 ^ 64) -
      of_int (fst p * cosine_1 - snd p * sine_1) / 2 ^ 64"
    by (simp add: sine_turn_def case_prod_beta drop_bit_eq_div)
  then have re: "\<bar>Re ?e\<bar> \<le> 1" by (simp only: sine_div_near)
  have "Im ?e = of_int ((snd p * cosine_1 + fst p * sine_1) div 2 ^ 64) -
      of_int (snd p * cosine_1 + fst p * sine_1) / 2 ^ 64"
    by (simp add: sine_turn_def case_prod_beta add.commute drop_bit_eq_div)
  then have im: "\<bar>Im ?e\<bar> \<le> 1" by (simp only: sine_div_near)
  have "cmod ?e \<le> \<bar>Re ?e\<bar> + \<bar>Im ?e\<bar>" by (rule cmod_le)
  then have e: "cmod ?e \<le> 2"
    using re im by linarith
  have split: "sine_point (sine_turn p) - 2 ^ 64 * cis (real (Suc n)) =
      ?e + (sine_point p - 2 ^ 64 * cis (real n)) * ?z1 / 2 ^ 64 + cis (real n) * (?z1 - 2 ^ 64 * cis 1)"
    by (simp add: field_simps cis_mult)
  have "cmod ((sine_point p - 2 ^ 64 * cis (real n)) * ?z1 / 2 ^ 64) =
      cmod (sine_point p - 2 ^ 64 * cis (real n)) * (cmod ?z1 / 2 ^ 64)"
    by (simp add: norm_mult norm_divide norm_power)
  also have "\<dots> \<le> 8 * real n * 1"
    using assms one by (intro mult_mono) (auto simp: sine_near_def)
  finally have old: "cmod ((sine_point p - 2 ^ 64 * cis (real n)) * ?z1 / 2 ^ 64) \<le> 8 * real n" by simp
  have "cmod (cis (real n) * (?z1 - 2 ^ 64 * cis 1)) \<le> 4"
    using sine_first by (simp add: norm_mult)
  then have "cmod (sine_point (sine_turn p) - 2 ^ 64 * cis (real (Suc n))) \<le> 2 + 8 * real n + 4"
    unfolding split using e old by (intro norm_triangle_le add_mono) auto
  then show ?thesis by (simp add: sine_near_def)
qed

subsection \<open>The integer parts\<close>

text \<open>
  \<open>sine_rows ts p\<close>: the numbers \<open>ts\<close> are the integer parts of 2^32 times the absolute sine
  at \<open>p\<close> and the points that follow it, with room for an error of 512 units of \<open>p\<close> on either
  side.
\<close>

fun sine_rows :: "int list \<Rightarrow> int \<times> int \<Rightarrow> bool" where
  "sine_rows [] p = True"
| "sine_rows (t # ts) p =
     (t * 2 ^ 32 + 512 \<le> \<bar>snd p\<bar> \<and> \<bar>snd p\<bar> + 512 < (t + 1) * 2 ^ 32 \<and> sine_rows ts (sine_turn p))"

lemma sine_floor:
  assumes near: "sine_near n p" and "n \<le> 64"
    and t: "t * 2 ^ 32 + 512 \<le> \<bar>snd p\<bar>" "\<bar>snd p\<bar> + 512 < (t + 1) * 2 ^ 32"
  shows "\<lfloor>4294967296 * \<bar>sin (real n)\<bar>\<rfloor> = t"
proof -
  let ?d = "sine_point p - 2 ^ 64 * cis (real n)"
  have "\<bar>Im ?d\<bar> \<le> 512"
    using near assms(2) abs_Im_le_cmod [of ?d] by (simp add: sine_near_def)
  then have d: "\<bar>of_int (snd p) - 2 ^ 64 * sin (real n)\<bar> \<le> 512" by simp
  have "of_int (t * 2 ^ 32 + 512) \<le> \<bar>real_of_int (snd p)\<bar>"
    "\<bar>real_of_int (snd p)\<bar> + 512 < of_int ((t + 1) * 2 ^ 32)"
    using t by linarith+
  then have "of_int t \<le> 4294967296 * \<bar>sin (real n)\<bar>" "4294967296 * \<bar>sin (real n)\<bar> < of_int t + 1"
    using d by (simp_all add: abs_if split: if_splits)
  then show ?thesis by (simp add: floor_eq_iff)
qed

lemma sine_rows_nth:
  "sine_rows ts p \<Longrightarrow> sine_near n p \<Longrightarrow> n + length ts \<le> 65 \<Longrightarrow> i < length ts \<Longrightarrow>
   \<lfloor>4294967296 * \<bar>sin (real (n + i))\<bar>\<rfloor> = ts ! i"
proof (induction ts arbitrary: p n i)
  case (Cons t ts)
  show ?case
  proof (cases i)
    case 0
    then show ?thesis using Cons.prems sine_floor [of n p t] by simp
  next
    case (Suc j)
    then show ?thesis
      using Cons.prems Cons.IH [of "sine_turn p" "Suc n" j] sine_turn_near by simp
  qed
qed simp

definition sine_table :: "int list" where
  "sine_table = [
     3614090360, 3905402710, 606105819, 3250441966, 4118548399, 1200080426, 2821735955, 4249261313,
     1770035416, 2336552879, 4294925233, 2304563134, 1804603682, 4254626195, 2792965006, 1236535329,
     4129170786, 3225465664, 643717713, 3921069994, 3593408605, 38016083, 3634488961, 3889429448,
     568446438, 3275163606, 4107603335, 1163531501, 2850285829, 4243563512, 1735328473, 2368359562,
     4294588738, 2272392833, 1839030562, 4259657740, 2763975236, 1272893353, 4139469664, 3200236656,
     681279174, 3936430074, 3572445317, 76029189, 3654602809, 3873151461, 530742520, 3299628645,
     4096336452, 1126891415, 2878612391, 4237533241, 1700485571, 2399980690, 4293915773, 2240044497,
     1873313359, 4264355552, 2734768916, 1309151649, 4149444226, 3174756917, 718787259, 3951481745]"

lemma sine_table_rows: "sine_rows sine_table (cosine_1, sine_1)"
  by (simp add: sine_table_def sine_turn_def sine_1_def cosine_1_def)

text \<open>The 64 integer parts, for \<open>i\<close> from 1 to 64.\<close>

lemma sine_table_floor:
  assumes "i < 64"
  shows "\<lfloor>4294967296 * \<bar>sin (real (i + 1))\<bar>\<rfloor> = sine_table ! i"
proof -
  have "sine_near 1 (cosine_1, sine_1)"
    using sine_first by (simp add: sine_near_def)
  then show ?thesis
    using sine_rows_nth [OF sine_table_rows, of 1 i] assms by (simp add: sine_table_def add.commute)
qed

end
