(* ===== verification/Rfc1321.thy ===== *)
theory Rfc1321
  imports Prelude Sine_Table
begin

section \<open>RFC 1321: the MD5 message digest\<close>

text \<open>
  MD5 as RFC 1321 describes it, section by section, and independent of the code in
  \<open>third_party/md5\<close>: no definition of the model is used here. Words are sums of their bytes, the
  64 steps are given by their number (round, word index, shift and constant are functions of
  it), and the constants are those of the sine function. \<open>md5_spec\<close> is the digest of a whole
  message, \<open>md5_hex\<close> its hexadecimal form.
\<close>

type_synonym rfc_regs = "u32 \<times> u32 \<times> u32 \<times> u32"

subsection \<open>2. Words and bytes\<close>

text \<open>The low-order byte of a word comes first.\<close>

fun rfc_value :: "byte list \<Rightarrow> nat" where
  "rfc_value [] = 0"
| "rfc_value (b # bs) = unat b + 256 * rfc_value bs"

definition rfc_word :: "byte list \<Rightarrow> u32" where
  "rfc_word bs = word_of_nat (rfc_value bs)"

definition rfc_bytes :: "nat \<Rightarrow> nat \<Rightarrow> byte list" where
  "rfc_bytes k v = map (\<lambda>j. word_of_nat (v div 256 ^ j)) [0..<k]"

text \<open>The list is cut into pieces of \<open>k\<close> elements.\<close>

definition rfc_pieces :: "nat \<Rightarrow> 'a list \<Rightarrow> 'a list list" where
  "rfc_pieces k xs = map (\<lambda>i. take k (drop (k * i) xs)) [0..<length xs div k]"

subsection \<open>3.1 and 3.2 Padding and length\<close>

text \<open>One bit, then zeros until the length is congruent to 448 modulo 512 bits; then the length in
  bits, as 64 bits.\<close>

definition rfc_pad :: "byte list \<Rightarrow> byte list" where
  "rfc_pad m = m @ [0x80] @ replicate (nat ((55 - int (length m)) mod 64)) 0 @ rfc_bytes 8 (8 * length m)"

subsection \<open>3.3 The registers\<close>

definition rfc_init :: rfc_regs where
  "rfc_init =
     (rfc_word [0x01, 0x23, 0x45, 0x67], rfc_word [0x89, 0xab, 0xcd, 0xef],
      rfc_word [0xfe, 0xdc, 0xba, 0x98], rfc_word [0x76, 0x54, 0x32, 0x10])"

subsection \<open>3.4 The blocks\<close>

text \<open>The auxiliary functions of the four rounds: choose \<open>y\<close> or \<open>z\<close> by \<open>x\<close>, choose \<open>x\<close> or \<open>y\<close> by
  \<open>z\<close>, parity, and the fourth. \<open>i\<close> is the number of the step, from 0 to 63.\<close>

definition rfc_aux :: "nat \<Rightarrow> u32 \<Rightarrow> u32 \<Rightarrow> u32 \<Rightarrow> u32" where
  "rfc_aux i x y z =
     (if i < 16 then x AND y OR NOT x AND z
      else if i < 32 then x AND z OR y AND NOT z
      else if i < 48 then x XOR y XOR z
      else y XOR (x OR NOT z))"

definition rfc_index :: "nat \<Rightarrow> nat" where
  "rfc_index i =
     (if i < 16 then i
      else if i < 32 then (1 + 5 * i) mod 16
      else if i < 48 then (5 + 3 * i) mod 16
      else 7 * i mod 16)"

definition rfc_shift :: "nat \<Rightarrow> nat" where
  "rfc_shift i = [[7, 12, 17, 22], [5, 9, 14, 20], [4, 11, 16, 23], [6, 10, 15, 21]] ! (i div 16) ! (i mod 4)"

definition rfc_T :: "nat \<Rightarrow> u32" where
  "rfc_T i = word_of_int \<lfloor>4294967296 * \<bar>sin (real i)\<bar>\<rfloor>"

text \<open>\<open>a = b + ((a + F(b,c,d) + X[k] + T[i]) <<< s)\<close>, the registers in turn.\<close>

definition rfc_step :: "u32 list \<Rightarrow> nat \<Rightarrow> rfc_regs \<Rightarrow> rfc_regs" where
  "rfc_step X i r = (case r of (a, b, c, d) \<Rightarrow>
     (d, b + word_rotl (rfc_shift i) (a + rfc_aux i b c d + X ! rfc_index i + rfc_T (i + 1)), b, c))"

definition rfc_block :: "rfc_regs \<Rightarrow> byte list \<Rightarrow> rfc_regs" where
  "rfc_block r blk =
     (case r of (a, b, c, d) \<Rightarrow>
      case fold (rfc_step (map rfc_word (rfc_pieces 4 blk))) [0..<64] r of (a', b', c', d') \<Rightarrow>
        (a + a', b + b', c + c', d + d'))"

subsection \<open>3.5 The digest\<close>

definition md5_spec :: "byte list \<Rightarrow> byte list" where
  "md5_spec m =
     (case foldl rfc_block rfc_init (rfc_pieces 64 (rfc_pad m)) of (a, b, c, d) \<Rightarrow>
        rfc_bytes 4 (unat a) @ rfc_bytes 4 (unat b) @ rfc_bytes 4 (unat c) @ rfc_bytes 4 (unat d))"

definition md5_hex :: "byte list \<Rightarrow> string" where
  "md5_hex m = concat (map (\<lambda>b. [''0123456789abcdef'' ! (unat b div 16), ''0123456789abcdef'' ! (unat b mod 16)])
     (md5_spec m))"

subsection \<open>Evaluation\<close>

lemma rfc_T_table:
  assumes "i < 64"
  shows "rfc_T (i + 1) = map word_of_int sine_table ! i"
proof -
  have "length sine_table = 64" by (simp add: sine_table_def)
  then show ?thesis
    using sine_table_floor [OF assms] assms unfolding rfc_T_def by simp
qed

lemma rfc_bytes_length [simp]: "length (rfc_bytes k v) = k"
  by (simp add: rfc_bytes_def)

lemma rfc_value_bound: "rfc_value bs < 256 ^ length bs"
proof (induction bs)
  case (Cons b bs)
  have "unat b < 256" using unsigned_less [of b, where ?'a = nat] by simp
  then show ?case using Cons by simp
qed simp

lemma rfc_pad_length: "64 dvd length (rfc_pad m)"
proof -
  have "int (length (rfc_pad m)) = int (length m) + 9 + (55 - int (length m)) mod 64"
    by (simp add: rfc_pad_def)
  moreover have "64 dvd int (length m) + 9 + (55 - int (length m)) mod 64"
    by presburger
  ultimately show ?thesis by presburger
qed

lemma md5_spec_length: "length (md5_spec m) = 16"
  by (simp add: md5_spec_def split: prod.split)

end
