(* ===== verification/Md5_Rfc.thy ===== *)
theory Md5_Rfc
  imports Md5 Rfc1321
begin

section \<open>The code computes the digest of RFC 1321\<close>

text \<open>
  The tables and functions of \<open>third_party/md5\<close> against \<open>Rfc1321\<close>: words and bytes, the rotation,
  the 64 lines of \<open>MD5Transform\<close> (their round, word, shift and constant are those of the step
  with that number, the constants by the sine), the initial registers, padding and length.
  Then \<open>Md5sum32\<close> as a whole.
\<close>

subsection \<open>Words and bytes\<close>

lemma rfc_pieces_append:
  "length a = k \<Longrightarrow> 0 < k \<Longrightarrow> rfc_pieces k (a @ xs) = a # rfc_pieces k xs"
  by (simp add: rfc_pieces_def upt_conv_Cons map_Suc_upt [symmetric] del: upt_Suc)

lemma rfc_pieces_short: "length xs < k \<Longrightarrow> rfc_pieces k xs = []"
  by (simp add: rfc_pieces_def)

lemma rfc_word_4:
  "rfc_word [b0, b1, b2, b3] = ucast b0 OR push_bit 8 (ucast b1) OR push_bit 16 (ucast b2) OR push_bit 24 (ucast b3)"
proof -
  have or: "x OR push_bit n y = x + push_bit n y" if "\<And>i. n \<le> i \<Longrightarrow> \<not> bit x i" for x y :: u32 and n
    using that by (intro disjunctive_add_eq_or [symmetric]) (auto simp: bit_eq_iff bit_simps)
  have hi: "\<not> bit (ucast b :: u32) i" if "8 \<le> i" for b :: byte and i
    using that by (auto simp: bit_simps dest: bit_imp_le_length)
  have "ucast b0 OR push_bit 8 (ucast b1) OR push_bit 16 (ucast b2) OR push_bit 24 (ucast b3) =
     ((ucast b0 + push_bit 8 (ucast b1)) + push_bit 16 (ucast b2)) + (push_bit 24 (ucast b3) :: u32)"
    by (subst or [symmetric], auto simp: bit_simps hi or [symmetric] or.assoc)
  also have "\<dots> = rfc_word [b0, b1, b2, b3]"
    by (simp add: rfc_word_def push_bit_eq_mult of_nat_unat algebra_simps)
  finally show ?thesis by simp
qed

lemma MD5Decode_rfc: "MD5Decode bs = map rfc_word (rfc_pieces 4 bs)"
proof (induction bs rule: MD5Decode.induct)
  case (1 b0 b1 b2 b3 r)
  then show ?case
    using rfc_pieces_append [of "[b0, b1, b2, b3]" 4 r] by (simp add: rfc_word_4)
qed (simp_all add: rfc_pieces_short)

lemma byte_of_word:
  "ucast (drop_bit n (w :: u32) AND 0xFF) = (word_of_nat (unat w div 2 ^ n) :: byte)"
proof -
  have "drop_bit n w AND 0xFF = take_bit 8 (drop_bit n w)" by (simp add: take_bit_eq_mask mask_numeral)
  then have "ucast (drop_bit n w AND 0xFF) = (ucast (drop_bit n w) :: byte)"
    by (simp only:) (intro bit_word_eqI; simp add: bit_simps)
  also have "\<dots> = word_of_nat (unat (drop_bit n w))" by (simp only: of_nat_unat)
  also have "unat (drop_bit n w) = unat w div 2 ^ n"
  proof -
    have "unat w < 2 ^ 32" using unsigned_less [of w, where ?'a = nat] by simp
    then have "take_bit 32 (unat w) = unat w" by (rule take_bit_nat_eq_self)
    then show ?thesis by (simp only: unsigned_drop_bit_eq drop_bit_eq_div [symmetric]) simp
  qed
  finally show ?thesis .
qed

lemma MD5Encode_rfc: "MD5Encode (w # ws) = rfc_bytes 4 (unat w) @ MD5Encode ws"
  using byte_of_word [of 0 w] by (simp add: rfc_bytes_def byte_of_word upt_rec)

lemma rfc_bytes_low: "rfc_bytes 4 (unat (word_of_nat n :: u32)) = rfc_bytes 4 n"
proof -
  have "word_of_nat (unat (word_of_nat n :: u32) div 256 ^ j) = (word_of_nat (n div 256 ^ j) :: byte)"
    if "j < 4" for j
  proof -
    have "take_bit 8 (drop_bit (8 * j) (take_bit 32 n)) = take_bit 8 (drop_bit (8 * j) n)"
      using that by (intro bit_eqI) (auto simp: bit_simps)
    then show ?thesis
      by (simp add: word_of_nat_eq_iff unsigned_of_nat drop_bit_eq_div power_mult)
  qed
  then show ?thesis by (simp add: rfc_bytes_def)
qed

lemma le64_rfc: "le64 n = rfc_bytes 8 n"
proof -
  have "rfc_bytes 8 n = rfc_bytes 4 n @ rfc_bytes 4 (n div 2 ^ 32)"
    by (simp add: rfc_bytes_def upt_rec div_mult2_eq [symmetric])
  then show ?thesis
    by (simp add: le64_def MD5Encode_rfc rfc_bytes_low del: MD5Encode.simps(2))
qed

subsection \<open>The 64 steps\<close>

lemma ROTATE_LEFT_rotl:
  assumes "0 < s" "s < 32"
  shows "ROTATE_LEFT x s = word_rotl s x"
proof (rule bit_word_eqI)
  fix i assume "i < LENGTH(32)"
  then have i: "i < 32" by simp
  have l: "bit (ROTATE_LEFT x s) i \<longleftrightarrow> s \<le> i \<and> bit x (i - s) \<or> bit x (32 - s + i)"
    using i by (simp add: ROTATE_LEFT_def bit_simps)
  have r: "bit (word_rotl s x) i \<longleftrightarrow> bit x ((i + (32 - s)) mod 32)"
    using i assms by (simp add: bit_simps)
  show "bit (ROTATE_LEFT x s) i = bit (word_rotl s x) i"
  proof (cases "s \<le> i")
    case True
    then have "i + (32 - s) = (i - s) + 32" using assms by simp
    moreover have "\<not> bit x (32 - s + i)" using True assms bit_imp_le_length [of x "32 - s + i"] by auto
    ultimately show ?thesis using True i unfolding l r by (simp only: mod_add_self2) simp
  next
    case False
    then have "(i + (32 - s)) mod 32 = 32 - s + i" using assms by simp
    then show ?thesis using False unfolding l r by simp
  qed
qed

definition rfc_round :: "nat \<Rightarrow> md5_macro" where
  "rfc_round i = [RFF, RGG, RHH, RII] ! (i div 16)"

lemma md5_lines_sine:
  "md5_lines = map (\<lambda>i. (rfc_round i, rfc_index i, rfc_shift i, word_of_int (sine_table ! i))) [0..<64]"
  by code_simp

lemma md5_lines_rfc:
  "md5_lines = map (\<lambda>i. (rfc_round i, rfc_index i, rfc_shift i, rfc_T (i + 1))) [0..<64]"
proof -
  have "length sine_table = 64" by (simp add: sine_table_def)
  then show ?thesis
    unfolding md5_lines_sine using rfc_T_table by simp
qed

lemma md5_step_rfc:
  assumes "i < 64"
  shows "md5_step x (rfc_round i, rfc_index i, rfc_shift i, rfc_T (i + 1)) = rfc_step x i"
proof -
  have "\<forall>i \<in> set [0..<64]. 0 < rfc_shift i \<and> rfc_shift i < 32" by code_simp
  then have s: "0 < rfc_shift i" "rfc_shift i < 32" using assms by simp_all
  have "i div 16 = (if i < 16 then 0 else if i < 32 then 1 else if i < 48 then 2 else 3)"
    using assms by presburger
  then have mix: "md5_mix (rfc_round i) = rfc_aux i"
    by (simp add: rfc_round_def rfc_aux_def fun_eq_iff md5_F_def md5_G_def md5_H_def md5_I_def)
  show ?thesis
    by (simp add: fun_eq_iff rfc_step_def md5_assign_def ROTATE_LEFT_rotl [OF s] mix add_ac)
qed

lemma md5_steps_fold: "md5_steps x rows st = fold (md5_step x) rows st"
  by (induction x rows st rule: md5_steps.induct) simp_all

lemma MD5Transform_rfc: "MD5Transform st blk = rfc_block st blk"
proof -
  have step: "fold (md5_step X \<circ> (\<lambda>i. (rfc_round i, rfc_index i, rfc_shift i, rfc_T (i + 1)))) [0..<64] r =
      fold (rfc_step X) [0..<64] r" for X r
    by (intro fold_cong refl) (simp only: comp_apply set_upt atLeastLessThan_iff md5_step_rfc)
  obtain a b c d where st: "st = (a, b, c, d)" by (metis prod_cases4)
  show ?thesis
    unfolding MD5Transform_def MD5Decode_rfc md5_steps_fold md5_lines_rfc fold_map step st
      rfc_block_def add_state_def prod.case ..
qed

lemma md5_init_rfc: "md5_init = rfc_init"
  by (simp add: md5_init_def rfc_init_def rfc_word_def)

subsection \<open>Whole messages\<close>

lemma md5_fold_rfc: "md5_fold st m = foldl rfc_block st (rfc_pieces 64 m)"
proof (induction st m rule: md5_fold.induct)
  case (1 st m)
  show ?case
  proof (cases "length m < 64")
    case False
    then show ?thesis
      using 1 rfc_pieces_append [of "take 64 m" 64 "drop 64 m"]
      by (simp add: md5_fold.simps [of st m] MD5Transform_rfc)
  qed (simp add: rfc_pieces_short)
qed

lemma md5_padding_rfc: "md5_padding n = [0x80] @ replicate (nat ((55 - int n) mod 64)) 0"
proof -
  have "n mod 64 \<le> 119" by (rule order_trans [of _ 63]) simp_all
  then have "int ((119 - n mod 64) mod 64) = (119 - int n mod 64) mod 64"
    by (simp only: of_nat_mod of_nat_diff of_nat_numeral)
  also have "\<dots> = (55 - int n + 64) mod 64"
    by (simp only: mod_diff_right_eq) simp
  finally have "int ((119 - n mod 64) mod 64) = (55 - int n) mod 64"
    by (simp only: mod_add_self2)
  then have "(119 - n mod 64) mod 64 = nat ((55 - int n) mod 64)" by linarith
  then show ?thesis by (simp add: md5_padding_def)
qed

lemma md5_whole_rfc: "md5_whole m = md5_spec m"
  by (simp add: md5_whole_def md5_spec_def md5_fold_rfc md5_init_rfc rfc_pad_def md5_padding_rfc le64_rfc
      state_words_def MD5Encode_rfc del: MD5Encode.simps(2) split: prod.split)

subsection \<open>The hexadecimal digest has 32 hexadecimal digits\<close>

lemma hex_bytes_length: "length (concat (map hex_byte bs)) = 2 * length bs"
  by (induction bs) (simp_all add: hex_byte_def)

definition is_hex :: "char \<Rightarrow> bool" where
  "is_hex ch \<longleftrightarrow> ch \<in> set ''0123456789abcdef''"

lemma hex_digit_is_hex: "d < 16 \<Longrightarrow> is_hex (hex_digit d)"
  unfolding is_hex_def hex_digit_def by (rule nth_mem) simp

lemma hex_bytes_hex: "ch \<in> set (concat (map hex_byte bs)) \<Longrightarrow> is_hex ch"
proof (induction bs)
  case (Cons b bs)
  have "unat b div 16 < 16" using unsigned_less [of b, where ?'a = nat] by simp
  then show ?case using Cons by (auto simp: hex_byte_def hex_digit_is_hex)
qed simp

lemma md5_hex_bytes: "md5_hex m = concat (map hex_byte (md5_spec m))"
  by (simp add: md5_hex_def hex_byte_def [abs_def] hex_digit_def)

lemma md5_hex_length [simp]: "length (md5_hex m) = 32"
  by (simp add: md5_hex_bytes hex_bytes_length md5_spec_length)

lemma md5_hex_no_nul: "CHR 0x00 \<notin> set (md5_hex m)"
  using hex_bytes_hex [of "CHR 0x00" "md5_spec m"] by (auto simp: md5_hex_bytes is_hex_def)

lemma Md5sum32_ok:
  assumes "length (md5_buffer ctx0) = 64" "length m + 64 < 2 ^ 32" "32 \<le> osz" "32 \<le> length o'"
  shows "Md5sum32 ctx0 (Some m) (Some o') (length m) osz = Inr (0, Some (md5_hex m @ drop 32 o'))"
proof -
  obtain c1 where c1: "MD5Update (MD5Init ctx0) m (word_of_nat (length m)) = Inr c1" "md5_repr c1 m"
    using MD5Update_repr [OF MD5Init_repr [OF assms(1)] assms(2)] by auto
  obtain c2 where "MD5Final c1 = Inr (c2, md5_spec m)"
    using MD5Final_whole [OF c1(2)] by (auto simp: md5_whole_rfc)
  then show ?thesis
    using assms(3,4) c1(1)
    by (simp add: Md5sum32_def put_at_def md5_hex_bytes [symmetric])
qed

subsection \<open>Properties\<close>

text \<open>C3: \<open>Md5sum32\<close> computes the MD5 of RFC 1321 (\<open>md5_hex\<close>, a transcription of the RFC that shares no
  definition with the code and has its constants from the sine) of inputs up to 2^32 - 65 bytes, as 32
  lower-case hexadecimal digits, whatever the uninitialised context held, and leaves the rest of the
  output buffer alone.\<close>

theorem Md5sum32_rfc1321:
  assumes "length (md5_buffer ctx0) = 64" "length m + 64 < 2 ^ 32" "32 \<le> osz" "32 \<le> length o'"
  shows "Md5sum32 ctx0 (Some m) (Some o') (length m) osz = Inr (0, Some (md5_hex m @ drop 32 o')) \<and>
    (\<forall>ch \<in> set (md5_hex m). is_hex ch)"
  using Md5sum32_ok [OF assms] hex_bytes_hex by (auto simp: md5_hex_bytes)

lemma md5_transform_a:
  "MD5Transform md5_init
     [0x61, 0x80, 0, 0, 0, 0, 0, 0, 0, 0, 0, 0, 0, 0, 0, 0, 0, 0, 0, 0, 0, 0, 0, 0,
      0, 0, 0, 0, 0, 0, 0, 0, 0, 0, 0, 0, 0, 0, 0, 0, 0, 0, 0, 0, 0, 0, 0, 0, 0, 0, 0,
      0, 0, 0, 0, 0, 8, 0, 0, 0, 0, 0, 0, 0]
   = (0xb975c10c, 0xa8b6f1c0, 0xe299c331, 0x61267769)"
  by code_simp

lemma md5_padded_a: "[0x61] @ md5_padding 1 @ le64 8 =
     [0x61, 0x80, 0, 0, 0, 0, 0, 0, 0, 0, 0, 0, 0, 0, 0, 0, 0, 0, 0, 0, 0, 0, 0, 0,
      0, 0, 0, 0, 0, 0, 0, 0, 0, 0, 0, 0, 0, 0, 0, 0, 0, 0, 0, 0, 0, 0, 0, 0, 0, 0, 0,
      0, 0, 0, 0, 0, 8, 0, 0, 0, 0, 0, 0, 0]"
proof -
  have "le64 8 = MD5Encode [8, 0]" by (simp add: le64_def)
  also have "\<dots> = [8, 0, 0, 0, 0, 0, 0, 0]" by code_simp
  finally have l: "le64 8 = [8, 0, 0, 0, 0, 0, 0, 0]" .
  have "md5_padding 1 = 0x80 # replicate 54 0" by (simp add: md5_padding_def)
  moreover have "replicate 54 0 = 0 # replicate 53 (0 :: byte)" by code_simp
  ultimately show ?thesis unfolding l by code_simp
qed

lemma md5_digest_a: "MD5Encode [0xb975c10c, 0xa8b6f1c0, 0xe299c331, 0x61267769] =
    [0x0c, 0xc1, 0x75, 0xb9, 0xc0, 0xf1, 0xb6, 0xa8, 0x31, 0xc3, 0x99, 0xe2, 0x69, 0x77, 0x26, 0x61]"
  by code_simp

lemma md5_hex_a: "md5_hex [0x61] = ''0cc175b9c0f1b6a831c399e269772661''"
proof -
  have "md5_spec [0x61] = MD5Encode (state_words (0xb975c10c, 0xa8b6f1c0, 0xe299c331, 0x61267769))"
    using md5_padded_a md5_transform_a by (simp add: md5_whole_rfc [symmetric] md5_whole_def md5_fold.simps)
  then show ?thesis
    by (simp add: md5_hex_bytes state_words_def md5_digest_a hex_byte_def hex_digit_def del: MD5Encode.simps)
qed

theorem Md5sum32_rfc1321_witness:
  "Md5sum32 \<lparr>count0 = 1, count1 = 2, md5_st = md5_init, md5_buffer = replicate 64 7\<rparr>
     (Some [0x61]) (Some ''................................!'') 1 33 =
   Inr (0, Some ''0cc175b9c0f1b6a831c399e269772661!'')"
  using Md5sum32_rfc1321 [of "\<lparr>count0 = 1, count1 = 2, md5_st = md5_init, md5_buffer = replicate 64 7\<rparr>"
      "[0x61]" 33 "''................................!''"]
  by (simp add: md5_hex_a)

end
