(* ===== verification/Posix_Regex.thy ===== *)
theory Posix_Regex
  imports Prelude
begin

section \<open>POSIX extended regular expressions (regcomp and regexec of the C library)\<close>

text \<open>
  \<open>MyRegex\<close> calls \<open>regcomp(pattern, REG_EXTENDED)\<close> and \<open>regexec\<close>. This theory models the
  part of them that the program uses: patterns of literals, \<open>.\<close>, bracket expressions,
  back-slash escapes, groups, alternation, \<open>*\<close>, \<open>+\<close>, \<open>?\<close> and \<open>{m,n}\<close>, with \<open>^\<close> as first
  and \<open>$\<close> as last character of the pattern. \<open>re_parse\<close> turns a pattern into an \<open>re\<close>,
  \<open>regexec\<close> finds the leftmost longest match and \<open>captures\<close> the groups, each concatenation
  giving its left part as much as the rest allows. \<open>lang\<close> is the meaning of an expression.
\<close>

subsection \<open>Expressions and their meaning\<close>

text \<open>\<open>Cls neg rs\<close>: a character in one of the ranges \<open>rs\<close>, or in none of them if \<open>neg\<close>.\<close>

datatype re =
    Never
  | Eps
  | Cls bool "(char \<times> char) list"
  | Cat re re
  | Alt re re
  | Star re
  | Group nat re

definition in_range :: "char \<Rightarrow> char \<times> char \<Rightarrow> bool" where
  "in_range c r \<longleftrightarrow> (of_char (fst r) :: nat) \<le> of_char c \<and> (of_char c :: nat) \<le> of_char (snd r)"

definition in_cls :: "bool \<Rightarrow> (char \<times> char) list \<Rightarrow> char \<Rightarrow> bool" where
  "in_cls neg rs c \<longleftrightarrow> (list_ex (in_range c) rs \<noteq> neg)"

abbreviation Lit :: "char \<Rightarrow> re" where
  "Lit c \<equiv> Cls False [(c, c)]"

abbreviation Dot :: re where
  "Dot \<equiv> Cls True []"

inductive_set star :: "string set \<Rightarrow> string set" for A where
  star_Nil [intro]: "[] \<in> star A"
| star_app: "u \<in> A \<Longrightarrow> v \<in> star A \<Longrightarrow> u @ v \<in> star A"

fun lang :: "re \<Rightarrow> string set" where
  "lang Never = {}"
| "lang Eps = {[]}"
| "lang (Cls neg rs) = {[c] | c. in_cls neg rs c}"
| "lang (Cat r s) = {u @ v | u v. u \<in> lang r \<and> v \<in> lang s}"
| "lang (Alt r s) = lang r \<union> lang s"
| "lang (Star r) = star (lang r)"
| "lang (Group i r) = lang r"

subsection \<open>Matching by derivatives\<close>

fun nullable :: "re \<Rightarrow> bool" where
  "nullable Never = False"
| "nullable Eps = True"
| "nullable (Cls _ _) = False"
| "nullable (Cat r s) = (nullable r \<and> nullable s)"
| "nullable (Alt r s) = (nullable r \<or> nullable s)"
| "nullable (Star r) = True"
| "nullable (Group i r) = nullable r"

definition mk_cat :: "re \<Rightarrow> re \<Rightarrow> re" where
  "mk_cat r s = (if r = Never then Never else if r = Eps then s else Cat r s)"

definition mk_alt :: "re \<Rightarrow> re \<Rightarrow> re" where
  "mk_alt r s = (if r = Never then s else if s = Never then r else Alt r s)"

fun deriv :: "char \<Rightarrow> re \<Rightarrow> re" where
  "deriv c Never = Never"
| "deriv c Eps = Never"
| "deriv c (Cls neg rs) = (if in_cls neg rs c then Eps else Never)"
| "deriv c (Cat r s) =
     (if nullable r then mk_alt (mk_cat (deriv c r) s) (deriv c s) else mk_cat (deriv c r) s)"
| "deriv c (Alt r s) = mk_alt (deriv c r) (deriv c s)"
| "deriv c (Star r) = mk_cat (deriv c r) (Star r)"
| "deriv c (Group i r) = deriv c r"

fun re_match :: "re \<Rightarrow> string \<Rightarrow> bool" where
  "re_match r [] = nullable r"
| "re_match r (c # s) = (let d = deriv c r in if d = Never then False else re_match d s)"

lemma nullable_lang: "nullable r \<longleftrightarrow> [] \<in> lang r"
  by (induction r) auto

lemma lang_mk_cat [simp]: "lang (mk_cat r s) = lang (Cat r s)"
  by (auto simp: mk_cat_def)

lemma lang_mk_alt [simp]: "lang (mk_alt r s) = lang (Alt r s)"
  by (auto simp: mk_alt_def)

lemma star_Cons:
  "c # w \<in> star A \<longleftrightarrow> (\<exists>u v. w = u @ v \<and> c # u \<in> A \<and> v \<in> star A)"
proof
  show "c # w \<in> star A \<Longrightarrow> \<exists>u v. w = u @ v \<and> c # u \<in> A \<and> v \<in> star A"
  proof (induction "c # w" arbitrary: w rule: star.induct)
    case (star_app u v)
    then show ?case by (cases u) auto
  qed
next
  assume "\<exists>u v. w = u @ v \<and> c # u \<in> A \<and> v \<in> star A"
  then obtain u v where "w = u @ v" "c # u \<in> A" "v \<in> star A" by auto
  then have "(c # u) @ v \<in> star A" by (intro star_app)
  then show "c # w \<in> star A" by (simp add: \<open>w = u @ v\<close>)
qed

lemma lang_deriv: "w \<in> lang (deriv c r) \<longleftrightarrow> c # w \<in> lang r"
proof (induction r arbitrary: w)
  case (Cat r s)
  have "c # w \<in> lang (Cat r s) \<longleftrightarrow>
      (\<exists>u v. w = u @ v \<and> c # u \<in> lang r \<and> v \<in> lang s) \<or> ([] \<in> lang r \<and> c # w \<in> lang s)"
    by (auto simp: Cons_eq_append_conv)
  then show ?case by (auto simp: Cat nullable_lang)
next
  case (Star r)
  then show ?case by (auto simp: star_Cons)
qed auto

lemma re_match_lang [simp]: "re_match r s \<longleftrightarrow> s \<in> lang r"
proof (induction s arbitrary: r)
  case (Cons c s)
  then show ?case using lang_deriv [of s c r] by (auto simp: Let_def)
qed (simp add: nullable_lang)

subsection \<open>Leftmost longest match\<close>

text \<open>\<open>longest r s\<close>: the length of the longest prefix of \<open>s\<close> in \<open>lang r\<close>.\<close>

fun longest :: "re \<Rightarrow> string \<Rightarrow> nat option" where
  "longest r [] = (if nullable r then Some 0 else None)"
| "longest r (c # s) =
     (let d = deriv c r in
      case (if d = Never then None else longest d s) of
        Some n \<Rightarrow> Some (Suc n)
      | None \<Rightarrow> if nullable r then Some 0 else None)"

lemma longest_Some:
  "longest r s = Some n \<Longrightarrow> n \<le> length s \<and> take n s \<in> lang r"
proof (induction r s arbitrary: n rule: longest.induct)
  case (2 r c s)
  then show ?case
    by (auto simp: Let_def lang_deriv nullable_lang split: option.splits if_splits)
qed (auto simp: nullable_lang split: if_splits)

lemma longest_greatest:
  "take k s \<in> lang r \<Longrightarrow> \<exists>n. longest r s = Some n \<and> min k (length s) \<le> n"
proof (induction s arbitrary: k r)
  case (Cons c s)
  show ?case
  proof (cases k)
    case 0
    then have "nullable r" using Cons.prems by (simp add: nullable_lang)
    then show ?thesis using 0 by (auto simp: Let_def split: option.splits)
  next
    case (Suc k')
    then have "take k' s \<in> lang (deriv c r)" using Cons.prems by (simp add: lang_deriv)
    with Cons.IH [of k' "deriv c r"] obtain n where
      "longest (deriv c r) s = Some n" "min k' (length s) \<le> n" by auto
    moreover have "deriv c r \<noteq> Never"
      using \<open>take k' s \<in> lang (deriv c r)\<close> by auto
    ultimately show ?thesis using Suc by (auto simp: Let_def)
  qed
qed (simp add: nullable_lang)

lemma longest_None: "longest r s = None \<longleftrightarrow> (\<forall>k. take k s \<notin> lang r)"
  using longest_greatest longest_Some by (metis not_None_eq)

text \<open>\<open>search bol eol r s i\<close>: the leftmost match of \<open>s\<close>, which starts at offset \<open>i\<close> of the
  subject, as start and end offset. With \<open>eol\<close> the match must end where the subject does, with
  \<open>bol\<close> it must start at its beginning.\<close>

definition match_here :: "bool \<Rightarrow> re \<Rightarrow> string \<Rightarrow> nat option" where
  "match_here eol r s =
     (if eol then (if re_match r s then Some (length s) else None) else longest r s)"

fun search :: "bool \<Rightarrow> bool \<Rightarrow> re \<Rightarrow> string \<Rightarrow> nat \<Rightarrow> (nat \<times> nat) option" where
  "search bol eol r s i =
     (case match_here eol r s of
        Some n \<Rightarrow> Some (i, i + n)
      | None \<Rightarrow>
          (case s of
             [] \<Rightarrow> None
           | _ # s' \<Rightarrow> if bol then None else search bol eol r s' (Suc i)))"

declare search.simps [simp del]

lemma match_here_Some: "match_here eol r s = Some n \<Longrightarrow> n \<le> length s \<and> take n s \<in> lang r"
  by (auto simp: match_here_def split: if_splits dest: longest_Some)

lemma search_Some:
  "search bol eol r s i = Some (a, b) \<Longrightarrow>
   i \<le> a \<and> a \<le> b \<and> b \<le> i + length s \<and> take (b - a) (drop (a - i) s) \<in> lang r"
proof (induction bol eol r s i rule: search.induct)
  case (1 bol eol r s i)
  show ?case
  proof (cases "match_here eol r s")
    case None
    with 1(2) obtain c s' where s: "s = c # s'" "\<not> bol" "search bol eol r s' (Suc i) = Some (a, b)"
      by (subst (asm) search.simps) (auto split: list.splits if_splits)
    from 1(1) [OF None s(1,2,3)]
    have ih: "Suc i \<le> a" "a \<le> b" "b \<le> Suc i + length s'"
        "take (b - a) (drop (a - Suc i) s') \<in> lang r" by auto
    have "a - i = Suc (a - Suc i)" using ih(1) by simp
    then show ?thesis using ih s(1) by simp
  next
    case (Some n)
    then show ?thesis
      using 1(2) match_here_Some [OF Some] by (subst (asm) search.simps) auto
  qed
qed

text \<open>An unanchored search succeeds exactly if some substring is in the language.\<close>

lemma search_None:
  "search False False r s i = None \<longleftrightarrow> (\<forall>x y z. s = x @ y @ z \<longrightarrow> y \<notin> lang r)"
proof (induction s arbitrary: i)
  case Nil
  then show ?case by (subst search.simps) (auto simp: match_here_def nullable_lang)
next
  case (Cons c s)
  have here: "match_here False r (c # s) = None \<longleftrightarrow> (\<forall>y z. c # s = y @ z \<longrightarrow> y \<notin> lang r)"
    unfolding match_here_def by (simp add: longest_None del: longest.simps)
      (metis append_eq_conv_conj append_take_drop_id)
  have "(\<forall>x y z. c # s = x @ y @ z \<longrightarrow> y \<notin> lang r) \<longleftrightarrow>
      (\<forall>y z. c # s = y @ z \<longrightarrow> y \<notin> lang r) \<and> (\<forall>x y z. s = x @ y @ z \<longrightarrow> y \<notin> lang r)"
    by (metis Cons_eq_append_conv append_Cons append_Nil)
  then show ?case
    using Cons.IH [of "Suc i"] here
    by (subst search.simps) (auto split: option.split)
qed

subsection \<open>Groups\<close>

text \<open>\<open>split_max r s w k\<close>: the greatest split of \<open>w\<close>, at most \<open>k\<close>, into \<open>r\<close> and \<open>s\<close>.\<close>

fun split_max :: "re \<Rightarrow> re \<Rightarrow> string \<Rightarrow> nat \<Rightarrow> nat option" where
  "split_max r s w 0 = (if re_match r [] \<and> re_match s w then Some 0 else None)"
| "split_max r s w (Suc k) =
     (if re_match r (take (Suc k) w) \<and> re_match s (drop (Suc k) w) then Some (Suc k)
      else split_max r s w k)"

text \<open>The groups of an expression that matches all of \<open>w\<close>, at offset \<open>off\<close> of the subject,
  as (number, start, end) in the order in which they are closed last.\<close>

function (sequential) captures :: "re \<Rightarrow> nat \<Rightarrow> string \<Rightarrow> (nat \<times> nat \<times> nat) list" where
  "captures (Cat r s) off w =
     (case split_max r s w (length w) of
        None \<Rightarrow> []
      | Some k \<Rightarrow> captures r off (take k w) @ captures s (off + k) (drop k w))"
| "captures (Alt r s) off w = (if re_match r w then captures r off w else captures s off w)"
| "captures (Star r) off [] = []"
| "captures (Star r) off (c # w) =
     (case split_max (deriv c r) (Star r) w (length w) of
        None \<Rightarrow> []
      | Some k \<Rightarrow> captures r off (c # take k w) @ captures (Star r) (off + Suc k) (drop k w))"
| "captures (Group i r) off w = (i, off, off + length w) # captures r off w"
| "captures _ off w = []"
  by pat_completeness auto

termination
  by (relation "measures [\<lambda>(r, off, w). size r, \<lambda>(r, off, w). length w]") auto

lemma split_max_Some:
  "split_max r s w k = Some n \<Longrightarrow> n \<le> k \<and> take n w \<in> lang r \<and> drop n w \<in> lang s"
  by (induction k) (auto split: if_splits)

lemma split_max_exists:
  "take m w \<in> lang r \<Longrightarrow> drop m w \<in> lang s \<Longrightarrow> m \<le> k \<Longrightarrow>
   \<exists>n. split_max r s w k = Some n \<and> m \<le> n"
proof (induction k)
  case (Suc k)
  then show ?case by (cases "m = Suc k") auto
qed simp

lemma split_max_greatest:
  assumes "take m w \<in> lang r" "drop m w \<in> lang s" "m \<le> k"
    and "\<And>n. m < n \<Longrightarrow> n \<le> k \<Longrightarrow> take n w \<notin> lang r \<or> drop n w \<notin> lang s"
  shows "split_max r s w k = Some m"
proof -
  obtain n where n: "split_max r s w k = Some n" "m \<le> n"
    using split_max_exists [OF assms(1-3)] by blast
  then have "n \<le> k" "take n w \<in> lang r" "drop n w \<in> lang s"
    using split_max_Some [OF n(1)] by auto
  then have "n = m" using assms(4) [of n] n(2) by (cases "m < n") auto
  with n show ?thesis by simp
qed

text \<open>Every reported group lies inside the matched text.\<close>

lemma captures_bounds:
  "(i, a, b) \<in> set (captures r off w) \<Longrightarrow> off \<le> a \<and> a \<le> b \<and> b \<le> off + length w"
proof (induction r off w arbitrary: i a b rule: captures.induct)
  case (1 r s off w)
  show ?case
  proof (cases "split_max r s w (length w)")
    case (Some k)
    then have "k \<le> length w" using split_max_Some by blast
    then show ?thesis
      using "1.prems" "1.IH"(1) [OF Some, of i a b] "1.IH"(2) [OF Some, of i a b] Some by auto
  qed (use "1.prems" in simp)
next
  case (4 r off c w)
  show ?case
  proof (cases "split_max (deriv c r) (Star r) w (length w)")
    case (Some k)
    then have "k \<le> length w" using split_max_Some by blast
    then show ?thesis
      using "4.prems" "4.IH"(1) [OF Some, of i a b] "4.IH"(2) [OF Some, of i a b] Some by auto
  qed (use "4.prems" in simp)
qed (auto split: if_splits)

subsection \<open>Compiling a pattern\<close>

text \<open>An item of a bracket expression: a range or a single character.\<close>

definition p_item :: "char \<Rightarrow> string \<Rightarrow> ((char \<times> char) \<times> string) option" where
  "p_item c s =
     (case s of
        d # e # s' \<Rightarrow>
          if d = CHR ''-'' \<and> e \<noteq> CHR '']'' then
            if (of_char c :: nat) \<le> of_char e then Some ((c, e), s') else None
          else Some ((c, c), s)
      | _ \<Rightarrow> Some ((c, c), s))"

function p_items :: "bool \<Rightarrow> string \<Rightarrow> ((char \<times> char) list \<times> string) option" where
  "p_items fst_item [] = None"
| "p_items fst_item (c # s) =
     (if c = CHR '']'' \<and> \<not> fst_item then Some ([], s)
      else if c = CHR ''['' \<and> s \<noteq> [] \<and> hd s \<in> {CHR ''.'', CHR '':'', CHR ''=''} then None
      else case p_item c s of
          None \<Rightarrow> None
        | Some (r, s1) \<Rightarrow> map_option (\<lambda>(rs, t). (r # rs, t)) (p_items False s1))"
  by pat_completeness auto

termination
  by (relation "measure (\<lambda>(b, s). length s)") (auto simp: p_item_def split: list.splits if_splits)

definition p_bracket :: "string \<Rightarrow> (re \<times> string) option" where
  "p_bracket s =
     (if s \<noteq> [] \<and> hd s = CHR ''^''
      then map_option (\<lambda>(rs, t). (Cls True rs, t)) (p_items True (tl s))
      else map_option (\<lambda>(rs, t). (Cls False rs, t)) (p_items True s))"

fun repeat_re :: "nat \<Rightarrow> re \<Rightarrow> re \<Rightarrow> re" where
  "repeat_re 0 r rest = rest"
| "repeat_re (Suc n) r rest = Cat r (repeat_re n r rest)"

fun upto_re :: "nat \<Rightarrow> re \<Rightarrow> re" where
  "upto_re 0 r = Eps"
| "upto_re (Suc n) r = Alt (Cat r (upto_re n r)) Eps"

text \<open>\<open>{m}\<close>, \<open>{m,}\<close> and \<open>{m,n}\<close>, after the opening brace.\<close>

definition p_interval :: "re \<Rightarrow> string \<Rightarrow> (re \<times> string) option" where
  "p_interval r s =
     (let ds = take_digits s; m = digits_val 0 ds; s1 = drop (length ds) s in
      if ds = [] then None
      else case s1 of
        [] \<Rightarrow> None
      | c # s2 \<Rightarrow>
          if c = CHR ''}'' then Some (repeat_re m r Eps, s2)
          else if c \<noteq> CHR '','' then None
          else let es = take_digits s2; n = digits_val 0 es; s3 = drop (length es) s2 in
            case s3 of
              [] \<Rightarrow> None
            | d # s4 \<Rightarrow>
                if d \<noteq> CHR ''}'' then None
                else if es = [] then Some (repeat_re m r (Star r), s4)
                else if n < m then None
                else Some (repeat_re m r (upto_re (n - m) r), s4))"

fun p_postfix :: "nat \<Rightarrow> re \<Rightarrow> string \<Rightarrow> (re \<times> string) option" where
  "p_postfix 0 r s = None"
| "p_postfix (Suc n) r [] = Some (r, [])"
| "p_postfix (Suc n) r (c # s) =
     (if c = CHR ''*'' then p_postfix n (Star r) s
      else if c = CHR ''+'' then p_postfix n (Cat r (Star r)) s
      else if c = CHR ''?'' then p_postfix n (Alt r Eps) s
      else if c = CHR ''{'' then
        (case p_interval r s of None \<Rightarrow> None | Some (r', s') \<Rightarrow> p_postfix n r' s')
      else Some (r, c # s))"

definition is_alnum :: "char \<Rightarrow> bool" where
  "is_alnum c \<longleftrightarrow> (of_char c :: nat) \<in> {48..57} \<or> (of_char c :: nat) \<in> {65..90} \<or> (of_char c :: nat) \<in> {97..122}"

definition p_simple :: "char \<Rightarrow> string \<Rightarrow> (re \<times> string) option" where
  "p_simple c s =
     (if c = CHR ''.'' then Some (Dot, s)
      else if c = CHR ''['' then p_bracket s
      else if c = CHR 0x5C then
        (case s of [] \<Rightarrow> None | d # s' \<Rightarrow> if is_alnum d \<or> d \<in> set ''<>`'' \<or> d = CHR 0x27 then None else Some (Lit d, s'))
      else if c \<in> set ''*+?{^$'' then None
      else Some (Lit c, s))"

fun p_alt :: "nat \<Rightarrow> nat \<Rightarrow> string \<Rightarrow> (re \<times> nat \<times> string) option"
and p_seq :: "nat \<Rightarrow> nat \<Rightarrow> string \<Rightarrow> (re \<times> nat \<times> string) option"
and p_atom :: "nat \<Rightarrow> nat \<Rightarrow> string \<Rightarrow> (re \<times> nat \<times> string) option" where
  "p_alt 0 g s = None"
| "p_alt (Suc n) g s =
     (case p_seq n g s of
        None \<Rightarrow> None
      | Some (r, g1, s1) \<Rightarrow>
          if s1 \<noteq> [] \<and> hd s1 = CHR ''|'' then
            (case p_alt n g1 (tl s1) of None \<Rightarrow> None | Some (r2, g2, s2) \<Rightarrow> Some (Alt r r2, g2, s2))
          else Some (r, g1, s1))"
| "p_seq 0 g s = None"
| "p_seq (Suc n) g s =
     (if s = [] \<or> hd s = CHR ''|'' \<or> hd s = CHR '')'' then Some (Eps, g, s)
      else case p_atom n g s of
        None \<Rightarrow> None
      | Some (r, g1, s1) \<Rightarrow>
          (case p_postfix (Suc (length s1)) r s1 of
             None \<Rightarrow> None
           | Some (r', s2) \<Rightarrow>
               (case p_seq n g1 s2 of
                  None \<Rightarrow> None
                | Some (r2, g2, s3) \<Rightarrow> Some (if r2 = Eps then r' else Cat r' r2, g2, s3))))"
| "p_atom 0 g s = None"
| "p_atom (Suc n) g [] = None"
| "p_atom (Suc n) g (c # s) =
     (if c = CHR ''('' then
        (case p_alt n (Suc g) s of
           None \<Rightarrow> None
         | Some (r, g1, s1) \<Rightarrow>
             if s1 \<noteq> [] \<and> hd s1 = CHR '')'' then Some (Group g r, g1, tl s1) else None)
      else map_option (\<lambda>(r, s'). (r, g, s')) (p_simple c s))"

record compiled =
  at_start :: bool
  at_end :: bool
  expr :: re

text \<open>\<open>None\<close> is a non-zero result of \<open>regcomp\<close>; it also stands for the few constructs that
  are not modelled (anchors inside a pattern, back references, collating elements).\<close>

definition regcomp :: "string \<Rightarrow> compiled option" where
  "regcomp pat =
     (let bol = (pat \<noteq> [] \<and> hd pat = CHR ''^'');
          p1 = (if bol then tl pat else pat);
          eol = (p1 \<noteq> [] \<and> last p1 = CHR ''$'' \<and> (butlast p1 = [] \<or> last (butlast p1) \<noteq> CHR 0x5C));
          p2 = (if eol then butlast p1 else p1)
      in case p_alt (3 * length p2 + 3) 1 p2 of
           Some (r, g, rest) \<Rightarrow>
             if rest \<noteq> [] \<or> ((bol \<or> eol) \<and> (case r of Alt _ _ \<Rightarrow> True | _ \<Rightarrow> False)) then None
             else Some \<lparr>at_start = bol, at_end = eol, expr = r\<rparr>
         | None \<Rightarrow> None)"

text \<open>\<open>regexec\<close>: the matched text and the groups, as \<open>pmatch[i]\<close>; \<open>None\<close> for offsets -1.\<close>

definition regexec :: "compiled \<Rightarrow> string \<Rightarrow> (nat \<Rightarrow> (nat \<times> nat) option) option" where
  "regexec re subj =
     (case search (at_start re) (at_end re) (expr re) subj 0 of
        None \<Rightarrow> None
      | Some (a, b) \<Rightarrow>
          Some ((map_of (rev (captures (expr re) a (take (b - a) (drop a subj))))) (0 \<mapsto> (a, b))))"

end
