(* ===== verification/My_Regex.thy ===== *)
theory My_Regex
  imports Posix_Regex
begin

section \<open>The class MyRegex (myRegex.cpp, myRegex.h)\<close>

text \<open>
  \<open>MyRegex_Regex\<close> is \<open>MyRegex::Regex\<close> with a list of groups, \<open>MyRegex_Regex0\<close> the overload
  without, \<open>Substr\<close> the bounded copy of one group and \<open>RegexLine\<close> the line-by-line variant.
  A null pointer is \<open>None\<close>; text after a NUL is not seen (\<open>cstr\<close>). \<open>regcomp\<close> and
  \<open>regexec\<close> are those of \<open>Posix_Regex\<close>.
\<close>

definition REGEX_FAILURE :: int where "REGEX_FAILURE = 0"
definition REGEX_SUCCESS :: int where "REGEX_SUCCESS = 1"
definition REGEX_BUF_SIZE :: int where "REGEX_BUF_SIZE = 2048"

subsection \<open>Counting the groups of a pattern\<close>

text \<open>\<open>s.find(needle, pos)\<close>, with \<open>None\<close> for \<open>npos\<close>.\<close>

definition find_from :: "string \<Rightarrow> string \<Rightarrow> nat option \<Rightarrow> nat option" where
  "find_from needle s pos =
     (case pos of
        None \<Rightarrow> None
      | Some p \<Rightarrow> if length s < p then None else map_option (\<lambda>i. p + i) (find_sub needle (drop p s)))"

lemma find_from_Some:
  "find_from needle s (Some p) = Some q \<Longrightarrow> p \<le> q \<and> q + length needle \<le> length s"
  by (auto simp: find_from_def split: if_splits dest: find_sub_Some)

text \<open>\<open>while((pos = s.find(needle, pos)) != npos) n += step, pos++\<close>: the count and the last
  value of \<open>pos\<close>.\<close>

function count_loop :: "string \<Rightarrow> string \<Rightarrow> int \<Rightarrow> nat option \<Rightarrow> int \<Rightarrow> int \<times> nat option" where
  "count_loop needle s step pos n =
     (case find_from needle s pos of
        None \<Rightarrow> (n, None)
      | Some q \<Rightarrow> count_loop needle s step (Some (Suc q)) (n + step))"
  by pat_completeness auto

termination
proof (relation "measure (\<lambda>(needle, s, step, pos, n). case pos of None \<Rightarrow> 0 | Some p \<Rightarrow> Suc (Suc (length s)) - p)")
  fix needle s step pos n q
  assume "find_from needle s pos = Some q"
  then obtain p where "pos = Some p" "p \<le> q" "q \<le> length s"
    using find_from_Some [of needle s] by (cases pos) (fastforce simp: find_from_def)+
  then show "((needle, s, step, Some (Suc q), n + step), (needle, s, step, pos, n))
      \<in> measure (\<lambda>(needle, s, step, pos, n). case pos of None \<Rightarrow> 0 | Some p \<Rightarrow> Suc (Suc (length s)) - p)"
    by simp
qed simp

declare count_loop.simps [simp del]

text \<open>The second loop starts where the first one ended.\<close>

definition group_num :: "string \<Rightarrow> int" where
  "group_num pat =
     (let (n1, pos1) = count_loop ''('' pat 1 (Some 0) 1;
          (n2, pos2) = count_loop (CHR 0x5C # ''('') pat (- 1) pos1 n1
      in n2)"

subsection \<open>Copying a group\<close>

definition Substr :: "string \<Rightarrow> int \<Rightarrow> int \<Rightarrow> string option" where
  "Substr str pos1 pos2 =
     (let Len = int (length str); SubLen = pos2 - pos1 in
      if pos1 \<ge> 0 \<and> pos1 \<le> Len \<and> pos2 \<ge> 0 \<and> pos2 \<le> Len \<and> SubLen \<ge> 0 \<and> SubLen < REGEX_BUF_SIZE
      then Some (take (nat SubLen) (drop (nat pos1) str))
      else None)"

definition group_text :: "string \<Rightarrow> (nat \<Rightarrow> (nat \<times> nat) option) \<Rightarrow> nat \<Rightarrow> string option" where
  "group_text str pmatch i =
     (case pmatch i of
        None \<Rightarrow> Substr str (- 1) (- 1)
      | Some (so, eo) \<Rightarrow> Substr str (int so) (int eo))"

subsection \<open>Regex\<close>

text \<open>The result code and the list of groups, which a failure leaves alone. \<open>RegFlags\<close> is
  computed from \<open>ignore_case\<close> but \<open>regcomp\<close> is called with \<open>REG_EXTENDED\<close>.\<close>

definition MyRegex_Regex ::
    "string option \<Rightarrow> string option \<Rightarrow> string list option \<Rightarrow> bool \<Rightarrow> int \<times> string list option" where
  "MyRegex_Regex str pattern groups ignore_case =
     (case (str, pattern, groups) of
        (Some s, Some p, Some gs) \<Rightarrow>
          let s' = cstr s; p' = cstr p; GroupNum = group_num p' in
          if GroupNum < 0 then (REGEX_FAILURE, groups)
          else (case regcomp p' of
             None \<Rightarrow> (REGEX_FAILURE, groups)
           | Some re \<Rightarrow>
               (case regexec re s' of
                  None \<Rightarrow> (REGEX_FAILURE, groups)
                | Some pmatch \<Rightarrow>
                    (REGEX_SUCCESS, Some (List.map_filter (group_text s' pmatch) [0..<nat GroupNum]))))
      | _ \<Rightarrow> (REGEX_FAILURE, groups))"

definition MyRegex_Regex0 :: "string option \<Rightarrow> string option \<Rightarrow> bool \<Rightarrow> int" where
  "MyRegex_Regex0 str pattern ignore_case = fst (MyRegex_Regex str pattern (Some []) ignore_case)"

text \<open>The calls of the program: \<open>if(Regex.Regex(s.c_str(), p.c_str(), &Group))\<close> and without
  groups.\<close>

definition rx_groups :: "string \<Rightarrow> string \<Rightarrow> string list option" where
  "rx_groups s p =
     (case MyRegex_Regex (Some s) (Some p) (Some []) False of
        (rc, gs) \<Rightarrow> if rc = REGEX_FAILURE then None else gs)"

definition rx_test :: "string \<Rightarrow> string \<Rightarrow> bool" where
  "rx_test s p \<longleftrightarrow> MyRegex_Regex0 (Some s) (Some p) False \<noteq> REGEX_FAILURE"

text \<open>\<open>Group.pop_front()\<close> and \<open>Group.front()\<close>.\<close>

definition pop_front :: "'a list \<Rightarrow> ub + 'a list" where
  "pop_front xs = (case xs of [] \<Rightarrow> Inl EmptyList | _ # r \<Rightarrow> Inr r)"

definition front :: "'a list \<Rightarrow> ub + 'a" where
  "front xs = (case xs of [] \<Rightarrow> Inl EmptyList | x # _ \<Rightarrow> Inr x)"

lemma pop_front_simps [simp]: "pop_front [] = Inl EmptyList" "pop_front (x # xs) = Inr xs"
  by (simp_all add: pop_front_def)

lemma front_simps [simp]: "front [] = Inl EmptyList" "front (x # xs) = Inr x"
  by (simp_all add: front_def)

subsection \<open>RegexLine\<close>

text \<open>The members \<open>LastStr\<close> (the address of the last string) and \<open>NextPos\<close>.\<close>

record my_regex =
  LastStr :: "nat option"
  NextPos :: "nat option"

definition new_my_regex :: my_regex where
  "new_my_regex = \<lparr>LastStr = None, NextPos = None\<rparr>"

text \<open>The line at \<open>NextPos\<close> and the next \<open>NextPos\<close>: \<open>find("\r\n")\<close>, then \<open>find("\n")\<close>
  if there is none, and \<open>++TmpPos\<close> in both cases.\<close>

definition next_line :: "string \<Rightarrow> nat \<Rightarrow> string \<times> nat option" where
  "next_line s np =
     (let t1 = find_from crlf s (Some np);
          t2 = (if t1 = None then find_from [CHR 0x0A] s (Some np) else t1)
      in case t2 of
           Some t \<Rightarrow> (take (t - np) (drop np s), Some (t + 1))
         | None \<Rightarrow> (drop np s, None))"

text \<open>\<open>RegexLine(str, pattern, groups)\<close> on the string at address \<open>addr\<close> with contents \<open>s\<close>:
  0 for the end of the string, 1 otherwise.\<close>

definition MyRegex_RegexLine ::
    "my_regex \<Rightarrow> (nat \<times> string) option \<Rightarrow> string option \<Rightarrow> string list option \<Rightarrow> bool \<Rightarrow>
     int \<times> my_regex \<times> string list option" where
  "MyRegex_RegexLine st str pattern groups ignore_case =
     (let addr = map_option fst str;
          st1 = (if LastStr st \<noteq> addr then st\<lparr>LastStr := addr, NextPos := Some 0\<rparr> else st) in
      case NextPos st1 of
        None \<Rightarrow> (0, st1, groups)
      | Some np \<Rightarrow>
          (case (str, pattern, groups) of
             (Some (a, s), Some p, Some gs) \<Rightarrow>
               let (line, np') = next_line s np;
                   (rc, gs') = MyRegex_Regex (Some line) (Some p) (Some []) ignore_case
               in if rc = REGEX_FAILURE then (1, st1\<lparr>NextPos := np'\<rparr>, Some [])
                  else (1, st1\<lparr>NextPos := np'\<rparr>, map_option (\<lambda>g. line # g) gs')
           | _ \<Rightarrow> (0, st1, groups)))"

subsection \<open>Plain patterns\<close>

text \<open>A pattern without special characters is found where it occurs, letter case included.\<close>

definition plain :: "char \<Rightarrow> bool" where
  "plain c \<longleftrightarrow> c \<notin> set ''.[()*+?{|^$'' \<and> c \<noteq> CHR 0x5C \<and> c \<noteq> CHR 0x00"

fun lits :: "string \<Rightarrow> re" where
  "lits [] = Eps"
| "lits [c] = Lit c"
| "lits (c # d # s) = Cat (Lit c) (lits (d # s))"

lemma in_cls_lit [simp]: "in_cls False [(c, c)] d \<longleftrightarrow> d = c"
  by (auto simp: in_cls_def in_range_def dest: antisym)

lemma in_cls_dot [simp]: "in_cls True [] c"
  by (simp add: in_cls_def)

lemma lang_lits: "lang (lits s) = {s}"
  by (induction s rule: lits.induct) auto

lemma lits_Eps: "lits s = Eps \<longleftrightarrow> s = []"
  by (cases s rule: lits.cases) simp_all

lemma lits_not_alt: "(case lits s of Alt _ _ \<Rightarrow> True | _ \<Rightarrow> False) = False"
  by (cases s rule: lits.cases) simp_all

lemma p_simple_plain: "plain c \<Longrightarrow> p_simple c s = Some (Lit c, s)"
  by (simp add: p_simple_def plain_def)

lemma p_postfix_plain: "s = [] \<or> plain (hd s) \<Longrightarrow> p_postfix (Suc n) r s = Some (r, s)"
  by (cases s) (auto simp: plain_def)

lemma p_seq_plain:
  "list_all plain s \<Longrightarrow> length s + 1 < n \<Longrightarrow> p_seq n g s = Some (lits s, g, [])"
proof (induction s arbitrary: n)
  case Nil
  then show ?case by (cases n) auto
next
  case (Cons c s)
  then obtain m where n: "n = Suc m" "length s + 1 < m" by (cases n) auto
  then obtain k where m: "m = Suc k" by (cases m) auto
  have c: "c \<noteq> CHR ''|''" "c \<noteq> CHR '')''" "c \<noteq> CHR ''(''"
    using Cons.prems by (auto simp: plain_def)
  have 1: "p_atom m g (c # s) = Some (Lit c, g, s)"
    using Cons.prems c(3) by (simp add: m p_simple_plain)
  have 2: "p_postfix (Suc (length s)) (Lit c) s = Some (Lit c, s)"
    using Cons.prems by (intro p_postfix_plain) (cases s; simp)
  have 3: "p_seq m g s = Some (lits s, g, [])" using Cons n(2) by simp
  have "p_seq (Suc m) g (c # s) = Some (if lits s = Eps then Lit c else Cat (Lit c) (lits s), g, [])"
    using c(1,2) by (subst p_seq.simps(2)) (simp add: 1 2 3 del: p_postfix.simps p_seq.simps p_atom.simps)
  then show ?case unfolding n(1) by (cases s) (simp_all add: lits_Eps del: p_seq.simps)
qed

lemma p_alt_plain:
  "list_all plain s \<Longrightarrow> length s + 1 < n \<Longrightarrow> p_alt (Suc n) g s = Some (lits s, g, [])"
  by (subst p_alt.simps(2)) (simp only: p_seq_plain option.case prod.case, simp)

lemma regcomp_plain:
  assumes "list_all plain s"
  shows "regcomp s = Some \<lparr>at_start = False, at_end = False, expr = lits s\<rparr>"
proof -
  have h: "(s \<noteq> [] \<and> hd s = CHR ''^'') = False" "(s \<noteq> [] \<and> last s = CHR ''$'' \<and> X) = False" for X
    using assms hd_in_set [of s] last_in_set [of s] unfolding list_all_iff plain_def by fastforce+
  have "p_alt (3 * length s + 3) 1 s = Some (lits s, 1, [])"
  proof -
    have "3 * length s + 3 = Suc (3 * length s + 2)" "length s + 1 < 3 * length s + 2" by simp_all
    then show ?thesis using p_alt_plain [OF assms] by metis
  qed
  then show ?thesis
    by (simp only: regcomp_def Let_def h if_False option.case prod.case simp_thms)
qed

lemma plain_cstr: "list_all plain s \<Longrightarrow> cstr s = s"
  by (rule cstr_id) (auto simp: list_all_iff plain_def)

subsection \<open>Group counts and matches\<close>

lemma find_from_char:
  "find_from [c] s (Some p) = None \<longleftrightarrow> p > length s \<or> c \<notin> set (drop p s)"
proof -
  have "find_sub [c] t = None \<longleftrightarrow> c \<notin> set t" for t
    by (induction t) (subst find_sub.simps; auto)+
  then show ?thesis by (auto simp: find_from_def)
qed

lemma find_from_char_Some:
  assumes "find_from [c] s (Some p) = Some q"
  shows "count_list (drop p s) c = Suc (count_list (drop (Suc q) s) c)"
proof -
  obtain i where i: "p \<le> length s" "find_sub [c] (drop p s) = Some i" "q = p + i"
    using assms by (auto simp: find_from_def split: if_splits)
  have "find_sub [c] t = Some i \<Longrightarrow> count_list t c = Suc (count_list (drop (Suc i) t) c)" for t i
  proof (induction t arbitrary: i)
    case (Cons d t)
    then show ?case by (subst (asm) (2) find_sub.simps) (auto split: if_splits)
  qed (subst (asm) find_sub.simps, simp)
  from this [OF i(2)] show ?thesis using i by (simp add: add.commute)
qed

lemma count_loop_char:
  assumes "p \<le> Suc (length s)"
  shows "count_loop [c] s 1 (Some p) n = (n + int (count_list (drop p s) c), None)"
  using assms
proof (induction "Suc (length s) - p" arbitrary: p n rule: less_induct)
  case less
  show ?case
  proof (cases "find_from [c] s (Some p)")
    case None
    then have "c \<notin> set (drop p s)" by (auto simp: find_from_char)
    then show ?thesis using None by (subst count_loop.simps) (simp add: count_list_0_iff)
  next
    case (Some q)
    then have q: "p \<le> q" "q < length s" using find_from_Some [OF Some] by auto
    have "count_loop [c] s 1 (Some (Suc q)) (n + 1) =
        (n + 1 + int (count_list (drop (Suc q) s) c), None)"
      using q by (intro less.hyps) auto
    then show ?thesis
      using Some find_from_char_Some [OF Some] by (subst count_loop.simps) simp
  qed
qed

text \<open>Escaped parentheses are counted as groups: the loop that should subtract them starts at
  \<open>npos\<close>. The extra entries of \<open>pmatch\<close> are unused and give no group.\<close>

lemma group_num_eq: "group_num pat = 1 + int (count_list pat CHR ''('')"
  by (simp add: group_num_def count_loop_char Let_def) (simp add: count_loop.simps find_from_def)

lemma regexec_None:
  "\<not> at_start re \<Longrightarrow> \<not> at_end re \<Longrightarrow>
   regexec re s = None \<longleftrightarrow> (\<forall>x y z. s = x @ y @ z \<longrightarrow> y \<notin> lang (expr re))"
  using search_None [of "expr re" s 0] by (auto simp: regexec_def split: option.split)

lemma MyRegex_Regex0_eq:
  "MyRegex_Regex0 (Some s) (Some p) ic \<noteq> REGEX_FAILURE \<longleftrightarrow>
    (case regcomp (cstr p) of None \<Rightarrow> False | Some re \<Rightarrow> regexec re (cstr s) \<noteq> None)"
  by (auto simp: MyRegex_Regex0_def MyRegex_Regex_def group_num_eq REGEX_FAILURE_def REGEX_SUCCESS_def
      Let_def split: option.splits)

lemma rx_test_lang:
  assumes "regcomp (cstr p) = Some re" "\<not> at_start re" "\<not> at_end re"
  shows "rx_test s p \<longleftrightarrow> (\<exists>x y z. cstr s = x @ y @ z \<and> y \<in> lang (expr re))"
  unfolding rx_test_def MyRegex_Regex0_eq assms(1) option.case regexec_None [OF assms(2,3)] by blast

definition occurs_in :: "string \<Rightarrow> string \<Rightarrow> bool" where
  "occurs_in p s \<longleftrightarrow> find_sub p s \<noteq> None"

lemma occurs_in_iff: "occurs_in p s \<longleftrightarrow> (\<exists>x z. s = x @ p @ z)"
proof
  assume "occurs_in p s"
  then obtain i where "find_sub p s = Some i" by (auto simp: occurs_in_def)
  then have "is_prefix p (drop i s)" using find_sub_Some by blast
  then obtain z where "drop i s = p @ z" by (auto simp: is_prefix_iff)
  then show "\<exists>x z. s = x @ p @ z" by (metis append_take_drop_id)
next
  assume "\<exists>x z. s = x @ p @ z"
  then obtain x z where "s = x @ p @ z" by blast
  then have "is_prefix p (drop (length x) s)" by (simp add: is_prefix_iff)
  then show "occurs_in p s" using find_sub_None by (auto simp: occurs_in_def)
qed

lemma rx_test_plain: "list_all plain p \<Longrightarrow> rx_test s p \<longleftrightarrow> occurs_in p (cstr s)"
  using rx_test_lang [of p] by (simp add: regcomp_plain plain_cstr lang_lits occurs_in_iff)

lemma rx_groups_Some:
  "rx_groups s p = Some gs \<longleftrightarrow>
    (\<exists>re pmatch. regcomp (cstr p) = Some re \<and> regexec re (cstr s) = Some pmatch \<and>
       gs = List.map_filter (group_text (cstr s) pmatch) [0..<Suc (count_list (cstr p) CHR ''('')])"
proof -
  have "nat (1 + int n) = Suc n" for n by simp
  then show ?thesis
    by (auto simp: rx_groups_def MyRegex_Regex_def group_num_eq REGEX_FAILURE_def REGEX_SUCCESS_def
        Let_def split: option.splits simp del: upt_Suc)
qed

lemma rx_groups_None:
  "rx_groups s p = None \<longleftrightarrow> \<not> rx_test s p"
  by (auto simp: rx_groups_def rx_test_def MyRegex_Regex0_def MyRegex_Regex_def group_num_eq
      REGEX_FAILURE_def REGEX_SUCCESS_def Let_def split: option.splits)

lemma Substr_Some: "Substr s a b = Some t \<Longrightarrow> length t < 2048 \<and> (\<exists>x z. s = x @ t @ z)"
proof -
  assume "Substr s a b = Some t"
  then have t: "t = take (nat (b - a)) (drop (nat a) s)" "nat (b - a) < 2048"
    by (auto simp: Substr_def REGEX_BUF_SIZE_def Let_def split: if_splits)
  then have "s = take (nat a) s @ t @ drop (nat (b - a)) (drop (nat a) s)"
    by (metis append_take_drop_id)
  moreover have "length t < 2048" using t by simp
  ultimately show ?thesis by blast
qed

lemma set_map_filter: "set (List.map_filter f xs) = {y. \<exists>x \<in> set xs. f x = Some y}"
  by (induction xs) (auto simp: List.map_filter_simps split: option.splits)

lemma rx_groups_sound:
  assumes "rx_groups s p = Some gs" "g \<in> set gs"
  shows "length g < 2048 \<and> occurs_in g (cstr s)"
proof -
  obtain pmatch i where "group_text (cstr s) pmatch i = Some g"
    using assms by (auto simp: rx_groups_Some set_map_filter simp del: upt_Suc)
  then obtain a b where "Substr (cstr s) a b = Some g"
    by (auto simp: group_text_def split: option.splits)
  then show ?thesis using Substr_Some by (auto simp: occurs_in_iff)
qed

subsection \<open>RegexLine in one equation\<close>

definition line_groups :: "string \<Rightarrow> string \<Rightarrow> string list" where
  "line_groups line p = (case rx_groups line p of None \<Rightarrow> [] | Some gs \<Rightarrow> line # gs)"

lemma MyRegex_Regex_groups:
  "MyRegex_Regex (Some s) (Some p) (Some []) ic =
    (case rx_groups s p of None \<Rightarrow> (REGEX_FAILURE, Some []) | Some gs \<Rightarrow> (REGEX_SUCCESS, Some gs))"
  by (auto simp: rx_groups_def MyRegex_Regex_def REGEX_FAILURE_def REGEX_SUCCESS_def group_num_eq Let_def
      split: option.splits)

lemma RegexLine_eq:
  "MyRegex_RegexLine st (Some (a, s)) (Some p) (Some g) ic =
    (case (if LastStr st \<noteq> Some a then Some 0 else NextPos st) of
       None \<Rightarrow> (0, st, Some g)
     | Some np \<Rightarrow>
         (1, \<lparr>LastStr = Some a, NextPos = snd (next_line s np)\<rparr>,
          Some (line_groups (fst (next_line s np)) p)))"
  by (cases st)
     (auto simp: MyRegex_RegexLine_def MyRegex_Regex_groups line_groups_def REGEX_FAILURE_def
       REGEX_SUCCESS_def Let_def split: option.splits prod.splits)

subsection \<open>The lines of a text\<close>

text \<open>The texts that successive calls of \<open>RegexLine\<close> look at.\<close>

lemma next_line_progress:
  "next_line s np = (l, Some np') \<Longrightarrow> np < np' \<and> np' \<le> length s"
  using find_from_Some [of crlf s np] find_from_Some [of "[CHR 0x0A]" s np]
  by (fastforce simp: next_line_def crlf_def Let_def split: option.splits if_splits)

function lines_from :: "string \<Rightarrow> nat option \<Rightarrow> string list" where
  "lines_from s pos =
     (case pos of
        None \<Rightarrow> []
      | Some np \<Rightarrow> (case next_line s np of (l, pos') \<Rightarrow> l # lines_from s pos'))"
  by pat_completeness auto

termination
proof (relation "measure (\<lambda>(s, pos). case pos of None \<Rightarrow> 0 | Some p \<Rightarrow> Suc (Suc (length s) - p))")
  fix s :: string and pos np l pos'
  assume *: "pos = Some np" "(l, pos') = next_line s np"
  show "((s, pos'), (s, pos)) \<in> measure (\<lambda>(s, pos). case pos of None \<Rightarrow> 0 | Some p \<Rightarrow> Suc (Suc (length s) - p))"
  proof (cases pos')
    case (Some q)
    then have "np < q" "q \<le> length s"
      using next_line_progress [of s np l q] *(2) Some by auto
    then show ?thesis using *(1) Some by simp
  qed (use * in simp)
qed simp

declare lines_from.simps [simp del]

lemma find_sub_crlf:
  assumes "CHR 0x0D \<notin> set l"
  shows "find_sub crlf (l @ crlf @ r) = Some (length l)"
  using assms
proof (induction l)
  case Nil
  then show ?case by (subst find_sub.simps) (simp add: crlf_def)
next
  case (Cons c l)
  then have "c \<noteq> CHR 0x0D" by auto
  with Cons show ?case by (subst find_sub.simps) (simp add: crlf_def)
qed

lemma next_line_crlf:
  assumes "CHR 0x0D \<notin> set l"
  shows "next_line (pre @ l @ crlf @ r) (length pre) = (l, Some (length pre + length l + 1))"
  using find_sub_crlf [OF assms, of r]
  by (simp add: next_line_def find_from_def Let_def)

lemma next_line_last:
  assumes "CHR 0x0A \<notin> set l"
  shows "next_line (pre @ l) (length pre) = (l, None)"
proof -
  have "find_sub crlf l = None"
  proof (rule ccontr)
    assume "find_sub crlf l \<noteq> None"
    then have "occurs_in crlf l" by (simp add: occurs_in_def)
    then show False using assms by (auto simp: occurs_in_iff crlf_def)
  qed
  moreover have "find_sub [CHR 0x0A] l = None"
  proof (rule ccontr)
    assume "find_sub [CHR 0x0A] l \<noteq> None"
    then have "occurs_in [CHR 0x0A] l" by (simp add: occurs_in_def)
    then show False using assms by (auto simp: occurs_in_iff)
  qed
  ultimately show ?thesis by (simp add: next_line_def find_from_def Let_def)
qed

text \<open>After the first line every line starts with the LF of the line before.\<close>

lemma lines_from_lf:
  assumes "\<forall>l \<in> set ls. CHR 0x0D \<notin> set l"
  shows "lines_from (pre @ CHR 0x0A # concat (map (\<lambda>l. l @ crlf) ls)) (Some (length pre)) =
    map (\<lambda>l. CHR 0x0A # l) ls @ [[], []]"
  using assms
proof (induction ls arbitrary: pre)
  case Nil
  have "next_line (pre @ [CHR 0x0A]) (length pre) = ([], Some (Suc (length pre)))"
  proof -
    have "find_sub crlf [CHR 0x0A] = None" "find_sub [CHR 0x0A] [CHR 0x0A] = Some 0"
      by (simp_all add: find_sub.simps crlf_def)
    then show ?thesis by (simp add: next_line_def find_from_def)
  qed
  moreover have "next_line (pre @ [CHR 0x0A]) (Suc (length pre)) = ([], None)"
    using next_line_last [of "[]" "pre @ [CHR 0x0A]"] by simp
  ultimately show ?case by (simp add: lines_from.simps)
next
  case (Cons l ls)
  let ?rest = "concat (map (\<lambda>l. l @ crlf) ls)"
  have "next_line (pre @ (CHR 0x0A # l) @ crlf @ ?rest) (length pre) =
      (CHR 0x0A # l, Some (length (pre @ CHR 0x0A # l @ [CHR 0x0D])))"
    using next_line_crlf [of "CHR 0x0A # l" pre ?rest] Cons.prems by simp
  moreover have "lines_from ((pre @ CHR 0x0A # l @ [CHR 0x0D]) @ CHR 0x0A # ?rest)
      (Some (length (pre @ CHR 0x0A # l @ [CHR 0x0D]))) = map (\<lambda>l. CHR 0x0A # l) ls @ [[], []]"
    using Cons.prems by (intro Cons.IH) simp
  ultimately show ?case by (subst lines_from.simps) (simp add: crlf_def)
qed

lemma lines_from_crlf:
  assumes "\<forall>l \<in> set (l # ls). CHR 0x0D \<notin> set l"
  shows "lines_from (concat (map (\<lambda>l. l @ crlf) (l # ls))) (Some 0) =
    l # map (\<lambda>l. CHR 0x0A # l) ls @ [[], []]"
proof -
  let ?rest = "concat (map (\<lambda>l. l @ crlf) ls)"
  have "next_line (l @ crlf @ ?rest) 0 = (l, Some (length (l @ [CHR 0x0D])))"
    using next_line_crlf [of l "[]" ?rest] assms by simp
  moreover have "lines_from ((l @ [CHR 0x0D]) @ CHR 0x0A # ?rest) (Some (length (l @ [CHR 0x0D]))) =
      map (\<lambda>l. CHR 0x0A # l) ls @ [[], []]"
    using assms by (intro lines_from_lf) simp
  ultimately show ?thesis by (subst lines_from.simps) (simp add: crlf_def)
qed

subsection \<open>The interface of the engine\<close>

text \<open>What the users of \<open>MyRegex\<close> rely on: a search finds a member of the expression's language
  in the subject if there is one, and groups are parts of the subject.\<close>

locale regex_engine =
  fixes exec :: "'e \<Rightarrow> string \<Rightarrow> (nat \<Rightarrow> (nat \<times> nat) option) option"
    and meaning :: "'e \<Rightarrow> string set"
    and anchored :: "'e \<Rightarrow> bool"
  assumes exec_sound:
      "exec e s = Some m \<Longrightarrow> \<exists>a b. m 0 = Some (a, b) \<and> a \<le> b \<and> b \<le> length s \<and>
         take (b - a) (drop a s) \<in> meaning e"
    and exec_complete: "\<not> anchored e \<Longrightarrow> exec e (x @ y @ z) = None \<Longrightarrow> y \<notin> meaning e"
    and exec_groups: "exec e s = Some m \<Longrightarrow> m i = Some (a, b) \<Longrightarrow> a \<le> b \<and> b \<le> length s"
begin

lemma matches_iff:
  assumes "\<not> anchored e"
  shows "exec e s \<noteq> None \<longleftrightarrow> (\<exists>x y z. s = x @ y @ z \<and> y \<in> meaning e)"
proof
  assume "exec e s \<noteq> None"
  then obtain m where "exec e s = Some m" by blast
  then obtain a b where m: "a \<le> b" "b \<le> length s" "take (b - a) (drop a s) \<in> meaning e"
    using exec_sound by blast
  have "s = take a s @ take (b - a) (drop a s) @ drop (b - a) (drop a s)"
    by (metis append_take_drop_id)
  then show "\<exists>x y z. s = x @ y @ z \<and> y \<in> meaning e" using m(3) by blast
next
  show "\<exists>x y z. s = x @ y @ z \<and> y \<in> meaning e \<Longrightarrow> exec e s \<noteq> None"
    using exec_complete [OF assms] by blast
qed

text \<open>The copy of a group is never refused for its offsets, only for its length.\<close>

lemma group_copied:
  assumes "exec e s = Some m" "m i = Some (a, b)" "b - a < 2048"
  shows "group_text s m i = Some (take (b - a) (drop a s))"
proof -
  have ab: "a \<le> b" "b \<le> length s" using exec_groups [OF assms(1,2)] by simp_all
  have "int b - int a < 2048" "nat (int b - int a) = b - a" using ab(1) assms(3) by simp_all
  then show ?thesis
    using ab assms(2) by (simp add: group_text_def Substr_def REGEX_BUF_SIZE_def Let_def)
qed

lemma group_dropped:
  assumes "exec e s = Some m" "m i = Some (a, b)" "2048 \<le> b - a"
  shows "group_text s m i = None"
proof -
  have "\<not> int b - int a < 2048" using assms(3) by simp
  then show ?thesis
    using assms(2) by (simp add: group_text_def Substr_def REGEX_BUF_SIZE_def Let_def)
qed

end

interpretation posix: regex_engine regexec "\<lambda>e. lang (expr e)" "\<lambda>e. at_start e \<or> at_end e"
proof
  fix e s m assume "regexec e s = Some m"
  then show "\<exists>a b. m 0 = Some (a, b) \<and> a \<le> b \<and> b \<le> length s \<and> take (b - a) (drop a s) \<in> lang (expr e)"
    using search_Some [of "at_start e" "at_end e" "expr e" s 0]
    by (auto simp: regexec_def split: option.splits)
next
  fix e x y z assume "\<not> (at_start e \<or> at_end e)" "regexec e (x @ y @ z) = None"
  then show "y \<notin> lang (expr e)" using regexec_None [of e "x @ y @ z"] by blast
next
  fix e s m i a b assume m: "regexec e s = Some m" "m i = Some (a, b)"
  then obtain c d where s: "search (at_start e) (at_end e) (expr e) s 0 = Some (c, d)"
      "m = (map_of (rev (captures (expr e) c (take (d - c) (drop c s))))) (0 \<mapsto> (c, d))"
    by (auto simp: regexec_def split: option.splits)
  have cd: "c \<le> d" "d \<le> length s" using search_Some [OF s(1)] by auto
  show "a \<le> b \<and> b \<le> length s"
  proof (cases "i = 0")
    case True
    then show ?thesis using m(2) s(2) cd by simp
  next
    case False
    then have "(i, a, b) \<in> set (captures (expr e) c (take (d - c) (drop c s)))"
      using m(2) s(2) by (auto dest: map_of_SomeD)
    then show ?thesis using captures_bounds cd by fastforce
  qed
qed

subsection \<open>Properties\<close>

text \<open>With a pattern without special characters, such as the media types "video" and
  "audio" that select a session, \<open>Regex\<close> succeeds exactly if the pattern occurs in the string,
  in the same letter case: the \<open>ignore_case\<close> argument has no effect, because the flags it sets are
  not passed to \<open>regcomp\<close>.\<close>

theorem Regex_plain_pattern:
  assumes "list_all plain p" "CHR 0x00 \<notin> set s"
  shows "MyRegex_Regex0 (Some s) (Some p) ignore_case \<noteq> REGEX_FAILURE \<longleftrightarrow> occurs_in p s"
  using rx_test_plain [OF assms(1), of s] assms(2)
  by (simp add: rx_test_def MyRegex_Regex0_eq cstr_id)

theorem Regex_plain_pattern_witness:
  "MyRegex_Regex0 (Some ''VIDEO'') (Some ''video'') True = REGEX_FAILURE"
proof -
  have "\<not> occurs_in ''video'' ''VIDEO''" by (simp add: occurs_in_def find_sub.simps)
  then show ?thesis
    using Regex_plain_pattern [of "''video''" "''VIDEO''" True] by (simp add: plain_def)
qed

text \<open>
  \<open>RegexLine\<close> visits a text of CR LF terminated lines in order, but \<open>++TmpPos\<close> steps over
  the CR only: every line after the first starts with the LF of its predecessor, and two empty lines
  follow the last one.\<close>

theorem RegexLine_lines:
  assumes "\<forall>l \<in> set (l # ls). CHR 0x0D \<notin> set l"
  shows "lines_from (concat (map (\<lambda>l. l @ crlf) (l # ls))) (Some 0) =
    l # map (\<lambda>l. CHR 0x0A # l) ls @ [[], []]"
  by (rule lines_from_crlf [OF assms])

theorem RegexLine_lines_witness:
  "lines_from (''v=0'' @ crlf @ ''s=x'' @ crlf) (Some 0) =
     [''v=0'', CHR 0x0A # ''s=x'', [], []]"
  using RegexLine_lines [of "''v=0''" "[''s=x'']"] by simp

text \<open>
  a matched group of 2048 bytes or more is not copied and its place in the list is lost, so
  that the groups after it move forward; shorter groups are the matched text.\<close>

theorem Regex_group_limit:
  assumes "regexec re s = Some m" "m i = Some (a, b)"
  shows "group_text s m i = (if b - a < 2048 then Some (take (b - a) (drop a s)) else None)"
  using posix.group_copied [OF assms] posix.group_dropped [OF assms] by simp

theorem Regex_group_limit_witness:
  "group_text ''xab'' (\<lambda>i. if i = 0 then Some (1, 3) else None) 0 = Some ''ab''"
proof -
  have c: "regcomp ''ab'' = Some \<lparr>at_start = False, at_end = False, expr = lits ''ab''\<rparr>"
    by (rule regcomp_plain) (simp add: plain_def)
  let ?re = "\<lparr>at_start = False, at_end = False, expr = lits ''ab''\<rparr>"
  have "regexec ?re ''xab'' = Some ((\<lambda>i. None) (0 \<mapsto> (1, 3)))"
    by (simp add: regexec_def search.simps match_here_def mk_cat_def in_cls_def in_range_def numeral_3_eq_3)
  moreover have "((\<lambda>i. None) (0 \<mapsto> (1, 3))) = (\<lambda>i :: nat. if i = 0 then Some (1 :: nat, 3 :: nat) else None)"
    by auto
  ultimately show ?thesis
    using Regex_group_limit [of ?re "''xab''" "\<lambda>i. if i = 0 then Some (1, 3) else None" 0 1 3] by simp
qed

end
