(* ===== verification/Net_IO.thy ===== *)
theory Net_IO
  imports My_Regex
begin

section \<open>Sockets (utils.cpp: ReadLine, Writen, Readn)\<close>

text \<open>
  A connected socket as the program sees it. The peer and the kernel are a finite script: the
  chunks of data (or errors) that successive \<open>read\<close> calls find, with \<open>Quiet\<close> for a time in
  which nothing arrives (a blocking \<open>read\<close> waits it out, a poll sees no data), and what successive
  \<open>write\<close> calls accept; an exhausted read script is an orderly shutdown, an exhausted write script accepts
  everything. \<open>sent\<close> is what the program has written, \<open>last_errno\<close> the variable
  \<open>errno\<close>, which only failing calls set.
\<close>

datatype errno = EINTR | EAGAIN | EOTHER

datatype rx_event = Chunk "byte list" | RxErr errno | Quiet

datatype tx_event = Accept nat | TxErr errno

record net =
  rx :: "rx_event list"
  tx :: "tx_event list"
  sent :: "byte list"
  last_errno :: errno

datatype read_result = R_Bytes "byte list" | R_Eof | R_Err errno

fun sys_read :: "nat \<Rightarrow> rx_event list \<Rightarrow> read_result \<times> rx_event list" where
  "sys_read n [] = (R_Eof, [])"
| "sys_read n (Chunk bs # r) =
     (if bs = [] then sys_read n r
      else (R_Bytes (take n bs), if length bs \<le> n then r else Chunk (drop n bs) # r))"
| "sys_read n (RxErr e # r) = (R_Err e, r)"
| "sys_read n (Quiet # r) = sys_read n r"

definition sys_write :: "byte list \<Rightarrow> net \<Rightarrow> int \<times> net" where
  "sys_write bs w =
     (case tx w of
        [] \<Rightarrow> (int (length bs), w\<lparr>sent := sent w @ bs\<rparr>)
      | Accept k # t \<Rightarrow> (int (min k (length bs)), w\<lparr>tx := t, sent := sent w @ take k bs\<rparr>)
      | TxErr e # t \<Rightarrow> (-1, w\<lparr>tx := t, last_errno := e\<rparr>))"

text \<open>What is left to read, as a number; and the bytes that arrive before an error or the end,
  however they are cut into chunks.\<close>

fun rx_size :: "rx_event list \<Rightarrow> nat" where
  "rx_size [] = 0"
| "rx_size (Chunk bs # r) = length bs + rx_size r"
| "rx_size (RxErr e # r) = Suc (rx_size r)"
| "rx_size (Quiet # r) = rx_size r"

fun rx_stream :: "rx_event list \<Rightarrow> byte list" where
  "rx_stream [] = []"
| "rx_stream (Chunk bs # r) = bs @ rx_stream r"
| "rx_stream (RxErr EINTR # r) = rx_stream r"
| "rx_stream (Quiet # r) = rx_stream r"
| "rx_stream (RxErr _ # r) = []"

lemma sys_read_bytes:
  "sys_read n r = (R_Bytes bs, r') \<Longrightarrow> 0 < n \<Longrightarrow>
   bs \<noteq> [] \<and> length bs \<le> n \<and> rx_stream r = bs @ rx_stream r' \<and> rx_size r = length bs + rx_size r'"
  by (induction n r rule: sys_read.induct) (auto split: if_splits)

lemma sys_read_eof: "sys_read n r = (R_Eof, r') \<Longrightarrow> rx_stream r = [] \<and> r' = []"
  by (induction n r rule: sys_read.induct) (auto split: if_splits)

lemma sys_read_err:
  "sys_read n r = (R_Err e, r') \<Longrightarrow>
   rx_size r' < rx_size r \<and> rx_stream r = (if e = EINTR then rx_stream r' else [])"
  by (induction n r rule: sys_read.induct) (auto split: if_splits, (case_tac e; simp)+)

subsection \<open>ReadLine\<close>

text \<open>The loop \<open>for(n = 1; n < maxlen; n++)\<close>: the value returned, the bytes stored before the
  terminating NUL, and the socket.\<close>

function readline_loop :: "nat \<Rightarrow> nat \<Rightarrow> net \<Rightarrow> int \<times> byte list \<times> net" where
  "readline_loop maxlen n w =
     (if maxlen \<le> n then (int n, [], w)
      else case sys_read 1 (rx w) of
        (R_Bytes bs, r) \<Rightarrow>
          if hd bs = 10 then (int n, [10], w\<lparr>rx := r\<rparr>)
          else (case readline_loop maxlen (Suc n) (w\<lparr>rx := r\<rparr>) of (rc, out, w') \<Rightarrow> (rc, hd bs # out, w'))
      | (R_Eof, r) \<Rightarrow> (int n - 1, [], w\<lparr>rx := r\<rparr>)
      | (R_Err EINTR, r) \<Rightarrow> readline_loop maxlen n (w\<lparr>rx := r, last_errno := EINTR\<rparr>)
      | (R_Err EAGAIN, r) \<Rightarrow> (int n - 1, [], w\<lparr>rx := r, last_errno := EAGAIN\<rparr>)
      | (R_Err EOTHER, r) \<Rightarrow> (-1, [], w\<lparr>rx := r, last_errno := EOTHER\<rparr>))"
  by pat_completeness auto

termination
  by (relation "measure (\<lambda>(maxlen, n, w). rx_size (rx w))")
     (auto dest!: sym [of "(_, _)" "sys_read _ _"] sys_read_bytes sys_read_err)

declare readline_loop.simps [simp del]

definition ReadLine :: "nat \<Rightarrow> net \<Rightarrow> int \<times> byte list \<times> net" where
  "ReadLine maxlen w = readline_loop maxlen 1 w"

subsection \<open>Writen and Readn\<close>

lemma sys_write_progress:
  "sys_write bs w = (k, w') \<Longrightarrow>
   k \<le> int (length bs) \<and> (tx w = [] \<and> tx w' = [] \<and> k = int (length bs) \<or> length (tx w') < length (tx w))"
  by (auto simp: sys_write_def split: list.splits tx_event.splits)

lemma sys_write_less:
  assumes "(k, w') = sys_write bs w" "bs \<noteq> []"
  shows "k \<le> 0 \<Longrightarrow> length (tx w') < length (tx w)"
    and "\<not> k \<le> 0 \<Longrightarrow> length bs - nat k + length (tx w') < length bs + length (tx w)"
  using sys_write_progress [OF assms(1) [symmetric]] assms(2) by (cases bs; auto)+

function writen_loop :: "nat \<Rightarrow> byte list \<Rightarrow> net \<Rightarrow> int \<times> net" where
  "writen_loop n bs w =
     (if bs = [] then (int n, w)
      else case sys_write bs w of (nwritten, w') \<Rightarrow>
        if nwritten \<le> 0 then
          if nwritten < 0 \<and> last_errno w' = EINTR then writen_loop n bs w'
          else if nwritten < 0 \<and> last_errno w' = EAGAIN then (int n - int (length bs), w')
          else (-1, w')
        else writen_loop n (drop (nat nwritten) bs) w')"
  by pat_completeness auto

termination
  by (relation "measure (\<lambda>(n, bs, w). length bs + length (tx w))")
     (auto dest: sys_write_less)

declare writen_loop.simps [simp del]

definition Writen :: "byte list \<Rightarrow> net \<Rightarrow> int \<times> net" where
  "Writen bs w = writen_loop (length bs) bs w"

function readn_loop :: "nat \<Rightarrow> nat \<Rightarrow> net \<Rightarrow> int \<times> byte list \<times> net" where
  "readn_loop n nleft w =
     (if nleft = 0 then (int n, [], w)
      else case sys_read nleft (rx w) of
        (R_Bytes bs, r) \<Rightarrow>
          (case readn_loop n (nleft - length bs) (w\<lparr>rx := r\<rparr>) of (rc, out, w') \<Rightarrow> (rc, bs @ out, w'))
      | (R_Eof, r) \<Rightarrow> (int n - int nleft, [], w\<lparr>rx := r\<rparr>)
      | (R_Err EINTR, r) \<Rightarrow> readn_loop n nleft (w\<lparr>rx := r, last_errno := EINTR\<rparr>)
      | (R_Err EAGAIN, r) \<Rightarrow> (int n - int nleft, [], w\<lparr>rx := r, last_errno := EAGAIN\<rparr>)
      | (R_Err EOTHER, r) \<Rightarrow> (-1, [], w\<lparr>rx := r, last_errno := EOTHER\<rparr>))"
  by pat_completeness auto

termination
  by (relation "measure (\<lambda>(n, nleft, w). rx_size (rx w))")
     (auto dest!: sym [of "(_, _)" "sys_read _ _"] sys_read_bytes sys_read_err)

declare readn_loop.simps [simp del]

definition Readn :: "nat \<Rightarrow> net \<Rightarrow> int \<times> byte list \<times> net" where
  "Readn n w = readn_loop n n w"

subsection \<open>What the three calls guarantee\<close>

lemma read_result_cases:
  obtains bs r where "sys_read n x = (R_Bytes bs, r)"
  | r where "sys_read n x = (R_Eof, r)"
  | e r where "sys_read n x = (R_Err e, r)"
  by (metis read_result.exhaust surj_pair)

lemma readline_loop_bound:
  "readline_loop maxlen n w = (rc, out, w') \<Longrightarrow> n \<le> maxlen \<Longrightarrow> 1 \<le> n \<Longrightarrow>
   -1 \<le> rc \<and> rc \<le> int maxlen \<and> n + length out \<le> maxlen \<and> rx_size (rx w') \<le> rx_size (rx w) \<and>
   (rc < 0 \<longrightarrow> rx_size (rx w') < rx_size (rx w)) \<and> tx w' = tx w \<and> sent w' = sent w"
proof (induction maxlen n w arbitrary: rc out w' rule: readline_loop.induct)
  case (1 maxlen n w)
  show ?case
  proof (cases "maxlen \<le> n")
    case True
    then show ?thesis using "1.prems" by (subst (asm) readline_loop.simps) auto
  next
    case False
    consider (bytes) bs r where "sys_read 1 (rx w) = (R_Bytes bs, r)"
      | (eof) r where "sys_read 1 (rx w) = (R_Eof, r)" | (err) e r where "sys_read 1 (rx w) = (R_Err e, r)"
      by (rule read_result_cases)
    then show ?thesis
    proof cases
      case bytes
      note b = sys_read_bytes [OF bytes, simplified]
      obtain rc1 out1 w1 where rec: "readline_loop maxlen (Suc n) (w\<lparr>rx := r\<rparr>) = (rc1, out1, w1)"
        by (cases "readline_loop maxlen (Suc n) (w\<lparr>rx := r\<rparr>)") auto
      show ?thesis
      proof (cases "hd bs = 10")
        case True
        then show ?thesis
          using "1.prems" False bytes b by (subst (asm) readline_loop.simps) auto
      next
        case ne: False
        then have "rc = rc1" "out = hd bs # out1" "w' = w1"
          using "1.prems"(1) False bytes rec by (subst (asm) readline_loop.simps; simp)+
        then show ?thesis
          using "1.IH"(1) [OF False bytes [symmetric] refl ne rec] False b "1.prems" by auto
      qed
    next
      case eof
      then show ?thesis
        using "1.prems" False sys_read_eof [OF eof] by (subst (asm) readline_loop.simps) auto
    next
      case err
      note e = sys_read_err [OF err]
      show ?thesis
      proof (cases e)
        case EINTR
        then have "readline_loop maxlen n (w\<lparr>rx := r, last_errno := EINTR\<rparr>) = (rc, out, w')"
          using "1.prems"(1) False err by (subst (asm) readline_loop.simps) simp
        then show ?thesis
          using "1.IH"(2) [OF False err [symmetric] refl EINTR] "1.prems" e by fastforce
      qed (use "1.prems" False err e in \<open>subst (asm) readline_loop.simps, auto\<close>)+
    qed
  qed
qed

lemmas ReadLine_bound = readline_loop_bound [of _ 1, folded ReadLine_def]

text \<open>A line that is completely in the stream is returned with its LF, whatever the chunks and
  interruptions, and the rest of the stream stays.\<close>

lemma readline_loop_line:
  "rx_stream (rx w) = l @ 10 # s \<Longrightarrow> 10 \<notin> set l \<Longrightarrow> n + length l < maxlen \<Longrightarrow>
   \<exists>w'. readline_loop maxlen n w = (int (n + length l), l @ [10], w') \<and> rx_stream (rx w') = s"
proof (induction maxlen n w arbitrary: l rule: readline_loop.induct)
  case (1 maxlen n w)
  have False: "\<not> maxlen \<le> n" using "1.prems"(3) by simp
  consider (bytes) bs r where "sys_read 1 (rx w) = (R_Bytes bs, r)"
    | (eof) r where "sys_read 1 (rx w) = (R_Eof, r)" | (err) e r where "sys_read 1 (rx w) = (R_Err e, r)"
    by (rule read_result_cases)
  then show ?case
  proof cases
    case bytes
    then obtain b where b: "bs = [b]" "l @ 10 # s = b # rx_stream r"
      using sys_read_bytes [OF bytes] "1.prems"(1) by (cases bs) auto
    show ?thesis
    proof (cases l)
      case Nil
      then show ?thesis
        using b bytes False by (subst readline_loop.simps) simp
    next
      case (Cons c l')
      then have "c = b" "rx_stream r = l' @ 10 # s" "b \<noteq> 10" using b "1.prems"(2) by auto
      moreover obtain w1 where "readline_loop maxlen (Suc n) (w\<lparr>rx := r\<rparr>) =
          (int (Suc n + length l'), l' @ [10], w1)" "rx_stream (rx w1) = s"
        using "1.IH"(1) [OF False bytes [symmetric] refl, of l'] b calculation Cons "1.prems" by auto
      ultimately show ?thesis
        using b bytes False Cons by (subst readline_loop.simps) simp
    qed
  next
    case eof
    then show ?thesis using sys_read_eof "1.prems"(1) by fastforce
  next
    case err
    then have e: "e = EINTR" "rx_stream r = l @ 10 # s"
      using sys_read_err [OF err] "1.prems"(1) by (auto split: if_splits)
    then show ?thesis
      using "1.IH"(2) [OF False err [symmetric] refl e(1), of l] "1.prems" err False
      by (subst readline_loop.simps) simp
  qed
qed

lemma ReadLine_line:
  assumes "rx_stream (rx w) = l @ 10 # s" "10 \<notin> set l" "length l + 1 < maxlen"
  shows "\<exists>w'. ReadLine maxlen w = (int (length l + 1), l @ [10], w') \<and> rx_stream (rx w') = s"
  using readline_loop_line [OF assms(1,2), of 1 maxlen] assms(3) by (simp add: ReadLine_def)

lemma readn_loop_exact:
  "nleft \<le> length (rx_stream (rx w)) \<Longrightarrow>
   \<exists>w'. readn_loop n nleft w = (int n, take nleft (rx_stream (rx w)), w') \<and>
     rx_stream (rx w') = drop nleft (rx_stream (rx w))"
proof (induction n nleft w rule: readn_loop.induct)
  case (1 n nleft w)
  show ?case
  proof (cases "nleft = 0")
    case True
    then show ?thesis by (subst readn_loop.simps) simp
  next
    case False
    consider (bytes) bs r where "sys_read nleft (rx w) = (R_Bytes bs, r)"
      | (eof) r where "sys_read nleft (rx w) = (R_Eof, r)"
      | (err) e r where "sys_read nleft (rx w) = (R_Err e, r)"
      by (rule read_result_cases)
    then show ?thesis
    proof cases
      case bytes
      then have b: "length bs \<le> nleft" "rx_stream (rx w) = bs @ rx_stream r"
        using sys_read_bytes [OF bytes] False by auto
      obtain w1 where "readn_loop n (nleft - length bs) (w\<lparr>rx := r\<rparr>) =
          (int n, take (nleft - length bs) (rx_stream r), w1)"
          "rx_stream (rx w1) = drop (nleft - length bs) (rx_stream r)"
        using "1.IH"(1) [OF False bytes [symmetric] refl] b "1.prems" by (auto simp: le_diff_conv add.commute)
      then show ?thesis using bytes False b by (subst readn_loop.simps) simp
    next
      case eof
      then show ?thesis using sys_read_eof "1.prems" False by fastforce
    next
      case err
      then have e: "e = EINTR" "rx_stream r = rx_stream (rx w)"
        using sys_read_err [OF err] "1.prems" False by (auto split: if_splits)
      then show ?thesis
        using "1.IH"(2) [OF False err [symmetric] refl e(1)] "1.prems" err False
        by (subst readn_loop.simps) simp
    qed
  qed
qed

lemma Readn_exact:
  assumes "n \<le> length (rx_stream (rx w))"
  shows "\<exists>w'. Readn n w = (int n, take n (rx_stream (rx w)), w') \<and>
    rx_stream (rx w') = drop n (rx_stream (rx w))"
  using readn_loop_exact [OF assms] by (simp add: Readn_def)

text \<open>A write script without failures other than interruptions.\<close>

fun tx_fine :: "tx_event list \<Rightarrow> bool" where
  "tx_fine [] = True"
| "tx_fine (Accept k # t) = (0 < k \<and> tx_fine t)"
| "tx_fine (TxErr e # t) = (e = EINTR \<and> tx_fine t)"

lemma writen_loop_all:
  "tx_fine (tx w) \<Longrightarrow>
   \<exists>w'. writen_loop n bs w = (int n, w') \<and> sent w' = sent w @ bs \<and> tx_fine (tx w') \<and> rx w' = rx w"
proof (induction n bs w rule: writen_loop.induct)
  case (1 n bs w)
  show ?case
  proof (cases "bs = []")
    case True
    then show ?thesis using "1.prems" by (subst writen_loop.simps) simp
  next
    case False
    obtain k w1 where wr: "sys_write bs w = (k, w1)" by fastforce
    consider "tx w = []" | m t where "tx w = Accept m # t" | t where "tx w = TxErr EINTR # t"
      using "1.prems" by (cases "tx w" rule: tx_fine.cases) auto
    then show ?thesis
    proof cases
      case 1
      then have "k = int (length bs)" "w1 = w\<lparr>sent := sent w @ bs\<rparr>"
        using wr by (auto simp: sys_write_def)
      moreover have "writen_loop n [] w1 = (int n, w1)" by (subst writen_loop.simps) simp
      ultimately show ?thesis
        using False wr 1 "1.prems" by (subst writen_loop.simps) simp
    next
      case (2 m t)
      then have k: "k = int (min m (length bs))" "w1 = w\<lparr>tx := t, sent := sent w @ take m bs\<rparr>" "0 < m" "tx_fine t"
        using wr "1.prems" by (auto simp: sys_write_def)
      then have pos: "\<not> k \<le> 0" "nat k = min m (length bs)" using False by auto
      obtain w2 where "writen_loop n (drop (nat k) bs) w1 = (int n, w2)"
          "sent w2 = sent w1 @ drop (nat k) bs" "tx_fine (tx w2)" "rx w2 = rx w1"
        using "1.IH"(2) [OF False wr [symmetric] pos(1)] k by auto
      then show ?thesis
        using False wr pos k by (subst writen_loop.simps) (auto simp: min_def)
    next
      case (3 t)
      then have k: "k = -1" "w1 = w\<lparr>tx := t, last_errno := EINTR\<rparr>" "tx_fine t"
        using wr "1.prems" by (auto simp: sys_write_def)
      then obtain w2 where "writen_loop n bs w1 = (int n, w2)"
          "sent w2 = sent w1 @ bs" "tx_fine (tx w2)" "rx w2 = rx w1"
        using "1.IH"(1) [OF False wr [symmetric]] by auto
      then show ?thesis using False wr k by (subst writen_loop.simps) simp
    qed
  qed
qed

lemma Writen_all:
  assumes "tx_fine (tx w)"
  shows "\<exists>w'. Writen bs w = (int (length bs), w') \<and> sent w' = sent w @ bs \<and> tx_fine (tx w') \<and> rx w' = rx w"
  using writen_loop_all [OF assms] by (simp add: Writen_def)

text \<open>A line that does not fit: the loop ends with \<open>n = maxlen\<close>, one more than it has stored.\<close>

lemma readline_loop_full:
  "rx_stream (rx w) = l @ s \<Longrightarrow> 10 \<notin> set l \<Longrightarrow> n + length l = maxlen \<Longrightarrow>
   \<exists>w'. readline_loop maxlen n w = (int maxlen, l, w') \<and> rx_stream (rx w') = s"
proof (induction maxlen n w arbitrary: l rule: readline_loop.induct)
  case (1 maxlen n w)
  show ?case
  proof (cases l)
    case Nil
    then show ?thesis using "1.prems" by (subst readline_loop.simps) simp
  next
    case (Cons b l')
    then have False: "\<not> maxlen \<le> n" using "1.prems"(3) by simp
    consider (bytes) bs r where "sys_read 1 (rx w) = (R_Bytes bs, r)"
      | (eof) r where "sys_read 1 (rx w) = (R_Eof, r)" | (err) e r where "sys_read 1 (rx w) = (R_Err e, r)"
      by (rule read_result_cases)
    then show ?thesis
    proof cases
      case bytes
      then have b: "bs = [b]" "rx_stream r = l' @ s" "b \<noteq> 10"
        using sys_read_bytes [OF bytes] "1.prems"(1,2) Cons by (cases bs; auto)+
      obtain w1 where "readline_loop maxlen (Suc n) (w\<lparr>rx := r\<rparr>) = (int maxlen, l', w1)" "rx_stream (rx w1) = s"
        using "1.IH"(1) [OF False bytes [symmetric] refl, of l'] b Cons "1.prems" by auto
      then show ?thesis using b bytes False Cons by (subst readline_loop.simps) simp
    next
      case eof
      then show ?thesis using sys_read_eof [OF eof] "1.prems"(1) Cons by simp
    next
      case err
      then have e: "e = EINTR" "rx_stream r = l @ s"
        using sys_read_err [OF err] "1.prems"(1) Cons by (auto split: if_splits)
      then show ?thesis
        using "1.IH"(2) [OF False err [symmetric] refl e(1), of l] "1.prems" err False
        by (subst readline_loop.simps) simp
    qed
  qed
qed

subsection \<open>Properties\<close>

text \<open>C13: if the stream begins with a line that fits into the buffer, \<open>ReadLine\<close> stores exactly this
  line with its LF, returns its length and leaves the rest of the stream, however the bytes are cut
  into segments and however often the call is interrupted.\<close>

theorem ReadLine_line_exact:
  assumes "rx_stream (rx w) = l @ 10 # s" "10 \<notin> set l" "length l + 1 < maxlen"
  shows "\<exists>w'. ReadLine maxlen w = (int (length l + 1), l @ [10], w') \<and> rx_stream (rx w') = s"
  by (rule ReadLine_line [OF assms])

theorem ReadLine_line_exact_witness:
  "\<exists>w'. ReadLine 8 \<lparr>rx = [Chunk [65], RxErr EINTR, Chunk [66, 10, 67]], tx = [], sent = [], last_errno = EOTHER\<rparr>
     = (3, [65, 66, 10], w') \<and> rx_stream (rx w') = [67]"
  using ReadLine_line_exact [of "\<lparr>rx = [Chunk [65], RxErr EINTR, Chunk [66, 10, 67]], tx = [], sent = [],
      last_errno = EOTHER\<rparr>" "[65, 66]" "[67]" 8] by simp

text \<open>
  if no LF comes within the buffer, \<open>ReadLine\<close> stores \<open>maxlen - 1\<close> bytes and a NUL but
  returns \<open>maxlen\<close>, one byte more than it read, and the rest of the line stays in the stream.\<close>

theorem ReadLine_full_buffer:
  assumes "rx_stream (rx w) = l @ s" "10 \<notin> set l" "length l + 1 = maxlen"
  shows "\<exists>w'. ReadLine maxlen w = (int maxlen, l, w') \<and> rx_stream (rx w') = s"
  using readline_loop_full [OF assms(1,2), of 1 maxlen] assms(3) by (simp add: ReadLine_def)

theorem ReadLine_full_buffer_witness:
  "\<exists>w'. ReadLine 3 \<lparr>rx = [Chunk [65, 66, 67]], tx = [], sent = [], last_errno = EOTHER\<rparr>
     = (3, [65, 66], w') \<and> rx_stream (rx w') = [67]"
  using ReadLine_full_buffer [of "\<lparr>rx = [Chunk [65, 66, 67]], tx = [], sent = [], last_errno = EOTHER\<rparr>"
      "[65, 66]" "[67]" 3] by simp

text \<open>
  \<open>Readn\<close> stores exactly the next \<open>n\<close> bytes of the stream and leaves the rest if the stream
  has that many before an error or its end.\<close>

theorem Readn_exactly_n:
  assumes "n \<le> length (rx_stream (rx w))"
  shows "\<exists>w'. Readn n w = (int n, take n (rx_stream (rx w)), w') \<and>
    rx_stream (rx w') = drop n (rx_stream (rx w))"
  by (rule Readn_exact [OF assms])

theorem Readn_exactly_n_witness:
  "\<exists>w'. Readn 2 \<lparr>rx = [Chunk [1], Chunk [2, 3]], tx = [], sent = [], last_errno = EOTHER\<rparr>
     = (2, [1, 2], w') \<and> rx_stream (rx w') = [3]"
  using Readn_exactly_n [of 2 "\<lparr>rx = [Chunk [1], Chunk [2, 3]], tx = [], sent = [], last_errno = EOTHER\<rparr>"]
  by simp

text \<open>\<open>Writen\<close> puts all bytes on the stream, in order and without duplicates, and returns their
  number, over any sequence of partial writes and interruptions.\<close>

theorem Writen_sends_all:
  assumes "tx_fine (tx w)"
  shows "\<exists>w'. Writen bs w = (int (length bs), w') \<and> sent w' = sent w @ bs \<and> rx w' = rx w"
  using Writen_all [OF assms, of bs] by blast

theorem Writen_sends_all_witness:
  "\<exists>w'. Writen [1, 2, 3] \<lparr>rx = [], tx = [Accept 1, TxErr EINTR, Accept 9], sent = [], last_errno = EOTHER\<rparr>
     = (3, w') \<and> sent w' = [1, 2, 3]"
  using Writen_sends_all [of "\<lparr>rx = [], tx = [Accept 1, TxErr EINTR, Accept 9], sent = [], last_errno = EOTHER\<rparr>"
      "[1, 2, 3]"] by auto

end
