(* ===== verification/Header_Lines.thy ===== *)
theory Header_Lines
  imports Net_IO
begin

section \<open>The end of a message header\<close>

text \<open>
  Both readers of RTSP responses (\<open>RtspClient::RecvRTSP\<close> and \<open>MyTCPTransmitter::PollSocket\<close>) read
  line by line until a line matches \<open>^(\r\n|\n)$\<close>. This theory works out what that pattern
  accepts and what a header is.
\<close>

definition END_PATTERN :: string where
  "END_PATTERN = ''^('' @ crlf @ ''|'' @ [CHR 0x0A] @ '')$''"

lemma regcomp_END: "regcomp (cstr END_PATTERN) = Some \<lparr>at_start = True, at_end = True,
  expr = Group 1 (Alt (Cat (Lit CHR 0x0D) (Lit CHR 0x0A)) (Lit CHR 0x0A))\<rparr>"
  by code_simp

lemma END_iff: "rx_test s END_PATTERN \<longleftrightarrow> cstr s = crlf \<or> cstr s = [CHR 0x0A]"
proof -
  have "regexec \<lparr>at_start = True, at_end = True,
      expr = Group 1 (Alt (Cat (Lit CHR 0x0D) (Lit CHR 0x0A)) (Lit CHR 0x0A))\<rparr> t \<noteq> None \<longleftrightarrow>
      t \<in> lang (Group 1 (Alt (Cat (Lit CHR 0x0D) (Lit CHR 0x0A)) (Lit CHR 0x0A)))" for t
    by (subst regexec_def) (subst search.simps, auto simp: match_here_def simp del: re_match.simps
      split: list.split)
  then show ?thesis
    unfolding rx_test_def MyRegex_Regex0_eq regcomp_END option.case by (auto simp: crlf_def)
qed

text \<open>A line that the readers take for the end: at most two bytes that match the pattern.\<close>

definition end_line :: "int \<Rightarrow> byte list \<Rightarrow> bool" where
  "end_line n bs \<longleftrightarrow> n \<le> 2 \<and> rx_test (string_of bs) END_PATTERN"

text \<open>A header: lines without LF, NUL or being blank, each with LF or CR LF, then a blank line.\<close>

definition lf_line :: "byte list \<Rightarrow> bool" where
  "lf_line l \<longleftrightarrow> 10 \<notin> set l \<and> 0 \<notin> set l \<and> l \<noteq> [] \<and> l \<noteq> [13]"

definition with_lf :: "byte list \<Rightarrow> byte list" where
  "with_lf l = l @ [10]"

definition header_bytes :: "byte list list \<Rightarrow> byte list \<Rightarrow> byte list" where
  "header_bytes ls blank = concat (map with_lf ls) @ blank"

definition blank_line :: "byte list \<Rightarrow> bool" where
  "blank_line b \<longleftrightarrow> b = [10] \<or> b = [13, 10]"

lemma char_of_byte_inject [simp]: "char_of_byte a = char_of_byte b \<longleftrightarrow> a = b"
  by (metis byte_of_char_of_byte)

lemma string_of_inject: "string_of a = string_of b \<Longrightarrow> a = b"
  by (metis bytes_of_string_of)

lemma lf_char: "char_of_byte 10 = CHR 0x0A" "char_of_byte 13 = CHR 0x0D" "char_of_byte 0 = CHR 0x00"
  by code_simp+

lemma cstr_string_of: "0 \<notin> set bs \<Longrightarrow> cstr (string_of bs) = string_of bs"
proof (rule cstr_id)
  assume "0 \<notin> set bs"
  then show "CHR 0x00 \<notin> set (string_of bs)"
    unfolding lf_char(3) [symmetric] by (auto simp del: lf_char)
qed

lemma end_line_iff:
  assumes "0 \<notin> set bs"
  shows "end_line n bs \<longleftrightarrow> n \<le> 2 \<and> blank_line bs"
proof -
  have "string_of bs = crlf \<longleftrightarrow> bs = [13, 10]"
    using lf_char string_of_inject [of bs "[13, 10]"] by (auto simp: crlf_def)
  moreover have "string_of bs = [CHR 0x0A] \<longleftrightarrow> bs = [10]"
    using lf_char string_of_inject [of bs "[10]"] by auto
  ultimately show ?thesis
    unfolding end_line_def END_iff cstr_string_of [OF assms] blank_line_def by (simp only: disj_commute)
qed

lemma lf_line_not_end: "lf_line l \<Longrightarrow> \<not> end_line n (with_lf l)"
  by (subst end_line_iff) (auto simp: lf_line_def with_lf_def blank_line_def append_eq_Cons_conv)

lemma blank_line_end: "blank_line b \<Longrightarrow> end_line (int (length b)) b"
  by (subst end_line_iff) (auto simp: blank_line_def)

end
