(* ===== verification/Tcp_Transmitter.thy ===== *)
theory Tcp_Transmitter
  imports Header_Lines
begin

section \<open>Interleaved RTP over the RTSP socket (myTCPTransmitter.cpp)\<close>

text \<open>
  The class \<open>MyTCPTransmitter\<close>: \<open>PollSocket\<close>, the state machine that takes \<open>$\<close>-framed packets and
  RTSP messages apart, and \<open>SendRTPRTCPData\<close>. The socket is a \<open>net\<close>; \<open>recv\<close> with
  \<open>MSG_WAITALL\<close> waits for all the bytes it wants and returns fewer only at the end of the stream or
  before an error; \<open>FIONREAD\<close> sees no data at the end, at an error and in a \<open>Quiet\<close> period.
  Allocation is assumed to succeed.
\<close>

subsection \<open>The socket calls\<close>

fun recv_all :: "nat \<Rightarrow> rx_event list \<Rightarrow> byte list \<times> rx_event list" where
  "recv_all n [] = ([], [])"
| "recv_all n (Chunk bs # r) =
     (if n < length bs then (take n bs, Chunk (drop n bs) # r)
      else if n = length bs then (bs, r)
      else case recv_all (n - length bs) r of (b, r') \<Rightarrow> (bs @ b, r'))"
| "recv_all n (Quiet # r) = recv_all n r"
| "recv_all n (RxErr e # r) = ([], RxErr e # r)"

text \<open>\<open>None\<close> is a negative result; an error that came after some bytes stays pending.\<close>

definition sys_recv :: "nat \<Rightarrow> rx_event list \<Rightarrow> byte list option \<times> rx_event list" where
  "sys_recv n r =
     (case recv_all n r of (bs, r') \<Rightarrow>
        (case r' of
           RxErr e # r'' \<Rightarrow> if bs = [] \<and> 0 < n then (None, r'') else (Some bs, r')
         | _ \<Rightarrow> (Some bs, r')))"

definition sys_peek :: "nat \<Rightarrow> rx_event list \<Rightarrow> byte list option \<times> rx_event list" where
  "sys_peek n r = (case sys_recv n r of (None, r') \<Rightarrow> (None, r') | (Some bs, r') \<Rightarrow> (Some bs, r))"

fun fionread :: "rx_event list \<Rightarrow> nat \<times> rx_event list" where
  "fionread [] = (0, [])"
| "fionread (Chunk bs # r) = (if bs = [] then fionread r else (length bs, Chunk bs # r))"
| "fionread (Quiet # r) = (0, r)"
| "fionread (RxErr e # r) = (0, RxErr e # r)"

subsection \<open>The state\<close>

text \<open>A member that the constructor leaves uninitialised is \<open>None\<close> until it is written;
  \<open>junk\<close> is the initial content of the header buffer. A raw packet holds the bytes that were received
  and the length it claims. \<open>RecvRtspCmd\<close> is the identity of the callback, \<open>cmd_calls\<close> the
  arguments it was called with.\<close>

datatype recv_state = RECV_LEN | RECV_DATA | COMMIT_BYE | GOT_BYE

record raw_packet =
  raw_data :: "byte list"
  raw_length :: nat
  raw_isrtp :: bool

record transmitter =
  m_recvstate :: recv_state
  m_dataLength :: "nat option"
  m_isrtp :: "bool option"
  m_httpTunnelHeaderBuffer :: "byte list"
  RecvRtspCmd :: "nat option"
  m_rawpacketlist :: "raw_packet list"
  cmd_calls :: "(nat \<times> string option) list"
  m_init :: bool
  m_created :: bool
  m_destSockets :: "int list"

definition new_transmitter :: "byte list \<Rightarrow> transmitter" where
  "new_transmitter junk =
     \<lparr>m_recvstate = RECV_LEN, m_dataLength = None, m_isrtp = None, m_httpTunnelHeaderBuffer = junk,
      RecvRtspCmd = None, m_rawpacketlist = [], cmd_calls = [], m_init = False, m_created = False,
      m_destSockets = []\<rparr>"

definition SetRecvRtspCmdClbk :: "nat option \<Rightarrow> transmitter \<Rightarrow> transmitter" where
  "SetRecvRtspCmdClbk clbk t = t\<lparr>RecvRtspCmd := clbk\<rparr>"

text \<open>The bytes of a \<open>recv\<close> at the start of the header buffer.\<close>

definition put_header :: "byte list \<Rightarrow> transmitter \<Rightarrow> transmitter" where
  "put_header bs t =
     t\<lparr>m_httpTunnelHeaderBuffer := bs @ drop (length bs) (m_httpTunnelHeaderBuffer t)\<rparr>"

datatype poll_error = ERR_RTP_TCPTRANS_ERRORINRECV

subsection \<open>An RTSP message between the frames\<close>

lemma ReadLine_decreases:
  assumes "(rc, out, w') = ReadLine n w" "0 < n"
  shows "rc < 0 \<Longrightarrow> rx_size (rx w') < rx_size (rx w)"
    and "\<not> rc < 0 \<Longrightarrow> rc \<noteq> 0 \<Longrightarrow> n - nat rc < n"
  using ReadLine_bound [OF assms(1) [symmetric]] assms(2) by auto

text \<open>\<open>ReadLine\<close> writes a NUL after the text except where it stops on \<open>EAGAIN\<close> or an error.\<close>

definition ends_with_nul :: "nat \<Rightarrow> net \<Rightarrow> bool" where
  "ends_with_nul maxlen w =
     (case ReadLine maxlen (w\<lparr>last_errno := EOTHER\<rparr>) of (rc, out, w') \<Rightarrow>
        0 \<le> rc \<and> (rc \<noteq> int (length out) \<or> last_errno w' \<noteq> EAGAIN))"

text \<open>The reading loop: \<open>acc\<close> is the text in \<open>rtspbuf\<close>, whose length is \<open>Index\<close>; the buffer has 8192
  bytes but \<open>bufsize\<close> starts at 8192 with four of them used. \<open>None\<close> is the null \<open>rtspbuf\<close>.\<close>

function rtsp_lines :: "nat \<Rightarrow> byte list \<Rightarrow> net \<Rightarrow> ub + (byte list option \<times> net)" where
  "rtsp_lines bufsize acc w =
     (if bufsize = 0 then Inr (Some acc, w)
      else case ReadLine bufsize w of (rc, out, w') \<Rightarrow>
        if 8192 < length acc + length out + (if ends_with_nul bufsize w then 1 else 0) then Inl Overrun
        else if rc < 0 then
          (if last_errno w' = EINTR then rtsp_lines bufsize acc w' else Inr (None, w'))
        else if rc = 0 then Inr (Some acc, w')
        else if end_line rc out then Inr (Some (acc @ out), w')
        else rtsp_lines (bufsize - nat rc) (acc @ out) w')"
  by pat_completeness auto

termination
  by (relation "measures [\<lambda>(bufsize, acc, w). bufsize, \<lambda>(bufsize, acc, w). rx_size (rx w)]")
    (auto dest: ReadLine_decreases)

declare rtsp_lines.simps [simp del]

text \<open>The whole branch: two bytes are taken off the stream, the buffer starts with the four bytes of
  the header buffer, the callback is called and cleared. Without a callback the two bytes are lost.\<close>

definition recv_rtsp_cmd :: "transmitter \<Rightarrow> net \<Rightarrow> ub + (transmitter \<times> net)" where
  "recv_rtsp_cmd t w =
     (let (bs, r) = sys_recv 2 (rx w);
          t1 = (case bs of None \<Rightarrow> t | Some b \<Rightarrow> put_header b t);
          w1 = w\<lparr>rx := r\<rparr>
      in case RecvRtspCmd t1 of
           None \<Rightarrow> Inr (t1, w1)
         | Some clbk \<Rightarrow>
             ub_bind (rtsp_lines 8192 (take 4 (m_httpTunnelHeaderBuffer t1)) w1) (\<lambda>(buf, w2).
             Inr (t1\<lparr>RecvRtspCmd := None,
                  cmd_calls := cmd_calls t1 @ [(clbk, map_option (\<lambda>b. cstr (string_of b)) buf)]\<rparr>, w2)))"

subsection \<open>The header of a frame\<close>

text \<open>The case \<open>RECV_LEN\<close>: an error code that ends the poll, or the next state.\<close>

definition recv_header :: "transmitter \<Rightarrow> net \<Rightarrow> poll_error option \<times> transmitter \<times> net" where
  "recv_header t w =
     (case sys_recv 4 (rx w) of
        (None, r) \<Rightarrow> (Some ERR_RTP_TCPTRANS_ERRORINRECV, t, w\<lparr>rx := r\<rparr>)
      | (Some bs, r) \<Rightarrow>
          let t1 = put_header bs t; h = m_httpTunnelHeaderBuffer t1 in
          (None, t1\<lparr>m_isrtp := Some (h ! 1 = 0), m_dataLength := Some (unat (h ! 2) * 256 + unat (h ! 3)),
             m_recvstate := RECV_DATA\<rparr>, w\<lparr>rx := r\<rparr>))"

text \<open>\<open>recv(sock, buffer, n, MSG_WAITALL)\<close> whose result is not looked at.\<close>

definition drop_bytes :: "nat \<Rightarrow> transmitter \<Rightarrow> net \<Rightarrow> transmitter \<times> net" where
  "drop_bytes n t w =
     (case sys_recv n (rx w) of
        (None, r) \<Rightarrow> (t, w\<lparr>rx := r\<rparr>)
      | (Some bs, r) \<Rightarrow> (put_header bs t, w\<lparr>rx := r\<rparr>))"

definition recv_len :: "transmitter \<Rightarrow> net \<Rightarrow> ub + (poll_error option \<times> transmitter \<times> net)" where
  "recv_len t w =
     (case sys_peek 1 (rx w) of
        (None, r) \<Rightarrow> Inr (Some ERR_RTP_TCPTRANS_ERRORINRECV, t, w\<lparr>rx := r\<rparr>)
      | (Some b1, _) \<Rightarrow>
          let t1 = put_header b1 t; c = m_httpTunnelHeaderBuffer t1 ! 0 in
          if c \<noteq> 36 \<and> c \<noteq> 82 then Inr (None, drop_bytes 1 t1 w)
          else case sys_peek 2 (rx w) of
            (None, r) \<Rightarrow> Inr (Some ERR_RTP_TCPTRANS_ERRORINRECV, t1, w\<lparr>rx := r\<rparr>)
          | (Some b2, _) \<Rightarrow>
              let t2 = put_header b2 t1; d = m_httpTunnelHeaderBuffer t2 ! 1 in
              if d \<noteq> 0 \<and> d \<noteq> 1 \<and> d \<noteq> 84 then Inr (None, drop_bytes 2 t2 w)
              else if m_httpTunnelHeaderBuffer t2 ! 0 \<noteq> 82 then Inr (recv_header t2 w)
              else case sys_peek 4 (rx w) of
                (None, r) \<Rightarrow> Inr (Some ERR_RTP_TCPTRANS_ERRORINRECV, t2, w\<lparr>rx := r\<rparr>)
              | (Some b4, _) \<Rightarrow>
                  let t4 = put_header b4 t2 in
                  if take 4 (m_httpTunnelHeaderBuffer t4) = bytes_of ''RTSP''
                  then ub_bind (recv_rtsp_cmd t4 w) (\<lambda>(t5, w5). Inr (None, t5\<lparr>RecvRtspCmd := None\<rparr>, w5))
                  else case sys_recv 2 (rx w) of
                    (None, r) \<Rightarrow> Inr (Some ERR_RTP_TCPTRANS_ERRORINRECV, t4, w\<lparr>rx := r\<rparr>)
                  | (Some bs, r) \<Rightarrow> Inr (None, put_header bs t4, w\<lparr>rx := r\<rparr>))"

text \<open>The case \<open>RECV_DATA\<close> and, when the packet is complete, its entry into the list.\<close>

definition recv_data :: "transmitter \<Rightarrow> net \<Rightarrow> ub + (poll_error option \<times> transmitter \<times> net)" where
  "recv_data t w =
     (case (m_dataLength t, m_isrtp t) of
        (Some n, Some isrtp) \<Rightarrow>
          (case sys_recv n (rx w) of
             (None, r) \<Rightarrow> Inr (Some ERR_RTP_TCPTRANS_ERRORINRECV, t, w\<lparr>rx := r\<rparr>)
           | (Some bs, r) \<Rightarrow>
               Inr (None, t\<lparr>m_recvstate := RECV_LEN,
                 m_rawpacketlist := m_rawpacketlist t @
                   [\<lparr>raw_data = bs, raw_length = n, raw_isrtp = isrtp\<rparr>]\<rparr>, w\<lparr>rx := r\<rparr>))
      | _ \<Rightarrow> Inl Indeterminate)"

subsection \<open>PollSocket\<close>

lemma recv_all_size:
  "recv_all n r = (bs, r') \<Longrightarrow> length bs \<le> n \<and> rx_size r = length bs + rx_size r'"
  by (induction n r arbitrary: bs r' rule: recv_all.induct) (auto split: if_splits prod.splits)

lemma sys_recv_size: "sys_recv n r = (x, r') \<Longrightarrow> rx_size r' \<le> rx_size r"
  using recv_all_size [of n r]
  by (auto simp: sys_recv_def split: prod.splits list.splits rx_event.splits if_splits)

text \<open>The socket has data: its first event is a chunk.\<close>

definition has_data :: "rx_event list \<Rightarrow> bool" where
  "has_data r \<longleftrightarrow> (\<exists>b bs r'. r = Chunk (b # bs) # r')"

lemma fionread_data: "fionread r = (n, r') \<Longrightarrow> rx_size r' \<le> rx_size r \<and> (n \<noteq> 0 \<longrightarrow> has_data r')"
  by (induction r rule: fionread.induct) (auto simp: has_data_def neq_Nil_conv split: if_splits)

lemma sys_recv_data:
  assumes "has_data r" "0 < n"
  shows "\<exists>b bs r'. sys_recv n r = (Some (b # bs), r') \<and> rx_size r' < rx_size r"
proof -
  obtain b bs s where r: "r = Chunk (b # bs) # s" using assms(1) by (auto simp: has_data_def)
  obtain xs r' where x: "recv_all n r = (xs, r')" by fastforce
  then have "xs \<noteq> []" using assms(2) r by (auto split: if_splits prod.splits)
  moreover have "sys_recv n r = (Some xs, r')"
    using x \<open>xs \<noteq> []\<close> by (auto simp: sys_recv_def split: list.split rx_event.split)
  ultimately show ?thesis
    using recv_all_size [OF x] by (cases xs) auto
qed

lemma sys_peek_data: "has_data r \<Longrightarrow> 0 < n \<Longrightarrow> \<exists>b bs. sys_peek n r = (Some (b # bs), r)"
  using sys_recv_data [of r n] by (auto simp: sys_peek_def)

lemma rtsp_lines_size: "rtsp_lines n acc w = Inr (x, w') \<Longrightarrow> rx_size (rx w') \<le> rx_size (rx w)"
proof (induction n acc w rule: rtsp_lines.induct)
  case (1 n acc w)
  show ?case
  proof (cases "n = 0")
    case False
    obtain rc out w1 where rl: "ReadLine n w = (rc, out, w1)" by (metis prod_cases3)
    have s: "rx_size (rx w1) \<le> rx_size (rx w)"
      using ReadLine_bound [OF rl] False by simp
    show ?thesis
      using "1.prems" False rl s "1.IH"(1) [OF False rl [symmetric] refl] "1.IH"(2) [OF False rl [symmetric] refl]
      by (subst (asm) rtsp_lines.simps) (fastforce split: if_splits)
  qed (use "1.prems" in \<open>subst (asm) rtsp_lines.simps, simp\<close>)
qed

lemma recv_len_progress:
  assumes "recv_len t w = Inr (None, t', w')" "has_data (rx w)"
  shows "rx_size (rx w') < rx_size (rx w)"
proof -
  have d: "rx_size (rx (snd (drop_bytes n t0 w))) < rx_size (rx w)" if "0 < n" for n t0
    using sys_recv_data [OF assms(2) that] by (auto simp: drop_bytes_def)
  have h: "rx_size (rx (snd (snd (recv_header t0 w)))) < rx_size (rx w)" for t0
    using sys_recv_data [OF assms(2), of 4] by (auto simp: recv_header_def Let_def)
  have c: "rx_size (rx w1) < rx_size (rx w)" if "recv_rtsp_cmd t0 w = Inr (t1, w1)" for t0 t1 w1
  proof -
    obtain b bs r where r: "sys_recv 2 (rx w) = (Some (b # bs), r)" "rx_size r < rx_size (rx w)"
      using sys_recv_data [OF assms(2), of 2] by auto
    then show ?thesis
      using that rtsp_lines_size [of 8192 _ "w\<lparr>rx := r\<rparr>"]
      by (fastforce simp: recv_rtsp_cmd_def Let_def ub_bind_eq_Inr split: option.splits)
  qed
  obtain b1 x1 b2 x2 b4 x4 b r where p: "sys_peek 1 (rx w) = (Some (b1 # x1), rx w)"
    "sys_peek 2 (rx w) = (Some (b2 # x2), rx w)" "sys_peek 4 (rx w) = (Some (b4 # x4), rx w)"
    "sys_recv 2 (rx w) = (Some b, r)" "rx_size r < rx_size (rx w)"
    using sys_peek_data [OF assms(2)] sys_recv_data [OF assms(2), of 2] by (metis zero_less_numeral zero_less_one)
  show ?thesis
    using assms(1) d [of 1] d [of 2] h c p(5) unfolding recv_len_def Let_def p option.case prod.case
    by (auto simp: ub_bind_eq_Inr split: if_splits) (metis snd_conv)+
qed

definition odd_state :: "transmitter \<Rightarrow> nat" where
  "odd_state t = (if m_recvstate t = COMMIT_BYE \<or> m_recvstate t = GOT_BYE then 1 else 0)"

lemma poll_decreases:
  assumes "(len, r) = fionread (rx w)" "len \<noteq> 0" "recv_len t (w\<lparr>rx := r\<rparr>) = Inr (None, t', w')"
  shows "rx_size (rx w') < rx_size (rx w)"
  using fionread_data [OF assms(1) [symmetric]] recv_len_progress [OF assms(3)] assms(2) by simp

function poll_loop :: "transmitter \<Rightarrow> net \<Rightarrow> ub + (poll_error option \<times> transmitter \<times> net)" where
  "poll_loop t w =
     (case fionread (rx w) of (len, r) \<Rightarrow>
        let w1 = w\<lparr>rx := r\<rparr> in
        if len = 0 then Inr (None, t, w1)
        else case m_recvstate t of
          RECV_LEN \<Rightarrow>
            (case recv_len t w1 of
               Inl e \<Rightarrow> Inl e
             | Inr (Some err, t', w') \<Rightarrow> Inr (Some err, t', w')
             | Inr (None, t', w') \<Rightarrow> poll_loop t' w')
        | RECV_DATA \<Rightarrow> recv_data t w1
        | _ \<Rightarrow> poll_loop (t\<lparr>m_recvstate := RECV_LEN\<rparr>) w1)"
  by pat_completeness auto

termination
proof (relation "measure (\<lambda>(t, w). 2 * rx_size (rx w) + odd_state t)")
  fix t w len r w1 x y t' z w'
  assume a: "(len, r) = fionread (rx w)" "w1 = w\<lparr>rx := r\<rparr>" "len \<noteq> 0" "m_recvstate t = RECV_LEN"
    "recv_len t w1 = Inr y" "(x, z) = y" "x = None" "(t', w') = z"
  then have "rx_size (rx w') < rx_size (rx w)" using poll_decreases [of len r w t t' w'] by auto
  moreover have "odd_state t' \<le> 1" by (simp add: odd_state_def)
  ultimately show "((t', w'), t, w) \<in> measure (\<lambda>(t, w). 2 * rx_size (rx w) + odd_state t)" by simp
qed (auto simp: odd_state_def dest: sym [THEN fionread_data])

declare poll_loop.simps [simp del]

definition PollSocket :: "transmitter \<Rightarrow> net \<Rightarrow> ub + (poll_error option \<times> transmitter \<times> net)" where
  "PollSocket t w = poll_loop t w"

subsection \<open>SendRTPRTCPData\<close>

text \<open>One \<open>send\<close> of the header, one of the data, on every destination; only negative results count
  as failures. \<open>OnSendError\<close> removes a destination. The sockets are given by \<open>conns\<close>.\<close>

datatype send_error =
  ERR_RTP_TCPTRANS_NOTINIT | ERR_RTP_TCPTRANS_NOTCREATED | ERR_RTP_TCPTRANS_SPECIFIEDSIZETOOBIG

definition RTPTCPTRANS_MAXPACKSIZE :: nat where "RTPTCPTRANS_MAXPACKSIZE = 65535"

definition lengthBytes :: "nat \<Rightarrow> byte list" where
  "lengthBytes len = [36, 1, word_of_nat (len div 256), word_of_nat len]"

definition send_frame :: "byte list \<Rightarrow> net \<Rightarrow> bool \<times> net" where
  "send_frame data w =
     (case sys_write (lengthBytes (length data)) w of (k, w1) \<Rightarrow>
        if k < 0 then (True, w1)
        else case sys_write data w1 of (k2, w2) \<Rightarrow> (k2 < 0, w2))"

fun send_all :: "byte list \<Rightarrow> int list \<Rightarrow> (int \<Rightarrow> net) \<Rightarrow> int list \<times> (int \<Rightarrow> net)" where
  "send_all data [] conns = ([], conns)"
| "send_all data (sock # socks) conns =
     (let (failed, w) = send_frame data (conns sock);
          (errs, conns') = send_all data socks (conns(sock := w))
      in (if failed then sock # errs else errs, conns'))"

definition OnSendError :: "int \<Rightarrow> transmitter \<Rightarrow> transmitter" where
  "OnSendError sock t = t\<lparr>m_destSockets := filter (\<lambda>s. s \<noteq> sock) (m_destSockets t)\<rparr>"

definition SendRTPRTCPData ::
    "byte list \<Rightarrow> transmitter \<Rightarrow> (int \<Rightarrow> net) \<Rightarrow> send_error option \<times> transmitter \<times> (int \<Rightarrow> net)" where
  "SendRTPRTCPData data t conns =
     (if \<not> m_init t then (Some ERR_RTP_TCPTRANS_NOTINIT, t, conns)
      else if \<not> m_created t then (Some ERR_RTP_TCPTRANS_NOTCREATED, t, conns)
      else if RTPTCPTRANS_MAXPACKSIZE < length data
        then (Some ERR_RTP_TCPTRANS_SPECIFIEDSIZETOOBIG, t, conns)
      else case send_all data (m_destSockets t) conns of (errs, conns') \<Rightarrow>
        (None, fold OnSendError errs t, conns'))"

subsection \<open>Frames\<close>

definition frame_bytes :: "byte \<Rightarrow> byte list \<Rightarrow> byte list" where
  "frame_bytes ch p = [36, ch, word_of_nat (length p div 256), word_of_nat (length p)] @ p"

lemma length_bytes_value:
  "n < 65536 \<Longrightarrow> unat (word_of_nat (n div 256) :: byte) * 256 + unat (word_of_nat n :: byte) = n"
  by (simp add: unat_of_nat take_bit_eq_mod)

text \<open>Data that has arrived, cut into chunks.\<close>

abbreviation arrived :: "byte list list \<Rightarrow> rx_event list \<Rightarrow> rx_event list" where
  "arrived bss tail \<equiv> map Chunk bss @ tail"

lemma recv_all_arrived:
  assumes "[] \<notin> set bss" "n \<le> length (concat bss)" "0 < n"
  shows "\<exists>bss'. recv_all n (arrived bss tail) = (take n (concat bss), arrived bss' tail) \<and>
    concat bss' = drop n (concat bss) \<and> [] \<notin> set bss'"
  using assms
proof (induction bss arbitrary: n)
  case (Cons bs bss)
  consider "n < length bs" | "n = length bs" | "length bs < n" by linarith
  then show ?case
  proof cases
    case 1
    then show ?thesis using Cons.prems by (intro exI [of _ "drop n bs # bss"]) auto
  next
    case 2
    then show ?thesis using Cons.prems by (intro exI [of _ bss]) auto
  next
    case 3
    then obtain bss' where "recv_all (n - length bs) (arrived bss tail) =
        (take (n - length bs) (concat bss), arrived bss' tail)"
      "concat bss' = drop (n - length bs) (concat bss)" "[] \<notin> set bss'"
      using Cons.IH [of "n - length bs"] Cons.prems by (auto simp: le_diff_conv add.commute)
    then show ?thesis using 3 by (intro exI [of _ bss']) auto
  qed
qed simp

lemma sys_recv_arrived:
  assumes "[] \<notin> set bss" "n \<le> length (concat bss)" "0 < n"
  obtains bss' where "sys_recv n (arrived bss tail) = (Some (take n (concat bss)), arrived bss' tail)"
    "concat bss' = drop n (concat bss)" "[] \<notin> set bss'"
proof -
  obtain bss' where b: "recv_all n (arrived bss tail) = (take n (concat bss), arrived bss' tail)"
    "concat bss' = drop n (concat bss)" "[] \<notin> set bss'"
    using recv_all_arrived [OF assms] by blast
  have "length (take n (concat bss)) = n" using assms(2) by simp
  then have "take n (concat bss) \<noteq> []" using assms(3) by (metis length_greater_0_conv)
  then have "sys_recv n (arrived bss tail) = (Some (take n (concat bss)), arrived bss' tail)"
    unfolding sys_recv_def b(1) by (auto split: list.split rx_event.split)
  then show thesis using that b(2,3) by blast
qed

lemma sys_peek_arrived:
  assumes "[] \<notin> set bss" "n \<le> length (concat bss)" "0 < n"
  shows "sys_peek n (arrived bss tail) = (Some (take n (concat bss)), arrived bss tail)"
  by (rule sys_recv_arrived [OF assms, of tail]) (simp add: sys_peek_def)

lemma fionread_arrived:
  assumes "[] \<notin> set bss" "concat bss \<noteq> []"
  shows "\<exists>n. n \<noteq> 0 \<and> fionread (arrived bss tail) = (n, arrived bss tail)"
  using assms by (cases bss) auto

lemma put_header_nth:
  "i < length bs \<Longrightarrow> m_httpTunnelHeaderBuffer (put_header bs t) ! i = bs ! i"
  by (simp add: put_header_def nth_append)

lemma put_header_simps [simp]:
  "m_recvstate (put_header bs t) = m_recvstate t" "m_rawpacketlist (put_header bs t) = m_rawpacketlist t"
  "RecvRtspCmd (put_header bs t) = RecvRtspCmd t" "cmd_calls (put_header bs t) = cmd_calls t"
  "m_dataLength (put_header bs t) = m_dataLength t" "m_isrtp (put_header bs t) = m_isrtp t"
  by (simp_all add: put_header_def)

lemma put_header_put: "length a \<le> length b \<Longrightarrow> put_header b (put_header a t) = put_header b t"
  by (simp add: put_header_def)

text \<open>The header of a frame that has arrived is read in one step.\<close>

lemma recv_len_frame:
  assumes "rx w = arrived bss tail" "[] \<notin> set bss" "concat bss = [36, ch, hi, lo] @ d" "ch = 0 \<or> ch = 1"
  shows "\<exists>bss'. recv_len t w = Inr (None, (put_header [36, ch, hi, lo] t)\<lparr>m_isrtp := Some (ch = 0),
      m_dataLength := Some (unat hi * 256 + unat lo), m_recvstate := RECV_DATA\<rparr>, w\<lparr>rx := arrived bss' tail\<rparr>) \<and>
    concat bss' = d \<and> [] \<notin> set bss'"
proof -
  have p: "sys_peek 1 (rx w) = (Some [36], rx w)" "sys_peek 2 (rx w) = (Some [36, ch], rx w)"
    unfolding assms(1) using sys_peek_arrived [OF assms(2)] assms(3) by (simp_all add: numeral_2_eq_2)
  obtain bss' where r: "sys_recv 4 (rx w) = (Some [36, ch, hi, lo], arrived bss' tail)"
    "concat bss' = d" "[] \<notin> set bss'"
    unfolding assms(1) by (rule sys_recv_arrived [OF assms(2), of 4 tail]) (simp_all add: assms(3))
  have "recv_len t w = Inr (recv_header (put_header [36, ch] (put_header [36] t)) w)"
    unfolding recv_len_def p option.case prod.case Let_def using assms(4) by (auto simp: put_header_nth)
  also have "recv_header (put_header [36, ch] (put_header [36] t)) w =
      (None, (put_header [36, ch, hi, lo] t)\<lparr>m_isrtp := Some (ch = 0),
        m_dataLength := Some (unat hi * 256 + unat lo), m_recvstate := RECV_DATA\<rparr>, w\<lparr>rx := arrived bss' tail\<rparr>)"
    unfolding recv_header_def r option.case prod.case Let_def by (simp add: put_header_nth put_header_put)
  finally show ?thesis using r(2,3) by blast
qed

text \<open>The payload of a frame that has arrived completes the packet.\<close>

lemma poll_payload:
  assumes "rx w = arrived bss tail" "[] \<notin> set bss" "concat bss = p @ d" "p \<noteq> []"
    and "m_recvstate t = RECV_DATA" "m_dataLength t = Some (length p)" "m_isrtp t = Some isrtp"
  shows "\<exists>bss'. poll_loop t w = Inr (None, t\<lparr>m_recvstate := RECV_LEN,
      m_rawpacketlist := m_rawpacketlist t @ [\<lparr>raw_data = p, raw_length = length p, raw_isrtp = isrtp\<rparr>]\<rparr>,
      w\<lparr>rx := arrived bss' tail\<rparr>) \<and> concat bss' = d \<and> [] \<notin> set bss'"
proof -
  obtain n where f: "fionread (rx w) = (n, rx w)" "n \<noteq> 0"
    using fionread_arrived [OF assms(2), of tail] assms(1,3,4) by auto
  obtain bss' where r: "sys_recv (length p) (rx w) = (Some p, arrived bss' tail)" "concat bss' = d" "[] \<notin> set bss'"
    unfolding assms(1) by (rule sys_recv_arrived [OF assms(2), of "length p" tail]) (use assms(3,4) in auto)
  show ?thesis
    by (rule exI [of _ bss'], subst poll_loop.simps)
      (use f r assms in \<open>simp add: recv_data_def\<close>)
qed

subsection \<open>Messages between the frames\<close>

lemma rtsp_lines_header:
  assumes "\<forall>l \<in> set ls. lf_line l" "blank_line b"
    and "rx_stream (rx w) = header_bytes ls b @ s"
    and "length (header_bytes ls b) < n" "length acc + length (header_bytes ls b) < 8192"
  shows "\<exists>w'. rtsp_lines n acc w = Inr (Some (acc @ header_bytes ls b), w') \<and> rx_stream (rx w') = s"
  using assms(1,3-5)
proof (induction ls arbitrary: n acc w)
  case Nil
  obtain l where b: "b = l @ [10]" "10 \<notin> set l" using assms(2) by (auto simp: blank_line_def)
  obtain w' where rl: "ReadLine n w = (int (length b), b, w')" "rx_stream (rx w') = s"
    using ReadLine_line [of w l s n] Nil.prems b by (auto simp: header_bytes_def)
  have "end_line (int (length b)) b" "\<not> int (length b) < 0" "length b \<noteq> 0"
    using assms(2) blank_line_end by (auto simp: blank_line_def)
  then show ?case
    using rl Nil.prems by (intro exI [of _ w']) (subst rtsp_lines.simps, simp add: header_bytes_def)
next
  case (Cons l ls)
  have l: "10 \<notin> set l" "lf_line l" using Cons.prems(1) by (auto simp: lf_line_def)
  have h: "header_bytes (l # ls) b = with_lf l @ header_bytes ls b" by (simp add: header_bytes_def)
  obtain w1 where rl: "ReadLine n w = (int (length (with_lf l)), with_lf l, w1)"
      "rx_stream (rx w1) = header_bytes ls b @ s"
    using ReadLine_line [OF _ l(1), of w "header_bytes ls b @ s" n] Cons.prems(2,3)
    by (auto simp: h with_lf_def)
  obtain w' where "rtsp_lines (n - length (with_lf l)) (acc @ with_lf l) w1 =
      Inr (Some ((acc @ with_lf l) @ header_bytes ls b), w')" "rx_stream (rx w') = s"
    using Cons.IH [of w1 "n - length (with_lf l)" "acc @ with_lf l"] Cons.prems rl(2)
    by (auto simp: h less_diff_conv add.commute)
  moreover have "nat (1 + int (length l)) = Suc (length l)" by simp
  then have "rtsp_lines n acc w = rtsp_lines (n - length (with_lf l)) (acc @ with_lf l) w1"
    using rl lf_line_not_end [OF l(2)] Cons.prems(3,4)
    by (subst rtsp_lines.simps) (simp add: h with_lf_def)
  ultimately show ?case by (auto simp: h)
qed

lemma rx_stream_arrived: "rx_stream (arrived bss tail) = concat bss @ rx_stream tail"
  by (induction bss) simp_all

lemma RTSP_bytes: "bytes_of ''RTSP'' = [82, 84, 83, 80]"
  by code_simp

lemma recv_len_rtsp:
  assumes "rx w = arrived bss tail" "[] \<notin> set bss" "concat bss = [82, 84, 83, 80] @ d"
  shows "\<exists>bss'. recv_len t w = ub_bind (recv_rtsp_cmd (put_header [82, 84, 83, 80] t) w)
      (\<lambda>(t5, w5). Inr (None, t5\<lparr>RecvRtspCmd := None\<rparr>, w5)) \<and>
    sys_recv 2 (rx w) = (Some [82, 84], arrived bss' tail) \<and> concat bss' = [83, 80] @ d \<and> [] \<notin> set bss'"
proof -
  have p: "sys_peek 1 (rx w) = (Some [82], rx w)" "sys_peek 2 (rx w) = (Some [82, 84], rx w)"
    "sys_peek 4 (rx w) = (Some [82, 84, 83, 80], rx w)"
    unfolding assms(1) using sys_peek_arrived [OF assms(2)] assms(3) by (simp_all add: numeral_2_eq_2)
  have take4: "take 4 (m_httpTunnelHeaderBuffer (put_header [82, 84, 83, 80] t)) = bytes_of ''RTSP''" for t
    unfolding RTSP_bytes by (simp add: put_header_def)
  have "recv_len t w = ub_bind (recv_rtsp_cmd (put_header [82, 84, 83, 80] t) w)
      (\<lambda>(t5, w5). Inr (None, t5\<lparr>RecvRtspCmd := None\<rparr>, w5))"
    unfolding recv_len_def p option.case prod.case Let_def
    using take4 by (simp add: put_header_nth put_header_put)
  moreover obtain bss' where "sys_recv 2 (rx w) = (Some [82, 84], arrived bss' tail)"
    "concat bss' = [83, 80] @ d" "[] \<notin> set bss'"
    unfolding assms(1) by (rule sys_recv_arrived [OF assms(2), of 2 tail]) (simp_all add: assms(3))
  ultimately show ?thesis by blast
qed

lemma put_RT: "put_header [82, 84] (put_header [82, 84, 83, 80] t) = put_header [82, 84, 83, 80] t"
  by (simp add: put_header_def)

lemma recv_rtsp_cmd_eq:
  assumes "sys_recv 2 (rx w) = (Some [82, 84], r)" "RecvRtspCmd t = Some clbk"
  shows "recv_rtsp_cmd (put_header [82, 84, 83, 80] t) w =
    ub_bind (rtsp_lines 8192 [82, 84, 83, 80] (w\<lparr>rx := r\<rparr>)) (\<lambda>(buf, w2).
      Inr ((put_header [82, 84, 83, 80] t)\<lparr>RecvRtspCmd := None,
        cmd_calls := cmd_calls t @ [(clbk, map_option (\<lambda>b. cstr (string_of b)) buf)]\<rparr>, w2))"
proof -
  have "take 4 (m_httpTunnelHeaderBuffer (put_header [82, 84, 83, 80] t)) = [82, 84, 83, 80]"
    by (simp add: put_header_def)
  then show ?thesis
    unfolding recv_rtsp_cmd_def assms(1) prod.case Let_def option.case put_RT by (simp add: assms(2))
qed

subsection \<open>Invariant\<close>

text \<open>A length and a kind are known whenever a payload is awaited.\<close>

definition trans_ok :: "transmitter \<Rightarrow> bool" where
  "trans_ok t \<longleftrightarrow> (m_recvstate t = RECV_DATA \<longrightarrow> m_dataLength t \<noteq> None \<and> m_isrtp t \<noteq> None)"

lemma recv_rtsp_cmd_state:
  "recv_rtsp_cmd t w = Inr (t', w') \<Longrightarrow> m_recvstate t' = m_recvstate t"
  by (auto simp: recv_rtsp_cmd_def Let_def ub_bind_eq_Inr split: prod.splits option.splits)

lemma recv_len_ok:
  assumes "recv_len t w = Inr (e, t', w')" "m_recvstate t = RECV_LEN"
  shows "trans_ok t'"
  using assms by (auto simp: recv_len_def recv_header_def drop_bytes_def trans_ok_def Let_def
      ub_bind_eq_Inr split: option.splits prod.splits if_splits dest: recv_rtsp_cmd_state)

lemma recv_len_error: "recv_len t w \<noteq> Inl Indeterminate"
proof -
  have "rtsp_lines n acc w \<noteq> Inl Indeterminate" for n acc w
  proof (induction n acc w rule: rtsp_lines.induct)
    case (1 n acc w)
    obtain rc out w1 where rl: "ReadLine n w = (rc, out, w1)" by (metis prod_cases3)
    show ?case
    proof (cases "n = 0")
      case False
      show ?thesis
        using rl "1.IH"(1) [OF False rl [symmetric] refl] "1.IH"(2) [OF False rl [symmetric] refl] False
        by (subst rtsp_lines.simps) auto
    qed (subst rtsp_lines.simps, simp)
  qed
  then have "recv_rtsp_cmd t w \<noteq> Inl Indeterminate" for t w
    by (auto simp: recv_rtsp_cmd_def Let_def ub_bind_def split: prod.splits option.splits sum.splits)
  then show ?thesis
    by (auto simp: recv_len_def ub_bind_def Let_def split: prod.splits option.splits sum.splits if_splits)
qed

lemma poll_loop_ok:
  "trans_ok t \<Longrightarrow> poll_loop t w \<noteq> Inl Indeterminate \<and> (\<forall>e t' w'. poll_loop t w = Inr (e, t', w') \<longrightarrow> trans_ok t')"
proof (induction t w rule: poll_loop.induct)
  case (1 t w)
  obtain n r where f: "fionread (rx w) = (n, r)" by fastforce
  let ?w = "w\<lparr>rx := r\<rparr>"
  show ?case
  proof (cases "n = 0")
    case True
    then show ?thesis using f "1.prems" by (subst (1 2) poll_loop.simps) simp
  next
    case n: False
    show ?thesis
    proof (cases "m_recvstate t")
      case RECV_LEN
      show ?thesis
      proof (cases "recv_len t ?w")
        case (Inl e)
        then show ?thesis
          using f n RECV_LEN recv_len_error [of t ?w] by (subst (1 2) poll_loop.simps) simp
      next
        case (Inr x)
        obtain e t1 w1 where x: "x = (e, t1, w1)" by (cases x) auto
        have ok: "trans_ok t1" using recv_len_ok Inr RECV_LEN unfolding x by blast
        show ?thesis
        proof (cases e)
          case None
          have eq: "poll_loop t w = poll_loop t1 w1"
            using f n RECV_LEN Inr x None by (subst poll_loop.simps) simp
          show ?thesis
            unfolding eq
            by (rule "1.IH"(1) [OF f [symmetric] refl n RECV_LEN Inr x [symmetric] None refl ok])
        next
          case (Some err)
          then show ?thesis
            using f n RECV_LEN Inr x ok by (subst (1 2) poll_loop.simps) simp
        qed
      qed
    next
      case RECV_DATA
      then have eq: "poll_loop t w = recv_data t ?w" using f n by (subst poll_loop.simps) simp
      show ?thesis
        unfolding eq using "1.prems" RECV_DATA
        by (auto simp: recv_data_def trans_ok_def split: option.splits prod.splits)
    next
      case COMMIT_BYE
      have "trans_ok (t\<lparr>m_recvstate := RECV_LEN\<rparr>)" by (simp add: trans_ok_def)
      then show ?thesis
        using "1.IH"(2) [OF f [symmetric] refl n COMMIT_BYE] f n COMMIT_BYE
        by (subst (1 2) poll_loop.simps) simp
    next
      case GOT_BYE
      have "trans_ok (t\<lparr>m_recvstate := RECV_LEN\<rparr>)" by (simp add: trans_ok_def)
      then show ?thesis
        using "1.IH"(3) [OF f [symmetric] refl n GOT_BYE] f n GOT_BYE
        by (subst (1 2) poll_loop.simps) simp
    qed
  qed
qed

text \<open>One frame that has arrived.\<close>

lemma poll_frame:
  assumes "rx w = arrived bss tail" "[] \<notin> set bss" "concat bss = frame_bytes ch p @ d"
    and "ch = 0 \<or> ch = 1" "p \<noteq> []" "length p < 65536" "m_recvstate t = RECV_LEN"
  shows "\<exists>t' w' bss'. PollSocket t w = Inr (None, t', w') \<and> m_recvstate t' = RECV_LEN \<and>
    m_rawpacketlist t' = m_rawpacketlist t @
      [\<lparr>raw_data = p, raw_length = length p, raw_isrtp = (ch = 0)\<rparr>] \<and>
    rx w' = arrived bss' tail \<and> [] \<notin> set bss' \<and> concat bss' = d"
proof -
  let ?hi = "word_of_nat (length p div 256)" and ?lo = "word_of_nat (length p)"
  have c: "concat bss = [36, ch, ?hi, ?lo] @ (p @ d)" using assms(3) by (simp add: frame_bytes_def)
  obtain n where f: "fionread (rx w) = (n, rx w)" "n \<noteq> 0"
    using fionread_arrived [OF assms(2), of tail] assms(1) c by auto
  let ?t = "(put_header [36, ch, ?hi, ?lo] t)\<lparr>m_isrtp := Some (ch = 0),
    m_dataLength := Some (unat (?hi :: byte) * 256 + unat (?lo :: byte)), m_recvstate := RECV_DATA\<rparr>"
  obtain bs1 where l: "recv_len t w = Inr (None, ?t, w\<lparr>rx := arrived bs1 tail\<rparr>)"
      "concat bs1 = p @ d" "[] \<notin> set bs1"
    using recv_len_frame [OF assms(1,2) c assms(4)] by blast
  have len: "m_dataLength ?t = Some (length p)" using length_bytes_value [OF assms(6)] by simp
  have "poll_loop t w = poll_loop ?t (w\<lparr>rx := arrived bs1 tail\<rparr>)"
    using f l(1) assms(7) by (subst poll_loop.simps) simp
  then show ?thesis
    using poll_payload [of "w\<lparr>rx := arrived bs1 tail\<rparr>" bs1 tail p d ?t "ch = 0"] l(2,3) assms(5) len
    by (auto simp: PollSocket_def)
qed

subsection \<open>Properties\<close>

text \<open>C7: a frame \<open>$ channel length payload\<close> that has arrived, in whatever pieces, is taken off the
  stream by one call of \<open>PollSocket\<close>: the payload is queued unchanged as RTP (channel 0) or RTCP
  (channel 1) and the next call starts at the byte after it.\<close>

theorem PollSocket_frame:
  assumes "rx w = arrived bss tail" "[] \<notin> set bss" "concat bss = frame_bytes ch p @ d"
    and "ch = 0 \<or> ch = 1" "p \<noteq> []" "length p < 65536" "m_recvstate t = RECV_LEN"
  shows "\<exists>t' w' bss'. PollSocket t w = Inr (None, t', w') \<and> m_recvstate t' = RECV_LEN \<and>
    m_rawpacketlist t' = m_rawpacketlist t @
      [\<lparr>raw_data = p, raw_length = length p, raw_isrtp = (ch = 0)\<rparr>] \<and>
    rx w' = arrived bss' tail \<and> [] \<notin> set bss' \<and> concat bss' = d"
  by (rule poll_frame [OF assms])

theorem PollSocket_frame_witness:
  "\<exists>t' w'. PollSocket (new_transmitter [0, 0, 0, 0])
      \<lparr>rx = [Chunk [36, 0], Chunk [0, 2, 7], Chunk [9, 36]], tx = [], sent = [], last_errno = EOTHER\<rparr> =
      Inr (None, t', w') \<and>
    m_rawpacketlist t' = [\<lparr>raw_data = [7, 9], raw_length = 2, raw_isrtp = True\<rparr>]"
  using PollSocket_frame [of "\<lparr>rx = [Chunk [36, 0], Chunk [0, 2, 7], Chunk [9, 36]], tx = [], sent = [],
      last_errno = EOTHER\<rparr>" "[[36, 0], [0, 2, 7], [9, 36]]" "[]" 0 "[7, 9]" "[36]" "new_transmitter [0, 0, 0, 0]"]
  by (auto simp: frame_bytes_def new_transmitter_def)

text \<open>C8: what \<open>SendRTPRTCPData\<close> writes to a socket is read back by a peer that polls the same
  framing: every packet of 1 to 65535 bytes arrives unchanged, as RTCP, over any segmentation.\<close>

theorem send_poll_roundtrip:
  assumes "m_init s" "m_created s" "m_destSockets s = [sock]" "tx (conns sock) = []" "sent (conns sock) = []"
    and "p \<noteq> []" "length p \<le> 65535"
    and "SendRTPRTCPData p s conns = (e, s', conns')"
    and "concat bss = sent (conns' sock)" "[] \<notin> set bss" "m_recvstate t = RECV_LEN"
  shows "e = None \<and> s' = s \<and> (\<exists>t' w'. PollSocket t \<lparr>rx = map Chunk bss, tx = [], sent = [], last_errno = EOTHER\<rparr> =
      Inr (None, t', w') \<and> rx w' = [] \<and>
    m_rawpacketlist t' = m_rawpacketlist t @ [\<lparr>raw_data = p, raw_length = length p, raw_isrtp = False\<rparr>])"
proof -
  have f: "send_frame p (conns sock) = (False, (conns sock)\<lparr>sent := lengthBytes (length p) @ p\<rparr>)"
    using assms(4,5) by (simp add: send_frame_def sys_write_def)
  have s: "e = None" "s' = s" "sent (conns' sock) = frame_bytes 1 p"
    using assms(1-3,7,8) f
    by (auto simp: SendRTPRTCPData_def RTPTCPTRANS_MAXPACKSIZE_def lengthBytes_def frame_bytes_def)
  obtain t' w' bss' where "PollSocket t \<lparr>rx = map Chunk bss, tx = [], sent = [], last_errno = EOTHER\<rparr> =
      Inr (None, t', w')" "m_rawpacketlist t' = m_rawpacketlist t @
      [\<lparr>raw_data = p, raw_length = length p, raw_isrtp = (1 = (0 :: byte))\<rparr>]"
      "rx w' = map Chunk bss'" "[] \<notin> set bss'" "concat bss' = []"
    using poll_frame [of "\<lparr>rx = map Chunk bss, tx = [], sent = [], last_errno = EOTHER\<rparr>" bss "[]" 1 p "[]" t]
      assms(6,7,9,10,11) s(3) by auto
  moreover from this have "bss' = []" by (cases bss') auto
  ultimately show ?thesis using s(1,2) by auto
qed

theorem send_poll_roundtrip_witness:
  "let s = (new_transmitter [0, 0, 0, 0])\<lparr>m_init := True, m_created := True, m_destSockets := [5]\<rparr>;
       w = \<lparr>rx = [], tx = [], sent = [], last_errno = EOTHER\<rparr>
   in sent (snd (snd (SendRTPRTCPData [7] s (\<lambda>_. w))) 5) = [36, 1, 0, 1, 7] \<and>
     (\<exists>t' w'. PollSocket (new_transmitter [0, 0, 0, 0])
        \<lparr>rx = [Chunk [36, 1, 0], Chunk [1, 7]], tx = [], sent = [], last_errno = EOTHER\<rparr> = Inr (None, t', w') \<and>
      m_rawpacketlist t' = [\<lparr>raw_data = [7], raw_length = 1, raw_isrtp = False\<rparr>])"
proof -
  let ?s = "(new_transmitter [0, 0, 0, 0])\<lparr>m_init := True, m_created := True, m_destSockets := [5]\<rparr>"
  let ?w = "\<lparr>rx = [], tx = [], sent = [], last_errno = EOTHER\<rparr>"
  obtain e s' conns' where c: "SendRTPRTCPData [7] ?s (\<lambda>_. ?w) = (e, s', conns')" by (metis prod_cases3)
  have b: "sent (conns' 5) = [36, 1, 0, 1, 7]"
    using c by (simp add: SendRTPRTCPData_def RTPTCPTRANS_MAXPACKSIZE_def send_frame_def sys_write_def lengthBytes_def
        split: prod.splits) (auto simp: lengthBytes_def)
  show ?thesis
    using send_poll_roundtrip [of ?s 5 "\<lambda>_. ?w" "[7]" e s' conns' "[[36, 1, 0], [1, 7]]" "new_transmitter [0, 0, 0, 0]"]
      c b by (fastforce simp: new_transmitter_def Let_def)
qed

text \<open>\<open>PollSocket\<close> never uses the length or the kind of a frame before reading its header,
  across any sequence of calls: the invariant \<open>trans_ok\<close> holds initially and after every call.\<close>

theorem PollSocket_invariant:
  assumes "trans_ok t"
  shows "PollSocket t w \<noteq> Inl Indeterminate \<and>
    (\<forall>e t' w'. PollSocket t w = Inr (e, t', w') \<longrightarrow> trans_ok t')"
  unfolding PollSocket_def by (rule poll_loop_ok [OF assms])

theorem PollSocket_invariant_witness:
  "PollSocket (new_transmitter [0, 0, 0, 0])
     \<lparr>rx = [Chunk [36, 0, 0, 1], Quiet, Chunk [7]], tx = [], sent = [], last_errno = EOTHER\<rparr> \<noteq> Inl Indeterminate"
  using PollSocket_invariant [of "new_transmitter [0, 0, 0, 0]"]
  by (simp add: trans_ok_def new_transmitter_def)

text \<open>
  when an RTSP response arrives between the frames, the callback gets its text with two
  letters doubled: the header buffer holds all of \<open>RTSP\<close> although only two bytes were taken off the
  stream, so that \<open>RTSP/1.0 200 OK\<close> is reported as \<open>RTSPSP/1.0 200 OK\<close>. The callback is cleared.\<close>

theorem rtsp_cmd_text:
  assumes "rx w = arrived bss tail" "[] \<notin> set bss" "concat bss = [82, 84, 83, 80] @ d"
    and "[83, 80] @ d @ rx_stream tail = header_bytes ls b @ s"
    and "\<forall>l \<in> set ls. lf_line l" "blank_line b" "length (header_bytes ls b) < 8188"
    and "RecvRtspCmd t = Some clbk"
  shows "\<exists>t' w'. recv_len t w = Inr (None, t', w') \<and> RecvRtspCmd t' = None \<and>
    cmd_calls t' = cmd_calls t @ [(clbk, Some (''RTSP'' @ string_of (header_bytes ls b)))] \<and>
    rx_stream (rx w') = s"
proof -
  obtain bss' where l: "recv_len t w = ub_bind (recv_rtsp_cmd (put_header [82, 84, 83, 80] t) w)
      (\<lambda>(t5, w5). Inr (None, t5\<lparr>RecvRtspCmd := None\<rparr>, w5))"
    "sys_recv 2 (rx w) = (Some [82, 84], arrived bss' tail)" "concat bss' = [83, 80] @ d"
    using recv_len_rtsp [OF assms(1-3), of t] by blast
  have "rx_stream (arrived bss' tail) = header_bytes ls b @ s"
    using assms(4) l(3) by (simp add: rx_stream_arrived)
  then obtain w' where h: "rtsp_lines 8192 [82, 84, 83, 80] (w\<lparr>rx := arrived bss' tail\<rparr>) =
      Inr (Some ([82, 84, 83, 80] @ header_bytes ls b), w')" "rx_stream (rx w') = s"
    using rtsp_lines_header [OF assms(5,6), of "w\<lparr>rx := arrived bss' tail\<rparr>" s 8192 "[82, 84, 83, 80]"] assms(7)
    by auto
  have "0 \<notin> set (header_bytes ls b)"
    using assms(5,6) by (auto simp: header_bytes_def with_lf_def lf_line_def blank_line_def)
  then have "cstr (string_of ([82, 84, 83, 80] @ header_bytes ls b)) = string_of ([82, 84, 83, 80] @ header_bytes ls b)"
    by (intro cstr_string_of) simp
  moreover have "string_of [82, 84, 83, 80] = ''RTSP''"
    by (metis RTSP_bytes string_of_bytes_of)
  ultimately show ?thesis
    using h(2) by (simp add: l(1) recv_rtsp_cmd_eq [OF l(2) assms(8)] h(1))
qed

theorem rtsp_cmd_text_witness:
  "\<exists>t' w'. recv_len ((new_transmitter [0, 0, 0, 0])\<lparr>RecvRtspCmd := Some 1\<rparr>)
      \<lparr>rx = [Chunk [82, 84, 83, 80, 47, 13, 10, 13, 10]], tx = [], sent = [], last_errno = EOTHER\<rparr> =
      Inr (None, t', w') \<and> cmd_calls t' = [(1, Some (''RTSP'' @ string_of [83, 80, 47, 13, 10, 13, 10]))]"
  using rtsp_cmd_text [of "\<lparr>rx = [Chunk [82, 84, 83, 80, 47, 13, 10, 13, 10]], tx = [], sent = [], last_errno = EOTHER\<rparr>"
      "[[82, 84, 83, 80, 47, 13, 10, 13, 10]]" "[]" "[47, 13, 10, 13, 10]" "[[83, 80, 47, 13]]" "[13, 10]" "[]"
      "(new_transmitter [0, 0, 0, 0])\<lparr>RecvRtspCmd := Some 1\<rparr>" 1]
  by (auto simp: header_bytes_def with_lf_def lf_line_def blank_line_def new_transmitter_def)

text \<open>C9: the buffer for such a response is overrun: four of its 8192 bytes are in use when the first
  line is read with room for 8192 more, so a peer that sends 8191 bytes without LF after \<open>RT\<close> makes
  \<open>PollSocket\<close> write past its end.\<close>

theorem rtsp_cmd_overrun:
  assumes "rx w = arrived bss tail" "[] \<notin> set bss" "concat bss = [82, 84, 83, 80] @ d"
    and "[83, 80] @ d @ rx_stream tail = l @ s" "10 \<notin> set l" "length l = 8191"
    and "RecvRtspCmd t = Some clbk"
  shows "recv_len t w = Inl Overrun"
proof -
  obtain bss' where r: "recv_len t w = ub_bind (recv_rtsp_cmd (put_header [82, 84, 83, 80] t) w)
      (\<lambda>(t5, w5). Inr (None, t5\<lparr>RecvRtspCmd := None\<rparr>, w5))"
    "sys_recv 2 (rx w) = (Some [82, 84], arrived bss' tail)" "concat bss' = [83, 80] @ d"
    using recv_len_rtsp [OF assms(1-3), of t] by blast
  have "rx_stream (arrived bss' tail) = l @ s" using assms(4) r(3) by (simp add: rx_stream_arrived)
  then obtain w' w'' where "ReadLine 8192 (w\<lparr>rx := arrived bss' tail\<rparr>) = (int 8192, l, w')"
    and "ReadLine 8192 (w\<lparr>rx := arrived bss' tail, last_errno := EOTHER\<rparr>) = (int 8192, l, w'')"
    using readline_loop_full [of "w\<lparr>rx := arrived bss' tail\<rparr>" l s 1 8192]
      readline_loop_full [of "w\<lparr>rx := arrived bss' tail, last_errno := EOTHER\<rparr>" l s 1 8192] assms(5,6)
    by (auto simp: ReadLine_def)
  then have "rtsp_lines 8192 [82, 84, 83, 80] (w\<lparr>rx := arrived bss' tail\<rparr>) = Inl Overrun"
    using assms(6) by (subst rtsp_lines.simps) (simp add: ends_with_nul_def)
  then show ?thesis by (simp add: r(1) recv_rtsp_cmd_eq [OF r(2) assms(7)])
qed

theorem rtsp_cmd_overrun_witness:
  "recv_len ((new_transmitter [0, 0, 0, 0])\<lparr>RecvRtspCmd := Some 1\<rparr>)
     \<lparr>rx = [Chunk ([82, 84, 83, 80] @ replicate 8189 65)], tx = [], sent = [], last_errno = EOTHER\<rparr> = Inl Overrun"
  using rtsp_cmd_overrun [of "\<lparr>rx = [Chunk ([82, 84, 83, 80] @ replicate 8189 65)], tx = [], sent = [], last_errno = EOTHER\<rparr>"
      "[[82, 84, 83, 80] @ replicate 8189 65]" "[]" "replicate 8189 65" "[83, 80] @ replicate 8189 65" "[]"
      "(new_transmitter [0, 0, 0, 0])\<lparr>RecvRtspCmd := Some 1\<rparr>" 1]
  by simp

text \<open>
  if the stream ends inside a payload, \<open>recv\<close> returns fewer bytes than asked for, which is
  taken for success: a packet of the announced length is queued whose end was never received.\<close>

theorem short_payload_queued:
  assumes "rx w = map Chunk bss" "[] \<notin> set bss" "bss \<noteq> []" "length (concat bss) < n"
    and "m_recvstate t = RECV_DATA" "m_dataLength t = Some n" "m_isrtp t = Some isrtp"
  shows "\<exists>t' w'. PollSocket t w = Inr (None, t', w') \<and>
    m_rawpacketlist t' = m_rawpacketlist t @
      [\<lparr>raw_data = concat bss, raw_length = n, raw_isrtp = isrtp\<rparr>]"
proof -
  have r: "\<forall>n > length (concat bss). recv_all n (map Chunk bss) = (concat bss, [])"
    by (induction bss) auto
  have "concat bss \<noteq> []" using assms(2,3) by (cases bss) auto
  moreover have "sys_recv n (rx w) = (Some (concat bss), [])"
    using r assms(1,4) by (simp add: sys_recv_def)
  moreover obtain k where "fionread (rx w) = (k, rx w)" "k \<noteq> 0"
    using fionread_arrived [OF assms(2), of "[]"] assms(1) calculation(1) by auto
  ultimately show ?thesis
    using assms(5-7) unfolding PollSocket_def
    by (subst poll_loop.simps) (simp add: recv_data_def)
qed

theorem short_payload_queued_witness:
  "\<exists>t' w'. PollSocket ((new_transmitter [0, 0, 0, 0])\<lparr>m_recvstate := RECV_DATA, m_dataLength := Some 9, m_isrtp := Some True\<rparr>)
      \<lparr>rx = [Chunk [1]], tx = [], sent = [], last_errno = EOTHER\<rparr> = Inr (None, t', w') \<and>
    m_rawpacketlist t' = [\<lparr>raw_data = [1], raw_length = 9, raw_isrtp = True\<rparr>]"
  using short_payload_queued [of "\<lparr>rx = [Chunk [1]], tx = [], sent = [], last_errno = EOTHER\<rparr>" "[[1]]" 9
      "(new_transmitter [0, 0, 0, 0])\<lparr>m_recvstate := RECV_DATA, m_dataLength := Some 9, m_isrtp := Some True\<rparr>" True]
  by (simp add: new_transmitter_def)

end
