(* ===== verification/Base64.thy ===== *)
theory Base64
  imports Prelude
begin

section \<open>Base64 (third_party/Base64_live555/Base64.cpp)\<close>

text \<open>
  \<open>base64Encode\<close> and \<open>base64Decode\<close> as the library writes them: the 64-character alphabet,
  the 256-entry decoding table with 0x80 for invalid characters, three bytes per four
  characters, padding, and the trimming of the zero bytes that padding decodes to. Lengths
  are assumed to fit the C types (\<open>unsigned\<close>, \<open>int\<close>), i.e. below \<open>2 ^ 31\<close> bytes.
\<close>

definition base64Char :: string where
  "base64Char = ''ABCDEFGHIJKLMNOPQRSTUVWXYZabcdefghijklmnopqrstuvwxyz0123456789+/''"

definition base64DecodeTable :: "byte \<Rightarrow> byte" where
  "base64DecodeTable i =
     (if 65 \<le> i \<and> i \<le> 90 then 0 + (i - 65)
      else if 97 \<le> i \<and> i \<le> 122 then 26 + (i - 97)
      else if 48 \<le> i \<and> i \<le> 57 then 52 + (i - 48)
      else if i = 43 then 62
      else if i = 47 then 63
      else if i = 61 then 0
      else 0x80)"

definition b64_digit :: "byte \<Rightarrow> char" where
  "b64_digit v = base64Char ! unat (v AND 0x3F)"

fun base64Encode :: "byte list \<Rightarrow> string" where
  "base64Encode [] = []"
| "base64Encode [a] =
     [b64_digit (drop_bit 2 a), b64_digit (push_bit 4 (a AND 0x3)), CHR ''='', CHR ''='']"
| "base64Encode [a, b] =
     [b64_digit (drop_bit 2 a), b64_digit (push_bit 4 (a AND 0x3) OR drop_bit 4 b),
      b64_digit (push_bit 2 b), CHR ''='']"
| "base64Encode (a # b # c # r) =
     [b64_digit (drop_bit 2 a), b64_digit (push_bit 4 (a AND 0x3) OR drop_bit 4 b),
      b64_digit (push_bit 2 b OR drop_bit 6 c), b64_digit c] @ base64Encode r"

definition b64_value :: "char \<Rightarrow> byte" where
  "b64_value ch =
     (let t = base64DecodeTable (byte_of_char ch) in if t AND 0x80 \<noteq> 0 then 0 else t)"

definition b64_triple :: "byte \<Rightarrow> byte \<Rightarrow> byte \<Rightarrow> byte \<Rightarrow> byte list" where
  "b64_triple v0 v1 v2 v3 =
     [push_bit 2 v0 OR drop_bit 4 v1, push_bit 4 v1 OR drop_bit 2 v2, push_bit 6 v2 OR v3]"

text \<open>The decoding loop: full groups of four only, with the number of \<open>=\<close> seen.\<close>

fun b64_groups :: "string \<Rightarrow> byte list \<times> nat" where
  "b64_groups (a # b # c # d # r) =
     (let (out, pad) = b64_groups r in
      (b64_triple (b64_value a) (b64_value b) (b64_value c) (b64_value d) @ out,
       count_list [a, b, c, d] (CHR ''='') + pad))"
| "b64_groups _ = ([], 0)"

text \<open>\<open>while(paddingCount > 0 && k > 0 && out[k-1] == 0)\<close>, on the reversed output.\<close>

fun trim_zeros :: "nat \<Rightarrow> byte list \<Rightarrow> byte list" where
  "trim_zeros 0 rout = rout"
| "trim_zeros (Suc pad) [] = []"
| "trim_zeros (Suc pad) (b # rout) = (if b = 0 then trim_zeros pad rout else b # rout)"

definition base64Decode :: "string \<Rightarrow> bool \<Rightarrow> byte list" where
  "base64Decode s trimTrailingZeros =
     (let (out, paddingCount) = b64_groups (cstr s) in
      if trimTrailingZeros then rev (trim_zeros paddingCount (rev out)) else out)"

subsection \<open>The alphabet and the table are inverse\<close>

lemma upt_64: "map word_of_nat [0..<64] =
     ([0, 1, 2, 3, 4, 5, 6, 7, 8, 9, 10, 11, 12, 13, 14, 15,
      16, 17, 18, 19, 20, 21, 22, 23, 24, 25, 26, 27, 28, 29, 30, 31,
      32, 33, 34, 35, 36, 37, 38, 39, 40, 41, 42, 43, 44, 45, 46, 47,
      48, 49, 50, 51, 52, 53, 54, 55, 56, 57, 58, 59, 60, 61, 62, 63] :: byte list)"
  by code_simp

lemma b64_alphabet: "map b64_value base64Char = map word_of_nat [0..<64]"
  unfolding upt_64
  by (simp add: base64Char_def b64_value_def base64DecodeTable_def byte_of_char_def)

lemma b64_alphabet_chars: "CHR ''='' \<notin> set base64Char" "CHR 0x00 \<notin> set base64Char"
  by (simp_all add: base64Char_def)

lemma base64Char_length: "length base64Char = 64"
  by (simp add: base64Char_def)

lemma b64_value_nth: "i < 64 \<Longrightarrow> b64_value (base64Char ! i) = word_of_nat i"
  using arg_cong [OF b64_alphabet, of "\<lambda>l. l ! i"] by (simp add: base64Char_length)

lemma b64_char_nth: "i < 64 \<Longrightarrow> base64Char ! i \<in> set base64Char"
  by (simp add: base64Char_length)

lemma and_3F: "(v :: byte) AND 0x3F = take_bit 6 v"
  by (simp add: take_bit_eq_mask mask_numeral)

lemma and_3: "(v :: byte) AND 0x3 = take_bit 2 v"
  by (simp add: take_bit_eq_mask mask_numeral)

lemma unat_take_6: "unat (take_bit 6 (v :: byte)) < 64"
  using take_bit_nat_less_exp [of 6 "unat v"] by (simp add: unsigned_take_bit_eq)

lemma b64_digit_in: "b64_digit v \<in> set base64Char"
  by (simp add: b64_digit_def and_3F b64_char_nth unat_take_6)

lemma b64_value_digit: "b64_value (b64_digit v) = take_bit 6 v"
  by (simp add: b64_digit_def and_3F b64_value_nth unat_take_6)

lemma b64_digit_not_pad [simp]: "b64_digit v \<noteq> CHR ''=''" "CHR ''='' \<noteq> b64_digit v"
  using b64_digit_in [of v] b64_alphabet_chars by auto

lemma b64_digit_not_nul [simp]: "b64_digit v \<noteq> CHR 0x00" "CHR 0x00 \<noteq> b64_digit v"
  using b64_digit_in [of v] b64_alphabet_chars by auto

lemma b64_value_pad: "b64_value (CHR ''='') = 0"
  by (simp add: b64_value_def base64DecodeTable_def byte_of_char_def)

subsection \<open>Bits\<close>

lemma b64_bits:
  "push_bit 2 (take_bit 6 (drop_bit 2 a))
     OR drop_bit 4 (take_bit 6 (push_bit 4 (take_bit 2 a) OR drop_bit 4 b)) = (a :: byte)"
  "push_bit 4 (take_bit 6 (push_bit 4 (take_bit 2 a) OR drop_bit 4 b))
     OR drop_bit 2 (take_bit 6 (push_bit 2 b OR drop_bit 6 c)) = (b :: byte)"
  "push_bit 6 (take_bit 6 (push_bit 2 b OR drop_bit 6 c)) OR take_bit 6 c = (c :: byte)"
  by (rule byte_eqI; simp add: bit_simps)+

lemma b64_triple_three:
  "b64_triple (b64_value (b64_digit (drop_bit 2 a)))
     (b64_value (b64_digit (push_bit 4 (a AND 0x3) OR drop_bit 4 b)))
     (b64_value (b64_digit (push_bit 2 b OR drop_bit 6 c))) (b64_value (b64_digit c)) = [a, b, c]"
  by (simp only: b64_triple_def b64_value_digit and_3 b64_bits)

lemma b64_triple_two:
  "b64_triple (b64_value (b64_digit (drop_bit 2 a)))
     (b64_value (b64_digit (push_bit 4 (a AND 0x3) OR drop_bit 4 b)))
     (b64_value (b64_digit (push_bit 2 b))) (b64_value (CHR ''='')) = [a, b, 0]"
  using b64_triple_three [of a b 0] by (simp add: b64_value_pad b64_value_digit)

lemma b64_triple_one:
  "b64_triple (b64_value (b64_digit (drop_bit 2 a)))
     (b64_value (b64_digit (push_bit 4 (a AND 0x3))))
     (b64_value (CHR ''='')) (b64_value (CHR ''='')) = [a, 0, 0]"
  using b64_triple_three [of a 0 0] by (simp add: b64_value_pad b64_value_digit)

subsection \<open>Decoding an encoding\<close>

text \<open>\<open>pad_of bs\<close>: the number of padding characters the encoder appends.\<close>

definition pad_of :: "byte list \<Rightarrow> nat" where
  "pad_of bs = (if length bs mod 3 = 0 then 0 else 3 - length bs mod 3)"

lemma pad_of_short: "pad_of [] = 0" "pad_of [a] = Suc (Suc 0)" "pad_of [a, b] = Suc 0"
  by (simp_all add: pad_of_def)

lemma pad_of_step: "pad_of (a # b # c # r) = pad_of r"
proof -
  have "length (a # b # c # r) = length r + 3" by simp
  then have "length (a # b # c # r) mod 3 = length r mod 3" by (simp only: mod_add_self2)
  then show ?thesis by (simp only: pad_of_def)
qed

lemma b64_groups_encode:
  "b64_groups (base64Encode bs) = (bs @ replicate (pad_of bs) 0, pad_of bs)"
proof (induction bs rule: base64Encode.induct)
  case (2 a)
  then show ?case by (simp add: b64_triple_one [simplified] pad_of_short)
next
  case (3 a b)
  then show ?case by (simp add: b64_triple_two [simplified] pad_of_short)
next
  case (4 a b c r)
  then show ?case by (simp add: b64_triple_three [simplified] pad_of_step)
qed (simp add: pad_of_short)

lemma trim_zeros_replicate: "trim_zeros n (replicate n 0 @ xs) = xs"
  by (induction n) simp_all

lemma base64Encode_no_nul: "CHR 0x00 \<notin> set (base64Encode bs)"
  by (induction bs rule: base64Encode.induct) auto

lemma base64Encode_length: "length (base64Encode bs) = 4 * ((length bs + 2) div 3)"
proof (induction bs rule: base64Encode.induct)
  case (4 a b c r)
  moreover have "(5 + length r) div 3 = Suc ((length r + 2) div 3)" by linarith
  ultimately show ?case by simp
qed simp_all

text \<open>Base64 as a codec: what a peer that decodes the tunnelled request relies on.\<close>

locale codec =
  fixes encode :: "'a list \<Rightarrow> string"
    and decode :: "string \<Rightarrow> 'a list"
  assumes decode_encode: "decode (encode x) = x"
    and encode_text: "CHR 0x00 \<notin> set (encode x)"
begin

lemma encode_inject: "encode x = encode y \<Longrightarrow> x = y"
  by (metis decode_encode)

text \<open>Handing the encoding over as a C string loses nothing.\<close>

lemma decode_cstr_encode: "decode (cstr (encode x)) = x"
  using encode_text by (simp add: cstr_id decode_encode)

end

interpretation b64: codec base64Encode "\<lambda>s. base64Decode s True"
proof
  fix x :: "byte list"
  show "base64Decode (base64Encode x) True = x"
    by (simp add: base64Decode_def cstr_id base64Encode_no_nul b64_groups_encode
        trim_zeros_replicate)
  show "CHR 0x00 \<notin> set (base64Encode x)" by (rule base64Encode_no_nul)
qed

subsection \<open>Arbitrary input\<close>

lemma b64_groups_length: "length (fst (b64_groups s)) = 3 * (length s div 4)"
proof (induction s rule: b64_groups.induct)
  case (1 a b c d r)
  moreover have "(4 + length r) div 4 = Suc (length r div 4)" by linarith
  ultimately show ?case by (cases "b64_groups r") (simp add: b64_triple_def)
qed simp_all

lemma trim_zeros_length: "length (trim_zeros n xs) \<le> length xs"
  by (induction n xs rule: trim_zeros.induct) auto

text \<open>The decoder never writes more than it allocated: \<open>strlen(in) + 1\<close> bytes.\<close>

lemma base64Decode_length: "length (base64Decode s t) \<le> 3 * (length (cstr s) div 4)"
proof -
  obtain out pad where g: "b64_groups (cstr s) = (out, pad)" by fastforce
  then have "length out = 3 * (length (cstr s) div 4)"
    using b64_groups_length [of "cstr s"] by simp
  moreover have "length (trim_zeros pad (rev out)) \<le> length out"
    using trim_zeros_length [of pad "rev out"] by simp
  ultimately show ?thesis by (simp add: base64Decode_def g)
qed

subsection \<open>Properties\<close>

text \<open>C4: decoding undoes encoding for every byte string, whatever its length modulo three and
  whatever zero bytes it ends with: \<open>base64Decode\<close> trims exactly the bytes that padding stands
  for.\<close>

theorem base64_roundtrip: "base64Decode (base64Encode bs) True = bs"
  by (rule b64.decode_encode)

text \<open>
  the buffers are large enough: the encoder writes four characters for every three bytes
  begun and no NUL among them; the decoder, on any C string, valid base64 or not, writes at most three
  bytes for every four characters, less than the \<open>strlen(in) + 1\<close> bytes it allocated.\<close>

theorem base64_sizes:
  "length (base64Encode bs) = 4 * ((length bs + 2) div 3) \<and> CHR 0x00 \<notin> set (base64Encode bs) \<and>
   length (base64Decode s t) \<le> 3 * (length (cstr s) div 4) \<and>
   length (base64Decode s t) < length (cstr s) + 1"
  using base64Encode_length [of bs] base64Encode_no_nul [of bs] base64Decode_length [of s t]
  by linarith

end
