(* ===== verification/Ordered_Map.thy ===== *)
theory Ordered_Map
  imports Prelude
begin

section \<open>\<open>std::map\<close>: ordered association lists\<close>

text \<open>
  The code keeps its media sessions, its SDP descriptions and the attributes of a payload
  type in \<open>std::map\<close>s and walks them with iterators, so the order of the keys matters. A map
  is an association list with strictly increasing keys; \<open>m[k] = v\<close>, \<open>find\<close> and \<open>erase\<close>
  are the operations the code uses. The locale \<open>std_map\<close> states what a client of the
  container relies on; it is interpreted on the association lists.
\<close>

type_synonym ('k, 'v) smap = "('k \<times> 'v) list"

fun smap_find :: "('k, 'v) smap \<Rightarrow> 'k \<Rightarrow> 'v option" where
  "smap_find [] k = None"
| "smap_find ((k', v) # m) k = (if k = k' then Some v else smap_find m k)"

fun smap_set :: "('k::linorder) \<Rightarrow> 'v \<Rightarrow> ('k, 'v) smap \<Rightarrow> ('k, 'v) smap" where
  "smap_set k v [] = [(k, v)]"
| "smap_set k v ((k', v') # m) =
     (if k = k' then (k, v) # m
      else if k < k' then (k, v) # (k', v') # m
      else (k', v') # smap_set k v m)"

fun smap_erase :: "'k \<Rightarrow> ('k, 'v) smap \<Rightarrow> ('k, 'v) smap" where
  "smap_erase k [] = []"
| "smap_erase k ((k', v') # m) = (if k = k' then m else (k', v') # smap_erase k m)"

definition smap_keys :: "('k, 'v) smap \<Rightarrow> 'k list" where
  "smap_keys m = map fst m"

definition smap_inv :: "('k::linorder, 'v) smap \<Rightarrow> bool" where
  "smap_inv m \<longleftrightarrow> sorted_wrt (<) (smap_keys m)"

text \<open>The iterator loop \<open>for(it = begin; it != end; it++) if(P(it)) break;\<close>.\<close>

fun smap_first :: "('k \<Rightarrow> 'v \<Rightarrow> bool) \<Rightarrow> ('k, 'v) smap \<Rightarrow> ('k \<times> 'v) option" where
  "smap_first P [] = None"
| "smap_first P ((k, v) # m) = (if P k v then Some (k, v) else smap_first P m)"

subsection \<open>Laws\<close>

lemma smap_inv_Nil [simp]: "smap_inv []"
  by (simp add: smap_inv_def smap_keys_def)

lemma smap_inv_Cons: "smap_inv ((k, v) # m) \<longleftrightarrow> (\<forall>k' \<in> set (smap_keys m). k < k') \<and> smap_inv m"
  by (simp add: smap_inv_def smap_keys_def)

lemma smap_keys_simps [simp]:
  "smap_keys [] = []"
  "smap_keys ((k, v) # m) = k # smap_keys m"
  by (simp_all add: smap_keys_def)

lemma smap_set_keys: "set (smap_keys (smap_set k v m)) = insert k (set (smap_keys m))"
  by (induction k v m rule: smap_set.induct) auto

lemma smap_inv_set [intro]: "smap_inv m \<Longrightarrow> smap_inv (smap_set k v m)"
  by (induction k v m rule: smap_set.induct) (auto simp: smap_inv_Cons smap_set_keys)

lemma smap_erase_keys: "set (smap_keys (smap_erase k m)) \<subseteq> set (smap_keys m)"
  by (induction k m rule: smap_erase.induct) auto

lemma smap_inv_erase [intro]: "smap_inv m \<Longrightarrow> smap_inv (smap_erase k m)"
  by (induction k m rule: smap_erase.induct)
    (use smap_erase_keys in \<open>fastforce simp: smap_inv_Cons\<close>)+

lemma smap_find_set:
  "smap_find (smap_set k v m) k' = (if k' = k then Some v else smap_find m k')"
  by (induction k v m rule: smap_set.induct) auto

lemma smap_set_set: "smap_set k v (smap_set k u m) = smap_set k v m"
  by (induction k u m rule: smap_set.induct) auto

lemma smap_find_None: "smap_find m k = None \<longleftrightarrow> k \<notin> set (smap_keys m)"
  by (induction m k rule: smap_find.induct) auto

lemma smap_find_erase:
  "smap_inv m \<Longrightarrow> smap_find (smap_erase k m) k' = (if k' = k then None else smap_find m k')"
proof (induction k m rule: smap_erase.induct)
  case (2 k a b m)
  then show ?case by (auto simp: smap_inv_Cons smap_find_None)
qed simp

lemma smap_find_in: "smap_find m k = Some v \<Longrightarrow> (k, v) \<in> set m"
  by (induction m k rule: smap_find.induct) (auto split: if_splits)

lemma smap_in_find: "smap_inv m \<Longrightarrow> (k, v) \<in> set m \<Longrightarrow> smap_find m k = Some v"
proof (induction m k rule: smap_find.induct)
  case (2 k' v' m k)
  then show ?case by (force simp: smap_inv_Cons smap_keys_def)
qed simp

lemma smap_first_Some: "smap_first P m = Some (k, v) \<Longrightarrow> (k, v) \<in> set m \<and> P k v"
  by (induction P m rule: smap_first.induct) (auto split: if_splits)

lemma smap_first_None: "smap_first P m = None \<longleftrightarrow> (\<forall>(k, v) \<in> set m. \<not> P k v)"
  by (induction P m rule: smap_first.induct) auto

lemma smap_first_least:
  "smap_inv m \<Longrightarrow> smap_first P m = Some (k, v) \<Longrightarrow> (k', v') \<in> set m \<Longrightarrow> P k' v' \<Longrightarrow> k \<le> k'"
proof (induction P m rule: smap_first.induct)
  case (2 P a b m)
  then show ?case
    by (fastforce simp: smap_inv_Cons smap_keys_def split: if_splits)
qed simp

subsection \<open>The container as an interface\<close>

locale std_map =
  fixes find :: "'m \<Rightarrow> 'k::linorder \<Rightarrow> 'v option"
    and set_at :: "'k \<Rightarrow> 'v \<Rightarrow> 'm \<Rightarrow> 'm"
    and erase :: "'k \<Rightarrow> 'm \<Rightarrow> 'm"
    and first :: "('k \<Rightarrow> 'v \<Rightarrow> bool) \<Rightarrow> 'm \<Rightarrow> ('k \<times> 'v) option"
    and inv :: "'m \<Rightarrow> bool"
  assumes find_set: "inv m \<Longrightarrow> find (set_at k v m) k' = (if k' = k then Some v else find m k')"
    and find_erase: "inv m \<Longrightarrow> find (erase k m) k' = (if k' = k then None else find m k')"
    and inv_set: "inv m \<Longrightarrow> inv (set_at k v m)"
    and inv_erase: "inv m \<Longrightarrow> inv (erase k m)"
    and first_find: "inv m \<Longrightarrow> first P m = Some (k, v) \<Longrightarrow> find m k = Some v \<and> P k v"
    and first_none: "inv m \<Longrightarrow> first P m = None \<longleftrightarrow> (\<forall>k v. find m k = Some v \<longrightarrow> \<not> P k v)"
    and first_least: "inv m \<Longrightarrow> first P m = Some (k, v) \<Longrightarrow> find m k' = Some v' \<Longrightarrow> P k' v' \<Longrightarrow> k \<le> k'"
begin

lemma first_exists:
  assumes "inv m" "find m k = Some v" "P k v"
  shows "\<exists>k' v'. first P m = Some (k', v')"
  using assms first_none [of m P] by (cases "first P m") auto

text \<open>If only one key satisfies the loop's test, the loop stops there.\<close>

lemma first_unique:
  assumes "inv m" "find m k = Some v" "\<And>k' v'. find m k' = Some v' \<Longrightarrow> P k' v' \<longleftrightarrow> k' = k"
  shows "first P m = Some (k, v)"
proof -
  from assms obtain k' v' where f: "first P m = Some (k', v')"
    using first_exists [of m k v P] by auto
  with assms(1) have "find m k' = Some v'" "P k' v'" by (auto dest: first_find)
  with assms(2,3) f show ?thesis by auto
qed

text \<open>Two entries satisfy the test: the one with the smaller key is found.\<close>

lemma first_smaller:
  assumes "inv m" "find m k = Some v" "P k v" "\<And>k' v'. find m k' = Some v' \<Longrightarrow> P k' v' \<Longrightarrow> k \<le> k'"
  shows "first P m = Some (k, v)"
proof -
  from assms(1-3) obtain k' v' where f: "first P m = Some (k', v')"
    using first_exists by blast
  have "find m k' = Some v'" "P k' v'" using first_find [OF assms(1) f] by auto
  with assms(4) have "k \<le> k'" by blast
  moreover have "k' \<le> k" using first_least [OF assms(1) f assms(2,3)] .
  ultimately show ?thesis using f \<open>find m k' = Some v'\<close> assms(2) by auto
qed

lemma erase_set: "inv m \<Longrightarrow> find m k = None \<Longrightarrow> find (erase k (set_at k v m)) = find m"
  by (rule ext) (auto simp: find_erase inv_set find_set)

end

interpretation smap: std_map smap_find smap_set smap_erase smap_first smap_inv
proof
  fix m :: "('k::linorder, 'v) smap" and k k' :: 'k and v v' :: 'v and P
  assume i: "smap_inv m"
  show "smap_find (smap_set k v m) k' = (if k' = k then Some v else smap_find m k')"
    by (rule smap_find_set)
  show "smap_find (smap_erase k m) k' = (if k' = k then None else smap_find m k')"
    by (rule smap_find_erase [OF i])
  show "smap_inv (smap_set k v m)" using i by (rule smap_inv_set)
  show "smap_inv (smap_erase k m)" using i by (rule smap_inv_erase)
  show "smap_first P m = None \<longleftrightarrow> (\<forall>k v. smap_find m k = Some v \<longrightarrow> \<not> P k v)"
    using i by (auto simp: smap_first_None dest: smap_find_in smap_in_find)
  assume f: "smap_first P m = Some (k, v)"
  show "smap_find m k = Some v \<and> P k v"
    using smap_first_Some [OF f] smap_in_find [OF i] by auto
  assume "smap_find m k' = Some v'" "P k' v'"
  then show "k \<le> k'"
    using smap_first_least [OF i f] smap_find_in by metis
qed

end
