(* ===== verification/Sdp_Types.thy ===== *)
theory Sdp_Types
  imports Ordered_Map
begin

section \<open>The SDP data model (include/sdp_data.h)\<close>

text \<open>
  The attribute keys, the structures an SDP description is parsed into, and the order of the
  enumeration that \<open>map<SDP_ATTR_ENUM, string>\<close> uses.
\<close>

datatype sdp_attr =
    MEDIA_TYPE_NAME
  | CODEC_TYPE
  | TIME_RATE
  | CHANNEL_NUM
  | PACK_MODE
  | ATTR_SPS
  | ATTR_PPS
  | ATTR_VPS
  | CONTROL_URI

fun sdp_attr_value :: "sdp_attr \<Rightarrow> nat" where
  "sdp_attr_value MEDIA_TYPE_NAME = 0"
| "sdp_attr_value CODEC_TYPE = 1"
| "sdp_attr_value TIME_RATE = 2"
| "sdp_attr_value CHANNEL_NUM = 3"
| "sdp_attr_value PACK_MODE = 4"
| "sdp_attr_value ATTR_SPS = 5"
| "sdp_attr_value ATTR_PPS = 6"
| "sdp_attr_value ATTR_VPS = 7"
| "sdp_attr_value CONTROL_URI = 8"

lemma sdp_attr_value_inject: "sdp_attr_value a = sdp_attr_value b \<Longrightarrow> a = b"
  by (cases a; cases b) simp_all

instantiation sdp_attr :: linorder
begin

definition less_eq_sdp_attr :: "sdp_attr \<Rightarrow> sdp_attr \<Rightarrow> bool" where
  "less_eq_sdp_attr a b \<longleftrightarrow> sdp_attr_value a \<le> sdp_attr_value b"

definition less_sdp_attr :: "sdp_attr \<Rightarrow> sdp_attr \<Rightarrow> bool" where
  "less_sdp_attr a b \<longleftrightarrow> sdp_attr_value a < sdp_attr_value b"

instance
  by standard (auto simp: less_eq_sdp_attr_def less_sdp_attr_def dest: sdp_attr_value_inject)

end

type_synonym attr_map = "(sdp_attr, string) smap"

record sdp_origin =
  userName :: string
  sessionId :: int
  version :: int
  networkType :: string
  addressType :: string
  address :: string

record sdp_connection =
  cNetworkType :: string
  cAddressType :: string
  cAddress :: string

record sdp_time =
  startTime :: int
  stopTime :: int

record sdp_media_info =
  mediaType :: string
  ports :: string
  transProt :: string
  fmtMap :: "(int, attr_map) smap"
  controlURI :: string

definition empty_media_info :: sdp_media_info where
  "empty_media_info =
     \<lparr>mediaType = [], ports = [], transProt = [], fmtMap = [], controlURI = []\<rparr>"

end
