(* ===== verification/Depacketizer.thy ===== *)
theory Depacketizer
  imports Prelude
begin

section \<open>The contract between the client's receive loop and the frame types\<close>

text \<open>
  \<open>RtspClient::GetMediaData\<close> (rtspClient.cpp) turns RTP payloads into a frame through two
  virtual methods of \<open>FrameTypeBase\<close> (frame_type_base.h): \<open>ParsePacket(packet, size,
  &EndFlag)\<close> and \<open>CopyData(buf, data, size)\<close>. \<open>frame_of\<close> is the loop body alone, over a
  given list of payloads; the locale \<open>depacketizer\<close> states what the loop relies on, and the
  frame types provide it.

  \<open>parse s p n endp\<close> returns the code of \<open>ParsePacket\<close>, the value it stored through its
  third argument (\<open>None\<close> if none; \<open>endp\<close> tells whether that pointer is non-null) and the
  object; \<open>copy s bufp p n\<close> returns the bytes \<open>CopyData\<close> writes, \<open>bufp\<close> telling whether
  the buffer is non-null.
\<close>

type_synonym payload = "byte list option"

text \<open>
  The tail of the NALU types' \<open>CopyData\<close>: after the prefix, \<open>memcpy(buf + CopySize, data +
  skip, size - skip)\<close> with the length a \<open>size_t\<close>.
\<close>

definition copy_tail :: "nat \<Rightarrow> byte list \<Rightarrow> byte list \<Rightarrow> nat \<Rightarrow> ub + byte list" where
  "copy_tail skip prefix d n =
     ub_bind (size_sub n skip) (\<lambda>k. ub_bind (memcpy_from d skip k) (\<lambda>body. Inr (prefix @ body)))"

lemma copy_tail_in [simp]:
  "n = length d \<Longrightarrow> skip \<le> n \<Longrightarrow> copy_tail skip prefix d n = Inr (prefix @ drop skip d)"
  by (simp add: copy_tail_def)

lemma copy_tail_length:
  assumes "copy_tail skip prefix d n = Inr out"
  shows "length out + skip = length prefix + n"
proof -
  obtain k body where "size_sub n skip = Inr k" "memcpy_from d skip k = Inr body" "out = prefix @ body"
    using assms by (auto simp: copy_tail_def ub_bind_eq_Inr)
  then show ?thesis
    using memcpy_from_length [of d skip k body] by (auto simp: size_sub_def split: if_splits)
qed

fun frame_of ::
    "('s \<Rightarrow> payload \<Rightarrow> nat \<Rightarrow> bool \<Rightarrow> ub + (int \<times> bool option \<times> 's)) \<Rightarrow>
     ('s \<Rightarrow> bool \<Rightarrow> payload \<Rightarrow> nat \<Rightarrow> ub + byte list) \<Rightarrow>
     's \<Rightarrow> byte list list \<Rightarrow> ub + (byte list \<times> bool \<times> 's)" where
  "frame_of parse copy s [] = Inr ([], False, s)"
| "frame_of parse copy s (p # ps) =
     ub_bind (parse s (Some p) (length p) True) (\<lambda>(rc, e, s1).
       if rc \<noteq> 0 then Inr ([], False, s1)
       else ub_bind (copy s1 True (Some p) (length p)) (\<lambda>out.
         if e = Some False
         then ub_bind (frame_of parse copy s1 ps) (\<lambda>(rest, whole, s2). Inr (out @ rest, whole, s2))
         else Inr (out, True, s1)))"

locale depacketizer =
  fixes parse :: "'s \<Rightarrow> payload \<Rightarrow> nat \<Rightarrow> bool \<Rightarrow> ub + (int \<times> bool option \<times> 's)"
    and copy :: "'s \<Rightarrow> bool \<Rightarrow> payload \<Rightarrow> nat \<Rightarrow> ub + byte list"
    and inv :: "'s \<Rightarrow> bool"
    and header_size :: nat
  assumes parse_defined:
      "inv s \<Longrightarrow> header_size \<le> length p \<Longrightarrow>
       \<exists>rc e s'. parse s (Some p) (length p) True = Inr (rc, e, s') \<and> inv s'"
    and copy_defined:
      "inv s \<Longrightarrow> header_size \<le> length p \<Longrightarrow>
       parse s (Some p) (length p) True = Inr (0, e, s') \<Longrightarrow>
       defined (copy s' True (Some p) (length p))"
    and copy_bound: "copy s bufp q n = Inr out \<Longrightarrow> length out \<le> n + 4"
begin

text \<open>No payload of at least \<open>header_size\<close> bytes makes the loop misbehave.\<close>

lemma frame_of_safe:
  assumes "inv s" "\<forall>p \<in> set ps. header_size \<le> length p"
  shows "\<exists>out whole s'. frame_of parse copy s ps = Inr (out, whole, s') \<and> inv s'"
  using assms
proof (induction ps arbitrary: s)
  case Nil
  then show ?case by auto
next
  case (Cons p ps)
  obtain rc e s1 where p1: "parse s (Some p) (length p) True = Inr (rc, e, s1)" "inv s1"
    using parse_defined [of s p] Cons.prems by auto
  show ?case
  proof (cases "rc = 0")
    case False
    with p1 show ?thesis by auto
  next
    case True
    with p1 Cons.prems obtain out where out: "copy s1 True (Some p) (length p) = Inr out"
      using copy_defined [of s p e s1] by (auto simp: defined_iff)
    obtain rest whole s2 where "frame_of parse copy s1 ps = Inr (rest, whole, s2)" "inv s2"
      using Cons.IH [OF p1(2)] Cons.prems by auto
    with True p1 out show ?thesis by auto
  qed
qed

text \<open>The frame is at most four bytes longer than its payloads, for each of them.\<close>

lemma frame_of_bound:
  "frame_of parse copy s ps = Inr (out, whole, s') \<Longrightarrow>
   length out \<le> sum_list (map length ps) + 4 * length ps"
proof (induction ps arbitrary: s out whole s')
  case Nil
  then show ?case by simp
next
  case (Cons p ps)
  show ?case
  proof (cases "out = []")
    case False
    with Cons.prems obtain e s1 o1 where 1: "parse s (Some p) (length p) True = Inr (0, e, s1)"
        "copy s1 True (Some p) (length p) = Inr o1"
      by (auto simp: ub_bind_eq_Inr split: if_splits)
    have "length o1 \<le> length p + 4" using copy_bound [OF 1(2)] .
    then show ?thesis
      using Cons.prems Cons.IH 1 by (auto simp: ub_bind_eq_Inr split: if_splits) fastforce
  qed simp
qed

text \<open>An object that answers \<open>EndFlag = true\<close> makes a frame of every payload.\<close>

lemma frame_of_single:
  assumes "parse s (Some p) (length p) True = Inr (0, Some True, s1)"
    and "copy s1 True (Some p) (length p) = Inr out"
  shows "frame_of parse copy s (p # ps) = Inr (out, True, s1)"
  using assms by simp

end

end
