(* ===== verification/Nalu_Types.thy ===== *)
theory Nalu_Types
  imports Base64 Sdp_Types Depacketizer
begin

section \<open>What the H.264 and H.265 types share (nalu_types.cpp, nalu_types.h)\<close>

text \<open>
  \<open>NALUTypeBase::PrefixXPS\<close>, which writes one parameter set behind a start code, and the
  shape of the header accessors: a masked octet, or a masked 16-bit word in network order, of a
  payload that may be a null pointer.
\<close>

text \<open>The bytes \<open>PrefixXPS\<close> writes to a non-null buffer; \<open>*size\<close> is their number. The
  decoder's result is never null.\<close>

definition PrefixXPS :: "string \<Rightarrow> byte list" where
  "PrefixXPS xps = [0, 0, 0, 1] @ base64Decode (cstr xps) True"

lemma PrefixXPS_encode: "PrefixXPS (base64Encode xps) = [0, 0, 0, 1] @ xps"
  by (simp add: PrefixXPS_def b64.decode_cstr_encode)

lemma PrefixXPS_length: "length (PrefixXPS xps) \<le> 4 + 3 * (length xps div 4)"
  using base64Decode_length [of "cstr xps" True] cstr_length [of xps]
  by (auto simp: PrefixXPS_def intro: le_trans div_le_mono mult_le_mono)

text \<open>\<open>rtp_payload[i] & msk\<close>, and the value returned for a null payload.\<close>

definition masked_byte :: "u16 \<Rightarrow> nat \<Rightarrow> u16 \<Rightarrow> payload \<Rightarrow> ub + u16" where
  "masked_byte null_result i msk p =
     (case p of
        None \<Rightarrow> Inr null_result
      | Some d \<Rightarrow> ub_bind (rd d i) (\<lambda>b. Inr (ucast b AND msk)))"

text \<open>\<open>((rtp_payload[0] << 8) | rtp_payload[1]) & msk\<close>, and 0 for a null payload.\<close>

definition be16 :: "byte \<Rightarrow> byte \<Rightarrow> u16" where
  "be16 a b = push_bit 8 (ucast a) OR ucast b"

definition masked_word :: "u16 \<Rightarrow> payload \<Rightarrow> ub + u16" where
  "masked_word msk p =
     (case p of
        None \<Rightarrow> Inr 0
      | Some d \<Rightarrow> ub_bind (rd d 0) (\<lambda>a. ub_bind (rd d 1) (\<lambda>b. Inr (be16 a b AND msk))))"

lemma masked_byte_Some [simp]:
  "i < length d \<Longrightarrow> masked_byte e i m (Some d) = Inr (ucast (d ! i) AND m)"
  by (simp add: masked_byte_def)

lemma masked_word_Some [simp]: "masked_word m (Some (a # b # d)) = Inr (be16 a b AND m)"
  by (simp add: masked_word_def)

lemma byte_and_FF [simp]: "(b :: byte) AND 0xFF = b"
  by (rule byte_eqI) (simp_all add: bit_simps)

lemma unat_ucast_byte16: "unat (ucast (b :: byte) :: u16) = unat b"
  using unsigned_less [of b, where ?'a = nat]
  by (simp add: unsigned_ucast_eq take_bit_nat_eq_self)

text \<open>Two 16-bit words are equal when their bits are.\<close>

lemma upt_16: "[0..<16] = [0, 1, 2, 3, 4, 5, 6, 7, 8, 9, 10, 11, 12, 13, 14, 15]"
  by (simp add: upt_rec)

lemma u16_eqI:
  assumes "\<forall>n \<in> set [0, 1, 2, 3, 4, 5, 6, 7, 8, 9, 10, 11, 12, 13, 14, 15]. bit a n = bit b n"
  shows "a = (b :: u16)"
proof (rule bit_word_eqI)
  fix n assume "n < LENGTH(16)"
  then have "n \<in> set [0..<16]" by simp
  then show "bit a n = bit b n" using assms unfolding upt_16 by blast
qed

end
