(* ===== verification/Streams.thy ===== *)
theory Streams
  imports Prelude
begin

section \<open>\<open>std::stringstream\<close>\<close>

text \<open>
  The parts of the C++ string stream the code uses: the unread text, the end-of-file and
  failure flags, \<open><<\<close> of a string, \<open>>>\<close> of a word and of a number, \<open>clear()\<close> and
  \<open>str(s)\<close>. As the standard says, an extraction from a stream that is not good leaves its
  target unchanged, a number that does not fit is replaced by the nearest limit, and an
  insertion into a stream that has hit its end does nothing.
\<close>

record sstream =
  ss_buf :: string
  ss_eof :: bool
  ss_fail :: bool

definition ss_good :: "sstream \<Rightarrow> bool" where
  "ss_good s \<longleftrightarrow> \<not> ss_eof s \<and> \<not> ss_fail s"

definition ss_new :: "string \<Rightarrow> sstream" where
  "ss_new t = \<lparr>ss_buf = t, ss_eof = False, ss_fail = False\<rparr>"

definition ss_clear :: "sstream \<Rightarrow> sstream" where
  "ss_clear s = s\<lparr>ss_eof := False, ss_fail := False\<rparr>"

definition ss_str :: "string \<Rightarrow> sstream \<Rightarrow> sstream" where
  "ss_str t s = s\<lparr>ss_buf := t\<rparr>"

definition ss_put :: "string \<Rightarrow> sstream \<Rightarrow> sstream" where
  "ss_put t s = (if ss_good s then s\<lparr>ss_buf := ss_buf s @ t\<rparr> else s\<lparr>ss_fail := True\<rparr>)"

definition ss_get_num :: "int \<Rightarrow> int \<Rightarrow> int \<Rightarrow> sstream \<Rightarrow> int \<times> sstream" where
  "ss_get_num lo hi old s =
     (if \<not> ss_good s then (old, s\<lparr>ss_fail := True\<rparr>)
      else
        let r = skip_ws (ss_buf s) in
        if r = [] then (old, \<lparr>ss_buf = [], ss_eof = True, ss_fail = True\<rparr>)
        else
          let (neg, r1) = sign_of r; ds = take_digits r1; rest = drop (length ds) r1 in
          if ds = [] then (0, \<lparr>ss_buf = rest, ss_eof = (rest = []), ss_fail = True\<rparr>)
          else
            let v = (if neg then - int (digits_val 0 ds) else int (digits_val 0 ds)) in
            (clamp lo hi v,
             \<lparr>ss_buf = rest, ss_eof = (rest = []), ss_fail = (v < lo \<or> hi < v)\<rparr>))"

definition ss_get_int :: "int \<Rightarrow> sstream \<Rightarrow> int \<times> sstream" where
  "ss_get_int = ss_get_num (- (2 ^ 31)) (2 ^ 31 - 1)"

definition ss_get_long :: "int \<Rightarrow> sstream \<Rightarrow> int \<times> sstream" where
  "ss_get_long = ss_get_num (- (2 ^ 63)) (2 ^ 63 - 1)"

definition ss_get_word :: "string \<Rightarrow> sstream \<Rightarrow> string \<times> sstream" where
  "ss_get_word old s =
     (if \<not> ss_good s then (old, s\<lparr>ss_fail := True\<rparr>)
      else
        let r = skip_ws (ss_buf s) in
        if r = [] then (old, \<lparr>ss_buf = [], ss_eof = True, ss_fail = True\<rparr>)
        else
          let w = takeWhile (\<lambda>c. \<not> is_space c) r; rest = drop (length w) r in
          (w, \<lparr>ss_buf = rest, ss_eof = (rest = []), ss_fail = False\<rparr>))"

lemma ss_put_not_good [simp]: "\<not> ss_good s \<Longrightarrow> ss_buf (ss_put t s) = ss_buf s \<and> \<not> ss_good (ss_put t s)"
  by (simp add: ss_put_def ss_good_def)

text \<open>An extraction from a stream that has reached its end leaves the target alone.\<close>

lemma ss_get_num_not_good: "\<not> ss_good s \<Longrightarrow> fst (ss_get_num lo hi old s) = old"
  by (simp add: ss_get_num_def)

lemma ss_get_num_range:
  "lo \<le> hi \<Longrightarrow> lo \<le> old \<Longrightarrow> old \<le> hi \<Longrightarrow> lo \<le> 0 \<Longrightarrow> 0 \<le> hi \<Longrightarrow>
   lo \<le> fst (ss_get_num lo hi old s) \<and> fst (ss_get_num lo hi old s) \<le> hi"
  by (auto simp: ss_get_num_def clamp_def Let_def split: prod.splits)

text \<open>The digits of a fresh stream that holds nothing else are read back, and the stream is at
  its end.\<close>

lemma ss_get_num_digits:
  assumes ds: "\<forall>c \<in> set ds. is_digit c" "ds \<noteq> []" and range: "int (digits_val 0 ds) \<le> hi" "lo \<le> 0"
  shows "ss_get_num lo hi old (ss_new ds) =
    (int (digits_val 0 ds), \<lparr>ss_buf = [], ss_eof = True, ss_fail = False\<rparr>)"
proof -
  obtain c cs where d: "ds = c # cs" using ds(2) by (cases ds) auto
  have "skip_ws ds = ds" using ds(1) by (simp add: d skip_ws_def is_digit_not_space)
  moreover have "sign_of ds = (False, ds)"
    using ds(1) is_digit_not_sign by (simp add: d sign_of_def)
  moreover have "take_digits ds = ds"
    using ds(1) by (simp add: take_digits_def takeWhile_eq_all_conv)
  ultimately show ?thesis
    using assms by (auto simp: ss_get_num_def ss_new_def ss_good_def clamp_def)
qed

text \<open>\<open>>>\<close> of a word shortens the unread text unless it fails.\<close>

lemma ss_get_word_shorter:
  "ss_get_word old s = (w, s') \<Longrightarrow> \<not> ss_fail s' \<Longrightarrow> length (ss_buf s') < length (ss_buf s)"
proof -
  assume a: "ss_get_word old s = (w, s')" "\<not> ss_fail s'"
  then have g: "ss_good s" and ne: "skip_ws (ss_buf s) \<noteq> []"
    by (auto simp: ss_get_word_def Let_def split: if_splits)
  obtain c cs where r: "skip_ws (ss_buf s) = c # cs" using ne by (cases "skip_ws (ss_buf s)") auto
  have "\<not> is_space c" using r by (metis hd_dropWhile list.sel(1) ne skip_ws_def)
  moreover have "length (skip_ws (ss_buf s)) \<le> length (ss_buf s)"
    by (simp add: skip_ws_def length_dropWhile_le)
  ultimately show ?thesis
    using a(1) g r by (auto simp: ss_get_word_def Let_def)
qed

end
