(* ===== verification/Nalu_H264.thy ===== *)
theory Nalu_H264
  imports Nalu_Types Streams
begin

section \<open>H.264 NAL units (nalu_types.cpp, nalu_types_h264.cpp and their headers)\<close>

text \<open>
  \<open>H264TypeInterface\<close> and its six subclasses are the constructors of \<open>h264_type\<close>, their
  virtual methods functions by cases on it. A \<open>const uint8_t *\<close> that may be null is an
  optional byte list. The class \<open>NALUTypeBase_H264\<close> is the record \<open>h264\<close>; flags that its
  constructor does not write are \<open>None\<close>, and reading such a flag is \<open>Indeterminate\<close>.
\<close>

datatype h264_type = H264Base | STAP_A | STAP_B | MTAP_16 | MTAP_24 | FU_A | FU_B

definition STAP_A_ID :: byte where "STAP_A_ID = 0x18"
definition STAP_B_ID :: byte where "STAP_B_ID = 0x19"
definition MTAP_16_ID :: byte where "MTAP_16_ID = 0x1A"
definition MTAP_24_ID :: byte where "MTAP_24_ID = 0x1B"
definition FU_A_ID :: byte where "FU_A_ID = 0x1C"
definition FU_B_ID :: byte where "FU_B_ID = 0x1D"
definition FU_A_ERR :: u16 where "FU_A_ERR = 0xFF"

lemmas h264_ids =
  STAP_A_ID_def STAP_B_ID_def MTAP_16_ID_def MTAP_24_ID_def FU_A_ID_def FU_B_ID_def FU_A_ERR_def

subsection \<open>The type interface and its virtual methods\<close>

text \<open>The common shape of the three overrides of \<open>H264TypeInterfaceFU_A\<close>: error value when
  the payload is null or its indicator octet does not have the FU-A bits.\<close>

definition fu_a_field :: "nat \<Rightarrow> u16 \<Rightarrow> payload \<Rightarrow> ub + u16" where
  "fu_a_field i msk p =
     (case p of
        None \<Rightarrow> Inr FU_A_ERR
      | Some d \<Rightarrow> ub_bind (rd d 0) (\<lambda>b.
          if FU_A_ID \<noteq> b AND FU_A_ID then Inr FU_A_ERR else masked_byte FU_A_ERR i msk p))"

fun h264_ParseNALUHeader_F :: "h264_type \<Rightarrow> payload \<Rightarrow> ub + u16" where
  "h264_ParseNALUHeader_F FU_A p = fu_a_field 0 0x0080 p"
| "h264_ParseNALUHeader_F _ p = masked_byte 0 0 0x0080 p"

fun h264_ParseNALUHeader_NRI :: "h264_type \<Rightarrow> payload \<Rightarrow> ub + u16" where
  "h264_ParseNALUHeader_NRI FU_A p = fu_a_field 0 0x0060 p"
| "h264_ParseNALUHeader_NRI _ p = masked_byte 0 0 0x0060 p"

fun h264_ParseNALUHeader_Type :: "h264_type \<Rightarrow> payload \<Rightarrow> ub + u16" where
  "h264_ParseNALUHeader_Type FU_A p = fu_a_field 1 0x001F p"
| "h264_ParseNALUHeader_Type _ p = masked_byte 0 0 0x001F p"

definition id_bits :: "byte \<Rightarrow> payload \<Rightarrow> ub + bool" where
  "id_bits ident p =
     (case p of None \<Rightarrow> Inr False | Some d \<Rightarrow> ub_bind (rd d 0) (\<lambda>b. Inr (ident = b AND ident)))"

fun h264_IsPacketThisType :: "h264_type \<Rightarrow> payload \<Rightarrow> ub + bool" where
  "h264_IsPacketThisType STAP_A p = id_bits STAP_A_ID p"
| "h264_IsPacketThisType FU_A p = id_bits FU_A_ID p"
| "h264_IsPacketThisType _ p = Inr True"

text \<open>\<open>if(!IsPacketThisType(p)) return false; return p[1] & msk;\<close>\<close>

definition fu_a_flag :: "byte \<Rightarrow> payload \<Rightarrow> ub + bool" where
  "fu_a_flag msk p =
     ub_bind (h264_IsPacketThisType FU_A p) (\<lambda>this.
       if \<not> this then Inr False
       else case p of None \<Rightarrow> Inl NullDeref | Some d \<Rightarrow> ub_bind (rd d 1) (\<lambda>b. Inr (b AND msk \<noteq> 0)))"

fun h264_IsPacketStart :: "h264_type \<Rightarrow> payload \<Rightarrow> ub + bool" where
  "h264_IsPacketStart FU_A p = fu_a_flag 0x80 p"
| "h264_IsPacketStart _ p = Inr True"

fun h264_IsPacketEnd :: "h264_type \<Rightarrow> payload \<Rightarrow> ub + bool" where
  "h264_IsPacketEnd FU_A p = fu_a_flag 0x40 p"
| "h264_IsPacketEnd _ p = Inr True"

fun h264_IsPacketReserved :: "h264_type \<Rightarrow> payload \<Rightarrow> ub + bool" where
  "h264_IsPacketReserved FU_A p = fu_a_flag 0x20 p"
| "h264_IsPacketReserved _ p = Inr False"

fun h264_SkipHeaderSize :: "h264_type \<Rightarrow> nat" where
  "h264_SkipHeaderSize FU_A = 2"
| "h264_SkipHeaderSize _ = 1"

subsection \<open>The table of NAL unit types by packetization mode\<close>

definition NalUnitType_H264 :: "h264_type option list list" where
  "NalUnitType_H264 =
    [[None, Some H264Base, Some H264Base, Some H264Base,
      Some H264Base, Some H264Base, Some H264Base, Some H264Base,
      Some H264Base, Some H264Base, Some H264Base, Some H264Base,
      Some H264Base, None, None, None,
      None, None, None, None,
      None, None, None, None,
      None, None, None, None,
      None, None, None, None],
     [None, Some H264Base, Some H264Base, Some H264Base,
      Some H264Base, Some H264Base, Some H264Base, Some H264Base,
      Some H264Base, Some H264Base, Some H264Base, Some H264Base,
      Some H264Base, None, None, None,
      None, None, None, None,
      None, None, None, None,
      Some STAP_A, None, None, None,
      Some FU_A, None, None, None],
     [None, None, None, None,
      None, None, None, None,
      None, None, None, None,
      None, None, None, None,
      None, None, None, None,
      None, None, None, None,
      None, Some STAP_B, Some MTAP_16, Some MTAP_24,
      Some FU_A, Some FU_B, None, None]]"

definition IS_NALU_TYPE_VALID_H264 :: "int \<Rightarrow> bool" where
  "IS_NALU_TYPE_VALID_H264 N \<longleftrightarrow>
     (N \<ge> 1 \<and> N \<le> 12) \<or> N = uint STAP_A_ID \<or> N = uint STAP_B_ID \<or> N = uint MTAP_16_ID \<or>
     N = uint MTAP_24_ID \<or> N = uint FU_A_ID \<or> N = uint FU_B_ID"

definition IS_PACKET_MODE_VALID :: "int \<Rightarrow> bool" where
  "IS_PACKET_MODE_VALID P \<longleftrightarrow> P \<ge> 0 \<and> P \<le> 2"

definition h264_GetNaluRtpType :: "int \<Rightarrow> int \<Rightarrow> ub + h264_type option" where
  "h264_GetNaluRtpType packetization nalu_type_id =
     (if \<not> IS_NALU_TYPE_VALID_H264 nalu_type_id then Inr None
      else if packetization < 0 then Inl Overread
      else ub_bind (rd NalUnitType_H264 (nat packetization)) (\<lambda>row. rd row (nat nalu_type_id)))"

subsection \<open>The class \<open>NALUTypeBase_H264\<close>\<close>

record h264 =
  prefixParameterOnce :: bool
  SPS :: string
  PPS :: string
  Packetization :: int
  NALUType :: "h264_type option"
  EndFlag :: "bool option"
  StartFlag :: "bool option"

definition new_h264 :: h264 where
  "new_h264 =
     \<lparr>prefixParameterOnce = True, SPS = [], PPS = [], Packetization = 0, NALUType = None,
      EndFlag = None, StartFlag = None\<rparr>"

definition h264_Init :: "h264 \<Rightarrow> h264" where
  "h264_Init h = h\<lparr>prefixParameterOnce := True\<rparr>"

text \<open>The class's own header accessors (they do not dispatch on \<open>NALUType\<close>).\<close>

definition NALUTypeBase_H264_ParseNALUHeader_F :: "payload \<Rightarrow> ub + u16" where
  "NALUTypeBase_H264_ParseNALUHeader_F p = masked_byte 0 0 0x0080 p"

definition NALUTypeBase_H264_ParseNALUHeader_NRI :: "payload \<Rightarrow> ub + u16" where
  "NALUTypeBase_H264_ParseNALUHeader_NRI p = masked_byte 0 0 0x0060 p"

definition NALUTypeBase_H264_ParseNALUHeader_Type :: "payload \<Rightarrow> ub + u16" where
  "NALUTypeBase_H264_ParseNALUHeader_Type p = masked_byte 0 0 0x001F p"

definition NALUTypeBase_H264_IsPacketThisType :: "payload \<Rightarrow> ub + bool" where
  "NALUTypeBase_H264_IsPacketThisType p =
     ub_bind (NALUTypeBase_H264_ParseNALUHeader_Type p) (\<lambda>t. Inr (1 \<le> t \<and> t \<le> 12))"

text \<open>
  \<open>PrefixParameterOnce(buf, size)\<close>: what is appended to the buffer, \<open>None\<close> for a null
  result (the first parameter set may have been written by then), and the object.
\<close>

definition h264_PrefixParameterOnce :: "h264 \<Rightarrow> byte list \<times> bool \<times> h264" where
  "h264_PrefixParameterOnce h =
     (let sps = PrefixXPS (SPS h); pps = PrefixXPS (PPS h) in
      if length sps \<le> 4 then ([], False, h)
      else if length pps \<le> 4 then (sps, False, h)
      else (sps @ pps, True, h\<lparr>prefixParameterOnce := False\<rparr>))"

definition h264_ParseParaFromSDP :: "sdp_media_info \<Rightarrow> h264 \<Rightarrow> ub + h264" where
  "h264_ParseParaFromSDP info h =
     (case fmtMap info of
        [] \<Rightarrow> Inl NullDeref
      | (_, attrs) # _ \<Rightarrow>
          let h1 = (case smap_find attrs ATTR_SPS of None \<Rightarrow> h | Some s \<Rightarrow> h\<lparr>SPS := s\<rparr>);
              h2 = (case smap_find attrs ATTR_PPS of None \<Rightarrow> h1 | Some s \<Rightarrow> h1\<lparr>PPS := s\<rparr>);
              h3 = (case smap_find attrs PACK_MODE of None \<Rightarrow> h2
                    | Some s \<Rightarrow> h2\<lparr>Packetization := fst (ss_get_int (Packetization h2) (ss_new s))\<rparr>)
          in Inr h3)"

text \<open>\<open>ParsePacket(packet, size, EndFlagTmp)\<close>: the return code, the value stored through
  \<open>EndFlagTmp\<close> (if any), and the object.\<close>

definition h264_ParsePacket ::
    "h264 \<Rightarrow> payload \<Rightarrow> nat \<Rightarrow> bool \<Rightarrow> ub + (int \<times> bool option \<times> h264)" where
  "h264_ParsePacket h packet sz endp =
     (if packet = None \<or> \<not> endp then Inr (-1, None, h)
      else if \<not> IS_PACKET_MODE_VALID (Packetization h) then Inr (-2, None, h)
      else
        ub_bind (NALUTypeBase_H264_ParseNALUHeader_Type packet) (\<lambda>NT.
        ub_bind (h264_GetNaluRtpType (Packetization h) (uint NT)) (\<lambda>ty.
        let h1 = h\<lparr>NALUType := ty\<rparr> in
        case ty of
          None \<Rightarrow> Inr (-3, None, h1)
        | Some t \<Rightarrow>
            ub_bind (h264_IsPacketStart t packet) (\<lambda>st.
            ub_bind (h264_IsPacketEnd t packet) (\<lambda>en.
            Inr (0, Some en, h1\<lparr>StartFlag := Some st, EndFlag := Some en\<rparr>))))))"

text \<open>\<open>CopyData(buf, data, size)\<close>: the bytes written at \<open>buf\<close>; the result is their number.\<close>

definition h264_CopyData :: "h264 \<Rightarrow> bool \<Rightarrow> payload \<Rightarrow> nat \<Rightarrow> ub + byte list" where
  "h264_CopyData h bufp data sz =
     (case data of
        None \<Rightarrow> Inr []
      | Some d \<Rightarrow>
          if \<not> bufp then Inr []
          else case NALUType h of
            None \<Rightarrow> Inr []
          | Some t \<Rightarrow>
              ub_bind (h264_ParseNALUHeader_F t data) (\<lambda>f.
              ub_bind (h264_ParseNALUHeader_NRI t data) (\<lambda>nri.
              ub_bind (h264_ParseNALUHeader_Type t data) (\<lambda>ty.
              let NALUHeader = (ucast (f OR nri OR ty) :: byte) in
              case StartFlag h of
                None \<Rightarrow> Inl Indeterminate
              | Some st \<Rightarrow>
                  copy_tail (h264_SkipHeaderSize t)
                    (if st then [0, 0, 0, 1, NALUHeader AND 0xFF] else []) d sz))))"

subsection \<open>Header fields\<close>

text \<open>The three fields of a one-byte header, put together again.\<close>

lemma h264_header_fields:
  "(ucast ((ucast b AND 0x0080) OR (ucast b AND 0x0060) OR (ucast b AND 0x001F) :: u16) :: byte) = b"
  by (rule byte_eqI) (simp_all add: bit_simps)

lemma h264_header_fu:
  "(ucast ((ucast a AND 0x0080) OR (ucast a AND 0x0060) OR (ucast b AND 0x001F) :: u16) :: byte)
     = (a AND 0xE0) OR (b AND 0x1F)"
  by (rule byte_eqI) (simp_all add: bit_simps)

text \<open>The NAL unit type as the table is indexed by it.\<close>

definition h264_nal_type :: "byte \<Rightarrow> nat" where
  "h264_nal_type b = unat (b AND 0x1F)"

lemma h264_nal_type_less: "h264_nal_type b < 32"
proof -
  have "b AND 0x1F = take_bit 5 b" by (simp add: take_bit_eq_mask mask_numeral)
  then show ?thesis
    using take_bit_nat_less_exp [of 5 "unat b"]
    by (simp add: h264_nal_type_def unsigned_take_bit_eq)
qed

lemma unat_ucast_1F: "unat ((ucast b :: u16) AND 0x001F) = h264_nal_type b"
proof -
  have "(ucast b :: u16) AND 0x001F = ucast (b AND 0x1F)"
    by (simp add: unsigned_and_eq)
  then show ?thesis
    by (simp only: h264_nal_type_def unat_ucast_byte16)
qed

lemma uint_ucast_1F: "uint ((ucast b :: u16) AND 0x001F) = int (h264_nal_type b)"
  by (metis unat_ucast_1F uint_nat)

lemma h264_nal_type_eq_iff: "h264_nal_type b = h264_nal_type c \<longleftrightarrow> b AND 0x1F = c AND 0x1F"
  by (simp add: h264_nal_type_def word_unat_eq_iff)

subsection \<open>The table\<close>

lemma h264_valid_types:
  "IS_NALU_TYPE_VALID_H264 (int n) \<longleftrightarrow> n \<in> {1..12} \<or> n \<in> {24..29}"
  by (auto simp: IS_NALU_TYPE_VALID_H264_def h264_ids)

text \<open>A type id is at most 29, so a lookup with a valid packetization mode stays in the table.\<close>

lemma h264_GetNaluRtpType_defined:
  assumes "IS_PACKET_MODE_VALID pm" "n < 32"
  shows "defined (h264_GetNaluRtpType pm (int n))"
proof -
  obtain k where k: "pm = int k" "k < 3"
    using assms(1) by (cases pm) (auto simp: IS_PACKET_MODE_VALID_def)
  then have "k = 0 \<or> k = 1 \<or> k = 2" by auto
  with k assms(2) show ?thesis
    by (auto simp: h264_GetNaluRtpType_def NalUnitType_H264_def)
qed

lemma upt_1_12: "[1..<13] = [1, 2, 3, 4, 5, 6, 7, 8, 9, 10, 11, 12]"
  by (simp add: upt_rec)

lemma nat_1_12: "n \<in> {1..12} \<longleftrightarrow> n \<in> set [1, 2, 3, 4, 5, 6, 7, 8, 9, 10, 11, 12 :: nat]"
  unfolding upt_1_12 [symmetric] by auto

lemma h264_GetNaluRtpType_single:
  assumes "n \<in> {1..12}" "pm = 0 \<or> pm = 1"
  shows "h264_GetNaluRtpType pm (int n) = Inr (Some H264Base)"
proof -
  have "\<forall>n \<in> {1..12}. rd (NalUnitType_H264 ! 0) n = Inr (Some H264Base)"
       "\<forall>n \<in> {1..12}. rd (NalUnitType_H264 ! 1) n = Inr (Some H264Base)"
    by (simp_all only: nat_1_12 Ball_def NalUnitType_H264_def) (auto simp: numeral_nat)
  moreover have "length NalUnitType_H264 = 3" by (simp add: NalUnitType_H264_def)
  ultimately show ?thesis
    using assms by (auto simp: h264_GetNaluRtpType_def h264_valid_types)
qed

lemma h264_GetNaluRtpType_fu_a:
  "pm = 1 \<or> pm = 2 \<Longrightarrow> h264_GetNaluRtpType pm 28 = Inr (Some FU_A)"
  using h264_valid_types [of 28]
  by (auto simp: h264_GetNaluRtpType_def NalUnitType_H264_def numeral_nat)

lemma h264_GetNaluRtpType_stap_a: "h264_GetNaluRtpType 1 24 = Inr (Some STAP_A)"
  using h264_valid_types [of 24]
  by (auto simp: h264_GetNaluRtpType_def NalUnitType_H264_def numeral_nat)

lemma h264_GetNaluRtpType_invalid:
  "n \<notin> {1..12} \<Longrightarrow> n \<notin> {24..29} \<Longrightarrow> h264_GetNaluRtpType pm (int n) = Inr None"
  by (simp add: h264_GetNaluRtpType_def h264_valid_types del: atLeastAtMost_iff)

text \<open>The type object for \<open>FU_A\<close> is found only when the indicator octet has type 28.\<close>

lemma h264_GetNaluRtpType_only_fu_a:
  assumes "h264_GetNaluRtpType pm (int n) = Inr (Some FU_A)"
  shows "n = 28"
proof (rule ccontr)
  assume ne: "n \<noteq> 28"
  obtain k where k: "pm = int k" "k < 3" "n < 32"
    using assms
    by (cases pm)
       (auto simp: h264_GetNaluRtpType_def rd_def h264_valid_types NalUnitType_H264_def ub_bind_eq_Inr
             split: if_splits)
  have "\<forall>k < 3. \<forall>n < 32. n \<noteq> 28 \<longrightarrow> NalUnitType_H264 ! k ! n \<noteq> Some FU_A"
    by code_simp
  with k ne assms show False
    by (auto simp: h264_GetNaluRtpType_def rd_def ub_bind_eq_Inr split: if_splits)
qed

subsection \<open>Parsing a payload\<close>

lemma h264_ParsePacket_eq:
  assumes "IS_PACKET_MODE_VALID (Packetization h)"
  shows "h264_ParsePacket h (Some (b # p)) n True =
    ub_bind (h264_GetNaluRtpType (Packetization h) (int (h264_nal_type b))) (\<lambda>ty.
      case ty of
        None \<Rightarrow> Inr (-3, None, h\<lparr>NALUType := None\<rparr>)
      | Some t \<Rightarrow>
          ub_bind (h264_IsPacketStart t (Some (b # p))) (\<lambda>st.
          ub_bind (h264_IsPacketEnd t (Some (b # p))) (\<lambda>en.
            Inr (0, Some en, h\<lparr>NALUType := Some t, StartFlag := Some st, EndFlag := Some en\<rparr>))))"
  using assms
  by (simp add: h264_ParsePacket_def NALUTypeBase_H264_ParseNALUHeader_Type_def uint_ucast_1F Let_def
      cong: option.case_cong)

lemma fu_a_mask_type: "b AND 0x1F = 0x1C \<Longrightarrow> b AND FU_A_ID = FU_A_ID"
proof -
  assume "b AND 0x1F = 0x1C"
  then have "(b AND 0x1F) AND 0x1C = (0x1C :: byte)" by simp
  then show ?thesis by (simp add: FU_A_ID_def and.assoc)
qed

lemma h264_fu_a_type: "h264_nal_type b = 28 \<longleftrightarrow> b AND 0x1F = 0x1C"
  using h264_nal_type_eq_iff [of b "0x1C"] by (simp add: h264_nal_type_def)

lemma fu_a_flag_eq:
  "b AND 0x1F = 0x1C \<Longrightarrow> fu_a_flag m (Some (b # f # p)) = Inr (f AND m \<noteq> 0)"
  using fu_a_mask_type [of b] by (simp add: fu_a_flag_def id_bits_def)

lemma h264_flags_simple:
  "t \<noteq> FU_A \<Longrightarrow> h264_IsPacketStart t p = Inr True"
  "t \<noteq> FU_A \<Longrightarrow> h264_IsPacketEnd t p = Inr True"
  by (cases t; simp)+

text \<open>The object between packets: the flags are written as soon as the type is known.\<close>

definition h264_inv :: "h264 \<Rightarrow> bool" where
  "h264_inv h \<longleftrightarrow> (NALUType h \<noteq> None \<longrightarrow> StartFlag h \<noteq> None \<and> EndFlag h \<noteq> None)"

lemma new_h264_inv: "h264_inv new_h264"
  by (simp add: h264_inv_def new_h264_def)

lemma h264_ParsePacket_inv:
  "h264_ParsePacket h p n endp = Inr (rc, e, h') \<Longrightarrow> h264_inv h \<Longrightarrow> h264_inv h'"
  by (auto simp: h264_ParsePacket_def h264_inv_def ub_bind_eq_Inr Let_def
        split: if_splits option.splits)

lemma h264_ParsePacket_total:
  assumes "2 \<le> length p"
  shows "\<exists>rc e h'. h264_ParsePacket h (Some p) n True = Inr (rc, e, h')"
proof (cases "IS_PACKET_MODE_VALID (Packetization h)")
  case True
  obtain b f r where p: "p = b # f # r"
    using assms by (cases p rule: list.exhaust; cases "tl p") auto
  obtain ty where ty: "h264_GetNaluRtpType (Packetization h) (int (h264_nal_type b)) = Inr ty"
    using h264_GetNaluRtpType_defined [OF True h264_nal_type_less] by (auto simp: defined_iff)
  show ?thesis
  proof (cases "ty = Some FU_A")
    case fu: True
    then have "b AND 0x1F = 0x1C"
      using ty h264_GetNaluRtpType_only_fu_a h264_fu_a_type by blast
    then show ?thesis
      by (simp add: p h264_ParsePacket_eq [OF True] ty fu fu_a_flag_eq)
  next
    case False
    then show ?thesis
      by (cases ty) (simp_all add: p h264_ParsePacket_eq [OF True] ty h264_flags_simple)
  qed
qed (simp add: h264_ParsePacket_def)

subsection \<open>Copying a payload\<close>

lemma h264_header_defined:
  assumes "t \<noteq> FU_A"
  shows "h264_ParseNALUHeader_F t (Some (b # p)) = Inr (ucast b AND 0x80)"
    and "h264_ParseNALUHeader_NRI t (Some (b # p)) = Inr (ucast b AND 0x60)"
    and "h264_ParseNALUHeader_Type t (Some (b # p)) = Inr (ucast b AND 0x1F)"
  using assms by (cases t; simp)+

lemma fu_a_field_eq:
  "b AND 0x1F = 0x1C \<Longrightarrow> i < Suc (Suc (length p)) \<Longrightarrow>
   fu_a_field i m (Some (b # f # p)) = Inr (ucast ((b # f # p) ! i) AND m)"
  using fu_a_mask_type [of b] by (simp add: fu_a_field_def)

lemma h264_skip_le: "h264_SkipHeaderSize t \<le> 2" "1 \<le> h264_SkipHeaderSize t"
  by (cases t; simp)+

lemma h264_CopyData_simple:
  assumes "NALUType h = Some t" "t \<noteq> FU_A" "StartFlag h = Some True"
  shows "h264_CopyData h True (Some (b # p)) (Suc (length p)) = Inr ([0, 0, 0, 1] @ b # p)"
  using assms h264_header_fields [of b]
  by (cases t) (simp_all add: h264_CopyData_def Let_def h264_header_defined)

lemma h264_CopyData_fu_a:
  assumes "NALUType h = Some FU_A" "StartFlag h = Some st" "b AND 0x1F = 0x1C"
  shows "h264_CopyData h True (Some (b # f # p)) (length p + 2) =
    Inr ((if st then [0, 0, 0, 1, (b AND 0xE0) OR (f AND 0x1F)] else []) @ p)"
  using assms h264_header_fu [of b f]
  by (simp add: h264_CopyData_def Let_def fu_a_field_eq)

text \<open>\<open>CopyData\<close> writes up to four bytes more than the payload it is given.\<close>

lemma h264_CopyData_tail:
  assumes "h264_CopyData h bufp q n = Inr out"
  shows "out = [] \<or> (\<exists>t prefix d. length prefix \<le> 5 \<and> copy_tail (h264_SkipHeaderSize t) prefix d n = Inr out)"
proof (cases "q = None \<or> \<not> bufp \<or> NALUType h = None")
  case True
  then show ?thesis
    using assms by (auto simp: h264_CopyData_def split: option.splits)
next
  case False
  then obtain d t where d: "q = Some d" "bufp" "NALUType h = Some t" by auto
  with assms obtain hdr st where
    "copy_tail (h264_SkipHeaderSize t) (if st then [0, 0, 0, 1, hdr] else []) d n = Inr out"
    by (auto simp: h264_CopyData_def ub_bind_eq_Inr Let_def split: option.splits)
  then show ?thesis
    by (intro disjI2 exI [of _ t] exI [of _ "if st then [0, 0, 0, 1, hdr] else []"] exI [of _ d]) simp
qed

lemma h264_CopyData_bound:
  assumes "h264_CopyData h bufp q n = Inr out"
  shows "length out \<le> n + 4"
proof (cases "out = []")
  case False
  then obtain t prefix d where "length prefix \<le> 5" "copy_tail (h264_SkipHeaderSize t) prefix d n = Inr out"
    using h264_CopyData_tail [OF assms] by auto
  then show ?thesis
    using copy_tail_length [of _ prefix d n out] h264_skip_le(2) [of t] by fastforce
qed simp

lemma h264_ParsePacket_ok:
  assumes "h264_ParsePacket h (Some (b # p)) n True = Inr (0, e, h')"
  shows "\<exists>t st en. NALUType h' = Some t \<and> StartFlag h' = Some st \<and> e = Some en \<and>
    (if t = FU_A then b AND 0x1F = 0x1C else st \<and> en)"
proof -
  have pm: "IS_PACKET_MODE_VALID (Packetization h)"
    using assms by (auto simp: h264_ParsePacket_def split: if_splits)
  show ?thesis
    using assms h264_GetNaluRtpType_only_fu_a [of "Packetization h" "h264_nal_type b"]
    by (auto simp: h264_ParsePacket_eq [OF pm] ub_bind_eq_Inr h264_fu_a_type split: option.splits)
       (metis h264_flags_simple Inr_inject)
qed

lemma h264_CopyData_defined:
  assumes "2 \<le> length p" "h264_ParsePacket h (Some p) (length p) True = Inr (0, e, h')"
  shows "defined (h264_CopyData h' True (Some p) (length p))"
proof -
  obtain b f r where p: "p = b # f # r"
    using assms by (cases p rule: list.exhaust; cases "tl p") auto
  obtain t st en where t: "NALUType h' = Some t" "StartFlag h' = Some st"
      "if t = FU_A then b AND 0x1F = 0x1C else st \<and> en"
    using h264_ParsePacket_ok assms(2) unfolding p by blast
  show ?thesis
  proof (cases "t = FU_A")
    case True
    then show ?thesis using t h264_CopyData_fu_a [of h' st b f r] by (simp add: p)
  next
    case False
    then show ?thesis using t h264_CopyData_simple [of h' t b "f # r"] by (simp add: p)
  qed
qed

interpretation h264: depacketizer h264_ParsePacket h264_CopyData h264_inv 2
proof
  fix h p assume "h264_inv h" "2 \<le> length (p :: byte list)"
  then show "\<exists>rc e s'. h264_ParsePacket h (Some p) (length p) True = Inr (rc, e, s') \<and> h264_inv s'"
    using h264_ParsePacket_total h264_ParsePacket_inv by blast
qed (auto intro: h264_CopyData_defined h264_CopyData_bound)

subsection \<open>Fragmentation of RFC 6184, and its inverse\<close>

text \<open>
  The specification: a sender splits the NAL unit \<open>hdr # concat chunks\<close> into FU-A payloads
  (RFC 6184, 5.8). Every payload carries the indicator octet (F and NRI of the header, type
  28) and the FU header (start bit, end bit, type of the header).
\<close>

definition fu_a_indicator :: "byte \<Rightarrow> byte" where
  "fu_a_indicator hdr = (hdr AND 0xE0) OR 0x1C"

definition fu_a_fu_header :: "bool \<Rightarrow> bool \<Rightarrow> byte \<Rightarrow> byte" where
  "fu_a_fu_header st en hdr =
     (if st then 0x80 else 0) OR (if en then 0x40 else 0) OR (hdr AND 0x1F)"

fun fu_a_packets :: "byte \<Rightarrow> bool \<Rightarrow> byte list list \<Rightarrow> byte list list" where
  "fu_a_packets hdr st [] = []"
| "fu_a_packets hdr st [c] = [fu_a_indicator hdr # fu_a_fu_header st True hdr # c]"
| "fu_a_packets hdr st (c # c' # cs) =
     (fu_a_indicator hdr # fu_a_fu_header st False hdr # c) # fu_a_packets hdr False (c' # cs)"

lemma fu_a_indicator_type: "fu_a_indicator hdr AND 0x1F = 0x1C"
  by (rule byte_eqI) (simp_all add: fu_a_indicator_def bit_simps)

lemma fu_a_header_back:
  "(fu_a_indicator hdr AND 0xE0) OR (fu_a_fu_header st en hdr AND 0x1F) = hdr"
  by (rule byte_eqI; cases st; cases en)
     (simp_all add: fu_a_indicator_def fu_a_fu_header_def bit_simps)

lemma fu_a_start_bit: "fu_a_fu_header st en hdr AND 0x80 \<noteq> 0 \<longleftrightarrow> st"
proof -
  have "fu_a_fu_header st en hdr AND 0x80 = (if st then 0x80 else 0)"
    by (rule byte_eqI; cases st; cases en) (simp_all add: fu_a_fu_header_def bit_simps)
  then show ?thesis by simp
qed

lemma fu_a_end_bit: "fu_a_fu_header st en hdr AND 0x40 \<noteq> 0 \<longleftrightarrow> en"
proof -
  have "fu_a_fu_header st en hdr AND 0x40 = (if en then 0x40 else 0)"
    by (rule byte_eqI; cases st; cases en) (simp_all add: fu_a_fu_header_def bit_simps)
  then show ?thesis by simp
qed

lemma h264_fu_a_step:
  fixes st en :: bool and hdr :: byte and c :: "byte list"
  assumes "Packetization h = 1 \<or> Packetization h = 2"
  defines "h' \<equiv> h\<lparr>NALUType := Some FU_A, StartFlag := Some st, EndFlag := Some en\<rparr>"
    and "p \<equiv> fu_a_indicator hdr # fu_a_fu_header st en hdr # c"
  shows "h264_ParsePacket h (Some p) (length p) True = Inr (0, Some en, h')"
    and "h264_CopyData h' True (Some p) (length p) =
      Inr ((if st then [0, 0, 0, 1, hdr] else []) @ c)"
proof -
  have pm: "IS_PACKET_MODE_VALID (Packetization h)"
    using assms(1) by (auto simp: IS_PACKET_MODE_VALID_def)
  have ty: "h264_nal_type (fu_a_indicator hdr) = 28"
    by (simp add: h264_fu_a_type fu_a_indicator_type)
  show "h264_ParsePacket h (Some p) (length p) True = Inr (0, Some en, h')"
    using h264_GetNaluRtpType_fu_a [OF assms(1)] fu_a_start_bit fu_a_end_bit
    by (simp add: p_def h'_def h264_ParsePacket_eq [OF pm] ty fu_a_flag_eq fu_a_indicator_type)
  show "h264_CopyData h' True (Some p) (length p) =
      Inr ((if st then [0, 0, 0, 1, hdr] else []) @ c)"
    using h264_CopyData_fu_a [of h' st "fu_a_indicator hdr" "fu_a_fu_header st en hdr" c]
    by (simp add: h'_def p_def fu_a_indicator_type fu_a_header_back)
qed

lemma h264_fu_a_packets:
  assumes "Packetization h = 1 \<or> Packetization h = 2" "chunks \<noteq> []"
  shows "\<exists>h'. frame_of h264_ParsePacket h264_CopyData h (fu_a_packets hdr st chunks) =
    Inr ((if st then [0, 0, 0, 1, hdr] else []) @ concat chunks, True, h')"
  using assms
proof (induction hdr st chunks arbitrary: h rule: fu_a_packets.induct)
  case (2 hdr st c)
  then show ?case
    using h264_fu_a_step [where h = h and st = st and en = True and hdr = hdr and c = c] by simp
next
  case (3 hdr st c c' cs)
  let ?h = "h\<lparr>NALUType := Some FU_A, StartFlag := Some st, EndFlag := Some False\<rparr>"
  obtain h' where "frame_of h264_ParsePacket h264_CopyData ?h (fu_a_packets hdr False (c' # cs)) =
      Inr (concat (c' # cs), True, h')"
    using "3.IH" [of ?h] "3.prems" by auto
  then show ?case
    using h264_fu_a_step [where h = h and st = st and en = False and hdr = hdr and c = c] "3.prems" by simp
qed simp

subsection \<open>Properties\<close>

text \<open>C1: the receive loop undoes FU-A fragmentation: in packetization modes 1 and 2 the
  payloads of a fragmented NAL unit, however it was split, give the start code, the original
  header octet and the whole body, and the frame is complete exactly at the last of them.\<close>

theorem h264_fu_a_reassembly:
  assumes "Packetization h = 1 \<or> Packetization h = 2" "chunks \<noteq> []"
  shows "\<exists>h'. frame_of h264_ParsePacket h264_CopyData h (fu_a_packets hdr True chunks) =
    Inr ([0, 0, 0, 1] @ hdr # concat chunks, True, h')"
  using h264_fu_a_packets [OF assms, of hdr True] by simp

theorem h264_fu_a_reassembly_witness:
  "\<exists>h'. frame_of h264_ParsePacket h264_CopyData (new_h264\<lparr>Packetization := 1\<rparr>)
     (fu_a_packets 0x65 True [[1, 2], [3], [4, 5]]) = Inr ([0, 0, 0, 1, 0x65, 1, 2, 3, 4, 5], True, h')"
  using h264_fu_a_reassembly [of "new_h264\<lparr>Packetization := 1\<rparr>" "[[1, 2], [3], [4, 5]]" "0x65"]
  by simp

text \<open>
  a payload that is itself a NAL unit (type 1 to 12, modes 0 and 1) becomes one
  complete frame, the start code followed by the payload unchanged.\<close>

theorem h264_single_nalu:
  assumes "Packetization h = 0 \<or> Packetization h = 1" "h264_nal_type b \<in> {1..12}"
  shows "\<exists>h'. frame_of h264_ParsePacket h264_CopyData h ((b # p) # ps) =
    Inr ([0, 0, 0, 1] @ b # p, True, h')"
proof -
  let ?h = "h\<lparr>NALUType := Some H264Base, StartFlag := Some True, EndFlag := Some True\<rparr>"
  have "h264_ParsePacket h (Some (b # p)) (length (b # p)) True = Inr (0, Some True, ?h)"
    using assms by (auto simp: IS_PACKET_MODE_VALID_def h264_ParsePacket_eq h264_GetNaluRtpType_single
        simp del: atLeastAtMost_iff)
  moreover have "h264_CopyData ?h True (Some (b # p)) (length (b # p)) = Inr ([0, 0, 0, 1] @ b # p)"
    using h264_CopyData_simple [of ?h H264Base b p] by simp
  ultimately have "frame_of h264_ParsePacket h264_CopyData h ((b # p) # ps) =
      Inr ([0, 0, 0, 1] @ b # p, True, ?h)"
    by (rule h264.frame_of_single)
  then show ?thesis by blast
qed

theorem h264_single_nalu_witness:
  "\<exists>h'. frame_of h264_ParsePacket h264_CopyData new_h264 [[0x67, 0x42, 0x1E]] =
     Inr ([0, 0, 0, 1, 0x67, 0x42, 0x1E], True, h')"
  using h264_single_nalu [of new_h264 "0x67" "[0x42, 0x1E]" "[]"]
  by (simp add: new_h264_def h264_nal_type_def)

text \<open>the aggregation packet STAP-A is not split into its NAL units: \<open>CopyData\<close> emits
  one start code and then the aggregation header, the 16-bit sizes and the units as they are.\<close>

theorem h264_stap_a_not_split:
  assumes "Packetization h = 1" "h264_nal_type b = 24"
  shows "\<exists>h'. frame_of h264_ParsePacket h264_CopyData h [b # p] = Inr ([0, 0, 0, 1] @ b # p, True, h')"
proof -
  let ?h = "h\<lparr>NALUType := Some STAP_A, StartFlag := Some True, EndFlag := Some True\<rparr>"
  have "h264_ParsePacket h (Some (b # p)) (length (b # p)) True = Inr (0, Some True, ?h)"
    using assms
    by (simp add: IS_PACKET_MODE_VALID_def h264_ParsePacket_eq h264_GetNaluRtpType_stap_a)
  moreover have "h264_CopyData ?h True (Some (b # p)) (length (b # p)) = Inr ([0, 0, 0, 1] @ b # p)"
    using h264_CopyData_simple [of ?h STAP_A b p] by simp
  ultimately show ?thesis
    using h264.frame_of_single by blast
qed

theorem h264_stap_a_not_split_witness:
  "\<exists>h'. frame_of h264_ParsePacket h264_CopyData (new_h264\<lparr>Packetization := 1\<rparr>)
     [[0x18, 0, 1, 0x67, 0, 1, 0x68]] = Inr ([0, 0, 0, 1, 0x18, 0, 1, 0x67, 0, 1, 0x68], True, h')"
  using h264_stap_a_not_split [of "new_h264\<lparr>Packetization := 1\<rparr>" "0x18" "[0, 1, 0x67, 0, 1, 0x68]"]
  by (simp add: h264_nal_type_def)

text \<open>C5: when the SDP description carries the parameter sets in base64, the first frame starts
  with exactly the two sets, each after a start code, and the flag that asks for them is cleared,
  so that later frames have none.\<close>

theorem h264_parameter_sets_once:
  assumes "smap_find attrs ATTR_SPS = Some (base64Encode sps)" "sps \<noteq> []"
    and "smap_find attrs ATTR_PPS = Some (base64Encode pps)" "pps \<noteq> []"
    and "fmtMap info = (pt, attrs) # rest"
  shows "\<exists>h'. h264_ParseParaFromSDP info h = Inr h' \<and>
    h264_PrefixParameterOnce h' =
      ([0, 0, 0, 1] @ sps @ [0, 0, 0, 1] @ pps, True, h'\<lparr>prefixParameterOnce := False\<rparr>)"
  using assms
  by (simp add: h264_ParseParaFromSDP_def h264_PrefixParameterOnce_def PrefixXPS_encode Let_def
      split: option.split)

theorem h264_parameter_sets_once_witness:
  "\<exists>h'. h264_ParseParaFromSDP (empty_media_info\<lparr>fmtMap :=
       [(96, [(ATTR_SPS, base64Encode [0x67, 0x42]), (ATTR_PPS, base64Encode [0x68])])]\<rparr>) new_h264 = Inr h' \<and>
     h264_PrefixParameterOnce h' =
      ([0, 0, 0, 1, 0x67, 0x42, 0, 0, 0, 1, 0x68], True, h'\<lparr>prefixParameterOnce := False\<rparr>)"
  using h264_parameter_sets_once [of "[(ATTR_SPS, base64Encode [0x67, 0x42]), (ATTR_PPS, base64Encode [0x68])]"
      "[0x67, 0x42]" "[0x68]" "empty_media_info\<lparr>fmtMap :=
       [(96, [(ATTR_SPS, base64Encode [0x67, 0x42]), (ATTR_PPS, base64Encode [0x68])])]\<rparr>" 96 "[]" new_h264]
  by simp

text \<open>
  for every packetization mode and every state the constructor or a former packet can
  leave, payloads of two or more bytes are handled without undefined behaviour, and the frame is
  at most four bytes per payload longer than the payloads.\<close>

theorem h264_no_undefined_behaviour:
  assumes "h264_inv h" "\<forall>p \<in> set ps. 2 \<le> length p"
  shows "\<exists>out whole h'. frame_of h264_ParsePacket h264_CopyData h ps = Inr (out, whole, h') \<and>
    h264_inv h' \<and> length out \<le> sum_list (map length ps) + 4 * length ps"
  using h264.frame_of_safe [OF assms] h264.frame_of_bound by blast

theorem h264_no_undefined_behaviour_witness:
  "\<exists>out whole h'. frame_of h264_ParsePacket h264_CopyData new_h264 [[0x7C, 0x85], [0x67, 1, 2]] =
     Inr (out, whole, h') \<and> h264_inv h' \<and> length out \<le> 13"
  using h264_no_undefined_behaviour [of new_h264 "[[0x7C, 0x85], [0x67, 1, 2]]"] new_h264_inv
  by simp

end
