(* ===== verification/Nalu_H265.thy ===== *)
theory Nalu_H265
  imports Nalu_Types
begin

section \<open>H.265 NAL units (nalu_types_h265.cpp, nalu_types_h265.h)\<close>

text \<open>
  \<open>H265TypeInterface\<close> and its subclasses \<open>APs\<close> and \<open>FUs\<close> are the constructors of
  \<open>h265_type\<close>; the class \<open>NALUTypeBase_H265\<close> is the record \<open>h265\<close>. Header fields are kept
  in place, as 16-bit masks of the two-octet header.
\<close>

datatype h265_type = H265Base | APs | FUs

definition NAL_UNIT_TYPE_BIT_NUM :: nat where "NAL_UNIT_TYPE_BIT_NUM = 6"
definition NUH_LAYER_ID_BIT_NUM :: nat where "NUH_LAYER_ID_BIT_NUM = 6"
definition NUH_TEMPORAL_ID_PLUS1_BIT_NUM :: nat where "NUH_TEMPORAL_ID_PLUS1_BIT_NUM = 3"
definition FUs_H265_ERR :: u16 where "FUs_H265_ERR = 0xFFFF"
definition APs_ID_H265 :: u16 where "APs_ID_H265 = 0x30"
definition FUs_ID_H265 :: u16 where "FUs_ID_H265 = 0x31"

definition type_shift :: nat where
  "type_shift = NUH_LAYER_ID_BIT_NUM + NUH_TEMPORAL_ID_PLUS1_BIT_NUM"

lemma type_shift_9 [simp]: "type_shift = 9"
  by (simp add: type_shift_def NUH_LAYER_ID_BIT_NUM_def NUH_TEMPORAL_ID_PLUS1_BIT_NUM_def)

subsection \<open>The type interface and its virtual methods\<close>

definition H265Base_ParseNALUHeader_Type :: "payload \<Rightarrow> ub + u16" where
  "H265Base_ParseNALUHeader_Type p = masked_word 0x7E00 p"

definition h265_ParseNALUHeader_F :: "h265_type \<Rightarrow> payload \<Rightarrow> ub + u16" where
  "h265_ParseNALUHeader_F t p = masked_word 0x8000 p"

definition h265_ParseNALUHeader_NRI :: "h265_type \<Rightarrow> payload \<Rightarrow> ub + u16" where
  "h265_ParseNALUHeader_NRI t p = masked_byte 0 0 0x0060 p"

fun h265_ParseNALUHeader_Type :: "h265_type \<Rightarrow> payload \<Rightarrow> ub + u16" where
  "h265_ParseNALUHeader_Type FUs p =
     (case p of
        None \<Rightarrow> Inr FUs_H265_ERR
      | Some d \<Rightarrow> ub_bind (rd d 2) (\<lambda>b. Inr (push_bit type_shift (ucast b AND 0x3F))))"
| "h265_ParseNALUHeader_Type _ p = H265Base_ParseNALUHeader_Type p"

definition h265_ParseNALUHeader_Layer_ID :: "h265_type \<Rightarrow> payload \<Rightarrow> ub + u16" where
  "h265_ParseNALUHeader_Layer_ID t p = masked_word 0x01F8 p"

definition h265_ParseNALUHeader_Temp_ID_Plus_1 :: "h265_type \<Rightarrow> payload \<Rightarrow> ub + u16" where
  "h265_ParseNALUHeader_Temp_ID_Plus_1 t p = masked_word 0x0007 p"

fun h265_IsPacketThisType :: "h265_type \<Rightarrow> payload \<Rightarrow> ub + bool" where
  "h265_IsPacketThisType FUs p =
     (if p = None then Inr False
      else ub_bind (H265Base_ParseNALUHeader_Type p) (\<lambda>t. Inr (drop_bit type_shift t = FUs_ID_H265)))"
| "h265_IsPacketThisType _ p = Inr True"

definition fus_flag :: "byte \<Rightarrow> payload \<Rightarrow> ub + bool" where
  "fus_flag msk p =
     ub_bind (h265_IsPacketThisType FUs p) (\<lambda>this.
       if \<not> this then Inr False
       else case p of None \<Rightarrow> Inl NullDeref | Some d \<Rightarrow> ub_bind (rd d 2) (\<lambda>b. Inr (b AND msk \<noteq> 0)))"

fun h265_IsPacketStart :: "h265_type \<Rightarrow> payload \<Rightarrow> ub + bool" where
  "h265_IsPacketStart FUs p = fus_flag 0x80 p"
| "h265_IsPacketStart _ p = Inr True"

fun h265_IsPacketEnd :: "h265_type \<Rightarrow> payload \<Rightarrow> ub + bool" where
  "h265_IsPacketEnd FUs p = fus_flag 0x40 p"
| "h265_IsPacketEnd _ p = Inr True"

definition h265_IsPacketReserved :: "h265_type \<Rightarrow> payload \<Rightarrow> ub + bool" where
  "h265_IsPacketReserved t p = Inr False"

fun h265_SkipHeaderSize :: "h265_type \<Rightarrow> nat" where
  "h265_SkipHeaderSize FUs = 3"
| "h265_SkipHeaderSize _ = 2"

subsection \<open>The table of NAL unit types\<close>

definition NalUnitType_H265 :: "h265_type option list list" where
  "NalUnitType_H265 =
    [[Some H265Base, Some H265Base, Some H265Base, Some H265Base,
      Some H265Base, Some H265Base, Some H265Base, Some H265Base,
      Some H265Base, Some H265Base, Some H265Base, Some H265Base,
      Some H265Base, Some H265Base, Some H265Base, Some H265Base,
      Some H265Base, Some H265Base, Some H265Base, Some H265Base,
      Some H265Base, Some H265Base, Some H265Base, Some H265Base,
      Some H265Base, Some H265Base, Some H265Base, Some H265Base,
      Some H265Base, Some H265Base, Some H265Base, Some H265Base,
      Some H265Base, Some H265Base, Some H265Base, Some H265Base,
      Some H265Base, Some H265Base, Some H265Base, Some H265Base,
      Some H265Base, None, None, None,
      None, None, None, None,
      Some APs, Some FUs, None, None,
      None, None, None, None,
      None, None, None, None,
      None, None, None, None]]"

definition IS_NALU_TYPE_VALID_H265 :: "int \<Rightarrow> bool" where
  "IS_NALU_TYPE_VALID_H265 N \<longleftrightarrow>
     (N \<ge> 0 \<and> N \<le> 40) \<or> N = uint APs_ID_H265 \<or> N = uint FUs_ID_H265"

definition h265_GetNaluRtpType :: "int \<Rightarrow> int \<Rightarrow> ub + h265_type option" where
  "h265_GetNaluRtpType packetization nalu_type_id =
     (let nt = drop_bit type_shift nalu_type_id in
      if \<not> IS_NALU_TYPE_VALID_H265 nt then Inr None
      else if packetization < 0 then Inl Overread
      else ub_bind (rd NalUnitType_H265 (nat packetization)) (\<lambda>row. rd row (nat nt)))"

subsection \<open>The class \<open>NALUTypeBase_H265\<close>\<close>

record h265 =
  prefixParameterOnce5 :: bool
  VPS5 :: string
  SPS5 :: string
  PPS5 :: string
  NALUType5 :: "h265_type option"
  EndFlag5 :: "bool option"
  StartFlag5 :: "bool option"

definition new_h265 :: h265 where
  "new_h265 =
     \<lparr>prefixParameterOnce5 = True, VPS5 = [], SPS5 = [], PPS5 = [], NALUType5 = None,
      EndFlag5 = None, StartFlag5 = None\<rparr>"

definition h265_Init :: "h265 \<Rightarrow> h265" where
  "h265_Init h = h\<lparr>prefixParameterOnce5 := True\<rparr>"

definition NALUTypeBase_H265_ParseNALUHeader_F :: "payload \<Rightarrow> ub + u16" where
  "NALUTypeBase_H265_ParseNALUHeader_F p = masked_word 0x8000 p"

definition NALUTypeBase_H265_ParseNALUHeader_Type :: "payload \<Rightarrow> ub + u16" where
  "NALUTypeBase_H265_ParseNALUHeader_Type p = masked_word 0x7E00 p"

definition NALUTypeBase_H265_ParseNALUHeader_Layer_ID :: "payload \<Rightarrow> ub + u16" where
  "NALUTypeBase_H265_ParseNALUHeader_Layer_ID p = masked_word 0x01F8 p"

definition NALUTypeBase_H265_ParseNALUHeader_Temp_ID_Plus_1 :: "payload \<Rightarrow> ub + u16" where
  "NALUTypeBase_H265_ParseNALUHeader_Temp_ID_Plus_1 p = masked_word 0x0007 p"

text \<open>The masked type is stored in a \<open>uint8_t\<close> before it is shifted.\<close>

definition NALUTypeBase_H265_IsPacketThisType :: "payload \<Rightarrow> ub + bool" where
  "NALUTypeBase_H265_IsPacketThisType p =
     ub_bind (NALUTypeBase_H265_ParseNALUHeader_Type p) (\<lambda>t.
       let NalType = (ucast t :: byte); NalType' = drop_bit type_shift NalType
       in Inr (0 \<le> NalType' \<and> NalType' \<le> 40))"

definition h265_PrefixParameterOnce :: "h265 \<Rightarrow> byte list \<times> bool \<times> h265" where
  "h265_PrefixParameterOnce h =
     (let vps = PrefixXPS (VPS5 h); sps = PrefixXPS (SPS5 h); pps = PrefixXPS (PPS5 h) in
      if length vps \<le> 4 then ([], False, h)
      else if length sps \<le> 4 then (vps, False, h)
      else if length pps \<le> 4 then (vps @ sps, False, h)
      else (vps @ sps @ pps, True, h\<lparr>prefixParameterOnce5 := False\<rparr>))"

definition h265_ParseParaFromSDP :: "sdp_media_info \<Rightarrow> h265 \<Rightarrow> ub + h265" where
  "h265_ParseParaFromSDP info h =
     (case fmtMap info of
        [] \<Rightarrow> Inl NullDeref
      | (_, attrs) # _ \<Rightarrow>
          let h1 = (case smap_find attrs ATTR_VPS of None \<Rightarrow> h | Some s \<Rightarrow> h\<lparr>VPS5 := s\<rparr>);
              h2 = (case smap_find attrs ATTR_SPS of None \<Rightarrow> h1 | Some s \<Rightarrow> h1\<lparr>SPS5 := s\<rparr>);
              h3 = (case smap_find attrs ATTR_PPS of None \<Rightarrow> h2 | Some s \<Rightarrow> h2\<lparr>PPS5 := s\<rparr>)
          in Inr h3)"

definition h265_ParsePacket ::
    "h265 \<Rightarrow> payload \<Rightarrow> nat \<Rightarrow> bool \<Rightarrow> ub + (int \<times> bool option \<times> h265)" where
  "h265_ParsePacket h packet sz endp =
     (if packet = None \<or> \<not> endp then Inr (-1, None, h)
      else
        ub_bind (NALUTypeBase_H265_ParseNALUHeader_Type packet) (\<lambda>NT.
        ub_bind (h265_GetNaluRtpType 0 (uint NT)) (\<lambda>ty.
        let h1 = h\<lparr>NALUType5 := ty\<rparr> in
        case ty of
          None \<Rightarrow> Inr (-3, None, h1)
        | Some t \<Rightarrow>
            ub_bind (h265_IsPacketStart t packet) (\<lambda>st.
            ub_bind (h265_IsPacketEnd t packet) (\<lambda>en.
            Inr (0, Some en, h1\<lparr>StartFlag5 := Some st, EndFlag5 := Some en\<rparr>))))))"

definition h265_CopyData :: "h265 \<Rightarrow> bool \<Rightarrow> payload \<Rightarrow> nat \<Rightarrow> ub + byte list" where
  "h265_CopyData h bufp data sz =
     (case data of
        None \<Rightarrow> Inr []
      | Some d \<Rightarrow>
          if \<not> bufp then Inr []
          else case NALUType5 h of
            None \<Rightarrow> Inr []
          | Some t \<Rightarrow>
              ub_bind (h265_ParseNALUHeader_F t data) (\<lambda>f.
              ub_bind (h265_ParseNALUHeader_Type t data) (\<lambda>ty.
              ub_bind (h265_ParseNALUHeader_Layer_ID t data) (\<lambda>l.
              ub_bind (h265_ParseNALUHeader_Temp_ID_Plus_1 t data) (\<lambda>tid.
              let NALUHeader = f OR ty OR l OR tid in
              case StartFlag5 h of
                None \<Rightarrow> Inl Indeterminate
              | Some st \<Rightarrow>
                  copy_tail (h265_SkipHeaderSize t)
                    (if st then [0, 0, 0, 1, ucast (drop_bit 8 NALUHeader AND 0xFF),
                                 ucast (NALUHeader AND 0xFF)]
                     else []) d sz)))))"

subsection \<open>Header fields\<close>

definition h265_nal_type :: "byte \<Rightarrow> nat" where
  "h265_nal_type a = unat (drop_bit 1 a AND 0x3F)"

lemma h265_type_field: "drop_bit 9 (be16 a b AND 0x7E00) = (ucast (drop_bit 1 a AND 0x3F) :: u16)"
  by (rule u16_eqI) (simp add: be16_def bit_simps)

lemma h265_nal_type_less: "h265_nal_type a < 64"
proof -
  have "drop_bit 1 a AND 0x3F = take_bit 6 (drop_bit 1 a)"
    by (simp add: take_bit_eq_mask mask_numeral)
  then show ?thesis
    using take_bit_nat_less_exp [of 6 "unat (drop_bit 1 a)"]
    by (simp add: h265_nal_type_def unsigned_take_bit_eq)
qed

lemma h265_nal_type_drop: "unat (drop_bit 9 (be16 a b AND 0x7E00)) = h265_nal_type a"
  by (simp only: h265_type_field h265_nal_type_def unat_ucast_byte16)

lemma h265_nal_type_drop_int: "drop_bit 9 (uint (be16 a b AND 0x7E00)) = int (h265_nal_type a)"
proof -
  have "drop_bit 9 (uint w) = uint (drop_bit 9 w)" for w :: u16
    using uint_lt2p [of w] by (simp add: unsigned_drop_bit_eq take_bit_int_eq_self)
  then have "drop_bit 9 (uint w) = int (unat (drop_bit 9 w))" for w :: u16
    by (simp only: uint_nat)
  then show ?thesis by (simp only: h265_nal_type_drop)
qed

lemma h265_header_fields:
  "be16 a b AND 0x8000 OR be16 a b AND 0x7E00 OR be16 a b AND 0x01F8 OR be16 a b AND 0x0007 = be16 a b"
  by (rule u16_eqI) (simp add: be16_def bit_simps)

lemma be16_high: "(ucast (drop_bit 8 (be16 a b) AND 0xFF) :: byte) = a"
  by (rule byte_eqI) (simp_all add: be16_def bit_simps)

lemma be16_low: "(ucast (be16 a b AND 0xFF) :: byte) = b"
  by (rule byte_eqI) (simp_all add: be16_def bit_simps)

lemma be16_inject: "be16 a b = be16 c d \<longleftrightarrow> a = c \<and> b = d"
  by (metis be16_high be16_low)

text \<open>The header that \<open>CopyData\<close> rebuilds from a fragmentation unit.\<close>

lemma h265_header_fu:
  "be16 a b AND 0x8000 OR push_bit 9 (ucast f AND 0x3F) OR be16 a b AND 0x01F8 OR be16 a b AND 0x0007
     = be16 ((a AND 0x81) OR push_bit 1 (f AND 0x3F)) b"
  by (rule u16_eqI) (simp add: be16_def bit_simps del: push_bit_Suc)

subsection \<open>The table\<close>

lemma h265_valid_types: "IS_NALU_TYPE_VALID_H265 (int n) \<longleftrightarrow> n \<le> 40 \<or> n = 48 \<or> n = 49"
  by (auto simp: IS_NALU_TYPE_VALID_H265_def APs_ID_H265_def FUs_ID_H265_def)

lemma h265_table_row: "rd NalUnitType_H265 0 = Inr (hd NalUnitType_H265)"
  by (simp add: NalUnitType_H265_def)

lemma h265_table:
  "\<forall>n < 64. rd (hd NalUnitType_H265) n =
     Inr (if n \<le> 40 then Some H265Base else if n = 48 then Some APs else if n = 49 then Some FUs else None)"
  by code_simp

lemma h265_GetNaluRtpType_eq:
  "h265_GetNaluRtpType 0 (uint (be16 a b AND 0x7E00)) =
     Inr (if h265_nal_type a \<le> 40 then Some H265Base
          else if h265_nal_type a = 48 then Some APs
          else if h265_nal_type a = 49 then Some FUs else None)"
  using h265_table h265_nal_type_less [of a]
  by (simp add: h265_GetNaluRtpType_def h265_nal_type_drop_int h265_valid_types h265_table_row)

subsection \<open>Parsing a payload\<close>

lemma h265_ParsePacket_eq:
  "h265_ParsePacket h (Some (a # b # p)) n True =
     (let ty = (if h265_nal_type a \<le> 40 then Some H265Base
                else if h265_nal_type a = 48 then Some APs
                else if h265_nal_type a = 49 then Some FUs else None)
      in case ty of
        None \<Rightarrow> Inr (-3, None, h\<lparr>NALUType5 := None\<rparr>)
      | Some t \<Rightarrow>
          ub_bind (h265_IsPacketStart t (Some (a # b # p))) (\<lambda>st.
          ub_bind (h265_IsPacketEnd t (Some (a # b # p))) (\<lambda>en.
            Inr (0, Some en, h\<lparr>NALUType5 := Some t, StartFlag5 := Some st, EndFlag5 := Some en\<rparr>))))"
  by (simp add: h265_ParsePacket_def NALUTypeBase_H265_ParseNALUHeader_Type_def
      h265_GetNaluRtpType_eq Let_def)

lemma h265_fus_this:
  "h265_IsPacketThisType FUs (Some (a # b # p)) = Inr (h265_nal_type a = 49)"
proof -
  have "drop_bit 9 (be16 a b AND 0x7E00) = FUs_ID_H265 \<longleftrightarrow> h265_nal_type a = 49"
    using h265_nal_type_drop [of a b] by (simp add: FUs_ID_H265_def word_unat_eq_iff)
  then show ?thesis by (simp add: H265Base_ParseNALUHeader_Type_def)
qed

lemma fus_flag_eq:
  "h265_nal_type a = 49 \<Longrightarrow> fus_flag m (Some (a # b # f # p)) = Inr (f AND m \<noteq> 0)"
  by (simp add: fus_flag_def h265_fus_this del: h265_IsPacketThisType.simps)

lemma h265_flags_simple:
  "t \<noteq> FUs \<Longrightarrow> h265_IsPacketStart t p = Inr True"
  "t \<noteq> FUs \<Longrightarrow> h265_IsPacketEnd t p = Inr True"
  by (cases t; simp)+

definition h265_inv :: "h265 \<Rightarrow> bool" where
  "h265_inv h \<longleftrightarrow> (NALUType5 h \<noteq> None \<longrightarrow> StartFlag5 h \<noteq> None \<and> EndFlag5 h \<noteq> None)"

lemma new_h265_inv: "h265_inv new_h265"
  by (simp add: h265_inv_def new_h265_def)

lemma h265_ParsePacket_inv:
  "h265_ParsePacket h p n endp = Inr (rc, e, h') \<Longrightarrow> h265_inv h \<Longrightarrow> h265_inv h'"
  by (auto simp: h265_ParsePacket_def h265_inv_def ub_bind_eq_Inr Let_def
        split: if_splits option.splits)

lemma three_bytes: "3 \<le> length p \<Longrightarrow> \<exists>a b f r. p = a # b # f # r"
  by (metis Suc_le_length_iff numeral_3_eq_3)

lemma h265_ParsePacket_total:
  assumes "3 \<le> length p"
  shows "\<exists>rc e h'. h265_ParsePacket h (Some p) n True = Inr (rc, e, h')"
proof -
  obtain a b f r where "p = a # b # f # r" using three_bytes [OF assms] by blast
  then show ?thesis
    by (auto simp: h265_ParsePacket_eq Let_def fus_flag_eq split: option.splits)
qed

subsection \<open>Copying a payload\<close>

lemmas h265_fields = h265_ParseNALUHeader_F_def H265Base_ParseNALUHeader_Type_def
  h265_ParseNALUHeader_Layer_ID_def h265_ParseNALUHeader_Temp_ID_Plus_1_def

lemma h265_CopyData_simple:
  assumes "NALUType5 h = Some t" "t \<noteq> FUs" "StartFlag5 h = Some True"
  shows "h265_CopyData h True (Some (a # b # p)) (length p + 2) = Inr ([0, 0, 0, 1] @ a # b # p)"
  using assms h265_header_fields [of a b]
  by (cases t) (simp_all add: h265_CopyData_def Let_def h265_fields be16_high be16_low
      del: drop_bit_or drop_bit_and)

lemma h265_CopyData_fus:
  assumes "NALUType5 h = Some FUs" "StartFlag5 h = Some st"
  shows "h265_CopyData h True (Some (a # b # f # p)) (Suc (Suc (Suc (length p)))) =
    Inr ((if st then [0, 0, 0, 1, (a AND 0x81) OR push_bit 1 (f AND 0x3F), b] else []) @ p)"
proof -
  have "rd (a # b # f # p) 2 = Inr f" by simp
  then show ?thesis
    using assms h265_header_fu [of a b f]
    by (simp add: h265_CopyData_def Let_def h265_fields be16_high be16_low
      del: drop_bit_or drop_bit_and)
qed

lemma h265_CopyData_bound:
  assumes "h265_CopyData h bufp q n = Inr out"
  shows "length out \<le> n + 4"
proof (cases "q = None \<or> \<not> bufp \<or> NALUType5 h = None")
  case True
  then show ?thesis
    using assms by (auto simp: h265_CopyData_def split: option.splits)
next
  case False
  then obtain d t where d: "q = Some d" "bufp" "NALUType5 h = Some t" by auto
  with assms obtain h1 h2 st where
    "copy_tail (h265_SkipHeaderSize t) (if st then [0, 0, 0, 1, h1, h2] else []) d n = Inr out"
    by (auto simp: h265_CopyData_def ub_bind_eq_Inr Let_def split: option.splits)
  moreover have "2 \<le> h265_SkipHeaderSize t" by (cases t) simp_all
  ultimately show ?thesis
    using copy_tail_length [of "h265_SkipHeaderSize t" "if st then [0, 0, 0, 1, h1, h2] else []" d n out]
    by (cases st) auto
qed

lemma h265_CopyData_defined:
  assumes "3 \<le> length p" "h265_ParsePacket h (Some p) (length p) True = Inr (0, e, h')"
  shows "defined (h265_CopyData h' True (Some p) (length p))"
proof -
  obtain a b f r where p: "p = a # b # f # r" using three_bytes [OF assms(1)] by blast
  obtain t st where t: "NALUType5 h' = Some t" "StartFlag5 h' = Some st" "t \<noteq> FUs \<longrightarrow> st"
    using assms(2) unfolding p
    by (auto simp: h265_ParsePacket_eq Let_def ub_bind_eq_Inr split: option.splits if_splits)
  show ?thesis
  proof (cases "t = FUs")
    case True
    then show ?thesis using t h265_CopyData_fus [of h' st a b f r] by (simp add: p)
  next
    case False
    then show ?thesis using t h265_CopyData_simple [of h' t a b "f # r"] by (simp add: p)
  qed
qed

interpretation h265: depacketizer h265_ParsePacket h265_CopyData h265_inv 3
proof
  fix h p assume "h265_inv h" "3 \<le> length (p :: byte list)"
  then show "\<exists>rc e s'. h265_ParsePacket h (Some p) (length p) True = Inr (rc, e, s') \<and> h265_inv s'"
    using h265_ParsePacket_total h265_ParsePacket_inv by blast
qed (auto intro: h265_CopyData_defined h265_CopyData_bound)

subsection \<open>Fragmentation of RFC 7798, and its inverse\<close>

text \<open>
  The specification (RFC 7798, 4.4.3, without decoding order numbers): each payload carries the
  two-octet header with its type replaced by 49, and the FU header with the start bit, the end bit
  and the type.
\<close>

definition fus_payload_header :: "byte \<Rightarrow> byte" where
  "fus_payload_header a = (a AND 0x81) OR 0x62"

definition fus_fu_header :: "bool \<Rightarrow> bool \<Rightarrow> byte \<Rightarrow> byte" where
  "fus_fu_header st en a =
     (if st then 0x80 else 0) OR (if en then 0x40 else 0) OR (drop_bit 1 a AND 0x3F)"

fun fus_packets :: "byte \<Rightarrow> byte \<Rightarrow> bool \<Rightarrow> byte list list \<Rightarrow> byte list list" where
  "fus_packets a b st [] = []"
| "fus_packets a b st [c] = [fus_payload_header a # b # fus_fu_header st True a # c]"
| "fus_packets a b st (c # c' # cs) =
     (fus_payload_header a # b # fus_fu_header st False a # c) # fus_packets a b False (c' # cs)"

lemma fus_payload_type: "h265_nal_type (fus_payload_header a) = 49"
proof -
  have "drop_bit 1 (fus_payload_header a) AND 0x3F = 0x31"
    by (rule byte_eqI) (simp_all add: fus_payload_header_def bit_simps)
  then show ?thesis by (simp add: h265_nal_type_def)
qed

lemma nat_2_to_6:
  "(2 :: nat) = Suc (Suc 0)" "(3 :: nat) = Suc (Suc (Suc 0))"
  "(4 :: nat) = Suc (Suc (Suc (Suc 0)))" "(5 :: nat) = Suc (Suc (Suc (Suc (Suc 0))))"
  "(6 :: nat) = Suc (Suc (Suc (Suc (Suc (Suc 0)))))"
  by simp_all

lemma fus_header_back:
  "(fus_payload_header a AND 0x81) OR push_bit 1 (fus_fu_header st en a AND 0x3F) = a"
  by (rule byte_eqI; cases st; cases en)
     (simp_all add: fus_payload_header_def fus_fu_header_def bit_simps nat_2_to_6
       del: push_bit_Suc)

lemma fus_start_bit: "fus_fu_header st en a AND 0x80 \<noteq> 0 \<longleftrightarrow> st"
proof -
  have "fus_fu_header st en a AND 0x80 = (if st then 0x80 else 0)"
    by (rule byte_eqI; cases st; cases en) (simp_all add: fus_fu_header_def bit_simps)
  then show ?thesis by simp
qed

lemma fus_end_bit: "fus_fu_header st en a AND 0x40 \<noteq> 0 \<longleftrightarrow> en"
proof -
  have "fus_fu_header st en a AND 0x40 = (if en then 0x40 else 0)"
    by (rule byte_eqI; cases st; cases en) (simp_all add: fus_fu_header_def bit_simps)
  then show ?thesis by simp
qed

lemma h265_fus_step:
  fixes st en :: bool and a b :: byte and c :: "byte list" and h :: h265
  defines "h' \<equiv> h\<lparr>NALUType5 := Some FUs, StartFlag5 := Some st, EndFlag5 := Some en\<rparr>"
    and "p \<equiv> fus_payload_header a # b # fus_fu_header st en a # c"
  shows "h265_ParsePacket h (Some p) (length p) True = Inr (0, Some en, h')"
    and "h265_CopyData h' True (Some p) (length p) = Inr ((if st then [0, 0, 0, 1, a, b] else []) @ c)"
proof -
  show "h265_ParsePacket h (Some p) (length p) True = Inr (0, Some en, h')"
    using fus_start_bit fus_end_bit
    by (simp add: p_def h'_def h265_ParsePacket_eq fus_payload_type fus_flag_eq)
  show "h265_CopyData h' True (Some p) (length p) = Inr ((if st then [0, 0, 0, 1, a, b] else []) @ c)"
    using h265_CopyData_fus [of h' st "fus_payload_header a" b "fus_fu_header st en a" c]
    unfolding fus_header_back by (simp add: h'_def p_def)
qed

lemma h265_fus_packets:
  assumes "chunks \<noteq> []"
  shows "\<exists>h'. frame_of h265_ParsePacket h265_CopyData h (fus_packets a b st chunks) =
    Inr ((if st then [0, 0, 0, 1, a, b] else []) @ concat chunks, True, h')"
  using assms
proof (induction a b st chunks arbitrary: h rule: fus_packets.induct)
  case (2 a b st c)
  then show ?case
    using h265_fus_step [where h = h and st = st and en = True and a = a and b = b and c = c] by simp
next
  case (3 a b st c c' cs)
  let ?h = "h\<lparr>NALUType5 := Some FUs, StartFlag5 := Some st, EndFlag5 := Some False\<rparr>"
  obtain h' where "frame_of h265_ParsePacket h265_CopyData ?h (fus_packets a b False (c' # cs)) =
      Inr (concat (c' # cs), True, h')"
    using "3.IH" [of ?h] by auto
  then show ?case
    using h265_fus_step [where h = h and st = st and en = False and a = a and b = b and c = c] by simp
qed simp

subsection \<open>Properties\<close>

text \<open>C2: the receive loop undoes H.265 fragmentation: the payloads of a fragmented NAL unit,
  however it was split, give the start code, the two original header octets (the type rebuilt from
  the FU header, the layer and temporal ids from the payload header) and the whole body.\<close>

theorem h265_fu_reassembly:
  assumes "chunks \<noteq> []"
  shows "\<exists>h'. frame_of h265_ParsePacket h265_CopyData h (fus_packets a b True chunks) =
    Inr ([0, 0, 0, 1] @ a # b # concat chunks, True, h')"
  using h265_fus_packets [OF assms, of h a b True] by simp

theorem h265_fu_reassembly_witness:
  "\<exists>h'. frame_of h265_ParsePacket h265_CopyData new_h265
     (fus_packets 0x26 0x01 True [[1, 2], [3], [4, 5]]) =
     Inr ([0, 0, 0, 1, 0x26, 0x01, 1, 2, 3, 4, 5], True, h')"
  using h265_fu_reassembly [of "[[1, 2], [3], [4, 5]]" new_h265 "0x26" "0x01"] by simp

text \<open>
  payloads of three or more bytes are handled without undefined behaviour, whatever
  they hold, and the frame is at most four bytes per payload longer than the payloads.\<close>

theorem h265_no_undefined_behaviour:
  assumes "h265_inv h" "\<forall>p \<in> set ps. 3 \<le> length p"
  shows "\<exists>out whole h'. frame_of h265_ParsePacket h265_CopyData h ps = Inr (out, whole, h') \<and>
    h265_inv h' \<and> length out \<le> sum_list (map length ps) + 4 * length ps"
  using h265.frame_of_safe [OF assms] h265.frame_of_bound by blast

theorem h265_no_undefined_behaviour_witness:
  "\<exists>out whole h'. frame_of h265_ParsePacket h265_CopyData new_h265 [[0x62, 0x01, 0x93, 9], [0x40, 1, 2]] =
     Inr (out, whole, h') \<and> h265_inv h' \<and> length out \<le> 15"
  using h265_no_undefined_behaviour [of new_h265 "[[0x62, 0x01, 0x93, 9], [0x40, 1, 2]]"] new_h265_inv
  by simp

text \<open>
  the class's own \<open>IsPacketThisType\<close>, meant to accept the types 0 to 40, accepts every
  packet: the type bits are lost when the masked header is stored in a \<open>uint8_t\<close>.\<close>

theorem h265_IsPacketThisType_always_true:
  "NALUTypeBase_H265_IsPacketThisType (Some (a # b # p)) = Inr True"
proof -
  have "(ucast (be16 a b AND 0x7E00) :: byte) = 0"
    by (rule byte_eqI) (simp_all add: be16_def bit_simps)
  then show ?thesis
    by (simp add: NALUTypeBase_H265_IsPacketThisType_def NALUTypeBase_H265_ParseNALUHeader_Type_def Let_def)
qed

end
