(* ===== verification/Frame_Types.thy ===== *)
theory Frame_Types
  imports Nalu_H264 Nalu_H265
begin

section \<open>Audio types and the frame object (pcmu_types, mpeg_types, mpeg4_types, frame_type_base)\<close>

text \<open>
  A \<open>FrameTypeBase *\<close> that is not null points to one of the four classes that
  \<open>CreateNewFrameType\<close> makes: the constructors of \<open>frame_object\<close>. The virtual methods are
  functions by cases on it, with the base class's default where a class does not override one.
  \<open>MPEG_Frame\<close> holds the member \<open>Offset\<close>, \<open>None\<close> until \<open>ParsePacket\<close> writes it.
\<close>

datatype frame_object = H264_Frame h264 | H265_Frame h265 | PCMU_Frame | MPEG_Frame "nat option"

subsection \<open>The base class\<close>

definition FrameTypeBase_ParsePacket :: "payload \<Rightarrow> nat \<Rightarrow> bool \<Rightarrow> ub + (int \<times> bool option)" where
  "FrameTypeBase_ParsePacket p sz endp = Inr (0, if endp then Some True else None)"

definition FrameTypeBase_PrefixParameterEveryFrame :: int where
  "FrameTypeBase_PrefixParameterEveryFrame = 0"

definition FrameTypeBase_PrefixParameterEveryPacket :: int where
  "FrameTypeBase_PrefixParameterEveryPacket = 0"

definition FrameTypeBase_SuffixParameterEveryPacket :: int where
  "FrameTypeBase_SuffixParameterEveryPacket = 0"

subsection \<open>PCMU, MPEG and MPEG-4 audio\<close>

definition PCMU_CopyData :: "bool \<Rightarrow> payload \<Rightarrow> nat \<Rightarrow> ub + byte list" where
  "PCMU_CopyData bufp data sz =
     (case data of None \<Rightarrow> Inr [] | Some d \<Rightarrow> if \<not> bufp then Inr [] else memcpy_from d 0 sz)"

definition MPEG_AUDIO_MBZ_SIZE :: nat where "MPEG_AUDIO_MBZ_SIZE = 2"
definition MPEG_AUDIO_FLAG_OFFSET_SIZE :: nat where "MPEG_AUDIO_FLAG_OFFSET_SIZE = 2"
definition MPEG_AUDIO_RTP_HEADER_SIZE :: nat where
  "MPEG_AUDIO_RTP_HEADER_SIZE = MPEG_AUDIO_MBZ_SIZE + MPEG_AUDIO_FLAG_OFFSET_SIZE"

lemma mpeg_header_size [simp]:
  "MPEG_AUDIO_MBZ_SIZE + MPEG_AUDIO_FLAG_OFFSET_SIZE = 4" "MPEG_AUDIO_RTP_HEADER_SIZE = 4"
  by (simp_all add: MPEG_AUDIO_RTP_HEADER_SIZE_def MPEG_AUDIO_MBZ_SIZE_def MPEG_AUDIO_FLAG_OFFSET_SIZE_def)

definition MPEG_ParsePacket :: "payload \<Rightarrow> nat \<Rightarrow> bool \<Rightarrow> ub + (int \<times> bool option \<times> nat option)" where
  "MPEG_ParsePacket packet sz endp =
     (case packet of
        None \<Rightarrow> Inr (-1, None, Some 0)
      | Some d \<Rightarrow>
          if \<not> endp then Inr (-1, None, Some 0)
          else if sz < MPEG_AUDIO_RTP_HEADER_SIZE then Inr (-2, None, Some 0)
          else ub_bind (rd d 2) (\<lambda>b2. ub_bind (rd d 3) (\<lambda>b3.
            Inr (0, Some True,
              Some (MPEG_AUDIO_MBZ_SIZE + MPEG_AUDIO_FLAG_OFFSET_SIZE + (256 * unat b2 + unat b3))))))"

definition MPEG_CopyData :: "nat option \<Rightarrow> bool \<Rightarrow> payload \<Rightarrow> nat \<Rightarrow> ub + byte list" where
  "MPEG_CopyData Offset bufp data sz =
     (case data of
        None \<Rightarrow> Inr []
      | Some d \<Rightarrow>
          if \<not> bufp then Inr []
          else case Offset of
            None \<Rightarrow> Inl Indeterminate
          | Some off \<Rightarrow>
              if off < MPEG_AUDIO_RTP_HEADER_SIZE then Inr []
              else if sz < off then Inr []
              else memcpy_from d off (sz - off))"

definition Mpeg4_GetFlagOffset :: "payload \<Rightarrow> nat" where
  "Mpeg4_GetFlagOffset rtp_payload = 0"

definition Mpeg4_CopyData :: "bool \<Rightarrow> payload \<Rightarrow> nat \<Rightarrow> ub + byte list" where
  "Mpeg4_CopyData bufp data sz =
     (case data of
        None \<Rightarrow> Inr []
      | Some d \<Rightarrow>
          if \<not> bufp then Inr []
          else let Offset = Mpeg4_GetFlagOffset data in
            ub_bind (size_sub sz Offset) (\<lambda>n. memcpy_from d Offset n))"

subsection \<open>The virtual methods of a frame object\<close>

definition CreateNewFrameType :: "string \<Rightarrow> frame_object option" where
  "CreateNewFrameType EncodeType =
     (if EncodeType = ''H264'' then Some (H264_Frame new_h264)
      else if EncodeType = ''H265'' then Some (H265_Frame new_h265)
      else if EncodeType = ''PCMU'' then Some PCMU_Frame
      else if EncodeType = ''MPA'' then Some (MPEG_Frame None)
      else None)"

fun frame_Init :: "frame_object \<Rightarrow> frame_object" where
  "frame_Init (H264_Frame h) = H264_Frame (h264_Init h)"
| "frame_Init (H265_Frame h) = H265_Frame (h265_Init h)"
| "frame_Init f = f"

fun frame_NeedPrefixParameterOnce :: "frame_object \<Rightarrow> bool" where
  "frame_NeedPrefixParameterOnce (H264_Frame h) = prefixParameterOnce h"
| "frame_NeedPrefixParameterOnce (H265_Frame h) = prefixParameterOnce5 h"
| "frame_NeedPrefixParameterOnce _ = False"

fun frame_PrefixParameterOnce :: "frame_object \<Rightarrow> byte list \<times> bool \<times> frame_object" where
  "frame_PrefixParameterOnce (H264_Frame h) =
     (let (bs, ok, h') = h264_PrefixParameterOnce h in (bs, ok, H264_Frame h'))"
| "frame_PrefixParameterOnce (H265_Frame h) =
     (let (bs, ok, h') = h265_PrefixParameterOnce h in (bs, ok, H265_Frame h'))"
| "frame_PrefixParameterOnce f = ([], True, f)"

fun frame_ParseParaFromSDP :: "sdp_media_info \<Rightarrow> frame_object \<Rightarrow> ub + frame_object" where
  "frame_ParseParaFromSDP info (H264_Frame h) =
     ub_bind (h264_ParseParaFromSDP info h) (\<lambda>h'. Inr (H264_Frame h'))"
| "frame_ParseParaFromSDP info (H265_Frame h) =
     ub_bind (h265_ParseParaFromSDP info h) (\<lambda>h'. Inr (H265_Frame h'))"
| "frame_ParseParaFromSDP info f = Inr f"

fun frame_ParsePacket ::
    "frame_object \<Rightarrow> payload \<Rightarrow> nat \<Rightarrow> bool \<Rightarrow> ub + (int \<times> bool option \<times> frame_object)" where
  "frame_ParsePacket (H264_Frame h) p n endp =
     ub_bind (h264_ParsePacket h p n endp) (\<lambda>(rc, e, h'). Inr (rc, e, H264_Frame h'))"
| "frame_ParsePacket (H265_Frame h) p n endp =
     ub_bind (h265_ParsePacket h p n endp) (\<lambda>(rc, e, h'). Inr (rc, e, H265_Frame h'))"
| "frame_ParsePacket PCMU_Frame p n endp =
     ub_bind (FrameTypeBase_ParsePacket p n endp) (\<lambda>(rc, e). Inr (rc, e, PCMU_Frame))"
| "frame_ParsePacket (MPEG_Frame off) p n endp =
     ub_bind (MPEG_ParsePacket p n endp) (\<lambda>(rc, e, off'). Inr (rc, e, MPEG_Frame off'))"

fun frame_CopyData :: "frame_object \<Rightarrow> bool \<Rightarrow> payload \<Rightarrow> nat \<Rightarrow> ub + byte list" where
  "frame_CopyData (H264_Frame h) bufp p n = h264_CopyData h bufp p n"
| "frame_CopyData (H265_Frame h) bufp p n = h265_CopyData h bufp p n"
| "frame_CopyData PCMU_Frame bufp p n = PCMU_CopyData bufp p n"
| "frame_CopyData (MPEG_Frame off) bufp p n = MPEG_CopyData off bufp p n"

subsection \<open>The frame object meets the contract of the receive loop\<close>

fun frame_inv :: "frame_object \<Rightarrow> bool" where
  "frame_inv (H264_Frame h) = h264_inv h"
| "frame_inv (H265_Frame h) = h265_inv h"
| "frame_inv _ = True"

lemma CreateNewFrameType_inv: "CreateNewFrameType e = Some f \<Longrightarrow> frame_inv f"
  by (auto simp: CreateNewFrameType_def new_h264_inv new_h265_inv split: if_splits)

lemma frame_Init_inv: "frame_inv f \<Longrightarrow> frame_inv (frame_Init f)"
  by (cases f) (auto simp: h264_Init_def h265_Init_def h264_inv_def h265_inv_def)

lemma frame_PrefixParameterOnce_inv:
  "frame_PrefixParameterOnce f = (bs, ok, f') \<Longrightarrow> frame_inv f \<Longrightarrow> frame_inv f'"
  by (cases f)
     (auto simp: h264_PrefixParameterOnce_def h265_PrefixParameterOnce_def h264_inv_def h265_inv_def
        Let_def split: if_splits prod.splits)

lemma frame_ParseParaFromSDP_inv:
  "frame_ParseParaFromSDP info f = Inr f' \<Longrightarrow> frame_inv f \<Longrightarrow> frame_inv f'"
  by (cases f)
     (auto simp: h264_ParseParaFromSDP_def h265_ParseParaFromSDP_def h264_inv_def h265_inv_def
        ub_bind_eq_Inr Let_def split: list.splits prod.splits option.splits)

lemma frame_parse_defined:
  assumes "frame_inv f" "3 \<le> length p"
  shows "\<exists>rc e f'. frame_ParsePacket f (Some p) (length p) True = Inr (rc, e, f') \<and> frame_inv f'"
proof (cases f)
  case (H264_Frame h)
  then show ?thesis using assms h264.parse_defined [of h p] by auto
next
  case (H265_Frame h)
  then show ?thesis using assms h265.parse_defined [of h p] by auto
next
  case (MPEG_Frame off)
  then show ?thesis by (cases "length p < 4") (simp_all add: MPEG_ParsePacket_def)
qed (simp add: FrameTypeBase_ParsePacket_def)

lemma frame_copy_defined:
  assumes "frame_inv f" "3 \<le> length p"
    and "frame_ParsePacket f (Some p) (length p) True = Inr (0, e, f')"
  shows "defined (frame_CopyData f' True (Some p) (length p))"
proof (cases f)
  case (H264_Frame h)
  then show ?thesis using assms h264.copy_defined [of h p] by (auto simp: ub_bind_eq_Inr)
next
  case (H265_Frame h)
  then show ?thesis using assms h265.copy_defined [of h p] by (auto simp: ub_bind_eq_Inr)
next
  case PCMU_Frame
  then show ?thesis
    using assms(3) by (auto simp: FrameTypeBase_ParsePacket_def PCMU_CopyData_def)
next
  case (MPEG_Frame off)
  then obtain k where "f' = MPEG_Frame (Some k)"
    using assms(3) by (auto simp: MPEG_ParsePacket_def ub_bind_eq_Inr split: if_splits)
  then show ?thesis by (simp add: MPEG_CopyData_def)
qed

lemma frame_copy_bound:
  assumes "frame_CopyData f bufp q n = Inr out"
  shows "length out \<le> n + 4"
proof (cases f)
  case (H264_Frame h)
  then show ?thesis using assms h264.copy_bound by simp
next
  case (H265_Frame h)
  then show ?thesis using assms h265.copy_bound by simp
next
  case PCMU_Frame
  then show ?thesis
    using assms
    by (auto simp: PCMU_CopyData_def split: option.splits if_splits dest: memcpy_from_length)
next
  case (MPEG_Frame off)
  then show ?thesis
    using assms
    by (auto simp: MPEG_CopyData_def split: option.splits if_splits dest: memcpy_from_length)
qed

interpretation frame: depacketizer frame_ParsePacket frame_CopyData frame_inv 3
  by standard (auto intro: frame_parse_defined frame_copy_defined frame_copy_bound)

text \<open>The frame objects there are: the client creates one, and every method that changes it may be called
  in any order, with any arguments, as long as it returns.\<close>

inductive frame_reach :: "frame_object \<Rightarrow> bool" where
  reach_create: "CreateNewFrameType e = Some f \<Longrightarrow> frame_reach f"
| reach_init: "frame_reach f \<Longrightarrow> frame_reach (frame_Init f)"
| reach_sdp: "frame_reach f \<Longrightarrow> frame_ParseParaFromSDP info f = Inr f' \<Longrightarrow> frame_reach f'"
| reach_prefix: "frame_reach f \<Longrightarrow> frame_PrefixParameterOnce f = (bs, ok, f') \<Longrightarrow> frame_reach f'"
| reach_packet: "frame_reach f \<Longrightarrow> frame_ParsePacket f p n endp = Inr (rc, e, f') \<Longrightarrow> frame_reach f'"

lemma frame_ParsePacket_inv:
  "frame_ParsePacket f p n endp = Inr (rc, e, f') \<Longrightarrow> frame_inv f \<Longrightarrow> frame_inv f'"
  by (cases f) (auto simp: ub_bind_eq_Inr intro: h264_ParsePacket_inv h265_ParsePacket_inv)

lemma frame_reach_inv: "frame_reach f \<Longrightarrow> frame_inv f"
  by (induction rule: frame_reach.induct)
    (auto intro: CreateNewFrameType_inv frame_Init_inv frame_ParseParaFromSDP_inv
      frame_PrefixParameterOnce_inv frame_ParsePacket_inv)

lemma drop_four: "drop (4 + n) (a # b # c # d # xs) = drop n xs"
proof -
  have "4 + n = Suc (Suc (Suc (Suc n)))" by simp
  then show ?thesis by (simp only: drop_Suc_Cons)
qed

subsection \<open>Properties\<close>

text \<open>C6: whatever frame object there is, of any class and after any calls of \<open>Init\<close>,
  \<open>ParseParaFromSDP\<close> (so with any packetization mode, FU-A and STAP-A included),
  \<open>PrefixParameterOnce\<close> and \<open>ParsePacket\<close> (with any arguments) that returned, payloads of three
  or more bytes never lead to undefined behaviour in \<open>ParsePacket\<close> or \<open>CopyData\<close>, and each
  payload adds at most its own size and four bytes to the frame.\<close>

theorem frame_no_undefined_behaviour:
  assumes "frame_reach f" "\<forall>p \<in> set ps. 3 \<le> length p"
  shows "\<exists>out whole f'. frame_of frame_ParsePacket frame_CopyData f ps = Inr (out, whole, f') \<and>
    length out \<le> sum_list (map length ps) + 4 * length ps"
  using frame.frame_of_safe [OF frame_reach_inv [OF assms(1)] assms(2)] frame.frame_of_bound
  by blast

theorem frame_no_undefined_behaviour_witness:
  "\<exists>f out whole f'. frame_ParseParaFromSDP (empty_media_info\<lparr>fmtMap := [(96, [(PACK_MODE, ''1'')])]\<rparr>)
       (H264_Frame new_h264) = Inr f \<and> f = H264_Frame (new_h264\<lparr>Packetization := 1\<rparr>) \<and>
     frame_of frame_ParsePacket frame_CopyData f [[0x7C, 0x85, 1], [0x7C, 0x45, 2]] = Inr (out, whole, f') \<and>
     length out \<le> 14"
proof -
  let ?info = "empty_media_info\<lparr>fmtMap := [(96, [(PACK_MODE, ''1'')])]\<rparr>" and
    ?f = "H264_Frame (new_h264\<lparr>Packetization := 1\<rparr>)"
  have sdp: "frame_ParseParaFromSDP ?info (H264_Frame new_h264) = Inr ?f" by code_simp
  have "frame_reach (H264_Frame new_h264)" by (rule reach_create [of "''H264''"]) (simp add: CreateNewFrameType_def)
  then have "frame_reach ?f" using sdp by (rule reach_sdp)
  then show ?thesis
    using sdp frame_no_undefined_behaviour [of ?f "[[0x7C, 0x85, 1], [0x7C, 0x45, 2]]"] by simp
qed

text \<open>
  MPEG audio payloads (RFC 2250: two zero octets, a 16-bit fragment offset, audio data)
  lose the first \<open>Frag_offset\<close> bytes of their audio data: the offset says where the fragment
  belongs in the frame, but \<open>CopyData\<close> skips that many bytes of the payload. Only offset 0
  copies the audio data whole.\<close>

theorem mpeg_audio_payload:
  "frame_of frame_ParsePacket frame_CopyData (MPEG_Frame off) ((z1 # z2 # o1 # o2 # audio) # ps) =
     Inr (drop (256 * unat o1 + unat o2) audio, True, MPEG_Frame (Some (4 + (256 * unat o1 + unat o2))))"
  by (simp add: MPEG_ParsePacket_def MPEG_CopyData_def drop_four)

text \<open>
  a PCMU payload is a frame of its own, copied unchanged.\<close>

theorem pcmu_payload:
  "frame_of frame_ParsePacket frame_CopyData PCMU_Frame (p # ps) = Inr (p, True, PCMU_Frame)"
  by (simp add: FrameTypeBase_ParsePacket_def PCMU_CopyData_def)

end
