(* ===== verification/Rtp_Session.thy ===== *)
theory Rtp_Session
  imports Prelude
begin

section \<open>RTP sessions (myRtpSession.h, myRtpUdpSession.cpp, myRtpTcpSession.cpp)\<close>

text \<open>
  The two subclasses of JRTPLIB's \<open>RTPSession\<close>. What JRTPLIB and the operating system do is a
  script: one \<open>poll_event\<close> per turn of the waiting loops (the status of \<open>Poll\<close>, whether a source has
  data, the packet it gives), the outcomes of \<open>pthread_mutex_trylock\<close> and the status codes of the
  session's creation. An exhausted script means that nothing more arrives and that the mutex is free.
\<close>

definition RTP_OK :: int where "RTP_OK = 1"
definition RTP_ERROR :: int where "RTP_ERROR = 0"
definition USLEEP_UNIT :: u64 where "USLEEP_UNIT = 10000"

definition IsError :: "int \<Rightarrow> int" where
  "IsError rtperr = (if rtperr < 0 then RTP_ERROR else RTP_OK)"

record rtp_packet =
  packet_payload :: "byte list"
  packet_data :: "byte list"

record poll_event =
  poll_status :: int
  source_has_data :: bool
  next_packet :: "rtp_packet option"

definition quiet_event :: poll_event where
  "quiet_event = \<lparr>poll_status = 0, source_has_data = False, next_packet = None\<rparr>"

fun next_event :: "poll_event list \<Rightarrow> poll_event \<times> poll_event list" where
  "next_event [] = (quiet_event, [])"
| "next_event (e # r) = (e, r)"

text \<open>What \<open>GotoFirstSourceWithData\<close> and \<open>GetNextPacket\<close> together find.\<close>

definition event_packet :: "poll_event \<Rightarrow> rtp_packet option" where
  "event_packet e = (if source_has_data e then next_packet e else None)"

subsection \<open>The waiting loops\<close>

definition usleep_times :: "u64 \<Rightarrow> u64" where
  "usleep_times timeout_ms = (timeout_ms + USLEEP_UNIT - 1) div USLEEP_UNIT"

definition countdown :: "u64 \<Rightarrow> nat" where
  "countdown u = (if u = 0 then 2 ^ 64 else unat u)"

lemma countdown_less: "u - 1 \<noteq> 0 \<Longrightarrow> countdown (u - 1) < countdown u"
proof -
  assume u: "u - 1 \<noteq> 0"
  show ?thesis
  proof (cases "u = 0")
    case True
    have "unat (- 1 :: u64) < 2 ^ 64" using unsigned_less [of "- 1 :: u64", where ?'a = nat] by simp
    then show ?thesis using True by (simp add: countdown_def)
  next
    case False
    then have "0 < unat u" by (simp add: unat_gt_0)
    then have "unat (u - 1) = unat u - 1" by (simp add: unat_sub_if' Suc_leI)
    then show ?thesis using u False \<open>0 < unat u\<close> by (simp add: countdown_def)
  qed
qed

text \<open>
  The loop of \<open>GetMyRTPData\<close> (\<open>pick\<close> takes the payload) and \<open>GetMyRTPPacket\<close> (the whole packet)
  of the UDP session, and of \<open>GetMyRTPPacket\<close> of the TCP session. \<open>cap\<close> is the size of the caller's
  buffer; the result is \<open>None\<close> for a null return, otherwise the bytes in the buffer, whose number is
  \<open>*size\<close>. \<open>UsleepTimes\<close> is unsigned, so \<open>UsleepTimes <= 0\<close> only holds at zero.
\<close>

function wait_packet ::
    "(rtp_packet \<Rightarrow> byte list) \<Rightarrow> nat \<Rightarrow> u64 \<Rightarrow> poll_event list \<Rightarrow>
     ub + (byte list option \<times> poll_event list)" where
  "wait_packet pick cap UsleepTimes polls =
     (case next_event polls of (e, polls') \<Rightarrow>
        if IsError (poll_status e) = RTP_ERROR then Inr (None, polls')
        else case event_packet e of
          None \<Rightarrow>
            if UsleepTimes - 1 = 0 then Inr (Some [], polls')
            else wait_packet pick cap (UsleepTimes - 1) polls'
        | Some pack \<Rightarrow>
            if cap < length (pick pack) then Inl Overrun else Inr (Some (pick pack), polls'))"
  by pat_completeness auto

termination
  by (relation "measure (\<lambda>(pick, cap, u, polls). countdown u)") (auto intro: countdown_less)

declare wait_packet.simps [simp del]

subsection \<open>The state of a session\<close>

text \<open>\<open>DestroiedClbk\<close>: \<open>None\<close> while the member is uninitialised, \<open>Some None\<close> for a null pointer.
  \<open>socket_locked\<close>: this process holds \<open>SocketMutex\<close>. \<open>destinations\<close> are the addresses JRTPLIB
  sends reports to, \<open>clbk_calls\<close> the callbacks that have run.\<close>

datatype session_kind = UDP_Session | TCP_Session

datatype rtp_address = RTPIPv4Address u32 u16 | RTPTCPAddress int

record rtp_session =
  session_kind :: session_kind
  created :: bool
  TunnellingSock :: int
  TrylockTimes :: int
  socket_locked :: bool
  trylocks :: "bool list"
  polls :: "poll_event list"
  DestroiedClbk :: "nat option option"
  RecvCmdClbk :: "nat option"
  destinations :: "rtp_address list"
  clbk_calls :: "nat list"

definition new_udp_session :: "poll_event list \<Rightarrow> rtp_session" where
  "new_udp_session ps =
     \<lparr>session_kind = UDP_Session, created = False, TunnellingSock = - 1, TrylockTimes = 0,
      socket_locked = False, trylocks = [], polls = ps, DestroiedClbk = Some None, RecvCmdClbk = None,
      destinations = [], clbk_calls = []\<rparr>"

text \<open>\<open>MyRTPTCPSession\<close> has a member \<open>DestroiedClbk\<close> of its own, which its constructor leaves alone.\<close>

definition new_tcp_session :: "bool list \<Rightarrow> poll_event list \<Rightarrow> rtp_session" where
  "new_tcp_session ls ps =
     \<lparr>session_kind = TCP_Session, created = False, TunnellingSock = 0, TrylockTimes = 0,
      socket_locked = False, trylocks = ls, polls = ps, DestroiedClbk = None, RecvCmdClbk = None,
      destinations = [], clbk_calls = []\<rparr>"

definition session_SetDestroiedClbk :: "nat option \<Rightarrow> rtp_session \<Rightarrow> rtp_session" where
  "session_SetDestroiedClbk clbk s = s\<lparr>DestroiedClbk := Some clbk\<rparr>"

definition session_SetRecvRtspCmdClbk :: "nat option \<Rightarrow> rtp_session \<Rightarrow> rtp_session" where
  "session_SetRecvRtspCmdClbk clbk s =
     (if session_kind s = TCP_Session \<and> created s then s\<lparr>RecvCmdClbk := clbk\<rparr> else s)"

definition session_GetTunnellingSocket :: "rtp_session \<Rightarrow> int" where
  "session_GetTunnellingSocket s = (case session_kind s of UDP_Session \<Rightarrow> - 1 | TCP_Session \<Rightarrow> TunnellingSock s)"

subsection \<open>The socket mutex\<close>

text \<open>The mutex is not recursive: locking it twice never returns.\<close>

definition session_LockSocket :: "rtp_session \<Rightarrow> ub + rtp_session" where
  "session_LockSocket s =
     (case session_kind s of
        UDP_Session \<Rightarrow> Inr s
      | TCP_Session \<Rightarrow> if socket_locked s then Inl Hangs else Inr (s\<lparr>socket_locked := True\<rparr>))"

definition session_UnlockSocket :: "rtp_session \<Rightarrow> rtp_session" where
  "session_UnlockSocket s =
     (case session_kind s of UDP_Session \<Rightarrow> s | TCP_Session \<Rightarrow> s\<lparr>socket_locked := False\<rparr>)"

definition TryLockSocket :: "rtp_session \<Rightarrow> bool \<times> rtp_session" where
  "TryLockSocket s =
     (let free = (\<not> socket_locked s \<and> (trylocks s = [] \<or> hd (trylocks s))); s1 = s\<lparr>trylocks := tl (trylocks s)\<rparr>
      in if \<not> free then (False, s1\<lparr>TrylockTimes := TrylockTimes s + 1\<rparr>)
         else (True, s1\<lparr>socket_locked := True,
                TrylockTimes := (if 0 < TrylockTimes s then TrylockTimes s - 1 else TrylockTimes s)\<rparr>))"

text \<open>The loop of \<open>MyRTPTCPSession::GetMyRTPData\<close>: it polls only when it gets the mutex, and returns
  on an error of \<open>Poll\<close> without giving it back.\<close>

function tcp_wait_data :: "nat \<Rightarrow> u64 \<Rightarrow> rtp_session \<Rightarrow> ub + (byte list option \<times> rtp_session)" where
  "tcp_wait_data cap UsleepTimes s =
     (let (locked, s1) = TryLockSocket s; (e, polls') = next_event (polls s1);
          s2 = s1\<lparr>polls := polls'\<rparr> in
      if locked \<and> IsError (poll_status e) = RTP_ERROR then Inr (None, s2)
      else let s3 = (if locked then session_UnlockSocket s2 else s2) in
        case event_packet e of
          None \<Rightarrow>
            if UsleepTimes - 1 = 0 then Inr (Some [], s3)
            else tcp_wait_data cap (UsleepTimes - 1) s3
        | Some pack \<Rightarrow>
            if cap < length (packet_payload pack) then Inl Overrun
            else Inr (Some (packet_payload pack), s3))"
  by pat_completeness auto

termination
  by (relation "measure (\<lambda>(cap, u, s). countdown u)") (auto intro: countdown_less)

declare tcp_wait_data.simps [simp del]

subsection \<open>GetMyRTPData and GetMyRTPPacket\<close>

text \<open>\<open>bufp\<close> and \<open>sizep\<close>: the pointers are non-null.\<close>

definition lift_polls ::
    "rtp_session \<Rightarrow> ub + (byte list option \<times> poll_event list) \<Rightarrow> ub + (byte list option \<times> rtp_session)" where
  "lift_polls s r = ub_bind r (\<lambda>(d, ps). Inr (d, s\<lparr>polls := ps\<rparr>))"

definition udp_GetMyRTPData ::
    "bool \<Rightarrow> bool \<Rightarrow> nat \<Rightarrow> u64 \<Rightarrow> rtp_session \<Rightarrow> ub + (byte list option \<times> rtp_session)" where
  "udp_GetMyRTPData bufp sizep cap timeout s =
     (if \<not> bufp then Inr (None, s)
      else if \<not> sizep then Inr (None, s)
      else lift_polls s (wait_packet packet_payload cap (usleep_times timeout) (polls s)))"

definition udp_GetMyRTPPacket ::
    "bool \<Rightarrow> bool \<Rightarrow> nat \<Rightarrow> u64 \<Rightarrow> rtp_session \<Rightarrow> ub + (byte list option \<times> rtp_session)" where
  "udp_GetMyRTPPacket bufp sizep cap timeout s =
     (if \<not> bufp then Inr (None, s)
      else if \<not> sizep then Inr (None, s)
      else lift_polls s (wait_packet packet_data cap (usleep_times timeout) (polls s)))"

definition tcp_GetMyRTPData ::
    "bool \<Rightarrow> bool \<Rightarrow> nat \<Rightarrow> u64 \<Rightarrow> rtp_session \<Rightarrow> ub + (byte list option \<times> rtp_session)" where
  "tcp_GetMyRTPData bufp sizep cap timeout s =
     (if \<not> bufp then Inr (None, s)
      else if \<not> sizep then Inr (None, s)
      else tcp_wait_data cap (usleep_times timeout) s)"

definition tcp_GetMyRTPPacket ::
    "bool \<Rightarrow> bool \<Rightarrow> nat \<Rightarrow> u64 \<Rightarrow> rtp_session \<Rightarrow> ub + (byte list option \<times> rtp_session)" where
  "tcp_GetMyRTPPacket bufp sizep cap timeout s =
     (if \<not> bufp then Inr (None, s)
      else if \<not> sizep then Inr (None, s)
      else lift_polls s (wait_packet packet_data cap (usleep_times timeout) (polls s)))"

text \<open>The virtual calls.\<close>

definition GetMyRTPData ::
    "bool \<Rightarrow> bool \<Rightarrow> nat \<Rightarrow> u64 \<Rightarrow> rtp_session \<Rightarrow> ub + (byte list option \<times> rtp_session)" where
  "GetMyRTPData bufp sizep cap timeout s =
     (case session_kind s of
        UDP_Session \<Rightarrow> udp_GetMyRTPData bufp sizep cap timeout s
      | TCP_Session \<Rightarrow> tcp_GetMyRTPData bufp sizep cap timeout s)"

definition GetMyRTPPacket ::
    "bool \<Rightarrow> bool \<Rightarrow> nat \<Rightarrow> u64 \<Rightarrow> rtp_session \<Rightarrow> ub + (byte list option \<times> rtp_session)" where
  "GetMyRTPPacket bufp sizep cap timeout s =
     (case session_kind s of
        UDP_Session \<Rightarrow> udp_GetMyRTPPacket bufp sizep cap timeout s
      | TCP_Session \<Rightarrow> tcp_GetMyRTPPacket bufp sizep cap timeout s)"

lemmas GetMyRTPData_defs = GetMyRTPData_def udp_GetMyRTPData_def tcp_GetMyRTPData_def

subsection \<open>Creating a session\<close>

text \<open>What JRTPLIB and the parameters answer: the options of \<open>RTPSessionParams\<close> and the status codes
  of the transmitter's \<open>Init\<close> and \<open>Create\<close> and of \<open>InternalCreate\<close> (TCP) or \<open>Create\<close> (UDP).\<close>

record create_env =
  using_poll_thread :: bool
  need_thread_safety :: bool
  max_packet_size :: nat
  init_status :: int
  trans_status :: int
  create_status :: int
  new_trylocks :: "bool list"
  new_polls :: "poll_event list"

definition MyTcpCreate :: "create_env \<Rightarrow> rtp_session \<Rightarrow> int \<times> rtp_session" where
  "MyTcpCreate env s =
     (if created s then (- 58, s)
      else if using_poll_thread env \<and> \<not> need_thread_safety env then (- 177, s)
      else if max_packet_size env < 600 then (- 61, s)
      else if init_status env < 0 then (init_status env, s)
      else if trans_status env < 0 then (trans_status env, s)
      else (create_status env, s\<lparr>created := (0 \<le> create_status env)\<rparr>))"

text \<open>\<open>AddDestination\<close> and \<open>DeleteDestination\<close> of JRTPLIB refuse to work before the session is created.\<close>

definition AddDestination :: "rtp_address \<Rightarrow> rtp_session \<Rightarrow> rtp_session" where
  "AddDestination addr s =
     (if created s then s\<lparr>destinations := List.insert addr (destinations s)\<rparr> else s)"

definition DeleteDestination :: "rtp_address \<Rightarrow> rtp_session \<Rightarrow> rtp_session" where
  "DeleteDestination addr s =
     (if created s then s\<lparr>destinations := removeAll addr (destinations s)\<rparr> else s)"

text \<open>\<open>MyRTP_SetUp\<close> of the two classes, given the clock rate and the port of the media session.\<close>

definition udp_SetUp :: "create_env \<Rightarrow> u32 \<Rightarrow> u16 \<Rightarrow> rtp_session \<Rightarrow> int \<times> rtp_session" where
  "udp_SetUp env TimeRate RTPPort s =
     (if TimeRate = 0 then (RTP_ERROR, s)
      else if RTPPort = 0 then (RTP_ERROR, s)
      else (IsError (create_status env), s\<lparr>created := (0 \<le> create_status env)\<rparr>))"

definition tcp_SetUp :: "create_env \<Rightarrow> u32 \<Rightarrow> int \<Rightarrow> rtp_session \<Rightarrow> int \<times> rtp_session" where
  "tcp_SetUp env TimeRate tunnelling_sock s =
     (if TimeRate = 0 then (RTP_ERROR, s)
      else case MyTcpCreate env s of (status, s1) \<Rightarrow>
        (IsError status,
         AddDestination (RTPTCPAddress tunnelling_sock) (s1\<lparr>TunnellingSock := tunnelling_sock\<rparr>)))"

subsection \<open>Sources that come and go\<close>

text \<open>\<open>RTPSourceData\<close>: whether it is our own, whether a BYE was received, and the addresses the RTP
  and RTCP packets came from.\<close>

record source_data =
  IsOwnSSRC :: bool
  ReceivedBYE :: bool
  RTPDataAddress :: "(u32 \<times> u16) option"
  RTCPDataAddress :: "(u32 \<times> u16) option"

definition source_address :: "source_data \<Rightarrow> rtp_address option" where
  "source_address dat =
     (case RTPDataAddress dat of
        Some (ip, port) \<Rightarrow> Some (RTPIPv4Address ip port)
      | None \<Rightarrow> map_option (\<lambda>(ip, port). RTPIPv4Address ip (port - 1)) (RTCPDataAddress dat))"

definition run_destroied_clbk :: "rtp_session \<Rightarrow> ub + rtp_session" where
  "run_destroied_clbk s =
     (case DestroiedClbk s of
        None \<Rightarrow> Inl Indeterminate
      | Some None \<Rightarrow> Inr s
      | Some (Some f) \<Rightarrow> Inr (s\<lparr>clbk_calls := clbk_calls s @ [f]\<rparr>))"

definition udp_OnNewSource :: "source_data \<Rightarrow> rtp_session \<Rightarrow> rtp_session" where
  "udp_OnNewSource dat s =
     (if IsOwnSSRC dat then s
      else case source_address dat of None \<Rightarrow> s | Some dest \<Rightarrow> AddDestination dest s)"

definition udp_OnBYEPacket :: "source_data \<Rightarrow> rtp_session \<Rightarrow> ub + rtp_session" where
  "udp_OnBYEPacket dat s =
     (if IsOwnSSRC dat then Inr s
      else case source_address dat of
        None \<Rightarrow> Inr s
      | Some dest \<Rightarrow> run_destroied_clbk (DeleteDestination dest s))"

definition udp_OnRemoveSource :: "source_data \<Rightarrow> rtp_session \<Rightarrow> ub + rtp_session" where
  "udp_OnRemoveSource dat s =
     (if IsOwnSSRC dat then Inr s
      else if ReceivedBYE dat then Inr s
      else case source_address dat of
        None \<Rightarrow> Inr s
      | Some dest \<Rightarrow> run_destroied_clbk (DeleteDestination dest s))"

text \<open>The TCP session only prints a line and runs the callback.\<close>

definition tcp_OnNewSource :: "source_data \<Rightarrow> rtp_session \<Rightarrow> rtp_session" where
  "tcp_OnNewSource dat s = s"

definition tcp_OnBYEPacket :: "source_data \<Rightarrow> rtp_session \<Rightarrow> ub + rtp_session" where
  "tcp_OnBYEPacket dat s = run_destroied_clbk s"

definition tcp_OnRemoveSource :: "source_data \<Rightarrow> rtp_session \<Rightarrow> ub + rtp_session" where
  "tcp_OnRemoveSource dat s = run_destroied_clbk s"

definition OnNewSource :: "source_data \<Rightarrow> rtp_session \<Rightarrow> rtp_session" where
  "OnNewSource dat s =
     (case session_kind s of UDP_Session \<Rightarrow> udp_OnNewSource dat s | TCP_Session \<Rightarrow> tcp_OnNewSource dat s)"

definition OnBYEPacket :: "source_data \<Rightarrow> rtp_session \<Rightarrow> ub + rtp_session" where
  "OnBYEPacket dat s =
     (case session_kind s of UDP_Session \<Rightarrow> udp_OnBYEPacket dat s | TCP_Session \<Rightarrow> tcp_OnBYEPacket dat s)"

definition OnRemoveSource :: "source_data \<Rightarrow> rtp_session \<Rightarrow> ub + rtp_session" where
  "OnRemoveSource dat s =
     (case session_kind s of UDP_Session \<Rightarrow> udp_OnRemoveSource dat s | TCP_Session \<Rightarrow> tcp_OnRemoveSource dat s)"

subsection \<open>What the loops do\<close>

definition quiet :: "poll_event \<Rightarrow> bool" where
  "quiet e \<longleftrightarrow> 0 \<le> poll_status e \<and> event_packet e = None"

lemma IsError_iff: "IsError x = RTP_ERROR \<longleftrightarrow> x < 0"
  by (simp add: IsError_def RTP_ERROR_def RTP_OK_def)

lemma quiet_quiet_event [simp]: "quiet quiet_event"
  by (simp add: quiet_def quiet_event_def event_packet_def)

lemma unat_minus_one: "u \<noteq> 0 \<Longrightarrow> unat (u - 1 :: u64) = unat u - 1"
proof -
  assume "u \<noteq> 0"
  then have "0 < unat u" by (simp add: unat_gt_0)
  then show ?thesis by (simp add: unat_sub_if' Suc_leI)
qed

text \<open>Quiet turns use up the count; after them the loop is in the same state with the rest.\<close>

lemma wait_packet_quiet:
  "\<forall>e \<in> set es. quiet e \<Longrightarrow> length es < unat u \<Longrightarrow>
   wait_packet pick cap u (es @ ps) = wait_packet pick cap (u - word_of_nat (length es)) ps"
proof (induction es arbitrary: u)
  case (Cons e es)
  have "u \<noteq> 0" "u \<noteq> 1" using Cons.prems(2) by auto
  then have u: "u - 1 \<noteq> 0" "unat (u - 1) = unat u - 1" using unat_minus_one by auto
  have "wait_packet pick cap u ((e # es) @ ps) = wait_packet pick cap (u - 1) (es @ ps)"
    using Cons.prems(1) u(1) by (subst wait_packet.simps) (simp add: quiet_def IsError_iff)
  also have "\<dots> = wait_packet pick cap (u - 1 - word_of_nat (length es)) ps"
    using Cons u(2) by (intro Cons.IH) auto
  finally show ?case by (simp add: algebra_simps)
qed simp

lemma wait_packet_found:
  assumes "\<forall>e \<in> set es. quiet e" "length es < unat u" "0 \<le> poll_status e" "event_packet e = Some pack"
    "length (pick pack) \<le> cap"
  shows "wait_packet pick cap u (es @ e # ps) = Inr (Some (pick pack), ps)"
  unfolding wait_packet_quiet [OF assms(1,2)]
  using assms(3-5) by (subst wait_packet.simps) (simp add: IsError_iff)

lemma wait_packet_timeout:
  assumes "\<forall>e \<in> set es. quiet e" "length es = unat u" "u \<noteq> 0"
  shows "wait_packet pick cap u (es @ ps) = Inr (Some [], ps)"
proof -
  have "0 < unat u" using assms(3) by (simp add: unat_gt_0)
  then obtain es' e where es: "es = es' @ [e]" using assms(2) by (cases es rule: rev_cases) auto
  have n: "length es' < unat u" using assms(2) es by simp
  have "Suc (length es') = unat u" using assms(2) es by simp
  then have "word_of_nat (Suc (length es')) = u" by (simp only: of_nat_unat ucast_id)
  then have one: "u - word_of_nat (length es') = 1" by (simp add: algebra_simps)
  have "wait_packet pick cap u (es @ ps) = wait_packet pick cap 1 (e # ps)"
    using wait_packet_quiet [of es' u pick cap "e # ps"] n assms(1) one es by simp
  also have "\<dots> = Inr (Some [], ps)"
    using assms(1) es by (subst wait_packet.simps) (simp add: quiet_def IsError_iff)
  finally show ?thesis .
qed

text \<open>With a count of zero the first quiet turn wraps the count to its maximum.\<close>

lemma wait_packet_wrap:
  assumes "quiet e"
  shows "wait_packet pick cap 0 (e # ps) = wait_packet pick cap (- 1) ps"
  using assms by (subst wait_packet.simps) (simp add: quiet_def IsError_iff)

text \<open>While nobody else holds the mutex the TCP loop is the UDP loop, but for the mutex.\<close>

lemma tcp_wait_data_free:
  assumes "\<not> socket_locked s" "trylocks s = []" "TrylockTimes s = 0" "session_kind s = TCP_Session"
  shows "tcp_wait_data cap u s =
    (case wait_packet packet_payload cap u (polls s) of
       Inl e \<Rightarrow> Inl e
     | Inr (None, ps) \<Rightarrow> Inr (None, s\<lparr>polls := ps, socket_locked := True\<rparr>)
     | Inr (Some d, ps) \<Rightarrow> Inr (Some d, s\<lparr>polls := ps, socket_locked := False\<rparr>))"
  using assms
proof (induction "countdown u" arbitrary: u s rule: less_induct)
  case less
  obtain e ps where e: "next_event (polls s) = (e, ps)" by fastforce
  let ?s = "s\<lparr>polls := ps\<rparr>"
  have lock: "TryLockSocket s = (True, s\<lparr>trylocks := [], socket_locked := True, TrylockTimes := 0\<rparr>)"
    using less.prems by (simp add: TryLockSocket_def)
  have unlock: "session_UnlockSocket (s\<lparr>polls := ps, socket_locked := True\<rparr>) = ?s"
    using less.prems by (cases s) (simp add: session_UnlockSocket_def)
  have keep: "s\<lparr>trylocks := [], socket_locked := True, TrylockTimes := 0, polls := ps\<rparr> =
      s\<lparr>polls := ps, socket_locked := True\<rparr>"
    using less.prems by (cases s) simp
  have same: "?s = s\<lparr>polls := ps, socket_locked := False\<rparr>"
    using less.prems by (cases s) simp
  have "polls (s\<lparr>trylocks := [], socket_locked := True, TrylockTimes := 0\<rparr>) = polls s" by simp
  then have tcp: "tcp_wait_data cap u s =
     (if IsError (poll_status e) = RTP_ERROR then Inr (None, s\<lparr>polls := ps, socket_locked := True\<rparr>)
      else case event_packet e of
        None \<Rightarrow> if u - 1 = 0 then Inr (Some [], ?s) else tcp_wait_data cap (u - 1) ?s
      | Some pack \<Rightarrow>
          if cap < length (packet_payload pack) then Inl Overrun else Inr (Some (packet_payload pack), ?s))"
    by (subst tcp_wait_data.simps) (simp only: lock Let_def prod.case e simp_thms if_True unlock keep)
  have udp: "wait_packet packet_payload cap u (polls s) =
     (if IsError (poll_status e) = RTP_ERROR then Inr (None, ps)
      else case event_packet e of
        None \<Rightarrow> if u - 1 = 0 then Inr (Some [], ps) else wait_packet packet_payload cap (u - 1) ps
      | Some pack \<Rightarrow>
          if cap < length (packet_payload pack) then Inl Overrun else Inr (Some (packet_payload pack), ps))"
    by (subst wait_packet.simps) (simp only: e prod.case)
  have rec: "u - 1 \<noteq> 0 \<Longrightarrow> tcp_wait_data cap (u - 1) ?s =
    (case wait_packet packet_payload cap (u - 1) ps of
       Inl e \<Rightarrow> Inl e
     | Inr (None, ps') \<Rightarrow> Inr (None, s\<lparr>polls := ps', socket_locked := True\<rparr>)
     | Inr (Some d, ps') \<Rightarrow> Inr (Some d, s\<lparr>polls := ps', socket_locked := False\<rparr>))"
    using less.hyps [of "u - 1" ?s] less.prems countdown_less [of u]
    by (simp split: sum.split prod.split option.split)
  show ?case
  proof (cases "event_packet e")
    case None
    then show ?thesis unfolding tcp udp by (cases "u - 1 = 0") (simp_all add: rec flip: same)
  next
    case (Some p)
    then show ?thesis unfolding tcp udp by (simp flip: same)
  qed
qed

subsection \<open>Properties\<close>

text \<open>a packet that arrives before the time is up is delivered: if the turns before it are quiet
  and fewer than \<open>timeout / 10000\<close> rounded up, \<open>GetMyRTPData\<close> returns its payload, and the later
  packets stay for the next call; this holds for UDP and, while the mutex is free, for TCP.\<close>

theorem GetMyRTPData_delivers:
  assumes "polls s = es @ e # ps" "\<forall>x \<in> set es. quiet x" "length es < unat (usleep_times timeout)"
    and "0 \<le> poll_status e" "event_packet e = Some pack" "length (packet_payload pack) \<le> cap"
    and "session_kind s = TCP_Session \<Longrightarrow> \<not> socket_locked s \<and> trylocks s = [] \<and> TrylockTimes s = 0"
  shows "\<exists>s'. GetMyRTPData True True cap timeout s = Inr (Some (packet_payload pack), s') \<and>
    polls s' = ps \<and> socket_locked s' = socket_locked s"
proof -
  have w: "wait_packet packet_payload cap (usleep_times timeout) (polls s) = Inr (Some (packet_payload pack), ps)"
    unfolding assms(1) by (rule wait_packet_found) (use assms in auto)
  show ?thesis
    using w tcp_wait_data_free [of s cap "usleep_times timeout"] assms(7)
    by (cases "session_kind s") (simp_all add: GetMyRTPData_defs lift_polls_def)
qed

theorem GetMyRTPData_delivers_witness:
  "\<exists>s'. GetMyRTPData True True 8192 1000000
      (new_udp_session [quiet_event, \<lparr>poll_status = 0, source_has_data = True,
         next_packet = Some \<lparr>packet_payload = [7, 8], packet_data = [1, 7, 8]\<rparr>\<rparr>]) = Inr (Some [7, 8], s') \<and>
    polls s' = []"
proof -
  have u: "unat (usleep_times 1000000) = 100" by (simp add: usleep_times_def USLEEP_UNIT_def)
  show ?thesis
    using GetMyRTPData_delivers [of "new_udp_session [quiet_event, \<lparr>poll_status = 0, source_has_data = True,
        next_packet = Some \<lparr>packet_payload = [7, 8], packet_data = [1, 7, 8]\<rparr>\<rparr>]" "[quiet_event]"
        "\<lparr>poll_status = 0, source_has_data = True, next_packet = Some \<lparr>packet_payload = [7, 8], packet_data = [1, 7, 8]\<rparr>\<rparr>"
        "[]" 1000000 "\<lparr>packet_payload = [7, 8], packet_data = [1, 7, 8]\<rparr>" 8192]
    by (auto simp: u new_udp_session_def event_packet_def)
qed

text \<open>The number of turns is the least one whose sleeps of 10000 cover the timeout.\<close>

lemma usleep_times_unat:
  assumes "unat timeout \<le> 2 ^ 64 - 10000"
  shows "unat (usleep_times timeout) = (unat timeout + 9999) div 10000"
proof -
  have u: "unat (9999 :: u64) = 9999" "unat (10000 :: u64) = 10000" by simp_all
  have "unat (timeout + 9999) = unat timeout + 9999"
    using assms unat_add_lem [of timeout 9999] by (simp only: u) simp
  moreover have "usleep_times timeout = (timeout + 9999) div 10000"
    by (simp add: usleep_times_def USLEEP_UNIT_def add.commute)
  ultimately show ?thesis by (simp only: unat_div u)
qed

text \<open>C14: the wait is bounded: when nothing arrives, \<open>GetMyRTPData\<close> with a positive timeout takes
  exactly as many turns of 10000 as are needed to cover it (the least \<open>n\<close> with
  \<open>timeout \<le> 10000 * n\<close>), and then returns the buffer with size 0. The bound on the timeout
  excludes the wrap of the sum in the code.\<close>

theorem GetMyRTPData_gives_up:
  assumes "polls s = es @ ps" "\<forall>x \<in> set es. quiet x"
    and "0 < unat timeout" "unat timeout \<le> 2 ^ 64 - 10000"
    and "unat timeout \<le> 10000 * length es" "10000 * length es < unat timeout + 10000"
    and "session_kind s = TCP_Session \<Longrightarrow> \<not> socket_locked s \<and> trylocks s = [] \<and> TrylockTimes s = 0"
  shows "\<exists>s'. GetMyRTPData True True cap timeout s = Inr (Some [], s') \<and> polls s' = ps"
proof -
  have len: "length es = unat (usleep_times timeout)"
    using assms(5,6) unfolding usleep_times_unat [OF assms(4)] by linarith
  have pos: "usleep_times timeout \<noteq> 0"
    using len assms(3,5) by auto
  have w: "wait_packet packet_payload cap (usleep_times timeout) (polls s) = Inr (Some [], ps)"
    unfolding assms(1) by (rule wait_packet_timeout) (use assms(2) len pos in auto)
  show ?thesis
    using w tcp_wait_data_free [of s cap "usleep_times timeout"] assms(7)
    by (cases "session_kind s") (simp_all add: GetMyRTPData_defs lift_polls_def)
qed

theorem GetMyRTPData_gives_up_witness:
  "\<exists>s'. GetMyRTPData True True 8192 15000 (new_udp_session [quiet_event, quiet_event, quiet_event]) =
      Inr (Some [], s') \<and> polls s' = [quiet_event]"
proof -
  show ?thesis
    using GetMyRTPData_gives_up [of "new_udp_session [quiet_event, quiet_event, quiet_event]" "[quiet_event, quiet_event]"
        "[quiet_event]" 15000 8192] by (simp add: new_udp_session_def)
qed

text \<open>
  a timeout of 0 does not mean "do not wait": the count wraps and the call goes on through any
  run of quiet turns, up to 2 to the 64, until a packet comes.\<close>

theorem GetMyRTPData_timeout_zero:
  assumes "polls s = q # es @ e # ps" "\<forall>x \<in> set (q # es). quiet x" "length es < 2 ^ 64 - 1"
    and "0 \<le> poll_status e" "event_packet e = Some pack" "length (packet_payload pack) \<le> cap"
    and "session_kind s = UDP_Session"
  shows "\<exists>s'. GetMyRTPData True True cap 0 s = Inr (Some (packet_payload pack), s') \<and> polls s' = ps"
proof -
  have u: "usleep_times 0 = 0" by (simp add: usleep_times_def USLEEP_UNIT_def)
  have m: "unat (- 1 :: u64) = 2 ^ 64 - 1" by (simp add: unsigned_minus_1_eq_mask mask_eq_exp_minus_1)
  have "wait_packet packet_payload cap 0 (polls s) = wait_packet packet_payload cap (- 1) (es @ e # ps)"
    unfolding assms(1) by (rule wait_packet_wrap) (use assms(2) in simp)
  also have "\<dots> = Inr (Some (packet_payload pack), ps)"
    by (rule wait_packet_found) (use assms(2-6) m in auto)
  finally show ?thesis using assms(7) by (simp add: GetMyRTPData_defs lift_polls_def u)
qed

theorem GetMyRTPData_timeout_zero_witness:
  "\<exists>s'. GetMyRTPData True True 8192 0
      (new_udp_session [quiet_event, quiet_event, \<lparr>poll_status = 0, source_has_data = True,
         next_packet = Some \<lparr>packet_payload = [7], packet_data = [1, 7]\<rparr>\<rparr>]) = Inr (Some [7], s') \<and> polls s' = []"
  using GetMyRTPData_timeout_zero [of "new_udp_session [quiet_event, quiet_event, \<lparr>poll_status = 0, source_has_data = True,
      next_packet = Some \<lparr>packet_payload = [7], packet_data = [1, 7]\<rparr>\<rparr>]" quiet_event "[quiet_event]"
      "\<lparr>poll_status = 0, source_has_data = True, next_packet = Some \<lparr>packet_payload = [7], packet_data = [1, 7]\<rparr>\<rparr>"
      "[]" "\<lparr>packet_payload = [7], packet_data = [1, 7]\<rparr>" 8192]
  by (auto simp: new_udp_session_def event_packet_def)

text \<open>When \<open>Poll\<close> fails, the TCP session returns null with the socket mutex still held: from then
  on the session never polls again, whatever arrives, and a command that locks the socket to read its
  response never returns.\<close>

theorem tcp_poll_error_keeps_lock:
  assumes "session_kind s = TCP_Session" "\<not> socket_locked s" "trylocks s = []" "TrylockTimes s = 0"
    and "polls s = e # ps" "poll_status e < 0"
  shows "\<exists>s'. GetMyRTPData True True cap timeout s = Inr (None, s') \<and> socket_locked s' \<and>
    \<not> fst (TryLockSocket s') \<and> session_LockSocket s' = Inl Hangs"
proof -
  have "wait_packet packet_payload cap (usleep_times timeout) (polls s) = Inr (None, ps)"
    using assms(5,6) by (subst wait_packet.simps) (simp add: IsError_iff)
  then show ?thesis
    using tcp_wait_data_free [OF assms(2-4) assms(1)] assms(1)
    by (simp add: GetMyRTPData_defs TryLockSocket_def session_LockSocket_def)
qed

theorem tcp_poll_error_keeps_lock_witness:
  "\<exists>s'. GetMyRTPData True True 8192 1000000 (new_tcp_session [] [quiet_event\<lparr>poll_status := - 1\<rparr>]) = Inr (None, s') \<and>
     socket_locked s'"
  using tcp_poll_error_keeps_lock [of "new_tcp_session [] [quiet_event\<lparr>poll_status := - 1\<rparr>]" _ _ 8192 1000000]
  by (auto simp: new_tcp_session_def)

text \<open>
  a source that says goodbye is forgotten: for a UDP session the destination that
  \<open>OnNewSource\<close> entered is removed by \<open>OnBYEPacket\<close>, the others stay, and the callback runs once if one
  is set.\<close>

theorem udp_source_comes_and_goes:
  assumes "session_kind s = UDP_Session" "created s" "\<not> IsOwnSSRC dat" "source_address dat = Some dest"
    and "dest \<notin> set (destinations s)" "DestroiedClbk s = Some clbk"
  shows "OnBYEPacket dat (OnNewSource dat s) =
    Inr (s\<lparr>clbk_calls := clbk_calls s @ (case clbk of None \<Rightarrow> [] | Some f \<Rightarrow> [f])\<rparr>)"
  using assms by (cases s; cases clbk)
    (auto simp: OnNewSource_def OnBYEPacket_def udp_OnNewSource_def udp_OnBYEPacket_def AddDestination_def
      DeleteDestination_def run_destroied_clbk_def removeAll_id)

theorem udp_source_comes_and_goes_witness:
  "let s = session_SetDestroiedClbk (Some 3) (new_udp_session []\<lparr>created := True\<rparr>);
       dat = \<lparr>IsOwnSSRC = False, ReceivedBYE = True, RTPDataAddress = None, RTCPDataAddress = Some (1, 10331)\<rparr>
   in OnBYEPacket dat (OnNewSource dat s) = Inr (s\<lparr>clbk_calls := [3]\<rparr>)"
  using udp_source_comes_and_goes [of "session_SetDestroiedClbk (Some 3) (new_udp_session []\<lparr>created := True\<rparr>)"
      "\<lparr>IsOwnSSRC = False, ReceivedBYE = True, RTPDataAddress = None, RTCPDataAddress = Some (1, 10331)\<rparr>" "RTPIPv4Address 1 10330" "Some 3"]
  by (simp add: session_SetDestroiedClbk_def new_udp_session_def source_address_def)

end
