(* ===== verification/Media_Session.thy ===== *)
theory Media_Session
  imports Frame_Types Rtp_Session
begin

section \<open>Media sessions (MediaSession.cpp, MediaSession.h)\<close>

text \<open>
  The class \<open>MediaSession\<close>: what the description said of one medium, its ports, its frame type and
  its RTP session. \<open>Timeout\<close> is not initialised by the constructor. The environment of a new RTP
  session is a \<open>create_env\<close>; \<open>RTP_Teardown\<close> reports the time it waits for the BYE.
\<close>

record media_session =
  MediaType :: string
  Protocol :: string
  PayloadType :: "int list"
  EncodeType :: string
  TimeRate :: u32
  ChannelNum :: u32
  ControlURI :: string
  SessionID :: string
  RTPPort :: u16
  RTCPPort :: u16
  ms_Packetization :: int
  Timeout :: "int option"
  ms_frame :: "frame_object option"
  RTPInterface :: "rtp_session option"

definition MEDIA_SESSION_OK :: int where "MEDIA_SESSION_OK = 1"
definition MEDIA_SESSION_ERROR :: int where "MEDIA_SESSION_ERROR = 0"
definition PACKET_MODE_SINGAL_NAL :: int where "PACKET_MODE_SINGAL_NAL = 0"
definition TIMEOUT_MICROSECONDS :: u64 where "TIMEOUT_MICROSECONDS = 1000000"

definition PT2TimeRateMap :: "u32 list" where
  "PT2TimeRateMap =
     [8000, 0, 0, 8000, 8000, 8000, 16000, 8000, 8000, 8000, 44100, 44100, 8000, 8000, 90000, 8000,
      11025, 22050, 8000, 0, 0, 0, 0, 0]"

definition new_media_session :: media_session where
  "new_media_session =
     \<lparr>MediaType = [], Protocol = [], PayloadType = [], EncodeType = [], TimeRate = 0, ChannelNum = 1,
      ControlURI = [], SessionID = [], RTPPort = 0, RTCPPort = 0,
      ms_Packetization = PACKET_MODE_SINGAL_NAL, Timeout = None, ms_frame = None, RTPInterface = None\<rparr>"

subsection \<open>Setting up and tearing down\<close>

text \<open>The RTP session stays in \<open>RTPInterface\<close> when its setup fails.\<close>

definition RTP_SetUp :: "create_env \<Rightarrow> int \<Rightarrow> media_session \<Rightarrow> int \<times> media_session" where
  "RTP_SetUp env tunnelling_sock ms =
     (if TimeRate ms = 0 then (MEDIA_SESSION_ERROR, ms)
      else if RTPPort ms = 0 then (MEDIA_SESSION_ERROR, ms)
      else if RTPInterface ms \<noteq> None then (MEDIA_SESSION_OK, ms)
      else
        case (if tunnelling_sock > 0
              then tcp_SetUp env (TimeRate ms) tunnelling_sock (new_tcp_session (new_trylocks env) (new_polls env))
              else udp_SetUp env (TimeRate ms) (RTPPort ms) (new_udp_session (new_polls env))) of
          (rc, s) \<Rightarrow>
            (if rc = 0 then MEDIA_SESSION_ERROR else MEDIA_SESSION_OK, ms\<lparr>RTPInterface := Some s\<rparr>))"

text \<open>\<open>MyRTP_Teardown\<close> of the two classes: the port is cleared and the BYE waits for the given time,
  one second by default.\<close>

definition udp_Teardown :: "(int \<times> int) option \<Rightarrow> media_session \<Rightarrow> (int \<times> int) \<times> media_session" where
  "udp_Teardown tval ms = (case tval of None \<Rightarrow> (1, 0) | Some t \<Rightarrow> t, ms\<lparr>RTPPort := 0\<rparr>)"

definition tcp_Teardown :: "(int \<times> int) option \<Rightarrow> media_session \<Rightarrow> (int \<times> int) \<times> media_session" where
  "tcp_Teardown tval ms = (case tval of None \<Rightarrow> (1, 0) | Some t \<Rightarrow> t, ms\<lparr>RTPPort := 0\<rparr>)"

definition MyRTP_Teardown ::
    "session_kind \<Rightarrow> (int \<times> int) option \<Rightarrow> media_session \<Rightarrow> (int \<times> int) \<times> media_session" where
  "MyRTP_Teardown kind tval ms =
     (case kind of UDP_Session \<Rightarrow> udp_Teardown tval ms | TCP_Session \<Rightarrow> tcp_Teardown tval ms)"

definition RTP_Teardown ::
    "(int \<times> int) option \<Rightarrow> media_session \<Rightarrow> int \<times> (int \<times> int) option \<times> media_session" where
  "RTP_Teardown tval ms =
     (case RTPInterface ms of
        None \<Rightarrow> (MEDIA_SESSION_OK, None, ms)
      | Some s \<Rightarrow>
          if RTPPort ms = 0 then (MEDIA_SESSION_ERROR, None, ms)
          else case MyRTP_Teardown (session_kind s) tval (ms\<lparr>RTPPort := 0, RTCPPort := 0\<rparr>) of
            (bye, ms') \<Rightarrow> (MEDIA_SESSION_OK, Some bye, ms'\<lparr>RTPInterface := None\<rparr>))"

text \<open>The destructor: a teardown, then both objects are deleted.\<close>

definition delete_media_session :: "media_session \<Rightarrow> (int \<times> int) option \<times> media_session" where
  "delete_media_session ms =
     (case RTP_Teardown None ms of (rc, bye, ms') \<Rightarrow> (bye, ms'\<lparr>RTPInterface := None, ms_frame := None\<rparr>))"

subsection \<open>Data\<close>

text \<open>\<open>on_session\<close>: a call of the RTP session with a result in the buffer.\<close>

definition on_session ::
    "(rtp_session \<Rightarrow> ub + (byte list option \<times> rtp_session)) \<Rightarrow> media_session \<Rightarrow>
     ub + (byte list option \<times> media_session)" where
  "on_session call ms =
     (case RTPInterface ms of
        None \<Rightarrow> Inr (None, ms)
      | Some s \<Rightarrow> ub_bind (call s) (\<lambda>(d, s'). Inr (d, ms\<lparr>RTPInterface := Some s'\<rparr>)))"

definition ms_GetMediaData ::
    "bool \<Rightarrow> bool \<Rightarrow> nat \<Rightarrow> u64 \<Rightarrow> media_session \<Rightarrow> ub + (byte list option \<times> media_session)" where
  "ms_GetMediaData bufp sizep cap timeout = on_session (GetMyRTPData bufp sizep cap timeout)"

definition ms_GetMediaPacket ::
    "bool \<Rightarrow> bool \<Rightarrow> nat \<Rightarrow> u64 \<Rightarrow> media_session \<Rightarrow> ub + (byte list option \<times> media_session)" where
  "ms_GetMediaPacket bufp sizep cap timeout = on_session (GetMyRTPPacket bufp sizep cap timeout)"

subsection \<open>MediaInfoCheck\<close>

text \<open>\<open>TimeRate <= 0\<close> on an unsigned member; the index is the first payload type.\<close>

definition MediaInfoCheck :: "media_session \<Rightarrow> ub + (int \<times> media_session)" where
  "MediaInfoCheck ms =
     (case PayloadType ms of
        [] \<Rightarrow> Inr (- 1, ms)
      | pt # pts \<Rightarrow>
          if list_ex (\<lambda>p. p < 0) (pt # pts) then Inr (- 1, ms)
          else if TimeRate ms = 0 then
            ub_bind (rd PT2TimeRateMap (nat pt)) (\<lambda>r. Inr (0, ms\<lparr>TimeRate := r\<rparr>))
          else Inr (0, ms))"

subsection \<open>The socket and the callbacks\<close>

definition map_session :: "(rtp_session \<Rightarrow> rtp_session) \<Rightarrow> media_session \<Rightarrow> media_session" where
  "map_session f ms = ms\<lparr>RTPInterface := map_option f (RTPInterface ms)\<rparr>"

definition ms_LockSocket :: "media_session \<Rightarrow> ub + media_session" where
  "ms_LockSocket ms =
     (case RTPInterface ms of
        None \<Rightarrow> Inr ms
      | Some s \<Rightarrow> ub_bind (session_LockSocket s) (\<lambda>s'. Inr (ms\<lparr>RTPInterface := Some s'\<rparr>)))"

definition ms_UnlockSocket :: "media_session \<Rightarrow> media_session" where
  "ms_UnlockSocket = map_session session_UnlockSocket"

definition ms_GetTunnellingSocket :: "media_session \<Rightarrow> int" where
  "ms_GetTunnellingSocket ms =
     (case RTPInterface ms of None \<Rightarrow> 0 | Some s \<Rightarrow> session_GetTunnellingSocket s)"

definition SetRtpDestroiedClbk :: "nat option \<Rightarrow> media_session \<Rightarrow> media_session" where
  "SetRtpDestroiedClbk clbk = map_session (session_SetDestroiedClbk clbk)"

definition ms_SetRtspCmdClbk :: "nat option \<Rightarrow> media_session \<Rightarrow> media_session" where
  "ms_SetRtspCmdClbk clbk = map_session (session_SetRecvRtspCmdClbk clbk)"

subsection \<open>Lemmas\<close>

lemma PT2TimeRateMap_length [simp]: "length PT2TimeRateMap = 24"
  by (simp add: PT2TimeRateMap_def)

text \<open>The session is ready: it has a clock rate, a port and an RTP session of the right kind.\<close>

definition rtp_ready :: "int \<Rightarrow> media_session \<Rightarrow> bool" where
  "rtp_ready sock ms \<longleftrightarrow> TimeRate ms \<noteq> 0 \<and> RTPPort ms \<noteq> 0 \<and>
     (case RTPInterface ms of
        None \<Rightarrow> False
      | Some s \<Rightarrow> created s \<and> session_kind s = (if sock > 0 then TCP_Session else UDP_Session) \<and>
          (sock > 0 \<longrightarrow> TunnellingSock s = sock))"

lemma RTP_SetUp_ready:
  assumes "RTP_SetUp env sock ms = (rc, ms')" "rc \<noteq> MEDIA_SESSION_ERROR" "RTPInterface ms = None"
  shows "rtp_ready sock ms'"
  using assms
  by (auto simp: RTP_SetUp_def rtp_ready_def tcp_SetUp_def udp_SetUp_def MyTcpCreate_def IsError_def AddDestination_def
      RTP_OK_def RTP_ERROR_def MEDIA_SESSION_OK_def MEDIA_SESSION_ERROR_def new_tcp_session_def new_udp_session_def
      split: if_splits prod.splits)

subsection \<open>Properties\<close>

text \<open>A successful first \<open>RTP_SetUp\<close> leaves a created RTP session of the requested transport (TCP on
  the given socket if it is positive, UDP otherwise), with a positive port and clock rate; a later
  \<open>RTP_Teardown\<close> sends the BYE, clears both ports and removes the session.\<close>

theorem RTP_SetUp_Teardown:
  assumes "RTP_SetUp env sock ms = (MEDIA_SESSION_OK, ms1)" "RTPInterface ms = None"
    and "RTP_Teardown tval ms1 = (rc, bye, ms2)"
  shows "rtp_ready sock ms1 \<and> rc = MEDIA_SESSION_OK \<and> bye = Some (case tval of None \<Rightarrow> (1, 0) | Some t \<Rightarrow> t) \<and>
    ms2 = ms\<lparr>RTPPort := 0, RTCPPort := 0\<rparr>"
proof -
  have r: "rtp_ready sock ms1"
    by (rule RTP_SetUp_ready [OF assms(1) _ assms(2)]) (simp add: MEDIA_SESSION_OK_def MEDIA_SESSION_ERROR_def)
  obtain s where "ms1 = ms\<lparr>RTPInterface := Some s\<rparr>"
    using assms(1,2) by (auto simp: RTP_SetUp_def MEDIA_SESSION_OK_def MEDIA_SESSION_ERROR_def split: if_splits prod.splits)
  moreover have "ms\<lparr>RTCPPort := 0, RTPPort := 0, RTPInterface := None\<rparr> = ms\<lparr>RTPPort := 0, RTCPPort := 0\<rparr>"
    using assms(2) by (cases ms) simp
  ultimately show ?thesis
    using r assms(3)
    by (auto simp: rtp_ready_def RTP_Teardown_def MyRTP_Teardown_def udp_Teardown_def tcp_Teardown_def
        split: session_kind.splits)
qed

theorem RTP_SetUp_Teardown_witness:
  "let env = \<lparr>using_poll_thread = False, need_thread_safety = False, max_packet_size = 1400, init_status = 0,
         trans_status = 0, create_status = 0, new_trylocks = [], new_polls = []\<rparr>;
       ms = new_media_session\<lparr>TimeRate := 90000, RTPPort := 10330, RTCPPort := 10331\<rparr>
   in fst (RTP_SetUp env 0 ms) = MEDIA_SESSION_OK \<and>
     snd (snd (RTP_Teardown None (snd (RTP_SetUp env 0 ms)))) = ms\<lparr>RTPPort := 0, RTCPPort := 0\<rparr>"
proof -
  let ?env = "\<lparr>using_poll_thread = False, need_thread_safety = False, max_packet_size = 1400, init_status = 0,
    trans_status = 0, create_status = 0, new_trylocks = [], new_polls = []\<rparr>"
  let ?ms = "new_media_session\<lparr>TimeRate := 90000, RTPPort := 10330, RTCPPort := 10331\<rparr>"
  obtain ms1 where 1: "RTP_SetUp ?env 0 ?ms = (MEDIA_SESSION_OK, ms1)"
    by (simp add: RTP_SetUp_def udp_SetUp_def new_media_session_def IsError_def RTP_OK_def)
  obtain rc bye ms2 where 2: "RTP_Teardown None ms1 = (rc, bye, ms2)" by (metis prod_cases3)
  show ?thesis
    using RTP_SetUp_Teardown [OF 1 _ 2] 1 2 by (simp add: new_media_session_def)
qed

text \<open>
  a failed setup is reported once only: the RTP session that could not be created stays in
  place, so the next \<open>RTP_SetUp\<close> answers that everything is set up.\<close>

theorem RTP_SetUp_failure_masked:
  assumes "RTP_SetUp env sock ms = (MEDIA_SESSION_ERROR, ms1)" "TimeRate ms \<noteq> 0" "RTPPort ms \<noteq> 0"
  shows "\<exists>s. RTPInterface ms1 = Some s \<and> \<not> created s \<and> RTP_SetUp env' sock' ms1 = (MEDIA_SESSION_OK, ms1)"
  using assms
  by (auto simp: RTP_SetUp_def tcp_SetUp_def udp_SetUp_def MyTcpCreate_def IsError_def AddDestination_def
      RTP_OK_def RTP_ERROR_def MEDIA_SESSION_OK_def MEDIA_SESSION_ERROR_def new_tcp_session_def new_udp_session_def
      split: if_splits prod.splits)

theorem RTP_SetUp_failure_masked_witness:
  "let env = \<lparr>using_poll_thread = False, need_thread_safety = False, max_packet_size = 1400, init_status = 0,
         trans_status = 0, create_status = - 1, new_trylocks = [], new_polls = []\<rparr>;
       ms = new_media_session\<lparr>TimeRate := 90000, RTPPort := 10330\<rparr>; ms1 = snd (RTP_SetUp env 0 ms)
   in fst (RTP_SetUp env 0 ms) = MEDIA_SESSION_ERROR \<and> fst (RTP_SetUp env 0 ms1) = MEDIA_SESSION_OK"
proof -
  let ?env = "\<lparr>using_poll_thread = False, need_thread_safety = False, max_packet_size = 1400, init_status = 0,
    trans_status = 0, create_status = - 1, new_trylocks = [], new_polls = []\<rparr>"
  let ?ms = "new_media_session\<lparr>TimeRate := 90000, RTPPort := 10330\<rparr>"
  obtain ms1 where 1: "RTP_SetUp ?env 0 ?ms = (MEDIA_SESSION_ERROR, ms1)"
    by (simp add: RTP_SetUp_def udp_SetUp_def new_media_session_def IsError_def RTP_ERROR_def)
  show ?thesis
    using RTP_SetUp_failure_masked [OF 1, of ?env 0] 1 by (auto simp: new_media_session_def)
qed

text \<open>\<open>MediaInfoCheck\<close> reads outside its table exactly if the description gave no clock rate and the
  first payload type is 24 or more, as every dynamic type is; otherwise a session with valid payload
  types and a rate keeps it and one without gets that of the table.\<close>

theorem MediaInfoCheck_bounds:
  assumes "PayloadType ms = pt # pts" "\<forall>p \<in> set (pt # pts). 0 \<le> p"
  shows "MediaInfoCheck ms =
    (if TimeRate ms \<noteq> 0 then Inr (0, ms)
     else if pt < 24 then Inr (0, ms\<lparr>TimeRate := PT2TimeRateMap ! nat pt\<rparr>)
     else Inl Overread)"
proof -
  have "\<not> list_ex (\<lambda>p. p < 0) (pt # pts)" using assms(2) by (auto simp: list_ex_iff)
  moreover have "nat pt < 24 \<longleftrightarrow> pt < 24" using assms(2) by auto
  ultimately show ?thesis using assms(1) by (simp add: MediaInfoCheck_def)
qed

theorem MediaInfoCheck_bounds_witness:
  "MediaInfoCheck (new_media_session\<lparr>PayloadType := [96]\<rparr>) = Inl Overread \<and>
   MediaInfoCheck (new_media_session\<lparr>PayloadType := [14]\<rparr>) =
     Inr (0, new_media_session\<lparr>PayloadType := [14], TimeRate := 90000\<rparr>)"
proof -
  have "PT2TimeRateMap ! 14 = 90000" by (simp add: PT2TimeRateMap_def)
  then show ?thesis
    using MediaInfoCheck_bounds [of "new_media_session\<lparr>PayloadType := [96]\<rparr>" 96 "[]"]
      MediaInfoCheck_bounds [of "new_media_session\<lparr>PayloadType := [14]\<rparr>" 14 "[]"]
    by (simp add: new_media_session_def)
qed

end
