(* ===== verification/Sdp.thy ===== *)
theory Sdp
  imports Streams Sdp_Types My_Regex
begin

section \<open>Session descriptions (sdp_data.cpp, sdp_data.h)\<close>

text \<open>
  \<open>SDPData::parse\<close> as a state machine over the lines that \<open>MyRegex::RegexLine\<close> yields:
  \<open>sdp_step\<close> is the body of the loop, \<open>sdp_loop\<close> the loop, \<open>SDPData_parse\<close> the method.
  \<open>sdp_data\<close> holds the members (an \<open>SDPData\<close> is value-initialised, so numbers start at 0),
  \<open>parse_state\<close> adds the locals; the pointer \<open>currentMediaInfo\<close> is the key of the map entry
  it points to. An \<open>int\<close> that an extraction does not write is \<open>Indeterminate\<close>.
\<close>

record sdp_data =
  sdpVersion :: int
  sessionName :: string
  sdpOriginStruct :: sdp_origin
  sdpConnectionData :: sdp_connection
  sdpSessionTime :: sdp_time
  mediaInfoMap :: "(string, sdp_media_info) smap"

definition new_sdp_data :: sdp_data where
  "new_sdp_data =
     \<lparr>sdpVersion = 0, sessionName = [],
      sdpOriginStruct = \<lparr>userName = [], sessionId = 0, version = 0, networkType = [], addressType = [], address = []\<rparr>,
      sdpConnectionData = \<lparr>cNetworkType = [], cAddressType = [], cAddress = []\<rparr>,
      sdpSessionTime = \<lparr>startTime = 0, stopTime = 0\<rparr>, mediaInfoMap = []\<rparr>"

record parse_state =
  sdp :: sdp_data
  sessionInfo :: bool
  mediaInfo :: bool
  timeInfo :: bool
  ssTmp :: sstream
  currentMediaInfo :: "string option"

definition start_state :: "sdp_data \<Rightarrow> parse_state" where
  "start_state d =
     \<lparr>sdp = d, sessionInfo = True, mediaInfo = False, timeInfo = False, ssTmp = ss_new [],
      currentMediaInfo = None\<rparr>"

subsection \<open>The patterns\<close>

definition SDP_LINE_PATTERN :: string where "SDP_LINE_PATTERN = ''([a-zA-Z])=(.*)''"
definition SDP_ORIGIN_PATTERN :: string where
  "SDP_ORIGIN_PATTERN = ''(.*) +(.*) +(.*) +(.*) +(.*) +(.*)''"
definition SDP_CONNECTION_DATA_PATTERN :: string where
  "SDP_CONNECTION_DATA_PATTERN = ''(.*) +(.*) +(.*)''"
definition SDP_SESSION_TIME_PATTERN :: string where "SDP_SESSION_TIME_PATTERN = ''(.*) +(.*)''"
definition SDP_RTPMAP_PATTERN :: string where
  "SDP_RTPMAP_PATTERN = ''rtpmap:(.+) +([0-9A-Za-z]+)/([0-9]+)/?([0-9])?''"
definition SDP_FMTP_H264_PATTERN :: string where
  "SDP_FMTP_H264_PATTERN =
     ''fmtp:(.+) +packetization-mode=([0-2]);.*sprop-parameter-sets=([A-Za-z0-9+/=]+),([A-Za-z0-9+/=]+)''"
definition SDP_FMTP_H265_PATTERN :: string where
  "SDP_FMTP_H265_PATTERN =
     ''fmtp:(.+) .*sprop-vps=([A-Za-z0-9+/=]+);.*sprop-sps=([A-Za-z0-9+/=]+);.*sprop-pps=([A-Za-z0-9+/=]+)''"
definition SDP_CONTROL_PATTERN :: string where "SDP_CONTROL_PATTERN = ''control:(.+)''"

subsection \<open>Taking groups and numbers\<close>

text \<open>\<open>x = gs.front(); gs.pop_front();\<close>\<close>

definition take_front :: "'a list \<Rightarrow> ub + ('a \<times> 'a list)" where
  "take_front g = ub_bind (front g) (\<lambda>x. ub_bind (pop_front g) (\<lambda>r. Inr (x, r)))"

text \<open>\<open>stringstream ss; int payloadId; ss << t; ss >> payloadId;\<close>\<close>

definition payload_id :: "string \<Rightarrow> ub + int" where
  "payload_id t =
     (if skip_ws t = [] then Inl Indeterminate else Inr (fst (ss_get_int 0 (ss_new t))))"

subsection \<open>Session and time lines\<close>

definition sdp_version_line :: "string \<Rightarrow> parse_state \<Rightarrow> parse_state" where
  "sdp_version_line value st =
     (let s1 = ss_put value (ss_str [] (ss_clear (ssTmp st)));
          (v, s2) = ss_get_int (sdpVersion (sdp st)) s1
      in st\<lparr>ssTmp := s2, sdp := (sdp st)\<lparr>sdpVersion := v\<rparr>\<rparr>)"

text \<open>The six groups of the origin line, with the text that goes through the stream.\<close>

definition sdp_origin_fields :: "string list \<Rightarrow> parse_state \<Rightarrow> ub + parse_state" where
  "sdp_origin_fields gs st =
     ub_bind (pop_front gs) (\<lambda>g1.
     let s1 = ss_str [] (ss_clear (ssTmp st)); o1 = sdpOriginStruct (sdp st) in
     ub_bind (front g1) (\<lambda>user.
     ub_bind (take_front g1) (\<lambda>(t1, g2).
     let s2 = ss_put t1 s1; (sid, s3) = ss_get_long (sessionId o1) s2 in
     ub_bind (take_front g2) (\<lambda>(t2, g3).
     let s4 = ss_put t2 s3; (ver, s5) = ss_get_long (version o1) s4 in
     ub_bind (take_front g3) (\<lambda>(nt, g4).
     ub_bind (take_front g4) (\<lambda>(adt, g5).
     ub_bind (take_front g5) (\<lambda>(ad, g6).
     Inr (st\<lparr>ssTmp := s5, sdp := (sdp st)\<lparr>sdpOriginStruct :=
       o1\<lparr>userName := user, sessionId := sid, version := ver, networkType := nt,
          addressType := adt, address := ad\<rparr>\<rparr>\<rparr>))))))))"

definition sdp_connection_fields :: "string list \<Rightarrow> parse_state \<Rightarrow> ub + parse_state" where
  "sdp_connection_fields gs st =
     ub_bind (pop_front gs) (\<lambda>g1.
     ub_bind (take_front g1) (\<lambda>(nt, g2).
     ub_bind (take_front g2) (\<lambda>(adt, g3).
     ub_bind (take_front g3) (\<lambda>(ad, g4).
     Inr (st\<lparr>sdp := (sdp st)\<lparr>sdpConnectionData :=
       \<lparr>cNetworkType = nt, cAddressType = adt, cAddress = ad\<rparr>\<rparr>\<rparr>)))))"

definition sdp_origin_line :: "string \<Rightarrow> parse_state \<Rightarrow> ub + parse_state" where
  "sdp_origin_line value st =
     ub_bind (case rx_groups value SDP_ORIGIN_PATTERN of
                None \<Rightarrow> Inr st | Some g \<Rightarrow> sdp_origin_fields g st) (\<lambda>st1.
     case rx_groups value SDP_CONNECTION_DATA_PATTERN of
       None \<Rightarrow> Inr st1 | Some g \<Rightarrow> sdp_connection_fields g st1)"

definition sdp_time_fields :: "string list \<Rightarrow> parse_state \<Rightarrow> ub + parse_state" where
  "sdp_time_fields gs st =
     ub_bind (pop_front gs) (\<lambda>g1.
     let s1 = ss_str [] (ss_clear (ssTmp st)); tm = sdpSessionTime (sdp st) in
     ub_bind (take_front g1) (\<lambda>(t1, g2).
     let s2 = ss_put t1 s1; (start, s3) = ss_get_long (startTime tm) s2 in
     ub_bind (take_front g2) (\<lambda>(t2, g3).
     let s4 = ss_put t2 s3; (stop, s5) = ss_get_long (stopTime tm) s4 in
     Inr (st\<lparr>ssTmp := s5, sdp := (sdp st)\<lparr>sdpSessionTime := \<lparr>startTime = start, stopTime = stop\<rparr>\<rparr>\<rparr>))))"

subsection \<open>Media lines\<close>

text \<open>\<open>while(ssTmp && !tmp.empty())\<close>: the payload types that follow the transport.\<close>

function media_formats :: "string \<Rightarrow> sstream \<Rightarrow> sdp_media_info \<Rightarrow> ub + (sstream \<times> sdp_media_info)" where
  "media_formats tmp s info =
     (if ss_fail s \<or> tmp = [] then Inr (s, info)
      else ub_bind (payload_id tmp) (\<lambda>pid.
        let attrs = (case smap_find (fmtMap info) pid of None \<Rightarrow> [] | Some a \<Rightarrow> a);
            info' = info\<lparr>fmtMap := smap_set pid (smap_set MEDIA_TYPE_NAME (mediaType info) attrs) (fmtMap info)\<rparr>
        in case ss_get_word tmp s of (tmp', s') \<Rightarrow> media_formats tmp' s' info'))"
  by pat_completeness auto

termination
proof (relation "measure (\<lambda>(tmp, s, info). (if ss_fail s then 0 else Suc (length (ss_buf s))))")
  fix tmp s info pid attrs info' x tmp' s'
  assume *: "\<not> (ss_fail s \<or> tmp = [])" "(tmp', s') = ss_get_word tmp s"
  then show "((tmp', s', info'), (tmp, s, info)) \<in>
      measure (\<lambda>(tmp, s, info). (if ss_fail s then 0 else Suc (length (ss_buf s))))"
    using ss_get_word_shorter [of tmp s tmp' s'] by (cases "ss_fail s'") auto
qed simp

declare media_formats.simps [simp del]

definition sdp_media_line :: "string \<Rightarrow> parse_state \<Rightarrow> ub + parse_state" where
  "sdp_media_line value st =
     (let s0 = ss_str value (ss_clear (ssTmp st));
          (tmp, s1) = ss_get_word [] s0;
          info0 = (case smap_find (mediaInfoMap (sdp st)) tmp of None \<Rightarrow> empty_media_info | Some i \<Rightarrow> i);
          info1 = info0\<lparr>mediaType := tmp\<rparr>;
          (p, s2) = ss_get_word (ports info1) s1;
          (t, s3) = ss_get_word (transProt info1) s2;
          info2 = info1\<lparr>ports := p, transProt := t\<rparr>;
          (tmp', s4) = ss_get_word tmp s3
      in ub_bind (media_formats tmp' s4 info2) (\<lambda>(s5, info3).
         Inr (st\<lparr>ssTmp := s5, currentMediaInfo := Some tmp,
           sdp := (sdp st)\<lparr>mediaInfoMap := smap_set tmp info3 (mediaInfoMap (sdp st))\<rparr>\<rparr>)))"

subsection \<open>Attribute lines\<close>

text \<open>Storing the next groups under the given attributes of a payload type.\<close>

fun store_groups :: "sdp_attr list \<Rightarrow> string list \<Rightarrow> attr_map \<Rightarrow> ub + (string list \<times> attr_map)" where
  "store_groups [] gs attrs = Inr (gs, attrs)"
| "store_groups (a # as) gs attrs =
     ub_bind (take_front gs) (\<lambda>(v, gs'). store_groups as gs' (smap_set a v attrs))"

definition rtpmap_fields :: "string list \<Rightarrow> sdp_media_info \<Rightarrow> ub + sdp_media_info" where
  "rtpmap_fields gs info =
     ub_bind (pop_front gs) (\<lambda>g1.
     ub_bind (take_front g1) (\<lambda>(t, g2).
     ub_bind (payload_id t) (\<lambda>pid.
     case smap_find (fmtMap info) pid of
       None \<Rightarrow> Inr info
     | Some attrs \<Rightarrow>
         ub_bind (store_groups [CODEC_TYPE, TIME_RATE] g2 attrs) (\<lambda>(g3, attrs1).
         let attrs2 = smap_set CHANNEL_NUM ''1'' attrs1 in
         ub_bind (if g3 = [] then Inr attrs2
                  else ub_bind (take_front g3) (\<lambda>(ch, g4). Inr (smap_set CHANNEL_NUM ch attrs2))) (\<lambda>attrs3.
         Inr (info\<lparr>fmtMap := smap_set pid attrs3 (fmtMap info)\<rparr>))))))"

definition fmtp_fields :: "sdp_attr list \<Rightarrow> string list \<Rightarrow> sdp_media_info \<Rightarrow> ub + sdp_media_info" where
  "fmtp_fields as gs info =
     ub_bind (pop_front gs) (\<lambda>g1.
     ub_bind (take_front g1) (\<lambda>(t, g2).
     ub_bind (payload_id t) (\<lambda>pid.
     case smap_find (fmtMap info) pid of
       None \<Rightarrow> Inr info
     | Some attrs \<Rightarrow>
         ub_bind (store_groups as g2 attrs) (\<lambda>(g3, attrs').
         Inr (info\<lparr>fmtMap := smap_set pid attrs' (fmtMap info)\<rparr>)))))"

definition sdp_attribute :: "string \<Rightarrow> sdp_media_info \<Rightarrow> ub + sdp_media_info" where
  "sdp_attribute value info =
     (case rx_groups value SDP_RTPMAP_PATTERN of
        Some g \<Rightarrow> rtpmap_fields g info
      | None \<Rightarrow>
          (case (if mediaType info = ''video'' then rx_groups value SDP_FMTP_H265_PATTERN else None) of
             Some g \<Rightarrow> fmtp_fields [ATTR_VPS, ATTR_SPS, ATTR_PPS] g info
           | None \<Rightarrow>
               (case (if mediaType info = ''video'' then rx_groups value SDP_FMTP_H264_PATTERN else None) of
                  Some g \<Rightarrow> fmtp_fields [PACK_MODE, ATTR_SPS, ATTR_PPS] g info
                | None \<Rightarrow>
                    (case rx_groups value SDP_CONTROL_PATTERN of
                       Some g \<Rightarrow>
                         ub_bind (pop_front g) (\<lambda>g1. ub_bind (take_front g1) (\<lambda>(u, g2).
                           Inr (info\<lparr>controlURI := u\<rparr>)))
                     | None \<Rightarrow> Inr info))))"

text \<open>The debug output dereferences \<open>currentMediaInfo\<close> before the tests for null.\<close>

definition sdp_attribute_line :: "string \<Rightarrow> parse_state \<Rightarrow> ub + parse_state" where
  "sdp_attribute_line value st =
     (case currentMediaInfo st of
        None \<Rightarrow> Inl NullDeref
      | Some k \<Rightarrow>
          (case smap_find (mediaInfoMap (sdp st)) k of
             None \<Rightarrow> Inl NullDeref
           | Some info \<Rightarrow>
               ub_bind (sdp_attribute value info) (\<lambda>info'.
               Inr (st\<lparr>sdp := (sdp st)\<lparr>mediaInfoMap := smap_set k info' (mediaInfoMap (sdp st))\<rparr>\<rparr>))))"

subsection \<open>The loop\<close>

definition set_section :: "string \<Rightarrow> parse_state \<Rightarrow> parse_state" where
  "set_section key st =
     (if key = ''s'' then st\<lparr>sessionInfo := True, mediaInfo := False, timeInfo := False\<rparr>
      else if key = ''m'' then st\<lparr>sessionInfo := False, mediaInfo := True, timeInfo := False\<rparr>
      else if key = ''t'' then st\<lparr>sessionInfo := False, mediaInfo := False, timeInfo := True\<rparr>
      else st)"

definition sdp_session_part :: "string \<Rightarrow> string \<Rightarrow> parse_state \<Rightarrow> ub + parse_state" where
  "sdp_session_part key value st =
     (if \<not> sessionInfo st then Inr st
      else if key = ''s'' then Inr (st\<lparr>sdp := (sdp st)\<lparr>sessionName := value\<rparr>\<rparr>)
      else if key = ''v'' then Inr (sdp_version_line value st)
      else if key = ''o'' then sdp_origin_line value st
      else Inr st)"

definition sdp_time_part :: "string \<Rightarrow> string \<Rightarrow> parse_state \<Rightarrow> ub + parse_state" where
  "sdp_time_part key value st =
     (if timeInfo st \<and> key = ''t'' then
        (case rx_groups value SDP_SESSION_TIME_PATTERN of
           None \<Rightarrow> Inr st | Some g \<Rightarrow> sdp_time_fields g st)
      else Inr st)"

definition sdp_media_part :: "string \<Rightarrow> string \<Rightarrow> parse_state \<Rightarrow> ub + parse_state" where
  "sdp_media_part key value st =
     (if \<not> mediaInfo st then Inr st
      else if key = ''m'' then sdp_media_line value st
      else if key = ''a'' then sdp_attribute_line value st
      else Inr st)"

text \<open>The body of the loop for the groups of a line (empty if the line did not match).\<close>

definition sdp_step :: "string list \<Rightarrow> parse_state \<Rightarrow> ub + parse_state" where
  "sdp_step gs st =
     (if gs = [] then Inr st
      else
        ub_bind (pop_front gs) (\<lambda>g1.
        ub_bind (pop_front g1) (\<lambda>g2.
        ub_bind (take_front g2) (\<lambda>(key, g3).
        ub_bind (take_front g3) (\<lambda>(value, g4).
        ub_bind (sdp_session_part key value (set_section key st)) (\<lambda>st1.
        ub_bind (sdp_time_part key value st1) (\<lambda>st2.
        sdp_media_part key value st2)))))))"

text \<open>\<open>while(regex.RegexLine(&sdp, &pattern, &gs))\<close>, the text at the address 1.\<close>

definition rx_todo :: "string \<Rightarrow> my_regex \<Rightarrow> nat" where
  "rx_todo text rs =
     (if LastStr rs \<noteq> Some 1 then Suc (Suc (Suc (length text)))
      else case NextPos rs of None \<Rightarrow> 0 | Some p \<Rightarrow> Suc (Suc (length text) - p))"

lemma RegexLine_progress:
  assumes "(rc, rs', g') = MyRegex_RegexLine rs (Some (1, text)) (Some p) (Some g) ic" "rc \<noteq> 0"
  shows "rx_todo text rs' < rx_todo text rs"
proof -
  obtain np where np: "(if LastStr rs \<noteq> Some 1 then Some 0 else NextPos rs) = Some np"
    using assms by (cases "if LastStr rs \<noteq> Some 1 then Some 0 else NextPos rs") (simp_all add: RegexLine_eq)
  then have rs': "rs' = \<lparr>LastStr = Some 1, NextPos = snd (next_line text np)\<rparr>"
    using assms(1) by (simp only: RegexLine_eq option.case prod.inject)
  show ?thesis
  proof (cases "snd (next_line text np)")
    case None
    then show ?thesis using rs' np by (auto simp: rx_todo_def split: if_splits)
  next
    case (Some q)
    then have "np < q" "q \<le> length text"
      using next_line_progress [of "text" np "fst (next_line text np)" q] by (auto simp: prod_eq_iff)
    then show ?thesis using rs' np Some by (auto simp: rx_todo_def split: if_splits)
  qed
qed

function sdp_loop :: "string \<Rightarrow> my_regex \<Rightarrow> parse_state \<Rightarrow> ub + parse_state" where
  "sdp_loop text rs st =
     (case MyRegex_RegexLine rs (Some (1, text)) (Some SDP_LINE_PATTERN) (Some []) False of
        (rc, rs', gs) \<Rightarrow>
          if rc = 0 then Inr st
          else case sdp_step (the gs) st of
            Inl e \<Rightarrow> Inl e
          | Inr st' \<Rightarrow> sdp_loop text rs' st')"
  by pat_completeness auto

termination
  by (relation "measure (\<lambda>(text, rs, st). rx_todo text rs)") (auto dest: RegexLine_progress [unfolded One_nat_def])

declare sdp_loop.simps [simp del]

definition SDPData_parse :: "string \<Rightarrow> sdp_data \<Rightarrow> ub + sdp_data" where
  "SDPData_parse text d =
     ub_bind (sdp_loop text new_my_regex (start_state d)) (\<lambda>st. Inr (sdp st))"

end
