(* ===== verification/Regex_Fields.thy ===== *)
theory Regex_Fields
  imports My_Regex
begin

section \<open>Blank-separated fields\<close>

text \<open>
  The patterns \<open>(.*) +(.*) +...\<close>, with \<open>n\<close> separators, on a text that ends with \<open>n\<close> words:
  the last groups are these words and the first group is everything before them, blanks included
  (\<open>rx_groups_fields\<close>).
\<close>

fun group_free :: "re \<Rightarrow> bool" where
  "group_free (Cat r s) \<longleftrightarrow> group_free r \<and> group_free s"
| "group_free (Alt r s) \<longleftrightarrow> group_free r \<and> group_free s"
| "group_free (Star r) \<longleftrightarrow> group_free r"
| "group_free (Group i r) \<longleftrightarrow> False"
| "group_free r \<longleftrightarrow> True"

lemma captures_group_free: "group_free r \<Longrightarrow> captures r off w = []"
  by (induction r off w rule: captures.induct) (auto split: option.split)

lemma star_Dot: "w \<in> star {[c] | c. in_cls True [] c}"
proof (induction w)
  case (Cons c w)
  have "[c] @ w \<in> star {[c] | c. in_cls True [] c}" by (rule star_app) (use Cons in auto)
  then show ?case by simp
qed auto

abbreviation Blank :: re where "Blank \<equiv> Lit CHR '' ''"

abbreviation Blanks :: re where "Blanks \<equiv> Cat Blank (Star Blank)"

fun fields_re :: "nat \<Rightarrow> nat \<Rightarrow> re" where
  "fields_re i 0 = Group i (Star Dot)"
| "fields_re i (Suc n) = Cat (Group i (Star Dot)) (Cat Blanks (fields_re (Suc i) n))"

fun sp_join :: "string list \<Rightarrow> string" where
  "sp_join [] = []"
| "sp_join (w # ws) = (if ws = [] then w else w @ CHR '' '' # sp_join ws)"

fun field_caps :: "nat \<Rightarrow> nat \<Rightarrow> string list \<Rightarrow> (nat \<times> nat \<times> nat) list" where
  "field_caps i off [] = []"
| "field_caps i off (w # ws) = (i, off, off + length w) # field_caps (Suc i) (off + length w + 1) ws"

definition word_ok :: "string \<Rightarrow> bool" where
  "word_ok w \<longleftrightarrow> w \<noteq> [] \<and> CHR '' '' \<notin> set w"

lemma lang_CatI: "u \<in> lang r \<Longrightarrow> v \<in> lang s \<Longrightarrow> u @ v \<in> lang (Cat r s)"
  by auto

lemma in_Dots: "w \<in> lang (Group i (Star Dot))"
  using star_Dot by simp

lemma fields_re_blanks: "w \<in> lang (fields_re i n) \<Longrightarrow> n \<le> count_list w CHR '' ''"
proof (induction n arbitrary: i w)
  case (Suc n)
  then obtain a b c where w: "w = a @ b @ c" "b \<in> lang Blanks" "c \<in> lang (fields_re (Suc i) n)"
    by auto
  have "1 \<le> count_list b CHR '' ''" using w(2) by auto
  moreover have "n \<le> count_list c CHR '' ''" using Suc.IH w(3) by blast
  ultimately show ?case using w(1) by simp
qed simp

lemma Blanks_fields_blanks: "w \<in> lang (Cat Blanks (fields_re i n)) \<Longrightarrow> Suc n \<le> count_list w CHR '' ''"
  using fields_re_blanks [of _ i n] by fastforce

lemma join_in_fields: "length ws = n \<Longrightarrow> sp_join (u # ws) \<in> lang (fields_re i n)"
proof (induction ws arbitrary: u i n)
  case Nil
  then show ?case using in_Dots by auto
next
  case (Cons w ws)
  then obtain m where n: "n = Suc m" "length ws = m" by auto
  have "[CHR '' ''] \<in> lang Blanks" by auto
  moreover have "sp_join (w # ws) \<in> lang (fields_re (Suc i) m)" using Cons.IH n by blast
  ultimately have "[CHR '' ''] @ sp_join (w # ws) \<in> lang (Cat Blanks (fields_re (Suc i) m))"
    by (rule lang_CatI)
  then have "u @ [CHR '' ''] @ sp_join (w # ws) \<in> lang (fields_re i n)"
    unfolding n(1) fields_re.simps(2) by (rule lang_CatI [OF in_Dots])
  then show ?case by simp
qed

lemma count_list_words: "\<forall>w \<in> set ws. word_ok w \<Longrightarrow> count_list (sp_join ws) CHR '' '' = length ws - 1"
proof (induction ws)
  case (Cons w ws)
  then have "count_list w CHR '' '' = 0" by (auto simp: word_ok_def count_list_0_iff)
  then show ?case using Cons by (cases ws) auto
qed simp

lemma captures_fields:
  assumes "\<forall>w \<in> set ws. word_ok w" "length ws = n"
  shows "captures (fields_re i n) off (sp_join (u # ws)) = field_caps i off (u # ws)"
  using assms
proof (induction ws arbitrary: u i n off)
  case Nil
  then show ?case by (simp add: captures_group_free)
next
  case (Cons w ws)
  then obtain m where n: "n = Suc m" "length ws = m" by auto
  let ?rest = "CHR '' '' # sp_join (w # ws)" and ?R = "Cat Blanks (fields_re (Suc i) m)"
  have j: "sp_join (u # w # ws) = u @ ?rest" by simp
  have wsm: "sp_join (w # ws) \<in> lang (fields_re (Suc i) m)" using join_in_fields n(2) by blast
  have b: "[CHR '' ''] \<in> lang Blanks" by auto
  have rest: "?rest \<in> lang ?R"
    using lang_CatI [OF b wsm] by (simp only: append.simps)
  have 1: "split_max (Group i (Star Dot)) ?R (u @ ?rest) (length (u @ ?rest)) = Some (length u)"
  proof (rule split_max_greatest)
    fix k assume k: "length u < k" "k \<le> length (u @ ?rest)"
    then obtain l where "k = length u + Suc l" by (metis add_Suc_right less_imp_Suc_add)
    then have d: "drop k (u @ ?rest) = drop l (sp_join (w # ws))"
      by (simp del: sp_join.simps)
    have "count_list (drop l xs) c \<le> count_list xs c" for l c and xs :: string
      by (metis append_take_drop_id count_list_append le_add2)
    then have "count_list (drop k (u @ ?rest)) CHR '' '' \<le> count_list (sp_join (w # ws)) CHR '' ''"
      unfolding d by blast
    also have "\<dots> = m" using count_list_words [of "w # ws"] Cons.prems n by simp
    finally have "drop k (u @ ?rest) \<notin> lang ?R"
      using Blanks_fields_blanks [of "drop k (u @ ?rest)" "Suc i" m] by linarith
    then show "take k (u @ ?rest) \<notin> lang (Group i (Star Dot)) \<or> drop k (u @ ?rest) \<notin> lang ?R" ..
  qed (use in_Dots rest in simp_all)
  obtain c v where cv: "sp_join (w # ws) = c # v" "c \<noteq> CHR '' ''"
    using Cons.prems by (cases w; cases "ws = []") (auto simp: word_ok_def)
  have 2: "split_max Blanks (fields_re (Suc i) m) ?rest (length ?rest) = Some 1"
  proof (rule split_max_greatest)
    fix k assume "1 < k" "k \<le> length ?rest"
    then obtain l where k: "take k ?rest = CHR '' '' # c # take l v"
      using cv by (cases k; cases "k - 1") auto
    have "c # x \<notin> lang (Star Blank)" for x
      using cv(2) by (simp add: star_Cons)
    then have "take k ?rest \<notin> lang Blanks" unfolding k by auto
    then show "take k ?rest \<notin> lang Blanks \<or> drop k ?rest \<notin> lang (fields_re (Suc i) m)" ..
  qed (use b wsm in simp_all)
  have t: "take (length u) (u @ ?rest) = u" "drop (length u) (u @ ?rest) = ?rest"
    "take 1 ?rest = [CHR '' '']" "drop 1 ?rest = sp_join (w # ws)" by simp_all
  have "captures (fields_re i n) off (u @ ?rest) =
      captures (Group i (Star Dot)) off u @ captures Blanks (off + length u) [CHR '' ''] @
      captures (fields_re (Suc i) m) (off + length u + 1) (sp_join (w # ws))"
    unfolding n(1) fields_re.simps(2)
    by (subst captures.simps(1), subst 1) (simp only: option.case t, subst captures.simps(1), subst 2,
      simp only: option.case t)
  moreover have "captures (Group i (Star Dot)) off u = [(i, off, off + length u)]"
    by (simp add: captures_group_free)
  moreover have "captures Blanks (off + length u) [CHR '' ''] = []"
    by (rule captures_group_free) simp
  ultimately show ?case
    using Cons.IH [of m "Suc i" "off + length u + 1" w] Cons.prems n unfolding j by simp
qed

lemma field_caps_bounds: "(j, a, b) \<in> set (field_caps i off ws) \<Longrightarrow> i \<le> j"
  by (induction ws arbitrary: i off) (auto, fastforce)

lemma field_caps_map_of:
  assumes "(j, a, b) \<in> set (field_caps i off ws)"
  shows "map_of (rev (field_caps i off ws)) j = Some (a, b)"
  using assms
proof (induction ws arbitrary: i off)
  case (Cons w ws)
  show ?case
  proof (cases "j = i")
    case True
    then have "(a, b) = (off, off + length w)" "j \<notin> fst ` set (field_caps (Suc i) (off + length w + 1) ws)"
      using Cons.prems field_caps_bounds by fastforce+
    then have "map_of (rev (field_caps (Suc i) (off + length w + 1) ws)) j = None"
      by (simp add: map_of_eq_None_iff)
    then show ?thesis using True \<open>(a, b) = _\<close> by (simp add: map_add_def)
  next
    case False
    then show ?thesis using Cons by (simp add: map_add_def)
  qed
qed simp

lemma field_texts:
  assumes "\<forall>(j, a, b) \<in> set (field_caps i (length pre) ws). pm j = Some (a, b)"
    "\<forall>w \<in> set ws. length w < 2048" "ws \<noteq> []"
  shows "List.map_filter (group_text (pre @ sp_join ws) pm) [i..<i + length ws] = ws"
  using assms
proof (induction ws arbitrary: i pre)
  case (Cons w ws)
  have pm: "pm i = Some (length pre, length pre + length w)" using Cons.prems(1) by simp
  have g: "group_text (pre @ sp_join (w # ws)) pm i = Some w"
    using Cons.prems(2) pm by (simp add: group_text_def Substr_def REGEX_BUF_SIZE_def Let_def)
  have u: "[i..<i + length (w # ws)] = i # [Suc i..<Suc i + length ws]"
    by (simp add: upt_rec)
  show ?case
  proof (cases "ws = []")
    case True
    then show ?thesis using g by (simp add: List.map_filter_simps)
  next
    case False
    have "List.map_filter (group_text ((pre @ w @ [CHR '' '']) @ sp_join ws) pm) [Suc i..<Suc i + length ws] = ws"
      using Cons.prems False by (intro Cons.IH) auto
    then show ?thesis using g False unfolding u by (simp add: List.map_filter_simps)
  qed
qed simp

text \<open>The groups of a field pattern.\<close>

lemma rx_groups_fields:
  assumes p: "regcomp (cstr p) = Some \<lparr>at_start = False, at_end = False, expr = fields_re 1 n\<rparr>"
    "count_list (cstr p) CHR ''('' = Suc n"
    and ws: "\<forall>w \<in> set ws. word_ok w" "length ws = n"
    and s: "CHR 0x00 \<notin> set (sp_join (u # ws))" "length (sp_join (u # ws)) < 2048"
  shows "rx_groups (sp_join (u # ws)) p = Some (sp_join (u # ws) # u # ws)"
proof -
  let ?s = "sp_join (u # ws)" and ?caps = "field_caps 1 0 (u # ws)"
  have cs: "cstr ?s = ?s" by (rule cstr_id [OF s(1)])
  have "take (length ?s) ?s \<in> lang (fields_re 1 n)" using join_in_fields [OF ws(2)] by simp
  then obtain k where k: "longest (fields_re 1 n) ?s = Some k" "min (length ?s) (length ?s) \<le> k"
    using longest_greatest by blast
  then have "k = length ?s" using longest_Some [OF k(1)] by simp
  then have "search False False (fields_re 1 n) ?s 0 = Some (0, length ?s)"
    using k(1) by (subst search.simps) (simp add: match_here_def del: sp_join.simps)
  then have r: "regexec \<lparr>at_start = False, at_end = False, expr = fields_re 1 n\<rparr> ?s =
      Some ((map_of (rev ?caps)) (0 \<mapsto> (0, length ?s)))"
    using captures_fields [OF ws, of 1 0 u]
    by (simp add: regexec_def del: sp_join.simps field_caps.simps rev.simps One_nat_def)
  let ?pm = "(map_of (rev ?caps)) (0 \<mapsto> (0, length ?s))"
  have pm: "\<forall>(j, a, b) \<in> set ?caps. ?pm j = Some (a, b)"
    using field_caps_map_of [of _ _ _ 1 0 "u # ws"] field_caps_bounds [of _ _ _ 1 0 "u # ws"]
    by (fastforce simp del: field_caps.simps rev.simps sp_join.simps One_nat_def)
  have len: "w \<in> set xs \<Longrightarrow> length w \<le> length (sp_join xs)" for w xs
    by (induction xs) auto
  have "List.map_filter (group_text ([] @ ?s) ?pm) [1..<1 + length (u # ws)] = u # ws"
    using pm len [of _ "u # ws"] s(2)
    by (intro field_texts) (fastforce simp del: sp_join.simps field_caps.simps One_nat_def)+
  moreover have "[0..<Suc (Suc n)] = 0 # [1..<1 + length (u # ws)]"
    using ws(2) by (simp add: upt_rec)
  moreover have "group_text ?s ?pm 0 = Some ?s"
    using s(2) by (simp add: group_text_def Substr_def REGEX_BUF_SIZE_def Let_def del: sp_join.simps)
  ultimately have g: "?s # u # ws = List.map_filter (group_text ?s ?pm) [0..<Suc (Suc n)]"
    by (simp add: List.map_filter_simps del: sp_join.simps field_caps.simps rev.simps upt_Suc One_nat_def)
  show ?thesis
    unfolding rx_groups_Some p cs compiled.simps by (intro exI conjI) (rule refl, rule r, rule g)
qed

end
