(* ===== verification/Sdp_Lines.thy ===== *)
theory Sdp_Lines
  imports Sdp Regex_Fields
begin

section \<open>How descriptions are read\<close>

text \<open>
  The loop of \<open>SDPData::parse\<close> as a pass over the lines of the text, the invariant of the parser,
  and what the handlers of the single line types do. A line \<open>k=v\<close> goes through the pattern
  \<open>SDP_LINE_PATTERN\<close>, whose match is worked out once and for all in \<open>sdp_line_groups\<close>.
\<close>

subsection \<open>The loop is a pass over the lines\<close>

primrec sdp_steps :: "string list \<Rightarrow> parse_state \<Rightarrow> ub + parse_state" where
  "sdp_steps [] st = Inr st"
| "sdp_steps (l # ls) st =
     ub_bind (sdp_step (line_groups l SDP_LINE_PATTERN) st) (sdp_steps ls)"

lemma sdp_loop_started:
  "sdp_loop text \<lparr>LastStr = Some 1, NextPos = pos\<rparr> st = sdp_steps (lines_from text pos) st"
proof (induction "text" pos arbitrary: st rule: lines_from.induct)
  case (1 s pos)
  show ?case
  proof (cases pos)
    case None
    then show ?thesis
      by (subst sdp_loop.simps) (simp add: RegexLine_eq lines_from.simps)
  next
    case (Some np)
    obtain l pos' where nl: "next_line s np = (l, pos')" by fastforce
    have ls: "lines_from s pos = l # lines_from s pos'"
      using Some nl by (subst lines_from.simps) simp
    have "sdp_loop s \<lparr>LastStr = Some 1, NextPos = pos\<rparr> st =
      (case sdp_step (line_groups l SDP_LINE_PATTERN) st of Inl e \<Rightarrow> Inl e
       | Inr st' \<Rightarrow> sdp_loop s \<lparr>LastStr = Some 1, NextPos = pos'\<rparr> st')"
      using Some nl by (subst sdp_loop.simps) (simp add: RegexLine_eq del: One_nat_def)
    then show ?thesis
      using 1 [OF Some nl [symmetric]] by (simp add: ls ub_bind_def split: sum.split)
  qed
qed

lemma sdp_loop_new: "sdp_loop text new_my_regex st = sdp_steps (lines_from text (Some 0)) st"
proof -
  have "sdp_loop text new_my_regex st = sdp_loop text \<lparr>LastStr = Some 1, NextPos = Some 0\<rparr> st"
    by (subst (1 2) sdp_loop.simps) (simp add: RegexLine_eq new_my_regex_def)
  then show ?thesis by (simp only: sdp_loop_started)
qed

lemma SDPData_parse_steps:
  "SDPData_parse text d =
   ub_bind (sdp_steps (lines_from text (Some 0)) (start_state d)) (\<lambda>st. Inr (sdp st))"
  by (simp only: SDPData_parse_def sdp_loop_new)

lemma sdp_steps_invariant:
  assumes step: "\<And>gs st st'. P st \<Longrightarrow> sdp_step gs st = Inr st' \<Longrightarrow> P st'"
    and "P st" "sdp_steps ls st = Inr st'"
  shows "P st'"
  using assms(2,3) by (induction ls arbitrary: st) (auto simp: ub_bind_eq_Inr intro: step)

lemma sdp_steps_error:
  assumes "\<And>gs st st'. P st \<Longrightarrow> sdp_step gs st = Inr st' \<Longrightarrow> P st'"
    and "\<And>gs st. P st \<Longrightarrow> sdp_step gs st \<noteq> Inl e" and "P st"
  shows "sdp_steps ls st \<noteq> Inl e"
  using assms(3)
proof (induction ls arbitrary: st)
  case (Cons l ls)
  then show ?case
    using assms(1,2) by (cases "sdp_step (line_groups l SDP_LINE_PATTERN) st") auto
qed simp

subsection \<open>A line and its groups\<close>

definition is_letter :: "char \<Rightarrow> bool" where
  "is_letter c \<longleftrightarrow> in_cls False [(CHR ''a'', CHR ''z''), (CHR ''A'', CHR ''Z'')] c"

abbreviation Letter :: re where
  "Letter \<equiv> Cls False [(CHR ''a'', CHR ''z''), (CHR ''A'', CHR ''Z'')]"

abbreviation line_re :: re where
  "line_re \<equiv> Cat (Group 1 Letter) (Cat (Lit CHR ''='') (Group 2 (Star Dot)))"

lemma regcomp_line: "regcomp (cstr SDP_LINE_PATTERN) =
  Some \<lparr>at_start = False, at_end = False, expr = line_re\<rparr>"
  by code_simp

lemma count_line: "count_list (cstr SDP_LINE_PATTERN) CHR ''('' = 2"
  by code_simp

lemma longest_Star_Dot: "longest (Star Dot) v = Some (length v)"
  by (induction v) (simp_all add: mk_cat_def)

lemma longest_Group_Dot: "longest (Group i (Star Dot)) v = Some (length v)"
  by (cases v) (simp_all add: mk_cat_def longest_Star_Dot)

lemma search_line:
  assumes "is_letter k" "\<forall>c \<in> set pre. \<not> is_letter c"
  shows "search False False line_re (pre @ k # CHR ''='' # v) i =
    Some (i + length pre, i + length pre + length v + 2)"
  using assms(2)
proof (induction pre arbitrary: i)
  case Nil
  have "match_here False line_re (k # CHR ''='' # v) = Some (length v + 2)"
    using assms(1) by (simp add: match_here_def is_letter_def mk_cat_def longest_Group_Dot)
  then show ?case by (subst search.simps) simp
next
  case (Cons c pre)
  then have "match_here False line_re (c # pre @ k # CHR ''='' # v) = None"
    by (simp add: match_here_def is_letter_def mk_cat_def)
  then show ?case using Cons by (subst search.simps) simp
qed

lemma split_max_single:
  assumes "lang r \<subseteq> {[c] | c. True}" "[c] \<in> lang r" "w \<in> lang s"
  shows "split_max r s (c # w) (length (c # w)) = Some 1"
proof (rule split_max_greatest)
  show "take 1 (c # w) \<in> lang r" "drop 1 (c # w) \<in> lang s" using assms by simp_all
  show "take n (c # w) \<notin> lang r \<or> drop n (c # w) \<notin> lang s" if "1 < n" "n \<le> length (c # w)" for n
  proof -
    have len: "u \<in> lang r \<Longrightarrow> length u = 1" for u using assms(1) by auto
    have "length (take n (c # w)) = n" using that by simp
    then show ?thesis using that len [of "take n (c # w)"] by auto
  qed
qed simp

lemma captures_line:
  assumes "is_letter k"
  shows "(1, off, off + 1) \<in> set (captures line_re off (k # CHR ''='' # v))"
    and "captures line_re off (k # CHR ''='' # v) =
      [(1, off, off + 1), (2, off + 2, off + 2 + length v)] @ captures (Star Dot) (off + 2) v"
proof -
  have v: "v \<in> lang (Group 2 (Star Dot))" using star_Dot by simp
  have e: "CHR ''='' # v \<in> lang (Cat (Lit CHR ''='') (Group 2 (Star Dot)))"
    using v by (auto simp: Cons_eq_append_conv)
  have 1: "split_max (Group 1 Letter) (Cat (Lit CHR ''='') (Group 2 (Star Dot))) (k # CHR ''='' # v)
      (length (k # CHR ''='' # v)) = Some 1"
    by (rule split_max_single [OF _ _ e]) (use assms in \<open>auto simp: is_letter_def\<close>)
  have 2: "split_max (Lit CHR ''='') (Group 2 (Star Dot)) (CHR ''='' # v) (length (CHR ''='' # v)) = Some 1"
    by (rule split_max_single [OF _ _ v]) auto
  have t: "take 1 (c # u) = [c]" "drop 1 (c # u) = u" for c :: char and u by simp_all
  show c: "captures line_re off (k # CHR ''='' # v) =
      [(1, off, off + 1), (2, off + 2, off + 2 + length v)] @ captures (Star Dot) (off + 2) v"
    by (simp only: captures.simps 1 2 option.case t) simp
  show "(1, off, off + 1) \<in> set (captures line_re off (k # CHR ''='' # v))"
    by (simp only: c) simp
qed

lemma captures_Star_Dot: "captures (Star Dot) off w = []"
  by (rule captures_group_free) simp

text \<open>The groups of a line \<open>k=v\<close>: the whole text, the key and the value, the first and the last
  only if they are shorter than the buffer of the class.\<close>

lemma sdp_line_groups:
  assumes "is_letter k" "\<forall>c \<in> set pre. \<not> is_letter c" "CHR 0x00 \<notin> set (pre @ k # v)"
  shows "rx_groups (pre @ k # CHR ''='' # v) SDP_LINE_PATTERN = Some
    ((if length v + 2 < 2048 then [k # CHR ''='' # v] else []) @ [[k]] @
     (if length v < 2048 then [v] else []))"
proof -
  let ?s = "pre @ k # CHR ''='' # v" and ?p = "length pre"
  have s: "cstr ?s = ?s" using assms(3) by (intro cstr_id) auto
  have sr: "search False False line_re ?s 0 = Some (?p, ?p + length v + 2)"
    using search_line [OF assms(1,2), of v 0] by (simp del: One_nat_def)
  have "take (?p + length v + 2 - ?p) (drop ?p ?s) = k # CHR ''='' # v"
    by simp
  then have m: "regexec \<lparr>at_start = False, at_end = False, expr = line_re\<rparr> ?s =
      Some ((map_of [(2, ?p + 2, ?p + 2 + length v), (1, ?p, ?p + 1)]) (0 \<mapsto> (?p, ?p + length v + 2)))"
    unfolding regexec_def
    by (simp only: compiled.simps sr option.case prod.case captures_line(2) [OF assms(1)]
        captures_Star_Dot append_Nil2 rev.simps append.simps)
  have u: "[0..<Suc 2] = [0, 1, 2 :: nat]" by (simp add: upt_rec numeral_2_eq_2)
  have "int (?p + length v + 2) - int ?p = int (length v + 2)"
    "int (?p + 2 + length v) - int (?p + 2) = int (length v)" "nat (2 + int ?p) - ?p = 2"
    by simp_all
  then have g: "List.map_filter (group_text ?s
      ((map_of [(2, ?p + 2, ?p + 2 + length v), (1, ?p, ?p + 1)]) (0 \<mapsto> (?p, ?p + length v + 2)))) [0, 1, 2] =
    (if length v + 2 < 2048 then [k # CHR ''='' # v] else []) @ [[k]] @ (if length v < 2048 then [v] else [])"
    by (auto simp: List.map_filter_simps group_text_def Substr_def REGEX_BUF_SIZE_def Let_def)
  show ?thesis
    unfolding rx_groups_Some count_line u s compiled.simps
    by (intro exI conjI) (rule regcomp_line, rule m, rule g [symmetric])
qed

subsection \<open>One line\<close>

lemma take_front_simps [simp]: "take_front [] = Inl EmptyList" "take_front (x # xs) = Inr (x, xs)"
  by (simp_all add: take_front_def)

lemma ub_bind_eq_Inl: "ub_bind m f = Inl e \<longleftrightarrow> m = Inl e \<or> (\<exists>x. m = Inr x \<and> f x = Inl e)"
  by (cases m) auto

lemma pop_front_Inr: "pop_front g = Inr r \<longleftrightarrow> (\<exists>x. g = x # r)"
  by (cases g) auto

lemma take_front_Inr: "take_front g = Inr (x, r) \<longleftrightarrow> g = x # r"
  by (cases g) auto

lemma take_front_Inl: "take_front g = Inl e \<longleftrightarrow> g = [] \<and> e = EmptyList"
  by (cases g) auto

lemma pop_front_Inl: "pop_front g = Inl e \<longleftrightarrow> g = [] \<and> e = EmptyList"
  by (cases g) auto

lemma front_Inl: "front g = Inl e \<longleftrightarrow> g = [] \<and> e = EmptyList"
  by (cases g) auto

lemmas list_results = pop_front_Inr take_front_Inr pop_front_Inl take_front_Inl front_Inl

definition sdp_handle :: "string \<Rightarrow> string \<Rightarrow> parse_state \<Rightarrow> ub + parse_state" where
  "sdp_handle key value st =
     ub_bind (sdp_session_part key value (set_section key st)) (\<lambda>st1.
     ub_bind (sdp_time_part key value st1) (\<lambda>st2. sdp_media_part key value st2))"

lemma sdp_step_eq:
  "sdp_step gs st =
    (case gs of
       [] \<Rightarrow> Inr st
     | _ # _ # key # value # _ \<Rightarrow> sdp_handle key value st
     | _ \<Rightarrow> Inl EmptyList)"
  by (simp add: sdp_step_def sdp_handle_def split: list.split)

lemma sdp_step_line:
  assumes "is_letter k" "\<forall>c \<in> set pre. \<not> is_letter c" "CHR 0x00 \<notin> set (pre @ k # v)"
  shows "sdp_step (line_groups (pre @ k # CHR ''='' # v) SDP_LINE_PATTERN) st =
    (if length v + 2 < 2048 then sdp_handle [k] v st else Inl EmptyList)"
  by (simp add: line_groups_def sdp_line_groups [OF assms] sdp_step_eq)

text \<open>The text of a description whose lines have the keys and values \<open>kvs\<close>.\<close>

definition sdp_text :: "(char \<times> string) list \<Rightarrow> string" where
  "sdp_text kvs = concat (map (\<lambda>(k, v). (k # CHR ''='' # v) @ crlf) kvs)"

primrec sdp_handles :: "(char \<times> string) list \<Rightarrow> parse_state \<Rightarrow> ub + parse_state" where
  "sdp_handles [] st = Inr st"
| "sdp_handles (kv # kvs) st = ub_bind (sdp_handle [fst kv] (snd kv) st) (sdp_handles kvs)"

definition sdp_pair :: "char \<times> string \<Rightarrow> bool" where
  "sdp_pair kv \<longleftrightarrow> is_letter (fst kv) \<and> CHR 0x0D \<notin> set (snd kv) \<and> CHR 0x00 \<notin> set (snd kv) \<and>
     length (snd kv) + 2 < 2048"

lemma not_letter [simp]: "\<not> is_letter CHR 0x0D" "\<not> is_letter CHR 0x00" "\<not> is_letter CHR 0x0A"
  by (simp_all add: is_letter_def in_cls_def in_range_def)

lemma letter_not: "is_letter k \<Longrightarrow> k \<noteq> CHR 0x00 \<and> k \<noteq> CHR 0x0D \<and> k \<noteq> CHR 0x0A"
  by (auto simp: is_letter_def in_cls_def in_range_def)

lemma empty_line: "line_groups [] SDP_LINE_PATTERN = []"
  by code_simp

lemma sdp_steps_append:
  "sdp_steps (xs @ ys) st = ub_bind (sdp_steps xs st) (sdp_steps ys)"
proof (induction xs arbitrary: st)
  case (Cons l xs)
  then have "sdp_steps (xs @ ys) = (\<lambda>st. ub_bind (sdp_steps xs st) (sdp_steps ys))" by (rule ext)
  then show ?case by (simp add: ub_bind_assoc)
qed simp

lemma sdp_steps_lines:
  assumes "\<forall>kv \<in> set kvs. sdp_pair kv"
  shows "sdp_steps (map (\<lambda>(k, v). CHR 0x0A # k # CHR ''='' # v) kvs) st = sdp_handles kvs st"
  using assms
proof (induction kvs arbitrary: st)
  case (Cons kv kvs)
  obtain k v where kv: "kv = (k, v)" by fastforce
  have "sdp_step (line_groups ([CHR 0x0A] @ k # CHR ''='' # v) SDP_LINE_PATTERN) st = sdp_handle [k] v st"
    using Cons.prems letter_not [of k]
    by (subst sdp_step_line) (auto simp: kv sdp_pair_def is_letter_def in_cls_def in_range_def)
  moreover have "sdp_steps (map (\<lambda>(k, v). CHR 0x0A # k # CHR ''='' # v) kvs) = sdp_handles kvs"
    by (rule ext) (rule Cons.IH, use Cons.prems in simp)
  ultimately show ?case by (simp add: kv)
qed simp

lemma parse_text:
  assumes "\<forall>kv \<in> set kvs. sdp_pair kv" "kvs \<noteq> []"
  shows "SDPData_parse (sdp_text kvs) d =
    ub_bind (sdp_handles kvs (start_state d)) (\<lambda>st. Inr (sdp st))"
proof -
  obtain k v r where kvs: "kvs = (k, v) # r" using assms(2) by (cases kvs) auto
  let ?line = "\<lambda>kv. fst kv # CHR ''='' # snd kv"
  have "sdp_text kvs = concat (map (\<lambda>l. l @ crlf) (?line (k, v) # map ?line r))"
    by (simp add: sdp_text_def kvs case_prod_unfold comp_def)
  moreover have "\<forall>l \<in> set (?line (k, v) # map ?line r). CHR 0x0D \<notin> set l"
    using assms(1) letter_not by (fastforce simp: kvs sdp_pair_def)
  ultimately have ls: "lines_from (sdp_text kvs) (Some 0) =
      (k # CHR ''='' # v) # map (\<lambda>(k, v). CHR 0x0A # k # CHR ''='' # v) r @ [[], []]"
    using lines_from_crlf [of "?line (k, v)" "map ?line r"] by (simp add: comp_def case_prod_unfold)
  have fst_line: "sdp_step (line_groups ([] @ k # CHR ''='' # v) SDP_LINE_PATTERN) st = sdp_handle [k] v st" for st
    using assms(1) letter_not [of k] by (subst sdp_step_line) (auto simp: kvs sdp_pair_def)
  have rest: "sdp_steps (map (\<lambda>(k, v). CHR 0x0A # k # CHR ''='' # v) r @ [[], []]) st = sdp_handles r st" for st
    using assms(1) sdp_steps_lines [of r st]
    by (simp add: kvs sdp_steps_append empty_line sdp_step_eq ub_bind_def split: sum.split)
  show ?thesis
    unfolding SDPData_parse_steps ls
    using fst_line by (simp add: rest kvs ub_bind_def split: sum.split)
qed

end
