(* ===== verification/Rtsp_State.thy ===== *)
theory Rtsp_State
  imports Media_Session Sdp_Lines Header_Lines Base64 Md5
begin

section \<open>The state of the client (rtspClient.h)\<close>

text \<open>
  The class \<open>RtspClient\<close> and the system it runs on, as one record that the methods take and
  return. \<open>os\<close> is the system: the open sockets and their peers, what the next calls of
  \<open>socket\<close>, \<open>connect\<close> and \<open>bind\<close> answer, the environments of the RTP sessions still to be
  created, the clock and the content of uninitialised stack memory; \<open>connections\<close> and \<open>byes\<close> log
  what was connected and how long a BYE may wait; \<open>fresh_mem\<close> is what \<open>malloc\<close> leaves in a buffer. A \<open>MediaSession *\<close> is the key of the session in
  \<open>MediaSessionMap\<close>, or \<open>None\<close> for null; a key that is not there is a dangling pointer.
  A failed allocation is not modelled.
\<close>

subsection \<open>Constants\<close>

definition PORT_RTSP :: u16 where "PORT_RTSP = 554"
definition VERSION_RTSP :: string where "VERSION_RTSP = ''1.0''"
definition VERSION_HTTP :: string where "VERSION_HTTP = ''1.1''"
definition CHECK_OK :: int where "CHECK_OK = 1"
definition CHECK_ERROR :: int where "CHECK_ERROR = 0"
definition TRANS_OK :: int where "TRANS_OK = 1"
definition TRANS_ERROR :: int where "TRANS_ERROR = 0"
definition RECV_BUF_SIZE :: nat where "RECV_BUF_SIZE = 8192"
definition SEARCH_PORT_RTP_FROM :: u16 where "SEARCH_PORT_RTP_FROM = 10330"
definition MEDIA_BUFSIZ :: nat where "MEDIA_BUFSIZ = 8192"
definition GET_SPS_PPS_PERIOD :: nat where "GET_SPS_PPS_PERIOD = 30"
definition MD5_SIZE :: nat where "MD5_SIZE = 32"
definition MD5_BUF_SIZE :: nat where "MD5_BUF_SIZE = MD5_SIZE + 1"

datatype error_type =
    RTSP_NO_ERROR
  | RTSP_INVALID_URI
  | RTSP_SEND_ERROR
  | RTSP_RECV_ERROR
  | RTSP_PARSE_SDP_ERROR
  | RTSP_INVALID_MEDIA_SESSION
  | RTSP_RESPONSE_BLANK
  | RTSP_RESPONSE_200
  | RTSP_RESPONSE_400
  | RTSP_RESPONSE_401
  | RTSP_RESPONSE_404
  | RTSP_RESPONSE_40X
  | RTSP_RESPONSE_500
  | RTSP_RESPONSE_501
  | RTSP_RESPONSE_50X
  | RTSP_UNKNOWN_ERROR

fun ParseError :: "error_type \<Rightarrow> string" where
  "ParseError RTSP_NO_ERROR = ''MyRtsp: Success''"
| "ParseError RTSP_INVALID_URI = ''MyRtsp: Invalid URI''"
| "ParseError RTSP_SEND_ERROR = ''MyRtsp: send error''"
| "ParseError RTSP_RECV_ERROR = ''MyRtsp: recv error''"
| "ParseError RTSP_INVALID_MEDIA_SESSION = ''MyRtsp: invalid media session error''"
| "ParseError RTSP_RESPONSE_BLANK = ''MyRtsp: Response BLANK''"
| "ParseError RTSP_RESPONSE_200 = ''MyRtsp: Response 200 OK''"
| "ParseError RTSP_RESPONSE_400 = ''MyRtsp: Response 400 Bad Request''"
| "ParseError RTSP_RESPONSE_401 = ''MyRtsp: Response 401 Unauthorized''"
| "ParseError RTSP_RESPONSE_404 = ''MyRtsp: Response 404 Not Found''"
| "ParseError RTSP_RESPONSE_40X = ''MyRtsp: Response Client Error''"
| "ParseError RTSP_RESPONSE_500 = ''MyRtsp: Response 500 Internal Server Error''"
| "ParseError RTSP_RESPONSE_501 = ''MyRtsp: Response 501 Not Implemented''"
| "ParseError RTSP_RESPONSE_50X = ''MyRtsp: Response Server Error''"
| "ParseError RTSP_UNKNOWN_ERROR = ''MyRtsp: Unknown Error''"
| "ParseError _ = ''MyRtsp: Unknown Error''"

definition HttpHeadUserAgent :: string where "HttpHeadUserAgent = ''User-Agent: ''"
definition HttpHeadXSessionCookie :: string where "HttpHeadXSessionCookie = ''x-sessioncookie: ''"
definition HttpHeadAccept :: string where "HttpHeadAccept = ''Accept: ''"
definition HttpHeadPrama :: string where "HttpHeadPrama = ''Pragma: ''"
definition HttpHeadCacheControl :: string where "HttpHeadCacheControl = ''Cache-Control: ''"
definition HttpHeadContentType :: string where "HttpHeadContentType = ''Content-Type: ''"
definition HttpHeadContentLength :: string where "HttpHeadContentLength = ''Content-Length: ''"
definition HttpHeadExpires :: string where "HttpHeadExpires = ''Expires: ''"

subsection \<open>The system\<close>

datatype connect_result = Connected | InProgress | Refused

record os =
  socks :: "int \<Rightarrow> net option"
  new_socks :: "(int \<times> net) list"
  connects :: "connect_result list"
  connections :: "(int \<times> u32 \<times> u16) list"
  udp_socks :: "bool list"
  port_free :: "u16 \<Rightarrow> bool"
  create_envs :: "create_env list"
  byes :: "(int \<times> int) list"
  now :: "byte list"
  fresh_mem :: "byte list"
  junk_ctx :: md5_ctx

text \<open>\<open>Timeout\<close> of the client is never read or written after construction.\<close>

record client = os +
  RtspURI :: string
  RtspCSeq :: u32
  RtspSockfd :: int
  RtspIP :: string
  RtspPort :: u16
  RtspResponse :: string
  SDPStr :: string
  MediaSessionMap :: "(string, media_session) smap"
  CmdPLAYSent :: bool
  AudioBufferSize :: nat
  VideoBuffer :: "byte list"
  GetVideoDataCount :: nat
  Username :: string
  Password :: string
  Realm :: string
  Nonce :: string
  ByeFromServerAudioClbk :: "nat option"
  ByeFromServerVideoClbk :: "nat option"
  RtspOverHttpDataPort :: u16
  RtspOverHttpDataSockfd :: int
  HttpHeadUserAgentContent :: string
  HttpHeadXSessionCookieContent :: string
  HttpHeadAcceptContent :: string
  HttpHeadPramaContent :: string
  HttpHeadCacheControlContent :: string
  HttpHeadContentTypeContent :: string
  HttpHeadContentLengthContent :: string
  HttpHeadExpiresContent :: string
  sdpData :: sdp_data

definition new_client :: "os \<Rightarrow> client" where
  "new_client system = os.extend system
     \<lparr>RtspURI = [], RtspCSeq = 0, RtspSockfd = - 1, RtspIP = [], RtspPort = PORT_RTSP, RtspResponse = [],
      SDPStr = [], MediaSessionMap = [], CmdPLAYSent = False, AudioBufferSize = MEDIA_BUFSIZ,
      VideoBuffer = take MEDIA_BUFSIZ (fresh_mem system @ replicate MEDIA_BUFSIZ 0), GetVideoDataCount = GET_SPS_PPS_PERIOD, Username = [], Password = [],
      Realm = [], Nonce = [], ByeFromServerAudioClbk = None, ByeFromServerVideoClbk = None,
      RtspOverHttpDataPort = 0, RtspOverHttpDataSockfd = 0, HttpHeadUserAgentContent = ''MyRTSPClient'',
      HttpHeadXSessionCookieContent = [], HttpHeadAcceptContent = ''application/x-rtsp-tunnelled'',
      HttpHeadPramaContent = ''no-cache'', HttpHeadCacheControlContent = ''no-cache'',
      HttpHeadContentTypeContent = ''application/x-rtsp-tunnelled'', HttpHeadContentLengthContent = ''32767'',
      HttpHeadExpiresContent = ''Sun, 9 Jan 1972 00:00:00 GMT'', sdpData = new_sdp_data\<rparr>"

text \<open>The destructor deletes the sessions one by one; it closes no socket.\<close>

definition delete_client :: "client \<Rightarrow> client" where
  "delete_client c =
     c\<lparr>MediaSessionMap := [],
       byes := byes c @ List.map_filter (\<lambda>(k, ms). fst (delete_media_session ms)) (MediaSessionMap c),
       AudioBufferSize := 0, VideoBuffer := []\<rparr>"

subsection \<open>Accessors\<close>

definition SetPort :: "int \<Rightarrow> client \<Rightarrow> client" where
  "SetPort port c = c\<lparr>RtspPort := word_of_int port\<rparr>"

definition SetUsername :: "string \<Rightarrow> client \<Rightarrow> client" where
  "SetUsername username c = c\<lparr>Username := username\<rparr>"

definition SetPassword :: "string \<Rightarrow> client \<Rightarrow> client" where
  "SetPassword password c = c\<lparr>Password := password\<rparr>"

definition SetHttpTunnelPort :: "u16 \<Rightarrow> client \<Rightarrow> client" where
  "SetHttpTunnelPort port c = c\<lparr>RtspOverHttpDataPort := port\<rparr>"

definition GetURI :: "client \<Rightarrow> string" where "GetURI c = RtspURI c"
definition GetResponse :: "client \<Rightarrow> string" where "GetResponse c = RtspResponse c"
definition GetSDP :: "client \<Rightarrow> string" where "GetSDP c = SDPStr c"
definition GetUsername :: "client \<Rightarrow> string" where "GetUsername c = Username c"
definition GetPassword :: "client \<Rightarrow> string" where "GetPassword c = Password c"

definition GetMediaSessions :: "client \<Rightarrow> (string, media_session) smap" where
  "GetMediaSessions c = MediaSessionMap c"

subsection \<open>System calls\<close>

text \<open>\<open>socket\<close> never returns a descriptor in use; an exhausted script is a failure.\<close>

definition sys_socket :: "client \<Rightarrow> int \<times> client" where
  "sys_socket c =
     (case new_socks c of
        [] \<Rightarrow> (- 1, c)
      | (fd, peer) # r \<Rightarrow>
          if fd < 0 \<or> socks c fd \<noteq> None then (- 1, c\<lparr>new_socks := r\<rparr>)
          else (fd, c\<lparr>new_socks := r, socks := (socks c)(fd \<mapsto> peer)\<rparr>))"

definition sys_close :: "int \<Rightarrow> client \<Rightarrow> int \<times> client" where
  "sys_close fd c = (if socks c fd = None then (- 1, c) else (0, c\<lparr>socks := (socks c)(fd := None)\<rparr>))"

definition sys_connect :: "int \<Rightarrow> u32 \<Rightarrow> u16 \<Rightarrow> client \<Rightarrow> connect_result \<times> client" where
  "sys_connect fd addr port c =
     (case connects c of [] \<Rightarrow> Connected | r # _ \<Rightarrow> r,
      c\<lparr>connects := tl (connects c), connections := connections c @ [(fd, addr, port)]\<rparr>)"

text \<open>Reading and writing a descriptor that is not open fails with \<open>EBADF\<close>.\<close>

definition bad_net :: net where
  "bad_net = \<lparr>rx = [RxErr EOTHER], tx = [TxErr EOTHER], sent = [], last_errno = EOTHER\<rparr>"

definition on_socket :: "int \<Rightarrow> (net \<Rightarrow> 'a \<times> net) \<Rightarrow> client \<Rightarrow> 'a \<times> client" where
  "on_socket fd f c =
     (case socks c fd of
        None \<Rightarrow> (fst (f bad_net), c)
      | Some w \<Rightarrow> (case f w of (x, w') \<Rightarrow> (x, c\<lparr>socks := (socks c)(fd \<mapsto> w')\<rparr>)))"

definition default_env :: create_env where
  "default_env = \<lparr>using_poll_thread = False, need_thread_safety = False, max_packet_size = 1400,
     init_status = 0, trans_status = 0, create_status = 0, new_trylocks = [], new_polls = []\<rparr>"

definition next_env :: "client \<Rightarrow> create_env \<times> client" where
  "next_env c =
     (case create_envs c of [] \<Rightarrow> (default_env, c) | e # r \<Rightarrow> (e, c\<lparr>create_envs := r\<rparr>))"

subsection \<open>Sessions\<close>

text \<open>Regular expressions with \<open>IgnoreCase\<close>, which \<open>MyRegex\<close> does not pass on.\<close>

definition rx_test_ic :: "string \<Rightarrow> string \<Rightarrow> bool" where
  "rx_test_ic s p \<longleftrightarrow> MyRegex_Regex0 (Some s) (Some p) True \<noteq> REGEX_FAILURE"

definition rx_groups_ic :: "string \<Rightarrow> string \<Rightarrow> string list option" where
  "rx_groups_ic s p =
     (case MyRegex_Regex (Some s) (Some p) (Some []) True of
        (rc, gs) \<Rightarrow> if rc = REGEX_FAILURE then None else gs)"

lemma rx_test_ic_eq [simp]: "rx_test_ic = rx_test"
  by (intro ext) (simp add: rx_test_ic_def rx_test_def MyRegex_Regex0_eq)

lemma rx_groups_ic_eq [simp]: "rx_groups_ic = rx_groups"
  by (intro ext) (simp add: rx_groups_ic_def rx_groups_def MyRegex_Regex_def Let_def split: option.split)

text \<open>The loop \<open>for(it = begin; it != end; it++) if(Regex(it->first, media_type, IgnoreCase)) break;\<close>.\<close>

definition find_type :: "string \<Rightarrow> client \<Rightarrow> string option" where
  "find_type media_type c = map_option fst (smap_first (\<lambda>k ms. rx_test_ic k media_type) (MediaSessionMap c))"

text \<open>Reading and changing the object behind a pointer.\<close>

definition session_at :: "string \<Rightarrow> client \<Rightarrow> ub + media_session" where
  "session_at k c = (case smap_find (MediaSessionMap c) k of None \<Rightarrow> Inl Dangling | Some ms \<Rightarrow> Inr ms)"

definition put_session :: "string \<Rightarrow> media_session \<Rightarrow> client \<Rightarrow> client" where
  "put_session k ms c = c\<lparr>MediaSessionMap := smap_set k ms (MediaSessionMap c)\<rparr>"

definition on_session_at :: "string \<Rightarrow> (media_session \<Rightarrow> media_session) \<Rightarrow> client \<Rightarrow> ub + client" where
  "on_session_at k f c = ub_bind (session_at k c) (\<lambda>ms. Inr (put_session k (f ms) c))"

lemma session_at_put [simp]: "session_at k (put_session k ms c) = Inr ms"
  by (simp add: session_at_def put_session_def smap_find_set)

lemma session_at_eq_Inr: "session_at k c = Inr ms \<longleftrightarrow> smap_find (MediaSessionMap c) k = Some ms"
  by (simp add: session_at_def split: option.split)

lemma find_type_mem:
  assumes "find_type t c = Some k"
  shows "\<exists>ms. (k, ms) \<in> set (MediaSessionMap c) \<and> rx_test k t"
proof -
  have "smap_first P m = Some (k, v) \<Longrightarrow> (k, v) \<in> set m \<and> P k v" for P m and v :: media_session
    by (induction P m rule: smap_first.induct) (auto split: if_splits)
  then show ?thesis using assms by (fastforce simp: find_type_def)
qed

end
