(* ===== verification/Rtsp_Uri.thy ===== *)
theory Rtsp_Uri
  imports Rtsp_State
begin

section \<open>URIs and responses (rtspClient.cpp)\<close>

text \<open>
  What the client reads out of texts: the user, the address, the port and the resource of a URI, and
  the status, the session identifier and the timeout of a response. The patterns are those of the
  source; a back-slash in a pattern is \<open>CHR 0x5C\<close>.
\<close>

abbreviation bslash :: string where "bslash \<equiv> [CHR 0x5C]"

subsection \<open>User and password\<close>

definition PatternRtspUriWithUserPwd :: string where
  "PatternRtspUriWithUserPwd = ''(rtsp://)(.+):(.*)@(.+)''"

definition parseUriWithUserPwd :: "string \<Rightarrow> client \<Rightarrow> ub + (string \<times> client)" where
  "parseUriWithUserPwd uri c =
     (case rx_groups uri PatternRtspUriWithUserPwd of
        None \<Rightarrow> Inr (uri, c)
      | Some g0 \<Rightarrow>
          ub_bind (pop_front g0) (\<lambda>g1.
          ub_bind (take_front g1) (\<lambda>(scheme, g2).
          ub_bind (take_front g2) (\<lambda>(user, g3).
          ub_bind (take_front g3) (\<lambda>(pwd, g4).
          ub_bind (take_front g4) (\<lambda>(rest, g5).
          Inr (scheme @ rest, c\<lparr>Username := user, Password := pwd\<rparr>)))))))"

text \<open>The stripped URI is thrown away.\<close>

definition SetURI :: "string \<Rightarrow> client \<Rightarrow> ub + client" where
  "SetURI uri c = ub_bind (parseUriWithUserPwd uri c) (\<lambda>(uriTmp, c1). Inr (c1\<lparr>RtspURI := uri\<rparr>))"

definition new_client_uri :: "string \<Rightarrow> os \<Rightarrow> ub + client" where
  "new_client_uri uri system =
     ub_bind (parseUriWithUserPwd uri (new_client system)) (\<lambda>(uri', c). Inr (c\<lparr>RtspURI := uri'\<rparr>))"

subsection \<open>inet_addr\<close>

text \<open>The arguments are dotted quads of one to three digits each, or the empty text; a leading zero
  means octal. The value is in network order, read on a little-endian machine.\<close>

definition INADDR_NONE :: u32 where "INADDR_NONE = - 1"

fun split_on :: "char \<Rightarrow> string \<Rightarrow> string list" where
  "split_on d [] = [[]]"
| "split_on d (c # s) =
     (if c = d then [] # split_on d s
      else case split_on d s of [] \<Rightarrow> [[c]] | w # ws \<Rightarrow> (c # w) # ws)"

fun octal_val :: "nat \<Rightarrow> string \<Rightarrow> nat" where
  "octal_val acc [] = acc"
| "octal_val acc (c # cs) = octal_val (8 * acc + digit_val c) cs"

definition inet_octet :: "string \<Rightarrow> nat option" where
  "inet_octet s =
     (let v = (if 1 < length s \<and> hd s = CHR ''0'' then octal_val 0 s else digits_val 0 s) in
      if s = [] \<or> \<not> list_all is_digit s then None
      else if 1 < length s \<and> hd s = CHR ''0'' \<and> list_ex (\<lambda>c. 8 \<le> digit_val c) s then None
      else if 255 < v then None
      else Some v)"

definition inet_addr :: "string \<Rightarrow> u32" where
  "inet_addr s =
     (case List.map inet_octet (split_on (CHR ''.'') s) of
        [Some a, Some b, Some c, Some d] \<Rightarrow>
          word_of_nat a + 0x100 * word_of_nat b + 0x10000 * word_of_nat c + 0x1000000 * word_of_nat d
      | _ \<Rightarrow> INADDR_NONE)"

subsection \<open>Address, port and resource\<close>

text \<open>A non-empty argument replaces \<open>RtspURI\<close>. \<open>uri_of\<close> is the common start of the three
  methods: the URI to look at, if any.\<close>

definition uri_of :: "string \<Rightarrow> client \<Rightarrow> string option \<times> client" where
  "uri_of uri c =
     (if uri \<noteq> [] then (Some uri, c\<lparr>RtspURI := uri\<rparr>)
      else if RtspURI c \<noteq> [] then (Some (RtspURI c), c)
      else (None, c))"

text \<open>\<open>Groups.pop_front(); Groups.front()\<close>.\<close>

definition group1 :: "string list \<Rightarrow> ub + string" where
  "group1 g = ub_bind (pop_front g) front"

definition QUAD :: string where
  "QUAD = ''[0-9]{1,3}'' @ bslash @ ''.[0-9]{1,3}'' @ bslash @ ''.[0-9]{1,3}'' @ bslash @ ''.[0-9]{1,3}''"

definition IP_PATTERN :: string where "IP_PATTERN = ''rtsp://('' @ QUAD @ '')[^0-9]''"
definition PORT_PATTERN :: string where "PORT_PATTERN = ''rtsp://'' @ QUAD @ '':([0-9]+)''"
definition RESOURCE_PATTERN :: string where "RESOURCE_PATTERN = ''rtsp://.+(/.+)''"

definition GetIP :: "string \<Rightarrow> client \<Rightarrow> ub + (u32 \<times> client)" where
  "GetIP uri c =
     (case uri_of uri c of
        (None, c1) \<Rightarrow> Inr (inet_addr (cstr (RtspIP c1)), c1)
      | (Some u, c1) \<Rightarrow>
          (case rx_groups_ic u IP_PATTERN of
             None \<Rightarrow> Inr (INADDR_NONE, c1)
           | Some g \<Rightarrow> ub_bind (group1 g) (\<lambda>ip. Inr (inet_addr ip, c1))))"

definition GetPort :: "string \<Rightarrow> client \<Rightarrow> ub + (u16 \<times> client)" where
  "GetPort uri c =
     (case uri_of uri c of
        (None, c1) \<Rightarrow> Inr (RtspPort c1, c1)
      | (Some u, c1) \<Rightarrow>
          (case rx_groups_ic u PORT_PATTERN of
             None \<Rightarrow> Inr (RtspPort c1, c1)
           | Some g \<Rightarrow> ub_bind (group1 g) (\<lambda>port. Inr (word_of_int (atoi port), c1))))"

definition GetResource :: "string \<Rightarrow> client \<Rightarrow> ub + (string \<times> client)" where
  "GetResource uri c =
     (case uri_of uri c of
        (None, c1) \<Rightarrow> Inr ([], c1)
      | (Some u, c1) \<Rightarrow>
          (case rx_groups_ic u RESOURCE_PATTERN of
             None \<Rightarrow> Inr ([], c1)
           | Some g \<Rightarrow> ub_bind (group1 g) (\<lambda>r. Inr (r, c1))))"

subsection \<open>Responses\<close>

definition SESSION_PATTERN :: string where
  "SESSION_PATTERN = ''Session: +([0-9a-zA-Z_'' @ bslash @ ''$-.'' @ bslash @ ''..'' @ bslash @ ''+]+)''"
definition TIMEOUT_PATTERN :: string where "TIMEOUT_PATTERN = ''Session:.*timeout=([1-9][0-9]*)''"

definition response_of :: "string \<Rightarrow> client \<Rightarrow> string option" where
  "response_of text c =
     (if text \<noteq> [] then Some text else if RtspResponse c \<noteq> [] then Some (RtspResponse c) else None)"

definition ParseSessionID :: "string \<Rightarrow> client \<Rightarrow> ub + string" where
  "ParseSessionID ResponseOfSETUP c =
     (case response_of ResponseOfSETUP c of
        None \<Rightarrow> Inr []
      | Some Response \<Rightarrow>
          (case rx_groups_ic Response SESSION_PATTERN of None \<Rightarrow> Inr [] | Some g \<Rightarrow> group1 g))"

definition ParseTimeout :: "string \<Rightarrow> client \<Rightarrow> ub + int" where
  "ParseTimeout ResponseOfSETUP c =
     (case response_of ResponseOfSETUP c of
        None \<Rightarrow> Inr (- 1)
      | Some Response \<Rightarrow>
          (case rx_groups_ic Response TIMEOUT_PATTERN of
             None \<Rightarrow> Inr (- 1)
           | Some g \<Rightarrow> ub_bind (group1 g) (\<lambda>t. Inr (atoi t))))"

definition STATUS_PATTERN :: "string \<Rightarrow> string" where
  "STATUS_PATTERN code = ''RTSP/[0-9]+'' @ bslash @ ''.[0-9]+ +'' @ code"

text \<open>\<open>err\<close> is written only if one of the patterns matches: \<open>None\<close> means left alone.\<close>

definition IsResponse_200_OK :: "string option \<Rightarrow> client \<Rightarrow> bool \<times> error_type option" where
  "IsResponse_200_OK response c =
     (let Response = (case response of None \<Rightarrow> RtspResponse c | Some r \<Rightarrow> r) in
      if rx_test_ic Response (STATUS_PATTERN ''200'') then (True, Some RTSP_RESPONSE_200)
      else if rx_test_ic Response (STATUS_PATTERN ''401'') then (False, Some RTSP_RESPONSE_401)
      else if rx_test_ic Response (STATUS_PATTERN ''40[0-9]'') then (False, Some RTSP_RESPONSE_40X)
      else if rx_test_ic Response (STATUS_PATTERN ''50[0-9]'') then (False, Some RTSP_RESPONSE_50X)
      else (False, None))"

end
