(* ===== verification/Rtsp_Transport.thy ===== *)
theory Rtsp_Transport
  imports Rtsp_Uri
begin

section \<open>Sending, receiving and connecting (rtspClient.cpp)\<close>

text \<open>
  The transport methods: connecting, closing, the overloads of \<open>SendRTSP\<close>, \<open>RecvRTSP\<close> and
  \<open>RecvSDP\<close>, and the search for a pair of UDP ports. An overload that takes bytes works on the
  socket (\<open>net\<close>) alone and has the suffix \<open>_bytes\<close>, one that takes a string \<open>_string\<close>.
\<close>

definition CheckSockWritable :: "int \<Rightarrow> int" where "CheckSockWritable sockfd = CHECK_OK"
definition CheckSockReadable :: "int \<Rightarrow> int" where "CheckSockReadable sockfd = CHECK_OK"

subsection \<open>Closing\<close>

text \<open>\<open>RtspOverHttpDataSockfd\<close> is closed but keeps its value.\<close>

definition Close :: "int \<Rightarrow> client \<Rightarrow> int \<times> client" where
  "Close sockfd c =
     (let (r1, c1) =
        (if sockfd = RtspSockfd c then
           (case sys_close (RtspSockfd c) c of (r, c') \<Rightarrow> (r, c'\<lparr>RtspSockfd := - 1\<rparr>))
         else
           (let (ra, ca) =
              (if RtspSockfd c > 0 then
                 (case sys_close (RtspSockfd c) c of (r, c') \<Rightarrow> (r, c'\<lparr>RtspSockfd := - 1\<rparr>))
               else (- 1, c))
            in if sockfd > 0 then sys_close sockfd ca else (ra, ca)))
      in if RtspOverHttpDataSockfd c1 > 0 then (r1, snd (sys_close (RtspOverHttpDataSockfd c1) c1)) else (r1, c1))"

subsection \<open>Connecting\<close>

definition CreateTcpSockfd :: "string \<Rightarrow> client \<Rightarrow> ub + (int \<times> client)" where
  "CreateTcpSockfd uri c =
     (if RtspSockfd c > 0 then Inr (RtspSockfd c, c)
      else case uri_of uri c of
        (None, c1) \<Rightarrow> Inr (- 1, c1\<lparr>RtspSockfd := - 1\<rparr>)
      | (Some u, c1) \<Rightarrow>
          (case sys_socket c1 of (fd, c2) \<Rightarrow>
             if fd < 0 then Inr (fd, c2\<lparr>RtspSockfd := fd\<rparr>)
             else
               ub_bind (if RtspOverHttpDataPort c2 > 0 then Inr (RtspPort c2, c2) else GetPort uri c2) (\<lambda>(port, c3).
               ub_bind (GetIP uri c3) (\<lambda>(addr, c4).
               case sys_connect fd addr port c4 of (r, c5) \<Rightarrow>
                 if r = Refused then Inr (- 1, (snd (sys_close fd c5))\<lparr>RtspSockfd := - 1\<rparr>)
                 else Inr (fd, c5\<lparr>RtspSockfd := fd\<rparr>)))))"

definition CreateTcpSockfd_port :: "u16 \<Rightarrow> client \<Rightarrow> ub + (int \<times> client)" where
  "CreateTcpSockfd_port rtsp_over_http_data_port c =
     (if RtspOverHttpDataSockfd c > 0 then Inr (RtspOverHttpDataSockfd c, c)
      else if RtspURI c = [] then Inr (- 1, c\<lparr>RtspOverHttpDataSockfd := - 1\<rparr>)
      else case sys_socket c of (fd, c2) \<Rightarrow>
        if fd < 0 then Inr (fd, c2\<lparr>RtspOverHttpDataSockfd := fd\<rparr>)
        else
          ub_bind (GetIP (RtspURI c2) c2) (\<lambda>(addr, c4).
          case sys_connect fd addr rtsp_over_http_data_port c4 of (r, c5) \<Rightarrow>
            if r = Refused then Inr (- 1, (snd (sys_close fd c5))\<lparr>RtspOverHttpDataSockfd := - 1\<rparr>)
            else if CheckSockWritable fd = 0 then Inr (- 1, c5\<lparr>RtspOverHttpDataSockfd := - 1\<rparr>)
            else Inr (fd, c5\<lparr>RtspOverHttpDataSockfd := fd\<rparr>)))"

subsection \<open>Sending\<close>

lemma writen_loop_bound:
  "writen_loop n bs w = (rc, w') \<Longrightarrow> length bs \<le> n \<Longrightarrow>
   rc \<le> int n \<and> length (tx w') \<le> length (tx w) \<and> (rc < 0 \<longrightarrow> length (tx w') < length (tx w))"
proof (induction n bs w arbitrary: rc w' rule: writen_loop.induct)
  case (1 n bs w)
  show ?case
  proof (cases "bs = []")
    case True
    then show ?thesis using "1.prems" by (subst (asm) writen_loop.simps) auto
  next
    case False
    obtain k w1 where k: "sys_write bs w = (k, w1)" by fastforce
    note p = sys_write_progress [OF k] sys_write_less [OF k [symmetric] False]
    consider (again) "k \<le> 0" "k < 0 \<and> last_errno w1 = EINTR" | (stop) "k \<le> 0" "\<not> (k < 0 \<and> last_errno w1 = EINTR)"
      | (go) "\<not> k \<le> 0" by blast
    then show ?thesis
    proof cases
      case again
      then have "writen_loop n bs w1 = (rc, w')"
        using "1.prems"(1) False k by (subst (asm) writen_loop.simps) simp
      then show ?thesis
        using "1.IH"(1) [OF False k [symmetric] again, of rc w'] "1.prems"(2) p(2) [OF again(1)] by fastforce
    next
      case stop
      then show ?thesis
        using "1.prems" False k p by (subst (asm) writen_loop.simps) (auto split: if_splits)
    next
      case go
      then have "writen_loop n (drop (nat k) bs) w1 = (rc, w')"
        using "1.prems"(1) False k by (subst (asm) writen_loop.simps) simp
      then show ?thesis
        using "1.IH"(2) [OF False k [symmetric] go, of rc w'] "1.prems"(2) p(1) by fastforce
    qed
  qed
qed

lemma Writen_decreases:
  assumes "(rc, w') = Writen bs w" "bs \<noteq> []"
  shows "rc < 0 \<Longrightarrow> length (tx w') < length (tx w)"
    and "\<not> rc < 0 \<Longrightarrow> rc \<noteq> 0 \<Longrightarrow> length (drop (nat rc) bs) < length bs"
  using writen_loop_bound [of "length bs" bs w rc w'] assms by (auto simp: Writen_def)

function SendRTSP_bytes :: "int \<Rightarrow> byte list \<Rightarrow> net \<Rightarrow> error_type \<times> net" where
  "SendRTSP_bytes fd msg w =
     (if msg = [] then (RTSP_NO_ERROR, w)
      else if CheckSockWritable fd = 0 then (RTSP_SEND_ERROR, w)
      else case Writen msg w of (SendResult, w') \<Rightarrow>
        if SendResult < 0 then
          if last_errno w' = EINTR then SendRTSP_bytes fd msg w'
          else if last_errno w' = EAGAIN then SendRTSP_bytes fd msg w'
          else (RTSP_SEND_ERROR, w')
        else if SendResult = 0 then (RTSP_SEND_ERROR, w')
        else SendRTSP_bytes fd (drop (nat SendResult) msg) w')"
  by pat_completeness auto

termination
  by (relation "measures [\<lambda>(fd, msg, w). length msg, \<lambda>(fd, msg, w). length (tx w)]")
    (auto dest: Writen_decreases)

declare SendRTSP_bytes.simps [simp del]

text \<open>The C string of the message is sent up to its length.\<close>

definition SendRTSP_string :: "int \<Rightarrow> string \<Rightarrow> client \<Rightarrow> error_type \<times> client" where
  "SendRTSP_string fd msg c =
     (case on_socket fd (SendRTSP_bytes fd (bytes_of msg)) c of (err, c') \<Rightarrow>
        (if err \<noteq> RTSP_NO_ERROR then RTSP_SEND_ERROR else RTSP_NO_ERROR, c'))"

definition SendRTSP :: "int \<Rightarrow> u16 \<Rightarrow> string \<Rightarrow> client \<Rightarrow> error_type \<times> client" where
  "SendRTSP fd http_tunnel_port msg c =
     (if http_tunnel_port \<noteq> 0 then
        let encodedBytes = base64Encode (bytes_of msg) in
        (case SendRTSP_string fd (cstr encodedBytes) c of (err, c') \<Rightarrow>
           if err \<noteq> RTSP_NO_ERROR then (RTSP_SEND_ERROR, snd (Close fd c')) else (RTSP_NO_ERROR, c'))
      else
        (case SendRTSP_string fd msg c of (err, c') \<Rightarrow>
           if err \<noteq> RTSP_NO_ERROR then (RTSP_SEND_ERROR, snd (Close fd c')) else (RTSP_NO_ERROR, c')))"

subsection \<open>Receiving a response\<close>

text \<open>\<open>ReadLine_smaller\<close>: what a reading loop over a buffer needs to end.\<close>

lemma ReadLine_smaller:
  assumes "(rc, out, w') = ReadLine n w" "n \<noteq> 0"
  shows "rc < 0 \<Longrightarrow> rx_size (rx w') < rx_size (rx w)"
    and "\<not> rc < 0 \<Longrightarrow> rc \<noteq> 0 \<Longrightarrow> n - nat rc < n"
  using ReadLine_bound [OF assms(1) [symmetric]] assms(2) by auto

text \<open>\<open>acc\<close> is the text in the buffer before \<open>msg + Index\<close>, which the cleared buffer ends with a NUL;
  the result has the buffer's text as it is when the loop ends.\<close>

function RecvRTSP_bytes :: "int \<Rightarrow> nat \<Rightarrow> byte list \<Rightarrow> net \<Rightarrow> (error_type \<times> byte list) \<times> net" where
  "RecvRTSP_bytes fd maxlen acc w =
     (if maxlen = 0 then ((RTSP_NO_ERROR, acc), w)
      else if CheckSockReadable fd = 0 then ((RTSP_RECV_ERROR, acc), w)
      else case ReadLine maxlen w of (RecvResult, out, w') \<Rightarrow>
        if RecvResult < 0 then
          if last_errno w' = EINTR then RecvRTSP_bytes fd maxlen acc w'
          else if last_errno w' = EAGAIN then ((RTSP_NO_ERROR, acc @ out), w')
          else ((RTSP_RECV_ERROR, acc @ out), w')
        else if RecvResult = 0 then ((RTSP_RECV_ERROR, acc @ out), w')
        else if end_line RecvResult out then ((RTSP_NO_ERROR, acc @ out), w')
        else RecvRTSP_bytes fd (maxlen - nat RecvResult) (acc @ out) w')"
  by pat_completeness auto

termination
  by (relation "measures [\<lambda>(fd, n, acc, w). n, \<lambda>(fd, n, acc, w). rx_size (rx w)]")
    (auto dest: ReadLine_smaller)

declare RecvRTSP_bytes.simps [simp del]

text \<open>All callers pass \<open>&RtspResponse\<close>.\<close>

definition RecvRTSP_string :: "int \<Rightarrow> client \<Rightarrow> error_type \<times> client" where
  "RecvRTSP_string fd c =
     (case on_socket fd (RecvRTSP_bytes fd RECV_BUF_SIZE []) c of ((RecvResult, Buf), c') \<Rightarrow>
        (RecvResult,
         c'\<lparr>RtspResponse := (if RecvResult = RTSP_NO_ERROR then cstr (string_of Buf) else [])\<rparr>))"

text \<open>With a tunnel, the socket mutex of the session that reads from it is held meanwhile.\<close>

definition tunnel_session :: "client \<Rightarrow> string option" where
  "tunnel_session c =
     map_option fst (smap_first (\<lambda>k ms. ms_GetTunnellingSocket ms = RtspOverHttpDataSockfd c) (MediaSessionMap c))"

definition lock_session :: "string option \<Rightarrow> client \<Rightarrow> ub + client" where
  "lock_session it c =
     (case it of
        None \<Rightarrow> Inr c
      | Some k \<Rightarrow>
          ub_bind (session_at k c) (\<lambda>ms. ub_bind (ms_LockSocket ms) (\<lambda>ms'. Inr (put_session k ms' c))))"

definition unlock_session :: "string option \<Rightarrow> client \<Rightarrow> ub + client" where
  "unlock_session it c = (case it of None \<Rightarrow> Inr c | Some k \<Rightarrow> on_session_at k ms_UnlockSocket c)"

definition RecvRTSP :: "int \<Rightarrow> u16 \<Rightarrow> client \<Rightarrow> ub + (error_type \<times> client)" where
  "RecvRTSP fd http_tunnel_port c =
     (if http_tunnel_port \<noteq> 0 then
        let it = tunnel_session c in
        ub_bind (lock_session it c) (\<lambda>c1.
        case RecvRTSP_string (RtspOverHttpDataSockfd c1) c1 of (err, c2) \<Rightarrow>
          if err \<noteq> RTSP_NO_ERROR then
            ub_bind (unlock_session it (snd (Close fd c2))) (\<lambda>c3. Inr (RTSP_RECV_ERROR, c3))
          else ub_bind (unlock_session it c2) (\<lambda>c3. Inr (RTSP_NO_ERROR, c3)))
      else
        (case RecvRTSP_string fd c of (err, c1) \<Rightarrow>
           if err \<noteq> RTSP_NO_ERROR then Inr (RTSP_RECV_ERROR, snd (Close fd c1))
           else Inr (RTSP_NO_ERROR, c1)))"

subsection \<open>Receiving a description\<close>

lemma readn_loop_bound:
  "readn_loop n nleft w = (rc, out, w') \<Longrightarrow> nleft \<le> n \<Longrightarrow>
   rc \<le> int n \<and> rx_size (rx w') \<le> rx_size (rx w) \<and> (rc < 0 \<longrightarrow> rx_size (rx w') < rx_size (rx w))"
proof (induction n nleft w arbitrary: rc out w' rule: readn_loop.induct)
  case (1 n nleft w)
  show ?case
  proof (cases "nleft = 0")
    case True
    then show ?thesis using "1.prems" by (subst (asm) readn_loop.simps) auto
  next
    case False
    consider (bytes) bs r where "sys_read nleft (rx w) = (R_Bytes bs, r)"
      | (eof) r where "sys_read nleft (rx w) = (R_Eof, r)" | (err) e r where "sys_read nleft (rx w) = (R_Err e, r)"
      by (rule read_result_cases)
    then show ?thesis
    proof cases
      case bytes
      obtain out1 where rec: "readn_loop n (nleft - length bs) (w\<lparr>rx := r\<rparr>) = (rc, out1, w')"
        using "1.prems"(1) False bytes by (subst (asm) readn_loop.simps) (auto split: prod.splits)
      have n: "nleft - length bs \<le> n" using "1.prems"(2) by simp
      show ?thesis
        using "1.IH"(1) [OF False bytes [symmetric] refl rec n] sys_read_bytes [OF bytes] False by auto
    next
      case eof
      then show ?thesis
        using "1.prems" False sys_read_eof [OF eof] by (subst (asm) readn_loop.simps) auto
    next
      case err
      show ?thesis
      proof (cases e)
        case EINTR
        then have rec: "readn_loop n nleft (w\<lparr>rx := r, last_errno := EINTR\<rparr>) = (rc, out, w')"
          using "1.prems"(1) False err by (subst (asm) readn_loop.simps) simp
        then show ?thesis
          using "1.IH"(2) [OF False err [symmetric] refl EINTR rec "1.prems"(2)] sys_read_err [OF err] by auto
      next
        case EAGAIN
        then show ?thesis
          using "1.prems" False err sys_read_err [OF err] by (subst (asm) readn_loop.simps) auto
      next
        case EOTHER
        then show ?thesis
          using "1.prems" False err sys_read_err [OF err] by (subst (asm) readn_loop.simps) auto
      qed
    qed
  qed
qed

lemma Readn_smaller:
  assumes "(rc, out, w') = Readn n w" "n \<noteq> 0"
  shows "rc < 0 \<Longrightarrow> rx_size (rx w') < rx_size (rx w)"
    and "\<not> rc < 0 \<Longrightarrow> rc \<noteq> 0 \<Longrightarrow> n - nat rc < n"
  using readn_loop_bound [of n n w rc out w'] assms by (auto simp: Readn_def)

function RecvSDP_bytes :: "int \<Rightarrow> nat \<Rightarrow> byte list \<Rightarrow> net \<Rightarrow> (int \<times> byte list) \<times> net" where
  "RecvSDP_bytes sockfd n acc w =
     (if n = 0 then ((TRANS_OK, acc), w)
      else if CheckSockReadable sockfd = 0 then ((TRANS_ERROR, acc), w)
      else case Readn n w of (RecvResult, out, w') \<Rightarrow>
        if RecvResult < 0 then
          if last_errno w' = EINTR then RecvSDP_bytes sockfd n acc w'
          else if last_errno w' = EAGAIN then ((TRANS_OK, acc @ out), w')
          else ((TRANS_ERROR, acc @ out), w')
        else if RecvResult = 0 then ((TRANS_ERROR, acc @ out), w')
        else RecvSDP_bytes sockfd (n - nat RecvResult) (acc @ out) w')"
  by pat_completeness auto

termination
  by (relation "measures [\<lambda>(fd, n, acc, w). n, \<lambda>(fd, n, acc, w). rx_size (rx w)]")
    (auto dest: Readn_smaller)

declare RecvSDP_bytes.simps [simp del]

text \<open>\<open>tmp >> Size\<close> reads a \<open>size_t\<close>; both callers pass \<open>&SDPStr\<close>.\<close>

definition CONTENT_LENGTH_PATTERN :: string where "CONTENT_LENGTH_PATTERN = ''Content-Length: +([0-9]+)''"

definition ss_get_size :: "nat \<Rightarrow> sstream \<Rightarrow> nat" where
  "ss_get_size old s = nat (fst (ss_get_num 0 (2 ^ 64 - 1) (int old) s))"

definition RecvSDP :: "int \<Rightarrow> client \<Rightarrow> ub + (int \<times> client)" where
  "RecvSDP sockfd c =
     (let c1 = c\<lparr>SDPStr := []\<rparr> in
      case rx_groups (RtspResponse c) CONTENT_LENGTH_PATTERN of
        None \<Rightarrow> Inr (TRANS_ERROR, c1)
      | Some g \<Rightarrow>
          ub_bind (group1 g) (\<lambda>digits.
          let Size = ss_get_size 0 (ss_new digits) in
          if RECV_BUF_SIZE \<le> Size then Inr (TRANS_ERROR, c1)
          else case on_socket sockfd (RecvSDP_bytes sockfd Size []) c1 of ((RecvResult, Buf), c2) \<Rightarrow>
            Inr (RecvResult,
                 if RecvResult = TRANS_OK then c2\<lparr>SDPStr := cstr (string_of Buf)\<rparr> else c2)))"

subsection \<open>The search for a port\<close>

text \<open>The loop over even ports. \<open>us\<close> says whether the next \<open>socket\<close> calls succeed (they do once the
  script is used up), \<open>free\<close> which ports can be bound. \<open>port\<close> is a \<open>uint16_t\<close>, so adding 2
  to 65534 gives 0; a search that finds nothing does not return.\<close>

fun next_ok :: "bool list \<Rightarrow> bool \<times> bool list" where
  "next_ok [] = (True, [])"
| "next_ok (b # r) = (b, r)"

partial_function (option) search_ports ::
    "(u16 \<Rightarrow> bool) \<Rightarrow> bool list \<Rightarrow> u16 \<Rightarrow> ((u16 \<times> u16) option \<times> bool list) option" where
  "search_ports free us port =
     (if \<not> port < 65535 then Some (None, us)
      else case next_ok us of (ok1, us1) \<Rightarrow>
        if \<not> ok1 then Some (None, us1)
        else if \<not> free port then search_ports free us1 (port + 2)
        else case next_ok us1 of (ok2, us2) \<Rightarrow>
          if \<not> ok2 then Some (None, us2)
          else if \<not> free (port + 1) then search_ports free us2 (port + 2)
          else Some (Some (port, port + 1), us2))"

declare search_ports.simps [code]

definition SetAvailableRTPPort :: "string \<Rightarrow> u16 \<Rightarrow> client \<Rightarrow> ub + (int \<times> client)" where
  "SetAvailableRTPPort media_session RTP_port c =
     (let Search_RTP_Port_From = (if RTP_port \<noteq> 0 \<and> RTP_port mod 2 = 0 then RTP_port else SEARCH_PORT_RTP_FROM) in
      ub_bind (on_session_at media_session (\<lambda>ms. ms\<lparr>RTPPort := 0, RTCPPort := 0\<rparr>) c) (\<lambda>c1.
      case search_ports (port_free c1) (udp_socks c1) Search_RTP_Port_From of
        None \<Rightarrow> Inl Hangs
      | Some (None, us) \<Rightarrow> Inr (0, c1\<lparr>udp_socks := us\<rparr>)
      | Some (Some (p, q), us) \<Rightarrow>
          ub_bind (on_session_at media_session (\<lambda>ms. ms\<lparr>RTPPort := p, RTCPPort := q\<rparr>) (c1\<lparr>udp_socks := us\<rparr>))
            (\<lambda>c2. Inr (1, c2))))"

end
