(* ===== verification/Rtsp_Auth.thy ===== *)
theory Rtsp_Auth
  imports Rtsp_Transport
begin

section \<open>Authentication (rtspClient.cpp, RFC 2617)\<close>

text \<open>
  The digest and basic responses and \<open>CheckAuth\<close>, which answers a 401 by sending the command again.
  The digests use the MD5 of the library. \<open>dq\<close> is the double quote.
\<close>

abbreviation dq :: string where "dq \<equiv> [CHR 0x22]"

subsection \<open>Responses\<close>

text \<open>\<open>char buf[MD5_BUF_SIZE] = {0}; Md5sum32(tmp, buf, length, MD5_BUF_SIZE); buf[n] = '\0';\<close> and the
  text in the buffer.\<close>

definition md5_text :: "md5_ctx \<Rightarrow> byte list \<Rightarrow> nat \<Rightarrow> ub + string" where
  "md5_text ctx0 input n =
     ub_bind (Md5sum32 ctx0 (Some input) (Some (replicate MD5_BUF_SIZE (CHR 0x00))) (length input) MD5_BUF_SIZE)
       (\<lambda>(rc, buf). case buf of None \<Rightarrow> Inl NullDeref | Some b \<Rightarrow> Inr (cstr (b[n := CHR 0x00])))"

definition MakeMd5DigestResp ::
    "string \<Rightarrow> string \<Rightarrow> string \<Rightarrow> string \<Rightarrow> string \<Rightarrow> string \<Rightarrow> client \<Rightarrow> ub + string" where
  "MakeMd5DigestResp realm cmd uri nonce username password c =
     (let (user, pwd) = (if username = [] then (Username c, Password c) else (username, password)) in
      ub_bind (md5_text (junk_ctx c) (bytes_of (user @ '':'' @ realm @ '':'' @ pwd)) MD5_SIZE) (\<lambda>ha1.
      ub_bind (md5_text (junk_ctx c) (bytes_of (cmd @ '':'' @ uri)) MD5_SIZE) (\<lambda>ha2.
      md5_text (junk_ctx c) (bytes_of (ha1 @ '':'' @ nonce @ '':'' @ ha2)) MD5_SIZE)))"

definition MakeBasicResp :: "string \<Rightarrow> string \<Rightarrow> client \<Rightarrow> string" where
  "MakeBasicResp username password c =
     (let (user, pwd) = (if username = [] then (Username c, Password c) else (username, password)) in
      cstr (base64Encode (bytes_of (user @ '':'' @ pwd))))"

definition UpdateXSessionCookie :: "client \<Rightarrow> ub + client" where
  "UpdateXSessionCookie c =
     ub_bind (md5_text (junk_ctx c) (now c) 23) (\<lambda>habuf. Inr (c\<lparr>HttpHeadXSessionCookieContent := habuf\<rparr>))"

subsection \<open>Parts of a request\<close>

definition request_line :: "string \<Rightarrow> string \<Rightarrow> string" where
  "request_line cmd uri = cmd @ '' '' @ uri @ '' '' @ ''RTSP/'' @ VERSION_RTSP @ crlf"

text \<open>\<open>++RtspCSeq\<close>.\<close>

definition next_cseq :: "client \<Rightarrow> client" where
  "next_cseq c = c\<lparr>RtspCSeq := RtspCSeq c + 1\<rparr>"

definition cseq_line :: "client \<Rightarrow> string" where
  "cseq_line c = ''CSeq: '' @ show_nat (unat (RtspCSeq c)) @ crlf"

definition digest_line :: "string \<Rightarrow> string \<Rightarrow> string \<Rightarrow> string \<Rightarrow> string \<Rightarrow> string" where
  "digest_line user realm nonce uri response =
     ''Authorization: Digest username='' @ dq @ user @ dq @ '', realm='' @ dq @ realm @ dq @
     '', nonce='' @ dq @ nonce @ dq @ '', uri='' @ dq @ uri @ dq @ '', response='' @ dq @ response @ dq @ crlf"

text \<open>The basic header has no line end of its own.\<close>

definition basic_line :: "string \<Rightarrow> string" where
  "basic_line response = ''Authorization: Basic '' @ response"

text \<open>The header of a command that already knows its realm: \<open>None\<close> when the digest has a wrong length,
  which ends the command.\<close>

definition auth_header :: "string \<Rightarrow> string \<Rightarrow> client \<Rightarrow> ub + string option" where
  "auth_header cmd uri c =
     (if Realm c \<noteq> [] \<and> Nonce c \<noteq> [] then
        ub_bind (MakeMd5DigestResp (Realm c) cmd uri (Nonce c) [] [] c) (\<lambda>r.
        if length r \<noteq> MD5_SIZE then Inr None
        else Inr (Some (digest_line (Username c) (Realm c) (Nonce c) uri r)))
      else if Realm c \<noteq> [] then Inr (Some (basic_line (MakeBasicResp [] [] c)))
      else Inr (Some []))"

subsection \<open>CheckAuth\<close>

definition DIGEST_PATTERN :: string where
  "DIGEST_PATTERN = ''WWW-Authenticate: *Digest +realm='' @ dq @ ''([a-zA-Z_0-9 ]+)'' @ dq @
     '', *nonce='' @ dq @ ''([a-zA-Z0-9]+)'' @ dq"

definition BASIC_PATTERN :: string where
  "BASIC_PATTERN = ''WWW-Authenticate: *Basic +realm='' @ dq @ ''([a-zA-Z_0-9 ]+)'' @ dq"

text \<open>The header for the challenge in the response, which also sets \<open>Realm\<close> and \<open>Nonce\<close>.\<close>

definition answer_challenge :: "string \<Rightarrow> string \<Rightarrow> client \<Rightarrow> ub + (string option \<times> client)" where
  "answer_challenge cmd uri c =
     (case rx_groups (RtspResponse c) DIGEST_PATTERN of
        Some g0 \<Rightarrow>
          ub_bind (pop_front g0) (\<lambda>g1.
          ub_bind (take_front g1) (\<lambda>(realm, g2).
          ub_bind (front g2) (\<lambda>nonce.
          let c1 = c\<lparr>Realm := realm, Nonce := nonce\<rparr> in
          ub_bind (MakeMd5DigestResp realm cmd uri nonce [] [] c1) (\<lambda>r.
          if length r \<noteq> MD5_SIZE then Inr (None, c1)
          else Inr (Some (digest_line (Username c1) realm nonce uri r), c1)))))
      | None \<Rightarrow>
          (case rx_groups (RtspResponse c) BASIC_PATTERN of
             Some g0 \<Rightarrow>
               ub_bind (group1 g0) (\<lambda>realm.
               let c1 = c\<lparr>Realm := realm\<rparr> in Inr (Some (basic_line (MakeBasicResp [] [] c1)), c1))
           | None \<Rightarrow> Inr (Some [], c)))"

text \<open>\<open>err\<close> is not initialised: if the response matches none of the patterns, its value is used.\<close>

definition CheckAuth :: "int \<Rightarrow> string \<Rightarrow> string \<Rightarrow> client \<Rightarrow> ub + (int \<times> client)" where
  "CheckAuth sockfd cmd uri c =
     (case snd (IsResponse_200_OK None c) of
        None \<Rightarrow> Inl Indeterminate
      | Some err \<Rightarrow>
          if err \<noteq> RTSP_RESPONSE_401 then Inr (CHECK_OK, c)
          else if Username c = [] then Inr (CHECK_ERROR, c)
          else
            let c1 = next_cseq c; Msg = request_line cmd (RtspURI c) @ cseq_line c1 in
            ub_bind (answer_challenge cmd uri c1) (\<lambda>(auth, c2).
            case auth of
              None \<Rightarrow> Inr (CHECK_ERROR, c2)
            | Some h \<Rightarrow>
                (case SendRTSP sockfd (RtspOverHttpDataPort c2) (Msg @ h @ crlf) c2 of (ret, c3) \<Rightarrow>
                   if ret \<noteq> RTSP_NO_ERROR then Inr (CHECK_ERROR, c3)
                   else
                     ub_bind (RecvRTSP sockfd (RtspOverHttpDataPort c3) c3) (\<lambda>(ret2, c4).
                     if ret2 \<noteq> RTSP_NO_ERROR then Inr (CHECK_ERROR, c4)
                     else if \<not> fst (IsResponse_200_OK None c4) then Inr (CHECK_ERROR, c4)
                     else Inr (CHECK_OK, c4)))))"

end
