(* ===== verification/Rtsp_Commands.thy ===== *)
theory Rtsp_Commands
  imports Rtsp_Auth
begin

section \<open>The commands (rtspClient.cpp: DoOPTIONS to DoTEARDOWN)\<close>

text \<open>
  One function per command and overload: \<open>DoX\<close> works on the session behind a pointer, \<open>DoX_type\<close> on
  the first session whose key matches a pattern, \<open>DoX_all\<close> on all sessions. A command returns its
  error code and the client.
\<close>

type_synonym outcome = "ub + (error_type \<times> client)"

subsection \<open>What the commands share\<close>

text \<open>Sending a request, receiving the response and checking the authentication: \<open>Some err\<close> if the
  command returns there.\<close>

definition exchange ::
    "int \<Rightarrow> string \<Rightarrow> string \<Rightarrow> string \<Rightarrow> bool \<Rightarrow> client \<Rightarrow> ub + (error_type option \<times> client)" where
  "exchange Sockfd Cmd uri Msg http_tunnel_no_response c =
     (case SendRTSP Sockfd (RtspOverHttpDataPort c) Msg c of (ret, c1) \<Rightarrow>
        if ret \<noteq> RTSP_NO_ERROR then Inr (Some ret, c1)
        else if http_tunnel_no_response then Inr (Some RTSP_NO_ERROR, c1)
        else
          ub_bind (RecvRTSP Sockfd (RtspOverHttpDataPort c1) c1) (\<lambda>(ret2, c2).
          if ret2 \<noteq> RTSP_NO_ERROR then Inr (Some ret2, c2)
          else
            ub_bind (CheckAuth Sockfd Cmd uri c2) (\<lambda>(ok, c3).
            if ok \<noteq> CHECK_OK then Inr (Some RTSP_RESPONSE_401, snd (Close Sockfd c3))
            else Inr (None, c3))))"

fun for_sessions ::
    "(string \<Rightarrow> client \<Rightarrow> outcome) \<Rightarrow> string list \<Rightarrow> error_type \<Rightarrow> client \<Rightarrow> outcome" where
  "for_sessions f [] ErrAll c = Inr (ErrAll, c)"
| "for_sessions f (k # ks) ErrAll c =
     ub_bind (f k c) (\<lambda>(Err, c1). for_sessions f ks (if ErrAll = RTSP_NO_ERROR then Err else ErrAll) c1)"

definition all_sessions :: "(string \<Rightarrow> client \<Rightarrow> outcome) \<Rightarrow> client \<Rightarrow> outcome" where
  "all_sessions f c = for_sessions f (smap_keys (MediaSessionMap c)) RTSP_NO_ERROR c"

definition session_of_type :: "(string \<Rightarrow> client \<Rightarrow> outcome) \<Rightarrow> string \<Rightarrow> client \<Rightarrow> outcome" where
  "session_of_type f media_type c =
     (case find_type media_type c of
        Some k \<Rightarrow> f k c
      | None \<Rightarrow> Inr (RTSP_INVALID_MEDIA_SESSION, c))"

text \<open>The URI of DESCRIBE and OPTIONS.\<close>

definition command_uri :: "string \<Rightarrow> client \<Rightarrow> ub + (string option \<times> client)" where
  "command_uri uri c =
     (if uri \<noteq> [] then ub_bind (parseUriWithUserPwd uri c) (\<lambda>(u, c1). Inr (Some u, c1\<lparr>RtspURI := u\<rparr>))
      else if RtspURI c \<noteq> [] then Inr (Some (RtspURI c), c)
      else Inr (None, c))"

subsection \<open>DESCRIBE and OPTIONS\<close>

definition DoDESCRIBE :: "string \<Rightarrow> bool \<Rightarrow> client \<Rightarrow> outcome" where
  "DoDESCRIBE uri http_tunnel_no_response c =
     ub_bind (command_uri uri c) (\<lambda>(u, c1).
     case u of
       None \<Rightarrow> Inr (RTSP_INVALID_URI, c1)
     | Some RtspUri \<Rightarrow>
         ub_bind (CreateTcpSockfd RtspUri c1) (\<lambda>(Sockfd, c2).
         if Sockfd < 0 then Inr (RTSP_INVALID_URI, c2)
         else
           let c3 = next_cseq c2; Msg = request_line ''DESCRIBE'' RtspUri @ cseq_line c3 @ crlf in
           ub_bind (exchange Sockfd ''DESCRIBE'' RtspUri Msg http_tunnel_no_response c3) (\<lambda>(ret, c4).
           case ret of
             Some err \<Rightarrow> Inr (err, c4)
           | None \<Rightarrow>
               ub_bind (RecvSDP (if RtspOverHttpDataPort c4 \<noteq> 0 then RtspOverHttpDataSockfd c4 else Sockfd) c4)
                 (\<lambda>(rc, c5). Inr (RTSP_NO_ERROR, c5)))))"

definition DoOPTIONS :: "string \<Rightarrow> bool \<Rightarrow> client \<Rightarrow> outcome" where
  "DoOPTIONS uri http_tunnel_no_response c =
     ub_bind (command_uri uri c) (\<lambda>(u, c1).
     case u of
       None \<Rightarrow> Inr (RTSP_INVALID_URI, c1)
     | Some RtspUri \<Rightarrow>
         ub_bind (CreateTcpSockfd RtspUri c1) (\<lambda>(Sockfd, c2).
         if Sockfd < 0 then Inr (RTSP_INVALID_URI, c2)
         else
           let c3 = next_cseq c2; Msg = request_line ''OPTIONS'' RtspUri @ cseq_line c3 @ crlf in
           ub_bind (exchange Sockfd ''OPTIONS'' RtspUri Msg http_tunnel_no_response c3) (\<lambda>(ret, c4).
           case ret of Some err \<Rightarrow> Inr (err, c4) | None \<Rightarrow> Inr (RTSP_NO_ERROR, c4))))"

subsection \<open>PAUSE and GET_PARAMETER\<close>

definition session_line :: "media_session \<Rightarrow> string" where
  "session_line ms = ''Session: '' @ SessionID ms @ crlf"

definition DoPAUSE :: "string option \<Rightarrow> bool \<Rightarrow> client \<Rightarrow> outcome" where
  "DoPAUSE media_session http_tunnel_no_response c =
     (case media_session of
        None \<Rightarrow> Inr (RTSP_INVALID_MEDIA_SESSION, c)
      | Some k \<Rightarrow>
          ub_bind (CreateTcpSockfd [] c) (\<lambda>(Sockfd, c1).
          if Sockfd < 0 then Inr (RTSP_INVALID_URI, c1)
          else
            let c2 = next_cseq c1 in
            ub_bind (session_at k c2) (\<lambda>ms.
            let Msg = request_line ''PAUSE'' (RtspURI c2) @ cseq_line c2 @ session_line ms @ crlf in
            ub_bind (exchange Sockfd ''PAUSE'' (RtspURI c2) Msg http_tunnel_no_response c2) (\<lambda>(ret, c3).
            case ret of Some err \<Rightarrow> Inr (err, c3) | None \<Rightarrow> Inr (RTSP_NO_ERROR, c3)))))"

definition DoPAUSE_all :: "client \<Rightarrow> outcome" where
  "DoPAUSE_all = all_sessions (\<lambda>k. DoPAUSE (Some k) False)"

definition DoPAUSE_type :: "string \<Rightarrow> bool \<Rightarrow> client \<Rightarrow> outcome" where
  "DoPAUSE_type media_type no_response = session_of_type (\<lambda>k. DoPAUSE (Some k) no_response) media_type"

definition DoGET_PARAMETER :: "string option \<Rightarrow> bool \<Rightarrow> client \<Rightarrow> outcome" where
  "DoGET_PARAMETER media_session http_tunnel_no_response c =
     (case media_session of
        None \<Rightarrow> Inr (RTSP_INVALID_MEDIA_SESSION, c)
      | Some k \<Rightarrow>
          ub_bind (CreateTcpSockfd [] c) (\<lambda>(Sockfd, c1).
          if Sockfd < 0 then Inr (RTSP_INVALID_URI, c1)
          else
            let c2 = next_cseq c1 in
            ub_bind (session_at k c2) (\<lambda>ms.
            let Msg = request_line ''GET_PARAMETER'' (RtspURI c2) @ cseq_line c2 @ session_line ms @ crlf in
            ub_bind (exchange Sockfd ''GET_PARAMETER'' (RtspURI c2) Msg http_tunnel_no_response c2) (\<lambda>(ret, c3).
            case ret of Some err \<Rightarrow> Inr (err, c3) | None \<Rightarrow> Inr (RTSP_NO_ERROR, c3)))))"

definition DoGET_PARAMETER_all :: "client \<Rightarrow> outcome" where
  "DoGET_PARAMETER_all = all_sessions (\<lambda>k. DoGET_PARAMETER (Some k) False)"

definition DoGET_PARAMETER_type :: "string \<Rightarrow> bool \<Rightarrow> client \<Rightarrow> outcome" where
  "DoGET_PARAMETER_type media_type no_response =
     session_of_type (\<lambda>k. DoGET_PARAMETER (Some k) no_response) media_type"

subsection \<open>SETUP\<close>

definition transport_line :: "bool \<Rightarrow> media_session \<Rightarrow> client \<Rightarrow> string" where
  "transport_line rtp_over_tcp ms c =
     (if RtspOverHttpDataPort c > 0 then ''Transport:'' @ '' '' @ Protocol ms @ ''/TCP;'' @ ''interleaved=0-1'' @ crlf
      else if rtp_over_tcp then ''Transport:'' @ '' '' @ Protocol ms @ ''/TCP;'' @ ''interleaved=0-1'' @ crlf
      else ''Transport:'' @ '' '' @ Protocol ms @ ''/UDP;'' @ ''unicast;'' @ ''client_port='' @
        show_nat (unat (RTPPort ms)) @ ''-'' @ show_nat (unat (RTCPPort ms)) @ crlf)"

text \<open>\<open>SetDestroiedClbk(media_type, clbk)\<close>.\<close>

definition SetDestroiedClbk_type :: "string \<Rightarrow> nat option \<Rightarrow> client \<Rightarrow> ub + client" where
  "SetDestroiedClbk_type media_type clbk c =
     (case find_type media_type c of
        None \<Rightarrow> Inr c
      | Some k \<Rightarrow> on_session_at k (SetRtpDestroiedClbk clbk) c)"

text \<open>What follows the response: identifier and timeout, the RTP session and the callbacks. The
  default of 60 seconds is overwritten at once, and the result of \<open>RTP_SetUp\<close> is dropped.\<close>

definition finish_setup :: "string \<Rightarrow> int \<Rightarrow> bool \<Rightarrow> client \<Rightarrow> outcome" where
  "finish_setup k Sockfd rtp_over_tcp c =
     ub_bind (ParseSessionID (RtspResponse c) c) (\<lambda>sid.
     ub_bind (on_session_at k (\<lambda>ms. ms\<lparr>SessionID := sid\<rparr>) c) (\<lambda>c1.
     ub_bind (ParseTimeout (RtspResponse c1) c1) (\<lambda>timeout.
     ub_bind (if timeout \<le> 0 then on_session_at k (\<lambda>ms. ms\<lparr>Timeout := Some 60\<rparr>) c1 else Inr c1) (\<lambda>c2.
     ub_bind (on_session_at k (\<lambda>ms. ms\<lparr>Timeout := Some timeout\<rparr>) c2) (\<lambda>c3.
     let (env, c4) = next_env c3; sock = (if rtp_over_tcp then Sockfd else RtspOverHttpDataSockfd c4) in
     ub_bind (on_session_at k (\<lambda>ms. snd (RTP_SetUp env sock ms)) c4) (\<lambda>c5.
     ub_bind (SetDestroiedClbk_type ''audio'' (ByeFromServerAudioClbk c5) c5) (\<lambda>c6.
     ub_bind (SetDestroiedClbk_type ''video'' (ByeFromServerVideoClbk c6) c6) (\<lambda>c7.
     Inr (RTSP_NO_ERROR, c7)))))))))"

definition DoSETUP :: "string option \<Rightarrow> bool \<Rightarrow> bool \<Rightarrow> client \<Rightarrow> outcome" where
  "DoSETUP media_session rtp_over_tcp http_tunnel_no_response c =
     (case media_session of
        None \<Rightarrow> Inr (RTSP_INVALID_MEDIA_SESSION, c)
      | Some k \<Rightarrow>
          ub_bind (CreateTcpSockfd [] c) (\<lambda>(Sockfd, c1).
          if Sockfd < 0 then Inr (RTSP_INVALID_URI, c1)
          else
            ub_bind (SetAvailableRTPPort k 0 c1) (\<lambda>(found, c2).
            if found = 0 then Inr (RTSP_UNKNOWN_ERROR, c2)
            else
              ub_bind (session_at k c2) (\<lambda>ms.
              let c3 = next_cseq c2;
                  Msg = request_line ''SETUP'' (ControlURI ms) @ transport_line rtp_over_tcp ms c2 @ cseq_line c3 in
              ub_bind (auth_header ''SETUP'' (ControlURI ms) c3) (\<lambda>auth.
              case auth of
                None \<Rightarrow> Inr (RTSP_RESPONSE_401, c3)
              | Some h \<Rightarrow>
                  ub_bind (exchange Sockfd ''SETUP'' (RtspURI c3) (Msg @ h @ crlf) http_tunnel_no_response c3)
                    (\<lambda>(ret, c4).
                  case ret of
                    Some err \<Rightarrow> Inr (err, c4)
                  | None \<Rightarrow> finish_setup k Sockfd rtp_over_tcp c4))))))"

definition DoSETUP_all :: "client \<Rightarrow> outcome" where
  "DoSETUP_all = all_sessions (\<lambda>k. DoSETUP (Some k) False False)"

definition DoSETUP_type :: "string \<Rightarrow> bool \<Rightarrow> client \<Rightarrow> outcome" where
  "DoSETUP_type media_type rtp_over_tcp =
     session_of_type (\<lambda>k. DoSETUP (Some k) rtp_over_tcp False) media_type"

subsection \<open>PLAY\<close>

text \<open>A \<open>float\<close>: sign, mantissa and exponent of a finite one. \<open>%.1f\<close> rounds the exact value to tenths,
  ties to even; the text goes into 32 characters.\<close>

datatype cfloat = CFloat bool nat int | CInf bool | CNan bool

definition half_even :: "nat \<Rightarrow> nat \<Rightarrow> nat" where
  "half_even n d =
     (let q = n div d; r = n mod d in
      if 2 * r < d \<or> (2 * r = d \<and> even q) then q else q + 1)"

fun tenths :: "nat \<Rightarrow> int \<Rightarrow> nat" where
  "tenths m e = (if 0 \<le> e then 10 * m * 2 ^ nat e else half_even (10 * m) (2 ^ nat (- e)))"

definition minus_sign :: "bool \<Rightarrow> string" where
  "minus_sign neg = (if neg then ''-'' else [])"

fun float_text :: "cfloat \<Rightarrow> string" where
  "float_text (CFloat neg m e) =
     minus_sign neg @ show_nat (tenths m e div 10) @ ''.'' @ show_nat (tenths m e mod 10)"
| "float_text (CInf neg) = minus_sign neg @ ''inf''"
| "float_text (CNan neg) = minus_sign neg @ ''nan''"

definition sprintf_float :: "cfloat \<Rightarrow> ub + string" where
  "sprintf_float f = (if 32 < length (float_text f) + 1 then Inl Overrun else Inr (float_text f))"

definition opt_float :: "cfloat option \<Rightarrow> ub + string" where
  "opt_float f = (case f of None \<Rightarrow> Inr [] | Some x \<Rightarrow> sprintf_float x)"

definition scale_line :: "cfloat option \<Rightarrow> ub + string" where
  "scale_line scale =
     (case scale of
        None \<Rightarrow> Inr []
      | Some x \<Rightarrow> ub_bind (sprintf_float x) (\<lambda>t. Inr (''Scale: '' @ t @ crlf)))"

definition range_line :: "cfloat option \<Rightarrow> cfloat option \<Rightarrow> ub + string" where
  "range_line start_time end_time =
     (if start_time \<noteq> None \<or> end_time \<noteq> None then
        ub_bind (opt_float start_time) (\<lambda>s.
        ub_bind (opt_float end_time) (\<lambda>e. Inr (''Range: npt='' @ s @ ''-'' @ e @ crlf)))
      else Inr [])"

definition DoPLAY ::
    "string option \<Rightarrow> cfloat option \<Rightarrow> cfloat option \<Rightarrow> cfloat option \<Rightarrow> bool \<Rightarrow> client \<Rightarrow> outcome" where
  "DoPLAY media_session scale start_time end_time http_tunnel_no_response c =
     (case media_session of
        None \<Rightarrow> Inr (RTSP_INVALID_MEDIA_SESSION, c)
      | Some k \<Rightarrow>
          ub_bind (CreateTcpSockfd [] c) (\<lambda>(Sockfd, c1).
          if Sockfd < 0 then Inr (RTSP_INVALID_URI, c1)
          else
            ub_bind (scale_line scale) (\<lambda>scl.
            ub_bind (range_line start_time end_time) (\<lambda>rng.
            let c2 = next_cseq c1 in
            ub_bind (session_at k c2) (\<lambda>ms.
            let Msg = request_line ''PLAY'' (RtspURI c2) @ scl @ rng @ cseq_line c2 @ session_line ms in
            ub_bind (auth_header ''PLAY'' (RtspURI c2) c2) (\<lambda>auth.
            case auth of
              None \<Rightarrow> Inr (RTSP_RESPONSE_401, c2)
            | Some h \<Rightarrow>
                ub_bind (exchange Sockfd ''PLAY'' (RtspURI c2) (Msg @ h @ crlf) http_tunnel_no_response c2)
                  (\<lambda>(ret, c3).
                case ret of Some err \<Rightarrow> Inr (err, c3) | None \<Rightarrow> Inr (RTSP_NO_ERROR, c3))))))))"

definition DoPLAY_all :: "client \<Rightarrow> outcome" where
  "DoPLAY_all = all_sessions (\<lambda>k. DoPLAY (Some k) None None None False)"

definition DoPLAY_type ::
    "string \<Rightarrow> cfloat option \<Rightarrow> cfloat option \<Rightarrow> cfloat option \<Rightarrow> bool \<Rightarrow> client \<Rightarrow> outcome" where
  "DoPLAY_type media_type scale start_time end_time no_response =
     session_of_type (\<lambda>k. DoPLAY (Some k) scale start_time end_time no_response) media_type"

subsection \<open>TEARDOWN\<close>

text \<open>The first session with the same identifier is deleted and erased.\<close>

definition erase_session :: "string \<Rightarrow> client \<Rightarrow> client" where
  "erase_session sid c =
     (case smap_first (\<lambda>k ms. sid = SessionID ms) (MediaSessionMap c) of
        None \<Rightarrow> c
      | Some (k, ms) \<Rightarrow>
          c\<lparr>byes := byes c @ (case fst (delete_media_session ms) of None \<Rightarrow> [] | Some t \<Rightarrow> [t]),
            MediaSessionMap := smap_erase k (MediaSessionMap c)\<rparr>)"

definition DoTEARDOWN :: "string option \<Rightarrow> bool \<Rightarrow> client \<Rightarrow> outcome" where
  "DoTEARDOWN media_session http_tunnel_no_response c =
     (case media_session of
        None \<Rightarrow> Inr (RTSP_INVALID_MEDIA_SESSION, c)
      | Some k \<Rightarrow>
          ub_bind (CreateTcpSockfd [] c) (\<lambda>(Sockfd, c1).
          if Sockfd < 0 then Inr (RTSP_INVALID_URI, c1)
          else
            let c2 = next_cseq c1 in
            ub_bind (session_at k c2) (\<lambda>ms.
            let Msg = request_line ''TEARDOWN'' (RtspURI c2) @ cseq_line c2 @ session_line ms in
            ub_bind (auth_header ''TEARDOWN'' (RtspURI c2) c2) (\<lambda>auth.
            case auth of
              None \<Rightarrow> Inr (RTSP_RESPONSE_401, c2)
            | Some h \<Rightarrow>
                (case SendRTSP Sockfd (RtspOverHttpDataPort c2) (Msg @ h @ crlf) c2 of (ret, c3) \<Rightarrow>
                   if ret \<noteq> RTSP_NO_ERROR then Inr (ret, snd (Close Sockfd c3))
                   else if http_tunnel_no_response then Inr (RTSP_NO_ERROR, c3)
                   else
                     ub_bind (RecvRTSP Sockfd (RtspOverHttpDataPort c3) c3) (\<lambda>(ret2, c4).
                     if ret2 \<noteq> RTSP_NO_ERROR then Inr (ret2, snd (Close Sockfd c4))
                     else
                       ub_bind (CheckAuth Sockfd ''TEARDOWN'' (RtspURI c4) c4) (\<lambda>(ok, c5).
                       if ok \<noteq> CHECK_OK then Inr (RTSP_RESPONSE_401, snd (Close Sockfd c5))
                       else
                         ub_bind (session_at k c5) (\<lambda>ms5.
                         Inr (RTSP_NO_ERROR, snd (Close Sockfd (erase_session (SessionID ms5) c5)))))))))))"

definition DoTEARDOWN_type :: "string \<Rightarrow> bool \<Rightarrow> client \<Rightarrow> outcome" where
  "DoTEARDOWN_type media_type no_response = session_of_type (\<lambda>k. DoTEARDOWN (Some k) no_response) media_type"

definition DoTEARDOWN_all :: "client \<Rightarrow> outcome" where
  "DoTEARDOWN_all c =
     ub_bind (DoTEARDOWN_type ''audio'' False c) (\<lambda>(Err1, c1).
     ub_bind (DoTEARDOWN_type ''video'' False c1) (\<lambda>(Err2, c2).
     Inr (if Err1 = RTSP_NO_ERROR then Err2 else Err1, c2)))"

subsection \<open>The HTTP tunnel\<close>

definition http_line :: "string \<Rightarrow> string \<Rightarrow> string" where
  "http_line cmd resource = cmd @ '' '' @ resource @ '' '' @ ''HTTP/'' @ VERSION_HTTP @ crlf"

definition http_get_text :: "string \<Rightarrow> client \<Rightarrow> string" where
  "http_get_text resource c =
     http_line ''GET'' resource @
     HttpHeadUserAgent @ HttpHeadUserAgentContent c @ crlf @
     HttpHeadXSessionCookie @ HttpHeadXSessionCookieContent c @ crlf @
     HttpHeadAccept @ HttpHeadAcceptContent c @ crlf @
     HttpHeadPrama @ HttpHeadPramaContent c @ crlf @
     HttpHeadCacheControl @ HttpHeadCacheControlContent c @ crlf @ crlf"

definition http_post_text :: "string \<Rightarrow> client \<Rightarrow> string" where
  "http_post_text resource c =
     http_line ''POST'' resource @
     HttpHeadUserAgent @ HttpHeadUserAgentContent c @ crlf @
     HttpHeadXSessionCookie @ HttpHeadXSessionCookieContent c @ crlf @
     HttpHeadContentType @ HttpHeadContentTypeContent c @ crlf @
     HttpHeadPrama @ HttpHeadPramaContent c @ crlf @
     HttpHeadCacheControl @ HttpHeadCacheControlContent c @ crlf @
     HttpHeadContentLength @ HttpHeadContentLengthContent c @ crlf @
     HttpHeadExpires @ HttpHeadExpiresContent c @ crlf @ crlf"

definition DoRtspOverHttpGet :: "client \<Rightarrow> outcome" where
  "DoRtspOverHttpGet c =
     ub_bind (CreateTcpSockfd_port (RtspOverHttpDataPort c) c) (\<lambda>(Sockfd, c1).
     if Sockfd < 0 then Inr (RTSP_INVALID_URI, c1)
     else
       ub_bind (UpdateXSessionCookie c1) (\<lambda>c2.
       ub_bind (GetResource [] c2) (\<lambda>(resource, c3).
       case SendRTSP_string Sockfd (http_get_text resource c3) c3 of (ret, c4) \<Rightarrow>
         if ret \<noteq> RTSP_NO_ERROR then Inr (RTSP_SEND_ERROR, snd (Close Sockfd c4))
         else case RecvRTSP_string Sockfd c4 of (ret2, c5) \<Rightarrow>
           if ret2 \<noteq> RTSP_NO_ERROR then Inr (RTSP_RECV_ERROR, snd (Close Sockfd c5))
           else Inr (RTSP_NO_ERROR, c5))))"

definition DoRtspOverHttpPost :: "client \<Rightarrow> outcome" where
  "DoRtspOverHttpPost c =
     ub_bind (CreateTcpSockfd [] c) (\<lambda>(Sockfd, c1).
     if Sockfd < 0 then Inr (RTSP_INVALID_URI, c1)
     else
       ub_bind (GetResource [] c1) (\<lambda>(resource, c2).
       case SendRTSP_string Sockfd (http_post_text resource c2) c2 of (ret, c3) \<Rightarrow>
         if ret \<noteq> RTSP_NO_ERROR then Inr (RTSP_SEND_ERROR, snd (Close Sockfd c3))
         else Inr (RTSP_NO_ERROR, c3)))"

end
