(* ===== verification/Rtsp_Media.thy ===== *)
theory Rtsp_Media
  imports Rtsp_Commands
begin

section \<open>Sessions and media data (rtspClient.cpp: ParseSDP, GetMediaData and the rest)\<close>

text \<open>
  From the description to the sessions, the loop that assembles a frame out of RTP payloads, and
  the small methods that look up a session. \<open>buf\<close> and \<open>size\<close> are given as \<open>bufp\<close> and \<open>sizep\<close> (the
  pointers are not null) and the buffer is as long as \<open>max_size\<close> says.
\<close>

subsection \<open>ParseSDP\<close>

text \<open>\<open>ss << text; ss >> n\<close> for an \<open>unsigned\<close> and an \<open>int\<close>; the texts are digits or empty.\<close>

definition read_unsigned :: "u32 \<Rightarrow> string \<Rightarrow> u32" where
  "read_unsigned old t = word_of_int (fst (ss_get_num 0 (2 ^ 32 - 1) (uint old) (ss_new t)))"

definition read_int :: "int \<Rightarrow> string \<Rightarrow> int" where
  "read_int old t = fst (ss_get_int old (ss_new t))"

text \<open>The block for \<open>CODEC_TYPE\<close>: a frame object that reads its parameters from the description.\<close>

definition set_codec :: "sdp_media_info \<Rightarrow> attr_map \<Rightarrow> media_session \<Rightarrow> ub + media_session" where
  "set_codec info attrs ms =
     (case smap_find attrs CODEC_TYPE of
        None \<Rightarrow> Inr ms
      | Some enc \<Rightarrow>
          (case CreateNewFrameType enc of
             None \<Rightarrow> Inr (ms\<lparr>EncodeType := enc, ms_frame := None\<rparr>)
           | Some f \<Rightarrow>
               ub_bind (frame_ParseParaFromSDP info f) (\<lambda>f'.
               Inr (ms\<lparr>EncodeType := enc, ms_frame := Some f'\<rparr>))))"

definition set_numbers :: "attr_map \<Rightarrow> media_session \<Rightarrow> media_session" where
  "set_numbers attrs ms =
     (let ms1 = (case smap_find attrs TIME_RATE of
                   None \<Rightarrow> ms | Some t \<Rightarrow> ms\<lparr>TimeRate := read_unsigned (TimeRate ms) t\<rparr>);
          ms2 = (case smap_find attrs CHANNEL_NUM of
                   None \<Rightarrow> ms1 | Some t \<Rightarrow> ms1\<lparr>ChannelNum := read_unsigned (ChannelNum ms1) t\<rparr>)
      in case smap_find attrs PACK_MODE of
           None \<Rightarrow> ms2 | Some t \<Rightarrow> ms2\<lparr>ms_Packetization := read_int (ms_Packetization ms2) t\<rparr>)"

definition control_uri :: "string \<Rightarrow> string \<Rightarrow> string" where
  "control_uri base control =
     (if \<not> rx_test control ''rtsp://'' then base @ ''/'' @ control else control)"

definition session_of_info :: "string \<Rightarrow> sdp_media_info \<Rightarrow> ub + media_session" where
  "session_of_info base info =
     (let ms0 = new_media_session\<lparr>MediaType := mediaType info, Protocol := transProt info\<rparr> in
      case fmtMap info of
        [] \<Rightarrow> Inr ms0
      | (pt, attrs) # _ \<Rightarrow>
          ub_bind (set_codec info attrs (ms0\<lparr>PayloadType := PayloadType ms0 @ [pt]\<rparr>)) (\<lambda>ms1.
          Inr ((set_numbers attrs ms1)\<lparr>ControlURI := control_uri base (controlURI info)\<rparr>)))"

fun add_sessions :: "(string, sdp_media_info) smap \<Rightarrow> client \<Rightarrow> ub + client" where
  "add_sessions [] c = Inr c"
| "add_sessions ((key, info) # infos) c =
     (if smap_find (MediaSessionMap c) (mediaType info) \<noteq> None then add_sessions infos c
      else
        ub_bind (session_of_info (RtspURI c) info) (\<lambda>ms.
        add_sessions infos (put_session (mediaType info) ms c)))"

fun check_sessions :: "(string, media_session) smap \<Rightarrow> ub + (string, media_session) smap" where
  "check_sessions [] = Inr []"
| "check_sessions ((k, ms) # m) =
     ub_bind (MediaInfoCheck ms) (\<lambda>(rc, ms').
     ub_bind (check_sessions m) (\<lambda>m'. Inr ((k, ms') # m')))"

text \<open>Without an argument it is \<open>RtspResponse\<close> that must not be empty, and \<open>SDPStr\<close> that is parsed.\<close>

definition ParseSDP :: "string \<Rightarrow> client \<Rightarrow> ub + (int \<times> client)" where
  "ParseSDP SDP c =
     (if SDP = [] \<and> RtspResponse c = [] then Inr (0, c)
      else
        let Response = (if SDP \<noteq> [] then SDP else SDPStr c) in
        ub_bind (SDPData_parse Response (sdpData c)) (\<lambda>d.
        ub_bind (add_sessions (mediaInfoMap d) (c\<lparr>sdpData := d\<rparr>)) (\<lambda>c1.
        ub_bind (check_sessions (MediaSessionMap c1)) (\<lambda>m. Inr (0, c1\<lparr>MediaSessionMap := m\<rparr>)))))"

subsection \<open>GetMediaData\<close>

text \<open>A call that delivers data has taken an event off the script.\<close>

lemma wait_packet_polls:
  "wait_packet pick cap u ps = Inr (d, ps') \<Longrightarrow>
   length ps' \<le> length ps \<and> (\<forall>x. d = Some x \<and> x \<noteq> [] \<longrightarrow> length ps' < length ps)"
proof (induction pick cap u ps arbitrary: d ps' rule: wait_packet.induct)
  case (1 pick cap u ps)
  obtain e r where e: "next_event ps = (e, r)" by fastforce
  then have r: "length r \<le> length ps" "event_packet e \<noteq> None \<Longrightarrow> length r < length ps"
    by (cases ps; auto simp: quiet_event_def event_packet_def)+
  consider "IsError (poll_status e) = RTP_ERROR" | (last) "IsError (poll_status e) \<noteq> RTP_ERROR" "event_packet e = None" "u - 1 = 0"
    | (again) "IsError (poll_status e) \<noteq> RTP_ERROR" "event_packet e = None" "u - 1 \<noteq> 0"
    | (found) p where "IsError (poll_status e) \<noteq> RTP_ERROR" "event_packet e = Some p"
    by (cases "event_packet e") auto
  then show ?case
  proof cases
    case again
    then have rec: "wait_packet pick cap (u - 1) r = Inr (d, ps')"
      using "1.prems" e by (subst (asm) wait_packet.simps) simp
    show ?thesis using "1.IH" [OF e [symmetric] again rec] r(1) by fastforce
  qed (use "1.prems" e r in \<open>subst (asm) wait_packet.simps, auto split: if_splits\<close>)+
qed

lemma tcp_wait_polls:
  "tcp_wait_data cap u s = Inr (d, s') \<Longrightarrow>
   length (polls s') \<le> length (polls s) \<and> (\<forall>x. d = Some x \<and> x \<noteq> [] \<longrightarrow> length (polls s') < length (polls s))"
proof (induction cap u s arbitrary: d s' rule: tcp_wait_data.induct)
  case (1 cap u s)
  obtain locked s1 where l: "TryLockSocket s = (locked, s1)" by fastforce
  obtain e r where e: "next_event (polls s1) = (e, r)" by fastforce
  let ?s2 = "s1\<lparr>polls := r\<rparr>"
  let ?s3 = "if locked then session_UnlockSocket ?s2 else ?s2"
  have p1: "polls s1 = polls s" using l by (auto simp: TryLockSocket_def Let_def split: if_splits)
  have p3: "polls ?s3 = r" by (simp add: session_UnlockSocket_def split: session_kind.split)
  have r: "length r \<le> length (polls s)" "event_packet e \<noteq> None \<Longrightarrow> length r < length (polls s)"
    using e p1 by (cases "polls s"; auto simp: quiet_event_def event_packet_def)+
  have eq: "tcp_wait_data cap u s =
     (if locked \<and> IsError (poll_status e) = RTP_ERROR then Inr (None, ?s2)
      else case event_packet e of
        None \<Rightarrow> if u - 1 = 0 then Inr (Some [], ?s3) else tcp_wait_data cap (u - 1) ?s3
      | Some pack \<Rightarrow> if cap < length (packet_payload pack) then Inl Overrun else Inr (Some (packet_payload pack), ?s3))"
    by (subst tcp_wait_data.simps) (simp only: l e Let_def prod.case)
  show ?case
  proof (cases "(locked \<and> IsError (poll_status e) = RTP_ERROR) \<or> event_packet e \<noteq> None \<or> u - 1 = 0")
    case True
    then show ?thesis
      using "1.prems" r unfolding eq
      by (auto simp: session_UnlockSocket_def split: if_splits session_kind.splits option.splits)
  next
    case False
    then have h: "\<not> (locked \<and> IsError (poll_status e) = RTP_ERROR)" "event_packet e = None" "u - 1 \<noteq> 0"
      by auto
    have rec: "tcp_wait_data cap (u - 1) ?s3 = Inr (d, s')"
      using "1.prems" unfolding eq by (simp only: h if_False option.case)
    from "1.IH" [OF refl l [symmetric] refl e [symmetric] refl h(1) refl h(2,3) rec] show ?thesis
      using r(1) unfolding p3 by fastforce
  qed
qed

definition pending :: "media_session \<Rightarrow> nat" where
  "pending ms = (case RTPInterface ms of None \<Rightarrow> 0 | Some s \<Rightarrow> length (polls s))"

lemma ms_GetMediaData_pending:
  assumes "ms_GetMediaData bufp sizep cap t ms = Inr (Some d, ms')" "d \<noteq> []"
  shows "pending ms' < pending ms"
proof -
  obtain s s' where s: "RTPInterface ms = Some s" "GetMyRTPData bufp sizep cap t s = Inr (Some d, s')"
      "ms' = ms\<lparr>RTPInterface := Some s'\<rparr>"
    using assms(1) by (auto simp: ms_GetMediaData_def on_session_def ub_bind_eq_Inr split: option.splits)
  have "length (polls s') < length (polls s)"
    using s(2) assms(2) wait_packet_polls [of packet_payload cap "usleep_times t" "polls s" "Some d"]
      tcp_wait_polls [of cap "usleep_times t" s "Some d" s']
    by (auto simp: GetMyRTPData_defs lift_polls_def ub_bind_eq_Inr split: session_kind.splits if_splits)
  then show ?thesis using s by (simp add: pending_def)
qed

lemma pending_frame [simp]: "pending (ms\<lparr>ms_frame := f\<rparr>) = pending ms"
  by (simp add: pending_def)

text \<open>The loop: \<open>vbuf\<close> is the content of \<open>VideoBuffer\<close>, \<open>out\<close> what is in \<open>buf\<close>, \<open>*size\<close> its length. The
  result says whether \<open>buf\<close> or null is returned. \<open>PrefixParameterEveryPacket\<close> and its suffix are the
  base class's and return 0.\<close>

function media_loop ::
    "nat \<Rightarrow> byte list \<Rightarrow> byte list \<Rightarrow> media_session \<Rightarrow> ub + (bool \<times> byte list \<times> byte list \<times> media_session)" where
  "media_loop max_size vbuf out ms =
     (case ms_GetMediaData True True (length vbuf) TIMEOUT_MICROSECONDS ms of
        Inl e \<Rightarrow> Inl e
      | Inr (None, ms1) \<Rightarrow> Inr (False, out, vbuf, ms1)
      | Inr (Some d, ms1) \<Rightarrow>
          let SizeTmp = length d; vbuf1 = d @ drop SizeTmp vbuf in
          if SizeTmp = 0 then Inr (False, out, vbuf1, ms1)
          else if SizeTmp > length vbuf then Inr (False, out, vbuf1, ms1)
          else if length out + SizeTmp > max_size then Inr (True, out, vbuf1, ms1)
          else
            (case ms_frame ms1 of
               None \<Rightarrow> Inl NullDeref
             | Some f \<Rightarrow>
                 (case frame_ParsePacket f (Some vbuf1) SizeTmp True of
                    Inl e \<Rightarrow> Inl e
                  | Inr (rc, e, f1) \<Rightarrow>
                      let ms2 = ms1\<lparr>ms_frame := Some f1\<rparr> in
                      if rc \<noteq> 0 then Inr (False, out, vbuf1, ms2)
                      else
                        (case frame_CopyData f1 True (Some vbuf1) SizeTmp of
                           Inl e \<Rightarrow> Inl e
                         | Inr bytes \<Rightarrow>
                             if max_size < length out + length bytes then Inl Overrun
                             else if e = Some False then media_loop max_size vbuf1 (out @ bytes) ms2
                             else Inr (True, out @ bytes, vbuf1, ms2)))))"
  by pat_completeness auto

termination
proof (relation "measure (\<lambda>(max_size, vbuf, out, ms). pending ms)", goal_cases)
  case (2 max_size vbuf out ms r d1 ms1 d SizeTmp vbuf1 f r2 rc e f1 ms2 bytes)
  then show ?case
    using ms_GetMediaData_pending [of True True "length vbuf" TIMEOUT_MICROSECONDS ms d ms1] by auto
qed simp

declare media_loop.simps [simp del]

text \<open>The start of the frame: the parameter sets of the description, once.\<close>

definition prefix_once :: "media_session \<Rightarrow> ub + (bool \<times> byte list \<times> media_session)" where
  "prefix_once ms =
     (case ms_frame ms of
        None \<Rightarrow> Inl NullDeref
      | Some f \<Rightarrow>
          if frame_NeedPrefixParameterOnce f then
            (case frame_PrefixParameterOnce f of (bytes, ok, f') \<Rightarrow> Inr (ok, bytes, ms\<lparr>ms_frame := Some f'\<rparr>))
          else Inr (True, [], ms))"

text \<open>The result: whether \<open>buf\<close> is returned, and the bytes in \<open>buf\<close> with \<open>*size\<close> their number, \<open>None\<close>
  if \<open>*size\<close> was not written.\<close>

definition GetMediaData ::
    "string option \<Rightarrow> bool \<Rightarrow> bool \<Rightarrow> nat \<Rightarrow> client \<Rightarrow> ub + ((bool \<times> byte list option) \<times> client)" where
  "GetMediaData media_session bufp sizep max_size c =
     (case media_session of
        None \<Rightarrow> Inr ((False, None), c)
      | Some k \<Rightarrow>
          if \<not> bufp \<or> \<not> sizep then Inr ((False, None), c)
          else
            ub_bind (session_at k c) (\<lambda>ms.
            if ms_frame ms = None then Inr ((False, Some []), c)
            else
              ub_bind (prefix_once ms) (\<lambda>(ok, bytes, ms1).
              if max_size < length bytes then Inl Overrun
              else if \<not> ok then Inr ((False, Some bytes), put_session k ms1 c)
              else if FrameTypeBase_PrefixParameterEveryFrame \<noteq> 0 then Inr ((False, Some bytes), put_session k ms1 c)
              else
                ub_bind (media_loop max_size (VideoBuffer c) bytes ms1) (\<lambda>(ret, out, vbuf, ms2).
                Inr ((ret, Some out), put_session k ms2 (c\<lparr>VideoBuffer := vbuf\<rparr>))))))"

definition GetMediaData_type ::
    "string \<Rightarrow> bool \<Rightarrow> bool \<Rightarrow> nat \<Rightarrow> client \<Rightarrow> ub + ((bool \<times> byte list option) \<times> client)" where
  "GetMediaData_type media_type bufp sizep max_size c =
     (if \<not> bufp then Inr ((False, None), c)
      else if \<not> sizep then Inr ((False, None), c)
      else
        case (if smap_find (MediaSessionMap c) media_type \<noteq> None then Some media_type else find_type media_type c) of
          None \<Rightarrow> Inr ((False, Some []), c)
        | Some k \<Rightarrow> GetMediaData (Some k) bufp sizep max_size c)"

text \<open>A whole RTP packet: \<open>cap\<close> is the size of the caller's buffer.\<close>

definition GetMediaPacket ::
    "string option \<Rightarrow> bool \<Rightarrow> bool \<Rightarrow> nat \<Rightarrow> client \<Rightarrow> ub + (byte list option \<times> client)" where
  "GetMediaPacket media_session bufp sizep cap c =
     (case media_session of
        None \<Rightarrow> Inr (None, c)
      | Some k \<Rightarrow>
          ub_bind (session_at k c) (\<lambda>ms.
          ub_bind (ms_GetMediaPacket bufp sizep cap TIMEOUT_MICROSECONDS ms) (\<lambda>(d, ms').
          Inr (d, put_session k ms' c))))"

definition GetMediaPacket_type ::
    "string \<Rightarrow> bool \<Rightarrow> bool \<Rightarrow> nat \<Rightarrow> client \<Rightarrow> ub + (byte list option \<times> client)" where
  "GetMediaPacket_type media_type bufp sizep cap c =
     (case find_type media_type c of
        None \<Rightarrow> Inr (None, c)
      | Some k \<Rightarrow> GetMediaPacket (Some k) bufp sizep cap c)"

subsection \<open>Looking up a session\<close>

text \<open>An \<open>unsigned\<close> returned as an \<open>int\<close>.\<close>

definition GetTimeRate :: "string \<Rightarrow> client \<Rightarrow> ub + int" where
  "GetTimeRate media_type c =
     (case find_type media_type c of
        None \<Rightarrow> Inr (- 1)
      | Some k \<Rightarrow> ub_bind (session_at k c) (\<lambda>ms. Inr (sint (TimeRate ms))))"

definition GetChannelNum :: "string \<Rightarrow> client \<Rightarrow> ub + int" where
  "GetChannelNum media_type c =
     (case find_type media_type c of
        None \<Rightarrow> Inr (- 1)
      | Some k \<Rightarrow> ub_bind (session_at k c) (\<lambda>ms. Inr (sint (ChannelNum ms))))"

definition GetSessionTimeout :: "string option \<Rightarrow> client \<Rightarrow> ub + int" where
  "GetSessionTimeout media_session c =
     (case media_session of
        None \<Rightarrow> Inr 0
      | Some k \<Rightarrow>
          ub_bind (session_at k c) (\<lambda>ms. case Timeout ms of None \<Rightarrow> Inl Indeterminate | Some t \<Rightarrow> Inr t))"

definition GetSessionTimeout_type :: "string \<Rightarrow> client \<Rightarrow> ub + int" where
  "GetSessionTimeout_type media_type c =
     (case find_type media_type c of None \<Rightarrow> Inr 0 | Some k \<Rightarrow> GetSessionTimeout (Some k) c)"

definition SetDestroiedClbk :: "string option \<Rightarrow> nat option \<Rightarrow> client \<Rightarrow> ub + client" where
  "SetDestroiedClbk media_session clbk c =
     (case media_session of None \<Rightarrow> Inr c | Some k \<Rightarrow> on_session_at k (SetRtpDestroiedClbk clbk) c)"

definition SetAudioByeFromServerClbk :: "nat option \<Rightarrow> client \<Rightarrow> ub + client" where
  "SetAudioByeFromServerClbk clbk c = SetDestroiedClbk_type ''audio'' clbk (c\<lparr>ByeFromServerAudioClbk := clbk\<rparr>)"

definition SetVideoByeFromServerClbk :: "nat option \<Rightarrow> client \<Rightarrow> ub + client" where
  "SetVideoByeFromServerClbk clbk c = SetDestroiedClbk_type ''video'' clbk (c\<lparr>ByeFromServerVideoClbk := clbk\<rparr>)"

definition SetRtspCmdClbk :: "string \<Rightarrow> nat option \<Rightarrow> client \<Rightarrow> ub + client" where
  "SetRtspCmdClbk media_type clbk c =
     (case find_type media_type c of
        None \<Rightarrow> Inr c
      | Some k \<Rightarrow> on_session_at k (ms_SetRtspCmdClbk clbk) c)"

end
