(* ===== verification/Regex_Headers.thy ===== *)
theory Regex_Headers
  imports Regex_Fields
begin

section \<open>Header fields\<close>

text \<open>
  The client finds header fields with patterns like \<open>Content-Length: +([0-9]+)\<close>: a literal name,
  blanks and one group of characters of a class. \<open>header_groups\<close> says what such a pattern finds:
  the first field of that name, with the longest run of the class as its value.
\<close>

subsection \<open>The leftmost match\<close>

lemma longest_eq:
  assumes "take n s \<in> lang r" "n \<le> length s" "\<And>k. n < k \<Longrightarrow> k \<le> length s \<Longrightarrow> take k s \<notin> lang r"
  shows "longest r s = Some n"
proof -
  obtain m where m: "longest r s = Some m" "n \<le> m"
    using longest_greatest [OF assms(1)] assms(2) by auto
  then have "m \<le> length s" "take m s \<in> lang r" using longest_Some by blast+
  then have "m = n" using assms(3) [of m] m(2) by (cases "n < m") auto
  then show ?thesis using m(1) by simp
qed

lemma search_at_offset:
  assumes "longest r t = Some n" "\<And>x z k. pre = x @ z \<Longrightarrow> z \<noteq> [] \<Longrightarrow> take k (z @ t) \<notin> lang r"
  shows "search False False r (pre @ t) j = Some (j + length pre, j + length pre + n)"
  using assms(2)
proof (induction pre arbitrary: j)
  case Nil
  then show ?case using assms(1) by (subst search.simps) (simp add: match_here_def)
next
  case (Cons c pre)
  have "take k ((c # pre) @ t) \<notin> lang r" for k
    using Cons.prems [of "[]" "c # pre"] by blast
  then have "match_here False r ((c # pre) @ t) = None"
    by (simp add: match_here_def longest_None del: longest.simps)
  moreover have "search False False r (pre @ t) (Suc j) = Some (Suc j + length pre, Suc j + length pre + n)"
    by (rule Cons.IH) (use Cons.prems [of "c # _"] in \<open>metis append_Cons\<close>)
  ultimately show ?case by (subst search.simps) simp
qed

lemma find_sub_first:
  assumes "find_sub name (pre @ name) = Some (length pre)" "pre @ name = x @ name @ z"
  shows "z = []"
proof -
  have "drop (length x) (pre @ name) = name @ z" using assms(2) by simp
  then have "is_prefix name (drop (length x) (pre @ name))" unfolding is_prefix_iff by blast
  then have "length pre \<le> length x" using find_sub_least [OF assms(1), of "length x"] by (meson not_le)
  then show ?thesis using arg_cong [OF assms(2), of length] by simp
qed

subsection \<open>Literals and runs\<close>

fun lit_cat :: "string \<Rightarrow> re \<Rightarrow> re" where
  "lit_cat [] r = r"
| "lit_cat (c # s) r = Cat (Lit c) (lit_cat s r)"

lemma lang_lit_cat: "lang (lit_cat s r) = {s @ w | w. w \<in> lang r}"
  by (induction s) auto

lemma captures_lit_cat:
  assumes "w \<in> lang r"
  shows "captures (lit_cat s r) off (s @ w) = captures r (off + length s) w"
proof (induction s arbitrary: off)
  case (Cons c s)
  have rest: "s @ w \<in> lang (lit_cat s r)" using assms by (auto simp: lang_lit_cat)
  have "split_max (Lit c) (lit_cat s r) (c # s @ w) (length (c # s @ w)) = Some 1"
  proof (rule split_max_greatest)
    fix k assume "1 < k" "k \<le> length (c # s @ w)"
    then have "length (take k (c # s @ w)) = k" by simp
    then have "take k (c # s @ w) \<noteq> [c]" using \<open>1 < k\<close> by (metis length_Cons less_irrefl list.size(3) One_nat_def)
    then show "take k (c # s @ w) \<notin> lang (Lit c) \<or> drop k (c # s @ w) \<notin> lang (lit_cat s r)"
      by auto
  qed (use rest in simp_all)
  then have "captures (lit_cat (c # s) r) off (c # s @ w) =
      captures (Lit c) off [c] @ captures (lit_cat s r) (off + 1) (s @ w)"
    unfolding lit_cat.simps by (subst captures.simps(1)) simp
  then show ?case using Cons.IH [of "Suc off"] by simp
qed simp

abbreviation run :: "bool \<Rightarrow> (char \<times> char) list \<Rightarrow> re" where
  "run neg rs \<equiv> Cat (Cls neg rs) (Star (Cls neg rs))"

lemma star_cls: "w \<in> star {[c] | c. P c} \<longleftrightarrow> (\<forall>c \<in> set w. P c)"
proof
  show "w \<in> star {[c] | c. P c} \<Longrightarrow> \<forall>c \<in> set w. P c"
    by (induction rule: star.induct) auto
  show "\<forall>c \<in> set w. P c \<Longrightarrow> w \<in> star {[c] | c. P c}"
  proof (induction w)
    case (Cons c w)
    have "[c] @ w \<in> star {[c] | c. P c}" by (rule star_app) (use Cons in auto)
    then show ?case by simp
  qed auto
qed

lemma lang_run: "w \<in> lang (run neg rs) \<longleftrightarrow> w \<noteq> [] \<and> (\<forall>c \<in> set w. in_cls neg rs c)"
proof -
  have "w \<in> lang (run neg rs) \<longleftrightarrow> (\<exists>u v. w = u @ v \<and> (\<exists>c. u = [c] \<and> in_cls neg rs c) \<and> v \<in> star {[c] | c. in_cls neg rs c})"
    by simp
  also have "\<dots> \<longleftrightarrow> (\<exists>c v. w = c # v \<and> in_cls neg rs c \<and> v \<in> star {[c] | c. in_cls neg rs c})"
    (is "?A \<longleftrightarrow> ?B")
  proof
    assume ?A
    then obtain c v where "w = [c] @ v" "in_cls neg rs c" "v \<in> star {[c] | c. in_cls neg rs c}" by blast
    then show ?B by auto
  next
    assume ?B
    then obtain c v where "w = c # v" "in_cls neg rs c" "v \<in> star {[c] | c. in_cls neg rs c}" by blast
    then show ?A by (intro exI [of _ "[c]"] exI [of _ v]) simp
  qed
  finally have "w \<in> lang (run neg rs) \<longleftrightarrow>
      (\<exists>c v. w = c # v \<and> in_cls neg rs c \<and> v \<in> star {[c] | c. in_cls neg rs c})" .
  then show ?thesis by (cases w) (auto simp: star_cls)
qed

lemma lang_Blanks: "w \<in> lang Blanks \<longleftrightarrow> w \<noteq> [] \<and> set w \<subseteq> {CHR '' ''}"
  unfolding lang_run by auto

text \<open>A word splits in one way into a run of \<open>P\<close> and a rest that does not start with one.\<close>

lemma run_split:
  assumes "\<forall>c \<in> set a. P c" "\<forall>c \<in> set b. P c" "u = [] \<or> \<not> P (hd u)" "v = [] \<or> \<not> P (hd v)" "a @ u = b @ v"
  shows "a = b \<and> u = v"
proof -
  have "takeWhile P (x @ y) = x" if "\<forall>c \<in> set x. P c" "y = [] \<or> \<not> P (hd y)" for x y
    using that by (induction x) (cases y; auto)+
  then have "a = b" using assms by metis
  then show ?thesis using assms(5) by simp
qed

subsection \<open>The pattern of a header field\<close>

abbreviation value_re :: "bool \<Rightarrow> (char \<times> char) list \<Rightarrow> re" where
  "value_re neg rs \<equiv> Cat Blanks (Group 1 (run neg rs))"

lemma captures_value:
  assumes "b \<noteq> []" "set b \<subseteq> {CHR '' ''}" "v \<noteq> []" "\<forall>c \<in> set v. in_cls neg rs c" "\<not> in_cls neg rs CHR '' ''"
  shows "captures (value_re neg rs) off (b @ v) = [(1, off + length b, off + length b + length v)]"
proof -
  have v: "v \<in> lang (Group 1 (run neg rs))" using assms(3,4) lang_run by simp
  have "split_max Blanks (Group 1 (run neg rs)) (b @ v) (length (b @ v)) = Some (length b)"
  proof (rule split_max_greatest)
    fix k assume k: "length b < k" "k \<le> length (b @ v)"
    then obtain l where l: "k = length b + Suc l" by (metis add_Suc_right less_imp_Suc_add)
    obtain c u where cu: "v = c # u" using assms(3) by (cases v) auto
    have "c \<in> set (take k (b @ v))" by (simp add: l cu)
    moreover have "c \<noteq> CHR '' ''" using assms(4,5) cu by auto
    ultimately show "take k (b @ v) \<notin> lang Blanks \<or> drop k (b @ v) \<notin> lang (Group 1 (run neg rs))"
      unfolding lang_Blanks by auto
  next
    show "take (length b) (b @ v) \<in> lang Blanks" using assms(1,2) by (simp add: lang_Blanks del: lang.simps)
  qed (use v in simp_all)
  then have "captures (value_re neg rs) off (b @ v) =
      captures Blanks off b @ captures (Group 1 (run neg rs)) (off + length b) v"
    by (subst captures.simps(1)) simp
  moreover have "captures Blanks off b = []" "captures (run neg rs) n v = []" for n
    by (rule captures_group_free, simp)+
  ultimately show ?thesis by simp
qed

lemma value_lang:
  "w \<in> lang (value_re neg rs) \<longleftrightarrow>
   (\<exists>b v. w = b @ v \<and> b \<noteq> [] \<and> set b \<subseteq> {CHR '' ''} \<and> v \<noteq> [] \<and> (\<forall>c \<in> set v. in_cls neg rs c))"
proof -
  have "w \<in> lang (value_re neg rs) \<longleftrightarrow> (\<exists>b v. w = b @ v \<and> b \<in> lang Blanks \<and> v \<in> lang (run neg rs))"
    by (subst lang.simps(4), subst lang.simps(7)) (rule mem_Collect_eq [THEN trans], blast)
  then show ?thesis by (simp only: lang_Blanks, simp only: lang_run conj_assoc)
qed

lemma value_longest:
  assumes "b \<noteq> []" "set b \<subseteq> {CHR '' ''}" "v \<noteq> []" "\<forall>c \<in> set v. in_cls neg rs c" "\<not> in_cls neg rs CHR '' ''"
    and "post = [] \<or> \<not> in_cls neg rs (hd post)"
  shows "longest (lit_cat lit (value_re neg rs)) (lit @ b @ v @ post) = Some (length lit + length b + length v)"
proof (rule longest_eq)
  let ?n = "length lit + length b + length v" and ?s = "lit @ b @ v @ post"
  have t: "take ?n ?s = lit @ b @ v" by simp
  show "take ?n ?s \<in> lang (lit_cat lit (value_re neg rs))"
    unfolding t lang_lit_cat using assms(1-4) value_lang by blast
  fix k assume k: "?n < k" "k \<le> length ?s"
  then obtain l where l: "k = ?n + Suc l" by (metis add_Suc_right less_imp_Suc_add)
  obtain c u where cu: "post = c # u" using k by (cases post) auto
  have tk: "take k ?s = lit @ b @ v @ c # take l u" by (simp add: l cu)
  show "take k ?s \<notin> lang (lit_cat lit (value_re neg rs))"
  proof
    assume "take k ?s \<in> lang (lit_cat lit (value_re neg rs))"
    then obtain b' v' where e: "b @ v @ c # take l u = b' @ v'" "b' \<noteq> []" "set b' \<subseteq> {CHR '' ''}" "v' \<noteq> []"
        "\<forall>c \<in> set v'. in_cls neg rs c"
      unfolding tk lang_lit_cat using value_lang by blast
    have hd: "xs \<noteq> [] \<Longrightarrow> \<forall>c \<in> set xs. in_cls neg rs c \<Longrightarrow> hd xs \<noteq> CHR '' ''" for xs
      using assms(5) by (cases xs) auto
    have "hd (v @ c # take l u) \<noteq> CHR '' ''" using hd [OF assms(3,4)] assms(3) by (cases v) auto
    then have "v' = v @ c # take l u"
      using run_split [of b "\<lambda>c. c = CHR '' ''" b' "v @ c # take l u" v'] assms(2) e(1,3) hd [OF e(4,5)] by blast
    then show False using e(5) assms(6) cu by auto
  qed
qed simp

lemma header_groups:
  assumes p: "regcomp (cstr p) = Some \<lparr>at_start = False, at_end = False, expr = lit_cat lit (value_re neg rs)\<rparr>"
    "count_list (cstr p) CHR ''('' = 1"
    and v: "b \<noteq> []" "set b \<subseteq> {CHR '' ''}" "v \<noteq> []" "\<forall>c \<in> set v. in_cls neg rs c" "\<not> in_cls neg rs CHR '' ''"
      "post = [] \<or> \<not> in_cls neg rs (hd post)"
    and first: "\<And>x z. pre @ lit = x @ lit @ z \<Longrightarrow> z = []"
    and nul: "CHR 0x00 \<notin> set (pre @ lit @ b @ v @ post)"
    and len: "length (lit @ b @ v) < 2048"
  shows "rx_groups (pre @ lit @ b @ v @ post) p = Some [lit @ b @ v, v]"
proof -
  let ?s = "pre @ lit @ b @ v @ post" and ?r = "lit_cat lit (value_re neg rs)"
  let ?i = "length pre" and ?n = "length lit + length b + length v"
  let ?g = "?i + length lit + length b"
  have cs: "cstr ?s = ?s" using nul by (rule cstr_id)
  have sr: "search False False ?r ?s 0 = Some (?i, ?i + ?n)"
  proof -
    have "search False False ?r (pre @ lit @ b @ v @ post) 0 = Some (0 + ?i, 0 + ?i + ?n)"
    proof (rule search_at_offset [OF value_longest [OF v]])
      fix x z k assume z: "pre = x @ z" "z \<noteq> []"
      show "take k (z @ lit @ b @ v @ post) \<notin> lang ?r"
      proof
        assume "take k (z @ lit @ b @ v @ post) \<in> lang ?r"
        then obtain w where "take k (z @ lit @ b @ v @ post) = lit @ w" by (auto simp: lang_lit_cat)
        then have "take (length lit) (z @ lit @ b @ v @ post) = lit"
          by (metis append_eq_conv_conj append_take_drop_id take_append take_all_iff append_assoc nat_le_linear
              length_append le_add1 take_take min.absorb2)
        then have "take (length lit) (z @ lit) = lit" by simp
        then obtain y where "z @ lit = lit @ y" by (metis append_take_drop_id)
        then have "pre @ lit = x @ lit @ y" using z(1) by simp
        then have "y = []" by (rule first)
        then have "length z = 0" using arg_cong [OF \<open>z @ lit = lit @ y\<close>, of length] by simp
        then show False using z(2) by simp
      qed
    qed
    then show ?thesis by simp
  qed
  have w: "take (?i + ?n - ?i) (drop ?i ?s) = lit @ b @ v" by simp
  have bv: "b @ v \<in> lang (value_re neg rs)" using v value_lang by blast
  have "captures ?r ?i (lit @ b @ v) = [(1, ?g, ?g + length v)]"
    using captures_lit_cat [OF bv, of lit ?i] captures_value [OF v(1-5), of "?i + length lit"] by simp
  then have m: "regexec \<lparr>at_start = False, at_end = False, expr = ?r\<rparr> ?s =
      Some ((map_of [(1, ?g, ?g + length v)]) (0 \<mapsto> (?i, ?i + ?n)))"
    unfolding regexec_def by (simp only: compiled.simps sr option.case prod.case w rev.simps append.simps)
  have u: "[0..<Suc 1] = [0, 1 :: nat]" by (simp add: upt_rec)
  have g: "List.map_filter (group_text ?s ((map_of [(1, ?g, ?g + length v)]) (0 \<mapsto> (?i, ?i + ?n)))) [0, 1] =
      [lit @ b @ v, v]"
    using len by (simp add: List.map_filter_simps group_text_def Substr_def REGEX_BUF_SIZE_def Let_def)
  show ?thesis
    unfolding rx_groups_Some p(2) u cs
    by (intro exI conjI) (rule p(1), rule m, rule g [symmetric])
qed

end
