(* ===== verification/Rtsp_Responses.thy ===== *)
theory Rtsp_Responses
  imports Rtsp_Media Regex_Headers
begin

section \<open>What the client reads out of a response\<close>

text \<open>
  The status line, the session identifier and the content length: what the patterns of the client
  find in a well-formed response, and what happens when none of the status patterns matches.
\<close>

subsection \<open>The status line\<close>

abbreviation digits_re :: re where
  "digits_re \<equiv> run False [(CHR ''0'', CHR ''9'')]"

abbreviation status_re :: "re \<Rightarrow> re" where
  "status_re code \<equiv> lit_cat ''RTSP/'' (Cat digits_re (Cat (Lit CHR ''.'') (Cat digits_re (Cat Blanks code))))"

abbreviation code_200 :: re where "code_200 \<equiv> lits ''200''"
abbreviation code_401 :: re where "code_401 \<equiv> lits ''401''"
abbreviation code_40x :: re where "code_40x \<equiv> Cat (Lit CHR ''4'') (Cat (Lit CHR ''0'') (Cls False [(CHR ''0'', CHR ''9'')]))"
abbreviation code_50x :: re where "code_50x \<equiv> Cat (Lit CHR ''5'') (Cat (Lit CHR ''0'') (Cls False [(CHR ''0'', CHR ''9'')]))"

lemma regcomp_200: "regcomp (cstr (STATUS_PATTERN ''200'')) =
    Some \<lparr>at_start = False, at_end = False, expr = status_re code_200\<rparr>"
  by code_simp

lemma regcomp_401: "regcomp (cstr (STATUS_PATTERN ''401'')) =
    Some \<lparr>at_start = False, at_end = False, expr = status_re code_401\<rparr>"
  by code_simp

lemma regcomp_40x: "regcomp (cstr (STATUS_PATTERN ''40[0-9]'')) =
    Some \<lparr>at_start = False, at_end = False, expr = status_re code_40x\<rparr>"
  by code_simp

lemma regcomp_50x: "regcomp (cstr (STATUS_PATTERN ''50[0-9]'')) =
    Some \<lparr>at_start = False, at_end = False, expr = status_re code_50x\<rparr>"
  by code_simp

text \<open>\<open>RTSP/1.0 200 OK\<close> and whatever follows.\<close>

definition status_text :: "string \<Rightarrow> string \<Rightarrow> string \<Rightarrow> string \<Rightarrow> string" where
  "status_text v1 v2 code rest = ''RTSP/'' @ v1 @ ''.'' @ v2 @ '' '' @ code @ rest"

definition digits :: "string \<Rightarrow> bool" where
  "digits s \<longleftrightarrow> s \<noteq> [] \<and> (\<forall>c \<in> set s. is_digit c)"

definition status_ok :: "string \<Rightarrow> string \<Rightarrow> string \<Rightarrow> string \<Rightarrow> bool" where
  "status_ok v1 v2 code rest \<longleftrightarrow> digits v1 \<and> digits v2 \<and> digits code \<and> length code = 3 \<and>
     \<not> occurs_in ''RTSP/'' rest \<and> CHR 0x00 \<notin> set rest"

lemma in_cls_digit [simp]: "in_cls False [(CHR ''0'', CHR ''9'')] c \<longleftrightarrow> is_digit c"
  by (simp add: in_cls_def in_range_def is_digit_def)

lemma not_digit [simp]: "\<not> is_digit CHR '' ''" "\<not> is_digit CHR ''.''" "\<not> is_digit CHR ''R''" "\<not> is_digit CHR 0x00"
  by (simp_all add: is_digit_def)

lemma lang_digits: "w \<in> lang digits_re \<longleftrightarrow> digits w"
  unfolding lang_run by (simp add: digits_def)

lemma status_lang:
  "y \<in> lang (status_re code) \<longleftrightarrow>
   (\<exists>d1 d2 b k. y = ''RTSP/'' @ d1 @ ''.'' @ d2 @ b @ k \<and> digits d1 \<and> digits d2 \<and> b \<noteq> [] \<and>
      set b \<subseteq> {CHR '' ''} \<and> k \<in> lang code)"
  (is "?L \<longleftrightarrow> ?R")
proof -
  have cat: "w \<in> lang (Cat r s) \<longleftrightarrow> (\<exists>u v. w = u @ v \<and> u \<in> lang r \<and> v \<in> lang s)" for w r s by simp
  have dot: "w \<in> lang (Cat (Lit CHR ''.'') r) \<longleftrightarrow> (\<exists>v. w = ''.'' @ v \<and> v \<in> lang r)" for w r by auto
  show ?thesis
  proof
    assume ?L
    then obtain w1 where w1: "y = ''RTSP/'' @ w1"
        "w1 \<in> lang (Cat digits_re (Cat (Lit CHR ''.'') (Cat digits_re (Cat Blanks code))))"
      unfolding lang_lit_cat by blast
    obtain d1 w2 where w2: "w1 = d1 @ w2" "d1 \<in> lang digits_re" "w2 \<in> lang (Cat (Lit CHR ''.'') (Cat digits_re (Cat Blanks code)))"
      using w1(2) [unfolded cat [of w1 digits_re]] by (elim exE conjE)
    obtain w3 where w3: "w2 = ''.'' @ w3" "w3 \<in> lang (Cat digits_re (Cat Blanks code))"
      using w2(3) unfolding dot by (elim exE conjE)
    obtain d2 w4 where w4: "w3 = d2 @ w4" "d2 \<in> lang digits_re" "w4 \<in> lang (Cat Blanks code)"
      using w3(2) [unfolded cat [of w3 digits_re]] by (elim exE conjE)
    obtain b k where "w4 = b @ k" "b \<in> lang Blanks" "k \<in> lang code"
      using w4(3) [unfolded cat [of w4 Blanks]] by (elim exE conjE)
    then show ?R
      using w1(1) w2(1,2) w3(1) w4(1,2) unfolding lang_digits lang_Blanks
      by (intro exI [of _ d1] exI [of _ d2] exI [of _ b] exI [of _ k]) simp
  next
    assume ?R
    then obtain d1 d2 b k where y: "y = ''RTSP/'' @ d1 @ ''.'' @ d2 @ b @ k" and
        h: "digits d1" "digits d2" "b \<noteq> [] \<and> set b \<subseteq> {CHR '' ''}" "k \<in> lang code" by blast
    note d = h(1,2) [folded lang_digits] h(3) [folded lang_Blanks] h(4)
    have "d2 @ b @ k \<in> lang (Cat digits_re (Cat Blanks code))" by (intro lang_CatI d)
    then have "''.'' @ d2 @ b @ k \<in> lang (Cat (Lit CHR ''.'') (Cat digits_re (Cat Blanks code)))"
      unfolding dot by blast
    then have "d1 @ ''.'' @ d2 @ b @ k \<in> lang (Cat digits_re (Cat (Lit CHR ''.'') (Cat digits_re (Cat Blanks code))))"
      by (rule lang_CatI [OF d(1)])
    then show ?L unfolding y lang_lit_cat by blast
  qed
qed

text \<open>The name of the protocol occurs at the start only.\<close>

lemma status_first:
  assumes "status_ok v1 v2 code rest" "status_text v1 v2 code rest = x @ ''RTSP/'' @ t"
  shows "x = []"
proof (rule ccontr)
  assume x: "x \<noteq> []"
  define m where "m = ''TSP/'' @ v1 @ ''.'' @ v2 @ '' '' @ code"
  have m: "CHR ''R'' \<notin> set m"
    using assms(1) not_digit(3) by (auto simp: status_ok_def digits_def m_def)
  have s: "CHR ''R'' # m @ rest = x @ ''RTSP/'' @ t" using assms(2) by (simp add: status_text_def m_def)
  obtain a x' where ax: "x = a # x'" using x by (cases x) auto
  then have s': "m @ rest = x' @ ''RTSP/'' @ t" using s by simp
  show False
  proof (cases "length x' < length m")
    case True
    have "(m @ rest) ! length x' = CHR ''R''" unfolding s' by (simp add: nth_append)
    then have "m ! length x' = CHR ''R''" using True by (simp add: nth_append)
    then show False using m True nth_mem by metis
  next
    case False
    have "rest = drop (length m) (m @ rest)" by simp
    also have "\<dots> = drop (length m) x' @ ''RTSP/'' @ t" unfolding s' using False by simp
    finally have "occurs_in ''RTSP/'' rest" unfolding occurs_in_iff by blast
    then show False using assms(1) by (simp add: status_ok_def)
  qed
qed

lemma status_match:
  assumes ok: "status_ok v1 v2 code rest" and len: "\<And>k. k \<in> lang r \<Longrightarrow> length k = 3 \<and> is_digit (hd k)"
  shows "(\<exists>x y z. status_text v1 v2 code rest = x @ y @ z \<and> y \<in> lang (status_re r)) \<longleftrightarrow> code \<in> lang r"
proof
  have d: "digits v1" "digits v2" "digits code" "length code = 3" using ok by (auto simp: status_ok_def)
  assume "\<exists>x y z. status_text v1 v2 code rest = x @ y @ z \<and> y \<in> lang (status_re r)"
  then obtain x z d1 d2 b k where s: "status_text v1 v2 code rest = x @ (''RTSP/'' @ d1 @ ''.'' @ d2 @ b @ k) @ z"
      "digits d1" "digits d2" "b \<noteq> []" "set b \<subseteq> {CHR '' ''}" "k \<in> lang r"
    unfolding status_lang by blast
  then have "x = []" using status_first [OF ok, of x] by simp
  then have e: "v1 @ ''.'' @ v2 @ '' '' @ code @ rest = d1 @ ''.'' @ d2 @ b @ k @ z"
    using s(1) by (simp add: status_text_def)
  have "v1 = d1 \<and> ''.'' @ v2 @ '' '' @ code @ rest = ''.'' @ d2 @ b @ k @ z"
    by (rule run_split [of _ is_digit]) (use d s(2) e in \<open>auto simp: digits_def\<close>)
  then have e2: "v2 @ '' '' @ code @ rest = d2 @ b @ k @ z" by simp
  have hb: "hd b = CHR '' ''" using s(4,5) by (cases b) auto
  have "v2 = d2 \<and> '' '' @ code @ rest = b @ k @ z"
    by (rule run_split [of _ is_digit]) (use d s(3,4) e2 hb in \<open>auto simp: digits_def hd_append\<close>)
  then have e3: "'' '' @ code @ rest = b @ k @ z" ..
  have hd: "code \<noteq> []" "k \<noteq> []" "hd code \<noteq> CHR '' ''" "hd k \<noteq> CHR '' ''"
    using d(3) len [OF s(6)] not_digit(1) by (cases code; auto simp: digits_def simp del: not_digit)+
  have "'' '' = b \<and> code @ rest = k @ z"
    by (rule run_split [of _ "\<lambda>c. c = CHR '' ''"]) (use s(5) e3 hd in \<open>auto simp: hd_append\<close>)
  then have "code = k" using d(4) len [OF s(6)] by (metis append_eq_append_conv)
  then show "code \<in> lang r" using s(6) by simp
next
  have d: "digits v1" "digits v2" using ok by (auto simp: status_ok_def)
  assume "code \<in> lang r"
  then have "''RTSP/'' @ v1 @ ''.'' @ v2 @ '' '' @ code \<in> lang (status_re r)"
    unfolding status_lang using d by (intro exI [of _ v1] exI [of _ v2] exI [of _ "'' ''"] exI [of _ code]) auto
  moreover have "status_text v1 v2 code rest = [] @ (''RTSP/'' @ v1 @ ''.'' @ v2 @ '' '' @ code) @ rest"
    by (simp add: status_text_def)
  ultimately show "\<exists>x y z. status_text v1 v2 code rest = x @ y @ z \<and> y \<in> lang (status_re r)" by blast
qed

lemma status_cstr: "status_ok v1 v2 code rest \<Longrightarrow> cstr (status_text v1 v2 code rest) = status_text v1 v2 code rest"
  by (rule cstr_id) (auto simp: status_ok_def digits_def status_text_def)

lemma status_test:
  assumes "status_ok v1 v2 code rest" "\<And>k. k \<in> lang r \<Longrightarrow> length k = 3 \<and> is_digit (hd k)"
    and "regcomp (cstr p) = Some \<lparr>at_start = False, at_end = False, expr = status_re r\<rparr>"
  shows "rx_test (status_text v1 v2 code rest) p \<longleftrightarrow> code \<in> lang r"
  using status_match [OF assms(1,2)] rx_test_lang [OF assms(3)] by (simp add: status_cstr [OF assms(1)])

definition status_class :: "string \<Rightarrow> bool \<times> error_type option" where
  "status_class code =
     (if code = ''200'' then (True, Some RTSP_RESPONSE_200)
      else if code = ''401'' then (False, Some RTSP_RESPONSE_401)
      else if take 2 code = ''40'' then (False, Some RTSP_RESPONSE_40X)
      else if take 2 code = ''50'' then (False, Some RTSP_RESPONSE_50X)
      else (False, None))"

lemma code_x: "digits code \<Longrightarrow> length code = 3 \<Longrightarrow>
  code \<in> lang (Cat (Lit a) (Cat (Lit b) (Cls False [(CHR ''0'', CHR ''9'')]))) \<longleftrightarrow> take 2 code = [a, b]"
  by (cases code; cases "tl code"; cases "tl (tl code)") (auto simp: digits_def numeral_2_eq_2 Cons_eq_append_conv)

lemma status_tests:
  assumes "status_ok v1 v2 code rest"
  shows "rx_test (status_text v1 v2 code rest) (STATUS_PATTERN ''200'') \<longleftrightarrow> code = ''200''"
    and "rx_test (status_text v1 v2 code rest) (STATUS_PATTERN ''401'') \<longleftrightarrow> code = ''401''"
    and "rx_test (status_text v1 v2 code rest) (STATUS_PATTERN ''40[0-9]'') \<longleftrightarrow> take 2 code = ''40''"
    and "rx_test (status_text v1 v2 code rest) (STATUS_PATTERN ''50[0-9]'') \<longleftrightarrow> take 2 code = ''50''"
proof -
  have c: "digits code" "length code = 3" using assms by (auto simp: status_ok_def)
  show "rx_test (status_text v1 v2 code rest) (STATUS_PATTERN ''200'') \<longleftrightarrow> code = ''200''"
    by (subst status_test [OF assms _ regcomp_200]) (auto simp: lang_lits is_digit_def)
  show "rx_test (status_text v1 v2 code rest) (STATUS_PATTERN ''401'') \<longleftrightarrow> code = ''401''"
    by (subst status_test [OF assms _ regcomp_401]) (auto simp: lang_lits is_digit_def)
  show "rx_test (status_text v1 v2 code rest) (STATUS_PATTERN ''40[0-9]'') \<longleftrightarrow> take 2 code = ''40''"
    by (subst status_test [OF assms _ regcomp_40x]) (use code_x [OF c] in \<open>auto simp: is_digit_def\<close>)
  show "rx_test (status_text v1 v2 code rest) (STATUS_PATTERN ''50[0-9]'') \<longleftrightarrow> take 2 code = ''50''"
    by (subst status_test [OF assms _ regcomp_50x]) (use code_x [OF c] in \<open>auto simp: is_digit_def\<close>)
qed

lemma IsResponse_status:
  assumes "status_ok v1 v2 code rest" "RtspResponse c = status_text v1 v2 code rest"
  shows "IsResponse_200_OK None c = status_class code"
  unfolding IsResponse_200_OK_def status_class_def rx_test_ic_eq
  using status_tests [OF assms(1)] by (simp add: assms(2))

subsection \<open>Fields\<close>

text \<open>\<open>field_in s name P v\<close>: the first field \<open>name\<close> of \<open>s\<close> has the value \<open>v\<close>, a run of characters
  with \<open>P\<close> after blanks, short enough for the buffer of \<open>MyRegex\<close>.\<close>

definition field_in :: "string \<Rightarrow> string \<Rightarrow> (char \<Rightarrow> bool) \<Rightarrow> string \<Rightarrow> bool" where
  "field_in s name P v \<longleftrightarrow> CHR 0x00 \<notin> set s \<and>
     (\<exists>pre b post. s = pre @ name @ b @ v @ post \<and> b \<noteq> [] \<and> set b \<subseteq> {CHR '' ''} \<and> v \<noteq> [] \<and>
        (\<forall>c \<in> set v. P c) \<and> (post = [] \<or> \<not> P (hd post)) \<and>
        find_sub name (pre @ name) = Some (length pre) \<and> length (name @ b @ v) < 2048)"

lemma field_inI:
  assumes "s = pre @ name @ b @ v @ post" "b \<noteq> []" "set b \<subseteq> {CHR '' ''}" "v \<noteq> []" "\<forall>c \<in> set v. P c"
    "post = [] \<or> \<not> P (hd post)" "find_sub name (pre @ name) = Some (length pre)" "length (name @ b @ v) < 2048"
    "CHR 0x00 \<notin> set s"
  shows "field_in s name P v"
  using assms unfolding field_in_def by blast

lemma field_groups:
  assumes "field_in s name (in_cls neg rs) v" "\<not> in_cls neg rs CHR '' ''"
    and "regcomp (cstr p) = Some \<lparr>at_start = False, at_end = False, expr = lit_cat name (value_re neg rs)\<rparr>"
    and "count_list (cstr p) CHR ''('' = 1"
  shows "\<exists>w. rx_groups s p = Some [w, v]"
proof -
  obtain pre b post where s: "s = pre @ name @ b @ v @ post" "b \<noteq> []" "set b \<subseteq> {CHR '' ''}" "v \<noteq> []"
      "\<forall>c \<in> set v. in_cls neg rs c" "post = [] \<or> \<not> in_cls neg rs (hd post)"
      "find_sub name (pre @ name) = Some (length pre)" "length (name @ b @ v) < 2048"
    using assms(1) unfolding field_in_def by blast
  have "rx_groups s p = Some [name @ b @ v, v]"
    unfolding s(1)
    by (rule header_groups [OF assms(3,4) s(2-5) assms(2) s(6) find_sub_first [OF s(7)] _ s(8)])
      (use assms(1) s(1) in \<open>simp_all add: field_in_def\<close>)
  then show ?thesis by blast
qed

lemma regcomp_content_length: "regcomp (cstr CONTENT_LENGTH_PATTERN) = Some \<lparr>at_start = False, at_end = False,
    expr = lit_cat ''Content-Length:'' (value_re False [(CHR ''0'', CHR ''9'')])\<rparr>"
  "count_list (cstr CONTENT_LENGTH_PATTERN) CHR ''('' = 1"
  by code_simp+

lemma content_length_groups:
  "field_in s ''Content-Length:'' is_digit v \<Longrightarrow> \<exists>w. rx_groups s CONTENT_LENGTH_PATTERN = Some [w, v]"
  using field_groups [OF _ _ regcomp_content_length, of s v] by (simp add: field_in_def)

abbreviation session_ranges :: "(char \<times> char) list" where
  "session_ranges \<equiv> [(CHR ''0'', CHR ''9''), (CHR ''a'', CHR ''z''), (CHR ''A'', CHR ''Z''),
     (CHR ''_'', CHR ''_''), (CHR 0x5C, CHR 0x5C), (CHR ''$'', CHR ''.''), (CHR 0x5C, CHR 0x5C),
     (CHR ''.'', CHR ''.''), (CHR ''.'', CHR ''.''), (CHR 0x5C, CHR 0x5C), (CHR ''+'', CHR ''+'')]"

definition session_char :: "char \<Rightarrow> bool" where
  "session_char c \<longleftrightarrow> in_cls False session_ranges c"

lemma regcomp_session: "regcomp (cstr SESSION_PATTERN) = Some \<lparr>at_start = False, at_end = False,
    expr = lit_cat ''Session:'' (value_re False session_ranges)\<rparr>"
  "count_list (cstr SESSION_PATTERN) CHR ''('' = 1"
  by code_simp+

lemma session_groups:
  assumes "field_in s ''Session:'' session_char v"
  shows "\<exists>w. rx_groups s SESSION_PATTERN = Some [w, v]"
proof -
  have "session_char = in_cls False session_ranges" by (rule ext) (rule session_char_def)
  moreover have "\<not> in_cls False session_ranges CHR '' ''" by code_simp
  ultimately show ?thesis using field_groups [OF _ _ regcomp_session, of s v] assms by simp
qed

lemma ParseSessionID_field:
  assumes "field_in s ''Session:'' session_char v"
  shows "ParseSessionID s c = Inr v"
proof -
  obtain w where "rx_groups s SESSION_PATTERN = Some [w, v]" using session_groups [OF assms] by blast
  moreover have "s \<noteq> []" using assms by (auto simp: field_in_def)
  ultimately show ?thesis by (simp add: ParseSessionID_def response_of_def group1_def)
qed

end
