(* ===== verification/Rtsp_Exchange.thy ===== *)
theory Rtsp_Exchange
  imports Rtsp_Responses
begin

section \<open>Requests and responses\<close>

text \<open>
  What the transport guarantees over any segmentation of the streams: a request is sent whole and in
  order, a response is taken off the stream up to its blank line, a body of the announced length
  follows. From these the commands are shown to do a complete exchange with the server.
\<close>

subsection \<open>The loops over one socket\<close>

lemma check_sock [simp]: "CheckSockWritable fd = 1" "CheckSockReadable fd = 1"
  by (simp_all add: CheckSockWritable_def CheckSockReadable_def CHECK_OK_def)

lemma SendRTSP_bytes_all:
  assumes "tx_fine (tx w)"
  shows "\<exists>w'. SendRTSP_bytes fd bs w = (RTSP_NO_ERROR, w') \<and> sent w' = sent w @ bs \<and> tx_fine (tx w') \<and> rx w' = rx w"
proof (cases "bs = []")
  case True
  then show ?thesis using assms by (subst SendRTSP_bytes.simps) simp
next
  case False
  obtain w' where w: "Writen bs w = (int (length bs), w')" "sent w' = sent w @ bs" "tx_fine (tx w')" "rx w' = rx w"
    using Writen_all [OF assms] by blast
  have "SendRTSP_bytes fd bs w = SendRTSP_bytes fd [] w'"
    using False w(1) by (subst SendRTSP_bytes.simps) simp
  also have "\<dots> = (RTSP_NO_ERROR, w')" by (subst SendRTSP_bytes.simps) simp
  finally show ?thesis using w by blast
qed

lemma ReadLine_keeps: "ReadLine n w = (rc, out, w') \<Longrightarrow> 0 < n \<Longrightarrow> tx w' = tx w \<and> sent w' = sent w"
  using ReadLine_bound [of n w rc out w'] by simp

lemma RecvRTSP_bytes_header:
  assumes "\<forall>l \<in> set ls. lf_line l" "blank_line b"
    and "rx_stream (rx w) = header_bytes ls b @ s" "length (header_bytes ls b) < n"
  shows "\<exists>w'. RecvRTSP_bytes fd n acc w = ((RTSP_NO_ERROR, acc @ header_bytes ls b), w') \<and>
    rx_stream (rx w') = s \<and> tx w' = tx w \<and> sent w' = sent w"
  using assms(1,3,4)
proof (induction ls arbitrary: n acc w)
  case Nil
  obtain l where b: "b = l @ [10]" "10 \<notin> set l" using assms(2) by (auto simp: blank_line_def)
  obtain w' where rl: "ReadLine n w = (int (length b), b, w')" "rx_stream (rx w') = s"
    using ReadLine_line [of w l s n] Nil.prems b by (auto simp: header_bytes_def)
  have "end_line (int (length b)) b" "\<not> int (length b) < 0" "length b \<noteq> 0"
    using assms(2) blank_line_end by (auto simp: blank_line_def)
  then show ?case
    using rl ReadLine_keeps [OF rl(1)] Nil.prems
    by (intro exI [of _ w']) (subst RecvRTSP_bytes.simps, simp add: header_bytes_def)
next
  case (Cons l ls)
  have l: "10 \<notin> set l" "lf_line l" using Cons.prems(1) by (auto simp: lf_line_def)
  have h: "header_bytes (l # ls) b = with_lf l @ header_bytes ls b" by (simp add: header_bytes_def)
  obtain w1 where rl: "ReadLine n w = (int (length (with_lf l)), with_lf l, w1)"
      "rx_stream (rx w1) = header_bytes ls b @ s"
    using ReadLine_line [OF _ l(1), of w "header_bytes ls b @ s" n] Cons.prems(2,3)
    by (auto simp: h with_lf_def)
  have keep: "tx w1 = tx w \<and> sent w1 = sent w" using ReadLine_keeps [OF rl(1)] Cons.prems(3) by simp
  obtain w' where "RecvRTSP_bytes fd (n - length (with_lf l)) (acc @ with_lf l) w1 =
      ((RTSP_NO_ERROR, (acc @ with_lf l) @ header_bytes ls b), w')" "rx_stream (rx w') = s"
      "tx w' = tx w1" "sent w' = sent w1"
    using Cons.IH [of w1 "n - length (with_lf l)" "acc @ with_lf l"] Cons.prems rl(2)
    by (auto simp: h less_diff_conv add.commute)
  moreover have "nat (1 + int (length l)) = Suc (length l)" by simp
  then have "RecvRTSP_bytes fd n acc w = RecvRTSP_bytes fd (n - length (with_lf l)) (acc @ with_lf l) w1"
    using rl lf_line_not_end [OF l(2)] Cons.prems(3)
    by (subst RecvRTSP_bytes.simps) (simp add: h with_lf_def)
  ultimately show ?case using keep by (auto simp: h)
qed

lemma readn_loop_keeps: "readn_loop n k w = (rc, out, w') \<Longrightarrow> tx w' = tx w \<and> sent w' = sent w"
proof (induction n k w arbitrary: rc out w' rule: readn_loop.induct)
  case (1 n k w)
  then show ?case
    by (subst (asm) (3) readn_loop.simps)
      (fastforce split: if_splits prod.splits read_result.splits errno.splits)
qed

lemma RecvSDP_bytes_exact:
  assumes "n \<le> length (rx_stream (rx w))"
  shows "\<exists>w'. RecvSDP_bytes fd n [] w = ((TRANS_OK, take n (rx_stream (rx w))), w') \<and>
    rx_stream (rx w') = drop n (rx_stream (rx w)) \<and> tx w' = tx w \<and> sent w' = sent w"
proof (cases "n = 0")
  case True
  then show ?thesis by (subst RecvSDP_bytes.simps) simp
next
  case False
  obtain w' where w: "Readn n w = (int n, take n (rx_stream (rx w)), w')"
      "rx_stream (rx w') = drop n (rx_stream (rx w))"
    using Readn_exact [OF assms] by blast
  have "RecvSDP_bytes fd n [] w = RecvSDP_bytes fd 0 (take n (rx_stream (rx w))) w'"
    using False w(1) by (subst RecvSDP_bytes.simps) simp
  also have "\<dots> = ((TRANS_OK, take n (rx_stream (rx w))), w')" by (subst RecvSDP_bytes.simps) simp
  finally show ?thesis using w(2) readn_loop_keeps w(1) by (auto simp: Readn_def)
qed


subsection \<open>The client over its connection\<close>

text \<open>A header as the server sends it, and one with a status line. \<open>accepted\<close>: the codes after which
  a command goes on; besides 200 these are all of 40x and 50x but 401.\<close>

definition header_ok :: "byte list \<Rightarrow> bool" where
  "header_ok h \<longleftrightarrow> length h < RECV_BUF_SIZE \<and>
     (\<exists>ls b. h = header_bytes ls b \<and> (\<forall>l \<in> set ls. lf_line l) \<and> blank_line b)"

definition reply :: "byte list \<Rightarrow> string \<Rightarrow> bool" where
  "reply h code \<longleftrightarrow> header_ok h \<and>
     (\<exists>v1 v2 rest. string_of h = status_text v1 v2 code rest \<and> status_ok v1 v2 code rest)"

definition accepted :: "string \<Rightarrow> bool" where
  "accepted code \<longleftrightarrow> code = ''200'' \<or> code \<noteq> ''401'' \<and> take 2 code \<in> {''40'', ''50''}"

lemma header_no_nul: "header_ok h \<Longrightarrow> 0 \<notin> set h"
  by (auto simp: header_ok_def header_bytes_def lf_line_def with_lf_def blank_line_def split: if_splits)

lemma accepted_class: "accepted code \<Longrightarrow> \<exists>b e. status_class code = (b, Some e) \<and> e \<noteq> RTSP_RESPONSE_401"
  by (auto simp: accepted_def status_class_def)

lemma SendRTSP_string_all:
  assumes "socks c fd = Some w" "tx_fine (tx w)"
  shows "\<exists>w'. SendRTSP_string fd msg c = (RTSP_NO_ERROR, c\<lparr>socks := (socks c)(fd \<mapsto> w')\<rparr>) \<and>
    sent w' = sent w @ bytes_of msg \<and> tx_fine (tx w') \<and> rx w' = rx w"
  using SendRTSP_bytes_all [OF assms(2), of fd "bytes_of msg"] assms(1)
  by (auto simp: SendRTSP_string_def on_socket_def)

lemma SendRTSP_direct:
  assumes "socks c fd = Some w" "tx_fine (tx w)"
  shows "\<exists>w'. SendRTSP fd 0 msg c = (RTSP_NO_ERROR, c\<lparr>socks := (socks c)(fd \<mapsto> w')\<rparr>) \<and>
    sent w' = sent w @ bytes_of msg \<and> tx_fine (tx w') \<and> rx w' = rx w"
  using SendRTSP_string_all [OF assms, of msg] by (auto simp: SendRTSP_def)

lemma RecvRTSP_string_header:
  assumes "socks c fd = Some w" "rx_stream (rx w) = h @ s" "header_ok h"
  shows "\<exists>w'. RecvRTSP_string fd c =
      (RTSP_NO_ERROR, c\<lparr>socks := (socks c)(fd \<mapsto> w'), RtspResponse := string_of h\<rparr>) \<and>
    rx_stream (rx w') = s \<and> tx w' = tx w \<and> sent w' = sent w"
proof -
  obtain ls b where h: "h = header_bytes ls b" "\<forall>l \<in> set ls. lf_line l" "blank_line b" "length h < RECV_BUF_SIZE"
    using assms(3) by (auto simp: header_ok_def)
  obtain w' where "RecvRTSP_bytes fd RECV_BUF_SIZE [] w = ((RTSP_NO_ERROR, h), w')" "rx_stream (rx w') = s"
      "tx w' = tx w" "sent w' = sent w"
    using RecvRTSP_bytes_header [OF h(2,3), of w s RECV_BUF_SIZE fd "[]"] assms(2) h(1,4) by auto
  then show ?thesis
    using assms(1) cstr_string_of [OF header_no_nul [OF assms(3)]]
    by (intro exI [of _ w']) (simp add: RecvRTSP_string_def on_socket_def)
qed

lemma RecvRTSP_direct:
  assumes "socks c fd = Some w" "rx_stream (rx w) = h @ s" "header_ok h"
  shows "\<exists>w'. RecvRTSP fd 0 c =
      Inr (RTSP_NO_ERROR, c\<lparr>socks := (socks c)(fd \<mapsto> w'), RtspResponse := string_of h\<rparr>) \<and>
    rx_stream (rx w') = s \<and> tx w' = tx w \<and> sent w' = sent w"
  using RecvRTSP_string_header [OF assms] by (auto simp: RecvRTSP_def)

lemma reply_status:
  assumes "reply h code"
  shows "IsResponse_200_OK None (c\<lparr>RtspResponse := string_of h\<rparr>) = status_class code"
  using assms IsResponse_status by (fastforce simp: reply_def)

lemma IsResponse_cong: "RtspResponse c = RtspResponse c' \<Longrightarrow> IsResponse_200_OK None c = IsResponse_200_OK None c'"
  by (simp add: IsResponse_200_OK_def)

lemma reply_class:
  "reply h code \<Longrightarrow> RtspResponse c = string_of h \<Longrightarrow> IsResponse_200_OK None c = status_class code"
  using reply_status [of h code c] IsResponse_cong [of c "c\<lparr>RtspResponse := string_of h\<rparr>"] by simp

lemma CheckAuth_accepted:
  assumes "reply h code" "accepted code" "RtspResponse c = string_of h"
  shows "CheckAuth sockfd cmd uri c = Inr (CHECK_OK, c)"
  using accepted_class [OF assms(2)] reply_class [OF assms(1,3)] by (auto simp: CheckAuth_def)

text \<open>A request and an accepted response: the request is on the wire, the response in
  \<open>RtspResponse\<close> and off the stream.\<close>

lemma exchange_direct:
  assumes "socks c fd = Some w" "tx_fine (tx w)" "rx_stream (rx w) = h @ s" "RtspOverHttpDataPort c = 0"
    and "reply h code" "accepted code"
  shows "\<exists>w'. exchange fd cmd uri msg False c =
      Inr (None, c\<lparr>socks := (socks c)(fd \<mapsto> w'), RtspResponse := string_of h\<rparr>) \<and>
    sent w' = sent w @ bytes_of msg \<and> tx_fine (tx w') \<and> rx_stream (rx w') = s"
proof -
  obtain w1 where 1: "SendRTSP fd 0 msg c = (RTSP_NO_ERROR, c\<lparr>socks := (socks c)(fd \<mapsto> w1)\<rparr>)"
      "sent w1 = sent w @ bytes_of msg" "tx_fine (tx w1)" "rx w1 = rx w"
    using SendRTSP_direct [OF assms(1,2), of msg] by blast
  let ?c1 = "c\<lparr>socks := (socks c)(fd \<mapsto> w1)\<rparr>"
  have ok: "header_ok h" using assms(5) by (simp add: reply_def)
  obtain w2 where 2: "RecvRTSP fd 0 ?c1 =
        Inr (RTSP_NO_ERROR, ?c1\<lparr>socks := (socks ?c1)(fd \<mapsto> w2), RtspResponse := string_of h\<rparr>)"
      "rx_stream (rx w2) = s" "tx w2 = tx w1" "sent w2 = sent w1"
    using RecvRTSP_direct [of ?c1 fd w1 h s] assms(3) 1(4) ok by auto
  let ?c2 = "c\<lparr>socks := (socks c)(fd \<mapsto> w2), RtspResponse := string_of h\<rparr>"
  have "CheckAuth fd cmd uri ?c2 = Inr (CHECK_OK, ?c2)"
    by (rule CheckAuth_accepted [OF assms(5,6)]) simp
  then show ?thesis
    using 1 2 assms(4) by (intro exI [of _ w2]) (simp add: exchange_def)
qed

end
