(* ===== verification/Rtsp_Describe.thy ===== *)
theory Rtsp_Describe
  imports Rtsp_Exchange
begin

section \<open>Commands that do one exchange\<close>

text \<open>
  What a command that sends a request and reads its response leaves behind, over the direct connection
  and over the HTTP tunnel, and what the status code has to do with its result.
\<close>

subsection \<open>Headers given as lines of text\<close>

definition text_header :: "string list \<Rightarrow> byte list" where
  "text_header ls = bytes_of (concat (map (\<lambda>l. l @ crlf) ls) @ crlf)"

definition line_ok :: "string \<Rightarrow> bool" where
  "line_ok l \<longleftrightarrow> l \<noteq> [] \<and> CHR 0x00 \<notin> set l \<and> CHR 0x0A \<notin> set l"

lemma bytes_of_crlf: "bytes_of crlf = [13, 10]"
  by code_simp

lemma byte_chars: "byte_of_char CHR 0x00 = 0" "byte_of_char CHR 0x0A = 10" "byte_of_char CHR 0x0D = 13"
  by code_simp+

lemma byte_of_char_inject: "byte_of_char a = byte_of_char b \<longleftrightarrow> a = b"
  by (metis char_of_byte_of_char)

lemma byte_notin: "byte_of_char c \<notin> set (bytes_of l) \<longleftrightarrow> c \<notin> set l"
  by (auto simp: byte_of_char_inject)

lemma text_header_lines:
  "text_header ls = header_bytes (map (\<lambda>l. bytes_of l @ [13]) ls) [13, 10]"
proof -
  have "map byte_of_char (concat (map (\<lambda>l. l @ crlf) ls)) = concat (map with_lf (map (\<lambda>l. bytes_of l @ [13]) ls))"
    by (induction ls) (simp_all add: with_lf_def bytes_of_crlf)
  then show ?thesis by (simp add: text_header_def header_bytes_def bytes_of_crlf)
qed

lemma text_header_ok:
  assumes "\<forall>l \<in> set ls. line_ok l" "length (text_header ls) < RECV_BUF_SIZE"
  shows "header_ok (text_header ls)"
proof -
  have "lf_line (bytes_of l @ [13])" if "l \<in> set ls" for l
    using assms(1) that byte_notin [of "CHR 0x00" l] byte_notin [of "CHR 0x0A" l]
    by (auto simp: lf_line_def line_ok_def byte_chars)
  then show ?thesis
    using assms(2) unfolding header_ok_def text_header_lines
    by (intro conjI exI [of _ "map (\<lambda>l. bytes_of l @ [13]) ls"] exI [of _ "[13, 10]"]) (auto simp: blank_line_def)
qed

lemma string_of_text_header: "string_of (text_header ls) = concat (map (\<lambda>l. l @ crlf) ls) @ crlf"
  by (simp only: text_header_def string_of_bytes_of)

text \<open>Updates of the system before those of the client.\<close>

lemma socks_first:
  "c\<lparr>RtspCSeq := n, socks := f\<rparr> = c\<lparr>socks := f, RtspCSeq := n\<rparr>"
  "c\<lparr>RtspResponse := t, socks := f\<rparr> = c\<lparr>socks := f, RtspResponse := t\<rparr>"
  for c :: client
  by (cases c, simp)+

subsection \<open>The tunnel\<close>

text \<open>Before a session is set up, no mutex is involved.\<close>

lemma exchange_tunnelled:
  assumes "socks c fd = Some w" "tx_fine (tx w)" "socks c dfd = Some wd" "RtspOverHttpDataSockfd c = dfd" "fd \<noteq> dfd"
    and "rx_stream (rx wd) = h @ s" "RtspOverHttpDataPort c \<noteq> 0" "tunnel_session c = None"
    and "reply h code" "accepted code"
  shows "\<exists>w' wd'. exchange fd cmd uri msg False c =
      Inr (None, c\<lparr>socks := (socks c)(fd \<mapsto> w', dfd \<mapsto> wd'), RtspResponse := string_of h\<rparr>) \<and>
    sent w' = sent w @ bytes_of (base64Encode (bytes_of msg)) \<and> sent wd' = sent wd \<and> rx_stream (rx wd') = s"
proof -
  let ?e = "base64Encode (bytes_of msg)" and ?port = "RtspOverHttpDataPort c"
  obtain w1 where 1: "SendRTSP_string fd (cstr ?e) c = (RTSP_NO_ERROR, c\<lparr>socks := (socks c)(fd \<mapsto> w1)\<rparr>)"
      "sent w1 = sent w @ bytes_of (cstr ?e)"
    using SendRTSP_string_all [OF assms(1,2), of "cstr ?e"] by blast
  let ?c1 = "c\<lparr>socks := (socks c)(fd \<mapsto> w1)\<rparr>"
  have send: "SendRTSP fd ?port msg c = (RTSP_NO_ERROR, ?c1)"
    using 1(1) assms(7) by (simp add: SendRTSP_def)
  have ok: "header_ok h" using assms(9) by (simp add: reply_def)
  obtain w2 where 2: "RecvRTSP_string dfd ?c1 =
        (RTSP_NO_ERROR, ?c1\<lparr>socks := (socks ?c1)(dfd \<mapsto> w2), RtspResponse := string_of h\<rparr>)"
      "rx_stream (rx w2) = s" "sent w2 = sent wd"
    using RecvRTSP_string_header [of ?c1 dfd wd h s] assms(3,5,6) ok by auto
  let ?c2 = "c\<lparr>socks := (socks c)(fd \<mapsto> w1, dfd \<mapsto> w2), RtspResponse := string_of h\<rparr>"
  have "tunnel_session ?c1 = None" using assms(8) by (simp add: tunnel_session_def)
  then have recv: "RecvRTSP fd ?port ?c1 = Inr (RTSP_NO_ERROR, ?c2)"
    using 2(1) assms(4,7) by (simp add: RecvRTSP_def lock_session_def unlock_session_def)
  have "CheckAuth fd cmd uri ?c2 = Inr (CHECK_OK, ?c2)"
    by (rule CheckAuth_accepted [OF assms(9,10)]) simp
  then have "exchange fd cmd uri msg False c = Inr (None, ?c2)"
    using send recv by (simp add: exchange_def)
  moreover have "sent w1 = sent w @ bytes_of ?e" using 1(2) by (simp add: cstr_id base64Encode_no_nul)
  ultimately show ?thesis using 2(2,3) by blast
qed

subsection \<open>DESCRIBE\<close>

lemma ss_get_size_digits:
  "digits v \<Longrightarrow> digits_val 0 v < RECV_BUF_SIZE \<Longrightarrow> ss_get_size old (ss_new v) = digits_val 0 v"
  using ss_get_num_digits [of v "2 ^ 64 - 1" 0 "int old"] by (simp add: ss_get_size_def digits_def RECV_BUF_SIZE_def)

lemma RecvSDP_direct:
  assumes "socks c fd = Some w" "rx_stream (rx w) = body @ s"
    and "field_in (RtspResponse c) ''Content-Length:'' is_digit v" "digits_val 0 v = length body"
    and "length body < RECV_BUF_SIZE"
  shows "\<exists>w'. RecvSDP fd c =
      Inr (TRANS_OK, c\<lparr>socks := (socks c)(fd \<mapsto> w'), SDPStr := cstr (string_of body)\<rparr>) \<and>
    rx_stream (rx w') = s \<and> sent w' = sent w"
proof -
  obtain g where g: "rx_groups (RtspResponse c) CONTENT_LENGTH_PATTERN = Some [g, v]"
    using content_length_groups [OF assms(3)] by blast
  have "digits v" using assms(3) by (auto simp: field_in_def digits_def)
  then have n: "ss_get_size 0 (ss_new v) = length body" using ss_get_size_digits assms(4,5) by simp
  obtain w' where w: "RecvSDP_bytes fd (length body) [] w = ((TRANS_OK, body), w')"
      "rx_stream (rx w') = s" "sent w' = sent w"
    using RecvSDP_bytes_exact [of "length body" w fd] assms(2) by auto
  show ?thesis
    using g n w assms(1,5)
    by (intro exI [of _ w']) (simp add: RecvSDP_def group1_def on_socket_def Let_def)
qed

lemma DoDESCRIBE_direct:
  assumes "0 < RtspSockfd c" "socks c (RtspSockfd c) = Some w" "tx_fine (tx w)" "RtspOverHttpDataPort c = 0"
    and "RtspURI c \<noteq> []" "rx_stream (rx w) = h @ body @ s" "reply h code" "accepted code"
    and "field_in (string_of h) ''Content-Length:'' is_digit v" "digits_val 0 v = length body"
    and "length body < RECV_BUF_SIZE"
  shows "\<exists>w'. DoDESCRIBE [] False c = Inr (RTSP_NO_ERROR,
      c\<lparr>socks := (socks c)(RtspSockfd c \<mapsto> w'), RtspCSeq := RtspCSeq c + 1, RtspResponse := string_of h,
        SDPStr := cstr (string_of body)\<rparr>) \<and>
    sent w' = sent w @ bytes_of (''DESCRIBE '' @ RtspURI c @ '' RTSP/1.0'' @ crlf @
      ''CSeq: '' @ show_nat (unat (RtspCSeq c + 1)) @ crlf @ crlf) \<and>
    rx_stream (rx w') = s"
proof -
  let ?fd = "RtspSockfd c"
  let ?c3 = "c\<lparr>RtspCSeq := RtspCSeq c + 1\<rparr>"
  let ?msg = "request_line ''DESCRIBE'' (RtspURI c) @ cseq_line ?c3 @ crlf"
  obtain w1 where 1: "exchange ?fd ''DESCRIBE'' (RtspURI c) ?msg False ?c3 =
        Inr (None, ?c3\<lparr>socks := (socks ?c3)(?fd \<mapsto> w1), RtspResponse := string_of h\<rparr>)"
      "sent w1 = sent w @ bytes_of ?msg" "rx_stream (rx w1) = body @ s"
    using exchange_direct [of ?c3 ?fd w h "body @ s" code "''DESCRIBE''" "RtspURI c" ?msg] assms(2-4,6-8) by auto
  let ?c4 = "c\<lparr>socks := (socks c)(?fd \<mapsto> w1), RtspCSeq := RtspCSeq c + 1, RtspResponse := string_of h\<rparr>"
  obtain w2 where 2: "RecvSDP ?fd ?c4 =
        Inr (TRANS_OK, ?c4\<lparr>socks := (socks ?c4)(?fd \<mapsto> w2), SDPStr := cstr (string_of body)\<rparr>)"
      "rx_stream (rx w2) = s" "sent w2 = sent w1"
    using RecvSDP_direct [of ?c4 ?fd w1 body s v] assms(9-11) 1(3) by auto
  have "command_uri [] c = Inr (Some (RtspURI c), c)" "CreateTcpSockfd (RtspURI c) c = Inr (?fd, c)"
    using assms(1,5) by (simp_all add: command_uri_def CreateTcpSockfd_def)
  then have "DoDESCRIBE [] False c = Inr (RTSP_NO_ERROR,
      c\<lparr>socks := (socks c)(?fd \<mapsto> w2), RtspCSeq := RtspCSeq c + 1, RtspResponse := string_of h,
        SDPStr := cstr (string_of body)\<rparr>)"
    using 1(1) 2(1) assms(1,4) by (simp add: DoDESCRIBE_def next_cseq_def socks_first)
  then show ?thesis
    using 1(2) 2(2,3) by (auto simp: request_line_def cseq_line_def VERSION_RTSP_def)
qed


subsection \<open>Commands on a session\<close>

lemma DoPAUSE_direct:
  assumes "0 < RtspSockfd c" "socks c (RtspSockfd c) = Some w" "tx_fine (tx w)" "RtspOverHttpDataPort c = 0"
    and "session_at k c = Inr ms" "rx_stream (rx w) = h @ s" "reply h code" "accepted code"
  shows "\<exists>w'. DoPAUSE (Some k) False c = Inr (RTSP_NO_ERROR,
      c\<lparr>socks := (socks c)(RtspSockfd c \<mapsto> w'), RtspCSeq := RtspCSeq c + 1, RtspResponse := string_of h\<rparr>) \<and>
    sent w' = sent w @ bytes_of (''PAUSE '' @ RtspURI c @ '' RTSP/1.0'' @ crlf @
      ''CSeq: '' @ show_nat (unat (RtspCSeq c + 1)) @ crlf @ ''Session: '' @ SessionID ms @ crlf @ crlf) \<and>
    rx_stream (rx w') = s"
proof -
  let ?fd = "RtspSockfd c" and ?c2 = "c\<lparr>RtspCSeq := RtspCSeq c + 1\<rparr>"
  let ?msg = "request_line ''PAUSE'' (RtspURI c) @ cseq_line ?c2 @ session_line ms @ crlf"
  obtain w1 where 1: "exchange ?fd ''PAUSE'' (RtspURI c) ?msg False ?c2 =
        Inr (None, ?c2\<lparr>socks := (socks ?c2)(?fd \<mapsto> w1), RtspResponse := string_of h\<rparr>)"
      "sent w1 = sent w @ bytes_of ?msg" "rx_stream (rx w1) = s"
    using exchange_direct [of ?c2 ?fd w h s code "''PAUSE''" "RtspURI c" ?msg] assms(2-4,6-8) by auto
  have "CreateTcpSockfd [] c = Inr (?fd, c)" "session_at k ?c2 = Inr ms"
    using assms(1,5) by (simp_all add: CreateTcpSockfd_def session_at_def)
  then have "DoPAUSE (Some k) False c = Inr (RTSP_NO_ERROR,
      c\<lparr>socks := (socks c)(?fd \<mapsto> w1), RtspCSeq := RtspCSeq c + 1, RtspResponse := string_of h\<rparr>)"
    using 1(1) assms(1) by (simp add: DoPAUSE_def next_cseq_def socks_first)
  then show ?thesis
    using 1(2,3) by (auto simp: request_line_def cseq_line_def session_line_def VERSION_RTSP_def)
qed

subsection \<open>A sample\<close>

text \<open>A client that is connected over descriptor 5, and a response with its body.\<close>

definition sample_os :: "(int \<Rightarrow> net option) \<Rightarrow> os" where
  "sample_os fds =
     \<lparr>socks = fds, new_socks = [], connects = [], connections = [], udp_socks = [], port_free = (\<lambda>p. True),
      create_envs = [], byes = [], now = [], fresh_mem = [],
      junk_ctx = \<lparr>count0 = 1, count1 = 2, md5_st = md5_init, md5_buffer = replicate 64 7\<rparr>\<rparr>"

definition sample_lines :: "string \<Rightarrow> string list" where
  "sample_lines code = [''RTSP/1.0 '' @ code @ '' Answer'', ''Content-Length: 3'']"

definition sample_net :: "byte list \<Rightarrow> net" where
  "sample_net s = \<lparr>rx = [Chunk s, RxErr EINTR], tx = [Accept 5, TxErr EINTR], sent = [], last_errno = EOTHER\<rparr>"

definition sample_client :: "byte list \<Rightarrow> client" where
  "sample_client s =
     (new_client (sample_os [5 \<mapsto> sample_net s]))\<lparr>RtspSockfd := 5, RtspURI := ''rtsp://1.2.3.4/x''\<rparr>"

lemma sample_net_simps [simp]: "rx_stream (rx (sample_net s)) = s" "tx_fine (tx (sample_net s))" "sent (sample_net s) = []"
  by (simp_all add: sample_net_def)

lemma sample_client_simps [simp]:
  "RtspSockfd (sample_client s) = 5" "socks (sample_client s) 5 = Some (sample_net s)"
  "RtspOverHttpDataPort (sample_client s) = 0" "RtspURI (sample_client s) = ''rtsp://1.2.3.4/x''"
  "RtspCSeq (sample_client s) = 0" "Username (sample_client s) = []" "MediaSessionMap (sample_client s) = []"
  by (simp_all add: sample_client_def new_client_def os.defs sample_os_def)

lemma sample_reply:
  assumes "code = ''200'' \<or> code = ''404''"
  shows "reply (text_header (sample_lines code)) code" "accepted code"
proof -
  let ?rest = "'' Answer'' @ crlf @ ''Content-Length: 3'' @ crlf @ crlf"
  have "header_ok (text_header (sample_lines code))"
    by (rule text_header_ok)
      (use assms in \<open>auto simp: sample_lines_def line_ok_def text_header_def RECV_BUF_SIZE_def crlf_def\<close>)
  moreover have "string_of (text_header (sample_lines code)) = status_text ''1'' ''0'' code ?rest"
    unfolding string_of_text_header by (simp add: sample_lines_def status_text_def)
  moreover have "status_ok ''1'' ''0'' code ?rest"
  proof -
    have "\<not> occurs_in ''RTSP/'' ?rest \<and> CHR 0x00 \<notin> set ?rest" by code_simp
    then show ?thesis using assms by (auto simp: status_ok_def digits_def is_digit_def)
  qed
  ultimately show "reply (text_header (sample_lines code)) code" unfolding reply_def by blast
  show "accepted code" using assms by (auto simp: accepted_def)
qed

lemma sample_length_field: "field_in (string_of (text_header (sample_lines ''200''))) ''Content-Length:'' is_digit ''3''"
proof (rule field_inI)
  let ?pre = "''RTSP/1.0 200 Answer'' @ crlf"
  show "string_of (text_header (sample_lines ''200'')) = ?pre @ ''Content-Length:'' @ '' '' @ ''3'' @ crlf @ crlf"
    unfolding string_of_text_header by (simp add: sample_lines_def)
  show "find_sub ''Content-Length:'' (?pre @ ''Content-Length:'') = Some (length ?pre)" by code_simp
  show "crlf @ crlf = [] \<or> \<not> is_digit (hd (crlf @ crlf))" by code_simp
  show "CHR 0x00 \<notin> set (string_of (text_header (sample_lines ''200'')))"
    unfolding string_of_text_header by code_simp
qed (simp_all add: is_digit_def)

subsection \<open>Properties\<close>

text \<open>C15: DESCRIBE over the direct connection: if the server answers with a well-formed header, then,
  over any segmentation of both streams, the request goes out whole with the next sequence number, the
  header is in \<open>RtspResponse\<close>, exactly \<open>Content-Length\<close> bytes are in \<open>SDPStr\<close> and what follows stays on
  the stream. The status need not be 200.\<close>

theorem DoDESCRIBE_exchange:
  assumes "0 < RtspSockfd c" "socks c (RtspSockfd c) = Some w" "tx_fine (tx w)" "RtspOverHttpDataPort c = 0"
    and "RtspURI c \<noteq> []" "rx_stream (rx w) = h @ body @ s" "reply h code" "accepted code"
    and "field_in (string_of h) ''Content-Length:'' is_digit v" "digits_val 0 v = length body"
    and "length body < RECV_BUF_SIZE"
  shows "\<exists>w'. DoDESCRIBE [] False c = Inr (RTSP_NO_ERROR,
      c\<lparr>socks := (socks c)(RtspSockfd c \<mapsto> w'), RtspCSeq := RtspCSeq c + 1, RtspResponse := string_of h,
        SDPStr := cstr (string_of body)\<rparr>) \<and>
    sent w' = sent w @ bytes_of (''DESCRIBE '' @ RtspURI c @ '' RTSP/1.0'' @ crlf @
      ''CSeq: '' @ show_nat (unat (RtspCSeq c + 1)) @ crlf @ crlf) \<and>
    rx_stream (rx w') = s"
  using DoDESCRIBE_direct [OF assms] .

theorem DoDESCRIBE_exchange_witness:
  "\<exists>c' w'. DoDESCRIBE [] False (sample_client (text_header (sample_lines ''200'') @ bytes_of ''v=0'' @ [])) =
     Inr (RTSP_NO_ERROR, c') \<and> SDPStr c' = ''v=0'' \<and> RtspCSeq c' = 1 \<and> socks c' 5 = Some w' \<and>
     sent w' = bytes_of (''DESCRIBE rtsp://1.2.3.4/x RTSP/1.0'' @ crlf @ ''CSeq: 1'' @ crlf @ crlf)"
proof -
  have "cstr (string_of (bytes_of ''v=0'')) = ''v=0''" "show_nat (unat (0 + 1 :: u32)) = ''1''" by code_simp+
  then show ?thesis
    using DoDESCRIBE_exchange [of "sample_client (text_header (sample_lines ''200'') @ bytes_of ''v=0'' @ [])" _
        "text_header (sample_lines ''200'')" "bytes_of ''v=0''" "[]" "''200''" "''3''"]
      sample_reply [of "''200''"] sample_length_field
    by (auto simp: RECV_BUF_SIZE_def digit_val_def)
qed

text \<open>In the HTTP tunnel a request is sent in base64 on one connection, and decoding what was sent
  gives the request back; the response is read from the other connection.\<close>

theorem exchange_tunnel:
  assumes "socks c fd = Some w" "tx_fine (tx w)" "socks c dfd = Some wd" "RtspOverHttpDataSockfd c = dfd" "fd \<noteq> dfd"
    and "rx_stream (rx wd) = h @ s" "RtspOverHttpDataPort c \<noteq> 0" "tunnel_session c = None"
    and "reply h code" "accepted code"
  shows "\<exists>w' wd' text. exchange fd cmd uri msg False c =
      Inr (None, c\<lparr>socks := (socks c)(fd \<mapsto> w', dfd \<mapsto> wd'), RtspResponse := string_of h\<rparr>) \<and>
    sent w' = sent w @ bytes_of text \<and> base64Decode text True = bytes_of msg \<and>
    sent wd' = sent wd \<and> rx_stream (rx wd') = s"
  using exchange_tunnelled [OF assms, of cmd uri msg] b64.decode_encode [of "bytes_of msg"] by blast

theorem exchange_tunnel_witness:
  "\<exists>c' w' text. exchange 5 ''OPTIONS'' ''*'' ''OPTIONS *'' False
     ((sample_client [])\<lparr>socks := [5 \<mapsto> sample_net [], 6 \<mapsto> sample_net (text_header (sample_lines ''200''))],
        RtspOverHttpDataPort := 80, RtspOverHttpDataSockfd := 6\<rparr>) = Inr (None, c') \<and>
     socks c' 5 = Some w' \<and> sent w' = bytes_of text \<and> base64Decode text True = bytes_of ''OPTIONS *''"
  using exchange_tunnel [of "(sample_client [])\<lparr>socks := [5 \<mapsto> sample_net [], 6 \<mapsto> sample_net (text_header (sample_lines ''200''))],
        RtspOverHttpDataPort := 80, RtspOverHttpDataSockfd := 6\<rparr>" 5 "sample_net []" 6
        "sample_net (text_header (sample_lines ''200''))" "text_header (sample_lines ''200'')" "[]"
        "''200''" "''OPTIONS''" "''*''" "''OPTIONS *''"] sample_reply [of "''200''"]
  by (auto simp: tunnel_session_def)

text \<open>What \<open>CheckAuth\<close> makes of a status line when no user name is set: only 401 is an error; 404,
  500 and all of 40x and 50x pass like 200; after any other code, a redirection for one, an
  uninitialised variable is read.\<close>

theorem CheckAuth_status:
  assumes "status_ok v1 v2 code rest" "RtspResponse c = status_text v1 v2 code rest" "Username c = []"
  shows "CheckAuth sockfd cmd uri c =
    (if code = ''401'' then Inr (CHECK_ERROR, c)
     else if code = ''200'' \<or> take 2 code \<in> {''40'', ''50''} then Inr (CHECK_OK, c)
     else Inl Indeterminate)"
  using IsResponse_status [OF assms(1,2)] assms(3) by (auto simp: CheckAuth_def status_class_def)

theorem CheckAuth_status_witness:
  "CheckAuth 5 ''PLAY'' [] ((sample_client [])\<lparr>RtspResponse := ''RTSP/1.0 302 Moved''\<rparr>) = Inl Indeterminate"
proof -
  have "status_ok ''1'' ''0'' ''302'' '' Moved''" by code_simp
  then show ?thesis
    using CheckAuth_status [of "''1''" "''0''" "''302''" "'' Moved''"
        "(sample_client [])\<lparr>RtspResponse := ''RTSP/1.0 302 Moved''\<rparr>" 5 "''PLAY''" "[]"]
    by (simp add: status_text_def)
qed

text \<open>PAUSE sends the identifier of the session and reports success also when the server answers
  with an error of 40x (but 401) or 50x.\<close>

theorem DoPAUSE_exchange:
  assumes "0 < RtspSockfd c" "socks c (RtspSockfd c) = Some w" "tx_fine (tx w)" "RtspOverHttpDataPort c = 0"
    and "session_at k c = Inr ms" "rx_stream (rx w) = h @ s" "reply h code" "accepted code"
  shows "\<exists>w'. DoPAUSE (Some k) False c = Inr (RTSP_NO_ERROR,
      c\<lparr>socks := (socks c)(RtspSockfd c \<mapsto> w'), RtspCSeq := RtspCSeq c + 1, RtspResponse := string_of h\<rparr>) \<and>
    sent w' = sent w @ bytes_of (''PAUSE '' @ RtspURI c @ '' RTSP/1.0'' @ crlf @
      ''CSeq: '' @ show_nat (unat (RtspCSeq c + 1)) @ crlf @ ''Session: '' @ SessionID ms @ crlf @ crlf) \<and>
    rx_stream (rx w') = s"
  using DoPAUSE_direct [OF assms] .

theorem DoPAUSE_exchange_witness:
  "\<exists>c' w'. DoPAUSE (Some ''video'') False
     (put_session ''video'' (new_media_session\<lparr>SessionID := ''7''\<rparr>) (sample_client (text_header (sample_lines ''404'')))) =
     Inr (RTSP_NO_ERROR, c') \<and> socks c' 5 = Some w' \<and> RtspCSeq c' = 1"
  using DoPAUSE_exchange [of "put_session ''video'' (new_media_session\<lparr>SessionID := ''7''\<rparr>)
        (sample_client (text_header (sample_lines ''404'')))" _ "''video''" "new_media_session\<lparr>SessionID := ''7''\<rparr>"
        "text_header (sample_lines ''404'')" "[]" "''404''"] sample_reply [of "''404''"]
  by (auto simp: put_session_def session_at_def)

end
