(* ===== verification/Rtsp_Ports.thy ===== *)
theory Rtsp_Ports
  imports Rtsp_Describe
begin

section \<open>The search for a pair of ports\<close>

text \<open>
  \<open>SetAvailableRTPPort\<close> against its specification: the first pair of neighbouring free ports, an even
  one first, in the cyclic order from the start. The search visits each of the 32768 even ports once if
  it has to; with no free pair it goes round for ever.
\<close>

definition pair_free :: "(u16 \<Rightarrow> bool) \<Rightarrow> u16 \<Rightarrow> bool" where
  "pair_free free q \<longleftrightarrow> free q \<and> free (q + 1)"

definition nth_port :: "u16 \<Rightarrow> nat \<Rightarrow> u16" where
  "nth_port p n = p + 2 * word_of_nat n"

definition first_pair :: "(u16 \<Rightarrow> bool) \<Rightarrow> u16 \<Rightarrow> u16 option" where
  "first_pair free p = List.find (pair_free free) (map (nth_port p) [0..<32768])"

lemma search_ports_step:
  "port < 65535 \<Longrightarrow> search_ports free [] port =
   (if pair_free free port then Some (Some (port, port + 1), []) else search_ports free [] (port + 2))"
  by (subst search_ports.simps) (simp add: pair_free_def)

lemma even_port_less: "even p \<Longrightarrow> (p :: u16) < 65535"
proof -
  assume e: "even p"
  have "p \<noteq> 65535" using e by auto
  have "unat p < 2 ^ 16" using unsigned_less [of p, where ?'a = nat] by simp
  then have "p \<le> 65535" by (simp add: word_le_nat_alt)
  with \<open>p \<noteq> 65535\<close> show ?thesis by simp
qed

lemma even_nth_port: "even p \<Longrightarrow> even (nth_port p n)"
  by (simp add: nth_port_def)

lemma nth_port_Suc: "nth_port p n + 2 = nth_port p (Suc n)"
  by (simp add: nth_port_def algebra_simps)

lemma search_ports_skip:
  assumes "even p" "\<forall>i < n. \<not> pair_free free (nth_port p i)"
  shows "search_ports free [] p = search_ports free [] (nth_port p n)"
  using assms(2)
proof (induction n)
  case (Suc n)
  then have "search_ports free [] p = search_ports free [] (nth_port p n)" by simp
  also have "\<dots> = search_ports free [] (nth_port p (Suc n))"
    using search_ports_step [OF even_port_less [OF even_nth_port [OF assms(1), of n]], of free] Suc.prems
    by (simp add: nth_port_Suc)
  finally show ?case .
qed (simp add: nth_port_def)

text \<open>The sequence of ports repeats after 32768 steps.\<close>

lemma nth_port_mod: "nth_port p n = nth_port p (n mod 32768)"
proof -
  define q r where "q = n div 32768" and "r = n mod 32768"
  have "n = 32768 * q + r" by (simp add: q_def r_def)
  then have "(word_of_nat n :: u16) = 32768 * word_of_nat q + word_of_nat r" by simp
  moreover have "2 * (32768 * x) = 0" for x :: u16
  proof -
    have "2 * 32768 = (0 :: u16)" by code_simp
    then show ?thesis by (simp only: mult.assoc [symmetric] mult_zero_left)
  qed
  ultimately show ?thesis by (simp add: nth_port_def distrib_left flip: r_def)
qed

text \<open>What the search returns is a free pair; it does not stop otherwise.\<close>

lemma search_ports_result:
  assumes "search_ports free us p = Some r"
  shows "us = [] \<and> even p \<longrightarrow>
   (\<exists>n. pair_free free (nth_port p n) \<and> fst r = Some (nth_port p n, nth_port p n + 1))"
proof (rule search_ports.raw_induct [where P = "\<lambda>free us p r. us = [] \<and> even p \<longrightarrow>
    (\<exists>n. pair_free free (nth_port p n) \<and> fst r = Some (nth_port p n, nth_port p n + 1))", OF _ assms], goal_cases)
  case (1 search free us port r)
  show ?case
  proof (intro impI, elim conjE)
    assume us: "us = []" and even: "even port"
    have lt: "port < 65535" by (rule even_port_less [OF even])
    show "\<exists>n. pair_free free (nth_port port n) \<and> fst r = Some (nth_port port n, nth_port port n + 1)"
    proof (cases "pair_free free port")
      case True
      then have "r = (Some (port, port + 1), [])"
        using 1(2) lt us by (simp add: pair_free_def)
      then show ?thesis using True by (intro exI [of _ 0]) (simp add: nth_port_def)
    next
      case False
      then have "search free [] (port + 2) = Some r"
        using 1(2) lt us by (auto simp: pair_free_def split: if_splits)
      then obtain n where "pair_free free (nth_port (port + 2) n)"
          "fst r = Some (nth_port (port + 2) n, nth_port (port + 2) n + 1)"
        using 1(1) [of free "[]" "port + 2" r] even by auto
      moreover have "nth_port (port + 2) n = nth_port port (Suc n)" by (simp add: nth_port_def algebra_simps)
      ultimately show ?thesis by (intro exI [of _ "Suc n"]) simp
    qed
  qed
qed

lemma find_first:
  "List.find P (map f [0..<n]) = Some x \<longleftrightarrow> (\<exists>i < n. x = f i \<and> P (f i) \<and> (\<forall>j < i. \<not> P (f j)))"
  by (fastforce simp: find_Some_iff)

lemma search_ports_first_pair:
  assumes "even p"
  shows "search_ports free [] p = map_option (\<lambda>q. (Some (q, q + 1), [])) (first_pair free p)"
proof (cases "first_pair free p")
  case (Some q)
  then obtain i where i: "q = nth_port p i" "pair_free free (nth_port p i)" "\<forall>j < i. \<not> pair_free free (nth_port p j)"
    unfolding first_pair_def find_first by blast
  have "search_ports free [] p = search_ports free [] (nth_port p i)"
    by (rule search_ports_skip [OF assms i(3)])
  also have "\<dots> = Some (Some (q, q + 1), [])"
    using search_ports_step [OF even_port_less [OF even_nth_port [OF assms, of i]], of free] i(1,2) by simp
  finally show ?thesis using Some by simp
next
  case None
  have none: "\<not> pair_free free (nth_port p n)" for n
  proof -
    have "nth_port p (n mod 32768) \<in> set (map (nth_port p) [0..<32768])" by simp
    then show ?thesis using None nth_port_mod [of p n] by (auto simp: first_pair_def find_None_iff)
  qed
  then have "search_ports free [] p = None"
    using search_ports_result [of free "[]" p] assms by (cases "search_ports free [] p") auto
  then show ?thesis using None by simp
qed

declare smap_set_set [simp]

lemma put_session_put [simp]: "put_session k ms (put_session k ms' c) = put_session k ms c"
  by (simp add: put_session_def)

lemma SetAvailableRTPPort_pair:
  assumes "session_at k c = Inr ms" "udp_socks c = []"
  shows "SetAvailableRTPPort k wish c =
    (case first_pair (port_free c) (if wish \<noteq> 0 \<and> wish mod 2 = 0 then wish else 10330) of
       None \<Rightarrow> Inl Hangs
     | Some q \<Rightarrow> Inr (1, put_session k (ms\<lparr>RTPPort := q, RTCPPort := q + 1\<rparr>) c))"
proof -
  define p where "p = (if wish \<noteq> 0 \<and> wish mod 2 = 0 then wish else 10330)"
  have even: "even p" by (auto simp: p_def even_iff_mod_2_eq_zero)
  let ?c1 = "put_session k (ms\<lparr>RTPPort := 0, RTCPPort := 0\<rparr>) c"
  have c1: "on_session_at k (\<lambda>ms. ms\<lparr>RTPPort := 0, RTCPPort := 0\<rparr>) c = Inr ?c1"
    "port_free ?c1 = port_free c" "udp_socks ?c1 = []"
    using assms by (simp_all add: on_session_at_def put_session_def)
  have same: "?c1\<lparr>udp_socks := []\<rparr> = ?c1" using assms(2) by (simp add: put_session_def)
  have put: "on_session_at k (\<lambda>ms. ms\<lparr>RTPPort := p, RTCPPort := q\<rparr>) (?c1\<lparr>udp_socks := []\<rparr>) =
      Inr (put_session k (ms\<lparr>RTPPort := p, RTCPPort := q\<rparr>) c)" for p q
    unfolding same by (simp add: on_session_at_def)
  show ?thesis
    using c1 put search_ports_first_pair [OF even, of "port_free c"]
    unfolding SetAvailableRTPPort_def Let_def SEARCH_PORT_RTP_FROM_def p_def [symmetric]
    by (cases "first_pair (port_free c) p") simp_all
qed

subsection \<open>Properties\<close>

text \<open>C16: \<open>SetAvailableRTPPort\<close> gives the session the first free pair in cyclic order from the start
  (the wish if it is even and not zero, 10330 otherwise), and it returns exactly if there is one: the
  16-bit counter goes past 65534 to 0, which ends no loop.\<close>

theorem SetAvailableRTPPort_first_pair:
  assumes "session_at k c = Inr ms" "udp_socks c = []"
  shows "SetAvailableRTPPort k wish c =
    (case first_pair (port_free c) (if wish \<noteq> 0 \<and> wish mod 2 = 0 then wish else 10330) of
       None \<Rightarrow> Inl Hangs
     | Some q \<Rightarrow> Inr (1, put_session k (ms\<lparr>RTPPort := q, RTCPPort := q + 1\<rparr>) c))"
  by (rule SetAvailableRTPPort_pair [OF assms])

theorem SetAvailableRTPPort_first_pair_witness:
  "SetAvailableRTPPort ''video'' 65532
     (put_session ''video'' new_media_session ((sample_client [])\<lparr>port_free := (\<lambda>p. p \<in> {65533, 65534, 65535})\<rparr>)) =
   Inr (1, put_session ''video'' (new_media_session\<lparr>RTPPort := 65534, RTCPPort := 65535\<rparr>)
     ((sample_client [])\<lparr>port_free := (\<lambda>p. p \<in> {65533, 65534, 65535})\<rparr>))"
proof -
  let ?f = "\<lambda>p :: u16. p \<in> {65533, 65534, 65535}"
  have "first_pair ?f 65532 = Some 65534"
    unfolding first_pair_def find_first by (intro exI [of _ 1]) (simp add: pair_free_def nth_port_def)
  then show ?thesis
    using SetAvailableRTPPort_first_pair [of "''video''" "put_session ''video'' new_media_session
      ((sample_client [])\<lparr>port_free := ?f\<rparr>)" new_media_session 65532]
    by (simp add: sample_client_def new_client_def os.defs sample_os_def put_session_def session_at_def)
qed

end
