(* ===== verification/Regex_Sequences.thy ===== *)
theory Regex_Sequences
  imports Regex_Headers
begin

section \<open>Sequences of literals and runs\<close>

text \<open>
  Most patterns of the client are sequences of single characters and of runs of a class. When every run
  is followed by a literal outside its class, a text splits in one way only, so the longest match and
  the groups can be read off the split. \<open>seq_groups\<close> says so for patterns that start with a literal
  name and have two groups.
\<close>

datatype tok =
    Ch bool "(char \<times> char) list"
  | Many bool "(char \<times> char) list"
  | Run "nat option" bool "(char \<times> char) list"

fun tok_cls :: "tok \<Rightarrow> char \<Rightarrow> bool" where
  "tok_cls (Ch neg rs) c = in_cls neg rs c"
| "tok_cls (Many neg rs) c = in_cls neg rs c"
| "tok_cls (Run g neg rs) c = in_cls neg rs c"

fun tok_re :: "tok \<Rightarrow> re" where
  "tok_re (Ch neg rs) = Cls neg rs"
| "tok_re (Many neg rs) = Star (Cls neg rs)"
| "tok_re (Run None neg rs) = run neg rs"
| "tok_re (Run (Some i) neg rs) = Group i (run neg rs)"

fun tok_ok :: "tok \<Rightarrow> string \<Rightarrow> bool" where
  "tok_ok (Ch neg rs) w = (length w = 1 \<and> (\<forall>c \<in> set w. in_cls neg rs c))"
| "tok_ok (Many neg rs) w = (\<forall>c \<in> set w. in_cls neg rs c)"
| "tok_ok (Run g neg rs) w = (w \<noteq> [] \<and> (\<forall>c \<in> set w. in_cls neg rs c))"

fun seq_re :: "tok list \<Rightarrow> re" where
  "seq_re [] = Eps"
| "seq_re [t] = tok_re t"
| "seq_re (t # u # ts) = Cat (tok_re t) (seq_re (u # ts))"

abbreviation lit_toks :: "string \<Rightarrow> tok list" where
  "lit_toks \<equiv> map (\<lambda>c. Ch False [(c, c)])"

text \<open>Every run is followed by a literal outside its class.\<close>

fun det :: "tok list \<Rightarrow> bool" where
  "det [] = True"
| "det (Ch neg rs # ts) = det ts"
| "det (t # Ch False [(a, b)] # ts) = (a = b \<and> \<not> tok_cls t a \<and> det ts)"
| "det _ = False"

lemma lang_tok: "w \<in> lang (tok_re t) \<longleftrightarrow> tok_ok t w"
proof (cases t)
  case (Run g neg rs)
  have "w \<in> lang (tok_re t) \<longleftrightarrow> w \<in> lang (run neg rs)" using Run by (cases g) simp_all
  then show ?thesis unfolding lang_run using Run by simp
qed (auto simp: star_cls length_Suc_conv)

lemma lang_seq: "w \<in> lang (seq_re ts) \<longleftrightarrow> (\<exists>ws. list_all2 tok_ok ts ws \<and> w = concat ws)"
proof (induction ts arbitrary: w rule: seq_re.induct)
  case (2 t)
  then show ?case by (auto simp: lang_tok list_all2_Cons1)
next
  case (3 t u ts)
  show ?case
  proof
    assume "w \<in> lang (seq_re (t # u # ts))"
    then obtain a b where ab: "w = a @ b" "a \<in> lang (tok_re t)" "b \<in> lang (seq_re (u # ts))" by auto
    obtain ws where ws: "list_all2 tok_ok (u # ts) ws" "b = concat ws"
      using ab(3) 3 by blast
    have "list_all2 tok_ok (t # u # ts) (a # ws)" using ab(2) ws(1) by (simp add: lang_tok)
    then show "\<exists>ws. list_all2 tok_ok (t # u # ts) ws \<and> w = concat ws"
      using ab(1) ws(2) by (intro exI [of _ "a # ws"]) simp
  next
    assume "\<exists>ws. list_all2 tok_ok (t # u # ts) ws \<and> w = concat ws"
    then obtain a ws where "w = a @ concat ws" "tok_ok t a" "list_all2 tok_ok (u # ts) ws"
      by (auto simp: list_all2_Cons1 [of _ t])
    then have "w = a @ concat ws" "a \<in> lang (tok_re t)" "concat ws \<in> lang (seq_re (u # ts))"
      unfolding lang_tok 3 by blast+
    then show "w \<in> lang (seq_re (t # u # ts))"
      unfolding seq_re.simps by (simp only: lang_CatI)
  qed
qed auto

lemma tok_ok_lit [simp]: "tok_ok (Ch False [(c, c)]) w \<longleftrightarrow> w = [c]"
  by (auto simp: length_Suc_conv)

lemma tok_ok_cls: "tok_ok t w \<Longrightarrow> c \<in> set w \<Longrightarrow> tok_cls t c"
  by (cases t) auto

text \<open>A token that is followed by a literal outside its class ends where that literal is.\<close>

lemma split_at_lit:
  assumes "\<not> tok_cls t a" "list_all2 tok_ok (t # Ch False [(a, a)] # ts) ws"
    "list_all2 tok_ok (t # Ch False [(a, a)] # ts) vs" "concat ws @ p = concat vs @ q"
  shows "\<exists>w ws' vs'. ws = w # [a] # ws' \<and> vs = w # [a] # vs' \<and> list_all2 tok_ok ts ws' \<and>
    list_all2 tok_ok ts vs' \<and> concat ws' @ p = concat vs' @ q"
proof -
  obtain w ws' where w: "ws = w # [a] # ws'" "tok_ok t w" "list_all2 tok_ok ts ws'"
    using assms(2) by (auto simp: list_all2_Cons1 simp del: tok_ok.simps(1))
  obtain v vs' where v: "vs = v # [a] # vs'" "tok_ok t v" "list_all2 tok_ok ts vs'"
    using assms(3) by (auto simp: list_all2_Cons1 simp del: tok_ok.simps(1))
  have "w = v \<and> a # concat ws' @ p = a # concat vs' @ q"
    by (rule run_split [of _ "tok_cls t"]) (use assms(1,4) w(1,2) v(1,2) tok_ok_cls in auto)
  then show ?thesis using w(1,3) v(1,3) by simp
qed

lemma seq_split:
  "det ts \<Longrightarrow> list_all2 tok_ok ts ws \<Longrightarrow> list_all2 tok_ok ts vs \<Longrightarrow> concat ws @ p = concat vs @ q \<Longrightarrow>
   ws = vs \<and> p = q"
proof (induction ts arbitrary: ws vs rule: det.induct, goal_cases)
  case (2 neg rs ts ws vs)
  obtain w ws' where w: "ws = w # ws'" "length w = 1" "list_all2 tok_ok ts ws'"
    using 2(3) unfolding list_all2_Cons1 by auto
  obtain v vs' where v: "vs = v # vs'" "length v = 1" "list_all2 tok_ok ts vs'"
    using 2(4) unfolding list_all2_Cons1 by auto
  have "w = v \<and> concat ws' @ p = concat vs' @ q"
    using 2(5) w(1,2) v(1,2) by (simp add: append_eq_append_conv)
  then show ?case using 2(1) [OF _ w(3) v(3)] 2(2) w(1) v(1) by simp
next
  case (3 neg rs a b ts ws vs)
  have [simp]: "b = a" using 3(2) by simp
  show ?case using split_at_lit [OF _ 3(3-5) [simplified]] 3(1,2) by fastforce
next
  case (4 g neg rs a b ts ws vs)
  have [simp]: "b = a" using 4(2) by simp
  show ?case using split_at_lit [OF _ 4(3-5) [simplified]] 4(1,2) by fastforce
qed auto

lemma seq_longest:
  assumes "det ts" "list_all2 tok_ok ts ws"
  shows "longest (seq_re ts) (concat ws @ post) = Some (length (concat ws))"
proof (rule longest_eq)
  show "take (length (concat ws)) (concat ws @ post) \<in> lang (seq_re ts)"
    unfolding lang_seq using assms(2) by auto
  fix k assume k: "length (concat ws) < k" "k \<le> length (concat ws @ post)"
  show "take k (concat ws @ post) \<notin> lang (seq_re ts)"
  proof
    assume "take k (concat ws @ post) \<in> lang (seq_re ts)"
    then obtain vs where vs: "list_all2 tok_ok ts vs" "take k (concat ws @ post) = concat vs"
      unfolding lang_seq by blast
    then have "concat ws @ take (k - length (concat ws)) post = concat vs @ []" using k(1) by simp
    then have "take (k - length (concat ws)) post = []" using seq_split [OF assms vs(1)] by blast
    then show False using k by auto
  qed
qed simp

fun tok_caps :: "nat \<Rightarrow> tok list \<Rightarrow> string list \<Rightarrow> (nat \<times> nat \<times> nat) list" where
  "tok_caps off (Run (Some i) neg rs # ts) (w # ws) = (i, off, off + length w) # tok_caps (off + length w) ts ws"
| "tok_caps off (t # ts) (w # ws) = tok_caps (off + length w) ts ws"
| "tok_caps off _ _ = []"

lemma captures_tok: "captures (tok_re t) off w = tok_caps off [t] [w]"
proof (cases t)
  case (Run g neg rs)
  have "captures (run neg rs) n w = []" for n by (rule captures_group_free) simp
  then show ?thesis using Run by (cases g) simp_all
qed (simp_all add: captures_group_free)

lemma tok_caps_Cons: "tok_caps off (t # ts) (w # ws) = tok_caps off [t] [w] @ tok_caps (off + length w) ts ws"
  by (cases "(off, t # ts, w # ws)" rule: tok_caps.cases) auto

lemma det_Cons: "det (t # ts) \<Longrightarrow> det ts"
  by (cases "t # ts" rule: det.cases) auto

lemma captures_seq:
  "det ts \<Longrightarrow> list_all2 tok_ok ts ws \<Longrightarrow> captures (seq_re ts) off (concat ws) = tok_caps off ts ws"
proof (induction ts arbitrary: off ws rule: seq_re.induct)
  case (2 t)
  then show ?case using captures_tok by (auto simp: list_all2_Cons1)
next
  case (3 t u ts)
  obtain w vs where w: "ws = w # vs" "tok_ok t w" "list_all2 tok_ok (u # ts) vs"
    using "3.prems"(2) unfolding list_all2_Cons1 [of _ t] by blast
  let ?s = "w @ concat vs"
  have "split_max (tok_re t) (seq_re (u # ts)) ?s (length ?s) = Some (length w)"
  proof (rule split_max_greatest)
    show "take (length w) ?s \<in> lang (tok_re t)" using w(2) by (simp add: lang_tok)
    show "drop (length w) ?s \<in> lang (seq_re (u # ts))" unfolding lang_seq using w(3) by auto
    fix k assume k: "length w < k" "k \<le> length ?s"
    show "take k ?s \<notin> lang (tok_re t) \<or> drop k ?s \<notin> lang (seq_re (u # ts))"
    proof (rule ccontr)
      assume "\<not> ?thesis"
      then obtain xs where xs: "tok_ok t (take k ?s)" "list_all2 tok_ok (u # ts) xs" "drop k ?s = concat xs"
        unfolding lang_tok lang_seq by blast
      have "concat ws @ [] = concat (take k ?s # xs) @ []"
        using w(1) xs(3) append_take_drop_id [of k ?s] by simp
      then have "ws = take k ?s # xs"
        using seq_split [OF "3.prems", of "take k ?s # xs"] xs(1,2) by blast
      then have "take k ?s = w" using w(1) by (metis list.inject)
      then have "length (take k ?s) = length w" by (rule arg_cong)
      then show False using k by (simp only: length_take min_absorb2)
    qed
  qed simp
  then have "captures (seq_re (t # u # ts)) off (concat ws) =
      captures (tok_re t) off w @ captures (seq_re (u # ts)) (off + length w) (concat vs)"
    unfolding w(1) seq_re.simps by (subst captures.simps(1)) simp
  then show ?case
    using "3.IH" [OF det_Cons [OF "3.prems"(1)] w(3)] w(1) captures_tok [of t off w]
      tok_caps_Cons [of off t "u # ts" w vs] by simp
qed simp

text \<open>The groups of a pattern of a literal name and a sequence, in a text in which the name occurs
  first where the sequence follows.\<close>

lemma list_all2_lits: "list_all2 tok_ok (lit_toks s @ ts) ws \<longleftrightarrow>
    (\<exists>vs. ws = map (\<lambda>c. [c]) s @ vs \<and> list_all2 tok_ok ts vs)"
  by (induction s arbitrary: ws) (auto simp: list_all2_Cons1 simp del: tok_ok.simps(1))

lemma concat_single: "concat (map (\<lambda>c. [c]) s) = s"
  by (induction s) simp_all

lemma tok_caps_lits: "tok_caps off (lit_toks s @ ts) (map (\<lambda>c. [c]) s @ vs) = tok_caps (off + length s) ts vs"
  by (induction s arbitrary: off) simp_all

lemma det_lits: "det (lit_toks s @ ts) \<longleftrightarrow> det ts"
  by (induction s) auto

lemma seq_search:
  assumes "det ts" "list_all2 tok_ok ts ws" "\<And>x z. pre @ lit = x @ lit @ z \<Longrightarrow> z = []"
  shows "search False False (seq_re (lit_toks lit @ ts)) (pre @ lit @ concat ws @ post) 0 =
    Some (length pre, length pre + length lit + length (concat ws))"
proof -
  let ?r = "seq_re (lit_toks lit @ ts)" and ?ws = "map (\<lambda>c. [c]) lit @ ws"
  have l: "longest ?r (concat ?ws @ post) = Some (length (concat ?ws))"
    by (rule seq_longest) (use assms in \<open>auto simp: det_lits list_all2_lits\<close>)
  have "search False False ?r (pre @ (concat ?ws @ post)) 0 = Some (0 + length pre, 0 + length pre + length (concat ?ws))"
  proof (rule search_at_offset [OF l])
    fix x z k assume z: "pre = x @ z" "z \<noteq> []"
    show "take k (z @ concat ?ws @ post) \<notin> lang ?r"
    proof
      assume "take k (z @ concat ?ws @ post) \<in> lang ?r"
      then obtain w where "take k (z @ lit @ concat ws @ post) = lit @ w"
        unfolding lang_seq by (auto simp: list_all2_lits concat_single)
      then have "take (length lit) (z @ lit @ concat ws @ post) = lit"
        by (metis append_eq_conv_conj append_take_drop_id append_assoc)
      then have "take (length lit) (z @ lit) = lit" by simp
      then obtain y where y: "z @ lit = lit @ y" by (metis append_take_drop_id)
      then have "pre @ lit = x @ lit @ y" using z(1) by simp
      then have "y = []" by (rule assms(3))
      then have "length z = 0" using arg_cong [OF y, of length] by simp
      then show False using z(2) by simp
    qed
  qed
  then show ?thesis by (simp add: concat_single)
qed

lemma group_copied_at:
  assumes "regexec e s = Some m" "m i = Some (a, a + length g)" "take (length g) (drop a s) = g" "length g < 2048"
  shows "group_text s m i = Some g"
  using posix.group_copied [OF assms(1,2)] assms(3,4) by simp

lemma seq_groups:
  assumes p: "regcomp (cstr p) = Some \<lparr>at_start = False, at_end = False, expr = seq_re (lit_toks lit @ ts)\<rparr>"
    "count_list (cstr p) CHR ''('' = 2"
    and ts: "det ts" "list_all2 tok_ok ts ws"
    and first: "\<And>x z. pre @ lit = x @ lit @ z \<Longrightarrow> z = []"
    and nul: "CHR 0x00 \<notin> set (pre @ lit @ concat ws @ post)"
    and len: "length (lit @ concat ws) < 2048"
    and caps: "tok_caps (length pre + length lit) ts ws = [(1, a1, a1 + length g1), (2, a2, a2 + length g2)]"
    and at: "concat ws = u1 @ g1 @ v1" "a1 = length pre + length lit + length u1"
      "concat ws = u2 @ g2 @ v2" "a2 = length pre + length lit + length u2"
  shows "rx_groups (pre @ lit @ concat ws @ post) p = Some [lit @ concat ws, g1, g2]"
proof -
  let ?s = "pre @ lit @ concat ws @ post" and ?r = "seq_re (lit_toks lit @ ts)"
  let ?i = "length pre" and ?n = "length lit + length (concat ws)"
  let ?caps = "[(2 :: nat, a2, a2 + length g2), (1, a1, a1 + length g1)]"
  have cs: "cstr ?s = ?s" using nul by (rule cstr_id)
  have sr: "search False False ?r ?s 0 = Some (?i, ?i + ?n)"
    using seq_search [OF ts, of pre lit post] first by (simp add: add.assoc)
  have w: "take (?i + ?n - ?i) (drop ?i ?s) = concat (map (\<lambda>c. [c]) lit @ ws)" by (simp add: concat_single)
  have c: "captures ?r ?i (concat (map (\<lambda>c. [c]) lit @ ws)) = [(1, a1, a1 + length g1), (2, a2, a2 + length g2)]"
    by (subst captures_seq) (use ts caps in \<open>auto simp: det_lits list_all2_lits tok_caps_lits\<close>)
  have m: "regexec \<lparr>at_start = False, at_end = False, expr = ?r\<rparr> ?s = Some ((map_of ?caps) (0 \<mapsto> (?i, ?i + ?n)))"
    unfolding regexec_def by (simp only: compiled.simps sr option.case prod.case w c rev.simps append.simps)
  have u: "[0..<Suc 2] = [0, 1, 2 :: nat]" by (simp add: upt_rec)
  have t1: "take (length g1) (drop a1 ?s) = g1" unfolding at(2) by (simp add: at(1))
  have t2: "take (length g2) (drop a2 ?s) = g2" unfolding at(4) by (simp add: at(3))
  have "length g1 \<le> length (concat ws)" "length g2 \<le> length (concat ws)"
    using arg_cong [OF at(1), of length] arg_cong [OF at(3), of length] by simp_all
  then have small: "length g1 < 2048" "length g2 < 2048" "length (lit @ concat ws) < 2048" using len by simp_all
  let ?m = "(map_of ?caps) (0 \<mapsto> (?i, ?i + ?n))"
  have "group_text ?s ?m 0 = Some (lit @ concat ws)" "group_text ?s ?m 1 = Some g1" "group_text ?s ?m 2 = Some g2"
    using group_copied_at [OF m, of 0 ?i "lit @ concat ws"] group_copied_at [OF m _ t1] group_copied_at [OF m _ t2]
      small by simp_all
  then have g: "List.map_filter (group_text ?s ?m) [0, 1, 2] = [lit @ concat ws, g1, g2]"
    by (simp add: List.map_filter_simps)
  show ?thesis
    unfolding rx_groups_Some p(2) u cs
    by (intro exI conjI) (rule p(1), rule m, rule g [symmetric])
qed

end
