(* ===== verification/Rtsp_Digest.thy ===== *)
theory Rtsp_Digest
  imports Rtsp_Describe Regex_Sequences Md5_Rfc
begin

section \<open>Authentication as RFC 2617 has it\<close>

text \<open>
  The responses of the client against the formulas of RFC 2617, with MD5 as specified by RFC 1321 and
  base64 as a codec, and what \<open>CheckAuth\<close> does with a challenge.
\<close>

subsection \<open>Responses\<close>

definition rfc2617_response :: "string \<Rightarrow> string \<Rightarrow> string \<Rightarrow> string \<Rightarrow> string \<Rightarrow> string \<Rightarrow> string" where
  "rfc2617_response user realm pwd cmd uri nonce =
     (let ha1 = md5_hex (bytes_of (user @ '':'' @ realm @ '':'' @ pwd));
          ha2 = md5_hex (bytes_of (cmd @ '':'' @ uri))
      in md5_hex (bytes_of (ha1 @ '':'' @ nonce @ '':'' @ ha2)))"

lemma rfc2617_response_length [simp]: "length (rfc2617_response user realm pwd cmd uri nonce) = 32"
  by (simp add: rfc2617_response_def Let_def)

lemma md5_text_hex:
  assumes "length (md5_buffer ctx) = 64" "length m + 64 < 2 ^ 32"
  shows "md5_text ctx m MD5_SIZE = Inr (md5_hex m)"
proof -
  have "Md5sum32 ctx (Some m) (Some (replicate MD5_BUF_SIZE (CHR 0x00))) (length m) MD5_BUF_SIZE =
      Inr (0, Some (md5_hex m @ [CHR 0x00]))"
    using Md5sum32_ok [OF assms, of MD5_BUF_SIZE "replicate MD5_BUF_SIZE (CHR 0x00)"]
    by (simp add: MD5_BUF_SIZE_def MD5_SIZE_def)
  moreover have "cstr ((md5_hex m @ [CHR 0x00])[MD5_SIZE := CHR 0x00]) = md5_hex m"
  proof -
    have "(md5_hex m @ [CHR 0x00])[MD5_SIZE := CHR 0x00] = md5_hex m @ [CHR 0x00]"
      by (simp add: list_update_append MD5_SIZE_def)
    moreover have "takeWhile (\<lambda>ch. ch \<noteq> CHR 0x00) (md5_hex m @ [CHR 0x00]) = md5_hex m"
      using md5_hex_no_nul [of m] by (subst takeWhile_append2) auto
    ultimately show ?thesis by (simp add: cstr_def)
  qed
  ultimately show ?thesis by (simp add: md5_text_def)
qed

text \<open>\<open>digest_small\<close>: MD5 counts 64 bits, but the length it is given has 32.\<close>

definition digest_small :: "string \<Rightarrow> string \<Rightarrow> string \<Rightarrow> string \<Rightarrow> string \<Rightarrow> string \<Rightarrow> bool" where
  "digest_small user realm pwd cmd uri nonce \<longleftrightarrow>
     length user + length realm + length pwd < 2 ^ 31 \<and> length cmd + length uri < 2 ^ 31 \<and> length nonce < 2 ^ 31"

lemma MakeMd5DigestResp_eq:
  assumes "length (md5_buffer (junk_ctx c)) = 64" "digest_small (Username c) realm (Password c) cmd uri nonce"
  shows "MakeMd5DigestResp realm cmd uri nonce [] [] c =
    Inr (rfc2617_response (Username c) realm (Password c) cmd uri nonce)"
proof -
  have "md5_text (junk_ctx c) (bytes_of (Username c @ '':'' @ realm @ '':'' @ Password c)) MD5_SIZE =
      Inr (md5_hex (bytes_of (Username c @ '':'' @ realm @ '':'' @ Password c)))"
    by (rule md5_text_hex [OF assms(1)]) (use assms(2) in \<open>simp add: digest_small_def\<close>)
  moreover have "md5_text (junk_ctx c) (bytes_of (cmd @ '':'' @ uri)) MD5_SIZE =
      Inr (md5_hex (bytes_of (cmd @ '':'' @ uri)))"
    by (rule md5_text_hex [OF assms(1)]) (use assms(2) in \<open>simp add: digest_small_def\<close>)
  moreover have "md5_text (junk_ctx c) (bytes_of (md5_hex a @ '':'' @ nonce @ '':'' @ md5_hex b)) MD5_SIZE =
      Inr (md5_hex (bytes_of (md5_hex a @ '':'' @ nonce @ '':'' @ md5_hex b)))" for a b
    by (rule md5_text_hex [OF assms(1)]) (use assms(2) in \<open>simp add: digest_small_def\<close>)
  ultimately show ?thesis by (simp only: MakeMd5DigestResp_def Let_def rfc2617_response_def ub_simps simp_thms if_True prod.case)
qed

subsection \<open>A challenge\<close>

definition realm_char :: "char \<Rightarrow> bool" where
  "realm_char = in_cls False [(CHR ''a'', CHR ''z''), (CHR ''A'', CHR ''Z''), (CHR ''_'', CHR ''_''), (CHR ''0'', CHR ''9''), (CHR '' '', CHR '' '')]"

definition nonce_char :: "char \<Rightarrow> bool" where
  "nonce_char = in_cls False [(CHR ''a'', CHR ''z''), (CHR ''A'', CHR ''Z''), (CHR ''0'', CHR ''9'')]"

abbreviation blanks :: "string \<Rightarrow> bool" where
  "blanks b \<equiv> \<forall>c \<in> set b. c = CHR '' ''"

text \<open>The first field \<open>WWW-Authenticate\<close> of \<open>s\<close> is a digest challenge.\<close>

definition challenge :: "string \<Rightarrow> string \<Rightarrow> string \<Rightarrow> bool" where
  "challenge s realm nonce \<longleftrightarrow> CHR 0x00 \<notin> set s \<and> realm \<noteq> [] \<and> nonce \<noteq> [] \<and>
     (\<forall>c \<in> set realm. realm_char c) \<and> (\<forall>c \<in> set nonce. nonce_char c) \<and>
     (\<exists>pre b1 b2 b3 post. blanks b1 \<and> blanks b2 \<and> b2 \<noteq> [] \<and> blanks b3 \<and>
        s = pre @ ''WWW-Authenticate:'' @ (b1 @ ''Digest'' @ b2 @ ''realm='' @ dq @ realm @ dq @ '','' @ b3 @
          ''nonce='' @ dq @ nonce @ dq) @ post \<and>
        length (b1 @ b2 @ b3 @ realm @ nonce) < 2000 \<and>
        find_sub ''WWW-Authenticate:'' (pre @ ''WWW-Authenticate:'') = Some (length pre))"

abbreviation blank_cls :: "(char \<times> char) list" where "blank_cls \<equiv> [(CHR '' '', CHR '' '')]"

definition digest_toks :: "tok list" where
  "digest_toks = Many False blank_cls # lit_toks ''Digest'' @ Run None False blank_cls # lit_toks (''realm='' @ dq) @
     Run (Some 1) False [(CHR ''a'', CHR ''z''), (CHR ''A'', CHR ''Z''), (CHR ''_'', CHR ''_''), (CHR ''0'', CHR ''9''), (CHR '' '', CHR '' '')] #
     lit_toks (dq @ '','') @ Many False blank_cls # lit_toks (''nonce='' @ dq) @
     Run (Some 2) False [(CHR ''a'', CHR ''z''), (CHR ''A'', CHR ''Z''), (CHR ''0'', CHR ''9'')] # lit_toks dq"

lemma regcomp_digest: "regcomp (cstr DIGEST_PATTERN) = Some \<lparr>at_start = False, at_end = False,
    expr = seq_re (lit_toks ''WWW-Authenticate:'' @ digest_toks)\<rparr>"
  "count_list (cstr DIGEST_PATTERN) CHR ''('' = 2" "det digest_toks"
  by code_simp+

abbreviation singles :: "string \<Rightarrow> string list" where "singles \<equiv> map (\<lambda>c. [c])"

lemma challenge_groups:
  assumes "challenge s realm nonce"
  shows "\<exists>g. rx_groups s DIGEST_PATTERN = Some [g, realm, nonce]"
proof -
  let ?lit = "''WWW-Authenticate:''"
  obtain pre b1 b2 b3 post where b: "blanks b1" "blanks b2" "b2 \<noteq> []" "blanks b3" and
      s: "s = pre @ ?lit @ (b1 @ ''Digest'' @ b2 @ ''realm='' @ dq @ realm @ dq @ '','' @ b3 @
          ''nonce='' @ dq @ nonce @ dq) @ post" and
      len: "length (b1 @ b2 @ b3 @ realm @ nonce) < 2000" and
      fs: "find_sub ?lit (pre @ ?lit) = Some (length pre)"
    using assms unfolding challenge_def by blast
  have r: "CHR 0x00 \<notin> set s" "realm \<noteq> []" "nonce \<noteq> []" "\<forall>c \<in> set realm. realm_char c"
      "\<forall>c \<in> set nonce. nonce_char c"
    using assms by (simp_all add: challenge_def)
  let ?ws = "b1 # singles ''Digest'' @ b2 # singles (''realm='' @ dq) @ realm # singles (dq @ '','') @ b3 #
    singles (''nonce='' @ dq) @ nonce # singles dq"
  let ?u1 = "b1 @ ''Digest'' @ b2 @ ''realm='' @ dq"
  let ?u2 = "?u1 @ realm @ dq @ '','' @ b3 @ ''nonce='' @ dq"
  have ws: "concat ?ws = b1 @ ''Digest'' @ b2 @ ''realm='' @ dq @ realm @ dq @ '','' @ b3 @ ''nonce='' @ dq @ nonce @ dq"
    by simp
  have ok: "list_all2 tok_ok digest_toks ?ws"
    using b r by (simp add: digest_toks_def realm_char_def nonce_char_def)
  have "rx_groups (pre @ ?lit @ concat ?ws @ post) DIGEST_PATTERN = Some [?lit @ concat ?ws, realm, nonce]"
  proof (rule seq_groups [OF regcomp_digest ok find_sub_first [OF fs]])
    show "CHR 0x00 \<notin> set (pre @ ?lit @ concat ?ws @ post)" using r(1) unfolding s ws by simp
    show "length (?lit @ concat ?ws) < 2048" using len unfolding ws by simp
    show "tok_caps (length pre + length ?lit) digest_toks ?ws =
        [(1, length pre + length ?lit + length ?u1, length pre + length ?lit + length ?u1 + length realm),
         (2, length pre + length ?lit + length ?u2, length pre + length ?lit + length ?u2 + length nonce)]"
      by (simp add: digest_toks_def)
    show "concat ?ws = ?u1 @ realm @ (dq @ '','' @ b3 @ ''nonce='' @ dq @ nonce @ dq)" by simp
    show "concat ?ws = ?u2 @ nonce @ dq" by simp
  qed simp_all
  then have "rx_groups s DIGEST_PATTERN = Some [?lit @ concat ?ws, realm, nonce]"
    unfolding s ws by (simp only: append_assoc)
  then show ?thesis by blast
qed

lemma socks_first_auth:
  "c\<lparr>Realm := r, socks := f\<rparr> = c\<lparr>socks := f, Realm := r\<rparr>"
  "c\<lparr>Nonce := r, socks := f\<rparr> = c\<lparr>socks := f, Nonce := r\<rparr>"
  for c :: client
  by (cases c, simp)+

lemma status_class_200: "fst (status_class code) \<longleftrightarrow> code = ''200''"
  by (simp add: status_class_def)

lemma CheckAuth_digest_retry:
  assumes "status_ok v1 v2 ''401'' rest" "RtspResponse c = status_text v1 v2 ''401'' rest" "Username c \<noteq> []"
    and "challenge (RtspResponse c) realm nonce"
    and "length (md5_buffer (junk_ctx c)) = 64" "digest_small (Username c) realm (Password c) cmd uri nonce"
    and "socks c fd = Some w" "tx_fine (tx w)" "RtspOverHttpDataPort c = 0" "rx_stream (rx w) = h @ s" "reply h code"
  shows "\<exists>w'. CheckAuth fd cmd uri c = Inr (if code = ''200'' then CHECK_OK else CHECK_ERROR,
      c\<lparr>socks := (socks c)(fd \<mapsto> w'), RtspCSeq := RtspCSeq c + 1, Realm := realm, Nonce := nonce,
        RtspResponse := string_of h\<rparr>) \<and>
    sent w' = sent w @ bytes_of (request_line cmd (RtspURI c) @ cseq_line (next_cseq c) @
      digest_line (Username c) realm nonce uri (rfc2617_response (Username c) realm (Password c) cmd uri nonce) @ crlf) \<and>
    rx_stream (rx w') = s"
proof -
  let ?c1 = "next_cseq c" and ?r = "rfc2617_response (Username c) realm (Password c) cmd uri nonce"
  let ?c2 = "?c1\<lparr>Realm := realm, Nonce := nonce\<rparr>" and ?h = "digest_line (Username c) realm nonce uri ?r"
  let ?msg = "request_line cmd (RtspURI c) @ cseq_line ?c1 @ ?h @ crlf"
  have st: "snd (IsResponse_200_OK None c) = Some RTSP_RESPONSE_401"
    using IsResponse_status [OF assms(1,2)] by (simp add: status_class_def)
  have "MakeMd5DigestResp realm cmd uri nonce [] [] ?c2 = Inr ?r"
    using MakeMd5DigestResp_eq [of ?c2 realm cmd uri nonce] assms(5,6) by (simp add: next_cseq_def)
  then have auth: "answer_challenge cmd uri ?c1 = Inr (Some ?h, ?c2)"
    using challenge_groups [OF assms(4)] by (auto simp: answer_challenge_def next_cseq_def MD5_SIZE_def Let_def)
  obtain w1 where 1: "SendRTSP fd 0 ?msg ?c2 = (RTSP_NO_ERROR, ?c2\<lparr>socks := (socks ?c2)(fd \<mapsto> w1)\<rparr>)"
      "sent w1 = sent w @ bytes_of ?msg" "rx w1 = rx w"
    using SendRTSP_direct [of ?c2 fd w ?msg] assms(7,8) by (auto simp: next_cseq_def)
  let ?c3 = "?c2\<lparr>socks := (socks ?c2)(fd \<mapsto> w1)\<rparr>"
  have ok: "header_ok h" using assms(11) by (simp add: reply_def)
  obtain w2 where 2: "RecvRTSP fd 0 ?c3 =
        Inr (RTSP_NO_ERROR, ?c3\<lparr>socks := (socks ?c3)(fd \<mapsto> w2), RtspResponse := string_of h\<rparr>)"
      "rx_stream (rx w2) = s" "sent w2 = sent w1"
    using RecvRTSP_direct [of ?c3 fd w1 h s] assms(10) 1(3) ok by auto
  let ?c4 = "?c3\<lparr>socks := (socks ?c3)(fd \<mapsto> w2), RtspResponse := string_of h\<rparr>"
  have "fst (IsResponse_200_OK None ?c4) \<longleftrightarrow> code = ''200''"
    using reply_class [OF assms(11), of ?c4] by (simp add: status_class_200)
  then have "CheckAuth fd cmd uri c = Inr (if code = ''200'' then CHECK_OK else CHECK_ERROR, ?c4)"
    using st auth 1(1) 2(1) assms(3,9) by (simp add: CheckAuth_def Let_def next_cseq_def)
  moreover have "?c4 = c\<lparr>socks := (socks c)(fd \<mapsto> w2), RtspCSeq := RtspCSeq c + 1, Realm := realm, Nonce := nonce,
      RtspResponse := string_of h\<rparr>"
    by (simp add: next_cseq_def socks_first socks_first_auth)
  ultimately show ?thesis using 1(2) 2(2,3) by (intro exI [of _ w2]) simp
qed

subsection \<open>Properties\<close>

text \<open>C17: the digest response of the client is that of RFC 2617 without \<open>qop\<close>.\<close>

theorem MakeMd5DigestResp_rfc2617:
  assumes "length (md5_buffer (junk_ctx c)) = 64" "digest_small (Username c) realm (Password c) cmd uri nonce"
  shows "MakeMd5DigestResp realm cmd uri nonce [] [] c =
    Inr (rfc2617_response (Username c) realm (Password c) cmd uri nonce)"
  by (rule MakeMd5DigestResp_eq [OF assms])

theorem MakeMd5DigestResp_rfc2617_witness:
  "MakeMd5DigestResp ''r'' ''PLAY'' ''*'' ''7f'' [] [] ((sample_client [])\<lparr>Username := ''u'', Password := ''p''\<rparr>) =
   Inr (md5_hex (bytes_of (md5_hex (bytes_of ''u:r:p'') @ '':7f:'' @ md5_hex (bytes_of ''PLAY:*''))))"
  using MakeMd5DigestResp_rfc2617 [of "(sample_client [])\<lparr>Username := ''u'', Password := ''p''\<rparr>" "''r''" "''PLAY''" "''*''" "''7f''"]
  by (simp add: sample_client_def new_client_def os.defs sample_os_def digest_small_def rfc2617_response_def Let_def)

text \<open>The basic response is the base64 text that decodes to user, colon and password.\<close>

theorem MakeBasicResp_decodes:
  "base64Decode (MakeBasicResp user pwd c) True =
   bytes_of (if user = [] then Username c @ '':'' @ Password c else user @ '':'' @ pwd)"
  by (simp add: MakeBasicResp_def Let_def b64.decode_cstr_encode)

text \<open>C18: a 401 with a digest challenge is answered by one more request, with the next sequence number,
  the URI of the client and the response of RFC 2617 over user, realm, password, command, \<open>uri\<close> and
  nonce; the verdict is whether that is answered with 200. The bytes sent are written out: the request
  consists of its first line and these two fields only: what else the command had
  sent, the transport of SETUP and the session of PLAY, is gone.\<close>

theorem CheckAuth_digest:
  assumes "status_ok v1 v2 ''401'' rest" "RtspResponse c = status_text v1 v2 ''401'' rest" "Username c \<noteq> []"
    and "challenge (RtspResponse c) realm nonce"
    and "length (md5_buffer (junk_ctx c)) = 64" "digest_small (Username c) realm (Password c) cmd uri nonce"
    and "socks c fd = Some w" "tx_fine (tx w)" "RtspOverHttpDataPort c = 0" "rx_stream (rx w) = h @ s" "reply h code"
  shows "\<exists>w'. CheckAuth fd cmd uri c = Inr (if code = ''200'' then CHECK_OK else CHECK_ERROR,
      c\<lparr>socks := (socks c)(fd \<mapsto> w'), RtspCSeq := RtspCSeq c + 1, Realm := realm, Nonce := nonce,
        RtspResponse := string_of h\<rparr>) \<and>
    sent w' = sent w @ bytes_of (
      cmd @ '' '' @ RtspURI c @ '' RTSP/1.0'' @ crlf @
      ''CSeq: '' @ show_nat (unat (RtspCSeq c + 1)) @ crlf @
      ''Authorization: Digest username='' @ dq @ Username c @ dq @ '', realm='' @ dq @ realm @ dq @
      '', nonce='' @ dq @ nonce @ dq @ '', uri='' @ dq @ uri @ dq @
      '', response='' @ dq @ rfc2617_response (Username c) realm (Password c) cmd uri nonce @ dq @ crlf @ crlf) \<and>
    rx_stream (rx w') = s"
  using CheckAuth_digest_retry [OF assms]
  by (simp add: request_line_def cseq_line_def digest_line_def next_cseq_def VERSION_RTSP_def)

definition sample_challenge :: string where
  "sample_challenge = ''RTSP/1.0 401 Unauthorized'' @ crlf @ ''WWW-Authenticate: Digest realm='' @ dq @ ''r 1'' @ dq @
     '', nonce='' @ dq @ ''7f'' @ dq @ crlf @ crlf"

lemma sample_challenge: "challenge sample_challenge ''r 1'' ''7f''"
proof -
  have "find_sub ''WWW-Authenticate:'' ((''RTSP/1.0 401 Unauthorized'' @ crlf) @ ''WWW-Authenticate:'') =
      Some (length (''RTSP/1.0 401 Unauthorized'' @ crlf))"
    "CHR 0x00 \<notin> set sample_challenge" "\<forall>c \<in> set ''r 1''. realm_char c" "\<forall>c \<in> set ''7f''. nonce_char c"
    by code_simp+
  then show ?thesis
    unfolding challenge_def
    by (intro conjI exI [of _ "''RTSP/1.0 401 Unauthorized'' @ crlf"] exI [of _ "'' ''"] exI [of _ "crlf @ crlf"])
      (simp_all add: sample_challenge_def)
qed

theorem CheckAuth_digest_witness:
  "\<exists>c'. CheckAuth 5 ''PLAY'' ''*'' ((sample_client (text_header (sample_lines ''200'')))
     \<lparr>RtspResponse := sample_challenge, Username := ''u'', Password := ''p''\<rparr>) = Inr (CHECK_OK, c') \<and>
     Realm c' = ''r 1'' \<and> Nonce c' = ''7f'' \<and> RtspCSeq c' = 1 \<and>
     (\<exists>w'. socks c' 5 = Some w' \<and> sent w' = bytes_of (
       ''PLAY rtsp://1.2.3.4/x RTSP/1.0'' @ crlf @ ''CSeq: 1'' @ crlf @
       ''Authorization: Digest username='' @ dq @ ''u'' @ dq @ '', realm='' @ dq @ ''r 1'' @ dq @
       '', nonce='' @ dq @ ''7f'' @ dq @ '', uri='' @ dq @ ''*'' @ dq @
       '', response='' @ dq @ rfc2617_response ''u'' ''r 1'' ''p'' ''PLAY'' ''*'' ''7f'' @ dq @ crlf @ crlf))"
proof -
  let ?c = "(sample_client (text_header (sample_lines ''200'')))\<lparr>RtspResponse := sample_challenge, Username := ''u'', Password := ''p''\<rparr>"
  let ?rest = "drop 12 sample_challenge"
  have "sample_challenge = status_text ''1'' ''0'' ''401'' ?rest" "status_ok ''1'' ''0'' ''401'' ?rest" by code_simp+
  moreover have "length (md5_buffer (junk_ctx ?c)) = 64"
    by (simp add: sample_client_def new_client_def os.defs sample_os_def)
  moreover have cseq: "show_nat 1 = ''1''" by code_simp
  ultimately show ?thesis
    using CheckAuth_digest [of "''1''" "''0''" ?rest ?c "''r 1''" "''7f''" "''PLAY''" "''*''" 5
        "sample_net (text_header (sample_lines ''200''))" "text_header (sample_lines ''200'')" "[]" "''200''"]
      sample_challenge sample_reply [of "''200''"] cseq
    by (auto simp: digest_small_def)
qed

end
