(* ===== verification/Sdp_Proofs.thy ===== *)
theory Sdp_Proofs
  imports Sdp_Lines
begin

section \<open>Properties of the description parser\<close>

text \<open>
  The invariant of \<open>SDPData\<close> (\<open>sdp_ok\<close>: every media entry carries its own key as its type, and
  so does every payload type in it) and of the parser (\<open>parse_ok\<close>: \<open>currentMediaInfo\<close> points to
  an entry whenever the media section has begun), and the functional behaviour of the handlers.
\<close>

subsection \<open>The invariant\<close>

definition fmt_ok :: "string \<Rightarrow> attr_map \<Rightarrow> bool" where
  "fmt_ok k a \<longleftrightarrow> smap_inv a \<and> smap_find a MEDIA_TYPE_NAME = Some k"

definition media_ok :: "string \<Rightarrow> sdp_media_info \<Rightarrow> bool" where
  "media_ok k i \<longleftrightarrow> mediaType i = k \<and> smap_inv (fmtMap i) \<and> (\<forall>(p, a) \<in> set (fmtMap i). fmt_ok k a)"

definition sdp_ok :: "sdp_data \<Rightarrow> bool" where
  "sdp_ok d \<longleftrightarrow> smap_inv (mediaInfoMap d) \<and> (\<forall>(k, i) \<in> set (mediaInfoMap d). media_ok k i)"

definition parse_ok :: "parse_state \<Rightarrow> bool" where
  "parse_ok st \<longleftrightarrow> sdp_ok (sdp st) \<and>
     (case currentMediaInfo st of
        None \<Rightarrow> \<not> mediaInfo st
      | Some k \<Rightarrow> smap_find (mediaInfoMap (sdp st)) k \<noteq> None)"

lemma smap_all_set:
  "\<forall>(k, v) \<in> set m. P k v \<Longrightarrow> P k v \<Longrightarrow> \<forall>(k, v) \<in> set (smap_set k v m). P k v"
  by (induction k v m rule: smap_set.induct) auto

lemma smap_all_find: "\<forall>(k, v) \<in> set m. P k v \<Longrightarrow> smap_find m k = Some v \<Longrightarrow> P k v"
  by (drule smap_find_in) auto

lemma media_ok_fmt:
  "media_ok k i \<Longrightarrow> fmt_ok k a \<Longrightarrow> media_ok k (i\<lparr>fmtMap := smap_set p a (fmtMap i)\<rparr>)"
  using smap_all_set [where P = "\<lambda>p. fmt_ok k" and m = "fmtMap i" and k = p and v = a]
  by (auto simp: media_ok_def)

lemma media_ok_find: "media_ok k i \<Longrightarrow> smap_find (fmtMap i) p = Some a \<Longrightarrow> fmt_ok k a"
  using smap_all_find [where P = "\<lambda>p. fmt_ok k" and m = "fmtMap i" and k = p and v = a]
  by (auto simp: media_ok_def)

lemma fmt_ok_set: "fmt_ok k a \<Longrightarrow> x \<noteq> MEDIA_TYPE_NAME \<Longrightarrow> fmt_ok k (smap_set x v a)"
  by (auto simp: fmt_ok_def smap_find_set)

lemma store_groups_ok:
  "store_groups as gs a = Inr (gs', a') \<Longrightarrow> fmt_ok k a \<Longrightarrow> MEDIA_TYPE_NAME \<notin> set as \<Longrightarrow> fmt_ok k a'"
  by (induction as gs a rule: store_groups.induct)
    (auto simp: ub_bind_eq_Inr fmt_ok_set split: prod.splits)

lemma media_formats_ok:
  "media_formats tmp s i = Inr (s', i') \<Longrightarrow> media_ok k i \<Longrightarrow> media_ok k i'"
proof (induction tmp s i arbitrary: s' i' rule: media_formats.induct)
  case (1 tmp s i)
  show ?case
  proof (cases "ss_fail s \<or> tmp = []")
    case True
    then show ?thesis using "1.prems" by (subst (asm) media_formats.simps) simp
  next
    case False
    obtain w s1 where w: "ss_get_word tmp s = (w, s1)" by fastforce
    let ?a = "\<lambda>pid. case smap_find (fmtMap i) pid of None \<Rightarrow> [] | Some a \<Rightarrow> a"
    let ?i = "\<lambda>pid. i\<lparr>fmtMap := smap_set pid (smap_set MEDIA_TYPE_NAME (mediaType i) (?a pid)) (fmtMap i)\<rparr>"
    obtain pid where p: "payload_id tmp = Inr pid" and rec: "media_formats w s1 (?i pid) = Inr (s', i')"
      using "1.prems"(1) False w by (subst (asm) media_formats.simps) (auto simp: ub_bind_eq_Inr)
    have "smap_inv [(MEDIA_TYPE_NAME, mediaType i)]" by (simp add: smap_inv_Cons)
    then have "fmt_ok k (smap_set MEDIA_TYPE_NAME (mediaType i) (?a pid))"
      using "1.prems"(2) media_ok_find [OF "1.prems"(2), of pid]
      by (auto simp: fmt_ok_def smap_find_set media_ok_def split: option.split)
    then have "media_ok k (?i pid)" by (rule media_ok_fmt [OF "1.prems"(2)])
    then show ?thesis
      using "1.IH" [OF False refl refl w [symmetric] rec] by blast
  qed
qed

lemma rtpmap_fields_ok: "rtpmap_fields gs i = Inr i' \<Longrightarrow> media_ok k i \<Longrightarrow> media_ok k i'"
  unfolding rtpmap_fields_def
  by (auto simp: ub_bind_eq_Inr Let_def simp del: store_groups.simps split: option.splits prod.splits if_splits
      intro!: media_ok_fmt fmt_ok_set elim!: store_groups_ok [OF _ media_ok_find])

lemma fmtp_fields_ok:
  "fmtp_fields as gs i = Inr i' \<Longrightarrow> media_ok k i \<Longrightarrow> MEDIA_TYPE_NAME \<notin> set as \<Longrightarrow> media_ok k i'"
  unfolding fmtp_fields_def
  by (auto simp: ub_bind_eq_Inr split: option.splits prod.splits
      intro!: media_ok_fmt dest: store_groups_ok [OF _ media_ok_find])

lemma sdp_attribute_ok: "sdp_attribute v i = Inr i' \<Longrightarrow> media_ok k i \<Longrightarrow> media_ok k i'"
  unfolding sdp_attribute_def
  by (auto simp: ub_bind_eq_Inr media_ok_def [of k "_\<lparr>controlURI := _\<rparr>"]
      split: option.splits prod.splits if_splits dest: rtpmap_fields_ok fmtp_fields_ok)
    (auto simp: media_ok_def)

lemma new_media_ok: "media_ok k (empty_media_info\<lparr>mediaType := k\<rparr>)"
  by (simp add: media_ok_def empty_media_info_def)

lemma media_ok_ports: "media_ok k i \<Longrightarrow> media_ok k (i\<lparr>mediaType := k, ports := p, transProt := t\<rparr>)"
  by (simp add: media_ok_def)

lemma sdp_ok_find: "sdp_ok d \<Longrightarrow> smap_find (mediaInfoMap d) k = Some i \<Longrightarrow> media_ok k i"
  using smap_all_find [where P = media_ok and m = "mediaInfoMap d"] by (auto simp: sdp_ok_def)

lemma sdp_ok_set: "sdp_ok d \<Longrightarrow> media_ok k i \<Longrightarrow> sdp_ok (d\<lparr>mediaInfoMap := smap_set k i (mediaInfoMap d)\<rparr>)"
  using smap_all_set [where P = media_ok and m = "mediaInfoMap d"] by (auto simp: sdp_ok_def)

lemma sdp_media_line_result:
  assumes "sdp_media_line v st = Inr st'" "sdp_ok (sdp st)"
  shows "\<exists>k i s. st' = st\<lparr>ssTmp := s, currentMediaInfo := Some k,
      sdp := (sdp st)\<lparr>mediaInfoMap := smap_set k i (mediaInfoMap (sdp st))\<rparr>\<rparr> \<and> media_ok k i"
proof -
  let ?s0 = "ss_str v (ss_clear (ssTmp st))"
  obtain k s1 where k: "ss_get_word [] ?s0 = (k, s1)" by fastforce
  define i0 where "i0 = (case smap_find (mediaInfoMap (sdp st)) k of None \<Rightarrow> empty_media_info | Some i \<Rightarrow> i)"
  obtain p s2 where p: "ss_get_word (ports (i0\<lparr>mediaType := k\<rparr>)) s1 = (p, s2)" by fastforce
  obtain t s3 where t: "ss_get_word (transProt (i0\<lparr>mediaType := k\<rparr>)) s2 = (t, s3)" by fastforce
  obtain w s4 where w: "ss_get_word k s3 = (w, s4)" by fastforce
  have i0: "media_ok k (i0\<lparr>mediaType := k, ports := p, transProt := t\<rparr>)"
    using sdp_ok_find [OF assms(2), of k] new_media_ok [of k]
    by (auto simp: i0_def media_ok_def empty_media_info_def split: option.split)
  obtain s5 i3 where f: "media_formats w s4 (i0\<lparr>mediaType := k, ports := p, transProt := t\<rparr>) = Inr (s5, i3)"
    and st': "st' = st\<lparr>ssTmp := s5, currentMediaInfo := Some k,
        sdp := (sdp st)\<lparr>mediaInfoMap := smap_set k i3 (mediaInfoMap (sdp st))\<rparr>\<rparr>"
    using assms(1) unfolding sdp_media_line_def Let_def k prod.case
    by (auto simp: i0_def [symmetric] p [simplified] t [simplified] w ub_bind_eq_Inr)
  show ?thesis using media_formats_ok [OF f i0] st' by blast
qed

lemma set_section_ok:
  "parse_ok st \<Longrightarrow> key \<noteq> ''m'' \<Longrightarrow> parse_ok (set_section key st)"
  by (auto simp: parse_ok_def set_section_def split: option.splits)

lemma sdp_keep_map:
  "sdp_session_part key v st = Inr st' \<Longrightarrow>
    mediaInfoMap (sdp st') = mediaInfoMap (sdp st) \<and> currentMediaInfo st' = currentMediaInfo st \<and>
    mediaInfo st' = mediaInfo st"
  "sdp_time_part key v st = Inr st' \<Longrightarrow>
    mediaInfoMap (sdp st') = mediaInfoMap (sdp st) \<and> currentMediaInfo st' = currentMediaInfo st \<and>
    mediaInfo st' = mediaInfo st"
  by (auto simp: sdp_session_part_def sdp_version_line_def sdp_origin_line_def sdp_origin_fields_def
      sdp_connection_fields_def sdp_time_part_def sdp_time_fields_def Let_def ub_bind_eq_Inr
      case_prod_unfold split: if_splits option.splits)

lemma sdp_ok_cong: "mediaInfoMap d' = mediaInfoMap d \<Longrightarrow> sdp_ok d' = sdp_ok d"
  by (simp add: sdp_ok_def)

lemma sdp_handle_parts:
  assumes "sdp_handle key v st = Inr st'"
  obtains st2 where "mediaInfoMap (sdp st2) = mediaInfoMap (sdp st)"
    "currentMediaInfo st2 = currentMediaInfo st"
    "mediaInfo st2 = mediaInfo (set_section key st)" "sdp_media_part key v st2 = Inr st'"
proof -
  obtain st1 st2 where "sdp_session_part key v (set_section key st) = Inr st1"
    "sdp_time_part key v st1 = Inr st2" "sdp_media_part key v st2 = Inr st'"
    using assms by (auto simp: sdp_handle_def ub_bind_eq_Inr)
  then show ?thesis
    using that [of st2] sdp_keep_map by (fastforce simp: set_section_def split: if_splits)
qed

lemma sdp_handle_ok:
  assumes "sdp_handle key v st = Inr st'" "parse_ok st"
  shows "parse_ok st'"
proof -
  obtain st2 where st2: "mediaInfoMap (sdp st2) = mediaInfoMap (sdp st)"
    "currentMediaInfo st2 = currentMediaInfo st"
    "mediaInfo st2 = mediaInfo (set_section key st)" and m: "sdp_media_part key v st2 = Inr st'"
    using assms(1) by (rule sdp_handle_parts)
  have ok2: "sdp_ok (sdp st2)" using assms(2) st2(1) by (simp add: parse_ok_def sdp_ok_def)
  show ?thesis
  proof (cases "key = ''m''")
    case True
    then have "sdp_media_line v st2 = Inr st'"
      using m st2(3) by (simp add: sdp_media_part_def set_section_def)
    then show ?thesis
      using sdp_media_line_result [OF _ ok2] by (fastforce simp: parse_ok_def smap_find_set sdp_ok_set [OF ok2])
  next
    case False
    have p2: "parse_ok st2"
      using set_section_ok [OF assms(2) False] st2 ok2
      by (auto simp: parse_ok_def set_section_def split: option.splits if_splits)
    show ?thesis
    proof (cases "mediaInfo st2 \<and> key = ''a''")
      case True
      then show ?thesis
        using m p2 ok2 sdp_ok_find [OF ok2] sdp_attribute_ok
        by (auto simp: sdp_media_part_def sdp_attribute_line_def parse_ok_def ub_bind_eq_Inr smap_find_set
            intro!: sdp_ok_set split: option.splits)
    next
      case False
      then show ?thesis using m p2 \<open>key \<noteq> ''m''\<close> by (auto simp: sdp_media_part_def split: if_splits)
    qed
  qed
qed

lemma sdp_step_ok: "parse_ok st \<Longrightarrow> sdp_step gs st = Inr st' \<Longrightarrow> parse_ok st'"
  by (auto simp: sdp_step_eq sdp_handle_ok split: list.splits)

subsection \<open>Errors\<close>

text \<open>What the handlers can do wrong: take from an empty group list, or use a payload number
  that was never read.\<close>

definition benign :: "ub \<Rightarrow> bool" where
  "benign e \<longleftrightarrow> e = EmptyList \<or> e = Indeterminate"

lemma benign_simps [simp]: "benign EmptyList" "benign Indeterminate"
  by (simp_all add: benign_def)

lemma payload_id_Inl: "payload_id t = Inl e \<Longrightarrow> benign e"
  by (auto simp: payload_id_def split: if_splits)

lemma media_formats_Inl: "media_formats tmp s i = Inl e \<Longrightarrow> benign e"
proof (induction tmp s i rule: media_formats.induct)
  case (1 tmp s i)
  show ?case
  proof (cases "ss_fail s \<or> tmp = []")
    case False
    obtain w s1 where w: "ss_get_word tmp s = (w, s1)" by fastforce
    show ?thesis
    proof (cases "payload_id tmp")
      case (Inl e')
      then show ?thesis
        using "1.prems" False payload_id_Inl [OF Inl] by (subst (asm) media_formats.simps) auto
    next
      case (Inr pid)
      then show ?thesis
        using "1.prems" False w "1.IH" [OF False refl refl w [symmetric], of pid]
        by (subst (asm) media_formats.simps) simp
    qed
  qed (use "1.prems" in \<open>subst (asm) media_formats.simps, simp\<close>)
qed

lemma store_groups_Inl: "store_groups as gs a = Inl e \<Longrightarrow> benign e"
  by (induction as gs a rule: store_groups.induct)
    (auto simp: ub_bind_eq_Inl list_results split: prod.splits)

lemma sdp_attribute_Inl: "sdp_attribute v i = Inl e \<Longrightarrow> benign e"
proof -
  have "rtpmap_fields gs i = Inl e \<Longrightarrow> benign e" for gs
    unfolding rtpmap_fields_def Let_def case_prod_unfold
    by (auto simp: ub_bind_eq_Inl list_results simp del: store_groups.simps split: option.splits if_splits
        dest: payload_id_Inl store_groups_Inl)
  moreover have "fmtp_fields as gs i = Inl e \<Longrightarrow> benign e" for as gs
    unfolding fmtp_fields_def case_prod_unfold
    by (auto simp: ub_bind_eq_Inl list_results split: option.splits dest: payload_id_Inl store_groups_Inl)
  ultimately show "sdp_attribute v i = Inl e \<Longrightarrow> benign e"
    by (auto simp: sdp_attribute_def ub_bind_eq_Inl list_results split: option.splits if_splits)
qed

lemma sdp_media_line_Inl: "sdp_media_line v st = Inl e \<Longrightarrow> benign e"
  by (auto simp: sdp_media_line_def Let_def case_prod_unfold ub_bind_eq_Inl dest: media_formats_Inl)

lemma sdp_early_parts_Inl:
  "sdp_session_part key v st = Inl e \<Longrightarrow> benign e" "sdp_time_part key v st = Inl e \<Longrightarrow> benign e"
  by (auto simp: sdp_session_part_def sdp_origin_line_def sdp_origin_fields_def list_results
      sdp_connection_fields_def sdp_time_part_def sdp_time_fields_def Let_def ub_bind_eq_Inl
      case_prod_unfold split: if_splits option.splits)

lemma sdp_attribute_line_Inl:
  assumes "sdp_attribute_line v st = Inl e" "mediaInfo st" "parse_ok st"
  shows "benign e"
  using assms by (auto simp: sdp_attribute_line_def parse_ok_def ub_bind_eq_Inl
      split: option.splits dest: sdp_attribute_Inl)

lemma sdp_handle_Inl:
  assumes "sdp_handle key v st = Inl e" "parse_ok st"
  shows "benign e"
proof -
  consider st1 where "sdp_session_part key v (set_section key st) = Inl e \<or>
      sdp_time_part key v st1 = Inl e"
    | st1 st2 where "sdp_session_part key v (set_section key st) = Inr st1"
      "sdp_time_part key v st1 = Inr st2" "sdp_media_part key v st2 = Inl e"
    using assms(1) by (auto simp: sdp_handle_def ub_bind_eq_Inl)
  then show ?thesis
  proof cases
    case 1
    then show ?thesis using sdp_early_parts_Inl by blast
  next
    case 2
    show ?thesis
    proof (cases "key = ''a'' \<and> mediaInfo st2")
      case True
      then have "parse_ok (set_section key st)" using set_section_ok [OF assms(2)] by auto
      then have "parse_ok st2"
        using sdp_keep_map(1) [OF 2(1)] sdp_keep_map(2) [OF 2(2)]
        by (auto simp: parse_ok_def sdp_ok_def split: option.splits)
      then show ?thesis
        using 2(3) True by (auto simp: sdp_media_part_def dest: sdp_attribute_line_Inl)
    next
      case False
      then show ?thesis
        using 2(3) by (auto simp: sdp_media_part_def dest: sdp_media_line_Inl split: if_splits)
    qed
  qed
qed

lemma sdp_step_Inl: "parse_ok st \<Longrightarrow> sdp_step gs st = Inl e \<Longrightarrow> benign e"
  by (auto simp: sdp_step_eq dest: sdp_handle_Inl split: list.splits)

lemma sdp_steps_ok: "parse_ok st \<Longrightarrow> sdp_steps ls st = Inr st' \<Longrightarrow> parse_ok st'"
  by (rule sdp_steps_invariant [of parse_ok]) (rule sdp_step_ok)

lemma sdp_steps_benign: "parse_ok st \<Longrightarrow> \<not> benign e \<Longrightarrow> sdp_steps ls st \<noteq> Inl e"
  by (rule sdp_steps_error [of parse_ok]) (blast intro: sdp_step_ok dest: sdp_step_Inl)+

lemma start_ok: "parse_ok (start_state d) \<longleftrightarrow> sdp_ok d"
  by (simp add: parse_ok_def start_state_def)

subsection \<open>Session and time lines\<close>

lemma regcomp_fields:
  "regcomp (cstr SDP_ORIGIN_PATTERN) = Some \<lparr>at_start = False, at_end = False, expr = fields_re 1 5\<rparr>"
  "regcomp (cstr SDP_CONNECTION_DATA_PATTERN) = Some \<lparr>at_start = False, at_end = False, expr = fields_re 1 2\<rparr>"
  "regcomp (cstr SDP_SESSION_TIME_PATTERN) = Some \<lparr>at_start = False, at_end = False, expr = fields_re 1 1\<rparr>"
  by code_simp+

lemma count_fields:
  "count_list (cstr SDP_ORIGIN_PATTERN) CHR ''('' = Suc 5"
  "count_list (cstr SDP_CONNECTION_DATA_PATTERN) CHR ''('' = Suc 2"
  "count_list (cstr SDP_SESSION_TIME_PATTERN) CHR ''('' = Suc 1"
  by code_simp+

definition text_ok :: "string \<Rightarrow> bool" where
  "text_ok v \<longleftrightarrow> CHR 0x00 \<notin> set v \<and> length v < 2048"

lemma origin_groups:
  assumes "text_ok (sp_join [user, sid, ver, nt, ty, ad])" "\<forall>w \<in> {sid, ver, nt, ty, ad}. word_ok w"
  shows "rx_groups (sp_join [user, sid, ver, nt, ty, ad]) SDP_ORIGIN_PATTERN =
      Some (sp_join [user, sid, ver, nt, ty, ad] # [user, sid, ver, nt, ty, ad])"
    and "rx_groups (sp_join [user, sid, ver, nt, ty, ad]) SDP_CONNECTION_DATA_PATTERN =
      Some (sp_join [user, sid, ver, nt, ty, ad] # [sp_join [user, sid, ver, nt], ty, ad])"
proof -
  have j: "sp_join [user, sid, ver, nt, ty, ad] = sp_join [sp_join [user, sid, ver, nt], ty, ad]" by simp
  show "rx_groups (sp_join [user, sid, ver, nt, ty, ad]) SDP_ORIGIN_PATTERN =
      Some (sp_join [user, sid, ver, nt, ty, ad] # [user, sid, ver, nt, ty, ad])"
    using assms by (intro rx_groups_fields [OF regcomp_fields(1) count_fields(1)])
      (auto simp: text_ok_def simp del: sp_join.simps)
  show "rx_groups (sp_join [user, sid, ver, nt, ty, ad]) SDP_CONNECTION_DATA_PATTERN =
      Some (sp_join [user, sid, ver, nt, ty, ad] # [sp_join [user, sid, ver, nt], ty, ad])"
    unfolding j
    using assms by (intro rx_groups_fields [OF regcomp_fields(2) count_fields(2)])
      (auto simp: text_ok_def j simp del: sp_join.simps)
qed

lemma time_groups:
  assumes "text_ok (sp_join [start, stop])" "word_ok stop"
  shows "rx_groups (sp_join [start, stop]) SDP_SESSION_TIME_PATTERN =
    Some (sp_join [start, stop] # [start, stop])"
  using assms by (intro rx_groups_fields [OF regcomp_fields(3) count_fields(3)])
    (auto simp: text_ok_def simp del: sp_join.simps)

lemma ss_reset: "ss_str [] (ss_clear s) = ss_new []"
  by (cases s) (simp add: ss_str_def ss_clear_def ss_new_def)

lemma ss_put_new: "ss_put t (ss_new []) = ss_new t"
  by (simp add: ss_put_def ss_new_def ss_good_def)

lemma ss_get_num_end:
  "\<not> ss_good s \<Longrightarrow> ss_get_num lo hi old s = (old, s\<lparr>ss_fail := True\<rparr>)"
  by (simp add: ss_get_num_def)

subsection \<open>Media lines\<close>

definition clean_word :: "string \<Rightarrow> bool" where
  "clean_word w \<longleftrightarrow> w \<noteq> [] \<and> list_all (\<lambda>c. \<not> is_space c) w"

definition blanked :: "string list \<Rightarrow> string" where
  "blanked ws = concat (map (\<lambda>w. CHR '' '' # w) ws)"

lemma blanked_simps [simp]: "blanked [] = []" "blanked (w # ws) = CHR '' '' # w @ blanked ws"
  by (simp_all add: blanked_def)

lemma sp_join_blanked: "sp_join (w # ws) = w @ blanked ws"
  by (induction ws arbitrary: w) simp_all

text \<open>A stream that holds words, in the state the last extraction left it.\<close>

definition words_left :: "string list \<Rightarrow> sstream" where
  "words_left ws = \<lparr>ss_buf = blanked ws, ss_eof = (ws = []), ss_fail = False\<rparr>"

lemma takeWhile_word: "clean_word w \<Longrightarrow> takeWhile (\<lambda>c. \<not> is_space c) (w @ blanked ws) = w"
  by (cases ws) (auto simp: clean_word_def list_all_iff is_space_def takeWhile_append)

lemma skip_word: "clean_word w \<Longrightarrow> skip_ws (w @ r) = w @ r"
  by (cases w) (auto simp: clean_word_def skip_ws_def)

lemma skip_blank: "skip_ws (CHR '' '' # r) = skip_ws r"
  by (simp add: skip_ws_def is_space_def)

lemma blanked_Nil [simp]: "blanked ws = [] \<longleftrightarrow> ws = []"
  by (cases ws) simp_all

lemma get_word:
  "ss_good s \<Longrightarrow> skip_ws (ss_buf s) = w @ blanked ws \<Longrightarrow> clean_word w \<Longrightarrow>
   ss_get_word old s = (w, words_left ws)"
  by (simp add: ss_get_word_def takeWhile_word words_left_def clean_word_def Let_def)

lemma get_word_first:
  "clean_word w \<Longrightarrow> ss_get_word old (ss_new (w @ blanked ws)) = (w, words_left ws)"
  by (rule get_word) (simp_all add: ss_new_def ss_good_def skip_word)

lemma get_word_next:
  "clean_word w \<Longrightarrow> ss_get_word old (words_left (w # ws)) = (w, words_left ws)"
  by (rule get_word) (simp_all add: words_left_def ss_good_def skip_word skip_blank)

lemma get_word_end: "ss_fail (snd (ss_get_word old (words_left [])))" "fst (ss_get_word old (words_left [])) = old"
  by (simp_all add: ss_get_word_def ss_good_def words_left_def)

lemma show_nat_clean: "clean_word (show_nat n)"
  using show_nat_digits is_digit_not_space by (auto simp: clean_word_def list_all_iff)

lemma payload_id_show: "p < 2 ^ 31 \<Longrightarrow> payload_id (show_nat p) = Inr (int p)"
proof -
  assume p: "p < 2 ^ 31"
  have "skip_ws (show_nat p) = show_nat p" using skip_word [OF show_nat_clean, of p "[]"] by simp
  moreover have "ss_get_int 0 (ss_new (show_nat p)) = (int p, \<lparr>ss_buf = [], ss_eof = True, ss_fail = False\<rparr>)"
    unfolding ss_get_int_def
    by (subst ss_get_num_digits) (use p show_nat_digits in \<open>auto simp: digits_val_show_nat\<close>)
  ultimately show ?thesis by (simp add: payload_id_def)
qed

text \<open>The payload types of a media line, entered one by one.\<close>

definition note_type :: "string \<Rightarrow> int \<Rightarrow> (int, attr_map) smap \<Rightarrow> (int, attr_map) smap" where
  "note_type m p fm =
     smap_set p (smap_set MEDIA_TYPE_NAME m (case smap_find fm p of None \<Rightarrow> [] | Some a \<Rightarrow> a)) fm"

lemma media_formats_numbers:
  "\<forall>q \<in> set (p # ps). q < 2 ^ 31 \<Longrightarrow>
   \<exists>s'. media_formats (show_nat p) (words_left (map show_nat ps)) i =
     Inr (s', i\<lparr>fmtMap := fold (note_type (mediaType i)) (map int (p # ps)) (fmtMap i)\<rparr>)"
proof (induction ps arbitrary: p i)
  case Nil
  obtain w s1 where w: "ss_get_word (show_nat p) (words_left []) = (w, s1)" by fastforce
  then have f: "ss_fail s1" using get_word_end(1) [of "show_nat p"] by simp
  have "media_formats w s1 j = Inr (s1, j)" for j
    using f by (subst media_formats.simps) simp
  then show ?case
    using Nil w by (subst media_formats.simps)
      (simp add: payload_id_show note_type_def words_left_def [of "[]"] Let_def)
next
  case (Cons q ps)
  let ?i = "i\<lparr>fmtMap := note_type (mediaType i) (int p) (fmtMap i)\<rparr>"
  have w: "ss_get_word (show_nat p) (words_left (show_nat q # map show_nat ps)) =
      (show_nat q, words_left (map show_nat ps))"
    by (rule get_word_next) (rule show_nat_clean)
  have "media_formats (show_nat p) (words_left (map show_nat (q # ps))) i =
      media_formats (show_nat q) (words_left (map show_nat ps)) ?i"
    using Cons.prems w by (subst media_formats.simps)
      (simp add: payload_id_show note_type_def words_left_def [of "_ # _"] Let_def)
  then show ?case using Cons.IH [of q ?i] Cons.prems by simp
qed

lemma note_types_keys:
  "set (smap_keys (fold (note_type m) ps fm)) = set ps \<union> set (smap_keys fm)"
  by (induction ps arbitrary: fm) (auto simp: note_type_def smap_set_keys)

lemma sdp_media_line_words:
  assumes "clean_word m" "clean_word port" "clean_word prot" "\<forall>q \<in> set (p # ps). q < 2 ^ 31"
  shows "\<exists>s. sdp_media_line (sp_join (m # port # prot # map show_nat (p # ps))) st =
    (let i0 = (case smap_find (mediaInfoMap (sdp st)) m of None \<Rightarrow> empty_media_info | Some i \<Rightarrow> i);
         i = i0\<lparr>mediaType := m, ports := port, transProt := prot,
           fmtMap := fold (note_type m) (map int (p # ps)) (fmtMap i0)\<rparr>
     in Inr (st\<lparr>ssTmp := s, currentMediaInfo := Some m,
          sdp := (sdp st)\<lparr>mediaInfoMap := smap_set m i (mediaInfoMap (sdp st))\<rparr>\<rparr>))"
proof -
  define i0 where "i0 = (case smap_find (mediaInfoMap (sdp st)) m of None \<Rightarrow> empty_media_info | Some i \<Rightarrow> i)"
  have s0: "ss_str v (ss_clear s) = ss_new v" for v s
    by (cases s) (simp add: ss_str_def ss_clear_def ss_new_def)
  obtain s where f: "media_formats (show_nat p) (words_left (map show_nat ps))
      (i0\<lparr>mediaType := m, ports := port, transProt := prot\<rparr>) =
      Inr (s, (i0\<lparr>mediaType := m, ports := port, transProt := prot\<rparr>)
        \<lparr>fmtMap := fold (note_type m) (map int (p # ps)) (fmtMap i0)\<rparr>)"
    using media_formats_numbers [OF assms(4), of "i0\<lparr>mediaType := m, ports := port, transProt := prot\<rparr>"]
    by auto
  show ?thesis
    unfolding sdp_media_line_def sp_join_blanked s0 Let_def i0_def [symmetric]
    by (rule exI [of _ s])
      (simp add: get_word_first get_word_next assms show_nat_clean i0_def [symmetric] f [simplified]
        del: blanked_simps)
qed

lemma rtpmap_fields_store:
  assumes "p < 2 ^ 31" "length chans \<le> 1"
  shows "rtpmap_fields (line # show_nat p # codec # rate # chans) info = Inr
    (case smap_find (fmtMap info) (int p) of
       None \<Rightarrow> info
     | Some a \<Rightarrow> info\<lparr>fmtMap := smap_set (int p)
         (smap_set CHANNEL_NUM (if chans = [] then ''1'' else hd chans)
           (smap_set TIME_RATE rate (smap_set CODEC_TYPE codec a))) (fmtMap info)\<rparr>)"
  using assms(2) by (cases chans)
    (auto simp: rtpmap_fields_def payload_id_show [OF assms(1)] smap_set_set split: option.split)

lemma SDPData_parse_ok:
  assumes "SDPData_parse text d = Inr d'" "sdp_ok d"
  shows "sdp_ok d'"
proof -
  obtain st where "sdp_steps (lines_from text (Some 0)) (start_state d) = Inr st" "d' = sdp st"
    using assms(1) by (auto simp: SDPData_parse_steps ub_bind_eq_Inr)
  then have "parse_ok st"
    using sdp_steps_ok [of "start_state d"] assms(2) by (simp add: start_ok)
  then show ?thesis using \<open>d' = sdp st\<close> by (simp add: parse_ok_def)
qed

subsection \<open>Properties\<close>

text \<open>C10: parsing keeps the description well formed: the media map is an ordered map without
  duplicates, every media entry has its key as media type, and every payload type that is listed has
  that media type recorded in its attributes.\<close>

theorem SDPData_parse_invariant:
  assumes "SDPData_parse text d = Inr d'" "sdp_ok d"
  shows "sdp_ok d'"
  by (rule SDPData_parse_ok [OF assms])

lemma parse_two_lines:
  "(case SDPData_parse (sdp_text [(CHR ''v'', ''0''), (CHR ''m'', ''video 0 RTP/AVP 96'')]) new_sdp_data of
      Inr d \<Rightarrow> smap_keys (mediaInfoMap d) = [''video''] | Inl e \<Rightarrow> False)"
  by code_simp

theorem SDPData_parse_invariant_witness:
  "\<exists>d'. SDPData_parse (sdp_text [(CHR ''v'', ''0''), (CHR ''m'', ''video 0 RTP/AVP 96'')]) new_sdp_data = Inr d' \<and>
     smap_keys (mediaInfoMap d') = [''video''] \<and> sdp_ok d'"
proof -
  obtain d' where p: "SDPData_parse (sdp_text [(CHR ''v'', ''0''), (CHR ''m'', ''video 0 RTP/AVP 96'')]) new_sdp_data = Inr d'"
      "smap_keys (mediaInfoMap d') = [''video'']"
    using parse_two_lines by (auto split: sum.splits)
  then show ?thesis
    using SDPData_parse_invariant [OF p(1)] by (simp add: sdp_ok_def new_sdp_data_def)
qed

text \<open>C11: on any text whatever, the parser never goes through the null \<open>currentMediaInfo\<close> and never
  reads or writes outside an object: the only things that can go wrong are taking a group from an
  empty list and using a payload number that the stream did not deliver.\<close>

theorem SDPData_parse_errors:
  assumes "SDPData_parse text d = Inl e" "sdp_ok d"
  shows "e = EmptyList \<or> e = Indeterminate"
proof (rule ccontr)
  assume "\<not> ?thesis"
  then have "\<not> benign e" by (simp add: benign_def)
  then have "sdp_steps (lines_from text (Some 0)) (start_state d) \<noteq> Inl e"
    using sdp_steps_benign assms(2) by (auto simp: start_ok)
  then show False using assms(1) by (auto simp: SDPData_parse_steps ub_bind_eq_Inl)
qed

lemma parse_long:
  "SDPData_parse (''i='' @ replicate 2046 CHR ''x'') new_sdp_data = Inl EmptyList"
proof -
  let ?t = "''i='' @ replicate 2046 CHR ''x''"
  have "next_line ([] @ ?t) (length ([] :: string)) = (?t, None)"
    by (rule next_line_last) simp
  then have l: "lines_from ?t (Some 0) = [?t]" by (simp add: lines_from.simps)
  have "sdp_step (line_groups ([] @ CHR ''i'' # CHR ''='' # replicate 2046 CHR ''x'') SDP_LINE_PATTERN) st =
      Inl EmptyList" for st
    by (subst sdp_step_line) (simp_all add: is_letter_def in_cls_def in_range_def)
  then show ?thesis unfolding SDPData_parse_steps l by simp
qed

theorem SDPData_parse_errors_witness:
  "\<exists>e. SDPData_parse (''i='' @ replicate 2046 CHR ''x'') new_sdp_data = Inl e \<and>
     (e = EmptyList \<or> e = Indeterminate)"
  using SDPData_parse_errors [OF parse_long] parse_long by (simp add: sdp_ok_def new_sdp_data_def)

text \<open>A description that contains a line of 2048 or more characters cannot be parsed: the group
  list is too short then and \<open>front\<close> is called on an empty list.\<close>

theorem SDPData_parse_long_line:
  assumes "pre @ k # CHR ''='' # v \<in> set (lines_from text (Some 0))" "2046 \<le> length v"
    "is_letter k" "\<forall>c \<in> set pre. \<not> is_letter c" "CHR 0x00 \<notin> set (pre @ k # v)"
  shows "\<not> defined (SDPData_parse text d)"
proof -
  obtain xs ys where l: "lines_from text (Some 0) = xs @ (pre @ k # CHR ''='' # v) # ys"
    using assms(1) by (meson split_list)
  have "sdp_step (line_groups (pre @ k # CHR ''='' # v) SDP_LINE_PATTERN) st = Inl EmptyList" for st
    using assms(2) by (subst sdp_step_line [OF assms(3-5)]) simp
  then show ?thesis
    unfolding SDPData_parse_steps l sdp_steps_append
    by (cases "sdp_steps xs (start_state d)") simp_all
qed

theorem SDPData_parse_long_line_witness:
  "\<not> defined (SDPData_parse (''i='' @ replicate 2046 CHR ''x'') new_sdp_data)"
proof -
  let ?t = "''i='' @ replicate 2046 CHR ''x''"
  have "next_line ([] @ ?t) (length ([] :: string)) = (?t, None)"
    by (rule next_line_last) simp
  then have "lines_from ?t (Some 0) = [?t]" by (simp add: lines_from.simps)
  then show ?thesis
    using SDPData_parse_long_line [of "[]" "CHR ''i''" "replicate 2046 CHR ''x''" ?t new_sdp_data]
    by (simp add: is_letter_def in_cls_def in_range_def)
qed

text \<open>C12: a description given as lines \<open>k=v\<close> (letters, no CR or NUL in a value, fewer than 2048
  characters) is handled line by line in order, although all lines but the first reach the pattern with
  a leading LF and two empty lines follow the last.\<close>

theorem SDPData_parse_text:
  assumes "\<forall>kv \<in> set kvs. sdp_pair kv" "kvs \<noteq> []"
  shows "SDPData_parse (sdp_text kvs) d =
    ub_bind (sdp_handles kvs (start_state d)) (\<lambda>st. Inr (sdp st))"
  by (rule parse_text [OF assms])

theorem SDPData_parse_text_witness:
  "SDPData_parse (sdp_text [(CHR ''s'', ''x''), (CHR ''i'', [])]) new_sdp_data =
     Inr (new_sdp_data\<lparr>sessionName := ''x''\<rparr>)"
  using SDPData_parse_text [of "[(CHR ''s'', ''x''), (CHR ''i'', [])]" new_sdp_data]
  by (simp add: sdp_pair_def is_letter_def in_cls_def in_range_def sdp_handle_def set_section_def
      start_state_def sdp_session_part_def sdp_time_part_def sdp_media_part_def new_sdp_data_def)

text \<open>The origin line \<open>o=user id version nettype addrtype address\<close> is stored shifted by one
  field: the session id is read from the user name, the network type is the version, the address type
  is the network type and the address is the address type. The same line also fills the connection
  data (the \<open>c=\<close> line never does), with its first four fields together as network type.\<close>

theorem sdp_origin_shift:
  assumes "text_ok (sp_join [user, sid, ver, nt, ty, ad])" "\<forall>w \<in> {sid, ver, nt, ty, ad}. word_ok w"
    "sdp_origin_line (sp_join [user, sid, ver, nt, ty, ad]) st = Inr st'"
  shows "userName (sdpOriginStruct (sdp st')) = user \<and>
    networkType (sdpOriginStruct (sdp st')) = ver \<and>
    addressType (sdpOriginStruct (sdp st')) = nt \<and>
    address (sdpOriginStruct (sdp st')) = ty \<and>
    sessionId (sdpOriginStruct (sdp st')) =
      fst (ss_get_long (sessionId (sdpOriginStruct (sdp st))) (ss_new user)) \<and>
    sdpConnectionData (sdp st') =
           \<lparr>cNetworkType = sp_join [user, sid, ver, nt], cAddressType = ty, cAddress = ad\<rparr>"
  using assms(3) unfolding sdp_origin_line_def origin_groups [OF assms(1,2)] option.case
  by (auto simp: sdp_origin_fields_def sdp_connection_fields_def ss_reset ss_put_new Let_def
      case_prod_unfold simp del: sp_join.simps)

theorem sdp_origin_shift_witness:
  "\<exists>st'. sdp_origin_line ''- 15 1 IN IP4 h'' (start_state new_sdp_data) = Inr st' \<and>
     networkType (sdpOriginStruct (sdp st')) = ''1'' \<and> address (sdpOriginStruct (sdp st')) = ''IP4''"
proof -
  have j: "''- 15 1 IN IP4 h'' = sp_join [''-'', ''15'', ''1'', ''IN'', ''IP4'', ''h'']" by simp
  have a: "text_ok (sp_join [''-'', ''15'', ''1'', ''IN'', ''IP4'', ''h''])"
    "\<forall>w \<in> {''15'', ''1'', ''IN'', ''IP4'', ''h''}. word_ok w"
    by (simp_all add: text_ok_def word_ok_def)
  have "defined (sdp_origin_line (sp_join [''-'', ''15'', ''1'', ''IN'', ''IP4'', ''h'']) (start_state new_sdp_data))"
    unfolding sdp_origin_line_def origin_groups [OF a] option.case
    by (simp add: sdp_origin_fields_def sdp_connection_fields_def Let_def case_prod_unfold)
  then obtain st' where st': "sdp_origin_line (sp_join [''-'', ''15'', ''1'', ''IN'', ''IP4'', ''h''])
      (start_state new_sdp_data) = Inr st'" by (auto simp: defined_iff)
  then show ?thesis
    unfolding j using sdp_origin_shift [OF a st'] st' by blast
qed

text \<open>
  the stop time of a session is never set: the second number of the time line is inserted
  into a stream that has already hit its end, so the member keeps its value whatever the line says.\<close>

theorem sdp_stop_time_lost:
  assumes "text_ok (sp_join [show_nat start, stop])" "word_ok stop" "start < 2 ^ 63"
    and "timeInfo st"
  shows "\<exists>s. sdp_time_part ''t'' (sp_join [show_nat start, stop]) st =
    Inr (st\<lparr>ssTmp := s, sdp := (sdp st)\<lparr>sdpSessionTime :=
      \<lparr>startTime = int start, stopTime = stopTime (sdpSessionTime (sdp st))\<rparr>\<rparr>\<rparr>)"
proof -
  have g: "ss_get_long old (ss_new (show_nat start)) = (int start, \<lparr>ss_buf = [], ss_eof = True, ss_fail = False\<rparr>)" for old
    unfolding ss_get_long_def
    by (subst ss_get_num_digits) (use assms(3) show_nat_digits in \<open>auto simp: digits_val_show_nat\<close>)
  let ?s = "ss_put stop \<lparr>ss_buf = [], ss_eof = True, ss_fail = False\<rparr>"
  have e: "ss_get_long old ?s = (old, ?s\<lparr>ss_fail := True\<rparr>)" for old
    unfolding ss_get_long_def by (rule ss_get_num_end) (simp add: ss_good_def ss_put_def)
  show ?thesis
    unfolding sdp_time_part_def time_groups [OF assms(1,2)] option.case
    by (rule exI [of _ "?s\<lparr>ss_fail := True\<rparr>"])
      (simp add: assms(4) sdp_time_fields_def ss_reset ss_put_new g e Let_def del: sp_join.simps)
qed

theorem sdp_stop_time_lost_witness:
  "\<exists>st'. sdp_time_part ''t'' ''0 7'' (set_section ''t'' (start_state new_sdp_data)) = Inr st' \<and>
     stopTime (sdpSessionTime (sdp st')) = 0"
proof -
  have n: "show_nat 0 = ''0''" by code_simp
  show ?thesis
    using sdp_stop_time_lost [of 0 "''7''" "set_section ''t'' (start_state new_sdp_data)"]
    by (auto simp: n text_ok_def word_ok_def set_section_def start_state_def new_sdp_data_def)
qed

text \<open>A media line \<open>m=media port proto p1 ... pn\<close> makes an entry of that name the current one,
  stores port and transport in it and enters exactly the listed payload types, beside those an earlier
  line of the same media entered; the numbers are read back from their decimal notation.\<close>

theorem sdp_media_line_types:
  assumes "clean_word m" "clean_word port" "clean_word prot" "\<forall>q \<in> set ps. q < 2 ^ 31" "ps \<noteq> []"
  shows "\<exists>st' i. sdp_media_line (sp_join (m # port # prot # map show_nat ps)) st = Inr st' \<and>
    currentMediaInfo st' = Some m \<and> smap_find (mediaInfoMap (sdp st')) m = Some i \<and>
    mediaType i = m \<and> ports i = port \<and> transProt i = prot \<and>
    set (smap_keys (fmtMap i)) = int ` set ps \<union>
      (case smap_find (mediaInfoMap (sdp st)) m of None \<Rightarrow> {} | Some i0 \<Rightarrow> set (smap_keys (fmtMap i0)))"
proof -
  obtain p qs where ps: "ps = p # qs" using assms(5) by (cases ps) auto
  obtain s where s: "sdp_media_line (sp_join (m # port # prot # map show_nat ps)) st =
    (let i0 = (case smap_find (mediaInfoMap (sdp st)) m of None \<Rightarrow> empty_media_info | Some i \<Rightarrow> i);
         i = i0\<lparr>mediaType := m, ports := port, transProt := prot,
           fmtMap := fold (note_type m) (map int ps) (fmtMap i0)\<rparr>
     in Inr (st\<lparr>ssTmp := s, currentMediaInfo := Some m,
          sdp := (sdp st)\<lparr>mediaInfoMap := smap_set m i (mediaInfoMap (sdp st))\<rparr>\<rparr>))"
    using sdp_media_line_words [OF assms(1-3), of p qs st] assms(4) unfolding ps by blast
  show ?thesis
    unfolding s Let_def
    by (auto simp: smap_find_set note_types_keys empty_media_info_def split: option.split)
qed

theorem sdp_media_line_types_witness:
  "\<exists>st' i. sdp_media_line ''video 0 RTP/AVP 96'' (start_state new_sdp_data) = Inr st' \<and>
     smap_find (mediaInfoMap (sdp st')) ''video'' = Some i \<and> set (smap_keys (fmtMap i)) = {96}"
proof -
  have n: "show_nat 96 = ''96''" by code_simp
  show ?thesis
    using sdp_media_line_types [of "''video''" "''0''" "''RTP/AVP''" "[96]" "start_state new_sdp_data"]
    by (fastforce simp: n clean_word_def is_space_def start_state_def new_sdp_data_def)
qed

text \<open>An \<open>rtpmap\<close> attribute for a payload type of the media line records codec, clock rate and
  channels (one by default) for this type and touches nothing else; for a type that the media line did
  not list it changes nothing.\<close>

theorem rtpmap_attributes:
  assumes "p < 2 ^ 31" "length chans \<le> 1"
  shows "rtpmap_fields (line # show_nat p # codec # rate # chans) info = Inr
    (case smap_find (fmtMap info) (int p) of
       None \<Rightarrow> info
     | Some a \<Rightarrow> info\<lparr>fmtMap := smap_set (int p)
         (smap_set CHANNEL_NUM (if chans = [] then ''1'' else hd chans)
           (smap_set TIME_RATE rate (smap_set CODEC_TYPE codec a))) (fmtMap info)\<rparr>)"
  by (rule rtpmap_fields_store [OF assms])

theorem rtpmap_attributes_witness:
  "rtpmap_fields [''rtpmap:96 H264/90000'', ''96'', ''H264'', ''90000''] empty_media_info = Inr empty_media_info"
proof -
  have n: "show_nat 96 = ''96''" by code_simp
  show ?thesis
    using rtpmap_attributes [of 96 "[]" "''rtpmap:96 H264/90000''" "''H264''" "''90000''" empty_media_info]
    by (simp add: n empty_media_info_def)
qed

end
