(* ===== verification/Sdp_Attributes.thy ===== *)
theory Sdp_Attributes
  imports Regex_Headers Sdp_Proofs
begin

section \<open>The attributes of a medium\<close>

text \<open>
  What the patterns for \<open>rtpmap\<close> and \<open>control\<close> find in the attributes a server writes. A pattern that can match the text as a whole finds the whole text
  (\<open>rx_groups_whole\<close>). \<open>yields r w f\<close> says that \<open>r\<close> matches \<open>w\<close> and which groups it reports when \<open>w\<close>
  starts at an offset; it has a rule for each of the parts that the patterns are made of.
\<close>

subsection \<open>Patterns that match the whole text\<close>

definition yields :: "re \<Rightarrow> string \<Rightarrow> (nat \<Rightarrow> (nat \<times> nat \<times> nat) list) \<Rightarrow> bool" where
  "yields r w f \<longleftrightarrow> w \<in> lang r \<and> (\<forall>off. captures r off w = f off)"

text \<open>A text is split where the first part cannot be longer.\<close>

lemma captures_Cat:
  assumes "u \<in> lang r" "v \<in> lang s"
    and "\<And>k. length u < k \<Longrightarrow> k \<le> length (u @ v) \<Longrightarrow> take k (u @ v) \<notin> lang r \<or> drop k (u @ v) \<notin> lang s"
  shows "captures (Cat r s) off (u @ v) = captures r off u @ captures s (off + length u) v"
proof -
  have "split_max r s (u @ v) (length (u @ v)) = Some (length u)"
    by (rule split_max_greatest) (use assms in auto)
  then show ?thesis by (subst captures.simps(1)) simp
qed

lemma yields_Cat:
  assumes "yields r u f" "yields s v g"
    and "\<And>k. length u < k \<Longrightarrow> k \<le> length (u @ v) \<Longrightarrow> take k (u @ v) \<notin> lang r \<or> drop k (u @ v) \<notin> lang s"
  shows "yields (Cat r s) (u @ v) (\<lambda>off. f off @ g (off + length u))"
proof -
  have uv: "u \<in> lang r" "v \<in> lang s" using assms(1,2) unfolding yields_def by blast+
  show ?thesis
    unfolding yields_def
  proof (intro conjI allI)
    show "captures (Cat r s) off (u @ v) = f off @ g (off + length u)" for off
      using captures_Cat [OF uv assms(3), of off] assms(1,2) by (simp only: yields_def)
  qed (rule lang_CatI [OF uv])
qed

lemma yields_cong: "yields r w f \<Longrightarrow> (\<And>off. f off = g off) \<Longrightarrow> yields r w g"
  unfolding yields_def by simp

lemma yields_last:
  assumes "yields r u f" "yields s [] g"
  shows "yields (Cat r s) u (\<lambda>off. f off @ g (off + length u))"
  using yields_Cat [OF assms] by simp

text \<open>The first part does not match a prefix that ends in the next character.\<close>

lemma yields_stop:
  assumes "yields r u f" "yields s (c # v) g" "\<And>w. u @ c # w \<notin> lang r"
  shows "yields (Cat r s) (u @ c # v) (\<lambda>off. f off @ g (off + length u))"
proof (rule yields_Cat [OF assms(1,2)])
  fix k assume "length u < k" "k \<le> length (u @ c # v)"
  then obtain l where "k = length u + Suc l" by (metis add_Suc_right less_imp_Suc_add)
  then have "take k (u @ c # v) = u @ c # take l v" by simp
  then show "take k (u @ c # v) \<notin> lang r \<or> drop k (u @ c # v) \<notin> lang s" using assms(3) by metis
qed

text \<open>The second part does not match a proper suffix.\<close>

lemma yields_start:
  assumes "yields r u f" "yields s v g" "\<And>x y. v = x @ y \<Longrightarrow> x \<noteq> [] \<Longrightarrow> y \<notin> lang s"
  shows "yields (Cat r s) (u @ v) (\<lambda>off. f off @ g (off + length u))"
proof (rule yields_Cat [OF assms(1,2)])
  fix k assume k: "length u < k" "k \<le> length (u @ v)"
  then have "v = take (k - length u) v @ drop k (u @ v)" "take (k - length u) v \<noteq> []" by auto
  then have "drop k (u @ v) \<notin> lang s" by (rule assms(3))
  then show "take k (u @ v) \<notin> lang r \<or> drop k (u @ v) \<notin> lang s" ..
qed

lemma yields_lit:
  "yields r w f \<Longrightarrow> yields (lit_cat l r) (l @ w) (\<lambda>off. f (off + length l))"
  unfolding yields_def lang_lit_cat by (auto simp: captures_lit_cat)

lemma yields_free: "group_free r \<Longrightarrow> w \<in> lang r \<Longrightarrow> yields r w (\<lambda>off. [])"
  unfolding yields_def by (simp add: captures_group_free)

lemma yields_run:
  assumes "w \<noteq> []" "\<forall>c \<in> set w. in_cls neg rs c"
  shows "yields (Group i (run neg rs)) w (\<lambda>off. [(i, off, off + length w)])"
proof -
  have "captures (run neg rs) off w = []" for off by (rule captures_group_free) simp
  moreover have "w \<in> lang (run neg rs)" unfolding lang_run using assms by blast
  ultimately show ?thesis unfolding yields_def by simp
qed

lemma run_stop: "\<not> in_cls neg rs c \<Longrightarrow> u @ c # w \<notin> lang (Group i (run neg rs))"
  unfolding lang.simps(7) lang_run by simp

text \<open>A run that is followed by a character outside its class.\<close>

lemma yields_run_stop:
  assumes "yields s (c # v) g" "w \<noteq> []" "\<forall>c \<in> set w. in_cls neg rs c" "\<not> in_cls neg rs c"
  shows "yields (Cat (Group i (run neg rs)) s) (w @ c # v) (\<lambda>off. (i, off, off + length w) # g (off + length w))"
  using yields_stop [OF yields_run [OF assms(2,3)] assms(1) run_stop [OF assms(4)], of i] by simp

text \<open>Anything up to the last occurrence of a literal.\<close>

lemma yields_dots:
  assumes "yields (lit_cat l r) (l @ v) g" "\<And>x z. l @ v = x @ l @ z \<Longrightarrow> x = []"
  shows "yields (Cat (Star Dot) (lit_cat l r)) (w @ l @ v) (\<lambda>off. g (off + length w))"
proof -
  have 1: "yields (Star Dot) w (\<lambda>off. [])" using star_Dot [of w] by (intro yields_free) simp_all
  have 2: "y \<notin> lang (lit_cat l r)" if "l @ v = x @ y" "x \<noteq> []" for x y
    using that assms(2) [of x] unfolding lang_lit_cat by blast
  have "yields (Cat (Star Dot) (lit_cat l r)) (w @ l @ v) (\<lambda>off. [] @ g (off + length w))"
    by (rule yields_start [OF 1 assms(1)]) (rule 2)
  then show ?thesis by simp
qed

text \<open>Anything up to the last blanks.\<close>

lemma Blanks_blank: "w \<in> lang Blanks \<Longrightarrow> CHR '' '' \<in> set w"
  unfolding lang_Blanks by (cases w) auto

lemma yields_word:
  assumes "yields s w g" "yields b [CHR '' ''] (\<lambda>off. [])" "\<And>u. u \<in> lang b \<Longrightarrow> CHR '' '' \<in> set u"
    "pt \<noteq> []" "w \<noteq> []" "CHR '' '' \<notin> set w" "\<And>c u. CHR '' '' # c # u \<in> lang b \<Longrightarrow> c = CHR '' ''"
  shows "yields (Cat (Group i (run True [])) (Cat b s)) (pt @ CHR '' '' # w)
    (\<lambda>off. (i, off, off + length pt) # g (off + length pt + 1))"
proof -
  obtain c v where cv: "w = c # v" "c \<noteq> CHR '' ''" using assms(5,6) by (cases w) auto
  have "yields (Cat b s) ([CHR '' ''] @ c # v) (\<lambda>off. [] @ g (off + length [CHR '' '']))"
    by (rule yields_stop) (use assms(1,2,7) cv in auto)
  then have "yields (Cat (Group i (run True [])) (Cat b s)) (pt @ CHR '' '' # w)
      (\<lambda>off. [(i, off, off + length pt)] @ g (off + length pt + 1))"
  proof (intro yields_start yields_run)
    fix x y assume "CHR '' '' # w = x @ y" "x \<noteq> []"
    then have "CHR '' '' \<notin> set y" using assms(6) by (cases x) auto
    then show "y \<notin> lang (Cat b s)" using assms(3) by auto
  qed (use assms(4) cv in \<open>simp_all add: in_cls_def\<close>)
  then show ?thesis by simp
qed

lemma yields_blanks_word:
  assumes "yields s w g" "pt \<noteq> []" "w \<noteq> []" "CHR '' '' \<notin> set w"
  shows "yields (Cat (Group i (run True [])) (Cat Blanks s)) (pt @ CHR '' '' # w)
    (\<lambda>off. (i, off, off + length pt) # g (off + length pt + 1))"
proof (rule yields_word)
  show "yields Blanks [CHR '' ''] (\<lambda>off. [])"
    by (rule yields_free) (simp_all add: lang_Blanks del: lang.simps)
  show "CHR '' '' # c # u \<in> lang Blanks \<Longrightarrow> c = CHR '' ''" for c u by (simp add: lang_Blanks del: lang.simps)
qed (use assms Blanks_blank in auto)

lemma rx_groups_whole:
  assumes p: "regcomp (cstr p) = Some \<lparr>at_start = False, at_end = False, expr = r\<rparr>"
    and s: "CHR 0x00 \<notin> set s" "s \<in> lang r"
  shows "rx_groups s p = Some (List.map_filter (group_text s ((map_of (rev (captures r 0 s))) (0 \<mapsto> (0, length s))))
    [0..<Suc (count_list (cstr p) CHR ''('')])"
proof -
  have cs: "cstr s = s" by (rule cstr_id [OF s(1)])
  have "longest r s = Some (length s)" by (rule longest_eq) (use s(2) in simp_all)
  then have "search False False r s 0 = Some (0, length s)"
    by (subst search.simps) (simp add: match_here_def)
  then have "regexec \<lparr>at_start = False, at_end = False, expr = r\<rparr> s =
      Some ((map_of (rev (captures r 0 s))) (0 \<mapsto> (0, length s)))"
    unfolding regexec_def by simp
  then show ?thesis unfolding rx_groups_Some cs by (intro exI conjI) (rule p, assumption, rule refl)
qed

lemma rx_groups_yields:
  assumes "regcomp (cstr p) = Some \<lparr>at_start = False, at_end = False, expr = lit_cat l r\<rparr>"
    "yields r w f" "CHR 0x00 \<notin> set (l @ w)" "length l = n"
  shows "rx_groups (l @ w) p =
    Some (List.map_filter (group_text (l @ w) ((map_of (rev (f n))) (0 \<mapsto> (0, length (l @ w)))))
      [0..<Suc (count_list (cstr p) CHR ''('')])"
  using rx_groups_whole [OF assms(1,3)] yields_lit [OF assms(2), of l] assms(4) unfolding yields_def by simp

text \<open>A pattern that starts with a literal does not match where the literal does not occur.\<close>

lemma rx_groups_no_lit:
  assumes p: "regcomp (cstr p) = Some \<lparr>at_start = False, at_end = False, expr = lit_cat l r\<rparr>"
    and s: "CHR 0x00 \<notin> set s" "\<And>x z. s \<noteq> x @ l @ z"
  shows "rx_groups s p = None"
proof -
  have "search False False (lit_cat l r) s 0 = None"
    unfolding search_None lang_lit_cat using s(2) by (auto simp: append_assoc [symmetric] simp del: append_assoc) (metis append_assoc)
  then have "regexec \<lparr>at_start = False, at_end = False, expr = lit_cat l r\<rparr> (cstr s) = None"
    unfolding regexec_def cstr_id [OF s(1)] by simp
  then have "rx_groups s p \<noteq> Some gs" for gs unfolding rx_groups_Some using p by simp
  then show ?thesis by (cases "rx_groups s p") auto
qed

subsection \<open>Codec, rate and channels\<close>

abbreviation digits_cls :: "(char \<times> char) list" where
  "digits_cls \<equiv> [(CHR ''0'', CHR ''9'')]"

abbreviation alnum_cls :: "(char \<times> char) list" where
  "alnum_cls \<equiv> [(CHR ''0'', CHR ''9''), (CHR ''A'', CHR ''Z''), (CHR ''a'', CHR ''z'')]"

definition run_ok :: "(char \<times> char) list \<Rightarrow> string \<Rightarrow> bool" where
  "run_ok rs w \<longleftrightarrow> w \<noteq> [] \<and> (\<forall>c \<in> set w. in_cls False rs c)"

lemma run_okD: "run_ok rs w \<Longrightarrow> w \<noteq> []" "run_ok rs w \<Longrightarrow> \<forall>c \<in> set w. in_cls False rs c"
  by (simp_all add: run_ok_def)

abbreviation chans_ok :: "char option \<Rightarrow> bool" where
  "chans_ok ch \<equiv> \<forall>c \<in> set_option ch. in_cls False digits_cls c"

definition chans_text :: "char option \<Rightarrow> string" where
  "chans_text ch = (case ch of None \<Rightarrow> [] | Some c \<Rightarrow> [CHR ''/'', c])"

definition chans_re :: re where
  "chans_re = Cat (Alt (Lit CHR ''/'') Eps) (Alt (Group 4 (Cls False digits_cls)) Eps)"

lemma yields_chans:
  assumes "chans_ok ch"
  shows "yields chans_re (chans_text ch) (\<lambda>off. case ch of None \<Rightarrow> [] | Some c \<Rightarrow> [(4, off + 1, off + 2)])"
proof (cases ch)
  case None
  then show ?thesis by (simp add: chans_re_def chans_text_def yields_def)
next
  case (Some c)
  then have c: "in_cls False digits_cls c" using assms by simp
  have "yields chans_re ([CHR ''/''] @ c # []) (\<lambda>off. [] @ [(4, off + length [CHR ''/''], off + length [CHR ''/''] + 1)])"
    unfolding chans_re_def by (rule yields_stop) (use c in \<open>auto simp: yields_def\<close>)
  then show ?thesis using Some by (simp add: chans_text_def)
qed

definition rtpmap_re :: re where
  "rtpmap_re = Cat (Group 1 (run True [])) (Cat Blanks (Cat (Group 2 (run False alnum_cls))
     (lit_cat ''/'' (Cat (Group 3 (run False digits_cls)) chans_re))))"

definition rtpmap_text :: "string \<Rightarrow> string \<Rightarrow> string \<Rightarrow> char option \<Rightarrow> string" where
  "rtpmap_text pt codec rate ch = pt @ CHR '' '' # codec @ CHR ''/'' # rate @ chans_text ch"

lemma yields_rtpmap:
  assumes "pt \<noteq> []" "run_ok alnum_cls codec" "run_ok digits_cls rate" "chans_ok ch"
  shows "yields rtpmap_re (rtpmap_text pt codec rate ch) (\<lambda>off.
    let n1 = off + length pt; n2 = n1 + 1 + length codec; n3 = n2 + 1 + length rate in
    (1, off, n1) # (2, n1 + 1, n2) # (3, n2 + 1, n3) # (case ch of None \<Rightarrow> [] | Some c \<Rightarrow> [(4, n3 + 1, n3 + 2)]))"
proof -
  have b: "\<not> in_cls False alnum_cls CHR '' ''" "\<not> in_cls False digits_cls CHR '' ''"
    "\<not> in_cls False alnum_cls CHR ''/''" "\<not> in_cls False digits_cls CHR ''/''"
    by (simp_all add: in_cls_def in_range_def)
  note runs = run_okD [OF assms(2)] run_okD [OF assms(3)]
  let ?chans = "\<lambda>off. case ch of None \<Rightarrow> [] | Some c \<Rightarrow> [(4 :: nat, off + 1, off + 2)]"
  have 1: "yields (Cat (Group 3 (run False digits_cls)) chans_re) (rate @ chans_text ch)
      (\<lambda>off. (3, off, off + length rate) # ?chans (off + length rate))"
  proof (cases ch)
    case None
    then show ?thesis
      using yields_last [OF yields_run [OF runs(3,4)] yields_chans [OF assms(4), unfolded None chans_text_def option.case], of 3]
      by (simp add: chans_text_def)
  next
    case (Some c)
    then show ?thesis
      using yields_run_stop [OF _ runs(3,4) b(4), of chans_re "[c]" _ 3] yields_chans [OF assms(4)]
      by (simp add: chans_text_def)
  qed
  have 2: "yields (Cat (Group 2 (run False alnum_cls)) (lit_cat ''/'' (Cat (Group 3 (run False digits_cls)) chans_re)))
      (codec @ CHR ''/'' # rate @ chans_text ch) (\<lambda>off. (2, off, off + length codec) #
        (3, off + length codec + 1, off + length codec + 1 + length rate) # ?chans (off + length codec + 1 + length rate))"
  proof (rule yields_cong [OF yields_run_stop [OF _ runs(1,2) b(3)]])
    show "yields (lit_cat ''/'' (Cat (Group 3 (run False digits_cls)) chans_re)) (CHR ''/'' # rate @ chans_text ch)
        (\<lambda>off. (3, off + 1, off + 1 + length rate) # ?chans (off + 1 + length rate))"
      by (rule yields_cong [OF yields_lit [OF 1, of "''/''", unfolded append.simps]]) (simp split: option.split)
  qed (simp split: option.split)
  have "CHR '' '' \<notin> set codec" "CHR '' '' \<notin> set rate" "CHR '' '' \<notin> set_option ch"
    using runs(2,4) assms(4) b by blast+
  then have n: "CHR '' '' \<notin> set (codec @ CHR ''/'' # rate @ chans_text ch)"
    by (auto simp: chans_text_def split: option.splits)
  show ?thesis
    unfolding rtpmap_re_def rtpmap_text_def Let_def
    using yields_blanks_word [OF 2 assms(1) _ n, of 1] by (simp add: ac_simps)
qed

lemma regcomp_rtpmap:
  "regcomp (cstr SDP_RTPMAP_PATTERN) =
     Some \<lparr>at_start = False, at_end = False, expr = lit_cat ''rtpmap:'' rtpmap_re\<rparr>"
  unfolding rtpmap_re_def chans_re_def by code_simp

lemma count_rtpmap: "count_list (cstr SDP_RTPMAP_PATTERN) CHR ''('' = 4"
  by code_simp

text \<open>The groups as the client gets them.\<close>

lemma group_text_part:
  assumes "m i = Some (length x, length x + length g)" "length g < 2048"
  shows "group_text (x @ g @ y) m i = Some g"
  using assms by (simp add: group_text_def Substr_def REGEX_BUF_SIZE_def Let_def)

lemma group_text_none: "m i = None \<Longrightarrow> group_text s m i = None"
  by (simp add: group_text_def Substr_def)

lemma rtpmap_groups:
  assumes ok: "pt \<noteq> []" "run_ok alnum_cls codec" "run_ok digits_cls rate" "chans_ok ch"
    and s: "CHR 0x00 \<notin> set (''rtpmap:'' @ rtpmap_text pt codec rate ch)"
      "length (''rtpmap:'' @ rtpmap_text pt codec rate ch) < 2048"
  shows "rx_groups (''rtpmap:'' @ rtpmap_text pt codec rate ch) SDP_RTPMAP_PATTERN =
    Some ((''rtpmap:'' @ rtpmap_text pt codec rate ch) # pt # codec # rate # (case ch of None \<Rightarrow> [] | Some c \<Rightarrow> [[c]]))"
proof -
  let ?s = "''rtpmap:'' @ rtpmap_text pt codec rate ch"
  let ?n1 = "7 + length pt" and ?n2 = "7 + length pt + 1 + length codec" and ?n3 = "7 + length pt + 1 + length codec + 1 + length rate"
  let ?caps = "(1 :: nat, 7, ?n1) # (2, ?n1 + 1, ?n2) # (3, ?n2 + 1, ?n3) #
    (case ch of None \<Rightarrow> [] | Some c \<Rightarrow> [(4, ?n3 + 1, ?n3 + 2)])"
  let ?m = "(map_of (rev ?caps)) (0 \<mapsto> (0, length ?s))"
  have e: "?s = ''rtpmap:'' @ pt @ CHR '' '' # codec @ CHR ''/'' # rate @ chans_text ch"
    by (simp add: rtpmap_text_def)
  have m: "?m 0 = Some (0, length ?s)" "?m 1 = Some (7, ?n1)" "?m 2 = Some (?n1 + 1, ?n2)" "?m 3 = Some (?n2 + 1, ?n3)"
    "?m 4 = map_option (\<lambda>c. (?n3 + 1, ?n3 + 2)) ch"
    by (cases ch; simp)+
  have "group_text ?s ?m 0 = Some ?s"
    using group_text_part [of ?m 0 "[]" ?s "[]"] m(1) s(2) by simp
  moreover have "group_text ?s ?m 1 = Some pt"
    using group_text_part [of ?m 1 "''rtpmap:''" pt "CHR '' '' # codec @ CHR ''/'' # rate @ chans_text ch"] m(2) s(2)
    unfolding e by simp
  moreover have "group_text ?s ?m 2 = Some codec"
    using group_text_part [of ?m 2 "''rtpmap:'' @ pt @ '' ''" codec "CHR ''/'' # rate @ chans_text ch"] m(3) s(2)
    unfolding e by simp
  moreover have "group_text ?s ?m 3 = Some rate"
    using group_text_part [of ?m 3 "''rtpmap:'' @ pt @ CHR '' '' # codec @ ''/''" rate "chans_text ch"] m(4) s(2)
    unfolding e by simp
  moreover have "group_text ?s ?m 4 = map_option (\<lambda>c. [c]) ch"
  proof (cases ch)
    case None
    then show ?thesis using m(5) group_text_none [of ?m 4] by simp
  next
    case (Some c)
    then show ?thesis
      using group_text_part [of ?m 4 "''rtpmap:'' @ pt @ CHR '' '' # codec @ CHR ''/'' # rate @ ''/''" "[c]" "[]"] m(5)
      unfolding e by (simp add: chans_text_def)
  qed
  moreover have "[0..<Suc 4] = [0, 1, 2, 3, 4 :: nat]" by (simp add: upt_rec)
  ultimately show ?thesis
    using rx_groups_yields [OF regcomp_rtpmap yields_rtpmap [OF ok] s(1), of 7] unfolding count_rtpmap Let_def
    by (cases ch) (simp_all add: List.map_filter_simps)
qed

subsection \<open>The control attribute\<close>

lemma regcomp_control:
  "regcomp (cstr SDP_CONTROL_PATTERN) =
     Some \<lparr>at_start = False, at_end = False, expr = lit_cat ''control:'' (Group 1 (run True []))\<rparr>"
  by code_simp

lemma count_control: "count_list (cstr SDP_CONTROL_PATTERN) CHR ''('' = 1"
  by code_simp

lemma control_groups:
  assumes "u \<noteq> []" "CHR 0x00 \<notin> set u" "length u < 2040"
  shows "rx_groups (''control:'' @ u) SDP_CONTROL_PATTERN = Some [''control:'' @ u, u]"
proof -
  let ?s = "''control:'' @ u" and ?m = "(map_of (rev [(1, 8, 8 + length u)])) (0 \<mapsto> (0, length (''control:'' @ u)))"
  have y: "yields (Group 1 (run True [])) u (\<lambda>off. [(1, off, off + length u)])"
    by (rule yields_run) (use assms(1) in \<open>simp_all add: in_cls_def\<close>)
  have "group_text ?s ?m 0 = Some ?s" "group_text ?s ?m 1 = Some u"
    using group_text_part [of ?m 0 "[]" ?s "[]"] group_text_part [of ?m 1 "''control:''" u "[]"] assms(3) by simp_all
  moreover have "[0..<Suc 1] = [0, 1 :: nat]" by (simp add: upt_rec)
  moreover have "rx_groups ?s SDP_CONTROL_PATTERN = Some (List.map_filter (group_text ?s ?m) [0..<Suc 1])"
    using rx_groups_yields [OF regcomp_control y, of 8] assms(2) unfolding count_control by simp
  ultimately show ?thesis by (simp add: List.map_filter_simps del: upt_Suc)
qed

end
