(* ===== verification/Rtsp_Setup.thy ===== *)
theory Rtsp_Setup
  imports Rtsp_Ports Sdp_Attributes
begin

section \<open>SETUP\<close>

text \<open>
  SETUP over the direct connection, with RTP over UDP or interleaved: the ports, the request, and what is
  read out of the response. \<open>announces\<close> says which timeout a response gives; without one the client stores \<open>-1\<close>.
\<close>

subsection \<open>A pattern inside a text\<close>

lemma rx_groups_at:
  assumes p: "regcomp (cstr p) = Some \<lparr>at_start = False, at_end = False, expr = lit_cat l r\<rparr>"
    and y: "yields r w f" and nul: "CHR 0x00 \<notin> set (pre @ l @ w @ post)"
    and first: "find_sub l (pre @ l) = Some (length pre)"
    and longest: "\<And>k. length w < k \<Longrightarrow> k \<le> length (w @ post) \<Longrightarrow> take k (w @ post) \<notin> lang r"
  shows "rx_groups (pre @ l @ w @ post) p = Some (List.map_filter (group_text (pre @ l @ w @ post)
    ((map_of (rev (f (length pre + length l)))) (0 \<mapsto> (length pre, length pre + length l + length w))))
      [0..<Suc (count_list (cstr p) CHR ''('')])"
proof -
  let ?s = "pre @ l @ w @ post" and ?r = "lit_cat l r" and ?n = "length l + length w"
  have cs: "cstr ?s = ?s" by (rule cstr_id [OF nul])
  have w: "w \<in> lang r" "captures r off w = f off" for off using y unfolding yields_def by blast+
  have "longest ?r (l @ w @ post) = Some ?n"
  proof (rule longest_eq)
    show "take ?n (l @ w @ post) \<in> lang ?r" using w(1) by (auto simp: lang_lit_cat)
    fix k assume k: "?n < k" "k \<le> length (l @ w @ post)"
    have "take k (l @ w @ post) = l @ take (k - length l) (w @ post)" using k by simp
    moreover have "take (k - length l) (w @ post) \<notin> lang r" by (rule longest) (use k in auto)
    ultimately show "take k (l @ w @ post) \<notin> lang ?r" by (simp add: lang_lit_cat)
  qed simp
  then have "search False False ?r (pre @ (l @ w @ post)) 0 = Some (0 + length pre, 0 + length pre + ?n)"
  proof (rule search_at_offset)
    fix x z k assume z: "pre = x @ z" "z \<noteq> []"
    show "take k (z @ l @ w @ post) \<notin> lang ?r"
    proof
      assume "take k (z @ l @ w @ post) \<in> lang ?r"
      then obtain u where "take k (z @ l @ w @ post) = l @ u" by (auto simp: lang_lit_cat)
      then have "take (length l) (z @ l @ w @ post) = l"
        by (metis append_eq_conv_conj append_take_drop_id append_assoc)
      then have "take (length l) (z @ l) = l" by simp
      then obtain y where y: "z @ l = l @ y" by (metis append_take_drop_id)
      then have "pre @ l = x @ l @ y" using z(1) by simp
      then have "y = []" by (rule find_sub_first [OF first])
      then show False using arg_cong [OF y, of length] z(2) by simp
    qed
  qed
  then have s: "search False False ?r ?s 0 = Some (length pre, length pre + length l + length w)" by (simp add: add.assoc)
  have c: "captures ?r (length pre) (take (length pre + length l + length w - length pre) (drop (length pre) ?s)) =
      f (length pre + length l)"
    using captures_lit_cat [OF w(1), of l "length pre"] w(2) by simp
  have m: "regexec \<lparr>at_start = False, at_end = False, expr = ?r\<rparr> ?s =
      Some ((map_of (rev (f (length pre + length l)))) (0 \<mapsto> (length pre, length pre + length l + length w)))"
    unfolding regexec_def by (simp only: compiled.simps s option.case prod.case c)
  show ?thesis unfolding rx_groups_Some cs by (intro exI conjI) (rule p, rule m, rule refl)
qed

subsection \<open>The timeout\<close>

definition seconds_re :: re where
  "seconds_re = Group 1 (Cat (Cls False [(CHR ''1'', CHR ''9'')]) (Star (Cls False [(CHR ''0'', CHR ''9'')])))"

definition timeout_re :: re where
  "timeout_re = Cat (Star Dot) (lit_cat ''timeout='' seconds_re)"

lemma regcomp_timeout:
  "regcomp (cstr TIMEOUT_PATTERN) = Some \<lparr>at_start = False, at_end = False, expr = lit_cat ''Session:'' timeout_re\<rparr>"
  unfolding timeout_re_def seconds_re_def by code_simp

lemma count_timeout: "count_list (cstr TIMEOUT_PATTERN) CHR ''('' = 1"
  by code_simp

lemma lang_seconds:
  "v \<in> lang seconds_re \<longleftrightarrow> v \<noteq> [] \<and> in_cls False [(CHR ''1'', CHR ''9'')] (hd v) \<and> (\<forall>c \<in> set (tl v). is_digit c)"
proof
  assume "v \<in> lang seconds_re"
  then show "v \<noteq> [] \<and> in_cls False [(CHR ''1'', CHR ''9'')] (hd v) \<and> (\<forall>c \<in> set (tl v). is_digit c)"
    unfolding seconds_re_def by (auto simp: star_cls)
next
  assume v: "v \<noteq> [] \<and> in_cls False [(CHR ''1'', CHR ''9'')] (hd v) \<and> (\<forall>c \<in> set (tl v). is_digit c)"
  have "[hd v] @ tl v \<in> lang (Cat (Cls False [(CHR ''1'', CHR ''9'')]) (Star (Cls False [(CHR ''0'', CHR ''9'')])))"
    by (rule lang_CatI) (use v in \<open>simp_all add: star_cls\<close>)
  then show "v \<in> lang seconds_re" unfolding seconds_re_def using v by (simp del: lang.simps(4))
qed

lemma seconds_digits: "v \<in> lang seconds_re \<Longrightarrow> c \<in> set v \<Longrightarrow> is_digit c"
  unfolding lang_seconds by (cases v) (auto simp: in_cls_def in_range_def is_digit_def)

lemma show_nat_lead: "0 < n \<Longrightarrow> in_cls False [(CHR ''1'', CHR ''9'')] (hd (show_nat n))"
proof (induction n rule: show_nat.induct)
  case (1 n)
  show ?case
  proof (cases "n < 10")
    case True
    then show ?thesis using 1(2) of_char_digit [of n]
      by (subst show_nat.simps) (simp add: in_cls_def in_range_def)
  next
    case False
    then show ?thesis using 1(1) by (subst show_nat.simps) (simp add: hd_append)
  qed
qed

lemma show_nat_seconds: "0 < n \<Longrightarrow> show_nat n \<in> lang seconds_re"
  unfolding lang_seconds using show_nat_lead [of n] show_nat_digits [of _ n] by (cases "show_nat n") auto

text \<open>The text behind the last \<open>timeout=\<close>.\<close>

lemma yields_seconds: "v \<in> lang seconds_re \<Longrightarrow> yields seconds_re v (\<lambda>off. [(1, off, off + length v)])"
proof -
  let ?r = "Cat (Cls False [(CHR ''1'', CHR ''9'')]) (Star (Cls False [(CHR ''0'', CHR ''9'')]))"
  have "captures ?r off v = []" for off by (rule captures_group_free) simp
  moreover assume "v \<in> lang seconds_re"
  ultimately show ?thesis unfolding yields_def seconds_re_def by (simp only: captures.simps) simp
qed

lemma timeout_longest:
  assumes v: "v \<in> lang seconds_re" and post: "post = [] \<or> \<not> is_digit (hd post)"
    and final: "\<And>x z. ''timeout='' @ v @ post = x @ ''timeout='' @ z \<Longrightarrow> x = []"
    and k: "length (mid @ ''timeout='' @ v) < k" "k \<le> length ((mid @ ''timeout='' @ v) @ post)"
  shows "take k ((mid @ ''timeout='' @ v) @ post) \<notin> lang timeout_re"
proof
  let ?t = "''timeout=''"
  define l where "l = k - length (mid @ ?t @ v)"
  have l: "0 < l" "l \<le> length post" using k by (simp_all add: l_def)
  assume "take k ((mid @ ?t @ v) @ post) \<in> lang timeout_re"
  moreover have "length w < k \<Longrightarrow> take k (w @ post) = w @ take (k - length w) post" for w by simp
  then have "take k ((mid @ ?t @ v) @ post) = (mid @ ?t @ v) @ take l post" unfolding l_def using k(1) .
  ultimately obtain u w where uw: "mid @ ?t @ v @ take l post = u @ ?t @ w" "w \<in> lang seconds_re"
    unfolding timeout_re_def lang_lit_cat lang.simps(4) by auto
  have full: "mid @ ?t @ v @ post = u @ ?t @ w @ drop l post"
    using arg_cong [OF uw(1), of "\<lambda>s. s @ drop l post"] by simp
  have "length mid = length u"
  proof (rule ccontr)
    assume "length mid \<noteq> length u"
    then consider (before) "length u < length mid" | (after) "length mid < length u" by linarith
    then show False
    proof cases
      case before
      have "CHR ''='' = (mid @ ?t @ v @ take l post) ! (length mid + 7)" by (simp add: nth_append)
      also have "\<dots> = (u @ ?t @ w) ! (length mid + 7)" using uw(1) by simp
      also have "\<dots> = w ! (length mid + 7 - (length u + 8))" using before by (simp add: nth_append)
      finally have e: "CHR ''='' = w ! (length mid + 7 - (length u + 8))" .
      have "length mid + 8 \<le> length (u @ ?t @ w)" unfolding uw(1) [symmetric] by simp
      then have "length mid + 7 - (length u + 8) < length w" using before by simp
      then have "CHR ''='' \<in> set w" unfolding e by (rule nth_mem)
      then show False using seconds_digits [OF uw(2)] by (fastforce simp: is_digit_def)
    next
      case after
      have "?t @ v @ post = drop (length mid) u @ ?t @ w @ drop l post"
        using arg_cong [OF full, of "drop (length mid)"] after by simp
      then have "drop (length mid) u = []" using final [of "drop (length mid) u" "w @ drop l post"] by simp
      then show False using after by simp
    qed
  qed
  then have "w = v @ take l post" using uw(1) by (simp add: append_eq_append_conv)
  then have "hd post \<in> set w" using l by (cases post; cases l) auto
  then show False using seconds_digits [OF uw(2)] post l by auto
qed

definition announces :: "string \<Rightarrow> int \<Rightarrow> bool" where
  "announces s t \<longleftrightarrow> CHR 0x00 \<notin> set s \<and> (\<not> occurs_in ''timeout='' s \<and> t = - 1 \<or>
     (\<exists>pre mid n post. s = pre @ ''Session:'' @ (mid @ ''timeout='' @ show_nat n) @ post \<and> t = int n \<and> 0 < n \<and> n < 2 ^ 31 \<and>
        find_sub ''Session:'' (pre @ ''Session:'') = Some (length pre) \<and>
        (\<forall>x z. ''timeout='' @ show_nat n @ post = x @ ''timeout='' @ z \<longrightarrow> x = []) \<and>
        (post = [] \<or> \<not> is_digit (hd post)) \<and> length (''Session:'' @ mid @ ''timeout='' @ show_nat n) < 2048))"

lemma timeout_groups:
  assumes "CHR 0x00 \<notin> set (pre @ ''Session:'' @ (mid @ ''timeout='' @ show_nat n) @ post)" "0 < n"
    and "find_sub ''Session:'' (pre @ ''Session:'') = Some (length pre)" "post = [] \<or> \<not> is_digit (hd post)"
    and final: "\<And>x z. ''timeout='' @ show_nat n @ post = x @ ''timeout='' @ z \<Longrightarrow> x = []"
    and len: "length (''Session:'' @ mid @ ''timeout='' @ show_nat n) < 2048"
  shows "rx_groups (pre @ ''Session:'' @ (mid @ ''timeout='' @ show_nat n) @ post) TIMEOUT_PATTERN =
    Some [''Session:'' @ mid @ ''timeout='' @ show_nat n, show_nat n]"
proof -
  let ?t = "''timeout=''" and ?v = "show_nat n"
  let ?w = "mid @ ?t @ ?v"
  let ?s = "pre @ ''Session:'' @ ?w @ post"
  have v: "?v \<in> lang seconds_re" using show_nat_seconds assms(2) by blast
  have y1: "yields (lit_cat ?t seconds_re) (?t @ ?v) (\<lambda>off. [(1, off + 8, off + 8 + length ?v)])"
    by (rule yields_cong [OF yields_lit [OF yields_seconds [OF v]]]) simp
  have y: "yields timeout_re ?w (\<lambda>off. [(1, off + length mid + 8, off + length mid + 8 + length ?v)])"
    unfolding timeout_re_def
  proof (rule yields_dots [OF y1])
    fix x z assume "?t @ ?v = x @ ?t @ z"
    then show "x = []" using final [of x "z @ post"] by simp
  qed
  let ?a = "length pre + 8 + length mid + 8"
  let ?m = "(map_of (rev [(1, ?a, ?a + length ?v)])) (0 \<mapsto> (length pre, length pre + 8 + length ?w))"
  have "group_text ?s ?m 0 = Some (''Session:'' @ ?w)"
    using group_text_part [of ?m 0 pre "''Session:'' @ ?w" post] len by simp
  moreover have "group_text ?s ?m 1 = Some ?v"
    using group_text_part [of ?m 1 "pre @ ''Session:'' @ mid @ ?t" ?v post] len by simp
  moreover have "rx_groups ?s TIMEOUT_PATTERN = Some (List.map_filter (group_text ?s ?m) [0..<Suc 1])"
  proof -
    have L: "take k (?w @ post) \<notin> lang timeout_re" if "length ?w < k" "k \<le> length (?w @ post)" for k
      by (rule timeout_longest [OF v assms(4) final that])
    have eight: "length ''Session:'' = 8" by simp
    show ?thesis using rx_groups_at [OF regcomp_timeout y assms(1,3) L, unfolded count_timeout eight] .
  qed
  moreover have "[0..<Suc 1] = [0, 1 :: nat]" by (simp add: upt_rec)
  ultimately show ?thesis by (simp add: List.map_filter_simps del: upt_Suc)
qed

lemma timeout_none:
  assumes "CHR 0x00 \<notin> set s" "\<not> occurs_in ''timeout='' s"
  shows "rx_groups s TIMEOUT_PATTERN = None"
proof -
  have "y \<notin> lang (lit_cat ''Session:'' timeout_re)" if "s = x @ y @ z" for x y z
  proof
    assume "y \<in> lang (lit_cat ''Session:'' timeout_re)"
    then obtain u v where "y = ''Session:'' @ u @ ''timeout='' @ v"
      unfolding timeout_re_def lang_lit_cat lang.simps(4) by auto
    then have "s = (x @ ''Session:'' @ u) @ ''timeout='' @ (v @ z)" using that by simp
    then show False using assms(2) unfolding occurs_in_iff by blast
  qed
  then have "search False False (lit_cat ''Session:'' timeout_re) s 0 = None" unfolding search_None by blast
  then have "rx_groups s TIMEOUT_PATTERN \<noteq> Some gs" for gs
    unfolding rx_groups_Some cstr_id [OF assms(1)] regcomp_timeout regexec_def by simp
  then show ?thesis by (cases "rx_groups s TIMEOUT_PATTERN") auto
qed

lemma ParseTimeout_announced:
  assumes "announces s t" "s \<noteq> []"
  shows "ParseTimeout s c = Inr t"
proof (cases "occurs_in ''timeout='' s")
  case True
  then obtain pre mid n post where s: "s = pre @ ''Session:'' @ (mid @ ''timeout='' @ show_nat n) @ post" "t = int n" "0 < n"
      "n < 2 ^ 31" "find_sub ''Session:'' (pre @ ''Session:'') = Some (length pre)"
      "\<forall>x z. ''timeout='' @ show_nat n @ post = x @ ''timeout='' @ z \<longrightarrow> x = []"
      "post = [] \<or> \<not> is_digit (hd post)" "length (''Session:'' @ mid @ ''timeout='' @ show_nat n) < 2048" "CHR 0x00 \<notin> set s"
    using assms(1) unfolding announces_def by blast
  have "rx_groups s TIMEOUT_PATTERN = Some [''Session:'' @ mid @ ''timeout='' @ show_nat n, show_nat n]"
    unfolding s(1) by (rule timeout_groups) (use s in auto)
  then show ?thesis using assms(2) s(2,4) by (simp add: ParseTimeout_def response_of_def group1_def atoi_show_nat)
next
  case False
  have no: "s \<noteq> pre @ ''Session:'' @ (mid @ ''timeout='' @ v) @ post" for pre mid v post
    using False unfolding occurs_in_iff by (metis append_assoc)
  have "t = - 1" "CHR 0x00 \<notin> set s" using assms(1) no unfolding announces_def by blast+
  then show ?thesis using timeout_none [OF _ False] assms(2) by (simp add: ParseTimeout_def response_of_def)
qed

subsection \<open>The exchange\<close>

text \<open>The callbacks are set after the RTP session; they change nothing else of a session.\<close>

definition same_session :: "rtp_session \<Rightarrow> rtp_session \<Rightarrow> bool" where
  "same_session s s' \<longleftrightarrow> (\<exists>x. s' = s\<lparr>DestroiedClbk := x\<rparr>)"

definition up_to_callback :: "media_session \<Rightarrow> media_session \<Rightarrow> bool" where
  "up_to_callback ms ms' \<longleftrightarrow> (\<exists>f. ms' = map_session f ms \<and> (\<forall>s. same_session s (f s)))"

lemma same_session_refl: "same_session s s"
  unfolding same_session_def by (intro exI [of _ "DestroiedClbk s"]) simp

lemma up_to_callback_refl [simp]: "up_to_callback ms ms"
  unfolding up_to_callback_def
  by (intro exI [of _ id]) (simp add: map_session_def option.map_id same_session_refl)

lemma up_to_callback_step: "up_to_callback ms ms' \<Longrightarrow> up_to_callback ms (SetRtpDestroiedClbk clbk ms')"
proof -
  assume "up_to_callback ms ms'"
  then obtain f where f: "ms' = map_session f ms" "\<forall>s. same_session s (f s)" unfolding up_to_callback_def by blast
  let ?g = "session_SetDestroiedClbk clbk \<circ> f"
  have "same_session s (?g s)" for s
  proof -
    obtain x where "f s = s\<lparr>DestroiedClbk := x\<rparr>" using f(2) unfolding same_session_def by blast
    then show ?thesis unfolding same_session_def by (intro exI [of _ "Some clbk"]) (simp add: session_SetDestroiedClbk_def)
  qed
  moreover have "SetRtpDestroiedClbk clbk ms' = map_session ?g ms"
    by (simp add: f(1) SetRtpDestroiedClbk_def map_session_def option.map_comp)
  ultimately show ?thesis unfolding up_to_callback_def by blast
qed

lemma SetDestroiedClbk_type_result:
  "\<exists>c'. SetDestroiedClbk_type t clbk c = Inr c' \<and> socks c' = socks c \<and>
     (\<forall>k ms ms0. session_at k c = Inr ms \<and> up_to_callback ms0 ms \<longrightarrow> (\<exists>ms'. session_at k c' = Inr ms' \<and> up_to_callback ms0 ms'))"
proof (cases "find_type t c")
  case None
  then show ?thesis by (auto simp: SetDestroiedClbk_type_def)
next
  case (Some k)
  then obtain v where "(k, v) \<in> set (MediaSessionMap c)"
    unfolding find_type_def using smap_first_Some by fastforce
  then have "smap_find (MediaSessionMap c) k \<noteq> None"
    unfolding smap_find_None smap_keys_def by (simp add: rev_image_eqI)
  then obtain ms where ms: "session_at k c = Inr ms" by (auto simp: session_at_def)
  have "SetDestroiedClbk_type t clbk c = Inr (put_session k (SetRtpDestroiedClbk clbk ms) c)"
    using Some ms by (simp add: SetDestroiedClbk_type_def on_session_at_def)
  moreover have "session_at k' (put_session k (SetRtpDestroiedClbk clbk ms) c) =
      (if k' = k then Inr (SetRtpDestroiedClbk clbk ms) else session_at k' c)" for k'
    by (simp add: session_at_def put_session_def smap_find_set)
  ultimately show ?thesis
    using ms up_to_callback_step by (intro exI [of _ "put_session k (SetRtpDestroiedClbk clbk ms) c"])
      (auto simp: put_session_def split: if_splits)
qed

definition env_ok :: "create_env \<Rightarrow> bool" where
  "env_ok env \<longleftrightarrow> (using_poll_thread env \<longrightarrow> need_thread_safety env) \<and> 600 \<le> max_packet_size env \<and>
     0 \<le> init_status env \<and> 0 \<le> trans_status env \<and> 0 \<le> create_status env"

definition rtp_over :: "bool \<Rightarrow> int \<Rightarrow> rtp_session \<Rightarrow> bool" where
  "rtp_over tcp fd s \<longleftrightarrow> created s \<and> (if tcp then session_kind s = TCP_Session \<and> TunnellingSock s = fd
     else session_kind s = UDP_Session)"

lemma MyTcpCreate_ok: "env_ok env \<Longrightarrow> \<not> created s \<Longrightarrow> MyTcpCreate env s = (create_status env, s\<lparr>created := True\<rparr>)"
  unfolding env_ok_def MyTcpCreate_def by auto

lemma tcp_SetUp_ok:
  assumes "env_ok env" "rate \<noteq> 0" "\<not> created s" "session_kind s = TCP_Session"
  shows "rtp_over True sock (snd (tcp_SetUp env rate sock s))"
  unfolding tcp_SetUp_def MyTcpCreate_ok [OF assms(1,3)] using assms(2,4) by (simp add: rtp_over_def AddDestination_def)

lemma udp_SetUp_ok:
  assumes "env_ok env" "rate \<noteq> 0" "port \<noteq> 0" "session_kind s = UDP_Session"
  shows "rtp_over False sock (snd (udp_SetUp env rate port s))"
  using assms by (simp add: rtp_over_def udp_SetUp_def env_ok_def)

lemma RTP_SetUp_made:
  assumes "env_ok env" "TimeRate ms \<noteq> 0" "RTPPort ms \<noteq> 0" "RTPInterface ms = None" "tcp \<longleftrightarrow> 0 < sock"
  shows "\<exists>s. snd (RTP_SetUp env sock ms) = ms\<lparr>RTPInterface := Some s\<rparr> \<and> rtp_over tcp sock s"
proof (cases tcp)
  case True
  let ?s = "snd (tcp_SetUp env (TimeRate ms) sock (new_tcp_session (new_trylocks env) (new_polls env)))"
  have "snd (RTP_SetUp env sock ms) = ms\<lparr>RTPInterface := Some ?s\<rparr>"
    unfolding RTP_SetUp_def using assms(2-5) True by (simp add: case_prod_unfold)
  moreover have "rtp_over tcp sock ?s"
    using tcp_SetUp_ok [OF assms(1,2)] True by (simp add: new_tcp_session_def)
  ultimately show ?thesis by blast
next
  case False
  let ?s = "snd (udp_SetUp env (TimeRate ms) (RTPPort ms) (new_udp_session (new_polls env)))"
  have "snd (RTP_SetUp env sock ms) = ms\<lparr>RTPInterface := Some ?s\<rparr>"
    unfolding RTP_SetUp_def using assms(2-5) False by (simp add: case_prod_unfold)
  moreover have "rtp_over tcp sock ?s"
    using udp_SetUp_ok [OF assms(1,2,3)] False by (simp add: new_udp_session_def)
  ultimately show ?thesis by blast
qed

lemma finish_setup_result:
  assumes "session_at k c = Inr ms" "TimeRate ms \<noteq> 0" "RTPPort ms \<noteq> 0" "RTPInterface ms = None"
    and "field_in (RtspResponse c) ''Session:'' session_char sid" "announces (RtspResponse c) t"
    and "env_ok (fst (next_env c))" "0 < fd" "tcp \<or> RtspOverHttpDataSockfd c \<le> 0"
  shows "\<exists>c' ms' s. finish_setup k fd tcp c = Inr (RTSP_NO_ERROR, c') \<and> socks c' = socks c \<and> session_at k c' = Inr ms' \<and>
    up_to_callback (ms\<lparr>SessionID := sid, Timeout := Some t, RTPInterface := Some s\<rparr>) ms' \<and> rtp_over tcp fd s"
proof -
  have r: "RtspResponse c \<noteq> []" using assms(5) by (auto simp: field_in_def)
  have put: "session_at k (put_session k m x) = Inr m" "RtspResponse (put_session k m x) = RtspResponse x"
    "next_env (put_session k m x) = (fst (next_env x), put_session k m (snd (next_env x)))"
    "RtspOverHttpDataSockfd (put_session k m x) = RtspOverHttpDataSockfd x" "socks (put_session k m x) = socks x" for m x
    by (simp_all add: session_at_def put_session_def smap_find_set next_env_def split: list.split)
  have pid: "ParseSessionID (RtspResponse c) x = Inr sid" "ParseTimeout (RtspResponse c) x = Inr t" for x
    using ParseSessionID_field [OF assms(5)] ParseTimeout_announced [OF assms(6) r] by blast+
  obtain env e where env: "next_env c = (env, e)" by fastforce
  have e: "RtspOverHttpDataSockfd e = RtspOverHttpDataSockfd c" "socks e = socks c"
    using env by (auto simp: next_env_def split: list.splits)
  define sock where "sock = (if tcp then fd else RtspOverHttpDataSockfd c)"
  let ?ms = "ms\<lparr>SessionID := sid, Timeout := Some t\<rparr>"
  obtain s where s: "snd (RTP_SetUp env sock ?ms) = ?ms\<lparr>RTPInterface := Some s\<rparr>" "rtp_over tcp sock s"
    using RTP_SetUp_made [of env ?ms tcp sock] assms(2-4,7-9) env by (cases tcp) (auto simp: sock_def)
  have sfd: "rtp_over tcp fd s" using s(2) by (simp add: rtp_over_def sock_def split: if_splits)
  let ?c5 = "put_session k (?ms\<lparr>RTPInterface := Some s\<rparr>) e"
  obtain c6 where c6: "SetDestroiedClbk_type ''audio'' (ByeFromServerAudioClbk ?c5) ?c5 = Inr c6" "socks c6 = socks c"
      "\<exists>ms'. session_at k c6 = Inr ms' \<and> up_to_callback (?ms\<lparr>RTPInterface := Some s\<rparr>) ms'"
    using SetDestroiedClbk_type_result [of "''audio''" "ByeFromServerAudioClbk ?c5" ?c5] put e(2)
    by (metis up_to_callback_refl)
  obtain c7 where c7: "SetDestroiedClbk_type ''video'' (ByeFromServerVideoClbk c6) c6 = Inr c7" "socks c7 = socks c"
      "\<exists>ms'. session_at k c7 = Inr ms' \<and> up_to_callback (?ms\<lparr>RTPInterface := Some s\<rparr>) ms'"
    using SetDestroiedClbk_type_result [of "''video''" "ByeFromServerVideoClbk c6" c6] c6(2,3) by metis
  have "finish_setup k fd tcp c = Inr (RTSP_NO_ERROR, c7)"
    using assms(1) c6(1) c7(1) s(1)
    by (cases tcp) (simp_all add: finish_setup_def on_session_at_def pid put env e sock_def Let_def)
  then show ?thesis using c7(2,3) sfd by auto
qed

definition transport_text :: "bool \<Rightarrow> string \<Rightarrow> u16 \<Rightarrow> string" where
  "transport_text tcp prot p =
     (if tcp then ''Transport: '' @ prot @ ''/TCP;interleaved=0-1''
      else ''Transport: '' @ prot @ ''/UDP;unicast;client_port='' @ show_nat (unat p) @ ''-'' @ show_nat (unat (p + 1)))"

lemma fst_next_env: "create_envs c' = create_envs c \<Longrightarrow> fst (next_env c') = fst (next_env c)"
  by (simp add: next_env_def split: list.split)

lemma session_at_cong: "MediaSessionMap c' = MediaSessionMap c \<Longrightarrow> session_at k c' = session_at k c"
  by (simp add: session_at_def)

lemma DoSETUP_direct:
  assumes "0 < RtspSockfd c" "socks c (RtspSockfd c) = Some w" "tx_fine (tx w)" "RtspOverHttpDataPort c = 0"
    and "Realm c = []" "session_at k c = Inr ms" "TimeRate ms \<noteq> 0" "RTPInterface ms = None"
    and "udp_socks c = []" "first_pair (port_free c) 10330 = Some q" "q \<noteq> 0"
    and "rx_stream (rx w) = h @ s" "reply h code" "accepted code"
    and "field_in (string_of h) ''Session:'' session_char sid" "announces (string_of h) t"
    and "env_ok (fst (next_env c))" "tcp \<or> RtspOverHttpDataSockfd c \<le> 0"
  shows "\<exists>c' w' ms' r. DoSETUP (Some k) tcp False c = Inr (RTSP_NO_ERROR, c') \<and>
    socks c' = (socks c)(RtspSockfd c \<mapsto> w') \<and> rx_stream (rx w') = s \<and>
    sent w' = sent w @ bytes_of (''SETUP '' @ ControlURI ms @ '' RTSP/1.0'' @ crlf @
      transport_text tcp (Protocol ms) q @ crlf @ ''CSeq: '' @ show_nat (unat (RtspCSeq c + 1)) @ crlf @ crlf) \<and>
    session_at k c' = Inr ms' \<and> rtp_over tcp (RtspSockfd c) r \<and>
    up_to_callback (ms\<lparr>RTPPort := q, RTCPPort := q + 1, SessionID := sid, Timeout := Some t, RTPInterface := Some r\<rparr>) ms'"
proof -
  let ?fd = "RtspSockfd c" and ?ms = "ms\<lparr>RTPPort := q, RTCPPort := q + 1\<rparr>"
  define c2 where "c2 = put_session k ?ms c"
  define c3 where "c3 = c2\<lparr>RtspCSeq := RtspCSeq c + 1\<rparr>"
  define msg where "msg = (request_line ''SETUP'' (ControlURI ms) @ transport_line tcp ?ms c2 @ cseq_line c3) @ [] @ crlf"
  have c2: "RtspSockfd c2 = ?fd" "socks c2 = socks c" "RtspOverHttpDataPort c2 = 0" "Realm c2 = []" "RtspCSeq c2 = RtspCSeq c"
    "session_at k c2 = Inr ?ms" "RtspOverHttpDataSockfd c2 = RtspOverHttpDataSockfd c"
    using assms(4,5) by (simp_all add: c2_def put_session_def session_at_def smap_find_set)
  have env2: "fst (next_env c2) = fst (next_env c)"
    by (rule fst_next_env) (simp add: c2_def put_session_def)
  have c3: "socks c3 = socks c" "RtspOverHttpDataPort c3 = 0" "Realm c3 = []" "session_at k c3 = session_at k c2"
    "RtspOverHttpDataSockfd c3 = RtspOverHttpDataSockfd c" "next_cseq c2 = c3"
    using c2(2-5,7) by (simp_all add: c3_def next_cseq_def session_at_def)
  have env3: "fst (next_env c3) = fst (next_env c2)"
    by (rule fst_next_env) (simp add: c3_def)
  have port: "SetAvailableRTPPort k 0 c = Inr (1, c2)"
    using SetAvailableRTPPort_pair [OF assms(6,9), of 0] assms(10) by (simp add: c2_def)
  obtain w1 where 1: "exchange ?fd ''SETUP'' (RtspURI c3) msg False c3 =
        Inr (None, c3\<lparr>socks := (socks c3)(?fd \<mapsto> w1), RtspResponse := string_of h\<rparr>)"
      "sent w1 = sent w @ bytes_of msg" "rx_stream (rx w1) = s"
    using exchange_direct [of c3 ?fd w h s code "''SETUP''" "RtspURI c3" msg] assms(2,3,12-14) c3 by auto
  define c4 where "c4 = c3\<lparr>socks := (socks c3)(?fd \<mapsto> w1), RtspResponse := string_of h\<rparr>"
  have c4: "session_at k c4 = session_at k c3" "RtspResponse c4 = string_of h"
    "RtspOverHttpDataSockfd c4 = RtspOverHttpDataSockfd c" "socks c4 = (socks c)(?fd \<mapsto> w1)"
    using c3(1,5) by (simp_all add: c4_def session_at_def)
  have env4: "fst (next_env c4) = fst (next_env c3)"
    by (rule fst_next_env) (simp add: c4_def)
  have at4: "session_at k c4 = Inr ?ms" using c4(1) c3(4) c2(6) by simp
  obtain c' ms' r where f: "finish_setup k ?fd tcp c4 = Inr (RTSP_NO_ERROR, c')" "socks c' = socks c4" "session_at k c' = Inr ms'"
      "up_to_callback (?ms\<lparr>SessionID := sid, Timeout := Some t, RTPInterface := Some r\<rparr>) ms'" "rtp_over tcp ?fd r"
    using finish_setup_result [of k c4 ?ms sid t ?fd tcp] at4 c4(2,3) env2 env3 env4 assms(1,7,8,11,15-18) by auto
  have cs: "CreateTcpSockfd [] c = Inr (?fd, c)" using assms(1) by (simp add: CreateTcpSockfd_def)
  have au: "auth_header ''SETUP'' (ControlURI ms) c3 = Inr (Some [])" using c3(3) by (simp add: auth_header_def)
  have "DoSETUP (Some k) tcp False c = Inr (RTSP_NO_ERROR, c')"
    unfolding DoSETUP_def option.case cs ub_bind_Inr prod.case port c2(6) c3(6) Let_def
    using assms(1) 1(1) [folded c4_def] f(1) au by (simp add: msg_def)
  moreover have "transport_line tcp ?ms c2 = transport_text tcp (Protocol ms) q @ crlf"
    using c2(3) by (simp add: transport_line_def transport_text_def)
  then have "msg = ''SETUP '' @ ControlURI ms @ '' RTSP/1.0'' @ crlf @
      transport_text tcp (Protocol ms) q @ crlf @ ''CSeq: '' @ show_nat (unat (RtspCSeq c + 1)) @ crlf @ crlf"
    by (simp add: msg_def c3_def request_line_def cseq_line_def VERSION_RTSP_def)
  ultimately show ?thesis using 1(2,3) f(2-5) c4(4) by auto
qed

subsection \<open>A sample\<close>

definition setup_lines :: "string list" where
  "setup_lines = [''RTSP/1.0 200 OK'', ''Session: 12345;timeout=30'']"

lemma setup_text: "string_of (text_header setup_lines) = ''RTSP/1.0 200 OK'' @ crlf @ ''Session: 12345;timeout=30'' @ crlf @ crlf"
  unfolding string_of_text_header by (simp add: setup_lines_def)

lemma setup_reply: "reply (text_header setup_lines) ''200''"
proof -
  let ?rest = "'' OK'' @ crlf @ ''Session: 12345;timeout=30'' @ crlf @ crlf"
  have "header_ok (text_header setup_lines)"
    by (rule text_header_ok) (auto simp: setup_lines_def line_ok_def text_header_def RECV_BUF_SIZE_def crlf_def)
  moreover have "string_of (text_header setup_lines) = status_text ''1'' ''0'' ''200'' ?rest"
    by (simp add: setup_text status_text_def)
  moreover have "status_ok ''1'' ''0'' ''200'' ?rest" by code_simp
  ultimately show ?thesis unfolding reply_def by blast
qed

lemma setup_no_nul: "CHR 0x00 \<notin> set (string_of (text_header setup_lines))"
  unfolding setup_text by code_simp

lemma setup_field: "field_in (string_of (text_header setup_lines)) ''Session:'' session_char ''12345''"
proof (rule field_inI [OF _ _ _ _ _ _ _ _ setup_no_nul])
  let ?pre = "''RTSP/1.0 200 OK'' @ crlf"
  show "string_of (text_header setup_lines) = ?pre @ ''Session:'' @ '' '' @ ''12345'' @ '';timeout=30'' @ crlf @ crlf"
    by (simp add: setup_text)
  show "find_sub ''Session:'' (?pre @ ''Session:'') = Some (length ?pre)" by code_simp
  show "\<forall>c \<in> set ''12345''. session_char c" by code_simp
  show "'';timeout=30'' @ crlf @ crlf = [] \<or> \<not> session_char (hd ('';timeout=30'' @ crlf @ crlf))" by code_simp
qed simp_all

lemma setup_timeout: "announces (string_of (text_header setup_lines)) 30"
proof -
  let ?pre = "''RTSP/1.0 200 OK'' @ crlf" and ?post = "crlf @ crlf"
  have n: "show_nat 30 = ''30''" by code_simp
  have "x = []" if "''timeout='' @ show_nat 30 @ ?post = x @ ''timeout='' @ z" for x z
    using that by (cases x rule: list.exhaust) (auto simp: n crlf_def Cons_eq_append_conv append_eq_Cons_conv)
  moreover have "string_of (text_header setup_lines) = ?pre @ ''Session:'' @ ('' 12345;'' @ ''timeout='' @ show_nat 30) @ ?post"
    by (simp add: setup_text n)
  moreover have "find_sub ''Session:'' (?pre @ ''Session:'') = Some (length ?pre)" by code_simp
  ultimately show ?thesis
    unfolding announces_def using setup_no_nul
    by (intro conjI disjI2 exI [of _ ?pre] exI [of _ "'' 12345;''"] exI [of _ 30] exI [of _ ?post])
      (auto simp: n crlf_def is_digit_def)
qed

definition setup_media :: media_session where
  "setup_media = new_media_session\<lparr>MediaType := ''video'', Protocol := ''RTP/AVP'', TimeRate := 90000,
     ControlURI := ''rtsp://1.2.3.4/x/1''\<rparr>"

subsection \<open>Properties\<close>

text \<open>C24: SETUP over the direct connection: if a pair of ports is free and the server accepts, the request
  goes out whole with the URI of the medium, the transport asked for and the next sequence number; the
  session keeps its ports, the identifier and the timeout of the response (\<open>-1\<close> when there is none) and an
  RTP session of the right class on the right connection; what follows the header stays on the stream.\<close>

theorem DoSETUP_exchange:
  assumes "0 < RtspSockfd c" "socks c (RtspSockfd c) = Some w" "tx_fine (tx w)" "RtspOverHttpDataPort c = 0"
    and "Realm c = []" "session_at k c = Inr ms" "TimeRate ms \<noteq> 0" "RTPInterface ms = None"
    and "udp_socks c = []" "first_pair (port_free c) 10330 = Some q" "q \<noteq> 0"
    and "rx_stream (rx w) = h @ s" "reply h code" "accepted code"
    and "field_in (string_of h) ''Session:'' session_char sid" "announces (string_of h) t"
    and "env_ok (fst (next_env c))" "tcp \<or> RtspOverHttpDataSockfd c \<le> 0"
  shows "\<exists>c' w' ms' r. DoSETUP (Some k) tcp False c = Inr (RTSP_NO_ERROR, c') \<and>
    socks c' = (socks c)(RtspSockfd c \<mapsto> w') \<and> rx_stream (rx w') = s \<and>
    sent w' = sent w @ bytes_of (''SETUP '' @ ControlURI ms @ '' RTSP/1.0'' @ crlf @
      transport_text tcp (Protocol ms) q @ crlf @ ''CSeq: '' @ show_nat (unat (RtspCSeq c + 1)) @ crlf @ crlf) \<and>
    session_at k c' = Inr ms' \<and> rtp_over tcp (RtspSockfd c) r \<and>
    up_to_callback (ms\<lparr>RTPPort := q, RTCPPort := q + 1, SessionID := sid, Timeout := Some t, RTPInterface := Some r\<rparr>) ms'"
  by (rule DoSETUP_direct [OF assms])

theorem DoSETUP_exchange_witness:
  "\<exists>c' w' ms'. DoSETUP (Some ''video'') True False
     (put_session ''video'' setup_media (sample_client (text_header setup_lines))) = Inr (RTSP_NO_ERROR, c') \<and>
     socks c' 5 = Some w' \<and> sent w' = bytes_of (''SETUP rtsp://1.2.3.4/x/1 RTSP/1.0'' @ crlf @
       ''Transport: RTP/AVP/TCP;interleaved=0-1'' @ crlf @ ''CSeq: 1'' @ crlf @ crlf) \<and>
     session_at ''video'' c' = Inr ms' \<and> SessionID ms' = ''12345'' \<and> Timeout ms' = Some 30 \<and> RTPPort ms' = 10330"
proof -
  let ?c = "put_session ''video'' setup_media (sample_client (text_header setup_lines))"
  have q: "first_pair (port_free ?c) 10330 = Some 10330"
    unfolding first_pair_def find_first
    by (intro exI [of _ 0]) (simp add: pair_free_def nth_port_def put_session_def sample_client_def new_client_def os.defs sample_os_def)
  have env: "env_ok (fst (next_env ?c))"
    by (simp add: env_ok_def next_env_def default_env_def put_session_def sample_client_def new_client_def os.defs sample_os_def)
  have c: "udp_socks ?c = []" "Realm ?c = []" "session_at ''video'' ?c = Inr setup_media"
    by (simp_all add: put_session_def session_at_def sample_client_def new_client_def os.defs sample_os_def)
  have "show_nat (unat (0 + 1 :: u32)) = ''1''" by code_simp
  moreover have "\<lbrakk>up_to_callback ms0 ms; SessionID ms0 = i; Timeout ms0 = t; RTPPort ms0 = p\<rbrakk> \<Longrightarrow>
      SessionID ms = i \<and> Timeout ms = t \<and> RTPPort ms = p" for ms0 ms i t p
    by (auto simp: up_to_callback_def map_session_def)
  ultimately show ?thesis
    using DoSETUP_exchange [of ?c "sample_net (text_header setup_lines)" "''video''" setup_media 10330
        "text_header setup_lines" "[]" "''200''" "''12345''" 30 True] q env c setup_reply setup_field setup_timeout
    by (fastforce simp: put_session_def setup_media_def new_media_session_def accepted_def transport_text_def)
qed

end
