(* ===== verification/Rtsp_Frames.thy ===== *)
theory Rtsp_Frames
  imports Rtsp_Describe
begin

section \<open>Frames out of sessions\<close>

text \<open>
  \<open>GetMediaData\<close> against the contract of the frame types: the loop parses and copies out of
  \<open>VideoBuffer\<close>, which holds old bytes behind the payload, so what a frame type does must depend on the
  payload alone; then the loop gives what \<open>frame_of\<close> gives on the payloads of the session.
\<close>

subsection \<open>Frame types that only look at the payload\<close>

locale buffered_depacketizer = depacketizer +
  assumes parse_prefix:
      "header_size \<le> length p \<Longrightarrow> parse s (Some (p @ r)) (length p) True = parse s (Some p) (length p) True"
    and copy_prefix:
      "header_size \<le> length p \<Longrightarrow> copy s True (Some (p @ r)) (length p) = copy s True (Some p) (length p)"
begin

text \<open>One turn of the loop over a buffer with old content \<open>r\<close>, as \<open>frame_of\<close> sees it.\<close>

lemma buffer_turn:
  assumes "frame_of parse copy s (p # ps) = Inr (bytes, True, s')" "header_size \<le> length p"
  obtains e s1 out rest where "parse s (Some (p @ r)) (length p) True = Inr (0, e, s1)"
    and "copy s1 True (Some (p @ r)) (length p) = Inr out" "length out \<le> length p + 4" "bytes = out @ rest"
    and "e = Some False \<Longrightarrow> frame_of parse copy s1 ps = Inr (rest, True, s')"
    and "e \<noteq> Some False \<Longrightarrow> rest = [] \<and> s' = s1 \<and> frame_of parse copy s [p] = Inr (bytes, True, s')"
    and "\<And>q d w s2. e = Some False \<Longrightarrow> frame_of parse copy s1 q = Inr (d, w, s2) \<Longrightarrow>
      frame_of parse copy s (p # q) = Inr (out @ d, w, s2)"
proof -
  obtain rc e s1 where 1: "parse s (Some p) (length p) True = Inr (rc, e, s1)"
    using assms(1) by (auto simp: ub_bind_eq_Inr)
  then have rc: "rc = 0" using assms(1) by (auto split: if_splits)
  then obtain out where 2: "copy s1 True (Some p) (length p) = Inr out"
    using assms(1) 1 by (auto simp: ub_bind_eq_Inr)
  have b: "length out \<le> length p + 4" by (rule copy_bound [OF 2])
  have parsed: "parse s (Some (p @ r)) (length p) True = Inr (0, e, s1)"
    using 1 unfolding parse_prefix [OF assms(2)] rc .
  have copied: "copy s1 True (Some (p @ r)) (length p) = Inr out"
    using 2 unfolding copy_prefix [OF assms(2)] .
  show thesis
  proof (cases "e = Some False")
    case True
    then obtain rest where rest: "frame_of parse copy s1 ps = Inr (rest, True, s')" "bytes = out @ rest"
      using assms(1) 1 2 rc by (auto simp: ub_bind_eq_Inr)
    have step: "frame_of parse copy s (p # q) = Inr (out @ d, w, s2)" if "frame_of parse copy s1 q = Inr (d, w, s2)"
      for q d w s2
      using 1 2 rc True that by simp
    show thesis
    proof (rule that [OF parsed copied b rest(2)])
      show "e = Some False \<Longrightarrow> frame_of parse copy s1 ps = Inr (rest, True, s')" by (rule rest(1))
      show "e \<noteq> Some False \<Longrightarrow> rest = [] \<and> s' = s1 \<and> frame_of parse copy s [p] = Inr (bytes, True, s')"
        using True by blast
    qed (rule step)
  next
    case False
    have one: "frame_of parse copy s (p # q) = Inr (out, True, s1)" for q
      using 1 2 rc False by simp
    then have eq: "bytes = out" "s' = s1" using assms(1) by auto
    show thesis
    proof (rule that [OF parsed copied b])
      show "bytes = out @ []" using eq by simp
      show "e \<noteq> Some False \<Longrightarrow> [] = [] \<and> s' = s1 \<and> frame_of parse copy s [p] = Inr (bytes, True, s')"
        using one [of "[]"] eq by simp
    qed (use False in blast)+
  qed
qed

end

lemma rd_append: "i < length p \<Longrightarrow> rd (p @ r) i = rd p i"
  by (simp add: rd_def nth_append)

lemma memcpy_from_append: "off + n \<le> length p \<Longrightarrow> memcpy_from (p @ r) off n = memcpy_from p off n"
  by (simp add: memcpy_from_def)

lemma copy_tail_append: "skip \<le> length p \<Longrightarrow> copy_tail skip prefix (p @ r) (length p) = copy_tail skip prefix p (length p)"
  by (simp add: copy_tail_def memcpy_from_append)

lemma two_bytes: "2 \<le> length p \<Longrightarrow> \<exists>a b q. p = a # b # q"
  by (cases p; cases "tl p") auto

lemma first_three: "3 \<le> length p \<Longrightarrow> \<exists>a b c q. p = a # b # c # q"
  by (cases p; cases "tl p"; cases "tl (tl p)") auto

lemma rd_Cons_2 [simp]: "rd (a # b # c # q) 2 = Inr c"
  by (simp add: numeral_2_eq_2)

lemma h264_flag_prefix:
  "2 \<le> length p \<Longrightarrow> h264_IsPacketStart t (Some (p @ r)) = h264_IsPacketStart t (Some p)"
  "2 \<le> length p \<Longrightarrow> h264_IsPacketEnd t (Some (p @ r)) = h264_IsPacketEnd t (Some p)"
  by (cases t; force dest!: two_bytes simp: fu_a_flag_def id_bits_def)+

lemma h264_header_prefix:
  "2 \<le> length p \<Longrightarrow> h264_ParseNALUHeader_F t (Some (p @ r)) = h264_ParseNALUHeader_F t (Some p)"
  "2 \<le> length p \<Longrightarrow> h264_ParseNALUHeader_NRI t (Some (p @ r)) = h264_ParseNALUHeader_NRI t (Some p)"
  "2 \<le> length p \<Longrightarrow> h264_ParseNALUHeader_Type t (Some (p @ r)) = h264_ParseNALUHeader_Type t (Some p)"
  by (cases t; force dest!: two_bytes simp: fu_a_field_def masked_byte_def)+

lemma h264_prefix:
  "2 \<le> length p \<Longrightarrow> h264_ParsePacket h (Some (p @ r)) (length p) True = h264_ParsePacket h (Some p) (length p) True"
  "2 \<le> length p \<Longrightarrow> h264_CopyData h True (Some (p @ r)) (length p) = h264_CopyData h True (Some p) (length p)"
proof -
  assume p: "2 \<le> length p"
  have "NALUTypeBase_H264_ParseNALUHeader_Type (Some (p @ r)) = NALUTypeBase_H264_ParseNALUHeader_Type (Some p)"
    using two_bytes [OF p] by (auto simp: NALUTypeBase_H264_ParseNALUHeader_Type_def masked_byte_def)
  then show "h264_ParsePacket h (Some (p @ r)) (length p) True = h264_ParsePacket h (Some p) (length p) True"
    using p by (simp add: h264_ParsePacket_def h264_flag_prefix Let_def cong: option.case_cong)
  have "h264_SkipHeaderSize t \<le> length p" for t using p by (cases t) simp_all
  then show "h264_CopyData h True (Some (p @ r)) (length p) = h264_CopyData h True (Some p) (length p)"
    using p by (simp add: h264_CopyData_def h264_header_prefix copy_tail_append cong: option.case_cong)
qed

lemma h265_flag_prefix:
  "3 \<le> length p \<Longrightarrow> h265_IsPacketStart t (Some (p @ r)) = h265_IsPacketStart t (Some p)"
  "3 \<le> length p \<Longrightarrow> h265_IsPacketEnd t (Some (p @ r)) = h265_IsPacketEnd t (Some p)"
  by (cases t; force dest!: first_three simp: fus_flag_def H265Base_ParseNALUHeader_Type_def)+

lemma h265_header_prefix:
  "3 \<le> length p \<Longrightarrow> h265_ParseNALUHeader_F t (Some (p @ r)) = h265_ParseNALUHeader_F t (Some p)"
  "3 \<le> length p \<Longrightarrow> h265_ParseNALUHeader_Type t (Some (p @ r)) = h265_ParseNALUHeader_Type t (Some p)"
  "3 \<le> length p \<Longrightarrow> h265_ParseNALUHeader_Layer_ID t (Some (p @ r)) = h265_ParseNALUHeader_Layer_ID t (Some p)"
  "3 \<le> length p \<Longrightarrow> h265_ParseNALUHeader_Temp_ID_Plus_1 t (Some (p @ r)) = h265_ParseNALUHeader_Temp_ID_Plus_1 t (Some p)"
  by (cases t; force dest!: first_three simp: h265_ParseNALUHeader_F_def H265Base_ParseNALUHeader_Type_def
      h265_ParseNALUHeader_Layer_ID_def h265_ParseNALUHeader_Temp_ID_Plus_1_def)+

lemma h265_prefix:
  "3 \<le> length p \<Longrightarrow> h265_ParsePacket h (Some (p @ r)) (length p) True = h265_ParsePacket h (Some p) (length p) True"
  "3 \<le> length p \<Longrightarrow> h265_CopyData h True (Some (p @ r)) (length p) = h265_CopyData h True (Some p) (length p)"
proof -
  assume p: "3 \<le> length p"
  have "NALUTypeBase_H265_ParseNALUHeader_Type (Some (p @ r)) = NALUTypeBase_H265_ParseNALUHeader_Type (Some p)"
    using first_three [OF p] by (auto simp: NALUTypeBase_H265_ParseNALUHeader_Type_def)
  then show "h265_ParsePacket h (Some (p @ r)) (length p) True = h265_ParsePacket h (Some p) (length p) True"
    using p by (simp add: h265_ParsePacket_def h265_flag_prefix Let_def cong: option.case_cong)
  have "h265_SkipHeaderSize t \<le> length p" for t using p by (cases t) simp_all
  then show "h265_CopyData h True (Some (p @ r)) (length p) = h265_CopyData h True (Some p) (length p)"
    using p by (simp add: h265_CopyData_def h265_header_prefix copy_tail_append cong: option.case_cong)
qed

lemma frame_parse_prefix:
  "3 \<le> length p \<Longrightarrow> frame_ParsePacket f (Some (p @ r)) (length p) True = frame_ParsePacket f (Some p) (length p) True"
  by (cases f)
    (simp_all add: h264_prefix h265_prefix FrameTypeBase_ParsePacket_def MPEG_ParsePacket_def nth_append)

lemma frame_copy_prefix:
  "3 \<le> length p \<Longrightarrow> frame_CopyData f True (Some (p @ r)) (length p) = frame_CopyData f True (Some p) (length p)"
  by (cases f)
    (simp_all add: h264_prefix h265_prefix PCMU_CopyData_def MPEG_CopyData_def memcpy_from_append split: option.split)

interpretation frame_buffer: buffered_depacketizer frame_ParsePacket frame_CopyData frame_inv 3
  by standard (auto intro: frame_parse_prefix frame_copy_prefix)

subsection \<open>The loop\<close>

text \<open>The next payloads of a session, each of which arrives in time and fits a buffer of \<open>cap\<close> bytes.\<close>

fun payloads_from :: "nat \<Rightarrow> rtp_session \<Rightarrow> byte list list \<Rightarrow> bool" where
  "payloads_from cap s [] = True"
| "payloads_from cap s (p # ps) =
     (\<exists>s1. GetMyRTPData True True cap TIMEOUT_MICROSECONDS s = Inr (Some p, s1) \<and> length p \<le> cap \<and>
       payloads_from cap s1 ps)"

lemma media_loop_turn:
  assumes "RTPInterface ms = Some s" "GetMyRTPData True True (length vbuf) TIMEOUT_MICROSECONDS s = Inr (Some p, s1)"
    and "length p \<le> length vbuf" "p \<noteq> []" "length out + length p \<le> max_size" "ms_frame ms = Some f"
    and "frame_ParsePacket f (Some (p @ drop (length p) vbuf)) (length p) True = Inr (0, e, f1)"
    and "frame_CopyData f1 True (Some (p @ drop (length p) vbuf)) (length p) = Inr bytes"
  shows "media_loop max_size vbuf out ms =
    (if max_size < length out + length bytes then Inl Overrun
     else if e = Some False then media_loop max_size (p @ drop (length p) vbuf) (out @ bytes)
       (ms\<lparr>RTPInterface := Some s1, ms_frame := Some f1\<rparr>)
     else Inr (True, out @ bytes, p @ drop (length p) vbuf, ms\<lparr>RTPInterface := Some s1, ms_frame := Some f1\<rparr>))"
proof -
  have "ms_GetMediaData True True (length vbuf) TIMEOUT_MICROSECONDS ms = Inr (Some p, ms\<lparr>RTPInterface := Some s1\<rparr>)"
    using assms(1,2) by (simp add: ms_GetMediaData_def on_session_def)
  moreover have "ms\<lparr>ms_frame := Some f1, RTPInterface := Some s1\<rparr> = ms\<lparr>RTPInterface := Some s1, ms_frame := Some f1\<rparr>"
    by simp
  ultimately show ?thesis
    using assms(3-8) by (subst media_loop.simps) (simp add: Let_def)
qed

text \<open>\<open>ps\<close> is a whole frame, and without its last payload it is not.\<close>

definition shortest_frame :: "frame_object \<Rightarrow> byte list list \<Rightarrow> byte list \<Rightarrow> frame_object \<Rightarrow> bool" where
  "shortest_frame f ps bytes f' \<longleftrightarrow>
     frame_of frame_ParsePacket frame_CopyData f ps = Inr (bytes, True, f') \<and>
     (\<exists>d f1. frame_of frame_ParsePacket frame_CopyData f (butlast ps) = Inr (d, False, f1))"

lemma shortest_frame_one:
  "frame_of frame_ParsePacket frame_CopyData f [p] = Inr (bytes, True, f') \<Longrightarrow> shortest_frame f [p] bytes f'"
  by (simp add: shortest_frame_def)

lemma shortest_frame_step:
  assumes "shortest_frame f1 ps rest f'"
    and "\<And>q d w f2. frame_of frame_ParsePacket frame_CopyData f1 q = Inr (d, w, f2) \<Longrightarrow>
      frame_of frame_ParsePacket frame_CopyData f (p # q) = Inr (out @ d, w, f2)"
  shows "shortest_frame f (p # ps) (out @ rest) f'"
proof -
  have "ps \<noteq> []" using assms(1) by (auto simp: shortest_frame_def)
  then show ?thesis using assms by (auto simp: shortest_frame_def)
qed

lemma media_loop_frame:
  assumes "ms_frame ms = Some f" "RTPInterface ms = Some s" "payloads_from (length vbuf) s ps"
    and "\<forall>p \<in> set ps. 3 \<le> length p"
    and "frame_of frame_ParsePacket frame_CopyData f ps = Inr (bytes, True, f')"
    and "length out + sum_list (map length ps) + 4 * length ps \<le> max_size"
  shows "\<exists>vbuf' s' rest. media_loop max_size vbuf out ms =
      Inr (True, out @ bytes, vbuf', ms\<lparr>RTPInterface := Some s', ms_frame := Some f'\<rparr>) \<and>
    length vbuf' = length vbuf \<and> payloads_from (length vbuf) s' rest \<and> (\<exists>used. ps = used @ rest \<and> shortest_frame f used bytes f')"
  using assms
proof (induction ps arbitrary: ms f s vbuf out bytes)
  case (Cons p ps)
  obtain s1 where s1: "GetMyRTPData True True (length vbuf) TIMEOUT_MICROSECONDS s = Inr (Some p, s1)"
      "length p \<le> length vbuf" "payloads_from (length vbuf) s1 ps"
    using Cons.prems(3) by auto
  have p: "3 \<le> length p" "p \<noteq> []" using Cons.prems(4) by auto
  let ?v = "p @ drop (length p) vbuf"
  have v: "length ?v = length vbuf" using s1(2) by simp
  obtain e f1 o1 rest where t: "frame_ParsePacket f (Some ?v) (length p) True = Inr (0, e, f1)"
      "frame_CopyData f1 True (Some ?v) (length p) = Inr o1" "length o1 \<le> length p + 4" "bytes = o1 @ rest"
      "e = Some False \<Longrightarrow> frame_of frame_ParsePacket frame_CopyData f1 ps = Inr (rest, True, f')"
      "e \<noteq> Some False \<Longrightarrow> rest = [] \<and> f' = f1 \<and> frame_of frame_ParsePacket frame_CopyData f [p] = Inr (bytes, True, f')"
      "\<And>q d w f2. e = Some False \<Longrightarrow> frame_of frame_ParsePacket frame_CopyData f1 q = Inr (d, w, f2) \<Longrightarrow>
        frame_of frame_ParsePacket frame_CopyData f (p # q) = Inr (o1 @ d, w, f2)"
    by (rule frame_buffer.buffer_turn [OF Cons.prems(5) p(1), of "drop (length p) vbuf"]) (rule that; assumption)
  let ?ms = "ms\<lparr>RTPInterface := Some s1, ms_frame := Some f1\<rparr>"
  have room: "length out + length p \<le> max_size" "\<not> max_size < length out + length o1"
    using Cons.prems(6) t(3) by auto
  note turn = media_loop_turn [OF Cons.prems(2) s1(1,2) p(2) room(1) Cons.prems(1) t(1,2)]
  show ?case
  proof (cases "e = Some False")
    case False
    then show ?thesis
      using turn room(2) t(4,6) s1(3) v
      by (intro exI [of _ ?v] exI [of _ s1] exI [of _ ps]) (simp add: shortest_frame_one)
  next
    case True
    have "\<exists>vbuf' s' rest'. media_loop max_size ?v (out @ o1) ?ms =
        Inr (True, (out @ o1) @ rest, vbuf', ?ms\<lparr>RTPInterface := Some s', ms_frame := Some f'\<rparr>) \<and>
      length vbuf' = length ?v \<and> payloads_from (length ?v) s' rest' \<and> (\<exists>used. ps = used @ rest' \<and> shortest_frame f1 used rest f')"
      by (rule Cons.IH) (use Cons.prems(4,6) s1(3) t(3,5) True v in auto)
    then obtain vbuf' s' rest' used where "media_loop max_size ?v (out @ o1) ?ms =
        Inr (True, (out @ o1) @ rest, vbuf', ?ms\<lparr>RTPInterface := Some s', ms_frame := Some f'\<rparr>)"
      "length vbuf' = length ?v" "payloads_from (length ?v) s' rest'" "ps = used @ rest'"
      "shortest_frame f1 used rest f'"
      by blast
    moreover from this(5) have "shortest_frame f (p # used) (o1 @ rest) f'"
      by (rule shortest_frame_step) (use t(7) True in auto)
    ultimately show ?thesis
      using turn room(2) True t(4) v
      by (intro exI [of _ vbuf'] exI [of _ s'] exI [of _ rest']) (auto intro!: exI [of _ "p # used"])
  qed
qed simp


text \<open>A payload whose copy does not fit although it does.\<close>

lemma media_loop_overrun:
  assumes "ms_frame ms = Some f" "RTPInterface ms = Some s" "payloads_from (length vbuf) s [p]" "3 \<le> length p"
    and "frame_ParsePacket f (Some p) (length p) True = Inr (0, e, f1)"
    and "frame_CopyData f1 True (Some p) (length p) = Inr bytes"
    and "length out + length p \<le> max_size" "max_size < length out + length bytes"
  shows "media_loop max_size vbuf out ms = Inl Overrun"
proof -
  obtain s1 where s1: "GetMyRTPData True True (length vbuf) TIMEOUT_MICROSECONDS s = Inr (Some p, s1)" "length p \<le> length vbuf"
    using assms(3) by auto
  have "p \<noteq> []" using assms(4) by auto
  then show ?thesis
    using media_loop_turn [OF assms(2) s1 _ assms(7,1), of e f1 bytes] assms(4-6,8)
    by (simp add: frame_parse_prefix frame_copy_prefix)
qed

subsection \<open>GetMediaData\<close>

lemma GetMediaData_loop:
  assumes "session_at k c = Inr ms" "ms_frame ms = Some f" "\<not> frame_NeedPrefixParameterOnce f"
  shows "GetMediaData (Some k) True True max_size c =
    ub_bind (media_loop max_size (VideoBuffer c) [] ms) (\<lambda>(ret, out, vbuf, ms2).
      Inr ((ret, Some out), put_session k ms2 (c\<lparr>VideoBuffer := vbuf\<rparr>)))"
  using assms by (simp add: GetMediaData_def prefix_once_def FrameTypeBase_PrefixParameterEveryFrame_def)

lemma fu_a_packets_length:
  "p \<in> set (fu_a_packets hdr st chunks) \<Longrightarrow> \<exists>c \<in> set chunks. length p = length c + 2"
  by (induction hdr st chunks rule: fu_a_packets.induct) auto

lemma fu_a_packets_sum:
  "sum_list (map length (fu_a_packets hdr st chunks)) = length (concat chunks) + 2 * length chunks \<and>
   length (fu_a_packets hdr st chunks) = length chunks"
  by (induction hdr st chunks rule: fu_a_packets.induct) auto

lemma frame_of_H264: "frame_of frame_ParsePacket frame_CopyData (H264_Frame g) ps =
    ub_bind (frame_of h264_ParsePacket h264_CopyData g ps) (\<lambda>(bytes, whole, g'). Inr (bytes, whole, H264_Frame g'))"
  by (induction ps arbitrary: g) (auto simp: ub_bind_def split: sum.splits prod.splits)

text \<open>A UDP session whose payloads have arrived.\<close>

definition data_event :: "byte list \<Rightarrow> poll_event" where
  "data_event p = \<lparr>poll_status = 0, source_has_data = True, next_packet = Some \<lparr>packet_payload = p, packet_data = p\<rparr>\<rparr>"

lemma udp_payloads:
  "session_kind s = UDP_Session \<Longrightarrow> polls s = map data_event ps \<Longrightarrow> \<forall>p \<in> set ps. length p \<le> cap \<Longrightarrow> payloads_from cap s ps"
proof (induction ps arbitrary: s)
  case (Cons p ps)
  have "wait_packet packet_payload cap u (polls s) = Inr (Some p, map data_event ps)" for u
    using Cons.prems(2,3) by (subst wait_packet.simps) (simp add: data_event_def event_packet_def IsError_def RTP_OK_def RTP_ERROR_def)
  then have "GetMyRTPData True True cap TIMEOUT_MICROSECONDS s = Inr (Some p, s\<lparr>polls := map data_event ps\<rparr>)"
    using Cons.prems(1) by (simp add: GetMyRTPData_defs lift_polls_def)
  then show ?case using Cons.IH [of "s\<lparr>polls := map data_event ps\<rparr>"] Cons.prems by simp
qed simp

definition sample_media :: "frame_object \<Rightarrow> byte list list \<Rightarrow> media_session" where
  "sample_media f ps = new_media_session\<lparr>ms_frame := Some f, RTPInterface := Some (new_udp_session (map data_event ps))\<rparr>"

definition sample_player :: "frame_object \<Rightarrow> byte list list \<Rightarrow> client" where
  "sample_player f ps = put_session ''video'' (sample_media f ps)
     (new_client (sample_os Map.empty))"

lemma sample_player_simps:
  "session_at ''video'' (sample_player f ps) = Inr (sample_media f ps)"
  "length (VideoBuffer (sample_player f ps)) = 8192"
  "ms_frame (sample_media f ps) = Some f"
  "RTPInterface (sample_media f ps) = Some (new_udp_session (map data_event ps))"
  by (simp_all add: sample_player_def sample_media_def put_session_def session_at_def new_client_def os.defs sample_os_def MEDIA_BUFSIZ_def)

lemma sample_payloads:
  "\<forall>p \<in> set ps. length p \<le> 8192 \<Longrightarrow> payloads_from 8192 (new_udp_session (map data_event ps)) ps"
  by (rule udp_payloads) (simp_all add: new_udp_session_def)

text \<open>The fragments of a NAL unit.\<close>

lemma GetMediaData_fragments:
  assumes "session_at k c = Inr ms" "ms_frame ms = Some (H264_Frame h)" "\<not> prefixParameterOnce h"
    and "Packetization h = 1 \<or> Packetization h = 2" "RTPInterface ms = Some s"
    and "payloads_from (length (VideoBuffer c)) s (fu_a_packets hdr True chunks)"
    and "chunks \<noteq> []" "\<forall>x \<in> set chunks. x \<noteq> []" "length (concat chunks) + 6 * length chunks \<le> max_size"
  shows "\<exists>c'. GetMediaData (Some k) True True max_size c = Inr ((True, Some ([0, 0, 0, 1] @ hdr # concat chunks)), c')"
proof -
  obtain h' where "frame_of h264_ParsePacket h264_CopyData h (fu_a_packets hdr True chunks) =
      Inr ([0, 0, 0, 1] @ hdr # concat chunks, True, h')"
    using h264_fu_a_packets [OF assms(4,7), of hdr True] by auto
  then have f: "frame_of frame_ParsePacket frame_CopyData (H264_Frame h) (fu_a_packets hdr True chunks) =
      Inr ([0, 0, 0, 1] @ hdr # concat chunks, True, H264_Frame h')"
    by (simp add: frame_of_H264)
  have 3: "\<forall>p \<in> set (fu_a_packets hdr True chunks). 3 \<le> length p"
  proof
    fix p assume "p \<in> set (fu_a_packets hdr True chunks)"
    then obtain x where "x \<in> set chunks" "length p = length x + 2" using fu_a_packets_length by blast
    moreover from this(1) have "1 \<le> length x" using assms(8) by (simp add: Suc_le_eq)
    ultimately show "3 \<le> length p" by linarith
  qed
  have room: "[] = [] @ []" "length [] + sum_list (map length (fu_a_packets hdr True chunks)) + 4 * length (fu_a_packets hdr True chunks) \<le> max_size"
    using fu_a_packets_sum [of hdr True chunks] assms(9) by simp_all
  obtain vbuf' s' where "media_loop max_size (VideoBuffer c) [] ms =
      Inr (True, [] @ [0, 0, 0, 1] @ hdr # concat chunks, vbuf', ms\<lparr>RTPInterface := Some s', ms_frame := Some (H264_Frame h')\<rparr>)"
    using media_loop_frame [OF assms(2,5,6) 3 f room(2)] by blast
  then show ?thesis
    using GetMediaData_loop [OF assms(1,2), of max_size] assms(3) by simp
qed

subsection \<open>Properties\<close>

text \<open>C19: \<open>GetMediaData\<close> refines \<open>frame_of\<close>: if the session delivers payloads that make a complete
  frame and the caller's buffer has room for them and four bytes more each, the caller gets exactly that
  frame, whatever \<open>VideoBuffer\<close> held before, and the session is left with the payloads after it: those
  taken make the frame, and without the last of them it is not complete.\<close>

theorem GetMediaData_refines_frame_of:
  assumes "session_at k c = Inr ms" "ms_frame ms = Some f" "\<not> frame_NeedPrefixParameterOnce f"
    and "RTPInterface ms = Some s" "payloads_from (length (VideoBuffer c)) s ps" "\<forall>p \<in> set ps. 3 \<le> length p"
    and "frame_of frame_ParsePacket frame_CopyData f ps = Inr (bytes, True, f')"
    and "sum_list (map length ps) + 4 * length ps \<le> max_size"
  shows "\<exists>c' s' rest. GetMediaData (Some k) True True max_size c = Inr ((True, Some bytes), c') \<and>
    session_at k c' = Inr (ms\<lparr>RTPInterface := Some s', ms_frame := Some f'\<rparr>) \<and>
    length (VideoBuffer c') = length (VideoBuffer c) \<and>
    payloads_from (length (VideoBuffer c)) s' rest \<and> (\<exists>used d f1. ps = used @ rest \<and>
      frame_of frame_ParsePacket frame_CopyData f used = Inr (bytes, True, f') \<and>
      frame_of frame_ParsePacket frame_CopyData f (butlast used) = Inr (d, False, f1))"
proof -
  obtain vbuf' s' rest where l: "media_loop max_size (VideoBuffer c) [] ms =
        Inr (True, bytes, vbuf', ms\<lparr>RTPInterface := Some s', ms_frame := Some f'\<rparr>)"
      "length vbuf' = length (VideoBuffer c)" "payloads_from (length (VideoBuffer c)) s' rest" "\<exists>used. ps = used @ rest \<and> shortest_frame f used bytes f'"
    using media_loop_frame [OF assms(2,4-7), of "[]" max_size] assms(8) by auto
  show ?thesis
    unfolding GetMediaData_loop [OF assms(1-3)] l(1)
    using l(2-4) by (intro exI [of _ "put_session k (ms\<lparr>RTPInterface := Some s', ms_frame := Some f'\<rparr>) (c\<lparr>VideoBuffer := vbuf'\<rparr>)"]
      exI [of _ s'] exI [of _ rest]) (simp add: put_session_def session_at_def smap_find_set shortest_frame_def)
qed

theorem GetMediaData_refines_frame_of_witness:
  "\<exists>c'. GetMediaData (Some ''video'') True True 100 (sample_player PCMU_Frame [[1, 2, 3], [4, 5, 6]]) =
     Inr ((True, Some [1, 2, 3]), c')"
proof -
  have "frame_of frame_ParsePacket frame_CopyData PCMU_Frame [[1, 2, 3], [4, 5, 6]] = Inr ([1, 2, 3], True, PCMU_Frame)"
    by (simp add: FrameTypeBase_ParsePacket_def PCMU_CopyData_def)
  then show ?thesis
    using GetMediaData_refines_frame_of [of "''video''" "sample_player PCMU_Frame [[1, 2, 3], [4, 5, 6]]" _ PCMU_Frame
        "new_udp_session (map data_event [[1, 2, 3], [4, 5, 6]])" "[[1, 2, 3], [4, 5, 6]]" "[1, 2, 3]" PCMU_Frame 100]
      sample_payloads [of "[[1, 2, 3], [4, 5, 6]]"]
    by (simp add: sample_player_simps) blast
qed

text \<open>end to end, a NAL unit that the sender fragmented into FU-A payloads comes out of
  \<open>GetMediaData\<close> whole behind a start code, in packetization modes 1 and 2.\<close>

theorem GetMediaData_h264_fu_a:
  assumes "session_at k c = Inr ms" "ms_frame ms = Some (H264_Frame h)" "\<not> prefixParameterOnce h"
    and "Packetization h = 1 \<or> Packetization h = 2" "RTPInterface ms = Some s"
    and "payloads_from (length (VideoBuffer c)) s (fu_a_packets hdr True chunks)"
    and "chunks \<noteq> []" "\<forall>x \<in> set chunks. x \<noteq> []" "length (concat chunks) + 6 * length chunks \<le> max_size"
  shows "\<exists>c'. GetMediaData (Some k) True True max_size c = Inr ((True, Some ([0, 0, 0, 1] @ hdr # concat chunks)), c')"
  by (rule GetMediaData_fragments [OF assms])

theorem GetMediaData_h264_fu_a_witness:
  "\<exists>c'. GetMediaData (Some ''video'') True True 100
     (sample_player (H264_Frame (new_h264\<lparr>prefixParameterOnce := False, Packetization := 1\<rparr>)) (fu_a_packets 0x65 True [[1, 2], [3]])) =
     Inr ((True, Some [0, 0, 0, 1, 0x65, 1, 2, 3]), c')"
  using GetMediaData_h264_fu_a [of "''video''" "sample_player (H264_Frame (new_h264\<lparr>prefixParameterOnce := False, Packetization := 1\<rparr>))
        (fu_a_packets 0x65 True [[1, 2], [3]])" _ "new_h264\<lparr>prefixParameterOnce := False, Packetization := 1\<rparr>"
        "new_udp_session (map data_event (fu_a_packets 0x65 True [[1, 2], [3]]))" "0x65" "[[1, 2], [3]]" 100]
    sample_payloads [of "fu_a_packets 0x65 True [[1, 2], [3]]"]
  by (simp add: sample_player_simps)

text \<open>C20: the size of the caller's buffer is checked against the payload, not against what is copied: a
  NAL unit of \<open>n\<close> bytes in a buffer of \<open>n\<close> to \<open>n + 3\<close> bytes is written past its end.\<close>

theorem GetMediaData_overrun:
  assumes "session_at k c = Inr ms" "ms_frame ms = Some (H264_Frame h)" "\<not> prefixParameterOnce h"
    and "Packetization h = 0 \<or> Packetization h = 1" "h264_nal_type b \<in> {1..12}" "RTPInterface ms = Some s"
    and "payloads_from (length (VideoBuffer c)) s [b # p]" "2 \<le> length p"
    and "length (b # p) \<le> max_size" "max_size < length (b # p) + 4"
  shows "GetMediaData (Some k) True True max_size c = Inl Overrun"
proof -
  let ?h = "h\<lparr>NALUType := Some H264Base, StartFlag := Some True, EndFlag := Some True\<rparr>"
  have "h264_ParsePacket h (Some (b # p)) (length (b # p)) True = Inr (0, Some True, ?h)"
    using assms(4,5) by (auto simp: IS_PACKET_MODE_VALID_def h264_ParsePacket_eq h264_GetNaluRtpType_single
        simp del: atLeastAtMost_iff)
  moreover have "h264_CopyData ?h True (Some (b # p)) (length (b # p)) = Inr ([0, 0, 0, 1] @ b # p)"
    using h264_CopyData_simple [of ?h H264Base b p] by simp
  ultimately have "media_loop max_size (VideoBuffer c) [] ms = Inl Overrun"
    using media_loop_overrun [OF assms(2,6,7), of "Some True" "H264_Frame ?h" "[0, 0, 0, 1] @ b # p" "[]" max_size] assms(8-10)
    by simp
  then show ?thesis using GetMediaData_loop [OF assms(1,2), of max_size] assms(3) by simp
qed

theorem GetMediaData_overrun_witness:
  "GetMediaData (Some ''video'') True True 5
     (sample_player (H264_Frame (new_h264\<lparr>prefixParameterOnce := False\<rparr>)) [[0x65, 7, 8]]) = Inl Overrun"
proof -
  have "h264_nal_type 0x65 = 5" by code_simp
  then show ?thesis
    using GetMediaData_overrun [of "''video''" "sample_player (H264_Frame (new_h264\<lparr>prefixParameterOnce := False\<rparr>)) [[0x65, 7, 8]]"
        _ "new_h264\<lparr>prefixParameterOnce := False\<rparr>" "0x65" "new_udp_session (map data_event [[0x65, 7, 8]])" "[7, 8]" 5]
      sample_payloads [of "[[0x65, 7, 8]]"]
    by (simp add: sample_player_simps new_h264_def)
qed


text \<open>An RTP payload of one byte that looks like an FU-A indicator makes \<open>CopyData\<close> compute
  \<open>size - 2\<close> below zero and copy that many bytes: a single packet of the peer ends in undefined
  behaviour, whatever the buffers are.\<close>

theorem GetMediaData_one_byte_fu_a:
  assumes "session_at k c = Inr ms" "ms_frame ms = Some (H264_Frame h)" "\<not> prefixParameterOnce h"
    and "Packetization h = 1 \<or> Packetization h = 2" "b AND 0x1F = 0x1C" "RTPInterface ms = Some s"
    and "payloads_from (length (VideoBuffer c)) s [[b]]" "2 \<le> length (VideoBuffer c)" "1 \<le> max_size"
  shows "GetMediaData (Some k) True True max_size c = Inl SizeUnderflow"
proof -
  obtain s1 where s1: "GetMyRTPData True True (length (VideoBuffer c)) TIMEOUT_MICROSECONDS s = Inr (Some [b], s1)"
    using assms(7) by auto
  obtain x y q where v: "VideoBuffer c = x # y # q" using two_bytes [OF assms(8)] by blast
  have pm: "IS_PACKET_MODE_VALID (Packetization h)" using assms(4) by (auto simp: IS_PACKET_MODE_VALID_def)
  have ty: "h264_nal_type b = 28" by (simp add: h264_fu_a_type assms(5))
  let ?d = "b # y # q"
  let ?h = "h\<lparr>NALUType := Some FU_A, StartFlag := Some (y AND 0x80 \<noteq> 0), EndFlag := Some (y AND 0x40 \<noteq> 0)\<rparr>"
  have parse: "h264_ParsePacket h (Some ?d) 1 True = Inr (0, Some (y AND 0x40 \<noteq> 0), ?h)"
    using h264_GetNaluRtpType_fu_a [OF assms(4)] h264_ParsePacket_eq [OF pm, of b "y # q" 1]
    by (simp add: ty fu_a_flag_eq assms(5))
  have "copy_tail 2 pre ?d 1 = Inl SizeUnderflow" for pre
    by (simp add: copy_tail_def)
  then have copy: "h264_CopyData ?h True (Some ?d) 1 = Inl SizeUnderflow"
    using assms(5) by (simp add: h264_CopyData_def fu_a_field_def FU_A_ID_def)
  have "media_loop max_size (VideoBuffer c) [] ms = Inl SizeUnderflow"
    using s1 assms(2,6,9) parse copy
    by (subst media_loop.simps) (simp add: v ms_GetMediaData_def on_session_def Let_def)
  then show ?thesis using GetMediaData_loop [OF assms(1,2), of max_size] assms(3) by simp
qed

theorem GetMediaData_one_byte_fu_a_witness:
  "GetMediaData (Some ''video'') True True 100
     (sample_player (H264_Frame (new_h264\<lparr>prefixParameterOnce := False, Packetization := 1\<rparr>)) [[0x7C]]) = Inl SizeUnderflow"
  using GetMediaData_one_byte_fu_a [of "''video''" "sample_player (H264_Frame (new_h264\<lparr>prefixParameterOnce := False, Packetization := 1\<rparr>)) [[0x7C]]"
      _ "new_h264\<lparr>prefixParameterOnce := False, Packetization := 1\<rparr>" "0x7C" "new_udp_session (map data_event [[0x7C]])" 100]
    sample_payloads [of "[[0x7C]]"]
  by (simp add: sample_player_simps)

end
