(* ===== verification/Rtsp_Invariant.thy ===== *)
theory Rtsp_Invariant
  imports Rtsp_Frames Sdp_Proofs
begin

section \<open>What every method of the client keeps\<close>

text \<open>
  \<open>client_ok\<close> is the class invariant: the sessions are ordered by key, each under its own media type,
  with a frame object of the class that its encoding names and in a state its methods accept; a
  positive \<open>RtspSockfd\<close> is open; \<open>VideoBuffer\<close> has the size it was allocated with; the description is
  well formed. \<open>client_step\<close>
  is one call of a public method that returns; the invariant holds in every state such calls reach.
\<close>

fun frame_name :: "frame_object \<Rightarrow> string" where
  "frame_name (H264_Frame h) = ''H264''"
| "frame_name (H265_Frame h) = ''H265''"
| "frame_name PCMU_Frame = ''PCMU''"
| "frame_name (MPEG_Frame off) = ''MPA''"

definition session_ok :: "string \<Rightarrow> media_session \<Rightarrow> bool" where
  "session_ok k ms \<longleftrightarrow> MediaType ms = k \<and>
     (\<forall>f. ms_frame ms = Some f \<longrightarrow> frame_inv f \<and> frame_name f = EncodeType ms)"

definition client_ok :: "client \<Rightarrow> bool" where
  "client_ok c \<longleftrightarrow> smap_inv (MediaSessionMap c) \<and> (\<forall>(k, ms) \<in> set (MediaSessionMap c). session_ok k ms) \<and>
     (0 < RtspSockfd c \<longrightarrow> socks c (RtspSockfd c) \<noteq> None) \<and> length (VideoBuffer c) = MEDIA_BUFSIZ \<and> sdp_ok (sdpData c)"

lemma client_okI:
  "client_ok c \<Longrightarrow> sdpData c' = sdpData c \<Longrightarrow> MediaSessionMap c' = MediaSessionMap c \<Longrightarrow> VideoBuffer c' = VideoBuffer c \<Longrightarrow>
   (0 < RtspSockfd c' \<Longrightarrow> socks c' (RtspSockfd c') \<noteq> None) \<Longrightarrow> client_ok c'"
  by (simp add: client_ok_def)

lemma client_ok_update [simp]:
  "client_ok (c\<lparr>RtspURI := s\<rparr>) = client_ok c" "client_ok (c\<lparr>RtspCSeq := w\<rparr>) = client_ok c"
  "client_ok (c\<lparr>RtspIP := s\<rparr>) = client_ok c" "client_ok (c\<lparr>RtspPort := p\<rparr>) = client_ok c"
  "client_ok (c\<lparr>RtspResponse := s\<rparr>) = client_ok c" "client_ok (c\<lparr>SDPStr := s\<rparr>) = client_ok c"
  "client_ok (c\<lparr>Username := s\<rparr>) = client_ok c" "client_ok (c\<lparr>Password := s\<rparr>) = client_ok c"
  "client_ok (c\<lparr>Realm := s\<rparr>) = client_ok c" "client_ok (c\<lparr>Nonce := s\<rparr>) = client_ok c"
  "client_ok (c\<lparr>ByeFromServerAudioClbk := b\<rparr>) = client_ok c" "client_ok (c\<lparr>ByeFromServerVideoClbk := b\<rparr>) = client_ok c"
  "client_ok (c\<lparr>RtspOverHttpDataPort := p\<rparr>) = client_ok c" "client_ok (c\<lparr>RtspOverHttpDataSockfd := i\<rparr>) = client_ok c"
  "client_ok (c\<lparr>HttpHeadXSessionCookieContent := s\<rparr>) = client_ok c"
  "client_ok (c\<lparr>new_socks := ns\<rparr>) = client_ok c" "client_ok (c\<lparr>connects := cs\<rparr>) = client_ok c"
  "client_ok (c\<lparr>connections := ls\<rparr>) = client_ok c" "client_ok (c\<lparr>udp_socks := us\<rparr>) = client_ok c"
  "client_ok (c\<lparr>create_envs := es\<rparr>) = client_ok c" "client_ok (c\<lparr>byes := bs\<rparr>) = client_ok c"
  by (simp_all add: client_ok_def)

subsection \<open>Computations that keep the invariant\<close>

text \<open>\<open>okM\<close> for a call with a result, \<open>okC\<close> for one without; \<open>keeps\<close> collects what each call keeps
  and how this goes through the control structures, so that a method is checked by \<open>intro keeps\<close>.\<close>

definition okM :: "ub + ('a \<times> client) \<Rightarrow> bool" where
  "okM m \<longleftrightarrow> (\<forall>r c. m = Inr (r, c) \<longrightarrow> client_ok c)"

definition okC :: "ub + client \<Rightarrow> bool" where
  "okC m \<longleftrightarrow> (\<forall>c. m = Inr c \<longrightarrow> client_ok c)"

named_theorems keeps "calls that keep the invariant"

lemma okM_intros [keeps]:
  "okM (Inl e)"
  "client_ok c \<Longrightarrow> okM (Inr (r, c))"
  "okM m \<Longrightarrow> (\<And>r c. client_ok c \<Longrightarrow> okM (f r c)) \<Longrightarrow> okM (ub_bind m (\<lambda>(r, c). f r c))"
  "okC n \<Longrightarrow> (\<And>c. client_ok c \<Longrightarrow> okM (g c)) \<Longrightarrow> okM (ub_bind n g)"
  "(P \<Longrightarrow> okM a) \<Longrightarrow> (\<not> P \<Longrightarrow> okM b) \<Longrightarrow> okM (if P then a else b)"
  "okM a \<Longrightarrow> (\<And>x. okM (h x)) \<Longrightarrow> okM (case v of None \<Rightarrow> a | Some x \<Rightarrow> h x)"
  "client_ok (snd p) \<Longrightarrow> (\<And>r c. client_ok c \<Longrightarrow> okM (f r c)) \<Longrightarrow> okM (case p of (r, c) \<Rightarrow> f r c)"
  by (auto simp: okM_def okC_def ub_bind_eq_Inr split: option.splits prod.splits if_splits)

lemma okM_pure: "(\<And>x. m = Inr x \<Longrightarrow> okM (f x)) \<Longrightarrow> okM (ub_bind m f)"
  by (auto simp: okM_def ub_bind_eq_Inr)

lemma okM_prod: "(\<And>a b. p = (a, b) \<Longrightarrow> okM (f a b)) \<Longrightarrow> okM (case p of (a, b) \<Rightarrow> f a b)"
  by (simp split: prod.split)

lemma okC_intros [keeps]:
  "okC (Inl e)"
  "client_ok c \<Longrightarrow> okC (Inr c)"
  "okC n \<Longrightarrow> (\<And>c. client_ok c \<Longrightarrow> okC (g c)) \<Longrightarrow> okC (ub_bind n g)"
  "okM m \<Longrightarrow> (\<And>r c. client_ok c \<Longrightarrow> okC (f r c)) \<Longrightarrow> okC (ub_bind m (\<lambda>(r, c). f r c))"
  "(P \<Longrightarrow> okC a) \<Longrightarrow> (\<not> P \<Longrightarrow> okC b) \<Longrightarrow> okC (if P then a else b)"
  "okC a \<Longrightarrow> (\<And>x. okC (h x)) \<Longrightarrow> okC (case v of None \<Rightarrow> a | Some x \<Rightarrow> h x)"
  by (auto simp: okM_def okC_def ub_bind_eq_Inr split: option.splits if_splits)

lemma okC_pure: "(\<And>x. m = Inr x \<Longrightarrow> okC (f x)) \<Longrightarrow> okC (ub_bind m f)"
  by (auto simp: okC_def ub_bind_eq_Inr)

lemma okM_D: "okM m \<Longrightarrow> m = Inr (r, c) \<Longrightarrow> client_ok c"
  by (auto simp: okM_def)

lemma okC_D: "okC m \<Longrightarrow> m = Inr c \<Longrightarrow> client_ok c"
  by (auto simp: okC_def)

lemma ok_snd_let: "client_ok (snd (f x)) \<Longrightarrow> client_ok (snd (Let x f))"
  by simp

subsection \<open>Sessions\<close>

lemma smap_set_mem: "(k', v') \<in> set (smap_set k v m) \<Longrightarrow> (k', v') = (k, v) \<or> (k', v') \<in> set m"
  by (induction k v m rule: smap_set.induct) (auto split: if_splits)

lemma smap_erase_mem: "x \<in> set (smap_erase k m) \<Longrightarrow> x \<in> set m"
  by (induction k m rule: smap_erase.induct) (auto split: if_splits)

lemma put_session_ok: "client_ok c \<Longrightarrow> session_ok k ms \<Longrightarrow> client_ok (put_session k ms c)"
  by (auto simp: client_ok_def put_session_def dest!: smap_set_mem)

lemma session_at_ok: "client_ok c \<Longrightarrow> session_at k c = Inr ms \<Longrightarrow> session_ok k ms"
  by (auto simp: client_ok_def session_at_eq_Inr dest!: smap_find_in)

lemma on_session_at_ok [keeps]:
  "client_ok c \<Longrightarrow> (\<And>ms. session_ok k ms \<Longrightarrow> session_ok k (f ms)) \<Longrightarrow> okC (on_session_at k f c)"
  by (auto simp: okC_def on_session_at_def ub_bind_eq_Inr intro: put_session_ok session_at_ok)

lemma session_ok_update [simp]:
  "session_ok k (ms\<lparr>SessionID := s\<rparr>) = session_ok k ms" "session_ok k (ms\<lparr>Timeout := t\<rparr>) = session_ok k ms"
  "session_ok k (ms\<lparr>RTPPort := p\<rparr>) = session_ok k ms" "session_ok k (ms\<lparr>RTCPPort := p\<rparr>) = session_ok k ms"
  "session_ok k (ms\<lparr>TimeRate := r\<rparr>) = session_ok k ms" "session_ok k (ms\<lparr>ChannelNum := r\<rparr>) = session_ok k ms"
  "session_ok k (ms\<lparr>ms_Packetization := i\<rparr>) = session_ok k ms" "session_ok k (ms\<lparr>ControlURI := s\<rparr>) = session_ok k ms"
  "session_ok k (ms\<lparr>PayloadType := is\<rparr>) = session_ok k ms" "session_ok k (ms\<lparr>RTPInterface := r'\<rparr>) = session_ok k ms"
  by (simp_all add: session_ok_def)

lemma session_ok_calls [simp]:
  "session_ok k (map_session f ms) = session_ok k ms" "session_ok k (ms_UnlockSocket ms) = session_ok k ms"
  "session_ok k (SetRtpDestroiedClbk clbk ms) = session_ok k ms" "session_ok k (ms_SetRtspCmdClbk clbk ms) = session_ok k ms"
  "session_ok k (snd (RTP_SetUp env fd ms)) = session_ok k ms"
  by (simp_all add: map_session_def ms_UnlockSocket_def SetRtpDestroiedClbk_def ms_SetRtspCmdClbk_def RTP_SetUp_def
      split: prod.split)

lemma ms_LockSocket_ok: "ms_LockSocket ms = Inr ms' \<Longrightarrow> session_ok k ms' = session_ok k ms"
  by (auto simp: ms_LockSocket_def ub_bind_eq_Inr split: option.splits)

subsection \<open>Sockets\<close>

lemma on_socket_ok [keeps]: "client_ok c \<Longrightarrow> client_ok (snd (on_socket fd f c))"
  by (auto simp: on_socket_def client_ok_def split: option.splits prod.splits)

lemma sys_socket_ok:
  "client_ok c \<Longrightarrow> sys_socket c = (fd, c') \<Longrightarrow> client_ok c' \<and> (0 \<le> fd \<longrightarrow> socks c' fd \<noteq> None \<and> socks c fd = None)"
  by (auto simp: sys_socket_def client_ok_def split: list.splits prod.splits if_splits)

lemma sys_connect_ok: "client_ok c \<Longrightarrow> sys_connect fd a p c = (r, c') \<Longrightarrow> client_ok c' \<and> socks c' = socks c \<and> RtspSockfd c' = RtspSockfd c"
  by (auto simp: sys_connect_def)

lemma sys_close_simps [simp]:
  "MediaSessionMap (snd (sys_close fd c)) = MediaSessionMap c" "VideoBuffer (snd (sys_close fd c)) = VideoBuffer c"
  "sdpData (snd (sys_close fd c)) = sdpData c"
  "RtspSockfd (snd (sys_close fd c)) = RtspSockfd c"
  "RtspOverHttpDataSockfd (snd (sys_close fd c)) = RtspOverHttpDataSockfd c"
  by (simp_all add: sys_close_def)

lemma Close_simps:
  "MediaSessionMap (snd (Close fd c)) = MediaSessionMap c" "VideoBuffer (snd (Close fd c)) = VideoBuffer c"
  "sdpData (snd (Close fd c)) = sdpData c"
  "RtspSockfd (snd (Close fd c)) \<le> 0"
  by (auto simp: Close_def sys_close_def split: prod.splits if_splits)

lemma Close_ok [keeps]: "client_ok c \<Longrightarrow> client_ok (snd (Close fd c))"
  by (rule client_okI) (use Close_simps [of fd c] in auto)

lemma uri_of_ok: "uri_of uri c = (u, c') \<Longrightarrow>
    client_ok c' = client_ok c \<and> socks c' = socks c \<and> RtspSockfd c' = RtspSockfd c"
  by (auto simp: uri_of_def split: if_splits)

lemma Get_ok:
  "GetIP uri c = Inr (a, c') \<Longrightarrow> client_ok c' = client_ok c \<and> socks c' = socks c \<and> RtspSockfd c' = RtspSockfd c"
  "GetPort uri c = Inr (p, c') \<Longrightarrow> client_ok c' = client_ok c \<and> socks c' = socks c \<and> RtspSockfd c' = RtspSockfd c"
  "GetResource uri c = Inr (s, c') \<Longrightarrow> client_ok c' = client_ok c \<and> socks c' = socks c \<and> RtspSockfd c' = RtspSockfd c"
  by (auto simp: GetIP_def GetPort_def GetResource_def ub_bind_eq_Inr dest!: uri_of_ok
      split: prod.splits option.splits)

lemma set_sockfd_ok: "client_ok c \<Longrightarrow> (0 < fd \<Longrightarrow> socks c fd \<noteq> None) \<Longrightarrow> client_ok (c\<lparr>RtspSockfd := fd\<rparr>)"
  by (simp add: client_ok_def)

lemma close_sockfd_ok: "client_ok c \<Longrightarrow> client_ok ((snd (sys_close fd c))\<lparr>RtspSockfd := - 1\<rparr>)"
  by (rule client_okI [of c]) simp_all

lemma CreateTcpSockfd_ok [keeps]:
  assumes ok: "client_ok c"
  shows "okM (CreateTcpSockfd uri c)"
  unfolding okM_def
proof (intro allI impI)
  fix fd c' assume assms: "CreateTcpSockfd uri c = Inr (fd, c')"
  show "client_ok c'"
  proof (cases "0 < RtspSockfd c")
    case False
    obtain u c1 where u: "uri_of uri c = (u, c1)" by fastforce
    then have c1: "client_ok c1" using uri_of_ok ok by blast
    obtain fd2 c2 where s: "sys_socket c1 = (fd2, c2)" by fastforce
    then have c2: "client_ok c2" "0 \<le> fd2 \<Longrightarrow> socks c2 fd2 \<noteq> None" using sys_socket_ok [OF c1] by auto
    show ?thesis
    proof (cases "u = None \<or> fd2 < 0")
      case True
      then show ?thesis
        using assms False u s c1 c2 by (auto simp: CreateTcpSockfd_def intro!: set_sockfd_ok split: option.splits if_splits)
    next
      case open': False
      then obtain v where v: "u = Some v" by auto
      obtain port c3 addr c4 where g: "(if RtspOverHttpDataPort c2 > 0 then Inr (RtspPort c2, c2) else GetPort uri c2) = Inr (port, c3)"
          "GetIP uri c3 = Inr (addr, c4)"
        using assms False u s open' v by (auto simp: CreateTcpSockfd_def ub_bind_eq_Inr)
      then have c4: "client_ok c4" "socks c4 = socks c2"
        using Get_ok c2(1) by (auto split: if_splits)
      obtain r c5 where k: "sys_connect fd2 addr port c4 = (r, c5)" by fastforce
      then have c5: "client_ok c5" "socks c5 = socks c2" using sys_connect_ok [OF c4(1)] c4(2) by auto
      then show ?thesis
        using assms False u s open' v g k c2(2)
        by (auto simp: CreateTcpSockfd_def intro!: set_sockfd_ok close_sockfd_ok split: if_splits)
    qed
  qed (use assms ok in \<open>simp add: CreateTcpSockfd_def\<close>)
qed

lemma close_other_ok: "client_ok c \<Longrightarrow> (0 < RtspSockfd c \<Longrightarrow> fd \<noteq> RtspSockfd c) \<Longrightarrow> client_ok (snd (sys_close fd c))"
  unfolding sys_close_def by (auto simp: client_ok_def)

lemma CreateTcpSockfd_port_ok [keeps]:
  assumes ok: "client_ok c"
  shows "okM (CreateTcpSockfd_port port c)"
  unfolding okM_def
proof (intro allI impI)
  fix fd c' assume assms: "CreateTcpSockfd_port port c = Inr (fd, c')"
  show "client_ok c'"
  proof (cases "0 < RtspOverHttpDataSockfd c \<or> RtspURI c = []")
    case False
    obtain fd2 c2 where s: "sys_socket c = (fd2, c2)" by fastforce
    then have c2: "client_ok c2" "0 \<le> fd2 \<Longrightarrow> socks c fd2 = None" "RtspSockfd c2 = RtspSockfd c"
      using sys_socket_ok [OF ok] by (auto simp: sys_socket_def split: list.splits prod.splits if_splits)
    show ?thesis
    proof (cases "fd2 < 0")
      case True
      then show ?thesis using assms False s c2(1) by (auto simp: CreateTcpSockfd_port_def)
    next
      case open': False
      obtain addr c4 where g: "GetIP (RtspURI c2) c2 = Inr (addr, c4)"
        using assms False s open' by (auto simp: CreateTcpSockfd_port_def ub_bind_eq_Inr)
      then have c4: "client_ok c4" "RtspSockfd c4 = RtspSockfd c" using Get_ok c2 by auto
      obtain r c5 where k: "sys_connect fd2 addr port c4 = (r, c5)" by fastforce
      then have c5: "client_ok c5" "RtspSockfd c5 = RtspSockfd c" using sys_connect_ok [OF c4(1)] c4(2) by auto
      have "0 < RtspSockfd c \<Longrightarrow> RtspSockfd c \<noteq> fd2"
        using ok c2(2) open' by (auto simp: client_ok_def)
      then have "client_ok (snd (sys_close fd2 c5))"
        using close_other_ok [OF c5(1), of fd2] c5(2) by metis
      then show ?thesis
        using assms False s open' g k c5 by (auto simp: CreateTcpSockfd_port_def split: if_splits)
    qed
  qed (use assms ok in \<open>auto simp: CreateTcpSockfd_port_def split: if_splits\<close>)
qed

lemma Get_keeps [keeps]:
  "client_ok c \<Longrightarrow> okM (GetIP uri c)" "client_ok c \<Longrightarrow> okM (GetPort uri c)" "client_ok c \<Longrightarrow> okM (GetResource uri c)"
  using Get_ok by (auto simp: okM_def)

lemma SendRTSP_string_ok [keeps]: "client_ok c \<Longrightarrow> client_ok (snd (SendRTSP_string fd msg c))"
  using on_socket_ok [of c fd "SendRTSP_bytes fd (bytes_of msg)"] by (auto simp: SendRTSP_string_def split: prod.splits)

lemma SendRTSP_ok [keeps]: "client_ok c \<Longrightarrow> client_ok (snd (SendRTSP fd port msg c))"
  using SendRTSP_string_ok [of c fd msg] SendRTSP_string_ok [of c fd "cstr (base64Encode (bytes_of msg))"]
  by (auto simp: SendRTSP_def Let_def intro: Close_ok split: prod.split)

lemma RecvRTSP_string_ok [keeps]: "client_ok c \<Longrightarrow> client_ok (snd (RecvRTSP_string fd c))"
  using on_socket_ok [of c fd "RecvRTSP_bytes fd RECV_BUF_SIZE []"] by (auto simp: RecvRTSP_string_def split: prod.splits)

lemma lock_session_ok [keeps]: "client_ok c \<Longrightarrow> okC (lock_session it c)" "client_ok c \<Longrightarrow> okC (unlock_session it c)"
  unfolding lock_session_def unlock_session_def
  by (intro keeps okC_pure put_session_ok; simp add: ms_LockSocket_ok session_at_ok)+

lemma RecvRTSP_ok [keeps]: "client_ok c \<Longrightarrow> okM (RecvRTSP fd port c)"
  unfolding RecvRTSP_def Let_def by (intro keeps)

lemma RecvSDP_ok [keeps]: "client_ok c \<Longrightarrow> okM (RecvSDP fd c)"
  unfolding RecvSDP_def Let_def by (intro keeps okM_pure) (simp_all add: okM_intros split: prod.split)

lemma SetAvailableRTPPort_ok [keeps]: "client_ok c \<Longrightarrow> okM (SetAvailableRTPPort k p c)"
  unfolding SetAvailableRTPPort_def Let_def by (intro keeps okM_prod; simp)

subsection \<open>Authentication\<close>

lemma next_cseq_ok [simp]: "client_ok (next_cseq c) = client_ok c"
  by (simp add: next_cseq_def)

lemma answer_challenge_ok [keeps]: "client_ok c \<Longrightarrow> okM (answer_challenge cmd uri c)"
  unfolding answer_challenge_def Let_def by (intro keeps okM_pure okM_prod; simp)

lemma CheckAuth_ok [keeps]: "client_ok c \<Longrightarrow> okM (CheckAuth fd cmd uri c)"
  unfolding CheckAuth_def Let_def by (intro keeps; simp)

lemma exchange_ok [keeps]: "client_ok c \<Longrightarrow> okM (exchange fd cmd uri msg nr c)"
  unfolding exchange_def by (intro keeps)


subsection \<open>The commands\<close>

lemma parseUri_ok [keeps]: "client_ok c \<Longrightarrow> okM (parseUriWithUserPwd uri c)"
  unfolding parseUriWithUserPwd_def by (intro keeps okM_pure okM_prod; simp)

lemma command_uri_ok [keeps]: "client_ok c \<Longrightarrow> okM (command_uri uri c)"
  unfolding command_uri_def by (intro keeps; simp)

lemma DoDESCRIBE_ok [keeps]: "client_ok c \<Longrightarrow> okM (DoDESCRIBE uri nr c)"
  unfolding DoDESCRIBE_def Let_def by (intro keeps; simp)

lemma DoOPTIONS_ok [keeps]: "client_ok c \<Longrightarrow> okM (DoOPTIONS uri nr c)"
  unfolding DoOPTIONS_def Let_def by (intro keeps; simp)

lemma DoPAUSE_ok [keeps]: "client_ok c \<Longrightarrow> okM (DoPAUSE k nr c)"
  unfolding DoPAUSE_def Let_def by (intro keeps okM_pure; simp)

lemma DoGET_PARAMETER_ok [keeps]: "client_ok c \<Longrightarrow> okM (DoGET_PARAMETER k nr c)"
  unfolding DoGET_PARAMETER_def Let_def by (intro keeps okM_pure; simp)

lemma SetDestroiedClbk_type_ok [keeps]: "client_ok c \<Longrightarrow> okC (SetDestroiedClbk_type t clbk c)"
  unfolding SetDestroiedClbk_type_def by (intro keeps; simp)

lemma next_env_ok [keeps]: "client_ok c \<Longrightarrow> client_ok (snd (next_env c))"
  by (simp add: next_env_def split: list.split)

lemma finish_setup_ok [keeps]: "client_ok c \<Longrightarrow> okM (finish_setup k fd tcp c)"
  unfolding finish_setup_def Let_def by (intro keeps okM_pure; simp)

lemma DoSETUP_ok [keeps]: "client_ok c \<Longrightarrow> okM (DoSETUP k tcp nr c)"
  unfolding DoSETUP_def Let_def by (intro keeps okM_pure; simp)

lemma DoPLAY_ok [keeps]: "client_ok c \<Longrightarrow> okM (DoPLAY k scl t0 t1 nr c)"
  unfolding DoPLAY_def Let_def by (intro keeps okM_pure; simp)

lemma erase_session_ok: "client_ok c \<Longrightarrow> client_ok (erase_session sid c)"
  by (auto simp: erase_session_def client_ok_def split: option.split prod.split dest: smap_erase_mem)

lemma DoTEARDOWN_ok [keeps]: "client_ok c \<Longrightarrow> okM (DoTEARDOWN k nr c)"
  unfolding DoTEARDOWN_def Let_def by (intro keeps okM_pure erase_session_ok; simp)

text \<open>A command on one session, and what that gives for all sessions and for a type.\<close>

locale session_command =
  fixes cmd :: "string \<Rightarrow> client \<Rightarrow> outcome"
  assumes cmd_ok: "client_ok c \<Longrightarrow> okM (cmd k c)"
begin

lemma for_sessions_ok: "client_ok c \<Longrightarrow> okM (for_sessions cmd ks err c)"
proof (induction ks arbitrary: err c)
  case (Cons k ks)
  show ?case unfolding for_sessions.simps by (intro keeps cmd_ok Cons.IH Cons.prems)
qed (simp add: okM_intros)

lemma all_ok: "client_ok c \<Longrightarrow> okM (all_sessions cmd c)"
  unfolding all_sessions_def by (rule for_sessions_ok)

lemma type_ok: "client_ok c \<Longrightarrow> okM (session_of_type cmd t c)"
  unfolding session_of_type_def by (intro keeps cmd_ok)

end

interpretation pause: session_command "\<lambda>k. DoPAUSE (Some k) nr" for nr
  by standard (rule DoPAUSE_ok)

interpretation get_parameter: session_command "\<lambda>k. DoGET_PARAMETER (Some k) nr" for nr
  by standard (rule DoGET_PARAMETER_ok)

interpretation set_up: session_command "\<lambda>k. DoSETUP (Some k) tcp nr" for tcp nr
  by standard (rule DoSETUP_ok)

interpretation play: session_command "\<lambda>k. DoPLAY (Some k) scl t0 t1 nr" for scl t0 t1 nr
  by standard (rule DoPLAY_ok)

interpretation teardown: session_command "\<lambda>k. DoTEARDOWN (Some k) nr" for nr
  by standard (rule DoTEARDOWN_ok)

lemma typed_commands_ok [keeps]:
  "client_ok c \<Longrightarrow> okM (DoPAUSE_all c)" "client_ok c \<Longrightarrow> okM (DoPAUSE_type t nr c)"
  "client_ok c \<Longrightarrow> okM (DoGET_PARAMETER_all c)" "client_ok c \<Longrightarrow> okM (DoGET_PARAMETER_type t nr c)"
  "client_ok c \<Longrightarrow> okM (DoSETUP_all c)" "client_ok c \<Longrightarrow> okM (DoSETUP_type t tcp c)"
  "client_ok c \<Longrightarrow> okM (DoPLAY_all c)" "client_ok c \<Longrightarrow> okM (DoPLAY_type t scl t0 t1 nr c)"
  "client_ok c \<Longrightarrow> okM (DoTEARDOWN_type t nr c)"
  by (simp_all add: DoPAUSE_all_def DoPAUSE_type_def DoGET_PARAMETER_all_def DoGET_PARAMETER_type_def
      DoSETUP_all_def DoSETUP_type_def DoPLAY_all_def DoPLAY_type_def DoTEARDOWN_type_def
      pause.all_ok pause.type_ok get_parameter.all_ok get_parameter.type_ok set_up.all_ok set_up.type_ok
      play.all_ok play.type_ok teardown.type_ok)

lemma DoTEARDOWN_all_ok [keeps]: "client_ok c \<Longrightarrow> okM (DoTEARDOWN_all c)"
  unfolding DoTEARDOWN_all_def by (intro keeps)

lemma UpdateXSessionCookie_ok [keeps]: "client_ok c \<Longrightarrow> okC (UpdateXSessionCookie c)"
  unfolding UpdateXSessionCookie_def by (intro keeps okC_pure; simp)

lemma DoRtspOverHttp_ok [keeps]:
  "client_ok c \<Longrightarrow> okM (DoRtspOverHttpGet c)" "client_ok c \<Longrightarrow> okM (DoRtspOverHttpPost c)"
  unfolding DoRtspOverHttpGet_def DoRtspOverHttpPost_def by (intro keeps; assumption)+

subsection \<open>Sessions and media data\<close>

lemma frame_name_keeps:
  "CreateNewFrameType enc = Some f \<Longrightarrow> frame_name f = enc"
  "frame_ParseParaFromSDP info f = Inr f' \<Longrightarrow> frame_name f' = frame_name f"
  "frame_ParsePacket f p n endp = Inr (rc, e, f') \<Longrightarrow> frame_name f' = frame_name f"
  "frame_PrefixParameterOnce f = (bs, b, f') \<Longrightarrow> frame_name f' = frame_name f"
  by (auto simp: CreateNewFrameType_def split: if_splits)
    (cases f; auto simp: ub_bind_eq_Inr split: prod.splits)+


text \<open>The loop keeps the type of the frame object and the size of the buffer.\<close>

lemma wait_packet_cap: "wait_packet pick cap u ps = Inr (Some d, ps') \<Longrightarrow> length d \<le> cap"
proof (induction pick cap u ps rule: wait_packet.induct)
  case (1 pick cap u ps)
  obtain e r where e: "next_event ps = (e, r)" by fastforce
  show ?case
  proof (cases "IsError (poll_status e) = RTP_ERROR \<or> event_packet e \<noteq> None \<or> u - 1 = 0")
    case True
    then show ?thesis using "1.prems" e by (subst (asm) wait_packet.simps) (auto split: if_splits option.splits)
  next
    case False
    then have h: "IsError (poll_status e) \<noteq> RTP_ERROR" "event_packet e = None" "u - 1 \<noteq> 0" by auto
    then have "wait_packet pick cap (u - 1) r = Inr (Some d, ps')"
      using "1.prems" e by (subst (asm) wait_packet.simps) simp
    then show ?thesis by (rule "1.IH" [OF e [symmetric] h])
  qed
qed

lemma tcp_wait_cap: "tcp_wait_data cap u s = Inr (Some d, s') \<Longrightarrow> length d \<le> cap"
proof (induction cap u s rule: tcp_wait_data.induct)
  case (1 cap u s)
  obtain locked s1 where l: "TryLockSocket s = (locked, s1)" by fastforce
  obtain e r where e: "next_event (polls s1) = (e, r)" by fastforce
  let ?s2 = "s1\<lparr>polls := r\<rparr>"
  let ?s3 = "if locked then session_UnlockSocket ?s2 else ?s2"
  have eq: "tcp_wait_data cap u s =
     (if locked \<and> IsError (poll_status e) = RTP_ERROR then Inr (None, ?s2)
      else case event_packet e of
        None \<Rightarrow> if u - 1 = 0 then Inr (Some [], ?s3) else tcp_wait_data cap (u - 1) ?s3
      | Some pack \<Rightarrow> if cap < length (packet_payload pack) then Inl Overrun else Inr (Some (packet_payload pack), ?s3))"
    by (subst tcp_wait_data.simps) (simp only: l e Let_def prod.case)
  show ?case
  proof (cases "(locked \<and> IsError (poll_status e) = RTP_ERROR) \<or> event_packet e \<noteq> None \<or> u - 1 = 0")
    case True
    then show ?thesis using "1.prems" unfolding eq by (auto split: if_splits option.splits)
  next
    case False
    then have h: "\<not> (locked \<and> IsError (poll_status e) = RTP_ERROR)" "event_packet e = None" "u - 1 \<noteq> 0" by auto
    have "tcp_wait_data cap (u - 1) ?s3 = Inr (Some d, s')"
      using "1.prems" unfolding eq by (simp only: h if_False option.case)
    then show ?thesis by (rule "1.IH" [OF refl l [symmetric] refl e [symmetric] refl h(1) refl h(2,3)])
  qed
qed

lemma ms_GetMediaData_cap:
  "ms_GetMediaData bufp sizep cap t ms = Inr (Some d, ms') \<Longrightarrow> length d \<le> cap"
  by (auto simp: ms_GetMediaData_def on_session_def ub_bind_eq_Inr GetMyRTPData_defs lift_polls_def
      split: option.splits session_kind.splits if_splits dest: wait_packet_cap tcp_wait_cap)

lemma ms_GetMediaData_same:
  "ms_GetMediaData bufp sizep cap t ms = Inr (d, ms') \<Longrightarrow> session_ok k ms' = session_ok k ms \<and> ms_frame ms' = ms_frame ms"
  "ms_GetMediaPacket bufp sizep cap t ms = Inr (d, ms') \<Longrightarrow> session_ok k ms' = session_ok k ms \<and> ms_frame ms' = ms_frame ms"
  by (auto simp: ms_GetMediaData_def ms_GetMediaPacket_def on_session_def ub_bind_eq_Inr split: option.splits)

lemma session_ok_frame:
  "session_ok k ms \<Longrightarrow> ms_frame ms = Some f \<Longrightarrow> (frame_inv f \<Longrightarrow> frame_inv f') \<Longrightarrow> frame_name f' = frame_name f \<Longrightarrow>
   session_ok k (ms\<lparr>ms_frame := Some f'\<rparr>)"
  by (simp add: session_ok_def)

lemma session_ok_parse:
  "session_ok k ms \<Longrightarrow> ms_frame ms = Some f \<Longrightarrow> frame_ParsePacket f p n endp = Inr (rc, e, f') \<Longrightarrow>
   session_ok k (ms\<lparr>ms_frame := Some f'\<rparr>)"
  using session_ok_frame frame_ParsePacket_inv frame_name_keeps(3) by blast

lemma media_loop_ok:
  "media_loop max_size vbuf out ms = Inr (r, out', vbuf', ms') \<Longrightarrow> session_ok k ms \<Longrightarrow>
   session_ok k ms' \<and> length vbuf' = length vbuf"
proof (induction "pending ms" arbitrary: vbuf out ms rule: less_induct)
  case less
  show ?case
  proof (cases "ms_GetMediaData True True (length vbuf) TIMEOUT_MICROSECONDS ms")
    case (Inl e)
    then show ?thesis using less.prems(1) by (subst (asm) media_loop.simps) simp
  next
    case (Inr p)
    then obtain d ms1 where g: "ms_GetMediaData True True (length vbuf) TIMEOUT_MICROSECONDS ms = Inr (d, ms1)"
      by (cases p) auto
    have ms1: "session_ok k ms1" "ms_frame ms1 = ms_frame ms" using ms_GetMediaData_same(1) [OF g] less.prems(2) by auto
    show ?thesis
    proof (cases d)
      case None
      then show ?thesis using less.prems(1) g ms1 by (subst (asm) media_loop.simps) simp
    next
      case (Some x)
      have cap: "length x \<le> length vbuf" using ms_GetMediaData_cap g Some by blast
      let ?v = "x @ drop (length x) vbuf"
      have v: "length ?v = length vbuf" using cap by simp
      note frame = session_ok_parse [OF ms1(1)]
      show ?thesis
      proof (cases "\<exists>f f1 bytes. x \<noteq> [] \<and> \<not> max_size < length out + length x \<and> ms_frame ms1 = Some f \<and>
          frame_ParsePacket f (Some ?v) (length x) True = Inr (0, Some False, f1) \<and>
          frame_CopyData f1 True (Some ?v) (length x) = Inr bytes \<and> \<not> max_size < length out + length bytes")
        case True
        then obtain f f1 bytes where t: "x \<noteq> []" "\<not> max_size < length out + length x" "ms_frame ms1 = Some f"
            "frame_ParsePacket f (Some ?v) (length x) True = Inr (0, Some False, f1)"
            "frame_CopyData f1 True (Some ?v) (length x) = Inr bytes" "\<not> max_size < length out + length bytes"
          by blast
        have "media_loop max_size ?v (out @ bytes) (ms1\<lparr>ms_frame := Some f1\<rparr>) = Inr (r, out', vbuf', ms')"
          using less.prems(1) g Some t cap by (subst (asm) media_loop.simps) (simp add: Let_def not_less)
        moreover have "pending (ms1\<lparr>ms_frame := Some f1\<rparr>) < pending ms"
          using ms_GetMediaData_pending [of True True "length vbuf" TIMEOUT_MICROSECONDS ms x ms1] g Some t(1) by simp
        ultimately show ?thesis using less.hyps frame [OF t(3,4)] v by metis
      next
        case False
        then show ?thesis
          using less.prems(1) g Some ms1(1) v
          by (subst (asm) media_loop.simps)
            (auto simp: Let_def not_less intro: frame split: if_splits option.splits sum.splits prod.splits)
      qed
    qed
  qed
qed

lemma prefix_once_ok: "prefix_once ms = Inr (b, bs, ms') \<Longrightarrow> session_ok k ms \<Longrightarrow> session_ok k ms'"
  by (auto simp: prefix_once_def intro: session_ok_frame [OF _ _ frame_PrefixParameterOnce_inv frame_name_keeps(4)]
      split: option.splits if_splits prod.splits)

lemma buffer_ok: "client_ok c \<Longrightarrow> length v = length (VideoBuffer c) \<Longrightarrow> client_ok (c\<lparr>VideoBuffer := v\<rparr>)"
  by (simp add: client_ok_def)

lemma GetMediaData_ok [keeps]: "client_ok c \<Longrightarrow> okM (GetMediaData m bufp sizep max_size c)"
proof (cases m)
  case (Some k)
  assume c: "client_ok c"
  then show ?thesis
    unfolding GetMediaData_def Some option.case
    by (intro keeps okM_pure okM_prod put_session_ok)
      (auto intro!: okM_intros put_session_ok buffer_ok split: prod.split
        dest!: session_at_ok [OF c] prefix_once_ok [where k = k] media_loop_ok [where k = k])
qed (simp add: GetMediaData_def okM_intros)

lemma GetMediaPacket_ok [keeps]: "client_ok c \<Longrightarrow> okM (GetMediaPacket m bufp sizep cap c)"
proof (cases m)
  case (Some k)
  assume c: "client_ok c"
  then show ?thesis
    unfolding GetMediaPacket_def Some option.case
    by (intro keeps okM_pure okM_prod put_session_ok) (auto dest!: session_at_ok [OF c] ms_GetMediaData_same(2) [where k = k])
qed (simp add: GetMediaPacket_def okM_intros)

lemma GetMedia_type_ok [keeps]:
  "client_ok c \<Longrightarrow> okM (GetMediaData_type t bufp sizep max_size c)"
  "client_ok c \<Longrightarrow> okM (GetMediaPacket_type t bufp sizep cap c)"
  unfolding GetMediaData_type_def GetMediaPacket_type_def by (intro keeps; assumption)+

lemma callbacks_ok [keeps]:
  "client_ok c \<Longrightarrow> okC (SetDestroiedClbk m clbk c)"
  "client_ok c \<Longrightarrow> okC (SetAudioByeFromServerClbk clbk c)" "client_ok c \<Longrightarrow> okC (SetVideoByeFromServerClbk clbk c)"
  "client_ok c \<Longrightarrow> okC (SetRtspCmdClbk t clbk c)"
  unfolding SetDestroiedClbk_def SetAudioByeFromServerClbk_def SetVideoByeFromServerClbk_def SetRtspCmdClbk_def
  by (intro keeps; simp)+

lemma SetURI_ok [keeps]: "client_ok c \<Longrightarrow> okC (SetURI uri c)"
  unfolding SetURI_def by (intro keeps; simp)

lemma set_codec_ok: "set_codec info attrs ms = Inr ms' \<Longrightarrow> ms_frame ms = None \<Longrightarrow> session_ok k ms \<Longrightarrow> session_ok k ms'"
  by (auto simp: set_codec_def ub_bind_eq_Inr session_ok_def frame_name_keeps split: option.splits
      intro: frame_ParseParaFromSDP_inv CreateNewFrameType_inv)

lemma set_numbers_ok [simp]: "session_ok k (set_numbers attrs ms) = session_ok k ms"
  by (simp add: set_numbers_def Let_def split: option.split)

lemma session_of_info_ok: "session_of_info base info = Inr ms \<Longrightarrow> session_ok (mediaType info) ms"
proof -
  let ?ms0 = "new_media_session\<lparr>MediaType := mediaType info, Protocol := transProt info\<rparr>"
  have 0: "session_ok (mediaType info) ?ms0" "ms_frame ?ms0 = None"
    by (simp_all add: session_ok_def new_media_session_def)
  assume "session_of_info base info = Inr ms"
  then show ?thesis
    using 0 by (auto simp: session_of_info_def Let_def ub_bind_eq_Inr split: list.splits prod.splits
      dest!: set_codec_ok [where k = "mediaType info"])
qed

lemma add_sessions_ok [keeps]: "client_ok c \<Longrightarrow> okC (add_sessions infos c)"
proof (induction infos c rule: add_sessions.induct)
  case (2 key info infos c)
  show ?case
    unfolding add_sessions.simps
    by (intro keeps okC_pure "2.IH" put_session_ok) (use 2(3) session_of_info_ok in auto)
qed (simp add: okC_intros)

lemma check_sessions_ok:
  "check_sessions m = Inr m' \<Longrightarrow> smap_keys m' = smap_keys m \<and>
   ((\<forall>(k, ms) \<in> set m. session_ok k ms) \<longrightarrow> (\<forall>(k, ms) \<in> set m'. session_ok k ms))"
proof (induction m arbitrary: m')
  case (Cons x m)
  obtain k ms where x: "x = (k, ms)" by fastforce
  have "MediaInfoCheck ms = Inr (rc, ms') \<Longrightarrow> session_ok k ms' = session_ok k ms" for rc ms'
    by (auto simp: MediaInfoCheck_def ub_bind_eq_Inr split: list.splits if_splits)
  then show ?case using Cons x by (auto simp: ub_bind_eq_Inr)
qed simp

lemma smap_inv_keys: "smap_keys m' = smap_keys m \<Longrightarrow> smap_inv m' = smap_inv m"
  by (simp add: smap_inv_def)

lemma ParseSDP_ok [keeps]: "client_ok c \<Longrightarrow> okM (ParseSDP txt c)"
proof -
  assume c: "client_ok c"
  have check: "client_ok (c1\<lparr>MediaSessionMap := m\<rparr>)" if "client_ok c1" "check_sessions (MediaSessionMap c1) = Inr m" for c1 m
    using that check_sessions_ok [OF that(2)] smap_inv_keys by (auto simp: client_ok_def)
  show ?thesis
    unfolding ParseSDP_def Let_def
    by (intro keeps okM_pure check) (use c SDPData_parse_ok in \<open>auto simp: client_ok_def\<close>)
qed

subsection \<open>Reachable clients\<close>

text \<open>A call of a public method that returns, whatever it returns: one rule for each method of the public
  parts of rtspClient.h that changes the object (and for the protected overload of \<open>GetMediaData\<close>).
  The remaining public methods are getters and parsers that return a value: \<open>GetTimeRate\<close>,
  \<open>GetChannelNum\<close>, \<open>ParseSessionID\<close>, \<open>ParseTimeout\<close>, \<open>GetVideoSession\<close>, \<open>GetAudioSession\<close>,
  \<open>ParseError\<close>, \<open>GetURI\<close>, \<open>GetResponse\<close>, \<open>GetSDP\<close>, \<open>GetMediaSessions\<close>, \<open>IsResponse_200_OK\<close>,
  \<open>MakeMd5DigestResp\<close>, \<open>MakeBasicResp\<close>, \<open>GetUsername\<close>, \<open>GetPassword\<close>, \<open>GetSessionTimeout\<close>; what a
  caller does to a session through the pointers of \<open>GetMediaSessions\<close> is not a call of the client. \<open>nr\<close>
  is \<open>http_tunnel_no_response\<close>, \<open>m\<close> a pointer to a session (\<open>k\<close> one that is not null), \<open>t\<close> a media
  type.\<close>

inductive client_step :: "client \<Rightarrow> client \<Rightarrow> bool" where
  DESCRIBE: "DoDESCRIBE uri nr c = Inr (err, c') \<Longrightarrow> client_step c c'"
| OPTIONS: "DoOPTIONS uri nr c = Inr (err, c') \<Longrightarrow> client_step c c'"
| PAUSE: "DoPAUSE m nr c = Inr (err, c') \<Longrightarrow> client_step c c'"
| PAUSE_all: "DoPAUSE_all c = Inr (err, c') \<Longrightarrow> client_step c c'"
| PAUSE_type: "DoPAUSE_type t nr c = Inr (err, c') \<Longrightarrow> client_step c c'"
| GET_PARAMETER: "DoGET_PARAMETER m nr c = Inr (err, c') \<Longrightarrow> client_step c c'"
| GET_PARAMETER_all: "DoGET_PARAMETER_all c = Inr (err, c') \<Longrightarrow> client_step c c'"
| GET_PARAMETER_type: "DoGET_PARAMETER_type t nr c = Inr (err, c') \<Longrightarrow> client_step c c'"
| SETUP: "DoSETUP m tcp nr c = Inr (err, c') \<Longrightarrow> client_step c c'"
| SETUP_all: "DoSETUP_all c = Inr (err, c') \<Longrightarrow> client_step c c'"
| SETUP_type: "DoSETUP_type t tcp c = Inr (err, c') \<Longrightarrow> client_step c c'"
| PLAY: "DoPLAY m scl t0 t1 nr c = Inr (err, c') \<Longrightarrow> client_step c c'"
| PLAY_all: "DoPLAY_all c = Inr (err, c') \<Longrightarrow> client_step c c'"
| PLAY_type: "DoPLAY_type t scl t0 t1 nr c = Inr (err, c') \<Longrightarrow> client_step c c'"
| TEARDOWN: "DoTEARDOWN m nr c = Inr (err, c') \<Longrightarrow> client_step c c'"
| TEARDOWN_all: "DoTEARDOWN_all c = Inr (err, c') \<Longrightarrow> client_step c c'"
| TEARDOWN_type: "DoTEARDOWN_type t nr c = Inr (err, c') \<Longrightarrow> client_step c c'"
| HTTP_GET: "DoRtspOverHttpGet c = Inr (err, c') \<Longrightarrow> client_step c c'"
| HTTP_POST: "DoRtspOverHttpPost c = Inr (err, c') \<Longrightarrow> client_step c c'"
| SDP: "ParseSDP txt c = Inr (rc, c') \<Longrightarrow> client_step c c'"
| DATA: "GetMediaData m bufp sizep max_size c = Inr (res, c') \<Longrightarrow> client_step c c'"
| DATA_type: "GetMediaData_type t bufp sizep max_size c = Inr (res, c') \<Longrightarrow> client_step c c'"
| PACKET: "GetMediaPacket m bufp sizep cap c = Inr (res', c') \<Longrightarrow> client_step c c'"
| PACKET_type: "GetMediaPacket_type t bufp sizep cap c = Inr (res', c') \<Longrightarrow> client_step c c'"
| TCP: "CreateTcpSockfd uri c = Inr (fd, c') \<Longrightarrow> client_step c c'"
| TCP_data: "CreateTcpSockfd_port p c = Inr (fd, c') \<Longrightarrow> client_step c c'"
| RTP_ports: "SetAvailableRTPPort k p c = Inr (rc, c') \<Longrightarrow> client_step c c'"
| USER_PWD: "parseUriWithUserPwd uri c = Inr (s, c') \<Longrightarrow> client_step c c'"
| IP_of: "GetIP uri c = Inr (a, c') \<Longrightarrow> client_step c c'"
| PORT_of: "GetPort uri c = Inr (p, c') \<Longrightarrow> client_step c c'"
| RESOURCE: "GetResource uri c = Inr (s, c') \<Longrightarrow> client_step c c'"
| AUTH: "CheckAuth fd cmd uri c = Inr (rc, c') \<Longrightarrow> client_step c c'"
| COOKIE: "UpdateXSessionCookie c = Inr c' \<Longrightarrow> client_step c c'"
| URI: "SetURI uri c = Inr c' \<Longrightarrow> client_step c c'"
| CLBK: "SetDestroiedClbk m clbk c = Inr c' \<Longrightarrow> client_step c c'"
| CLBK_type: "SetDestroiedClbk_type t clbk c = Inr c' \<Longrightarrow> client_step c c'"
| CLBK_audio: "SetAudioByeFromServerClbk clbk c = Inr c' \<Longrightarrow> client_step c c'"
| CLBK_video: "SetVideoByeFromServerClbk clbk c = Inr c' \<Longrightarrow> client_step c c'"
| CLBK_cmd: "SetRtspCmdClbk t clbk c = Inr c' \<Longrightarrow> client_step c c'"
| PORT: "client_step c (SetPort port c)"
| USER: "client_step c (SetUsername s c)"
| PASSWORD: "client_step c (SetPassword s c)"
| TUNNEL: "client_step c (SetHttpTunnelPort p c)"

inductive_cases client_stepE: "client_step c c'"

lemma client_step_ok: "client_step c c' \<Longrightarrow> client_ok c \<Longrightarrow> client_ok c'"
  by (erule client_stepE)
    (auto elim!: okM_D [rotated] okC_D [rotated] intro: keeps simp: SetPort_def SetUsername_def SetPassword_def SetHttpTunnelPort_def)

inductive reachable :: "client \<Rightarrow> bool" where
  start: "reachable (new_client system)"
| start_uri: "new_client_uri uri system = Inr c \<Longrightarrow> reachable c"
| step: "reachable c \<Longrightarrow> client_step c c' \<Longrightarrow> reachable c'"

lemma new_client_ok: "client_ok (new_client system)"
  by (simp add: client_ok_def new_client_def os.defs sdp_ok_def new_sdp_data_def min_def)

lemma new_client_uri_ok: "new_client_uri uri system = Inr c \<Longrightarrow> client_ok c"
proof (rule okC_D)
  show "okC (new_client_uri uri system)"
    unfolding new_client_uri_def by (intro keeps; simp add: new_client_ok)
qed

lemma reachable_ok: "reachable c \<Longrightarrow> client_ok c"
  by (induction rule: reachable.induct) (auto intro: new_client_ok new_client_uri_ok client_step_ok)


subsection \<open>Properties\<close>

text \<open>C21: the class invariant holds in every client that calls of the public methods reach, whatever the
  server sends and whichever system calls fail: the sessions are ordered by their media type, a positive
  \<open>RtspSockfd\<close> is open, \<open>VideoBuffer\<close> keeps its size and the description stays well formed.\<close>

theorem client_invariant:
  assumes "reachable c"
  shows "smap_inv (MediaSessionMap c) \<and> (\<forall>(k, ms) \<in> set (MediaSessionMap c). MediaType ms = k) \<and>
    (0 < RtspSockfd c \<longrightarrow> socks c (RtspSockfd c) \<noteq> None) \<and>
    length (VideoBuffer c) = 8192 \<and> sdp_ok (sdpData c)"
  using reachable_ok [OF assms] by (auto simp: client_ok_def session_ok_def MEDIA_BUFSIZ_def)

text \<open>A refused connection, then one that is made: the second descriptor is open.\<close>

theorem client_invariant_witness:
  "\<exists>c1 c2. CreateTcpSockfd ''rtsp://1.2.3.4:8554/x''
       (new_client ((sample_os Map.empty)\<lparr>new_socks := [(7, sample_net []), (8, sample_net [])], connects := [Refused]\<rparr>)) =
     Inr (- 1, c1) \<and> socks c1 7 = None \<and> CreateTcpSockfd [] c1 = Inr (8, c2) \<and> RtspSockfd c2 = 8 \<and>
     socks c2 8 \<noteq> None \<and> length (VideoBuffer c2) = 8192"
proof -
  let ?u = "''rtsp://1.2.3.4:8554/x''"
  let ?c = "new_client ((sample_os Map.empty)\<lparr>new_socks := [(7, sample_net []), (8, sample_net [])], connects := [Refused]\<rparr>)"
  have "map_option group1 (rx_groups_ic ?u IP_PATTERN) = Some (Inr ''1.2.3.4'')"
    "map_option group1 (rx_groups_ic ?u PORT_PATTERN) = Some (Inr ''8554'')"
    by code_simp+
  then obtain g g' where ip: "rx_groups_ic ?u IP_PATTERN = Some g" "group1 g = Inr ''1.2.3.4''"
    and port: "rx_groups_ic ?u PORT_PATTERN = Some g'" "group1 g' = Inr ''8554''"
    by (auto simp: map_option_eq_Some)
  obtain c1 where c1: "CreateTcpSockfd ?u ?c = Inr (- 1, c1)" "RtspURI c1 = ?u" "socks c1 7 = None"
      "socks c1 8 = None" "new_socks c1 = [(8, sample_net [])]" "connects c1 = []" "RtspSockfd c1 = - 1" "RtspOverHttpDataPort c1 = 0"
    using ip port by (auto simp: CreateTcpSockfd_def uri_of_def sys_socket_def GetPort_def GetIP_def sys_connect_def sys_close_def
        new_client_def os.defs sample_os_def)
  obtain c2 where c2: "CreateTcpSockfd [] c1 = Inr (8, c2)" "RtspSockfd c2 = 8"
    using ip port c1(2-) by (auto simp: CreateTcpSockfd_def uri_of_def sys_socket_def GetPort_def GetIP_def sys_connect_def)
  have "reachable c2"
    by (rule reachable.step [OF reachable.step [OF reachable.start TCP [OF c1(1)]] TCP [OF c2(1)]])
  then have "socks c2 8 \<noteq> None \<and> length (VideoBuffer c2) = 8192"
    using client_invariant [of c2] c2(2) by simp
  then show ?thesis using c1(1,3) c2 by blast
qed

end
