(* ===== verification/Sdp_Parameters.thy ===== *)
theory Sdp_Parameters
  imports Sdp_Attributes
begin

section \<open>The parameters of H.264 and the order of the patterns\<close>

text \<open>
  The parser tries four patterns on the value of an attribute, in a fixed order. This theory says what
  the \<open>fmtp\<close> pattern of H.264 finds and that the patterns that are tried before the right one find
  nothing: \<open>sdp_attribute_rtpmap\<close>, \<open>sdp_attribute_control\<close> and \<open>sdp_attribute_fmtp\<close> are what
  \<open>sdp_attribute\<close> does with the three attributes.
\<close>

subsection \<open>Occurrences\<close>

lemma takeWhile_until: "c \<notin> set u \<Longrightarrow> takeWhile (\<lambda>d. d \<noteq> c) (u @ c # v) = u"
  by (induction u) auto

text \<open>A text with a single colon contains a name that ends in a colon only right before it.\<close>

lemma single_colon:
  assumes "p @ CHR '':'' # q = x @ l @ CHR '':'' # z" "CHR '':'' \<notin> set p" "CHR '':'' \<notin> set q" "CHR '':'' \<notin> set l"
  shows "p = x @ l"
proof -
  have "count_list (p @ CHR '':'' # q) CHR '':'' = 1" using assms(2,3) by (simp add: count_list_0_iff)
  then have "CHR '':'' \<notin> set (x @ l)" using assms(4) unfolding assms(1) by (simp add: count_list_0_iff)
  then show ?thesis
    using takeWhile_until [of _ "x @ l" z] takeWhile_until [OF assms(2), of q] assms(1) by simp
qed

text \<open>A literal with a dash occurs only once in front of a text without dashes.\<close>

lemma dash_once:
  assumes "l @ v = x @ l @ z" "l = p @ CHR ''-'' # q" "CHR ''-'' \<notin> set p" "CHR ''-'' \<notin> set v"
  shows "x = []"
proof -
  have "count_list (l @ v) CHR ''-'' = count_list (x @ l @ z) CHR ''-''" using assms(1) by simp
  then have x: "CHR ''-'' \<notin> set x" using assms(4) by (simp add: count_list_0_iff)
  have "p = x @ p"
    using takeWhile_until [OF assms(3), of "q @ v"] takeWhile_until [of _ "x @ p" "q @ z"] x assms by simp
  then show ?thesis by simp
qed

fun no_pair :: "char \<Rightarrow> char \<Rightarrow> string \<Rightarrow> bool" where
  "no_pair a b (x # y # s) = (\<not> (x = a \<and> y = b) \<and> no_pair a b (y # s))"
| "no_pair a b _ = True"

lemma no_pair_append:
  "no_pair a b (u @ v) \<longleftrightarrow> no_pair a b u \<and> no_pair a b v \<and> (u \<noteq> [] \<and> v \<noteq> [] \<longrightarrow> \<not> (List.last u = a \<and> hd v = b))"
  by (induction a b u rule: no_pair.induct) (auto, (cases v; auto)+)

lemma no_pair_Cons: "no_pair a b (x # s) \<longleftrightarrow> no_pair a b s \<and> (s \<noteq> [] \<longrightarrow> \<not> (x = a \<and> hd s = b))"
  by (cases s) auto

lemma no_pair_absent: "a \<notin> set s \<Longrightarrow> no_pair a b s"
  by (induction a b s rule: no_pair.induct) auto

subsection \<open>The pattern of H.264\<close>

abbreviation b64_cls :: "(char \<times> char) list" where
  "b64_cls \<equiv> [(CHR ''A'', CHR ''Z''), (CHR ''a'', CHR ''z''), (CHR ''0'', CHR ''9''), (CHR ''+'', CHR ''+''),
    (CHR ''/'', CHR ''/''), (CHR ''='', CHR ''='')]"

abbreviation mode_cls :: "(char \<times> char) list" where
  "mode_cls \<equiv> [(CHR ''0'', CHR ''2'')]"

definition sets_re :: re where
  "sets_re = lit_cat ''sprop-parameter-sets='' (Cat (Group 3 (run False b64_cls)) (lit_cat '','' (Group 4 (run False b64_cls))))"

definition fmtp264_re :: re where
  "fmtp264_re = Cat (Group 1 (run True [])) (Cat Blanks (lit_cat ''packetization-mode=''
     (Cat (Group 2 (Cls False mode_cls)) (lit_cat '';'' (Cat (Star Dot) sets_re)))))"

lemma regcomp_fmtp264:
  "regcomp (cstr SDP_FMTP_H264_PATTERN) =
     Some \<lparr>at_start = False, at_end = False, expr = lit_cat ''fmtp:'' fmtp264_re\<rparr>"
  unfolding fmtp264_re_def sets_re_def by code_simp

lemma count_fmtp264: "count_list (cstr SDP_FMTP_H264_PATTERN) CHR ''('' = 4"
  by code_simp

definition fmtp264_text :: "string \<Rightarrow> char \<Rightarrow> string \<Rightarrow> string \<Rightarrow> string \<Rightarrow> string" where
  "fmtp264_text pt mode mid sps pps =
     pt @ CHR '' '' # ''packetization-mode='' @ mode # CHR '';'' # mid @ ''sprop-parameter-sets='' @ sps @ CHR '','' # pps"

lemma yields_fmtp264:
  assumes "pt \<noteq> []" "in_cls False mode_cls mode" "run_ok b64_cls sps" "run_ok b64_cls pps" "CHR '' '' \<notin> set mid"
  shows "yields fmtp264_re (fmtp264_text pt mode mid sps pps) (\<lambda>off.
    let n1 = off + length pt; n2 = n1 + 20; n3 = n2 + 2 + length mid + 21; n4 = n3 + length sps in
    [(1, off, n1), (2, n2, n2 + 1), (3, n3, n4), (4, n4 + 1, n4 + 1 + length pps)])"
proof -
  have b: "\<not> in_cls False b64_cls CHR '','' " "\<not> in_cls False b64_cls CHR '' ''" "\<not> in_cls False b64_cls CHR ''-''"
    "\<not> in_cls False mode_cls CHR '' ''"
    by (simp_all add: in_cls_def in_range_def)
  note runs = run_okD [OF assms(3)] run_okD [OF assms(4)]
  have dash: "CHR ''-'' \<notin> set (sps @ CHR '','' # pps)" "CHR '' '' \<notin> set (sps @ CHR '','' # pps)"
    using runs(2,4) b by auto
  have 1: "yields (lit_cat '','' (Group 4 (run False b64_cls))) (CHR '','' # pps) (\<lambda>off. [(4, off + 1, off + 1 + length pps)])"
    using yields_lit [OF yields_run [OF runs(3,4)], of "'',''" 4] by simp
  have 2: "yields sets_re (''sprop-parameter-sets='' @ sps @ CHR '','' # pps) (\<lambda>off.
      [(3, off + 21, off + 21 + length sps), (4, off + 21 + length sps + 1, off + 21 + length sps + 1 + length pps)])"
    unfolding sets_re_def
    by (rule yields_cong [OF yields_lit [OF yields_run_stop [OF 1 runs(1,2) b(1)]]]) simp
  have 3: "yields (Cat (Star Dot) sets_re) (mid @ ''sprop-parameter-sets='' @ sps @ CHR '','' # pps) (\<lambda>off.
      [(3, off + length mid + 21, off + length mid + 21 + length sps),
       (4, off + length mid + 21 + length sps + 1, off + length mid + 21 + length sps + 1 + length pps)])"
    unfolding sets_re_def
    by (rule yields_dots [OF 2 [unfolded sets_re_def]])
      (rule dash_once [of _ _ _ _ "''sprop''" "''parameter-sets=''"], assumption, use dash(1) in simp_all)
  have 4: "yields (lit_cat '';'' (Cat (Star Dot) sets_re)) (CHR '';'' # mid @ ''sprop-parameter-sets='' @ sps @ CHR '','' # pps)
    (\<lambda>off. [(3, off + 1 + length mid + 21, off + 1 + length mid + 21 + length sps),
       (4, off + 1 + length mid + 21 + length sps + 1, off + 1 + length mid + 21 + length sps + 1 + length pps)])"
    using yields_lit [OF 3, of "'';''"] by simp
  have m: "yields (Group 2 (Cls False mode_cls)) [mode] (\<lambda>off. [(2, off, off + 1)])"
    using assms(2) by (simp add: yields_def)
  have 5: "yields (Cat (Group 2 (Cls False mode_cls)) (lit_cat '';'' (Cat (Star Dot) sets_re)))
      (mode # CHR '';'' # mid @ ''sprop-parameter-sets='' @ sps @ CHR '','' # pps)
      (\<lambda>off. (2, off, off + 1) # [(3, off + 2 + length mid + 21, off + 2 + length mid + 21 + length sps),
       (4, off + 2 + length mid + 21 + length sps + 1, off + 2 + length mid + 21 + length sps + 1 + length pps)])"
    using yields_cong [OF yields_stop [OF m 4]] by simp
  let ?rest = "''packetization-mode='' @ mode # CHR '';'' # mid @ ''sprop-parameter-sets='' @ sps @ CHR '','' # pps"
  have n: "CHR '' '' \<notin> set ?rest" using dash(2) assms(2,5) b(4) by auto
  show ?thesis
    unfolding fmtp264_re_def fmtp264_text_def Let_def
    by (rule yields_cong [OF yields_blanks_word [OF yields_lit [OF 5] assms(1) _ n]]) simp_all
qed

lemma fmtp264_groups:
  assumes ok: "pt \<noteq> []" "in_cls False mode_cls mode" "run_ok b64_cls sps" "run_ok b64_cls pps" "CHR '' '' \<notin> set mid"
    and s: "CHR 0x00 \<notin> set (''fmtp:'' @ fmtp264_text pt mode mid sps pps)"
      "length (''fmtp:'' @ fmtp264_text pt mode mid sps pps) < 2048"
  shows "rx_groups (''fmtp:'' @ fmtp264_text pt mode mid sps pps) SDP_FMTP_H264_PATTERN =
    Some [''fmtp:'' @ fmtp264_text pt mode mid sps pps, pt, [mode], sps, pps]"
proof -
  let ?s = "''fmtp:'' @ fmtp264_text pt mode mid sps pps"
  let ?n1 = "5 + length pt" and ?n2 = "5 + length pt + 20" and ?n3 = "5 + length pt + 20 + 2 + length mid + 21"
  let ?n4 = "5 + length pt + 20 + 2 + length mid + 21 + length sps"
  let ?caps = "[(1 :: nat, 5, ?n1), (2, ?n2, ?n2 + 1), (3, ?n3, ?n4), (4, ?n4 + 1, ?n4 + 1 + length pps)]"
  let ?m = "(map_of (rev ?caps)) (0 \<mapsto> (0, length ?s))"
  let ?tail = "mid @ ''sprop-parameter-sets='' @ sps @ CHR '','' # pps"
  have m: "?m 0 = Some (0, length ?s)" "?m 1 = Some (5, ?n1)" "?m 2 = Some (?n2, ?n2 + 1)" "?m 3 = Some (?n3, ?n4)"
    "?m 4 = Some (?n4 + 1, ?n4 + 1 + length pps)"
    by simp_all
  have "group_text ?s ?m 0 = Some ?s"
    using group_text_part [of ?m 0 "[]" ?s "[]"] m(1) s(2) by simp
  moreover have "group_text ?s ?m 1 = Some pt"
    using group_text_part [of ?m 1 "''fmtp:''" pt "CHR '' '' # ''packetization-mode='' @ mode # CHR '';'' # ?tail"] m(2) s(2)
    by (simp add: fmtp264_text_def)
  moreover have "group_text ?s ?m 2 = Some [mode]"
    using group_text_part [of ?m 2 "''fmtp:'' @ pt @ '' packetization-mode=''" "[mode]" "CHR '';'' # ?tail"] m(3)
    by (simp add: fmtp264_text_def)
  moreover have "group_text ?s ?m 3 = Some sps"
    using group_text_part [of ?m 3 "''fmtp:'' @ pt @ '' packetization-mode='' @ mode # CHR '';'' # mid @ ''sprop-parameter-sets=''"
        sps "CHR '','' # pps"] m(4) s(2)
    by (simp add: fmtp264_text_def)
  moreover have "group_text ?s ?m 4 = Some pps"
    using group_text_part [of ?m 4 "''fmtp:'' @ pt @ '' packetization-mode='' @ mode # CHR '';'' # mid @
        ''sprop-parameter-sets='' @ sps @ '',''" pps "[]"] m(5) s(2)
    by (simp add: fmtp264_text_def)
  moreover have "[0..<Suc 4] = [0, 1, 2, 3, 4 :: nat]" by (simp add: upt_rec)
  moreover have "rx_groups ?s SDP_FMTP_H264_PATTERN = Some (List.map_filter (group_text ?s ?m) [0..<Suc 4])"
    using rx_groups_yields [OF regcomp_fmtp264 yields_fmtp264 [OF ok] s(1), of 5] unfolding count_fmtp264 Let_def by simp
  ultimately show ?thesis by (simp add: List.map_filter_simps del: upt_Suc)
qed

subsection \<open>What does not match\<close>

lemma regcomp_fmtp265:
  "\<exists>r. regcomp (cstr SDP_FMTP_H265_PATTERN) = Some \<lparr>at_start = False, at_end = False,
     expr = lit_cat ''fmtp:'' (Cat (Group 1 (run True [])) (Cat Blank (Cat (Star Dot) (lit_cat ''sprop-vps='' r))))\<rparr>"
  by (rule exI) code_simp

lemma fmtp265_needs:
  assumes "CHR 0x00 \<notin> set s" "no_pair CHR ''-'' CHR ''v'' s"
  shows "rx_groups s SDP_FMTP_H265_PATTERN = None"
proof -
  obtain r where r: "regcomp (cstr SDP_FMTP_H265_PATTERN) = Some \<lparr>at_start = False, at_end = False,
     expr = lit_cat ''fmtp:'' (Cat (Group 1 (run True [])) (Cat Blank (Cat (Star Dot) (lit_cat ''sprop-vps='' r))))\<rparr>"
    using regcomp_fmtp265 by blast
  let ?r = "lit_cat ''fmtp:'' (Cat (Group 1 (run True [])) (Cat Blank (Cat (Star Dot) (lit_cat ''sprop-vps='' r))))"
  have "y \<notin> lang ?r" if "s = x @ y @ z" for x y z
  proof
    assume "y \<in> lang ?r"
    then obtain u v w where "y = ''fmtp:'' @ (u @ [CHR '' ''] @ v @ ''sprop-vps='' @ w)"
      unfolding lang_lit_cat lang.simps(4) by auto
    then have "s = (x @ ''fmtp:'' @ u @ [CHR '' ''] @ v @ ''sprop'') @ ''-v'' @ ''ps='' @ w @ z" using that by simp
    then show False using assms(2) by (simp only: no_pair_append) simp
  qed
  then have "search False False ?r s 0 = None" unfolding search_None by blast
  then have "rx_groups s SDP_FMTP_H265_PATTERN \<noteq> Some gs" for gs
    unfolding rx_groups_Some cstr_id [OF assms(1)] r regexec_def by simp
  then show ?thesis by (cases "rx_groups s SDP_FMTP_H265_PATTERN") auto
qed

lemma other_name:
  assumes "regcomp (cstr p) = Some \<lparr>at_start = False, at_end = False, expr = lit_cat (l @ '':'') r\<rparr>"
    "CHR 0x00 \<notin> set (n @ CHR '':'' # t)" "CHR '':'' \<notin> set n" "CHR '':'' \<notin> set t" "CHR '':'' \<notin> set l" "\<And>x. n \<noteq> x @ l"
  shows "rx_groups (n @ CHR '':'' # t) p = None"
proof (rule rx_groups_no_lit [OF assms(1,2)])
  show "n @ CHR '':'' # t \<noteq> x @ (l @ '':'') @ z" for x z
    using single_colon [OF _ assms(3,4,5), of x z] assms(6) by auto
qed

lemma control_not_rtpmap:
  assumes "CHR 0x00 \<notin> set u" "CHR '':'' \<notin> set u"
  shows "rx_groups (''control:'' @ u) SDP_RTPMAP_PATTERN = None"
proof -
  have n: "''control'' \<noteq> x @ ''rtpmap''" for x
    using arg_cong [of "''control''" "x @ ''rtpmap''" rev] by auto
  show ?thesis
    using other_name [of SDP_RTPMAP_PATTERN "''rtpmap''" rtpmap_re "''control''" u] regcomp_rtpmap assms n by simp
qed

lemma control_not_fmtp:
  assumes "CHR 0x00 \<notin> set u" "CHR '':'' \<notin> set u"
  shows "rx_groups (''control:'' @ u) SDP_FMTP_H264_PATTERN = None" "rx_groups (''control:'' @ u) SDP_FMTP_H265_PATTERN = None"
proof -
  have n: "''control'' \<noteq> x @ ''fmtp''" for x
    using arg_cong [of "''control''" "x @ ''fmtp''" rev] by auto
  show "rx_groups (''control:'' @ u) SDP_FMTP_H264_PATTERN = None"
    using other_name [of SDP_FMTP_H264_PATTERN "''fmtp''" fmtp264_re "''control''" u] regcomp_fmtp264 assms n by simp
  show "rx_groups (''control:'' @ u) SDP_FMTP_H265_PATTERN = None"
    using regcomp_fmtp265 other_name [of SDP_FMTP_H265_PATTERN "''fmtp''" _ "''control''" u] assms n by auto
qed

lemma fmtp_not_rtpmap:
  assumes "CHR 0x00 \<notin> set t" "CHR '':'' \<notin> set t"
  shows "rx_groups (''fmtp:'' @ t) SDP_RTPMAP_PATTERN = None"
proof -
  have n: "''fmtp'' \<noteq> x @ ''rtpmap''" for x
    using arg_cong [of "''fmtp''" "x @ ''rtpmap''" length] by auto
  show ?thesis
    using other_name [of SDP_RTPMAP_PATTERN "''rtpmap''" rtpmap_re "''fmtp''" t] regcomp_rtpmap assms n by simp
qed

end
