(* ===== verification/Sdp_Media.thy ===== *)
theory Sdp_Media
  imports Sdp_Parameters
begin

section \<open>Descriptions of media\<close>

text \<open>
  A description as servers write it: for each medium a media line with one payload type, its \<open>rtpmap\<close>,
  for H.264 its \<open>fmtp\<close>, and its control attribute (\<open>medium\<close>, \<open>medium_lines\<close>). \<open>media_parsed\<close> says
  what the parser makes of any number of them: the map \<open>mediaInfoMap\<close> gets \<open>medium_info\<close> for each.
\<close>

record medium =
  md_type :: string
  md_port :: string
  md_prot :: string
  md_pt :: nat
  md_codec :: string
  md_rate :: nat
  md_chans :: "char option"
  md_fmtp :: "(char \<times> string \<times> string \<times> string) option"
  md_control :: string

definition medium_lines :: "medium \<Rightarrow> (char \<times> string) list" where
  "medium_lines d =
     (CHR ''m'', sp_join [md_type d, md_port d, md_prot d, show_nat (md_pt d)]) #
     (CHR ''a'', ''rtpmap:'' @ rtpmap_text (show_nat (md_pt d)) (md_codec d) (show_nat (md_rate d)) (md_chans d)) #
     (case md_fmtp d of None \<Rightarrow> []
      | Some (mode, mid, sps, pps) \<Rightarrow> [(CHR ''a'', ''fmtp:'' @ fmtp264_text (show_nat (md_pt d)) mode mid sps pps)]) @
     [(CHR ''a'', ''control:'' @ md_control d)]"

definition fmtp_ok :: "char \<times> string \<times> string \<times> string \<Rightarrow> bool" where
  "fmtp_ok = (\<lambda>(mode, mid, sps, pps). in_cls False mode_cls mode \<and> run_ok b64_cls sps \<and> run_ok b64_cls pps \<and>
     CHR '' '' \<notin> set mid \<and> CHR '':'' \<notin> set mid \<and> no_pair CHR ''-'' CHR ''v'' mid)"

definition medium_ok :: "medium \<Rightarrow> bool" where
  "medium_ok d \<longleftrightarrow> (\<forall>kv \<in> set (medium_lines d). sdp_pair kv) \<and>
     clean_word (md_type d) \<and> clean_word (md_port d) \<and> clean_word (md_prot d) \<and> md_pt d < 2 ^ 31 \<and>
     run_ok alnum_cls (md_codec d) \<and> 0 < md_rate d \<and> md_rate d < 2 ^ 32 \<and> chans_ok (md_chans d) \<and>
     (\<forall>p \<in> set_option (md_fmtp d). md_type d = ''video'' \<and> md_codec d = ''H264'' \<and> fmtp_ok p) \<and>
     md_control d \<noteq> [] \<and> CHR '':'' \<notin> set (md_control d)"

definition base_attrs :: "medium \<Rightarrow> attr_map" where
  "base_attrs d = smap_set CHANNEL_NUM (case md_chans d of None \<Rightarrow> ''1'' | Some c \<Rightarrow> [c])
     (smap_set TIME_RATE (show_nat (md_rate d)) (smap_set CODEC_TYPE (md_codec d) [(MEDIA_TYPE_NAME, md_type d)]))"

definition medium_attrs :: "medium \<Rightarrow> attr_map" where
  "medium_attrs d = (case md_fmtp d of None \<Rightarrow> base_attrs d
     | Some (mode, mid, sps, pps) \<Rightarrow> smap_set ATTR_PPS pps (smap_set ATTR_SPS sps (smap_set PACK_MODE [mode] (base_attrs d))))"

definition medium_info :: "medium \<Rightarrow> sdp_media_info" where
  "medium_info d = empty_media_info\<lparr>mediaType := md_type d, ports := md_port d, transProt := md_prot d,
     fmtMap := [(int (md_pt d), medium_attrs d)], controlURI := md_control d\<rparr>"

subsection \<open>The attributes in the parser\<close>

lemma digit_cls: "in_cls False digits_cls c \<longleftrightarrow> is_digit c"
  by (simp add: in_cls_def in_range_def is_digit_def)

lemma number_ok: "run_ok digits_cls (show_nat n)"
  using show_nat_digits by (auto simp: run_ok_def digit_cls)

lemma number_free: "\<not> is_digit c \<Longrightarrow> c \<notin> set (show_nat n)"
  using show_nat_digits by blast

lemma pair_text: "sdp_pair (k, v) \<Longrightarrow> CHR 0x00 \<notin> set v \<and> length v < 2046"
  by (simp add: sdp_pair_def)

lemma sdp_attribute_rtpmap:
  assumes "medium_ok d" "fmtMap info = [(int (md_pt d), [(MEDIA_TYPE_NAME, md_type d)])]"
  shows "sdp_attribute (''rtpmap:'' @ rtpmap_text (show_nat (md_pt d)) (md_codec d) (show_nat (md_rate d)) (md_chans d)) info =
    Inr (info\<lparr>fmtMap := [(int (md_pt d), base_attrs d)]\<rparr>)"
proof -
  let ?v = "''rtpmap:'' @ rtpmap_text (show_nat (md_pt d)) (md_codec d) (show_nat (md_rate d)) (md_chans d)"
  have "sdp_pair (CHR ''a'', ?v)" using assms(1) by (simp add: medium_ok_def medium_lines_def)
  then have t: "CHR 0x00 \<notin> set ?v" "length ?v < 2048" using pair_text by fastforce+
  have g: "rx_groups ?v SDP_RTPMAP_PATTERN =
      Some (?v # show_nat (md_pt d) # md_codec d # show_nat (md_rate d) # (case md_chans d of None \<Rightarrow> [] | Some c \<Rightarrow> [[c]]))"
    by (rule rtpmap_groups [OF _ _ _ _ t]) (use assms(1) number_ok in \<open>simp_all add: medium_ok_def\<close>)
  have p: "md_pt d < 2 ^ 31" using assms(1) by (simp add: medium_ok_def)
  show ?thesis
    unfolding sdp_attribute_def g option.case
    by (subst rtpmap_fields_store [OF p]) (simp_all add: assms(2) base_attrs_def split: option.split)
qed

lemma sdp_attribute_fmtp:
  assumes "medium_ok d" "md_fmtp d = Some (mode, mid, sps, pps)" "mediaType info = ''video''"
    "fmtMap info = [(int (md_pt d), base_attrs d)]"
  shows "sdp_attribute (''fmtp:'' @ fmtp264_text (show_nat (md_pt d)) mode mid sps pps) info =
    Inr (info\<lparr>fmtMap := [(int (md_pt d), medium_attrs d)]\<rparr>)"
proof -
  let ?t = "fmtp264_text (show_nat (md_pt d)) mode mid sps pps"
  let ?v = "''fmtp:'' @ ?t"
  have "sdp_pair (CHR ''a'', ?v)" using assms(1,2) by (simp add: medium_ok_def medium_lines_def)
  then have t: "CHR 0x00 \<notin> set ?v" "length ?v < 2048" using pair_text by fastforce+
  have ok: "in_cls False mode_cls mode" "run_ok b64_cls sps" "run_ok b64_cls pps" "CHR '' '' \<notin> set mid"
    "CHR '':'' \<notin> set mid" "no_pair CHR ''-'' CHR ''v'' mid"
    using assms(1,2) by (simp_all add: medium_ok_def fmtp_ok_def)
  have free: "CHR ''-'' \<notin> set sps" "CHR '':'' \<notin> set sps" "CHR ''-'' \<notin> set pps" "CHR '':'' \<notin> set pps"
    "mode \<noteq> CHR ''-''" "mode \<noteq> CHR '':''"
    using ok(1-3) by (auto simp: run_ok_def in_cls_def in_range_def)
  have pt: "CHR ''-'' \<notin> set (show_nat (md_pt d))" "CHR '':'' \<notin> set (show_nat (md_pt d))"
    by (rule number_free, simp add: is_digit_def)+
  have g: "rx_groups ?v SDP_FMTP_H264_PATTERN = Some [?v, show_nat (md_pt d), [mode], sps, pps]"
    by (rule fmtp264_groups [OF _ ok(1-4) t]) simp
  have n1: "rx_groups ?v SDP_RTPMAP_PATTERN = None"
    by (rule fmtp_not_rtpmap) (use t(1) free ok(5) pt in \<open>simp_all add: fmtp264_text_def\<close>)
  have n2: "rx_groups ?v SDP_FMTP_H265_PATTERN = None"
    by (rule fmtp265_needs [OF t(1)])
      (use free pt ok(6) in \<open>simp add: fmtp264_text_def no_pair_Cons no_pair_append no_pair_absent\<close>)
  have p: "md_pt d < 2 ^ 31" using assms(1) by (simp add: medium_ok_def)
  show ?thesis
    unfolding sdp_attribute_def n1 n2 g assms(3)
    by (simp add: fmtp_fields_def payload_id_show [OF p] assms(2,4) medium_attrs_def)
qed

lemma sdp_attribute_control:
  assumes "medium_ok d"
  shows "sdp_attribute (''control:'' @ md_control d) info = Inr (info\<lparr>controlURI := md_control d\<rparr>)"
proof -
  have "sdp_pair (CHR ''a'', ''control:'' @ md_control d)" using assms by (simp add: medium_ok_def medium_lines_def)
  then have t: "CHR 0x00 \<notin> set (md_control d)" "length (md_control d) < 2040" using pair_text by fastforce+
  have c: "md_control d \<noteq> []" "CHR '':'' \<notin> set (md_control d)" using assms by (simp_all add: medium_ok_def)
  show ?thesis
    unfolding sdp_attribute_def control_not_rtpmap [OF t(1) c(2)] control_not_fmtp [OF t(1) c(2)]
      control_groups [OF c(1) t]
    by simp
qed

subsection \<open>The lines of a medium\<close>

text \<open>The parser is in the section of the medium \<open>k\<close>, whose entry is \<open>info\<close>; \<open>m\<close> holds the others.\<close>

definition in_medium :: "string \<Rightarrow> sdp_media_info \<Rightarrow> (string, sdp_media_info) smap \<Rightarrow> parse_state \<Rightarrow> bool" where
  "in_medium k info m st \<longleftrightarrow> mediaInfo st \<and> \<not> sessionInfo st \<and> \<not> timeInfo st \<and> currentMediaInfo st = Some k \<and>
     mediaInfoMap (sdp st) = smap_set k info m"

lemma handle_media_line:
  assumes "clean_word m" "clean_word port" "clean_word prot" "p < 2 ^ 31" "smap_find (mediaInfoMap (sdp st)) m = None"
  shows "\<exists>st'. sdp_handle ''m'' (sp_join [m, port, prot, show_nat p]) st = Inr st' \<and>
    in_medium m (empty_media_info\<lparr>mediaType := m, ports := port, transProt := prot,
      fmtMap := [(int p, [(MEDIA_TYPE_NAME, m)])]\<rparr>) (mediaInfoMap (sdp st)) st'"
  using sdp_media_line_words [OF assms(1-3), of p "[]" "set_section ''m'' st"] assms(4,5)
  by (auto simp: sdp_handle_def set_section_def sdp_session_part_def sdp_time_part_def sdp_media_part_def
      in_medium_def note_type_def empty_media_info_def)

lemma handle_attribute:
  assumes "in_medium k info m st" "sdp_attribute v info = Inr info'"
  shows "\<exists>st'. sdp_handle ''a'' v st = Inr st' \<and> in_medium k info' m st'"
  using assms by (auto simp: sdp_handle_def set_section_def sdp_session_part_def sdp_time_part_def sdp_media_part_def
      in_medium_def sdp_attribute_line_def smap_find_set smap_set_set)

lemma sdp_handles_Cons:
  "sdp_handle [k] v st = Inr st' \<Longrightarrow> sdp_handles ((k, v) # kvs) st = sdp_handles kvs st'"
  by simp

lemma sdp_handles_append:
  "sdp_handles (xs @ ys) st = ub_bind (sdp_handles xs st) (sdp_handles ys)"
  by (induction xs arbitrary: st) (simp_all add: ub_bind_def split: sum.split)

lemma medium_parsed:
  assumes "medium_ok d" "smap_find (mediaInfoMap (sdp st)) (md_type d) = None"
  shows "\<exists>st'. sdp_handles (medium_lines d) st = Inr st' \<and>
    mediaInfoMap (sdp st') = smap_set (md_type d) (medium_info d) (mediaInfoMap (sdp st))"
proof -
  let ?m = "mediaInfoMap (sdp st)" and ?pt = "int (md_pt d)"
  let ?info = "\<lambda>as. empty_media_info\<lparr>mediaType := md_type d, ports := md_port d, transProt := md_prot d,
    fmtMap := [(?pt, as)]\<rparr>"
  have ok: "clean_word (md_type d)" "clean_word (md_port d)" "clean_word (md_prot d)" "md_pt d < 2 ^ 31"
    using assms(1) by (simp_all add: medium_ok_def)
  obtain st1 where 1: "sdp_handle ''m'' (sp_join [md_type d, md_port d, md_prot d, show_nat (md_pt d)]) st = Inr st1"
      "in_medium (md_type d) (?info [(MEDIA_TYPE_NAME, md_type d)]) ?m st1"
    using handle_media_line [OF ok assms(2)] by blast
  obtain st2 where 2: "sdp_handle ''a'' (''rtpmap:'' @ rtpmap_text (show_nat (md_pt d)) (md_codec d) (show_nat (md_rate d)) (md_chans d)) st1 = Inr st2"
      "in_medium (md_type d) (?info (base_attrs d)) ?m st2"
    using handle_attribute [OF 1(2) sdp_attribute_rtpmap [OF assms(1)]] by auto
  obtain st3 where 3: "sdp_handles (case md_fmtp d of None \<Rightarrow> []
        | Some (mode, mid, sps, pps) \<Rightarrow> [(CHR ''a'', ''fmtp:'' @ fmtp264_text (show_nat (md_pt d)) mode mid sps pps)]) st2 = Inr st3"
      "in_medium (md_type d) (?info (medium_attrs d)) ?m st3"
  proof (cases "md_fmtp d")
    case None
    then show ?thesis using that 2(2) by (simp add: medium_attrs_def)
  next
    case (Some f)
    then obtain mode mid sps pps where f: "md_fmtp d = Some (mode, mid, sps, pps)" by (cases f) auto
    then have v: "md_type d = ''video''" using assms(1) by (simp add: medium_ok_def)
    show ?thesis
      using handle_attribute [OF 2(2) sdp_attribute_fmtp [OF assms(1) f]] that f v by auto
  qed
  obtain st4 where 4: "sdp_handle ''a'' (''control:'' @ md_control d) st3 = Inr st4"
      "in_medium (md_type d) (medium_info d) ?m st4"
    using handle_attribute [OF 3(2) sdp_attribute_control [OF assms(1)]] by (auto simp: medium_info_def)
  have "sdp_handles (medium_lines d) st = Inr st4"
    unfolding medium_lines_def
    by (subst sdp_handles_Cons [OF 1(1)], subst sdp_handles_Cons [OF 2(1)], subst sdp_handles_append)
      (simp only: 3(1) ub_bind_Inr sdp_handles_Cons [OF 4(1)] sdp_handles.simps(1))
  then show ?thesis using 4(2) by (auto simp: in_medium_def)
qed

fun media_map :: "medium list \<Rightarrow> (string, sdp_media_info) smap \<Rightarrow> (string, sdp_media_info) smap" where
  "media_map [] m = m"
| "media_map (d # ds) m = media_map ds (smap_set (md_type d) (medium_info d) m)"

definition media_lines :: "medium list \<Rightarrow> (char \<times> string) list" where
  "media_lines ds = concat (map medium_lines ds)"

lemma media_parsed:
  assumes "\<forall>d \<in> set ds. medium_ok d" "distinct (map md_type ds)"
    "\<forall>d \<in> set ds. smap_find (mediaInfoMap (sdp st)) (md_type d) = None"
  shows "\<exists>st'. sdp_handles (media_lines ds) st = Inr st' \<and>
    mediaInfoMap (sdp st') = media_map ds (mediaInfoMap (sdp st))"
  using assms
proof (induction ds arbitrary: st)
  case (Cons d ds)
  obtain st1 where 1: "sdp_handles (medium_lines d) st = Inr st1"
      "mediaInfoMap (sdp st1) = smap_set (md_type d) (medium_info d) (mediaInfoMap (sdp st))"
    using medium_parsed [of d st] Cons.prems(1,3) by auto
  have "\<forall>e \<in> set ds. smap_find (mediaInfoMap (sdp st1)) (md_type e) = None"
    using Cons.prems(2,3) by (simp add: 1(2) smap_find_set) (metis imageI)
  then show ?case
    using Cons.IH [of st1] Cons.prems(1,2) 1 by (auto simp: media_lines_def sdp_handles_append)
qed (simp add: media_lines_def)

lemma media_map_find:
  "distinct (map md_type ds) \<Longrightarrow>
   smap_find (media_map ds m) k = (case find (\<lambda>d. md_type d = k) ds of None \<Rightarrow> smap_find m k | Some d \<Rightarrow> Some (medium_info d))"
proof (induction ds arbitrary: m)
  case (Cons d ds)
  have "k = md_type d \<Longrightarrow> find (\<lambda>e. md_type e = k) ds = None"
    using Cons.prems by (simp add: find_None_iff) (metis imageI)
  then show ?case using Cons by (auto simp: smap_find_set split: option.split)
qed simp

lemma description_parsed:
  assumes "\<forall>d \<in> set ds. medium_ok d" "distinct (map md_type ds)" "ds \<noteq> []" "mediaInfoMap dd = []"
  shows "\<exists>d'. SDPData_parse (sdp_text (media_lines ds)) dd = Inr d' \<and> mediaInfoMap d' = media_map ds []"
proof -
  have "\<forall>kv \<in> set (media_lines ds). sdp_pair kv" using assms(1) by (auto simp: media_lines_def medium_ok_def)
  moreover have "media_lines ds \<noteq> []" using assms(3) by (cases ds) (simp_all add: media_lines_def medium_lines_def)
  ultimately show ?thesis
    using parse_text [of "media_lines ds" dd] media_parsed [OF assms(1,2), of "start_state dd"] assms(4)
    by (auto simp: start_state_def)
qed

end
