(* ===== verification/Rtsp_Sessions.thy ===== *)
theory Rtsp_Sessions
  imports Rtsp_Invariant Sdp_Media
begin

section \<open>From a description to the sessions\<close>

text \<open>
  \<open>ParseSDP\<close> on a description of media: \<open>medium_session\<close> is the session that each of them gets.
\<close>

definition medium_frame :: "medium \<Rightarrow> frame_object option" where
  "medium_frame d =
     (case CreateNewFrameType (md_codec d) of
        Some (H264_Frame h) \<Rightarrow> Some (H264_Frame (case md_fmtp d of None \<Rightarrow> h
          | Some (mode, mid, sps, pps) \<Rightarrow> h\<lparr>SPS := sps, PPS := pps, Packetization := int (digit_val mode)\<rparr>))
      | f \<Rightarrow> f)"

definition medium_session :: "string \<Rightarrow> medium \<Rightarrow> media_session" where
  "medium_session base d = new_media_session
     \<lparr>MediaType := md_type d, Protocol := md_prot d, PayloadType := [int (md_pt d)], EncodeType := md_codec d,
      TimeRate := word_of_nat (md_rate d),
      ChannelNum := (case md_chans d of None \<Rightarrow> 1 | Some ch \<Rightarrow> word_of_nat (digit_val ch)),
      ControlURI := base @ ''/'' @ md_control d,
      ms_Packetization := (case md_fmtp d of None \<Rightarrow> PACKET_MODE_SINGAL_NAL | Some (mode, _) \<Rightarrow> int (digit_val mode)),
      ms_frame := medium_frame d\<rparr>"

lemma digit_val_less: "is_digit c \<Longrightarrow> digit_val c < 10"
  by (auto simp: is_digit_def digit_val_def)

lemma get_digit: "is_digit c \<Longrightarrow> ss_get_num lo hi old (ss_new [c]) = (int (digit_val c), \<lparr>ss_buf = [], ss_eof = True, ss_fail = False\<rparr>)"
  if "lo \<le> 0" "9 \<le> hi"
  using ss_get_num_digits [of "[c]" hi lo old] digit_val_less [of c] that by simp

lemma get_number: "int n \<le> hi \<Longrightarrow> lo \<le> 0 \<Longrightarrow>
    ss_get_num lo hi old (ss_new (show_nat n)) = (int n, \<lparr>ss_buf = [], ss_eof = True, ss_fail = False\<rparr>)"
  by (subst ss_get_num_digits) (use show_nat_digits in \<open>auto simp: digits_val_show_nat\<close>)

lemma base_attrs_find:
  "smap_find (base_attrs d) CODEC_TYPE = Some (md_codec d)"
  "smap_find (base_attrs d) TIME_RATE = Some (show_nat (md_rate d))"
  "smap_find (base_attrs d) CHANNEL_NUM = Some (case md_chans d of None \<Rightarrow> ''1'' | Some c \<Rightarrow> [c])"
  "smap_find (base_attrs d) PACK_MODE = None" "smap_find (base_attrs d) ATTR_SPS = None"
  "smap_find (base_attrs d) ATTR_PPS = None" "smap_find (base_attrs d) ATTR_VPS = None"
  by (simp_all add: base_attrs_def smap_find_set)

lemma medium_attrs_find:
  "smap_find (medium_attrs d) CODEC_TYPE = Some (md_codec d)"
  "smap_find (medium_attrs d) TIME_RATE = Some (show_nat (md_rate d))"
  "smap_find (medium_attrs d) CHANNEL_NUM = Some (case md_chans d of None \<Rightarrow> ''1'' | Some c \<Rightarrow> [c])"
  "smap_find (medium_attrs d) PACK_MODE = map_option (\<lambda>(mode, mid, sps, pps). [mode]) (md_fmtp d)"
  "smap_find (medium_attrs d) ATTR_SPS = map_option (\<lambda>(mode, mid, sps, pps). sps) (md_fmtp d)"
  "smap_find (medium_attrs d) ATTR_PPS = map_option (\<lambda>(mode, mid, sps, pps). pps) (md_fmtp d)"
  "smap_find (medium_attrs d) ATTR_VPS = None"
  by (simp_all add: medium_attrs_def base_attrs_find smap_find_set split: option.split)

lemma mode_digit: "in_cls False mode_cls c \<Longrightarrow> is_digit c"
  by (auto simp: in_cls_def in_range_def is_digit_def)

lemma fmtp_digit: "medium_ok d \<Longrightarrow> md_fmtp d = Some (mode, mid, sps, pps) \<Longrightarrow> is_digit mode"
  by (auto simp: medium_ok_def fmtp_ok_def intro: mode_digit)

lemma medium_frame_parsed:
  assumes "medium_ok d"
  shows "(case CreateNewFrameType (md_codec d) of None \<Rightarrow> Inr None
     | Some f \<Rightarrow> ub_bind (frame_ParseParaFromSDP (medium_info d) f) (\<lambda>f'. Inr (Some f'))) = Inr (medium_frame d)"
proof (cases "md_fmtp d")
  case None
  then show ?thesis
    by (simp add: medium_frame_def CreateNewFrameType_def h264_ParseParaFromSDP_def h265_ParseParaFromSDP_def
        medium_info_def medium_attrs_find)
next
  case (Some f)
  then obtain mode mid sps pps where f: "md_fmtp d = Some (mode, mid, sps, pps)" by (cases f) auto
  then have c: "md_codec d = ''H264''" using assms by (simp add: medium_ok_def)
  show ?thesis
    using get_digit [OF _ _ fmtp_digit [OF assms f]]
    by (simp add: c f medium_frame_def CreateNewFrameType_def h264_ParseParaFromSDP_def medium_info_def
        medium_attrs_find ss_get_int_def)
qed

lemma set_codec_medium:
  assumes "medium_ok d" "ms_frame ms = None"
  shows "set_codec (medium_info d) (medium_attrs d) ms = Inr (ms\<lparr>EncodeType := md_codec d, ms_frame := medium_frame d\<rparr>)"
  using medium_frame_parsed [OF assms(1)]
  by (auto simp: set_codec_def medium_attrs_find ub_bind_eq_Inr split: option.splits)

lemma control_uri_medium:
  assumes "medium_ok d"
  shows "control_uri base (md_control d) = base @ ''/'' @ md_control d"
proof -
  have "sdp_pair (CHR ''a'', ''control:'' @ md_control d)" using assms by (simp add: medium_ok_def medium_lines_def)
  then have n: "cstr (md_control d) = md_control d" by (intro cstr_id) (simp add: sdp_pair_def)
  have "\<not> occurs_in ''rtsp://'' (md_control d)"
    using assms by (auto simp: occurs_in_iff medium_ok_def)
  then have "\<not> rx_test (md_control d) ''rtsp://''"
    by (subst rx_test_plain) (simp_all add: plain_def n)
  then show ?thesis by (simp add: control_uri_def)
qed

lemma medium_session_made:
  assumes "medium_ok d"
  shows "session_of_info base (medium_info d) = Inr (medium_session base d)"
proof -
  have r: "md_rate d < 2 ^ 32" "chans_ok (md_chans d)" using assms by (simp_all add: medium_ok_def)
  have rate: "read_unsigned old (show_nat (md_rate d)) = word_of_nat (md_rate d)" for old
    unfolding read_unsigned_def using r(1) by (subst get_number) simp_all
  have one: "is_digit CHR ''1''" "digit_val CHR ''1'' = 1" by (simp_all add: is_digit_def digit_val_def)
  have ch: "read_unsigned old (case md_chans d of None \<Rightarrow> ''1'' | Some c \<Rightarrow> [c]) =
      (case md_chans d of None \<Rightarrow> 1 | Some ch \<Rightarrow> word_of_nat (digit_val ch))" for old
    unfolding read_unsigned_def using r(2) one by (cases "md_chans d") (simp_all add: get_digit digit_cls)
  have mode: "md_fmtp d = Some (mode, mid, sps, pps) \<Longrightarrow> read_int old [mode] = int (digit_val mode)" for old mode mid sps pps
    using fmtp_digit [OF assms] by (simp add: read_int_def ss_get_int_def get_digit)
  have info: "fmtMap (medium_info d) = [(int (md_pt d), medium_attrs d)]" "mediaType (medium_info d) = md_type d"
    "transProt (medium_info d) = md_prot d" "controlURI (medium_info d) = md_control d"
    by (simp_all add: medium_info_def)
  show ?thesis
    using mode
    by (cases "md_fmtp d")
      (auto simp: session_of_info_def set_codec_medium [OF assms] set_numbers_def medium_attrs_find rate ch info
        medium_session_def control_uri_medium [OF assms] new_media_session_def Let_def)
qed

lemma medium_session_checked:
  assumes "medium_ok d"
  shows "MediaInfoCheck (medium_session base d) = Inr (0, medium_session base d)"
proof -
  have "(word_of_nat (md_rate d) :: u32) \<noteq> 0"
    using assms by (simp add: medium_ok_def word_of_nat_eq_0_iff nat_dvd_not_less)
  then show ?thesis by (simp add: MediaInfoCheck_def medium_session_def)
qed

subsection \<open>The loop over the media\<close>

lemma add_sessions_find:
  assumes "\<forall>(key, info) \<in> set infos. mediaType info = key \<and> session_of_info (RtspURI c) info = Inr (S key)"
    "smap_inv (MediaSessionMap c)"
  shows "\<exists>M. add_sessions infos c = Inr (c\<lparr>MediaSessionMap := M\<rparr>) \<and> smap_inv M \<and>
    (\<forall>k. smap_find M k = (case smap_find (MediaSessionMap c) k of Some ms \<Rightarrow> Some ms
       | None \<Rightarrow> map_option (\<lambda>_. S k) (smap_find infos k)))"
  using assms
proof (induction infos c rule: add_sessions.induct)
  case (1 c)
  then show ?case by (intro exI [of _ "MediaSessionMap c"]) (simp split: option.split)
next
  case (2 key info infos c)
  have k: "mediaType info = key" "session_of_info (RtspURI c) info = Inr (S key)" using "2.prems"(1) by auto
  show ?case
  proof (cases "smap_find (MediaSessionMap c) key")
    case (Some ms)
    then have n: "smap_find (MediaSessionMap c) (mediaType info) \<noteq> None" using k by simp
    have p: "\<forall>(key, info) \<in> set infos. mediaType info = key \<and> session_of_info (RtspURI c) info = Inr (S key)"
      using "2.prems"(1) by simp
    obtain M where M: "add_sessions infos c = Inr (c\<lparr>MediaSessionMap := M\<rparr>)" "smap_inv M"
        "\<And>k. smap_find M k = (case smap_find (MediaSessionMap c) k of Some ms \<Rightarrow> Some ms
          | None \<Rightarrow> map_option (\<lambda>_. S k) (smap_find infos k))"
      using "2.IH"(1) [OF n p "2.prems"(2)] by blast
    have "add_sessions ((key, info) # infos) c = Inr (c\<lparr>MediaSessionMap := M\<rparr>)" using n M(1) by simp
    moreover have "smap_find M k = (case smap_find (MediaSessionMap c) k of Some ms \<Rightarrow> Some ms
          | None \<Rightarrow> map_option (\<lambda>_. S k) (smap_find ((key, info) # infos) k))" for k
      using Some by (simp add: M(3) split: option.split)
    ultimately show ?thesis using M(2) by blast
  next
    case None
    then have n: "\<not> smap_find (MediaSessionMap c) (mediaType info) \<noteq> None" using k by simp
    let ?c = "put_session key (S key) c"
    have p: "\<forall>(key, info) \<in> set infos. mediaType info = key \<and> session_of_info (RtspURI ?c) info = Inr (S key)"
      "smap_inv (MediaSessionMap ?c)"
      using "2.prems" by (simp_all add: put_session_def smap_inv_set)
    obtain M where M: "add_sessions infos ?c = Inr (?c\<lparr>MediaSessionMap := M\<rparr>)" "smap_inv M"
        "\<And>k. smap_find M k = (case smap_find (MediaSessionMap ?c) k of Some ms \<Rightarrow> Some ms
          | None \<Rightarrow> map_option (\<lambda>_. S k) (smap_find infos k))"
      using "2.IH"(2) [OF n, of "S key", unfolded k(1), OF p] by blast
    have "add_sessions ((key, info) # infos) c = Inr (c\<lparr>MediaSessionMap := M\<rparr>)"
      using n M(1) k by (simp add: put_session_def)
    moreover have "smap_find M k = (case smap_find (MediaSessionMap c) k of Some ms \<Rightarrow> Some ms
          | None \<Rightarrow> map_option (\<lambda>_. S k) (smap_find ((key, info) # infos) k))" for k
      using None by (simp add: M(3) put_session_def smap_find_set split: option.split)
    ultimately show ?thesis using M(2) by blast
  qed
qed

lemma check_sessions_same:
  "\<forall>(k, ms) \<in> set m. MediaInfoCheck ms = Inr (0, ms) \<Longrightarrow> check_sessions m = Inr m"
  by (induction m rule: check_sessions.induct) auto

lemma media_map_inv: "smap_inv m \<Longrightarrow> smap_inv (media_map ds m)"
  by (induction ds arbitrary: m) auto

lemma description_sessions:
  assumes "\<forall>d \<in> set ds. medium_ok d" "distinct (map md_type ds)" "ds \<noteq> []"
    "mediaInfoMap (sdpData c) = []" "MediaSessionMap c = []"
  shows "\<exists>c'. ParseSDP (sdp_text (media_lines ds)) c = Inr (0, c') \<and> RtspURI c' = RtspURI c \<and>
    (\<forall>k. smap_find (MediaSessionMap c') k = map_option (medium_session (RtspURI c)) (find (\<lambda>d. md_type d = k) ds))"
proof -
  let ?S = "\<lambda>k. medium_session (RtspURI c) (the (find (\<lambda>d. md_type d = k) ds))"
  obtain d' where d': "SDPData_parse (sdp_text (media_lines ds)) (sdpData c) = Inr d'" "mediaInfoMap d' = media_map ds []"
    using description_parsed [OF assms(1-4)] by blast
  have f: "smap_find (media_map ds []) k = map_option medium_info (find (\<lambda>d. md_type d = k) ds)" for k
    using media_map_find [OF assms(2), of "[]" k] by (simp split: option.split)
  have fd: "d \<in> set ds \<and> md_type d = k" if "find (\<lambda>d. md_type d = k) ds = Some d" for d k
    using that by (auto simp: find_Some_iff)
  have infos: "\<forall>(key, info) \<in> set (media_map ds []). mediaType info = key \<and> session_of_info (RtspURI c) info = Inr (?S key)"
  proof safe
    fix key info assume "(key, info) \<in> set (media_map ds [])"
    then have "smap_find (media_map ds []) key = Some info" by (rule smap_in_find [OF media_map_inv [OF smap_inv_Nil]])
    then obtain d where d: "find (\<lambda>d. md_type d = key) ds = Some d" "info = medium_info d" unfolding f by auto
    then show "mediaType info = key" "session_of_info (RtspURI c) info = Inr (?S key)"
      using fd [OF d(1)] medium_session_made assms(1) by (auto simp: medium_info_def)
  qed
  obtain M where M: "add_sessions (media_map ds []) (c\<lparr>sdpData := d'\<rparr>) = Inr (c\<lparr>sdpData := d', MediaSessionMap := M\<rparr>)" "smap_inv M"
      "smap_find M k = map_option (\<lambda>_. ?S k) (smap_find (media_map ds []) k)" for k
    using add_sessions_find [of "media_map ds []" "c\<lparr>sdpData := d'\<rparr>" ?S] infos assms(5) by auto
  have find: "smap_find M k = map_option (medium_session (RtspURI c)) (find (\<lambda>d. md_type d = k) ds)" for k
    unfolding M(3) f by (cases "find (\<lambda>d. md_type d = k) ds") simp_all
  have "\<forall>(k, ms) \<in> set M. MediaInfoCheck ms = Inr (0, ms)"
  proof safe
    fix k ms assume "(k, ms) \<in> set M"
    then have "smap_find M k = Some ms" by (rule smap_in_find [OF M(2)])
    then obtain d where "find (\<lambda>d. md_type d = k) ds = Some d" "ms = medium_session (RtspURI c) d" unfolding find by auto
    then show "MediaInfoCheck ms = Inr (0, ms)" using fd medium_session_checked assms(1) by blast
  qed
  then have "check_sessions M = Inr M" by (rule check_sessions_same)
  moreover have "sdp_text (media_lines ds) \<noteq> []"
    using assms(3) by (cases ds) (simp_all add: media_lines_def medium_lines_def sdp_text_def)
  ultimately have "ParseSDP (sdp_text (media_lines ds)) c = Inr (0, c\<lparr>sdpData := d', MediaSessionMap := M\<rparr>)"
    using d' M(1) by (simp add: ParseSDP_def Let_def)
  then show ?thesis using find by auto
qed

subsection \<open>Properties\<close>

text \<open>C22: \<open>ParseSDP\<close> on a description of any number of media of different types (media line, \<open>rtpmap\<close>,
  \<open>fmtp\<close> for H.264, a relative control attribute) in a client without sessions makes exactly one
  session per medium, with payload type, codec, clock rate, channels, packetization mode and absolute control URI
  of the description and a frame object of the class of the codec that holds the parameter sets.\<close>

theorem ParseSDP_sessions:
  assumes "\<forall>d \<in> set ds. medium_ok d" "distinct (map md_type ds)" "ds \<noteq> []"
    "mediaInfoMap (sdpData c) = []" "MediaSessionMap c = []"
  shows "\<exists>c'. ParseSDP (sdp_text (media_lines ds)) c = Inr (0, c') \<and>
    (\<forall>d \<in> set ds. session_at (md_type d) c' = Inr (medium_session (RtspURI c) d)) \<and>
    (\<forall>k. k \<notin> md_type ` set ds \<longrightarrow> session_at k c' = Inl Dangling)"
proof -
  obtain c' where c': "ParseSDP (sdp_text (media_lines ds)) c = Inr (0, c')"
      "smap_find (MediaSessionMap c') k = map_option (medium_session (RtspURI c)) (find (\<lambda>d. md_type d = k) ds)" for k
    using description_sessions [OF assms] by blast
  have "find (\<lambda>e. md_type e = md_type d) ds = Some d" if "d \<in> set ds" for d
    using that assms(2) by (induction ds) auto
  moreover have "find (\<lambda>e. md_type e = k) ds = None" if "k \<notin> md_type ` set ds" for k
    using that by (auto simp: find_None_iff)
  ultimately show ?thesis using c' by (auto simp: session_at_def)
qed

definition sample_video :: medium where
  "sample_video = \<lparr>md_type = ''video'', md_port = ''0'', md_prot = ''RTP/AVP'', md_pt = 96, md_codec = ''H264'', md_rate = 90000,
     md_chans = None, md_fmtp = Some (CHR ''1'', ''profile-level-id=42001f;'', ''Z0IAKeNQ'', ''aM48gA==''),
     md_control = ''track1''\<rparr>"

definition sample_audio :: medium where
  "sample_audio = \<lparr>md_type = ''audio'', md_port = ''0'', md_prot = ''RTP/AVP'', md_pt = 0, md_codec = ''PCMU'', md_rate = 8000,
     md_chans = Some CHR ''2'', md_fmtp = None, md_control = ''track2''\<rparr>"

lemma digit_chars:
  "digit_char 0 = CHR ''0''" "digit_char 6 = CHR ''6''" "digit_char 8 = CHR ''8''" "digit_char 9 = CHR ''9''"
  by code_simp+

lemma sample_numbers: "show_nat 96 = ''96''" "show_nat 90000 = ''90000''" "show_nat 0 = ''0''" "show_nat 8000 = ''8000''"
  by (simp_all add: show_nat.simps digit_chars)

lemma sample_video_lines:
  "medium_lines sample_video = [(CHR ''m'', ''video 0 RTP/AVP 96''), (CHR ''a'', ''rtpmap:96 H264/90000''),
     (CHR ''a'', ''fmtp:96 packetization-mode=1;profile-level-id=42001f;sprop-parameter-sets=Z0IAKeNQ,aM48gA==''),
     (CHR ''a'', ''control:track1'')]"
  by (simp add: medium_lines_def sample_video_def sample_numbers rtpmap_text_def chans_text_def fmtp264_text_def)

lemma sample_audio_lines:
  "medium_lines sample_audio = [(CHR ''m'', ''audio 0 RTP/AVP 0''), (CHR ''a'', ''rtpmap:0 PCMU/8000/2''),
     (CHR ''a'', ''control:track2'')]"
  by (simp add: medium_lines_def sample_audio_def sample_numbers rtpmap_text_def chans_text_def)

lemma sample_words:
  "is_letter CHR ''a''" "is_letter CHR ''m''" "clean_word ''video''" "clean_word ''audio''" "clean_word ''0''"
  "clean_word ''RTP/AVP''" "run_ok alnum_cls ''H264''" "run_ok alnum_cls ''PCMU''" "is_digit CHR ''2''"
  "fmtp_ok (CHR ''1'', ''profile-level-id=42001f;'', ''Z0IAKeNQ'', ''aM48gA=='')"
  by code_simp+

lemma sample_media_ok: "medium_ok sample_video" "medium_ok sample_audio"
  unfolding medium_ok_def sample_video_lines sample_audio_lines
  by (simp_all add: sdp_pair_def sample_words, simp_all add: sample_video_def sample_audio_def sample_words)

theorem ParseSDP_sessions_witness:
  "\<exists>c'. ParseSDP (sdp_text (media_lines [sample_video, sample_audio])) (new_client (sample_os Map.empty)) = Inr (0, c') \<and>
     session_at ''video'' c' = Inr (medium_session [] sample_video) \<and>
     session_at ''audio'' c' = Inr (medium_session [] sample_audio) \<and>
     ms_frame (medium_session [] sample_video) =
       Some (H264_Frame (new_h264\<lparr>SPS := ''Z0IAKeNQ'', PPS := ''aM48gA=='', Packetization := 1\<rparr>))"
proof -
  let ?c = "new_client (sample_os Map.empty)"
  have c: "mediaInfoMap (sdpData ?c) = []" "MediaSessionMap ?c = []" "RtspURI ?c = []"
    by (simp_all add: new_client_def os.defs new_sdp_data_def)
  have t: "md_type sample_video = ''video''" "md_type sample_audio = ''audio''"
    by (simp_all add: sample_video_def sample_audio_def)
  have "ms_frame (medium_session [] sample_video) =
       Some (H264_Frame (new_h264\<lparr>SPS := ''Z0IAKeNQ'', PPS := ''aM48gA=='', Packetization := 1\<rparr>))"
    by (simp add: medium_session_def medium_frame_def sample_video_def CreateNewFrameType_def digit_val_def)
  then show ?thesis
    using ParseSDP_sessions [of "[sample_video, sample_audio]" ?c] sample_media_ok c by (auto simp: t)
qed

text \<open>C23: in every reachable client the frame object of a session is of the class that the encoding of the
  session names, and in a state in which its methods do not read an uninitialised flag.\<close>

theorem session_frame_type:
  assumes "reachable c" "session_at k c = Inr ms" "ms_frame ms = Some f"
  shows "frame_name f = EncodeType ms \<and> CreateNewFrameType (EncodeType ms) \<noteq> None \<and> frame_inv f"
proof -
  have "frame_inv f \<and> frame_name f = EncodeType ms"
    using session_at_ok [OF reachable_ok [OF assms(1)] assms(2)] assms(3) by (simp add: session_ok_def)
  moreover have "CreateNewFrameType (frame_name f) \<noteq> None"
    by (cases f) (simp_all add: CreateNewFrameType_def)
  ultimately show ?thesis by simp
qed

theorem session_frame_type_witness:
  "\<exists>c. reachable c \<and> session_at ''audio'' c = Inr (medium_session [] sample_audio) \<and>
     frame_name PCMU_Frame = EncodeType (medium_session [] sample_audio)"
proof -
  let ?c = "new_client (sample_os Map.empty)"
  have c: "mediaInfoMap (sdpData ?c) = []" "MediaSessionMap ?c = []" "RtspURI ?c = []"
    by (simp_all add: new_client_def os.defs new_sdp_data_def)
  obtain c' where c': "ParseSDP (sdp_text (media_lines [sample_audio])) ?c = Inr (0, c')"
      "smap_find (MediaSessionMap c') ''audio'' = Some (medium_session [] sample_audio)"
    using description_sessions [of "[sample_audio]" ?c] sample_media_ok(2) c by (auto simp: sample_audio_def)
  have r: "reachable c'" by (rule reachable.step [OF reachable.start SDP [OF c'(1)]])
  have a: "session_at ''audio'' c' = Inr (medium_session [] sample_audio)" using c'(2) by (simp add: session_at_def)
  have f: "ms_frame (medium_session [] sample_audio) = Some PCMU_Frame"
    by (simp add: medium_session_def medium_frame_def sample_audio_def CreateNewFrameType_def)
  show ?thesis using session_frame_type [OF r a f] r a by blast
qed

end
