(* ===== verification/Rtp_Packet.thy ===== *)
theory Rtp_Packet
  imports Tcp_Transmitter
begin

section \<open>RTP packets (JRTPLIB: rtppacket.cpp, rtpstructs.h)\<close>

text \<open>
  The class \<open>RTPPacket\<close>: parsing what came off the network and building a packet. The bit fields of
  \<open>RTPHeader\<close> lie in the order of RFC 3550 whatever the byte order of the machine. Pointers into the
  packet (\<open>payload\<close>, \<open>extension\<close>) are offsets. Left out: the time of arrival, which is only copied, and
  the memory manager; allocation succeeds and sizes fit \<open>size_t\<close>.
\<close>

subsection \<open>Network byte order\<close>

definition ntoh16 :: "byte \<Rightarrow> byte \<Rightarrow> u16" where
  "ntoh16 a b = push_bit 8 (ucast a) OR ucast b"

definition ntoh32 :: "byte \<Rightarrow> byte \<Rightarrow> byte \<Rightarrow> byte \<Rightarrow> u32" where
  "ntoh32 a b c d = push_bit 24 (ucast a) OR push_bit 16 (ucast b) OR push_bit 8 (ucast c) OR ucast d"

definition hton16 :: "u16 \<Rightarrow> byte list" where
  "hton16 w = [ucast (drop_bit 8 w), ucast w]"

definition hton32 :: "u32 \<Rightarrow> byte list" where
  "hton32 w = [ucast (drop_bit 24 w), ucast (drop_bit 16 w), ucast (drop_bit 8 w), ucast w]"

definition rd16 :: "byte list \<Rightarrow> nat \<Rightarrow> ub + u16" where
  "rd16 p i = ub_bind (rd p i) (\<lambda>a. ub_bind (rd p (i + 1)) (\<lambda>b. Inr (ntoh16 a b)))"

definition rd32 :: "byte list \<Rightarrow> nat \<Rightarrow> ub + u32" where
  "rd32 p i =
     ub_bind (rd p i) (\<lambda>a. ub_bind (rd p (i + 1)) (\<lambda>b. ub_bind (rd p (i + 2)) (\<lambda>c. ub_bind (rd p (i + 3)) (\<lambda>d.
     Inr (ntoh32 a b c d)))))"

lemma hton_length [simp]: "length (hton16 w) = 2" "length (hton32 x) = 4"
  by (simp_all add: hton16_def hton32_def)

lemma ntoh_hton16: "ntoh16 (ucast (drop_bit 8 w)) (ucast w) = w"
  by (rule bit_word_eqI) (auto simp: ntoh16_def bit_simps)

lemma ntoh_hton32:
  "ntoh32 (ucast (drop_bit 24 w)) (ucast (drop_bit 16 w)) (ucast (drop_bit 8 w)) (ucast w) = w"
proof (rule bit_word_eqI)
  fix n assume "n < LENGTH(32)"
  then consider "n < 8" | "8 \<le> n" "n - 8 < 8" "n < 16" | "16 \<le> n" "n - 16 < 8" "\<not> n - 8 < 8" "n < 24"
    | "24 \<le> n" "n - 24 < 8" "\<not> n - 16 < 8" "\<not> n - 8 < 8" "n < 32"
    by fastforce
  then show "bit (ntoh32 (ucast (drop_bit 24 w)) (ucast (drop_bit 16 w)) (ucast (drop_bit 8 w)) (ucast w)) n = bit w n"
    by cases (simp_all add: ntoh32_def bit_simps)
qed

lemma rd_skip: "rd (xs @ ys) (length xs + i) = rd ys i"
  by (simp add: rd_def nth_append)

lemma rd16_skip: "rd16 (xs @ ys) (length xs + i) = rd16 ys i"
  using rd_skip [of xs ys i] rd_skip [of xs ys "i + 1"] by (simp add: rd16_def add.assoc)

lemma rd32_skip: "rd32 (xs @ ys) (length xs + i) = rd32 ys i"
  using rd_skip [of xs ys i] rd_skip [of xs ys "i + 1"] rd_skip [of xs ys "i + 2"] rd_skip [of xs ys "i + 3"]
  by (simp add: rd32_def add.assoc)

lemma rd16_hton: "rd16 (hton16 w @ ys) 0 = Inr w"
  by (simp add: rd16_def hton16_def ntoh_hton16)

lemma rd32_hton: "rd32 (hton32 w @ ys) 0 = Inr w"
  by (simp add: rd32_def hton32_def ntoh_hton32 numeral_2_eq_2 numeral_3_eq_3)

subsection \<open>The packet\<close>

abbreviation ERR_RTP_PACKET_BADPAYLOADTYPE :: int where "ERR_RTP_PACKET_BADPAYLOADTYPE \<equiv> - 21"
abbreviation ERR_RTP_PACKET_DATAEXCEEDSMAXSIZE :: int where "ERR_RTP_PACKET_DATAEXCEEDSMAXSIZE \<equiv> - 22"
abbreviation ERR_RTP_PACKET_EXTERNALBUFFERNULL :: int where "ERR_RTP_PACKET_EXTERNALBUFFERNULL \<equiv> - 23"
abbreviation ERR_RTP_PACKET_ILLEGALBUFFERSIZE :: int where "ERR_RTP_PACKET_ILLEGALBUFFERSIZE \<equiv> - 24"
abbreviation ERR_RTP_PACKET_INVALIDPACKET :: int where "ERR_RTP_PACKET_INVALIDPACKET \<equiv> - 25"
abbreviation ERR_RTP_PACKET_TOOMANYCSRCS :: int where "ERR_RTP_PACKET_TOOMANYCSRCS \<equiv> - 26"

definition RTP_VERSION :: byte where [simp]: "RTP_VERSION = 2"
definition RTP_MAXCSRCS :: nat where [simp]: "RTP_MAXCSRCS = 15"
definition RTP_RTCPTYPE_SR :: byte where [simp]: "RTP_RTCPTYPE_SR = 200"
definition RTP_RTCPTYPE_RR :: byte where [simp]: "RTP_RTCPTYPE_RR = 201"

text \<open>\<open>packet\<close> holds the \<open>packetlength\<close> bytes of the packet; a null pointer is an empty list.\<close>

record rtp_pack =
  error :: int
  hasextension :: bool
  hasmarker :: bool
  numcsrcs :: nat
  payloadtype :: byte
  extseqnr :: u32
  timestamp :: u32
  ssrc :: u32
  packet :: "byte list"
  payload :: nat
  payloadlength :: nat
  extid :: u16
  extension :: "nat option"
  extensionlength :: nat
  externalbuffer :: bool

definition Clear :: rtp_pack where
  "Clear =
     \<lparr>error = 0, hasextension = False, hasmarker = False, numcsrcs = 0, payloadtype = 0, extseqnr = 0,
      timestamp = 0, ssrc = 0, packet = [], payload = 0, payloadlength = 0, extid = 0, extension = None,
      extensionlength = 0, externalbuffer = False\<rparr>"

definition failed :: "int \<Rightarrow> rtp_pack" where
  "failed e = Clear\<lparr>error := e\<rparr>"

definition GetPayloadData :: "rtp_pack \<Rightarrow> byte list" where
  "GetPayloadData p = take (payloadlength p) (drop (payload p) (packet p))"

definition GetSequenceNumber :: "rtp_pack \<Rightarrow> u16" where
  "GetSequenceNumber p = ucast (extseqnr p AND 0x0000FFFF)"

definition GetExtensionData :: "rtp_pack \<Rightarrow> byte list option" where
  "GetExtensionData p = map_option (\<lambda>i. take (extensionlength p) (drop i (packet p))) (extension p)"

definition GetCSRC :: "int \<Rightarrow> rtp_pack \<Rightarrow> ub + u32" where
  "GetCSRC num p =
     (if int (numcsrcs p) \<le> num then Inr 0
      else if 12 + 4 * num < 0 then Inl Overread
      else rd32 (packet p) (nat (12 + 4 * num)))"

subsection \<open>Parsing\<close>

definition hdr_version :: "byte \<Rightarrow> byte" where "hdr_version b = drop_bit 6 b"
definition hdr_padding :: "byte \<Rightarrow> bool" where "hdr_padding b = bit b 5"
definition hdr_extension :: "byte \<Rightarrow> bool" where "hdr_extension b = bit b 4"
definition hdr_csrccount :: "byte \<Rightarrow> nat" where "hdr_csrccount b = unat (b AND 0x0F)"
definition hdr_marker :: "byte \<Rightarrow> bool" where "hdr_marker b = bit b 7"
definition hdr_payloadtype :: "byte \<Rightarrow> byte" where "hdr_payloadtype b = b AND 0x7F"

text \<open>The payload length is computed in \<open>size_t\<close> and stored in a 32-bit \<open>int\<close>.\<close>

definition int_of_size :: "int \<Rightarrow> int" where
  "int_of_size n = sint (word_of_int n :: 32 word)"

definition parse_padding :: "byte list \<Rightarrow> nat \<Rightarrow> byte \<Rightarrow> ub + nat option" where
  "parse_padding d packetlen b0 =
     (if hdr_padding b0
      then ub_bind (rd d (packetlen - 1)) (\<lambda>n. Inr (if unat n \<le> 0 then None else Some (unat n)))
      else Inr (Some 0))"

text \<open>From the payload length on; \<open>extlen\<close> is the size of the header extension, 0 if there is none.\<close>

definition parse_fields :: "byte list \<Rightarrow> nat \<Rightarrow> byte \<Rightarrow> byte \<Rightarrow> nat \<Rightarrow> nat \<Rightarrow> nat \<Rightarrow> ub + rtp_pack" where
  "parse_fields d packetlen b0 b1 numpadbytes offset0 extlen =
     (let len = int_of_size (int packetlen - int numpadbytes - int (offset0 + extlen)) in
      if len < 0 then Inr (failed ERR_RTP_PACKET_INVALIDPACKET)
      else
        ub_bind (if hdr_extension b0 then rd16 d offset0 else Inr 0) (\<lambda>eid.
        ub_bind (rd16 d 2) (\<lambda>seq. ub_bind (rd32 d 4) (\<lambda>ts. ub_bind (rd32 d 8) (\<lambda>src.
        Inr (Clear\<lparr>hasextension := hdr_extension b0, hasmarker := hdr_marker b1, numcsrcs := hdr_csrccount b0,
          payloadtype := hdr_payloadtype b1, extseqnr := ucast seq, timestamp := ts, ssrc := src,
          packet := take packetlen d, payload := offset0 + extlen, payloadlength := nat len,
          extid := eid, extension := (if hdr_extension b0 then Some (offset0 + 4) else None),
          extensionlength := extlen - 4\<rparr>))))))"

definition ParseRawPacket :: "raw_packet \<Rightarrow> ub + rtp_pack" where
  "ParseRawPacket rawpack =
     (let d = raw_data rawpack; packetlen = raw_length rawpack;
          invalid = Inr (failed ERR_RTP_PACKET_INVALIDPACKET) in
      if \<not> raw_isrtp rawpack then invalid
      else if packetlen < 12 then invalid
      else
        ub_bind (rd d 0) (\<lambda>b0.
        if hdr_version b0 \<noteq> RTP_VERSION then invalid
        else
          ub_bind (rd d 1) (\<lambda>b1.
          if hdr_marker b1 \<and>
             (hdr_payloadtype b1 = RTP_RTCPTYPE_SR AND 127 \<or> hdr_payloadtype b1 = RTP_RTCPTYPE_RR AND 127)
          then invalid
          else
            let offset0 = 12 + hdr_csrccount b0 * 4 in
            ub_bind (parse_padding d packetlen b0) (\<lambda>pad.
            case pad of
              None \<Rightarrow> invalid
            | Some numpadbytes \<Rightarrow>
                ub_bind (if hdr_extension b0 then ub_bind (rd16 d (offset0 + 2)) (\<lambda>n. Inr (4 + unat n * 4)) else Inr 0)
                  (parse_fields d packetlen b0 b1 numpadbytes offset0)))))"

subsection \<open>Building\<close>

text \<open>\<open>buffer\<close>: an external buffer was given. The four sources are arrays that are read up to the
  lengths given beside them.\<close>

definition first_byte :: "bool \<Rightarrow> byte \<Rightarrow> byte" where
  "first_byte gotextension ncsrcs =
     push_bit 6 RTP_VERSION OR (if gotextension then 0x10 else 0) OR (ncsrcs AND 0x0F)"

definition second_byte :: "bool \<Rightarrow> byte \<Rightarrow> byte" where
  "second_byte gotmarker ptype = (if gotmarker then 0x80 else 0) OR (ptype AND 127)"

definition extension_bytes :: "bool \<Rightarrow> u16 \<Rightarrow> u16 \<Rightarrow> byte list \<Rightarrow> ub + byte list" where
  "extension_bytes gotextension extensionid numwords extensiondata =
     (if gotextension
      then ub_bind (memcpy_from extensiondata 0 (unat numwords * 4)) (\<lambda>e.
        Inr (hton16 extensionid @ hton16 numwords @ e))
      else Inr [])"

definition BuildPacket ::
    "byte \<Rightarrow> byte list \<Rightarrow> nat \<Rightarrow> u16 \<Rightarrow> u32 \<Rightarrow> u32 \<Rightarrow> bool \<Rightarrow> byte \<Rightarrow> u32 list \<Rightarrow>
     bool \<Rightarrow> u16 \<Rightarrow> u16 \<Rightarrow> byte list \<Rightarrow> bool \<Rightarrow> nat \<Rightarrow> ub + rtp_pack" where
  "BuildPacket ptype payloaddata payloadlen seqnr ts src gotmarker ncsrcs csrcs
     gotextension extensionid numwords extensiondata buffer maxsize =
     (let packetlength = 12 + 4 * unat ncsrcs + (if gotextension then 4 + 4 * unat numwords else 0) + payloadlen in
      if RTP_MAXCSRCS < unat ncsrcs then Inr (failed ERR_RTP_PACKET_TOOMANYCSRCS)
      else if 127 < ptype then Inr (failed ERR_RTP_PACKET_BADPAYLOADTYPE)
      else if ptype = 72 \<or> ptype = 73 then Inr (failed ERR_RTP_PACKET_BADPAYLOADTYPE)
      else if 0 < maxsize \<and> maxsize < packetlength then Inr (failed ERR_RTP_PACKET_DATAEXCEEDSMAXSIZE)
      else
        ub_bind (memcpy_from csrcs 0 (unat ncsrcs)) (\<lambda>cs.
        ub_bind (extension_bytes gotextension extensionid numwords extensiondata) (\<lambda>ext.
        ub_bind (memcpy_from payloaddata 0 payloadlen) (\<lambda>pl.
        Inr (Clear\<lparr>hasextension := gotextension, hasmarker := gotmarker, numcsrcs := unat ncsrcs,
          payloadtype := ptype, extseqnr := ucast seqnr, timestamp := ts, ssrc := src,
          packet := [first_byte gotextension ncsrcs, second_byte gotmarker ptype] @ hton16 seqnr @ hton32 ts @ hton32 src @
            concat (map hton32 cs) @ ext @ pl,
          payload := 12 + 4 * unat ncsrcs + length ext, payloadlength := payloadlen,
          extid := extensionid, extensionlength := unat numwords * 4, externalbuffer := buffer\<rparr>)))))"

text \<open>The two constructors that build; a null buffer is \<open>None\<close>, otherwise it is its size.\<close>

definition RTPPacket_build where
  "RTPPacket_build ptype payloaddata payloadlen seqnr ts src gotmarker ncsrcs csrcs
     gotextension extensionid numwords extensiondata maxpacksize =
     BuildPacket ptype payloaddata payloadlen seqnr ts src gotmarker ncsrcs csrcs
       gotextension extensionid numwords extensiondata False maxpacksize"

definition RTPPacket_build_in where
  "RTPPacket_build_in ptype payloaddata payloadlen seqnr ts src gotmarker ncsrcs csrcs
     gotextension extensionid numwords extensiondata buffer =
     (case buffer of
        None \<Rightarrow> Inr (failed ERR_RTP_PACKET_EXTERNALBUFFERNULL)
      | Some buffersize \<Rightarrow>
          if buffersize = 0 then Inr (failed ERR_RTP_PACKET_ILLEGALBUFFERSIZE)
          else BuildPacket ptype payloaddata payloadlen seqnr ts src gotmarker ncsrcs csrcs
            gotextension extensionid numwords extensiondata True buffersize)"

subsection \<open>What was built can be parsed\<close>

lemma concat_hton32_length: "length (concat (map hton32 cs)) = 4 * length cs"
  by (induction cs) simp_all

lemma take_nth: "i < length cs \<Longrightarrow> rd32 (concat (map hton32 cs) @ ys) (4 * i) = Inr (cs ! i)"
proof (induction cs arbitrary: i)
  case (Cons c cs)
  show ?case
  proof (cases i)
    case 0
    then show ?thesis by (simp add: rd32_hton)
  next
    case (Suc j)
    then have "4 * i = length (hton32 c) + 4 * j" by simp
    then have "rd32 (concat (map hton32 (c # cs)) @ ys) (4 * i) = rd32 (concat (map hton32 cs) @ ys) (4 * j)"
      using rd32_skip [of "hton32 c" "concat (map hton32 cs) @ ys" "4 * j"] by (simp only: concat.simps list.map append_assoc)
    then show ?thesis using Cons Suc by simp
  qed
qed simp

text \<open>The bit fields, checked for every value a field can have.\<close>

lemma small_byte: "unat (n :: byte) < k \<Longrightarrow> n \<in> set (map word_of_nat [0..<k])"
  by (auto intro!: image_eqI [of _ _ "unat n"])

lemma first_byte_table:
  "\<forall>n \<in> set (map word_of_nat [0..<16]). \<forall>e \<in> set [True, False].
     hdr_version (first_byte e n) = RTP_VERSION \<and> \<not> hdr_padding (first_byte e n) \<and> hdr_extension (first_byte e n) = e \<and>
     hdr_csrccount (first_byte e n) = unat n"
  by code_simp

lemma second_byte_table:
  "\<forall>t \<in> set (map word_of_nat [0..<128]). \<forall>m \<in> set [True, False].
     hdr_marker (second_byte m t) = m \<and> hdr_payloadtype (second_byte m t) = t"
  by code_simp

lemma first_byte_fields:
  assumes "unat n \<le> 15"
  shows "hdr_version (first_byte e n) = RTP_VERSION" "\<not> hdr_padding (first_byte e n)" "hdr_extension (first_byte e n) = e"
    "hdr_csrccount (first_byte e n) = unat n"
  using first_byte_table [rule_format, OF small_byte, of n e] assms by simp_all

lemma second_byte_fields:
  assumes "\<not> 127 < t"
  shows "hdr_marker (second_byte m t) = m" "hdr_payloadtype (second_byte m t) = t"
  using second_byte_table [rule_format, OF small_byte, of t m] assms by (simp_all add: word_less_nat_alt)

text \<open>The fixed part of a built packet, read field by field.\<close>

definition fixed_part :: "byte \<Rightarrow> byte \<Rightarrow> u16 \<Rightarrow> u32 \<Rightarrow> u32 \<Rightarrow> byte list" where
  "fixed_part b0 b1 seq ts src = [b0, b1] @ hton16 seq @ hton32 ts @ hton32 src"

lemma fixed_part_length [simp]: "length (fixed_part b0 b1 seq ts src) = 12"
  by (simp add: fixed_part_def)

lemma fixed_part_fields:
  "rd (fixed_part b0 b1 seq ts src @ r) 0 = Inr b0" "rd (fixed_part b0 b1 seq ts src @ r) (Suc 0) = Inr b1"
  "rd16 (fixed_part b0 b1 seq ts src @ r) 2 = Inr seq" "rd32 (fixed_part b0 b1 seq ts src @ r) 4 = Inr ts"
  "rd32 (fixed_part b0 b1 seq ts src @ r) 8 = Inr src"
proof -
  show "rd (fixed_part b0 b1 seq ts src @ r) 0 = Inr b0" "rd (fixed_part b0 b1 seq ts src @ r) (Suc 0) = Inr b1"
    by (simp_all add: fixed_part_def)
  show "rd16 (fixed_part b0 b1 seq ts src @ r) 2 = Inr seq"
    using rd16_skip [of "[b0, b1]" "hton16 seq @ hton32 ts @ hton32 src @ r" 0] by (simp add: fixed_part_def rd16_hton numeral_2_eq_2)
  show "rd32 (fixed_part b0 b1 seq ts src @ r) 4 = Inr ts"
    using rd32_skip [of "[b0, b1] @ hton16 seq" "hton32 ts @ hton32 src @ r" 0] by (simp add: fixed_part_def rd32_hton)
  show "rd32 (fixed_part b0 b1 seq ts src @ r) 8 = Inr src"
    using rd32_skip [of "[b0, b1] @ hton16 seq @ hton32 ts" "hton32 src @ r" 0] by (simp add: fixed_part_def rd32_hton)
qed

text \<open>A packet without padding is parsed into its fields when the payload fits.\<close>

lemma int_of_size_id: "- (2 ^ 31) \<le> n \<Longrightarrow> n < 2 ^ 31 \<Longrightarrow> int_of_size n = n"
  unfolding int_of_size_def by (simp add: signed_take_bit_int_eq_self signed_of_int)

definition extension_ok :: "bool \<Rightarrow> u16 \<Rightarrow> byte list \<Rightarrow> byte list \<Rightarrow> bool" where
  "extension_ok e i ext x \<longleftrightarrow> (if e then \<exists>n. ext = hton16 i @ hton16 n @ x \<and> length x = unat n * 4 else ext = [] \<and> x = [])"

lemma parse_fields_ok:
  assumes "int packetlen - int numpadbytes - int (offset0 + extlen) = int n" "n < 2 ^ 31"
    and "(if hdr_extension b0 then rd16 d offset0 else Inr 0) = Inr i"
    and "rd16 d 2 = Inr seq" "rd32 d 4 = Inr ts" "rd32 d 8 = Inr src"
  shows "parse_fields d packetlen b0 b1 numpadbytes offset0 extlen =
    Inr (Clear\<lparr>hasextension := hdr_extension b0, hasmarker := hdr_marker b1, numcsrcs := hdr_csrccount b0,
      payloadtype := hdr_payloadtype b1, extseqnr := ucast seq, timestamp := ts, ssrc := src,
      packet := take packetlen d, payload := offset0 + extlen, payloadlength := n,
      extid := i, extension := (if hdr_extension b0 then Some (offset0 + 4) else None), extensionlength := extlen - 4\<rparr>)"
  unfolding parse_fields_def assms Let_def ub_bind_Inr using int_of_size_id [of "int n"] assms(2) by simp

lemma parse_layout:
  assumes "d = fixed_part b0 b1 seq ts src @ concat (map hton32 cs) @ ext @ pl" "length d < 2 ^ 31"
    and "hdr_version b0 = RTP_VERSION" "\<not> hdr_padding b0" "hdr_csrccount b0 = length cs"
    and "extension_ok (hdr_extension b0) i ext x" "hdr_payloadtype b1 \<noteq> 72" "hdr_payloadtype b1 \<noteq> 73"
  shows "ParseRawPacket \<lparr>raw_data = d, raw_length = length d, raw_isrtp = True\<rparr> =
    Inr (Clear\<lparr>hasextension := hdr_extension b0, hasmarker := hdr_marker b1, numcsrcs := length cs,
      payloadtype := hdr_payloadtype b1, extseqnr := ucast seq, timestamp := ts, ssrc := src, packet := d,
      payload := 12 + 4 * length cs + length ext, payloadlength := length pl,
      extid := (if hdr_extension b0 then i else 0),
      extension := (if hdr_extension b0 then Some (16 + 4 * length cs) else None), extensionlength := length x\<rparr>)"
    (is "_ = ?res")
proof -
  have d: "rd d 0 = Inr b0" "rd d (Suc 0) = Inr b1" "rd16 d 2 = Inr seq" "rd32 d 4 = Inr ts" "rd32 d 8 = Inr src"
    unfolding assms(1) by (rule fixed_part_fields)+
  have len: "length d = 12 + 4 * length cs + length ext + length pl" by (simp add: assms(1) concat_hton32_length)
  have types: "RTP_RTCPTYPE_SR AND 127 = 72" "RTP_RTCPTYPE_RR AND 127 = 73" by simp_all
  have at: "rd16 d (12 + length cs * 4 + k) = rd16 (ext @ pl) k" for k
    using rd16_skip [of "fixed_part b0 b1 seq ts src @ concat (map hton32 cs)" "ext @ pl" k]
    by (simp add: assms(1) concat_hton32_length mult.commute)
  have step: "ParseRawPacket \<lparr>raw_data = d, raw_length = length d, raw_isrtp = True\<rparr> =
      ub_bind (if hdr_extension b0 then ub_bind (rd16 d (12 + length cs * 4 + 2)) (\<lambda>n. Inr (4 + unat n * 4)) else Inr 0)
        (parse_fields d (length d) b0 b1 0 (12 + length cs * 4))"
    using assms(3-5,7,8) len by (simp add: ParseRawPacket_def d types parse_padding_def Let_def)
  show ?thesis
  proof (cases "hdr_extension b0")
    case True
    then obtain n where n: "ext = hton16 i @ hton16 n @ x" "length x = unat n * 4"
      using assms(6) by (auto simp: extension_ok_def)
    have e: "rd16 d (12 + length cs * 4) = Inr i" "rd16 d (12 + length cs * 4 + 2) = Inr n"
      using at [of 0] at [of 2] rd16_skip [of "hton16 i" "hton16 n @ x @ pl" 0] by (simp_all add: n(1) rd16_hton)
    have "parse_fields d (length d) b0 b1 0 (12 + length cs * 4) (4 + unat n * 4) = ?res"
      using parse_fields_ok [of "length d" 0 "12 + length cs * 4" "4 + unat n * 4" "length pl" b0 d i seq ts src b1]
        d e(1) True assms(2,5) len n by (simp add: mult.commute)
    then show ?thesis unfolding step using True e(2) by simp
  next
    case False
    then have n: "ext = []" "x = []" using assms(6) by (auto simp: extension_ok_def)
    have "parse_fields d (length d) b0 b1 0 (12 + length cs * 4) 0 = ?res"
      using parse_fields_ok [of "length d" 0 "12 + length cs * 4" 0 "length pl" b0 d 0 seq ts src b1]
        d False assms(2,5) len n by (simp add: mult.commute)
    then show ?thesis unfolding step using False by simp
  qed
qed

lemma BuildPacket_fields:
  assumes "BuildPacket ptype pd plen seq ts src m nc csrcs e eid nw ed buf maxsize = Inr p" "error p = 0"
  shows "\<exists>ext. unat nc \<le> 15 \<and> \<not> 127 < ptype \<and> ptype \<noteq> 72 \<and> ptype \<noteq> 73 \<and> unat nc \<le> length csrcs \<and> plen \<le> length pd \<and>
    (e \<longrightarrow> unat nw * 4 \<le> length ed) \<and> (0 < maxsize \<longrightarrow> length (packet p) \<le> maxsize) \<and>
    ext = (if e then hton16 eid @ hton16 nw @ take (unat nw * 4) ed else []) \<and>
    packet p = fixed_part (first_byte e nc) (second_byte m ptype) seq ts src @
      concat (map hton32 (take (unat nc) csrcs)) @ ext @ take plen pd"
  using assms
  by (auto simp: BuildPacket_def Let_def failed_def Clear_def memcpy_from_def extension_bytes_def fixed_part_def ub_bind_eq_Inr
      concat_hton32_length min_absorb2 min_absorb1 split: if_splits)

lemma parse_built:
  assumes "BuildPacket ptype pd plen seq ts src m nc csrcs e eid nw ed buf maxsize = Inr p" "error p = 0"
    and "length (packet p) < 2 ^ 31"
  shows "\<exists>q. ParseRawPacket \<lparr>raw_data = packet p, raw_length = length (packet p), raw_isrtp = True\<rparr> = Inr q \<and>
    error q = 0 \<and> packet q = packet p \<and> GetPayloadData q = take plen pd \<and> extseqnr q = ucast seq \<and> timestamp q = ts \<and> ssrc q = src \<and>
    hasmarker q = m \<and> payloadtype q = ptype \<and> numcsrcs q = unat nc \<and> (\<forall>i < unat nc. GetCSRC (int i) q = Inr (csrcs ! i)) \<and>
    hasextension q = e \<and> (e \<longrightarrow> extid q = eid \<and> GetExtensionData q = Some (take (unat nw * 4) ed))"
proof -
  obtain ext where f: "unat nc \<le> 15" "\<not> 127 < ptype" "ptype \<noteq> 72" "ptype \<noteq> 73" "unat nc \<le> length csrcs" "plen \<le> length pd"
      "e \<longrightarrow> unat nw * 4 \<le> length ed" "ext = (if e then hton16 eid @ hton16 nw @ take (unat nw * 4) ed else [])"
      "packet p = fixed_part (first_byte e nc) (second_byte m ptype) seq ts src @
        concat (map hton32 (take (unat nc) csrcs)) @ ext @ take plen pd"
    using BuildPacket_fields [OF assms(1,2)] by blast
  let ?b0 = "first_byte e nc" and ?b1 = "second_byte m ptype" and ?cs = "take (unat nc) csrcs"
  let ?x = "if e then take (unat nw * 4) ed else []"
  have b: "hdr_version ?b0 = RTP_VERSION" "\<not> hdr_padding ?b0" "hdr_extension ?b0 = e" "hdr_csrccount ?b0 = length ?cs"
    "hdr_marker ?b1 = m" "hdr_payloadtype ?b1 = ptype"
    using first_byte_fields [OF f(1)] second_byte_fields [OF f(2)] f(5) by simp_all
  have ext: "extension_ok (hdr_extension ?b0) eid ext ?x"
    using f(7,8) b(3) by (auto simp: extension_ok_def)
  obtain q where q: "ParseRawPacket \<lparr>raw_data = packet p, raw_length = length (packet p), raw_isrtp = True\<rparr> = Inr q"
      "q = Clear\<lparr>hasextension := e, hasmarker := m, numcsrcs := length ?cs,
      payloadtype := ptype, extseqnr := ucast seq, timestamp := ts, ssrc := src, packet := packet p,
      payload := 12 + 4 * length ?cs + length ext, payloadlength := length (take plen pd),
      extid := (if e then eid else 0), extension := (if e then Some (16 + 4 * length ?cs) else None), extensionlength := length ?x\<rparr>"
    using parse_layout [OF f(9) assms(3) b(1,2,4) ext] b f(3,4) by simp
  have "GetPayloadData q = take plen pd"
    by (simp add: q(2) GetPayloadData_def f(9) concat_hton32_length min_absorb2 [OF f(6)])
  moreover have "GetCSRC (int i) q = Inr (csrcs ! i)" if "i < unat nc" for i
  proof -
    have i: "i < length ?cs" using that f(5) by simp
    have "nat (12 + 4 * int i) = 12 + 4 * i" by simp
    then have "GetCSRC (int i) q = rd32 (packet p) (12 + 4 * i)" using i by (auto simp: GetCSRC_def q(2) Clear_def)
    then show ?thesis
      using rd32_skip [of "fixed_part ?b0 ?b1 seq ts src" "concat (map hton32 ?cs) @ ext @ take plen pd" "4 * i"]
        take_nth [OF i, of "ext @ take plen pd"] that by (simp add: f(9))
  qed
  moreover have "GetExtensionData q = Some (take (unat nw * 4) ed)" if e
    using that f(7) by (simp add: q(2) GetExtensionData_def f(8,9) concat_hton32_length min_absorb2)
  ultimately show ?thesis using q f(5) by (simp add: Clear_def)
qed

subsection \<open>Reading a packet from the network\<close>

text \<open>The one unchecked read: the header extension of a packet that ends before it.\<close>

definition extension_cut :: "byte list \<Rightarrow> bool" where
  "extension_cut d \<longleftrightarrow> hdr_extension (d ! 0) \<and> length d < 16 + 4 * hdr_csrccount (d ! 0)"

lemma rd16_in: "i + 1 < length d \<Longrightarrow> \<exists>w. rd16 d i = Inr w"
  by (simp add: rd16_def)

lemma rd32_in: "i + 3 < length d \<Longrightarrow> \<exists>w. rd32 d i = Inr w"
  by (simp add: rd32_def)

lemma rd16_out: "length d \<le> i + 1 \<Longrightarrow> rd16 d i = Inl Overread"
  by (cases "i < length d") (simp_all add: rd16_def)

lemma parse_fields_safe:
  assumes "12 \<le> length d" "length d < 2 ^ 31" "12 \<le> off" "hdr_extension b0 \<longrightarrow> off + 1 < length d" "pad < 256" "ext < 2 ^ 20" "off < 2 ^ 20"
    and "hdr_csrccount b0 * 4 + 12 = off"
  shows "\<exists>q. parse_fields d (length d) b0 b1 pad off ext = Inr q \<and> (error q = 0 \<longrightarrow>
    packet q = d \<and> payload q = off + ext \<and> payload q + payloadlength q + pad = length d \<and> extensionlength q = ext - 4 \<and>
    numcsrcs q = hdr_csrccount b0 \<and> extension q = (if hdr_extension b0 then Some (off + 4) else None))"
proof -
  obtain i where i: "(if hdr_extension b0 then rd16 d off else Inr 0) = Inr i"
    using rd16_in [of off d] assms(4) by (cases "hdr_extension b0") auto
  obtain seq ts src where r: "rd16 d 2 = Inr seq" "rd32 d 4 = Inr ts" "rd32 d 8 = Inr src"
    using rd16_in [of 2 d] rd32_in [of 4 d] rd32_in [of 8 d] assms(1) by auto
  let ?n = "int (length d) - int pad - int (off + ext)"
  have n: "int_of_size ?n = ?n"
    by (rule int_of_size_id) (use assms(2,5-7) in simp_all)
  show ?thesis
  proof (cases "?n < 0")
    case True
    then show ?thesis unfolding parse_fields_def Let_def n by (simp add: failed_def Clear_def)
  next
    case False
    then obtain m where m: "?n = int m" by (metis not_less zero_le_imp_eq_int)
    have "m < 2 ^ 31" "off + ext + m + pad = length d" using m assms(2) by linarith+
    then show ?thesis using parse_fields_ok [OF m _ i r, of b1] by (simp add: Clear_def)
  qed
qed

definition parse_rest :: "byte list \<Rightarrow> ub + rtp_pack" where
  "parse_rest d = (let off = 12 + hdr_csrccount (d ! 0) * 4 in
     ub_bind (parse_padding d (length d) (d ! 0)) (\<lambda>pad. case pad of
        None \<Rightarrow> Inr (failed ERR_RTP_PACKET_INVALIDPACKET)
      | Some n \<Rightarrow>
          ub_bind (if hdr_extension (d ! 0) then ub_bind (rd16 d (off + 2)) (\<lambda>n. Inr (4 + unat n * 4)) else Inr 0)
            (parse_fields d (length d) (d ! 0) (d ! 1) n off)))"

lemma ParseRawPacket_step:
  assumes "raw_length r = length (raw_data r)"
  shows "ParseRawPacket r = Inr (failed ERR_RTP_PACKET_INVALIDPACKET) \<or>
    12 \<le> length (raw_data r) \<and> ParseRawPacket r = parse_rest (raw_data r)"
proof (cases "raw_isrtp r \<and> 12 \<le> length (raw_data r)")
  case True
  then have "rd (raw_data r) 0 = Inr (raw_data r ! 0)" "rd (raw_data r) 1 = Inr (raw_data r ! 1)" by (auto intro: rd_in)
  then show ?thesis using True unfolding ParseRawPacket_def parse_rest_def Let_def assms by simp
next
  case False
  then show ?thesis unfolding ParseRawPacket_def Let_def assms by auto
qed

lemma parse_padding_cases:
  assumes "0 < length d"
  shows "parse_padding d (length d) b = Inr None \<or> (\<exists>pad. parse_padding d (length d) b = Inr (Some pad) \<and> pad < 256)"
proof -
  have "rd d (length d - 1) = Inr (d ! (length d - 1))" using assms by (intro rd_in) auto
  then show ?thesis
    using unsigned_less [of "d ! (length d - 1)", where ?'a = nat] by (auto simp: parse_padding_def)
qed

lemma parse_extension_cases:
  fixes d :: "byte list"
  defines "off \<equiv> 12 + hdr_csrccount (d ! 0) * 4"
    and "m \<equiv> (if hdr_extension (d ! 0) then ub_bind (rd16 d (12 + hdr_csrccount (d ! 0) * 4 + 2)) (\<lambda>n. Inr (4 + unat n * 4)) else Inr 0)"
  shows "if extension_cut d then m = Inl Overread
    else \<exists>ext. m = Inr ext \<and> ext < 2 ^ 20 \<and> (hdr_extension (d ! 0) \<longrightarrow> 4 \<le> ext \<and> off + 1 < length d)"
proof (cases "hdr_extension (d ! 0)")
  case ext: True
  show ?thesis
  proof (cases "extension_cut d")
    case True
    then have "rd16 d (off + 2) = Inl Overread" unfolding off_def by (intro rd16_out) (simp add: extension_cut_def)
    then show ?thesis using True ext by (simp add: m_def off_def)
  next
    case False
    then have room: "16 + 4 * hdr_csrccount (d ! 0) \<le> length d" using ext by (simp add: extension_cut_def)
    then obtain n where "rd16 d (off + 2) = Inr n" using rd16_in [of "off + 2" d] by (auto simp: off_def)
    then show ?thesis using ext False room unsigned_less [of n, where ?'a = nat] by (simp add: m_def off_def)
  qed
qed (simp add: extension_cut_def m_def)

lemma ParseRawPacket_cases:
  assumes "raw_length r = length (raw_data r)" "length (raw_data r) < 2 ^ 31"
  shows "(ParseRawPacket r = Inl Overread \<and> extension_cut (raw_data r)) \<or>
    (\<exists>q pad. ParseRawPacket r = Inr q \<and> (error q = 0 \<longrightarrow> packet q = raw_data r \<and>
      12 + 4 * numcsrcs q \<le> payload q \<and> payload q + payloadlength q + pad = length (packet q) \<and>
      (\<forall>i. extension q = Some i \<longrightarrow> i + extensionlength q = payload q)))"
proof -
  define d where "d = raw_data r"
  have bad: ?thesis if "ParseRawPacket r = Inr (failed ERR_RTP_PACKET_INVALIDPACKET)"
    using that by (simp add: failed_def Clear_def)
  let ?off = "12 + hdr_csrccount (d ! 0) * 4"
  have cc: "?off < 2 ^ 20"
    using unsigned_less [of "d ! 0 AND 0x0F", where ?'a = nat] by (simp add: hdr_csrccount_def)
  consider "ParseRawPacket r = Inr (failed ERR_RTP_PACKET_INVALIDPACKET)"
    | pad where "12 \<le> length d" "pad < 256" "ParseRawPacket r =
        ub_bind (if hdr_extension (d ! 0) then ub_bind (rd16 d (?off + 2)) (\<lambda>n. Inr (4 + unat n * 4)) else Inr 0)
          (parse_fields d (length d) (d ! 0) (d ! 1) pad ?off)"
    using ParseRawPacket_step [OF assms(1)] parse_padding_cases [of d "d ! 0"]
    by (fastforce simp: d_def parse_rest_def Let_def)
  then show ?thesis
  proof cases
    case (2 pad)
    show ?thesis
    proof (cases "extension_cut d")
      case True
      then show ?thesis using parse_extension_cases [of d] 2(3) by (simp add: d_def)
    next
      case False
      then obtain ext where e: "(if hdr_extension (d ! 0) then ub_bind (rd16 d (?off + 2)) (\<lambda>n. Inr (4 + unat n * 4)) else Inr 0) = Inr ext"
          "ext < 2 ^ 20" "hdr_extension (d ! 0) \<longrightarrow> 4 \<le> ext \<and> ?off + 1 < length d"
        using parse_extension_cases [of d] by auto
      obtain q where "parse_fields d (length d) (d ! 0) (d ! 1) pad ?off ext = Inr q" "error q = 0 \<longrightarrow>
          packet q = d \<and> payload q = ?off + ext \<and> payload q + payloadlength q + pad = length d \<and> extensionlength q = ext - 4 \<and>
          numcsrcs q = hdr_csrccount (d ! 0) \<and> extension q = (if hdr_extension (d ! 0) then Some (?off + 4) else None)"
        using parse_fields_safe [of d ?off "d ! 0" pad ext "d ! 1"] 2(1,2) assms(2) e(2,3) cc by (auto simp: d_def)
      then show ?thesis using 2(3) e by (auto simp: d_def)
    qed
  qed (rule bad)
qed

subsection \<open>Properties\<close>

text \<open>C25: every packet that \<open>BuildPacket\<close> makes is accepted by \<open>ParseRawPacket\<close>, and every field comes back:
  payload, sequence number, time stamp, sources, marker, payload type, the contributing sources one by
  one and the header extension.\<close>

theorem BuildPacket_ParseRawPacket:
  assumes "BuildPacket ptype pd plen seq ts src m nc csrcs e eid nw ed buf maxsize = Inr p" "error p = 0"
    and "length (packet p) < 2 ^ 31"
  shows "\<exists>q. ParseRawPacket \<lparr>raw_data = packet p, raw_length = length (packet p), raw_isrtp = True\<rparr> = Inr q \<and>
    error q = 0 \<and> packet q = packet p \<and> GetPayloadData q = take plen pd \<and> extseqnr q = ucast seq \<and> timestamp q = ts \<and> ssrc q = src \<and>
    hasmarker q = m \<and> payloadtype q = ptype \<and> numcsrcs q = unat nc \<and> (\<forall>i < unat nc. GetCSRC (int i) q = Inr (csrcs ! i)) \<and>
    hasextension q = e \<and> (e \<longrightarrow> extid q = eid \<and> GetExtensionData q = Some (take (unat nw * 4) ed))"
  by (rule parse_built [OF assms])

theorem BuildPacket_ParseRawPacket_witness:
  "\<exists>p q. RTPPacket_build 96 [1, 2, 3] 2 0xFFFF 90000 7 True 1 [0x01020304] True 5 1 [9, 8, 7, 6] 1400 = Inr p \<and>
     ParseRawPacket \<lparr>raw_data = packet p, raw_length = length (packet p), raw_isrtp = True\<rparr> = Inr q \<and>
     GetPayloadData q = [1, 2] \<and> extseqnr q = 0xFFFF \<and> GetCSRC 0 q = Inr 0x01020304 \<and> GetExtensionData q = Some [9, 8, 7, 6] \<and>
     GetExtensionData p = None"
proof -
  obtain p where p: "RTPPacket_build 96 [1, 2, 3] 2 0xFFFF 90000 7 True 1 [0x01020304] True 5 1 [9, 8, 7, 6] 1400 = Inr p"
    "error p = 0" "length (packet p) < 2 ^ 31" "GetExtensionData p = None"
    by (simp add: RTPPacket_build_def BuildPacket_def Let_def extension_bytes_def memcpy_from_def Clear_def GetExtensionData_def)
  then show ?thesis
    using BuildPacket_ParseRawPacket [OF p(1) [unfolded RTPPacket_build_def] p(2,3)] by fastforce
qed

text \<open>C26: parsing reads outside the packet in one case only, the header extension of a packet that ends
  before it; otherwise an accepted packet consists of the header with its sources, the extension, the
  payload and the padding, all inside what was received.\<close>

theorem ParseRawPacket_bounds:
  assumes "raw_length r = length (raw_data r)" "length (raw_data r) < 2 ^ 31"
  shows "(ParseRawPacket r = Inl Overread \<and> extension_cut (raw_data r)) \<or>
    (\<exists>q pad. ParseRawPacket r = Inr q \<and> (error q = 0 \<longrightarrow> packet q = raw_data r \<and>
      12 + 4 * numcsrcs q \<le> payload q \<and> payload q + payloadlength q + pad = length (packet q) \<and>
      (\<forall>i. extension q = Some i \<longrightarrow> i + extensionlength q = payload q)))"
  by (rule ParseRawPacket_cases [OF assms])

theorem ParseRawPacket_bounds_witness:
  "ParseRawPacket \<lparr>raw_data = [0x90, 96, 0, 1, 0, 0, 0, 2, 0, 0, 0, 3], raw_length = 12, raw_isrtp = True\<rparr> = Inl Overread"
proof -
  let ?r = "\<lparr>raw_data = [0x90, 96, 0, 1, 0, 0, 0, 2, 0, 0, 0, 3], raw_length = 12, raw_isrtp = True\<rparr>"
  have "\<not> defined (ParseRawPacket ?r)" by code_simp
  then show ?thesis using ParseRawPacket_bounds [of ?r] by (auto simp: defined_iff)
qed

end
