(* ===== verification/Rtp_Source.thy ===== *)
theory Rtp_Source
  imports Rtp_Packet
begin

section \<open>RTP sources (JRTPLIB: rtpsourcedata.cpp, rtpinternalsourcedata.cpp)\<close>

text \<open>
  What JRTPLIB keeps of one source: the statistics that extend the 16-bit sequence numbers of the packets
  to 32 bits and put a new source on probation, and the queue the packets wait in until the session takes
  them with \<open>GetNextPacket\<close>. The TCP session of the client asks for \<open>NoProbation\<close>, the UDP session
  gets \<open>ProbationStore\<close>. A time is opaque here, it is only copied; left out is the jitter estimate
  (arithmetic on \<open>double\<close>, read only by the reports the session sends); \<open>Rtp_Sources\<close> adds the reports, the
  addresses and the SDES items. The callback
  \<open>OnValidatedRTPPacket\<close> of the session is empty.
\<close>

type_synonym rtp_time = int

datatype probation_type = NoProbation | ProbationDiscard | ProbationStore

definition RTP_PROBATIONCOUNT :: int where [simp]: "RTP_PROBATIONCOUNT = 2"
definition RTPINTERNALSOURCEDATA_MAXPROBATIONPACKETS :: nat where [simp]: "RTPINTERNALSOURCEDATA_MAXPROBATIONPACKETS = 32"

subsection \<open>Statistics\<close>

record source_stats =
  sentdata :: bool
  packetsreceived :: u32
  numcycles :: u32
  baseseqnr :: u32
  exthighseqnr :: u32
  prevexthighseqnr :: u32
  prevtimestamp :: u32
  prevpacktime :: rtp_time
  lastmsgtime :: rtp_time
  lastrtptime :: rtp_time
  numnewpackets :: u32
  savedextseqnr :: u32
  prevseqnr :: u16
  probation :: int

definition new_stats :: source_stats where
  "new_stats =
     \<lparr>sentdata = False, packetsreceived = 0, numcycles = 0, baseseqnr = 0, exthighseqnr = 0, prevexthighseqnr = 0,
      prevtimestamp = 0, prevpacktime = 0, lastmsgtime = 0, lastrtptime = 0, numnewpackets = 0, savedextseqnr = 0,
      prevseqnr = 0, probation = 0\<rparr>"

text \<open>The macro \<open>ACCEPTPACKETCODE\<close>.\<close>

definition accept_packet :: "rtp_pack \<Rightarrow> rtp_time \<Rightarrow> bool \<Rightarrow> source_stats \<Rightarrow> rtp_pack \<times> source_stats" where
  "accept_packet pack receivetime ownpacket st =
     (let (base, cycles) = (if extseqnr pack = 0 then (0x0000FFFF, 0x00010000) else (extseqnr pack - 1, numcycles st)) in
      (pack\<lparr>extseqnr := base + 1\<rparr>,
       st\<lparr>sentdata := True, packetsreceived := packetsreceived st + 1, numnewpackets := numnewpackets st + 1,
         baseseqnr := base, numcycles := cycles, exthighseqnr := base + 1, prevpacktime := receivetime,
         prevexthighseqnr := base, savedextseqnr := base, prevtimestamp := timestamp pack,
         lastmsgtime := receivetime, lastrtptime := (if ownpacket then lastrtptime st else receivetime)\<rparr>))"

text \<open>The probation of a source: the packet is accepted, or the source stays on probation.\<close>

definition probation_step :: "rtp_pack \<Rightarrow> source_stats \<Rightarrow> bool \<times> bool \<times> source_stats" where
  "probation_step pack st =
     (if probation st \<noteq> 0 then
        if ucast (prevseqnr st + 1) = extseqnr pack then
          (let st' = st\<lparr>prevseqnr := ucast (extseqnr pack), probation := probation st - 1\<rparr> in
           if probation st' = 0 then (True, False, st') else (False, True, st'))
        else (False, True, st\<lparr>probation := RTP_PROBATIONCOUNT, prevseqnr := ucast (extseqnr pack)\<rparr>)
      else (False, True, st\<lparr>probation := RTP_PROBATIONCOUNT, prevseqnr := ucast (extseqnr pack)\<rparr>))"

text \<open>The extension of a sequence number once the source is accepted: number, cycles, highest number.\<close>

definition extend_seq :: "u32 \<Rightarrow> source_stats \<Rightarrow> u32 \<times> source_stats" where
  "extend_seq seq st =
     (let maxseq16 = ucast (exthighseqnr st AND 0x0000FFFF) :: u16 in
      if ucast maxseq16 \<le> seq then
        (numcycles st + seq, st\<lparr>exthighseqnr := numcycles st + seq\<rparr>)
      else
        let dif1 = ucast seq - maxseq16; dif2 = maxseq16 - ucast seq in
        if dif1 < dif2 then
          (numcycles st + 0x00010000 + seq,
           st\<lparr>numcycles := numcycles st + 0x00010000, exthighseqnr := numcycles st + 0x00010000 + seq\<rparr>)
        else (numcycles st + seq, st))"

record processed =
  ps_pack :: rtp_pack
  ps_accept :: bool
  ps_onprobation :: bool
  ps_stats :: source_stats

definition ProcessPacket :: "rtp_pack \<Rightarrow> rtp_time \<Rightarrow> bool \<Rightarrow> bool \<Rightarrow> source_stats \<Rightarrow> processed" where
  "ProcessPacket pack receivetime ownpacket applyprobation st =
     (if \<not> sentdata st then
        if applyprobation then
          case probation_step pack st of (acceptpack, onprobation, st1) \<Rightarrow>
            if acceptpack then
              (case accept_packet pack receivetime ownpacket st1 of (pack', st2) \<Rightarrow>
                 \<lparr>ps_pack = pack', ps_accept = True, ps_onprobation = onprobation, ps_stats = st2\<rparr>)
            else \<lparr>ps_pack = pack, ps_accept = False, ps_onprobation = onprobation,
                   ps_stats = st1\<lparr>lastmsgtime := receivetime\<rparr>\<rparr>
        else
          case accept_packet pack receivetime ownpacket st of (pack', st2) \<Rightarrow>
            \<lparr>ps_pack = pack', ps_accept = True, ps_onprobation = False, ps_stats = st2\<rparr>
      else
        case extend_seq (extseqnr pack) st of (ext, st1) \<Rightarrow>
          \<lparr>ps_pack = pack\<lparr>extseqnr := ext\<rparr>, ps_accept = True, ps_onprobation = False,
           ps_stats = st1\<lparr>packetsreceived := packetsreceived st1 + 1, numnewpackets := numnewpackets st1 + 1,
             prevpacktime := receivetime, prevtimestamp := timestamp pack, lastmsgtime := receivetime,
             lastrtptime := (if ownpacket then lastrtptime st1 else receivetime)\<rparr>\<rparr>)"

definition StartNewInterval :: "source_stats \<Rightarrow> source_stats" where
  "StartNewInterval st = st\<lparr>numnewpackets := 0, savedextseqnr := exthighseqnr st\<rparr>"

subsection \<open>The source\<close>

record rtp_source =
  packetlist :: "rtp_pack list"
  source_ssrc :: u32
  ownssrc :: bool
  iscsrc :: bool
  receivedbye :: bool
  validated :: bool
  issender :: bool
  stats :: source_stats
  probationtype :: probation_type

definition new_source :: "u32 \<Rightarrow> probation_type \<Rightarrow> rtp_source" where
  "new_source s probtype =
     \<lparr>packetlist = [], source_ssrc = s, ownssrc = False, iscsrc = False, receivedbye = False, validated = False,
      issender = False, stats = new_stats, probationtype = probtype\<rparr>"

text \<open>The search for the place of a packet, from the end of the queue to its start; the queue is given
  backwards. The boolean tells whether the packet was stored.\<close>

fun insert_from_end :: "rtp_pack \<Rightarrow> rtp_pack list \<Rightarrow> rtp_pack list \<times> bool" where
  "insert_from_end pack [] = ([pack], True)"
| "insert_from_end pack (p # r) =
     (if extseqnr pack < extseqnr p then (case insert_from_end pack r of (r', stored) \<Rightarrow> (p # r', stored))
      else if extseqnr p < extseqnr pack then (pack # p # r, True)
      else (p # r, False))"

definition insert_packet :: "rtp_pack \<Rightarrow> rtp_pack list \<Rightarrow> rtp_pack list \<times> bool" where
  "insert_packet pack ps = (case insert_from_end pack (rev ps) of (r, stored) \<Rightarrow> (rev r, stored))"

definition enqueue_packet :: "rtp_pack \<Rightarrow> rtp_source \<Rightarrow> bool \<times> rtp_source" where
  "enqueue_packet pack src =
     (if packetlist src = [] then (True, src\<lparr>packetlist := [pack]\<rparr>)
      else
        let ps = (if \<not> validated src \<and> length (packetlist src) = RTPINTERNALSOURCEDATA_MAXPROBATIONPACKETS
                  then tl (packetlist src) else packetlist src) in
        case insert_packet pack ps of (ps', stored) \<Rightarrow> (stored, src\<lparr>packetlist := ps'\<rparr>))"

text \<open>\<open>RTPInternalSourceData::ProcessRTPPacket\<close>: whether the packet was stored, and the source.\<close>

definition ProcessRTPPacket :: "rtp_pack \<Rightarrow> rtp_time \<Rightarrow> rtp_source \<Rightarrow> bool \<times> rtp_source" where
  "ProcessRTPPacket rtppack receivetime src =
     (let applyprobation = (\<not> validated src \<and> probationtype src \<noteq> NoProbation);
          p = ProcessPacket rtppack receivetime (ownssrc src) applyprobation (stats src);
          src1 = src\<lparr>stats := ps_stats p\<rparr>;
          go = (case probationtype src of
                  ProbationStore \<Rightarrow>
                    if \<not> (ps_onprobation p \<or> ps_accept p) then None
                    else Some (if ps_accept p then src1\<lparr>validated := True\<rparr> else src1)
                | _ \<Rightarrow> if \<not> ps_accept p then None else Some (src1\<lparr>validated := True\<rparr>)) in
      case go of
        None \<Rightarrow> (False, src1)
      | Some src2 \<Rightarrow>
          enqueue_packet (ps_pack p) (if validated src2 \<and> \<not> ownssrc src2 then src2\<lparr>issender := True\<rparr> else src2))"

definition GetNextPacket :: "rtp_source \<Rightarrow> rtp_pack option \<times> rtp_source" where
  "GetNextPacket src =
     (if \<not> validated src then (None, src)
      else case packetlist src of [] \<Rightarrow> (None, src) | p # r \<Rightarrow> (Some p, src\<lparr>packetlist := r\<rparr>))"

definition HasData :: "rtp_source \<Rightarrow> bool" where
  "HasData src = (if \<not> validated src then False else packetlist src \<noteq> [])"

definition FlushPackets :: "rtp_source \<Rightarrow> rtp_source" where
  "FlushPackets src = src\<lparr>packetlist := []\<rparr>"

definition IsActive :: "rtp_source \<Rightarrow> bool" where
  "IsActive src = (if \<not> validated src then False else \<not> receivedbye src)"

definition SetOwnSSRC :: "rtp_source \<Rightarrow> rtp_source" where
  "SetOwnSSRC src = src\<lparr>ownssrc := True, validated := True\<rparr>"

definition SetCSRC :: "rtp_source \<Rightarrow> rtp_source" where
  "SetCSRC src = src\<lparr>validated := True, iscsrc := True\<rparr>"

definition ClearSenderFlag :: "rtp_source \<Rightarrow> rtp_source" where
  "ClearSenderFlag src = src\<lparr>issender := False\<rparr>"

definition ProcessBYEPacket :: "rtp_time \<Rightarrow> rtp_source \<Rightarrow> rtp_source" where
  "ProcessBYEPacket receivetime src =
     src\<lparr>receivedbye := True, stats := (stats src)\<lparr>lastmsgtime := receivetime\<rparr>\<rparr>"

end
