(* ===== verification/Rtp_Ordering.thy ===== *)
theory Rtp_Ordering
  imports Rtp_Source
begin

section \<open>Sequence numbers and the order of the queue\<close>

text \<open>
  The true number of a packet counts on where its 16-bit sequence number wraps; \<open>stats_at m st\<close>: the
  highest true number seen is \<open>m\<close>. The queue of a source is strictly sorted by extended number.
\<close>

subsection \<open>Extending a sequence number\<close>

definition stats_at :: "nat \<Rightarrow> source_stats \<Rightarrow> bool" where
  "stats_at m st \<longleftrightarrow> sentdata st \<and> exthighseqnr st = word_of_nat m \<and> numcycles st = word_of_nat (m div 65536 * 65536)"

lemma low_half: "(ucast (word_of_nat m AND 0x0000FFFF :: u32) :: u16) = word_of_nat (m mod 65536)"
proof -
  have "(0xFFFF :: u32) = mask 16" by (simp add: mask_eq_exp_minus_1)
  then have "word_of_nat m AND 0x0000FFFF = (take_bit 16 (word_of_nat m) :: u32)" by (simp only: take_bit_eq_mask)
  then show ?thesis
    by (simp only: word_unat_eq_iff unsigned_ucast_eq unsigned_take_bit_eq unsigned_of_nat)
      (simp add: take_bit_eq_mod mod_mod_cancel)
qed

lemma less_halves:
  assumes "a < b" "b < 65536"
  shows "(word_of_nat a :: u16) - word_of_nat b < word_of_nat b - word_of_nat a \<longleftrightarrow> 32768 < b - a"
proof -
  have "(word_of_nat a :: u16) - word_of_nat b < word_of_nat b - word_of_nat a \<longleftrightarrow> a + 65536 - b < b - a"
    using assms by (simp add: word_less_nat_alt unat_sub_if' unat_of_nat)
  then show ?thesis using assms by linarith
qed

lemma low_up: "s < 65536 \<Longrightarrow> (ucast (word_of_nat s :: u16) :: u32) = word_of_nat s"
  by (simp add: word_unat_eq_iff unsigned_ucast_eq unat_of_nat take_bit_eq_mod)

lemma low_down: "s < 65536 \<Longrightarrow> (ucast (word_of_nat s :: u32) :: u16) = word_of_nat s"
  by (simp add: word_unat_eq_iff unsigned_ucast_eq unat_of_nat take_bit_eq_mod)

lemma extend_seq_cases:
  assumes "stats_at m st" "lo = m mod 65536" "base = m div 65536 * 65536" "s < 65536"
  shows "extend_seq (word_of_nat s) st =
    (if lo \<le> s then (word_of_nat (base + s), st\<lparr>exthighseqnr := word_of_nat (base + s)\<rparr>)
     else if 32768 < lo - s then
       (word_of_nat (base + 65536 + s), st\<lparr>numcycles := word_of_nat (base + 65536), exthighseqnr := word_of_nat (base + 65536 + s)\<rparr>)
     else (word_of_nat (base + s), st))"
proof -
  have lo: "lo < 65536" by (simp add: assms(2))
  have 1: "exthighseqnr st = word_of_nat m" "numcycles st = word_of_nat base"
    using assms by (simp_all add: stats_at_def)
  have 2: "(ucast (word_of_nat m AND 0x0000FFFF :: u32) :: u16) = word_of_nat lo" by (simp add: low_half assms(2))
  have 3: "ucast (word_of_nat lo :: u16) \<le> (word_of_nat s :: u32) \<longleftrightarrow> lo \<le> s"
    using lo assms(4) by (simp add: low_up word_le_nat_alt unat_of_nat)
  show ?thesis
    unfolding extend_seq_def 1 2 3 Let_def low_down [OF assms(4)]
    using less_halves [of s lo] lo by simp
qed

text \<open>\<open>follows m n\<close>: after the highest number \<open>m\<close>, the packet \<open>n\<close> is either ahead by less than half the
  range, or late by at most half of it and of the same cycle.\<close>

definition follows :: "nat \<Rightarrow> nat \<Rightarrow> bool" where
  "follows m n \<longleftrightarrow> (if m \<le> n then n - m < 32768 else m - n \<le> 32768 \<and> n div 65536 = m div 65536)"

definition seq16 :: "nat \<Rightarrow> u32" where
  "seq16 n = word_of_nat (n mod 65536)"

lemma next_cycle:
  assumes "(m :: nat) \<le> n" "n - m < 32768" "n div 65536 \<noteq> m div 65536"
  shows "n div 65536 = m div 65536 + 1" "n mod 65536 < m mod 65536" "32768 < m mod 65536 - n mod 65536"
proof -
  have m: "m div 65536 * 65536 + m mod 65536 = m" "n div 65536 * 65536 + n mod 65536 = n" by simp_all
  have b: "m mod 65536 < 65536" "n mod 65536 < 65536" by simp_all
  have le: "m div 65536 \<le> n div 65536" using assms(1) by (rule div_le_mono)
  show d: "n div 65536 = m div 65536 + 1" using m b le assms by linarith
  show "n mod 65536 < m mod 65536" "32768 < m mod 65536 - n mod 65536" using m b d assms by linarith+
qed

lemma extend_seq_follows:
  assumes "stats_at m st" "follows m n"
  shows "fst (extend_seq (seq16 n) st) = word_of_nat n" "stats_at (max m n) (snd (extend_seq (seq16 n) st))"
proof -
  have e: "extend_seq (seq16 n) st =
    (if m mod 65536 \<le> n mod 65536 then (word_of_nat (m div 65536 * 65536 + n mod 65536), st\<lparr>exthighseqnr := word_of_nat (m div 65536 * 65536 + n mod 65536)\<rparr>)
     else if 32768 < m mod 65536 - n mod 65536 then
       (word_of_nat (m div 65536 * 65536 + 65536 + n mod 65536), st\<lparr>numcycles := word_of_nat (m div 65536 * 65536 + 65536),
          exthighseqnr := word_of_nat (m div 65536 * 65536 + 65536 + n mod 65536)\<rparr>)
     else (word_of_nat (m div 65536 * 65536 + n mod 65536), st))"
    unfolding seq16_def by (rule extend_seq_cases [OF assms(1)]) simp_all
  have n: "n div 65536 * 65536 + n mod 65536 = n" by simp
  have m: "m div 65536 * 65536 + m mod 65536 = m" by simp
  have "fst (extend_seq (seq16 n) st) = word_of_nat n \<and> stats_at (max m n) (snd (extend_seq (seq16 n) st))"
  proof (cases "n div 65536 = m div 65536")
    case True
    then have base: "m div 65536 * 65536 + n mod 65536 = n" using n by simp
    have "m mod 65536 \<le> n mod 65536 \<longleftrightarrow> m \<le> n" "\<not> m \<le> n \<Longrightarrow> m mod 65536 - n mod 65536 = m - n" using m n True by linarith+
    then show ?thesis
      using assms True unfolding e base by (auto simp: stats_at_def follows_def max_def)
  next
    case False
    then have f: "m \<le> n" "n - m < 32768" using assms(2) by (auto simp: follows_def split: if_splits)
    note c = next_cycle [OF f False]
    have "m div 65536 * 65536 + 65536 + n mod 65536 = n" "m div 65536 * 65536 + 65536 = n div 65536 * 65536"
      using c(1) n by simp_all
    then show ?thesis
      using assms c(2,3) f(1) unfolding e by (simp add: stats_at_def max_def)
  qed
  then show "fst (extend_seq (seq16 n) st) = word_of_nat n" "stats_at (max m n) (snd (extend_seq (seq16 n) st))" by simp_all
qed

text \<open>A packet that comes late from the cycle before.\<close>

lemma extend_seq_late:
  assumes "stats_at m st" "n < m" "m - n < 65536" "n div 65536 \<noteq> m div 65536"
  shows "fst (extend_seq (seq16 n) st) = word_of_nat (n + 65536)" "stats_at (n + 65536) (snd (extend_seq (seq16 n) st))"
proof -
  have m: "m div 65536 * 65536 + m mod 65536 = m" "n div 65536 * 65536 + n mod 65536 = n" by simp_all
  have b: "m mod 65536 < 65536" "n mod 65536 < 65536" by simp_all
  have le: "n div 65536 \<le> m div 65536" using assms(2) by (intro div_le_mono) simp
  have d: "m div 65536 = n div 65536 + 1" using m b le assms by linarith
  have lo: "m mod 65536 \<le> n mod 65536" using m b d assms by linarith
  have base: "m div 65536 * 65536 + n mod 65536 = n + 65536" using m(2) d by simp
  have "extend_seq (seq16 n) st = (word_of_nat (n + 65536), st\<lparr>exthighseqnr := word_of_nat (n + 65536)\<rparr>)"
    using extend_seq_cases [OF assms(1) refl refl, of "n mod 65536"] lo base unfolding seq16_def by simp
  moreover have "(n + 65536) div 65536 = m div 65536" using d by simp
  ultimately show "fst (extend_seq (seq16 n) st) = word_of_nat (n + 65536)" "stats_at (n + 65536) (snd (extend_seq (seq16 n) st))"
    using assms(1) by (simp_all add: stats_at_def del: div_add_self2)
qed

subsection \<open>The queue\<close>

definition sorted_queue :: "rtp_pack list \<Rightarrow> bool" where
  "sorted_queue ps \<longleftrightarrow> sorted_wrt (\<lambda>p q. extseqnr p < extseqnr q) ps"

lemma insert_packet_snoc:
  "insert_packet pack (ps @ [p]) =
    (if extseqnr pack < extseqnr p then (case insert_packet pack ps of (ps', stored) \<Rightarrow> (ps' @ [p], stored))
     else if extseqnr p < extseqnr pack then (ps @ [p, pack], True) else (ps @ [p], False))"
  by (simp add: insert_packet_def split: prod.split)

lemma insort_snoc:
  "\<forall>q \<in> set ps. f q \<le> f p \<Longrightarrow> insort_key f x (ps @ [p]) = (if f x \<le> f p then insort_key f x ps @ [p] else ps @ [p, x])"
  by (induction ps) auto

text \<open>The loop that searches from the end inserts where the specification does, or finds a duplicate.\<close>

lemma insert_packet_spec:
  "sorted_queue ps \<Longrightarrow> insert_packet pack ps =
    (if extseqnr pack \<in> extseqnr ` set ps then (ps, False) else (insort_key extseqnr pack ps, True))"
proof (induction ps rule: rev_induct)
  case Nil
  then show ?case by (simp add: insert_packet_def)
next
  case (snoc p ps)
  then have s: "sorted_queue ps" "\<forall>q \<in> set ps. extseqnr q < extseqnr p" by (auto simp: sorted_queue_def sorted_wrt_append)
  then have le: "\<forall>q \<in> set ps. extseqnr q \<le> extseqnr p" by (auto intro: less_imp_le)
  show ?case
  proof (cases "extseqnr pack < extseqnr p")
    case True
    then show ?thesis using snoc.IH [OF s(1)] insort_snoc [OF le, of pack]
      by (auto simp: insert_packet_snoc less_imp_le)
  next
    case False
    then have "extseqnr pack \<notin> extseqnr ` set ps" using s(2) by auto
    then show ?thesis using False insort_snoc [OF le, of pack] by (auto simp: insert_packet_snoc not_less)
  qed
qed

lemma sorted_queue_insort:
  "sorted_queue ps \<Longrightarrow> extseqnr pack \<notin> extseqnr ` set ps \<Longrightarrow> sorted_queue (insort_key extseqnr pack ps)"
proof (induction ps)
  case (Cons p ps)
  then show ?case by (auto simp: sorted_queue_def set_insort_key)
qed (simp add: sorted_queue_def)

lemma sorted_queue_tl: "sorted_queue ps \<Longrightarrow> sorted_queue (tl ps)"
  by (cases ps) (simp_all add: sorted_queue_def)

lemma sorted_queue_insert: "sorted_queue ps \<Longrightarrow> sorted_queue (fst (insert_packet pack ps))"
  by (simp add: insert_packet_spec sorted_queue_insort)

lemma insert_packet_length: "length (fst (insert_packet pack ps)) \<le> length ps + 1"
proof -
  have "length (fst (insert_from_end pack r)) \<le> length r + 1" for r
    by (induction r) (auto split: prod.splits)
  from this [of "rev ps"] show ?thesis by (simp add: insert_packet_def case_prod_unfold)
qed

subsection \<open>The invariant of a source\<close>

definition source_inv :: "rtp_source \<Rightarrow> bool" where
  "source_inv src \<longleftrightarrow> sorted_queue (packetlist src) \<and>
     (\<not> validated src \<longrightarrow> length (packetlist src) \<le> RTPINTERNALSOURCEDATA_MAXPROBATIONPACKETS)"

inductive source_reach :: "rtp_source \<Rightarrow> bool" where
  reach_new: "source_reach (new_source s t)"
| reach_packet: "source_reach src \<Longrightarrow> source_reach (snd (ProcessRTPPacket p t src))"
| reach_next: "source_reach src \<Longrightarrow> source_reach (snd (GetNextPacket src))"
| reach_flush: "source_reach src \<Longrightarrow> source_reach (FlushPackets src)"
| reach_own: "source_reach src \<Longrightarrow> source_reach (SetOwnSSRC src)"
| reach_csrc: "source_reach src \<Longrightarrow> source_reach (SetCSRC src)"
| reach_clear: "source_reach src \<Longrightarrow> source_reach (ClearSenderFlag src)"
| reach_bye: "source_reach src \<Longrightarrow> source_reach (ProcessBYEPacket t src)"
| reach_interval: "source_reach src \<Longrightarrow> source_reach (src\<lparr>stats := StartNewInterval (stats src)\<rparr>)"

lemma enqueue_inv:
  assumes "source_inv src"
  shows "source_inv (snd (enqueue_packet p src))"
proof (cases "packetlist src = []")
  case True
  then show ?thesis by (simp add: enqueue_packet_def source_inv_def sorted_queue_def)
next
  case False
  let ?ps = "if \<not> validated src \<and> length (packetlist src) = 32 then tl (packetlist src) else packetlist src"
  have ps: "sorted_queue ?ps" "\<not> validated src \<Longrightarrow> length ?ps \<le> 31"
    using assms by (auto simp: source_inv_def sorted_queue_tl)
  have "snd (enqueue_packet p src) = src\<lparr>packetlist := fst (insert_packet p ?ps)\<rparr>"
    using False by (simp add: enqueue_packet_def Let_def split: prod.split)
  moreover have "length (fst (insert_packet p ?ps)) \<le> length ?ps + 1" by (rule insert_packet_length)
  ultimately show ?thesis using ps sorted_queue_insert [OF ps(1)] by (auto simp: source_inv_def)
qed

lemma source_inv_cong:
  "source_inv src \<Longrightarrow> packetlist src' = packetlist src \<Longrightarrow> (validated src \<Longrightarrow> validated src') \<Longrightarrow> source_inv src'"
  by (auto simp: source_inv_def)

lemma ProcessRTPPacket_inv: "source_inv src \<Longrightarrow> source_inv (snd (ProcessRTPPacket p t src))"
  unfolding ProcessRTPPacket_def Let_def
  by (auto split: option.splits probation_type.splits if_splits
      intro!: enqueue_inv elim: source_inv_cong)

lemma GetNextPacket_inv: "source_inv src \<Longrightarrow> source_inv (snd (GetNextPacket src))"
  by (auto simp: GetNextPacket_def source_inv_def sorted_queue_def split: list.splits)

lemma reachable_inv: "source_reach src \<Longrightarrow> source_inv src"
proof (induction rule: source_reach.induct)
  case (reach_new s t)
  then show ?case by (simp add: source_inv_def sorted_queue_def new_source_def)
next
  case (reach_flush src)
  then show ?case by (simp add: source_inv_def sorted_queue_def FlushPackets_def)
qed (auto intro: ProcessRTPPacket_inv GetNextPacket_inv
  elim: source_inv_cong simp: SetOwnSSRC_def SetCSRC_def ClearSenderFlag_def ProcessBYEPacket_def)

subsection \<open>What is delivered\<close>

text \<open>\<open>drain\<close>: \<open>GetNextPacket\<close> until it returns null. \<open>deliver\<close>: the packets arrive one by one, each with
  the time of its arrival.\<close>

function drain :: "rtp_source \<Rightarrow> rtp_pack list" where
  "drain src = (case GetNextPacket src of (None, _) \<Rightarrow> [] | (Some p, src') \<Rightarrow> p # drain src')"
  by pat_completeness auto

termination
  by (relation "measure (\<lambda>src. length (packetlist src))")
    (auto simp: GetNextPacket_def split: if_splits list.splits)

declare drain.simps [simp del]

lemma drain_queue: "validated src \<Longrightarrow> drain src = packetlist src"
proof (induction src rule: drain.induct)
  case (1 src)
  then show ?case by (subst drain.simps) (auto simp: GetNextPacket_def split: list.split)
qed

definition deliver :: "(nat \<Rightarrow> rtp_pack) \<Rightarrow> (nat \<times> rtp_time) list \<Rightarrow> rtp_source \<Rightarrow> rtp_source" where
  "deliver pk = fold (\<lambda>(n, t) src. snd (ProcessRTPPacket (pk n) t src))"

definition numbered :: "(nat \<Rightarrow> rtp_pack) \<Rightarrow> nat \<Rightarrow> rtp_pack" where
  "numbered pk n = (pk n)\<lparr>extseqnr := word_of_nat n\<rparr>"

definition holds :: "(nat \<Rightarrow> rtp_pack) \<Rightarrow> nat \<Rightarrow> nat set \<Rightarrow> rtp_source \<Rightarrow> bool" where
  "holds pk m N src \<longleftrightarrow> finite N \<and> (\<forall>n \<in> N. n < 2 ^ 32) \<and> stats_at m (stats src) \<and> probationtype src = NoProbation \<and>
     validated src \<and> packetlist src = map (numbered pk) (sorted_list_of_set N)"

lemma extseqnr_numbered [simp]: "extseqnr (numbered pk n) = word_of_nat n"
  by (simp add: numbered_def)

lemma word_of_nat_le: "a < 2 ^ 32 \<Longrightarrow> b < 2 ^ 32 \<Longrightarrow> (word_of_nat a :: u32) \<le> word_of_nat b \<longleftrightarrow> a \<le> b"
  by (simp add: word_le_nat_alt unat_of_nat)

lemma word_of_nat_eq: "a < 2 ^ 32 \<Longrightarrow> b < 2 ^ 32 \<Longrightarrow> (word_of_nat a :: u32) = word_of_nat b \<longleftrightarrow> a = b"
  by (metis word_of_nat_le order_antisym order_refl)

lemma insort_numbered:
  "\<forall>x \<in> set xs. x < 2 ^ 32 \<Longrightarrow> n < 2 ^ 32 \<Longrightarrow>
   insort_key extseqnr (numbered pk n) (map (numbered pk) xs) = map (numbered pk) (insort n xs)"
  by (induction xs) (auto simp: word_of_nat_le)

lemma numbered_sorted:
  assumes "finite N" "\<forall>n \<in> N. n < 2 ^ 32"
  shows "sorted_queue (map (numbered pk) (sorted_list_of_set N))"
proof -
  have "sorted_wrt (<) (sorted_list_of_set N)" by simp
  then have "sorted_wrt (\<lambda>a b. (word_of_nat a :: u32) < word_of_nat b) (sorted_list_of_set N)"
    by (rule sorted_wrt_mono_rel [rotated]) (use assms in \<open>auto simp: word_less_nat_alt unat_of_nat\<close>)
  then show ?thesis by (simp add: sorted_queue_def sorted_wrt_map)
qed

lemma enqueue_holds:
  assumes "finite N" "\<forall>n \<in> N. n < 2 ^ 32" "n < 2 ^ 32" "validated src"
    and "packetlist src = map (numbered pk) (sorted_list_of_set N)"
  shows "enqueue_packet (numbered pk n) src =
    (n \<notin> N, src\<lparr>packetlist := map (numbered pk) (sorted_list_of_set (insert n N))\<rparr>)"
proof (cases "N = {}")
  case True
  then show ?thesis using assms(5) by (simp add: enqueue_packet_def)
next
  case False
  let ?q = "map (numbered pk) (sorted_list_of_set N)"
  have ne: "packetlist src \<noteq> []" using False assms(1,5) by simp
  have mem: "extseqnr (numbered pk n) \<in> extseqnr ` set ?q \<longleftrightarrow> n \<in> N"
    using assms(1-3) by (auto simp: word_of_nat_eq image_iff)
  have "insert_packet (numbered pk n) ?q =
      (if n \<in> N then (?q, False) else (map (numbered pk) (insort n (sorted_list_of_set N)), True))"
    using insert_packet_spec [OF numbered_sorted [OF assms(1,2)], of "numbered pk n" pk] mem
      insort_numbered [of "sorted_list_of_set N" n pk] assms(1-3) by simp
  then show ?thesis
    using ne assms(1,4,5) by (cases "n \<in> N") (simp_all add: enqueue_packet_def insert_absorb)
qed

lemma ProcessPacket_sent:
  assumes "stats_at m st" "follows m n" "extseqnr (pk n) = seq16 n"
  shows "\<exists>st'. ProcessPacket (pk n) t own prob st =
    \<lparr>ps_pack = numbered pk n, ps_accept = True, ps_onprobation = False, ps_stats = st'\<rparr> \<and> stats_at (max m n) st'"
proof -
  obtain ext st1 where e: "extend_seq (seq16 n) st = (ext, st1)" by fastforce
  have "ext = word_of_nat n" "stats_at (max m n) st1" using extend_seq_follows [OF assms(1,2)] e by simp_all
  then show ?thesis
    using assms(1,3) e by (simp add: ProcessPacket_def stats_at_def numbered_def)
qed

lemma ProcessRTPPacket_holds:
  assumes "holds pk m N src" "follows m n" "extseqnr (pk n) = seq16 n" "n < 2 ^ 32"
  shows "fst (ProcessRTPPacket (pk n) t src) = (n \<notin> N)" "holds pk (max m n) (insert n N) (snd (ProcessRTPPacket (pk n) t src))"
proof -
  have h: "finite N" "\<forall>n \<in> N. n < 2 ^ 32" "stats_at m (stats src)" "probationtype src = NoProbation" "validated src"
    "packetlist src = map (numbered pk) (sorted_list_of_set N)" using assms(1) by (simp_all add: holds_def)
  obtain st' where st: "ProcessPacket (pk n) t (ownssrc src) False (stats src) =
      \<lparr>ps_pack = numbered pk n, ps_accept = True, ps_onprobation = False, ps_stats = st'\<rparr>" "stats_at (max m n) st'"
    using ProcessPacket_sent [of m "stats src" n pk t "ownssrc src" False, OF h(3) assms(2,3)] by blast
  let ?v = "src\<lparr>stats := st', validated := True\<rparr>"
  let ?s = "if ownssrc src then ?v else ?v\<lparr>issender := True\<rparr>"
  have "ProcessRTPPacket (pk n) t src = enqueue_packet (numbered pk n) (?s)"
    using h(4,5) st(1) by (simp add: ProcessRTPPacket_def Let_def)
  moreover have "enqueue_packet (numbered pk n) (?s) =
      (n \<notin> N, (?s)\<lparr>packetlist := map (numbered pk) (sorted_list_of_set (insert n N))\<rparr>)"
    by (rule enqueue_holds [OF h(1,2) assms(4)]) (use h(6) in simp_all)
  ultimately show "fst (ProcessRTPPacket (pk n) t src) = (n \<notin> N)"
      "holds pk (max m n) (insert n N) (snd (ProcessRTPPacket (pk n) t src))"
    using h(1,2,4) st(2) assms(4) by (simp_all add: holds_def)
qed

text \<open>The first packet: sequence number 0 is taken for 65536.\<close>

lemma ProcessRTPPacket_first:
  assumes "0 < n" "n \<le> 65536" "extseqnr (pk n) = seq16 n"
  shows "fst (ProcessRTPPacket (pk n) t (new_source s NoProbation))"
    "holds pk n {n} (snd (ProcessRTPPacket (pk n) t (new_source s NoProbation)))"
proof -
  have "seq16 n = 0 \<longleftrightarrow> n = 65536"
  proof -
    have "n mod 65536 < 2 ^ 32" "n mod 65536 = 0 \<longleftrightarrow> n = 65536" using assms(1,2) by (auto simp: mod_eq_0_iff_dvd dvd_def)
    then show ?thesis using word_of_nat_eq [of "n mod 65536" 0] by (simp add: seq16_def)
  qed
  moreover have "n \<noteq> 65536 \<Longrightarrow> seq16 n = word_of_nat n \<and> n div 65536 = 0" using assms(2) by (simp add: seq16_def)
  ultimately obtain st where "ProcessPacket (pk n) t False False new_stats =
      \<lparr>ps_pack = numbered pk n, ps_accept = True, ps_onprobation = False, ps_stats = st\<rparr>" "stats_at n st"
    using assms(3) by (cases "n = 65536")
      (auto simp: ProcessPacket_def new_stats_def accept_packet_def numbered_def stats_at_def)
  then show "fst (ProcessRTPPacket (pk n) t (new_source s NoProbation))"
    "holds pk n {n} (snd (ProcessRTPPacket (pk n) t (new_source s NoProbation)))"
    using assms(2) by (simp_all add: ProcessRTPPacket_def new_source_def enqueue_packet_def holds_def Let_def)
qed

text \<open>\<open>arrivals m ns\<close>: every packet of \<open>ns\<close> follows the highest number seen before it.\<close>

fun arrivals :: "nat \<Rightarrow> nat list \<Rightarrow> bool" where
  "arrivals m [] \<longleftrightarrow> True"
| "arrivals m (n # ns) \<longleftrightarrow> follows m n \<and> arrivals (max m n) ns"

lemma deliver_holds:
  assumes "holds pk m N src" "arrivals m (map fst arr)" "\<forall>n \<in> fst ` set arr. extseqnr (pk n) = seq16 n \<and> n < 2 ^ 32"
  shows "\<exists>m'. holds pk m' (N \<union> fst ` set arr) (deliver pk arr src)"
  using assms
proof (induction arr arbitrary: m N src)
  case (Cons a arr)
  obtain n t where a: "a = (n, t)" by fastforce
  have "holds pk (max m n) (insert n N) (snd (ProcessRTPPacket (pk n) t src))"
    by (rule ProcessRTPPacket_holds) (use Cons.prems a in auto)
  then obtain m' where "holds pk m' (insert n N \<union> fst ` set arr) (deliver pk arr (snd (ProcessRTPPacket (pk n) t src)))"
    using Cons.IH Cons.prems(2,3) a by fastforce
  then show ?case by (auto simp: a deliver_def)
qed (auto simp: deliver_def)

lemma deliver_from_new:
  assumes "0 < n" "n \<le> 65536" "arrivals n (map fst arr)"
    and "\<forall>k \<in> insert n (fst ` set arr). extseqnr (pk k) = seq16 k \<and> k < 2 ^ 32"
  shows "validated (deliver pk ((n, t) # arr) (new_source s NoProbation))"
    "packetlist (deliver pk ((n, t) # arr) (new_source s NoProbation)) =
      map (numbered pk) (sorted_list_of_set (insert n (fst ` set arr)))"
proof -
  have "holds pk n {n} (snd (ProcessRTPPacket (pk n) t (new_source s NoProbation)))"
    by (rule ProcessRTPPacket_first) (use assms in auto)
  then obtain m' where "holds pk m' ({n} \<union> fst ` set arr) (deliver pk arr (snd (ProcessRTPPacket (pk n) t (new_source s NoProbation))))"
    using deliver_holds [of pk n "{n}" _ arr] assms(3,4) by blast
  then show "validated (deliver pk ((n, t) # arr) (new_source s NoProbation))"
    "packetlist (deliver pk ((n, t) # arr) (new_source s NoProbation)) =
      map (numbered pk) (sorted_list_of_set (insert n (fst ` set arr)))"
    by (simp_all add: deliver_def holds_def)
qed

text \<open>A packet that is late by more than the cycle allows: its number is below the highest one and the
  16 bits wrapped in between.\<close>

definition late :: "nat \<Rightarrow> nat \<Rightarrow> bool" where
  "late m n \<longleftrightarrow> n < m \<and> m - n < 65536 \<and> n div 65536 \<noteq> m div 65536"

subsection \<open>Probation\<close>

text \<open>\<open>in_sequence p q\<close>: the 16-bit number of \<open>q\<close> is the next one after that of \<open>p\<close>.
  \<open>three_in_sequence\<close>: some three packets that came one after the other are in sequence.\<close>

definition in_sequence :: "rtp_pack \<Rightarrow> rtp_pack \<Rightarrow> bool" where
  "in_sequence p q \<longleftrightarrow> unat (extseqnr q) = (unat (extseqnr p) + 1) mod 65536"

fun three_in_sequence :: "rtp_pack list \<Rightarrow> bool" where
  "three_in_sequence (p # q # r # ps) \<longleftrightarrow> in_sequence p q \<and> in_sequence q r \<or> three_in_sequence (q # r # ps)"
| "three_in_sequence ps \<longleftrightarrow> False"

definition arrive :: "(rtp_pack \<times> rtp_time) list \<Rightarrow> rtp_source \<Rightarrow> rtp_source" where
  "arrive = fold (\<lambda>(p, t) src. snd (ProcessRTPPacket p t src))"

lemma arrive_snoc: "arrive (arr @ [(p, t)]) src = snd (ProcessRTPPacket p t (arrive arr src))"
  by (simp add: arrive_def)

text \<open>The state of a source on probation, after the packets \<open>ps\<close> (the last one first): the number of the last
  one, how many more in sequence it waits for, and what is queued.\<close>

fun waits_for :: "rtp_pack list \<Rightarrow> int" where
  "waits_for [] = 0"
| "waits_for [p] = 2"
| "waits_for (q # p # ps) = (if in_sequence p q then 1 else 2)"

definition on_probation :: "probation_type \<Rightarrow> rtp_pack list \<Rightarrow> rtp_source \<Rightarrow> bool" where
  "on_probation pt ps src \<longleftrightarrow>
     \<not> validated src \<and> \<not> sentdata (stats src) \<and> \<not> ownssrc src \<and> probationtype src = pt \<and>
     probation (stats src) = waits_for ps \<and>
     (ps \<noteq> [] \<longrightarrow> prevseqnr (stats src) = ucast (extseqnr (hd ps))) \<and>
     sorted_queue (packetlist src) \<and> 
     (length ps \<le> 32 \<longrightarrow> length (packetlist src) \<le> length ps \<and>
       extseqnr ` set (packetlist src) = (if pt = ProbationStore then extseqnr ` set ps else {}))"

lemma three_in_sequence_snoc:
  "three_in_sequence (a @ [p, q, r]) \<longleftrightarrow> three_in_sequence (a @ [p, q]) \<or> in_sequence p q \<and> in_sequence q r"
proof (induction a rule: induct_list012)
  case (3 x y zs)
  then show ?case by (cases zs) auto
qed auto

lemma three_in_sequence_last:
  "three_in_sequence (rev ps @ [r]) \<longleftrightarrow>
     three_in_sequence (rev ps) \<or> waits_for ps = 1 \<and> in_sequence (hd ps) r"
proof (cases ps rule: waits_for.cases)
  case (3 q p ps)
  then show ?thesis using three_in_sequence_snoc [of "rev ps" p q r] by simp
qed simp_all

lemma next_number:
  assumes "unat (extseqnr p) < 65536"
  shows "ucast (ucast (extseqnr p) + 1 :: u16) = extseqnr q \<longleftrightarrow> in_sequence p q"
proof -
  let ?x = "extseqnr p"
  have "unat (ucast ?x + 1 :: u16) = (unat ?x + 1) mod 65536"
    using assms by (simp add: unat_word_ariths unsigned_ucast_eq take_bit_eq_mod)
  then have "unat (ucast (ucast ?x + 1 :: u16) :: u32) = (unat ?x + 1) mod 65536"
    by (simp add: unsigned_ucast_eq take_bit_eq_mod mod_mod_cancel)
  then have "ucast (ucast ?x + 1 :: u16) = extseqnr q \<longleftrightarrow> (unat ?x + 1) mod 65536 = unat (extseqnr q)"
    unfolding word_unat_eq_iff by (simp only:)
  then show ?thesis unfolding in_sequence_def by (simp only: eq_commute)
qed

lemma probation_step_numbers:
  assumes "on_probation pt ps src" "\<forall>p \<in> set ps. unat (extseqnr p) < 65536"
  shows "probation_step p (stats src) =
    (if waits_for ps = 1 \<and> in_sequence (hd ps) p
     then (True, False, (stats src)\<lparr>prevseqnr := ucast (extseqnr p), probation := 0\<rparr>)
     else (False, True, (stats src)\<lparr>prevseqnr := ucast (extseqnr p), probation := waits_for (p # ps)\<rparr>))"
proof (cases ps)
  case Nil
  then show ?thesis using assms by (simp add: on_probation_def probation_step_def)
next
  case (Cons q qs)
  then have p: "probation (stats src) = waits_for ps" "prevseqnr (stats src) = ucast (extseqnr q)"
    using assms(1) by (simp_all add: on_probation_def)
  have w: "waits_for ps = 1 \<or> waits_for ps = 2" unfolding Cons by (cases qs) simp_all
  have w': "waits_for (p # ps) = (if in_sequence q p then 1 else 2)" unfolding Cons by simp
  have q: "unat (extseqnr q) < 65536" and hd: "hd ps = q" using assms(2) Cons by simp_all
  from w show ?thesis
    unfolding probation_step_def p next_number [OF q] Let_def w' hd
    by (elim disjE) (simp_all only: if_True if_False simp_thms RTP_PROBATIONCOUNT_def, simp_all)
qed

lemma new_on_probation: "pt \<noteq> NoProbation \<Longrightarrow> on_probation pt [] (new_source s pt)"
  by (simp add: on_probation_def new_source_def new_stats_def sorted_queue_def)

text \<open>The queue of a source on probation gets the packet unless its number is there already.\<close>

lemma enqueue_numbers:
  assumes "sorted_queue (packetlist src)" "validated src \<or> length (packetlist src) < 32"
  shows "sorted_queue (packetlist (snd (enqueue_packet p src)))"
    "extseqnr ` set (packetlist (snd (enqueue_packet p src))) = insert (extseqnr p) (extseqnr ` set (packetlist src))"
    "length (packetlist (snd (enqueue_packet p src))) \<le> Suc (length (packetlist src))"
proof -
  have e: "packetlist (snd (enqueue_packet p src)) = fst (insert_packet p (packetlist src))"
    using assms(2) by (auto simp: enqueue_packet_def insert_packet_def Let_def split: prod.split)
  show "sorted_queue (packetlist (snd (enqueue_packet p src)))"
    unfolding e by (rule sorted_queue_insert [OF assms(1)])
  show "extseqnr ` set (packetlist (snd (enqueue_packet p src))) = insert (extseqnr p) (extseqnr ` set (packetlist src))"
    unfolding e insert_packet_spec [OF assms(1)] by (auto simp: set_insort_key insert_absorb)
  show "length (packetlist (snd (enqueue_packet p src))) \<le> Suc (length (packetlist src))"
    unfolding e using insert_packet_length [of p "packetlist src"] by simp
qed

lemma enqueue_sorted:
  assumes "sorted_queue (packetlist src)"
  shows "sorted_queue (packetlist (snd (enqueue_packet p src)))"
proof -
  have "insert_packet p ps = (ps', stored) \<Longrightarrow> sorted_queue ps \<Longrightarrow> sorted_queue ps'" for ps ps' stored
    using sorted_queue_insert [of ps p] by simp
  then show ?thesis
    using assms sorted_queue_tl [OF assms]
    by (auto simp: enqueue_packet_def Let_def sorted_queue_def [of "[p]"] split: prod.split)
qed

lemma enqueue_fields [simp]:
  "validated (snd (enqueue_packet p src)) = validated src" "stats (snd (enqueue_packet p src)) = stats src"
  "ownssrc (snd (enqueue_packet p src)) = ownssrc src" "probationtype (snd (enqueue_packet p src)) = probationtype src"
  by (simp_all add: enqueue_packet_def Let_def split: prod.split)

lemma enqueue_nonempty: "packetlist (snd (enqueue_packet p src)) \<noteq> []"
proof -
  have "fst (insert_packet p ps) \<noteq> []" for ps
    by (cases "rev ps") (auto simp: insert_packet_def split: prod.split)
  then show ?thesis by (simp add: enqueue_packet_def Let_def split: prod.split) (metis fst_conv)
qed

text \<open>The last packet of three in sequence: its number as \<open>accept_packet\<close> extends it.\<close>

abbreviation first_number :: "rtp_pack \<Rightarrow> u32" where
  "first_number p \<equiv> (let n = extseqnr p in if n = 0 then 65536 else n)"

lemma probation_goes_on:
  assumes "on_probation pt ps src" "\<forall>p \<in> set ps. unat (extseqnr p) < 65536" "pt \<noteq> NoProbation"
    and "\<not> (waits_for ps = 1 \<and> in_sequence (hd ps) p)"
  shows "on_probation pt (p # ps) (snd (ProcessRTPPacket p t src))"
proof -
  have s: "\<not> validated src" "\<not> sentdata (stats src)" "\<not> ownssrc src" "probationtype src = pt"
    using assms(1) by (simp_all add: on_probation_def)
  let ?st = "(stats src)\<lparr>prevseqnr := ucast (extseqnr p), probation := waits_for (p # ps), lastmsgtime := t\<rparr>"
  have step: "ProcessPacket p t False True (stats src) =
      \<lparr>ps_pack = p, ps_accept = False, ps_onprobation = True, ps_stats = ?st\<rparr>"
    using probation_step_numbers [OF assms(1,2), of p] assms(4) s(2)
    by (simp add: ProcessPacket_def del: waits_for.simps)
  let ?q = "packetlist (snd (ProcessRTPPacket p t src))"
  have e: "snd (ProcessRTPPacket p t src) =
      (if pt = ProbationStore then snd (enqueue_packet p (src\<lparr>stats := ?st\<rparr>)) else src\<lparr>stats := ?st\<rparr>)"
    using s step assms(3) by (cases pt) (simp_all add: ProcessRTPPacket_def Let_def del: waits_for.simps)
  have q: "sorted_queue ?q"
    using assms(1) enqueue_sorted [of "src\<lparr>stats := ?st\<rparr>" p] unfolding e on_probation_def by simp
  have n: "length ?q \<le> Suc (length ps) \<and>
      extseqnr ` set ?q = (if pt = ProbationStore then extseqnr ` set (p # ps) else {})" if "length ps < 32"
    using assms(1) that enqueue_numbers(2,3) [of "src\<lparr>stats := ?st\<rparr>" p]
    unfolding e on_probation_def by auto
  show ?thesis
    using s assms(1) unfolding on_probation_def using q n by (simp add: e del: waits_for.simps)
qed

lemma probation_ends:
  assumes "on_probation pt ps src" "\<forall>p \<in> set ps. unat (extseqnr p) < 65536" "pt \<noteq> NoProbation"
    and "waits_for ps = 1" "in_sequence (hd ps) p"
  shows "validated (snd (ProcessRTPPacket p t src))" "packetlist (snd (ProcessRTPPacket p t src)) \<noteq> []"
    "pt = ProbationStore \<Longrightarrow> length ps < 32 \<Longrightarrow> sorted_queue (packetlist (snd (ProcessRTPPacket p t src))) \<and>
       extseqnr ` set (packetlist (snd (ProcessRTPPacket p t src))) = insert (first_number p) (extseqnr ` set ps)"
proof -
  have s: "\<not> validated src" "\<not> sentdata (stats src)" "\<not> ownssrc src" "probationtype src = pt"
    using assms(1) by (simp_all add: on_probation_def)
  obtain st where step: "ProcessPacket p t False True (stats src) =
      \<lparr>ps_pack = p\<lparr>extseqnr := first_number p\<rparr>, ps_accept = True, ps_onprobation = False, ps_stats = st\<rparr>"
    using probation_step_numbers [OF assms(1,2), of p] assms(4,5) s(2)
    by (cases "extseqnr p = 0") (simp_all add: ProcessPacket_def accept_packet_def)
  let ?src = "src\<lparr>stats := st, validated := True, issender := True\<rparr>"
  have e: "snd (ProcessRTPPacket p t src) = snd (enqueue_packet (p\<lparr>extseqnr := first_number p\<rparr>) ?src)"
    using s step assms(3) by (cases pt) (simp_all add: ProcessRTPPacket_def Let_def)
  show "validated (snd (ProcessRTPPacket p t src))" "packetlist (snd (ProcessRTPPacket p t src)) \<noteq> []"
    unfolding e by (simp_all add: enqueue_nonempty)
  show "pt = ProbationStore \<Longrightarrow> length ps < 32 \<Longrightarrow> sorted_queue (packetlist (snd (ProcessRTPPacket p t src))) \<and>
       extseqnr ` set (packetlist (snd (ProcessRTPPacket p t src))) = insert (first_number p) (extseqnr ` set ps)"
    unfolding e using assms(1) enqueue_numbers(1,2) [of ?src "p\<lparr>extseqnr := first_number p\<rparr>"]
    by (simp add: on_probation_def)
qed

lemma ProcessRTPPacket_validated:
  assumes "validated src" "packetlist src \<noteq> []"
  shows "validated (snd (ProcessRTPPacket p t src))" "packetlist (snd (ProcessRTPPacket p t src)) \<noteq> []"
  using assms unfolding ProcessRTPPacket_def Let_def
  by (auto simp: enqueue_nonempty split: option.splits probation_type.splits if_splits)

lemma arrive_on_probation:
  assumes "pt \<noteq> NoProbation" "\<forall>p \<in> fst ` set arr. unat (extseqnr p) < 65536"
  shows "if three_in_sequence (map fst arr)
    then validated (arrive arr (new_source s pt)) \<and> packetlist (arrive arr (new_source s pt)) \<noteq> []
    else on_probation pt (rev (map fst arr)) (arrive arr (new_source s pt))"
  using assms(2)
proof (induction arr rule: rev_induct)
  case Nil
  then show ?case using new_on_probation [OF assms(1)] by (simp add: arrive_def)
next
  case (snoc a arr)
  obtain p t where a: "a = (p, t)" by fastforce
  let ?src = "arrive arr (new_source s pt)" and ?ps = "rev (map fst arr)"
  have n: "\<forall>p \<in> set ?ps. unat (extseqnr p) < 65536" using snoc.prems by auto
  have "map fst (arr @ [a]) = rev ?ps @ [p]" by (simp add: a)
  note three = three_in_sequence_last [of ?ps p, folded this]
  show ?case
  proof (cases "three_in_sequence (map fst arr)")
    case True
    then show ?thesis
      using snoc ProcessRTPPacket_validated [of ?src p t] three by (simp add: a arrive_snoc)
  next
    case False
    then have on: "on_probation pt ?ps ?src" using snoc by simp
    show ?thesis
    proof (cases "waits_for ?ps = 1 \<and> in_sequence (hd ?ps) p")
      case True
      then show ?thesis
        using probation_ends(1,2) [OF on n assms(1), of p t] three by (simp add: a arrive_snoc)
    next
      case f: False
      then show ?thesis
        using probation_goes_on [OF on n assms(1) f, of t] three False by (auto simp: a arrive_snoc)
    qed
  qed
qed

lemma probation_first_output:
  assumes "pt \<noteq> NoProbation" "\<forall>p \<in> fst ` set arr. unat (extseqnr p) < 65536"
    and "pt = ProbationStore" "length arr \<le> 32" "three_in_sequence (map fst arr)"
    and "\<not> three_in_sequence (map fst (butlast arr))"
  shows "sorted_queue (packetlist (arrive arr (new_source s pt))) \<and>
    extseqnr ` set (packetlist (arrive arr (new_source s pt))) =
      insert (first_number (fst (last arr))) (extseqnr ` fst ` set (butlast arr))"
proof -
  obtain arr' p t where a: "arr = arr' @ [(p, t)]"
    using assms(5) by (cases arr rule: rev_cases) auto
  let ?ps = "rev (map fst arr')"
  have n: "\<forall>p \<in> fst ` set arr'. unat (extseqnr p) < 65536" using assms(2) a by simp
  then have on: "on_probation pt ?ps (arrive arr' (new_source s pt))"
    using arrive_on_probation [OF assms(1) n] assms(6) a by simp
  have "waits_for ?ps = 1 \<and> in_sequence (hd ?ps) p"
    using three_in_sequence_last [of ?ps p] assms(5,6) a by simp
  then show ?thesis
    using probation_ends(3) [OF on _ assms(1), of p t] n assms(3,4) a
    by (simp add: arrive_snoc image_comp)
qed

subsection \<open>Properties\<close>

text \<open>C27: the 16-bit sequence number of a packet is extended to its true number, also where the 16 bits
  wrapped, when the packet is ahead of the highest number by less than half the range or late within the
  cycle. A packet that is late across a wrap gets a number 65536 too high, and so do those after it.\<close>

theorem ProcessPacket_extends:
  assumes "stats_at m st" "extseqnr pack = seq16 n" "follows m n \<or> late m n"
  shows "\<exists>st'. ProcessPacket pack t own prob st =
      \<lparr>ps_pack = pack\<lparr>extseqnr := word_of_nat (if late m n then n + 65536 else n)\<rparr>, ps_accept = True,
       ps_onprobation = False, ps_stats = st'\<rparr> \<and>
    stats_at (if late m n then n + 65536 else max m n) st'"
proof -
  obtain ext st1 where e: "extend_seq (seq16 n) st = (ext, st1)" by fastforce
  have "\<not> late m n" if "follows m n" using that by (auto simp: late_def follows_def split: if_splits)
  then have "ext = word_of_nat (if late m n then n + 65536 else n) \<and> stats_at (if late m n then n + 65536 else max m n) st1"
    using extend_seq_follows [OF assms(1), of n] extend_seq_late [OF assms(1), of n] e assms(3)
    by (cases "late m n") (auto simp: late_def)
  then show ?thesis using assms(1,2) e by (simp add: ProcessPacket_def stats_at_def)
qed

theorem ProcessPacket_extends_witness:
  "let st = ps_stats (ProcessPacket (Clear\<lparr>extseqnr := 65535\<rparr>) 0 False False new_stats);
       p1 = ProcessPacket (Clear\<lparr>extseqnr := 0\<rparr>) 1 False False st;
       p2 = ProcessPacket (Clear\<lparr>extseqnr := 65534\<rparr>) 2 False False (ps_stats p1)
   in extseqnr (ps_pack p1) = 65536 \<and> extseqnr (ps_pack p2) = 131070"
proof -
  let ?st = "ps_stats (ProcessPacket (Clear\<lparr>extseqnr := 65535\<rparr>) 0 False False new_stats)"
  have "stats_at 65535 ?st" by (simp add: ProcessPacket_def new_stats_def accept_packet_def Clear_def stats_at_def)
  then obtain st1 where 1: "ProcessPacket (Clear\<lparr>extseqnr := 0\<rparr>) 1 False False ?st =
      \<lparr>ps_pack = Clear\<lparr>extseqnr := 65536\<rparr>, ps_accept = True, ps_onprobation = False, ps_stats = st1\<rparr>" "stats_at 65536 st1"
    using ProcessPacket_extends [of 65535 ?st "Clear\<lparr>extseqnr := 0\<rparr>" 65536 1 False False]
    by (auto simp: seq16_def follows_def late_def)
  then obtain st2 where "ProcessPacket (Clear\<lparr>extseqnr := 65534\<rparr>) 2 False False st1 =
      \<lparr>ps_pack = Clear\<lparr>extseqnr := 131070\<rparr>, ps_accept = True, ps_onprobation = False, ps_stats = st2\<rparr>"
    using ProcessPacket_extends [of 65536 st1 "Clear\<lparr>extseqnr := 65534\<rparr>" 65534 2 False False]
    by (auto simp: seq16_def late_def)
  then show ?thesis using 1(1) by (simp add: Let_def)
qed

text \<open>In every state of a source the queue is strictly sorted by extended sequence number, so no
  number is in it twice, and a source that is not validated keeps at most 32 packets.\<close>

theorem source_invariant:
  assumes "source_reach src"
  shows "source_inv src"
  by (rule reachable_inv [OF assms])

theorem source_invariant_witness:
  "let src = snd (ProcessRTPPacket (Clear\<lparr>extseqnr := 6\<rparr>) 1 (snd (ProcessRTPPacket (Clear\<lparr>extseqnr := 7\<rparr>) 0 (new_source 1 NoProbation))))
   in source_inv src \<and> map extseqnr (packetlist src) = [6, 7]"
proof -
  let ?src = "snd (ProcessRTPPacket (Clear\<lparr>extseqnr := 6\<rparr>) 1 (snd (ProcessRTPPacket (Clear\<lparr>extseqnr := 7\<rparr>) 0 (new_source 1 NoProbation))))"
  have "source_inv ?src" by (rule source_invariant) (intro source_reach.intros)
  moreover have "map extseqnr (packetlist ?src) = [6, 7]" by code_simp
  ultimately show ?thesis by (simp only: Let_def)
qed

text \<open>C28: without probation the packets come out of \<open>GetNextPacket\<close> in the order of their true numbers,
  each once, whatever the order they came in, with duplicates and gaps, as long as each follows the
  highest number before it.\<close>

theorem deliver_in_order:
  assumes "0 < n" "n \<le> 65536" "arrivals n (map fst arr)"
    and "\<forall>k \<in> insert n (fst ` set arr). extseqnr (pk k) = seq16 k \<and> k < 2 ^ 32"
  shows "drain (deliver pk ((n, t) # arr) (new_source s NoProbation)) =
    map (numbered pk) (sorted_list_of_set (insert n (fst ` set arr)))"
  using deliver_from_new [OF assms, of t s] by (simp add: drain_queue)

theorem deliver_in_order_witness:
  "drain (deliver (\<lambda>k. Clear\<lparr>extseqnr := seq16 k, payload := k\<rparr>) [(65535, 0), (65538, 1), (65536, 2), (65538, 3)]
     (new_source 1 NoProbation)) =
   map (\<lambda>k. Clear\<lparr>extseqnr := word_of_nat k, payload := k\<rparr>) [65535, 65536, 65538]"
proof -
  have "{65535, 65538, 65536, 65538 :: nat} = {65535, 65536, 65538}" by auto
  then have "sorted_list_of_set {65535, 65538, 65536, 65538 :: nat} = [65535, 65536, 65538]" by simp
  then show ?thesis
    using deliver_in_order [of 65535 "[(65538, 1), (65536, 2), (65538, 3)]" "\<lambda>k. Clear\<lparr>extseqnr := seq16 k, payload := k\<rparr>" 0 1]
    by (simp add: follows_def numbered_def)
qed

text \<open>C29: a new source on probation, of either kind and whatever packets arrive in whatever order, gives out
  nothing until three packets that came one after the other had numbers in sequence (modulo 65536): a
  packet out of sequence starts the count again. With \<open>ProbationStore\<close> it then gives out everything that
  came during probation, up to 32 packets, sorted, each number once; the number of the packet that ended
  the probation is taken for 65536 if it is 0.\<close>

theorem probation_third_packet:
  assumes "pt \<noteq> NoProbation" "\<forall>p \<in> fst ` set arr. unat (extseqnr p) < 65536"
  shows "let src = arrive arr (new_source s pt) in
    (validated src \<longleftrightarrow> three_in_sequence (map fst arr)) \<and>
    (fst (GetNextPacket src) \<noteq> None \<longleftrightarrow> three_in_sequence (map fst arr)) \<and>
    (pt = ProbationStore \<and> length arr \<le> 32 \<and> three_in_sequence (map fst arr) \<and>
       \<not> three_in_sequence (map fst (butlast arr)) \<longrightarrow>
     sorted_queue (drain src) \<and>
     extseqnr ` set (drain src) =
       insert (let n = extseqnr (fst (last arr)) in if n = 0 then 65536 else n) (extseqnr ` fst ` set (butlast arr)))"
proof -
  let ?src = "arrive arr (new_source s pt)"
  have all: "if three_in_sequence (map fst arr) then validated ?src \<and> packetlist ?src \<noteq> []
      else on_probation pt (rev (map fst arr)) ?src"
    by (rule arrive_on_probation [OF assms])
  have out: "sorted_queue (drain ?src) \<and> extseqnr ` set (drain ?src) =
       insert (let n = extseqnr (fst (last arr)) in if n = 0 then 65536 else n) (extseqnr ` fst ` set (butlast arr))"
    if "pt = ProbationStore" "length arr \<le> 32" "three_in_sequence (map fst arr)"
      "\<not> three_in_sequence (map fst (butlast arr))"
    using probation_first_output [OF assms] that drain_queue [of ?src] all by simp
  show ?thesis
    using all out by (auto simp: Let_def on_probation_def GetNextPacket_def split: if_splits list.splits)
qed

theorem probation_third_packet_witness:
  "let src = arrive (map (\<lambda>n. (Clear\<lparr>extseqnr := n\<rparr>, 0)) [7, 8, 20, 21]) (new_source 1 ProbationStore);
       src' = arrive (map (\<lambda>n. (Clear\<lparr>extseqnr := n\<rparr>, 0)) [7, 8, 20, 21, 22]) (new_source 1 ProbationStore)
   in fst (GetNextPacket src) = None \<and> fst (GetNextPacket src') \<noteq> None \<and>
     extseqnr ` set (drain src') = {7, 8, 20, 21, 22}"
  using probation_third_packet [of ProbationStore "map (\<lambda>n. (Clear\<lparr>extseqnr := n\<rparr>, 0)) [7, 8, 20, 21]" 1]
    probation_third_packet [of ProbationStore "map (\<lambda>n. (Clear\<lparr>extseqnr := n\<rparr>, 0)) [7, 8, 20, 21, 22]" 1]
  by (auto simp: Let_def in_sequence_def)

text \<open>The numbers of the packets stored on probation are not extended: a source whose first three packets
  wrap gives out the first one last.\<close>

theorem probation_wrap_order:
  "map extseqnr (drain (arrive (map (\<lambda>n. (Clear\<lparr>extseqnr := n\<rparr>, 0)) [65535, 0, 1]) (new_source 1 ProbationStore))) =
   [0, 1, 65535]"
  by code_simp

end
