(* ===== verification/Rtsp_Delivery.thy ===== *)
theory Rtsp_Delivery
  imports Rtsp_Frames Rtp_Ordering
begin

section \<open>From RTP packets to frames\<close>

text \<open>
  The layers together: a sender puts payloads into RTP packets with consecutive sequence numbers, the
  packets arrive in some order, JRTPLIB parses and queues them, the session takes them from the queue, and
  \<open>GetMediaData\<close> makes the frame of their payloads.
\<close>

subsection \<open>The packets of a sender\<close>

definition send_packet :: "u32 \<Rightarrow> u32 \<Rightarrow> nat \<Rightarrow> byte list \<Rightarrow> ub + rtp_pack" where
  "send_packet ts src n p = RTPPacket_build 96 p (length p) (word_of_nat n) ts src False 0 [] False 0 0 [] 0"

definition raw_of :: "rtp_pack \<Rightarrow> raw_packet" where
  "raw_of p = \<lparr>raw_data = packet p, raw_length = length (packet p), raw_isrtp = True\<rparr>"

text \<open>What the receiver makes of the packet that carries the payload number \<open>n - n0\<close>; the packet is
  always built and accepted.\<close>

definition arriving :: "u32 \<Rightarrow> u32 \<Rightarrow> nat \<Rightarrow> byte list list \<Rightarrow> nat \<Rightarrow> rtp_pack" where
  "arriving ts src n0 ps n =
     (case ub_bind (send_packet ts src n (ps ! (n - n0))) (\<lambda>p. ParseRawPacket (raw_of p)) of Inl _ \<Rightarrow> Clear | Inr q \<Rightarrow> q)"

lemma ucast_seq16: "ucast (word_of_nat n :: u16) = seq16 n"
proof -
  have "(word_of_nat n :: u16) = word_of_nat (n mod 65536)"
    by (simp add: word_unat_eq_iff unsigned_of_nat take_bit_eq_mod)
  then show ?thesis by (simp add: seq16_def low_up)
qed

lemma arriving_fields:
  assumes "length (ps ! (n - n0)) < 2 ^ 30"
  shows "extseqnr (arriving ts src n0 ps n) = seq16 n" "GetPayloadData (arriving ts src n0 ps n) = ps ! (n - n0)"
proof -
  obtain p where p: "send_packet ts src n (ps ! (n - n0)) = Inr p" "error p = 0" "length (packet p) < 2 ^ 31"
    using assms by (simp add: send_packet_def RTPPacket_build_def BuildPacket_def Let_def extension_bytes_def Clear_def)
  obtain q where q: "ParseRawPacket (raw_of p) = Inr q" "GetPayloadData q = ps ! (n - n0)" "extseqnr q = ucast (word_of_nat n :: u16)"
    using parse_built [OF p(1) [unfolded send_packet_def RTPPacket_build_def] p(2,3)] by (auto simp: raw_of_def)
  then have "arriving ts src n0 ps n = q" by (simp add: arriving_def p(1))
  then show "extseqnr (arriving ts src n0 ps n) = seq16 n" "GetPayloadData (arriving ts src n0 ps n) = ps ! (n - n0)"
    using q(2,3) by (simp_all add: ucast_seq16)
qed

lemma map_from: "map (\<lambda>n. ps ! (n - n0)) [n0..<n0 + length ps] = ps"
  by (rule nth_equalityI) simp_all

lemma drained_payloads:
  assumes "0 < n" "n \<le> 65536" "arrivals n (map fst arr)" "insert n (fst ` set arr) = {n0..<n0 + length ps}"
    and "n0 + length ps \<le> 2 ^ 32" "\<forall>p \<in> set ps. length p < 2 ^ 30"
  shows "map GetPayloadData (drain (deliver (arriving ts src n0 ps) ((n, t) # arr) (new_source src NoProbation))) = ps"
proof -
  let ?pk = "arriving ts src n0 ps"
  have len: "length (ps ! (k - n0)) < 2 ^ 30" if "k \<in> {n0..<n0 + length ps}" for k using assms(6) that by auto
  have pk: "\<forall>k \<in> insert n (fst ` set arr). extseqnr (?pk k) = seq16 k \<and> k < 2 ^ 32"
    unfolding assms(4) using arriving_fields(1) [OF len] assms(5) by auto
  have "drain (deliver ?pk ((n, t) # arr) (new_source src NoProbation)) = map (numbered ?pk) [n0..<n0 + length ps]"
    using deliver_from_new [OF assms(1-3) pk, of t src] by (simp add: drain_queue assms(4))
  moreover have "map GetPayloadData (map (numbered ?pk) [n0..<n0 + length ps]) = map (\<lambda>n. ps ! (n - n0)) [n0..<n0 + length ps]"
    using arriving_fields(2) [OF len] by (auto simp: numbered_def GetPayloadData_def)
  ultimately show ?thesis by (simp only: map_from)
qed

subsection \<open>Properties\<close>

text \<open>C30: end to end from the network: a NAL unit that is cut into FU-A fragments and sent in RTP packets
  with consecutive sequence numbers comes out of \<open>GetMediaData\<close> whole, whatever the order in which the
  packets arrive and however often, also where the 16-bit sequence numbers wrap, as long as each packet
  follows the highest number before it and all are queued before the session takes them.\<close>

theorem fragments_any_order:
  assumes "ps = fu_a_packets hdr True chunks" "chunks \<noteq> []" "\<forall>x \<in> set chunks. x \<noteq> []"
    and "0 < n" "n \<le> 65536" "arrivals n (map fst arr)" "insert n (fst ` set arr) = {n0..<n0 + length ps}"
    and "n0 + length ps \<le> 2 ^ 32" "\<forall>p \<in> set ps. length p < 2 ^ 30"
    and "session_at k c = Inr ms" "ms_frame ms = Some (H264_Frame h)" "\<not> prefixParameterOnce h"
    and "Packetization h = 1 \<or> Packetization h = 2" "RTPInterface ms = Some s"
    and "payloads_from (length (VideoBuffer c)) s
      (map GetPayloadData (drain (deliver (arriving ts src n0 ps) ((n, t) # arr) (new_source src NoProbation))))"
    and "length (concat chunks) + 6 * length chunks \<le> max_size"
  shows "\<exists>c'. GetMediaData (Some k) True True max_size c = Inr ((True, Some ([0, 0, 0, 1] @ hdr # concat chunks)), c')"
proof -
  have "payloads_from (length (VideoBuffer c)) s (fu_a_packets hdr True chunks)"
    using assms(15) drained_payloads [OF assms(4-9), of ts src t] assms(1) by simp
  from GetMediaData_fragments [OF assms(10-14) this assms(2,3,16)] show ?thesis .
qed

text \<open>Three fragments over the wrap of the sequence number, the last one first and the first one twice.\<close>

theorem fragments_any_order_witness:
  "let ps = fu_a_packets 0x65 True [[1, 2], [3], [4]];
       src = deliver (arriving 90000 7 65534 ps) [(65535, 0), (65534, 1), (65536, 2), (65536, 3)] (new_source 7 NoProbation);
       c = sample_player (H264_Frame (new_h264\<lparr>prefixParameterOnce := False, Packetization := 1\<rparr>)) (map GetPayloadData (drain src))
   in \<exists>c'. GetMediaData (Some ''video'') True True 100 c = Inr ((True, Some [0, 0, 0, 1, 0x65, 1, 2, 3, 4]), c')"
proof -
  let ?ps = "fu_a_packets 0x65 True [[1, 2], [3], [4]]" and ?h = "new_h264\<lparr>prefixParameterOnce := False, Packetization := 1\<rparr>"
  let ?arr = "[(65534, 1), (65536, 2), (65536, 3)] :: (nat \<times> rtp_time) list"
  let ?q = "drain (deliver (arriving 90000 7 65534 ?ps) ((65535, 0) # ?arr) (new_source 7 NoProbation))"
  let ?c = "sample_player (H264_Frame ?h) (map GetPayloadData ?q)"
  have len: "length ?ps = 3" by simp
  have set: "insert 65535 (fst ` set ?arr) = {65534..<65534 + length ?ps}" unfolding len by auto
  have arr: "arrivals 65535 (map fst ?arr)" by (simp add: follows_def)
  have short: "\<forall>p \<in> set ?ps. length p < 2 ^ 30" by simp
  have q: "map GetPayloadData ?q = ?ps" by (rule drained_payloads [OF _ _ arr set _ short]) (simp_all add: len)
  have "payloads_from 8192 (new_udp_session (map data_event (map GetPayloadData ?q))) (map GetPayloadData ?q)"
    unfolding q by (rule sample_payloads) simp
  then show ?thesis
    using fragments_any_order [of ?ps "0x65" "[[1, 2], [3], [4]]" 65535 ?arr 65534 "''video''" ?c
        "sample_media (H264_Frame ?h) (map GetPayloadData ?q)" ?h "new_udp_session (map data_event (map GetPayloadData ?q))"
        90000 7 0 100] set arr short
    by (simp add: sample_player_simps Let_def)
qed

end
