(* ===== verification/Rtcp_Packet.thy ===== *)
theory Rtcp_Packet
  imports Rtp_Packet
begin

section \<open>RTCP packets (JRTPLIB: rtcpcompoundpacket.cpp and the classes of its packets)\<close>

text \<open>
  What the RTP session does with the RTCP datagrams it receives: \<open>RTCPCompoundPacket\<close> cuts a datagram into
  packets, the constructor of each class checks the format, and the getters read the fields. A packet
  is modelled with its own bytes: a read past the packet counts as a read outside the object even where
  the datagram goes on. \<open>Dump\<close> is left out, allocation succeeds.
\<close>

abbreviation ERR_RTP_RTCPCOMPOUND_INVALIDPACKET :: int where "ERR_RTP_RTCPCOMPOUND_INVALIDPACKET \<equiv> - 30"

definition RTP_RTCPTYPE_SDES :: byte where [simp]: "RTP_RTCPTYPE_SDES = 202"
definition RTP_RTCPTYPE_BYE :: byte where [simp]: "RTP_RTCPTYPE_BYE = 203"
definition RTP_RTCPTYPE_APP :: byte where [simp]: "RTP_RTCPTYPE_APP = 204"

subsection \<open>The packets\<close>

text \<open>The members of all the classes; those of the other classes keep their first value. \<open>currentchunk\<close>
  is an offset into the data, \<open>None\<close> for null; \<open>appdatalen\<close> is uninitialised in a packet of unknown format.\<close>

datatype rtcp_type = SR | RR | SDES | BYE | APP | UnknownType

record rtcp_packet =
  rtcp_type :: rtcp_type
  rtcp_data :: "byte list"
  knownformat :: bool
  reasonoffset :: nat
  appdatalen :: "nat option"
  currentchunk :: "nat option"
  curchunknum :: nat
  itemoffset :: nat

definition new_rtcp :: "rtcp_type \<Rightarrow> byte list \<Rightarrow> rtcp_packet" where
  "new_rtcp t d =
     \<lparr>rtcp_type = t, rtcp_data = d, knownformat = False, reasonoffset = 0, appdatalen = None,
      currentchunk = None, curchunknum = 0, itemoffset = 0\<rparr>"

text \<open>The bit fields of \<open>RTCPCommonHeader\<close>; version and padding are where \<open>RTPHeader\<close> has them.\<close>

definition rtcp_count :: "byte \<Rightarrow> nat" where "rtcp_count b = unat (b AND 0x1F)"

text \<open>The length without the padding; \<open>None\<close> where the constructor returns early.\<close>

definition unpadded_length :: "byte list \<Rightarrow> ub + nat option" where
  "unpadded_length d =
     ub_bind (rd d 0) (\<lambda>h.
     if hdr_padding h then
       ub_bind (rd d (length d - 1)) (\<lambda>padcount.
       if padcount AND 0x03 \<noteq> 0 then Inr None
       else if length d \<le> unat padcount then Inr None
       else Inr (Some (length d - unat padcount)))
     else Inr (Some (length d)))"

definition with_length :: "rtcp_packet \<Rightarrow> (byte \<Rightarrow> nat \<Rightarrow> ub + rtcp_packet) \<Rightarrow> ub + rtcp_packet" where
  "with_length p f =
     ub_bind (unpadded_length (rtcp_data p)) (\<lambda>l.
     case l of None \<Rightarrow> Inr p | Some len \<Rightarrow> ub_bind (rd (rtcp_data p) 0) (\<lambda>h. f h len))"

definition RTCPRRPacket :: "byte list \<Rightarrow> ub + rtcp_packet" where
  "RTCPRRPacket d = with_length (new_rtcp RR d) (\<lambda>h len.
     Inr ((new_rtcp RR d)\<lparr>knownformat := (4 + 4 + 24 * rtcp_count h = len)\<rparr>))"

definition RTCPSRPacket :: "byte list \<Rightarrow> ub + rtcp_packet" where
  "RTCPSRPacket d = with_length (new_rtcp SR d) (\<lambda>h len.
     Inr ((new_rtcp SR d)\<lparr>knownformat := (4 + 4 + 20 + 24 * rtcp_count h = len)\<rparr>))"

definition RTCPBYEPacket :: "byte list \<Rightarrow> ub + rtcp_packet" where
  "RTCPBYEPacket d = with_length (new_rtcp BYE d) (\<lambda>h len.
     let ssrclen = rtcp_count h * 4 + 4; p = new_rtcp BYE d in
     if len < ssrclen then Inr p
     else if ssrclen < len then
       ub_bind (rd d ssrclen) (\<lambda>reaslen.
       if len - ssrclen - 1 < unat reaslen then Inr p
       else Inr (p\<lparr>reasonoffset := ssrclen, knownformat := True\<rparr>))
     else Inr (p\<lparr>knownformat := True\<rparr>))"

definition RTCPAPPPacket :: "byte list \<Rightarrow> ub + rtcp_packet" where
  "RTCPAPPPacket d = with_length (new_rtcp APP d) (\<lambda>h len.
     if len < 4 + 4 * 2 then Inr (new_rtcp APP d)
     else Inr ((new_rtcp APP d)\<lparr>appdatalen := Some (len - (4 + 4 * 2)), knownformat := True\<rparr>))"

definition RTCPUnknownPacket :: "byte list \<Rightarrow> rtcp_packet" where
  "RTCPUnknownPacket d = (new_rtcp UnknownType d)\<lparr>knownformat := True\<rparr>"

text \<open>SDES: the loop over the items of a chunk gives the size of the chunk and the length left, the loop over
  the chunks the number of chunks and the length left; \<open>None\<close> is an early return.\<close>

definition align4 :: "nat \<Rightarrow> nat" where
  "align4 n = (if n mod 4 \<noteq> 0 then n + (4 - n mod 4) else n)"

function sdes_items :: "byte list \<Rightarrow> nat \<Rightarrow> nat \<Rightarrow> nat \<Rightarrow> ub + (nat \<times> nat) option" where
  "sdes_items d chunk chunkoffset len =
     (if len < 1 then Inr None
      else
        case rd d (chunk + chunkoffset) of Inl e \<Rightarrow> Inl e
        | Inr sdesid \<Rightarrow>
          if sdesid = 0 then
            (let off = chunkoffset + 1; addoffset = align4 off - off in
             if len - 1 < addoffset then Inr None else Inr (Some (off + addoffset, len - 1 - addoffset)))
          else if len < 2 then Inr None
          else
            case rd d (chunk + chunkoffset + 1) of Inl e \<Rightarrow> Inl e
            | Inr itemlen \<Rightarrow>
              if len - 2 < unat itemlen then Inr None
              else sdes_items d chunk (chunkoffset + 2 + unat itemlen) (len - 2 - unat itemlen))"
  by pat_completeness auto

termination
  by (relation "measure (\<lambda>(d, chunk, chunkoffset, len). len)") auto

declare sdes_items.simps [simp del]

fun sdes_chunks :: "byte list \<Rightarrow> nat \<Rightarrow> nat \<Rightarrow> nat \<Rightarrow> ub + (nat \<times> nat) option" where
  "sdes_chunks d chunk 0 len = Inr (Some (0, len))"
| "sdes_chunks d chunk (Suc ssrccount) len =
     (if len = 0 then Inr (Some (Suc ssrccount, len))
      else if len < 8 then Inr None
      else
        ub_bind (sdes_items d chunk 4 (len - 4)) (\<lambda>r.
        case r of None \<Rightarrow> Inr None | Some (off, len') \<Rightarrow> sdes_chunks d (chunk + off) ssrccount len'))"

definition RTCPSDESPacket :: "byte list \<Rightarrow> ub + rtcp_packet" where
  "RTCPSDESPacket d = with_length (new_rtcp SDES d) (\<lambda>h len.
     let p = new_rtcp SDES d in
     if rtcp_count h = 0 then Inr (p\<lparr>knownformat := (len = 4)\<rparr>)
     else if len < 4 then Inr p
     else
       ub_bind (sdes_chunks d 4 (rtcp_count h) (len - 4)) (\<lambda>r. Inr (p\<lparr>knownformat := (r = Some (0, 0))\<rparr>)))"

subsection \<open>The compound packet\<close>

definition make_rtcp :: "byte \<Rightarrow> byte list \<Rightarrow> ub + rtcp_packet" where
  "make_rtcp t d =
     (if t = RTP_RTCPTYPE_SR then RTCPSRPacket d
      else if t = RTP_RTCPTYPE_RR then RTCPRRPacket d
      else if t = RTP_RTCPTYPE_SDES then RTCPSDESPacket d
      else if t = RTP_RTCPTYPE_BYE then RTCPBYEPacket d
      else if t = RTP_RTCPTYPE_APP then RTCPAPPPacket d
      else Inr (RTCPUnknownPacket d))"

text \<open>The loop of \<open>ParseData\<close>; \<open>None\<close> is the error, which clears the list of packets.\<close>

function parse_packets :: "bool \<Rightarrow> byte list \<Rightarrow> ub + rtcp_packet list option" where
  "parse_packets first d =
     ub_bind (rd d 0) (\<lambda>h.
     if hdr_version h \<noteq> RTP_VERSION then Inr None
     else
       ub_bind (rd d 1) (\<lambda>ptype.
       if first \<and> \<not> (ptype = RTP_RTCPTYPE_SR \<or> ptype = RTP_RTCPTYPE_RR) then Inr None
       else
         ub_bind (rd16 d 2) (\<lambda>n.
         if length d < (unat n + 1) * 4 then Inr None
         else if hdr_padding h \<and> (unat n + 1) * 4 \<noteq> length d then Inr None
         else
           ub_bind (make_rtcp ptype (take ((unat n + 1) * 4) d)) (\<lambda>p.
           if 4 \<le> length (drop ((unat n + 1) * 4) d)
           then ub_bind (parse_packets False (drop ((unat n + 1) * 4) d)) (\<lambda>ps. Inr (map_option (Cons p) ps))
           else if drop ((unat n + 1) * 4) d \<noteq> [] then Inr None
           else Inr (Some [p])))))"
  by pat_completeness auto

termination
  by (relation "measure (\<lambda>(first, d). length d)") auto

declare parse_packets.simps [simp del]

definition ParseData :: "byte list \<Rightarrow> ub + rtcp_packet list option" where
  "ParseData d = (if length d < 4 then Inr None else parse_packets True d)"

text \<open>The constructor for a raw packet: the error and the packets.\<close>

definition RTCPCompoundPacket :: "raw_packet \<Rightarrow> ub + (int \<times> rtcp_packet list)" where
  "RTCPCompoundPacket rawpack =
     (if raw_isrtp rawpack then Inr (ERR_RTP_RTCPCOMPOUND_INVALIDPACKET, [])
      else
        ub_bind (memcpy_from (raw_data rawpack) 0 (raw_length rawpack)) (\<lambda>d.
        ub_bind (ParseData d) (\<lambda>r.
        case r of None \<Rightarrow> Inr (ERR_RTP_RTCPCOMPOUND_INVALIDPACKET, []) | Some ps \<Rightarrow> Inr (0, ps))))"

subsection \<open>Reading the fields\<close>

definition GetReceptionReportCount :: "rtcp_packet \<Rightarrow> ub + nat" where
  "GetReceptionReportCount p =
     (if \<not> knownformat p then Inr 0 else ub_bind (rd (rtcp_data p) 0) (\<lambda>h. Inr (rtcp_count h)))"

text \<open>\<open>GotoReport\<close> of the two classes: no check that the index is valid.\<close>

definition GotoReport :: "nat \<Rightarrow> rtcp_packet \<Rightarrow> nat" where
  "GotoReport index p = (if rtcp_type p = SR then 4 + 4 + 20 + index * 24 else 4 + 4 + index * 24)"

definition field32 :: "nat \<Rightarrow> rtcp_packet \<Rightarrow> ub + u32" where
  "field32 i p = (if \<not> knownformat p then Inr 0 else rd32 (rtcp_data p) i)"

definition GetSenderSSRC :: "rtcp_packet \<Rightarrow> ub + u32" where "GetSenderSSRC = field32 4"
definition GetRTPTimestamp :: "rtcp_packet \<Rightarrow> ub + u32" where "GetRTPTimestamp = field32 16"
definition GetSenderPacketCount :: "rtcp_packet \<Rightarrow> ub + u32" where "GetSenderPacketCount = field32 20"
definition GetSenderOctetCount :: "rtcp_packet \<Rightarrow> ub + u32" where "GetSenderOctetCount = field32 24"

definition GetNTPTimestamp :: "rtcp_packet \<Rightarrow> ub + (u32 \<times> u32)" where
  "GetNTPTimestamp p = ub_bind (field32 8 p) (\<lambda>m. ub_bind (field32 12 p) (\<lambda>l. Inr (m, l)))"

definition report_GetSSRC :: "nat \<Rightarrow> rtcp_packet \<Rightarrow> ub + u32" where
  "report_GetSSRC index p = field32 (GotoReport index p) p"

definition GetFractionLost :: "nat \<Rightarrow> rtcp_packet \<Rightarrow> ub + byte" where
  "GetFractionLost index p = (if \<not> knownformat p then Inr 0 else rd (rtcp_data p) (GotoReport index p + 4))"

definition GetLostPacketCount :: "nat \<Rightarrow> rtcp_packet \<Rightarrow> ub + int" where
  "GetLostPacketCount index p =
     (if \<not> knownformat p then Inr 0
      else
        let r = GotoReport index p; d = rtcp_data p in
        ub_bind (rd d (r + 7)) (\<lambda>l2. ub_bind (rd d (r + 6)) (\<lambda>l1. ub_bind (rd d (r + 5)) (\<lambda>l0.
        let count = ucast l2 OR push_bit 8 (ucast l1) OR push_bit 16 (ucast l0) :: u32;
            count = (if count AND 0x00800000 \<noteq> 0 then count OR 0xFF000000 else count) in
        Inr (sint count)))))"

definition GetExtendedHighestSequenceNumber :: "nat \<Rightarrow> rtcp_packet \<Rightarrow> ub + u32" where
  "GetExtendedHighestSequenceNumber index p = field32 (GotoReport index p + 8) p"

definition GetJitter :: "nat \<Rightarrow> rtcp_packet \<Rightarrow> ub + u32" where
  "GetJitter index p = field32 (GotoReport index p + 12) p"

definition GetLSR :: "nat \<Rightarrow> rtcp_packet \<Rightarrow> ub + u32" where
  "GetLSR index p = field32 (GotoReport index p + 16) p"

definition GetDLSR :: "nat \<Rightarrow> rtcp_packet \<Rightarrow> ub + u32" where
  "GetDLSR index p = field32 (GotoReport index p + 20) p"

text \<open>BYE and APP.\<close>

definition GetSSRCCount :: "rtcp_packet \<Rightarrow> ub + nat" where
  "GetSSRCCount p = (if \<not> knownformat p then Inr 0 else ub_bind (rd (rtcp_data p) 0) (\<lambda>h. Inr (rtcp_count h)))"

definition bye_GetSSRC :: "nat \<Rightarrow> rtcp_packet \<Rightarrow> ub + u32" where
  "bye_GetSSRC index p = field32 (4 + 4 * index) p"

definition HasReasonForLeaving :: "rtcp_packet \<Rightarrow> bool" where
  "HasReasonForLeaving p = (if \<not> knownformat p then False else if reasonoffset p = 0 then False else True)"

definition GetReasonLength :: "rtcp_packet \<Rightarrow> ub + nat" where
  "GetReasonLength p =
     (if \<not> knownformat p then Inr 0
      else if reasonoffset p = 0 then Inr 0
      else ub_bind (rd (rtcp_data p) (reasonoffset p)) (\<lambda>n. Inr (unat n)))"

text \<open>The offset of the reason, \<open>None\<close> for null; the caller reads \<open>GetReasonLength\<close> bytes there.\<close>

definition GetReasonData :: "rtcp_packet \<Rightarrow> ub + nat option" where
  "GetReasonData p =
     (if \<not> knownformat p then Inr None
      else if reasonoffset p = 0 then Inr None
      else ub_bind (rd (rtcp_data p) (reasonoffset p)) (\<lambda>n. Inr (if n = 0 then None else Some (reasonoffset p + 1))))"

definition reason_of :: "rtcp_packet \<Rightarrow> ub + byte list" where
  "reason_of p =
     ub_bind (GetReasonData p) (\<lambda>r.
     case r of None \<Rightarrow> Inr [] | Some i \<Rightarrow> ub_bind (GetReasonLength p) (\<lambda>n. memcpy_from (rtcp_data p) i n))"

definition GetSubType :: "rtcp_packet \<Rightarrow> ub + nat" where
  "GetSubType p = (if \<not> knownformat p then Inr 0 else ub_bind (rd (rtcp_data p) 0) (\<lambda>h. Inr (rtcp_count h)))"

definition app_GetSSRC :: "rtcp_packet \<Rightarrow> ub + u32" where "app_GetSSRC = field32 4"

definition GetName :: "rtcp_packet \<Rightarrow> nat option" where
  "GetName p = (if \<not> knownformat p then None else Some (4 + 4))"

definition GetAPPDataLength :: "rtcp_packet \<Rightarrow> ub + nat" where
  "GetAPPDataLength p =
     (if \<not> knownformat p then Inr 0 else case appdatalen p of None \<Rightarrow> Inl Indeterminate | Some n \<Rightarrow> Inr n)"

definition GetAPPData :: "rtcp_packet \<Rightarrow> ub + nat option" where
  "GetAPPData p =
     (if \<not> knownformat p then Inr None
      else case appdatalen p of None \<Rightarrow> Inl Indeterminate | Some n \<Rightarrow> Inr (if n = 0 then None else Some (4 + 4 * 2)))"

subsection \<open>Walking through SDES chunks and items\<close>

definition GetChunkCount :: "rtcp_packet \<Rightarrow> ub + nat" where
  "GetChunkCount p = (if \<not> knownformat p then Inr 0 else ub_bind (rd (rtcp_data p) 0) (\<lambda>h. Inr (rtcp_count h)))"

definition GotoFirstChunk :: "rtcp_packet \<Rightarrow> ub + (bool \<times> rtcp_packet)" where
  "GotoFirstChunk p =
     ub_bind (GetChunkCount p) (\<lambda>n.
     if n = 0 then Inr (False, p\<lparr>currentchunk := None\<rparr>)
     else Inr (True, p\<lparr>currentchunk := Some 4, curchunknum := 1, itemoffset := 4\<rparr>))"

text \<open>The loop of \<open>GotoNextChunk\<close> to the zero byte; it has no bound but the end of the memory.\<close>

function chunk_end :: "byte list \<Rightarrow> nat \<Rightarrow> nat \<Rightarrow> ub + nat" where
  "chunk_end d chunk offset =
     (case rd d (chunk + offset) of Inl e \<Rightarrow> Inl e
      | Inr sdesid \<Rightarrow>
          if sdesid = 0 then Inr offset
          else
            case rd d (chunk + offset + 1) of Inl e \<Rightarrow> Inl e
            | Inr n \<Rightarrow> chunk_end d chunk (offset + 2 + unat n))"
  by pat_completeness auto

termination
  by (relation "measure (\<lambda>(d, chunk, offset). length d - (chunk + offset))") (auto simp: rd_def split: if_splits)

declare chunk_end.simps [simp del]

definition GotoNextChunk :: "rtcp_packet \<Rightarrow> ub + (bool \<times> rtcp_packet)" where
  "GotoNextChunk p =
     (if \<not> knownformat p then Inr (False, p)
      else case currentchunk p of
        None \<Rightarrow> Inr (False, p)
      | Some chunk \<Rightarrow>
          ub_bind (GetChunkCount p) (\<lambda>n.
          if curchunknum p = n then Inr (False, p)
          else
            ub_bind (chunk_end (rtcp_data p) chunk 4) (\<lambda>off.
            Inr (True, p\<lparr>currentchunk := Some (chunk + align4 (off + 1)), curchunknum := curchunknum p + 1, itemoffset := 4\<rparr>))))"

definition GetChunkSSRC :: "rtcp_packet \<Rightarrow> ub + u32" where
  "GetChunkSSRC p =
     (if \<not> knownformat p then Inr 0 else case currentchunk p of None \<Rightarrow> Inr 0 | Some chunk \<Rightarrow> rd32 (rtcp_data p) chunk)"

definition GotoFirstItem :: "rtcp_packet \<Rightarrow> ub + (bool \<times> rtcp_packet)" where
  "GotoFirstItem p =
     (if \<not> knownformat p then Inr (False, p)
      else case currentchunk p of
        None \<Rightarrow> Inr (False, p)
      | Some chunk \<Rightarrow>
          ub_bind (rd (rtcp_data p) (chunk + 4)) (\<lambda>sdesid. Inr (sdesid \<noteq> 0, p\<lparr>itemoffset := 4\<rparr>)))"

definition GotoNextItem :: "rtcp_packet \<Rightarrow> ub + (bool \<times> rtcp_packet)" where
  "GotoNextItem p =
     (if \<not> knownformat p then Inr (False, p)
      else case currentchunk p of
        None \<Rightarrow> Inr (False, p)
      | Some chunk \<Rightarrow>
          let d = rtcp_data p in
          ub_bind (rd d (chunk + itemoffset p)) (\<lambda>sdesid.
          if sdesid = 0 then Inr (False, p)
          else
            ub_bind (rd d (chunk + itemoffset p + 1)) (\<lambda>n.
            let offset = itemoffset p + 2 + unat n in
            ub_bind (rd d (chunk + offset)) (\<lambda>sdesid'.
            if sdesid' = 0 then Inr (False, p) else Inr (True, p\<lparr>itemoffset := offset\<rparr>)))))"

text \<open>The identifier of the current item; 0 where the getters return without looking.\<close>

definition item_id :: "rtcp_packet \<Rightarrow> ub + byte" where
  "item_id p =
     (if \<not> knownformat p then Inr 0
      else case currentchunk p of None \<Rightarrow> Inr 0 | Some chunk \<Rightarrow> rd (rtcp_data p) (chunk + itemoffset p))"

datatype item_type = NoItem | CNAME | NAME | EMAIL | PHONE | LOC | TOOL | NOTE | PRIV | UnknownItem

definition GetItemType :: "rtcp_packet \<Rightarrow> ub + item_type" where
  "GetItemType p =
     ub_bind (item_id p) (\<lambda>i.
     Inr (if i = 0 then NoItem else if i = 1 then CNAME else if i = 2 then NAME else if i = 3 then EMAIL
       else if i = 4 then PHONE else if i = 5 then LOC else if i = 6 then TOOL else if i = 7 then NOTE
       else if i = 8 then PRIV else UnknownItem))"

definition GetItemLength :: "rtcp_packet \<Rightarrow> ub + nat" where
  "GetItemLength p =
     ub_bind (item_id p) (\<lambda>i.
     case currentchunk p of
       None \<Rightarrow> Inr 0
     | Some chunk \<Rightarrow> if i = 0 then Inr 0 else ub_bind (rd (rtcp_data p) (chunk + itemoffset p + 1)) (\<lambda>n. Inr (unat n)))"

definition GetItemData :: "rtcp_packet \<Rightarrow> ub + nat option" where
  "GetItemData p =
     ub_bind (item_id p) (\<lambda>i. Inr (if i = 0 then None else map_option (\<lambda>chunk. chunk + itemoffset p + 2) (currentchunk p)))"

text \<open>What the caller reads: the bytes of the current item.\<close>

definition item_of :: "rtcp_packet \<Rightarrow> ub + byte list" where
  "item_of p =
     ub_bind (GetItemData p) (\<lambda>r.
     case r of None \<Rightarrow> Inr [] | Some i \<Rightarrow> ub_bind (GetItemLength p) (\<lambda>n. memcpy_from (rtcp_data p) i n))"

text \<open>Private items: prefix length and item length where the getters get past their checks.\<close>

definition priv_lengths :: "rtcp_packet \<Rightarrow> ub + (nat \<times> nat) option" where
  "priv_lengths p =
     (if \<not> knownformat p then Inr None
      else case currentchunk p of
        None \<Rightarrow> Inr None
      | Some chunk \<Rightarrow>
          let d = rtcp_data p; i = chunk + itemoffset p in
          ub_bind (rd d i) (\<lambda>sdesid.
          if sdesid \<noteq> 8 then Inr None
          else
            ub_bind (rd d (i + 1)) (\<lambda>n.
            if n = 0 then Inr None
            else
              ub_bind (rd d (i + 2)) (\<lambda>prefixlength.
              if unat n - 1 < unat prefixlength then Inr None else Inr (Some (unat prefixlength, unat n))))))"

definition GetPRIVPrefixLength :: "rtcp_packet \<Rightarrow> ub + nat" where
  "GetPRIVPrefixLength p = ub_bind (priv_lengths p) (\<lambda>r. Inr (case r of None \<Rightarrow> 0 | Some (l, n) \<Rightarrow> l))"

definition GetPRIVPrefixData :: "rtcp_packet \<Rightarrow> ub + nat option" where
  "GetPRIVPrefixData p =
     ub_bind (priv_lengths p) (\<lambda>r.
     Inr (case r of None \<Rightarrow> None
       | Some (l, n) \<Rightarrow> if l = 0 then None else map_option (\<lambda>chunk. chunk + itemoffset p + 2 + 1) (currentchunk p)))"

definition GetPRIVValueLength :: "rtcp_packet \<Rightarrow> ub + nat" where
  "GetPRIVValueLength p = ub_bind (priv_lengths p) (\<lambda>r. Inr (case r of None \<Rightarrow> 0 | Some (l, n) \<Rightarrow> n - l - 1))"

definition GetPRIVValueData :: "rtcp_packet \<Rightarrow> ub + nat option" where
  "GetPRIVValueData p =
     ub_bind (priv_lengths p) (\<lambda>r.
     Inr (case r of None \<Rightarrow> None
       | Some (l, n) \<Rightarrow> if n - l - 1 = 0 then None else map_option (\<lambda>chunk. chunk + itemoffset p + 2 + 1 + l) (currentchunk p)))"

end
