(* ===== verification/Rtp_Sources.thy ===== *)
theory Rtp_Sources
  imports Rtcp_Packet Rtp_Source Rtp_Session "HOL-Library.AList"
begin

section \<open>The table of sources (JRTPLIB: rtpsources.cpp, rtpinternalsourcedata.cpp, rtcpsdesinfo.cpp)\<close>

text \<open>
  Every RTP and RTCP packet of a session goes through \<open>RTPSources\<close>: it finds or creates the source,
  checks where the packet comes from, updates the source and the three counters, and calls the session back.
  The hash table is the list it keeps of its elements, in the order of insertion, with the current
  element; \<open>srcdat\<close> pointers are the identifiers. Callbacks are recorded in \<open>events\<close> with the source as it
  was then. A time is only copied and compared; the check times of the timeouts, differences of
  \<open>double\<close> values, are arguments. PRIV items and probation are compiled in. Allocation succeeds.
\<close>

subsection \<open>What is read of a PRIV item\<close>

definition priv_prefix :: "rtcp_packet \<Rightarrow> ub + byte list" where
  "priv_prefix p =
     ub_bind (GetPRIVPrefixData p) (\<lambda>r.
     case r of None \<Rightarrow> Inr [] | Some i \<Rightarrow> ub_bind (GetPRIVPrefixLength p) (\<lambda>n. memcpy_from (rtcp_data p) i n))"

definition priv_value :: "rtcp_packet \<Rightarrow> ub + byte list" where
  "priv_value p =
     ub_bind (GetPRIVValueData p) (\<lambda>r.
     case r of None \<Rightarrow> Inr [] | Some i \<Rightarrow> ub_bind (GetPRIVValueLength p) (\<lambda>n. memcpy_from (rtcp_data p) i n))"

subsection \<open>Addresses\<close>

text \<open>The address classes of the two transmitters the client uses; \<open>None\<close> is the null pointer, which stands
  for the own session.\<close>

fun IsSameAddress :: "rtp_address \<Rightarrow> rtp_address option \<Rightarrow> bool" where
  "IsSameAddress a None = False"
| "IsSameAddress (RTPIPv4Address ip port) (Some (RTPIPv4Address ip' port')) = (ip' = ip \<and> port' = port)"
| "IsSameAddress (RTPTCPAddress sock) (Some (RTPTCPAddress sock')) = (sock' = sock)"
| "IsSameAddress (RTPIPv4Address ip port) (Some (RTPTCPAddress sock)) = False"
| "IsSameAddress (RTPTCPAddress sock) (Some (RTPIPv4Address ip port)) = False"

fun IsFromSameHost :: "rtp_address \<Rightarrow> rtp_address option \<Rightarrow> bool" where
  "IsFromSameHost a None = False"
| "IsFromSameHost (RTPIPv4Address ip port) (Some (RTPIPv4Address ip' port')) = (ip' = ip)"
| "IsFromSameHost (RTPIPv4Address ip port) (Some (RTPTCPAddress sock)) = False"
| "IsFromSameHost (RTPTCPAddress sock) a = IsSameAddress (RTPTCPAddress sock) a"

subsection \<open>One source\<close>

record sender_report =
  ntptimestamp :: "u32 \<times> u32"
  sr_rtptimestamp :: u32
  sr_packetcount :: u32
  sr_bytecount :: u32
  sr_receivetime :: rtp_time

text \<open>\<open>rr_fractionlost\<close> is the byte of the packet, of which the code keeps a 256th.\<close>

record receiver_report =
  rr_fractionlost :: byte
  rr_packetslost :: int
  rr_exthighseqnr :: u32
  rr_jitter :: u32
  rr_lsr :: u32
  rr_dlsr :: u32
  rr_receivetime :: rtp_time

text \<open>\<open>main\<close> holds the members that \<open>Rtp_Source\<close> models. A report is \<open>None\<close> while \<open>hasinfo\<close> is false.\<close>

record source_entry =
  main :: rtp_source
  SRinf :: "sender_report option"
  SRprevinf :: "sender_report option"
  RRinf :: "receiver_report option"
  RRprevinf :: "receiver_report option"
  nonprivateitems :: "byte list list"
  privitems :: "(byte list \<times> byte list) list"
  lastnotetime :: rtp_time
  isrtpaddrset :: bool
  isrtcpaddrset :: bool
  rtpaddr :: "rtp_address option"
  rtcpaddr :: "rtp_address option"
  byetime :: rtp_time
  byereason :: "byte list"

definition new_entry :: "u32 \<Rightarrow> probation_type \<Rightarrow> source_entry" where
  "new_entry s probtype =
     \<lparr>main = new_source s probtype, SRinf = None, SRprevinf = None, RRinf = None, RRprevinf = None,
      nonprivateitems = replicate 7 [], privitems = [], lastnotetime = 0, isrtpaddrset = False, isrtcpaddrset = False,
      rtpaddr = None, rtcpaddr = None, byetime = 0, byereason = []\<rparr>"

definition UpdateMessageTime :: "rtp_time \<Rightarrow> source_entry \<Rightarrow> source_entry" where
  "UpdateMessageTime t d = d\<lparr>main := (main d)\<lparr>stats := (stats (main d))\<lparr>lastmsgtime := t\<rparr>\<rparr>\<rparr>"

definition SetRTPDataAddress :: "rtp_address option \<Rightarrow> source_entry \<Rightarrow> source_entry" where
  "SetRTPDataAddress a d = d\<lparr>rtpaddr := a, isrtpaddrset := True\<rparr>"

definition SetRTCPDataAddress :: "rtp_address option \<Rightarrow> source_entry \<Rightarrow> source_entry" where
  "SetRTCPDataAddress a d = d\<lparr>rtcpaddr := a, isrtcpaddrset := True\<rparr>"

definition ProcessSenderInfo :: "sender_report \<Rightarrow> source_entry \<Rightarrow> source_entry" where
  "ProcessSenderInfo sr d = UpdateMessageTime (sr_receivetime sr) (d\<lparr>SRprevinf := SRinf d, SRinf := Some sr\<rparr>)"

definition ProcessReportBlock :: "receiver_report \<Rightarrow> source_entry \<Rightarrow> source_entry" where
  "ProcessReportBlock rr d = UpdateMessageTime (rr_receivetime rr) (d\<lparr>RRprevinf := RRinf d, RRinf := Some rr\<rparr>)"

definition entry_SentRTPPacket :: "rtp_time \<Rightarrow> source_entry \<Rightarrow> source_entry" where
  "entry_SentRTPPacket now d =
     (if \<not> ownssrc (main d) then d
      else d\<lparr>main := (main d)\<lparr>issender := True, stats := (stats (main d))\<lparr>lastrtptime := now, lastmsgtime := now\<rparr>\<rparr>\<rparr>)"

definition entry_ProcessBYEPacket :: "byte list \<Rightarrow> rtp_time \<Rightarrow> source_entry \<Rightarrow> source_entry" where
  "entry_ProcessBYEPacket reason receivetime d =
     d\<lparr>byetime := receivetime, byereason := reason, main := ProcessBYEPacket receivetime (main d)\<rparr>"

text \<open>SDES items; item number \<open>i\<close> is at place \<open>i - 1\<close>.\<close>

definition RTCP_SDES_MAXITEMLENGTH :: nat where [simp]: "RTCP_SDES_MAXITEMLENGTH = 255"
definition RTP_MAXPRIVITEMS :: nat where [simp]: "RTP_MAXPRIVITEMS = 256"
definition ERR_RTP_SDES_LENGTHTOOBIG :: int where [simp]: "ERR_RTP_SDES_LENGTHTOOBIG = - 55"
definition ERR_RTP_SDES_MAXPRIVITEMS :: int where [simp]: "ERR_RTP_SDES_MAXPRIVITEMS = - 56"

definition ERR_RTP_SDES_PREFIXNOTFOUND :: int where [simp]: "ERR_RTP_SDES_PREFIXNOTFOUND = - 57"

definition SetNonPrivateItem :: "nat \<Rightarrow> byte list \<Rightarrow> source_entry \<Rightarrow> int \<times> source_entry" where
  "SetNonPrivateItem itemno s d =
     (if RTCP_SDES_MAXITEMLENGTH < length s then (ERR_RTP_SDES_LENGTHTOOBIG, d)
      else (0, d\<lparr>nonprivateitems := (nonprivateitems d)[itemno := s]\<rparr>))"

definition SetPrivateValue :: "byte list \<Rightarrow> byte list \<Rightarrow> source_entry \<Rightarrow> int \<times> source_entry" where
  "SetPrivateValue pref val d =
     (let v = take RTCP_SDES_MAXITEMLENGTH val in
      if pref \<in> fst ` set (privitems d) then (0, d\<lparr>privitems := AList.update pref v (privitems d)\<rparr>)
      else if RTP_MAXPRIVITEMS \<le> length (privitems d) then (ERR_RTP_SDES_MAXPRIVITEMS, d)
      else (0, d\<lparr>privitems := (take RTCP_SDES_MAXITEMLENGTH pref, v) # privitems d\<rparr>))"

text \<open>The status, whether the CNAME is another than the one known, and the source.\<close>

definition ProcessSDESItem :: "nat \<Rightarrow> byte list \<Rightarrow> rtp_time \<Rightarrow> source_entry \<Rightarrow> int \<times> bool \<times> source_entry" where
  "ProcessSDESItem sdesid data receivetime d0 =
     (let d = UpdateMessageTime receivetime d0; old = nonprivateitems d ! (sdesid - 1);
          set = (\<lambda>d. case SetNonPrivateItem (sdesid - 1) data d of (status, d') \<Rightarrow> (status, False, d')) in
      if sdesid = 1 then
        (if old = [] then
           (let d1 = snd (SetNonPrivateItem 0 data d) in (0, False, d1\<lparr>main := (main d1)\<lparr>validated := True\<rparr>\<rparr>))
         else (0, data \<noteq> old, d))
      else if sdesid = 2 \<or> sdesid = 3 \<or> sdesid = 6 then (if old = [] then set d else (0, False, d))
      else if sdesid = 4 \<or> sdesid = 5 then set d
      else if sdesid = 7 then set (d\<lparr>lastnotetime := receivetime\<rparr>)
      else (0, False, d))"

definition ProcessPrivateSDESItem :: "byte list \<Rightarrow> byte list \<Rightarrow> rtp_time \<Rightarrow> source_entry \<Rightarrow> int \<times> source_entry" where
  "ProcessPrivateSDESItem pref val receivetime d =
     (case SetPrivateValue pref val (UpdateMessageTime receivetime d) of (status, d') \<Rightarrow>
        if status = ERR_RTP_SDES_MAXPRIVITEMS then (0, d') else (status, d'))"

definition DeletePrivatePrefix :: "byte list \<Rightarrow> source_entry \<Rightarrow> int \<times> source_entry" where
  "DeletePrivatePrefix pref d =
     (if pref \<in> fst ` set (privitems d) then (0, d\<lparr>privitems := takeWhile (\<lambda>e. fst e \<noteq> pref) (privitems d) @ tl (dropWhile (\<lambda>e. fst e \<noteq> pref) (privitems d))\<rparr>)
      else (ERR_RTP_SDES_PREFIXNOTFOUND, d))"

definition GetPrivateValue :: "byte list \<Rightarrow> source_entry \<Rightarrow> byte list option" where
  "GetPrivateValue pref d = map_of (privitems d) pref"

definition ClearNote :: "source_entry \<Rightarrow> source_entry" where
  "ClearNote d = snd (SetNonPrivateItem 6 [] d)"

subsection \<open>The table\<close>

datatype source_event =
    Ev_RTPPacket "rtp_address option"
  | Ev_RTCPCompoundPacket "rtp_address option"
  | Ev_SSRCCollision source_entry "rtp_address option" bool
  | Ev_CNAMECollision source_entry "rtp_address option" "byte list"
  | Ev_NewSource source_entry
  | Ev_RemoveSource source_entry
  | Ev_Timeout source_entry
  | Ev_BYETimeout source_entry
  | Ev_BYEPacket source_entry
  | Ev_NoteTimeout source_entry
  | Ev_RTCPSenderReport source_entry
  | Ev_RTCPReceiverReport source_entry
  | Ev_RTCPSDESItem source_entry item_type "byte list"
  | Ev_RTCPSDESPrivateItem source_entry "byte list" "byte list"
  | Ev_APPPacket rtcp_packet
  | Ev_UnknownPacketType rtcp_packet
  | Ev_UnknownPacketFormat rtcp_packet

record rtp_sources =
  sourcelist :: "(u32 \<times> source_entry) list"
  currentsource :: "u32 option"
  sendercount :: int
  totalcount :: int
  activecount :: int
  sources_probation :: probation_type
  owndata :: "u32 option"
  events :: "source_event list"

definition new_sources :: "probation_type \<Rightarrow> rtp_sources" where
  "new_sources probtype =
     \<lparr>sourcelist = [], currentsource = None, sendercount = 0, totalcount = 0, activecount = 0,
      sources_probation = probtype, owndata = None, events = []\<rparr>"

definition find_source :: "u32 \<Rightarrow> rtp_sources \<Rightarrow> source_entry option" where
  "find_source k s = map_of (sourcelist s) k"

definition the_source :: "u32 \<Rightarrow> rtp_sources \<Rightarrow> source_entry" where
  "the_source k s = the (find_source k s)"

definition put_source :: "u32 \<Rightarrow> source_entry \<Rightarrow> rtp_sources \<Rightarrow> rtp_sources" where
  "put_source k d s = s\<lparr>sourcelist := AList.update k d (sourcelist s)\<rparr>"

definition callback :: "source_event \<Rightarrow> rtp_sources \<Rightarrow> rtp_sources" where
  "callback e s = s\<lparr>events := events s @ [e]\<rparr>"

definition new_source_callback :: "bool \<Rightarrow> u32 \<Rightarrow> rtp_sources \<Rightarrow> rtp_sources" where
  "new_source_callback is_new k s = (if is_new then callback (Ev_NewSource (the_source k s)) s else s)"

definition ObtainSourceDataInstance :: "u32 \<Rightarrow> rtp_sources \<Rightarrow> bool \<times> rtp_sources" where
  "ObtainSourceDataInstance k s =
     (case find_source k s of
        None \<Rightarrow> (True, put_source k (new_entry k (sources_probation s)) (s\<lparr>currentsource := None, totalcount := totalcount s + 1\<rparr>))
      | Some d \<Rightarrow> (False, s\<lparr>currentsource := Some k\<rparr>))"

text \<open>Whether the packet comes from elsewhere than the packets before; the first address is stored.\<close>

definition CheckCollision :: "u32 \<Rightarrow> rtp_address option \<Rightarrow> bool \<Rightarrow> rtp_sources \<Rightarrow> bool \<times> rtp_sources" where
  "CheckCollision k sender isrtp s =
     (let d = the_source k s;
          isset = (if isrtp then isrtpaddrset d else isrtcpaddrset d);
          addr = (if isrtp then rtpaddr d else rtcpaddr d);
          otherisset = (if isrtp then isrtcpaddrset d else isrtpaddrset d);
          otheraddr = (if isrtp then rtcpaddr d else rtpaddr d);
          collision = (True, callback (Ev_SSRCCollision d sender isrtp) s);
          store = (False, put_source k (if isrtp then SetRTPDataAddress sender d else SetRTCPDataAddress sender d) s) in
      if \<not> isset then
        (if otherisset then
           (case otheraddr of
              None \<Rightarrow> if sender \<noteq> None then collision else store
            | Some a \<Rightarrow> if \<not> IsFromSameHost a sender then collision else store)
         else store)
      else
        (case addr of
           None \<Rightarrow> if sender \<noteq> None then collision else (False, s)
         | Some a \<Rightarrow> if \<not> IsSameAddress a sender then collision else (False, s)))"

text \<open>\<open>GetRTCPSourceData\<close>: \<open>None\<close> for a collision, otherwise whether the source is new.\<close>

definition GetRTCPSourceData :: "u32 \<Rightarrow> rtp_address option \<Rightarrow> rtp_sources \<Rightarrow> bool option \<times> rtp_sources" where
  "GetRTCPSourceData k sender s =
     (case ObtainSourceDataInstance k s of (is_new, s1) \<Rightarrow>
        if is_new then (Some True, put_source k (SetRTCPDataAddress sender (the_source k s1)) s1)
        else case CheckCollision k sender False s1 of (collision, s2) \<Rightarrow> (if collision then None else Some False, s2))"

definition with_rtcp_source ::
    "u32 \<Rightarrow> rtp_address option \<Rightarrow> (bool \<Rightarrow> rtp_sources \<Rightarrow> int \<times> rtp_sources) \<Rightarrow> rtp_sources \<Rightarrow> int \<times> rtp_sources" where
  "with_rtcp_source k sender f s =
     (case GetRTCPSourceData k sender s of (r, s1) \<Rightarrow> case r of None \<Rightarrow> (0, s1) | Some is_new \<Rightarrow> f is_new s1)"

definition ProcessRTCPSenderInfo :: "u32 \<Rightarrow> sender_report \<Rightarrow> rtp_address option \<Rightarrow> rtp_sources \<Rightarrow> int \<times> rtp_sources" where
  "ProcessRTCPSenderInfo k sr sender =
     with_rtcp_source k sender (\<lambda>is_new s.
       let s1 = new_source_callback is_new k (put_source k (ProcessSenderInfo sr (the_source k s)) s) in
       (0, callback (Ev_RTCPSenderReport (the_source k s1)) s1))"

definition ProcessRTCPReportBlock :: "u32 \<Rightarrow> receiver_report \<Rightarrow> rtp_address option \<Rightarrow> rtp_sources \<Rightarrow> int \<times> rtp_sources" where
  "ProcessRTCPReportBlock k rr sender =
     with_rtcp_source k sender (\<lambda>is_new s.
       let s1 = new_source_callback is_new k (put_source k (ProcessReportBlock rr (the_source k s)) s) in
       (0, callback (Ev_RTCPReceiverReport (the_source k s1)) s1))"

definition UpdateReceiveTime :: "u32 \<Rightarrow> rtp_time \<Rightarrow> rtp_address option \<Rightarrow> rtp_sources \<Rightarrow> int \<times> rtp_sources" where
  "UpdateReceiveTime k receivetime sender =
     with_rtcp_source k sender (\<lambda>is_new s.
       (0, new_source_callback is_new k (put_source k (UpdateMessageTime receivetime (the_source k s)) s)))"

definition ERR_RTP_SOURCES_ILLEGALSDESTYPE :: int where [simp]: "ERR_RTP_SOURCES_ILLEGALSDESTYPE = - 67"

definition sdes_number :: "item_type \<Rightarrow> nat option" where
  "sdes_number t =
     (case t of CNAME \<Rightarrow> Some 1 | NAME \<Rightarrow> Some 2 | EMAIL \<Rightarrow> Some 3 | PHONE \<Rightarrow> Some 4 | LOC \<Rightarrow> Some 5
      | TOOL \<Rightarrow> Some 6 | NOTE \<Rightarrow> Some 7 | _ \<Rightarrow> None)"

definition ProcessSDESNormalItem ::
    "u32 \<Rightarrow> item_type \<Rightarrow> byte list \<Rightarrow> rtp_time \<Rightarrow> rtp_address option \<Rightarrow> rtp_sources \<Rightarrow> int \<times> rtp_sources" where
  "ProcessSDESNormalItem k t item receivetime sender s0 =
     (case sdes_number t of
        None \<Rightarrow> (ERR_RTP_SOURCES_ILLEGALSDESTYPE, s0)
      | Some sdesid \<Rightarrow>
          with_rtcp_source k sender (\<lambda>is_new s.
            let prevactive = IsActive (main (the_source k s)) in
            case ProcessSDESItem sdesid item receivetime (the_source k s) of (status, cnamecollis, d) \<Rightarrow>
            let s1 = put_source k d s;
                s2 = (if \<not> prevactive \<and> IsActive (main d) then s1\<lparr>activecount := activecount s1 + 1\<rparr> else s1);
                s3 = new_source_callback is_new k s2;
                s4 = (if cnamecollis then callback (Ev_CNAMECollision d sender item) s3 else s3) in
            (status, if 0 \<le> status then callback (Ev_RTCPSDESItem d t item) s4 else s4)) s0)"

definition ProcessSDESPrivateItem ::
    "u32 \<Rightarrow> byte list \<Rightarrow> byte list \<Rightarrow> rtp_time \<Rightarrow> rtp_address option \<Rightarrow> rtp_sources \<Rightarrow> int \<times> rtp_sources" where
  "ProcessSDESPrivateItem k pref val receivetime sender =
     with_rtcp_source k sender (\<lambda>is_new s.
       case ProcessPrivateSDESItem pref val receivetime (the_source k s) of (status, d) \<Rightarrow>
       let s1 = new_source_callback is_new k (put_source k d s) in
       (status, if 0 \<le> status then callback (Ev_RTCPSDESPrivateItem d pref val) s1 else s1))"

definition ProcessBYE :: "u32 \<Rightarrow> byte list \<Rightarrow> rtp_time \<Rightarrow> rtp_address option \<Rightarrow> rtp_sources \<Rightarrow> int \<times> rtp_sources" where
  "ProcessBYE k reason receivetime sender =
     with_rtcp_source k sender (\<lambda>is_new s.
       if owndata s = Some k then (0, s)
       else
         let prevactive = IsActive (main (the_source k s));
             d = entry_ProcessBYEPacket reason receivetime (the_source k s);
             s1 = put_source k d s;
             s2 = (if prevactive \<and> \<not> IsActive (main d) then s1\<lparr>activecount := activecount s1 - 1\<rparr> else s1) in
         (0, callback (Ev_BYEPacket d) (new_source_callback is_new k s2)))"

subsection \<open>Our own source\<close>

definition ERR_RTP_SOURCES_ALREADYHAVEOWNSSRC :: int where [simp]: "ERR_RTP_SOURCES_ALREADYHAVEOWNSSRC = - 65"
definition ERR_RTP_SOURCES_DONTHAVEOWNSSRC :: int where [simp]: "ERR_RTP_SOURCES_DONTHAVEOWNSSRC = - 66"
definition ERR_RTP_SOURCES_SSRCEXISTS :: int where [simp]: "ERR_RTP_SOURCES_SSRCEXISTS = - 68"

definition GotEntry :: "u32 \<Rightarrow> rtp_sources \<Rightarrow> bool" where
  "GotEntry k s \<longleftrightarrow> find_source k s \<noteq> None"

definition CreateOwnSSRC :: "u32 \<Rightarrow> rtp_sources \<Rightarrow> int \<times> rtp_sources" where
  "CreateOwnSSRC k s =
     (if owndata s \<noteq> None then (ERR_RTP_SOURCES_ALREADYHAVEOWNSSRC, s)
      else if GotEntry k s then (ERR_RTP_SOURCES_SSRCEXISTS, s)
      else case ObtainSourceDataInstance k s of (is_new, s1) \<Rightarrow>
        let d = the_source k s1;
            d1 = SetRTCPDataAddress None (SetRTPDataAddress None (d\<lparr>main := SetOwnSSRC (main d)\<rparr>));
            s2 = (put_source k d1 s1)\<lparr>owndata := Some k, activecount := activecount s1 + 1\<rparr> in
        (0, callback (Ev_NewSource d1) s2))"

text \<open>The element after the one with key \<open>k\<close> in the list; deleting the current element moves there.\<close>

definition next_key :: "u32 \<Rightarrow> rtp_sources \<Rightarrow> u32 option" where
  "next_key k s = (case tl (dropWhile (\<lambda>e. fst e \<noteq> k) (sourcelist s)) of [] \<Rightarrow> None | e # r \<Rightarrow> Some (fst e))"

definition delete_source :: "u32 \<Rightarrow> rtp_sources \<Rightarrow> rtp_sources" where
  "delete_source k s = s\<lparr>sourcelist := AList.delete k (sourcelist s), currentsource := next_key k s\<rparr>"

definition DeleteOwnSSRC :: "rtp_sources \<Rightarrow> int \<times> rtp_sources" where
  "DeleteOwnSSRC s =
     (case owndata s of
        None \<Rightarrow> (ERR_RTP_SOURCES_DONTHAVEOWNSSRC, s)
      | Some k \<Rightarrow>
          let d = the_source k s; s1 = delete_source k s;
              s2 = s1\<lparr>totalcount := totalcount s - 1,
                     sendercount := (if issender (main d) then sendercount s - 1 else sendercount s),
                     activecount := (if IsActive (main d) then activecount s - 1 else activecount s)\<rparr> in
          (0, (callback (Ev_RemoveSource d) s2)\<lparr>owndata := None\<rparr>))"

definition SentRTPPacket :: "rtp_time \<Rightarrow> rtp_sources \<Rightarrow> rtp_sources" where
  "SentRTPPacket now s =
     (case owndata s of
        None \<Rightarrow> s
      | Some k \<Rightarrow>
          let d = the_source k s; d1 = entry_SentRTPPacket now d; s1 = put_source k d1 s in
          if \<not> issender (main d) \<and> issender (main d1) then s1\<lparr>sendercount := sendercount s1 + 1\<rparr> else s1)"

text \<open>The loop over the elements leaves no current one; \<open>Clear\<close> then empties the table.\<close>

definition ClearSourceList :: "rtp_sources \<Rightarrow> rtp_sources" where
  "ClearSourceList s = s\<lparr>sourcelist := [], currentsource := None, owndata := None, totalcount := 0, sendercount := 0, activecount := 0\<rparr>"

subsection \<open>RTP packets\<close>

definition RTP_CSRCS :: "rtp_pack \<Rightarrow> nat" where "RTP_CSRCS p = min (numcsrcs p) RTP_MAXCSRCS"

fun read_csrcs :: "rtp_pack \<Rightarrow> nat list \<Rightarrow> ub + u32 list" where
  "read_csrcs p [] = Inr []"
| "read_csrcs p (i # r) = ub_bind (GetCSRC (int i) p) (\<lambda>c. ub_bind (read_csrcs p r) (\<lambda>cs. Inr (c # cs)))"

definition csrc_source :: "rtp_address option \<Rightarrow> u32 \<Rightarrow> rtp_sources \<Rightarrow> rtp_sources" where
  "csrc_source sender k s =
     (case ObtainSourceDataInstance k s of (is_new, s1) \<Rightarrow>
        let set = (\<lambda>s. put_source k ((the_source k s)\<lparr>main := SetCSRC (main (the_source k s))\<rparr>) s) in
        if is_new then
          let s2 = set s1;
              s3 = (if IsActive (main (the_source k s2)) then s2\<lparr>activecount := activecount s2 + 1\<rparr> else s2) in
          new_source_callback True k s3
        else case CheckCollision k sender True s1 of (collision, s2) \<Rightarrow> if collision then s2 else set s2)"

text \<open>The result: whether the packet was stored, and the table. The status is never negative.\<close>

definition count_changes :: "source_entry \<Rightarrow> source_entry \<Rightarrow> rtp_sources \<Rightarrow> rtp_sources" where
  "count_changes d d' s =
     s\<lparr>sendercount := (if \<not> issender (main d) \<and> issender (main d') then sendercount s + 1 else sendercount s),
       activecount := (if \<not> IsActive (main d) \<and> IsActive (main d') then activecount s + 1 else activecount s)\<rparr>"

definition sources_ProcessRTPPacket ::
    "rtp_pack \<Rightarrow> rtp_time \<Rightarrow> rtp_address option \<Rightarrow> rtp_sources \<Rightarrow> ub + (bool \<times> rtp_sources)" where
  "sources_ProcessRTPPacket pack receivetime sender s =
     (let k = ssrc pack in
      case ObtainSourceDataInstance k (callback (Ev_RTPPacket sender) s) of (is_new, s1) \<Rightarrow>
      case (if is_new then (False, put_source k (SetRTPDataAddress sender (the_source k s1)) s1)
            else CheckCollision k sender True s1) of (collision, s2) \<Rightarrow>
      if collision then Inr (False, s2)
      else
        ub_bind (read_csrcs pack [0..<RTP_CSRCS pack]) (\<lambda>CSRCs.
        let d = the_source k s2 in
        case ProcessRTPPacket pack receivetime (main d) of (stored, src) \<Rightarrow>
        let d1 = d\<lparr>main := src\<rparr>;
            s3 = new_source_callback is_new k (count_changes d d1 (put_source k d1 s2)) in
        Inr (stored, if validated src then fold (csrc_source sender) CSRCs s3 else s3)))"

subsection \<open>RTCP packets\<close>

definition receiver_report_of :: "nat \<Rightarrow> rtp_time \<Rightarrow> rtcp_packet \<Rightarrow> ub + receiver_report" where
  "receiver_report_of i t p =
     ub_bind (GetFractionLost i p) (\<lambda>f. ub_bind (GetLostPacketCount i p) (\<lambda>l.
     ub_bind (GetExtendedHighestSequenceNumber i p) (\<lambda>e. ub_bind (GetJitter i p) (\<lambda>j.
     ub_bind (GetLSR i p) (\<lambda>lsr. ub_bind (GetDLSR i p) (\<lambda>dlsr.
     Inr \<lparr>rr_fractionlost = f, rr_packetslost = l, rr_exthighseqnr = e, rr_jitter = j, rr_lsr = lsr, rr_dlsr = dlsr,
          rr_receivetime = t\<rparr>))))))"

text \<open>The loop over the blocks: those for our own identifier are processed. The result: the status, whether
  there was such a block, and the table.\<close>

fun report_loop ::
    "nat list \<Rightarrow> u32 \<Rightarrow> u32 \<Rightarrow> rtcp_packet \<Rightarrow> rtp_time \<Rightarrow> rtp_address option \<Rightarrow> bool \<Rightarrow> rtp_sources \<Rightarrow>
     ub + (int \<times> bool \<times> rtp_sources)" where
  "report_loop [] own senderssrc p t sender gotinfo s = Inr (0, gotinfo, s)"
| "report_loop (i # r) own senderssrc p t sender gotinfo s =
     ub_bind (report_GetSSRC i p) (\<lambda>k.
     if k = own then
       ub_bind (receiver_report_of i t p) (\<lambda>rr.
       case ProcessRTCPReportBlock senderssrc rr sender s of (status, s1) \<Rightarrow>
         if status < 0 then Inr (status, True, s1) else report_loop r own senderssrc p t sender True s1)
     else report_loop r own senderssrc p t sender gotinfo s)"

definition process_reports ::
    "u32 option \<Rightarrow> u32 \<Rightarrow> rtcp_packet \<Rightarrow> rtp_time \<Rightarrow> rtp_address option \<Rightarrow> rtp_sources \<Rightarrow> ub + (int \<times> rtp_sources)" where
  "process_reports own senderssrc p t sender s =
     ub_bind (case own of
                None \<Rightarrow> Inr (0, False, s)
              | Some o' \<Rightarrow> ub_bind (GetReceptionReportCount p) (\<lambda>num. report_loop [0..<num] o' senderssrc p t sender False s))
       (\<lambda>(status, gotinfo, s1).
       if status < 0 then Inr (status, s1)
       else if \<not> gotinfo then Inr (UpdateReceiveTime senderssrc t sender s1)
       else Inr (0, s1))"

definition process_sr ::
    "u32 option \<Rightarrow> rtcp_packet \<Rightarrow> rtp_time \<Rightarrow> rtp_address option \<Rightarrow> rtp_sources \<Rightarrow> ub + (int \<times> rtp_sources)" where
  "process_sr own p t sender s =
     ub_bind (GetSenderSSRC p) (\<lambda>k. ub_bind (GetNTPTimestamp p) (\<lambda>ntp. ub_bind (GetRTPTimestamp p) (\<lambda>ts.
     ub_bind (GetSenderPacketCount p) (\<lambda>pc. ub_bind (GetSenderOctetCount p) (\<lambda>oc.
     case ProcessRTCPSenderInfo k \<lparr>ntptimestamp = ntp, sr_rtptimestamp = ts, sr_packetcount = pc, sr_bytecount = oc,
            sr_receivetime = t\<rparr> sender s of (status, s1) \<Rightarrow>
       if status < 0 then Inr (status, s1) else process_reports own k p t sender s1)))))"

definition process_rr ::
    "u32 option \<Rightarrow> rtcp_packet \<Rightarrow> rtp_time \<Rightarrow> rtp_address option \<Rightarrow> rtp_sources \<Rightarrow> ub + (int \<times> rtp_sources)" where
  "process_rr own p t sender s = ub_bind (GetSenderSSRC p) (\<lambda>k. process_reports own k p t sender s)"

definition process_item ::
    "u32 \<Rightarrow> rtp_time \<Rightarrow> rtp_address option \<Rightarrow> rtcp_packet \<Rightarrow> rtp_sources \<Rightarrow> ub + (int \<times> rtp_sources)" where
  "process_item k t sender p s =
     ub_bind (GetItemType p) (\<lambda>ty.
     if ty \<noteq> PRIV then ub_bind (item_of p) (\<lambda>item. Inr (ProcessSDESNormalItem k ty item t sender s))
     else
       ub_bind (priv_prefix p) (\<lambda>pref. ub_bind (priv_value p) (\<lambda>val.
       Inr (ProcessSDESPrivateItem k pref val t sender s))))"

lemma rd_eq_Inr: "rd d i = Inr b \<longleftrightarrow> i < length d \<and> b = d ! i"
  by (auto simp: rd_def)

lemma next_item_moves:
  assumes "GotoNextItem p = Inr (again, p')"
  shows "rtcp_data p' = rtcp_data p" "currentchunk p' = currentchunk p" "curchunknum p' = curchunknum p" "knownformat p' = knownformat p"
    and "again \<Longrightarrow> \<exists>c. currentchunk p = Some c \<and> itemoffset p < itemoffset p' \<and> c + itemoffset p' < length (rtcp_data p)"
proof -
  note d = GotoNextItem_def Let_def ub_bind_eq_Inr rd_eq_Inr
  show "rtcp_data p' = rtcp_data p" "currentchunk p' = currentchunk p" "curchunknum p' = curchunknum p" "knownformat p' = knownformat p"
    using assms by (auto simp: d split: if_splits option.splits)
  show "\<exists>c. currentchunk p = Some c \<and> itemoffset p < itemoffset p' \<and> c + itemoffset p' < length (rtcp_data p)" if again
    using assms that by (auto simp: d split: if_splits option.splits)
qed

text \<open>The loop over the items of a chunk, which begins at an item.\<close>

function sdes_item_loop ::
    "u32 \<Rightarrow> rtp_time \<Rightarrow> rtp_address option \<Rightarrow> rtcp_packet \<Rightarrow> rtp_sources \<Rightarrow> ub + (int \<times> rtcp_packet \<times> rtp_sources)" where
  "sdes_item_loop k t sender p s =
     (case process_item k t sender p s of
        Inl e \<Rightarrow> Inl e
      | Inr (status, s1) \<Rightarrow>
          if status < 0 then Inr (status, p, s1)
          else case GotoNextItem p of
            Inl e \<Rightarrow> Inl e
          | Inr (again, p') \<Rightarrow> if again then sdes_item_loop k t sender p' s1 else Inr (0, p', s1))"
  by pat_completeness auto

termination
proof (relation "measure (\<lambda>(k, t, sender, p, s). length (rtcp_data p) - (the (currentchunk p) + itemoffset p))")
  fix k t sender p s a status s1 b again p'
  assume "GotoNextItem p = Inr b" "(again, p') = b" again
  then have "GotoNextItem p = Inr (True, p')" by auto
  from next_item_moves [OF this]
  show "((k, t, sender, p', s1), k, t, sender, p, s) \<in> measure (\<lambda>(k, t, sender, p, s). length (rtcp_data p) - (the (currentchunk p) + itemoffset p))"
    by auto
qed simp

declare sdes_item_loop.simps [simp del]

lemma next_item_same:
  "GotoNextItem p = Inr (again, p') \<Longrightarrow> rtcp_data p' = rtcp_data p \<and> currentchunk p' = currentchunk p"
  by (simp add: next_item_moves(1) next_item_moves(2))

lemma sdes_item_loop_packet:
  "sdes_item_loop k t sender p s = Inr (status, p', s') \<Longrightarrow> rtcp_data p' = rtcp_data p \<and> currentchunk p' = currentchunk p"
proof (induction k t sender p s rule: sdes_item_loop.induct)
  case (1 k t sender p s)
  note run = 1(2) [unfolded sdes_item_loop.simps [of k t sender p s]]
  obtain st s1 where item: "process_item k t sender p s = Inr (st, s1)" using run by (auto split: sum.splits)
  show ?case
  proof (cases "st < 0")
    case False
    then obtain again p2 where step: "GotoNextItem p = Inr (again, p2)" using run item by (auto split: sum.splits)
    show ?thesis
    proof (cases again)
      case True
      then show ?thesis using 1(1) [OF item refl False step refl True] run item False step next_item_same [OF step] by simp
    next
      case no: False
      then show ?thesis using run item False step next_item_same [OF step] by simp
    qed
  qed (use run item in simp)
qed

lemma next_chunk_moves:
  assumes "GotoNextChunk p = Inr (True, p')"
  shows "rtcp_data p' = rtcp_data p" "\<exists>c c'. currentchunk p = Some c \<and> currentchunk p' = Some c' \<and> c < c' \<and> c < length (rtcp_data p)"
proof -
  note d = GotoNextChunk_def Let_def ub_bind_eq_Inr
  show "rtcp_data p' = rtcp_data p" using assms by (auto simp: d split: if_splits option.splits)
  from assms obtain c off where c: "currentchunk p = Some c" "chunk_end (rtcp_data p) c 4 = Inr off" "currentchunk p' = Some (c + align4 (off + 1))"
    by (auto simp: d split: if_splits option.splits)
  then have "c + 4 < length (rtcp_data p)" by (subst (asm) chunk_end.simps) (auto simp: rd_def split: if_splits)
  moreover have "0 < align4 (off + 1)" by (simp add: align4_def)
  ultimately show "\<exists>c c'. currentchunk p = Some c \<and> currentchunk p' = Some c' \<and> c < c' \<and> c < length (rtcp_data p)" using c by auto
qed

text \<open>The items of one chunk, or only its time if it has none.\<close>

definition process_chunk ::
    "rtp_time \<Rightarrow> rtp_address option \<Rightarrow> rtcp_packet \<Rightarrow> rtp_sources \<Rightarrow> ub + (int \<times> rtcp_packet \<times> rtp_sources)" where
  "process_chunk t sender p s =
     ub_bind (GetChunkSSRC p) (\<lambda>k. ub_bind (GotoFirstItem p) (\<lambda>(got, p1).
     if got then sdes_item_loop k t sender p1 s
     else case UpdateReceiveTime k t sender s of (status, s1) \<Rightarrow> Inr (status, p1, s1)))"

lemma process_chunk_packet:
  assumes "process_chunk t sender p s = Inr (status, p', s')"
  shows "rtcp_data p' = rtcp_data p" "currentchunk p' = currentchunk p"
  using assms by (auto simp: process_chunk_def GotoFirstItem_def ub_bind_eq_Inr split: if_splits prod.splits option.splits
      dest: sdes_item_loop_packet)

function sdes_chunk_loop ::
    "rtp_time \<Rightarrow> rtp_address option \<Rightarrow> rtcp_packet \<Rightarrow> rtp_sources \<Rightarrow> ub + (int \<times> rtp_sources)" where
  "sdes_chunk_loop t sender p s =
     (case process_chunk t sender p s of
        Inl e \<Rightarrow> Inl e
      | Inr (status, p1, s1) \<Rightarrow>
          if status < 0 then Inr (status, s1)
          else case GotoNextChunk p1 of
            Inl e \<Rightarrow> Inl e
          | Inr (again, p2) \<Rightarrow> if again then sdes_chunk_loop t sender p2 s1 else Inr (0, s1))"
  by pat_completeness auto

termination
proof (relation "measure (\<lambda>(t, sender, p, s). length (rtcp_data p) - the (currentchunk p))")
  fix t sender p s a status b p1 s1 c again p2
  assume "process_chunk t sender p s = Inr a" "(status, b) = a" "(p1, s1) = b" "GotoNextChunk p1 = Inr c" "(again, p2) = c" again
  then have "process_chunk t sender p s = Inr (status, p1, s1)" "GotoNextChunk p1 = Inr (True, p2)" by auto
  from process_chunk_packet [OF this(1)] next_chunk_moves [OF this(2)]
  show "((t, sender, p2, s1), t, sender, p, s) \<in> measure (\<lambda>(t, sender, p, s). length (rtcp_data p) - the (currentchunk p))"
    by auto
qed simp

declare sdes_chunk_loop.simps [simp del]

definition process_sdes :: "rtcp_packet \<Rightarrow> rtp_time \<Rightarrow> rtp_address option \<Rightarrow> rtp_sources \<Rightarrow> ub + (int \<times> rtp_sources)" where
  "process_sdes p t sender s =
     ub_bind (GotoFirstChunk p) (\<lambda>(got, p1). if got then sdes_chunk_loop t sender p1 s else Inr (0, s))"

fun bye_loop :: "nat list \<Rightarrow> rtcp_packet \<Rightarrow> rtp_time \<Rightarrow> rtp_address option \<Rightarrow> rtp_sources \<Rightarrow> ub + (int \<times> rtp_sources)" where
  "bye_loop [] p t sender s = Inr (0, s)"
| "bye_loop (i # r) p t sender s =
     ub_bind (bye_GetSSRC i p) (\<lambda>byessrc. ub_bind (reason_of p) (\<lambda>reason.
     case ProcessBYE byessrc reason t sender s of (status, s1) \<Rightarrow>
       if status < 0 then Inr (status, s1) else bye_loop r p t sender s1))"

definition process_bye :: "rtcp_packet \<Rightarrow> rtp_time \<Rightarrow> rtp_address option \<Rightarrow> rtp_sources \<Rightarrow> ub + (int \<times> rtp_sources)" where
  "process_bye p t sender s = ub_bind (GetSSRCCount p) (\<lambda>num. bye_loop [0..<num] p t sender s)"

definition process_rtcp ::
    "u32 option \<Rightarrow> rtp_time \<Rightarrow> rtp_address option \<Rightarrow> rtcp_packet \<Rightarrow> rtp_sources \<Rightarrow> ub + (int \<times> rtp_sources)" where
  "process_rtcp own t sender p s =
     (if knownformat p then
        (case rtcp_type p of
           SR \<Rightarrow> process_sr own p t sender s
         | RR \<Rightarrow> process_rr own p t sender s
         | SDES \<Rightarrow> process_sdes p t sender s
         | BYE \<Rightarrow> process_bye p t sender s
         | APP \<Rightarrow> Inr (0, callback (Ev_APPPacket p) s)
         | UnknownType \<Rightarrow> Inr (0, callback (Ev_UnknownPacketType p) s))
      else Inr (0, callback (Ev_UnknownPacketFormat p) s))"

fun rtcp_loop ::
    "u32 option \<Rightarrow> rtp_time \<Rightarrow> rtp_address option \<Rightarrow> rtcp_packet list \<Rightarrow> rtp_sources \<Rightarrow> ub + (int \<times> rtp_sources)" where
  "rtcp_loop own t sender [] s = Inr (0, s)"
| "rtcp_loop own t sender (p # ps) s =
     ub_bind (process_rtcp own t sender p s) (\<lambda>(status, s1).
     if status < 0 then Inr (status, s1) else rtcp_loop own t sender ps s1)"

definition ProcessRTCPCompoundPacket ::
    "rtcp_packet list \<Rightarrow> rtp_time \<Rightarrow> rtp_address option \<Rightarrow> rtp_sources \<Rightarrow> ub + (int \<times> rtp_sources)" where
  "ProcessRTCPCompoundPacket ps receivetime sender s =
     rtcp_loop (owndata s) receivetime sender ps (callback (Ev_RTCPCompoundPacket sender) s)"

subsection \<open>Raw packets\<close>

text \<open>\<open>own\<close>: some transmitter says that the packet comes from it.\<close>

definition ProcessRawPacket ::
    "raw_packet \<Rightarrow> rtp_time \<Rightarrow> rtp_address option \<Rightarrow> bool \<Rightarrow> bool \<Rightarrow> rtp_sources \<Rightarrow> ub + (int \<times> rtp_sources)" where
  "ProcessRawPacket rawpack receivetime senderaddress own acceptownpackets s =
     (if raw_isrtp rawpack then
        ub_bind (ParseRawPacket rawpack) (\<lambda>p.
        if error p < 0 then Inr (if error p = ERR_RTP_PACKET_INVALIDPACKET then 0 else error p, s)
        else if own \<and> \<not> acceptownpackets then Inr (0, s)
        else
          ub_bind (sources_ProcessRTPPacket p receivetime (if own then None else senderaddress) s) (\<lambda>(stored, s1). Inr (0, s1)))
      else
        ub_bind (RTCPCompoundPacket rawpack) (\<lambda>(err, ps).
        if err < 0 then Inr (if err = ERR_RTP_RTCPCOMPOUND_INVALIDPACKET then 0 else err, s)
        else if own \<and> \<not> acceptownpackets then Inr (0, s)
        else
          ub_bind (ProcessRTCPCompoundPacket ps receivetime (if own then None else senderaddress) s) (\<lambda>(status, s1).
          Inr (if status < 0 then status else 0, s1))))"

subsection \<open>Timeouts\<close>

text \<open>The loops over the table give the sources that stay, the three counters of those, and the callbacks;
  the decrements of the old counters are overwritten at the end.\<close>

type_synonym counters = "int \<times> int \<times> int"

definition count_in :: "bool \<Rightarrow> bool \<Rightarrow> counters \<Rightarrow> counters" where
  "count_in sender active c =
     (case c of (n, senders, actives) \<Rightarrow> (n + 1, senders + (if sender then 1 else 0), actives + (if active then 1 else 0)))"

type_synonym timeout_result = "(u32 \<times> source_entry) list \<times> counters \<times> source_event list"

definition keep :: "u32 \<Rightarrow> source_entry \<Rightarrow> bool \<Rightarrow> bool \<Rightarrow> source_event list \<Rightarrow> timeout_result \<Rightarrow> timeout_result" where
  "keep k d sender active ev r = (case r of (l, c, evs) \<Rightarrow> ((k, d) # l, count_in sender active c, ev @ evs))"

definition remove_source :: "source_event list \<Rightarrow> timeout_result \<Rightarrow> timeout_result" where
  "remove_source ev r = (case r of (l, c, evs) \<Rightarrow> (l, c, ev @ evs))"

definition finish_timeout :: "timeout_result \<Rightarrow> rtp_sources \<Rightarrow> rtp_sources" where
  "finish_timeout r s =
     (case r of (l, (n, senders, actives), evs) \<Rightarrow>
        s\<lparr>sourcelist := l, currentsource := None, totalcount := n, sendercount := senders, activecount := actives,
          events := events s @ evs\<rparr>)"

fun timeout_loop :: "u32 option \<Rightarrow> rtp_time \<Rightarrow> (u32 \<times> source_entry) list \<Rightarrow> timeout_result" where
  "timeout_loop own checktime [] = ([], (0, 0, 0), [])"
| "timeout_loop own checktime ((k, d) # r) =
     (if own \<noteq> Some k \<and> lastmsgtime (stats (main d)) < checktime then
        remove_source [Ev_Timeout d, Ev_RemoveSource d] (timeout_loop own checktime r)
      else keep k d (issender (main d)) (IsActive (main d)) [] (timeout_loop own checktime r))"

definition sources_Timeout :: "rtp_time \<Rightarrow> rtp_sources \<Rightarrow> rtp_sources" where
  "sources_Timeout checktime s = finish_timeout (timeout_loop (owndata s) checktime (sourcelist s)) s"

fun sender_timeout_loop :: "rtp_time \<Rightarrow> (u32 \<times> source_entry) list \<Rightarrow> timeout_result" where
  "sender_timeout_loop checktime [] = ([], (0, 0, 0), [])"
| "sender_timeout_loop checktime ((k, d) # r) =
     (if issender (main d) \<and> lastrtptime (stats (main d)) < checktime then
        keep k (d\<lparr>main := ClearSenderFlag (main d)\<rparr>) False (IsActive (main d)) [] (sender_timeout_loop checktime r)
      else keep k d (issender (main d)) (IsActive (main d)) [] (sender_timeout_loop checktime r))"

definition SenderTimeout :: "rtp_time \<Rightarrow> rtp_sources \<Rightarrow> rtp_sources" where
  "SenderTimeout checktime s = finish_timeout (sender_timeout_loop checktime (sourcelist s)) s"

fun bye_timeout_loop :: "u32 option \<Rightarrow> rtp_time \<Rightarrow> (u32 \<times> source_entry) list \<Rightarrow> timeout_result" where
  "bye_timeout_loop own checktime [] = ([], (0, 0, 0), [])"
| "bye_timeout_loop own checktime ((k, d) # r) =
     (if receivedbye (main d) \<and> own \<noteq> Some k \<and> byetime d < checktime then
        remove_source [Ev_BYETimeout d, Ev_RemoveSource d] (bye_timeout_loop own checktime r)
      else keep k d (issender (main d)) (IsActive (main d)) [] (bye_timeout_loop own checktime r))"

definition BYETimeout :: "rtp_time \<Rightarrow> rtp_sources \<Rightarrow> rtp_sources" where
  "BYETimeout checktime s = finish_timeout (bye_timeout_loop (owndata s) checktime (sourcelist s)) s"

text \<open>The note is item number 7.\<close>

definition note_expired :: "rtp_time \<Rightarrow> source_entry \<Rightarrow> bool" where
  "note_expired checktime d \<longleftrightarrow> nonprivateitems d ! 6 \<noteq> [] \<and> lastnotetime d < checktime"

fun note_timeout_loop :: "rtp_time \<Rightarrow> (u32 \<times> source_entry) list \<Rightarrow> timeout_result" where
  "note_timeout_loop checktime [] = ([], (0, 0, 0), [])"
| "note_timeout_loop checktime ((k, d) # r) =
     (if note_expired checktime d then
        keep k (ClearNote d) (issender (main d)) (IsActive (main d)) [Ev_NoteTimeout (ClearNote d)] (note_timeout_loop checktime r)
      else keep k d (issender (main d)) (IsActive (main d)) [] (note_timeout_loop checktime r))"

definition NoteTimeout :: "rtp_time \<Rightarrow> rtp_sources \<Rightarrow> rtp_sources" where
  "NoteTimeout checktime s = finish_timeout (note_timeout_loop checktime (sourcelist s)) s"

fun multiple_timeouts_loop ::
    "u32 option \<Rightarrow> rtp_time \<Rightarrow> rtp_time \<Rightarrow> rtp_time \<Rightarrow> rtp_time \<Rightarrow> (u32 \<times> source_entry) list \<Rightarrow> timeout_result" where
  "multiple_timeouts_loop own sendert byet generalt notet [] = ([], (0, 0, 0), [])"
| "multiple_timeouts_loop own sendert byet generalt notet ((k, d) # r) =
     (let rest = multiple_timeouts_loop own sendert byet generalt notet r;
          notetimeout = note_expired notet d;
          d1 = (if notetimeout then ClearNote d else d);
          byetimeout = (receivedbye (main d1) \<and> own \<noteq> Some k \<and> byetime d1 < byet);
          normaltimeout = (\<not> byetimeout \<and> own \<noteq> Some k \<and> lastmsgtime (stats (main d1)) < generalt);
          note = (if notetimeout then [Ev_NoteTimeout d1] else []) in
      if byetimeout then remove_source [Ev_BYETimeout d1, Ev_RemoveSource d1] rest
      else if normaltimeout then remove_source [Ev_Timeout d1, Ev_RemoveSource d1] rest
      else if issender (main d) \<and> lastrtptime (stats (main d1)) < sendert then
        (let d2 = d1\<lparr>main := ClearSenderFlag (main d1)\<rparr> in
         keep k d2 False (IsActive (main d)) (if notetimeout then [Ev_NoteTimeout d2] else []) rest)
      else keep k d1 (issender (main d)) (IsActive (main d)) note rest)"

definition MultipleTimeouts :: "rtp_time \<Rightarrow> rtp_time \<Rightarrow> rtp_time \<Rightarrow> rtp_time \<Rightarrow> rtp_sources \<Rightarrow> rtp_sources" where
  "MultipleTimeouts sendert byet generalt notet s =
     finish_timeout (multiple_timeouts_loop (owndata s) sendert byet generalt notet (sourcelist s)) s"

subsection \<open>Going through the sources\<close>

definition GotoFirstSource :: "rtp_sources \<Rightarrow> bool \<times> rtp_sources" where
  "GotoFirstSource s =
     (case sourcelist s of [] \<Rightarrow> (False, s\<lparr>currentsource := None\<rparr>) | e # r \<Rightarrow> (True, s\<lparr>currentsource := Some (fst e)\<rparr>))"

text \<open>\<open>Dangling\<close>: the current element is not in the table any more.\<close>

definition current_entry :: "rtp_sources \<Rightarrow> ub + source_entry option" where
  "current_entry s =
     (case currentsource s of
        None \<Rightarrow> Inr None
      | Some k \<Rightarrow> case find_source k s of None \<Rightarrow> Inl Dangling | Some d \<Rightarrow> Inr (Some d))"

definition GotoNextSource :: "rtp_sources \<Rightarrow> ub + (bool \<times> rtp_sources)" where
  "GotoNextSource s =
     ub_bind (current_entry s) (\<lambda>r.
     let c = (if r = None then None else next_key (the (currentsource s)) s) in Inr (c \<noteq> None, s\<lparr>currentsource := c\<rparr>))"

definition first_with_data :: "(u32 \<times> source_entry) list \<Rightarrow> u32 option" where
  "first_with_data l = (case dropWhile (\<lambda>e. \<not> HasData (main (snd e))) l of [] \<Rightarrow> None | e # r \<Rightarrow> Some (fst e))"

definition GotoFirstSourceWithData :: "rtp_sources \<Rightarrow> bool \<times> rtp_sources" where
  "GotoFirstSourceWithData s =
     (let c = first_with_data (sourcelist s) in (c \<noteq> None, s\<lparr>currentsource := c\<rparr>))"

definition GotoNextSourceWithData :: "rtp_sources \<Rightarrow> ub + (bool \<times> rtp_sources)" where
  "GotoNextSourceWithData s =
     ub_bind (current_entry s) (\<lambda>r.
     let c = (if r = None then None
              else first_with_data (tl (dropWhile (\<lambda>e. fst e \<noteq> the (currentsource s)) (sourcelist s)))) in
     Inr (c \<noteq> None, s\<lparr>currentsource := c\<rparr>))"

text \<open>The elements before the one with key \<open>k\<close>, the nearest first.\<close>

definition elements_before :: "u32 \<Rightarrow> rtp_sources \<Rightarrow> (u32 \<times> source_entry) list" where
  "elements_before k s = rev (takeWhile (\<lambda>e. fst e \<noteq> k) (sourcelist s))"

definition GotoPreviousSource :: "rtp_sources \<Rightarrow> ub + (bool \<times> rtp_sources)" where
  "GotoPreviousSource s =
     ub_bind (current_entry s) (\<lambda>r.
     let c = (if r = None then None
              else case elements_before (the (currentsource s)) s of [] \<Rightarrow> None | e # r \<Rightarrow> Some (fst e)) in
     Inr (c \<noteq> None, s\<lparr>currentsource := c\<rparr>))"

definition GotoPreviousSourceWithData :: "rtp_sources \<Rightarrow> ub + (bool \<times> rtp_sources)" where
  "GotoPreviousSourceWithData s =
     ub_bind (current_entry s) (\<lambda>r.
     let c = (if r = None then None else first_with_data (elements_before (the (currentsource s)) s)) in
     Inr (c \<noteq> None, s\<lparr>currentsource := c\<rparr>))"

definition GetSourceInfo :: "u32 \<Rightarrow> rtp_sources \<Rightarrow> source_entry option \<times> rtp_sources" where
  "GetSourceInfo k s =
     (case find_source k s of
        None \<Rightarrow> (None, s\<lparr>currentsource := None\<rparr>)
      | Some d \<Rightarrow> (Some d, s\<lparr>currentsource := Some k\<rparr>))"

definition GetCurrentSourceInfo :: "rtp_sources \<Rightarrow> ub + source_entry option" where
  "GetCurrentSourceInfo = current_entry"

definition sources_GetNextPacket :: "rtp_sources \<Rightarrow> ub + (rtp_pack option \<times> rtp_sources)" where
  "sources_GetNextPacket s =
     ub_bind (current_entry s) (\<lambda>r.
     case r of
       None \<Rightarrow> Inr (None, s)
     | Some d \<Rightarrow> case GetNextPacket (main d) of (p, src) \<Rightarrow>
         Inr (p, put_source (the (currentsource s)) (d\<lparr>main := src\<rparr>) s))"

end
