(* ===== verification/Rtp_Table.thy ===== *)
theory Rtp_Table
  imports Rtp_Sources Rtp_Ordering
begin

section \<open>What holds of the table of sources\<close>

text \<open>
  \<open>table_steps\<close> is the interface between the operations of \<open>RTPSources\<close> and the primitives they are made
  of: a property that callbacks, the search for a source, the check for collisions and legal changes of one
  admitted source keep, is kept by the processing of every packet. It is interpreted twice, on the invariant
  of the table and on the protection of a source from packets that come from elsewhere.
\<close>

subsection \<open>Counting\<close>

definition sources_with :: "(rtp_source \<Rightarrow> bool) \<Rightarrow> (u32 \<times> source_entry) list \<Rightarrow> int" where
  "sources_with P l = int (length (filter (\<lambda>e. P (main (snd e))) l))"

lemma sources_with_simps [simp]:
  "sources_with P [] = 0"
  "sources_with P (e # l) = of_bool (P (main (snd e))) + sources_with P l"
  by (simp_all add: sources_with_def)

lemma sources_with_nonneg [simp]: "0 \<le> sources_with P l"
  by (simp add: sources_with_def)

lemma sources_with_update:
  "sources_with P (AList.update k d l) =
     sources_with P l + of_bool (P (main d)) - (case map_of l k of None \<Rightarrow> 0 | Some d0 \<Rightarrow> of_bool (P (main d0)))"
  by (induction l) auto

lemma length_update: "length (AList.update k d l) = length l + (if k \<in> fst ` set l then 0 else 1)"
  by (induction l) auto

lemma sources_with_delete:
  "distinct (map fst l) \<Longrightarrow> map_of l k = Some d \<Longrightarrow>
   sources_with P (AList.delete k l) = sources_with P l - of_bool (P (main d))"
proof (induction l)
  case (Cons e l)
  show ?case
  proof (cases "fst e = k")
    case True
    then have "k \<notin> fst ` set l" using Cons.prems(1) by auto
    then have "AList.delete k l = l" by (simp add: AList.delete_eq filter_id_conv) force
    then show ?thesis using True Cons.prems(2) by (cases e) (simp add: AList.delete_eq)
  next
    case False
    then show ?thesis using Cons by (cases e) (simp add: AList.delete_eq)
  qed
qed simp

lemma length_delete:
  fixes l :: "(u32 \<times> source_entry) list"
  shows "distinct (map fst l) \<Longrightarrow> map_of l k = Some d \<Longrightarrow> int (length (AList.delete k l)) = int (length l) - 1"
  using sources_with_delete [of l k d "\<lambda>_. True"] by (simp add: sources_with_def)

subsection \<open>The table as a map\<close>

lemma find_put [simp]: "find_source k' (put_source k d s) = (if k' = k then Some d else find_source k' s)"
  by (simp add: find_source_def put_source_def AList.update_conv')

lemma the_put [simp]: "the_source k (put_source k d s) = d"
  by (simp add: the_source_def)

lemma find_callback [simp]: "find_source k (callback e s) = find_source k s"
  by (simp add: find_source_def callback_def)

lemma the_callback [simp]: "the_source k (callback e s) = the_source k s"
  by (simp add: the_source_def)

text \<open>A change of one source together with the counters.\<close>

definition modify :: "u32 \<Rightarrow> source_entry \<Rightarrow> int \<Rightarrow> int \<Rightarrow> rtp_sources \<Rightarrow> rtp_sources" where
  "modify k d ds da s =
     (put_source k d s)\<lparr>sendercount := sendercount s + ds, activecount := activecount s + da\<rparr>"

lemma modify_simps [simp]:
  "sourcelist (modify k d ds da s) = AList.update k d (sourcelist s)" "totalcount (modify k d ds da s) = totalcount s"
  "owndata (modify k d ds da s) = owndata s" "sendercount (modify k d ds da s) = sendercount s + ds"
  "activecount (modify k d ds da s) = activecount s + da"
  by (simp_all add: modify_def put_source_def)

lemma put_modify: "put_source k d s = modify k d 0 0 s"
  by (simp add: modify_def put_source_def)

lemma find_modify [simp]: "find_source k' (modify k d ds da s) = (if k' = k then Some d else find_source k' s)"
  by (simp add: find_source_def modify_def put_source_def AList.update_conv')

lemma the_modify [simp]: "the_source k (modify k d ds da s) = d"
  by (simp add: the_source_def)

text \<open>What the code may do to a source: the counters follow, but the count of active ones may lag behind.\<close>

definition entry_ok :: "source_entry \<Rightarrow> bool" where
  "entry_ok d \<longleftrightarrow> source_inv (main d) \<and> length (nonprivateitems d) = 7 \<and>
     (\<forall>item \<in> set (nonprivateitems d). length item \<le> RTCP_SDES_MAXITEMLENGTH) \<and> length (privitems d) \<le> RTP_MAXPRIVITEMS"

definition legal :: "source_entry \<Rightarrow> source_entry \<Rightarrow> int \<Rightarrow> int \<Rightarrow> bool" where
  "legal d d' ds da \<longleftrightarrow> ownssrc (main d') = ownssrc (main d) \<and>
     ds = of_bool (issender (main d')) - of_bool (issender (main d)) \<and>
     da \<le> of_bool (IsActive (main d')) - of_bool (IsActive (main d)) \<and> (entry_ok d \<longrightarrow> entry_ok d')"

text \<open>Changes that leave the flags and the queue alone.\<close>

definition same_source :: "rtp_source \<Rightarrow> rtp_source \<Rightarrow> bool" where
  "same_source src src' \<longleftrightarrow> ownssrc src' = ownssrc src \<and> issender src' = issender src \<and> validated src' = validated src \<and>
     receivedbye src' = receivedbye src \<and> packetlist src' = packetlist src"

lemma same_source_legal:
  assumes "same_source (main d) (main d')" "nonprivateitems d' = nonprivateitems d" "privitems d' = privitems d"
  shows "legal d d' 0 0"
proof -
  have "source_inv (main d) \<Longrightarrow> source_inv (main d')"
    using assms(1) by (auto simp: same_source_def elim: source_inv_cong)
  then show ?thesis using assms by (simp add: legal_def same_source_def IsActive_def entry_ok_def)
qed

lemma plain_legal [simp]:
  "legal d (UpdateMessageTime t d) 0 0" "legal d (SetRTPDataAddress a d) 0 0" "legal d (SetRTCPDataAddress a d) 0 0"
  "legal d (ProcessSenderInfo sr d) 0 0" "legal d (ProcessReportBlock rr d) 0 0"
  by (rule same_source_legal; simp add: same_source_def UpdateMessageTime_def SetRTPDataAddress_def SetRTCPDataAddress_def
      ProcessSenderInfo_def ProcessReportBlock_def)+

lemma bye_legal:
  "legal d (entry_ProcessBYEPacket reason t d) 0
     (if IsActive (main d) \<and> \<not> IsActive (main (entry_ProcessBYEPacket reason t d)) then - 1 else 0)"
  by (auto simp: legal_def entry_ProcessBYEPacket_def ProcessBYEPacket_def IsActive_def entry_ok_def source_inv_def)

lemma csrc_legal:
  "legal d (d\<lparr>main := SetCSRC (main d)\<rparr>) 0 0"
  by (auto simp: legal_def SetCSRC_def IsActive_def entry_ok_def source_inv_def)

lemma SetNonPrivateItem_facts:
  assumes "SetNonPrivateItem i item d = (status, d')"
  shows "main d' = main d" "entry_ok d \<Longrightarrow> entry_ok d'" "0 \<le> status \<or> RTCP_SDES_MAXITEMLENGTH < length item"
proof -
  show "main d' = main d" "0 \<le> status \<or> RTCP_SDES_MAXITEMLENGTH < length item"
    using assms by (auto simp: SetNonPrivateItem_def split: if_splits)
  show "entry_ok d'" if "entry_ok d"
    using assms that set_update_subset_insert [of "nonprivateitems d" i item]
    by (auto simp: SetNonPrivateItem_def entry_ok_def split: if_splits)
qed

lemma entry_ok_main: "entry_ok d \<Longrightarrow> source_inv src \<Longrightarrow> entry_ok (d\<lparr>main := src\<rparr>)"
  by (simp add: entry_ok_def)

lemma entry_ok_note: "entry_ok d \<Longrightarrow> entry_ok (d\<lparr>lastnotetime := t\<rparr>)"
  by (simp add: entry_ok_def)

lemma sdes_item_facts:
  assumes "ProcessSDESItem sdesid item t d = (status, collis, d')"
  shows "ownssrc (main d') = ownssrc (main d)" "issender (main d') = issender (main d)" "receivedbye (main d') = receivedbye (main d)"
    "packetlist (main d') = packetlist (main d)" "validated (main d) \<Longrightarrow> validated (main d')"
  using assms by (auto simp: ProcessSDESItem_def Let_def UpdateMessageTime_def SetNonPrivateItem_def split: if_splits prod.splits)

lemma sdes_item_entry:
  assumes "ProcessSDESItem sdesid item t d = (status, collis, d')" "entry_ok d"
  shows "entry_ok d'"
proof -
  have d: "entry_ok (UpdateMessageTime t d)" using plain_legal(1) [of d t] assms(2) by (simp add: legal_def)
  have step: "entry_ok e" if "SetNonPrivateItem i item (UpdateMessageTime t d) = (st, e)" for i st e
    using SetNonPrivateItem_facts(2) [OF that d] .
  have noted: "entry_ok e" if "SetNonPrivateItem i item ((UpdateMessageTime t d)\<lparr>lastnotetime := t\<rparr>) = (st, e)" for i st e
    using SetNonPrivateItem_facts(2) [OF that entry_ok_note [OF d]] .
  let ?c = "snd (SetNonPrivateItem 0 item (UpdateMessageTime t d))"
  have "entry_ok ?c" using step [OF prod.collapse [symmetric], of 0] .
  then have cname: "entry_ok (?c\<lparr>main := (main ?c)\<lparr>validated := True\<rparr>\<rparr>)" by (auto simp: entry_ok_def source_inv_def)
  show ?thesis
    using assms(1) d by (auto simp: ProcessSDESItem_def Let_def split: if_splits prod.splits intro: step noted cname)
qed

lemma sdes_item_legal:
  assumes "ProcessSDESItem sdesid item t d = (status, collis, d')"
  shows "legal d d' 0 (if \<not> IsActive (main d) \<and> IsActive (main d') then 1 else 0)"
  using sdes_item_facts [OF assms] sdes_item_entry [OF assms] by (auto simp: legal_def IsActive_def)

lemma private_item_legal:
  assumes "ProcessPrivateSDESItem pref val t d = (status, d')"
  shows "legal d d' 0 0"
proof -
  have "main d' = main (UpdateMessageTime t d)" "nonprivateitems d' = nonprivateitems d"
    "length (privitems d) \<le> 256 \<Longrightarrow> length (privitems d') \<le> 256"
    using assms by (auto simp: ProcessPrivateSDESItem_def SetPrivateValue_def Let_def UpdateMessageTime_def length_update
        image_iff split: if_splits prod.splits) force
  then show ?thesis using plain_legal(1) [of d t] by (auto simp: legal_def entry_ok_def)
qed

lemma rtp_packet_facts:
  assumes "ProcessRTPPacket pack t src = (stored, src')"
  shows "ownssrc src' = ownssrc src" "receivedbye src' = receivedbye src" "validated src \<Longrightarrow> validated src'"
    "issender src \<Longrightarrow> issender src'" "source_inv src \<Longrightarrow> source_inv src'"
  using assms ProcessRTPPacket_inv [of src pack t]
  by (auto simp: ProcessRTPPacket_def enqueue_packet_def Let_def split: option.splits probation_type.splits if_splits prod.splits)

lemma rtp_packet_legal:
  assumes "ProcessRTPPacket pack t (main d) = (stored, src)"
  shows "legal d (d\<lparr>main := src\<rparr>) (if \<not> issender (main d) \<and> issender src then 1 else 0)
     (if \<not> IsActive (main d) \<and> IsActive src then 1 else 0)"
  using rtp_packet_facts [OF assms] by (auto simp: legal_def IsActive_def entry_ok_def)

text \<open>\<open>after P r\<close>: whatever \<open>r\<close> returns beside the status has \<open>P\<close>.\<close>

definition after :: "('b \<Rightarrow> bool) \<Rightarrow> ub + ('a \<times> 'b) \<Rightarrow> bool" where
  "after P r \<longleftrightarrow> (\<forall>a b. r = Inr (a, b) \<longrightarrow> P b)"

lemma after_simps [simp]: "after P (Inl e)" "after P (Inr (a, b)) = P b" "after P (Inr c) = P (snd c)"
  by (simp_all add: after_def) (cases c; simp)

lemma after_bind: "(\<And>x. m = Inr x \<Longrightarrow> after P (f x)) \<Longrightarrow> after P (ub_bind m f)"
  by (cases m) simp_all

lemma after_bind_after:
  assumes "after P m" "\<And>a b. P b \<Longrightarrow> after Q (f (a, b))"
  shows "after Q (ub_bind m f)"
  using assms by (cases m) (auto simp: after_def)

subsection \<open>The interface\<close>

text \<open>\<open>I\<close> is the property, \<open>W k s\<close> says that source \<open>k\<close> was admitted and may be changed.\<close>

locale table_steps =
  fixes I :: "rtp_sources \<Rightarrow> bool"
    and W :: "u32 \<Rightarrow> rtp_sources \<Rightarrow> bool"
    and sender :: "rtp_address option"
  assumes callback_I: "I s \<Longrightarrow> I (callback e s)"
    and callback_W: "W k s \<Longrightarrow> W k (callback e s)"
    and search_I: "I s \<Longrightarrow> ObtainSourceDataInstance k s = (is_new, s1) \<Longrightarrow> I s1"
    and search_W: "I s \<Longrightarrow> ObtainSourceDataInstance k s = (True, s1) \<Longrightarrow> W k s1"
    and check_I: "I s \<Longrightarrow> find_source k s = Some d \<Longrightarrow> CheckCollision k sender isrtp s = (collision, s1) \<Longrightarrow> I s1"
    and check_W: "I s \<Longrightarrow> find_source k s = Some d \<Longrightarrow> CheckCollision k sender isrtp s = (False, s1) \<Longrightarrow> W k s1"
    and modify_I: "I s \<Longrightarrow> W k s \<Longrightarrow> legal (the_source k s) d ds da \<Longrightarrow> I (modify k d ds da s)"
    and modify_W: "I s \<Longrightarrow> W k s \<Longrightarrow> legal (the_source k s) d ds da \<Longrightarrow> W k (modify k d ds da s)"
begin

lemma put_I: "I s \<Longrightarrow> W k s \<Longrightarrow> legal (the_source k s) d 0 0 \<Longrightarrow> I (put_source k d s)"
  unfolding put_modify by (rule modify_I)

lemma put_W: "I s \<Longrightarrow> W k s \<Longrightarrow> legal (the_source k s) d 0 0 \<Longrightarrow> W k (put_source k d s)"
  unfolding put_modify by (rule modify_W)

lemma new_callback_I: "I s \<Longrightarrow> I (new_source_callback is_new k s)"
  by (simp add: new_source_callback_def callback_I)

lemma found:
  assumes "ObtainSourceDataInstance k s = (False, s1)"
  shows "\<exists>d. find_source k s1 = Some d"
  using assms by (auto simp: ObtainSourceDataInstance_def find_source_def split: option.splits)

lemma rtcp_source_I:
  assumes "I s" "GetRTCPSourceData k sender s = (r, s1)"
  shows "I s1" "r \<noteq> None \<Longrightarrow> W k s1"
proof -
  obtain is_new s2 where o: "ObtainSourceDataInstance k s = (is_new, s2)" by fastforce
  have I2: "I s2" by (rule search_I [OF assms(1) o])
  have "I s1 \<and> (r \<noteq> None \<longrightarrow> W k s1)"
  proof (cases is_new)
    case True
    then have "W k s2" using search_W assms(1) o by simp
    then show ?thesis using assms(2) o True put_I [OF I2] put_W [OF I2] by (auto simp: GetRTCPSourceData_def)
  next
    case False
    then obtain d where d: "find_source k s2 = Some d" using found [of k s s2] o by auto
    obtain c s3 where "CheckCollision k sender False s2 = (c, s3)" by fastforce
    then show ?thesis
      using assms(2) o False check_I [OF I2 d] check_W [OF I2 d] by (auto simp: GetRTCPSourceData_def split: if_splits)
  qed
  then show "I s1" "r \<noteq> None \<Longrightarrow> W k s1" by auto
qed

lemma with_source_I:
  assumes "I s" "\<And>is_new s1. I s1 \<Longrightarrow> W k s1 \<Longrightarrow> I (snd (f is_new s1))"
  shows "I (snd (with_rtcp_source k sender f s))"
proof -
  obtain r s1 where "GetRTCPSourceData k sender s = (r, s1)" by fastforce
  then show ?thesis using rtcp_source_I [OF assms(1)] assms(2) by (auto simp: with_rtcp_source_def split: option.split)
qed

lemma sender_info_I: "I s \<Longrightarrow> I (snd (ProcessRTCPSenderInfo k sr sender s))"
  unfolding ProcessRTCPSenderInfo_def
  by (erule with_source_I) (simp add: Let_def callback_I new_callback_I put_I)

lemma report_block_I: "I s \<Longrightarrow> I (snd (ProcessRTCPReportBlock k rr sender s))"
  unfolding ProcessRTCPReportBlock_def
  by (erule with_source_I) (simp add: Let_def callback_I new_callback_I put_I)

lemma receive_time_I: "I s \<Longrightarrow> I (snd (UpdateReceiveTime k t sender s))"
  unfolding UpdateReceiveTime_def
  by (erule with_source_I) (simp add: new_callback_I put_I)

lemma private_item_I: "I s \<Longrightarrow> I (snd (ProcessSDESPrivateItem k pref val t sender s))"
  unfolding ProcessSDESPrivateItem_def
  by (erule with_source_I) (auto simp: Let_def split: prod.split intro!: callback_I new_callback_I put_I private_item_legal)

lemma optional_callback_I: "I s \<Longrightarrow> I (if c then callback e s else s)"
  by (simp add: callback_I)

lemma activated_I:
  assumes "I s" "W k s" "legal (the_source k s) d 0 (if c then 1 else 0)"
  shows "I (if c then (put_source k d s)\<lparr>activecount := activecount (put_source k d s) + 1\<rparr> else put_source k d s)"
  using modify_I [OF assms] by (cases c) (simp_all add: modify_def put_source_def)

lemma deactivated_I:
  assumes "I s" "W k s" "legal (the_source k s) d 0 (if c then - 1 else 0)"
  shows "I (if c then (put_source k d s)\<lparr>activecount := activecount (put_source k d s) - 1\<rparr> else put_source k d s)"
  using modify_I [OF assms] by (cases c) (simp_all add: modify_def put_source_def)

lemma normal_item_I:
  assumes "I s"
  shows "I (snd (ProcessSDESNormalItem k t item receivetime sender s))"
proof (cases "sdes_number t")
  case (Some n)
  show ?thesis
    unfolding ProcessSDESNormalItem_def Some option.case
    by (rule with_source_I [OF assms])
      (unfold Let_def case_prod_unfold snd_conv, intro optional_callback_I new_callback_I activated_I sdes_item_legal,
        auto simp: prod_eq_iff)
qed (simp add: ProcessSDESNormalItem_def assms)

lemma bye_I:
  assumes "I s"
  shows "I (snd (ProcessBYE k reason receivetime sender s))"
proof -
  have step: "I (snd (let prevactive = IsActive (main (the_source k s1));
           d = entry_ProcessBYEPacket reason receivetime (the_source k s1);
           s2 = put_source k d s1;
           s3 = (if prevactive \<and> \<not> IsActive (main d) then s2\<lparr>activecount := activecount s2 - 1\<rparr> else s2) in
         (0, callback (Ev_BYEPacket d) (new_source_callback is_new k s3))))"
    if "I s1" "W k s1" for s1 is_new
    using deactivated_I [OF that bye_legal] by (simp add: Let_def callback_I new_callback_I del: if_split)
  show ?thesis
    unfolding ProcessBYE_def by (rule with_source_I [OF assms], split if_split, intro conjI impI) (simp, rule step)
qed

lemma csrc_new: "ObtainSourceDataInstance k s = (True, s1) \<Longrightarrow> the_source k s1 = new_entry k (sources_probation s)"
  by (auto simp: ObtainSourceDataInstance_def split: option.splits)

lemma csrc_I:
  assumes "I s"
  shows "I (csrc_source sender k s)"
proof -
  obtain is_new s1 where o: "ObtainSourceDataInstance k s = (is_new, s1)" by fastforce
  have I1: "I s1" by (rule search_I [OF assms o])
  let ?d = "\<lambda>s. (the_source k s)\<lparr>main := SetCSRC (main (the_source k s))\<rparr>"
  show ?thesis
  proof (cases is_new)
    case True
    then have W1: "W k s1" and d: "\<not> IsActive (main (the_source k s1))"
      using search_W [OF assms] csrc_new o by (auto simp: new_entry_def new_source_def IsActive_def)
    have "legal (the_source k s1) (?d s1) 0 (if IsActive (main (?d s1)) then 1 else 0)"
      using csrc_legal [of "the_source k s1"] d by (auto simp: legal_def)
    from activated_I [OF I1 W1 this] show ?thesis
      using o True by (simp add: csrc_source_def Let_def new_callback_I del: if_split)
  next
    case False
    then obtain d where d: "find_source k s1 = Some d" using found [of k s s1] o by auto
    show ?thesis
    proof (cases "CheckCollision k sender True s1")
      case (Pair c s2)
      have "I s2" by (rule check_I [OF I1 d Pair])
      moreover have "I (put_source k (?d s2) s2)" if "\<not> c"
        using check_W [OF I1 d] Pair that \<open>I s2\<close> csrc_legal by (auto intro: put_I)
      ultimately show ?thesis using o False Pair by (simp add: csrc_source_def Let_def)
    qed
  qed
qed

lemma csrcs_I: "I s \<Longrightarrow> I (fold (csrc_source sender) ks s)"
  by (induction ks arbitrary: s) (simp_all add: csrc_I)

lemma rtp_changes_I:
  assumes "I s" "W k s" "ProcessRTPPacket pack t (main (the_source k s)) = (stored, src)"
  shows "I (count_changes (the_source k s) ((the_source k s)\<lparr>main := src\<rparr>) (put_source k ((the_source k s)\<lparr>main := src\<rparr>) s))"
proof -
  let ?d = "the_source k s"
  have "count_changes ?d (?d\<lparr>main := src\<rparr>) (put_source k (?d\<lparr>main := src\<rparr>) s) =
      modify k (?d\<lparr>main := src\<rparr>) (if \<not> issender (main ?d) \<and> issender src then 1 else 0)
        (if \<not> IsActive (main ?d) \<and> IsActive src then 1 else 0) s"
    by (simp add: count_changes_def modify_def put_source_def)
  then show ?thesis using modify_I [OF assms(1,2) rtp_packet_legal [OF assms(3)]] by simp
qed

lemma rtp_packet_I:
  assumes "I s" "sources_ProcessRTPPacket pack t sender s = Inr (stored, s')"
  shows "I s'"
proof -
  let ?k = "ssrc pack"
  obtain is_new s1 where o: "ObtainSourceDataInstance ?k (callback (Ev_RTPPacket sender) s) = (is_new, s1)" by fastforce
  have I0: "I (callback (Ev_RTPPacket sender) s)" by (rule callback_I [OF assms(1)])
  have I1: "I s1" by (rule search_I [OF I0 o])
  obtain c s2 where c: "(if is_new then (False, put_source ?k (SetRTPDataAddress sender (the_source ?k s1)) s1)
      else CheckCollision ?k sender True s1) = (c, s2)" by fastforce
  have "I s2 \<and> (\<not> c \<longrightarrow> W ?k s2)"
  proof (cases is_new)
    case True
    then have "W ?k s1" using search_W [OF I0] o by simp
    then show ?thesis using c True put_I [OF I1] put_W [OF I1] by auto
  next
    case False
    then obtain d where d: "find_source ?k s1 = Some d" using found [of ?k _ s1] o by auto
    then show ?thesis using c False check_I [OF I1 d] check_W [OF I1 d] by auto
  qed
  then have I2: "I s2" and W2: "\<not> c \<Longrightarrow> W ?k s2" by auto
  note run = assms(2) [unfolded sources_ProcessRTPPacket_def Let_def o prod.case c]
  show ?thesis
  proof (cases c)
    case True
    then show ?thesis using run I2 by simp
  next
    case False
    obtain st src where p: "ProcessRTPPacket pack t (main (the_source ?k s2)) = (st, src)" by fastforce
    have "I (new_source_callback is_new ?k (count_changes (the_source ?k s2) ((the_source ?k s2)\<lparr>main := src\<rparr>)
        (put_source ?k ((the_source ?k s2)\<lparr>main := src\<rparr>) s2)))"
      by (rule new_callback_I [OF rtp_changes_I [OF I2 W2 [OF False] p]])
    then show ?thesis using run False p csrcs_I by (auto simp: ub_bind_eq_Inr split: if_splits)
  qed
qed

lemma pair_I:
  "I s \<Longrightarrow> ProcessRTCPSenderInfo k sr sender s = (status, s1) \<Longrightarrow> I s1"
  "I s \<Longrightarrow> ProcessRTCPReportBlock k rr sender s = (status, s1) \<Longrightarrow> I s1"
  "I s \<Longrightarrow> UpdateReceiveTime k t sender s = (status, s1) \<Longrightarrow> I s1"
  "I s \<Longrightarrow> ProcessBYE k reason t sender s = (status, s1) \<Longrightarrow> I s1"
  using sender_info_I [of s k sr] report_block_I [of s k rr] receive_time_I [of s k t] bye_I [of s k reason t] by simp_all

lemma report_loop_I: "I s \<Longrightarrow> after (\<lambda>(got, s'). I s') (report_loop is own senderssrc p t sender got s)"
proof (induction "is" arbitrary: got s)
  case (Cons i r)
  show ?case unfolding report_loop.simps
  proof (rule after_bind)
    fix k assume "report_GetSSRC i p = Inr k"
    show "after (\<lambda>(got, s'). I s') (if k = own then
         ub_bind (receiver_report_of i t p) (\<lambda>rr. case ProcessRTCPReportBlock senderssrc rr sender s of (status, s1) \<Rightarrow>
           if status < 0 then Inr (status, True, s1) else report_loop r own senderssrc p t sender True s1)
       else report_loop r own senderssrc p t sender got s)"
      using Cons pair_I(2) [OF Cons.prems] by (auto intro!: after_bind split: prod.split)
  qed
qed simp

lemma reports_I: "I s \<Longrightarrow> after I (process_reports own senderssrc p t sender s)"
  unfolding process_reports_def
  by (rule after_bind_after [where P = "\<lambda>(got, s'). I s'"])
    (auto intro: after_bind report_loop_I receive_time_I split: option.split)

lemma sr_I: "I s \<Longrightarrow> after I (process_sr own p t sender s)"
  unfolding process_sr_def
  by (intro after_bind) (auto split: prod.split intro: reports_I pair_I(1))

lemma rr_I: "I s \<Longrightarrow> after I (process_rr own p t sender s)"
  unfolding process_rr_def by (intro after_bind reports_I)

lemma item_I: "I s \<Longrightarrow> after I (process_item k t sender p s)"
  unfolding process_item_def by (auto intro!: after_bind simp: normal_item_I private_item_I)

lemma item_loop_I: "I s \<Longrightarrow> after (\<lambda>(p', s'). I s') (sdes_item_loop k t a p s)" if "a = sender"
  using that
proof (induction k t a p s rule: sdes_item_loop.induct)
  case (1 k t a p s)
  show ?case
  proof (cases "process_item k t a p s")
    case (Inr r)
    obtain st s1 where r: "r = (st, s1)" by fastforce
    have I1: "I s1" using item_I [OF 1(2), of k t p] Inr r 1(3) by (simp add: after_def)
    show ?thesis
    proof (cases "GotoNextItem p")
      case next_item: (Inr g)
      obtain again p' where g: "g = (again, p')" by fastforce
      have "after (\<lambda>(p', s'). I s') (sdes_item_loop k t a p' s1)" if "\<not> st < 0" again
        by (rule 1(1) [OF Inr r [symmetric] that(1) next_item g [symmetric] that(2) I1 1(3)])
      then show ?thesis using Inr r next_item g I1 by (subst sdes_item_loop.simps) simp
    qed (use Inr r I1 in \<open>subst sdes_item_loop.simps, simp\<close>)
  qed (subst sdes_item_loop.simps, simp)
qed

lemma chunk_I: "I s \<Longrightarrow> after (\<lambda>(p', s'). I s') (process_chunk t sender p s)"
  unfolding process_chunk_def
  by (intro after_bind) (auto split: prod.split intro: item_loop_I pair_I(3))

lemma chunk_loop_I: "I s \<Longrightarrow> after I (sdes_chunk_loop t a p s)" if "a = sender"
  using that
proof (induction t a p s rule: sdes_chunk_loop.induct)
  case (1 t a p s)
  show ?case
  proof (cases "process_chunk t a p s")
    case (Inr r)
    obtain st p1 s1 where r: "r = (st, p1, s1)" by (cases r) auto
    have I1: "I s1" using chunk_I [OF 1(2), of t p] Inr r 1(3) by (simp add: after_def)
    show ?thesis
    proof (cases "GotoNextChunk p1")
      case next_chunk: (Inr g)
      obtain again p2 where g: "g = (again, p2)" by fastforce
      have "after I (sdes_chunk_loop t a p2 s1)" if "\<not> st < 0" again
        by (rule 1(1) [OF Inr r [symmetric] refl that(1) next_chunk g [symmetric] that(2) I1 1(3)])
      then show ?thesis using Inr r next_chunk g I1 by (subst sdes_chunk_loop.simps) simp
    qed (use Inr r I1 in \<open>subst sdes_chunk_loop.simps, simp\<close>)
  qed (subst sdes_chunk_loop.simps, simp)
qed

lemma bye_loop_I: "I s \<Longrightarrow> after I (bye_loop is p t sender s)"
proof (induction "is" arbitrary: s)
  case (Cons i r)
  show ?case unfolding bye_loop.simps
    using Cons.IH pair_I(4) [OF Cons.prems] by (intro after_bind) (auto split: prod.split)
qed simp

lemma process_rtcp_I: "I s \<Longrightarrow> after I (process_rtcp own t sender p s)"
  unfolding process_rtcp_def process_sdes_def process_bye_def
  by (auto split: rtcp_type.split prod.split intro!: after_bind sr_I rr_I chunk_loop_I bye_loop_I callback_I)

lemma rtcp_loop_I: "I s \<Longrightarrow> after I (rtcp_loop own t sender ps s)"
proof (induction ps arbitrary: s)
  case (Cons p ps)
  show ?case unfolding rtcp_loop.simps
    by (rule after_bind_after [OF process_rtcp_I [OF Cons.prems]]) (auto intro: Cons.IH)
qed simp

lemma compound_I: "I s \<Longrightarrow> after I (ProcessRTCPCompoundPacket ps t sender s)"
  by (simp add: ProcessRTCPCompoundPacket_def rtcp_loop_I callback_I)

theorem raw_packet_I:
  assumes "I s" "sender = (if own then None else senderaddress)"
  shows "after I (ProcessRawPacket rawpack t senderaddress own acceptown s)"
proof (cases "raw_isrtp rawpack")
  case True
  have "after I (sources_ProcessRTPPacket p t sender s)" for p
    using rtp_packet_I [OF assms(1)] by (auto simp: after_def)
  then have "after I (ub_bind (sources_ProcessRTPPacket p t sender s) (\<lambda>(stored, s1). Inr (0 :: int, s1)))" for p
    by (rule after_bind_after) simp
  then show ?thesis
    unfolding ProcessRawPacket_def assms(2) [symmetric] if_P [OF True] using assms(1) by (intro after_bind) (simp split: if_split)
next
  case False
  have "after I (ub_bind (ProcessRTCPCompoundPacket ps t sender s) (\<lambda>(status, s1). Inr (if status < 0 then status else 0, s1)))" for ps
    by (rule after_bind_after [OF compound_I [OF assms(1)]]) simp
  then show ?thesis
    using False assms by (auto simp: ProcessRawPacket_def intro!: after_bind split: prod.split)
qed

end

end
