(* ===== verification/Rtp_Table_Invariant.thy ===== *)
theory Rtp_Table_Invariant
  imports Rtp_Table
begin

section \<open>The invariant of the table of sources\<close>

text \<open>
  The first interpretation of \<open>table_steps\<close>: identifiers are distinct, the counters of sources and senders
  are exact, the count of active sources is never too high, our own source is the only one marked as own, and
  every source keeps its queue sorted and its items within their bounds. Timeouts, our own source and the
  calls of the user keep it too, so it holds in every table that can be reached.
\<close>

definition table_ok :: "rtp_sources \<Rightarrow> bool" where
  "table_ok s \<longleftrightarrow> distinct (map fst (sourcelist s)) \<and> totalcount s = int (length (sourcelist s)) \<and>
     sendercount s = sources_with issender (sourcelist s) \<and> activecount s \<le> sources_with IsActive (sourcelist s) \<and>
     (\<forall>k d. find_source k s = Some d \<longrightarrow> entry_ok d \<and> ownssrc (main d) = (owndata s = Some k)) \<and>
     (\<forall>k. owndata s = Some k \<longrightarrow> find_source k s \<noteq> None)"

lemma table_callback [simp]: "table_ok (callback e s) = table_ok s"
  by (simp add: table_ok_def callback_def find_source_def)

lemma find_current [simp]: "find_source k (s\<lparr>currentsource := c\<rparr>) = find_source k s"
  by (simp add: find_source_def)

lemma in_table: "k \<in> fst ` set (sourcelist s) \<longleftrightarrow> find_source k s \<noteq> None"
  by (auto simp: find_source_def map_of_eq_None_iff)

lemma new_entry_ok: "entry_ok (new_entry k p)" "\<not> issender (main (new_entry k p))" "\<not> IsActive (main (new_entry k p))"
    "\<not> ownssrc (main (new_entry k p))"
  using reachable_inv [OF reach_new [of k p]] by (simp_all add: entry_ok_def new_entry_def new_source_def IsActive_def)

lemma table_modify:
  assumes "table_ok s" "find_source k s = Some d0" "legal d0 d ds da"
  shows "table_ok (modify k d ds da s)"
proof -
  have m: "map_of (sourcelist s) k = Some d0" using assms(2) by (simp add: find_source_def)
  have "k \<in> fst ` set (sourcelist s)" using in_table assms(2) by simp
  then have "totalcount s = int (length (AList.update k d (sourcelist s)))" using assms(1) by (simp add: table_ok_def length_update)
  moreover have "sendercount s + ds = sources_with issender (AList.update k d (sourcelist s))"
    "activecount s + da \<le> sources_with IsActive (AList.update k d (sourcelist s))"
    using assms(1,3) m by (simp_all add: table_ok_def sources_with_update legal_def)
  moreover have "\<forall>k' d'. find_source k' (modify k d ds da s) = Some d' \<longrightarrow> entry_ok d' \<and> ownssrc (main d') = (owndata s = Some k')"
    using assms by (auto simp: table_ok_def legal_def)
  ultimately show ?thesis using assms(1) by (auto simp: table_ok_def AList.distinct_update)
qed

lemma table_search:
  assumes "table_ok s" "ObtainSourceDataInstance k s = (is_new, s1)"
  shows "table_ok s1" "find_source k s1 \<noteq> None"
proof -
  have "table_ok s1 \<and> find_source k s1 \<noteq> None"
  proof (cases "find_source k s")
    case None
    then have k: "k \<notin> fst ` set (sourcelist s)" "map_of (sourcelist s) k = None" using in_table by (auto simp: find_source_def)
    let ?d = "new_entry k (sources_probation s)"
    have s1: "s1 = put_source k ?d (s\<lparr>currentsource := None, totalcount := totalcount s + 1\<rparr>)"
      using assms(2) None by (simp add: ObtainSourceDataInstance_def)
    have l: "sourcelist s1 = AList.update k ?d (sourcelist s)" "totalcount s1 = totalcount s + 1" "owndata s1 = owndata s"
        "sendercount s1 = sendercount s" "activecount s1 = activecount s"
      by (simp_all add: s1 put_source_def)
    have f: "find_source k' s1 = (if k' = k then Some ?d else find_source k' s)" for k'
      unfolding s1 find_put by (simp add: find_source_def)
    have "distinct (map fst (sourcelist s1))" using assms(1) by (simp add: l table_ok_def AList.distinct_update)
    then have "table_ok s1" using assms(1) None k new_entry_ok [of k "sources_probation s"]
      unfolding table_ok_def l f by (auto simp: length_update sources_with_update)
    then show ?thesis using f by simp
  next
    case (Some d)
    then have "s1 = s\<lparr>currentsource := Some k\<rparr>" using assms(2) by (simp add: ObtainSourceDataInstance_def)
    then show ?thesis using assms(1) Some by (simp add: table_ok_def)
  qed
  then show "table_ok s1" "find_source k s1 \<noteq> None" by auto
qed

lemma check_cases:
  assumes "CheckCollision k sender isrtp s = (collision, s1)"
  shows "s1 = s \<or> (\<exists>e. s1 = callback e s) \<or> (\<exists>d. s1 = put_source k d s \<and> legal (the_source k s) d 0 0)"
  using assms by (auto simp: CheckCollision_def Let_def split: if_splits option.splits)

lemma table_check:
  assumes "table_ok s" "find_source k s = Some d" "CheckCollision k sender isrtp s = (collision, s1)"
  shows "table_ok s1" "find_source k s1 \<noteq> None"
  using check_cases [OF assms(3)] table_modify [OF assms(1,2), of _ 0 0] assms(1,2)
  by (auto simp: put_modify the_source_def)

interpretation tab: table_steps table_ok "\<lambda>k s. find_source k s \<noteq> None" sender for sender
proof unfold_locales
  fix s k d ds da
  assume "table_ok s" "find_source k s \<noteq> None" "legal (the_source k s) d ds da"
  then show "table_ok (modify k d ds da s)" using table_modify [of s k "the_source k s"] by (auto simp: the_source_def)
next
  fix s k is_new s1
  assume "table_ok s" "ObtainSourceDataInstance k s = (is_new, s1)"
  then show "table_ok s1" by (rule table_search(1))
next
  fix s k s1
  assume "table_ok s" "ObtainSourceDataInstance k s = (True, s1)"
  then show "find_source k s1 \<noteq> None" by (rule table_search(2))
next
  fix s k d isrtp collision s1
  assume "table_ok s" "find_source k s = Some d" "CheckCollision k sender isrtp s = (collision, s1)"
  then show "table_ok s1" by (rule table_check(1))
next
  fix s k d isrtp s1
  assume "table_ok s" "find_source k s = Some d" "CheckCollision k sender isrtp s = (False, s1)"
  then show "find_source k s1 \<noteq> None" by (rule table_check(2))
qed simp_all

subsection \<open>Our own source\<close>

lemma table_own_new:
  assumes "table_ok s" "find_source k s = Some d" "owndata s = None"
    and "d1 = SetRTCPDataAddress None (SetRTPDataAddress None (d\<lparr>main := SetOwnSSRC (main d)\<rparr>))" "\<not> IsActive (main d)" "\<not> receivedbye (main d)"
  shows "table_ok ((put_source k d1 s)\<lparr>owndata := Some k, activecount := activecount s + 1\<rparr>)"
proof -
  let ?s = "(put_source k d1 s)\<lparr>owndata := Some k, activecount := activecount s + 1\<rparr>"
  have l: "sourcelist ?s = AList.update k d1 (sourcelist s)" "totalcount ?s = totalcount s" "owndata ?s = Some k"
      "sendercount ?s = sendercount s" "activecount ?s = activecount s + 1"
    by (simp_all add: put_source_def)
  have m: "map_of (sourcelist s) k = Some d" using assms(2) by (simp add: find_source_def)
  have k: "k \<in> fst ` set (sourcelist s)" using in_table assms(2) by simp
  have f: "find_source k' ?s = (if k' = k then Some d1 else find_source k' s)" for k'
    using find_put [of k' k d1 s] by (simp add: find_source_def put_source_def)
  have d1: "entry_ok d \<Longrightarrow> entry_ok d1" "issender (main d1) = issender (main d)" "IsActive (main d1)" "ownssrc (main d1)"
    using assms(4,6) by (auto simp: entry_ok_def SetRTCPDataAddress_def SetRTPDataAddress_def SetOwnSSRC_def IsActive_def source_inv_def)
  have "distinct (map fst (AList.update k d1 (sourcelist s)))" using assms(1) by (simp add: table_ok_def AList.distinct_update)
  then show ?thesis
    using assms(1,2,3,5) m k d1 unfolding table_ok_def l f by (auto simp: length_update sources_with_update)
qed

lemma table_CreateOwnSSRC:
  assumes "table_ok s"
  shows "table_ok (snd (CreateOwnSSRC k s))"
proof (cases "owndata s \<noteq> None \<or> GotEntry k s")
  case True
  then show ?thesis using assms by (auto simp: CreateOwnSSRC_def)
next
  case False
  obtain is_new s1 where o: "ObtainSourceDataInstance k s = (is_new, s1)" by fastforce
  then have n: "is_new" "the_source k s1 = new_entry k (sources_probation s)" "owndata s1 = None"
    using False by (auto simp: ObtainSourceDataInstance_def GotEntry_def put_source_def the_source_def find_source_def AList.update_conv')
  obtain d where d: "find_source k s1 = Some d" using table_search(2) [OF assms o] by auto
  then have d': "the_source k s1 = d" by (simp add: the_source_def)
  show ?thesis
    using table_own_new [OF table_search(1) [OF assms o] d n(3) refl] n new_entry_ok False o d'
    by (auto simp: CreateOwnSSRC_def Let_def new_entry_def new_source_def)
qed

lemma find_delete: "find_source k' (delete_source k s) = (if k' = k then None else find_source k' s)"
  by (simp add: find_source_def delete_source_def AList.delete_conv')

lemma table_DeleteOwnSSRC:
  assumes "table_ok s"
  shows "table_ok (snd (DeleteOwnSSRC s))"
proof (cases "owndata s")
  case (Some k)
  then obtain d where d: "find_source k s = Some d" using assms by (auto simp: table_ok_def)
  let ?s = "snd (DeleteOwnSSRC s)"
  have l: "sourcelist ?s = AList.delete k (sourcelist s)" "totalcount ?s = totalcount s - 1" "owndata ?s = None"
      "sendercount ?s = sendercount s - of_bool (issender (main d))" "activecount ?s = activecount s - of_bool (IsActive (main d))"
    using Some d by (simp_all add: DeleteOwnSSRC_def Let_def callback_def delete_source_def the_source_def)
  have f: "find_source k' ?s = (if k' = k then None else find_source k' s)" for k'
    using find_delete [of k' k s] unfolding find_source_def l by (simp add: delete_source_def)
  have m: "map_of (sourcelist s) k = Some d" using d by (simp add: find_source_def)
  have dist: "distinct (map fst (sourcelist s))" using assms by (simp add: table_ok_def)
  have "distinct (map fst (AList.delete k (sourcelist s)))" by (rule AList.distinct_delete [OF dist])
  then show ?thesis
    using assms Some unfolding table_ok_def l f
    by (auto simp: sources_with_delete [OF dist m] length_delete [OF dist m])
qed (simp add: DeleteOwnSSRC_def assms)

lemma table_SentRTPPacket:
  assumes "table_ok s"
  shows "table_ok (SentRTPPacket now s)"
proof (cases "owndata s")
  case (Some k)
  then obtain d where d: "find_source k s = Some d" using assms by (auto simp: table_ok_def)
  let ?d = "entry_SentRTPPacket now d"
  have "legal d ?d (of_bool (issender (main ?d)) - of_bool (issender (main d))) 0"
    by (auto simp: legal_def entry_SentRTPPacket_def IsActive_def entry_ok_def source_inv_def)
  moreover have "SentRTPPacket now s = modify k ?d (of_bool (issender (main ?d)) - of_bool (issender (main d))) 0 s"
    using Some d by (auto simp: SentRTPPacket_def Let_def the_source_def modify_def put_source_def entry_SentRTPPacket_def)
  ultimately show ?thesis using table_modify [OF assms d] by simp
qed (simp add: SentRTPPacket_def assms)

subsection \<open>Timeouts\<close>

text \<open>What a timeout loop makes of the list \<open>l0\<close>: sources go or change, and the counters are those of the rest.\<close>

definition origin_ok :: "(u32 \<times> source_entry) list \<Rightarrow> u32 \<times> source_entry \<Rightarrow> bool" where
  "origin_ok l0 e \<longleftrightarrow> (\<exists>d0. (fst e, d0) \<in> set l0 \<and> (entry_ok d0 \<longrightarrow> entry_ok (snd e)) \<and> ownssrc (main (snd e)) = ownssrc (main d0))"

definition timeout_ok :: "u32 option \<Rightarrow> (u32 \<times> source_entry) list \<Rightarrow> timeout_result \<Rightarrow> bool" where
  "timeout_ok own l0 r \<longleftrightarrow> (case r of (l, c, evs) \<Rightarrow>
     c = (int (length l), sources_with issender l, sources_with IsActive l) \<and>
     (distinct (map fst l0) \<longrightarrow> distinct (map fst l)) \<and> (\<forall>e \<in> set l. origin_ok l0 e) \<and>
     (\<forall>k. own = Some k \<and> k \<in> fst ` set l0 \<longrightarrow> k \<in> fst ` set l))"

lemma timeout_nil: "timeout_ok own [] ([], (0, 0, 0), [])"
  by (simp add: timeout_ok_def)

lemma origin_mono: "origin_ok l e \<Longrightarrow> origin_ok (x # l) e"
  by (auto simp: origin_ok_def)

lemma origin_key: "origin_ok l0 e \<Longrightarrow> fst e \<in> fst ` set l0"
  unfolding origin_ok_def by (metis fst_conv image_eqI)

lemma timeout_keep:
  assumes "timeout_ok own l0 r" "entry_ok d0 \<Longrightarrow> entry_ok d" "ownssrc (main d) = ownssrc (main d0)"
    and "sender = issender (main d)" "active = IsActive (main d)"
  shows "timeout_ok own ((k, d0) # l0) (keep k d sender active ev r)"
proof -
  obtain l c evs where r: "r = (l, c, evs)" by (cases r) auto
  note ok = assms(1) [unfolded timeout_ok_def r prod.case]
  have "fst ` set l \<subseteq> fst ` set l0" using ok origin_key by blast
  moreover have "origin_ok ((k, d0) # l0) (k, d)" using assms(2,3) by (auto simp: origin_ok_def)
  ultimately show ?thesis
    using ok assms(4,5) unfolding r keep_def timeout_ok_def prod.case count_in_def
    by (auto intro: origin_mono)
qed

lemma timeout_remove:
  assumes "timeout_ok own l0 r" "own \<noteq> Some k"
  shows "timeout_ok own ((k, d) # l0) (remove_source ev r)"
proof -
  obtain l c evs where r: "r = (l, c, evs)" by (cases r) auto
  show ?thesis
    using assms unfolding r remove_source_def timeout_ok_def prod.case by (auto intro: origin_mono)
qed

lemma clear_flag_entry: "entry_ok d \<Longrightarrow> entry_ok (d\<lparr>main := ClearSenderFlag (main d)\<rparr>)"
  by (auto simp: entry_ok_def ClearSenderFlag_def source_inv_def)

lemma clear_note_main: "main (ClearNote d) = main d"
  unfolding ClearNote_def by (rule SetNonPrivateItem_facts(1) [OF surjective_pairing])

lemma clear_note_entry: "entry_ok d \<Longrightarrow> entry_ok (ClearNote d)"
  unfolding ClearNote_def by (rule SetNonPrivateItem_facts(2) [OF surjective_pairing])

lemma clear_both_entry: "entry_ok d \<Longrightarrow> entry_ok ((ClearNote d)\<lparr>main := ClearSenderFlag (main d)\<rparr>)"
  using clear_flag_entry [OF clear_note_entry [of d]] by (simp add: clear_note_main)

lemma timeout_origin:
  "timeout_ok own l0 (l, c, evs) \<Longrightarrow> (k, d) \<in> set l \<Longrightarrow>
   \<exists>d0. (k, d0) \<in> set l0 \<and> (entry_ok d0 \<longrightarrow> entry_ok d) \<and> ownssrc (main d) = ownssrc (main d0)"
proof -
  assume "timeout_ok own l0 (l, c, evs)" "(k, d) \<in> set l"
  then have "origin_ok l0 (k, d)" unfolding timeout_ok_def by simp
  then show ?thesis by (simp add: origin_ok_def)
qed

lemma clear_flag_simps:
  "ownssrc (ClearSenderFlag src) = ownssrc src" "\<not> issender (ClearSenderFlag src)" "IsActive (ClearSenderFlag src) = IsActive src"
  "receivedbye (ClearSenderFlag src) = receivedbye src" "stats (ClearSenderFlag src) = stats src"
  by (simp_all add: ClearSenderFlag_def IsActive_def)

lemmas timeout_flags = clear_flag_simps clear_note_main

lemma loops_ok:
  "timeout_ok own l (timeout_loop own t l)" "timeout_ok own l (sender_timeout_loop t l)"
  "timeout_ok own l (bye_timeout_loop own t l)" "timeout_ok own l (note_timeout_loop t l)"
proof -
  show "timeout_ok own l (timeout_loop own t l)"
    by (induction l rule: timeout_loop.induct) (simp_all add: timeout_nil timeout_keep timeout_remove)
  show "timeout_ok own l (sender_timeout_loop t l)"
    by (induction l rule: sender_timeout_loop.induct) (simp_all add: timeout_nil timeout_keep clear_flag_entry timeout_flags)
  show "timeout_ok own l (bye_timeout_loop own t l)"
    by (induction l rule: bye_timeout_loop.induct) (simp_all add: timeout_nil timeout_keep timeout_remove)
  show "timeout_ok own l (note_timeout_loop t l)"
    by (induction l rule: note_timeout_loop.induct) (simp_all add: timeout_nil timeout_keep clear_note_entry timeout_flags)
qed

lemma multiple_loop_ok: "timeout_ok own l (multiple_timeouts_loop own st bt gt nt l)"
  by (induction l rule: multiple_timeouts_loop.induct)
    (auto simp: timeout_nil timeout_keep timeout_remove clear_both_entry clear_flag_entry clear_note_entry timeout_flags Let_def)

text \<open>Every timeout ends with exact counters.\<close>

definition exact :: "rtp_sources \<Rightarrow> bool" where
  "exact s \<longleftrightarrow> activecount s = sources_with IsActive (sourcelist s)"

lemma finish_timeout_ok:
  assumes "table_ok s" "timeout_ok (owndata s) (sourcelist s) r"
  shows "table_ok (finish_timeout r s)" "exact (finish_timeout r s)"
proof -
  obtain l c evs where r: "r = (l, c, evs)" by (cases r) auto
  let ?s = "finish_timeout r s"
  have dist: "distinct (map fst l)" "distinct (map fst (sourcelist s))" using assms r by (auto simp: timeout_ok_def table_ok_def)
  have "entry_ok d \<and> ownssrc (main d) = (owndata s = Some k)" if m: "map_of l k = Some d" for k d
  proof -
    obtain d0 where "(k, d0) \<in> set (sourcelist s)" "entry_ok d0 \<longrightarrow> entry_ok d" "ownssrc (main d) = ownssrc (main d0)"
      using timeout_origin [of _ _ l c evs k d] assms(2) r map_of_SomeD [OF m] by blast
    then show ?thesis using assms(1) dist(2) by (auto simp: table_ok_def find_source_def)
  qed
  moreover have "k \<in> fst ` set l" if "owndata s = Some k" for k
    using assms that in_table [of k s] r by (auto simp: timeout_ok_def table_ok_def)
  ultimately show "table_ok ?s"
    using assms(2) dist(1) by (auto simp: table_ok_def finish_timeout_def timeout_ok_def r find_source_def map_of_eq_None_iff
        simp flip: not_None_eq)
  show "exact ?s" using assms(2) by (simp add: exact_def finish_timeout_def timeout_ok_def r split: prod.split)
qed

lemma timeouts_ok:
  assumes "table_ok s"
  shows "table_ok (sources_Timeout t s)" "table_ok (SenderTimeout t s)" "table_ok (BYETimeout t s)" "table_ok (NoteTimeout t s)"
    "table_ok (MultipleTimeouts st bt gt nt s)"
  unfolding sources_Timeout_def SenderTimeout_def BYETimeout_def NoteTimeout_def MultipleTimeouts_def
  by (rule finish_timeout_ok(1) [OF assms]; rule loops_ok multiple_loop_ok)+

lemma timeouts_exact:
  assumes "table_ok s"
  shows "exact (sources_Timeout t s)" "exact (SenderTimeout t s)" "exact (BYETimeout t s)" "exact (NoteTimeout t s)"
    "exact (MultipleTimeouts st bt gt nt s)"
  unfolding sources_Timeout_def SenderTimeout_def BYETimeout_def NoteTimeout_def MultipleTimeouts_def
  by (rule finish_timeout_ok(2) [OF assms]; rule loops_ok multiple_loop_ok)+

text \<open>Doing the four timeouts at once is the same as doing them one after the other.\<close>

lemma keep_list [simp]: "fst (keep k d sender active ev r) = (k, d) # fst r"
  by (simp add: keep_def split: prod.split)

lemma remove_list [simp]: "fst (remove_source ev r) = fst r"
  by (simp add: remove_source_def split: prod.split)

lemma clear_note_fields: "byetime (ClearNote d) = byetime d"
  by (simp add: ClearNote_def SetNonPrivateItem_def)

lemma multiple_list:
  "fst (multiple_timeouts_loop own st bt gt nt l) =
     fst (sender_timeout_loop st (fst (timeout_loop own gt (fst (bye_timeout_loop own bt (fst (note_timeout_loop nt l)))))))"
  by (induction l rule: multiple_timeouts_loop.induct) (auto simp: Let_def clear_note_main clear_note_fields)

lemma finish_list: "sourcelist (finish_timeout r s) = fst r" "owndata (finish_timeout r s) = owndata s"
  by (simp_all add: finish_timeout_def split: prod.split)

lemma exact_counters:
  assumes "table_ok s" "table_ok s'" "exact s" "exact s'" "sourcelist s = sourcelist s'"
  shows "totalcount s = totalcount s'" "sendercount s = sendercount s'" "activecount s = activecount s'"
  using assms by (simp_all add: table_ok_def exact_def)

subsection \<open>Reachable tables\<close>

lemma table_current [simp]: "table_ok (s\<lparr>currentsource := c\<rparr>) = table_ok s"
  by (simp add: table_ok_def)

lemma table_goto:
  "table_ok (snd (GotoFirstSource s)) = table_ok s" "GotoNextSource s = Inr (b, s') \<Longrightarrow> table_ok s' = table_ok s"
  "table_ok (snd (GotoFirstSourceWithData s)) = table_ok s" "GotoNextSourceWithData s = Inr (b, s') \<Longrightarrow> table_ok s' = table_ok s"
  "table_ok (snd (GetSourceInfo k s)) = table_ok s" "GotoPreviousSource s = Inr (b, s') \<Longrightarrow> table_ok s' = table_ok s"
  "GotoPreviousSourceWithData s = Inr (b, s') \<Longrightarrow> table_ok s' = table_ok s"
  by (auto simp: GotoFirstSource_def GotoNextSource_def GotoFirstSourceWithData_def GotoNextSourceWithData_def
      GotoPreviousSource_def GotoPreviousSourceWithData_def GetSourceInfo_def Let_def ub_bind_eq_Inr split: list.split option.split)

lemma table_GetNextPacket:
  assumes "table_ok s" "sources_GetNextPacket s = Inr (p, s')"
  shows "table_ok s'"
proof (cases "currentsource s")
  case (Some k)
  then obtain d where d: "find_source k s = Some d" using assms(2)
    by (auto simp: sources_GetNextPacket_def current_entry_def split: option.splits)
  obtain q src where q: "GetNextPacket (main d) = (q, src)" by fastforce
  have "s' = modify k (d\<lparr>main := src\<rparr>) 0 0 s"
    using assms(2) Some d q by (simp add: sources_GetNextPacket_def current_entry_def put_modify)
  moreover have "legal d (d\<lparr>main := src\<rparr>) 0 0"
    using GetNextPacket_inv [of "main d"] q
    by (auto simp: legal_def entry_ok_def GetNextPacket_def IsActive_def split: if_splits list.splits)
  ultimately show ?thesis using table_modify [OF assms(1) d] by simp
qed (use assms in \<open>simp add: sources_GetNextPacket_def current_entry_def\<close>)

inductive table_reach :: "rtp_sources \<Rightarrow> bool" where
  table_new: "table_reach (new_sources probtype)"
| table_create_own: "table_reach s \<Longrightarrow> table_reach (snd (CreateOwnSSRC k s))"
| table_delete_own: "table_reach s \<Longrightarrow> table_reach (snd (DeleteOwnSSRC s))"
| table_sent: "table_reach s \<Longrightarrow> table_reach (SentRTPPacket now s)"
| table_packet: "table_reach s \<Longrightarrow> ProcessRawPacket rawpack t senderaddress own acceptown s = Inr (status, s') \<Longrightarrow> table_reach s'"
| table_timeout: "table_reach s \<Longrightarrow> table_reach (sources_Timeout t s)"
| table_sender_timeout: "table_reach s \<Longrightarrow> table_reach (SenderTimeout t s)"
| table_bye_timeout: "table_reach s \<Longrightarrow> table_reach (BYETimeout t s)"
| table_note_timeout: "table_reach s \<Longrightarrow> table_reach (NoteTimeout t s)"
| table_multiple_timeouts: "table_reach s \<Longrightarrow> table_reach (MultipleTimeouts st bt gt nt s)"
| table_first: "table_reach s \<Longrightarrow> table_reach (snd (GotoFirstSource s))"
| table_next: "table_reach s \<Longrightarrow> GotoNextSource s = Inr (b, s') \<Longrightarrow> table_reach s'"
| table_first_data: "table_reach s \<Longrightarrow> table_reach (snd (GotoFirstSourceWithData s))"
| table_next_data: "table_reach s \<Longrightarrow> GotoNextSourceWithData s = Inr (b, s') \<Longrightarrow> table_reach s'"
| table_previous: "table_reach s \<Longrightarrow> GotoPreviousSource s = Inr (b, s') \<Longrightarrow> table_reach s'"
| table_previous_data: "table_reach s \<Longrightarrow> GotoPreviousSourceWithData s = Inr (b, s') \<Longrightarrow> table_reach s'"
| table_info: "table_reach s \<Longrightarrow> table_reach (snd (GetSourceInfo k s))"
| table_next_packet: "table_reach s \<Longrightarrow> sources_GetNextPacket s = Inr (p, s') \<Longrightarrow> table_reach s'"
| table_clear: "table_reach s \<Longrightarrow> table_reach (ClearSourceList s)"

lemma reach_table_ok: "table_reach s \<Longrightarrow> table_ok s"
proof (induction rule: table_reach.induct)
  case (table_new probtype)
  then show ?case by (simp add: table_ok_def new_sources_def find_source_def)
next
  case (table_packet s rawpack t senderaddress own acceptown status s')
  then show ?case using tab.raw_packet_I [OF table_packet.IH refl] by (auto simp: after_def)
next
  case (table_next_packet s p s')
  then show ?case using table_GetNextPacket by blast
next
  case (table_clear s)
  then show ?case by (simp add: table_ok_def ClearSourceList_def find_source_def)
qed (simp_all add: table_CreateOwnSSRC table_DeleteOwnSSRC table_SentRTPPacket timeouts_ok table_goto)

subsection \<open>The current source\<close>

text \<open>The element the table stands at, if any, is in it: the pointer never dangles.\<close>

definition current_ok :: "rtp_sources \<Rightarrow> bool" where
  "current_ok s \<longleftrightarrow> (\<forall>k. currentsource s = Some k \<longrightarrow> find_source k s \<noteq> None)"

lemma current_callback [simp]: "current_ok (callback e s) = current_ok s"
  by (simp add: current_ok_def callback_def find_source_def)

lemma callback_current [simp]: "currentsource (callback e s) = currentsource s"
  by (simp add: callback_def)

lemma current_put [simp]: "currentsource (put_source k d s) = currentsource s"
  by (simp add: put_source_def)

lemma put_current_ok [simp]: "current_ok s \<Longrightarrow> current_ok (put_source k d s)"
  by (simp add: current_ok_def)

lemma modify_current [simp]: "currentsource (modify k d ds da s) = currentsource s"
  by (simp add: modify_def put_source_def)

lemma current_search:
  assumes "current_ok s" "ObtainSourceDataInstance k s = (is_new, s1)"
  shows "current_ok s1" "find_source k s1 \<noteq> None"
  using assms by (auto simp: ObtainSourceDataInstance_def current_ok_def split: option.splits)

interpretation cur: table_steps current_ok "\<lambda>k s. find_source k s \<noteq> None" sender for sender
proof unfold_locales
  fix s k is_new s1
  assume "current_ok s" "ObtainSourceDataInstance k s = (is_new, s1)"
  then show "current_ok s1" by (rule current_search(1))
next
  fix s k s1
  assume "current_ok s" "ObtainSourceDataInstance k s = (True, s1)"
  then show "find_source k s1 \<noteq> None" by (rule current_search(2))
next
  fix s k d isrtp collision s1
  assume "current_ok s" "find_source k s = Some d" "CheckCollision k sender isrtp s = (collision, s1)"
  then show "current_ok s1" using check_cases by fastforce
next
  fix s k d isrtp s1
  assume "current_ok s" "find_source k s = Some d" "CheckCollision k sender isrtp s = (False, s1)"
  then show "find_source k s1 \<noteq> None" using check_cases by fastforce
qed (simp_all add: current_ok_def callback_current)

lemma set_tl_dropWhile: "set (tl (dropWhile P l)) \<subseteq> set l"
  by (induction l) (auto split: if_splits)

lemma after_key: "tl (dropWhile (\<lambda>e. fst e \<noteq> k) l) = e # r \<Longrightarrow> e \<in> set l \<and> (distinct (map fst l) \<longrightarrow> fst e \<noteq> k)"
proof (induction l)
  case (Cons x l)
  show ?case
  proof (cases "fst x = k")
    case True
    then have "l = e # r" using Cons.prems by simp
    then show ?thesis using True by auto
  next
    case False
    then show ?thesis using Cons by simp
  qed
qed simp

lemma next_key_found:
  assumes "next_key k s = Some k'"
  shows "find_source k' s \<noteq> None" "distinct (map fst (sourcelist s)) \<Longrightarrow> k' \<noteq> k"
proof -
  obtain e r where e: "tl (dropWhile (\<lambda>e. fst e \<noteq> k) (sourcelist s)) = e # r" "fst e = k'"
    using assms by (auto simp: next_key_def split: list.splits)
  have "k' \<in> fst ` set (sourcelist s)" using after_key [OF e(1)] e(2) by auto
  then show "find_source k' s \<noteq> None" using in_table by simp
  show "distinct (map fst (sourcelist s)) \<Longrightarrow> k' \<noteq> k" using after_key [OF e(1)] e(2) by simp
qed

lemma first_with_data_found:
  assumes "first_with_data l = Some k" "set l \<subseteq> set (sourcelist s)"
  shows "find_source k s \<noteq> None"
proof -
  obtain e r where e: "dropWhile (\<lambda>e. \<not> HasData (main (snd e))) l = e # r" "fst e = k"
    using assms(1) by (auto simp: first_with_data_def split: list.splits)
  have "e \<in> set (dropWhile (\<lambda>e. \<not> HasData (main (snd e))) l)" using e(1) by simp
  then have "e \<in> set (sourcelist s)" using assms(2) set_dropWhileD by fast
  then show ?thesis using e(2) in_table by blast
qed

lemma current_goto:
  "current_ok (snd (GotoFirstSource s))" "GotoNextSource s = Inr (b, s') \<Longrightarrow> current_ok s'"
  "current_ok (snd (GotoFirstSourceWithData s))" "GotoNextSourceWithData s = Inr (b, s') \<Longrightarrow> current_ok s'"
  "current_ok (snd (GetSourceInfo k s))" "GotoPreviousSource s = Inr (b, s') \<Longrightarrow> current_ok s'"
  "GotoPreviousSourceWithData s = Inr (b, s') \<Longrightarrow> current_ok s'"
proof -
  have before: "set (elements_before k s) \<subseteq> set (sourcelist s)" for k
    by (auto simp: elements_before_def dest: set_takeWhileD)
  have near: "find_source (fst e) s \<noteq> None" if "elements_before k s = e # r" for k e r
  proof -
    have "e \<in> set (elements_before k s)" using that by simp
    then have "fst e \<in> fst ` set (sourcelist s)" using before [of k] by blast
    then show ?thesis using in_table by simp
  qed
  show "GotoPreviousSource s = Inr (b, s') \<Longrightarrow> current_ok s'"
    using near by (auto simp: GotoPreviousSource_def ub_bind_eq_Inr Let_def current_ok_def split: if_splits list.splits)
  show "GotoPreviousSourceWithData s = Inr (b, s') \<Longrightarrow> current_ok s'"
    using first_with_data_found [OF _ before] by (auto simp: GotoPreviousSourceWithData_def ub_bind_eq_Inr Let_def current_ok_def split: if_splits)
  show "current_ok (snd (GotoFirstSource s))"
    by (auto simp: GotoFirstSource_def current_ok_def find_source_def split: list.splits)
  show "GotoNextSource s = Inr (b, s') \<Longrightarrow> current_ok s'"
    using next_key_found(1) by (auto simp: GotoNextSource_def ub_bind_eq_Inr Let_def current_ok_def split: if_splits)
  show "current_ok (snd (GotoFirstSourceWithData s))"
    using first_with_data_found [of "sourcelist s" _ s] by (auto simp: GotoFirstSourceWithData_def Let_def current_ok_def)
  show "GotoNextSourceWithData s = Inr (b, s') \<Longrightarrow> current_ok s'"
    using first_with_data_found [OF _ set_tl_dropWhile] by (auto simp: GotoNextSourceWithData_def ub_bind_eq_Inr Let_def current_ok_def split: if_splits)
  show "current_ok (snd (GetSourceInfo k s))"
    by (auto simp: GetSourceInfo_def current_ok_def split: option.splits)
qed

lemma current_CreateOwnSSRC:
  assumes "current_ok s"
  shows "current_ok (snd (CreateOwnSSRC k s))"
proof -
  obtain is_new s1 where o: "ObtainSourceDataInstance k s = (is_new, s1)" by fastforce
  have "current_ok (t\<lparr>owndata := x, activecount := n\<rparr>) = current_ok t" for t x n by (simp add: current_ok_def find_source_def)
  then show ?thesis
    using assms current_search(1) [OF assms o] by (simp add: CreateOwnSSRC_def o Let_def)
qed

lemma current_DeleteOwnSSRC:
  assumes "current_ok s" "table_ok s"
  shows "current_ok (snd (DeleteOwnSSRC s))"
proof (cases "owndata s")
  case (Some k)
  let ?s = "snd (DeleteOwnSSRC s)"
  have l: "currentsource ?s = next_key k s" "find_source k' ?s = (if k' = k then None else find_source k' s)" for k'
    using Some find_delete [of k' k s]
    by (simp_all add: DeleteOwnSSRC_def Let_def callback_def delete_source_def find_source_def)
  then show ?thesis using next_key_found [of k s] assms(2) unfolding current_ok_def l table_ok_def by fastforce
qed (simp add: DeleteOwnSSRC_def assms)

lemma current_SentRTPPacket: "current_ok s \<Longrightarrow> current_ok (SentRTPPacket now s)"
proof -
  assume s: "current_ok s"
  have "current_ok (t\<lparr>sendercount := n\<rparr>) = current_ok t" for t n by (simp add: current_ok_def find_source_def)
  then show ?thesis using s by (simp add: SentRTPPacket_def Let_def split: option.split)
qed

lemma current_finish: "current_ok (finish_timeout r s)"
  by (simp add: finish_timeout_def current_ok_def split: prod.split)

lemma current_empty: "current_ok (ClearSourceList s)" "current_ok (new_sources probtype)"
  by (simp_all add: ClearSourceList_def new_sources_def current_ok_def)

lemma reach_current_ok: "table_reach s \<Longrightarrow> current_ok s"
proof (induction rule: table_reach.induct)
  case (table_packet s rawpack t senderaddress own acceptown status s')
  then show ?case using cur.raw_packet_I [OF table_packet.IH refl] by (auto simp: after_def)
next
  case (table_next_packet s p s')
  then show ?case by (auto simp: sources_GetNextPacket_def ub_bind_eq_Inr case_prod_unfold split: option.splits)
qed (simp_all add: current_CreateOwnSSRC current_DeleteOwnSSRC reach_table_ok current_SentRTPPacket current_finish current_goto
    sources_Timeout_def SenderTimeout_def BYETimeout_def NoteTimeout_def MultipleTimeouts_def current_empty)

lemma current_defined: "current_ok s \<Longrightarrow> \<exists>r. current_entry s = Inr r"
  by (auto simp: current_ok_def current_entry_def split: option.split)

subsection \<open>Properties\<close>

text \<open>A session with a source that has sent an empty receiver report.\<close>

definition sample_address :: rtp_address where "sample_address = RTPIPv4Address 1 10331"

definition sample_report :: raw_packet where
  "sample_report = \<lparr>raw_data = [0x80, 201, 0, 1, 0, 0, 0, 5], raw_length = 8, raw_isrtp = False\<rparr>"

definition sample_table :: rtp_sources where
  "sample_table =
     (case ProcessRawPacket sample_report 10 (Some sample_address) False False (snd (CreateOwnSSRC 7 (new_sources NoProbation))) of
        Inl e \<Rightarrow> new_sources NoProbation | Inr (status, s) \<Rightarrow> s)"

definition sample_source :: source_entry where "sample_source = the_source 5 sample_table"

lemma sample_table_reach: "table_reach sample_table"
proof -
  have "table_reach (snd (CreateOwnSSRC 7 (new_sources NoProbation)))" by (rule table_create_own [OF table_new])
  then show ?thesis
    unfolding sample_table_def by (auto simp: table_new split: sum.split intro: table_packet)
qed

lemma sample_found: "GotEntry 5 sample_table"
  by code_simp

text \<open>C34: In every table that can be reached from an empty one by packets, calls of the session and timeouts:
  every identifier has one source, the numbers of sources and of senders are exact and the number of active sources is
  never too high, exactly the session's own source is marked as its own, every source has its queue sorted, its seven
  items at most 255 bytes long and at most 256 private ones, and the current source, if any, is in the table.\<close>

theorem table_invariant:
  assumes "table_reach s"
  shows "distinct (map fst (sourcelist s)) \<and> totalcount s = int (length (sourcelist s)) \<and>
    sendercount s = sources_with issender (sourcelist s) \<and> activecount s \<le> sources_with IsActive (sourcelist s) \<and>
    (\<forall>k d. find_source k s = Some d \<longrightarrow> entry_ok d \<and> ownssrc (main d) = (owndata s = Some k)) \<and>
    (\<forall>k. owndata s = Some k \<longrightarrow> find_source k s \<noteq> None) \<and> (\<exists>r. GetCurrentSourceInfo s = Inr r)"
  using reach_table_ok [OF assms] current_defined [OF reach_current_ok [OF assms]]
  by (simp add: table_ok_def GetCurrentSourceInfo_def)

theorem table_invariant_witness:
  "totalcount sample_table = int (length (sourcelist sample_table)) \<and> GotEntry 5 sample_table \<and> entry_ok sample_source"
  using table_invariant [OF sample_table_reach] sample_found by (auto simp: sample_source_def the_source_def GotEntry_def)

text \<open>C35: \<open>MultipleTimeouts\<close> leaves the same sources and the same counters as the four timeouts one after the
  other: notes, goodbyes, silent sources, silent senders; and it makes the number of active sources exact, which
  it may not have been. The callbacks are not compared: a source that is deleted and whose note has expired
  too is reported with both by the sequence of timeouts, but not by \<open>MultipleTimeouts\<close>.\<close>

theorem MultipleTimeouts_sequence:
  assumes "table_reach s"
  shows "let s1 = MultipleTimeouts sendert byet generalt notet s;
             s2 = SenderTimeout sendert (sources_Timeout generalt (BYETimeout byet (NoteTimeout notet s))) in
    sourcelist s1 = sourcelist s2 \<and> totalcount s1 = totalcount s2 \<and> sendercount s1 = sendercount s2 \<and>
    activecount s1 = activecount s2 \<and> activecount s1 = sources_with IsActive (sourcelist s1)"
proof -
  let ?s1 = "MultipleTimeouts sendert byet generalt notet s"
  let ?s2 = "SenderTimeout sendert (sources_Timeout generalt (BYETimeout byet (NoteTimeout notet s)))"
  have ok: "table_ok s" by (rule reach_table_ok [OF assms])
  note steps = timeouts_ok(1-4)
  have ok1: "table_ok ?s1" "exact ?s1" by (rule timeouts_ok(5) timeouts_exact(5); rule ok)+
  have ok2: "table_ok ?s2" "exact ?s2"
    by (rule timeouts_ok(2) timeouts_exact(2); rule timeouts_ok(1); rule timeouts_ok(3); rule timeouts_ok(4); rule ok)+
  have l: "sourcelist ?s1 = sourcelist ?s2"
    by (simp add: MultipleTimeouts_def SenderTimeout_def sources_Timeout_def BYETimeout_def NoteTimeout_def finish_list multiple_list)
  show ?thesis using l exact_counters [OF ok1(1) ok2(1) ok1(2) ok2(2) l] ok1(2) by (simp add: Let_def exact_def)
qed

theorem MultipleTimeouts_sequence_witness:
  "let s1 = MultipleTimeouts 20 20 11 20 sample_table;
       s2 = SenderTimeout 20 (sources_Timeout 11 (BYETimeout 20 (NoteTimeout 20 sample_table))) in
   \<not> GotEntry 5 s1 \<and> sourcelist s1 = sourcelist s2 \<and> activecount s1 = activecount s2"
proof -
  have "\<not> GotEntry 5 (MultipleTimeouts 20 20 11 20 sample_table)" by code_simp
  then show ?thesis using MultipleTimeouts_sequence [OF sample_table_reach, of 20 20 11 20] by (simp add: Let_def)
qed

end
