(* ===== verification/Rtcp_Parsing.thy ===== *)
theory Rtcp_Parsing
  imports Rtcp_Packet
begin

section \<open>RTCP parsing is safe\<close>

text \<open>
  No datagram makes the parser read outside a packet, and what it accepts can be read with every getter:
  the reports and identifiers the count announces, the reason of a BYE, and, chunk by chunk and item by
  item, an SDES packet. \<open>item_chain\<close> and \<open>chunks_at\<close> say how items and chunks lie in the data.
\<close>

subsection \<open>Items and chunks\<close>

inductive item_chain :: "byte list \<Rightarrow> nat \<Rightarrow> nat \<Rightarrow> bool" for d where
  chain_end: "i < length d \<Longrightarrow> d ! i = 0 \<Longrightarrow> item_chain d i i"
| chain_item: "i + 1 < length d \<Longrightarrow> d ! i \<noteq> 0 \<Longrightarrow> item_chain d (i + 2 + unat (d ! (i + 1))) e \<Longrightarrow> item_chain d i e"

inductive chunks_at :: "byte list \<Rightarrow> nat \<Rightarrow> nat \<Rightarrow> bool" for d where
  no_chunk: "chunks_at d c 0"
| chunk: "item_chain d (c + 4) (c + e) \<Longrightarrow> chunks_at d (c + align4 (e + 1)) n \<Longrightarrow> chunks_at d c (Suc n)"

inductive_cases item_chainE: "item_chain d i e"
inductive_cases chunks_SucE: "chunks_at d c (Suc n)"

lemma item_chain_bound: "item_chain d i e \<Longrightarrow> i \<le> e \<and> e < length d \<and> d ! e = 0"
  by (induction rule: item_chain.induct) auto

lemma align4_bounds: "n \<le> align4 n" "align4 n < n + 4"
proof -
  have "n mod 4 < 4" by simp
  then show "n \<le> align4 n" "align4 n < n + 4" unfolding align4_def by (simp_all split: if_split) linarith
qed

lemma sdes_items_safe:
  "chunk + off + len \<le> length d \<Longrightarrow> \<exists>r. sdes_items d chunk off len = Inr r \<and> (\<forall>off' len'. r = Some (off', len') \<longrightarrow>
     off < off' \<and> off' + len' = off + len \<and> (\<exists>e. item_chain d (chunk + off) (chunk + e) \<and> off' = align4 (e + 1)))"
proof (induction d chunk off len rule: sdes_items.induct)
  case (1 d chunk off len)
  show ?case
  proof (cases "len < 1")
    case True
    then show ?thesis by (subst sdes_items.simps) simp
  next
    case False
    then have i: "chunk + off < length d" using 1(2) by simp
    show ?thesis
    proof (cases "d ! (chunk + off) = 0")
      case True
      have "item_chain d (chunk + off) (chunk + off)" using i True by (rule chain_end)
      then show ?thesis
        using False i True align4_bounds [of "off + 1"] by (subst sdes_items.simps) (auto simp: Let_def intro!: exI [of _ off])
    next
      case item: False
      show ?thesis
      proof (cases "len < 2 \<or> len - 2 < unat (d ! (chunk + off + 1))")
        case True
        then show ?thesis using False i item 1(2) by (subst sdes_items.simps) auto
      next
        case more: False
        let ?n = "unat (d ! (chunk + off + 1))"
        have j: "chunk + off + 1 < length d" using more 1(2) by simp
        have step: "sdes_items d chunk off len = sdes_items d chunk (off + 2 + ?n) (len - 2 - ?n)"
          using False i j item more by (subst sdes_items.simps) simp
        have "\<not> len < 2" "\<not> len - 2 < ?n" using more by simp_all
        moreover from this have "chunk + (off + 2 + ?n) + (len - 2 - ?n) \<le> length d" using 1(2) by linarith
        ultimately obtain r where r: "sdes_items d chunk (off + 2 + ?n) (len - 2 - ?n) = Inr r" "\<forall>off' len'. r = Some (off', len') \<longrightarrow>
            off + 2 + ?n < off' \<and> off' + len' = off + 2 + ?n + (len - 2 - ?n) \<and>
            (\<exists>e. item_chain d (chunk + (off + 2 + ?n)) (chunk + e) \<and> off' = align4 (e + 1))"
          using 1(1) [OF False rd_in [OF i] item _ rd_in [OF j]] by blast
        have "item_chain d (chunk + off) (chunk + e)" if "item_chain d (chunk + (off + 2 + ?n)) (chunk + e)" for e
          using chain_item [OF j item, of "chunk + e"] that by (simp add: add.assoc)
        then show ?thesis unfolding step using r more by fastforce
      qed
    qed
  qed
qed

lemma sdes_chunks_safe:
  "chunk + len \<le> length d \<Longrightarrow> \<exists>r. sdes_chunks d chunk n len = Inr r \<and> (r = Some (0, 0) \<longrightarrow> chunks_at d chunk n)"
proof (induction n arbitrary: chunk len)
  case 0
  then show ?case by (auto intro: no_chunk)
next
  case (Suc n)
  show ?case
  proof (cases "len < 8")
    case False
    then have "chunk + 4 + (len - 4) \<le> length d" using Suc.prems by simp
    from sdes_items_safe [OF this] obtain r where r: "sdes_items d chunk 4 (len - 4) = Inr r" "\<forall>off' len'. r = Some (off', len') \<longrightarrow>
       4 < off' \<and> off' + len' = 4 + (len - 4) \<and> (\<exists>e. item_chain d (chunk + 4) (chunk + e) \<and> off' = align4 (e + 1))" by blast
    show ?thesis
    proof (cases r)
      case None
      then show ?thesis using False r(1) by simp
    next
      case (Some ol)
      obtain off' len' where ol: "ol = (off', len')" by fastforce
      then obtain e where e: "off' + len' = len" "item_chain d (chunk + 4) (chunk + e)" "off' = align4 (e + 1)"
        using r(2) Some False by auto
      obtain r' where "sdes_chunks d (chunk + off') n len' = Inr r'" "r' = Some (0, 0) \<longrightarrow> chunks_at d (chunk + off') n"
        using Suc.IH [of "chunk + off'" len'] e(1) Suc.prems by auto
      then show ?thesis using False r(1) Some ol e chunk [OF e(2), of n] by auto
    qed
  qed (cases "len = 0"; simp)
qed

subsection \<open>One packet\<close>

lemma unpadded_length_safe:
  "d \<noteq> [] \<Longrightarrow> \<exists>l. unpadded_length d = Inr l \<and> (\<forall>len. l = Some len \<longrightarrow> 0 < len \<and> len \<le> length d)"
  by (cases "hdr_padding (d ! 0)") (simp_all add: unpadded_length_def)

lemma with_length_safe:
  assumes "rtcp_data p \<noteq> []" "P p"
    and "\<And>len. 0 < len \<Longrightarrow> len \<le> length (rtcp_data p) \<Longrightarrow> \<exists>q. f (rtcp_data p ! 0) len = Inr q \<and> P q"
  shows "\<exists>q. with_length p f = Inr q \<and> P q"
proof -
  obtain l where l: "unpadded_length (rtcp_data p) = Inr l" "\<forall>len. l = Some len \<longrightarrow> 0 < len \<and> len \<le> length (rtcp_data p)"
    using unpadded_length_safe [OF assms(1)] by blast
  show ?thesis
  proof (cases l)
    case None
    then show ?thesis using l(1) assms(2) by (simp add: with_length_def)
  next
    case (Some len)
    then show ?thesis using l assms(1,3) by (simp add: with_length_def)
  qed
qed

text \<open>What the constructors guarantee of a packet whose format they accept.\<close>

definition readable :: "rtcp_packet \<Rightarrow> bool" where
  "readable p \<longleftrightarrow> rtcp_data p \<noteq> [] \<and> (knownformat p \<longrightarrow>
     (let d = rtcp_data p; n = rtcp_count (d ! 0) in
      case rtcp_type p of
        SR \<Rightarrow> 28 + 24 * n \<le> length d
      | RR \<Rightarrow> 8 + 24 * n \<le> length d
      | SDES \<Rightarrow> chunks_at d 4 n
      | BYE \<Rightarrow> 4 + 4 * n \<le> length d \<and> (reasonoffset p \<noteq> 0 \<longrightarrow>
          reasonoffset p < length d \<and> reasonoffset p + 1 + unat (d ! reasonoffset p) \<le> length d)
      | APP \<Rightarrow> 12 \<le> length d \<and> appdatalen p \<noteq> None \<and> 12 + the (appdatalen p) \<le> length d
      | UnknownType \<Rightarrow> True))"

definition fresh :: "rtcp_packet \<Rightarrow> bool" where
  "fresh p \<longleftrightarrow> currentchunk p = None"

lemma new_rtcp_simps [simp]:
  "rtcp_data (new_rtcp t d) = d" "rtcp_type (new_rtcp t d) = t" "\<not> knownformat (new_rtcp t d)"
  "currentchunk (new_rtcp t d) = None" "reasonoffset (new_rtcp t d) = 0" "appdatalen (new_rtcp t d) = None"
  by (simp_all add: new_rtcp_def)

definition good :: "byte list \<Rightarrow> rtcp_type \<Rightarrow> rtcp_packet \<Rightarrow> bool" where
  "good d t p \<longleftrightarrow> rtcp_data p = d \<and> rtcp_type p = t \<and> readable p \<and> fresh p"

lemma new_rtcp_good: "d \<noteq> [] \<Longrightarrow> good d t (new_rtcp t d)"
  by (simp add: good_def readable_def fresh_def)

lemmas good_defs = good_def readable_def fresh_def Let_def

lemma report_packets_good:
  assumes "d \<noteq> []"
  shows "\<exists>p. RTCPSRPacket d = Inr p \<and> good d SR p" "\<exists>p. RTCPRRPacket d = Inr p \<and> good d RR p"
proof -
  show "\<exists>p. RTCPSRPacket d = Inr p \<and> good d SR p"
    unfolding RTCPSRPacket_def by (rule with_length_safe) (use assms new_rtcp_good in \<open>auto simp: good_defs\<close>)
  show "\<exists>p. RTCPRRPacket d = Inr p \<and> good d RR p"
    unfolding RTCPRRPacket_def by (rule with_length_safe) (use assms new_rtcp_good in \<open>auto simp: good_defs\<close>)
qed

lemma bye_app_good:
  assumes "d \<noteq> []"
  shows "\<exists>p. RTCPBYEPacket d = Inr p \<and> good d BYE p" "\<exists>p. RTCPAPPPacket d = Inr p \<and> good d APP p"
proof -
  show "\<exists>p. RTCPBYEPacket d = Inr p \<and> good d BYE p"
    unfolding RTCPBYEPacket_def by (rule with_length_safe) (use assms new_rtcp_good in \<open>auto simp: good_defs\<close>)
  show "\<exists>p. RTCPAPPPacket d = Inr p \<and> good d APP p"
    unfolding RTCPAPPPacket_def by (rule with_length_safe) (use assms new_rtcp_good in \<open>auto simp: good_defs\<close>)
qed

lemma sdes_good:
  assumes "d \<noteq> []"
  shows "\<exists>p. RTCPSDESPacket d = Inr p \<and> good d SDES p"
  unfolding RTCPSDESPacket_def
proof (rule with_length_safe)
  fix len assume len: "0 < len" "len \<le> length (rtcp_data (new_rtcp SDES d))"
  obtain r where "4 \<le> len \<Longrightarrow> sdes_chunks d 4 (rtcp_count (d ! 0)) (len - 4) = Inr r \<and> (r = Some (0, 0) \<longrightarrow> chunks_at d 4 (rtcp_count (d ! 0)))"
    using sdes_chunks_safe [of 4 "len - 4" d "rtcp_count (d ! 0)"] len by fastforce
  then show "\<exists>q. (let p = new_rtcp SDES d in
        if rtcp_count (rtcp_data (new_rtcp SDES d) ! 0) = 0 then Inr (p\<lparr>knownformat := len = 4\<rparr>)
        else if len < 4 then Inr p
        else ub_bind (sdes_chunks d 4 (rtcp_count (rtcp_data (new_rtcp SDES d) ! 0)) (len - 4))
              (\<lambda>r. Inr (p\<lparr>knownformat := r = Some (0, 0)\<rparr>))) = Inr q \<and> good d SDES q"
    using assms new_rtcp_good by (cases "len < 4") (auto simp: good_defs intro: no_chunk)
qed (use assms new_rtcp_good in auto)

lemma make_rtcp_good:
  assumes "d \<noteq> []"
  shows "\<exists>p t'. make_rtcp t d = Inr p \<and> good d t' p \<and> (t = RTP_RTCPTYPE_SR \<longrightarrow> t' = SR) \<and> (t = RTP_RTCPTYPE_RR \<longrightarrow> t' = RR)"
proof -
  have "good d UnknownType (RTCPUnknownPacket d)" using assms by (simp add: RTCPUnknownPacket_def good_defs)
  then show ?thesis
    using report_packets_good [OF assms] bye_app_good [OF assms] sdes_good [OF assms] unfolding make_rtcp_def by auto
qed

subsection \<open>The datagram\<close>

definition parsed :: "bool \<Rightarrow> byte list \<Rightarrow> rtcp_packet list \<Rightarrow> bool" where
  "parsed first d ps \<longleftrightarrow> concat (map rtcp_data ps) = d \<and> ps \<noteq> [] \<and> (\<forall>p \<in> set ps. readable p \<and> fresh p) \<and>
     (first \<longrightarrow> rtcp_type (hd ps) = SR \<or> rtcp_type (hd ps) = RR)"

lemma parse_packets_safe:
  "4 \<le> length d \<Longrightarrow> \<exists>r. parse_packets first d = Inr r \<and> (\<forall>ps. r = Some ps \<longrightarrow> parsed first d ps)"
proof (induction d arbitrary: first rule: length_induct)
  case (1 d)
  obtain n where n: "rd16 d 2 = Inr n" using rd16_in [of 2 d] 1(2) by auto
  let ?l = "(unat n + 1) * 4"
  have r: "rd d 0 = Inr (d ! 0)" "rd d (Suc 0) = Inr (d ! Suc 0)" using 1(2) by (auto intro: rd_in)
  show ?case
  proof (cases "hdr_version (d ! 0) = RTP_VERSION \<and> \<not> (first \<and> \<not> (d ! 1 = RTP_RTCPTYPE_SR \<or> d ! 1 = RTP_RTCPTYPE_RR)) \<and>
      ?l \<le> length d \<and> \<not> (hdr_padding (d ! 0) \<and> ?l \<noteq> length d)")
    case False
    then have "parse_packets first d = Inr None" by (subst parse_packets.simps) (auto simp: r n)
    then show ?thesis by simp
  next
    case True
    then have "take ?l d \<noteq> []" by auto
    then obtain p t where p: "make_rtcp (d ! 1) (take ?l d) = Inr p" "good (take ?l d) t p"
        "d ! 1 = RTP_RTCPTYPE_SR \<longrightarrow> t = SR" "d ! 1 = RTP_RTCPTYPE_RR \<longrightarrow> t = RR" using make_rtcp_good by meson
    have first: "first \<longrightarrow> rtcp_type p = SR \<or> rtcp_type p = RR" using True p(2-4) by (auto simp: good_def)
    have nf: "\<not> (first \<and> d ! Suc 0 \<noteq> 200 \<and> d ! Suc 0 \<noteq> 201)" using True by auto
    have step: "parse_packets first d = (if 4 \<le> length (drop ?l d)
        then ub_bind (parse_packets False (drop ?l d)) (\<lambda>ps. Inr (map_option (Cons p) ps))
        else if drop ?l d \<noteq> [] then Inr None else Inr (Some [p]))"
      using True p(1) nf by (subst parse_packets.simps) (simp add: r n del: length_drop drop_eq_Nil, blast)
    show ?thesis
    proof (cases "4 \<le> length (drop ?l d)")
      case more: True
      then obtain r' where r': "parse_packets False (drop ?l d) = Inr r'" "\<forall>ps. r' = Some ps \<longrightarrow> parsed False (drop ?l d) ps"
        using 1(1) [rule_format, of "drop ?l d" False] 1(2) by fastforce
      have "parsed first d (p # ps)" if "parsed False (drop ?l d) ps" for ps
        using that first p(2) append_take_drop_id [of ?l d] by (auto simp: parsed_def good_def)
      then show ?thesis using more r' step by auto
    next
      case False
      have "parsed first d [p]" if "drop ?l d = []"
        using that first p(2) append_take_drop_id [of ?l d] by (auto simp: parsed_def good_def)
      then show ?thesis using False step by auto
    qed
  qed
qed

lemma ParseData_safe: "\<exists>r. ParseData d = Inr r \<and> (\<forall>ps. r = Some ps \<longrightarrow> parsed True d ps)"
  using parse_packets_safe [of d True] by (cases "length d < 4") (simp_all add: ParseData_def)

subsection \<open>The fields of what was accepted\<close>

lemma field32_safe: "knownformat p \<longrightarrow> i + 3 < length (rtcp_data p) \<Longrightarrow> defined (field32 i p)"
  using rd32_in [of i "rtcp_data p"] by (auto simp: field32_def)

lemma rd_safe: "i < length d \<Longrightarrow> defined (rd d i)"
  by simp

lemma report_safe:
  assumes "readable p" "rtcp_type p = SR \<or> rtcp_type p = RR" "GetReceptionReportCount p = Inr n" "i < n"
  shows "defined (report_GetSSRC i p)" "defined (GetFractionLost i p)" "defined (GetLostPacketCount i p)"
    "defined (GetExtendedHighestSequenceNumber i p)" "defined (GetJitter i p)" "defined (GetLSR i p)" "defined (GetDLSR i p)"
proof -
  have k: "knownformat p" using assms(3,4) by (auto simp: GetReceptionReportCount_def split: if_splits)
  then have "n = rtcp_count (rtcp_data p ! 0)"
    using assms(1,3) by (simp add: GetReceptionReportCount_def readable_def)
  then have room: "GotoReport i p + 24 \<le> length (rtcp_data p)"
    using assms(1,2,4) k by (auto simp: readable_def GotoReport_def Let_def)
  show "defined (report_GetSSRC i p)" "defined (GetExtendedHighestSequenceNumber i p)" "defined (GetJitter i p)"
    "defined (GetLSR i p)" "defined (GetDLSR i p)"
    unfolding report_GetSSRC_def GetExtendedHighestSequenceNumber_def GetJitter_def GetLSR_def GetDLSR_def
    by (rule field32_safe; use room in simp)+
  show "defined (GetFractionLost i p)" "defined (GetLostPacketCount i p)"
    using room k by (simp_all add: GetFractionLost_def GetLostPacketCount_def Let_def)
qed

lemma sender_safe:
  assumes "readable p" "rtcp_type p = SR \<or> rtcp_type p = RR"
  shows "defined (GetSenderSSRC p)"
    and "rtcp_type p = SR \<Longrightarrow> defined (GetNTPTimestamp p)" "rtcp_type p = SR \<Longrightarrow> defined (GetRTPTimestamp p)"
      "rtcp_type p = SR \<Longrightarrow> defined (GetSenderPacketCount p)" "rtcp_type p = SR \<Longrightarrow> defined (GetSenderOctetCount p)"
proof -
  have room: "knownformat p \<longrightarrow> 8 \<le> length (rtcp_data p)" "rtcp_type p = SR \<Longrightarrow> knownformat p \<longrightarrow> 28 \<le> length (rtcp_data p)"
    using assms by (auto simp: readable_def Let_def)
  show "defined (GetSenderSSRC p)" unfolding GetSenderSSRC_def by (rule field32_safe) (use room in auto)
  assume sr: "rtcp_type p = SR"
  have "defined (field32 8 p)" "defined (field32 12 p)" by (rule field32_safe; use room(2) [OF sr] in auto)+
  then show "defined (GetNTPTimestamp p)" by (auto simp: GetNTPTimestamp_def defined_iff)
  show "defined (GetRTPTimestamp p)" "defined (GetSenderPacketCount p)" "defined (GetSenderOctetCount p)"
    unfolding GetRTPTimestamp_def GetSenderPacketCount_def GetSenderOctetCount_def
    by (rule field32_safe; use room(2) [OF sr] in auto)+
qed

lemma bye_safe:
  assumes "readable p" "rtcp_type p = BYE"
  shows "GetSSRCCount p = Inr n \<Longrightarrow> i < n \<Longrightarrow> defined (bye_GetSSRC i p)" "defined (reason_of p)"
proof -
  show "defined (reason_of p)"
    using assms by (auto simp: reason_of_def GetReasonData_def GetReasonLength_def readable_def Let_def)
  assume n: "GetSSRCCount p = Inr n" "i < n"
  then have "knownformat p" by (auto simp: GetSSRCCount_def split: if_splits)
  then show "defined (bye_GetSSRC i p)"
    using assms n by (auto simp: bye_GetSSRC_def GetSSRCCount_def readable_def Let_def intro!: field32_safe)
qed

subsection \<open>Walking through an SDES packet\<close>

lemma chunk_end_chain: "item_chain d i j \<Longrightarrow> i = c + off \<Longrightarrow> \<exists>e. j = c + e \<and> chunk_end d c off = Inr e"
proof (induction arbitrary: off rule: item_chain.induct)
  case (chain_end i)
  then show ?case by (subst chunk_end.simps) (auto intro!: exI [of _ off])
next
  case (chain_item i e)
  then obtain e' where e': "e = c + e'" "chunk_end d c (off + 2 + unat (d ! (i + 1))) = Inr e'"
    using chain_item.IH [of "off + 2 + unat (d ! (i + 1))"] by (auto simp: add.assoc)
  then show ?case using chain_item.hyps chain_item.prems by (subst chunk_end.simps) (auto simp: rd_def)
qed

definition walking :: "rtcp_packet \<Rightarrow> bool" where
  "walking p \<longleftrightarrow> (case currentchunk p of None \<Rightarrow> True
     | Some c \<Rightarrow> (\<exists>n e. rtcp_count (rtcp_data p ! 0) = curchunknum p + n \<and> chunks_at (rtcp_data p) c (Suc n) \<and>
         item_chain (rtcp_data p) (c + itemoffset p) e))"

text \<open>A client of an SDES packet: it may call the functions that move in any order.\<close>

inductive sdes_walk :: "rtcp_packet \<Rightarrow> rtcp_packet \<Rightarrow> bool" for p where
  walk_start: "sdes_walk p p"
| walk_first_chunk: "sdes_walk p q \<Longrightarrow> GotoFirstChunk q = Inr (b, q') \<Longrightarrow> sdes_walk p q'"
| walk_next_chunk: "sdes_walk p q \<Longrightarrow> GotoNextChunk q = Inr (b, q') \<Longrightarrow> sdes_walk p q'"
| walk_first_item: "sdes_walk p q \<Longrightarrow> GotoFirstItem q = Inr (b, q') \<Longrightarrow> sdes_walk p q'"
| walk_next_item: "sdes_walk p q \<Longrightarrow> GotoNextItem q = Inr (b, q') \<Longrightarrow> sdes_walk p q'"

definition sdes_ok :: "rtcp_packet \<Rightarrow> bool" where
  "sdes_ok p \<longleftrightarrow> rtcp_data p \<noteq> [] \<and> (knownformat p \<longrightarrow> chunks_at (rtcp_data p) 4 (rtcp_count (rtcp_data p ! 0)) \<and> walking p)"

lemma count_safe: "sdes_ok p \<Longrightarrow> GetChunkCount p = Inr (if knownformat p then rtcp_count (rtcp_data p ! 0) else 0)"
  by (simp add: GetChunkCount_def sdes_ok_def)

lemma chunk_start: "chunks_at d c (Suc n) \<Longrightarrow> \<exists>e. item_chain d (c + 4) e"
  by (auto elim: chunks_SucE)

lemma first_chunk_ok:
  assumes "sdes_ok p"
  shows "\<exists>b q. GotoFirstChunk p = Inr (b, q) \<and> sdes_ok q"
proof (cases "(if knownformat p then rtcp_count (rtcp_data p ! 0) else 0) = 0")
  case True
  then show ?thesis using assms count_safe [OF assms] by (auto simp: GotoFirstChunk_def sdes_ok_def walking_def)
next
  case False
  then obtain n where n: "knownformat p" "rtcp_count (rtcp_data p ! 0) = Suc n" by (auto simp: gr0_conv_Suc split: if_splits)
  then obtain e where "item_chain (rtcp_data p) (4 + 4) e" using assms chunk_start [of "rtcp_data p" 4 n] by (auto simp: sdes_ok_def)
  then show ?thesis using assms n count_safe [OF assms] by (auto simp: GotoFirstChunk_def sdes_ok_def walking_def)
qed

lemma next_chunk_ok:
  assumes "sdes_ok p"
  shows "\<exists>b q. GotoNextChunk p = Inr (b, q) \<and> sdes_ok q"
proof (cases "knownformat p \<and> currentchunk p \<noteq> None \<and> curchunknum p \<noteq> rtcp_count (rtcp_data p ! 0)")
  case False
  then show ?thesis using assms count_safe [OF assms] by (cases "currentchunk p") (auto simp: GotoNextChunk_def)
next
  case True
  then obtain c where c: "currentchunk p = Some c" by blast
  then obtain n where n: "rtcp_count (rtcp_data p ! 0) = curchunknum p + n" "chunks_at (rtcp_data p) c (Suc n)"
    using assms True by (auto simp: sdes_ok_def walking_def)
  then obtain m where m: "n = Suc m" using True by (cases n) auto
  obtain e where e: "item_chain (rtcp_data p) (c + 4) (c + e)" "chunks_at (rtcp_data p) (c + align4 (e + 1)) (Suc m)"
    using n(2) m by (auto elim: chunks_SucE)
  obtain e' where "item_chain (rtcp_data p) (c + align4 (e + 1) + 4) e'" using chunk_start [OF e(2)] by blast
  moreover have "chunk_end (rtcp_data p) c 4 = Inr e" using chunk_end_chain [OF e(1) refl] by auto
  ultimately show ?thesis
    using assms True c n(1) m e(2) count_safe [OF assms] by (auto simp: GotoNextChunk_def sdes_ok_def walking_def)
qed

lemma walking_item:
  assumes "sdes_ok p" "knownformat p" "currentchunk p = Some c"
  shows "\<exists>e. item_chain (rtcp_data p) (c + itemoffset p) e"
  using assms by (auto simp: sdes_ok_def walking_def)

lemma first_item_ok:
  assumes "sdes_ok p"
  shows "\<exists>b q. GotoFirstItem p = Inr (b, q) \<and> sdes_ok q"
proof (cases "knownformat p \<and> currentchunk p \<noteq> None")
  case False
  then show ?thesis using assms by (auto simp: GotoFirstItem_def)
next
  case True
  then obtain c n where c: "currentchunk p = Some c" "rtcp_count (rtcp_data p ! 0) = curchunknum p + n" "chunks_at (rtcp_data p) c (Suc n)"
    using assms by (auto simp: sdes_ok_def walking_def)
  obtain e where e: "item_chain (rtcp_data p) (c + 4) e" using chunk_start [OF c(3)] by blast
  then have "c + 4 < length (rtcp_data p)" using item_chain_bound [OF e] by simp
  then show ?thesis using assms True c e by (auto simp: GotoFirstItem_def sdes_ok_def walking_def)
qed

lemma next_item_ok:
  assumes "sdes_ok p"
  shows "\<exists>b q. GotoNextItem p = Inr (b, q) \<and> sdes_ok q"
proof (cases "knownformat p \<and> currentchunk p \<noteq> None")
  case False
  then show ?thesis using assms by (auto simp: GotoNextItem_def)
next
  case True
  then obtain c n e where c: "currentchunk p = Some c" "rtcp_count (rtcp_data p ! 0) = curchunknum p + n" "chunks_at (rtcp_data p) c (Suc n)"
      and e: "item_chain (rtcp_data p) (c + itemoffset p) e"
    using assms by (auto simp: sdes_ok_def walking_def)
  let ?d = "rtcp_data p" and ?i = "c + itemoffset p"
  have i: "?i < length ?d" using item_chain_bound [OF e] by simp
  show ?thesis
  proof (cases "?d ! ?i = 0")
    case True
    then show ?thesis using i assms c(1) by (auto simp: GotoNextItem_def)
  next
    case False
    then have j: "?i + 1 < length ?d" and rest: "item_chain ?d (?i + 2 + unat (?d ! (?i + 1))) e"
      using e by (auto elim: item_chainE)
    have k: "?i + 2 + unat (?d ! (?i + 1)) < length ?d" using item_chain_bound [OF rest] by simp
    let ?off = "itemoffset p + 2 + unat (?d ! (?i + 1))"
    have "GotoNextItem p = Inr (if ?d ! (c + ?off) = 0 then (False, p) else (True, p\<lparr>itemoffset := ?off\<rparr>))"
      using \<open>knownformat p \<and> currentchunk p \<noteq> None\<close> c(1) i j k False by (simp add: GotoNextItem_def Let_def add.assoc)
    moreover have "sdes_ok (p\<lparr>itemoffset := ?off\<rparr>)"
      using assms c rest by (auto simp: sdes_ok_def walking_def add.assoc)
    ultimately show ?thesis using assms by auto
  qed
qed

lemma walk_ok: "sdes_walk p q \<Longrightarrow> sdes_ok p \<Longrightarrow> sdes_ok q"
proof (induction rule: sdes_walk.induct)
  case (walk_first_chunk q b q')
  then show ?case using first_chunk_ok [of q] by auto
next
  case (walk_next_chunk q b q')
  then show ?case using next_chunk_ok [of q] by auto
next
  case (walk_first_item q b q')
  then show ?case using first_item_ok [of q] by auto
next
  case (walk_next_item q b q')
  then show ?case using next_item_ok [of q] by auto
qed

lemma item_of_safe:
  assumes "sdes_ok p"
  shows "defined (item_of p)" "defined (GetChunkSSRC p)"
proof -
  show "defined (item_of p)"
  proof (cases "knownformat p \<and> currentchunk p \<noteq> None")
    case False
    then show ?thesis by (auto simp: item_of_def GetItemData_def item_id_def)
  next
    case True
    then obtain c where c: "currentchunk p = Some c" by blast
    then obtain e where e: "item_chain (rtcp_data p) (c + itemoffset p) e" using walking_item [OF assms] True by blast
    have i: "c + itemoffset p < length (rtcp_data p)" using item_chain_bound [OF e] by simp
    show ?thesis
    proof (cases "rtcp_data p ! (c + itemoffset p) = 0")
      case zero: True
      then show ?thesis using True c i by (simp add: item_of_def GetItemData_def item_id_def)
    next
      case False
      then have "c + itemoffset p + 1 < length (rtcp_data p)"
          "item_chain (rtcp_data p) (c + itemoffset p + 2 + unat (rtcp_data p ! (c + itemoffset p + 1))) e"
        using e by (auto elim: item_chainE)
      moreover from this(2) have "c + itemoffset p + 2 + unat (rtcp_data p ! (c + itemoffset p + 1)) < length (rtcp_data p)"
        using item_chain_bound by fastforce
      ultimately show ?thesis
        using True c i False by (simp add: item_of_def GetItemData_def GetItemLength_def item_id_def)
    qed
  qed
  show "defined (GetChunkSSRC p)"
  proof (cases "knownformat p \<and> currentchunk p \<noteq> None")
    case True
    then obtain c n where c: "currentchunk p = Some c" "chunks_at (rtcp_data p) c (Suc n)"
      using assms by (auto simp: sdes_ok_def walking_def)
    then obtain e where "item_chain (rtcp_data p) (c + 4) e" using chunk_start by blast
    then have "c + 3 < length (rtcp_data p)" using item_chain_bound by fastforce
    then show ?thesis using rd32_in [of c "rtcp_data p"] True c(1) by (auto simp: GetChunkSSRC_def)
  qed (auto simp: GetChunkSSRC_def)
qed

lemma item_type_safe: "sdes_ok p \<Longrightarrow> defined (GetItemType p)"
proof (cases "knownformat p \<and> currentchunk p \<noteq> None")
  case True
  assume "sdes_ok p"
  moreover obtain c where c: "currentchunk p = Some c" using True by blast
  ultimately obtain e where "item_chain (rtcp_data p) (c + itemoffset p) e" using walking_item True by blast
  then have "c + itemoffset p < length (rtcp_data p)" using item_chain_bound by fastforce
  then show ?thesis using True c by (simp add: GetItemType_def item_id_def)
qed (auto simp: GetItemType_def item_id_def)

lemma parsed_sdes_ok: "readable p \<Longrightarrow> fresh p \<Longrightarrow> rtcp_type p = SDES \<Longrightarrow> sdes_ok p"
  by (simp add: readable_def fresh_def sdes_ok_def walking_def Let_def)

subsection \<open>A sender's BYE\<close>

text \<open>A receiver report without blocks and a BYE as RFC 3550 lays them out: the identifiers of the sources
  that leave and the reason behind its length, filled up to a multiple of four.\<close>

definition rr_bytes :: "u32 \<Rightarrow> byte list" where
  "rr_bytes s = [0x80, RTP_RTCPTYPE_RR] @ hton16 1 @ hton32 s"

definition bye_body :: "u32 list \<Rightarrow> byte list \<Rightarrow> byte list" where
  "bye_body ssrcs reason = concat (map hton32 ssrcs) @
     (if reason = [] then [] else
       word_of_nat (length reason) # reason @ replicate (align4 (1 + length reason) - (1 + length reason)) 0)"

definition bye_bytes :: "u32 list \<Rightarrow> byte list \<Rightarrow> byte list" where
  "bye_bytes ssrcs reason =
     [0x80 OR word_of_nat (length ssrcs), RTP_RTCPTYPE_BYE] @ hton16 (word_of_nat (length (bye_body ssrcs reason) div 4)) @
     bye_body ssrcs reason"

lemma align4_mult: "align4 n mod 4 = 0"
proof (cases "n mod 4 = 0")
  case False
  have "n + (4 - n mod 4) = 4 * (n div 4 + 1)" by presburger
  then show ?thesis using False by (simp add: align4_def)
qed (simp add: align4_def)

lemma bye_body_length:
  "length (bye_body ssrcs reason) = 4 * length ssrcs + (if reason = [] then 0 else align4 (1 + length reason))"
  using align4_bounds(1) [of "1 + length reason"] by (simp add: bye_body_def concat_hton32_length)

lemma bye_body_mult: "length (bye_body ssrcs reason) mod 4 = 0"
  using align4_mult [of "1 + length reason"] by (simp add: bye_body_length mod_simps)

lemma count_table:
  "\<forall>n \<in> set [0..<32]. let h = 0x80 OR word_of_nat n in hdr_version h = RTP_VERSION \<and> \<not> hdr_padding h \<and> rtcp_count h = n"
  by code_simp

lemma rtcp_count_fields:
  "n < 32 \<Longrightarrow> hdr_version (0x80 OR word_of_nat n) = RTP_VERSION"
  "n < 32 \<Longrightarrow> \<not> hdr_padding (0x80 OR word_of_nat n)" "n < 32 \<Longrightarrow> rtcp_count (0x80 OR word_of_nat n) = n"
  using count_table [rule_format, of n] by (simp_all add: Let_def)

lemma parse_packets_step:
  assumes "hdr_version h = RTP_VERSION" "\<not> hdr_padding h" "length body = unat n * 4"
    and "first \<Longrightarrow> t = RTP_RTCPTYPE_SR \<or> t = RTP_RTCPTYPE_RR" "make_rtcp t ([h, t] @ hton16 n @ body) = Inr p"
  shows "parse_packets first ([h, t] @ hton16 n @ body @ rest) =
    (if 4 \<le> length rest then ub_bind (parse_packets False rest) (\<lambda>ps. Inr (map_option (Cons p) ps))
     else if rest \<noteq> [] then Inr None else Inr (Some [p]))"
proof -
  let ?d = "[h, t] @ hton16 n @ body @ rest"
  have n: "rd16 ?d 2 = Inr n" using rd16_skip [of "[h, t]" "hton16 n @ body @ rest" 0] by (simp add: rd16_hton numeral_2_eq_2)
  have l: "(unat n + 1) * 4 = length ([h, t] @ hton16 n @ body)" using assms(3) by simp
  have cut: "take ((unat n + 1) * 4) ?d = [h, t] @ hton16 n @ body" "drop ((unat n + 1) * 4) ?d = rest"
    unfolding l by simp_all
  have len: "\<not> length ?d < (unat n + 1) * 4" unfolding l by simp
  have nf: "\<not> (first \<and> \<not> (t = RTP_RTCPTYPE_SR \<or> t = RTP_RTCPTYPE_RR))" using assms(4) by blast
  have r: "rd ?d 0 = Inr h" "rd ?d 1 = Inr t" by simp_all
  show ?thesis
    by (subst parse_packets.simps) (simp only: r n ub_bind_Inr assms(1,2,5) nf len cut if_False if_True not_True_eq_False simp_thms)
qed

lemma bye_layout:
  "bye_bytes ssrcs reason = ([0x80 OR word_of_nat (length ssrcs), RTP_RTCPTYPE_BYE] @
     hton16 (word_of_nat (length (bye_body ssrcs reason) div 4)) @ concat (map hton32 ssrcs)) @
     (if reason = [] then [] else
       word_of_nat (length reason) # reason @ replicate (align4 (1 + length reason) - (1 + length reason)) 0)"
  by (simp add: bye_bytes_def bye_body_def)

lemma bye_length: "length (bye_bytes ssrcs reason) = 4 + 4 * length ssrcs + (if reason = [] then 0 else align4 (1 + length reason))"
  by (simp add: bye_bytes_def bye_body_length)

lemma bye_reason_length:
  assumes "reason \<noteq> []" "length reason < 256"
  shows "rd (bye_bytes ssrcs reason) (4 + 4 * length ssrcs) = Inr (word_of_nat (length reason))"
    "unat (word_of_nat (length reason) :: byte) = length reason"
proof -
  let ?pre = "[0x80 OR word_of_nat (length ssrcs), RTP_RTCPTYPE_BYE] @
     hton16 (word_of_nat (length (bye_body ssrcs reason) div 4)) @ concat (map hton32 ssrcs)"
  have "length ?pre + 0 = 4 + 4 * length ssrcs" by (simp add: concat_hton32_length)
  then show "rd (bye_bytes ssrcs reason) (4 + 4 * length ssrcs) = Inr (word_of_nat (length reason))"
    using rd_skip [of ?pre "word_of_nat (length reason) # reason @ replicate (align4 (1 + length reason) - (1 + length reason)) 0" 0] assms(1)
    unfolding bye_layout by simp
  show "unat (word_of_nat (length reason) :: byte) = length reason" using assms(2) by (simp add: unat_of_nat)
qed

lemma bye_parsed:
  assumes "length ssrcs < 32" "length reason < 256"
  shows "RTCPBYEPacket (bye_bytes ssrcs reason) = Inr ((new_rtcp BYE (bye_bytes ssrcs reason))\<lparr>knownformat := True,
       reasonoffset := (if reason = [] then 0 else 4 + 4 * length ssrcs)\<rparr>)"
proof -
  define d where "d = bye_bytes ssrcs reason"
  have h: "rd d 0 = Inr (0x80 OR word_of_nat (length ssrcs))" by (simp add: d_def bye_bytes_def)
  have l: "unpadded_length d = Inr (Some (length d))" unfolding unpadded_length_def h using rtcp_count_fields(2) [OF assms(1)] by simp
  have len: "length d = 4 + 4 * length ssrcs + (if reason = [] then 0 else align4 (1 + length reason))"
    by (simp add: d_def bye_length)
  have step: "RTCPBYEPacket d = (let ssrclen = length ssrcs * 4 + 4; p = new_rtcp BYE d in
     if length d < ssrclen then Inr p
     else if ssrclen < length d then
       ub_bind (rd d ssrclen) (\<lambda>reaslen.
       if length d - ssrclen - 1 < unat reaslen then Inr p
       else Inr (p\<lparr>reasonoffset := ssrclen, knownformat := True\<rparr>))
     else Inr (p\<lparr>knownformat := True\<rparr>))"
    unfolding RTCPBYEPacket_def with_length_def using l h rtcp_count_fields(3) [OF assms(1)] by simp
  have "RTCPBYEPacket d = Inr ((new_rtcp BYE d)\<lparr>knownformat := True, reasonoffset := (if reason = [] then 0 else 4 + 4 * length ssrcs)\<rparr>)"
  proof (cases "reason = []")
    case True
    then show ?thesis unfolding step using len by (simp add: new_rtcp_def Let_def mult.commute)
  next
    case False
    note r = bye_reason_length(1) [OF False assms(2), of ssrcs] bye_reason_length(2) [OF False assms(2)]
    have rd: "rd d (length ssrcs * 4 + 4) = Inr (word_of_nat (length reason))" using r(1) by (simp add: d_def algebra_simps)
    have "length ssrcs * 4 + 4 < length d" "\<not> length d - (length ssrcs * 4 + 4) - 1 < length reason"
      using len False align4_bounds(1) [of "1 + length reason"] by auto
    then show ?thesis unfolding step Let_def rd using False r(2) by (simp add: new_rtcp_def algebra_simps)
  qed
  then show ?thesis by (simp add: d_def)
qed

lemma bye_ssrc: "i < length ssrcs \<Longrightarrow> rd32 (bye_bytes ssrcs reason) (4 + 4 * i) = Inr (ssrcs ! i)"
proof -
  define pre where "pre = [0x80 OR word_of_nat (length ssrcs), RTP_RTCPTYPE_BYE] @
    hton16 (word_of_nat (length (bye_body ssrcs reason) div 4))"
  define tail where "tail = (if reason = [] then [] else
    word_of_nat (length reason) # reason @ replicate (align4 (1 + length reason) - (1 + length reason)) 0)"
  assume "i < length ssrcs"
  then have "rd32 (concat (map hton32 ssrcs) @ tail) (4 * i) = Inr (ssrcs ! i)" by (rule take_nth)
  moreover have "length pre = 4" by (simp add: pre_def)
  moreover have "bye_bytes ssrcs reason = pre @ concat (map hton32 ssrcs) @ tail"
    by (simp only: bye_bytes_def bye_body_def pre_def tail_def append_assoc)
  ultimately show ?thesis by (metis rd32_skip)
qed

lemma bye_getters:
  assumes "length ssrcs < 32" "length reason < 256"
    and "p = (new_rtcp BYE (bye_bytes ssrcs reason))\<lparr>knownformat := True, reasonoffset := (if reason = [] then 0 else 4 + 4 * length ssrcs)\<rparr>"
  shows "GetSSRCCount p = Inr (length ssrcs)" "i < length ssrcs \<Longrightarrow> bye_GetSSRC i p = Inr (ssrcs ! i)" "reason_of p = Inr reason"
proof -
  let ?d = "bye_bytes ssrcs reason"
  have "rd ?d 0 = Inr (0x80 OR word_of_nat (length ssrcs))" by (simp add: bye_bytes_def)
  then show "GetSSRCCount p = Inr (length ssrcs)" using rtcp_count_fields(3) [OF assms(1)] by (simp add: GetSSRCCount_def assms(3))
  show "bye_GetSSRC i p = Inr (ssrcs ! i)" if "i < length ssrcs"
    using bye_ssrc [OF that, of reason] by (simp add: bye_GetSSRC_def field32_def assms(3))
  show "reason_of p = Inr reason"
  proof (cases "reason = []")
    case False
    note r = bye_reason_length(1) [OF False assms(2), of ssrcs] bye_reason_length(2) [OF False assms(2)]
    have nz: "(word_of_nat (length reason) :: byte) \<noteq> 0" using r(2) False by (metis length_0_conv unat_0)
    let ?pre = "[0x80 OR word_of_nat (length ssrcs), RTP_RTCPTYPE_BYE] @
      hton16 (word_of_nat (length (bye_body ssrcs reason) div 4)) @ concat (map hton32 ssrcs) @ [word_of_nat (length reason)]"
    have "?d = ?pre @ reason @ replicate (align4 (1 + length reason) - (1 + length reason)) 0"
      using False by (simp add: bye_bytes_def bye_body_def)
    moreover have "length ?pre = 4 + 4 * length ssrcs + 1" by (simp add: concat_hton32_length)
    ultimately have "memcpy_from ?d (4 + 4 * length ssrcs + 1) (length reason) = Inr reason"
      by (simp add: memcpy_from_def del: append_Cons append_Nil)
    then show ?thesis
      using False r nz by (simp add: reason_of_def GetReasonData_def GetReasonLength_def assms(3))
  qed (simp add: reason_of_def GetReasonData_def assms(3))
qed

lemma rr_parsed: "RTCPRRPacket (rr_bytes s) = Inr ((new_rtcp RR (rr_bytes s))\<lparr>knownformat := True\<rparr>)"
proof -
  have "hdr_padding 0x80 = False" "rtcp_count 0x80 = 0" by code_simp+
  then show ?thesis by (simp add: RTCPRRPacket_def with_length_def unpadded_length_def rr_bytes_def)
qed

lemma rr_bye_parsed:
  assumes "length ssrcs < 32" "length reason < 256"
  shows "ParseData (rr_bytes s @ bye_bytes ssrcs reason) = Inr (Some
    [(new_rtcp RR (rr_bytes s))\<lparr>knownformat := True\<rparr>,
     (new_rtcp BYE (bye_bytes ssrcs reason))\<lparr>knownformat := True, reasonoffset := (if reason = [] then 0 else 4 + 4 * length ssrcs)\<rparr>])"
    (is "_ = Inr (Some [?rr, ?bye])")
proof -
  let ?body = "bye_body ssrcs reason" and ?n = "word_of_nat (length (bye_body ssrcs reason) div 4) :: u16"
  have "length ?body < 4 * 65536" using assms align4_bounds(2) [of "1 + length reason"] by (auto simp: bye_body_length)
  then have "length ?body div 4 < 65536" by (simp add: div_less_iff_less_mult mult.commute)
  then have n: "length ?body = unat ?n * 4" using bye_body_mult [of ssrcs reason] by (simp add: unat_of_nat) presburger
  have bye: "make_rtcp RTP_RTCPTYPE_BYE ([0x80 OR word_of_nat (length ssrcs), RTP_RTCPTYPE_BYE] @ hton16 ?n @ ?body) = Inr ?bye"
    using bye_parsed [OF assms] by (simp add: make_rtcp_def bye_bytes_def)
  have two: "parse_packets False (bye_bytes ssrcs reason) = Inr (Some [?bye])"
    using parse_packets_step [OF rtcp_count_fields(1,2) n _ bye, of False "[]"] assms(1) by (simp add: bye_bytes_def)
  have "hdr_version 0x80 = RTP_VERSION" "\<not> hdr_padding 0x80" by code_simp+
  moreover have "make_rtcp RTP_RTCPTYPE_RR ([0x80, RTP_RTCPTYPE_RR] @ hton16 1 @ hton32 s) = Inr ?rr"
    using rr_parsed [of s] by (simp add: make_rtcp_def rr_bytes_def)
  moreover have "4 \<le> length (bye_bytes ssrcs reason)" by (simp add: bye_length)
  ultimately have "parse_packets True (rr_bytes s @ bye_bytes ssrcs reason) = Inr (Some [?rr, ?bye])"
    using parse_packets_step [of "0x80" "hton32 s" 1 True RTP_RTCPTYPE_RR ?rr "bye_bytes ssrcs reason"] two
    by (simp add: rr_bytes_def)
  then show ?thesis by (simp add: ParseData_def rr_bytes_def)
qed

subsection \<open>The properties\<close>

text \<open>Every getter of a packet's class is defined, with every index the count in the packet allows.\<close>

definition report_fields_defined :: "nat \<Rightarrow> rtcp_packet \<Rightarrow> bool" where
  "report_fields_defined i p \<longleftrightarrow>
     defined (report_GetSSRC i p) \<and> defined (GetFractionLost i p) \<and> defined (GetLostPacketCount i p) \<and>
     defined (GetExtendedHighestSequenceNumber i p) \<and> defined (GetJitter i p) \<and> defined (GetLSR i p) \<and> defined (GetDLSR i p)"

definition fields_defined :: "rtcp_packet \<Rightarrow> bool" where
  "fields_defined p \<longleftrightarrow> (case rtcp_type p of
       SR \<Rightarrow> defined (GetSenderSSRC p) \<and> defined (GetNTPTimestamp p) \<and> defined (GetRTPTimestamp p) \<and>
         defined (GetSenderPacketCount p) \<and> defined (GetSenderOctetCount p) \<and>
         (\<exists>n. GetReceptionReportCount p = Inr n \<and> (\<forall>i<n. report_fields_defined i p))
     | RR \<Rightarrow> defined (GetSenderSSRC p) \<and>
         (\<exists>n. GetReceptionReportCount p = Inr n \<and> (\<forall>i<n. report_fields_defined i p))
     | BYE \<Rightarrow> defined (reason_of p) \<and> (\<exists>n. GetSSRCCount p = Inr n \<and> (\<forall>i<n. defined (bye_GetSSRC i p)))
     | APP \<Rightarrow> defined (GetSubType p) \<and> defined (app_GetSSRC p) \<and>
         (\<exists>n r. GetAPPDataLength p = Inr n \<and> GetAPPData p = Inr r \<and>
           (\<forall>i. r = Some i \<longrightarrow> defined (memcpy_from (rtcp_data p) i n)))
     | SDES \<Rightarrow> defined (GetChunkCount p)
     | UnknownType \<Rightarrow> True)"

lemma readable_nonempty: "readable p \<Longrightarrow> rtcp_data p \<noteq> []"
  by (simp add: readable_def)

lemma counts_defined:
  assumes "readable p"
  shows "\<exists>n. GetReceptionReportCount p = Inr n" "\<exists>n. GetSSRCCount p = Inr n" "defined (GetSubType p)"
  using readable_nonempty [OF assms] by (auto simp: GetReceptionReportCount_def GetSSRCCount_def GetSubType_def)

lemma app_safe:
  assumes "readable p" "rtcp_type p = APP"
  shows "defined (app_GetSSRC p)" "\<exists>n r. GetAPPDataLength p = Inr n \<and> GetAPPData p = Inr r \<and>
    (\<forall>i. r = Some i \<longrightarrow> defined (memcpy_from (rtcp_data p) i n))"
proof -
  show "defined (app_GetSSRC p)"
    unfolding app_GetSSRC_def by (rule field32_safe) (use assms in \<open>auto simp: readable_def Let_def\<close>)
  show "\<exists>n r. GetAPPDataLength p = Inr n \<and> GetAPPData p = Inr r \<and>
    (\<forall>i. r = Some i \<longrightarrow> defined (memcpy_from (rtcp_data p) i n))"
    using assms by (auto simp: GetAPPDataLength_def GetAPPData_def readable_def Let_def memcpy_from_def)
qed

lemma readable_fields: "readable p \<Longrightarrow> fresh p \<Longrightarrow> fields_defined p"
  using counts_defined [of p] report_safe [of p] sender_safe [of p] bye_safe [of p] app_safe [of p] parsed_sdes_ok [of p] count_safe [of p]
  unfolding fields_defined_def report_fields_defined_def by (cases "rtcp_type p") auto

text \<open>C31: Parsing an RTCP datagram never reads outside it, whatever its bytes; what it accepts is split into
  packets without loss, the first of them a report, and every field of every packet can be read: each report block, each
  source identifier and the reason of a BYE, the data of an APP packet.\<close>

theorem ParseData_fields:
  "\<exists>r. ParseData d = Inr r \<and> (\<forall>ps. r = Some ps \<longrightarrow>
     concat (map rtcp_data ps) = d \<and> ps \<noteq> [] \<and> (rtcp_type (hd ps) = SR \<or> rtcp_type (hd ps) = RR) \<and>
     (\<forall>p \<in> set ps. fields_defined p))"
proof -
  obtain r where "ParseData d = Inr r" "\<forall>ps. r = Some ps \<longrightarrow> parsed True d ps" using ParseData_safe [of d] by blast
  then show ?thesis using readable_fields by (auto simp: parsed_def)
qed

definition sample_rr :: "byte list" where
  "sample_rr = [0x81, 201, 0, 7, 0, 0, 0, 5, 0, 0, 0, 9, 128, 255, 255, 254, 1, 1, 1, 1, 1, 1, 1, 1, 1, 1, 1, 1, 1, 1, 1, 1]"

definition sample_rr_packet :: rtcp_packet where
  "sample_rr_packet = (new_rtcp RR sample_rr)\<lparr>knownformat := True\<rparr>"

lemma sample_rr_made: "RTCPRRPacket sample_rr = Inr sample_rr_packet"
  by code_simp

lemma sample_rr_parsed: "ParseData sample_rr = Inr (Some [sample_rr_packet])"
  by code_simp

theorem ParseData_fields_witness:
  "ParseData sample_rr = Inr (Some [sample_rr_packet]) \<and> fields_defined sample_rr_packet \<and>
   GetLostPacketCount 0 sample_rr_packet = Inr (- 2)"
proof -
  have "GetLostPacketCount 0 sample_rr_packet = Inr (- 2)" by code_simp
  then show ?thesis using ParseData_fields [of sample_rr] sample_rr_parsed by simp
qed

text \<open>C32: A client of an accepted SDES packet may move through its chunks and items in any order: no move and
  no getter at the place it has reached reads outside the packet, although the loop to the next chunk has no bound of its own.\<close>

theorem sdes_walk_safe:
  assumes "ParseData d = Inr (Some ps)" "p \<in> set ps" "rtcp_type p = SDES" "sdes_walk p q"
  shows "defined (GotoFirstChunk q) \<and> defined (GotoNextChunk q) \<and> defined (GotoFirstItem q) \<and> defined (GotoNextItem q) \<and>
    defined (GetChunkSSRC q) \<and> defined (GetItemType q) \<and> defined (item_of q)"
proof -
  have "sdes_ok p" using assms(1-3) ParseData_safe [of d] parsed_sdes_ok by (auto simp: parsed_def)
  then have q: "sdes_ok q" using walk_ok [OF assms(4)] by blast
  then show ?thesis
    using first_chunk_ok next_chunk_ok first_item_ok next_item_ok item_of_safe item_type_safe by (fastforce simp: defined_iff)
qed

definition sample_sdes :: "byte list" where
  "sample_sdes = [0x80, 201, 0, 1, 0, 0, 0, 5] @ [0x82, 202, 0, 5] @
     [0, 0, 0, 5, 1, 2, 97, 98, 2, 0, 0, 0] @ [0, 0, 0, 6, 0, 0, 0, 0]"

definition sample_sdes_packet :: rtcp_packet where
  "sample_sdes_packet = (new_rtcp SDES (drop 8 sample_sdes))\<lparr>knownformat := True\<rparr>"

lemma sample_sdes_parsed: "ParseData sample_sdes = Inr (Some [(new_rtcp RR (take 8 sample_sdes))\<lparr>knownformat := True\<rparr>, sample_sdes_packet])"
  by code_simp

definition sample_sdes_first :: rtcp_packet where
  "sample_sdes_first = sample_sdes_packet\<lparr>currentchunk := Some 4, curchunknum := 1, itemoffset := 4\<rparr>"

lemma sample_sdes_moved: "GotoFirstChunk sample_sdes_packet = Inr (True, sample_sdes_first)" "item_of sample_sdes_first = Inr [97, 98]"
  by code_simp+

theorem sdes_walk_safe_witness:
  "GotoFirstChunk sample_sdes_packet = Inr (True, sample_sdes_first) \<and> item_of sample_sdes_first = Inr [97, 98] \<and>
   defined (GotoNextChunk sample_sdes_first) \<and> defined (GotoNextItem sample_sdes_first)"
proof -
  have "sample_sdes_packet \<in> set [(new_rtcp RR (take 8 sample_sdes))\<lparr>knownformat := True\<rparr>, sample_sdes_packet]" by simp
  from sdes_walk_safe [OF sample_sdes_parsed this _ walk_first_chunk [OF walk_start sample_sdes_moved(1)]] sample_sdes_moved
  show ?thesis by (simp add: sample_sdes_packet_def)
qed

lemma rr_sender: "GetSenderSSRC ((new_rtcp RR (rr_bytes s))\<lparr>knownformat := True\<rparr>) = Inr s"
proof -
  have "rd32 (([0x80, RTP_RTCPTYPE_RR] @ hton16 1) @ hton32 s) (length ([0x80, RTP_RTCPTYPE_RR] @ hton16 1) + 0) = Inr s"
    using rd32_hton [of s "[]"] unfolding rd32_skip by simp
  moreover have "length ([0x80, RTP_RTCPTYPE_RR] @ hton16 1) + 0 = 4" by simp
  moreover have "([0x80, RTP_RTCPTYPE_RR] @ hton16 1) @ hton32 s = rr_bytes s" by (simp only: rr_bytes_def append_assoc)
  ultimately show ?thesis by (simp add: GetSenderSSRC_def field32_def)
qed

text \<open>The goodbye of a sender, a receiver report and a BYE with up to 31 identifiers and a reason of up to
  255 bytes, is read back: the parser returns the two packets and the getters return the sender, the identifiers in order
  and the reason.\<close>

theorem bye_roundtrip:
  assumes "length ssrcs < 32" "length reason < 256"
  shows "\<exists>rr bye. ParseData (rr_bytes s @ bye_bytes ssrcs reason) = Inr (Some [rr, bye]) \<and>
    rtcp_type rr = RR \<and> GetSenderSSRC rr = Inr s \<and> GetReceptionReportCount rr = Inr 0 \<and>
    rtcp_type bye = BYE \<and> GetSSRCCount bye = Inr (length ssrcs) \<and> (\<forall>i < length ssrcs. bye_GetSSRC i bye = Inr (ssrcs ! i)) \<and>
    HasReasonForLeaving bye = (reason \<noteq> []) \<and> reason_of bye = Inr reason"
proof -
  let ?rr = "(new_rtcp RR (rr_bytes s))\<lparr>knownformat := True\<rparr>"
  let ?bye = "(new_rtcp BYE (bye_bytes ssrcs reason))\<lparr>knownformat := True, reasonoffset := (if reason = [] then 0 else 4 + 4 * length ssrcs)\<rparr>"
  note g = bye_getters [OF assms, of ?bye, OF refl]
  have "rtcp_count 0x80 = 0" by code_simp
  then have "GetReceptionReportCount ?rr = Inr 0" by (simp add: GetReceptionReportCount_def rr_bytes_def)
  moreover have "HasReasonForLeaving ?bye = (reason \<noteq> [])" by (simp add: HasReasonForLeaving_def)
  ultimately show ?thesis using rr_bye_parsed [OF assms, of s] rr_sender [of s] g
    by (intro exI [of _ ?rr] exI [of _ ?bye]) simp
qed

theorem bye_roundtrip_witness:
  "\<exists>rr bye. ParseData (rr_bytes 7 @ bye_bytes [7, 9] [98, 121, 101]) = Inr (Some [rr, bye]) \<and>
     bye_GetSSRC 1 bye = Inr 9 \<and> reason_of bye = Inr [98, 121, 101]"
  using bye_roundtrip [of "[7, 9]" "[98, 121, 101]" 7] by auto

end
