(* ===== verification/Rtp_Table_Safety.thy ===== *)
theory Rtp_Table_Safety
  imports Rtp_Table_Invariant Rtcp_Parsing
begin

section \<open>What datagrams can do to the table\<close>

text \<open>
  A datagram of RTCP is processed without undefined behaviour, whatever its bytes, and the only error it can
  provoke is an SDES item of a type the table does not know; a packet from elsewhere leaves a source as it
  is; a goodbye reaches the callbacks of the session.
\<close>

subsection \<open>The status of the operations\<close>

text \<open>The call returns, with no error or with the one for SDES items.\<close>

definition settled :: "ub + (int \<times> 'a) \<Rightarrow> bool" where
  "settled r \<longleftrightarrow> (\<exists>status x. r = Inr (status, x) \<and> (status = 0 \<or> status = ERR_RTP_SOURCES_ILLEGALSDESTYPE))"

lemma settled_Inr [simp]: "settled (Inr (status, x)) \<longleftrightarrow> status = 0 \<or> status = ERR_RTP_SOURCES_ILLEGALSDESTYPE"
  by (simp add: settled_def)

lemma settled_bind:
  "settled m \<Longrightarrow> (\<And>status x. status = 0 \<or> status = ERR_RTP_SOURCES_ILLEGALSDESTYPE \<Longrightarrow> settled (f (status, x))) \<Longrightarrow> settled (ub_bind m f)"
  by (auto simp: settled_def)

lemma defined_bind: "defined m \<Longrightarrow> (\<And>x. m = Inr x \<Longrightarrow> settled (f x)) \<Longrightarrow> settled (ub_bind m f)"
  by (auto simp: defined_iff)

lemma with_source_status:
  assumes "\<And>is_new s. P (fst (f is_new s))" "P 0"
  shows "P (fst (with_rtcp_source k sender f s))"
  using assms by (auto simp: with_rtcp_source_def split: prod.split option.split)

lemma sender_info_status: "fst (ProcessRTCPSenderInfo k sr sender s) = 0"
  unfolding ProcessRTCPSenderInfo_def by (rule with_source_status) (simp_all add: Let_def)

lemma report_block_status: "fst (ProcessRTCPReportBlock k rr sender s) = 0"
  unfolding ProcessRTCPReportBlock_def by (rule with_source_status) (simp_all add: Let_def)

lemma receive_time_status: "fst (UpdateReceiveTime k t sender s) = 0"
  unfolding UpdateReceiveTime_def by (rule with_source_status) simp_all

lemma bye_status: "fst (ProcessBYE k reason t sender s) = 0"
  unfolding ProcessBYE_def by (rule with_source_status) (simp_all add: Let_def)

lemma private_item_status: "fst (ProcessSDESPrivateItem k pref val t sender s) = 0"
  unfolding ProcessSDESPrivateItem_def
  by (rule with_source_status)
    (auto simp: Let_def ProcessPrivateSDESItem_def SetPrivateValue_def split: prod.split)

lemma sdes_item_status: "length item \<le> 255 \<Longrightarrow> fst (ProcessSDESItem n item t d) = 0"
  by (simp add: ProcessSDESItem_def Let_def SetNonPrivateItem_def)

lemma normal_item_status:
  assumes "length item \<le> 255"
  shows "fst (ProcessSDESNormalItem k ty item t sender s) = (if sdes_number ty = None then ERR_RTP_SOURCES_ILLEGALSDESTYPE else 0)"
proof (cases "sdes_number ty")
  case (Some n)
  show ?thesis
    unfolding ProcessSDESNormalItem_def Some option.case
    by (rule with_source_status) (use sdes_item_status [OF assms] in \<open>auto simp: Let_def case_prod_unfold\<close>)
qed (simp add: ProcessSDESNormalItem_def)

subsection \<open>Items\<close>

lemma byte_bound: "unat (n :: byte) \<le> 255"
proof -
  have "unat n < 2 ^ LENGTH(8)" by (rule unsigned_less)
  then show ?thesis by simp
qed

lemma item_length_bound: "GetItemLength p = Inr n \<Longrightarrow> n \<le> 255"
  by (auto simp: GetItemLength_def ub_bind_eq_Inr byte_bound split: option.splits if_splits)

lemma item_length:
  assumes "item_of p = Inr item"
  shows "length item \<le> 255"
  using assms item_length_bound [of p] by (auto simp: item_of_def ub_bind_eq_Inr memcpy_from_def split: option.splits if_splits)

text \<open>The lengths of a PRIV item lie within the item.\<close>

lemma priv_safe:
  assumes "sdes_ok p"
  shows "defined (priv_prefix p)" "defined (priv_value p)"
proof -
  have "\<exists>r. priv_lengths p = Inr r \<and> (\<forall>l n c. r = Some (l, n) \<longrightarrow> currentchunk p = Some c \<longrightarrow>
      l + 1 \<le> n \<and> c + itemoffset p + 2 + n \<le> length (rtcp_data p))"
  proof (cases "knownformat p \<and> currentchunk p \<noteq> None")
    case False
    then show ?thesis by (auto simp: priv_lengths_def)
  next
    case True
    then obtain c where c: "currentchunk p = Some c" by blast
    let ?d = "rtcp_data p" and ?i = "c + itemoffset p"
    obtain e where e: "item_chain ?d ?i e" using walking_item [OF assms] True c by blast
    have i: "?i < length ?d" using item_chain_bound [OF e] by simp
    show ?thesis
    proof (cases "?d ! ?i = 8")
      case False
      then show ?thesis using True c i by (simp add: priv_lengths_def Let_def)
    next
      case priv: True
      then have "?i + 1 < length ?d" "item_chain ?d (?i + 2 + unat (?d ! (?i + 1))) e" using e by (auto elim: item_chainE)
      moreover from this(2) have "?i + 2 + unat (?d ! (?i + 1)) < length ?d" using item_chain_bound by fastforce
      moreover have "0 < unat (?d ! (?i + 1))" if "?d ! (?i + 1) \<noteq> 0" using that by (simp add: unat_gt_0)
      ultimately show ?thesis using True c i priv by (auto simp: priv_lengths_def Let_def)
    qed
  qed
  then obtain r where r: "priv_lengths p = Inr r" "\<And>l n c. r = Some (l, n) \<Longrightarrow> currentchunk p = Some c \<Longrightarrow>
      l + 1 \<le> n \<and> c + itemoffset p + 2 + n \<le> length (rtcp_data p)" by blast
  show "defined (priv_prefix p)" "defined (priv_value p)"
  proof -
    show "defined (priv_prefix p)"
      using r(1) r(2) [of "fst (the r)" "snd (the r)"]
      by (cases r; cases "currentchunk p") (auto simp: priv_prefix_def GetPRIVPrefixData_def GetPRIVPrefixLength_def memcpy_from_def)
    show "defined (priv_value p)"
      using r(1) r(2) [of "fst (the r)" "snd (the r)"]
      by (cases r; cases "currentchunk p") (auto simp: priv_value_def GetPRIVValueData_def GetPRIVValueLength_def memcpy_from_def)
  qed
qed

lemma process_item_settled:
  assumes "sdes_ok p"
  shows "settled (process_item k t sender p s)"
proof -
  have "settled (Inr (ProcessSDESNormalItem k ty item t sender s))" if "item_of p = Inr item" for ty item
    using normal_item_status [OF item_length [OF that], of k ty t sender s] by (cases "ProcessSDESNormalItem k ty item t sender s") (auto split: if_splits)
  moreover have "settled (Inr (ProcessSDESPrivateItem k pref val t sender s))" for pref val
    using private_item_status [of k pref val t sender s] by (cases "ProcessSDESPrivateItem k pref val t sender s") auto
  ultimately show ?thesis
    unfolding process_item_def using item_type_safe [OF assms] item_of_safe(1) [OF assms] priv_safe [OF assms]
    by (intro defined_bind) (auto intro!: defined_bind)
qed

lemma item_loop_settled:
  "sdes_ok p \<Longrightarrow> settled (sdes_item_loop k t sender p s) \<and> (\<forall>st p' s'. sdes_item_loop k t sender p s = Inr (st, p', s') \<longrightarrow> sdes_ok p')"
proof (induction k t sender p s rule: sdes_item_loop.induct)
  case (1 k t sender p s)
  obtain st s1 where item: "process_item k t sender p s = Inr (st, s1)" "st = 0 \<or> st = ERR_RTP_SOURCES_ILLEGALSDESTYPE"
    using process_item_settled [OF 1(2), of k t sender s] by (auto simp: settled_def)
  obtain again p' where step: "GotoNextItem p = Inr (again, p')" "sdes_ok p'" using next_item_ok [OF 1(2)] by blast
  show ?case
  proof (cases "st < 0")
    case True
    then show ?thesis using item 1(2) by (subst (1 2) sdes_item_loop.simps) simp
  next
    case False
    show ?thesis
    proof (cases again)
      case True
      then show ?thesis using 1(1) [OF item(1) refl False step(1) refl True step(2)] item(1) step(1) False
        by (subst (1 2) sdes_item_loop.simps) simp
    next
      case no: False
      then show ?thesis using item(1) step False by (subst (1 2) sdes_item_loop.simps) simp
    qed
  qed
qed

lemma process_chunk_settled:
  assumes "sdes_ok p"
  shows "settled (process_chunk t sender p s)" "process_chunk t sender p s = Inr (st, p', s') \<Longrightarrow> sdes_ok p'"
proof -
  obtain k where k: "GetChunkSSRC p = Inr k" using item_of_safe(2) [OF assms] by (auto simp: defined_iff)
  obtain got p1 where g: "GotoFirstItem p = Inr (got, p1)" "sdes_ok p1" using first_item_ok [OF assms] by blast
  show "settled (process_chunk t sender p s)"
    using k g item_loop_settled [OF g(2), of k t sender s] receive_time_status [of k t sender s]
    by (cases "UpdateReceiveTime k t sender s") (auto simp: process_chunk_def)
  show "sdes_ok p'" if "process_chunk t sender p s = Inr (st, p', s')"
    using that k g item_loop_settled [OF g(2), of k t sender s] by (auto simp: process_chunk_def split: if_splits prod.splits)
qed

lemma chunk_loop_settled: "sdes_ok p \<Longrightarrow> settled (sdes_chunk_loop t sender p s)"
proof (induction t sender p s rule: sdes_chunk_loop.induct)
  case (1 t sender p s)
  obtain st p1 s1 where item: "process_chunk t sender p s = Inr (st, p1, s1)" "st = 0 \<or> st = ERR_RTP_SOURCES_ILLEGALSDESTYPE"
    using process_chunk_settled(1) [OF 1(2), of t sender s] by (auto simp: settled_def)
  have p1: "sdes_ok p1" by (rule process_chunk_settled(2) [OF 1(2) item(1)])
  obtain again p2 where step: "GotoNextChunk p1 = Inr (again, p2)" "sdes_ok p2" using next_chunk_ok [OF p1] by blast
  show ?case
    using 1(1) [OF item(1) refl refl _ step(1) refl _ step(2)] item step(1) by (subst sdes_chunk_loop.simps) auto
qed

subsection \<open>Reports and goodbyes\<close>

lemma receiver_report_safe:
  assumes "readable p" "rtcp_type p = SR \<or> rtcp_type p = RR" "GetReceptionReportCount p = Inr n" "i < n"
  shows "defined (receiver_report_of i t p)"
  using report_safe [OF assms] by (auto simp: receiver_report_of_def defined_iff)

lemma settled_pair: "fst r = 0 \<Longrightarrow> settled (Inr r)"
  by (cases r) simp

lemma report_loop_settled:
  assumes "readable p" "rtcp_type p = SR \<or> rtcp_type p = RR" "GetReceptionReportCount p = Inr n"
  shows "\<forall>i \<in> set is. i < n \<Longrightarrow> settled (report_loop is own k p t sender got s)"
proof (induction "is" arbitrary: got s)
  case (Cons i r)
  have i: "i < n" using Cons.prems by simp
  have IH: "settled (report_loop r own k p t sender got s)" for got s using Cons by simp
  show ?case unfolding report_loop.simps
  proof (rule defined_bind [OF report_safe(1) [OF assms i]])
    fix k'
    have step: "settled (case ProcessRTCPReportBlock k rr sender s of (status, s1) \<Rightarrow>
         if status < 0 then Inr (status, True, s1) else report_loop r own k p t sender True s1)" for rr
      using report_block_status [of k rr sender s] IH by (cases "ProcessRTCPReportBlock k rr sender s") auto
    show "settled (if k' = own then ub_bind (receiver_report_of i t p) (\<lambda>rr. case ProcessRTCPReportBlock k rr sender s of (status, s1) \<Rightarrow>
           if status < 0 then Inr (status, True, s1) else report_loop r own k p t sender True s1)
       else report_loop r own k p t sender got s)"
      using IH by (simp add: defined_bind [OF receiver_report_safe [OF assms i] step])
  qed
qed simp

lemma reports_settled:
  assumes "readable p" "rtcp_type p = SR \<or> rtcp_type p = RR"
  shows "settled (process_reports own k p t sender s)"
proof -
  obtain n where n: "GetReceptionReportCount p = Inr n" using counts_defined(1) [OF assms(1)] by blast
  have loop: "settled (case own of None \<Rightarrow> Inr (0, False, s)
      | Some o' \<Rightarrow> ub_bind (GetReceptionReportCount p) (\<lambda>num. report_loop [0..<num] o' k p t sender False s))"
    using report_loop_settled [OF assms n, of "[0..<n]"] n by (cases own) auto
  show ?thesis
    unfolding process_reports_def by (rule settled_bind [OF loop]) (auto intro!: settled_pair receive_time_status)
qed

lemma sr_settled:
  assumes "readable p" "rtcp_type p = SR"
  shows "settled (process_sr own p t sender s)"
proof -
  have p: "rtcp_type p = SR \<or> rtcp_type p = RR" using assms(2) by simp
  have "settled (case ProcessRTCPSenderInfo k sr sender s of (status, s1) \<Rightarrow>
      if status < 0 then Inr (status, s1) else process_reports own k p t sender s1)" for k sr
    using sender_info_status [of k sr sender s] reports_settled [OF assms(1) p] by (cases "ProcessRTCPSenderInfo k sr sender s") auto
  then show ?thesis
    unfolding process_sr_def by (intro defined_bind sender_safe [OF assms(1) p] assms(2))
qed

lemma rr_settled:
  assumes "readable p" "rtcp_type p = RR"
  shows "settled (process_rr own p t sender s)"
  unfolding process_rr_def
  by (rule defined_bind [OF sender_safe(1)]; (rule reports_settled)?; use assms in simp)

lemma bye_loop_settled:
  assumes "readable p" "rtcp_type p = BYE" "GetSSRCCount p = Inr n"
  shows "\<forall>i \<in> set is. i < n \<Longrightarrow> settled (bye_loop is p t sender s)"
proof (induction "is" arbitrary: s)
  case (Cons i r)
  have IH: "settled (bye_loop r p t sender s)" for s using Cons by simp
  have "settled (case ProcessBYE k reason t sender s of (status, s1) \<Rightarrow>
       if status < 0 then Inr (status, s1) else bye_loop r p t sender s1)" for k reason
    using bye_status [of k reason t sender s] IH by (cases "ProcessBYE k reason t sender s") auto
  then show ?case unfolding bye_loop.simps
    using bye_safe(1) [OF assms(1,2,3)] bye_safe(2) [OF assms(1,2)] Cons.prems by (intro defined_bind) auto
qed simp

subsection \<open>Datagrams\<close>

lemma process_rtcp_settled:
  assumes "readable p" "fresh p"
  shows "settled (process_rtcp own t sender p s)"
proof -
  have sdes: "settled (process_sdes p t sender s)" if sd: "rtcp_type p = SDES"
  proof -
    obtain got p1 where "GotoFirstChunk p = Inr (got, p1)" "sdes_ok p1"
      using first_chunk_ok [OF parsed_sdes_ok [OF assms sd]] by blast
    then show ?thesis using chunk_loop_settled [of p1 t sender s] by (simp add: process_sdes_def)
  qed
  have bye: "settled (process_bye p t sender s)" if ty: "rtcp_type p = BYE"
  proof -
    obtain n where "GetSSRCCount p = Inr n" using counts_defined(2) [OF assms(1)] by blast
    then show ?thesis using bye_loop_settled [OF assms(1) ty, of n "[0..<n]"] by (simp add: process_bye_def)
  qed
  show ?thesis
    unfolding process_rtcp_def using sdes bye sr_settled [OF assms(1)] rr_settled [OF assms(1)]
    by (auto split: rtcp_type.split)
qed

lemma rtcp_loop_settled: "\<forall>p \<in> set ps. readable p \<and> fresh p \<Longrightarrow> settled (rtcp_loop own t sender ps s)"
proof (induction ps arbitrary: s)
  case (Cons p ps)
  show ?case unfolding rtcp_loop.simps
    by (rule settled_bind [OF process_rtcp_settled]) (use Cons in auto)
qed simp

lemma rtcp_datagram_settled:
  assumes "\<not> raw_isrtp rawpack" "raw_length rawpack = length (raw_data rawpack)"
  shows "settled (ProcessRawPacket rawpack t senderaddress own acceptown s)"
proof -
  obtain r where r: "ParseData (raw_data rawpack) = Inr r" "\<forall>ps. r = Some ps \<longrightarrow> parsed True (raw_data rawpack) ps"
    using ParseData_safe by blast
  show ?thesis
  proof (cases r)
    case None
    then show ?thesis using assms r by (simp add: ProcessRawPacket_def RTCPCompoundPacket_def memcpy_from_def)
  next
    case (Some ps)
    then have "settled (ProcessRTCPCompoundPacket ps t a s)" for a
      using r(2) unfolding ProcessRTCPCompoundPacket_def by (intro rtcp_loop_settled) (simp add: parsed_def)
    then show ?thesis
      using assms r Some
      by (auto simp: ProcessRawPacket_def RTCPCompoundPacket_def memcpy_from_def intro!: settled_bind split: if_splits)
  qed
qed

lemma parse_error: "ParseRawPacket r = Inr q \<Longrightarrow> error q = 0 \<or> error q = ERR_RTP_PACKET_INVALIDPACKET"
  by (auto simp: ParseRawPacket_def parse_fields_def Let_def ub_bind_eq_Inr failed_def Clear_def split: if_splits option.splits)

lemma csrcs_defined:
  "12 + 4 * numcsrcs p \<le> length (packet p) \<Longrightarrow> defined (read_csrcs p is)"
proof (induction "is")
  case (Cons i r)
  have "\<exists>c. GetCSRC (int i) p = Inr c"
    using rd32_in [of "12 + 4 * i" "packet p"] Cons.prems by (cases "numcsrcs p \<le> i") (simp_all add: GetCSRC_def nat_add_distrib nat_mult_distrib)
  then show ?case using Cons by (auto simp: defined_iff)
qed simp

lemma sources_rtp_defined:
  assumes "12 + 4 * numcsrcs p \<le> length (packet p)"
  shows "\<exists>stored s'. sources_ProcessRTPPacket p t sender s = Inr (stored, s')"
proof -
  obtain cs where "read_csrcs p [0..<RTP_CSRCS p] = Inr cs" using csrcs_defined [OF assms] by (auto simp: defined_iff)
  then show ?thesis
    by (auto simp: sources_ProcessRTPPacket_def Let_def case_prod_unfold)
qed

lemma rtp_datagram_settled:
  assumes "raw_isrtp rawpack" "raw_length rawpack = length (raw_data rawpack)" "length (raw_data rawpack) < 2 ^ 31"
  shows "(ProcessRawPacket rawpack t senderaddress own acceptown s = Inl Overread \<and> extension_cut (raw_data rawpack)) \<or>
    (\<exists>status s'. ProcessRawPacket rawpack t senderaddress own acceptown s = Inr (status, s') \<and> status = 0)"
proof (cases "ParseRawPacket rawpack = Inl Overread \<and> extension_cut (raw_data rawpack)")
  case True
  then show ?thesis using assms(1) by (simp add: ProcessRawPacket_def)
next
  case False
  then obtain q pad where q: "ParseRawPacket rawpack = Inr q" "error q = 0 \<longrightarrow> 12 + 4 * numcsrcs q \<le> payload q \<and>
      payload q + payloadlength q + pad = length (packet q)"
    using ParseRawPacket_cases [OF assms(2,3)] by blast
  show ?thesis
  proof (cases "error q = 0")
    case True
    then have "12 + 4 * numcsrcs q \<le> length (packet q)" using q(2) by simp
    from sources_rtp_defined [OF this, of t "if own then None else senderaddress" s]
    show ?thesis using assms(1) q(1) True by (auto simp: ProcessRawPacket_def)
  next
    case False
    then show ?thesis using assms(1) q(1) parse_error [OF q(1)] by (auto simp: ProcessRawPacket_def)
  qed
qed

subsection \<open>Packets from elsewhere\<close>

text \<open>A packet of this kind from \<open>a\<close> collides with the source.\<close>

definition stranger :: "rtp_address option \<Rightarrow> bool \<Rightarrow> source_entry \<Rightarrow> bool" where
  "stranger a isrtp d \<longleftrightarrow>
     (if if isrtp then isrtpaddrset d else isrtcpaddrset d then (if isrtp then rtpaddr d else rtcpaddr d) \<noteq> a
      else (if isrtp then isrtcpaddrset d else isrtpaddrset d) \<and>
        (case if isrtp then rtcpaddr d else rtpaddr d of None \<Rightarrow> a \<noteq> None | Some b \<Rightarrow> \<not> IsFromSameHost b a))"

definition elsewhere :: "rtp_address option \<Rightarrow> source_entry \<Rightarrow> bool" where
  "elsewhere a d \<longleftrightarrow> stranger a True d \<and> stranger a False d"

lemma same_address: "IsSameAddress a x \<longleftrightarrow> x = Some a"
  by (cases a; cases x; cases "the x") auto

lemma stranger_collides:
  assumes "find_source k s = Some d" "stranger a isrtp d"
  shows "CheckCollision k a isrtp s = (True, callback (Ev_SSRCCollision d a isrtp) s)"
  using assms
  by (cases isrtp; cases a) (auto simp: CheckCollision_def Let_def the_source_def stranger_def same_address split: if_splits option.splits)

lemma check_other: "CheckCollision k a isrtp s = (collision, s1) \<Longrightarrow> k' \<noteq> k \<Longrightarrow> find_source k' s1 = find_source k' s"
  using check_cases [of k a isrtp s collision s1] by auto

lemma search_finds:
  assumes "ObtainSourceDataInstance k s = (is_new, s1)" "find_source k' s = Some d"
  shows "find_source k' s1 = Some d" "is_new \<Longrightarrow> k \<noteq> k'"
proof -
  have "find_source k' (s\<lparr>currentsource := None, totalcount := n\<rparr>) = Some d" for n
    using assms(2) by (simp add: find_source_def)
  then show "find_source k' s1 = Some d" "is_new \<Longrightarrow> k \<noteq> k'"
    using assms by (auto simp: ObtainSourceDataInstance_def split: option.splits if_splits)
qed

interpretation far: table_steps "\<lambda>s. elsewhere sender d0 \<longrightarrow> find_source k0 s = Some d0" "\<lambda>k s. elsewhere sender d0 \<longrightarrow> k \<noteq> k0" sender
  for sender d0 k0
proof unfold_locales
  fix s k is_new s1
  assume "elsewhere sender d0 \<longrightarrow> find_source k0 s = Some d0" "ObtainSourceDataInstance k s = (is_new, s1)"
  then show "elsewhere sender d0 \<longrightarrow> find_source k0 s1 = Some d0" using search_finds(1) by blast
next
  fix s k s1
  assume "elsewhere sender d0 \<longrightarrow> find_source k0 s = Some d0" "ObtainSourceDataInstance k s = (True, s1)"
  then show "elsewhere sender d0 \<longrightarrow> k \<noteq> k0" using search_finds(2) by blast
next
  fix s k d isrtp collision s1
  assume a: "elsewhere sender d0 \<longrightarrow> find_source k0 s = Some d0" "CheckCollision k sender isrtp s = (collision, s1)"
  show "elsewhere sender d0 \<longrightarrow> find_source k0 s1 = Some d0"
  proof
    assume far: "elsewhere sender d0"
    then have "stranger sender isrtp d0" by (cases isrtp) (simp_all add: elsewhere_def)
    then show "find_source k0 s1 = Some d0"
      using a far stranger_collides [of k0 s d0 sender isrtp] check_other [OF a(2), of k0] by (cases "k = k0") auto
  qed
next
  fix s k d isrtp s1
  assume a: "elsewhere sender d0 \<longrightarrow> find_source k0 s = Some d0" "CheckCollision k sender isrtp s = (False, s1)"
  show "elsewhere sender d0 \<longrightarrow> k \<noteq> k0"
  proof
    assume far: "elsewhere sender d0"
    then have "stranger sender isrtp d0" by (cases isrtp) (simp_all add: elsewhere_def)
    then show "k \<noteq> k0" using a far stranger_collides [of k0 s d0 sender isrtp] by auto
  qed
qed auto

end
