(* ===== verification/Rtp_Session_Sources.thy ===== *)
theory Rtp_Session_Sources
  imports Rtp_Table_Safety
begin

section \<open>From datagrams to the session's callbacks (rtpsessionsources.cpp)\<close>

text \<open>
  \<open>RTPSessionSources\<close> passes the callbacks of the table to the session. \<open>MyRTPUDPSession\<close> and
  \<open>MyRTPTCPSession\<close> override three of them, \<open>Rtp_Session\<close> models those; the others do nothing. The
  RTCP scheduler and the flag for a collision with the session's own identifier, which these functions also
  set, are not modelled. The properties follow a goodbye from its bytes to the callback of the user.
\<close>

text \<open>The source as the session sees it; it takes every address for one of IPv4.\<close>

definition ipv4_view :: "rtp_address option \<Rightarrow> (u32 \<times> u16) option" where
  "ipv4_view a = (case a of Some (RTPIPv4Address ip port) \<Rightarrow> Some (ip, port) | _ \<Rightarrow> None)"

definition client_view :: "source_entry \<Rightarrow> source_data" where
  "client_view d = \<lparr>IsOwnSSRC = ownssrc (main d), ReceivedBYE = receivedbye (main d),
     RTPDataAddress = ipv4_view (rtpaddr d), RTCPDataAddress = ipv4_view (rtcpaddr d)\<rparr>"

definition session_callback :: "source_event \<Rightarrow> rtp_session \<Rightarrow> ub + rtp_session" where
  "session_callback e c =
     (case e of
        Ev_NewSource d \<Rightarrow> Inr (OnNewSource (client_view d) c)
      | Ev_RemoveSource d \<Rightarrow> OnRemoveSource (client_view d) c
      | Ev_BYEPacket d \<Rightarrow> OnBYEPacket (client_view d) c
      | _ \<Rightarrow> Inr c)"

fun session_callbacks :: "source_event list \<Rightarrow> rtp_session \<Rightarrow> ub + rtp_session" where
  "session_callbacks [] c = Inr c"
| "session_callbacks (e # es) c = ub_bind (session_callback e c) (session_callbacks es)"

lemma callbacks_append: "session_callbacks (es @ fs) c = ub_bind (session_callbacks es c) (session_callbacks fs)"
  proof (induction es arbitrary: c)
  case (Cons e es)
  then show ?case by (cases "session_callback e c") simp_all
qed simp

subsection \<open>A source that is known\<close>

lemma known_source:
  assumes "find_source k s = Some d" "isrtcpaddrset d" "rtcpaddr d = Some a"
  shows "with_rtcp_source k (Some a) f s = f False (s\<lparr>currentsource := Some k\<rparr>)"
proof -
  have "CheckCollision k (Some a) False (s\<lparr>currentsource := Some k\<rparr>) = (False, s\<lparr>currentsource := Some k\<rparr>)"
    using assms by (simp add: CheckCollision_def the_source_def same_address)
  then show ?thesis using assms(1) by (simp add: with_rtcp_source_def GetRTCPSourceData_def ObtainSourceDataInstance_def)
qed

lemma message_time_simps [simp]:
  "isrtcpaddrset (UpdateMessageTime t d) = isrtcpaddrset d" "rtcpaddr (UpdateMessageTime t d) = rtcpaddr d"
  "rtpaddr (UpdateMessageTime t d) = rtpaddr d" "IsActive (main (UpdateMessageTime t d)) = IsActive (main d)"
  "ownssrc (main (UpdateMessageTime t d)) = ownssrc (main d)"
  by (simp_all add: UpdateMessageTime_def IsActive_def)

lemma known_time:
  assumes "find_source k s = Some d" "isrtcpaddrset d" "rtcpaddr d = Some a"
  shows "UpdateReceiveTime k t (Some a) s = (0, put_source k (UpdateMessageTime t d) (s\<lparr>currentsource := Some k\<rparr>))"
  unfolding UpdateReceiveTime_def known_source [OF assms]
  using assms(1) by (simp add: new_source_callback_def the_source_def)

lemma bye_active: "\<not> IsActive (main (entry_ProcessBYEPacket reason t d))"
  by (simp add: entry_ProcessBYEPacket_def ProcessBYEPacket_def IsActive_def)

lemma known_bye:
  assumes "find_source k s = Some d" "isrtcpaddrset d" "rtcpaddr d = Some a" "owndata s \<noteq> Some k"
  shows "\<exists>s'. ProcessBYE k reason t (Some a) s = (0, s') \<and> find_source k s' = Some (entry_ProcessBYEPacket reason t d) \<and>
    activecount s' = activecount s - of_bool (IsActive (main d)) \<and> owndata s' = owndata s \<and>
    events s' = events s @ [Ev_BYEPacket (entry_ProcessBYEPacket reason t d)]"
proof -
  let ?d = "entry_ProcessBYEPacket reason t d"
  have "find_source k (put_source k ?d (s\<lparr>currentsource := Some k\<rparr>)\<lparr>activecount := n\<rparr>) = Some ?d" for n
    by (simp add: find_source_def put_source_def AList.update_conv')
  then show ?thesis
    unfolding ProcessBYE_def known_source [OF assms(1-3)]
    using assms(1,4) bye_active [of reason t d]
    by (simp add: the_source_def new_source_callback_def callback_def put_source_def find_source_def AList.update_conv' Let_def)
qed

subsection \<open>A goodbye\<close>

text \<open>The datagram: an empty receiver report and a BYE with the reason.\<close>

definition goodbye_datagram :: "u32 \<Rightarrow> byte list \<Rightarrow> raw_packet" where
  "goodbye_datagram k reason =
     (let d = rr_bytes k @ bye_bytes [k] reason in \<lparr>raw_data = d, raw_length = length d, raw_isrtp = False\<rparr>)"

lemma goodbye_parsed:
  assumes "length reason < 256"
  shows "\<exists>rr bye. RTCPCompoundPacket (goodbye_datagram k reason) = Inr (0, [rr, bye]) \<and>
    knownformat rr \<and> rtcp_type rr = RR \<and> GetSenderSSRC rr = Inr k \<and> GetReceptionReportCount rr = Inr 0 \<and>
    knownformat bye \<and> rtcp_type bye = BYE \<and> GetSSRCCount bye = Inr 1 \<and> bye_GetSSRC 0 bye = Inr k \<and> reason_of bye = Inr reason"
proof -
  let ?rr = "(new_rtcp RR (rr_bytes k))\<lparr>knownformat := True\<rparr>"
  let ?bye = "(new_rtcp BYE (bye_bytes [k] reason))\<lparr>knownformat := True, reasonoffset := (if reason = [] then 0 else 4 + 4 * length [k])\<rparr>"
  have l: "length [k] < 32" by simp
  have "rtcp_count 0x80 = 0" by code_simp
  then have "GetReceptionReportCount ?rr = Inr 0" by (simp add: GetReceptionReportCount_def rr_bytes_def)
  moreover have "RTCPCompoundPacket (goodbye_datagram k reason) = Inr (0, [?rr, ?bye])"
    using rr_bye_parsed [OF l assms, of k] by (simp add: RTCPCompoundPacket_def goodbye_datagram_def Let_def memcpy_from_def)
  ultimately show ?thesis using rr_sender [of k] bye_getters [OF l assms, of ?bye, OF refl]
    by (intro exI [of _ ?rr] exI [of _ ?bye]) simp
qed

lemma goodbye_known:
  fixes t :: rtp_time
  assumes "length reason < 256" "find_source k s = Some d" "isrtcpaddrset d" "rtcpaddr d = Some a" "owndata s \<noteq> Some k"
  defines "d1 \<equiv> entry_ProcessBYEPacket reason t (UpdateMessageTime t d)"
  shows "\<exists>s'. ProcessRawPacket (goodbye_datagram k reason) t (Some a) False accept s = Inr (0, s') \<and>
    find_source k s' = Some d1 \<and> activecount s' = activecount s - of_bool (IsActive (main d)) \<and> owndata s' = owndata s \<and>
    events s' = events s @ [Ev_RTCPCompoundPacket (Some a), Ev_BYEPacket d1]"
proof -
  obtain rr bye where p: "RTCPCompoundPacket (goodbye_datagram k reason) = Inr (0, [rr, bye])"
    "knownformat rr" "rtcp_type rr = RR" "GetSenderSSRC rr = Inr k" "GetReceptionReportCount rr = Inr 0"
    "knownformat bye" "rtcp_type bye = BYE" "GetSSRCCount bye = Inr 1" "bye_GetSSRC 0 bye = Inr k" "reason_of bye = Inr reason"
    using goodbye_parsed [OF assms(1)] by blast
  define s1 where "s1 = callback (Ev_RTCPCompoundPacket (Some a)) s"
  define s2 where "s2 = put_source k (UpdateMessageTime t d) (s1\<lparr>currentsource := Some k\<rparr>)"
  have rr: "process_rtcp (owndata s) t (Some a) rr s1 = Inr (0, s2)"
    using p known_time [of k s1 d a t] assms(2-4)
    by (simp add: process_rtcp_def process_rr_def process_reports_def s1_def s2_def split: option.split)
  have s2: "find_source k s2 = Some (UpdateMessageTime t d)" "owndata s2 = owndata s" "activecount s2 = activecount s"
      "events s2 = events s @ [Ev_RTCPCompoundPacket (Some a)]"
    by (simp_all add: s2_def s1_def) (simp_all add: put_source_def callback_def)
  obtain s' where s': "ProcessBYE k reason t (Some a) s2 = (0, s')" "find_source k s' = Some d1"
    "activecount s' = activecount s2 - of_bool (IsActive (main (UpdateMessageTime t d)))" "owndata s' = owndata s2"
    "events s' = events s2 @ [Ev_BYEPacket d1]"
    using known_bye [OF s2(1), of a reason t] assms(3-5) s2(2) unfolding d1_def by auto
  have bye: "process_rtcp (owndata s) t (Some a) bye s2 = Inr (0, s')"
    using p s'(1) by (simp add: process_rtcp_def process_bye_def)
  have "ProcessRTCPCompoundPacket [rr, bye] t (Some a) s = Inr (0, s')"
    using rr bye by (simp add: ProcessRTCPCompoundPacket_def s1_def [symmetric])
  then have "ProcessRawPacket (goodbye_datagram k reason) t (Some a) False accept s = Inr (0, s')"
    using p(1) by (simp add: ProcessRawPacket_def goodbye_datagram_def Let_def)
  then show ?thesis using s' s2 by simp
qed

lemma bye_view:
  "ownssrc (main (entry_ProcessBYEPacket reason t (UpdateMessageTime t d))) = ownssrc (main d)"
  "rtpaddr (entry_ProcessBYEPacket reason t (UpdateMessageTime t d)) = rtpaddr d"
  "rtcpaddr (entry_ProcessBYEPacket reason t (UpdateMessageTime t d)) = rtcpaddr d"
  "receivedbye (main (entry_ProcessBYEPacket reason t d'))" "byereason (entry_ProcessBYEPacket reason t d') = reason"
  "byetime (entry_ProcessBYEPacket reason t d') = t"
  by (simp_all add: entry_ProcessBYEPacket_def ProcessBYEPacket_def UpdateMessageTime_def)

lemma view_address:
  "source_address (client_view d) =
     (case ipv4_view (rtpaddr d) of Some (ip, port) \<Rightarrow> Some (RTPIPv4Address ip port)
      | None \<Rightarrow> map_option (\<lambda>(ip, port). RTPIPv4Address ip (port - 1)) (ipv4_view (rtcpaddr d)))"
  by (cases "ipv4_view (rtpaddr d)") (simp_all add: client_view_def source_address_def)

lemma goodbye_callback:
  assumes "ownssrc (main d) = False" "session_kind c = TCP_Session \<or> source_address (client_view d) \<noteq> None"
    and "DestroiedClbk c = Some (Some f)"
  shows "\<exists>c'. OnBYEPacket (client_view d) c = Inr c' \<and> clbk_calls c' = clbk_calls c @ [f] \<and>
    DestroiedClbk c' = DestroiedClbk c \<and> session_kind c' = session_kind c"
  using assms
  by (cases "session_kind c") (auto simp: OnBYEPacket_def tcp_OnBYEPacket_def udp_OnBYEPacket_def run_destroied_clbk_def
      DeleteDestination_def client_view_def)

lemma removal_callback:
  assumes "ownssrc (main d) = False" "receivedbye (main d)" "DestroiedClbk c = Some (Some f)"
  shows "\<exists>c'. OnRemoveSource (client_view d) c = Inr c' \<and>
    clbk_calls c' = clbk_calls c @ (case session_kind c of TCP_Session \<Rightarrow> [f] | UDP_Session \<Rightarrow> [])"
  using assms
  by (cases "session_kind c") (auto simp: OnRemoveSource_def tcp_OnRemoveSource_def udp_OnRemoveSource_def
      run_destroied_clbk_def client_view_def)

lemma one_bye_timeout:
  assumes "map_of l k = Some d" "receivedbye (main d)" "own \<noteq> Some k" "byetime d < checktime" "distinct (map fst l)"
    and "\<forall>e \<in> set l. fst e \<noteq> k \<longrightarrow> \<not> receivedbye (main (snd e))"
  shows "\<exists>c. bye_timeout_loop own checktime l = (AList.delete k l, c, [Ev_BYETimeout d, Ev_RemoveSource d])"
  using assms
proof (induction l)
  case (Cons e l)
  have none: "k \<notin> fst ` set l \<Longrightarrow> \<forall>e \<in> set l. \<not> receivedbye (main (snd e)) \<Longrightarrow> \<exists>c. bye_timeout_loop own checktime l = (l, c, [])" for l
  proof (induction l)
    case (Cons e l)
    then show ?case by (cases e) (auto simp: keep_def count_in_def)
  qed simp
  show ?case
  proof (cases "fst e = k")
    case True
    then have "k \<notin> fst ` set l" using Cons.prems(5) by auto
    moreover from this have "AList.delete k l = l" by (simp add: AList.delete_eq filter_id_conv) force
    moreover obtain c where "bye_timeout_loop own checktime l = (l, c, [])" using none [of l] calculation(1) Cons.prems(6) by fastforce
    ultimately show ?thesis using True Cons.prems by (cases e; cases c) (simp add: remove_source_def AList.delete_eq)
  next
    case False
    then show ?thesis using Cons by (cases e) (auto simp: keep_def count_in_def AList.delete_eq)
  qed
qed simp

subsection \<open>Properties\<close>

text \<open>C36: A source that is known by the address its RTCP packets come from is protected: whatever RTP or RTCP
  packet arrives from another address, even one that carries a goodbye for it, its entry stays as it is. For a
  source known by one kind of packets only, another host counts as elsewhere for the other kind.\<close>

theorem foreign_packet_ignored:
  assumes "find_source k s = Some d" "elsewhere (if own then None else senderaddress) d"
    and "ProcessRawPacket rawpack t senderaddress own accept s = Inr (status, s')"
  shows "find_source k s' = Some d"
  using far.raw_packet_I [where s = s and sender = "if own then None else senderaddress" and own = own and senderaddress = senderaddress
      and ?d0.0 = d and ?k0.0 = k] assms by (auto simp: after_def)

lemma sample_source_found: "find_source 5 sample_table = Some sample_source"
  using sample_found by (auto simp: sample_source_def the_source_def GotEntry_def)

lemma sample_source_state: "isrtcpaddrset sample_source" "rtcpaddr sample_source = Some sample_address" "owndata sample_table = Some 7"
    "\<not> IsActive (main sample_source)" "rtpaddr sample_source = None" "\<not> isrtpaddrset sample_source"
  by code_simp+

lemma sample_elsewhere: "elsewhere (Some (RTPIPv4Address 2 10331)) sample_source"
  by (simp add: elsewhere_def stranger_def sample_source_state sample_address_def)

theorem foreign_packet_ignored_witness:
  "\<exists>status s'. ProcessRawPacket (goodbye_datagram 5 []) 11 (Some (RTPIPv4Address 2 10331)) False False sample_table = Inr (status, s') \<and>
     find_source 5 s' = Some sample_source"
proof -
  have "settled (ProcessRawPacket (goodbye_datagram 5 []) 11 (Some (RTPIPv4Address 2 10331)) False False sample_table)"
    by (rule rtcp_datagram_settled) (simp_all add: goodbye_datagram_def Let_def)
  then show ?thesis
    using foreign_packet_ignored [OF sample_source_found, of False "Some (RTPIPv4Address 2 10331)"] sample_elsewhere
    by (fastforce simp: settled_def)
qed

text \<open>C37: No datagram stops the table: an RTP packet is processed with status 0, unless its header extension is
  cut off, where the parser reads outside it; an RTCP packet is processed with status 0, or with the one for an SDES
  item of a type the table does not know. In particular the loops over chunks and items, which have no bound of
  their own, end.\<close>

theorem datagram_processed:
  assumes "raw_length rawpack = length (raw_data rawpack)" "length (raw_data rawpack) < 2 ^ 31"
  shows "(ProcessRawPacket rawpack t senderaddress own accept s = Inl Overread \<and> raw_isrtp rawpack \<and> extension_cut (raw_data rawpack)) \<or>
    (\<exists>status s'. ProcessRawPacket rawpack t senderaddress own accept s = Inr (status, s') \<and>
      (status = 0 \<or> \<not> raw_isrtp rawpack \<and> status = ERR_RTP_SOURCES_ILLEGALSDESTYPE))"
  using rtcp_datagram_settled [OF _ assms(1), of t senderaddress own accept s] rtp_datagram_settled [OF _ assms, of t senderaddress own accept s]
  by (cases "raw_isrtp rawpack") (auto simp: settled_def)

theorem datagram_processed_witness:
  "\<exists>status s'. ProcessRawPacket (goodbye_datagram 9 [98, 121, 101]) 11 None True True sample_table = Inr (status, s')"
proof -
  let ?g = "goodbye_datagram 9 [98, 121, 101]"
  have "raw_length ?g = length (raw_data ?g)" "\<not> raw_isrtp ?g" by (simp_all add: goodbye_datagram_def Let_def)
  moreover have "length (raw_data ?g) < 100"
    using align4_bounds(2) [of "Suc (Suc (Suc (Suc 0)))"] by (simp add: goodbye_datagram_def Let_def rr_bytes_def bye_length)
  then have "length (raw_data ?g) < 2 ^ 31" by simp
  ultimately show ?thesis using datagram_processed [of ?g 11 None True True sample_table] by auto
qed

text \<open>C38: A goodbye reaches the user: if source \<open>k\<close> is known at the address it comes from, the bytes of its
  goodbye mark it as gone with the reason and the time, it no longer counts as active, and the callback the user
  set for the end of a session runs once.\<close>

theorem goodbye_reaches_session:
  assumes "table_reach s" "length reason < 256" "find_source k s = Some d" "isrtcpaddrset d" "rtcpaddr d = Some a" "owndata s \<noteq> Some k"
    and "session_kind c = TCP_Session \<or> source_address (client_view d) \<noteq> None" "DestroiedClbk c = Some (Some f)"
  shows "\<exists>s' d' evs c'. ProcessRawPacket (goodbye_datagram k reason) t (Some a) False accept s = Inr (0, s') \<and>
    find_source k s' = Some d' \<and> receivedbye (main d') \<and> byereason d' = reason \<and> byetime d' = t \<and>
    activecount s' = activecount s - of_bool (IsActive (main d)) \<and> events s' = events s @ evs \<and>
    session_callbacks evs c = Inr c' \<and> clbk_calls c' = clbk_calls c @ [f]"
proof -
  let ?d = "entry_ProcessBYEPacket reason t (UpdateMessageTime t d)"
  obtain s' where s': "ProcessRawPacket (goodbye_datagram k reason) t (Some a) False accept s = Inr (0, s')"
    "find_source k s' = Some ?d" "activecount s' = activecount s - of_bool (IsActive (main d))"
    "events s' = events s @ [Ev_RTCPCompoundPacket (Some a), Ev_BYEPacket ?d]"
    using goodbye_known [OF assms(2-6)] by blast
  have "ownssrc (main ?d) = False" using reach_table_ok [OF assms(1)] assms(3,6) by (auto simp: table_ok_def bye_view)
  moreover have "session_kind c = TCP_Session \<or> source_address (client_view ?d) \<noteq> None"
    using assms(7) by (simp only: view_address [of ?d] view_address [of d] bye_view)
  ultimately obtain c' where "OnBYEPacket (client_view ?d) c = Inr c'" "clbk_calls c' = clbk_calls c @ [f]"
    using goodbye_callback [OF _ _ assms(8)] by blast
  then have "session_callbacks [Ev_RTCPCompoundPacket (Some a), Ev_BYEPacket ?d] c = Inr c' \<and> clbk_calls c' = clbk_calls c @ [f]"
    by (simp add: session_callback_def)
  then show ?thesis using s' bye_view(4-6) by blast
qed

lemma sample_view: "source_address (client_view sample_source) = Some (RTPIPv4Address 1 10330)"
  by (simp add: view_address sample_source_state sample_address_def ipv4_view_def)

theorem goodbye_reaches_session_witness:
  "\<exists>s' d' evs c'. ProcessRawPacket (goodbye_datagram 5 [98, 121, 101]) 11 (Some sample_address) False False sample_table = Inr (0, s') \<and>
     find_source 5 s' = Some d' \<and> byereason d' = [98, 121, 101] \<and> events s' = events sample_table @ evs \<and>
     session_callbacks evs (session_SetDestroiedClbk (Some 3) (new_udp_session [])) = Inr c' \<and> clbk_calls c' = [3]"
proof -
  let ?c = "session_SetDestroiedClbk (Some 3) (new_udp_session [])"
  have c: "DestroiedClbk ?c = Some (Some 3)" "clbk_calls ?c = []" by (simp_all add: session_SetDestroiedClbk_def new_udp_session_def)
  have own: "owndata sample_table \<noteq> Some 5" by (simp add: sample_source_state)
  show ?thesis
    using goodbye_reaches_session [OF sample_table_reach _ sample_source_found sample_source_state(1,2) own _ c(1),
        of "[98, 121, 101]" 11 False] c(2) by (auto simp: sample_view)
qed

text \<open>When the source that said goodbye times out, the table removes it; the callback then runs a second
  time in a session over TCP, and does not in one over UDP, which asks whether the goodbye was seen.\<close>

theorem goodbye_timeout_callback:
  assumes "table_reach s" "find_source k s = Some d" "receivedbye (main d)" "owndata s \<noteq> Some k" "byetime d < checktime"
    and "\<forall>e \<in> set (sourcelist s). fst e \<noteq> k \<longrightarrow> \<not> receivedbye (main (snd e))" "DestroiedClbk c = Some (Some f)"
  shows "\<exists>evs c'. find_source k (BYETimeout checktime s) = None \<and> events (BYETimeout checktime s) = events s @ evs \<and>
    session_callbacks evs c = Inr c' \<and>
    clbk_calls c' = clbk_calls c @ (case session_kind c of TCP_Session \<Rightarrow> [f] | UDP_Session \<Rightarrow> [])"
proof -
  have ok: "table_ok s" by (rule reach_table_ok [OF assms(1)])
  then obtain n where n: "bye_timeout_loop (owndata s) checktime (sourcelist s) =
      (AList.delete k (sourcelist s), n, [Ev_BYETimeout d, Ev_RemoveSource d])"
    using one_bye_timeout [of "sourcelist s" k d "owndata s" checktime] assms(2-6) by (auto simp: table_ok_def find_source_def)
  then have "find_source k (BYETimeout checktime s) = None" "events (BYETimeout checktime s) = events s @ [Ev_BYETimeout d, Ev_RemoveSource d]"
    by (simp_all add: BYETimeout_def finish_timeout_def find_source_def AList.delete_conv' split: prod.split)
  moreover have "ownssrc (main d) = False" using ok assms(2,4) by (auto simp: table_ok_def)
  then obtain c' where "OnRemoveSource (client_view d) c = Inr c'"
      "clbk_calls c' = clbk_calls c @ (case session_kind c of TCP_Session \<Rightarrow> [f] | UDP_Session \<Rightarrow> [])"
    using removal_callback [OF _ assms(3,7)] by blast
  then have "session_callbacks [Ev_BYETimeout d, Ev_RemoveSource d] c = Inr c' \<and>
      clbk_calls c' = clbk_calls c @ (case session_kind c of TCP_Session \<Rightarrow> [f] | UDP_Session \<Rightarrow> [])"
    by (simp add: session_callback_def)
  ultimately show ?thesis by blast
qed

text \<open>The same session after the goodbye.\<close>

definition sample_left :: rtp_sources where
  "sample_left =
     (case ProcessRawPacket (goodbye_datagram 5 []) 11 (Some sample_address) False False sample_table of
        Inl e \<Rightarrow> sample_table | Inr (status, s) \<Rightarrow> s)"

lemma sample_left_state:
  "table_reach sample_left" "find_source 5 sample_left = Some (the_source 5 sample_left)" "receivedbye (main (the_source 5 sample_left))"
  "owndata sample_left \<noteq> Some 5" "byetime (the_source 5 sample_left) = 11"
  "\<forall>e \<in> set (sourcelist sample_left). fst e \<noteq> 5 \<longrightarrow> \<not> receivedbye (main (snd e))"
proof -
  show "table_reach sample_left"
    unfolding sample_left_def using sample_table_reach by (auto split: sum.split intro: table_packet)
  have "GotEntry 5 sample_left" by code_simp
  then show "find_source 5 sample_left = Some (the_source 5 sample_left)" by (auto simp: GotEntry_def the_source_def)
  show "receivedbye (main (the_source 5 sample_left))" "owndata sample_left \<noteq> Some 5" "byetime (the_source 5 sample_left) = 11"
    "\<forall>e \<in> set (sourcelist sample_left). fst e \<noteq> 5 \<longrightarrow> \<not> receivedbye (main (snd e))"
    by code_simp+
qed

theorem goodbye_timeout_callback_witness:
  "\<exists>evs c'. find_source 5 (BYETimeout 20 sample_left) = None \<and> events (BYETimeout 20 sample_left) = events sample_left @ evs \<and>
     session_callbacks evs (session_SetDestroiedClbk (Some 3) (new_tcp_session [] [])) = Inr c' \<and> clbk_calls c' = [3]"
proof -
  let ?c = "session_SetDestroiedClbk (Some 3) (new_tcp_session [] [])"
  have c: "DestroiedClbk ?c = Some (Some 3)" "clbk_calls ?c = []" "session_kind ?c = TCP_Session"
    by (simp_all add: session_SetDestroiedClbk_def new_tcp_session_def)
  have "byetime (the_source 5 sample_left) < 20" by (simp add: sample_left_state)
  from goodbye_timeout_callback [OF sample_left_state(1-4) this sample_left_state(6) c(1)] show ?thesis using c by simp
qed

end
