(* ===== verification/Key_Hash_Table.thy ===== *)
theory Key_Hash_Table
  imports Prelude "HOL-Library.AList"
begin

section \<open>The hash table with a list through it (JRTPLIB: rtpkeyhashtable.h)\<close>

text \<open>
  \<open>RTPKeyHashTable\<close>: an element stands in the doubly linked chain of its bucket and in a doubly linked list
  of all elements, with pointers to the first, the last and the current one. The heap maps addresses to
  elements; a pointer is an address or null. The refinement shows that all operations together do
  what the list of keys and values with a current key does that \<open>Rtp_Sources\<close> uses.
\<close>

subsection \<open>Doubly linked lists\<close>

definition head :: "'a list \<Rightarrow> 'a option" where
  "head xs = (case xs of [] \<Rightarrow> None | x # _ \<Rightarrow> Some x)"

lemma head_simps [simp]: "head [] = None" "head (x # xs) = Some x" "head xs = None \<longleftrightarrow> xs = []"
  by (simp_all add: head_def split: list.split)

lemma head_append: "head (xs @ ys) = (if xs = [] then head ys else head xs)"
  by (cases xs) simp_all

lemma head_rev: "head (rev xs) = (if xs = [] then None else Some (last xs))"
  by (cases xs rule: rev_cases) simp_all

lemma head_member: "head xs = Some x \<Longrightarrow> x \<in> set xs"
  by (cases xs) simp_all

text \<open>The addresses \<open>xs\<close> are linked in this order; \<open>p\<close> is what stands before the first.\<close>

fun dll :: "(nat \<Rightarrow> nat option) \<Rightarrow> (nat \<Rightarrow> nat option) \<Rightarrow> nat option \<Rightarrow> nat list \<Rightarrow> bool" where
  "dll nx pv p [] = True"
| "dll nx pv p (a # r) = (pv a = p \<and> nx a = head r \<and> dll nx pv (Some a) r)"

lemma dll_cong: "(\<And>a. a \<in> set xs \<Longrightarrow> nx' a = nx a \<and> pv' a = pv a) \<Longrightarrow> dll nx' pv' p xs = dll nx pv p xs"
  by (induction xs arbitrary: p) auto

lemma dll_at:
  "dll nx pv p (xs @ a # ys) \<Longrightarrow> pv a = (if xs = [] then p else Some (last xs)) \<and> nx a = head ys"
proof (induction xs arbitrary: p)
  case (Cons x xs)
  then have "dll nx pv (Some x) (xs @ a # ys)" by simp
  from Cons.IH [OF this] show ?case by simp
qed simp

text \<open>Taking an element out.\<close>

lemma dll_remove:
  assumes "dll nx pv p (xs @ a # ys)" "distinct (xs @ a # ys)"
    and "\<And>x. x \<in> set (xs @ ys) \<Longrightarrow> nx' x = (if pv a = Some x then nx a else nx x)"
    and "\<And>x. x \<in> set (xs @ ys) \<Longrightarrow> pv' x = (if nx a = Some x then pv a else pv x)"
    and "\<forall>x. p = Some x \<longrightarrow> x \<notin> set (xs @ ys)"
  shows "dll nx' pv' p (xs @ ys)"
  using assms
proof (induction xs arbitrary: p)
  case Nil
  then have a: "pv a = p" "nx a = head ys" "dll nx pv (Some a) ys" by auto
  show ?case
  proof (cases ys)
    case (Cons y r)
    have "dll nx' pv' (Some y) r = dll nx pv (Some y) r"
      by (rule dll_cong) (use Nil Cons a in auto)
    then show ?thesis using Nil Cons a by auto
  qed simp
next
  case (Cons x xs)
  have at: "pv a = (if xs = [] then Some x else Some (last xs))" "nx a = head ys"
    using dll_at [of nx pv "Some x" xs a ys] Cons.prems(1) by auto
  have "dll nx' pv' (Some x) (xs @ ys)"
    by (rule Cons.IH) (use Cons.prems in auto)
  moreover have "nx a \<noteq> Some x" using at(2) Cons.prems(2) by (cases ys) auto
  then have "pv' x = p" using Cons.prems(1,4) by auto
  moreover have "nx' x = head (xs @ ys)"
    using Cons.prems(1-3) at by (cases xs) (auto simp: head_append)
  ultimately show ?case by simp
qed

text \<open>Putting an element in front, or at the end.\<close>

lemma dll_push:
  assumes "dll nx pv None xs" "a \<notin> set xs" "distinct xs" "nx' a = head xs" "pv' a = None"
    and "\<And>x. x \<in> set xs \<Longrightarrow> nx' x = nx x \<and> pv' x = (if head xs = Some x then Some a else pv x)"
  shows "dll nx' pv' None (a # xs)"
proof (cases xs)
  case (Cons y r)
  have "dll nx' pv' (Some y) r = dll nx pv (Some y) r"
    by (rule dll_cong) (use assms(3,6) Cons in auto)
  then show ?thesis using assms Cons by auto
qed (use assms in simp)

lemma dll_snoc:
  assumes "dll nx pv p xs" "a \<notin> set xs" "distinct xs" "nx' a = None" "pv' a = (if xs = [] then p else Some (last xs))"
    and "\<And>x. x \<in> set xs \<Longrightarrow> pv' x = pv x \<and> nx' x = (if x = last xs then Some a else nx x)"
  shows "dll nx' pv' p (xs @ [a])"
  using assms
proof (induction xs arbitrary: p)
  case (Cons x xs)
  have "dll nx' pv' (Some x) (xs @ [a])"
    by (rule Cons.IH) (use Cons.prems in auto)
  moreover have "nx' x = head (xs @ [a])" using Cons.prems by (cases xs) auto
  ultimately show ?case using Cons.prems by simp
qed simp

subsection \<open>The heap\<close>

record 'e hash_element =
  elem_key :: u32
  element :: 'e
  hashindex :: nat
  hashprev :: "nat option"
  hashnext :: "nat option"
  listprev :: "nat option"
  listnext :: "nat option"

text \<open>\<open>curhashelem\<close> is \<open>None\<close> until it is written: the constructor leaves it alone.\<close>

record 'e hash_table =
  cells :: "nat \<Rightarrow> 'e hash_element option"
  buckets :: "nat option list"
  firsthashelem :: "nat option"
  lasthashelem :: "nat option"
  curhashelem :: "nat option option"

definition new_hash_table :: "nat \<Rightarrow> 'e hash_table" where
  "new_hash_table hashsize =
     \<lparr>cells = (\<lambda>_. None), buckets = replicate hashsize None, firsthashelem = None, lasthashelem = None, curhashelem = None\<rparr>"

definition cell :: "nat \<Rightarrow> 'e hash_table \<Rightarrow> ub + 'e hash_element" where
  "cell a t = (case cells t a of None \<Rightarrow> Inl Dangling | Some e \<Rightarrow> Inr e)"

definition write_cell :: "nat \<Rightarrow> ('e hash_element \<Rightarrow> 'e hash_element) \<Rightarrow> 'e hash_table \<Rightarrow> ub + 'e hash_table" where
  "write_cell a f t = ub_bind (cell a t) (\<lambda>e. Inr (t\<lparr>cells := (cells t)(a := Some (f e))\<rparr>))"

definition current :: "'e hash_table \<Rightarrow> ub + nat option" where
  "current t = (case curhashelem t of None \<Rightarrow> Inl Indeterminate | Some c \<Rightarrow> Inr c)"

subsection \<open>The operations\<close>

definition ERR_RTP_KEYHASHTABLE_FUNCTIONRETURNEDINVALIDHASHINDEX :: int where
  [simp]: "ERR_RTP_KEYHASHTABLE_FUNCTIONRETURNEDINVALIDHASHINDEX = - 8"
definition ERR_RTP_KEYHASHTABLE_KEYALREADYEXISTS :: int where [simp]: "ERR_RTP_KEYHASHTABLE_KEYALREADYEXISTS = - 9"
definition ERR_RTP_KEYHASHTABLE_KEYNOTFOUND :: int where [simp]: "ERR_RTP_KEYHASHTABLE_KEYNOTFOUND = - 10"
definition ERR_RTP_KEYHASHTABLE_NOCURRENTELEMENT :: int where [simp]: "ERR_RTP_KEYHASHTABLE_NOCURRENTELEMENT = - 11"

definition GotoFirstElement :: "'e hash_table \<Rightarrow> 'e hash_table" where
  "GotoFirstElement t = t\<lparr>curhashelem := Some (firsthashelem t)\<rparr>"

definition GotoLastElement :: "'e hash_table \<Rightarrow> 'e hash_table" where
  "GotoLastElement t = t\<lparr>curhashelem := Some (lasthashelem t)\<rparr>"

definition HasCurrentElement :: "'e hash_table \<Rightarrow> ub + bool" where
  "HasCurrentElement t = ub_bind (current t) (\<lambda>c. Inr (c \<noteq> None))"

definition current_cell :: "'e hash_table \<Rightarrow> ub + 'e hash_element" where
  "current_cell t = ub_bind (current t) (\<lambda>c. case c of None \<Rightarrow> Inl NullDeref | Some a \<Rightarrow> cell a t)"

definition GetCurrentElement :: "'e hash_table \<Rightarrow> ub + 'e" where
  "GetCurrentElement t = ub_bind (current_cell t) (\<lambda>e. Inr (element e))"

definition GetCurrentKey :: "'e hash_table \<Rightarrow> ub + u32" where
  "GetCurrentKey t = ub_bind (current_cell t) (\<lambda>e. Inr (elem_key e))"

definition move :: "('e hash_element \<Rightarrow> nat option) \<Rightarrow> 'e hash_table \<Rightarrow> ub + 'e hash_table" where
  "move link t =
     ub_bind (current t) (\<lambda>c.
     case c of None \<Rightarrow> Inr t | Some a \<Rightarrow> ub_bind (cell a t) (\<lambda>e. Inr (t\<lparr>curhashelem := Some (link e)\<rparr>)))"

definition GotoNextElement :: "'e hash_table \<Rightarrow> ub + 'e hash_table" where "GotoNextElement = move listnext"
definition GotoPreviousElement :: "'e hash_table \<Rightarrow> ub + 'e hash_table" where "GotoPreviousElement = move listprev"

text \<open>The search along a chain; a chain that runs in a circle would be searched for ever.\<close>

partial_function (option) chain_search ::
    "(nat \<Rightarrow> 'e hash_element option) \<Rightarrow> u32 \<Rightarrow> nat option \<Rightarrow> (ub + nat option) option" where
  "chain_search cs k c =
     (case c of
        None \<Rightarrow> Some (Inr None)
      | Some a \<Rightarrow>
          case cs a of
            None \<Rightarrow> Some (Inl Dangling)
          | Some e \<Rightarrow> if elem_key e = k then Some (Inr (Some a)) else chain_search cs k (hashnext e))"

declare chain_search.simps [code]

definition search_bucket :: "nat \<Rightarrow> u32 \<Rightarrow> 'e hash_table \<Rightarrow> ub + nat option" where
  "search_bucket index k t = (case chain_search (cells t) k (buckets t ! index) of None \<Rightarrow> Inl Hangs | Some r \<Rightarrow> r)"

definition GotoElement :: "(u32 \<Rightarrow> nat) \<Rightarrow> u32 \<Rightarrow> 'e hash_table \<Rightarrow> ub + (int \<times> 'e hash_table)" where
  "GotoElement GetIndex k t =
     (let index = GetIndex k in
      if length (buckets t) \<le> index then Inr (ERR_RTP_KEYHASHTABLE_FUNCTIONRETURNEDINVALIDHASHINDEX, t)
      else
        ub_bind (search_bucket index k t) (\<lambda>c.
        Inr (if c = None then ERR_RTP_KEYHASHTABLE_KEYNOTFOUND else 0, t\<lparr>curhashelem := Some c\<rparr>)))"

definition HasElement :: "(u32 \<Rightarrow> nat) \<Rightarrow> u32 \<Rightarrow> 'e hash_table \<Rightarrow> ub + bool" where
  "HasElement GetIndex k t =
     (let index = GetIndex k in
      if length (buckets t) \<le> index then Inr False
      else ub_bind (search_bucket index k t) (\<lambda>c. Inr (c \<noteq> None)))"

text \<open>\<open>a\<close> is the address \<open>new\<close> returns.\<close>

definition new_element :: "u32 \<Rightarrow> 'e \<Rightarrow> nat \<Rightarrow> nat option \<Rightarrow> 'e hash_element" where
  "new_element k elem index e =
     \<lparr>elem_key = k, element = elem, hashindex = index, hashprev = None, hashnext = e, listprev = None, listnext = None\<rparr>"

definition AddElement :: "(u32 \<Rightarrow> nat) \<Rightarrow> nat \<Rightarrow> u32 \<Rightarrow> 'e \<Rightarrow> 'e hash_table \<Rightarrow> ub + (int \<times> 'e hash_table)" where
  "AddElement GetIndex a k elem t =
     (let index = GetIndex k in
      if length (buckets t) \<le> index then Inr (ERR_RTP_KEYHASHTABLE_FUNCTIONRETURNEDINVALIDHASHINDEX, t)
      else
        ub_bind (search_bucket index k t) (\<lambda>c.
        if c \<noteq> None then Inr (ERR_RTP_KEYHASHTABLE_KEYALREADYEXISTS, t)
        else
          let e = buckets t ! index;
              newelem = new_element k elem index e;
              t1 = t\<lparr>cells := (cells t)(a := Some newelem), buckets := (buckets t)[index := Some a]\<rparr> in
          ub_bind (case e of None \<Rightarrow> Inr t1 | Some b \<Rightarrow> write_cell b (\<lambda>x. x\<lparr>hashprev := Some a\<rparr>) t1) (\<lambda>t2.
          if firsthashelem t2 = None then Inr (0, t2\<lparr>firsthashelem := Some a, lasthashelem := Some a\<rparr>)
          else
            case lasthashelem t2 of
              None \<Rightarrow> Inl NullDeref
            | Some b \<Rightarrow>
                ub_bind (write_cell b (\<lambda>x. x\<lparr>listnext := Some a\<rparr>) t2) (\<lambda>t3.
                ub_bind (write_cell a (\<lambda>x. x\<lparr>listprev := Some b\<rparr>) t3) (\<lambda>t4.
                Inr (0, t4\<lparr>lasthashelem := Some a\<rparr>))))))"

definition DeleteCurrentElement :: "'e hash_table \<Rightarrow> ub + (int \<times> 'e hash_table)" where
  "DeleteCurrentElement t =
     ub_bind (current t) (\<lambda>c.
     case c of
       None \<Rightarrow> Inr (ERR_RTP_KEYHASHTABLE_NOCURRENTELEMENT, t)
     | Some a \<Rightarrow>
         ub_bind (cell a t) (\<lambda>e.
         ub_bind (case hashprev e of
             None \<Rightarrow> Inr (t\<lparr>buckets := (buckets t)[hashindex e := hashnext e]\<rparr>)
           | Some b \<Rightarrow> write_cell b (\<lambda>x. x\<lparr>hashnext := hashnext e\<rparr>) t) (\<lambda>t1.
         ub_bind (case hashnext e of None \<Rightarrow> Inr t1 | Some b \<Rightarrow> write_cell b (\<lambda>x. x\<lparr>hashprev := hashprev e\<rparr>) t1) (\<lambda>t2.
         ub_bind (cell a t2) (\<lambda>e2.
         ub_bind (case listprev e2 of
             None \<Rightarrow> Inr (t2\<lparr>firsthashelem := listnext e2\<rparr>)
           | Some b \<Rightarrow> write_cell b (\<lambda>x. x\<lparr>listnext := listnext e2\<rparr>) t2) (\<lambda>t3.
         ub_bind (case listnext e2 of
             None \<Rightarrow> Inr (t3\<lparr>lasthashelem := listprev e2\<rparr>)
           | Some b \<Rightarrow> write_cell b (\<lambda>x. x\<lparr>listprev := listprev e2\<rparr>) t3) (\<lambda>t4.
         Inr (0, t4\<lparr>cells := (cells t4)(a := None), curhashelem := Some (listnext e2)\<rparr>))))))))"

definition DeleteElement :: "(u32 \<Rightarrow> nat) \<Rightarrow> u32 \<Rightarrow> 'e hash_table \<Rightarrow> ub + (int \<times> 'e hash_table)" where
  "DeleteElement GetIndex k t =
     ub_bind (GotoElement GetIndex k t) (\<lambda>(status, t1). if status < 0 then Inr (status, t1) else DeleteCurrentElement t1)"

text \<open>\<open>Clear\<close> frees the elements along the list and leaves the current element as it is.\<close>

partial_function (option) free_list ::
    "(nat \<Rightarrow> 'e hash_element option) \<Rightarrow> nat option \<Rightarrow> (ub + (nat \<Rightarrow> 'e hash_element option)) option" where
  "free_list cs c =
     (case c of
        None \<Rightarrow> Some (Inr cs)
      | Some a \<Rightarrow> case cs a of None \<Rightarrow> Some (Inl Dangling) | Some e \<Rightarrow> free_list (cs(a := None)) (listnext e))"

declare free_list.simps [code]

definition ClearElements :: "'e hash_table \<Rightarrow> ub + 'e hash_table" where
  "ClearElements t =
     ub_bind (case free_list (cells t) (firsthashelem t) of None \<Rightarrow> Inl Hangs | Some r \<Rightarrow> r) (\<lambda>cs.
     Inr (t\<lparr>cells := cs, buckets := replicate (length (buckets t)) None, firsthashelem := None, lasthashelem := None\<rparr>))"

subsection \<open>What the table represents\<close>

abbreviation the_cell :: "'e hash_table \<Rightarrow> nat \<Rightarrow> 'e hash_element" where
  "the_cell t a \<equiv> the (cells t a)"

definition contents :: "'e hash_table \<Rightarrow> nat list \<Rightarrow> (u32 \<times> 'e) list" where
  "contents t L = map (\<lambda>a. (elem_key (the_cell t a), element (the_cell t a))) L"

definition chained :: "'e hash_table \<Rightarrow> nat list \<Rightarrow> bool" where
  "chained t xs \<longleftrightarrow> distinct xs \<and> dll (\<lambda>a. hashnext (the_cell t a)) (\<lambda>a. hashprev (the_cell t a)) None xs"

definition listed :: "'e hash_table \<Rightarrow> nat list \<Rightarrow> bool" where
  "listed t xs \<longleftrightarrow> distinct xs \<and> dll (\<lambda>a. listnext (the_cell t a)) (\<lambda>a. listprev (the_cell t a)) None xs"

text \<open>\<open>L\<close> are the addresses in the order of the list, \<open>B i\<close> those of bucket \<open>i\<close> in the order of its chain.\<close>

definition linked :: "(u32 \<Rightarrow> nat) \<Rightarrow> 'e hash_table \<Rightarrow> nat list \<Rightarrow> (nat \<Rightarrow> nat list) \<Rightarrow> bool" where
  "linked GetIndex t L B \<longleftrightarrow>
     listed t L \<and> (\<forall>a. cells t a \<noteq> None \<longleftrightarrow> a \<in> set L) \<and> firsthashelem t = head L \<and> lasthashelem t = head (rev L) \<and>
     (\<forall>i < length (buckets t). chained t (B i) \<and> buckets t ! i = head (B i) \<and>
        (\<forall>a. a \<in> set (B i) \<longleftrightarrow> a \<in> set L \<and> hashindex (the_cell t a) = i)) \<and>
     (\<forall>a \<in> set L. hashindex (the_cell t a) = GetIndex (elem_key (the_cell t a)) \<and> hashindex (the_cell t a) < length (buckets t)) \<and>
     inj_on (\<lambda>a. elem_key (the_cell t a)) (set L) \<and>
     (\<forall>a. curhashelem t = Some (Some a) \<longrightarrow> a \<in> set L)"

definition represents :: "(u32 \<Rightarrow> nat) \<Rightarrow> 'e hash_table \<Rightarrow> (u32 \<times> 'e) list \<Rightarrow> u32 option option \<Rightarrow> bool" where
  "represents GetIndex t l c \<longleftrightarrow>
     (\<exists>L B. linked GetIndex t L B \<and> l = contents t L \<and> c = map_option (map_option (\<lambda>a. elem_key (the_cell t a))) (curhashelem t))"

lemma linkedD:
  assumes "linked GetIndex t L B"
  shows "listed t L" "cells t a \<noteq> None \<longleftrightarrow> a \<in> set L" "firsthashelem t = head L" "lasthashelem t = head (rev L)"
    "i < length (buckets t) \<Longrightarrow> chained t (B i)" "i < length (buckets t) \<Longrightarrow> buckets t ! i = head (B i)"
    "i < length (buckets t) \<Longrightarrow> a \<in> set (B i) \<longleftrightarrow> a \<in> set L \<and> hashindex (the_cell t a) = i"
    "a \<in> set L \<Longrightarrow> hashindex (the_cell t a) = GetIndex (elem_key (the_cell t a))"
    "a \<in> set L \<Longrightarrow> hashindex (the_cell t a) < length (buckets t)"
    "inj_on (\<lambda>a. elem_key (the_cell t a)) (set L)" "curhashelem t = Some (Some a) \<Longrightarrow> a \<in> set L"
  using assms unfolding linked_def by blast+

lemma cell_in: "linked GetIndex t L B \<Longrightarrow> a \<in> set L \<Longrightarrow> cells t a = Some (the_cell t a)"
  using linkedD(2) [of GetIndex t L B a] by auto

lemma contents_keys: "map fst (contents t L) = map (\<lambda>a. elem_key (the_cell t a)) L"
  by (simp add: contents_def)

lemma linked_distinct: "linked GetIndex t L B \<Longrightarrow> distinct (map fst (contents t L))"
  using linkedD(1,10) [of GetIndex t L B] by (simp add: contents_keys distinct_map listed_def)

lemma new_represents: "represents GetIndex (new_hash_table n) [] None"
  unfolding represents_def
  by (intro exI [of _ "[]"] exI [of _ "\<lambda>_. []"]) (simp add: linked_def new_hash_table_def contents_def listed_def chained_def)

text \<open>The search returns the first element of the chain with the key.\<close>

lemma chain_search_found:
  assumes "dll (\<lambda>a. hashnext (the_cell t a)) pv p xs" "\<forall>a \<in> set xs. cells t a \<noteq> None"
  shows "chain_search (cells t) k (head xs) = Some (Inr (find (\<lambda>a. elem_key (the_cell t a) = k) xs))"
  using assms
proof (induction xs arbitrary: p)
  case Nil
  then show ?case by (simp add: chain_search.simps)
next
  case (Cons a xs)
  from Cons.prems(2) obtain e where e: "cells t a = Some e" by auto
  from Cons.prems(1) have nx: "hashnext e = head xs" "dll (\<lambda>a. hashnext (the_cell t a)) pv (Some a) xs" by (simp_all add: e)
  have "chain_search (cells t) k (head xs) = Some (Inr (find (\<lambda>a. elem_key (the_cell t a) = k) xs))"
    by (rule Cons.IH [OF nx(2)]) (simp add: Cons.prems(2))
  then show ?case by (simp add: chain_search.simps [of "cells t" k "Some a"] e nx(1))
qed

lemma find_in: "find P xs = Some b \<Longrightarrow> b \<in> set xs \<and> P b"
  by (auto simp: find_Some_iff)

lemma find_unique:
  assumes "a \<in> set xs" "P a" "\<And>b. b \<in> set xs \<Longrightarrow> P b \<Longrightarrow> b = a"
  shows "find P xs = Some a"
proof (cases "find P xs")
  case None
  then show ?thesis using assms(1,2) by (auto simp: find_None_iff)
next
  case (Some b)
  then show ?thesis using find_in [OF Some] assms(3) by blast
qed

lemma search_bucket_found:
  assumes "linked GetIndex t L B" "GetIndex k < length (buckets t)"
  shows "search_bucket (GetIndex k) k t = Inr (find (\<lambda>a. elem_key (the_cell t a) = k) L)"
proof -
  let ?B = "B (GetIndex k)" and ?P = "\<lambda>a. elem_key (the_cell t a) = k"
  note D = linkedD [OF assms(1)]
  have "chain_search (cells t) k (buckets t ! GetIndex k) = Some (Inr (find ?P ?B))"
    unfolding D(6) [OF assms(2)]
  proof (rule chain_search_found)
    show "dll (\<lambda>a. hashnext (the_cell t a)) (\<lambda>a. hashprev (the_cell t a)) None ?B" using D(5) [OF assms(2)] by (simp add: chained_def)
    show "\<forall>a \<in> set ?B. cells t a \<noteq> None" using D(2) D(7) [OF assms(2)] by blast
  qed
  moreover have "find ?P ?B = find ?P L"
  proof (cases "\<exists>a \<in> set L. ?P a")
    case True
    then obtain a where a: "a \<in> set L" "?P a" by blast
    have u: "b = a" if "b \<in> set L" "?P b" for b using inj_onD [OF D(10) _ that(1) a(1)] a(2) that(2) by simp
    have "a \<in> set ?B" using D(7) [OF assms(2)] D(8) [OF a(1)] a by simp
    then have "find ?P ?B = Some a"
    proof (rule find_unique)
      show "b = a" if "b \<in> set ?B" "?P b" for b using u that D(7) [OF assms(2)] by blast
    qed (rule a(2))
    moreover have "find ?P L = Some a" by (rule find_unique [of a L ?P, OF a u])
    ultimately show ?thesis by simp
  next
    case False
    then have "find ?P L = None" "find ?P ?B = None" using D(7) [OF assms(2)] by (auto simp: find_None_iff)
    then show ?thesis by simp
  qed
  ultimately show ?thesis by (simp add: search_bucket_def)
qed

lemma contents_key: "k \<in> fst ` set (contents t L) \<longleftrightarrow> (\<exists>a \<in> set L. elem_key (the_cell t a) = k)"
  unfolding set_map [symmetric] contents_keys by auto

lemma find_key:
  assumes "linked GetIndex t L B"
  shows "find (\<lambda>a. elem_key (the_cell t a) = k) L = None \<longleftrightarrow> k \<notin> fst ` set (contents t L)"
    "find (\<lambda>a. elem_key (the_cell t a) = k) L = Some a \<Longrightarrow> a \<in> set L \<and> elem_key (the_cell t a) = k"
proof -
  show "find (\<lambda>a. elem_key (the_cell t a) = k) L = None \<longleftrightarrow> k \<notin> fst ` set (contents t L)"
    by (auto simp: find_None_iff contents_key)
  show "find (\<lambda>a. elem_key (the_cell t a) = k) L = Some a \<Longrightarrow> a \<in> set L \<and> elem_key (the_cell t a) = k"
    using find_in [of "\<lambda>a. elem_key (the_cell t a) = k" L a] by simp
qed

subsection \<open>Moving\<close>

definition key_after :: "u32 \<Rightarrow> (u32 \<times> 'e) list \<Rightarrow> u32 option" where
  "key_after k l = map_option fst (head (tl (dropWhile (\<lambda>e. fst e \<noteq> k) l)))"

definition key_before :: "u32 \<Rightarrow> (u32 \<times> 'e) list \<Rightarrow> u32 option" where
  "key_before k l = map_option fst (head (rev (takeWhile (\<lambda>e. fst e \<noteq> k) l)))"

lemma split_keys:
  assumes "k \<notin> fst ` set l1"
  shows "takeWhile (\<lambda>e. fst e \<noteq> k) (l1 @ (k, e) # l2) = l1" "dropWhile (\<lambda>e. fst e \<noteq> k) (l1 @ (k, e) # l2) = (k, e) # l2"
proof -
  have "\<forall>e \<in> set l1. fst e \<noteq> k" using assms by (metis image_eqI)
  then show "takeWhile (\<lambda>e. fst e \<noteq> k) (l1 @ (k, e) # l2) = l1" "dropWhile (\<lambda>e. fst e \<noteq> k) (l1 @ (k, e) # l2) = (k, e) # l2"
    by (simp_all add: takeWhile_append2 dropWhile_append2)
qed

lemma keys_around:
  assumes "linked GetIndex t (xs @ a # ys) B"
  shows "key_after (elem_key (the_cell t a)) (contents t (xs @ a # ys)) = map_option (\<lambda>a. elem_key (the_cell t a)) (listnext (the_cell t a))"
    "key_before (elem_key (the_cell t a)) (contents t (xs @ a # ys)) = map_option (\<lambda>a. elem_key (the_cell t a)) (listprev (the_cell t a))"
proof -
  let ?k = "elem_key (the_cell t a)"
  have at: "listprev (the_cell t a) = (if xs = [] then None else Some (last xs))" "listnext (the_cell t a) = head ys"
    using dll_at [of "\<lambda>a. listnext (the_cell t a)" "\<lambda>a. listprev (the_cell t a)" None xs a ys] linkedD(1) [OF assms]
    by (simp_all add: listed_def)
  have new: "?k \<notin> fst ` set (contents t xs)"
    using linked_distinct [OF assms] unfolding contents_keys set_map [symmetric] by simp
  have c: "contents t (xs @ a # ys) = contents t xs @ (?k, element (the_cell t a)) # contents t ys" by (simp add: contents_def)
  show "key_after ?k (contents t (xs @ a # ys)) = map_option (\<lambda>a. elem_key (the_cell t a)) (listnext (the_cell t a))"
    unfolding key_after_def c split_keys(2) [OF new] at by (cases ys) (simp_all add: contents_def)
  show "key_before ?k (contents t (xs @ a # ys)) = map_option (\<lambda>a. elem_key (the_cell t a)) (listprev (the_cell t a))"
    unfolding key_before_def c split_keys(1) [OF new] at
    by (cases xs rule: rev_cases) (simp_all add: contents_def)
qed

lemma neighbours_in:
  assumes "linked GetIndex t (xs @ a # ys) B"
  shows "listnext (the_cell t a) = Some b \<Longrightarrow> b \<in> set (xs @ a # ys)" "listprev (the_cell t a) = Some b \<Longrightarrow> b \<in> set (xs @ a # ys)"
  using dll_at [of "\<lambda>a. listnext (the_cell t a)" "\<lambda>a. listprev (the_cell t a)" None xs a ys] linkedD(1) [OF assms] head_member [of ys b]
  by (auto simp: listed_def split: if_splits)

lemma linked_current: "linked GetIndex t L B \<Longrightarrow> \<forall>a. c = Some a \<longrightarrow> a \<in> set L \<Longrightarrow> linked GetIndex (t\<lparr>curhashelem := Some c\<rparr>) L B"
  by (simp add: linked_def listed_def chained_def del: ball_simps cong: ball_cong) auto

lemma represents_current:
  assumes "linked GetIndex t L B" "\<forall>a. c = Some a \<longrightarrow> a \<in> set L" "k = map_option (\<lambda>a. elem_key (the_cell t a)) c"
  shows "represents GetIndex (t\<lparr>curhashelem := Some c\<rparr>) (contents t L) (Some k)"
  unfolding represents_def
  by (intro exI [of _ L] exI [of _ B] conjI linked_current [OF assms(1,2)]) (simp_all add: contents_def assms(3))

lemma represents_ends:
  assumes "represents GetIndex t l c"
  shows "represents GetIndex (GotoFirstElement t) l (Some (map_option fst (head l)))"
    "represents GetIndex (GotoLastElement t) l (Some (map_option fst (head (rev l))))"
proof -
  obtain L B where L: "linked GetIndex t L B" "l = contents t L" using assms by (auto simp: represents_def)
  show "represents GetIndex (GotoFirstElement t) l (Some (map_option fst (head l)))"
    unfolding GotoFirstElement_def L(2)
    by (rule represents_current [OF L(1)]) (simp_all add: linkedD(3) [OF L(1)] head_member, cases L, simp_all add: contents_def)
  show "represents GetIndex (GotoLastElement t) l (Some (map_option fst (head (rev l))))"
    unfolding GotoLastElement_def L(2)
    by (rule represents_current [OF L(1)])
      (use head_member [of "rev L"] in \<open>simp_all add: linkedD(4) [OF L(1)]\<close>, cases L rule: rev_cases, simp_all add: contents_def)
qed

text \<open>The current element of a represented table.\<close>

lemma represents_at:
  assumes "represents GetIndex t l (Some (Some k))"
  shows "\<exists>a xs ys B. curhashelem t = Some (Some a) \<and> linked GetIndex t (xs @ a # ys) B \<and> l = contents t (xs @ a # ys) \<and>
    cells t a = Some (the_cell t a) \<and> elem_key (the_cell t a) = k"
proof -
  obtain L B where L: "linked GetIndex t L B" "l = contents t L"
      "Some (Some k) = map_option (map_option (\<lambda>a. elem_key (the_cell t a))) (curhashelem t)"
    using assms unfolding represents_def by blast
  then obtain a where a: "curhashelem t = Some (Some a)" "elem_key (the_cell t a) = k"
    by (cases "curhashelem t"; cases "the (curhashelem t)") simp_all
  have "a \<in> set L" by (rule linkedD(11) [OF L(1) a(1)])
  then obtain xs ys where "L = xs @ a # ys" by (meson split_list)
  then show ?thesis using L a cell_in [OF L(1) \<open>a \<in> set L\<close>] by blast
qed

lemma represents_none: "represents GetIndex t l (Some None) \<Longrightarrow> curhashelem t = Some None"
  by (cases "curhashelem t"; cases "the (curhashelem t)") (simp_all add: represents_def)

lemma represents_move:
  assumes "represents GetIndex t l (Some c)"
  shows "\<exists>t'. GotoNextElement t = Inr t' \<and> represents GetIndex t' l (Some (case c of None \<Rightarrow> None | Some k \<Rightarrow> key_after k l))"
    "\<exists>t'. GotoPreviousElement t = Inr t' \<and> represents GetIndex t' l (Some (case c of None \<Rightarrow> None | Some k \<Rightarrow> key_before k l))"
proof -
  have "(\<exists>t'. GotoNextElement t = Inr t' \<and> represents GetIndex t' l (Some (case c of None \<Rightarrow> None | Some k \<Rightarrow> key_after k l))) \<and>
    (\<exists>t'. GotoPreviousElement t = Inr t' \<and> represents GetIndex t' l (Some (case c of None \<Rightarrow> None | Some k \<Rightarrow> key_before k l)))"
  proof (cases c)
    case None
    then show ?thesis using assms represents_none [of GetIndex t l]
      by (simp add: GotoNextElement_def GotoPreviousElement_def move_def current_def)
  next
    case (Some k)
    obtain a xs ys B where a: "curhashelem t = Some (Some a)" "linked GetIndex t (xs @ a # ys) B" "l = contents t (xs @ a # ys)"
        "cells t a = Some (the_cell t a)" "elem_key (the_cell t a) = k"
      using represents_at [of GetIndex t l k] assms Some by blast
    have c: "cell a t = Inr (the_cell t a)" using a(4) by (metis cell_def option.simps(5))
    have "represents GetIndex (t\<lparr>curhashelem := Some (listnext (the_cell t a))\<rparr>) l (Some (key_after k l))"
      unfolding a(3) a(5) [symmetric] by (rule represents_current [OF a(2)]) (use neighbours_in [OF a(2)] keys_around [OF a(2)] in auto)
    moreover have "represents GetIndex (t\<lparr>curhashelem := Some (listprev (the_cell t a))\<rparr>) l (Some (key_before k l))"
      unfolding a(3) a(5) [symmetric] by (rule represents_current [OF a(2)]) (use neighbours_in [OF a(2)] keys_around [OF a(2)] in auto)
    ultimately show ?thesis
      using Some a(1) c by (simp add: GotoNextElement_def GotoPreviousElement_def move_def current_def)
  qed
  then show "\<exists>t'. GotoNextElement t = Inr t' \<and> represents GetIndex t' l (Some (case c of None \<Rightarrow> None | Some k \<Rightarrow> key_after k l))"
    "\<exists>t'. GotoPreviousElement t = Inr t' \<and> represents GetIndex t' l (Some (case c of None \<Rightarrow> None | Some k \<Rightarrow> key_before k l))" by auto
qed

subsection \<open>Searching\<close>

lemma represents_search:
  assumes "represents GetIndex t l c" "GetIndex k < length (buckets t)"
  shows "\<exists>t'. GotoElement GetIndex k t = Inr (if k \<in> fst ` set l then 0 else ERR_RTP_KEYHASHTABLE_KEYNOTFOUND, t') \<and>
      represents GetIndex t' l (Some (if k \<in> fst ` set l then Some k else None)) \<and> buckets t' = buckets t \<and> cells t' = cells t"
    "HasElement GetIndex k t = Inr (k \<in> fst ` set l)"
proof -
  obtain L B where L: "linked GetIndex t L B" "l = contents t L" using assms(1) by (auto simp: represents_def)
  let ?f = "find (\<lambda>a. elem_key (the_cell t a) = k) L"
  note s = search_bucket_found [OF L(1) assms(2)] and f = find_key [OF L(1), of k]
  have "represents GetIndex (t\<lparr>curhashelem := Some ?f\<rparr>) l (Some (if k \<in> fst ` set l then Some k else None))"
    unfolding L(2) by (rule represents_current [OF L(1)]) (use f in \<open>auto split: if_splits\<close>)
  then show "\<exists>t'. GotoElement GetIndex k t = Inr (if k \<in> fst ` set l then 0 else ERR_RTP_KEYHASHTABLE_KEYNOTFOUND, t') \<and>
      represents GetIndex t' l (Some (if k \<in> fst ` set l then Some k else None)) \<and> buckets t' = buckets t \<and> cells t' = cells t"
    using assms(2) s f(1) L(2) by (auto simp: GotoElement_def Let_def)
  show "HasElement GetIndex k t = Inr (k \<in> fst ` set l)"
    using assms(2) s f(1) L(2) by (simp add: HasElement_def Let_def del: not_None_eq)
qed

subsection \<open>Deleting\<close>

definition writes :: "nat option \<Rightarrow> ('e hash_element \<Rightarrow> 'e hash_element) \<Rightarrow> (nat \<Rightarrow> 'e hash_element option) \<Rightarrow> nat \<Rightarrow> 'e hash_element option" where
  "writes p f cs x = (if p = Some x then map_option f (cs x) else cs x)"

lemma write_or:
  assumes "\<forall>b. p = Some b \<longrightarrow> cells t b \<noteq> None"
  shows "(case p of None \<Rightarrow> Inr u | Some b \<Rightarrow> write_cell b f t) = Inr (if p = None then u else t\<lparr>cells := writes p f (cells t)\<rparr>)"
proof (cases p)
  case (Some b)
  then obtain e where e: "cells t b = Some e" using assms by auto
  then have "(cells t)(b := Some (f e)) = writes p f (cells t)" by (simp add: writes_def fun_eq_iff Some)
  then show ?thesis using Some e by (simp add: write_cell_def cell_def)
qed simp

lemma writes_None [simp]: "writes None f cs = cs"
  by (simp add: writes_def fun_eq_iff)

lemma writes_none_iff [simp]: "writes p f cs x = None \<longleftrightarrow> cs x = None"
  by (simp add: writes_def)

text \<open>The heap without \<open>a\<close>, whose neighbours in both lists are linked to each other.\<close>

definition cells_without :: "nat \<Rightarrow> 'e hash_element \<Rightarrow> (nat \<Rightarrow> 'e hash_element option) \<Rightarrow> nat \<Rightarrow> 'e hash_element option" where
  "cells_without a e cs =
     (writes (listnext e) (\<lambda>x. x\<lparr>listprev := listprev e\<rparr>) (writes (listprev e) (\<lambda>x. x\<lparr>listnext := listnext e\<rparr>)
       (writes (hashnext e) (\<lambda>x. x\<lparr>hashprev := hashprev e\<rparr>) (writes (hashprev e) (\<lambda>x. x\<lparr>hashnext := hashnext e\<rparr>) cs))))(a := None)"

definition table_without :: "nat \<Rightarrow> 'e hash_table \<Rightarrow> 'e hash_table" where
  "table_without a t =
     (let e = the_cell t a in
      t\<lparr>cells := cells_without a e (cells t),
        buckets := (if hashprev e = None then (buckets t)[hashindex e := hashnext e] else buckets t),
        firsthashelem := (if listprev e = None then listnext e else firsthashelem t),
        lasthashelem := (if listnext e = None then listprev e else lasthashelem t), curhashelem := Some (listnext e)\<rparr>)"

lemma DeleteCurrentElement_runs:
  assumes "curhashelem t = Some (Some a)" "cells t a = Some e"
    and "\<And>p b. p \<in> {hashprev e, hashnext e, listprev e, listnext e} \<Longrightarrow> p = Some b \<Longrightarrow> cells t b \<noteq> None \<and> b \<noteq> a"
  shows "DeleteCurrentElement t = Inr (0, table_without a t)"
proof -
  have n: "\<forall>b. hashprev e = Some b \<longrightarrow> cells t b \<noteq> None" "\<forall>b. hashnext e = Some b \<longrightarrow> cells t b \<noteq> None"
    "\<forall>b. listprev e = Some b \<longrightarrow> cells t b \<noteq> None" "\<forall>b. listnext e = Some b \<longrightarrow> cells t b \<noteq> None"
    "hashprev e \<noteq> Some a" "hashnext e \<noteq> Some a"
    using assms(3) by blast+
  define t1 where "t1 = (if hashprev e = None then t\<lparr>buckets := (buckets t)[hashindex e := hashnext e]\<rparr>
    else t\<lparr>cells := writes (hashprev e) (\<lambda>x. x\<lparr>hashnext := hashnext e\<rparr>) (cells t)\<rparr>)"
  define t2 where "t2 = (if hashnext e = None then t1 else t1\<lparr>cells := writes (hashnext e) (\<lambda>x. x\<lparr>hashprev := hashprev e\<rparr>) (cells t1)\<rparr>)"
  define t3 where "t3 = (if listprev e = None then t2\<lparr>firsthashelem := listnext e\<rparr>
    else t2\<lparr>cells := writes (listprev e) (\<lambda>x. x\<lparr>listnext := listnext e\<rparr>) (cells t2)\<rparr>)"
  define t4 where "t4 = (if listnext e = None then t3\<lparr>lasthashelem := listprev e\<rparr>
    else t3\<lparr>cells := writes (listnext e) (\<lambda>x. x\<lparr>listprev := listprev e\<rparr>) (cells t3)\<rparr>)"
  have some: "cells t1 b = None \<longleftrightarrow> cells t b = None" "cells t2 b = None \<longleftrightarrow> cells t b = None" "cells t3 b = None \<longleftrightarrow> cells t b = None" for b
    by (simp_all add: t1_def t2_def t3_def)
  have s1: "(case hashprev e of None \<Rightarrow> Inr (t\<lparr>buckets := (buckets t)[hashindex e := hashnext e]\<rparr>)
      | Some b \<Rightarrow> write_cell b (\<lambda>x. x\<lparr>hashnext := hashnext e\<rparr>) t) = Inr t1"
    unfolding t1_def by (rule write_or [OF n(1)])
  have s2: "(case hashnext e of None \<Rightarrow> Inr t1 | Some b \<Rightarrow> write_cell b (\<lambda>x. x\<lparr>hashprev := hashprev e\<rparr>) t1) = Inr t2"
    unfolding t2_def by (rule write_or) (use n(2) some in simp)
  have e2: "cell a t2 = Inr e" using assms(2) n(5,6) by (simp add: cell_def t2_def t1_def writes_def)
  have s3: "(case listprev e of None \<Rightarrow> Inr (t2\<lparr>firsthashelem := listnext e\<rparr>)
      | Some b \<Rightarrow> write_cell b (\<lambda>x. x\<lparr>listnext := listnext e\<rparr>) t2) = Inr t3"
    unfolding t3_def by (rule write_or) (use n(3) some in simp)
  have s4: "(case listnext e of None \<Rightarrow> Inr (t3\<lparr>lasthashelem := listprev e\<rparr>)
      | Some b \<Rightarrow> write_cell b (\<lambda>x. x\<lparr>listprev := listprev e\<rparr>) t3) = Inr t4"
    unfolding t4_def by (rule write_or) (use n(4) some in simp)
  have "t4\<lparr>cells := (cells t4)(a := None), curhashelem := Some (listnext e)\<rparr> = table_without a t"
    using assms(2) by (simp add: table_without_def cells_without_def t4_def t3_def t2_def t1_def)
  moreover have "DeleteCurrentElement t = Inr (0, t4\<lparr>cells := (cells t4)(a := None), curhashelem := Some (listnext e)\<rparr>)"
    unfolding DeleteCurrentElement_def current_def assms(1) option.case ub_bind_Inr
    by (simp only: cell_def [of a t] assms(2) option.case ub_bind_Inr s1 s2 e2 s3 s4)
  ultimately show ?thesis by simp
qed

lemma without_fields:
  assumes "cells t a = Some e" "cells t x = Some c" "x \<noteq> a"
  shows "elem_key (the_cell (table_without a t) x) = elem_key c" "element (the_cell (table_without a t) x) = element c"
    "hashindex (the_cell (table_without a t) x) = hashindex c"
    "hashnext (the_cell (table_without a t) x) = (if hashprev e = Some x then hashnext e else hashnext c)"
    "hashprev (the_cell (table_without a t) x) = (if hashnext e = Some x then hashprev e else hashprev c)"
    "listnext (the_cell (table_without a t) x) = (if listprev e = Some x then listnext e else listnext c)"
    "listprev (the_cell (table_without a t) x) = (if listnext e = Some x then listprev e else listprev c)"
    "cells (table_without a t) x \<noteq> None"
  using assms by (simp_all add: table_without_def Let_def cells_without_def writes_def)

lemma without_table:
  assumes "cells t a = Some e"
  shows "cells (table_without a t) a = None" "cells t x = None \<Longrightarrow> cells (table_without a t) x = None"
    "buckets (table_without a t) = (if hashprev e = None then (buckets t)[hashindex e := hashnext e] else buckets t)"
    "firsthashelem (table_without a t) = (if listprev e = None then listnext e else firsthashelem t)"
    "lasthashelem (table_without a t) = (if listnext e = None then listprev e else lasthashelem t)"
    "curhashelem (table_without a t) = Some (listnext e)"
  using assms by (simp_all add: table_without_def Let_def cells_without_def)

lemma bucket_without:
  assumes L: "linked GetIndex t (xs @ a # ys) B" and i: "i < length (buckets t)"
  defines "e \<equiv> the_cell t a"
  assumes "buckets t' = (if hashprev e = None then (buckets t)[hashindex e := hashnext e] else buckets t)"
    and "\<And>x. x \<in> set (xs @ ys) \<Longrightarrow> hashnext (the_cell t' x) = (if hashprev e = Some x then hashnext e else hashnext (the_cell t x))"
    and "\<And>x. x \<in> set (xs @ ys) \<Longrightarrow> hashprev (the_cell t' x) = (if hashnext e = Some x then hashprev e else hashprev (the_cell t x))"
  shows "chained t' (filter (\<lambda>x. x \<noteq> a) (B i)) \<and> buckets t' ! i = head (filter (\<lambda>x. x \<noteq> a) (B i))"
proof -
  note D = linkedD [OF L]
  have a: "a \<in> set (xs @ a # ys)" by simp
  have own: "hashindex e < length (buckets t)" using D(9) [OF a] by (simp add: e_def)
  have "a \<in> set (B (hashindex e))" using D(7) [OF own, of a] by (simp add: e_def)
  then obtain us vs where uv: "B (hashindex e) = us @ a # vs" by (meson split_list)
  have ch: "distinct (us @ a # vs)" "dll (\<lambda>x. hashnext (the_cell t x)) (\<lambda>x. hashprev (the_cell t x)) None (us @ a # vs)"
    using D(5) [OF own] by (simp_all add: chained_def uv)
  have at: "hashprev e = (if us = [] then None else Some (last us))" "hashnext e = head vs"
    using dll_at [OF ch(2)] by (simp_all add: e_def)
  have inL: "x \<in> set (xs @ ys)" if "x \<in> set (B i)" "x \<noteq> a" "i < length (buckets t)" for x i
    using D(7) [OF that(3), of x] that by auto
  show ?thesis
  proof (cases "i = hashindex e")
    case True
    have "filter (\<lambda>x. x \<noteq> a) us = us" "filter (\<lambda>x. x \<noteq> a) vs = vs" using ch(1) by (auto simp: filter_id_conv)
    then have f: "filter (\<lambda>x. x \<noteq> a) (B i) = us @ vs" using True uv by simp
    have m: "x \<in> set (xs @ ys)" if "x \<in> set (us @ vs)" for x
      by (rule inL [OF _ _ own]) (use that uv ch(1) in auto)
    have "dll (\<lambda>x. hashnext (the_cell t' x)) (\<lambda>x. hashprev (the_cell t' x)) None (us @ vs)"
      by (rule dll_remove [OF ch(2,1)]) (use assms(5,6) m in \<open>auto simp: e_def\<close>)
    moreover have "buckets t' ! i = head (us @ vs)"
      using assms(4) at D(6) [OF own] uv True own by (auto simp: head_append)
    ultimately show ?thesis using ch(1) by (auto simp: chained_def f)
  next
    case False
    have na: "a \<notin> set (B i)" using D(7) [OF i, of a] False by (simp add: e_def)
    then have f: "filter (\<lambda>x. x \<noteq> a) (B i) = B i" by (auto simp: filter_id_conv)
    have other: "hashprev e \<noteq> Some x" "hashnext e \<noteq> Some x" if "x \<in> set (B i)" for x
    proof -
      have "x \<notin> set (B (hashindex e))" using D(7) [OF i, of x] D(7) [OF own, of x] that False by auto
      then have "x \<notin> set us" "x \<notin> set vs" using uv by auto
      then show "hashprev e \<noteq> Some x" "hashnext e \<noteq> Some x" using at head_member [of vs x] by auto
    qed
    have "dll (\<lambda>x. hashnext (the_cell t' x)) (\<lambda>x. hashprev (the_cell t' x)) None (B i) =
        dll (\<lambda>x. hashnext (the_cell t x)) (\<lambda>x. hashprev (the_cell t x)) None (B i)"
    proof (rule dll_cong)
      fix x assume x: "x \<in> set (B i)"
      then have "x \<in> set (xs @ ys)" using inL [OF x _ i] na by blast
      then show "hashnext (the_cell t' x) = hashnext (the_cell t x) \<and> hashprev (the_cell t' x) = hashprev (the_cell t x)"
        using assms(5,6) other [OF x] by simp
    qed
    moreover have "buckets t' ! i = buckets t ! i" using assms(4) False by simp
    ultimately show ?thesis using D(5,6) [OF i] by (simp add: chained_def f)
  qed
qed

lemma linked_without:
  assumes L: "linked GetIndex t (xs @ a # ys) B"
  shows "linked GetIndex (table_without a t) (xs @ ys) (\<lambda>i. filter (\<lambda>x. x \<noteq> a) (B i))"
    and "contents (table_without a t) (xs @ ys) = contents t xs @ contents t ys"
proof -
  let ?t = "table_without a t" and ?L = "xs @ a # ys" and ?e = "the_cell t a"
  note D = linkedD [OF L]
  have e: "cells t a = Some ?e" by (rule cell_in [OF L]) simp
  have dist: "distinct ?L" and ll: "dll (\<lambda>x. listnext (the_cell t x)) (\<lambda>x. listprev (the_cell t x)) None ?L"
    using D(1) by (simp_all add: listed_def)
  note at = dll_at [OF ll]
  have F: "elem_key (the_cell ?t x) = elem_key (the_cell t x)" "element (the_cell ?t x) = element (the_cell t x)"
      "hashindex (the_cell ?t x) = hashindex (the_cell t x)"
      "hashnext (the_cell ?t x) = (if hashprev ?e = Some x then hashnext ?e else hashnext (the_cell t x))"
      "hashprev (the_cell ?t x) = (if hashnext ?e = Some x then hashprev ?e else hashprev (the_cell t x))"
      "listnext (the_cell ?t x) = (if listprev ?e = Some x then listnext ?e else listnext (the_cell t x))"
      "listprev (the_cell ?t x) = (if listnext ?e = Some x then listprev ?e else listprev (the_cell t x))"
      "cells ?t x \<noteq> None" if "x \<in> set (xs @ ys)" for x
    by (rule without_fields [OF e]; (rule cell_in [OF L])?; use that dist in auto)+
  show "contents ?t (xs @ ys) = contents t xs @ contents t ys" by (simp add: contents_def F(1,2))
  have listed: "listed ?t (xs @ ys)"
    unfolding listed_def using dist by (auto intro!: dll_remove [OF ll dist] simp: F(6,7) del: iffI)
  have cells: "cells ?t x \<noteq> None \<longleftrightarrow> x \<in> set (xs @ ys)" for x
  proof (cases "x \<in> set ?L")
    case True
    then show ?thesis using F(8) [of x] without_table(1) [OF e] dist by (cases "x = a") auto
  next
    case False
    then show ?thesis using D(2) [of x] without_table(2) [OF e, of x] by auto
  qed
  have first: "firsthashelem ?t = head (xs @ ys)"
    using at D(3) by (auto simp: without_table(4) [OF e] head_append)
  have last: "lasthashelem ?t = head (rev (xs @ ys))"
    using at D(4) by (auto simp: without_table(5) [OF e] head_append head_rev)
  have len: "length (buckets ?t) = length (buckets t)" by (simp add: without_table(3) [OF e])
  have bucket: "chained ?t (filter (\<lambda>x. x \<noteq> a) (B i)) \<and> buckets ?t ! i = head (filter (\<lambda>x. x \<noteq> a) (B i))"
    if i: "i < length (buckets t)" for i
  proof (rule bucket_without [OF L i])
    show "hashnext (the_cell ?t x) = (if hashprev ?e = Some x then hashnext ?e else hashnext (the_cell t x))"
      "hashprev (the_cell ?t x) = (if hashnext ?e = Some x then hashprev ?e else hashprev (the_cell t x))"
      if "x \<in> set (xs @ ys)" for x using F(4,5) [OF that] by simp_all
  qed (simp add: without_table(3) [OF e])
  have "x \<in> set (filter (\<lambda>x. x \<noteq> a) (B i)) \<longleftrightarrow> x \<in> set (xs @ ys) \<and> hashindex (the_cell ?t x) = i"
    if "i < length (buckets t)" for i x
    using D(7) [OF that, of x] F(3) [of x] dist by auto
  moreover have "hashindex (the_cell ?t x) = GetIndex (elem_key (the_cell ?t x)) \<and> hashindex (the_cell ?t x) < length (buckets t)"
    if "x \<in> set (xs @ ys)" for x
    using D(8,9) [of x] that F(1,3) [OF that] by auto
  moreover have "inj_on (\<lambda>x. elem_key (the_cell ?t x)) (set (xs @ ys))"
  proof (rule inj_onI)
    fix x y assume xy: "x \<in> set (xs @ ys)" "y \<in> set (xs @ ys)" "elem_key (the_cell ?t x) = elem_key (the_cell ?t y)"
    then have "elem_key (the_cell t x) = elem_key (the_cell t y)" using F(1) by simp
    then show "x = y" by (rule inj_onD [OF D(10)]) (use xy in auto)
  qed
  moreover have "\<forall>b. curhashelem ?t = Some (Some b) \<longrightarrow> b \<in> set (xs @ ys)"
    using at head_member [of ys] by (simp add: without_table(6) [OF e])
  ultimately show "linked GetIndex ?t (xs @ ys) (\<lambda>i. filter (\<lambda>x. x \<noteq> a) (B i))"
    unfolding linked_def len using listed cells first last bucket by blast
qed

lemma links_inside:
  assumes "linked GetIndex t (xs @ a # ys) B"
    and "p \<in> {hashprev (the_cell t a), hashnext (the_cell t a), listprev (the_cell t a), listnext (the_cell t a)}" "p = Some b"
  shows "b \<in> set (xs @ ys)"
proof -
  note D = linkedD [OF assms(1)]
  have a: "a \<in> set (xs @ a # ys)" by simp
  let ?i = "hashindex (the_cell t a)"
  have own: "?i < length (buckets t)" using D(9) [OF a] by simp
  have "a \<in> set (B ?i)" using D(7) [OF own, of a] by simp
  then obtain us vs where uv: "B ?i = us @ a # vs" by (meson split_list)
  have ch: "distinct (us @ a # vs)" "dll (\<lambda>x. hashnext (the_cell t x)) (\<lambda>x. hashprev (the_cell t x)) None (us @ a # vs)"
    using D(5) [OF own] by (simp_all add: chained_def uv)
  have ll: "distinct (xs @ a # ys)" "dll (\<lambda>x. listnext (the_cell t x)) (\<lambda>x. listprev (the_cell t x)) None (xs @ a # ys)"
    using D(1) by (simp_all add: listed_def)
  have "b \<in> set (us @ vs) \<or> b \<in> set (xs @ ys)"
    using dll_at [OF ch(2)] dll_at [OF ll(2)] assms(2,3) head_member [of vs b] head_member [of ys b] last_in_set [of us] last_in_set [of xs]
    by (auto split: if_splits)
  moreover have "b \<in> set (xs @ ys)" if "b \<in> set (us @ vs)"
    using D(7) [OF own, of b] that uv ch(1) by auto
  ultimately show ?thesis by blast
qed

lemma delete_contents:
  assumes "linked GetIndex t (xs @ a # ys) B"
  shows "AList.delete (elem_key (the_cell t a)) (contents t (xs @ a # ys)) = contents t xs @ contents t ys"
proof -
  let ?k = "elem_key (the_cell t a)"
  have "?k \<notin> fst ` set (contents t xs)" "?k \<notin> fst ` set (contents t ys)"
    using linked_distinct [OF assms] unfolding contents_keys set_map [symmetric] by auto
  then have "AList.delete ?k (contents t xs) = contents t xs" "AList.delete ?k (contents t ys) = contents t ys"
    by (simp_all add: AList.delete_idem)
  then show ?thesis by (simp add: contents_def AList.delete_eq)
qed

lemma represents_delete:
  assumes "represents GetIndex t l (Some c)"
  shows "\<exists>t'. DeleteCurrentElement t = Inr (if c = None then ERR_RTP_KEYHASHTABLE_NOCURRENTELEMENT else 0, t') \<and>
    represents GetIndex t' (case c of None \<Rightarrow> l | Some k \<Rightarrow> AList.delete k l) (Some (case c of None \<Rightarrow> None | Some k \<Rightarrow> key_after k l))"
proof (cases c)
  case None
  then show ?thesis using assms represents_none [of GetIndex t l] by (simp add: DeleteCurrentElement_def current_def)
next
  case (Some k)
  obtain a xs ys B where a: "curhashelem t = Some (Some a)" "linked GetIndex t (xs @ a # ys) B" "l = contents t (xs @ a # ys)"
      "cells t a = Some (the_cell t a)" "elem_key (the_cell t a) = k"
    using represents_at [of GetIndex t l k] assms Some by blast
  let ?t = "table_without a t" and ?e = "the_cell t a"
  have dist: "distinct (xs @ a # ys)" using linkedD(1) [OF a(2)] by (simp add: listed_def)
  have "DeleteCurrentElement t = Inr (0, ?t)"
  proof (rule DeleteCurrentElement_runs [OF a(1,4)])
    fix p b assume "p \<in> {hashprev ?e, hashnext ?e, listprev ?e, listnext ?e}" "p = Some b"
    then have "b \<in> set (xs @ ys)" by (rule links_inside [OF a(2)])
    then show "cells t b \<noteq> None \<and> b \<noteq> a" using linkedD(2) [OF a(2), of b] dist by auto
  qed
  moreover have "represents GetIndex ?t (AList.delete k l) (Some (key_after k l))"
  proof -
    have "elem_key (the_cell ?t b) = elem_key (the_cell t b)" if "listnext ?e = Some b" for b
    proof -
      have "b \<in> set (xs @ ys)" by (rule links_inside [OF a(2) _ that]) simp
      then show ?thesis using without_fields(1) [OF a(4) cell_in [OF a(2)], of b] dist by auto
    qed
    then have "map_option (\<lambda>b. elem_key (the_cell ?t b)) (listnext ?e) = map_option (\<lambda>b. elem_key (the_cell t b)) (listnext ?e)"
      by (cases "listnext ?e") simp_all
    then have cur: "Some (key_after k l) = map_option (map_option (\<lambda>b. elem_key (the_cell ?t b))) (curhashelem ?t)"
      using keys_around(1) [OF a(2)] by (simp add: without_table(6) [OF a(4)] a(3,5))
    have "AList.delete k l = contents ?t (xs @ ys)"
      using delete_contents [OF a(2)] linked_without(2) [OF a(2)] by (simp add: a(3,5))
    then show ?thesis unfolding represents_def using linked_without(1) [OF a(2)] cur by blast
  qed
  ultimately show ?thesis using Some by simp
qed

subsection \<open>Adding\<close>

definition cells_with :: "nat \<Rightarrow> 'e hash_element \<Rightarrow> 'e hash_table \<Rightarrow> nat \<Rightarrow> 'e hash_element option" where
  "cells_with a e t =
     (let cs = writes (hashnext e) (\<lambda>x. x\<lparr>hashprev := Some a\<rparr>) ((cells t)(a := Some e)) in
      if firsthashelem t = None then cs
      else writes (Some a) (\<lambda>x. x\<lparr>listprev := lasthashelem t\<rparr>) (writes (lasthashelem t) (\<lambda>x. x\<lparr>listnext := Some a\<rparr>) cs))"

definition table_with :: "nat \<Rightarrow> 'e hash_element \<Rightarrow> 'e hash_table \<Rightarrow> 'e hash_table" where
  "table_with a e t =
     t\<lparr>cells := cells_with a e t, buckets := (buckets t)[hashindex e := Some a],
      firsthashelem := (if firsthashelem t = None then Some a else firsthashelem t), lasthashelem := Some a\<rparr>"

lemma write_cell_some: "cells t b \<noteq> None \<Longrightarrow> write_cell b f t = Inr (t\<lparr>cells := writes (Some b) f (cells t)\<rparr>)"
  using write_or [of "Some b" t undefined f] by simp

lemma AddElement_runs:
  assumes "linked GetIndex t L B" "GetIndex k < length (buckets t)" "cells t a = None" "k \<notin> fst ` set (contents t L)"
  shows "AddElement GetIndex a k elem t = Inr (0, table_with a (new_element k elem (GetIndex k) (buckets t ! GetIndex k)) t)"
proof -
  note D = linkedD [OF assms(1)]
  let ?i = "GetIndex k"
  let ?b = "buckets t ! ?i"
  let ?e = "new_element k elem ?i ?b"
  have search: "search_bucket ?i k t = Inr None"
    using search_bucket_found [OF assms(1,2)] find_key(1) [OF assms(1), of k] assms(4) by simp
  define t1 where "t1 = t\<lparr>cells := (cells t)(a := Some ?e), buckets := (buckets t)[?i := Some a]\<rparr>"
  define t2 where "t2 = t1\<lparr>cells := writes ?b (\<lambda>x. x\<lparr>hashprev := Some a\<rparr>) (cells t1)\<rparr>"
  have "cells t1 b \<noteq> None" if "?b = Some b" for b
  proof -
    have "b \<in> set (B ?i)" using that D(6) [OF assms(2)] head_member [of "B ?i" b] by simp
    then show ?thesis using D(7) [OF assms(2), of b] D(2) [of b] by (auto simp: t1_def)
  qed
  then have s2: "(case ?b of None \<Rightarrow> Inr t1 | Some b \<Rightarrow> write_cell b (\<lambda>x. x\<lparr>hashprev := Some a\<rparr>) t1) = Inr t2"
    unfolding t2_def by (subst write_or) auto
  have f: "firsthashelem t2 = firsthashelem t" "lasthashelem t2 = lasthashelem t" by (simp_all add: t2_def t1_def)
  have run: "AddElement GetIndex a k elem t =
    (if firsthashelem t = None then Inr (0, t2\<lparr>firsthashelem := Some a, lasthashelem := Some a\<rparr>)
     else case lasthashelem t of None \<Rightarrow> Inl NullDeref
       | Some b \<Rightarrow> ub_bind (write_cell b (\<lambda>x. x\<lparr>listnext := Some a\<rparr>) t2) (\<lambda>t3.
           ub_bind (write_cell a (\<lambda>x. x\<lparr>listprev := Some b\<rparr>) t3) (\<lambda>t4. Inr (0, t4\<lparr>lasthashelem := Some a\<rparr>))))"
    using assms(2) f by (simp add: AddElement_def Let_def search s2 [unfolded t1_def])
  show ?thesis
  proof (cases "firsthashelem t")
    case None
    then show ?thesis unfolding run
      by (simp add: table_with_def cells_with_def Let_def t2_def t1_def new_element_def)
  next
    case (Some x)
    then obtain b where b: "lasthashelem t = Some b" "b \<in> set L" using D(3,4) head_member [of "rev L"] by (cases L rule: rev_cases) auto
    have "cells t2 b \<noteq> None" "cells t2 a \<noteq> None" using D(2) [of b] b(2) by (auto simp: t2_def t1_def)
    then show ?thesis unfolding run using Some b(1)
      by (simp add: write_cell_some table_with_def cells_with_def Let_def t2_def t1_def new_element_def)
  qed
qed

lemma with_fields:
  assumes "cells t a = None" "hashnext e \<noteq> Some a" "lasthashelem t \<noteq> Some a"
  shows "the_cell (table_with a e t) a = e\<lparr>listprev := (if firsthashelem t = None then listprev e else lasthashelem t)\<rparr>"
    "cells (table_with a e t) a \<noteq> None"
    "x \<noteq> a \<Longrightarrow> cells (table_with a e t) x = map_option (\<lambda>c. c\<lparr>hashprev := if hashnext e = Some x then Some a else hashprev c,
        listnext := if firsthashelem t \<noteq> None \<and> lasthashelem t = Some x then Some a else listnext c\<rparr>) (cells t x)"
proof -
  show "the_cell (table_with a e t) a = e\<lparr>listprev := (if firsthashelem t = None then listprev e else lasthashelem t)\<rparr>"
    "cells (table_with a e t) a \<noteq> None"
    using assms by (simp_all add: table_with_def cells_with_def Let_def writes_def)
  show "x \<noteq> a \<Longrightarrow> cells (table_with a e t) x = map_option (\<lambda>c. c\<lparr>hashprev := if hashnext e = Some x then Some a else hashprev c,
        listnext := if firsthashelem t \<noteq> None \<and> lasthashelem t = Some x then Some a else listnext c\<rparr>) (cells t x)"
    by (cases "cells t x") (simp_all add: table_with_def cells_with_def Let_def writes_def)
qed

lemma linked_with:
  fixes elem :: 'e
  assumes L: "linked GetIndex t L B" and i: "GetIndex k < length (buckets t)" and new: "cells t a = None" and k: "k \<notin> fst ` set (contents t L)"
  defines "t' \<equiv> table_with a (new_element k elem (GetIndex k) (buckets t ! GetIndex k)) t"
  shows "linked GetIndex t' (L @ [a]) (B(GetIndex k := a # B (GetIndex k)))"
    and "contents t' (L @ [a]) = contents t L @ [(k, elem)]"
    and "x \<in> set L \<Longrightarrow> elem_key (the_cell t' x) = elem_key (the_cell t x)"
proof -
  note D = linkedD [OF L]
  let ?i = "GetIndex k"
  let ?e = "new_element k elem ?i (buckets t ! ?i)"
  have a: "a \<notin> set L" using D(2) [of a] new by simp
  have ni: "hashnext ?e \<noteq> Some a" using D(6) [OF i] D(7) [OF i, of a] head_member [of "B ?i" a] a by (auto simp: new_element_def)
  have nl: "lasthashelem t \<noteq> Some a" using D(4) head_member [of "rev L" a] a by auto
  note W = with_fields [OF new ni nl, folded t'_def]
  have fl: "firsthashelem t = None \<longleftrightarrow> L = []" "lasthashelem t = (if L = [] then None else Some (last L))"
    using D(3,4) by (simp_all add: head_rev)
  have A: "elem_key (the_cell t' a) = k" "element (the_cell t' a) = elem" "hashindex (the_cell t' a) = ?i"
    "hashnext (the_cell t' a) = head (B ?i)" "hashprev (the_cell t' a) = None" "listnext (the_cell t' a) = None"
    "listprev (the_cell t' a) = (if L = [] then None else Some (last L))"
    unfolding W(1) using fl by (simp_all add: new_element_def D(6) [OF i])
  have F: "elem_key (the_cell t' x) = elem_key (the_cell t x)" "element (the_cell t' x) = element (the_cell t x)"
    "hashindex (the_cell t' x) = hashindex (the_cell t x)" "hashnext (the_cell t' x) = hashnext (the_cell t x)"
    "hashprev (the_cell t' x) = (if head (B ?i) = Some x then Some a else hashprev (the_cell t x))"
    "listprev (the_cell t' x) = listprev (the_cell t x)"
    "listnext (the_cell t' x) = (if x = last L then Some a else listnext (the_cell t x))"
    if "x \<in> set L" for x
  proof -
    have "cells t x \<noteq> None" using D(2) [of x] that by simp
    then obtain c where "cells t x = Some c" by blast
    moreover have "x \<noteq> a" "L \<noteq> []" using that a by auto
    ultimately show "elem_key (the_cell t' x) = elem_key (the_cell t x)" "element (the_cell t' x) = element (the_cell t x)"
      "hashindex (the_cell t' x) = hashindex (the_cell t x)" "hashnext (the_cell t' x) = hashnext (the_cell t x)"
      "hashprev (the_cell t' x) = (if head (B ?i) = Some x then Some a else hashprev (the_cell t x))"
      "listprev (the_cell t' x) = listprev (the_cell t x)"
      "listnext (the_cell t' x) = (if x = last L then Some a else listnext (the_cell t x))"
      using W(3) [of x] fl by (auto simp: new_element_def D(6) [OF i])
  qed
  show "x \<in> set L \<Longrightarrow> elem_key (the_cell t' x) = elem_key (the_cell t x)" by (rule F(1))
  show "contents t' (L @ [a]) = contents t L @ [(k, elem)]" by (simp add: contents_def A F(1,2))
  have dist: "distinct L" and ll: "dll (\<lambda>x. listnext (the_cell t x)) (\<lambda>x. listprev (the_cell t x)) None L"
    using D(1) by (simp_all add: listed_def)
  have "dll (\<lambda>x. listnext (the_cell t' x)) (\<lambda>x. listprev (the_cell t' x)) None (L @ [a])"
    by (rule dll_snoc [OF ll a dist]) (simp_all add: A(6,7) F(6,7))
  then have listed: "listed t' (L @ [a])" using dist a by (simp add: listed_def)
  have cells: "cells t' x \<noteq> None \<longleftrightarrow> x \<in> set (L @ [a])" for x
    using W(2) W(3) [of x] D(2) [of x] by (cases "x = a") auto
  have b': "buckets t' = (buckets t)[?i := Some a]" "firsthashelem t' = head (L @ [a])" "lasthashelem t' = Some a" "curhashelem t' = curhashelem t"
    using D(3) by (auto simp: t'_def table_with_def new_element_def head_append)
  have bucket: "chained t' ((B(?i := a # B ?i)) j) \<and> buckets t' ! j = head ((B(?i := a # B ?i)) j)" if j: "j < length (buckets t)" for j
  proof (cases "j = ?i")
    case True
    have ch: "distinct (B ?i)" "dll (\<lambda>x. hashnext (the_cell t x)) (\<lambda>x. hashprev (the_cell t x)) None (B ?i)"
      using D(5) [OF i] by (simp_all add: chained_def)
    have m: "x \<in> set L" if "x \<in> set (B ?i)" for x using D(7) [OF i, of x] that by simp
    have na: "a \<notin> set (B ?i)" using m a by blast
    have "dll (\<lambda>x. hashnext (the_cell t' x)) (\<lambda>x. hashprev (the_cell t' x)) None (a # B ?i)"
      by (rule dll_push [OF ch(2) na ch(1)]) (simp_all add: A(4,5) F(4,5) m)
    then show ?thesis using True ch(1) na i b'(1) by (simp add: chained_def)
  next
    case False
    have "dll (\<lambda>x. hashnext (the_cell t' x)) (\<lambda>x. hashprev (the_cell t' x)) None (B j) =
        dll (\<lambda>x. hashnext (the_cell t x)) (\<lambda>x. hashprev (the_cell t x)) None (B j)"
    proof (rule dll_cong)
      fix x assume x: "x \<in> set (B j)"
      then have m: "x \<in> set L" "hashindex (the_cell t x) = j" using D(7) [OF j, of x] by simp_all
      then have "head (B ?i) \<noteq> Some x" using D(7) [OF i, of x] head_member [of "B ?i" x] False by auto
      then show "hashnext (the_cell t' x) = hashnext (the_cell t x) \<and> hashprev (the_cell t' x) = hashprev (the_cell t x)"
        using F(4,5) [OF m(1)] by simp
    qed
    then show ?thesis using D(5,6) [OF j] False b'(1) by (simp add: chained_def)
  qed
  have member: "x \<in> set ((B(?i := a # B ?i)) j) \<longleftrightarrow> x \<in> set (L @ [a]) \<and> hashindex (the_cell t' x) = j" if j: "j < length (buckets t)" for j x
    using D(7) [OF j, of x] D(7) [OF i, of x] a A(3) F(3) [of x] by (cases "x = a") auto
  have index: "hashindex (the_cell t' x) = GetIndex (elem_key (the_cell t' x)) \<and> hashindex (the_cell t' x) < length (buckets t)"
    if "x \<in> set (L @ [a])" for x
    using that A(1,3) F(1,3) [of x] D(8,9) [of x] i by (cases "x = a") auto
  have "inj_on (\<lambda>x. elem_key (the_cell t' x)) (set (L @ [a]))"
  proof (rule inj_onI)
    fix x y assume xy: "x \<in> set (L @ [a])" "y \<in> set (L @ [a])" "elem_key (the_cell t' x) = elem_key (the_cell t' y)"
    have other: "elem_key (the_cell t' z) \<noteq> k" if "z \<in> set L" for z
      using k that F(1) [OF that] contents_key [of k t L] by auto
    show "x = y"
    proof (cases "x = a \<or> y = a")
      case True
      then show ?thesis using xy A(1) other [of x] other [of y] by auto
    next
      case False
      then have "x \<in> set L" "y \<in> set L" "elem_key (the_cell t x) = elem_key (the_cell t y)" using xy F(1) by auto
      then show ?thesis using inj_onD [OF D(10)] by blast
    qed
  qed
  moreover have "\<forall>b. curhashelem t' = Some (Some b) \<longrightarrow> b \<in> set (L @ [a])" using D(11) b'(4) by simp
  moreover have len: "length (buckets t') = length (buckets t)" by (simp add: b'(1))
  moreover have "lasthashelem t' = head (rev (L @ [a]))" using b'(3) by simp
  ultimately show "linked GetIndex t' (L @ [a]) (B(?i := a # B ?i))"
    unfolding linked_def len using listed cells b'(2) bucket member index by blast
qed

lemma represents_add:
  assumes "represents GetIndex t l c" "GetIndex k < length (buckets t)" "cells t a = None"
  shows "\<exists>t'. AddElement GetIndex a k elem t = Inr (if k \<in> fst ` set l then ERR_RTP_KEYHASHTABLE_KEYALREADYEXISTS else 0, t') \<and>
    represents GetIndex t' (if k \<in> fst ` set l then l else l @ [(k, elem)]) c"
proof -
  obtain L B where L: "linked GetIndex t L B" "l = contents t L" "c = map_option (map_option (\<lambda>a. elem_key (the_cell t a))) (curhashelem t)"
    using assms(1) unfolding represents_def by blast
  show ?thesis
  proof (cases "k \<in> fst ` set l")
    case True
    then have "search_bucket (GetIndex k) k t \<noteq> Inr None" "\<exists>c. search_bucket (GetIndex k) k t = Inr c"
      using search_bucket_found [OF L(1) assms(2)] find_key(1) [OF L(1), of k] L(2) by (simp_all del: not_None_eq)
    then show ?thesis using True assms(1,2) by (auto simp: AddElement_def Let_def)
  next
    case False
    let ?t = "table_with a (new_element k elem (GetIndex k) (buckets t ! GetIndex k)) t"
    have nk: "k \<notin> fst ` set (contents t L)" using False L(2) by simp
    note W = linked_with [OF L(1) assms(2,3) nk, where elem = elem]
    have cur: "curhashelem ?t = curhashelem t" by (simp add: table_with_def)
    have "c = map_option (map_option (\<lambda>a. elem_key (the_cell ?t a))) (curhashelem ?t)"
    proof (cases "curhashelem t")
      case (Some d)
      then show ?thesis using L(3) cur W(3) linkedD(11) [OF L(1)] by (cases d) auto
    qed (simp add: L(3) cur)
    then have "represents GetIndex ?t (l @ [(k, elem)]) c" unfolding represents_def L(2) using W(1,2) by metis
    then show ?thesis using AddElement_runs [OF L(1) assms(2,3) nk] False by auto
  qed
qed

subsection \<open>Clearing\<close>

lemma free_list_all:
  "distinct xs \<Longrightarrow> \<forall>a \<in> set xs. cs a \<noteq> None \<Longrightarrow> dll (\<lambda>a. listnext (the (cs a))) pv p xs \<Longrightarrow>
   free_list cs (head xs) = Some (Inr (\<lambda>x. if x \<in> set xs then None else cs x))"
proof (induction xs arbitrary: cs p)
  case Nil
  then show ?case by (simp add: free_list.simps)
next
  case (Cons a xs)
  obtain e where e: "cs a = Some e" using Cons.prems(2) by auto
  have nx: "listnext e = head xs" using Cons.prems(3) e by simp
  let ?cs = "cs(a := None)"
  have "dll (\<lambda>a. listnext (the (?cs a))) pv (Some a) xs = dll (\<lambda>a. listnext (the (cs a))) pv (Some a) xs"
    by (rule dll_cong) (use Cons.prems(1) in auto)
  then have d: "dll (\<lambda>a. listnext (the (?cs a))) pv (Some a) xs" using Cons.prems(3) by simp
  have "distinct xs" "\<forall>b \<in> set xs. ?cs b \<noteq> None" using Cons.prems(1,2) by auto
  moreover have "(\<lambda>x. if x \<in> set xs then None else ?cs x) = (\<lambda>x. if x \<in> set (a # xs) then None else cs x)" by auto
  ultimately have "free_list ?cs (head xs) = Some (Inr (\<lambda>x. if x \<in> set (a # xs) then None else cs x))"
    using Cons.IH [OF _ _ d] by metis
  then show ?case by (simp add: free_list.simps [of cs "Some a"] e nx)
qed

text \<open>All elements are freed, and a current element dangles.\<close>

lemma ClearElements_frees:
  assumes "represents GetIndex t l c"
  shows "\<exists>t'. ClearElements t = Inr t' \<and> (\<forall>a. cells t' a = None) \<and> curhashelem t' = curhashelem t \<and>
    (c = None \<or> c = Some None \<longrightarrow> represents GetIndex t' [] c) \<and> (\<forall>k. c = Some (Some k) \<longrightarrow> GetCurrentElement t' = Inl Dangling)"
proof -
  obtain L B where L: "linked GetIndex t L B" "c = map_option (map_option (\<lambda>a. elem_key (the_cell t a))) (curhashelem t)"
    using assms unfolding represents_def by blast
  note D = linkedD [OF L(1)]
  let ?t = "t\<lparr>cells := (\<lambda>_. None), buckets := replicate (length (buckets t)) None, firsthashelem := None, lasthashelem := None\<rparr>"
  have "free_list (cells t) (firsthashelem t) = Some (Inr (\<lambda>x. if x \<in> set L then None else cells t x))"
    unfolding D(3) using free_list_all [of L "cells t"] D(1,2) by (auto simp: listed_def)
  moreover have "(\<lambda>x. if x \<in> set L then None else cells t x) = (\<lambda>_. None)"
  proof
    show "(if x \<in> set L then None else cells t x) = None" for x using D(2) [of x] by auto
  qed
  ultimately have "ClearElements t = Inr ?t" by (simp add: ClearElements_def)
  moreover have "represents GetIndex ?t [] c" if "c = None \<or> c = Some None"
  proof -
    have "curhashelem t = None \<or> curhashelem t = Some None" using L(2) that by (cases "curhashelem t"; cases "the (curhashelem t)") auto
    moreover from this have "linked GetIndex ?t [] (\<lambda>_. [])" by (auto simp: linked_def listed_def chained_def)
    ultimately show ?thesis unfolding represents_def using L(2) by (intro exI [of _ "[]"]) (auto simp: contents_def)
  qed
  moreover have "GetCurrentElement ?t = Inl Dangling" if "c = Some (Some k)" for k
    using L(2) that by (cases "curhashelem t"; cases "the (curhashelem t)") (auto simp: GetCurrentElement_def current_cell_def current_def cell_def)
  ultimately show ?thesis by auto
qed

subsection \<open>Every operation\<close>

datatype 'e table_op =
    Op_First | Op_Last | Op_Next | Op_Previous | Op_Goto u32 | Op_Has u32 | Op_Current | Op_Key
  | Op_Add nat u32 'e | Op_DeleteCurrent | Op_Delete u32

datatype 'e table_result = Done | Status int | Found bool | Value 'e | Key u32

fun hash_op :: "(u32 \<Rightarrow> nat) \<Rightarrow> 'e table_op \<Rightarrow> 'e hash_table \<Rightarrow> ub + ('e table_result \<times> 'e hash_table)" where
  "hash_op GetIndex Op_First t = Inr (Done, GotoFirstElement t)"
| "hash_op GetIndex Op_Last t = Inr (Done, GotoLastElement t)"
| "hash_op GetIndex Op_Next t = ub_bind (GotoNextElement t) (\<lambda>t. Inr (Done, t))"
| "hash_op GetIndex Op_Previous t = ub_bind (GotoPreviousElement t) (\<lambda>t. Inr (Done, t))"
| "hash_op GetIndex (Op_Goto k) t = ub_bind (GotoElement GetIndex k t) (\<lambda>(st, t). Inr (Status st, t))"
| "hash_op GetIndex (Op_Has k) t = ub_bind (HasElement GetIndex k t) (\<lambda>b. Inr (Found b, t))"
| "hash_op GetIndex Op_Current t = ub_bind (GetCurrentElement t) (\<lambda>e. Inr (Value e, t))"
| "hash_op GetIndex Op_Key t = ub_bind (GetCurrentKey t) (\<lambda>k. Inr (Key k, t))"
| "hash_op GetIndex (Op_Add a k e) t = ub_bind (AddElement GetIndex a k e t) (\<lambda>(st, t). Inr (Status st, t))"
| "hash_op GetIndex Op_DeleteCurrent t = ub_bind (DeleteCurrentElement t) (\<lambda>(st, t). Inr (Status st, t))"
| "hash_op GetIndex (Op_Delete k) t = ub_bind (DeleteElement GetIndex k t) (\<lambda>(st, t). Inr (Status st, t))"

text \<open>The same on a list of keys and values with a current key; \<open>None\<close> stands for the pointer that was not written yet.\<close>

type_synonym 'e key_list = "(u32 \<times> 'e) list \<times> u32 option option"

fun list_delete :: "'e key_list \<Rightarrow> 'e table_result \<times> 'e key_list" where
  "list_delete (l, Some (Some k)) = (Status 0, AList.delete k l, Some (key_after k l))"
| "list_delete (l, c) = (Status ERR_RTP_KEYHASHTABLE_NOCURRENTELEMENT, l, c)"

definition list_goto :: "u32 \<Rightarrow> (u32 \<times> 'e) list \<Rightarrow> 'e table_result \<times> 'e key_list" where
  "list_goto k l =
     (if k \<in> fst ` set l then (Status 0, l, Some (Some k)) else (Status ERR_RTP_KEYHASHTABLE_KEYNOTFOUND, l, Some None))"

definition step_key :: "(u32 \<Rightarrow> (u32 \<times> 'e) list \<Rightarrow> u32 option) \<Rightarrow> 'e key_list \<Rightarrow> 'e table_result \<times> 'e key_list" where
  "step_key f s = (case s of (l, c) \<Rightarrow> (Done, l, Some (case the c of None \<Rightarrow> None | Some k \<Rightarrow> f k l)))"

fun list_op :: "'e table_op \<Rightarrow> 'e key_list \<Rightarrow> 'e table_result \<times> 'e key_list" where
  "list_op Op_First (l, c) = (Done, l, Some (map_option fst (head l)))"
| "list_op Op_Last (l, c) = (Done, l, Some (map_option fst (head (rev l))))"
| "list_op Op_Next s = step_key key_after s"
| "list_op Op_Previous s = step_key key_before s"
| "list_op (Op_Goto k) (l, c) = list_goto k l"
| "list_op (Op_Has k) (l, c) = (Found (k \<in> fst ` set l), l, c)"
| "list_op Op_Current (l, c) = (Value (the (map_of l (the (the c)))), l, c)"
| "list_op Op_Key (l, c) = (Key (the (the c)), l, c)"
| "list_op (Op_Add a k e) (l, c) =
     (if k \<in> fst ` set l then (Status ERR_RTP_KEYHASHTABLE_KEYALREADYEXISTS, l, c) else (Status 0, l @ [(k, e)], c))"
| "list_op Op_DeleteCurrent s = list_delete s"
| "list_op (Op_Delete k) (l, c) = (case list_goto k l of (r, s) \<Rightarrow> if r = Status 0 then list_delete s else (r, s))"

text \<open>What a caller has to know: the current element exists where it is read, the address is a free one, the
  index of a key lies in the table.\<close>

fun op_ok :: "(u32 \<Rightarrow> nat) \<Rightarrow> 'e table_op \<Rightarrow> 'e hash_table \<Rightarrow> u32 option option \<Rightarrow> bool" where
  "op_ok GetIndex Op_Next t c = (c \<noteq> None)"
| "op_ok GetIndex Op_Previous t c = (c \<noteq> None)"
| "op_ok GetIndex (Op_Goto k) t c = (GetIndex k < length (buckets t))"
| "op_ok GetIndex (Op_Has k) t c = (GetIndex k < length (buckets t))"
| "op_ok GetIndex Op_Current t c = (c \<noteq> None \<and> c \<noteq> Some None)"
| "op_ok GetIndex Op_Key t c = (c \<noteq> None \<and> c \<noteq> Some None)"
| "op_ok GetIndex (Op_Add a k e) t c = (GetIndex k < length (buckets t) \<and> cells t a = None)"
| "op_ok GetIndex Op_DeleteCurrent t c = (c \<noteq> None)"
| "op_ok GetIndex (Op_Delete k) t c = (GetIndex k < length (buckets t))"
| "op_ok GetIndex _ t c = True"

lemma represents_read:
  assumes "represents GetIndex t l (Some (Some k))"
  shows "GetCurrentElement t = Inr (the (map_of l k))" "GetCurrentKey t = Inr k"
proof -
  obtain a xs ys B where a: "curhashelem t = Some (Some a)" "linked GetIndex t (xs @ a # ys) B" "l = contents t (xs @ a # ys)"
      "cells t a = Some (the_cell t a)" "elem_key (the_cell t a) = k"
    using represents_at [OF assms] by blast
  have c: "current_cell t = Inr (the_cell t a)" using a(1,4) by (metis cell_def current_cell_def current_def option.simps(5) ub_bind_Inr)
  have "(k, element (the_cell t a)) \<in> set l" using a(3,5) by (auto simp: contents_def)
  then have "map_of l k = Some (element (the_cell t a))"
    using linked_distinct [OF a(2)] a(3) by simp
  then show "GetCurrentElement t = Inr (the (map_of l k))" "GetCurrentKey t = Inr k"
    using c a(5) by (simp_all add: GetCurrentElement_def GetCurrentKey_def)
qed

lemma hash_op_step:
  assumes "represents GetIndex t l c" "op_ok GetIndex op t c"
  shows "\<exists>t'. hash_op GetIndex op t = Inr (fst (list_op op (l, c)), t') \<and>
    represents GetIndex t' (fst (snd (list_op op (l, c)))) (snd (snd (list_op op (l, c))))"
proof (cases op)
  case (Op_Goto k)
  then show ?thesis using represents_search(1) [OF assms(1), of k] assms(2) by (auto simp: list_goto_def split: if_splits)
next
  case (Op_Has k)
  then show ?thesis using represents_search(2) [OF assms(1), of k] assms by simp
next
  case (Op_Add a k e)
  then show ?thesis using represents_add [OF assms(1), of k a e] assms(2) by (auto split: if_splits)
next
  case (Op_Delete k)
  obtain t1 where t1: "GotoElement GetIndex k t = Inr (if k \<in> fst ` set l then 0 else ERR_RTP_KEYHASHTABLE_KEYNOTFOUND, t1)"
      "represents GetIndex t1 l (Some (if k \<in> fst ` set l then Some k else None))"
    using represents_search(1) [OF assms(1), of k] assms(2) Op_Delete by auto
  show ?thesis
  proof (cases "k \<in> fst ` set l")
    case True
    then obtain t2 where "DeleteCurrentElement t1 = Inr (0, t2)" "represents GetIndex t2 (AList.delete k l) (Some (key_after k l))"
      using represents_delete [OF t1(2)] by auto
    then show ?thesis using Op_Delete t1(1) True by (simp add: DeleteElement_def list_goto_def)
  next
    case False
    then show ?thesis using Op_Delete t1 by (simp add: DeleteElement_def list_goto_def)
  qed
next
  case Op_DeleteCurrent
  then obtain d where d: "c = Some d" using assms(2) by auto
  show ?thesis using represents_delete [of GetIndex t l d] assms(1) d Op_DeleteCurrent by (cases d) auto
next
  case Op_Next
  then obtain d where d: "c = Some d" using assms(2) by auto
  show ?thesis using represents_move(1) [of GetIndex t l d] assms(1) d Op_Next by (auto simp: step_key_def)
next
  case Op_Previous
  then obtain d where d: "c = Some d" using assms(2) by auto
  show ?thesis using represents_move(2) [of GetIndex t l d] assms(1) d Op_Previous by (auto simp: step_key_def)
next
  case Op_Current
  then obtain k where "c = Some (Some k)" using assms(2) by (cases c) auto
  then show ?thesis using represents_read [of GetIndex t l k] assms(1) Op_Current by simp
next
  case Op_Key
  then obtain k where "c = Some (Some k)" using assms(2) by (cases c) auto
  then show ?thesis using represents_read [of GetIndex t l k] assms(1) Op_Key by simp
qed (use represents_ends [OF assms(1)] assms(1) in simp_all)

subsection \<open>Runs of operations\<close>

fun hash_ops :: "(u32 \<Rightarrow> nat) \<Rightarrow> 'e table_op list \<Rightarrow> 'e hash_table \<Rightarrow> ub + ('e table_result list \<times> 'e hash_table)" where
  "hash_ops GetIndex [] t = Inr ([], t)"
| "hash_ops GetIndex (op # ops) t =
     ub_bind (hash_op GetIndex op t) (\<lambda>(r, t1). ub_bind (hash_ops GetIndex ops t1) (\<lambda>(rs, t2). Inr (r # rs, t2)))"

fun list_ops :: "'e table_op list \<Rightarrow> 'e key_list \<Rightarrow> 'e table_result list \<times> 'e key_list" where
  "list_ops [] s = ([], s)"
| "list_ops (op # ops) s = (case list_op op s of (r, s1) \<Rightarrow> case list_ops ops s1 of (rs, s2) \<Rightarrow> (r # rs, s2))"

fun ops_ok :: "(u32 \<Rightarrow> nat) \<Rightarrow> 'e table_op list \<Rightarrow> 'e hash_table \<Rightarrow> 'e key_list \<Rightarrow> bool" where
  "ops_ok GetIndex [] t s = True"
| "ops_ok GetIndex (op # ops) t s =
     (op_ok GetIndex op t (snd s) \<and>
      (case hash_op GetIndex op t of Inl e \<Rightarrow> True | Inr (r, t1) \<Rightarrow> ops_ok GetIndex ops t1 (snd (list_op op s))))"

lemma hash_ops_run:
  assumes "represents GetIndex t l c" "ops_ok GetIndex ops t (l, c)"
  shows "\<exists>t' l' c'. hash_ops GetIndex ops t = Inr (fst (list_ops ops (l, c)), t') \<and> snd (list_ops ops (l, c)) = (l', c') \<and>
    represents GetIndex t' l' c'"
  using assms
proof (induction ops arbitrary: t l c)
  case (Cons op ops)
  obtain r l1 c1 where s: "list_op op (l, c) = (r, l1, c1)" by (cases "list_op op (l, c)") auto
  obtain t1 where t1: "hash_op GetIndex op t = Inr (r, t1)" "represents GetIndex t1 l1 c1"
    using hash_op_step [OF Cons.prems(1), of op] Cons.prems(2) s by auto
  have "ops_ok GetIndex ops t1 (l1, c1)" using Cons.prems(2) t1(1) s by simp
  from Cons.IH [OF t1(2) this] show ?case using t1(1) s by (auto simp: case_prod_unfold)
qed auto

text \<open>C33: The hash table does what a list of keys and values with a current key does: whatever operations are run
  on a new table, all of them return what the list returns, no pointer is followed that is null, dangling or not written
  yet, no search runs in a circle, and at the end the chains of the buckets and the list through all
  elements are linked consistently. The operations must be given free addresses and a current element where they read it.\<close>

theorem hash_table_refines_list:
  assumes "ops_ok GetIndex ops (new_hash_table n) ([], None)"
  shows "\<exists>t' l' c'. hash_ops GetIndex ops (new_hash_table n) = Inr (fst (list_ops ops ([], None)), t') \<and>
    snd (list_ops ops ([], None)) = (l', c') \<and> represents GetIndex t' l' c'"
  by (rule hash_ops_run [OF new_represents assms])

text \<open>Three elements of one bucket and one of another; the middle one of the chain is deleted.\<close>

definition sample_ops :: "nat table_op list" where
  "sample_ops = [Op_Add 10 2 20, Op_Add 11 4 40, Op_Add 12 3 30, Op_Add 13 6 60, Op_Delete 4, Op_Current, Op_Next, Op_Key, Op_Previous,
     Op_Previous, Op_Key, Op_Has 4, Op_Add 14 2 21, Op_Last, Op_DeleteCurrent, Op_First, Op_Current]"

theorem hash_table_refines_list_witness:
  "\<exists>t'. hash_ops (\<lambda>k. unat k mod 2) sample_ops (new_hash_table 2) =
     Inr ([Status 0, Status 0, Status 0, Status 0, Status 0, Value 30, Done, Key 6, Done, Done, Key 2, Found False, Status (- 9), Done,
       Status 0, Done, Value 20], t')"
proof -
  have ok: "ops_ok (\<lambda>k. unat k mod 2) sample_ops (new_hash_table 2) ([], None)" by code_simp
  have "fst (list_ops sample_ops ([], None)) = [Status 0, Status 0, Status 0, Status 0, Status 0, Value 30, Done, Key 6, Done, Done, Key 2,
      Found False, Status (- 9), Done, Status 0, Done, Value 20]" by code_simp
  then show ?thesis using hash_table_refines_list [OF ok] by auto
qed

end
