(* ===== verification/Rtp_Source_Store.thy ===== *)
theory Rtp_Source_Store
  imports Key_Hash_Table Rtp_Table_Invariant
begin

section \<open>The hash table under the table of sources\<close>

text \<open>
  \<open>RTPSources\<close> keeps its sources in an \<open>RTPKeyHashTable\<close> of 8317 buckets. The definitions of \<open>Rtp_Sources\<close>
  use the list of \<open>Key_Hash_Table\<close>; here each use is shown to be the operation the code calls, so that by the
  refinement the code's table of chains and links behaves as they say.
\<close>

definition RTPSOURCES_HASHSIZE :: nat where [simp]: "RTPSOURCES_HASHSIZE = 8317"

definition RTPSources_GetHashIndex :: "u32 \<Rightarrow> nat" where
  "RTPSources_GetHashIndex k = unat k mod RTPSOURCES_HASHSIZE"

lemma hash_index_bound: "RTPSources_GetHashIndex k < RTPSOURCES_HASHSIZE"
  by (simp add: RTPSources_GetHashIndex_def)

definition store :: "rtp_sources \<Rightarrow> source_entry key_list" where
  "store s = (sourcelist s, Some (currentsource s))"

lemma next_key_after: "next_key k s = key_after k (sourcelist s)"
  by (simp add: next_key_def key_after_def head_def split: list.split)

lemma elements_before_key: "map_option fst (head (elements_before k s)) = key_before k (sourcelist s)"
  by (simp add: elements_before_def key_before_def)

lemma store_moves:
  "store (snd (GotoFirstSource s)) = snd (list_op Op_First (store s))"
  "GotoNextSource s = Inr (b, s') \<Longrightarrow> store s' = snd (list_op Op_Next (store s))"
  "GotoPreviousSource s = Inr (b, s') \<Longrightarrow> store s' = snd (list_op Op_Previous (store s))"
proof -
  show "store (snd (GotoFirstSource s)) = snd (list_op Op_First (store s))"
    by (simp add: store_def GotoFirstSource_def split: list.split)
  show "GotoNextSource s = Inr (b, s') \<Longrightarrow> store s' = snd (list_op Op_Next (store s))"
    by (cases "currentsource s") (auto simp: store_def GotoNextSource_def ub_bind_eq_Inr Let_def current_entry_def step_key_def
        next_key_after split: option.splits)
  show "GotoPreviousSource s = Inr (b, s') \<Longrightarrow> store s' = snd (list_op Op_Previous (store s))"
    by (cases "currentsource s") (auto simp: store_def GotoPreviousSource_def ub_bind_eq_Inr Let_def current_entry_def step_key_def
        elements_before_key [symmetric] head_def split: option.splits list.splits)
qed

lemma found_key: "k \<in> fst ` set (sourcelist s) \<longleftrightarrow> GotEntry k s"
  using in_table by (simp add: GotEntry_def)

lemma store_search:
  "list_op (Op_Has k) (store s) = (Found (GotEntry k s), store s)"
  "store (snd (GetSourceInfo k s)) = snd (list_op (Op_Goto k) (store s))"
  "fst (list_op (Op_Goto k) (store s)) = Status (if GotEntry k s then 0 else ERR_RTP_KEYHASHTABLE_KEYNOTFOUND)"
  using found_key [of k s]
  by (auto simp: store_def list_goto_def GetSourceInfo_def GotEntry_def split: option.split)

lemma store_delete:
  assumes "GotEntry k s"
  shows "store (delete_source k s) = snd (list_op (Op_Delete k) (store s))"
  using assms found_key [of k s] by (simp add: store_def list_goto_def delete_source_def next_key_after)

lemma update_new: "k \<notin> fst ` set l \<Longrightarrow> AList.update k d l = l @ [(k, d)]"
  by (induction l) auto

text \<open>The search for a source and its creation, as \<open>ObtainSourceDataInstance\<close> calls them.\<close>

lemma store_obtain:
  assumes "ObtainSourceDataInstance k s = (is_new, s1)"
  shows "is_new = (\<not> GotEntry k s)"
    "store s1 = snd (list_op (Op_Goto k) (store s)) \<or>
     is_new \<and> store s1 = snd (list_op (Op_Add a k (new_entry k (sources_probation s))) (snd (list_op (Op_Goto k) (store s))))"
proof -
  show "is_new = (\<not> GotEntry k s)" using assms by (auto simp: ObtainSourceDataInstance_def GotEntry_def split: option.splits)
  show "store s1 = snd (list_op (Op_Goto k) (store s)) \<or>
     is_new \<and> store s1 = snd (list_op (Op_Add a k (new_entry k (sources_probation s))) (snd (list_op (Op_Goto k) (store s))))"
    using assms found_key [of k s]
    by (auto simp: ObtainSourceDataInstance_def GotEntry_def store_def list_goto_def put_source_def update_new split: option.splits)
qed

text \<open>On the code's hash table: the search and, if it fails, the new element at the free address \<open>a\<close>.\<close>

lemma obtain_on_hash_table:
  assumes "represents RTPSources_GetHashIndex t (sourcelist s) (Some (currentsource s))" "length (buckets t) = RTPSOURCES_HASHSIZE"
    and "cells t a = None" "ObtainSourceDataInstance k s = (is_new, s1)"
  shows "\<exists>st t1 t2. GotoElement RTPSources_GetHashIndex k t = Inr (st, t1) \<and> is_new = (st < 0) \<and>
    (if is_new then AddElement RTPSources_GetHashIndex a k (new_entry k (sources_probation s)) t1 = Inr (0, t2) else t2 = t1) \<and>
    represents RTPSources_GetHashIndex t2 (sourcelist s1) (Some (currentsource s1))"
proof -
  have i: "RTPSources_GetHashIndex k < length (buckets t)" using hash_index_bound assms(2) by simp
  obtain t1 where t1: "GotoElement RTPSources_GetHashIndex k t = Inr (if GotEntry k s then 0 else ERR_RTP_KEYHASHTABLE_KEYNOTFOUND, t1)"
      "represents RTPSources_GetHashIndex t1 (sourcelist s) (Some (if GotEntry k s then Some k else None))"
      "buckets t1 = buckets t" "cells t1 = cells t"
    using represents_search(1) [OF assms(1) i] found_key [of k s] by auto
  show ?thesis
  proof (cases "GotEntry k s")
    case True
    then have "s1 = s\<lparr>currentsource := Some k\<rparr>" "\<not> is_new" using assms(4) by (auto simp: ObtainSourceDataInstance_def GotEntry_def split: option.splits)
    then show ?thesis using t1 True by auto
  next
    case False
    let ?d = "new_entry k (sources_probation s)"
    have nk: "k \<notin> fst ` set (sourcelist s)" using False found_key by simp
    have s1: "is_new" "sourcelist s1 = sourcelist s @ [(k, ?d)]" "currentsource s1 = None"
      using assms(4) False nk by (auto simp: ObtainSourceDataInstance_def GotEntry_def put_source_def update_new split: option.splits)
    obtain t2 where "AddElement RTPSources_GetHashIndex a k ?d t1 = Inr (0, t2)"
        "represents RTPSources_GetHashIndex t2 (sourcelist s @ [(k, ?d)]) (Some None)"
      using represents_add [OF t1(2), of k a ?d] i t1(3,4) assms(3) nk False by auto
    then show ?thesis using t1 False s1 by auto
  qed
qed

end
