(* ===== verification/Rtcp_Builder.thy ===== *)
theory Rtcp_Builder
  imports Rtcp_Parsing
begin

section \<open>Building RTCP packets (JRTPLIB: rtcpcompoundpacketbuilder.cpp)\<close>

text \<open>
  \<open>RTCPCompoundPacketBuilder\<close> collects a report, SDES chunks, APP and BYE packets, checks before each that the
  whole stays below a maximum size, and \<open>EndBuild\<close> lays them out in a buffer of its own or in one of the caller.
  Modelled in the default configuration, without \<open>RTP_SUPPORT_RTCPUNKNOWN\<close>. A \<open>Buffer\<close> is the list of its bytes;
  allocation succeeds, and only the space left is computed as \<open>size_t\<close> with its wrap-around.
\<close>

abbreviation ERR_RTP_RTCPCOMPPACKBUILDER_ALREADYBUILDING :: int where "ERR_RTP_RTCPCOMPPACKBUILDER_ALREADYBUILDING \<equiv> - 31"
abbreviation ERR_RTP_RTCPCOMPPACKBUILDER_ALREADYBUILT :: int where "ERR_RTP_RTCPCOMPPACKBUILDER_ALREADYBUILT \<equiv> - 32"
abbreviation ERR_RTP_RTCPCOMPPACKBUILDER_ALREADYGOTREPORT :: int where "ERR_RTP_RTCPCOMPPACKBUILDER_ALREADYGOTREPORT \<equiv> - 33"
abbreviation ERR_RTP_RTCPCOMPPACKBUILDER_APPDATALENTOOBIG :: int where "ERR_RTP_RTCPCOMPPACKBUILDER_APPDATALENTOOBIG \<equiv> - 34"
abbreviation ERR_RTP_RTCPCOMPPACKBUILDER_BUFFERSIZETOOSMALL :: int where "ERR_RTP_RTCPCOMPPACKBUILDER_BUFFERSIZETOOSMALL \<equiv> - 35"
abbreviation ERR_RTP_RTCPCOMPPACKBUILDER_ILLEGALAPPDATALENGTH :: int where "ERR_RTP_RTCPCOMPPACKBUILDER_ILLEGALAPPDATALENGTH \<equiv> - 36"
abbreviation ERR_RTP_RTCPCOMPPACKBUILDER_ILLEGALSUBTYPE :: int where "ERR_RTP_RTCPCOMPPACKBUILDER_ILLEGALSUBTYPE \<equiv> - 37"
abbreviation ERR_RTP_RTCPCOMPPACKBUILDER_INVALIDITEMTYPE :: int where "ERR_RTP_RTCPCOMPPACKBUILDER_INVALIDITEMTYPE \<equiv> - 38"
abbreviation ERR_RTP_RTCPCOMPPACKBUILDER_MAXPACKETSIZETOOSMALL :: int where "ERR_RTP_RTCPCOMPPACKBUILDER_MAXPACKETSIZETOOSMALL \<equiv> - 39"
abbreviation ERR_RTP_RTCPCOMPPACKBUILDER_NOCURRENTSOURCE :: int where "ERR_RTP_RTCPCOMPPACKBUILDER_NOCURRENTSOURCE \<equiv> - 40"
abbreviation ERR_RTP_RTCPCOMPPACKBUILDER_NOREPORTPRESENT :: int where "ERR_RTP_RTCPCOMPPACKBUILDER_NOREPORTPRESENT \<equiv> - 41"
abbreviation ERR_RTP_RTCPCOMPPACKBUILDER_NOTBUILDING :: int where "ERR_RTP_RTCPCOMPPACKBUILDER_NOTBUILDING \<equiv> - 42"
abbreviation ERR_RTP_RTCPCOMPPACKBUILDER_NOTENOUGHBYTESLEFT :: int where "ERR_RTP_RTCPCOMPPACKBUILDER_NOTENOUGHBYTESLEFT \<equiv> - 43"
abbreviation ERR_RTP_RTCPCOMPPACKBUILDER_REPORTNOTSTARTED :: int where "ERR_RTP_RTCPCOMPPACKBUILDER_REPORTNOTSTARTED \<equiv> - 44"
abbreviation ERR_RTP_RTCPCOMPPACKBUILDER_TOOMANYSSRCS :: int where "ERR_RTP_RTCPCOMPPACKBUILDER_TOOMANYSSRCS \<equiv> - 45"
abbreviation ERR_RTP_RTCPCOMPPACKBUILDER_TOTALITEMLENGTHTOOBIG :: int where "ERR_RTP_RTCPCOMPPACKBUILDER_TOTALITEMLENGTHTOOBIG \<equiv> - 46"

definition RTP_MINPACKETSIZE :: nat where "RTP_MINPACKETSIZE = 600"

subsection \<open>What is collected\<close>

text \<open>\<open>headerdata\<close> stands for the first \<open>headerlength\<close> bytes of the member; no other byte of it is read.\<close>

record builder_report =
  isSR :: bool
  headerdata :: "byte list"
  reportblocks :: "byte list list"

definition headerlength :: "builder_report \<Rightarrow> nat" where "headerlength r = length (headerdata r)"

definition no_report :: builder_report where
  "no_report = \<lparr>isSR = False, headerdata = [], reportblocks = []\<rparr>"

text \<open>The number of packets for \<open>n\<close> parts, at most 31 in each.\<close>

definition packets_for :: "nat \<Rightarrow> nat" where
  "packets_for n = (if n mod 31 \<noteq> 0 then n div 31 + 1 else n div 31)"

definition report_NeededBytes :: "builder_report \<Rightarrow> nat" where
  "report_NeededBytes r =
     (let n = length (reportblocks r) in
      if n = 0 then if headerlength r = 0 then 0 else 4 + headerlength r
      else n * 24 + packets_for n * (4 + 4) + (if isSR r then 20 else 0))"

definition NeededBytesWithExtraReportBlock :: "builder_report \<Rightarrow> nat" where
  "NeededBytesWithExtraReportBlock r =
     (let n = length (reportblocks r) + 1 in n * 24 + packets_for n * (4 + 4) + (if isSR r then 20 else 0))"

record sdes_source =
  source_ssrc :: u32
  source_items :: "byte list list"
  totalitemsize :: nat

definition new_sdes_source :: "u32 \<Rightarrow> sdes_source" where
  "new_sdes_source s = \<lparr>source_ssrc = s, source_items = [], totalitemsize = 0\<rparr>"

definition source_NeededBytes :: "sdes_source \<Rightarrow> nat" where
  "source_NeededBytes s = align4 (totalitemsize s + 1) + 4"

definition source_NeededBytesWithExtraItem :: "nat \<Rightarrow> sdes_source \<Rightarrow> nat" where
  "source_NeededBytesWithExtraItem itemdatalength s = align4 (totalitemsize s + 2 + itemdatalength + 1) + 4"

definition source_AddItem :: "byte list \<Rightarrow> sdes_source \<Rightarrow> sdes_source" where
  "source_AddItem buf s = s\<lparr>totalitemsize := totalitemsize s + length buf, source_items := source_items s @ [buf]\<rparr>"

text \<open>\<open>sdesit\<close> is an iterator into the list of sources, as an index; \<open>Clear\<close> leaves it dangling.\<close>

record builder_sdes =
  sdessources :: "sdes_source list"
  sdesit :: nat

definition no_sdes :: builder_sdes where
  "no_sdes = \<lparr>sdessources = [], sdesit = 0\<rparr>"

definition sdes_Clear :: "builder_sdes \<Rightarrow> builder_sdes" where
  "sdes_Clear s = s\<lparr>sdessources := []\<rparr>"

definition AddSSRC :: "u32 \<Rightarrow> builder_sdes \<Rightarrow> builder_sdes" where
  "AddSSRC k s = (let ss = sdessources s @ [new_sdes_source k] in s\<lparr>sdessources := ss, sdesit := length ss - 1\<rparr>)"

definition current_source :: "builder_sdes \<Rightarrow> ub + sdes_source" where
  "current_source s = (if sdesit s < length (sdessources s) then Inr (sdessources s ! sdesit s) else Inl Dangling)"

definition sdes_AddItem :: "byte list \<Rightarrow> builder_sdes \<Rightarrow> ub + int \<times> builder_sdes" where
  "sdes_AddItem buf s =
     (if sdessources s = [] then Inr (ERR_RTP_RTCPCOMPPACKBUILDER_NOCURRENTSOURCE, s)
      else ub_bind (current_source s) (\<lambda>src. Inr (0, s\<lparr>sdessources := (sdessources s)[sdesit s := source_AddItem buf src]\<rparr>)))"

definition sdes_NeededBytes :: "builder_sdes \<Rightarrow> nat" where
  "sdes_NeededBytes s =
     (if sdessources s = [] then 0
      else sum_list (map source_NeededBytes (sdessources s)) + packets_for (length (sdessources s)) * 4)"

definition sdes_NeededBytesWithExtraItem :: "nat \<Rightarrow> builder_sdes \<Rightarrow> ub + nat" where
  "sdes_NeededBytesWithExtraItem itemdatalength s =
     (if sdessources s = [] then Inr 0
      else
        ub_bind (current_source s) (\<lambda>src.
        Inr (sum_list (map source_NeededBytes (take (sdesit s) (sdessources s))) +
          source_NeededBytesWithExtraItem itemdatalength src + packets_for (length (sdessources s)) * 4)))"

text \<open>Nothing is counted here for the first source.\<close>

definition NeededBytesWithExtraSource :: "builder_sdes \<Rightarrow> nat" where
  "NeededBytesWithExtraSource s =
     (if sdessources s = [] then 0
      else sum_list (map source_NeededBytes (sdessources s)) + 4 * 2 + packets_for (length (sdessources s) + 1) * 4)"

subsection \<open>The builder\<close>

text \<open>\<open>buffer\<close> is the size of the caller's buffer, \<open>None\<close> for one the builder allocates; \<open>compoundpacket\<close>,
  \<open>compoundpacketlength\<close> and \<open>rtcppacklist\<close> are the members of \<open>RTCPCompoundPacket\<close>.\<close>

record compound_builder =
  maximumpacketsize :: nat
  buffer :: "nat option"
  arebuilding :: bool
  report :: builder_report
  sdes :: builder_sdes
  byepackets :: "byte list list"
  byesize :: nat
  apppackets :: "byte list list"
  appsize :: nat
  compoundpacket :: "byte list option"
  compoundpacketlength :: nat
  rtcppacklist :: "rtcp_packet list"

definition new_builder :: compound_builder where
  "new_builder =
     \<lparr>maximumpacketsize = 0, buffer = None, arebuilding = False, report = no_report, sdes = no_sdes,
      byepackets = [], byesize = 0, apppackets = [], appsize = 0,
      compoundpacket = None, compoundpacketlength = 0, rtcppacklist = []\<rparr>"

definition ClearBuildBuffers :: "compound_builder \<Rightarrow> compound_builder" where
  "ClearBuildBuffers b =
     b\<lparr>report := no_report, sdes := sdes_Clear (sdes b), byepackets := [], apppackets := [], byesize := 0, appsize := 0\<rparr>"

definition InitBuild :: "nat \<Rightarrow> compound_builder \<Rightarrow> int \<times> compound_builder" where
  "InitBuild maxpacketsize b =
     (if arebuilding b then (ERR_RTP_RTCPCOMPPACKBUILDER_ALREADYBUILDING, b)
      else if compoundpacket b \<noteq> None then (ERR_RTP_RTCPCOMPPACKBUILDER_ALREADYBUILT, b)
      else if maxpacketsize < RTP_MINPACKETSIZE then (ERR_RTP_RTCPCOMPPACKBUILDER_MAXPACKETSIZETOOSMALL, b)
      else (0, b\<lparr>maximumpacketsize := maxpacketsize, buffer := None, byesize := 0, appsize := 0, arebuilding := True\<rparr>))"

text \<open>The buffer is an object of \<open>n\<close> bytes, \<open>buffersize\<close> is what the caller says of it.\<close>

definition InitBuild_external :: "nat \<Rightarrow> nat \<Rightarrow> compound_builder \<Rightarrow> int \<times> compound_builder" where
  "InitBuild_external n buffersize b =
     (if arebuilding b then (ERR_RTP_RTCPCOMPPACKBUILDER_ALREADYBUILDING, b)
      else if compoundpacket b \<noteq> None then (ERR_RTP_RTCPCOMPPACKBUILDER_ALREADYBUILT, b)
      else if buffersize < RTP_MINPACKETSIZE then (ERR_RTP_RTCPCOMPPACKBUILDER_BUFFERSIZETOOSMALL, b)
      else (0, b\<lparr>maximumpacketsize := buffersize, buffer := Some n, byesize := 0, appsize := 0, arebuilding := True\<rparr>))"

subsection \<open>Reports\<close>

definition sizeleft :: "compound_builder \<Rightarrow> nat" where
  "sizeleft b =
     nat ((int (maximumpacketsize b) - int (byesize b + appsize b + sdes_NeededBytes (sdes b))) mod 2 ^ 64)"

definition StartSenderReport :: "u32 \<Rightarrow> u32 \<times> u32 \<Rightarrow> u32 \<Rightarrow> u32 \<Rightarrow> u32 \<Rightarrow> compound_builder \<Rightarrow> int \<times> compound_builder" where
  "StartSenderReport senderssrc ntptimestamp rtptimestamp packetcount octetcount b =
     (if \<not> arebuilding b then (ERR_RTP_RTCPCOMPPACKBUILDER_NOTBUILDING, b)
      else if headerlength (report b) \<noteq> 0 then (ERR_RTP_RTCPCOMPPACKBUILDER_ALREADYGOTREPORT, b)
      else if sizeleft b < 4 + 4 + 20 then (ERR_RTP_RTCPCOMPPACKBUILDER_NOTENOUGHBYTESLEFT, b)
      else
        (0, b\<lparr>report := (report b)\<lparr>isSR := True,
           headerdata := hton32 senderssrc @ hton32 (fst ntptimestamp) @ hton32 (snd ntptimestamp) @
             hton32 rtptimestamp @ hton32 packetcount @ hton32 octetcount\<rparr>\<rparr>))"

definition StartReceiverReport :: "u32 \<Rightarrow> compound_builder \<Rightarrow> int \<times> compound_builder" where
  "StartReceiverReport senderssrc b =
     (if \<not> arebuilding b then (ERR_RTP_RTCPCOMPPACKBUILDER_NOTBUILDING, b)
      else if headerlength (report b) \<noteq> 0 then (ERR_RTP_RTCPCOMPPACKBUILDER_ALREADYGOTREPORT, b)
      else if sizeleft b < 4 + 4 then (ERR_RTP_RTCPCOMPPACKBUILDER_NOTENOUGHBYTESLEFT, b)
      else (0, b\<lparr>report := (report b)\<lparr>isSR := False, headerdata := hton32 senderssrc\<rparr>\<rparr>))"

text \<open>The number of lost packets is an \<open>int32_t\<close>, here by its bits; the low 24 of them are written.\<close>

definition report_block_bytes :: "u32 \<Rightarrow> byte \<Rightarrow> u32 \<Rightarrow> u32 \<Rightarrow> u32 \<Rightarrow> u32 \<Rightarrow> u32 \<Rightarrow> byte list" where
  "report_block_bytes k fractionlost packetslost exthighestseq jitter lsr dlsr =
     hton32 k @ [fractionlost, ucast (drop_bit 16 packetslost AND 0xFF), ucast (drop_bit 8 packetslost AND 0xFF),
       ucast (packetslost AND 0xFF)] @ hton32 exthighestseq @ hton32 jitter @ hton32 lsr @ hton32 dlsr"

definition AddReportBlock :: "u32 \<Rightarrow> byte \<Rightarrow> u32 \<Rightarrow> u32 \<Rightarrow> u32 \<Rightarrow> u32 \<Rightarrow> u32 \<Rightarrow> compound_builder \<Rightarrow> int \<times> compound_builder" where
  "AddReportBlock k fractionlost packetslost exthighestseq jitter lsr dlsr b =
     (if \<not> arebuilding b then (ERR_RTP_RTCPCOMPPACKBUILDER_NOTBUILDING, b)
      else if headerlength (report b) = 0 then (ERR_RTP_RTCPCOMPPACKBUILDER_REPORTNOTSTARTED, b)
      else if maximumpacketsize b < byesize b + appsize b + sdes_NeededBytes (sdes b) + NeededBytesWithExtraReportBlock (report b)
        then (ERR_RTP_RTCPCOMPPACKBUILDER_NOTENOUGHBYTESLEFT, b)
      else
        (0, b\<lparr>report := (report b)\<lparr>reportblocks := reportblocks (report b) @
           [report_block_bytes k fractionlost packetslost exthighestseq jitter lsr dlsr]\<rparr>\<rparr>))"

subsection \<open>SDES\<close>

definition AddSDESSource :: "u32 \<Rightarrow> compound_builder \<Rightarrow> int \<times> compound_builder" where
  "AddSDESSource k b =
     (if \<not> arebuilding b then (ERR_RTP_RTCPCOMPPACKBUILDER_NOTBUILDING, b)
      else if maximumpacketsize b < byesize b + appsize b + report_NeededBytes (report b) + NeededBytesWithExtraSource (sdes b)
        then (ERR_RTP_RTCPCOMPPACKBUILDER_NOTENOUGHBYTESLEFT, b)
      else (0, b\<lparr>sdes := AddSSRC k (sdes b)\<rparr>))"

definition sdes_item_id :: "item_type \<Rightarrow> byte option" where
  "sdes_item_id t =
     (case t of CNAME \<Rightarrow> Some 1 | NAME \<Rightarrow> Some 2 | EMAIL \<Rightarrow> Some 3 | PHONE \<Rightarrow> Some 4 | LOC \<Rightarrow> Some 5 | TOOL \<Rightarrow> Some 6
      | NOTE \<Rightarrow> Some 7 | _ \<Rightarrow> None)"

definition add_item :: "nat \<Rightarrow> (ub + byte list) \<Rightarrow> compound_builder \<Rightarrow> ub + int \<times> compound_builder" where
  "add_item itemlength buf b =
     ub_bind (sdes_NeededBytesWithExtraItem itemlength (sdes b)) (\<lambda>sdessizewithextraitem.
     if maximumpacketsize b < sdessizewithextraitem + (byesize b + appsize b + report_NeededBytes (report b))
     then Inr (ERR_RTP_RTCPCOMPPACKBUILDER_NOTENOUGHBYTESLEFT, b)
     else ub_bind buf (\<lambda>bytes. ub_bind (sdes_AddItem bytes (sdes b)) (\<lambda>(_, s). Inr (0, b\<lparr>sdes := s\<rparr>))))"

definition AddSDESNormalItem :: "item_type \<Rightarrow> byte list \<Rightarrow> byte \<Rightarrow> compound_builder \<Rightarrow> ub + int \<times> compound_builder" where
  "AddSDESNormalItem t itemdata itemlength b =
     (if \<not> arebuilding b then Inr (ERR_RTP_RTCPCOMPPACKBUILDER_NOTBUILDING, b)
      else if sdessources (sdes b) = [] then Inr (ERR_RTP_RTCPCOMPPACKBUILDER_NOCURRENTSOURCE, b)
      else case sdes_item_id t of
        None \<Rightarrow> Inr (ERR_RTP_RTCPCOMPPACKBUILDER_INVALIDITEMTYPE, b)
      | Some itemid \<Rightarrow>
          add_item (unat itemlength)
            (ub_bind (memcpy_from itemdata 0 (unat itemlength)) (\<lambda>d. Inr ([itemid, itemlength] @ d))) b)"

definition AddSDESPrivateItem :: "byte list \<Rightarrow> byte \<Rightarrow> byte list \<Rightarrow> byte \<Rightarrow> compound_builder \<Rightarrow> ub + int \<times> compound_builder" where
  "AddSDESPrivateItem prefixdata prefixlength valuedata valuelength b =
     (if \<not> arebuilding b then Inr (ERR_RTP_RTCPCOMPPACKBUILDER_NOTBUILDING, b)
      else if sdessources (sdes b) = [] then Inr (ERR_RTP_RTCPCOMPPACKBUILDER_NOCURRENTSOURCE, b)
      else
        let itemlength = unat prefixlength + 1 + unat valuelength in
        if 255 < itemlength then Inr (ERR_RTP_RTCPCOMPPACKBUILDER_TOTALITEMLENGTHTOOBIG, b)
        else
          add_item itemlength
            (ub_bind (memcpy_from prefixdata 0 (unat prefixlength)) (\<lambda>p.
             ub_bind (memcpy_from valuedata 0 (unat valuelength)) (\<lambda>v.
             Inr ([8, word_of_nat itemlength, prefixlength] @ p @ v)))) b)"

subsection \<open>BYE and APP\<close>

definition common_header :: "nat \<Rightarrow> byte \<Rightarrow> nat \<Rightarrow> byte list" where
  "common_header count packettype words =
     [0x80 OR (word_of_nat count AND 0x1F), packettype] @ hton16 (word_of_nat words)"

definition bye_packet :: "u32 list \<Rightarrow> byte list \<Rightarrow> byte list" where
  "bye_packet ssrcs reason =
     (let n = 4 + 4 * length ssrcs + 1 + length reason;
          body = concat (map hton32 ssrcs) @
            (if reason = [] then [] else word_of_nat (length reason) # reason @ replicate (align4 n - n) 0) in
      common_header (length ssrcs) RTP_RTCPTYPE_BYE ((4 + length body) div 4 - 1) @ body)"

definition AddBYEPacket :: "u32 list \<Rightarrow> byte \<Rightarrow> byte list \<Rightarrow> byte \<Rightarrow> compound_builder \<Rightarrow> ub + int \<times> compound_builder" where
  "AddBYEPacket ssrcs numssrcs reasondata reasonlength b =
     (if \<not> arebuilding b then Inr (ERR_RTP_RTCPCOMPPACKBUILDER_NOTBUILDING, b)
      else if 31 < numssrcs then Inr (ERR_RTP_RTCPCOMPPACKBUILDER_TOOMANYSSRCS, b)
      else
        let packsize = 4 + 4 * unat numssrcs;
            packsize = (if 0 < reasonlength then align4 (packsize + 1 + unat reasonlength) else packsize) in
        if maximumpacketsize b <
            appsize b + byesize b + sdes_NeededBytes (sdes b) + report_NeededBytes (report b) + packsize
        then Inr (ERR_RTP_RTCPCOMPPACKBUILDER_NOTENOUGHBYTESLEFT, b)
        else
          ub_bind (memcpy_from ssrcs 0 (unat numssrcs)) (\<lambda>ss.
          ub_bind (memcpy_from reasondata 0 (unat reasonlength)) (\<lambda>reason.
          Inr (0, b\<lparr>byepackets := byepackets b @ [bye_packet ss reason], byesize := byesize b + packsize\<rparr>))))"

definition app_packet :: "nat \<Rightarrow> u32 \<Rightarrow> byte list \<Rightarrow> byte list \<Rightarrow> byte list" where
  "app_packet subtype k name appdata =
     common_header subtype RTP_RTCPTYPE_APP (length appdata div 4 + 2) @ hton32 k @ name @ appdata"

definition AddAPPPacket :: "byte \<Rightarrow> u32 \<Rightarrow> byte list \<Rightarrow> byte list \<Rightarrow> nat \<Rightarrow> compound_builder \<Rightarrow> ub + int \<times> compound_builder" where
  "AddAPPPacket subtype k name appdata datalen b =
     (if \<not> arebuilding b then Inr (ERR_RTP_RTCPCOMPPACKBUILDER_NOTBUILDING, b)
      else if 31 < subtype then Inr (ERR_RTP_RTCPCOMPPACKBUILDER_ILLEGALSUBTYPE, b)
      else if datalen mod 4 \<noteq> 0 then Inr (ERR_RTP_RTCPCOMPPACKBUILDER_ILLEGALAPPDATALENGTH, b)
      else if 65535 < datalen div 4 + 2 then Inr (ERR_RTP_RTCPCOMPPACKBUILDER_APPDATALENTOOBIG, b)
      else
        let packsize = 4 + 4 * 2 + datalen in
        if maximumpacketsize b <
            appsize b + byesize b + sdes_NeededBytes (sdes b) + report_NeededBytes (report b) + packsize
        then Inr (ERR_RTP_RTCPCOMPPACKBUILDER_NOTENOUGHBYTESLEFT, b)
        else
          ub_bind (memcpy_from name 0 4) (\<lambda>n.
          ub_bind (memcpy_from appdata 0 datalen) (\<lambda>d.
          Inr (0, b\<lparr>apppackets := apppackets b @ [app_packet (unat subtype) k n d], appsize := appsize b + packsize\<rparr>))))"

subsection \<open>EndBuild\<close>

text \<open>The bytes written so far and the list of packets. \<open>put\<close> adds a packet at \<open>curbuf\<close>, which has to stay in the
  buffer, and the object its constructor makes of it.\<close>

type_synonym built = "byte list \<times> rtcp_packet list"

definition put :: "nat \<Rightarrow> (byte list \<Rightarrow> ub + rtcp_packet) \<Rightarrow> byte list \<Rightarrow> built \<Rightarrow> ub + built" where
  "put cap ctor piece r =
     (if cap < length (fst r) + length piece then Inl Overrun
      else ub_bind (ctor piece) (\<lambda>p. Inr (fst r @ piece, snd r @ [p])))"

text \<open>One turn of the loop over the report blocks writes a report with up to 31 of them.\<close>

definition report_packet :: "bool \<Rightarrow> byte list \<Rightarrow> byte list list \<Rightarrow> byte list" where
  "report_packet sr header blocks =
     (let body = (if sr then header else take 4 header) @ concat blocks in
      common_header (length blocks) (if sr then RTP_RTCPTYPE_SR else RTP_RTCPTYPE_RR) ((4 + length body) div 4 - 1) @ body)"

function end_reports :: "nat \<Rightarrow> bool \<Rightarrow> byte list \<Rightarrow> byte list list \<Rightarrow> built \<Rightarrow> ub + built" where
  "end_reports cap sr header blocks r =
     ub_bind (put cap (if sr then RTCPSRPacket else RTCPRRPacket) (report_packet sr header (take 31 blocks)) r) (\<lambda>r'.
     if drop 31 blocks = [] then Inr r' else end_reports cap False header (drop 31 blocks) r')"
  by pat_completeness auto

termination
  by (relation "measure (\<lambda>(cap, sr, header, blocks, r). length blocks)") auto

declare end_reports.simps [simp del]

text \<open>A chunk is filled up with zeros until the offset in the packet is a multiple of four.\<close>

fun sdes_body :: "nat \<Rightarrow> sdes_source list \<Rightarrow> byte list" where
  "sdes_body offset [] = []"
| "sdes_body offset (s # ss) =
     (let c = hton32 (source_ssrc s) @ concat (source_items s) @ [0]; offset' = offset + length c in
      c @ replicate (align4 offset' - offset') 0 @ sdes_body (align4 offset') ss)"

definition sdes_packet :: "sdes_source list \<Rightarrow> byte list" where
  "sdes_packet ss =
     (let body = sdes_body 4 ss in
      common_header (length ss) RTP_RTCPTYPE_SDES ((4 + length body) div 4 - 1) @ body)"

function end_sdes :: "nat \<Rightarrow> sdes_source list \<Rightarrow> built \<Rightarrow> ub + built" where
  "end_sdes cap ss r =
     ub_bind (put cap RTCPSDESPacket (sdes_packet (take 31 ss)) r) (\<lambda>r'.
     if drop 31 ss = [] then Inr r' else end_sdes cap (drop 31 ss) r')"
  by pat_completeness auto

termination
  by (relation "measure (\<lambda>(cap, ss, r). length ss)") auto

declare end_sdes.simps [simp del]

fun end_packets :: "nat \<Rightarrow> (byte list \<Rightarrow> ub + rtcp_packet) \<Rightarrow> byte list list \<Rightarrow> built \<Rightarrow> ub + built" where
  "end_packets cap ctor [] r = Inr r"
| "end_packets cap ctor (p # ps) r = ub_bind (put cap ctor p r) (end_packets cap ctor ps)"

definition needed_bytes :: "compound_builder \<Rightarrow> nat" where
  "needed_bytes b = appsize b + byesize b + report_NeededBytes (report b) + sdes_NeededBytes (sdes b)"

definition end_all :: "nat \<Rightarrow> compound_builder \<Rightarrow> ub + built" where
  "end_all cap b =
     ub_bind (end_reports cap (isSR (report b)) (headerdata (report b)) (reportblocks (report b)) ([], rtcppacklist b)) (\<lambda>r1.
     ub_bind (if sdessources (sdes b) = [] then Inr r1 else end_sdes cap (sdessources (sdes b)) r1) (\<lambda>r2.
     ub_bind (end_packets cap RTCPAPPPacket (apppackets b) r2) (\<lambda>r3.
     end_packets cap RTCPBYEPacket (byepackets b) r3)))"

definition EndBuild :: "compound_builder \<Rightarrow> ub + int \<times> compound_builder" where
  "EndBuild b =
     (if \<not> arebuilding b then Inr (ERR_RTP_RTCPCOMPPACKBUILDER_NOTBUILDING, b)
      else if headerlength (report b) = 0 then Inr (ERR_RTP_RTCPCOMPPACKBUILDER_NOREPORTPRESENT, b)
      else
        let len = needed_bytes b; cap = (case buffer b of None \<Rightarrow> len | Some n \<Rightarrow> n) in
        ub_bind (end_all cap b) (\<lambda>(out, ps).
        Inr (0, ClearBuildBuffers (b\<lparr>rtcppacklist := ps, compoundpacket := Some out, compoundpacketlength := len,
          arebuilding := False\<rparr>))))"

end
