(* ===== verification/Rtcp_Building.thy ===== *)
theory Rtcp_Building
  imports Rtcp_Builder
begin

section \<open>What is built is what is parsed\<close>

text \<open>
  The loops of \<open>EndBuild\<close> are one run over the list of all packets, \<open>all_pieces\<close>, at most 31 blocks or chunks in each;
  where no constructor misbehaves the run fails only if the buffer is too small. A list of packets written one after
  the other is cut up again by the parser as it was put in (\<open>parse_all\<close>).
\<close>

subsection \<open>Groups of 31\<close>

function groups :: "'a list \<Rightarrow> 'a list list" where
  "groups xs = take 31 xs # (if drop 31 xs = [] then [] else groups (drop 31 xs))"
  by pat_completeness auto

termination
  by (relation "measure length") auto

declare groups.simps [simp del]

lemma groups_concat: "concat (groups xs) = xs"
proof (induction xs rule: groups.induct)
  case (1 xs)
  then show ?case by (subst groups.simps) (simp del: drop_eq_Nil add: append_take_drop_id split: if_split, simp)
qed

lemma groups_bound: "g \<in> set (groups xs) \<Longrightarrow> length g \<le> 31"
proof (induction xs rule: groups.induct)
  case (1 xs)
  from 1(2) show ?case by (subst (asm) groups.simps) (use 1(1) in \<open>auto split: if_splits\<close>)
qed

lemma groups_count: "length (groups xs) = (if xs = [] then 1 else packets_for (length xs))"
proof (induction xs rule: groups.induct)
  case (1 xs)
  show ?case
  proof (cases "drop 31 xs = []")
    case True
    then have "length xs \<le> 31" by simp
    then have "length xs = 0 \<or> packets_for (length xs) = 1"
      by (cases "length xs = 31") (auto simp: packets_for_def)
    then show ?thesis using True by (subst groups.simps) auto
  next
    case False
    then have l: "31 < length xs" by simp
    have "packets_for (length xs) = packets_for (length xs - 31) + 1"
      using l by (simp add: packets_for_def le_div_geq le_mod_geq)
    then show ?thesis using 1 [OF False] False l by (subst groups.simps) auto
  qed
qed

lemma groups_nonempty: "groups xs = hd (groups xs) # tl (groups xs)"
  by (subst (1 2 3) groups.simps) simp

subsection \<open>Writing a list of packets\<close>

text \<open>\<open>put_all\<close> is the common form of the loops of \<open>EndBuild\<close>: packets with their constructors.\<close>

lemma ub_bind_id [simp]: "ub_bind m Inr = m"
  by (cases m) auto

type_synonym piece = "(byte list \<Rightarrow> ub + rtcp_packet) \<times> byte list"

fun put_all :: "nat \<Rightarrow> piece list \<Rightarrow> built \<Rightarrow> ub + built" where
  "put_all cap [] r = Inr r"
| "put_all cap ((c, d) # cs) r = ub_bind (put cap c d r) (put_all cap cs)"

lemma put_all_Nil [simp]: "put_all cap [] = Inr"
  by (rule ext) simp

lemma put_all_append: "put_all cap (xs @ ys) = (\<lambda>r. ub_bind (put_all cap xs r) (put_all cap ys))"
proof (induction xs)
  case (Cons cd xs)
  show ?case by (rule ext, cases cd) (simp add: Cons.IH ub_bind_assoc)
qed simp

lemma end_packets_put_all: "end_packets cap c ps = put_all cap (map (Pair c) ps)"
proof (induction ps)
  case (Cons p ps)
  show ?case by (rule ext) (simp add: Cons.IH)
qed (rule ext, simp)

definition report_ctor :: "bool \<Rightarrow> byte list \<Rightarrow> ub + rtcp_packet" where
  "report_ctor sr = (if sr then RTCPSRPacket else RTCPRRPacket)"

definition report_pieces :: "bool \<Rightarrow> byte list \<Rightarrow> byte list list \<Rightarrow> piece list" where
  "report_pieces sr header blocks =
     (report_ctor sr, report_packet sr header (hd (groups blocks))) #
     map (\<lambda>g. (report_ctor False, report_packet False header g)) (tl (groups blocks))"

lemma end_reports_put_all: "end_reports cap sr header blocks r = put_all cap (report_pieces sr header blocks) r"
proof (induction cap sr header blocks r rule: end_reports.induct)
  case (1 cap sr header blocks r)
  have hd: "hd (groups blocks) = take 31 blocks" by (subst groups.simps) simp
  show ?case
  proof (cases "drop 31 blocks = []")
    case True
    then have "tl (groups blocks) = []" by (subst groups.simps) simp
    then show ?thesis using True
      by (subst end_reports.simps) (simp add: report_pieces_def report_ctor_def hd)
  next
    case False
    then have tl: "tl (groups blocks) = groups (drop 31 blocks)" by (subst groups.simps) simp
    have "map (\<lambda>g. (report_ctor False, report_packet False header g)) (groups (drop 31 blocks)) =
        report_pieces False header (drop 31 blocks)"
      unfolding report_pieces_def by (subst groups_nonempty) (simp only: list.map)
    then have rest: "report_pieces sr header blocks =
        (report_ctor sr, report_packet sr header (take 31 blocks)) # report_pieces False header (drop 31 blocks)"
      unfolding report_pieces_def [of sr] hd tl by simp
    have "end_reports cap False header (drop 31 blocks) = put_all cap (report_pieces False header (drop 31 blocks))"
      by (rule ext) (rule 1 [OF False])
    then show ?thesis using False
      by (subst end_reports.simps) (simp add: rest report_ctor_def del: drop_eq_Nil)
  qed
qed

definition sdes_pieces :: "sdes_source list \<Rightarrow> piece list" where
  "sdes_pieces ss = map (\<lambda>g. (RTCPSDESPacket, sdes_packet g)) (groups ss)"

lemma end_sdes_put_all: "end_sdes cap ss r = put_all cap (sdes_pieces ss) r"
proof (induction cap ss r rule: end_sdes.induct)
  case (1 cap ss r)
  show ?case
  proof (cases "drop 31 ss = []")
    case True
    then have "groups ss = [take 31 ss]" by (subst groups.simps) simp
    then show ?thesis using True by (subst end_sdes.simps) (simp add: sdes_pieces_def)
  next
    case False
    then have "groups ss = take 31 ss # groups (drop 31 ss)" by (subst groups.simps) simp
    then have rest: "sdes_pieces ss = (RTCPSDESPacket, sdes_packet (take 31 ss)) # sdes_pieces (drop 31 ss)"
      by (simp add: sdes_pieces_def)
    have "end_sdes cap (drop 31 ss) = put_all cap (sdes_pieces (drop 31 ss))"
      by (rule ext) (rule 1 [OF False])
    then show ?thesis using False
      by (subst end_sdes.simps) (simp add: rest del: drop_eq_Nil)
  qed
qed

definition all_pieces :: "compound_builder \<Rightarrow> piece list" where
  "all_pieces b = report_pieces (isSR (report b)) (headerdata (report b)) (reportblocks (report b)) @
     (if sdessources (sdes b) = [] then [] else sdes_pieces (sdessources (sdes b))) @
     map (Pair RTCPAPPPacket) (apppackets b) @ map (Pair RTCPBYEPacket) (byepackets b)"

lemma end_all_put_all: "end_all cap b = put_all cap (all_pieces b) ([], rtcppacklist b)"
  unfolding end_all_def all_pieces_def
  by (simp add: put_all_append end_reports_put_all end_sdes_put_all end_packets_put_all ub_bind_assoc if_distrib if_distribR
      cong: if_cong)

text \<open>Where no constructor misbehaves, only the size of the buffer matters.\<close>

definition made :: "piece \<Rightarrow> rtcp_packet" where
  "made cd = projr (fst cd (snd cd))"

definition total :: "piece list \<Rightarrow> nat" where
  "total cs = sum_list (map (length \<circ> snd) cs)"

lemma total_simps [simp]: "total [] = 0" "total (cd # cs) = length (snd cd) + total cs" "total (xs @ ys) = total xs + total ys"
  by (simp_all add: total_def)

lemma put_all_total:
  assumes "\<forall>cd \<in> set cs. \<exists>p. fst cd (snd cd) = Inr p" "length (fst r) \<le> cap"
  shows "put_all cap cs r =
    (if length (fst r) + total cs \<le> cap then Inr (fst r @ concat (map snd cs), snd r @ map made cs) else Inl Overrun)"
  using assms
proof (induction cs arbitrary: r)
  case (Cons cd cs)
  obtain c d where cd: "cd = (c, d)" by fastforce
  obtain p where p: "c d = Inr p" using Cons.prems(1) cd by auto
  show ?case
  proof (cases "cap < length (fst r) + length d")
    case False
    then show ?thesis using Cons.IH [of "(fst r @ d, snd r @ [p])"] Cons.prems p
      by (simp add: cd put_def made_def add.assoc)
  qed (simp add: cd put_def)
qed (simp add: total_def)

subsection \<open>One packet\<close>

lemma count_mask: "n < 32 \<Longrightarrow> (word_of_nat n :: byte) AND 0x1F = word_of_nat n"
proof -
  have "\<forall>n \<in> set [0..<32]. (word_of_nat n :: byte) AND 0x1F = word_of_nat n" by code_simp
  then show "n < 32 \<Longrightarrow> (word_of_nat n :: byte) AND 0x1F = word_of_nat n" by simp
qed

lemma common_header_count: "n < 32 \<Longrightarrow> common_header n t w = [0x80 OR word_of_nat n, t] @ hton16 (word_of_nat w)"
  by (simp add: common_header_def count_mask)

lemma common_header_length [simp]: "length (common_header n t w) = 4"
  by (simp add: common_header_def)

text \<open>A packet the parser cuts out of the datagram as it was put in.\<close>

definition parses :: "byte list \<Rightarrow> byte \<Rightarrow> rtcp_packet \<Rightarrow> bool" where
  "parses d t p \<longleftrightarrow> make_rtcp t d = Inr p \<and>
     (\<exists>n body. n < 32 \<and> d = common_header n t ((4 + length body) div 4 - 1) @ body \<and> length body mod 4 = 0 \<and> length body \<le> 262140)"

lemma parses_step:
  assumes "parses d t p" "first \<Longrightarrow> t = RTP_RTCPTYPE_SR \<or> t = RTP_RTCPTYPE_RR"
  shows "parse_packets first (d @ rest) =
    (if 4 \<le> length rest then ub_bind (parse_packets False rest) (\<lambda>ps. Inr (map_option (Cons p) ps))
     else if rest \<noteq> [] then Inr None else Inr (Some [p]))"
proof -
  obtain n body where d: "n < 32" "d = common_header n t ((4 + length body) div 4 - 1) @ body" "length body mod 4 = 0"
    "length body \<le> 262140" "make_rtcp t d = Inr p" using assms(1) unfolding parses_def by (elim conjE exE) (rule that)
  let ?w = "word_of_nat ((4 + length body) div 4 - 1) :: u16"
  have w: "(4 + length body) div 4 - 1 = length body div 4" by simp
  have "length body div 4 < 2 ^ 16" using d(4) by (simp add: div_less_iff_less_mult)
  then have "unat ?w = length body div 4" unfolding w by (simp add: unat_of_nat)
  then have "length body = unat ?w * 4" using d(3) by (metis mod_0_imp_dvd dvd_div_mult_self)
  note step = parse_packets_step [OF rtcp_count_fields(1,2) [OF d(1)] this assms(2), where p = p and rest = rest]
  have e: "[0x80 OR word_of_nat n, t] @ hton16 ?w @ body = d" by (simp only: d(2) common_header_count [OF d(1)] append_assoc)
  then have e': "[0x80 OR word_of_nat n, t] @ hton16 ?w @ body @ rest = d @ rest" by (metis append_assoc)
  show ?thesis using step unfolding e e' using d(5) by blast
qed

lemma parses_length: "parses d t p \<Longrightarrow> 4 \<le> length d"
  by (auto simp: parses_def)

lemma parse_all:
  assumes "\<forall>(d, t, p) \<in> set xs. parses d t p" "xs \<noteq> []"
    and "first \<Longrightarrow> fst (snd (hd xs)) = RTP_RTCPTYPE_SR \<or> fst (snd (hd xs)) = RTP_RTCPTYPE_RR"
  shows "parse_packets first (concat (map fst xs)) = Inr (Some (map (\<lambda>(d, t, p). p) xs))"
  using assms
proof (induction xs arbitrary: first)
  case (Cons x xs)
  obtain d t p where x: "x = (d, t, p)" by (cases x)
  have p: "parses d t p" "first \<Longrightarrow> t = RTP_RTCPTYPE_SR \<or> t = RTP_RTCPTYPE_RR" using Cons.prems x by auto
  show ?case
  proof (cases xs)
    case Nil
    then show ?thesis using parses_step [OF p, where rest = "[]"] by (simp add: x)
  next
    case (Cons y ys)
    then have "4 \<le> length (concat (map fst xs))" using Cons.prems(1) parses_length by (cases y) fastforce
    then show ?thesis
      using parses_step [OF p, where rest = "concat (map fst xs)"] Cons.IH [of False] Cons.prems(1) Cons by (simp add: x)
  qed
qed simp

end
