(* ===== verification/Rtcp_Contents.thy ===== *)
theory Rtcp_Contents
  imports Rtcp_Building
begin

section \<open>The contents of a compound packet\<close>

text \<open>
  \<open>building b c\<close>: the builder \<open>b\<close> is reached by calls that put the contents \<open>c\<close> in. It is then determined by
  its contents (\<open>represents\<close>), the bytes \<open>EndBuild\<close> writes are as many as the size it computed beforehand, and
  the checks of the calls keep that size within 40 bytes of the maximum.
\<close>

subsection \<open>What the calls put in\<close>

record report_block =
  rb_ssrc :: u32
  rb_fraction :: byte
  rb_lost :: u32
  rb_highest :: u32
  rb_jitter :: u32
  rb_lsr :: u32
  rb_dlsr :: u32

definition block_bytes :: "report_block \<Rightarrow> byte list" where
  "block_bytes b = report_block_bytes (rb_ssrc b) (rb_fraction b) (rb_lost b) (rb_highest b) (rb_jitter b) (rb_lsr b) (rb_dlsr b)"

type_synonym sender_info = "(u32 \<times> u32) \<times> u32 \<times> u32 \<times> u32"
type_synonym item = "byte \<times> byte list"

text \<open>The sender with its information, if it is a sender report; the blocks; SDES chunks; APP and BYE packets.\<close>

record compound_contents =
  c_report :: "(u32 \<times> sender_info option) option"
  c_blocks :: "report_block list"
  c_chunks :: "(u32 \<times> item list) list"
  c_apps :: "(byte \<times> u32 \<times> byte list \<times> byte list) list"
  c_byes :: "(u32 list \<times> byte list) list"

definition no_contents :: compound_contents where
  "no_contents = \<lparr>c_report = None, c_blocks = [], c_chunks = [], c_apps = [], c_byes = []\<rparr>"

definition add_to_last :: "item \<Rightarrow> (u32 \<times> item list) list \<Rightarrow> (u32 \<times> item list) list" where
  "add_to_last i cs = butlast cs @ [(fst (last cs), snd (last cs) @ [i])]"

text \<open>The calls that succeed; one that is refused leaves the builder as it is.\<close>

inductive building :: "compound_builder \<Rightarrow> compound_contents \<Rightarrow> bool" where
  init_own: "InitBuild n new_builder = (0, b) \<Longrightarrow> building b no_contents"
| init_callers: "InitBuild_external m n new_builder = (0, b) \<Longrightarrow> building b no_contents"
| add_sender_report: "building b c \<Longrightarrow> StartSenderReport k ntp ts pc oc b = (0, b') \<Longrightarrow>
    building b' (c\<lparr>c_report := Some (k, Some (ntp, ts, pc, oc))\<rparr>)"
| add_receiver_report: "building b c \<Longrightarrow> StartReceiverReport k b = (0, b') \<Longrightarrow> building b' (c\<lparr>c_report := Some (k, None)\<rparr>)"
| add_block: "building b c \<Longrightarrow>
    AddReportBlock (rb_ssrc r) (rb_fraction r) (rb_lost r) (rb_highest r) (rb_jitter r) (rb_lsr r) (rb_dlsr r) b = (0, b') \<Longrightarrow>
    building b' (c\<lparr>c_blocks := c_blocks c @ [r]\<rparr>)"
| add_source: "building b c \<Longrightarrow> AddSDESSource k b = (0, b') \<Longrightarrow> building b' (c\<lparr>c_chunks := c_chunks c @ [(k, [])]\<rparr>)"
| add_normal_item: "building b c \<Longrightarrow> AddSDESNormalItem t d n b = Inr (0, b') \<Longrightarrow>
    building b' (c\<lparr>c_chunks := add_to_last (the (sdes_item_id t), take (unat n) d) (c_chunks c)\<rparr>)"
| add_private_item: "building b c \<Longrightarrow> AddSDESPrivateItem p m v n b = Inr (0, b') \<Longrightarrow>
    building b' (c\<lparr>c_chunks := add_to_last (8, m # take (unat m) p @ take (unat n) v) (c_chunks c)\<rparr>)"
| add_bye: "building b c \<Longrightarrow> AddBYEPacket ks m d n b = Inr (0, b') \<Longrightarrow>
    building b' (c\<lparr>c_byes := c_byes c @ [(take (unat m) ks, take (unat n) d)]\<rparr>)"
| add_app: "building b c \<Longrightarrow> AddAPPPacket st k nm d n b = Inr (0, b') \<Longrightarrow>
    building b' (c\<lparr>c_apps := c_apps c @ [(st, k, take 4 nm, take n d)]\<rparr>)"

definition item_bytes :: "item \<Rightarrow> byte list" where
  "item_bytes i = fst i # word_of_nat (length (snd i)) # snd i"

definition item_ok :: "item \<Rightarrow> bool" where
  "item_ok i \<longleftrightarrow> fst i \<noteq> 0 \<and> length (snd i) < 256"

definition source_of :: "u32 \<times> item list \<Rightarrow> sdes_source" where
  "source_of c = \<lparr>source_ssrc = fst c, source_items = map item_bytes (snd c),
     totalitemsize = sum_list (map (length \<circ> item_bytes) (snd c))\<rparr>"

definition app_ok :: "byte \<times> u32 \<times> byte list \<times> byte list \<Rightarrow> bool" where
  "app_ok a \<longleftrightarrow> (case a of (st, k, nm, d) \<Rightarrow> unat st < 32 \<and> length nm = 4 \<and> length d mod 4 = 0 \<and> length d div 4 + 2 \<le> 65535)"

definition bye_ok :: "u32 list \<times> byte list \<Rightarrow> bool" where
  "bye_ok y \<longleftrightarrow> length (fst y) < 32 \<and> length (snd y) < 256"

definition header_of :: "u32 \<times> sender_info option \<Rightarrow> byte list" where
  "header_of r = hton32 (fst r) @ (case snd r of None \<Rightarrow> [] | Some ((m, l), ts, pc, oc) \<Rightarrow>
     hton32 m @ hton32 l @ hton32 ts @ hton32 pc @ hton32 oc)"

definition report_of :: "compound_contents \<Rightarrow> builder_report" where
  "report_of c = \<lparr>isSR = (case c_report c of Some (k, Some i) \<Rightarrow> True | _ \<Rightarrow> False),
     headerdata = (case c_report c of None \<Rightarrow> [] | Some r \<Rightarrow> header_of r), reportblocks = map block_bytes (c_blocks c)\<rparr>"

text \<open>The state of the builder is determined by the contents; the size is within 40 bytes of the maximum, and
  within it as soon as a size was checked with the first source in it.\<close>

definition represents :: "compound_builder \<Rightarrow> compound_contents \<Rightarrow> bool" where
  "represents b c \<longleftrightarrow> arebuilding b \<and> rtcppacklist b = [] \<and>
     report b = report_of c \<and> (c_report c = None \<longrightarrow> c_blocks c = []) \<and>
     sdessources (sdes b) = map source_of (c_chunks c) \<and> (c_chunks c \<noteq> [] \<longrightarrow> sdesit (sdes b) = length (c_chunks c) - 1) \<and>
     (\<forall>k is. (k, is) \<in> set (c_chunks c) \<longrightarrow> (\<forall>i \<in> set is. item_ok i)) \<and>
     apppackets b = map (\<lambda>(st, k, nm, d). app_packet (unat st) k nm d) (c_apps c) \<and> appsize b = sum_list (map length (apppackets b)) \<and>
     (\<forall>a \<in> set (c_apps c). app_ok a) \<and>
     byepackets b = map (\<lambda>(ks, r). bye_packet ks r) (c_byes c) \<and> byesize b = sum_list (map length (byepackets b)) \<and>
     (\<forall>y \<in> set (c_byes c). bye_ok y) \<and>
     needed_bytes b \<le> maximumpacketsize b + 12 + (if c_report c = None then 0 else 28)"

lemmas builder_defs = InitBuild_def InitBuild_external_def new_builder_def no_report_def no_sdes_def StartSenderReport_def
  StartReceiverReport_def AddReportBlock_def AddSDESSource_def

lemma represents_init:
  assumes "InitBuild n new_builder = (0, b) \<or> InitBuild_external m n new_builder = (0, b)"
  shows "represents b no_contents"
  using assms by (auto simp: builder_defs represents_def no_contents_def report_of_def needed_bytes_def report_NeededBytes_def
      sdes_NeededBytes_def headerlength_def split: if_splits)

lemma header_length: "length (header_of r) = (if snd r = None then 4 else 24)"
  by (cases "snd r") (auto simp: header_of_def)

lemma headerlength_of: "headerlength (report_of c) = (case c_report c of None \<Rightarrow> 0 | Some r \<Rightarrow> if snd r = None then 4 else 24)"
  by (simp add: headerlength_def report_of_def header_length split: option.split)

lemma report_of_simps [simp]:
  "report_of (c\<lparr>c_chunks := x\<rparr>) = report_of c" "report_of (c\<lparr>c_apps := y\<rparr>) = report_of c" "report_of (c\<lparr>c_byes := z\<rparr>) = report_of c"
  "reportblocks (report_of c) = map block_bytes (c_blocks c)"
  by (simp_all add: report_of_def)

lemma represents_report:
  assumes "represents b c"
    and "StartSenderReport k ntp ts pc oc b = (0, b') \<and> i = Some (ntp, ts, pc, oc) \<or> StartReceiverReport k b = (0, b') \<and> i = None"
  shows "represents b' (c\<lparr>c_report := Some (k, i)\<rparr>)"
proof -
  have r: "report b = report_of c" "c_report c = None \<longrightarrow> c_blocks c = []" using assms(1) by (simp_all add: represents_def)
  have none: "c_report c = None"
    using assms(2) by (auto simp: StartSenderReport_def StartReceiverReport_def r(1) headerlength_of split: if_splits option.splits)
  have b': "b' = b\<lparr>report := report_of (c\<lparr>c_report := Some (k, i)\<rparr>)\<rparr>"
    using assms(2) r none by (auto simp: StartSenderReport_def StartReceiverReport_def report_of_def header_of_def split: if_splits prod.split)
  have "report_NeededBytes (report_of (c\<lparr>c_report := Some (k, i)\<rparr>)) \<le> 28" "report_NeededBytes (report_of c) = 0"
    using r(2) none by (simp_all add: report_NeededBytes_def headerlength_of)
  then have "needed_bytes b' \<le> needed_bytes b + 28" by (simp add: b' needed_bytes_def r(1))
  then show ?thesis using assms(1) none by (auto simp: represents_def b')
qed

lemma represents_block:
  assumes "represents b c" "AddReportBlock (rb_ssrc r) (rb_fraction r) (rb_lost r) (rb_highest r) (rb_jitter r) (rb_lsr r) (rb_dlsr r) b = (0, b')"
  shows "represents b' (c\<lparr>c_blocks := c_blocks c @ [r]\<rparr>)"
proof -
  have r: "report b = report_of c" using assms(1) by (simp add: represents_def)
  have some: "c_report c \<noteq> None"
    using assms(2) by (cases "c_report c") (auto simp: AddReportBlock_def r headerlength_of split: if_splits)
  have b': "b' = b\<lparr>report := report_of (c\<lparr>c_blocks := c_blocks c @ [r]\<rparr>)\<rparr>"
    using assms(2) r by (auto simp: AddReportBlock_def report_of_def block_bytes_def split: if_splits)
  have "report_NeededBytes (report_of (c\<lparr>c_blocks := c_blocks c @ [r]\<rparr>)) = NeededBytesWithExtraReportBlock (report_of c)"
    by (simp add: report_NeededBytes_def NeededBytesWithExtraReportBlock_def) (simp add: report_of_def)
  then have "needed_bytes b' \<le> maximumpacketsize b'"
    using assms(2) by (auto simp: AddReportBlock_def b' needed_bytes_def r split: if_splits)
  then show ?thesis using assms(1) some by (auto simp: represents_def b')
qed

lemma represents_source:
  assumes "represents b c" "AddSDESSource k b = (0, b')"
  shows "represents b' (c\<lparr>c_chunks := c_chunks c @ [(k, [])]\<rparr>)"
proof -
  have b': "b' = b\<lparr>sdes := AddSSRC k (sdes b)\<rparr>" using assms(2) by (auto simp: AddSDESSource_def split: if_splits)
  have new: "source_NeededBytes (source_of (k, [])) = 8" "new_sdes_source k = source_of (k, [])"
    by (simp_all add: source_NeededBytes_def new_sdes_source_def align4_def source_of_def)
  have "sdes_NeededBytes (AddSSRC k (sdes b)) \<le> NeededBytesWithExtraSource (sdes b) + 12"
    by (simp add: sdes_NeededBytes_def AddSSRC_def NeededBytesWithExtraSource_def new Let_def packets_for_def)
  moreover have "sdessources (sdes b) \<noteq> [] \<Longrightarrow> sdes_NeededBytes (AddSSRC k (sdes b)) = NeededBytesWithExtraSource (sdes b)"
    by (simp add: sdes_NeededBytes_def AddSSRC_def NeededBytesWithExtraSource_def new Let_def)
  ultimately have "needed_bytes b' \<le> maximumpacketsize b' + 12"
    using assms(2) by (auto simp: AddSDESSource_def b' needed_bytes_def split: if_splits)
  then show ?thesis using assms(1) by (auto simp: represents_def b' AddSSRC_def Let_def new(2))
qed

text \<open>An item goes to the last chunk; the size that was checked is the size afterwards.\<close>

lemma butlast_update: "xs \<noteq> [] \<Longrightarrow> xs[length xs - 1 := x] = butlast xs @ [x]"
  by (metis append_butlast_last_id length_butlast list_update_length)

lemma represents_item:
  assumes "represents b c" "add_item n (Inr bytes) b = Inr (0, b')" "bytes = item_bytes i" "item_ok i" "length (snd i) = n"
    and "c_chunks c \<noteq> []"
  shows "represents b' (c\<lparr>c_chunks := add_to_last i (c_chunks c)\<rparr>)"
proof -
  obtain cs k "is" where cs: "c_chunks c = cs @ [(k, is)]" using assms(6) by (metis rev_exhaust surj_pair)
  have s: "sdessources (sdes b) = map source_of cs @ [source_of (k, is)]" "sdesit (sdes b) = length cs"
    using assms(1) by (simp_all add: represents_def cs)
  have cur: "current_source (sdes b) = Inr (source_of (k, is))" by (simp add: current_source_def s nth_append)
  have src: "source_AddItem bytes (source_of (k, is)) = source_of (k, is @ [i])"
    by (simp add: source_AddItem_def source_of_def assms(3))
  let ?s = "(sdes b)\<lparr>sdessources := map source_of cs @ [source_of (k, is @ [i])]\<rparr>"
  have add: "sdes_AddItem bytes (sdes b) = Inr (0, ?s)" by (simp add: sdes_AddItem_def s cur src list_update_append)
  have sz: "sdes_NeededBytesWithExtraItem n (sdes b) = Inr (sdes_NeededBytes ?s)"
    using assms(5) by (simp add: sdes_NeededBytesWithExtraItem_def sdes_NeededBytes_def s cur source_NeededBytes_def
        source_NeededBytesWithExtraItem_def source_of_def item_bytes_def add.commute add.left_commute)
  have b': "b' = b\<lparr>sdes := ?s\<rparr>" and "needed_bytes b' \<le> maximumpacketsize b'"
    using assms(2) by (auto simp: add_item_def sz add needed_bytes_def split: if_splits)
  then show ?thesis using assms(1,4) by (auto simp: represents_def b' cs s add_to_last_def)
qed

lemma represents_chunks: "represents b c \<Longrightarrow> sdessources (sdes b) = [] \<longleftrightarrow> c_chunks c = []"
  by (auto simp: represents_def)

lemma represents_normal_item:
  assumes "represents b c" "AddSDESNormalItem t d n b = Inr (0, b')"
  shows "represents b' (c\<lparr>c_chunks := add_to_last (the (sdes_item_id t), take (unat n) d) (c_chunks c)\<rparr>)"
proof -
  have ne: "c_chunks c \<noteq> []" using assms represents_chunks [OF assms(1)] by (auto simp: AddSDESNormalItem_def split: if_splits)
  obtain i where i: "sdes_item_id t = Some i" "i \<noteq> 0"
    using assms by (cases t) (auto simp: AddSDESNormalItem_def sdes_item_id_def split: if_splits)
  have add: "add_item (unat n) (ub_bind (memcpy_from d 0 (unat n)) (\<lambda>d. Inr ([i, n] @ d))) b = Inr (0, b')"
    using assms(2) by (auto simp: AddSDESNormalItem_def i(1) split: if_splits)
  then have l: "unat n \<le> length d"
    by (cases "unat n \<le> length d") (auto simp: add_item_def memcpy_from_def ub_simps split: if_splits)
  have "length (take (unat n) d) = unat n" using l by simp
  then have "add_item (unat n) (Inr (item_bytes (i, take (unat n) d))) b = Inr (0, b')"
    using add l by (simp add: item_bytes_def)
  from represents_item [OF assms(1) this refl _ _ ne] show ?thesis using i l unsigned_less [of n] by (simp add: item_ok_def)
qed

lemma represents_private_item:
  assumes "represents b c" "AddSDESPrivateItem p m v n b = Inr (0, b')"
  shows "represents b' (c\<lparr>c_chunks := add_to_last (8, m # take (unat m) p @ take (unat n) v) (c_chunks c)\<rparr>)"
proof -
  let ?v = "m # take (unat m) p @ take (unat n) v"
  have ne: "c_chunks c \<noteq> []" using assms represents_chunks [OF assms(1)] by (auto simp: AddSDESPrivateItem_def split: if_splits)
  have add: "add_item (unat m + 1 + unat n) (ub_bind (memcpy_from p 0 (unat m)) (\<lambda>p. ub_bind (memcpy_from v 0 (unat n)) (\<lambda>v.
      Inr ([8, word_of_nat (unat m + 1 + unat n), m] @ p @ v)))) b = Inr (0, b')" and small: "unat m + 1 + unat n < 256"
    using assms(2) by (auto simp: AddSDESPrivateItem_def Let_def split: if_splits)
  have l: "unat m \<le> length p \<and> unat n \<le> length v"
    using add by (cases "unat m \<le> length p \<and> unat n \<le> length v") (auto simp: add_item_def memcpy_from_def ub_simps split: if_splits)
  have len: "length ?v = unat m + 1 + unat n" using l by simp
  have "add_item (unat m + 1 + unat n) (Inr (item_bytes (8, ?v))) b = Inr (0, b')"
    using add l unfolding item_bytes_def fst_conv snd_conv len by simp
  from represents_item [OF assms(1) this refl _ _ ne] show ?thesis using len small by (simp add: item_ok_def)
qed

lemma bye_packet_length:
  "length (bye_packet ks r) = (if r = [] then 4 + 4 * length ks else align4 (4 + 4 * length ks + 1 + length r))"
  using align4_bounds(1) [of "4 + 4 * length ks + 1 + length r"] by (simp add: bye_packet_def Let_def concat_hton32_length)

lemma represents_bye:
  assumes "represents b c" "AddBYEPacket ks m d n b = Inr (0, b')"
  shows "represents b' (c\<lparr>c_byes := c_byes c @ [(take (unat m) ks, take (unat n) d)]\<rparr>)"
proof -
  let ?size = "if 0 < n then align4 (4 + 4 * unat m + 1 + unat n) else 4 + 4 * unat m"
  have m: "unat m < 32" using assms(2) by (auto simp: AddBYEPacket_def word_less_nat_alt split: if_splits)
  have fits: "appsize b + byesize b + sdes_NeededBytes (sdes b) + report_NeededBytes (report b) + ?size \<le> maximumpacketsize b"
    using assms(2) by (auto simp: AddBYEPacket_def Let_def split: if_splits)
  have l: "unat m \<le> length ks \<and> unat n \<le> length d"
    using assms(2) by (cases "unat m \<le> length ks \<and> unat n \<le> length d") (auto simp: AddBYEPacket_def Let_def memcpy_from_def ub_simps split: if_splits)
  let ?p = "bye_packet (take (unat m) ks) (take (unat n) d)"
  have nz: "0 < n \<longleftrightarrow> unat n \<noteq> 0" by (simp add: word_less_nat_alt unat_gt_0)
  have len: "length ?p = ?size" unfolding bye_packet_length nz using l by (cases "unat n = 0") auto
  have b': "b' = b\<lparr>byepackets := byepackets b @ [?p], byesize := byesize b + length ?p\<rparr>"
    unfolding len using assms(2) l by (auto simp: AddBYEPacket_def Let_def split: if_splits)
  have "needed_bytes b' \<le> maximumpacketsize b'" using fits unfolding len [symmetric] by (simp add: b' needed_bytes_def)
  moreover have "bye_ok (take (unat m) ks, take (unat n) d)" using m l unsigned_less [of n] by (simp add: bye_ok_def)
  ultimately show ?thesis using assms(1) by (auto simp: represents_def b')
qed

lemma represents_app:
  assumes "represents b c" "AddAPPPacket st k nm d n b = Inr (0, b')"
  shows "represents b' (c\<lparr>c_apps := c_apps c @ [(st, k, take 4 nm, take n d)]\<rparr>)"
proof -
  have ok: "unat st < 32" "n mod 4 = 0" "n div 4 + 2 \<le> 65535"
    using assms(2) by (auto simp: AddAPPPacket_def word_less_nat_alt split: if_splits)
  have fits: "appsize b + byesize b + sdes_NeededBytes (sdes b) + report_NeededBytes (report b) + (12 + n) \<le> maximumpacketsize b"
    using assms(2) by (auto simp: AddAPPPacket_def Let_def split: if_splits)
  have l: "4 \<le> length nm \<and> n \<le> length d"
    using assms(2) by (cases "4 \<le> length nm \<and> n \<le> length d") (auto simp: AddAPPPacket_def Let_def memcpy_from_def ub_simps split: if_splits)
  let ?p = "app_packet (unat st) k (take 4 nm) (take n d)"
  have len: "length ?p = 12 + n" using l by (simp add: app_packet_def)
  have b': "b' = b\<lparr>apppackets := apppackets b @ [?p], appsize := appsize b + length ?p\<rparr>"
    unfolding len using assms(2) l by (auto simp: AddAPPPacket_def Let_def split: if_splits)
  have "needed_bytes b' \<le> maximumpacketsize b'" using fits unfolding len [symmetric] by (simp add: b' needed_bytes_def)
  moreover have "app_ok (st, k, take 4 nm, take n d)" using ok l by (simp add: app_ok_def)
  ultimately show ?thesis using assms(1) by (auto simp: represents_def b')
qed

lemma building_represents: "building b c \<Longrightarrow> represents b c"
proof (induction rule: building.induct)
  case (init_own n b)
  then show ?case by (intro represents_init [of n b 0]) (rule disjI1)
next
  case (init_callers m n b)
  then show ?case by (intro represents_init [of n b m]) (rule disjI2)
next
  case (add_sender_report b c k ntp ts pc oc b')
  show ?case by (rule represents_report [OF add_sender_report.IH, of k ntp ts pc oc]) (use add_sender_report.hyps in simp)
next
  case (add_receiver_report b c k b')
  show ?case by (rule represents_report [OF add_receiver_report.IH, of k]) (use add_receiver_report.hyps in simp)
next
  case add_block
  show ?case by (rule represents_block [OF add_block.IH add_block.hyps(2)])
next
  case add_source
  show ?case by (rule represents_source [OF add_source.IH add_source.hyps(2)])
next
  case add_normal_item
  show ?case by (rule represents_normal_item [OF add_normal_item.IH add_normal_item.hyps(2)])
next
  case add_private_item
  show ?case by (rule represents_private_item [OF add_private_item.IH add_private_item.hyps(2)])
next
  case add_bye
  show ?case by (rule represents_bye [OF add_bye.IH add_bye.hyps(2)])
next
  case add_app
  show ?case by (rule represents_app [OF add_app.IH add_app.hyps(2)])
qed

subsection \<open>The bytes written are the bytes announced\<close>

lemma align4_add: "a mod 4 = 0 \<Longrightarrow> align4 (a + n) = a + align4 n"
proof -
  assume "a mod 4 = 0"
  then have "(a + n) mod 4 = n mod 4" by (metis add.left_neutral mod_add_left_eq)
  then show ?thesis by (simp add: align4_def add.assoc)
qed

lemma align4_idle: "align4 n + 4 = align4 (n + 4)"
  using align4_add [of 4 n] by (simp add: add.commute)

definition sized :: "sdes_source \<Rightarrow> bool" where
  "sized s \<longleftrightarrow> totalitemsize s = length (concat (source_items s))"

lemma source_of_sized: "sized (source_of c)"
  by (simp add: sized_def source_of_def length_concat comp_def)

lemma sdes_body_length:
  "offset mod 4 = 0 \<Longrightarrow> \<forall>s \<in> set ss. sized s \<Longrightarrow> length (sdes_body offset ss) = sum_list (map source_NeededBytes ss)"
proof (induction ss arbitrary: offset)
  case (Cons s ss)
  let ?n = "4 + (totalitemsize s + 1)"
  have a: "align4 (offset + ?n) = offset + align4 ?n" by (rule align4_add [OF Cons.prems(1)])
  have "length (sdes_body (align4 (offset + ?n)) ss) = sum_list (map source_NeededBytes ss)"
    by (rule Cons.IH) (use Cons.prems align4_mult in auto)
  moreover have "align4 ?n = source_NeededBytes s" using align4_idle [of "totalitemsize s + 1"] by (simp add: source_NeededBytes_def add.commute)
  ultimately show ?case
    using Cons.prems(2) a align4_bounds(1) [of ?n] by (simp add: Let_def sized_def)
qed simp

lemma sdes_packet_length: "\<forall>s \<in> set ss. sized s \<Longrightarrow> length (sdes_packet ss) = 4 + sum_list (map source_NeededBytes ss)"
  using sdes_body_length [of 4 ss] by (simp add: sdes_packet_def Let_def)

lemma groups_sum: "sum_list (map (\<lambda>g. sum_list (map f g)) (groups xs)) = (sum_list (map f xs) :: nat)"
proof -
  have "sum_list (map (\<lambda>g. sum_list (map f g)) gs) = sum_list (map f (concat gs))" for gs by (induction gs) auto
  then show ?thesis by (simp add: groups_concat)
qed

lemma sum_list_add_const: "sum_list (map (\<lambda>x. (k :: nat) + f x) xs) = k * length xs + sum_list (map f xs)"
  by (induction xs) auto

lemma groups_members: "g \<in> set (groups xs) \<Longrightarrow> set g \<subseteq> set xs"
  using groups_concat [of xs] by (metis concat.simps(2) in_set_conv_decomp set_append set_concat UN_upper)

lemma sdes_pieces_total:
  assumes "\<forall>s \<in> set (sdessources x). sized s" "sdessources x \<noteq> []"
  shows "total (sdes_pieces (sdessources x)) = sdes_NeededBytes x"
proof -
  let ?ss = "sdessources x"
  have "total (sdes_pieces ?ss) = sum_list (map (\<lambda>g. length (sdes_packet g)) (groups ?ss))"
    by (simp add: total_def sdes_pieces_def comp_def)
  also have "\<dots> = sum_list (map (\<lambda>g. 4 + sum_list (map source_NeededBytes g)) (groups ?ss))"
    by (intro arg_cong [of _ _ sum_list] map_cong refl sdes_packet_length) (use assms(1) groups_members in blast)
  also have "\<dots> = 4 * packets_for (length ?ss) + sum_list (map source_NeededBytes ?ss)"
    unfolding sum_list_add_const groups_sum groups_count using assms(2) by simp
  finally show ?thesis using assms(2) by (simp add: sdes_NeededBytes_def)
qed

lemma report_packet_length:
  "\<forall>b \<in> set blocks. length b = 24 \<Longrightarrow>
    length (report_packet sr header blocks) = 4 + (if sr then length header else min 4 (length header)) + 24 * length blocks"
proof -
  assume "\<forall>b \<in> set blocks. length b = 24"
  then have "length (concat blocks) = 24 * length blocks" by (induction blocks) auto
  then show ?thesis by (simp add: report_packet_def Let_def min.commute)
qed

lemma report_pieces_total:
  assumes "\<forall>b \<in> set bs. length b = 24" "4 \<le> length header"
  shows "total (report_pieces sr header bs) = 24 * length bs + 8 * length (groups bs) + (if sr then length header - 4 else 0)"
proof -
  let ?len = "\<lambda>g :: byte list list. 8 + sum_list (map (\<lambda>b. 24 :: nat) g)"
  have len: "length (report_packet q header g) = ?len g + (if q then length header - 4 else 0)" if "g \<in> set (groups bs)" for q g
  proof -
    have "\<forall>b \<in> set g. length b = 24" using assms(1) groups_members [OF that] by blast
    from report_packet_length [OF this] show ?thesis using assms(2) by (simp add: sum_list_triv)
  qed
  have hd: "hd (groups bs) \<in> set (groups bs)" "set (tl (groups bs)) \<subseteq> set (groups bs)"
    by (subst (1 2) groups_nonempty, simp) (metis groups_nonempty set_subset_Cons)
  have "map (\<lambda>g. length (report_packet False header g)) (tl (groups bs)) = map ?len (tl (groups bs))"
    by (rule map_cong) (use len [of _ False] hd(2) in auto)
  then have s: "sum_list (map (\<lambda>g. length (report_packet False header g)) (tl (groups bs))) = sum_list (map ?len (tl (groups bs)))"
    by (rule arg_cong)
  have "total (report_pieces sr header bs) = (if sr then length header - 4 else 0) + ?len (hd (groups bs)) + sum_list (map ?len (tl (groups bs)))"
    using len [OF hd(1), of sr] by (simp add: total_def report_pieces_def comp_def s)
  also have "?len (hd (groups bs)) + sum_list (map ?len (tl (groups bs))) = sum_list (map ?len (groups bs))"
    by (subst (3) groups_nonempty) simp
  then have "(if sr then length header - 4 else 0) + ?len (hd (groups bs)) + sum_list (map ?len (tl (groups bs))) =
     (if sr then length header - 4 else 0) + sum_list (map ?len (groups bs))" by linarith
  also have "sum_list (map ?len (groups bs)) = 8 * length (groups bs) + 24 * length bs"
    unfolding sum_list_add_const groups_sum by (simp add: sum_list_triv)
  finally show ?thesis by simp
qed

lemma block_length: "length (block_bytes b) = 24"
  by (simp add: block_bytes_def report_block_bytes_def)

lemma all_pieces_total:
  assumes "represents b c" "c_report c \<noteq> None"
  shows "total (all_pieces b) = needed_bytes b"
proof -
  have r: "report b = report_of c" and s: "sdessources (sdes b) = map source_of (c_chunks c)"
    and sz: "appsize b = sum_list (map length (apppackets b))" "byesize b = sum_list (map length (byepackets b))"
    using assms(1) by (simp_all add: represents_def)
  obtain k i where k: "c_report c = Some (k, i)" using assms(2) by auto
  have h: "headerdata (report_of c) = header_of (k, i)" "isSR (report_of c) = (i \<noteq> None)"
    by (auto simp: report_of_def k split: option.split)
  have "total (report_pieces (isSR (report b)) (headerdata (report b)) (reportblocks (report b))) = report_NeededBytes (report b)"
    unfolding r h report_of_simps
    by (subst report_pieces_total) (auto simp: block_length header_length report_NeededBytes_def headerlength_of groups_count h k Let_def)
  moreover have "total (if sdessources (sdes b) = [] then [] else sdes_pieces (sdessources (sdes b))) = sdes_NeededBytes (sdes b)"
    using sdes_pieces_total [of "sdes b"] by (auto simp: s source_of_sized sdes_NeededBytes_def)
  moreover have "total (map (Pair f) xs) = sum_list (map length xs)" for f :: "byte list \<Rightarrow> ub + rtcp_packet" and xs
    by (simp add: total_def comp_def)
  ultimately show ?thesis unfolding all_pieces_def needed_bytes_def by (simp add: sz)
qed

lemma all_pieces_made:
  assumes "represents b c"
  shows "\<forall>cd \<in> set (all_pieces b). \<exists>p. fst cd (snd cd) = Inr p"
proof
  fix cd assume cd: "cd \<in> set (all_pieces b)"
  have "snd cd \<noteq> []"
  proof -
    have ne: "report_packet q h g \<noteq> []" "sdes_packet ss \<noteq> []" "app_packet n k nm d \<noteq> []" "bye_packet ks r \<noteq> []" for q h g ss n k nm d ks r
      by (simp_all add: report_packet_def sdes_packet_def app_packet_def bye_packet_def Let_def common_header_def)
    have "apppackets b = map (\<lambda>(st, k, nm, d). app_packet (unat st) k nm d) (c_apps c)"
      "byepackets b = map (\<lambda>(ks, r). bye_packet ks r) (c_byes c)" using assms by (simp_all add: represents_def)
    then have "snd cd \<in> set (apppackets b) \<union> set (byepackets b) \<Longrightarrow> ?thesis" by (auto simp: ne)
    then show ?thesis using cd by (auto simp: all_pieces_def report_pieces_def sdes_pieces_def ne split: if_splits)
  qed
  moreover have "fst cd \<in> {RTCPSRPacket, RTCPRRPacket, RTCPSDESPacket, RTCPAPPPacket, RTCPBYEPacket}"
    using cd by (auto simp: all_pieces_def report_pieces_def sdes_pieces_def report_ctor_def split: if_splits)
  ultimately show "\<exists>p. fst cd (snd cd) = Inr p"
    using report_packets_good [of "snd cd"] bye_app_good [of "snd cd"] sdes_good [of "snd cd"] by fastforce
qed

lemma EndBuild_run:
  assumes "represents b c" "c_report c \<noteq> None"
  shows "EndBuild b = (if \<exists>n. buffer b = Some n \<and> n < needed_bytes b then Inl Overrun
    else Inr (0, ClearBuildBuffers (b\<lparr>rtcppacklist := map made (all_pieces b), compoundpacket := Some (concat (map snd (all_pieces b))),
      compoundpacketlength := needed_bytes b, arebuilding := False\<rparr>)))"
proof -
  have "arebuilding b" "rtcppacklist b = []" "report b = report_of c" using assms(1) by (simp_all add: represents_def)
  moreover have "headerlength (report_of c) \<noteq> 0" using assms(2) by (auto simp: headerlength_of)
  ultimately show ?thesis
    using put_all_total [OF all_pieces_made [OF assms(1)], of "([], [])"] all_pieces_total [OF assms]
    by (auto simp: EndBuild_def Let_def end_all_put_all split: option.split)
qed

end
