(* ===== verification/Rtcp_Reading.thy ===== *)
theory Rtcp_Reading
  imports Rtcp_Contents
begin

section \<open>Reading what was built\<close>

text \<open>
  The constructors of the packets accept what the builder writes, and the getters read back what it was written
  from: report blocks, BYE and APP packets field by field, SDES packets by walking through chunks and items.
\<close>

subsection \<open>The constructors accept what was written\<close>

lemma header_fields:
  assumes "n < 32" "d = common_header n t w @ body"
  shows "rd d 0 = Inr (0x80 OR word_of_nat n)" "d ! Suc 0 = t" "length d = 4 + length body"
    "unpadded_length d = Inr (Some (4 + length body))"
proof -
  have d: "d = [0x80 OR word_of_nat n, t] @ hton16 (word_of_nat w) @ body"
    by (simp only: assms(2) common_header_count [OF assms(1)] append_assoc)
  show h: "rd d 0 = Inr (0x80 OR word_of_nat n)" and "d ! Suc 0 = t" and l: "length d = 4 + length body" by (simp_all add: d)
  show "unpadded_length d = Inr (Some (4 + length body))"
    unfolding unpadded_length_def h using rtcp_count_fields(2) [OF assms(1)] l by simp
qed

lemma with_length_header:
  assumes "n < 32" "rtcp_data p = common_header n t w @ body"
  shows "with_length p f = f (0x80 OR word_of_nat n) (4 + length body)"
  unfolding with_length_def using header_fields [OF assms] by simp

definition known :: "rtcp_type \<Rightarrow> byte list \<Rightarrow> rtcp_packet" where
  "known t d = (new_rtcp t d)\<lparr>knownformat := True\<rparr>"

lemma report_packet_made:
  assumes "length bs \<le> 31" "\<forall>b \<in> set bs. length b = 24" "length header = (if sr then 24 else length header)" "4 \<le> length header"
  shows "report_ctor sr (report_packet sr header bs) = Inr (known (if sr then SR else RR) (report_packet sr header bs))"
proof -
  have n: "length bs < 32" using assms(1) by simp
  have len: "length (concat bs) = 24 * length bs" using assms(2) by (induction bs) auto
  show ?thesis
    using with_length_header [OF n, of "new_rtcp SR (report_packet sr header bs)" RTP_RTCPTYPE_SR]
      with_length_header [OF n, of "new_rtcp RR (report_packet sr header bs)" RTP_RTCPTYPE_RR] assms(3,4)
    by (auto simp: report_ctor_def RTCPSRPacket_def RTCPRRPacket_def report_packet_def Let_def known_def len rtcp_count_fields(3) [OF n])
qed

lemma bye_packet_bye_bytes: "length ks < 32 \<Longrightarrow> bye_packet ks r = bye_bytes ks r"
proof -
  assume n: "length ks < 32"
  let ?m = "4 + 4 * length ks + 1 + length r"
  have "align4 ?m = 4 + 4 * length ks + align4 (1 + length r)"
    using align4_add [of "4 + 4 * length ks" "1 + length r"] by (simp add: mod_simps add.assoc)
  then have "align4 ?m - ?m = align4 (1 + length r) - (1 + length r)" by linarith
  then have "bye_packet ks r = common_header (length ks) RTP_RTCPTYPE_BYE ((4 + length (bye_body ks r)) div 4 - 1) @ bye_body ks r"
    by (simp only: bye_packet_def bye_body_def Let_def)
  moreover have "(4 + length (bye_body ks r)) div 4 - 1 = length (bye_body ks r) div 4" by simp
  ultimately show ?thesis by (simp only: bye_bytes_def common_header_count [OF n] append_assoc)
qed

definition bye_made :: "u32 list \<Rightarrow> byte list \<Rightarrow> rtcp_packet" where
  "bye_made ks r = (known BYE (bye_bytes ks r))\<lparr>reasonoffset := (if r = [] then 0 else 4 + 4 * length ks)\<rparr>"

lemma bye_packet_made: "bye_ok (ks, r) \<Longrightarrow> RTCPBYEPacket (bye_packet ks r) = Inr (bye_made ks r)"
  using bye_parsed [of ks r] by (simp add: bye_ok_def bye_packet_bye_bytes bye_made_def known_def)

definition app_made :: "byte \<Rightarrow> u32 \<Rightarrow> byte list \<Rightarrow> byte list \<Rightarrow> rtcp_packet" where
  "app_made st k nm d = (known APP (app_packet (unat st) k nm d))\<lparr>appdatalen := Some (length d)\<rparr>"

lemma app_packet_made: "app_ok (st, k, nm, d) \<Longrightarrow> RTCPAPPPacket (app_packet (unat st) k nm d) = Inr (app_made st k nm d)"
  using with_length_header [of "unat st" "new_rtcp APP (app_packet (unat st) k nm d)" RTP_RTCPTYPE_APP "length d div 4 + 2" "hton32 k @ nm @ d"]
  by (auto simp: app_ok_def RTCPAPPPacket_def app_packet_def app_made_def known_def)

subsection \<open>SDES packets\<close>

definition items_bytes :: "item list \<Rightarrow> byte list" where
  "items_bytes is = concat (map item_bytes is)"

definition chunk_bytes :: "u32 \<times> item list \<Rightarrow> byte list" where
  "chunk_bytes c = hton32 (fst c) @ items_bytes (snd c) @ 0 #
     replicate (align4 (length (items_bytes (snd c)) + 1) - (length (items_bytes (snd c)) + 1)) 0"

lemma chunk_bytes_length: "length (chunk_bytes c) = 4 + align4 (length (items_bytes (snd c)) + 1)"
  using align4_bounds(1) [of "length (items_bytes (snd c)) + 1"] by (simp add: chunk_bytes_def)

lemma sdes_body_chunks: "offset mod 4 = 0 \<Longrightarrow> sdes_body offset (map source_of cs) = concat (map chunk_bytes cs)"
proof (induction cs arbitrary: offset)
  case (Cons c cs)
  let ?n = "length (items_bytes (snd c)) + 1"
  have a: "align4 (offset + (4 + ?n)) = offset + (4 + align4 ?n)"
    using align4_add [OF Cons.prems] align4_add [of 4 ?n] by simp
  have "(offset + (4 + align4 ?n)) mod 4 = 0" using Cons.prems align4_mult [of ?n] by presburger
  from Cons.IH [OF this] show ?case
    using a by (simp add: source_of_def Let_def items_bytes_def [symmetric] chunk_bytes_def add.assoc)
qed simp

lemma item_bytes_simps: "item_bytes i = [fst i, word_of_nat (length (snd i))] @ snd i" "length (item_bytes i) = 2 + length (snd i)"
  by (simp_all add: item_bytes_def)

lemma item_length_unat: "item_ok i \<Longrightarrow> unat (word_of_nat (length (snd i)) :: byte) = length (snd i)"
  by (simp add: item_ok_def unat_of_nat)

lemma sdes_items_layout:
  assumes "d = pre @ items_bytes is @ 0 # tail" "length pre = chunk + off" "\<forall>i \<in> set is. item_ok i"
    and "align4 (off + length (items_bytes is) + 1) \<le> off + len"
  shows "sdes_items d chunk off len = Inr (Some (align4 (off + length (items_bytes is) + 1),
     off + len - align4 (off + length (items_bytes is) + 1)))"
  using assms
proof (induction "is" arbitrary: pre off len)
  case Nil
  have r: "rd d (chunk + off) = Inr 0" using rd_skip [of pre "0 # tail" 0] Nil.prems(1,2) by (simp add: items_bytes_def)
  show ?case using Nil.prems(4) align4_bounds(1) [of "off + 1"]
    by (subst sdes_items.simps) (auto simp: r items_bytes_def Let_def)
next
  case (Cons i "is")
  let ?v = "length (snd i)"
  let ?rest = "snd i @ items_bytes is @ 0 # tail"
  have ok: "fst i \<noteq> 0" "item_ok i" using Cons.prems(3) by (simp_all add: item_ok_def)
  have d: "d = pre @ fst i # word_of_nat ?v # ?rest" using Cons.prems(1) by (simp add: items_bytes_def item_bytes_def)
  have r: "rd d (chunk + off) = Inr (fst i)" "rd d (chunk + off + 1) = Inr (word_of_nat ?v)"
    using rd_skip [of pre _ 0] rd_skip [of pre _ 1] Cons.prems(2) unfolding d by (simp_all add: add.assoc)
  have len: "length (items_bytes (i # is)) = 2 + ?v + length (items_bytes is)" by (simp add: items_bytes_def item_bytes_def)
  have room: "2 + ?v < len" using Cons.prems(4) align4_bounds(1) [of "off + length (items_bytes (i # is)) + 1"] unfolding len by linarith
  have pre: "d = (pre @ item_bytes i) @ items_bytes is @ 0 # tail" using Cons.prems(1) by (simp add: items_bytes_def)
  have "sdes_items d chunk off len = sdes_items d chunk (off + 2 + ?v) (len - 2 - ?v)"
    using room r ok(1) by (subst sdes_items.simps) (simp add: item_length_unat [OF ok(2)], linarith)
  also have "\<dots> = Inr (Some (align4 (off + 2 + ?v + length (items_bytes is) + 1),
      off + 2 + ?v + (len - 2 - ?v) - align4 (off + 2 + ?v + length (items_bytes is) + 1)))"
    by (rule Cons.IH [OF pre])
      (use Cons.prems(2-4) room in \<open>simp_all add: item_bytes_simps(2) len add.assoc\<close>)
  finally show ?case using room by (simp add: len add.assoc)
qed

lemma sdes_chunks_layout:
  "\<forall>c \<in> set cs. \<forall>i \<in> set (snd c). item_ok i \<Longrightarrow>
    sdes_chunks (pre @ concat (map chunk_bytes cs)) (length pre) (length cs) (length (concat (map chunk_bytes cs))) = Inr (Some (0, 0))"
proof (induction cs arbitrary: pre)
  case (Cons c cs)
  let ?n = "length (items_bytes (snd c)) + 1"
  let ?d = "pre @ concat (map chunk_bytes (c # cs))"
  let ?len = "length (concat (map chunk_bytes (c # cs)))"
  have a: "align4 (4 + length (items_bytes (snd c)) + 1) = 4 + align4 ?n" using align4_add [of 4 ?n] by (simp add: add.assoc)
  have c: "length (chunk_bytes c) = 4 + align4 ?n" by (rule chunk_bytes_length)
  have len: "?len = 4 + align4 ?n + length (concat (map chunk_bytes cs))" using c by simp
  have d: "?d = (pre @ hton32 (fst c)) @ items_bytes (snd c) @ 0 #
      (replicate (align4 ?n - ?n) 0 @ concat (map chunk_bytes cs))" by (simp add: chunk_bytes_def)
  have items: "sdes_items ?d (length pre) 4 (?len - 4) =
      Inr (Some (4 + align4 ?n, length (concat (map chunk_bytes cs))))"
  proof -
    have "align4 (4 + length (items_bytes (snd c)) + 1) \<le> 4 + (?len - 4)" unfolding a len by simp
    from sdes_items_layout [OF d _ _ this] Cons.prems have "sdes_items ?d (length pre) 4 (?len - 4) =
        Inr (Some (align4 (4 + length (items_bytes (snd c)) + 1), 4 + (?len - 4) - align4 (4 + length (items_bytes (snd c)) + 1)))"
      by simp
    then show ?thesis unfolding a len by simp
  qed
  have "8 \<le> 4 + align4 ?n" using align4_bounds(1) [of ?n] align4_mult [of ?n] by presburger
  moreover have "sdes_chunks ?d (length pre + (4 + align4 ?n)) (length cs) (length (concat (map chunk_bytes cs))) = Inr (Some (0, 0))"
    using Cons.IH [of "pre @ chunk_bytes c"] Cons.prems c by simp
  ultimately show ?case using items len by (simp del: map_append)
qed simp

definition sdes_bytes :: "(u32 \<times> item list) list \<Rightarrow> byte list" where
  "sdes_bytes cs = common_header (length cs) RTP_RTCPTYPE_SDES ((4 + length (concat (map chunk_bytes cs))) div 4 - 1) @
     concat (map chunk_bytes cs)"

lemma sdes_packet_bytes: "sdes_packet (map source_of cs) = sdes_bytes cs"
  by (simp add: sdes_packet_def sdes_bytes_def sdes_body_chunks Let_def)

lemma sdes_packet_made:
  assumes "length cs \<le> 31" "cs \<noteq> []" "\<forall>c \<in> set cs. \<forall>i \<in> set (snd c). item_ok i"
  shows "RTCPSDESPacket (sdes_bytes cs) = Inr (known SDES (sdes_bytes cs))"
proof -
  have n: "length cs < 32" using assms(1) by simp
  have "rtcp_count (0x80 OR word_of_nat (length cs)) = length cs" by (rule rtcp_count_fields(3) [OF n])
  moreover have "sdes_chunks (sdes_bytes cs) 4 (length cs) (length (concat (map chunk_bytes cs))) = Inr (Some (0, 0))"
    using sdes_chunks_layout [OF assms(3)] unfolding sdes_bytes_def by (metis common_header_length)
  moreover have "rtcp_data (new_rtcp SDES (sdes_bytes cs)) =
      common_header (length cs) RTP_RTCPTYPE_SDES ((4 + length (concat (map chunk_bytes cs))) div 4 - 1) @ concat (map chunk_bytes cs)"
    by (simp add: sdes_bytes_def)
  ultimately show ?thesis using assms(2)
    unfolding RTCPSDESPacket_def by (simp only: with_length_header [OF n] Let_def known_def) simp
qed

subsection \<open>Reading reports\<close>

text \<open>24 bits of the number of lost packets go over the wire; they come back with their sign.\<close>

definition block_read :: "rtcp_packet \<Rightarrow> nat \<Rightarrow> report_block \<Rightarrow> bool" where
  "block_read p i b \<longleftrightarrow> report_GetSSRC i p = Inr (rb_ssrc b) \<and> GetFractionLost i p = Inr (rb_fraction b) \<and>
     GetLostPacketCount i p = Inr (signed_take_bit 23 (sint (rb_lost b))) \<and>
     GetExtendedHighestSequenceNumber i p = Inr (rb_highest b) \<and> GetJitter i p = Inr (rb_jitter b) \<and>
     GetLSR i p = Inr (rb_lsr b) \<and> GetDLSR i p = Inr (rb_dlsr b)"

definition report_read :: "rtcp_packet \<Rightarrow> u32 \<times> sender_info option \<Rightarrow> report_block list \<Rightarrow> bool" where
  "report_read p r bs \<longleftrightarrow> rtcp_type p = (if snd r = None then RR else SR) \<and> GetSenderSSRC p = Inr (fst r) \<and>
     (case snd r of None \<Rightarrow> True | Some (ntp, ts, pc, oc) \<Rightarrow> GetNTPTimestamp p = Inr ntp \<and> GetRTPTimestamp p = Inr ts \<and>
        GetSenderPacketCount p = Inr pc \<and> GetSenderOctetCount p = Inr oc) \<and>
     GetReceptionReportCount p = Inr (length bs) \<and> (\<forall>i < length bs. block_read p i (bs ! i))"

lemma concat_drop:
  "\<forall>x \<in> set xs. length (f x) = w \<Longrightarrow> i < length xs \<Longrightarrow> \<exists>zs. drop (w * i) (concat (map f xs)) = f (xs ! i) @ zs"
proof (induction xs arbitrary: i)
  case (Cons x xs)
  then show ?case by (cases i) (auto simp: add.commute)
qed simp

lemma block_at:
  assumes "d = pre @ concat (map block_bytes bs)" "i < length bs"
  obtains xs ys where "d = xs @ block_bytes (bs ! i) @ ys" "length xs = length pre + i * 24"
proof -
  obtain zs where "drop (24 * i) (concat (map block_bytes bs)) = block_bytes (bs ! i) @ zs"
    using concat_drop [of bs block_bytes 24 i] block_length assms(2) by auto
  then have "concat (map block_bytes bs) = take (24 * i) (concat (map block_bytes bs)) @ block_bytes (bs ! i) @ zs"
    by (metis append_take_drop_id)
  moreover have "length (concat (map block_bytes bs)) = 24 * length bs" by (induction bs) (simp_all add: block_length)
  then have "length (take (24 * i) (concat (map block_bytes bs))) = i * 24" using assms(2) by simp
  ultimately show ?thesis using that [of "pre @ take (24 * i) (concat (map block_bytes bs))" zs] assms(1) by simp
qed

lemma lost_count:
  fixes x :: u32
  defines "count \<equiv> ucast (ucast (x AND 0xFF) :: byte) OR push_bit 8 (ucast (ucast (drop_bit 8 x AND 0xFF) :: byte)) OR
    push_bit 16 (ucast (ucast (drop_bit 16 x AND 0xFF) :: byte)) :: u32"
  shows "sint (if count AND 0x00800000 \<noteq> 0 then count OR 0xFF000000 else count) = signed_take_bit 23 (sint x)"
proof -
  have mask: "(0xFF :: u32) = mask 8" "(0x00800000 :: u32) = push_bit 23 1" "(0xFF000000 :: u32) = push_bit 24 (mask 8)"
    by (simp_all add: mask_eq_exp_minus_1)
  have c: "count = take_bit 24 x"
  proof (rule bit_word_eqI)
    fix n assume "n < LENGTH(32)"
    then consider "n < 8" | "8 \<le> n" "n - 8 < 8" "n < 16" | "16 \<le> n" "n - 16 < 8" "\<not> n - 8 < 8" "n < 24" | "24 \<le> n" "n < 32"
      by fastforce
    then show "bit count n = bit (take_bit 24 x) n"
      by cases (auto simp: count_def mask(1) bit_simps)
  qed
  have "(count AND 0x00800000 \<noteq> 0) = bit x 23"
    unfolding mask(2) bit_iff_and_push_bit_not_eq_0 [symmetric] c by (simp add: bit_simps)
  moreover have "count OR 0xFF000000 = signed_take_bit 23 x" if "bit x 23"
    unfolding mask(3) c
  proof (rule bit_word_eqI)
    fix n assume "n < LENGTH(32)"
    then consider "n < 23" | "n = 23" | "23 < n" "n < 32" by fastforce
    then show "bit (take_bit 24 x OR push_bit 24 (mask 8)) n = bit (signed_take_bit 23 x) n"
      by cases (use that in \<open>auto simp: bit_simps min_def\<close>)
  qed
  moreover have "count = signed_take_bit 23 x" if "\<not> bit x 23"
    unfolding c
  proof (rule bit_word_eqI)
    fix n assume "n < LENGTH(32)"
    then consider "n < 23" | "n = 23" | "23 < n" "n < 32" by fastforce
    then show "bit (take_bit 24 x) n = bit (signed_take_bit 23 x) n"
      by cases (use that in \<open>auto simp: bit_simps min_def\<close>)
  qed
  moreover have "sint (signed_take_bit 23 x) = signed_take_bit 23 (sint x)"
    by (rule bit_eqI) (auto simp: bit_simps min_def)
  ultimately show ?thesis by auto
qed

lemma rd32_block:
  "rd32 (block_bytes b @ ys) 0 = Inr (rb_ssrc b)" "rd32 (block_bytes b @ ys) 8 = Inr (rb_highest b)"
  "rd32 (block_bytes b @ ys) 12 = Inr (rb_jitter b)" "rd32 (block_bytes b @ ys) 16 = Inr (rb_lsr b)"
  "rd32 (block_bytes b @ ys) 20 = Inr (rb_dlsr b)" "rd (block_bytes b @ ys) 4 = Inr (rb_fraction b)"
  "rd (block_bytes b @ ys) 5 = Inr (ucast (drop_bit 16 (rb_lost b) AND 0xFF))"
  "rd (block_bytes b @ ys) 6 = Inr (ucast (drop_bit 8 (rb_lost b) AND 0xFF))"
  "rd (block_bytes b @ ys) 7 = Inr (ucast (rb_lost b AND 0xFF))"
  by (simp_all add: block_bytes_def report_block_bytes_def hton32_def rd32_def rd_def ntoh_hton32)

lemma block_read_at:
  assumes "knownformat p" "rtcp_data p = xs @ block_bytes b @ ys" "GotoReport i p = length xs"
  shows "block_read p i b"
  unfolding block_read_def report_GetSSRC_def GetFractionLost_def GetLostPacketCount_def GetExtendedHighestSequenceNumber_def
    GetJitter_def GetLSR_def GetDLSR_def field32_def
  using rd32_skip [of xs "block_bytes b @ ys" 0] assms
  by (simp add: rd32_skip rd_skip rd32_block lost_count [simplified] Let_def)

definition report_bytes :: "u32 \<times> sender_info option \<Rightarrow> report_block list \<Rightarrow> byte list" where
  "report_bytes r bs = report_packet (snd r \<noteq> None) (header_of r) (map block_bytes bs)"

definition report_made :: "u32 \<times> sender_info option \<Rightarrow> report_block list \<Rightarrow> rtcp_packet" where
  "report_made r bs = known (if snd r = None then RR else SR) (report_bytes r bs)"

lemma report_bytes_header:
  "report_bytes r bs = common_header (length bs) (if snd r = None then RTP_RTCPTYPE_RR else RTP_RTCPTYPE_SR)
     ((4 + length (header_of r @ concat (map block_bytes bs))) div 4 - 1) @ header_of r @ concat (map block_bytes bs)"
  using header_length [of r] by (auto simp: report_bytes_def report_packet_def Let_def)

lemma known_simps [simp]:
  "rtcp_data (known t d) = d" "rtcp_type (known t d) = t" "knownformat (known t d)" "currentchunk (known t d) = None"
  "reasonoffset (known t d) = 0" "appdatalen (known t d) = None"
  by (simp_all add: known_def)

lemma report_made_read:
  assumes "length bs < 32"
  shows "report_read (report_made r bs) r bs"
proof -
  let ?p = "report_made r bs"
  let ?h = "common_header (length bs) (if snd r = None then RTP_RTCPTYPE_RR else RTP_RTCPTYPE_SR)
     ((4 + length (header_of r @ concat (map block_bytes bs))) div 4 - 1)"
  have d: "rtcp_data ?p = ?h @ header_of r @ concat (map block_bytes bs)" "knownformat ?p" "rtcp_type ?p = (if snd r = None then RR else SR)"
    by (simp_all add: report_made_def report_bytes_header)
  note hf = header_fields [OF assms d(1)]
  have count: "GetReceptionReportCount ?p = Inr (length bs)"
    unfolding GetReceptionReportCount_def hf(1) using d(2) rtcp_count_fields(3) [OF assms] by simp
  have word: "field32 (4 + i) ?p = rd32 (header_of r @ concat (map block_bytes bs)) i" for i
    unfolding field32_def d(1) using d(2) rd32_skip [of ?h _ i] by simp
  have blocks: "block_read ?p i (bs ! i)" if "i < length bs" for i
  proof -
    have i: "i < length bs" by (rule that)
    have "rtcp_data ?p = (?h @ header_of r) @ concat (map block_bytes bs)" using d(1) by simp
    then obtain xs ys where xs: "rtcp_data ?p = xs @ block_bytes (bs ! i) @ ys" "length xs = length (?h @ header_of r) + i * 24"
      by (rule block_at [OF _ i])
    show ?thesis by (rule block_read_at [OF d(2) xs(1)]) (simp add: xs(2) GotoReport_def d(3) header_length)
  qed
  have "GetSenderSSRC ?p = Inr (fst r)"
    using word [of 0] rd32_hton [of "fst r"] by (simp add: GetSenderSSRC_def header_of_def)
  moreover have "case snd r of None \<Rightarrow> True | Some (ntp, ts, pc, oc) \<Rightarrow> GetNTPTimestamp ?p = Inr ntp \<and> GetRTPTimestamp ?p = Inr ts \<and>
        GetSenderPacketCount ?p = Inr pc \<and> GetSenderOctetCount ?p = Inr oc"
    using word [of 4] word [of 8] word [of 12] word [of 16] word [of 20]
    by (auto simp: GetNTPTimestamp_def GetRTPTimestamp_def GetSenderPacketCount_def GetSenderOctetCount_def header_of_def
        hton32_def rd32_def rd_def ntoh_hton32 split: option.split)
  ultimately show ?thesis using count blocks d(3) by (simp add: report_read_def)
qed

subsection \<open>Reading BYE and APP packets\<close>

definition bye_read :: "rtcp_packet \<Rightarrow> u32 list \<times> byte list \<Rightarrow> bool" where
  "bye_read p y \<longleftrightarrow> rtcp_type p = BYE \<and> GetSSRCCount p = Inr (length (fst y)) \<and>
     (\<forall>i < length (fst y). bye_GetSSRC i p = Inr (fst y ! i)) \<and> reason_of p = Inr (snd y)"

lemma bye_made_read: "bye_ok (ks, r) \<Longrightarrow> bye_read (bye_made ks r) (ks, r)"
  using bye_getters [of ks r "bye_made ks r"] by (simp add: bye_ok_def bye_read_def bye_made_def known_def)

definition app_read :: "rtcp_packet \<Rightarrow> byte \<times> u32 \<times> byte list \<times> byte list \<Rightarrow> bool" where
  "app_read p a \<longleftrightarrow> (case a of (st, k, nm, d) \<Rightarrow>
     rtcp_type p = APP \<and> GetSubType p = Inr (unat st) \<and> app_GetSSRC p = Inr k \<and>
     (\<exists>i. GetName p = Some i \<and> memcpy_from (rtcp_data p) i 4 = Inr nm) \<and> GetAPPDataLength p = Inr (length d) \<and>
     (if d = [] then GetAPPData p = Inr None
      else \<exists>i. GetAPPData p = Inr (Some i) \<and> memcpy_from (rtcp_data p) i (length d) = Inr d))"

lemma app_made_read:
  assumes "app_ok (st, k, nm, d)"
  shows "app_read (app_made st k nm d) (st, k, nm, d)"
proof -
  define p where "p = app_made st k nm d"
  let ?h = "common_header (unat st) RTP_RTCPTYPE_APP (length d div 4 + 2)"
  have st: "unat st < 32" and nm: "length nm = 4" using assms by (simp_all add: app_ok_def)
  have p: "rtcp_data p = ?h @ hton32 k @ nm @ d" "knownformat p" "rtcp_type p = APP" "appdatalen p = Some (length d)"
    by (simp_all add: p_def app_made_def app_packet_def)
  have "GetSubType p = Inr (unat st)"
    unfolding GetSubType_def header_fields(1) [OF st p(1)] using p(2) rtcp_count_fields(3) [OF st] by simp
  moreover have "app_GetSSRC p = Inr k"
    using rd32_skip [of ?h "hton32 k @ nm @ d" 0] by (simp add: app_GetSSRC_def field32_def p rd32_hton)
  moreover have "GetAPPData p = Inr (if d = [] then None else Some 12)" by (simp add: GetAPPData_def p)
  ultimately have "app_read p (st, k, nm, d)"
    using p nm by (simp add: app_read_def GetName_def GetAPPDataLength_def memcpy_from_def)
  then show ?thesis by (simp add: p_def)
qed

subsection \<open>Walking through a built SDES packet\<close>

text \<open>What a client sees that goes from item to item and from chunk to chunk, with the packet object afterwards.\<close>

inductive items_read :: "rtcp_packet \<Rightarrow> item list \<Rightarrow> rtcp_packet \<Rightarrow> bool" where
  last_item: "item_id p = Inr i \<Longrightarrow> item_of p = Inr v \<Longrightarrow> GotoNextItem p = Inr (False, q) \<Longrightarrow> items_read p [(i, v)] q"
| next_item: "item_id p = Inr i \<Longrightarrow> item_of p = Inr v \<Longrightarrow> GotoNextItem p = Inr (True, q) \<Longrightarrow> items_read q is q' \<Longrightarrow>
    items_read p ((i, v) # is) q'"

definition chunk_read :: "rtcp_packet \<Rightarrow> u32 \<times> item list \<Rightarrow> rtcp_packet \<Rightarrow> bool" where
  "chunk_read p c q \<longleftrightarrow> GetChunkSSRC p = Inr (fst c) \<and>
     (if snd c = [] then GotoFirstItem p = Inr (False, q) else \<exists>p'. GotoFirstItem p = Inr (True, p') \<and> items_read p' (snd c) q)"

inductive chunks_read :: "rtcp_packet \<Rightarrow> (u32 \<times> item list) list \<Rightarrow> bool" where
  last_chunk: "chunk_read p c q \<Longrightarrow> GotoNextChunk q = Inr (False, q') \<Longrightarrow> chunks_read p [c]"
| next_chunk: "chunk_read p c q \<Longrightarrow> GotoNextChunk q = Inr (True, q') \<Longrightarrow> chunks_read q' cs \<Longrightarrow> chunks_read p (c # cs)"

definition sdes_read :: "rtcp_packet \<Rightarrow> (u32 \<times> item list) list \<Rightarrow> bool" where
  "sdes_read p cs \<longleftrightarrow> rtcp_type p = SDES \<and> (\<exists>q. GotoFirstChunk p = Inr (True, q) \<and> chunks_read q cs)"

lemma items_bytes_Cons: "items_bytes (i # is) = fst i # word_of_nat (length (snd i)) # snd i @ items_bytes is"
  by (simp add: items_bytes_def item_bytes_def)

lemma items_bytes_head:
  assumes "\<forall>i \<in> set is. item_ok i"
  shows "\<exists>x zs. items_bytes is @ 0 # tail = x # zs \<and> (x = 0 \<longleftrightarrow> is = [])"
  using assms by (cases "is") (auto simp: items_bytes_Cons item_ok_def, simp add: items_bytes_def)

lemma item_fields:
  assumes "rtcp_data p = pre @ items_bytes (i # is) @ 0 # tail" "length pre = c + itemoffset p" "\<forall>j \<in> set (i # is). item_ok j"
    and "knownformat p" "currentchunk p = Some c"
  shows "item_id p = Inr (fst i)" "item_of p = Inr (snd i)"
    "GotoNextItem p = Inr (is \<noteq> [], if is = [] then p else p\<lparr>itemoffset := itemoffset p + 2 + length (snd i)\<rparr>)"
proof -
  let ?d = "rtcp_data p" and ?v = "length (snd i)"
  obtain x zs where x: "items_bytes is @ 0 # tail = x # zs" "x = 0 \<longleftrightarrow> is = []" using items_bytes_head [of "is" tail] assms(3) by auto
  have ok: "fst i \<noteq> 0" "item_ok i" using assms(3) by (simp_all add: item_ok_def)
  have d: "?d = pre @ fst i # word_of_nat ?v # snd i @ x # zs" using assms(1) x(1) by (simp add: items_bytes_Cons)
  have r: "rd ?d (c + itemoffset p) = Inr (fst i)" "rd ?d (c + itemoffset p + 1) = Inr (word_of_nat ?v)"
    using rd_skip [of pre _ 0] rd_skip [of pre _ 1] assms(2) unfolding d by (simp_all add: add.assoc)
  have next_id: "rd ?d (c + (itemoffset p + 2 + ?v)) = Inr x"
  proof -
    have "?d = (pre @ fst i # word_of_nat ?v # snd i) @ x # zs" using d by simp
    then show ?thesis using rd_skip [of "pre @ fst i # word_of_nat ?v # snd i" "x # zs" 0] assms(2) by (simp add: add.assoc add.left_commute add.commute)
  qed
  have v: "memcpy_from ?d (c + itemoffset p + 2) ?v = Inr (snd i)"
    unfolding d using assms(2) by (simp add: memcpy_from_def)
  show id: "item_id p = Inr (fst i)" using r(1) assms(4,5) by (simp add: item_id_def)
  show "item_of p = Inr (snd i)"
    using r(2) v ok assms(5) by (simp add: item_of_def GetItemData_def GetItemLength_def id item_length_unat)
  show "GotoNextItem p = Inr (is \<noteq> [], if is = [] then p else p\<lparr>itemoffset := itemoffset p + 2 + length (snd i)\<rparr>)"
    using r next_id x(2) ok assms(4,5) by (simp add: GotoNextItem_def Let_def item_length_unat add.assoc)
qed

lemma items_walk:
  assumes "rtcp_data p = pre @ items_bytes is @ 0 # tail" "length pre = c + itemoffset p" "\<forall>i \<in> set is. item_ok i"
    and "knownformat p" "currentchunk p = Some c" "is \<noteq> []"
  shows "\<exists>off. items_read p is (p\<lparr>itemoffset := off\<rparr>)"
  using assms
proof (induction "is" arbitrary: p pre)
  case (Cons i "is")
  note f = item_fields [OF Cons.prems(1-5)]
  obtain k v where i: "i = (k, v)" by fastforce
  show ?case
  proof (cases "is = []")
    case True
    then have "items_read p [(k, v)] p" using f by (intro last_item) (simp_all add: i)
    then show ?thesis using True i by (intro exI [of _ "itemoffset p"]) simp
  next
    case False
    let ?p = "p\<lparr>itemoffset := itemoffset p + 2 + length v\<rparr>"
    have "\<exists>off. items_read ?p is (?p\<lparr>itemoffset := off\<rparr>)"
      by (rule Cons.IH [of ?p "pre @ item_bytes i"]) (use Cons.prems False in \<open>simp_all add: i items_bytes_def item_bytes_simps(2)\<close>)
    then obtain off where "items_read ?p is (p\<lparr>itemoffset := off\<rparr>)" by auto
    then have "items_read p ((k, v) # is) (p\<lparr>itemoffset := off\<rparr>)" using f False by (intro next_item) (simp_all add: i)
    then show ?thesis using i by blast
  qed
qed simp

lemma chunk_end_layout:
  assumes "d = pre @ items_bytes is @ 0 # tail" "length pre = c + off" "\<forall>i \<in> set is. item_ok i"
  shows "chunk_end d c off = Inr (off + length (items_bytes is))"
  using assms
proof (induction "is" arbitrary: pre off)
  case Nil
  then show ?case using rd_skip [of pre "0 # tail" 0] by (subst chunk_end.simps) (simp add: items_bytes_def)
next
  case (Cons i "is")
  have ok: "fst i \<noteq> 0" "item_ok i" using Cons.prems(3) by (simp_all add: item_ok_def)
  have d: "d = pre @ fst i # word_of_nat (length (snd i)) # snd i @ items_bytes is @ 0 # tail"
    using Cons.prems(1) by (simp add: items_bytes_Cons)
  have r: "rd d (c + off) = Inr (fst i)" "rd d (c + off + 1) = Inr (word_of_nat (length (snd i)))"
    using rd_skip [of pre _ 0] rd_skip [of pre _ 1] Cons.prems(2) unfolding d by (simp_all add: add.assoc)
  have "chunk_end d c (off + 2 + length (snd i)) = Inr (off + 2 + length (snd i) + length (items_bytes is))"
    by (rule Cons.IH [of "pre @ item_bytes i"]) (use Cons.prems in \<open>simp_all add: items_bytes_def item_bytes_simps(2)\<close>)
  then show ?case using r ok by (subst chunk_end.simps) (simp add: item_length_unat items_bytes_Cons)
qed

lemma chunk_walk:
  assumes "rtcp_data p = pre @ chunk_bytes x @ tail" "length pre = c" "\<forall>i \<in> set (snd x). item_ok i"
    and "knownformat p" "currentchunk p = Some c"
  shows "\<exists>off. chunk_read p x (p\<lparr>itemoffset := off\<rparr>)"
    "chunk_end (rtcp_data p) c 4 = Inr (4 + length (items_bytes (snd x)))"
proof -
  let ?zs = "replicate (align4 (length (items_bytes (snd x)) + 1) - (length (items_bytes (snd x)) + 1)) 0 @ tail"
  have d: "rtcp_data p = (pre @ hton32 (fst x)) @ items_bytes (snd x) @ 0 # ?zs" using assms(1) by (simp add: chunk_bytes_def)
  show "chunk_end (rtcp_data p) c 4 = Inr (4 + length (items_bytes (snd x)))"
    by (rule chunk_end_layout [OF d]) (use assms(2,3) in simp_all)
  have "rd32 (rtcp_data p) c = Inr (fst x)"
    using rd32_skip [of pre "hton32 (fst x) @ items_bytes (snd x) @ 0 # ?zs" 0] assms(2) unfolding d by (simp add: rd32_hton)
  then have ssrc: "GetChunkSSRC p = Inr (fst x)" using assms(4,5) by (simp add: GetChunkSSRC_def)
  let ?p = "p\<lparr>itemoffset := 4\<rparr>"
  obtain y zs where y: "items_bytes (snd x) @ 0 # ?zs = y # zs" "y = 0 \<longleftrightarrow> snd x = []" using items_bytes_head [OF assms(3)] by blast
  have "rd (rtcp_data p) (c + 4) = Inr y"
    using rd_skip [of "pre @ hton32 (fst x)" "y # zs" 0] assms(2) unfolding d y(1) by simp
  then have first: "GotoFirstItem p = Inr (snd x \<noteq> [], ?p)" using y(2) assms(4,5) by (simp add: GotoFirstItem_def)
  show "\<exists>off. chunk_read p x (p\<lparr>itemoffset := off\<rparr>)"
  proof (cases "snd x = []")
    case True
    then show ?thesis using ssrc first by (intro exI [of _ 4]) (simp add: chunk_read_def)
  next
    case False
    have "\<exists>off. items_read ?p (snd x) (?p\<lparr>itemoffset := off\<rparr>)"
      by (rule items_walk [of _ "pre @ hton32 (fst x)" _ ?zs c]) (use d assms False in simp_all)
    then show ?thesis using ssrc first False by (auto simp: chunk_read_def)
  qed
qed

lemma GetChunkCount_walk [simp]:
  "GetChunkCount (p\<lparr>itemoffset := i\<rparr>) = GetChunkCount p" "GetChunkCount (p\<lparr>currentchunk := c\<rparr>) = GetChunkCount p"
  "GetChunkCount (p\<lparr>curchunknum := k\<rparr>) = GetChunkCount p"
  by (simp_all add: GetChunkCount_def)

lemma chunks_walk:
  assumes "rtcp_data p = pre @ concat (map chunk_bytes cs)" "\<forall>x \<in> set cs. \<forall>i \<in> set (snd x). item_ok i"
    and "knownformat p" "currentchunk p = Some (length pre)" "GetChunkCount p = Inr n" "curchunknum p + length cs = n + 1" "cs \<noteq> []"
  shows "chunks_read p cs"
  using assms
proof (induction cs arbitrary: p pre)
  case (Cons x cs)
  have d: "rtcp_data p = pre @ chunk_bytes x @ concat (map chunk_bytes cs)" using Cons.prems(1) by simp
  have ok: "\<forall>i \<in> set (snd x). item_ok i" using Cons.prems(2) by simp
  note w = chunk_walk [OF d refl ok Cons.prems(3,4)]
  obtain off where off: "chunk_read p x (p\<lparr>itemoffset := off\<rparr>)" using w(1) by blast
  let ?q = "p\<lparr>itemoffset := off\<rparr>"
  have count: "GetChunkCount ?q = Inr n" using Cons.prems(5) by simp
  show ?case
  proof (cases "cs = []")
    case True
    then have "GotoNextChunk ?q = Inr (False, ?q)" using count Cons.prems(3,4,6) by (simp add: GotoNextChunk_def)
    then show ?thesis using off True by (auto intro: last_chunk)
  next
    case False
    let ?n = "length (items_bytes (snd x)) + 1"
    have len: "align4 (4 + length (items_bytes (snd x)) + 1) = length (chunk_bytes x)"
      using align4_add [of 4 ?n] by (simp add: chunk_bytes_length add.assoc)
    let ?q' = "?q\<lparr>currentchunk := Some (length pre + length (chunk_bytes x)), curchunknum := curchunknum p + 1, itemoffset := 4\<rparr>"
    have "curchunknum p \<noteq> n" using Cons.prems(6) False by (cases cs) auto
    then have "GotoNextChunk ?q = Inr (True, ?q')"
      using count Cons.prems(3,4) w(2) by (simp only: GotoNextChunk_def) (simp add: len [simplified])
    moreover have "chunks_read ?q' cs"
      by (rule Cons.IH [of ?q' "pre @ chunk_bytes x"]) (use Cons.prems False in simp_all)
    ultimately show ?thesis using off by (auto intro: next_chunk)
  qed
qed simp

lemma sdes_made_read:
  assumes "length cs \<le> 31" "cs \<noteq> []" "\<forall>c \<in> set cs. \<forall>i \<in> set (snd c). item_ok i"
  shows "sdes_read (known SDES (sdes_bytes cs)) cs"
proof -
  let ?p = "known SDES (sdes_bytes cs)"
  let ?h = "common_header (length cs) RTP_RTCPTYPE_SDES ((4 + length (concat (map chunk_bytes cs))) div 4 - 1)"
  have n: "length cs < 32" using assms(1) by simp
  have d: "rtcp_data ?p = ?h @ concat (map chunk_bytes cs)" by (simp add: sdes_bytes_def)
  have count: "GetChunkCount ?p = Inr (length cs)"
    unfolding GetChunkCount_def header_fields(1) [OF n d] using rtcp_count_fields(3) [OF n] by simp
  let ?q = "?p\<lparr>currentchunk := Some 4, curchunknum := 1, itemoffset := 4\<rparr>"
  have "chunks_read ?q cs"
    by (rule chunks_walk [of _ ?h _ "length cs"]) (use d assms count in simp_all)
  then show ?thesis using count assms(2) by (simp add: sdes_read_def GotoFirstChunk_def)
qed

end
