(* ===== verification/Rtcp_Roundtrip.thy ===== *)
theory Rtcp_Roundtrip
  imports Rtcp_Reading
begin

section \<open>From the builder to the parser\<close>

text \<open>
  The compound packet as the list of its \<open>entries\<close>: \<open>EndBuild\<close> writes them one after the other, the parser takes
  them apart again, and their fields are the contents that were put in.
\<close>

subsection \<open>The packets of a compound packet\<close>

text \<open>What \<open>EndBuild\<close> writes for given contents: the bytes, the type and the object of each packet.\<close>

type_synonym entry = "byte list \<times> byte \<times> rtcp_packet"

definition report_entry :: "u32 \<times> sender_info option \<Rightarrow> report_block list \<Rightarrow> entry" where
  "report_entry r bs = (report_bytes r bs, if snd r = None then RTP_RTCPTYPE_RR else RTP_RTCPTYPE_SR, report_made r bs)"

definition sdes_entry :: "(u32 \<times> item list) list \<Rightarrow> entry" where
  "sdes_entry cs = (sdes_bytes cs, RTP_RTCPTYPE_SDES, known SDES (sdes_bytes cs))"

definition app_entry :: "byte \<times> u32 \<times> byte list \<times> byte list \<Rightarrow> entry" where
  "app_entry a = (case a of (st, k, nm, d) \<Rightarrow> (app_packet (unat st) k nm d, RTP_RTCPTYPE_APP, app_made st k nm d))"

definition bye_entry :: "u32 list \<times> byte list \<Rightarrow> entry" where
  "bye_entry y = (bye_packet (fst y) (snd y), RTP_RTCPTYPE_BYE, bye_made (fst y) (snd y))"

definition sdes_groups :: "(u32 \<times> item list) list \<Rightarrow> (u32 \<times> item list) list list" where
  "sdes_groups cs = (if cs = [] then [] else groups cs)"

definition entries :: "u32 \<times> sender_info option \<Rightarrow> compound_contents \<Rightarrow> entry list" where
  "entries r c = report_entry r (hd (groups (c_blocks c))) #
     map (report_entry (fst r, None)) (tl (groups (c_blocks c))) @
     map sdes_entry (sdes_groups (c_chunks c)) @ map app_entry (c_apps c) @ map bye_entry (c_byes c)"

lemma groups_map: "groups (map f xs) = map (map f) (groups xs)"
proof (induction xs rule: groups.induct)
  case (1 xs)
  show ?case
  proof (cases "drop 31 xs = []")
    case True
    then show ?thesis by (subst (1 2) groups.simps) (simp add: drop_map take_map)
  next
    case False
    then show ?thesis using 1 [OF False]
      by (subst (1 2) groups.simps) (simp add: drop_map take_map del: drop_eq_Nil)
  qed
qed

lemma header_None: "report_packet False (header_of r) g = report_packet False (header_of (fst r, None)) g"
  by (simp add: report_packet_def header_of_def Let_def)

lemma groups_hd: "hd (groups xs) \<in> set (groups xs)" "set (tl (groups xs)) \<subseteq> set (groups xs)"
  using groups_nonempty [of xs] by (metis list.set_intros(1), metis set_subset_Cons)

lemma groups_not_empty: "xs \<noteq> [] \<Longrightarrow> g \<in> set (groups xs) \<Longrightarrow> g \<noteq> []"
proof (induction xs rule: groups.induct)
  case (1 xs)
  from 1(3) have "g = take 31 xs \<or> drop 31 xs \<noteq> [] \<and> g \<in> set (groups (drop 31 xs))"
    by (subst (asm) groups.simps) (auto split: if_splits)
  then show ?case using 1(1,2) by auto
qed

lemma made_pair: "f d = Inr p \<Longrightarrow> (snd (f, d), made (f, d)) = (d, p)"
  by (simp add: made_def)

definition pair_of :: "entry \<Rightarrow> byte list \<times> rtcp_packet" where
  "pair_of e = (fst e, snd (snd e))"

lemma report_piece:
  assumes "length g \<le> 31"
  shows "report_ctor (snd r \<noteq> None) (report_bytes r g) = Inr (report_made r g)"
  using report_packet_made [of "map block_bytes g" "header_of r" "snd r \<noteq> None"] assms
  by (auto simp: report_bytes_def report_made_def header_length block_length)

lemma all_pieces_entries:
  assumes "represents b c" "c_report c = Some r"
  shows "map (\<lambda>cd. (snd cd, made cd)) (all_pieces b) = map pair_of (entries r c)"
proof -
  let ?pair = "\<lambda>cd. (snd cd, made cd)"
  have rep: "report b = report_of c" "sdessources (sdes b) = map source_of (c_chunks c)"
    "apppackets b = map (\<lambda>(st, k, nm, d). app_packet (unat st) k nm d) (c_apps c)" "\<forall>a \<in> set (c_apps c). app_ok a"
    "byepackets b = map (\<lambda>(ks, r). bye_packet ks r) (c_byes c)" "\<forall>y \<in> set (c_byes c). bye_ok y"
    using assms(1) by (simp_all add: represents_def)
  have items: "\<forall>x \<in> set (c_chunks c). \<forall>i \<in> set (snd x). item_ok i" using assms(1) by (auto simp: represents_def)
  have sr: "isSR (report_of c) = (snd r \<noteq> None)" "headerdata (report_of c) = header_of r"
    by (cases r; simp add: report_of_def assms(2) split: option.split)+
  have reports: "map ?pair (report_pieces (snd r \<noteq> None) (header_of r) (map block_bytes (c_blocks c))) =
      map pair_of (report_entry r (hd (groups (c_blocks c))) # map (report_entry (fst r, None)) (tl (groups (c_blocks c))))"
  proof -
    have hd: "hd (groups (map block_bytes (c_blocks c))) = map block_bytes (hd (groups (c_blocks c)))"
      "tl (groups (map block_bytes (c_blocks c))) = map (map block_bytes) (tl (groups (c_blocks c)))"
      using groups_nonempty [of "c_blocks c"] unfolding groups_map by (metis list.map_sel(1) list.distinct(1), metis map_tl)
    have "made (report_ctor (snd r \<noteq> None), report_bytes r (hd (groups (c_blocks c)))) = report_made r (hd (groups (c_blocks c)))"
      using report_piece [OF groups_bound [OF groups_hd(1)], of r] by (simp add: made_def)
    moreover have "made (report_ctor False, report_bytes (fst r, None) g) = report_made (fst r, None) g" if "g \<in> set (tl (groups (c_blocks c)))" for g
      using report_piece [of g "(fst r, None)"] groups_bound groups_hd(2) that by (fastforce simp: made_def)
    moreover have "report_packet False (header_of r) (map block_bytes g) = report_bytes (fst r, None) g" for g
      unfolding header_None [of r] by (simp add: report_bytes_def)
    moreover have "report_packet (snd r \<noteq> None) (header_of r) (map block_bytes g) = report_bytes r g" for g
      by (simp add: report_bytes_def)
    ultimately show ?thesis
      by (simp add: report_pieces_def hd report_entry_def pair_of_def del: not_None_eq)
  qed
  have sdes: "map ?pair (if map source_of (c_chunks c) = [] then [] else sdes_pieces (map source_of (c_chunks c))) =
      map pair_of (map sdes_entry (sdes_groups (c_chunks c)))"
  proof (cases "c_chunks c = []")
    case False
    have "made (RTCPSDESPacket, sdes_bytes g) = known SDES (sdes_bytes g)" if "g \<in> set (groups (c_chunks c))" for g
    proof -
      have "\<forall>x \<in> set g. \<forall>i \<in> set (snd x). item_ok i" using groups_members [OF that] items by blast
      then show ?thesis using sdes_packet_made [of g] groups_bound [OF that] groups_not_empty [OF False that] by (simp add: made_def)
    qed
    then show ?thesis using False
      by (simp add: sdes_groups_def sdes_pieces_def groups_map sdes_packet_bytes sdes_entry_def pair_of_def)
  qed (simp add: sdes_groups_def)
  have apps: "map ?pair (map (Pair RTCPAPPPacket) (apppackets b)) = map pair_of (map app_entry (c_apps c))"
    unfolding rep(3) using rep(4) app_packet_made by (auto simp: app_entry_def pair_of_def made_def)
  have byes: "map ?pair (map (Pair RTCPBYEPacket) (byepackets b)) = map pair_of (map bye_entry (c_byes c))"
    unfolding rep(5) using rep(6) bye_packet_made by (auto simp: bye_entry_def pair_of_def made_def)
  show ?thesis
    unfolding all_pieces_def entries_def rep(1,2) report_of_simps sr map_append reports sdes apps byes by simp
qed

lemma parsesI:
  assumes "make_rtcp t d = Inr p" "n < 32" "d = common_header n t ((4 + length body) div 4 - 1) @ body" "length body mod 4 = 0" "length d \<le> 262144"
  shows "parses d t p"
  unfolding parses_def using assms by (intro conjI exI [of _ n] exI [of _ body]) simp_all

lemma report_parses:
  assumes "length bs \<le> 31"
  shows "case report_entry r bs of (d, t, p) \<Rightarrow> parses d t p"
proof -
  have "length (concat (map block_bytes bs)) = 24 * length bs" by (induction bs) (simp_all add: block_length)
  then have "length (header_of r @ concat (map block_bytes bs)) = (if snd r = None then 4 else 24) + 24 * length bs"
    by (simp add: header_length)
  moreover from this have "length (report_bytes r bs) \<le> 262144" unfolding report_bytes_header using assms by simp
  ultimately show ?thesis unfolding report_entry_def prod.case
    by (intro parsesI [OF _ _ report_bytes_header])
      (use report_piece [OF assms, of r] assms in \<open>auto simp: make_rtcp_def report_ctor_def mod_simps split: if_splits\<close>)
qed

lemma app_parses: "app_ok a \<Longrightarrow> case app_entry a of (d, t, p) \<Rightarrow> parses d t p"
proof -
  assume ok: "app_ok a"
  obtain st k nm d where a: "a = (st, k, nm, d)" by (cases a)
  have d: "unat st < 32" "length nm = 4" "length d mod 4 = 0" "length d div 4 + 2 \<le> 65535" using ok by (simp_all add: a app_ok_def)
  have w: "length d div 4 + 2 = (4 + length (hton32 k @ nm @ d)) div 4 - 1" using d(2) by simp
  have "make_rtcp RTP_RTCPTYPE_APP (app_packet (unat st) k nm d) = Inr (app_made st k nm d)"
    using app_packet_made [of st k nm d] ok by (simp add: a make_rtcp_def)
  moreover have "length d = length d div 4 * 4" using d(3) by (metis mod_0_imp_dvd dvd_div_mult_self)
  then have "length d \<le> 262132" using d(4) by linarith
  then have "length (app_packet (unat st) k nm d) \<le> 262144" using d(2) by (simp add: app_packet_def)
  moreover have "(8 + length d) mod 4 = 0" using d(3) by presburger
  ultimately show ?thesis unfolding a app_entry_def prod.case
    using parsesI [OF _ d(1), of RTP_RTCPTYPE_APP "app_packet (unat st) k nm d" "app_made st k nm d" "hton32 k @ nm @ d"] d(2,3) w
    by (simp add: app_packet_def)
qed

lemma bye_parses: "bye_ok y \<Longrightarrow> case bye_entry y of (d, t, p) \<Rightarrow> parses d t p"
proof -
  assume ok: "bye_ok y"
  obtain ks r where y: "y = (ks, r)" by fastforce
  have n: "length ks < 32" "length r < 256" using ok by (simp_all add: y bye_ok_def)
  let ?body = "bye_body ks r"
  have w: "(4 + length ?body) div 4 - 1 = length ?body div 4" by simp
  have d: "bye_packet ks r = common_header (length ks) RTP_RTCPTYPE_BYE ((4 + length ?body) div 4 - 1) @ ?body"
    unfolding bye_packet_bye_bytes [OF n(1)] w by (simp only: bye_bytes_def common_header_count [OF n(1)] append_assoc)
  have "length (bye_packet ks r) \<le> 262144" unfolding bye_packet_bye_bytes [OF n(1)] bye_length using n align4_bounds(2) [of "1 + length r"] by simp
  moreover have "make_rtcp RTP_RTCPTYPE_BYE (bye_packet ks r) = Inr (bye_made ks r)"
    using bye_packet_made [of ks r] ok by (simp add: y make_rtcp_def)
  ultimately show ?thesis unfolding y bye_entry_def fst_conv snd_conv prod.case
    by (intro parsesI [OF _ n(1) d]) (simp_all add: bye_body_mult)
qed

lemma sdes_parses:
  assumes "length cs \<le> 31" "cs \<noteq> []" "\<forall>c \<in> set cs. \<forall>i \<in> set (snd c). item_ok i" "length (sdes_bytes cs) \<le> 262144"
  shows "case sdes_entry cs of (d, t, p) \<Rightarrow> parses d t p"
proof -
  have "length (concat (map chunk_bytes xs)) mod 4 = 0" for xs
  proof (induction xs)
    case (Cons x xs)
    moreover have "length (chunk_bytes x) mod 4 = 0" using align4_mult by (simp add: chunk_bytes_length)
    ultimately show ?case by (simp add: mod_simps) presburger
  qed simp
  then show ?thesis unfolding sdes_entry_def prod.case
    by (intro parsesI [OF _ _ sdes_bytes_def]) (use sdes_packet_made [OF assms(1-3)] assms in \<open>simp_all add: make_rtcp_def\<close>)
qed

lemma entries_parse:
  assumes "represents b c" "c_report c = Some r" "length (concat (map fst (entries r c))) \<le> 262144"
  shows "\<forall>(d, t, p) \<in> set (entries r c). parses d t p"
proof
  fix e assume e: "e \<in> set (entries r c)"
  have items: "\<forall>x \<in> set (c_chunks c). \<forall>i \<in> set (snd x). item_ok i" using assms(1) by (auto simp: represents_def)
  have ok: "\<forall>a \<in> set (c_apps c). app_ok a" "\<forall>y \<in> set (c_byes c). bye_ok y" using assms(1) by (simp_all add: represents_def)
  have len: "length (fst e) \<le> 262144"
    using assms(3) e by (auto dest!: split_list)
  have "(\<exists>s. \<exists>g \<in> set (groups (c_blocks c)). e = report_entry s g) \<or> c_chunks c \<noteq> [] \<and> e \<in> sdes_entry ` set (groups (c_chunks c)) \<or>
      e \<in> app_entry ` set (c_apps c) \<or> e \<in> bye_entry ` set (c_byes c)"
    using e groups_hd [of "c_blocks c"] unfolding entries_def sdes_groups_def
    by (auto split: if_splits simp del: split_paired_Ex)
  then consider (rep) s g where "e = report_entry s g" "g \<in> set (groups (c_blocks c))"
    | (sdes) g where "e = sdes_entry g" "g \<in> set (groups (c_chunks c))" "c_chunks c \<noteq> []"
    | (app) a where "e = app_entry a" "a \<in> set (c_apps c)" | (bye) y where "e = bye_entry y" "y \<in> set (c_byes c)"
    by blast
  then show "case e of (d, t, p) \<Rightarrow> parses d t p"
  proof cases
    case rep
    show ?thesis unfolding rep(1) by (rule report_parses [OF groups_bound [OF rep(2)]])
  next
    case sdes
    have "\<forall>x \<in> set g. \<forall>i \<in> set (snd x). item_ok i" using groups_members [OF sdes(2)] items by blast
    from sdes_parses [OF groups_bound [OF sdes(2)] groups_not_empty [OF sdes(3,2)] this] show ?thesis
      using len sdes(1) by (simp add: sdes_entry_def)
  next
    case app
    show ?thesis unfolding app(1) by (rule app_parses) (use ok(1) app(2) in blast)
  next
    case bye
    show ?thesis unfolding bye(1) by (rule bye_parses) (use ok(2) bye(2) in blast)
  qed
qed

lemma entries_total:
  assumes "represents b c" "c_report c = Some r"
  shows "concat (map snd (all_pieces b)) = concat (map fst (entries r c))" "map made (all_pieces b) = map (\<lambda>(d, t, p). p) (entries r c)"
proof -
  note e = all_pieces_entries [OF assms]
  have "map fst (map (\<lambda>cd. (snd cd, made cd)) (all_pieces b)) = map snd (all_pieces b)"
    "map snd (map (\<lambda>cd. (snd cd, made cd)) (all_pieces b)) = map made (all_pieces b)" by (simp_all add: comp_def)
  then show "concat (map snd (all_pieces b)) = concat (map fst (entries r c))" "map made (all_pieces b) = map (\<lambda>(d, t, p). p) (entries r c)"
    unfolding e by (simp_all add: pair_of_def comp_def case_prod_unfold)
qed

text \<open>The packets of a compound packet, read with the getters, give the contents back.\<close>

definition reads :: "rtcp_packet list \<Rightarrow> u32 \<times> sender_info option \<Rightarrow> compound_contents \<Rightarrow> bool" where
  "reads ps r c \<longleftrightarrow> (\<exists>rep reps sdess apps byes bs bss css.
     ps = rep # reps @ sdess @ apps @ byes \<and>
     c_blocks c = bs @ concat bss \<and> report_read rep r bs \<and> list_all2 (\<lambda>p. report_read p (fst r, None)) reps bss \<and>
     c_chunks c = concat css \<and> list_all2 sdes_read sdess css \<and>
     list_all2 app_read apps (c_apps c) \<and> list_all2 bye_read byes (c_byes c))"

lemma readsI:
  assumes "ps = rep # reps @ sdess @ apps @ byes" "c_blocks c = bs @ concat bss" "report_read rep r bs"
    "list_all2 (\<lambda>p. report_read p (fst r, None)) reps bss" "c_chunks c = concat css" "list_all2 sdes_read sdess css"
    "list_all2 app_read apps (c_apps c)" "list_all2 bye_read byes (c_byes c)"
  shows "reads ps r c"
  using assms unfolding reads_def by blast

lemma list_all2_made: "\<forall>x \<in> set xs. P (f x) x \<Longrightarrow> list_all2 P (map f xs) xs"
  by (induction xs) auto

lemma entries_read:
  assumes "represents b c" "c_report c = Some r"
  shows "reads (map (\<lambda>(d, t, p). p) (entries r c)) r c"
proof -
  let ?gs = "groups (c_blocks c)"
  let ?made = "\<lambda>e. snd (snd e)"
  have items: "\<forall>x \<in> set (c_chunks c). \<forall>i \<in> set (snd x). item_ok i" using assms(1) by (auto simp: represents_def)
  have ok: "\<forall>a \<in> set (c_apps c). app_ok a" "\<forall>y \<in> set (c_byes c). bye_ok y" using assms(1) by (simp_all add: represents_def)
  have "report_read (?made (report_entry s g)) s g" if "g \<in> set ?gs" for s g
    using report_made_read [of g s] groups_bound [OF that] by (simp add: report_entry_def)
  then have reps: "report_read (?made (report_entry r (hd ?gs))) r (hd ?gs)"
    "list_all2 (\<lambda>p. report_read p (fst r, None)) (map (\<lambda>g. ?made (report_entry (fst r, None) g)) (tl ?gs)) (tl ?gs)"
    using groups_hd [of "c_blocks c"] by (auto intro!: list_all2_made)
  have "sdes_read (?made (sdes_entry g)) g" if "g \<in> set (sdes_groups (c_chunks c))" for g
  proof -
    have g: "g \<in> set (groups (c_chunks c))" "c_chunks c \<noteq> []" using that by (simp_all add: sdes_groups_def split: if_splits)
    have "\<forall>x \<in> set g. \<forall>i \<in> set (snd x). item_ok i" using groups_members [OF g(1)] items by blast
    from sdes_made_read [OF groups_bound [OF g(1)] groups_not_empty [OF g(2,1)] this] show ?thesis by (simp add: sdes_entry_def)
  qed
  then have sdess: "list_all2 sdes_read (map (\<lambda>g. ?made (sdes_entry g)) (sdes_groups (c_chunks c))) (sdes_groups (c_chunks c))"
    by (intro list_all2_made) blast
  have "app_read (?made (app_entry a)) a" if "a \<in> set (c_apps c)" for a
  proof -
    obtain st k nm d where a: "a = (st, k, nm, d)" by (cases a)
    have "app_ok (st, k, nm, d)" using that ok(1) a by blast
    then show ?thesis by (simp add: a app_entry_def app_made_read)
  qed
  then have apps: "list_all2 app_read (map (\<lambda>a. ?made (app_entry a)) (c_apps c)) (c_apps c)" by (intro list_all2_made) blast
  have "bye_read (?made (bye_entry y)) y" if "y \<in> set (c_byes c)" for y
    using that ok(2) bye_made_read [of "fst y" "snd y"] by (auto simp: bye_entry_def)
  then have byes: "list_all2 bye_read (map (\<lambda>y. ?made (bye_entry y)) (c_byes c)) (c_byes c)" by (intro list_all2_made) blast
  have ps: "map (\<lambda>(d, t, p). p) (entries r c) = ?made (report_entry r (hd ?gs)) # map (\<lambda>g. ?made (report_entry (fst r, None) g)) (tl ?gs) @
      map (\<lambda>g. ?made (sdes_entry g)) (sdes_groups (c_chunks c)) @ map (\<lambda>a. ?made (app_entry a)) (c_apps c) @
      map (\<lambda>y. ?made (bye_entry y)) (c_byes c)"
    by (simp add: entries_def case_prod_unfold comp_def)
  have bl: "c_blocks c = hd ?gs @ concat (tl ?gs)"
    using groups_concat [of "c_blocks c"] groups_nonempty [of "c_blocks c"] by (metis concat.simps(2))
  have ch: "c_chunks c = concat (sdes_groups (c_chunks c))" by (simp add: sdes_groups_def groups_concat)
  show ?thesis by (rule readsI [OF ps bl reps ch sdess apps byes])
qed

lemma EndBuild_done:
  assumes "represents b c" "EndBuild b = Inr (0, b')"
  obtains r where "c_report c = Some r" "compoundpacket b' = Some (concat (map fst (entries r c)))"
    "rtcppacklist b' = map (\<lambda>(d, t, p). p) (entries r c)" "compoundpacketlength b' = length (concat (map fst (entries r c)))"
proof -
  have "c_report c \<noteq> None"
  proof
    assume "c_report c = None"
    then have "headerlength (report b) = 0" using assms(1) by (simp add: represents_def headerlength_of)
    then show False using assms(2) by (auto simp: EndBuild_def split: if_splits)
  qed
  then obtain r where r: "c_report c = Some r" by blast
  have "length (concat (map snd (all_pieces b))) = needed_bytes b"
    using all_pieces_total [OF assms(1)] r by (simp add: total_def length_concat comp_def)
  then show ?thesis
    using that [OF r] EndBuild_run [OF assms(1)] assms(2) r entries_total [OF assms(1) r]
    by (auto simp: ClearBuildBuffers_def split: if_splits)
qed

subsection \<open>The properties\<close>

text \<open>C40: The builder knows the size of what it builds: \<open>EndBuild\<close> writes exactly \<open>needed_bytes\<close>, so a packet in its own
  buffer always succeeds, and one in a buffer of the caller overruns it exactly if the buffer is smaller. The checks of the calls
  keep the size within 40 bytes of the maximum, and no better: neither the first SDES source nor a report after it is checked properly.\<close>

theorem EndBuild_size:
  assumes "building b c"
  shows "needed_bytes b \<le> maximumpacketsize b + 40 \<and>
    (if c_report c = None then EndBuild b = Inr (ERR_RTP_RTCPCOMPPACKBUILDER_NOREPORTPRESENT, b)
     else if \<exists>n. buffer b = Some n \<and> n < needed_bytes b then EndBuild b = Inl Overrun
     else \<exists>b' out. EndBuild b = Inr (0, b') \<and> compoundpacket b' = Some out \<and> length out = needed_bytes b \<and>
       compoundpacketlength b' = needed_bytes b)"
proof -
  note r = building_represents [OF assms]
  have "needed_bytes b \<le> maximumpacketsize b + 40" using r by (auto simp: represents_def split: if_splits)
  moreover have "c_report c = None \<Longrightarrow> EndBuild b = Inr (ERR_RTP_RTCPCOMPPACKBUILDER_NOREPORTPRESENT, b)"
    using r by (simp add: EndBuild_def represents_def headerlength_of)
  moreover have "c_report c \<noteq> None \<Longrightarrow> length (concat (map snd (all_pieces b))) = needed_bytes b"
    using all_pieces_total [OF r] by (simp add: total_def length_concat comp_def)
  ultimately show ?thesis using EndBuild_run [OF r] by (auto simp: ClearBuildBuffers_def)
qed

definition succeeds :: "(ub + int \<times> compound_builder) \<Rightarrow> bool" where
  "succeeds m = (case m of Inr (s, b) \<Rightarrow> s = 0 | Inl e \<Rightarrow> False)"

definition after :: "(ub + int \<times> compound_builder) \<Rightarrow> compound_builder" where
  "after m = snd (projr m)"

lemma succeeds_after: "succeeds m \<Longrightarrow> m = Inr (0, after m)"
  by (auto simp: succeeds_def after_def split: sum.splits)

text \<open>A buffer of 600 bytes, filled by an APP packet; the source and the report are accepted none the less.\<close>

definition full_builder :: compound_builder where
  "full_builder = after (AddAPPPacket 0 7 [1, 2, 3, 4] (replicate 588 0) 588 (snd (InitBuild_external 600 600 new_builder)))"

definition overfull_builder :: compound_builder where
  "overfull_builder = snd (StartSenderReport 7 (0, 0) 0 0 0 (snd (AddSDESSource 7 full_builder)))"

lemmas sizes = sdes_NeededBytes_def NeededBytesWithExtraSource_def report_NeededBytes_def headerlength_def packets_for_def
  source_NeededBytes_def align4_def

lemma full_builder_state:
  "AddAPPPacket 0 7 [1, 2, 3, 4] (replicate 588 0) 588 (snd (InitBuild_external 600 600 new_builder)) = Inr (0, full_builder)"
  "full_builder = \<lparr>maximumpacketsize = 600, buffer = Some 600, arebuilding = True, report = no_report, sdes = no_sdes,
      byepackets = [], byesize = 0, apppackets = [app_packet 0 7 [1, 2, 3, 4] (replicate 588 0)], appsize = 600,
      compoundpacket = None, compoundpacketlength = 0, rtcppacklist = []\<rparr>"
  by (simp_all add: full_builder_def after_def AddAPPPacket_def builder_defs RTP_MINPACKETSIZE_def sizes memcpy_from_def)

lemma overfull_builder_state:
  "AddSDESSource 7 full_builder = (0, snd (AddSDESSource 7 full_builder))"
  "StartSenderReport 7 (0, 0) 0 0 0 (snd (AddSDESSource 7 full_builder)) = (0, overfull_builder)"
  "needed_bytes overfull_builder = 640" "buffer overfull_builder = Some 600" "maximumpacketsize overfull_builder = 600"
  unfolding overfull_builder_def full_builder_state(2)
  by (simp_all add: AddSDESSource_def StartSenderReport_def AddSSRC_def sizeleft_def needed_bytes_def new_sdes_source_def no_report_def
      no_sdes_def sizes)

lemma overfull_builder_building:
  "\<exists>c. building overfull_builder c \<and> c_report c \<noteq> None"
proof -
  have "building (snd (InitBuild_external 600 600 new_builder)) no_contents"
    by (rule init_callers [of 600 600]) (simp add: InitBuild_external_def new_builder_def RTP_MINPACKETSIZE_def)
  from add_sender_report [OF add_source [OF add_app [OF this full_builder_state(1)] overfull_builder_state(1)] overfull_builder_state(2)]
  show ?thesis by (intro exI conjI) (assumption, simp)
qed

theorem EndBuild_size_witness:
  "\<exists>c. building overfull_builder c \<and> needed_bytes overfull_builder = maximumpacketsize overfull_builder + 40 \<and>
     EndBuild overfull_builder = Inl Overrun"
proof -
  obtain c where c: "building overfull_builder c" "c_report c \<noteq> None" using overfull_builder_building by blast
  show ?thesis using EndBuild_size [OF c(1)] c overfull_builder_state(3-5) by (intro exI [of _ c]) simp
qed

text \<open>C39: What is built is parsed back: the bytes of a finished compound packet of up to 262144 bytes are taken apart by
  \<open>RTCPCompoundPacket\<close> into the very packets the builder holds, and their getters return, in order, the sender and its
  information, every report block, every SDES chunk with its items, and every APP and BYE packet that was added.\<close>

theorem compound_roundtrip:
  assumes "building b c" "EndBuild b = Inr (0, b')" "compoundpacketlength b' \<le> 262144"
  shows "\<exists>r out. c_report c = Some r \<and> compoundpacket b' = Some out \<and> length out = compoundpacketlength b' \<and>
    ParseData out = Inr (Some (rtcppacklist b')) \<and> reads (rtcppacklist b') r c"
proof -
  note rep = building_represents [OF assms(1)]
  obtain r where r: "c_report c = Some r" "compoundpacket b' = Some (concat (map fst (entries r c)))"
    "rtcppacklist b' = map (\<lambda>(d, t, p). p) (entries r c)" "compoundpacketlength b' = length (concat (map fst (entries r c)))"
    by (rule EndBuild_done [OF rep assms(2)])
  have "\<forall>(d, t, p) \<in> set (entries r c). parses d t p" by (rule entries_parse [OF rep r(1)]) (use assms(3) r(4) in simp)
  moreover have "fst (snd (hd (entries r c))) = RTP_RTCPTYPE_SR \<or> fst (snd (hd (entries r c))) = RTP_RTCPTYPE_RR" "entries r c \<noteq> []"
    by (simp_all add: entries_def report_entry_def)
  ultimately have parsed: "parse_packets True (concat (map fst (entries r c))) = Inr (Some (rtcppacklist b'))"
    unfolding r(3) by (intro parse_all) blast+
  have "4 \<le> length (concat (map fst (entries r c)))"
    by (simp add: entries_def report_entry_def report_bytes_header)
  then have "ParseData (concat (map fst (entries r c))) = Inr (Some (rtcppacklist b'))" using parsed by (simp add: ParseData_def)
  then show ?thesis using r entries_read [OF rep r(1)] by auto
qed

text \<open>A small session: a report with one block, a name, a BYE.\<close>

definition sample_block :: report_block where
  "sample_block = \<lparr>rb_ssrc = 9, rb_fraction = 128, rb_lost = - 2, rb_highest = 70000, rb_jitter = 5, rb_lsr = 1, rb_dlsr = 2\<rparr>"

definition sample_1 :: compound_builder where "sample_1 = snd (StartReceiverReport 7 (snd (InitBuild 1400 new_builder)))"
definition sample_2 :: compound_builder where "sample_2 = snd (AddReportBlock 9 128 (- 2) 70000 5 1 2 sample_1)"
definition sample_3 :: compound_builder where "sample_3 = snd (AddSDESSource 7 sample_2)"
definition sample_4 :: compound_builder where "sample_4 = after (AddSDESNormalItem CNAME [97, 98] 2 sample_3)"
definition sample_5 :: compound_builder where "sample_5 = after (AddBYEPacket [7] 1 [98, 121, 101] 3 sample_4)"

lemma sample_steps:
  "InitBuild 1400 new_builder = (0, snd (InitBuild 1400 new_builder))"
  "StartReceiverReport 7 (snd (InitBuild 1400 new_builder)) = (0, sample_1)"
  "AddReportBlock 9 128 (- 2) 70000 5 1 2 sample_1 = (0, sample_2)"
  "AddSDESSource 7 sample_2 = (0, sample_3)"
  "AddSDESNormalItem CNAME [97, 98] 2 sample_3 = Inr (0, sample_4)"
  "AddBYEPacket [7] 1 [98, 121, 101] 3 sample_4 = Inr (0, sample_5)"
  by code_simp+

lemma sample_building:
  "building sample_5 \<lparr>c_report = Some (7, None), c_blocks = [sample_block], c_chunks = [(7, [(1, [97, 98])])], c_apps = [],
     c_byes = [([7], [98, 121, 101])]\<rparr>"
proof -
  have block: "AddReportBlock (rb_ssrc sample_block) (rb_fraction sample_block) (rb_lost sample_block) (rb_highest sample_block)
      (rb_jitter sample_block) (rb_lsr sample_block) (rb_dlsr sample_block) sample_1 = (0, sample_2)"
    using sample_steps(3) by (simp add: sample_block_def)
  from add_bye [OF add_normal_item [OF add_source [OF add_block [OF add_receiver_report [OF init_own [OF sample_steps(1)] sample_steps(2)]
    block] sample_steps(4)] sample_steps(5)] sample_steps(6)]
  show ?thesis by (simp add: no_contents_def add_to_last_def sdes_item_id_def)
qed

lemma sample_built: "\<exists>b'. EndBuild sample_5 = Inr (0, b') \<and> compoundpacketlength b' = 60"
proof -
  have "case EndBuild sample_5 of Inr (s, b') \<Rightarrow> s = 0 \<and> compoundpacketlength b' = 60 | Inl e \<Rightarrow> False" by code_simp
  then show ?thesis by (auto split: sum.splits)
qed

theorem compound_roundtrip_witness:
  "\<exists>b' out. EndBuild sample_5 = Inr (0, b') \<and> compoundpacket b' = Some out \<and> length out = 60 \<and>
     ParseData out = Inr (Some (rtcppacklist b'))"
proof -
  obtain b' where b': "EndBuild sample_5 = Inr (0, b')" "compoundpacketlength b' = 60" using sample_built by blast
  from compound_roundtrip [OF sample_building b'(1)] b' show ?thesis by auto
qed

end
