(* ===== verification/Spec2Isabelle.thy ===== *)
theory Spec2Isabelle
  imports Md5_Rfc Tcp_Transmitter Rtsp_Ports Rtsp_Digest Rtsp_Setup Rtsp_Sessions Rtsp_Delivery Rtp_Session_Sources Rtp_Source_Store Rtcp_Roundtrip
begin

text \<open>
  Verification of myRtspClient, an RTSP client library in C++. Paths are relative to \<open>src/\<close>; unless
  said otherwise they are below \<open>myRtspClient/\<close>, with the headers in \<open>include/\<close>.

  THE PROGRAM. \<open>RtspClient\<close> connects to a server, directly or through an HTTP tunnel, and runs OPTIONS,
  DESCRIBE, SETUP, PLAY, PAUSE, GET_PARAMETER and TEARDOWN: a request is printed and written, the response
  is read line by line and taken apart with regular expressions, and a 401 is answered with basic or digest
  authentication. The description of DESCRIBE is parsed into \<open>SDPData\<close>, and \<open>ParseSDP\<close> makes one
  \<open>MediaSession\<close> per medium. SETUP gives the session ports, an identifier, a timeout and an RTP session
  (over UDP, or interleaved over the RTSP socket). \<open>GetMediaData\<close> then takes payloads from the RTP session
  and lets the frame object of the medium (H.264, H.265, PCMU, MPEG) put frames together in the buffer
  of the caller. Below it JRTPLIB parses, numbers and queues the RTP packets, takes RTCP datagrams apart, and
  keeps a table of the sources it hears of; a goodbye or a timeout in that table reaches the client through
  the callbacks of the session.

  HOW THE MODEL CORRESPONDS TO THE CODE. One definition per function or method, under the name of the
  source; a class is a record, a method takes and returns it. What is undefined in C++ (a read or write
  outside an object, a null or dangling pointer, an uninitialised variable, a \<open>size_t\<close> that wrapped and is
  used as a length) and a call that never returns are values of \<open>ub\<close>, the left side of the results
  (\<open>Prelude\<close>). Machine integers are words where their width matters; lengths are natural numbers and are
  assumed to fit \<open>size_t\<close>. The environment is data: a socket is a \<open>net\<close>, a script of what \<open>read\<close> and
  \<open>write\<close> do (chunks of any size, errors, silence) with the bytes sent so far; what \<open>socket\<close>,
  \<open>connect\<close>, \<open>bind\<close>, the clock, uninitialised memory and JRTPLIB's session layer answer is in the record
  \<open>os\<close> at the front of the \<open>client\<close>.

  THE THEORIES, with what they model and what they show.

  \<^item> \<open>Prelude\<close>, \<open>Ordered_Map\<close>, \<open>Streams\<close>: undefined behaviour, bytes and C strings, \<open>atoi\<close>,
    \<open>std::map\<close> (locale \<open>std_map\<close>), \<open>std::stringstream\<close> extraction.
  \<^item> \<open>Base64\<close> (\<open>third_party/Base64_live555/Base64.cpp\<close>): decoding undoes encoding (locale \<open>codec\<close>).
    \<open>Md5\<close> (\<open>third_party/md5\<close>): the code, and that a context fed piece by piece does what the block
    transformation does on the whole message. \<open>Rfc1321\<close> is the RFC transcribed without any definition of the
    code; its constants are the integer parts of a sine, which \<open>Sine_Table\<close> computes. \<open>Md5_Rfc\<close>: the two agree.
  \<^item> \<open>Posix_Regex\<close>, \<open>My_Regex\<close> (myRegex.cpp): \<open>regcomp\<close> and \<open>regexec\<close> are modelled by their documented
    meaning, leftmost longest with submatches, by derivatives of languages (locale \<open>regex_engine\<close>); the
    class on top of them. \<open>Regex_Fields\<close>, \<open>Regex_Headers\<close>, \<open>Regex_Sequences\<close>: what the patterns of the
    client take out of a text, for all texts of a shape.
  \<^item> \<open>Net_IO\<close>, \<open>Header_Lines\<close> (utils.cpp): \<open>ReadLine\<close> gives exactly the next line and \<open>Writen\<close> sends
    everything, over any segmentation.
  \<^item> \<open>Sdp_Types\<close>, \<open>Sdp\<close>, \<open>Sdp_Lines\<close>, \<open>Sdp_Proofs\<close> (sdp_data.cpp): the parser, its invariant, its errors,
    and that it works line by line. \<open>Sdp_Attributes\<close>, \<open>Sdp_Parameters\<close>, \<open>Sdp_Media\<close>: what becomes of a
    description printed from a list of media (\<open>medium\<close>, \<open>media_lines\<close>).
  \<^item> \<open>Nalu_Types\<close>, \<open>Nalu_H264\<close>, \<open>Nalu_H265\<close>, \<open>Frame_Types\<close>: the NAL unit types, the type tables and the
    frame objects. \<open>Depacketizer\<close> states the contract of the receive loop with them (locale \<open>depacketizer\<close>,
    function \<open>frame_of\<close>); FU-A and FU fragments make the original unit again, and no frame object, in any state
    its methods lead to (\<open>frame_reach\<close>), misbehaves on payloads of three bytes or more.
  \<^item> \<open>Tcp_Transmitter\<close> (myTCPTransmitter.cpp): the state machine for interleaved frames and the sender.
  \<^item> \<open>Rtp_Packet\<close>, \<open>Rtp_Source\<close>, \<open>Rtp_Ordering\<close> (\<open>third_party/JRTPLIB/src\<close>: rtppacket.cpp,
    rtpsourcedata.cpp, rtpinternalsourcedata.cpp): what is built is parsed back; parsing stays inside the
    packet but for one read; sequence numbers are extended to their true value; the queue is sorted, and the
    packets come out in order whatever the order they came in; probation ends with three packets in sequence.
  \<^item> \<open>Rtcp_Packet\<close>, \<open>Rtcp_Parsing\<close> (rtcpcompoundpacket.cpp and the classes of its packets): no datagram makes
    the parser read outside it, and every getter can be called on what it accepts.
  \<^item> \<open>Rtp_Sources\<close> (rtpsources.cpp): the table of sources, its counters and timeouts, and the callbacks as a list
    of events. \<open>Rtp_Table\<close> states as the locale \<open>table_steps\<close> what a relation between tables needs so that every
    operation respects it; \<open>Rtp_Table_Invariant\<close> and \<open>Rtp_Table_Safety\<close> interpret it three times: the invariant of
    the counters (\<open>tab\<close>), a current element that is in the table (\<open>cur\<close>), and a source that packets from other
    addresses leave alone (\<open>far\<close>). Any sequence of datagrams is processed without undefined behaviour.
  \<^item> \<open>Rtp_Session_Sources\<close> (rtpsessionsources.cpp, myRtpSession.h): from the bytes of a goodbye, or from the time
    a source has been silent, to the flags the waiting loops of the client read.
  \<^item> \<open>Key_Hash_Table\<close> (rtpkeyhashtable.h): buckets, chains and the list on a heap of cells, with freed cells as
    undefined behaviour; any run of operations does what a list of keys does. \<open>Rtp_Source_Store\<close>: the
    primitives of \<open>Rtp_Sources\<close> are operations of this table.
  \<^item> \<open>Rtcp_Builder\<close> (rtcpcompoundpacketbuilder.cpp): how a compound packet is put together. \<open>Rtcp_Building\<close>: \<open>EndBuild\<close> as
    one run over the list of its packets. \<open>Rtcp_Contents\<close>: the builder is determined by what was put in (step relation
    \<open>building\<close>), and the size it computes is the size it writes. \<open>Rtcp_Reading\<close>, \<open>Rtcp_Roundtrip\<close>: what is built is
    parsed back and read back; the checks of the builder let a buffer of the caller be overrun.
  \<^item> \<open>Rtp_Session\<close>, \<open>Media_Session\<close> (myRtpSession.h, myRtpUdpSession.cpp, myRtpTcpSession.cpp,
    MediaSession.cpp): the waiting loops, the socket mutex, setting up and tearing down.
  \<^item> \<open>Rtsp_State\<close>, \<open>Rtsp_Uri\<close>, \<open>Rtsp_Transport\<close>, \<open>Rtsp_Auth\<close>, \<open>Rtsp_Commands\<close>, \<open>Rtsp_Media\<close>
    (rtspClient.cpp): the whole class. \<open>Rtsp_Responses\<close>, \<open>Rtsp_Exchange\<close>, \<open>Rtsp_Describe\<close>, \<open>Rtsp_Ports\<close>,
    \<open>Rtsp_Setup\<close>, \<open>Rtsp_Digest\<close>: what a command sends, byte by byte, and what it keeps of the answer.
  \<^item> \<open>Rtsp_Frames\<close>: \<open>GetMediaData\<close> refines \<open>frame_of\<close> (locale \<open>buffered_depacketizer\<close>: stale bytes behind a
    payload are not looked at) and where it leaves the buffer of the caller. \<open>Rtsp_Invariant\<close>: the class
    invariant in every client that public calls reach (step relation \<open>client_step\<close>, one rule for each public
    method that changes the object; locale \<open>session_command\<close>). \<open>Rtsp_Sessions\<close>: from a description to the sessions. \<open>Rtsp_Delivery\<close>: from RTP
    packets in any order of arrival to the frame.

  BOUNDS AND TERMINATION. No definition has fuel. Loops are structural or have a measure: the events left on
  a socket, the counter of a waiting loop (a \<open>timeout_ms\<close> of 0 makes 2^64 turns, which is the code's), the
  characters left. The search for ports may go on for ever, so it is a \<open>partial_function\<close>: it returns exactly
  if one of the 32768 pairs is free, and otherwise the result is \<open>Hangs\<close>, as it is for a second lock of the
  mutex. \<open>RECV_BUF_SIZE\<close> (8192)
  and the other sizes are those of the code.

  NOT MODELLED. Printing to \<open>cout\<close>, the \<open>Dump\<close> functions and failing allocations. Of JRTPLIB \<open>RTPSession\<close> itself,
  the transmitters, \<open>RTCPPacketBuilder\<close> and the RTCP scheduler (only what they answer enters, as
  data), the iterator over private SDES items, and the jitter estimate (arithmetic on \<open>double\<close>, which only
  the reports of the session read). That the queue of \<open>Rtp_Source\<close> and the events of \<open>Rtp_Session\<close> are the
  same packets is stated where both are used (\<open>Rtsp_Delivery\<close>). \<open>Rtp_Sources\<close> starts without a current source;
  the constructor of the hash table leaves that pointer uninitialised, which is undefined behaviour in
  \<open>Key_Hash_Table\<close> until the first operation that sets it. JTHREAD: threads do not run in parallel here, and
  a \<open>trylock\<close> answers from a script. The example programs, the tests and gtest.

  PLAN. Next in order of use: \<open>RTCPPacketBuilder\<close>, which fills the compound packets; PLAY and
  TEARDOWN as exchanges like SETUP; the H.265 counterpart of the theorem on fragments from the network.
\<close>

end
